(* ===== verification/Py_Prelude.thy ===== *)
theory Py_Prelude
  imports Main "HOL-Library.AList" "HOL-Library.Sublist"
begin

section \<open>The Python fragment the runtime is written in\<close>

text \<open>
  Shared vocabulary of the development. It fixes how the constructs of the Python sources
  are rendered:
  \<^item> exceptions are values of the type \<open>exn\<close> (a class and a message), and code that may
    raise has a result of type \<open>exn + 'a\<close>;
  \<^item> code that reads or writes shared state is a state transformer \<open>('s, 'a) io\<close>, that is
    \<open>'s \<Rightarrow> (exn + 'a) \<times> 's\<close>: the state survives an exception, as it does in Python;
  \<^item> a \<^verbatim>\<open>dict\<close> is an association list in insertion order, with the library operations
    \<open>AList.update\<close> and \<open>AList.delete\<close> for assignment and \<^verbatim>\<open>pop\<close>;
  \<^item> a \<^verbatim>\<open>str\<close> is a \<open>string\<close>, a sequence of code points below 256, on which the white-space
    and case tables below agree with Python's;
  \<^item> JSON-like values (\<^verbatim>\<open>Any\<close> fields that are serialised) are of type \<open>json\<close>;
  \<^item> an exception message is the literal text of the source; a value interpolated with
    \<^verbatim>\<open>!r\<close> or as a container is left out of it.
  The collections \<open>preserves_intros\<close> and \<open>py_strings\<close> carry the component proofs.
\<close>

named_theorems preserves_intros \<open>rules of the invariant calculus for state transformers\<close>

named_theorems py_strings \<open>facts on the string operations\<close>

subsection \<open>Exceptions and results\<close>

datatype exn_class =
    StaleWorkerError
  | IdempotencyCollisionError
  | FileNotFoundError
  | ValueError
  | InvalidTransitionError
  | TypeError
  | KeyError
  | RuntimeError
  | SandboxNoCapacityError
  | SandboxUnhealthyError
  | PlanCancellationRequested
  | ProjectionIntegrityError
  | CancelledError
  | OtherError string

datatype exn = Exn (exn_class: exn_class) (exn_message: string)

type_synonym 'a result = "exn + 'a"

text \<open>
  \<^verbatim>\<open>except Exception\<close> catches every class but \<^verbatim>\<open>asyncio.CancelledError\<close>, which derives from
  \<^verbatim>\<open>BaseException\<close>.
\<close>

definition is_Exception :: "exn \<Rightarrow> bool" where
  "is_Exception e \<longleftrightarrow> exn_class e \<noteq> CancelledError"

definition rbind :: "'a result \<Rightarrow> ('a \<Rightarrow> 'b result) \<Rightarrow> 'b result" where
  "rbind m f = (case m of Inl e \<Rightarrow> Inl e | Inr a \<Rightarrow> f a)"

lemma rbind_simps [simp]:
  "rbind (Inl e) f = Inl e"
  "rbind (Inr a) f = f a"
  by (simp_all add: rbind_def)

lemma rbind_Inr_iff: "rbind m f = Inr b \<longleftrightarrow> (\<exists>a. m = Inr a \<and> f a = Inr b)"
  by (cases m) simp_all

subsection \<open>State transformers with exceptions\<close>

type_synonym ('s, 'a) io = "'s \<Rightarrow> 'a result \<times> 's"

definition retE :: "'a \<Rightarrow> ('s, 'a) io" where
  "retE a = (\<lambda>s. (Inr a, s))"

definition raiseE :: "exn \<Rightarrow> ('s, 'a) io" where
  "raiseE e = (\<lambda>s. (Inl e, s))"

definition liftE :: "'a result \<Rightarrow> ('s, 'a) io" where
  "liftE r = (\<lambda>s. (r, s))"

definition getE :: "('s \<Rightarrow> 'a) \<Rightarrow> ('s, 'a) io" where
  "getE f = (\<lambda>s. (Inr (f s), s))"

definition modifyE :: "('s \<Rightarrow> 's) \<Rightarrow> ('s, unit) io" where
  "modifyE f = (\<lambda>s. (Inr (), f s))"

definition bindE :: "('s, 'a) io \<Rightarrow> ('a \<Rightarrow> ('s, 'b) io) \<Rightarrow> ('s, 'b) io" where
  "bindE m f = (\<lambda>s. case m s of (r, s') \<Rightarrow> (case r of Inl e \<Rightarrow> (Inl e, s') | Inr a \<Rightarrow> f a s'))"

definition thenE :: "('s, 'a) io \<Rightarrow> ('s, 'b) io \<Rightarrow> ('s, 'b) io" where
  "thenE m k = bindE m (\<lambda>_. k)"

text \<open>\<open>catchE m h\<close> is \<^verbatim>\<open>try: m\<close> with the handler \<open>h\<close>; a handler re-raises what it does not match.\<close>

definition catchE :: "('s, 'a) io \<Rightarrow> (exn \<Rightarrow> ('s, 'a) io) \<Rightarrow> ('s, 'a) io" where
  "catchE m h = (\<lambda>s. case m s of (r, s') \<Rightarrow> (case r of Inl e \<Rightarrow> h e s' | Inr a \<Rightarrow> (Inr a, s')))"

definition catch_class :: "exn_class \<Rightarrow> ('s, 'a) io \<Rightarrow> (exn \<Rightarrow> ('s, 'a) io) \<Rightarrow> ('s, 'a) io" where
  "catch_class c m h = catchE m (\<lambda>e. if exn_class e = c then h e else raiseE e)"

definition catch_Exception :: "('s, 'a) io \<Rightarrow> (exn \<Rightarrow> ('s, 'a) io) \<Rightarrow> ('s, 'a) io" where
  "catch_Exception m h = catchE m (\<lambda>e. if is_Exception e then h e else raiseE e)"

text \<open>\<^verbatim>\<open>with contextlib.suppress(Exception)\<close>: what is left of the block is skipped.\<close>

definition suppressE :: "('s, unit) io \<Rightarrow> ('s, unit) io" where
  "suppressE m = catch_Exception m (\<lambda>_. retE ())"

text \<open>\<^verbatim>\<open>try: m finally: fin\<close>: the clean-up always runs; when it raises, its exception is the one that is seen.\<close>

definition finallyE :: "('s, 'a) io \<Rightarrow> ('s, unit) io \<Rightarrow> ('s, 'a) io" where
  "finallyE m fin = (\<lambda>s. case m s of (r, s') \<Rightarrow>
     (case fin s' of (c, s'') \<Rightarrow> (case c of Inl e \<Rightarrow> (Inl e, s'') | Inr _ \<Rightarrow> (r, s''))))"

fun mapE :: "('a \<Rightarrow> ('s, 'b) io) \<Rightarrow> 'a list \<Rightarrow> ('s, 'b list) io" where
  "mapE f [] = retE []"
| "mapE f (x # xs) = bindE (f x) (\<lambda>y. bindE (mapE f xs) (\<lambda>ys. retE (y # ys)))"

fun forE :: "'a list \<Rightarrow> ('a \<Rightarrow> ('s, unit) io) \<Rightarrow> ('s, unit) io" where
  "forE [] f = retE ()"
| "forE (x # xs) f = thenE (f x) (forE xs f)"

fun foldE :: "('a \<Rightarrow> 'b \<Rightarrow> ('s, 'b) io) \<Rightarrow> 'a list \<Rightarrow> 'b \<Rightarrow> ('s, 'b) io" where
  "foldE f [] b = retE b"
| "foldE f (x # xs) b = bindE (f x b) (foldE f xs)"

lemma io_apply [simp]:
  "retE a s = (Inr a, s)"
  "raiseE e s = (Inl e, s)"
  "liftE r s = (r, s)"
  "getE g s = (Inr (g s), s)"
  "modifyE h s = (Inr (), h s)"
  by (simp_all add: retE_def raiseE_def liftE_def getE_def modifyE_def)

lemma bindE_apply: "bindE m f s = (case m s of (Inl e, s') \<Rightarrow> (Inl e, s') | (Inr a, s') \<Rightarrow> f a s')"
  by (simp add: bindE_def split: prod.splits sum.splits)

lemma bindE_eq [simp]:
  "m s = (Inr a, s') \<Longrightarrow> bindE m f s = f a s'"
  "m s = (Inl e, s') \<Longrightarrow> bindE m f s = (Inl e, s')"
  by (simp_all add: bindE_def)

text \<open>A Boolean result is a literal for the simplifier and needs its own instances.\<close>

lemma bindE_False [simp]: "m s = (Inr False, s') \<Longrightarrow> bindE m f s = f False s'"
  by simp

lemma bindE_retE [simp]: "bindE (retE a) f = f a"
  by (simp add: bindE_def)

lemma bindE_assoc: "bindE (bindE m f) g = bindE m (\<lambda>a. bindE (f a) g)"
  by (rule ext) (simp add: bindE_def split: prod.splits sum.splits)

lemma catchE_eq [simp]:
  "m s = (Inr a, s') \<Longrightarrow> catchE m h s = (Inr a, s')"
  "m s = (Inl e, s') \<Longrightarrow> catchE m h s = h e s'"
  by (simp_all add: catchE_def)

lemma thenE_eq [simp]:
  "m s = (Inr a, s') \<Longrightarrow> thenE m k s = k s'"
  "m s = (Inl e, s') \<Longrightarrow> thenE m k s = (Inl e, s')"
  by (simp_all add: thenE_def)

lemma bindE_Inr_iff:
  "bindE m f s = (Inr b, t) \<longleftrightarrow> (\<exists>a u. m s = (Inr a, u) \<and> f a u = (Inr b, t))"
  by (auto simp: bindE_def split: prod.splits sum.splits)

lemma thenE_Inr_iff:
  "thenE m k s = (Inr b, t) \<longleftrightarrow> (\<exists>a u. m s = (Inr a, u) \<and> k u = (Inr b, t))"
  by (simp add: thenE_def bindE_Inr_iff)

subsection \<open>The invariant calculus\<close>

text \<open>
  \<open>preserves P m\<close>: running \<open>m\<close> from a state with \<open>P\<close> ends in a state with \<open>P\<close>, whether or
  not \<open>m\<close> raises. The rules follow the combinators, so an invariant of a compound operation
  comes from the invariants of the operations it calls.
\<close>

definition preserves :: "('s \<Rightarrow> bool) \<Rightarrow> ('s, 'a) io \<Rightarrow> bool" where
  "preserves P m \<longleftrightarrow> (\<forall>s. P s \<longrightarrow> P (snd (m s)))"

lemma preservesI: "(\<And>s. P s \<Longrightarrow> P (snd (m s))) \<Longrightarrow> preserves P m"
  by (simp add: preserves_def)

lemma preserves_apply: "preserves P m \<Longrightarrow> P s \<Longrightarrow> P (snd (m s))"
  by (simp add: preserves_def)

lemma preservesD: "preserves P m \<Longrightarrow> P s \<Longrightarrow> m s = (r, s') \<Longrightarrow> P s'"
  by (metis preserves_def snd_conv)

lemma preserves_pure [preserves_intros, simp]:
  "preserves P (retE a)"
  "preserves P (raiseE e)"
  "preserves P (liftE r)"
  "preserves P (getE f)"
  by (simp_all add: preserves_def)

lemma preserves_modifyE [preserves_intros]:
  "(\<And>s. P s \<Longrightarrow> P (f s)) \<Longrightarrow> preserves P (modifyE f)"
  by (simp add: preserves_def)

lemma preserves_bindE [preserves_intros]:
  assumes "preserves P m" and "\<And>a. preserves P (f a)"
  shows "preserves P (bindE m f)"
proof (rule preservesI)
  fix s assume "P s"
  obtain r s' where m: "m s = (r, s')" by (cases "m s")
  with \<open>P s\<close> assms(1) have "P s'" by (auto dest: preservesD)
  with m assms(2) show "P (snd (bindE m f s))"
    by (cases r) (auto simp: preserves_def)
qed

lemma preserves_thenE [preserves_intros]:
  "preserves P m \<Longrightarrow> preserves P k \<Longrightarrow> preserves P (thenE m k)"
  by (simp add: thenE_def preserves_bindE)

lemma preserves_catchE [preserves_intros]:
  assumes "preserves P m" and "\<And>e. preserves P (h e)"
  shows "preserves P (catchE m h)"
proof (rule preservesI)
  fix s assume "P s"
  obtain r s' where m: "m s = (r, s')" by (cases "m s")
  with \<open>P s\<close> assms(1) have "P s'" by (auto dest: preservesD)
  with m assms(2) show "P (snd (catchE m h s))"
    by (cases r) (auto simp: preserves_def)
qed

lemma preserves_catch_class [preserves_intros]:
  "preserves P m \<Longrightarrow> (\<And>e. preserves P (h e)) \<Longrightarrow> preserves P (catch_class c m h)"
  by (auto simp: catch_class_def intro!: preserves_intros)

lemma preserves_catch_Exception [preserves_intros]:
  "preserves P m \<Longrightarrow> (\<And>e. preserves P (h e)) \<Longrightarrow> preserves P (catch_Exception m h)"
  by (auto simp: catch_Exception_def intro!: preserves_intros)

lemma preserves_suppressE [preserves_intros]: "preserves P m \<Longrightarrow> preserves P (suppressE m)"
  by (auto simp: suppressE_def intro!: preserves_intros)

lemma preserves_finallyE [preserves_intros]:
  assumes "preserves P m" and "preserves P fin"
  shows "preserves P (finallyE m fin)"
proof (rule preservesI)
  fix s assume "P s"
  with assms have "P (snd (fin (snd (m s))))" by (simp add: preserves_def)
  then show "P (snd (finallyE m fin s))"
    by (cases "m s"; cases "fin (snd (m s))") (auto simp: finallyE_def split: sum.splits)
qed

lemma preserves_mapE [preserves_intros]:
  "(\<And>x. preserves P (f x)) \<Longrightarrow> preserves P (mapE f xs)"
  by (induction xs) (auto intro!: preserves_intros)

lemma preserves_forE [preserves_intros]:
  "(\<And>x. preserves P (f x)) \<Longrightarrow> preserves P (forE xs f)"
  by (induction xs) (auto intro!: preserves_intros)

lemma preserves_foldE [preserves_intros]:
  "(\<And>x b. preserves P (f x b)) \<Longrightarrow> preserves P (foldE f xs b)"
  by (induction xs arbitrary: b) (auto intro!: preserves_intros)

lemma preserves_if [preserves_intros]:
  "(b \<Longrightarrow> preserves P m) \<Longrightarrow> (\<not> b \<Longrightarrow> preserves P k) \<Longrightarrow> preserves P (if b then m else k)"
  by simp

lemma preserves_case_option [preserves_intros]:
  "(x = None \<Longrightarrow> preserves P m) \<Longrightarrow> (\<And>a. x = Some a \<Longrightarrow> preserves P (f a))
   \<Longrightarrow> preserves P (case x of None \<Rightarrow> m | Some a \<Rightarrow> f a)"
  by (cases x) simp_all

lemma preserves_case_sum [preserves_intros]:
  "(\<And>e. r = Inl e \<Longrightarrow> preserves P (f e)) \<Longrightarrow> (\<And>a. r = Inr a \<Longrightarrow> preserves P (g a))
   \<Longrightarrow> preserves P (case r of Inl e \<Rightarrow> f e | Inr a \<Rightarrow> g a)"
  by (cases r) simp_all

lemma preserves_case_prod [preserves_intros]:
  "(\<And>a b. p = (a, b) \<Longrightarrow> preserves P (f a b)) \<Longrightarrow> preserves P (case p of (a, b) \<Rightarrow> f a b)"
  by (cases p) simp

lemma preserves_Let [preserves_intros]:
  "preserves P (f a) \<Longrightarrow> preserves P (let x = a in f x)"
  by simp

subsection \<open>Changes of the invariant\<close>

text \<open>
  \<open>takes Q m R\<close>: from a state with \<open>Q\<close>, \<open>m\<close> ends in a state with \<open>R\<close>, whether or not it
  raises. A part of \<open>m\<close> that keeps \<open>Q\<close> may come before the step that establishes \<open>R\<close>, a part
  that keeps \<open>R\<close> may come after it.
\<close>

definition takes :: "('s \<Rightarrow> bool) \<Rightarrow> ('s, 'a) io \<Rightarrow> ('s \<Rightarrow> bool) \<Rightarrow> bool" where
  "takes Q m R \<longleftrightarrow> (\<forall>s. Q s \<longrightarrow> R (snd (m s)))"

lemma takesD: "takes Q m R \<Longrightarrow> Q s \<Longrightarrow> m s = (r, s') \<Longrightarrow> R s'"
  by (metis takes_def snd_conv)

lemma takesI: "(\<And>s r s'. Q s \<Longrightarrow> m s = (r, s') \<Longrightarrow> R s') \<Longrightarrow> takes Q m R"
  by (simp add: takes_def prod_eq_iff)

lemma preserves_takes: "preserves P m \<longleftrightarrow> takes P m P"
  by (simp add: preserves_def takes_def)

lemma takes_conseq:
  "takes Q m R \<Longrightarrow> (\<And>s. Q' s \<Longrightarrow> Q s) \<Longrightarrow> (\<And>s. R s \<Longrightarrow> R' s) \<Longrightarrow> takes Q' m R'"
  by (simp add: takes_def)

lemma takes_weaken: "preserves R m \<Longrightarrow> (\<And>s. Q s \<Longrightarrow> R s) \<Longrightarrow> takes Q m R"
  by (simp add: takes_def preserves_def)

lemma takes_bind_before:
  "preserves Q m \<Longrightarrow> (\<And>s. Q s \<Longrightarrow> R s) \<Longrightarrow> (\<And>a. takes Q (f a) R) \<Longrightarrow> takes Q (bindE m f) R"
  by (auto simp: takes_def preserves_def bindE_def split: prod.splits sum.splits)

lemma takes_bind_after:
  "takes Q m R \<Longrightarrow> (\<And>a. preserves R (f a)) \<Longrightarrow> takes Q (bindE m f) R"
  by (auto simp: takes_def preserves_def bindE_def split: prod.splits sum.splits)

lemma takes_then_before:
  "preserves Q m \<Longrightarrow> (\<And>s. Q s \<Longrightarrow> R s) \<Longrightarrow> takes Q k R \<Longrightarrow> takes Q (thenE m k) R"
  unfolding thenE_def by (rule takes_bind_before)

lemma takes_then_after: "takes Q m R \<Longrightarrow> preserves R k \<Longrightarrow> takes Q (thenE m k) R"
  unfolding thenE_def by (rule takes_bind_after)

lemma takes_catch_after:
  "takes Q m R \<Longrightarrow> (\<And>e. preserves R (h e)) \<Longrightarrow> takes Q (catchE m h) R"
  by (auto simp: takes_def preserves_def catchE_def split: prod.splits sum.splits)

lemma takes_finally:
  "takes Q m N \<Longrightarrow> takes N fin R \<Longrightarrow> takes Q (finallyE m fin) R"
  by (auto simp: takes_def finallyE_def split: prod.splits sum.splits)

lemma takes_finally_after: "takes Q m R \<Longrightarrow> preserves R fin \<Longrightarrow> takes Q (finallyE m fin) R"
  unfolding preserves_takes by (rule takes_finally)

lemma takes_if: "(b \<Longrightarrow> takes Q m R) \<Longrightarrow> (\<not> b \<Longrightarrow> takes Q k R) \<Longrightarrow> takes Q (if b then m else k) R"
  by simp

subsection \<open>Exceptions that a handler catches\<close>

text \<open>\<open>mild m\<close>: what \<open>m\<close> raises, an \<^verbatim>\<open>except Exception\<close> catches.\<close>

definition mild :: "('s, 'a) io \<Rightarrow> bool" where
  "mild m \<longleftrightarrow> (\<forall>s e s'. m s = (Inl e, s') \<longrightarrow> is_Exception e)"

lemma mild_bindE: "mild m \<Longrightarrow> (\<And>a. mild (f a)) \<Longrightarrow> mild (bindE m f)"
  by (auto simp: mild_def bindE_def split: prod.splits sum.splits)

lemma mild_thenE: "mild m \<Longrightarrow> mild k \<Longrightarrow> mild (thenE m k)"
  by (simp add: thenE_def mild_bindE)

lemma mild_catch: "mild m \<Longrightarrow> (\<And>e. mild (h e)) \<Longrightarrow> mild (catch_Exception m h)" "mild m \<Longrightarrow> (\<And>e. mild (h e)) \<Longrightarrow> mild (catch_class c m h)"
  by (auto simp: mild_def catch_Exception_def catch_class_def catchE_def split: prod.splits sum.splits if_splits)

lemma mild_pure: "mild (retE a)" "mild (getE f)" "mild (modifyE g)" "is_Exception e \<Longrightarrow> mild (raiseE e)"
  by (simp_all add: mild_def)

lemma mild_split:
  "(c \<Longrightarrow> mild m) \<Longrightarrow> (\<not> c \<Longrightarrow> mild n) \<Longrightarrow> mild (if c then m else n)"
  "mild (f a b) \<Longrightarrow> mild (case (a, b) of (x, y) \<Rightarrow> f x y)"
  by simp_all

lemma catch_answers:
  assumes "mild m" and "\<And>e v. \<exists>a v'. h e v = (Inr a, v')"
  shows "\<exists>a w'. catch_Exception m h w = (Inr a, w')"
proof -
  obtain r w1 where m: "m w = (r, w1)" by (cases "m w")
  show ?thesis
  proof (cases r)
    case (Inl e)
    with m assms(1) have "is_Exception e" by (auto simp: mild_def)
    with m Inl assms(2) show ?thesis by (simp add: catch_Exception_def)
  qed (use m in \<open>simp add: catch_Exception_def\<close>)
qed

lemma suppress_answers: "mild m \<Longrightarrow> \<exists>w'. suppressE m w = (Inr (), w')"
  unfolding suppressE_def using catch_answers [of m "\<lambda>_. retE ()" w] by simp

subsection \<open>Outcomes\<close>

text \<open>\<open>ends Q m R\<close>: from a state with \<open>Q\<close>, the outcome of \<open>m\<close> and the state it leaves are related by \<open>R\<close>.\<close>

definition ends :: "('s \<Rightarrow> bool) \<Rightarrow> ('s, 'a) io \<Rightarrow> ('a result \<Rightarrow> 's \<Rightarrow> bool) \<Rightarrow> bool" where
  "ends Q m R \<longleftrightarrow> (\<forall>s r s'. Q s \<longrightarrow> m s = (r, s') \<longrightarrow> R r s')"

lemma ends_bind:
  assumes "ends Q m M" and "\<And>a. ends (M (Inr a)) (f a) R" and "\<And>e s. M (Inl e) s \<Longrightarrow> R (Inl e) s"
  shows "ends Q (bindE m f) R"
  unfolding ends_def
proof (intro allI impI)
  fix s r s' assume s: "Q s" and b: "bindE m f s = (r, s')"
  obtain q t where q: "m s = (q, t)" by (cases "m s")
  with s assms(1) have "M q t" by (simp add: ends_def)
  with q b assms(2,3) show "R r s'" by (cases q) (auto simp: ends_def)
qed

lemma ends_then:
  "ends Q m M \<Longrightarrow> (\<And>a. ends (M (Inr a)) k R) \<Longrightarrow> (\<And>e s. M (Inl e) s \<Longrightarrow> R (Inl e) s) \<Longrightarrow> ends Q (thenE m k) R"
  unfolding thenE_def by (rule ends_bind)

lemma ends_keeps: "preserves Q m \<Longrightarrow> ends Q m (\<lambda>_. Q)"
  by (auto simp: ends_def dest: preservesD)

lemma ends_retE: "(\<And>s. Q s \<Longrightarrow> R (Inr a) s) \<Longrightarrow> ends Q (retE a) R"
  by (simp add: ends_def)

lemma ends_raiseE: "(\<And>s. Q s \<Longrightarrow> R (Inl e) s) \<Longrightarrow> ends Q (raiseE e) R"
  by (simp add: ends_def)

lemma ends_split:
  "(c \<Longrightarrow> ends Q m R) \<Longrightarrow> (\<not> c \<Longrightarrow> ends Q n R) \<Longrightarrow> ends Q (if c then m else n) R"
  "(x = None \<Longrightarrow> ends Q m R) \<Longrightarrow> (\<And>a. x = Some a \<Longrightarrow> ends Q (f a) R) \<Longrightarrow> ends Q (case x of None \<Rightarrow> m | Some a \<Rightarrow> f a) R"
  by (simp, cases x) simp_all

lemma ends_conseq: "ends Q m R \<Longrightarrow> (\<And>s. Q' s \<Longrightarrow> Q s) \<Longrightarrow> (\<And>r s. R r s \<Longrightarrow> R' r s) \<Longrightarrow> ends Q' m R'"
  unfolding ends_def by blast

lemma ends_pre: "(\<And>s. Q s \<Longrightarrow> c) \<Longrightarrow> (c \<Longrightarrow> ends Q m R) \<Longrightarrow> ends Q m R"
  unfolding ends_def by blast

subsection \<open>Loops\<close>

text \<open>
  A \<^verbatim>\<open>while\<close> loop whose body says whether to go round again. A loop that does not end has no
  value (\<open>None\<close>); the rule below shows that it ends when a measure decreases, and what then holds.
\<close>

partial_function (option) whileE :: "('s, bool) io \<Rightarrow> 's \<Rightarrow> (unit result \<times> 's) option" where
  "whileE body s =
     (case body s of
        (Inl e, s') \<Rightarrow> Some (Inl e, s')
      | (Inr again, s') \<Rightarrow> if again then whileE body s' else Some (Inr (), s'))"

lemma whileE_rule:
  fixes m :: "'s \<Rightarrow> nat"
  assumes "P s"
    and step: "\<And>s r s'. P s \<Longrightarrow> body s = (r, s') \<Longrightarrow> P s'"
    and dec: "\<And>s s'. P s \<Longrightarrow> body s = (Inr True, s') \<Longrightarrow> m s' < m s"
  shows "\<exists>r s'. whileE body s = Some (r, s') \<and> P s' \<and> (r = Inr () \<longrightarrow> (\<exists>s0. P s0 \<and> body s0 = (Inr False, s')))
           \<and> (\<forall>e. r = Inl e \<longrightarrow> (\<exists>s0. P s0 \<and> body s0 = (Inl e, s')))"
  using assms(1)
proof (induction s rule: measure_induct_rule [of m])
  case (less s)
  obtain r s' where b: "body s = (r, s')" by (cases "body s")
  have P': "P s'" using step [OF less.prems b] .
  show ?case
  proof (cases r)
    case (Inl e)
    with b P' less.prems show ?thesis by (subst whileE.simps) auto
  next
    case (Inr again)
    show ?thesis
    proof (cases again)
      case True
      with b Inr have bT: "body s = (Inr True, s')" by simp
      from less.IH [OF dec [OF less.prems bT] P'] bT show ?thesis
        by (subst whileE.simps) simp
    next
      case False
      with b Inr P' less.prems show ?thesis by (subst whileE.simps) auto
    qed
  qed
qed

lemma whileE_preserves:
  assumes "preserves P body" and "P s" and "whileE body s = Some (r, s')"
  shows "P s'"
proof -
  have step: "b = body \<longrightarrow> P s \<longrightarrow> P (snd y)"
    if h: "\<And>b s y. w b s = Some y \<Longrightarrow> b = body \<longrightarrow> P s \<longrightarrow> P (snd y)"
      and y: "(case b s of (Inl e, s') \<Rightarrow> Some (Inl e, s') | (Inr again, s') \<Rightarrow> if again then w b s' else Some (Inr (), s')) = Some y"
    for w :: "('a, bool) io \<Rightarrow> 'a \<Rightarrow> (unit result \<times> 'a) option" and b s y
  proof (intro impI)
    assume b: "b = body" and "P s"
    obtain q t where q: "body s = (q, t)" by (cases "body s")
    have "P t" using preservesD [OF assms(1) \<open>P s\<close> q] .
    with h [of b t y] y b q show "P (snd y)" by (cases q) (auto split: if_splits)
  qed
  have "body = body \<longrightarrow> P s \<longrightarrow> P (snd (r, s'))"
    by (rule whileE.raw_induct [where P = "\<lambda>b s y. b = body \<longrightarrow> P s \<longrightarrow> P (snd y)", OF _ assms(3)]) (rule step)
  with assms(2) show ?thesis by simp
qed

subsection \<open>Operations that may not end\<close>

text \<open>
  Code that calls a loop is a partial operation: no value when the loop does not end. The
  combinators carry exceptions as the total ones do, and \<open>preservesP\<close> is the invariant calculus.
\<close>

type_synonym ('s, 'a) pio = "'s \<Rightarrow> ('a result \<times> 's) option"

definition totalP :: "('s, 'a) io \<Rightarrow> ('s, 'a) pio" where
  "totalP m = (\<lambda>s. Some (m s))"

definition bindP :: "('s, 'a) pio \<Rightarrow> ('a \<Rightarrow> ('s, 'b) pio) \<Rightarrow> ('s, 'b) pio" where
  "bindP m f = (\<lambda>s.
     case m s of
       None \<Rightarrow> None
     | Some (r, s') \<Rightarrow> (case r of Inl e \<Rightarrow> Some (Inl e, s') | Inr a \<Rightarrow> f a s'))"

definition catchP :: "('s, 'a) pio \<Rightarrow> (exn \<Rightarrow> ('s, 'a) io) \<Rightarrow> ('s, 'a) pio" where
  "catchP m h = (\<lambda>s.
     case m s of
       None \<Rightarrow> None
     | Some (r, s') \<Rightarrow> (case r of Inl e \<Rightarrow> Some (h e s') | Inr a \<Rightarrow> Some (Inr a, s')))"

definition preservesP :: "('s \<Rightarrow> bool) \<Rightarrow> ('s, 'a) pio \<Rightarrow> bool" where
  "preservesP P m \<longleftrightarrow> (\<forall>s r s'. P s \<longrightarrow> m s = Some (r, s') \<longrightarrow> P s')"

lemma preservesPD: "preservesP P m \<Longrightarrow> P s \<Longrightarrow> m s = Some (r, s') \<Longrightarrow> P s'"
  by (simp add: preservesP_def)

lemma preservesP_totalP [preserves_intros]: "preserves P m \<Longrightarrow> preservesP P (totalP m)"
  by (auto simp: preservesP_def totalP_def dest: preservesD)

lemma preservesP_bindP [preserves_intros]:
  assumes "preservesP P m" and "\<And>a. preservesP P (f a)"
  shows "preservesP P (bindP m f)"
  unfolding preservesP_def
proof (intro allI impI)
  fix s r s' assume s: "P s" and b: "bindP m f s = Some (r, s')"
  then obtain q t where q: "m s = Some (q, t)" by (auto simp: bindP_def split: option.splits)
  with preservesPD [OF assms(1) s q] b assms(2) show "P s'"
    by (cases q) (auto simp: bindP_def preservesP_def)
qed

lemma preservesP_catchP [preserves_intros]:
  assumes "preservesP P m" and "\<And>e. preserves P (h e)"
  shows "preservesP P (catchP m h)"
  unfolding preservesP_def
proof (intro allI impI)
  fix s r s' assume s: "P s" and c: "catchP m h s = Some (r, s')"
  then obtain q t where q: "m s = Some (q, t)" by (auto simp: catchP_def split: option.splits)
  with preservesPD [OF assms(1) s q] c assms(2) show "P s'"
    by (cases q) (auto simp: catchP_def dest: preservesD)
qed

lemma preservesP_whileE [preserves_intros]: "preserves P body \<Longrightarrow> preservesP P (whileE body)"
  by (auto simp: preservesP_def intro: whileE_preserves)

lemma bindP_Some_iff:
  "bindP m f s = Some (r, t) \<longleftrightarrow>
     (\<exists>e. m s = Some (Inl e, t) \<and> r = Inl e) \<or> (\<exists>a u. m s = Some (Inr a, u) \<and> f a u = Some (r, t))"
  by (auto simp: bindP_def split: option.splits sum.splits)

lemma catchP_Some_iff:
  "catchP m h s = Some (r, t) \<longleftrightarrow>
     (\<exists>a. m s = Some (Inr a, t) \<and> r = Inr a) \<or> (\<exists>e u. m s = Some (Inl e, u) \<and> h e u = (r, t))"
  by (auto simp: catchP_def split: option.splits sum.splits)

subsection \<open>Local variables\<close>

text \<open>
  A handler sees the local variables as the interrupted block left them. Such a block runs in a
  state that pairs its variables with the world: \<open>onworld\<close> and \<open>onworldP\<close> act on the world only,
  \<open>assign\<close> changes the variables, and \<open>withlocals\<close> enters the block with their first values.
\<close>

definition onworld :: "('w, 'a) io \<Rightarrow> ('l \<times> 'w, 'a) io" where
  "onworld m = (\<lambda>(l, w). case m w of (r, w') \<Rightarrow> (r, (l, w')))"

definition onworldP :: "('w, 'a) pio \<Rightarrow> ('l \<times> 'w, 'a) pio" where
  "onworldP m = (\<lambda>(l, w). map_option (\<lambda>(r, w'). (r, (l, w'))) (m w))"

definition assign :: "('l \<Rightarrow> 'l) \<Rightarrow> ('l \<times> 'w, unit) io" where
  "assign f = modifyE (\<lambda>(l, w). (f l, w))"

definition withlocals :: "'l \<Rightarrow> ('l \<times> 'w, 'a) io \<Rightarrow> ('w, 'a) io" where
  "withlocals l m = (\<lambda>w. case m (l, w) of (r, (_, w')) \<Rightarrow> (r, w'))"

definition withlocalsP :: "'l \<Rightarrow> ('l \<times> 'w, 'a) pio \<Rightarrow> ('w, 'a) pio" where
  "withlocalsP l m = (\<lambda>w. map_option (\<lambda>(r, (_, w')). (r, w')) (m (l, w)))"

lemma onworld_apply: "onworld m (l, w) = (fst (m w), (l, snd (m w)))"
  by (simp add: onworld_def split_beta)

lemma onworld_eq [simp]: "m w = (r, w') \<Longrightarrow> onworld m (l, w) = (r, (l, w'))"
  by (simp add: onworld_def)

lemma assign_apply [simp]: "assign f (l, w) = (Inr (), (f l, w))"
  by (simp add: assign_def)

abbreviation on_snd :: "('w \<Rightarrow> bool) \<Rightarrow> 'l \<times> 'w \<Rightarrow> bool" where
  "on_snd P s \<equiv> P (snd s)"

lemma preserves_onworld [preserves_intros]: "preserves P m \<Longrightarrow> preserves (on_snd P) (onworld m)"
  by (auto simp: preserves_def onworld_apply)

lemma preserves_assign [preserves_intros]: "preserves (on_snd P) (assign f)"
  by (auto simp: preserves_def)

lemma preserves_withlocals [preserves_intros]: "preserves (on_snd P) m \<Longrightarrow> preserves P (withlocals l m)"
  by (auto simp: preserves_def withlocals_def split_beta)

lemma mild_locals: "mild m \<Longrightarrow> mild (onworld m)" "mild (assign f)"
  by (auto simp: mild_def onworld_def assign_def split: prod.splits)

lemma preservesP_onworldP [preserves_intros]: "preservesP P m \<Longrightarrow> preservesP (on_snd P) (onworldP m)"
  by (auto simp: preservesP_def onworldP_def)

lemma preservesP_withlocalsP [preserves_intros]: "preservesP (on_snd P) m \<Longrightarrow> preservesP P (withlocalsP l m)"
  by (fastforce simp: preservesP_def withlocalsP_def)

subsection \<open>Slices\<close>

text \<open>\<^verbatim>\<open>xs[:n]\<close>, where a negative \<open>n\<close> counts from the end.\<close>

definition py_take :: "int \<Rightarrow> 'a list \<Rightarrow> 'a list" where
  "py_take n xs = take (nat (if n < 0 then int (length xs) + n else n)) xs"

text \<open>\<^verbatim>\<open>xs[-n:]\<close> for a positive \<open>n\<close>, and the whole list for \<open>n = 0\<close>.\<close>

definition py_last :: "nat \<Rightarrow> 'a list \<Rightarrow> 'a list" where
  "py_last n xs = (if n = 0 then xs else drop (length xs - n) xs)"

lemma set_py_take: "set (py_take n xs) \<subseteq> set xs"
  by (simp add: py_take_def set_take_subset)

lemma length_py_take: "0 \<le> n \<Longrightarrow> int (length (py_take n xs)) \<le> n"
  by (simp add: py_take_def)

lemma distinct_py_take: "distinct xs \<Longrightarrow> distinct (py_take n xs)"
  by (simp add: py_take_def)

subsection \<open>Dictionaries\<close>

type_synonym ('k, 'v) dict = "('k \<times> 'v) list"

abbreviation dict_get :: "('k, 'v) dict \<Rightarrow> 'k \<Rightarrow> 'v option" where
  "dict_get d k \<equiv> map_of d k"

abbreviation dict_set :: "'k \<Rightarrow> 'v \<Rightarrow> ('k, 'v) dict \<Rightarrow> ('k, 'v) dict" where
  "dict_set k v d \<equiv> AList.update k v d"

abbreviation dict_pop :: "'k \<Rightarrow> ('k, 'v) dict \<Rightarrow> ('k, 'v) dict" where
  "dict_pop k d \<equiv> AList.delete k d"

abbreviation dict_values :: "('k, 'v) dict \<Rightarrow> 'v list" where
  "dict_values d \<equiv> map snd d"

abbreviation dict_keys :: "('k, 'v) dict \<Rightarrow> 'k list" where
  "dict_keys d \<equiv> map fst d"

definition dict_ok :: "('k, 'v) dict \<Rightarrow> bool" where
  "dict_ok d \<longleftrightarrow> distinct (dict_keys d)"

lemma dict_ok_Nil [simp]: "dict_ok []"
  by (simp add: dict_ok_def)

lemma dict_ok_set [simp]: "dict_ok d \<Longrightarrow> dict_ok (dict_set k v d)"
  by (simp add: dict_ok_def distinct_update)

lemma dict_ok_pop [simp]: "dict_ok d \<Longrightarrow> dict_ok (dict_pop k d)"
  by (simp add: dict_ok_def distinct_delete)

lemma dict_get_set: "dict_get (dict_set k v d) k' = (if k' = k then Some v else dict_get d k')"
  by (simp add: update_conv')

lemma dict_get_pop: "dict_get (dict_pop k d) k' = (if k' = k then None else dict_get d k')"
  by (simp add: delete_conv')

lemma dict_get_in: "dict_get d k = Some v \<Longrightarrow> (k, v) \<in> set d"
  by (rule map_of_SomeD)

lemma dict_ok_get_iff: "dict_ok d \<Longrightarrow> dict_get d k = Some v \<longleftrightarrow> (k, v) \<in> set d"
  by (simp add: dict_ok_def map_of_eq_Some_iff)

lemma dict_get_None_iff: "dict_get d k = None \<longleftrightarrow> k \<notin> set (dict_keys d)"
  by (simp add: map_of_eq_None_iff)

lemma dict_keys_set [simp]:
  "dict_keys (dict_set k v d) = (if k \<in> set (dict_keys d) then dict_keys d else dict_keys d @ [k])"
  by (rule update_keys)

text \<open>\<^verbatim>\<open>list(dict.fromkeys(xs))\<close>: the distinct elements in order of first occurrence.\<close>

fun dedup_from :: "'a list \<Rightarrow> 'a list \<Rightarrow> 'a list" where
  "dedup_from seen [] = []"
| "dedup_from seen (x # xs) =
     (if x \<in> set seen then dedup_from seen xs else x # dedup_from (x # seen) xs)"

definition dict_fromkeys :: "'a list \<Rightarrow> 'a list" where
  "dict_fromkeys xs = dedup_from [] xs"

lemma set_dedup_from: "set (dedup_from seen xs) = set xs - set seen"
  by (induction seen xs rule: dedup_from.induct) auto

lemma distinct_dedup_from: "distinct (dedup_from seen xs)"
  by (induction seen xs rule: dedup_from.induct) (auto simp: set_dedup_from)

lemma set_dict_fromkeys [simp]: "set (dict_fromkeys xs) = set xs"
  by (simp add: dict_fromkeys_def set_dedup_from)

lemma distinct_dict_fromkeys [simp]: "distinct (dict_fromkeys xs)"
  by (simp add: dict_fromkeys_def distinct_dedup_from)

end
