(* ===== verification/Py_Strings.thy ===== *)
theory Py_Strings
  imports Py_Prelude Complex_Main
begin

section \<open>Strings, decimal numerals and JSON values\<close>

text \<open>
  The string methods the sources use (\<^verbatim>\<open>strip\<close>, \<^verbatim>\<open>lower\<close>, \<^verbatim>\<open>split\<close>, \<^verbatim>\<open>partition\<close>, \<^verbatim>\<open>join\<close>,
  \<^verbatim>\<open>in\<close>), \<^verbatim>\<open>str\<close> and \<^verbatim>\<open>int\<close> between integers and decimal text, and the JSON-like values held
  by \<^verbatim>\<open>dict[str, Any]\<close> fields (floats as rationals). Every function is executable.
\<close>

subsection \<open>White space and case\<close>

definition py_isspace :: "char \<Rightarrow> bool" where
  "py_isspace c \<longleftrightarrow> (of_char c :: nat) \<in> {9, 10, 11, 12, 13, 28, 29, 30, 31, 32, 133, 160}"

definition py_lstrip :: "string \<Rightarrow> string" where
  "py_lstrip s = dropWhile py_isspace s"

definition py_rstrip :: "string \<Rightarrow> string" where
  "py_rstrip s = rev (dropWhile py_isspace (rev s))"

definition py_strip :: "string \<Rightarrow> string" where
  "py_strip s = py_rstrip (py_lstrip s)"

definition py_lower_char :: "char \<Rightarrow> char" where
  "py_lower_char c =
     (let n = (of_char c :: nat)
      in if (65 \<le> n \<and> n \<le> 90) \<or> (192 \<le> n \<and> n \<le> 222 \<and> n \<noteq> 215) then char_of (n + 32) else c)"

definition py_lower :: "string \<Rightarrow> string" where
  "py_lower s = map py_lower_char s"

definition stripped :: "string \<Rightarrow> bool" where
  "stripped s \<longleftrightarrow> s = [] \<or> (\<not> py_isspace (hd s) \<and> \<not> py_isspace (last s))"

lemma hd_dropWhile_not: "dropWhile P xs \<noteq> [] \<Longrightarrow> \<not> P (hd (dropWhile P xs))"
  by (rule hd_dropWhile)

lemma py_strip_stripped: "stripped s \<Longrightarrow> py_strip s = s"
proof (cases "s = []")
  case False
  assume "stripped s"
  with False have h: "\<not> py_isspace (hd s)" and l: "\<not> py_isspace (last s)"
    by (auto simp: stripped_def)
  from False h have "py_lstrip s = s"
    by (cases s) (auto simp: py_lstrip_def)
  moreover from False l have "py_rstrip s = s"
    by (cases s rule: rev_cases) (auto simp: py_rstrip_def)
  ultimately show ?thesis by (simp add: py_strip_def)
qed (simp add: py_strip_def py_lstrip_def py_rstrip_def)

lemma last_py_rstrip: "py_rstrip s \<noteq> [] \<Longrightarrow> \<not> py_isspace (last (py_rstrip s))"
  using hd_dropWhile [of py_isspace "rev s"] by (simp add: py_rstrip_def last_rev)

lemma py_rstrip_prefix: "\<exists>w. s = py_rstrip s @ w \<and> list_all py_isspace w"
proof -
  let ?w = "rev (takeWhile py_isspace (rev s))"
  have "rev (py_rstrip s @ ?w) = rev s"
    by (simp add: py_rstrip_def)
  then have "s = py_rstrip s @ ?w"
    by (simp only: rev_is_rev_conv)
  moreover have "list_all py_isspace ?w"
    by (auto simp: list_all_iff dest: set_takeWhileD)
  ultimately show ?thesis by blast
qed

lemma stripped_py_strip [simp]: "stripped (py_strip s)"
proof (cases "py_strip s = []")
  case False
  let ?t = "py_lstrip s"
  obtain w where w: "?t = py_strip s @ w"
    using py_rstrip_prefix [of ?t] by (auto simp: py_strip_def)
  with False have "?t \<noteq> []" by simp
  then have "\<not> py_isspace (hd ?t)"
    unfolding py_lstrip_def by (rule hd_dropWhile_not)
  with False w have "\<not> py_isspace (hd (py_strip s))"
    by (metis hd_append2)
  moreover from False have "\<not> py_isspace (last (py_strip s))"
    using last_py_rstrip by (simp add: py_strip_def)
  ultimately show ?thesis by (simp add: stripped_def)
qed (simp add: stripped_def)

lemma py_strip_idem [simp]: "py_strip (py_strip s) = py_strip s"
  by (rule py_strip_stripped) simp

lemma py_strip_Nil [simp]: "py_strip [] = []"
  by (simp add: py_strip_def py_lstrip_def py_rstrip_def)

subsection \<open>Substrings, splitting and joining\<close>

fun str_contains :: "string \<Rightarrow> string \<Rightarrow> bool" where
  "str_contains p [] = (p = [])"
| "str_contains p (c # cs) = (take (length p) (c # cs) = p \<or> str_contains p cs)"

fun split_on :: "char \<Rightarrow> string \<Rightarrow> string list" where
  "split_on sep [] = [[]]"
| "split_on sep (c # cs) =
     (if c = sep then [] # split_on sep cs
      else case split_on sep cs of [] \<Rightarrow> [[c]] | w # ws \<Rightarrow> (c # w) # ws)"

text \<open>\<^verbatim>\<open>s.partition(sep)\<close> for a one-character separator: head, whether it was found, tail.\<close>

definition partition_on :: "char \<Rightarrow> string \<Rightarrow> string \<times> bool \<times> string" where
  "partition_on sep s =
     (if sep \<in> set s
      then (takeWhile (\<lambda>c. c \<noteq> sep) s, True, tl (dropWhile (\<lambda>c. c \<noteq> sep) s))
      else (s, False, []))"

fun join_with :: "char \<Rightarrow> string list \<Rightarrow> string" where
  "join_with sep [] = []"
| "join_with sep [w] = w"
| "join_with sep (w # ws) = w @ sep # join_with sep ws"

lemma split_on_not_Nil [simp]: "split_on sep s \<noteq> []"
  by (induction sep s rule: split_on.induct) (auto split: list.splits)

lemma split_on_no_sep: "sep \<notin> set s \<Longrightarrow> split_on sep s = [s]"
  by (induction s) auto

lemma split_on_append: "sep \<notin> set w \<Longrightarrow> split_on sep (w @ sep # s) = w # split_on sep s"
  by (induction w) auto

lemma join_with_split_on [simp]: "join_with sep (split_on sep s) = s"
proof (induction sep s rule: split_on.induct)
  case (2 sep c cs)
  obtain w ws where sp: "split_on sep cs = w # ws"
    using split_on_not_Nil by (metis neq_Nil_conv)
  show ?case
    using 2 sp by (cases ws) auto
qed simp

lemma split_on_join_with:
  "ws \<noteq> [] \<Longrightarrow> \<forall>w \<in> set ws. sep \<notin> set w \<Longrightarrow> split_on sep (join_with sep ws) = ws"
  by (induction sep ws rule: join_with.induct) (auto simp: split_on_no_sep split_on_append)

lemma split_on_parts: "w \<in> set (split_on sep s) \<Longrightarrow> sep \<notin> set w"
  by (induction sep s arbitrary: w rule: split_on.induct) (auto split: if_splits list.splits)

lemma set_split_on: "w \<in> set (split_on sep s) \<Longrightarrow> set w \<subseteq> set s"
  by (induction sep s arbitrary: w rule: split_on.induct) (fastforce split: if_splits list.splits)+

lemma partition_on_found: "sep \<notin> set w \<Longrightarrow> partition_on sep (w @ sep # s) = (w, True, s)"
  by (auto simp: partition_on_def takeWhile_append dropWhile_append)

lemma partition_on_absent: "sep \<notin> set s \<Longrightarrow> partition_on sep s = (s, False, [])"
  by (simp add: partition_on_def)

lemma partition_on_cases:
  obtains (absent) "sep \<notin> set s" "partition_on sep s = (s, False, [])"
  | (found) w t where "s = w @ sep # t" "sep \<notin> set w" "partition_on sep s = (w, True, t)"
proof (cases "sep \<in> set s")
  case True
  then obtain w t where s: "s = w @ sep # t" "sep \<notin> set w"
    by (meson split_list_first)
  then show ?thesis using partition_on_found found by simp
qed (simp add: partition_on_absent absent)

lemma str_contains_iff: "str_contains p s \<longleftrightarrow> (\<exists>u v. s = u @ p @ v)"
proof (induction s)
  case (Cons c cs)
  have "take (length p) (c # cs) = p \<longleftrightarrow> (\<exists>v. c # cs = p @ v)"
    by (metis append_eq_conv_conj)
  moreover have "(\<exists>u v. c # cs = u @ p @ v) \<longleftrightarrow> (\<exists>v. c # cs = p @ v) \<or> (\<exists>u v. cs = u @ p @ v)"
    by (metis append_Cons append_Nil append_eq_Cons_conv)
  ultimately show ?case using Cons by simp
qed auto

lemma str_contains_sub: "str_contains p w \<Longrightarrow> str_contains p (u @ w @ v)"
  by (metis str_contains_iff append.assoc)

subsection \<open>Decimal text\<close>

fun str_of_nat :: "nat \<Rightarrow> string" where
  "str_of_nat n = (if n < 10 then [char_of (48 + n)] else str_of_nat (n div 10) @ [char_of (48 + n mod 10)])"

declare str_of_nat.simps [simp del]

definition str_of_int :: "int \<Rightarrow> string" where
  "str_of_int i = (if i < 0 then CHR ''-'' # str_of_nat (nat (- i)) else str_of_nat (nat i))"

definition digit_value :: "char \<Rightarrow> nat option" where
  "digit_value c = (let n = (of_char c :: nat) in if 48 \<le> n \<and> n \<le> 57 then Some (n - 48) else None)"

text \<open>
  \<^verbatim>\<open>int(text)\<close>: surrounding white space, an optional sign, then digits in which single
  underscores may separate digits. \<open>None\<close> is \<^verbatim>\<open>ValueError\<close>.
\<close>

fun digits_acc :: "bool \<Rightarrow> nat \<Rightarrow> string \<Rightarrow> nat option" where
  "digits_acc after_digit acc [] = (if after_digit then Some acc else None)"
| "digits_acc after_digit acc (c # cs) =
     (if c = CHR ''_'' then (if after_digit then digits_acc False acc cs else None)
      else case digit_value c of None \<Rightarrow> None | Some d \<Rightarrow> digits_acc True (10 * acc + d) cs)"

definition py_int_of_str :: "string \<Rightarrow> int option" where
  "py_int_of_str text =
     (case py_strip text of
        [] \<Rightarrow> None
      | c # cs \<Rightarrow>
          if c = CHR ''-'' then map_option (\<lambda>n. - int n) (digits_acc False 0 cs)
          else if c = CHR ''+'' then map_option int (digits_acc False 0 cs)
          else map_option int (digits_acc False 0 (c # cs)))"

lemma digit_cases:
  assumes "(d::nat) < 10"
  shows "d \<in> {0, 1, 2, 3, 4, 5, 6, 7, 8, 9}"
  using assms by auto

lemma digit_value_digit [simp]: "d < 10 \<Longrightarrow> digit_value (char_of (48 + d)) = Some d"
  by (drule digit_cases) (auto simp: digit_value_def)

lemma digit_not_special:
  assumes "d < 10"
  shows "char_of (48 + d :: nat) \<noteq> CHR ''_''"
    and "char_of (48 + d :: nat) \<noteq> CHR ''-''"
    and "char_of (48 + d :: nat) \<noteq> CHR ''+''"
    and "\<not> py_isspace (char_of (48 + d))"
proof -
  have v: "(of_char (char_of (48 + d :: nat) :: char) :: nat) = 48 + d"
    using assms by simp
  show "char_of (48 + d :: nat) \<noteq> CHR ''_''"
  proof
    assume "char_of (48 + d :: nat) = CHR ''_''"
    with v have "48 + d = (of_char CHR ''_'' :: nat)" by simp
    with assms show False by simp
  qed
  show "char_of (48 + d :: nat) \<noteq> CHR ''-''"
  proof
    assume "char_of (48 + d :: nat) = CHR ''-''"
    with v have "48 + d = (of_char CHR ''-'' :: nat)" by simp
    with assms show False by simp
  qed
  show "char_of (48 + d :: nat) \<noteq> CHR ''+''"
  proof
    assume "char_of (48 + d :: nat) = CHR ''+''"
    with v have "48 + d = (of_char CHR ''+'' :: nat)" by simp
    with assms show False by simp
  qed
  show "\<not> py_isspace (char_of (48 + d))"
    using v assms unfolding py_isspace_def by auto
qed

lemma digits_acc_append_digit:
  "d < 10 \<Longrightarrow> digits_acc b acc w = Some n \<Longrightarrow> digits_acc b acc (w @ [char_of (48 + d)]) = Some (10 * n + d)"
  by (induction b acc w rule: digits_acc.induct)
    (auto simp: digit_not_special split: if_splits option.splits)

lemma digits_acc_str_of_nat: "digits_acc False 0 (str_of_nat n) = Some n"
proof (induction n rule: str_of_nat.induct)
  case (1 n)
  show ?case
  proof (cases "n < 10")
    case True
    then show ?thesis
      by (simp add: str_of_nat.simps [of n] digit_not_special)
  next
    case False
    with 1 have "digits_acc False 0 (str_of_nat (n div 10)) = Some (n div 10)" by simp
    then have "digits_acc False 0 (str_of_nat (n div 10) @ [char_of (48 + n mod 10)]) =
        Some (10 * (n div 10) + n mod 10)"
      by (intro digits_acc_append_digit) simp_all
    with False show ?thesis by (simp add: str_of_nat.simps [of n])
  qed
qed

lemma str_of_nat_inj: "str_of_nat m = str_of_nat n \<longleftrightarrow> m = n"
  by (metis digits_acc_str_of_nat option.inject)

lemma str_of_nat_digits: "c \<in> set (str_of_nat n) \<Longrightarrow> \<exists>d < (10::nat). c = char_of (48 + d)"
proof (induction n rule: str_of_nat.induct)
  case (1 n)
  show ?case
  proof (cases "n < 10")
    case True
    with 1(2) show ?thesis by (auto simp: str_of_nat.simps [of n])
  next
    case False
    with 1 show ?thesis
      by (auto simp: str_of_nat.simps [of n] intro: exI [of _ "n mod 10"])
  qed
qed

lemma str_of_nat_not_Nil [simp]: "str_of_nat n \<noteq> []"
  by (subst str_of_nat.simps) simp

lemma stripped_str_of_nat: "stripped (str_of_nat n)"
  using str_of_nat_digits [of "hd (str_of_nat n)" n] str_of_nat_digits [of "last (str_of_nat n)" n]
  by (auto simp: stripped_def digit_not_special)

text \<open>Printing an integer and reading it back gives the integer.\<close>

lemma py_int_of_str_of_int [py_strings]: "py_int_of_str (str_of_int i) = Some i"
proof (cases "i < 0")
  case True
  let ?t = "str_of_nat (nat (- i))"
  have "stripped (CHR ''-'' # ?t)"
    using stripped_str_of_nat [of "nat (- i)"] by (simp add: stripped_def py_isspace_def)
  then have "py_strip (str_of_int i) = CHR ''-'' # ?t"
    using True by (simp add: str_of_int_def py_strip_stripped)
  then show ?thesis
    using True by (simp add: py_int_of_str_def digits_acc_str_of_nat)
next
  case False
  let ?t = "str_of_nat (nat i)"
  have t: "py_strip (str_of_int i) = ?t"
    using False stripped_str_of_nat by (simp add: str_of_int_def py_strip_stripped)
  obtain c cs where c: "?t = c # cs" by (cases ?t) simp_all
  with str_of_nat_digits [of c "nat i"] obtain d :: nat where "d < 10" "c = char_of (48 + d)" by auto
  then have "c \<noteq> CHR ''-''" "c \<noteq> CHR ''+''"
    using digit_not_special by auto
  with t c digits_acc_str_of_nat [of "nat i"] show ?thesis
    using False by (simp add: py_int_of_str_def del: digits_acc.simps)
qed

lemma str_of_int_inj [py_strings]: "str_of_int i = str_of_int j \<longleftrightarrow> i = j"
  by (metis py_int_of_str_of_int option.inject)

subsection \<open>JSON-like values\<close>

datatype json =
    JNull
  | JBool bool
  | JInt int
  | JFloat rat
  | JStr string
  | JList "json list"
  | JObj "(string \<times> json) list"

type_synonym jobj = "(string, json) dict"

fun json_truthy :: "json \<Rightarrow> bool" where
  "json_truthy JNull = False"
| "json_truthy (JBool b) = b"
| "json_truthy (JInt i) = (i \<noteq> 0)"
| "json_truthy (JFloat q) = (q \<noteq> 0)"
| "json_truthy (JStr s) = (s \<noteq> [])"
| "json_truthy (JList xs) = (xs \<noteq> [])"
| "json_truthy (JObj kvs) = (kvs \<noteq> [])"

text \<open>
  \<^verbatim>\<open>str(value)\<close> where the sources apply it to a JSON value: text is itself, \<^verbatim>\<open>None\<close> and the
  booleans print their names; the printed form of a float, a list or an object is the
  parameter \<open>repr\<close>.
\<close>

fun json_str :: "(json \<Rightarrow> string) \<Rightarrow> json \<Rightarrow> string" where
  "json_str repr JNull = ''None''"
| "json_str repr (JBool b) = (if b then ''True'' else ''False'')"
| "json_str repr (JInt i) = str_of_int i"
| "json_str repr (JStr s) = s"
| "json_str repr v = repr v"

text \<open>\<^verbatim>\<open>int(value)\<close> on a JSON value.\<close>

fun json_int :: "json \<Rightarrow> int result" where
  "json_int (JInt i) = Inr i"
| "json_int (JBool b) = Inr (if b then 1 else 0)"
| "json_int (JFloat q) = Inr (if q < 0 then - \<lfloor>- q\<rfloor> else \<lfloor>q\<rfloor>)"
| "json_int (JStr s) =
     (case py_int_of_str s of
        None \<Rightarrow> Inl (Exn ValueError (''invalid literal for int() with base 10: '' @ s))
      | Some i \<Rightarrow> Inr i)"
| "json_int _ = Inl (Exn TypeError ''int() argument must be a string or a number'')"

subsection \<open>The value of \<^verbatim>\<open>x or y\<close>\<close>

text \<open>Python's \<^verbatim>\<open>or\<close> takes the right operand when the left is falsy: \<^verbatim>\<open>None\<close>, \<open>0\<close> or empty text.\<close>

definition int_or :: "int option \<Rightarrow> int \<Rightarrow> int" where
  "int_or x y = (case x of None \<Rightarrow> y | Some i \<Rightarrow> if i = 0 then y else i)"

definition opt_int_or :: "int option \<Rightarrow> int option \<Rightarrow> int option" where
  "opt_int_or x y = (case x of None \<Rightarrow> y | Some i \<Rightarrow> if i = 0 then y else x)"

definition str_or :: "string \<Rightarrow> string \<Rightarrow> string" where
  "str_or s t = (if s = [] then t else s)"

definition opt_or :: "'a option \<Rightarrow> 'a option \<Rightarrow> 'a option" where
  "opt_or x y = (case x of None \<Rightarrow> y | Some _ \<Rightarrow> x)"

lemma or_simps [simp]:
  "int_or None y = y"
  "opt_or None b = b"
  "opt_or (Some a) b = Some a"
  "str_or [] t = t"
  "str_or (c # cs) t = c # cs"
  by (simp_all add: int_or_def opt_or_def str_or_def)

lemma str_or_eq_Nil [simp]: "str_or s t = [] \<longleftrightarrow> s = [] \<and> t = []"
  by (simp add: str_or_def)

end
