(* ===== verification/Capability_Ids.thy ===== *)
theory Capability_Ids
  imports Py_Strings
begin

section \<open>Capability identifiers and selectors\<close>

text \<open>
  \<^verbatim>\<open>core/app/biz/task_runtime/capabilities/ids.py\<close>: the namespaced identifiers
  (\<^verbatim>\<open>builtin:echo\<close>, \<^verbatim>\<open>skill:android-tester:run\<close>) by which every capability is addressed, their
  normalisation from legacy spellings, and the selectors (an exact identifier or a
  \<^verbatim>\<open>:**\<close> subtree) that profiles and catalogue queries use.
\<close>

subsection \<open>Identifiers\<close>

definition capability_id_separator :: char where
  "capability_id_separator = CHR '':''"

definition capability_subtree_wildcard :: string where
  "capability_subtree_wildcard = ''**''"

definition builtin_provider_id :: string where
  "builtin_provider_id = ''builtin''"

definition skill_provider_id :: string where
  "skill_provider_id = ''skill''"

definition linux_workstation_provider_id :: string where
  "linux_workstation_provider_id = ''linux_workstation''"

lemmas ids_consts = capability_id_separator_def capability_subtree_wildcard_def
  builtin_provider_id_def skill_provider_id_def linux_workstation_provider_id_def

definition legacy_linux_workstation_local_names :: "(string, string) dict" where
  "legacy_linux_workstation_local_names =
     [(''shell_exec'', ''shell:exec''),
      (''mouse_click'', ''mouse:click''),
      (''mouse_move'', ''mouse:move''),
      (''mouse_scroll'', ''mouse:scroll''),
      (''keyboard_type'', ''keyboard:type''),
      (''keyboard_press'', ''keyboard:press''),
      (''browser_open_url'', ''browser:open_url''),
      (''browser_screenshot'', ''browser:screenshot''),
      (''file_export'', ''file:export''),
      (''file_read'', ''file:read''),
      (''file_write'', ''file:write''),
      (''file_list'', ''file:list'')]"

definition capability_id :: "string \<Rightarrow> string \<Rightarrow> string" where
  "capability_id provider_id local_name = provider_id @ capability_id_separator # local_name"

definition builtin_capability_id :: "string \<Rightarrow> string" where
  "builtin_capability_id tool_name = capability_id builtin_provider_id tool_name"

definition skill_capability_id :: "string \<Rightarrow> string \<Rightarrow> string" where
  "skill_capability_id skill_name action_name =
     capability_id skill_provider_id
       (if action_name \<noteq> [] then capability_id skill_name action_name else skill_name)"

definition split_capability_id :: "string \<Rightarrow> string \<times> string" where
  "split_capability_id v =
     (case partition_on capability_id_separator v of
        (provider, found, local_name) \<Rightarrow> if \<not> found then ([], v) else (provider, local_name))"

definition provider_of :: "string \<Rightarrow> string" where
  "provider_of v = fst (split_capability_id v)"

definition normalize_provider_id :: "string \<Rightarrow> string" where
  "normalize_provider_id v = py_strip v"

definition normalize_local_name :: "string \<Rightarrow> string \<Rightarrow> string" where
  "normalize_local_name provider local_name =
     (if provider = skill_provider_id \<and> capability_id_separator \<notin> set local_name \<and> CHR ''.'' \<in> set local_name
      then (case partition_on (CHR ''.'') local_name of
              (skill_name, _, action_name) \<Rightarrow> capability_id skill_name action_name)
      else if provider = linux_workstation_provider_id
      then (case dict_get legacy_linux_workstation_local_names local_name of
              None \<Rightarrow> local_name | Some n \<Rightarrow> n)
      else local_name)"

definition normalize_capability_id :: "string \<Rightarrow> string result" where
  "normalize_capability_id v =
     (let text = py_strip v in
      if text = [] then Inr []
      else if str_contains capability_subtree_wildcard text
      then Inl (Exn ValueError (''capability id must be exact, got selector '' @ text))
      else if capability_id_separator \<in> set text
      then (case split_capability_id text of
              (provider, local_name) \<Rightarrow>
                (let normalized_provider = normalize_provider_id provider;
                     normalized_local = normalize_local_name normalized_provider local_name
                 in Inr (capability_id normalized_provider normalized_local)))
      else if CHR ''.'' \<in> set text
      then (case partition_on (CHR ''.'') text of
              (skill_name, _, action_name) \<Rightarrow> Inr (skill_capability_id skill_name action_name))
      else Inr (capability_id builtin_provider_id text))"

definition skill_action_of :: "string \<Rightarrow> (string \<times> string) result" where
  "skill_action_of v =
     rbind (normalize_capability_id v) (\<lambda>n.
       case split_capability_id n of
         (provider, local_name) \<Rightarrow>
           if provider \<noteq> skill_provider_id \<or> local_name = [] then Inr ([], [])
           else (case partition_on capability_id_separator local_name of
                   (skill_name, _, action_name) \<Rightarrow> Inr (skill_name, action_name)))"

definition builtin_tool_of :: "string \<Rightarrow> string result" where
  "builtin_tool_of v =
     rbind (normalize_capability_id v) (\<lambda>n.
       case split_capability_id n of
         (provider, local_name) \<Rightarrow> Inr (if provider = builtin_provider_id then local_name else []))"

subsection \<open>Selectors\<close>

record capability_selector =
  sel_value :: string
  sel_namespace :: "string list"
  sel_subtree :: bool

definition sel_provider_id :: "capability_selector \<Rightarrow> string" where
  "sel_provider_id s = hd (sel_namespace s)"

definition selector_matches :: "capability_selector \<Rightarrow> string \<Rightarrow> bool result" where
  "selector_matches s capability =
     rbind (normalize_capability_id capability) (\<lambda>n.
       let parts = split_on capability_id_separator n in
       if sel_subtree s
       then Inr (length (sel_namespace s) < length parts
                 \<and> take (length (sel_namespace s)) parts = sel_namespace s)
       else Inr (parts = sel_namespace s))"

definition parse_capability_selector :: "string \<Rightarrow> capability_selector result" where
  "parse_capability_selector v =
     (let text = py_strip v in
      if text = [] then Inl (Exn ValueError ''capability selector must not be empty'')
      else if capability_id_separator \<notin> set text
      then Inl (Exn ValueError (''capability selector must be namespaced: '' @ text))
      else
        let raw_parts = split_on capability_id_separator text in
        if list_ex (\<lambda>part. py_strip part = []) raw_parts
        then Inl (Exn ValueError (''capability selector contains an empty namespace segment: '' @ text))
        else if list_ex (\<lambda>part. CHR ''*'' \<in> set part \<and> part \<noteq> capability_subtree_wildcard) raw_parts
        then Inl (Exn ValueError (''capability selector supports only a terminal ':**': '' @ text))
        else
          let wildcard_indexes =
                map fst (filter (\<lambda>(_, part). part = capability_subtree_wildcard) (enumerate 0 raw_parts)) in
          if wildcard_indexes \<noteq> [] then
            if wildcard_indexes \<noteq> [length raw_parts - 1] \<or> length raw_parts < 2
            then Inl (Exn ValueError (''capability selector supports only a terminal ':**': '' @ text))
            else
              let namespace = butlast raw_parts in
              Inr \<lparr>sel_value = join_with capability_id_separator (namespace @ [capability_subtree_wildcard]),
                   sel_namespace = namespace, sel_subtree = True\<rparr>
          else
            rbind (normalize_capability_id text) (\<lambda>canonical.
              let namespace = split_on capability_id_separator canonical in
              if length namespace < 2 \<or> list_ex (\<lambda>part. part = []) namespace
              then Inl (Exn ValueError (''capability selector must be namespaced: '' @ text))
              else Inr \<lparr>sel_value = canonical, sel_namespace = namespace, sel_subtree = False\<rparr>))"

definition normalize_capability_selector :: "string \<Rightarrow> string result" where
  "normalize_capability_selector v = rbind (parse_capability_selector v) (\<lambda>s. Inr (sel_value s))"

text \<open>
  \<^verbatim>\<open>any(selector.matches(canonical) for selector in parsed)\<close> stops at the first match, so a
  later selector is not consulted; the parse of every selector comes first.
\<close>

fun any_selector_matches :: "capability_selector list \<Rightarrow> string \<Rightarrow> bool result" where
  "any_selector_matches [] capability = Inr False"
| "any_selector_matches (s # ss) capability =
     rbind (selector_matches s capability) (\<lambda>b. if b then Inr True else any_selector_matches ss capability)"

fun rmap :: "('a \<Rightarrow> 'b result) \<Rightarrow> 'a list \<Rightarrow> 'b list result" where
  "rmap f [] = Inr []"
| "rmap f (x # xs) = rbind (f x) (\<lambda>y. rbind (rmap f xs) (\<lambda>ys. Inr (y # ys)))"

fun expand_loop :: "capability_selector list \<Rightarrow> string list \<Rightarrow> string list \<Rightarrow> string list result" where
  "expand_loop parsed seen [] = Inr []"
| "expand_loop parsed seen (capability # rest) =
     rbind (normalize_capability_id capability) (\<lambda>canonical.
       if canonical \<in> set seen then expand_loop parsed seen rest
       else rbind (any_selector_matches parsed canonical) (\<lambda>m.
         if \<not> m then expand_loop parsed seen rest
         else rbind (expand_loop parsed (canonical # seen) rest) (\<lambda>out. Inr (canonical # out))))"

definition expand_capability_selectors :: "string list \<Rightarrow> string list \<Rightarrow> string list result" where
  "expand_capability_selectors selectors capability_ids =
     rbind (rmap parse_capability_selector selectors) (\<lambda>parsed. expand_loop parsed [] capability_ids)"

subsection \<open>Splitting and joining an identifier\<close>

lemma split_capability_id_join [simp]:
  "capability_id_separator \<notin> set p \<Longrightarrow> split_capability_id (capability_id p l) = (p, l)"
  by (simp add: split_capability_id_def capability_id_def partition_on_found)

lemma split_capability_id_found:
  assumes "capability_id_separator \<in> set v"
  obtains p l where "v = capability_id p l" and "capability_id_separator \<notin> set p"
    and "split_capability_id v = (p, l)"
  using assms
  by (cases rule: partition_on_cases [of capability_id_separator v])
    (auto simp: capability_id_def split_capability_id_def)

lemma sep_in_capability_id [simp]: "capability_id_separator \<in> set (capability_id p l)"
  by (simp add: capability_id_def)

lemma set_py_strip: "set (py_strip s) \<subseteq> set s"
proof -
  have "set (py_rstrip t) \<subseteq> set t" for t
    unfolding py_rstrip_def using set_dropWhileD by fastforce
  moreover have "set (py_lstrip s) \<subseteq> set s"
    unfolding py_lstrip_def using set_dropWhileD by fastforce
  ultimately show ?thesis
    unfolding py_strip_def by blast
qed

lemma sep_notin_py_strip: "c \<notin> set s \<Longrightarrow> c \<notin> set (py_strip s)"
  using set_py_strip by blast

lemma provider_names_no_sep [simp]:
  "capability_id_separator \<notin> set builtin_provider_id"
  "capability_id_separator \<notin> set skill_provider_id"
  "capability_id_separator \<notin> set linux_workstation_provider_id"
  by (simp_all add: ids_consts)

lemma legacy_table:
  "list_all (\<lambda>(l, n). n \<noteq> [] \<and> \<not> py_isspace (last n) \<and> CHR ''*'' \<notin> set n
     \<and> n \<notin> fst ` set legacy_linux_workstation_local_names) legacy_linux_workstation_local_names"
  by code_simp

lemma legacy_lookup:
  assumes "dict_get legacy_linux_workstation_local_names l = Some n"
  shows "n \<noteq> []" and "\<not> py_isspace (last n)" and "CHR ''*'' \<notin> set n"
    and "dict_get legacy_linux_workstation_local_names n = None"
  using legacy_table map_of_SomeD [OF assms] by (auto simp: list_all_iff map_of_eq_None_iff)

subsection \<open>Wildcards do not arise from normalisation\<close>

abbreviation has_wildcard :: "string \<Rightarrow> bool" where
  "has_wildcard \<equiv> str_contains capability_subtree_wildcard"

lemma has_wildcard_simps [simp]:
  "has_wildcard [] = False"
  "has_wildcard [c] = False"
  "has_wildcard (c # d # s) \<longleftrightarrow> (c = CHR ''*'' \<and> d = CHR ''*'') \<or> has_wildcard (d # s)"
  by (auto simp: capability_subtree_wildcard_def)

declare str_contains.simps [simp del]

lemma has_wildcard_join:
  "x \<noteq> CHR ''*'' \<Longrightarrow> has_wildcard (a @ x # b) \<longleftrightarrow> has_wildcard a \<or> has_wildcard b"
proof (induction a)
  case Nil
  then show ?case by (cases b) auto
next
  case (Cons c a)
  then show ?case by (cases a) auto
qed

lemma has_wildcard_sub: "has_wildcard w \<Longrightarrow> has_wildcard (u @ w @ v)"
  by (rule str_contains_sub)

lemma has_wildcard_no_star: "CHR ''*'' \<notin> set s \<Longrightarrow> \<not> has_wildcard s"
proof (induction s)
  case (Cons c s)
  then show ?case by (cases s) auto
qed simp

lemma py_strip_middle: "\<exists>u v. s = u @ py_strip s @ v"
proof -
  have "py_lstrip s = dropWhile py_isspace s" by (simp add: py_lstrip_def)
  then have "s = takeWhile py_isspace s @ py_lstrip s" by simp
  moreover obtain v where "py_lstrip s = py_strip s @ v"
    using py_rstrip_prefix [of "py_lstrip s"] by (auto simp: py_strip_def)
  ultimately show ?thesis by metis
qed

lemma has_wildcard_py_strip: "has_wildcard (py_strip s) \<Longrightarrow> has_wildcard s"
  using py_strip_middle [of s] has_wildcard_sub by metis

lemma has_wildcard_capability_id:
  "has_wildcard (capability_id p l) \<longleftrightarrow> has_wildcard p \<or> has_wildcard l"
  by (simp add: capability_id_def has_wildcard_join capability_id_separator_def)

lemma provider_names_no_wildcard [simp]:
  "\<not> has_wildcard builtin_provider_id"
  "\<not> has_wildcard skill_provider_id"
  by (rule has_wildcard_no_star, simp add: ids_consts)+

lemma provider_names_distinct [simp]:
  "skill_provider_id \<noteq> linux_workstation_provider_id"
  "builtin_provider_id \<noteq> linux_workstation_provider_id"
  "builtin_provider_id \<noteq> skill_provider_id"
  by (simp_all add: ids_consts)

subsection \<open>Normalisation is stable\<close>

definition clean_end :: "string \<Rightarrow> bool" where
  "clean_end s \<longleftrightarrow> s = [] \<or> \<not> py_isspace (last s)"

lemma stripped_clean_end: "stripped s \<Longrightarrow> clean_end s"
  by (auto simp: stripped_def clean_end_def)

lemma sep_not_space [simp]: "\<not> py_isspace capability_id_separator"
  by (simp add: py_isspace_def capability_id_separator_def)

lemma stripped_capability_id: "stripped p \<Longrightarrow> clean_end l \<Longrightarrow> stripped (capability_id p l)"
  by (cases p) (auto simp: stripped_def clean_end_def capability_id_def)

lemma clean_end_capability_id: "clean_end l \<Longrightarrow> clean_end (capability_id p l)"
  by (auto simp: clean_end_def capability_id_def)

lemma normalize_namespaced:
  assumes "capability_id_separator \<notin> set p" "stripped p" "clean_end l" "\<not> has_wildcard (capability_id p l)"
  shows "normalize_capability_id (capability_id p l) = Inr (capability_id p (normalize_local_name p l))"
proof -
  have "py_strip (capability_id p l) = capability_id p l"
    using assms by (intro py_strip_stripped stripped_capability_id)
  moreover have "capability_id p l \<noteq> []" by (simp add: capability_id_def)
  ultimately show ?thesis
    using assms by (simp add: normalize_capability_id_def normalize_provider_id_def py_strip_stripped)
qed

lemma normalize_local_name_cases:
  obtains (skill) a b where "p = skill_provider_id" and "l = a @ CHR ''.'' # b" and "CHR ''.'' \<notin> set a"
      and "normalize_local_name p l = capability_id a b"
  | (legacy) n where "p = linux_workstation_provider_id" and "dict_get legacy_linux_workstation_local_names l = Some n"
      and "normalize_local_name p l = n"
  | (same) "normalize_local_name p l = l"
proof (cases "p = skill_provider_id \<and> capability_id_separator \<notin> set l \<and> CHR ''.'' \<in> set l")
  case True
  then show ?thesis
    by (cases rule: partition_on_cases [of "CHR ''.''" l])
      (auto simp: normalize_local_name_def intro: skill)
next
  case False
  then have n: "normalize_local_name p l =
      (if p = linux_workstation_provider_id
       then (case dict_get legacy_linux_workstation_local_names l of None \<Rightarrow> l | Some n \<Rightarrow> n) else l)"
    unfolding normalize_local_name_def by (simp only: if_False)
  show ?thesis
  proof (cases "dict_get legacy_linux_workstation_local_names l")
    case None
    with n same show ?thesis by simp
  next
    case (Some m)
    with n same legacy show ?thesis by (cases "p = linux_workstation_provider_id") simp_all
  qed
qed

lemma normalize_local_name_nested:
  "normalize_local_name skill_provider_id (capability_id a b) = capability_id a b"
  by (simp add: normalize_local_name_def)

lemma normalize_local_name_idem:
  "normalize_local_name p (normalize_local_name p l) = normalize_local_name p l"
proof (cases rule: normalize_local_name_cases [of p l])
  case (skill a b)
  then show ?thesis by (simp add: normalize_local_name_nested)
next
  case (legacy n)
  then show ?thesis
    using legacy_lookup(4) [OF legacy(2)]
    by (simp add: normalize_local_name_def [of _ n] provider_names_distinct(1) [symmetric])
qed simp

lemma normalize_local_name_clean_end: "clean_end l \<Longrightarrow> clean_end (normalize_local_name p l)"
proof (cases rule: normalize_local_name_cases [of p l])
  case (skill a b)
  assume "clean_end l"
  with skill have "clean_end b" by (auto simp: clean_end_def split: if_splits)
  with skill show ?thesis by (simp add: clean_end_capability_id)
next
  case (legacy n)
  then show ?thesis using legacy_lookup [OF legacy(2)] by (simp add: clean_end_def)
qed simp

lemma normalize_local_name_wildcard: "\<not> has_wildcard l \<Longrightarrow> \<not> has_wildcard (normalize_local_name p l)"
proof (cases rule: normalize_local_name_cases [of p l])
  case (skill a b)
  assume "\<not> has_wildcard l"
  with skill have "\<not> has_wildcard a" "\<not> has_wildcard b" by (auto simp: has_wildcard_join)
  with skill show ?thesis by (simp add: has_wildcard_capability_id)
next
  case (legacy n)
  then show ?thesis using legacy_lookup [OF legacy(2)] by (simp add: has_wildcard_no_star)
qed simp

text \<open>The outcome of normalisation, by the shape of the input.\<close>

lemma normalize_capability_id_cases:
  assumes "normalize_capability_id v = Inr c"
  obtains (empty) "py_strip v = []" "c = []"
  | (namespaced) p l where "capability_id_separator \<notin> set p" "stripped p" "clean_end l"
      "\<not> has_wildcard (capability_id p l)" "c = capability_id p (normalize_local_name p l)"
  | (dotted) a b where "py_strip v = a @ CHR ''.'' # b" "capability_id_separator \<notin> set (py_strip v)"
      "CHR ''.'' \<notin> set a" "\<not> has_wildcard a" "\<not> has_wildcard b" "clean_end b"
      "c = skill_capability_id a b"
  | (bare) t where "t = py_strip v" "stripped t" "\<not> has_wildcard t" "c = capability_id builtin_provider_id t"
proof -
  let ?t = "py_strip v"
  have st: "stripped ?t" by simp
  consider "?t = []"
    | "?t \<noteq> []" "\<not> has_wildcard ?t" "capability_id_separator \<in> set ?t"
    | "?t \<noteq> []" "\<not> has_wildcard ?t" "capability_id_separator \<notin> set ?t" "CHR ''.'' \<in> set ?t"
    | "?t \<noteq> []" "\<not> has_wildcard ?t" "capability_id_separator \<notin> set ?t" "CHR ''.'' \<notin> set ?t"
    using assms by (auto simp: normalize_capability_id_def Let_def split: if_splits)
  then show thesis
  proof cases
    case 1
    with assms show thesis by (intro empty) (auto simp: normalize_capability_id_def)
  next
    case 2
    then obtain q l where t: "?t = capability_id q l" and q: "capability_id_separator \<notin> set q"
      and sp: "split_capability_id ?t = (q, l)"
      by (blast elim: split_capability_id_found)
    have "clean_end l"
      using st t by (auto simp: stripped_def clean_end_def capability_id_def)
    moreover have "\<not> has_wildcard (capability_id (py_strip q) l)"
      using 2 t has_wildcard_py_strip by (auto simp: has_wildcard_capability_id)
    ultimately show thesis
      using assms 2 sp q sep_notin_py_strip [OF q]
      by (intro namespaced [of "py_strip q" l])
        (auto simp: normalize_capability_id_def normalize_provider_id_def Let_def)
  next
    case 3
    then obtain a b where t: "?t = a @ CHR ''.'' # b" and a: "CHR ''.'' \<notin> set a"
      by (meson split_list_first)
    have "clean_end b"
      using st t by (auto simp: stripped_def clean_end_def split: if_splits)
    then show thesis
      using assms 3 t a partition_on_found [OF a, of b]
      by (intro dotted [of a b])
        (auto simp: normalize_capability_id_def has_wildcard_join Let_def)
  next
    case 4
    then show thesis
      using assms st by (intro bare) (auto simp: normalize_capability_id_def Let_def)
  qed
qed

lemma stripped_provider_names [simp]: "stripped builtin_provider_id" "stripped skill_provider_id"
  by (simp_all add: stripped_def ids_consts py_isspace_def)

lemma normalize_namespaced_again:
  assumes "capability_id_separator \<notin> set p" "stripped p" "clean_end l" "\<not> has_wildcard (capability_id p l)"
  defines "c \<equiv> capability_id p (normalize_local_name p l)"
  shows "stripped c" and "normalize_capability_id c = Inr c"
proof -
  have ce: "clean_end (normalize_local_name p l)"
    using assms(3) by (rule normalize_local_name_clean_end)
  with assms(2) show "stripped c"
    unfolding c_def by (rule stripped_capability_id)
  have "\<not> has_wildcard c"
    using assms(4) normalize_local_name_wildcard [of l p] by (simp add: c_def has_wildcard_capability_id)
  then show "normalize_capability_id c = Inr c"
    using assms(1,2) ce by (simp add: c_def normalize_namespaced normalize_local_name_idem)
qed

lemma normalize_local_name_no_dot: "CHR ''.'' \<notin> set l \<Longrightarrow> normalize_local_name skill_provider_id l = l"
  by (simp add: normalize_local_name_def ids_consts)

lemma normalize_local_name_builtin: "normalize_local_name builtin_provider_id l = l"
  by (simp add: normalize_local_name_def)

lemma normalize_capability_id_Nil [simp]: "normalize_capability_id [] = Inr []"
  by (simp add: normalize_capability_id_def)

lemma normalize_dotted_without_action:
  assumes "CHR ''.'' \<notin> set a" "capability_id_separator \<notin> set a" "\<not> has_wildcard a"
  defines "c \<equiv> skill_capability_id a []"
  shows "normalize_capability_id c = Inr (py_strip c)"
proof -
  have c: "c = capability_id skill_provider_id a" by (simp add: c_def skill_capability_id_def)
  obtain w where a: "a = py_rstrip a @ w" and w: "list_all py_isspace w"
    using py_rstrip_prefix by blast
  let ?d = "capability_id skill_provider_id (py_rstrip a)"
  have ce: "clean_end (py_rstrip a)"
    using last_py_rstrip by (auto simp: clean_end_def)
  have "stripped ?d" using ce by (intro stripped_capability_id) simp_all
  have "py_rstrip (?d @ w) = py_rstrip ?d"
    using w by (simp add: py_rstrip_def dropWhile_append list_all_iff)
  moreover have "py_rstrip ?d = ?d"
    using \<open>stripped ?d\<close>
    by (cases ?d rule: rev_cases) (auto simp: py_rstrip_def stripped_def)
  moreover have "c = ?d @ w"
    using a c by (simp add: capability_id_def)
  moreover have "py_lstrip c = c"
    by (simp add: c py_lstrip_def capability_id_def skill_provider_id_def py_isspace_def)
  ultimately have d: "py_strip c = ?d" by (simp add: py_strip_def)
  have nd: "CHR ''.'' \<notin> set (py_rstrip a)" and "\<not> has_wildcard (py_rstrip a)"
    using assms a has_wildcard_sub [of "py_rstrip a" "[]" w] by (metis Un_iff set_append, metis append_Nil)
  then have "normalize_capability_id ?d = Inr ?d"
    using ce by (subst normalize_namespaced) (simp_all add: has_wildcard_capability_id normalize_local_name_no_dot)
  then have "normalize_capability_id (py_strip c) = Inr (py_strip c)" using d by simp
  then show ?thesis by (simp add: normalize_capability_id_def)
qed

lemma normalize_again:
  assumes "normalize_capability_id v = Inr c"
  shows "normalize_capability_id c = Inr (py_strip c)"
  using assms
proof (cases rule: normalize_capability_id_cases)
  case empty
  then show ?thesis by simp
next
  case (namespaced p l)
  then show ?thesis using normalize_namespaced_again [of p l] by (simp add: py_strip_stripped)
next
  case (dotted a b)
  show ?thesis
  proof (cases "b = []")
    case True
    with dotted show ?thesis by (simp add: normalize_dotted_without_action)
  next
    case False
    with dotted have c: "c = capability_id skill_provider_id (normalize_local_name skill_provider_id (capability_id a b))"
      by (simp add: skill_capability_id_def normalize_local_name_nested)
    have "clean_end (capability_id a b)" using dotted by (simp add: clean_end_capability_id)
    moreover have "\<not> has_wildcard (capability_id skill_provider_id (capability_id a b))"
      using dotted by (simp add: has_wildcard_capability_id)
    ultimately show ?thesis
      using normalize_namespaced_again [of skill_provider_id "capability_id a b"] c
      by (simp add: py_strip_stripped)
  qed
next
  case (bare t)
  then show ?thesis
    using normalize_namespaced_again [of builtin_provider_id t]
    by (simp add: normalize_local_name_builtin py_strip_stripped stripped_clean_end has_wildcard_capability_id)
qed

subsection \<open>Properties\<close>

lemma normalized_namespaced: "normalize_capability_id v = Inr c \<Longrightarrow> c = [] \<or> capability_id_separator \<in> set c"
  by (erule normalize_capability_id_cases) (simp_all add: skill_capability_id_def)

text \<open>
  Normalisation of a capability identifier is stable: every identifier it returns is
  either empty or namespaced by a provider, and normalising it once more returns the same
  identifier with surrounding white space stripped (so a result with no surrounding white
  space is a fixed point).
\<close>

theorem normalize_capability_id_stable:
  assumes "normalize_capability_id v = Inr c"
  shows "(c = [] \<or> capability_id_separator \<in> set c) \<and> normalize_capability_id c = Inr (py_strip c)"
  using normalized_namespaced [OF assms] normalize_again [OF assms] by blast

theorem normalize_capability_id_stable_witness:
  "normalize_capability_id '' linux_workstation :file_read'' = Inr ''linux_workstation:file:read''
   \<and> normalize_capability_id ''linux_workstation:file:read'' = Inr ''linux_workstation:file:read''"
proof -
  have n: "normalize_capability_id '' linux_workstation :file_read'' = Inr ''linux_workstation:file:read''"
    by code_simp
  have "py_strip ''linux_workstation:file:read'' = ''linux_workstation:file:read''"
    by code_simp
  with n normalize_capability_id_stable [OF n] show ?thesis by simp
qed

subsection \<open>Selector laws\<close>

lemma rmap_Inr_iff: "rmap f xs = Inr ys \<longleftrightarrow> list_all2 (\<lambda>x y. f x = Inr y) xs ys"
  by (induction xs arbitrary: ys) (auto simp: rbind_Inr_iff list_all2_Cons1)

lemma any_selector_matches_iff:
  "any_selector_matches ss c = Inr b \<Longrightarrow> b \<longleftrightarrow> (\<exists>s \<in> set ss. selector_matches s c = Inr True)"
proof (induction ss)
  case (Cons s ss)
  then obtain m where m: "selector_matches s c = Inr m"
    by (auto simp: rbind_Inr_iff)
  with Cons show ?case by (cases m) auto
qed simp

lemma expand_loop_spec:
  "expand_loop parsed seen caps = Inr out \<Longrightarrow>
     distinct out \<and> set out \<inter> set seen = {} \<and>
     (\<forall>c. c \<in> set out \<longleftrightarrow> c \<notin> set seen \<and>
        (\<exists>cap \<in> set caps. normalize_capability_id cap = Inr c) \<and>
        (\<exists>s \<in> set parsed. selector_matches s c = Inr True))"
proof (induction parsed seen caps arbitrary: out rule: expand_loop.induct)
  case (2 parsed seen capability rest)
  define N where "N d \<longleftrightarrow> (\<exists>cap \<in> set rest. normalize_capability_id cap = Inr d)" for d
  define M where "M d \<longleftrightarrow> (\<exists>s \<in> set parsed. selector_matches s d = Inr True)" for d
  from "2.prems" obtain c where c: "normalize_capability_id capability = Inr c"
    by (auto simp: rbind_Inr_iff)
  have goal_eq: "(\<exists>cap \<in> set (capability # rest). normalize_capability_id cap = Inr d) \<longleftrightarrow> d = c \<or> N d" for d
    using c by (auto simp: N_def)
  show ?case
  proof (cases "c \<in> set seen")
    case True
    with "2.prems" c have "expand_loop parsed seen rest = Inr out" by simp
    from "2.IH"(1) [OF True this] True show ?thesis
      unfolding goal_eq N_def [symmetric] M_def [symmetric] by blast
  next
    case False
    with "2.prems" c obtain m where m: "any_selector_matches parsed c = Inr m"
      by (auto simp: rbind_Inr_iff)
    have mM: "m \<longleftrightarrow> M c" using any_selector_matches_iff [OF m] by (simp add: M_def)
    show ?thesis
    proof (cases m)
      case True
      with "2.prems" c m False obtain out'
        where o: "expand_loop parsed (c # seen) rest = Inr out'" and out: "out = c # out'"
        by (auto simp: rbind_Inr_iff)
      from True have "\<not> \<not> m" by simp
      from "2.IH"(3) [OF False this o] out True mM False show ?thesis
        unfolding goal_eq N_def [symmetric] M_def [symmetric] by auto
    next
      case m': False
      with "2.prems" c m False have o: "expand_loop parsed seen rest = Inr out" by simp
      from "2.IH"(2) [OF False m' o] m' mM show ?thesis
        unfolding goal_eq N_def [symmetric] M_def [symmetric] by blast
    qed
  qed
qed simp

text \<open>
  Expanding selectors over a catalogue yields each canonical identifier at most once,
  and exactly the identifiers of the catalogue that some selector matches.
\<close>

theorem expand_capability_selectors_exact:
  assumes "expand_capability_selectors selectors capability_ids = Inr out"
  shows "distinct out \<and>
    (\<forall>c. c \<in> set out \<longleftrightarrow>
       (\<exists>cap \<in> set capability_ids. normalize_capability_id cap = Inr c) \<and>
       (\<exists>sel \<in> set selectors. \<exists>s. parse_capability_selector sel = Inr s \<and> selector_matches s c = Inr True))"
proof -
  from assms obtain parsed where p: "rmap parse_capability_selector selectors = Inr parsed"
    and o: "expand_loop parsed [] capability_ids = Inr out"
    by (auto simp: expand_capability_selectors_def rbind_Inr_iff)
  from p have l: "list_all2 (\<lambda>sel s. parse_capability_selector sel = Inr s) selectors parsed"
    by (simp add: rmap_Inr_iff)
  have "(\<exists>s \<in> set parsed. P s) \<longleftrightarrow> (\<exists>sel \<in> set selectors. \<exists>s. parse_capability_selector sel = Inr s \<and> P s)" for P
    using l by (induction rule: list_all2_induct) auto
  with expand_loop_spec [OF o] show ?thesis by simp
qed

theorem expand_capability_selectors_exact_witness:
  "expand_capability_selectors [''a:**''] [''a:b'', ''c'', ''a:b''] = Inr [''a:b''] \<and> distinct [''a:b'']"
proof -
  have n: "normalize_capability_id ''a:b'' = Inr ''a:b''"
    "normalize_capability_id ''c'' = Inr ''builtin:c''"
    "normalize_capability_id ''builtin:c'' = Inr ''builtin:c''"
    by code_simp+
  have p: "parse_capability_selector ''a:**'' = Inr \<lparr>sel_value = ''a:**'', sel_namespace = [''a''], sel_subtree = True\<rparr>"
    by code_simp
  have e: "expand_capability_selectors [''a:**''] [''a:b'', ''c'', ''a:b''] = Inr [''a:b'']"
    by (simp add: expand_capability_selectors_def selector_matches_def p n capability_id_separator_def)
  show ?thesis using e expand_capability_selectors_exact [OF e] by blast
qed

end
