(* ===== verification/Sandbox_Types.thy ===== *)
theory Sandbox_Types
  imports Py_Strings
begin

section \<open>The sandbox vocabulary\<close>

text \<open>
  \<^verbatim>\<open>core/app/biz/task_runtime/sandbox/types.py\<close>: operating-system capabilities a task may
  require, concrete lease types, the infrastructure tokens of skills, and the maps between
  them. The lemmas at the end show that operating-system selectors and concrete types never
  clash, so one string on the wire is unambiguous, and that every operating system a hint can
  name has at least one concrete type that supplies it.
\<close>

datatype sandbox_os = OS_WINDOWS | OS_MACOS | OS_IOS | OS_ANDROID | OS_LINUX

datatype sandbox_type = EMULATOR | WINCUA | LINUX_WORKSTATION | PHYSICAL

datatype infra_requirement = INFRA_ANDROID | INFRA_WINDOWS | INFRA_MACOS | INFRA_IOS | INFRA_LINUX

primrec sandbox_os_value :: "sandbox_os \<Rightarrow> string" where
  "sandbox_os_value OS_WINDOWS = ''windows''"
| "sandbox_os_value OS_MACOS = ''macos''"
| "sandbox_os_value OS_IOS = ''ios''"
| "sandbox_os_value OS_ANDROID = ''android''"
| "sandbox_os_value OS_LINUX = ''linux''"

primrec sandbox_type_value :: "sandbox_type \<Rightarrow> string" where
  "sandbox_type_value EMULATOR = ''emulator''"
| "sandbox_type_value WINCUA = ''wincua''"
| "sandbox_type_value LINUX_WORKSTATION = ''linux_workstation''"
| "sandbox_type_value PHYSICAL = ''physical''"

primrec infra_requirement_value :: "infra_requirement \<Rightarrow> string" where
  "infra_requirement_value INFRA_ANDROID = ''sandbox.android''"
| "infra_requirement_value INFRA_WINDOWS = ''sandbox.windows''"
| "infra_requirement_value INFRA_MACOS = ''sandbox.macos''"
| "infra_requirement_value INFRA_IOS = ''sandbox.ios''"
| "infra_requirement_value INFRA_LINUX = ''sandbox.linux''"

definition SANDBOX_TYPES :: "string list" where
  "SANDBOX_TYPES = map sandbox_type_value [EMULATOR, WINCUA, LINUX_WORKSTATION, PHYSICAL]"

definition SANDBOX_OSES :: "string list" where
  "SANDBOX_OSES = map sandbox_os_value [OS_WINDOWS, OS_MACOS, OS_IOS, OS_ANDROID, OS_LINUX]"

definition SANDBOX_SELECTORS :: "string list" where
  "SANDBOX_SELECTORS = SANDBOX_OSES @ SANDBOX_TYPES"

definition INFRA_TO_OS :: "(string, string) dict" where
  "INFRA_TO_OS =
     [(infra_requirement_value INFRA_ANDROID, sandbox_os_value OS_ANDROID),
      (infra_requirement_value INFRA_WINDOWS, sandbox_os_value OS_WINDOWS),
      (infra_requirement_value INFRA_MACOS, sandbox_os_value OS_MACOS),
      (infra_requirement_value INFRA_IOS, sandbox_os_value OS_IOS),
      (infra_requirement_value INFRA_LINUX, sandbox_os_value OS_LINUX)]"

definition TYPE_OS :: "(string, string) dict" where
  "TYPE_OS =
     [(sandbox_type_value EMULATOR, sandbox_os_value OS_ANDROID),
      (sandbox_type_value WINCUA, sandbox_os_value OS_WINDOWS),
      (sandbox_type_value LINUX_WORKSTATION, sandbox_os_value OS_LINUX)]"

definition normalize_sandbox_type :: "string \<Rightarrow> string" where
  "normalize_sandbox_type v = py_strip v"

definition eligible_types_for_os :: "string \<Rightarrow> string list" where
  "eligible_types_for_os os =
     filter (\<lambda>t. t \<noteq> sandbox_type_value PHYSICAL \<and> dict_get TYPE_OS t = Some os) SANDBOX_TYPES
       @ [sandbox_type_value PHYSICAL]"

definition lease_type_from_sandbox_id :: "string \<Rightarrow> string option" where
  "lease_type_from_sandbox_id sandbox_id =
     (let prefix = normalize_sandbox_type (hd (split_on (CHR '':'') sandbox_id))
      in if prefix \<in> set SANDBOX_TYPES then Some prefix else None)"

definition HINT_ALIASES :: "(string, string) dict" where
  "HINT_ALIASES =
     map (\<lambda>m. (sandbox_os_value m, sandbox_os_value m)) [OS_WINDOWS, OS_MACOS, OS_IOS, OS_ANDROID, OS_LINUX]
       @ INFRA_TO_OS"

definition sandbox_for_requirement :: "string \<Rightarrow> string option" where
  "sandbox_for_requirement requirement = dict_get INFRA_TO_OS requirement"

definition normalize_sandbox_hint :: "string option \<Rightarrow> string" where
  "normalize_sandbox_hint v =
     (case dict_get HINT_ALIASES (py_lower (py_strip (case v of None \<Rightarrow> [] | Some t \<Rightarrow> t))) of
        None \<Rightarrow> [] | Some s \<Rightarrow> s)"

lemmas sandbox_tables = SANDBOX_TYPES_def SANDBOX_OSES_def SANDBOX_SELECTORS_def INFRA_TO_OS_def
  TYPE_OS_def HINT_ALIASES_def

lemma sandbox_selectors_stripped: "s \<in> set SANDBOX_SELECTORS \<Longrightarrow> stripped s \<and> s \<noteq> []"
  by (auto simp: sandbox_tables stripped_def py_isspace_def)

lemma infra_os_in_OSES: "sandbox_for_requirement r = Some os \<Longrightarrow> os \<in> set SANDBOX_OSES"
  by (auto simp: sandbox_for_requirement_def sandbox_tables split: if_splits)

text \<open>
  The operating-system selectors and the concrete lease types are disjoint sets, every
  selector is listed once, an infrastructure token resolves to an operating-system selector,
  and a hint is either dropped or resolves to an operating-system selector.
\<close>

lemma sandbox_selectors_unambiguous:
  "set SANDBOX_OSES \<inter> set SANDBOX_TYPES = {} \<and> distinct SANDBOX_SELECTORS
   \<and> set (dict_values INFRA_TO_OS) \<subseteq> set SANDBOX_OSES
   \<and> (normalize_sandbox_hint v = [] \<or> normalize_sandbox_hint v \<in> set SANDBOX_OSES)"
  by (auto simp: sandbox_tables normalize_sandbox_hint_def split: option.splits if_splits)

text \<open>
  Every type that \<^verbatim>\<open>eligible_types_for_os\<close> offers is a concrete lease type, none is offered
  twice, \<^verbatim>\<open>physical\<close> comes last, and a type of fixed operating system is offered for that
  operating system only.
\<close>

lemma eligible_types_for_os_sound:
  "distinct (eligible_types_for_os os) \<and> set (eligible_types_for_os os) \<subseteq> set SANDBOX_TYPES
   \<and> last (eligible_types_for_os os) = sandbox_type_value PHYSICAL
   \<and> set (butlast (eligible_types_for_os os)) = {t. dict_get TYPE_OS t = Some os}"
  by (auto simp: eligible_types_for_os_def sandbox_tables split: if_splits)

text \<open>
  The lease type read from a sandbox identifier \<^verbatim>\<open>type:resource\<close> is the type it was built
  from, whatever the resource part contains.
\<close>

lemma lease_type_roundtrip:
  "lease_type_from_sandbox_id (sandbox_type_value t @ CHR '':'' # resource_id) = Some (sandbox_type_value t)"
proof -
  have "CHR '':'' \<notin> set (sandbox_type_value t)" and st: "stripped (sandbox_type_value t)"
    by (cases t; simp add: stripped_def py_isspace_def)+
  then have "hd (split_on (CHR '':'') (sandbox_type_value t @ CHR '':'' # resource_id)) = sandbox_type_value t"
    by (simp add: split_on_append)
  moreover have "sandbox_type_value t \<in> set SANDBOX_TYPES"
    by (cases t) (simp_all add: SANDBOX_TYPES_def)
  ultimately show ?thesis
    using st by (simp add: lease_type_from_sandbox_id_def normalize_sandbox_type_def py_strip_stripped)
qed

end
