(* ===== verification/Domain_Models.thy ===== *)
theory Domain_Models
  imports Capability_Ids Sandbox_Types
begin

section \<open>The domain model\<close>

text \<open>
  \<^verbatim>\<open>core/app/biz/task_runtime/domain/models.py\<close>: the enumerations, the pydantic models as
  records (a field keeps its name behind a short prefix), their validators, the derived
  accessors, the digests handed to the parent agent and the idempotency key. A pydantic
  model is validated field by field; a validator that raises becomes an \<open>Inl\<close>.
\<close>

definition RUNTIME_METADATA_KEY :: string where
  "RUNTIME_METADATA_KEY = ''_task_runtime''"

datatype task_status = QUEUED | RUNNING | COMPLETED | FAILED | CANCELLED | TIMED_OUT | BLOCKED

datatype batch_status =
  B_QUEUED | B_RUNNING | B_COMPLETED | B_PARTIAL | B_FAILED | B_CANCELLED | B_TIMED_OUT | B_BLOCKED

datatype error_class =
  TRANSIENT | SANDBOX_UNHEALTHY | SANDBOX_NO_CAPACITY | TIMEOUT | USER_INPUT | SKILL_RUNTIME
| POLICY_DENY | INTERNAL | ERR_CANCELLED

datatype join_strategy = ALL_SUCCESS | PARTIAL_OK | FIRST_SUCCESS | FAIL_FAST

datatype executor_kind = IN_PROCESS | COMMAND_BACKEND

datatype trust_level = PLATFORM_SIGNED | TENANT_UPLOADED | AGENT_GENERATED

primrec task_status_value :: "task_status \<Rightarrow> string" where
  "task_status_value QUEUED = ''queued''"
| "task_status_value RUNNING = ''running''"
| "task_status_value COMPLETED = ''completed''"
| "task_status_value FAILED = ''failed''"
| "task_status_value CANCELLED = ''cancelled''"
| "task_status_value TIMED_OUT = ''timed_out''"
| "task_status_value BLOCKED = ''blocked''"

primrec batch_status_value :: "batch_status \<Rightarrow> string" where
  "batch_status_value B_QUEUED = ''queued''"
| "batch_status_value B_RUNNING = ''running''"
| "batch_status_value B_COMPLETED = ''completed''"
| "batch_status_value B_PARTIAL = ''partial''"
| "batch_status_value B_FAILED = ''failed''"
| "batch_status_value B_CANCELLED = ''cancelled''"
| "batch_status_value B_TIMED_OUT = ''timed_out''"
| "batch_status_value B_BLOCKED = ''blocked''"

primrec error_class_value :: "error_class \<Rightarrow> string" where
  "error_class_value TRANSIENT = ''transient''"
| "error_class_value SANDBOX_UNHEALTHY = ''sandbox_unhealthy''"
| "error_class_value SANDBOX_NO_CAPACITY = ''sandbox_no_capacity''"
| "error_class_value TIMEOUT = ''timeout''"
| "error_class_value USER_INPUT = ''user_input''"
| "error_class_value SKILL_RUNTIME = ''skill_runtime''"
| "error_class_value POLICY_DENY = ''policy_deny''"
| "error_class_value INTERNAL = ''internal''"
| "error_class_value ERR_CANCELLED = ''cancelled''"

primrec executor_value :: "executor_kind \<Rightarrow> string" where
  "executor_value IN_PROCESS = ''in_process''"
| "executor_value COMMAND_BACKEND = ''command_backend''"

lemma task_status_value_inj [simp]: "task_status_value s = task_status_value t \<longleftrightarrow> s = t"
  by (cases s; cases t) simp_all

lemma batch_status_value_inj [simp]: "batch_status_value s = batch_status_value t \<longleftrightarrow> s = t"
  by (cases s; cases t) simp_all

lemma error_class_value_inj [simp]: "error_class_value s = error_class_value t \<longleftrightarrow> s = t"
  by (cases s; cases t) simp_all

subsection \<open>Policies and sandbox references\<close>

record retry_policy =
  rp_max_attempts :: int
  rp_retry_on :: "error_class list"
  rp_backoff_seconds :: int

definition default_retry_policy :: retry_policy where
  "default_retry_policy =
     \<lparr>rp_max_attempts = 1, rp_retry_on = [TRANSIENT, SANDBOX_UNHEALTHY], rp_backoff_seconds = 5\<rparr>"

record task_execution_policy =
  ep_timeout_seconds :: int
  ep_retry :: retry_policy
  ep_executor :: executor_kind
  ep_trust_level :: trust_level
  ep_requires_strong_isolation :: bool
  ep_network_policy :: string
  ep_max_log_bytes :: int

definition default_execution_policy :: task_execution_policy where
  "default_execution_policy =
     \<lparr>ep_timeout_seconds = 900, ep_retry = default_retry_policy, ep_executor = COMMAND_BACKEND,
      ep_trust_level = PLATFORM_SIGNED, ep_requires_strong_isolation = False,
      ep_network_policy = ''default-deny'', ep_max_log_bytes = 50 * 1024 * 1024\<rparr>"

record sandbox_requirement =
  sr_type :: string
  sr_count :: int
  sr_reset_before_run :: bool
  sr_release_after_run :: bool
  sr_affinity_key :: "string option"

definition validate_sandbox_requirement :: "sandbox_requirement \<Rightarrow> sandbox_requirement result" where
  "validate_sandbox_requirement r =
     (let normalized = normalize_sandbox_type (sr_type r)
      in if normalized \<notin> set SANDBOX_SELECTORS
         then Inl (Exn ValueError (''unknown sandbox selector: '' @ normalized))
         else Inr (r\<lparr>sr_type := normalized\<rparr>))"

record reservation_token =
  rt_reservation_id :: string
  rt_run_id :: string
  rt_type :: string
  rt_expires_at :: int

definition validate_reservation_token :: "reservation_token \<Rightarrow> reservation_token" where
  "validate_reservation_token t = t\<lparr>rt_type := normalize_sandbox_type (rt_type t)\<rparr>"

record sandbox_lease_ref =
  sl_sandbox_id :: string
  sl_type :: string
  sl_os :: string
  sl_endpoint :: string
  sl_provider_base_url :: string
  sl_device_id :: string
  sl_vnc_url :: string
  sl_acquired_at :: int
  sl_expires_at :: "int option"

definition validate_sandbox_lease_ref :: "sandbox_lease_ref \<Rightarrow> sandbox_lease_ref" where
  "validate_sandbox_lease_ref l = l\<lparr>sl_type := normalize_sandbox_type (sl_type l)\<rparr>"

subsection \<open>Dispatch\<close>

record skill_guide_ref =
  sg_skill_id :: int
  sg_version :: string
  sg_content_hash :: string

definition ascii_alnum :: "char \<Rightarrow> bool" where
  "ascii_alnum c \<longleftrightarrow>
     (let n = (of_char c :: nat) in (48 \<le> n \<and> n \<le> 57) \<or> (65 \<le> n \<and> n \<le> 90) \<or> (97 \<le> n \<and> n \<le> 122))"

definition lower_hex :: "char \<Rightarrow> bool" where
  "lower_hex c \<longleftrightarrow> (let n = (of_char c :: nat) in (48 \<le> n \<and> n \<le> 57) \<or> (97 \<le> n \<and> n \<le> 102))"

definition validate_skill_guide_ref :: "skill_guide_ref \<Rightarrow> skill_guide_ref result" where
  "validate_skill_guide_ref r =
     (if sg_skill_id r \<le> 0 then Inl (Exn ValueError ''skill_id: Input should be greater than 0'')
      else if \<not> (sg_version r \<noteq> [] \<and> ascii_alnum (hd (sg_version r)) \<and> length (sg_version r) \<le> 128
                 \<and> list_all (\<lambda>c. ascii_alnum c \<or> c \<in> {CHR ''.'', CHR ''_'', CHR ''-''}) (tl (sg_version r)))
      then Inl (Exn ValueError ''version: String should match pattern'')
      else if \<not> (length (sg_content_hash r) = 64 \<and> list_all lower_hex (sg_content_hash r))
      then Inl (Exn ValueError ''content_hash: String should match pattern'')
      else Inr r)"

record sub_agent_dispatch =
  sd_profile_id :: string
  sd_max_model_turns :: "int option"
  sd_requested_capability_selectors :: "string list"
  sd_effective_capability_ids :: "string list"
  sd_instruction_refs :: "skill_guide_ref list"

datatype dispatch = Capability_Dispatch string | Sub_Agent_Dispatch sub_agent_dispatch

text \<open>\<^verbatim>\<open>SubAgentDispatch._compat_shim\<close>: old persisted field names, on the raw dictionary.\<close>

definition dict_setdefault :: "'k \<Rightarrow> 'v \<Rightarrow> ('k, 'v) dict \<Rightarrow> ('k, 'v) dict" where
  "dict_setdefault k v d = (if k \<in> set (dict_keys d) then d else dict_set k v d)"

definition compat_rename :: "string \<Rightarrow> string \<Rightarrow> jobj \<Rightarrow> jobj" where
  "compat_rename old new d =
     (case dict_get d old of None \<Rightarrow> d | Some v \<Rightarrow> dict_setdefault new v (dict_pop old d))"

definition compat_shim :: "jobj \<Rightarrow> jobj" where
  "compat_shim d0 =
     (let d1 = (if ''persona'' \<in> set (dict_keys d0)
                then dict_setdefault ''profile_id'' (JStr ''default'') (dict_pop ''persona'' d0) else d0);
          d2 = compat_rename ''max_steps'' ''max_model_turns'' d1;
          d3 = (if dict_get d2 ''max_model_turns'' \<in> {Some (JInt 0), Some (JBool False), Some (JFloat 0)}
                then dict_set ''max_model_turns'' JNull d2 else d2);
          d4 = compat_rename ''capabilities'' ''capability_grants'' d3
      in compat_rename ''capability_grants'' ''effective_capability_ids'' d4)"

definition validate_sub_agent_dispatch :: "sub_agent_dispatch \<Rightarrow> sub_agent_dispatch result" where
  "validate_sub_agent_dispatch d =
     (let profile = py_strip (sd_profile_id d) in
      if profile = [] then Inl (Exn ValueError ''profile_id must not be empty'')
      else if (case sd_max_model_turns d of None \<Rightarrow> False | Some n \<Rightarrow> n < 1)
      then Inl (Exn ValueError ''max_model_turns: Input should be greater than or equal to 1'')
      else
        rbind (rmap normalize_capability_selector
                 (filter (\<lambda>s. py_strip s \<noteq> []) (sd_requested_capability_selectors d))) (\<lambda>selectors.
        rbind (rmap normalize_capability_id
                 (filter (\<lambda>s. py_strip s \<noteq> []) (sd_effective_capability_ids d))) (\<lambda>ids.
        rbind (rmap validate_skill_guide_ref (sd_instruction_refs d)) (\<lambda>refs.
          Inr (d\<lparr>sd_profile_id := profile,
                 sd_requested_capability_selectors := dict_fromkeys selectors,
                 sd_effective_capability_ids := dict_fromkeys ids,
                 sd_instruction_refs := dict_fromkeys refs\<rparr>)))))"

fun validate_dispatch :: "dispatch \<Rightarrow> dispatch result" where
  "validate_dispatch (Capability_Dispatch v) =
     rbind (normalize_capability_id v) (\<lambda>n. Inr (Capability_Dispatch n))"
| "validate_dispatch (Sub_Agent_Dispatch d) =
     rbind (validate_sub_agent_dispatch d) (\<lambda>d'. Inr (Sub_Agent_Dispatch d'))"

subsection \<open>Task specifications\<close>

record task_display =
  td_plan_title :: string
  td_batch_step_title :: string
  td_single_step_title :: string

record task_spec =
  ts_task_id :: string
  ts_title :: string
  ts_instructions :: string
  ts_dispatch :: dispatch
  ts_display :: task_display
  ts_args :: jobj
  ts_metadata :: jobj
  ts_required_sandbox :: "string list"
  ts_stage :: int
  ts_idempotency_key :: string

definition not_blank :: "string \<Rightarrow> string result" where
  "not_blank v = (let n = py_strip v in if n = [] then Inl (Exn ValueError ''value must not be empty'') else Inr n)"

definition non_negative_stage :: "int \<Rightarrow> int" where
  "non_negative_stage v = max 0 v"

text \<open>\<^verbatim>\<open>_coerce_required_sandbox\<close>, on the raw value of the field.\<close>

fun coerce_items :: "(json \<Rightarrow> string) \<Rightarrow> string list \<Rightarrow> json list \<Rightarrow> json list" where
  "coerce_items repr seen [] = []"
| "coerce_items repr seen (item # items) =
     (if item = JNull \<or> item = JStr [] then coerce_items repr seen items
      else let key = py_strip (json_str repr item) in
        if key \<noteq> [] \<and> key \<notin> set seen then item # coerce_items repr (key # seen) items
        else coerce_items repr seen items)"

fun coerce_required_sandbox :: "(json \<Rightarrow> string) \<Rightarrow> json \<Rightarrow> json" where
  "coerce_required_sandbox repr JNull = JList []"
| "coerce_required_sandbox repr (JStr s) = (if s = [] then JList [] else JList [JStr s])"
| "coerce_required_sandbox repr (JList items) = JList (coerce_items repr [] items)"
| "coerce_required_sandbox repr v = v"

text \<open>The field type \<^verbatim>\<open>list[str]\<close>, between the two validators.\<close>

fun as_str :: "json \<Rightarrow> string result" where
  "as_str (JStr s) = Inr s"
| "as_str _ = Inl (Exn ValueError ''Input should be a valid string'')"

fun as_str_list :: "json \<Rightarrow> string list result" where
  "as_str_list (JList items) = rmap as_str items"
| "as_str_list _ = Inl (Exn ValueError ''Input should be a valid list'')"

definition valid_required_sandbox :: "string list \<Rightarrow> string list result" where
  "valid_required_sandbox v =
     (if filter (\<lambda>selector. selector \<notin> set SANDBOX_SELECTORS) v \<noteq> []
      then Inl (Exn ValueError ''unknown sandbox selectors: '') else Inr v)"

definition required_sandbox_field :: "(json \<Rightarrow> string) \<Rightarrow> json \<Rightarrow> string list result" where
  "required_sandbox_field repr v = rbind (as_str_list (coerce_required_sandbox repr v)) valid_required_sandbox"

definition validate_task_spec :: "task_spec \<Rightarrow> task_spec result" where
  "validate_task_spec t =
     rbind (not_blank (ts_task_id t)) (\<lambda>task_id.
     rbind (not_blank (ts_title t)) (\<lambda>title.
     rbind (validate_dispatch (ts_dispatch t)) (\<lambda>d.
     rbind (required_sandbox_field (\<lambda>_. []) (JList (map JStr (ts_required_sandbox t)))) (\<lambda>sandboxes.
       Inr (t\<lparr>ts_task_id := task_id, ts_title := title, ts_dispatch := d,
              ts_required_sandbox := sandboxes, ts_stage := non_negative_stage (ts_stage t)\<rparr>)))))"

definition sandbox_options :: "task_spec \<Rightarrow> string list" where
  "sandbox_options t = ts_required_sandbox t"

definition task_kind :: "task_spec \<Rightarrow> string" where
  "task_kind t = (case ts_dispatch t of Capability_Dispatch _ \<Rightarrow> ''capability'' | Sub_Agent_Dispatch _ \<Rightarrow> ''sub_agent'')"

definition task_capability_id :: "task_spec \<Rightarrow> string" where
  "task_capability_id t = (case ts_dispatch t of Capability_Dispatch c \<Rightarrow> c | Sub_Agent_Dispatch _ \<Rightarrow> [])"

definition task_skill_name :: "task_spec \<Rightarrow> string option result" where
  "task_skill_name t =
     rbind (skill_action_of (task_capability_id t)) (\<lambda>(skill, _). Inr (if skill = [] then None else Some skill))"

definition task_tool_name :: "task_spec \<Rightarrow> string option result" where
  "task_tool_name t =
     rbind (builtin_tool_of (task_capability_id t)) (\<lambda>tool. Inr (if tool = [] then None else Some tool))"

definition selected_sandbox :: "(json \<Rightarrow> string) \<Rightarrow> task_spec \<Rightarrow> string option" where
  "selected_sandbox repr t =
     (let selected =
            (case dict_get (ts_metadata t) RUNTIME_METADATA_KEY of
               Some (JObj m) \<Rightarrow>
                 (case dict_get m ''selected_sandbox'' of
                    None \<Rightarrow> []
                  | Some v \<Rightarrow> py_strip (if json_truthy v then json_str repr v else []))
             | _ \<Rightarrow> [])
      in if selected \<noteq> [] \<and> selected \<in> set (sandbox_options t) then Some selected
         else if length (ts_required_sandbox t) = 1 then Some (hd (ts_required_sandbox t))
         else None)"

definition set_selected_sandbox :: "string option \<Rightarrow> task_spec \<Rightarrow> task_spec result" where
  "set_selected_sandbox sandbox t =
     (let runtime_metadata = dict_get (ts_metadata t) RUNTIME_METADATA_KEY in
      if sandbox \<in> {None, Some []}
      then Inr (case runtime_metadata of
                  Some (JObj m) \<Rightarrow>
                    t\<lparr>ts_metadata := dict_set RUNTIME_METADATA_KEY (JObj (dict_pop ''selected_sandbox'' m)) (ts_metadata t)\<rparr>
                | _ \<Rightarrow> t)
      else
        let normalized = py_strip (the sandbox) in
        if normalized \<notin> set (sandbox_options t)
        then Inl (Exn ValueError ''selected sandbox is not in required_sandbox'')
        else
          let m = (case runtime_metadata of Some (JObj m) \<Rightarrow> m | _ \<Rightarrow> []) in
          Inr (t\<lparr>ts_metadata :=
                   dict_set RUNTIME_METADATA_KEY (JObj (dict_set ''selected_sandbox'' (JStr normalized) m)) (ts_metadata t)\<rparr>))"

subsection \<open>Batches, runs and results\<close>

record batch_record =
  br_batch_id :: string
  br_parent_conversation_id :: int
  br_parent_turn_id :: int
  br_parent_tool_call_id :: "int option"
  br_status :: batch_status
  br_reason :: string
  br_join_strategy :: join_strategy
  br_max_concurrency :: "int option"
  br_sandbox_type :: "string option"
  br_sandbox_task_count :: int
  br_sandbox_concurrency :: "int option"
  br_available_sandbox_count :: "int option"
  br_planned_batch_sizes :: "int list"
  br_total_count :: int
  br_counts :: "(string, int) dict"
  br_created_at :: int
  br_updated_at :: int
  br_ended_at :: "int option"
  br_cancellation_reason :: string
  br_metadata :: jobj

definition validate_batch_record :: "batch_record \<Rightarrow> batch_record result" where
  "validate_batch_record b =
     (case br_sandbox_type b of
        None \<Rightarrow> Inr b
      | Some v \<Rightarrow> if v \<notin> set SANDBOX_SELECTORS
                  then Inl (Exn ValueError (''unknown sandbox selector: '' @ v)) else Inr b)"

definition materialization_token :: "(json \<Rightarrow> string) \<Rightarrow> batch_record \<Rightarrow> string" where
  "materialization_token repr b =
     (case dict_get (br_metadata b) RUNTIME_METADATA_KEY of
        Some (JObj m) \<Rightarrow> (case dict_get m ''materialization_token'' of None \<Rightarrow> [] | Some v \<Rightarrow> json_str repr v)
      | _ \<Rightarrow> [])"

record fencing_token =
  ft_run_id :: string
  ft_token :: string
  ft_issued_at :: int
  ft_expires_at :: "int option"

record stale_run =
  st_run_id :: string
  st_batch_id :: string
  st_status :: task_status
  st_worker_id :: "string option"
  st_heartbeat_at :: "int option"

text \<open>The three private attributes of \<^verbatim>\<open>TaskRun\<close> come first; they are not fields of the model.\<close>

record task_run =
  tr_runtime_reuse :: bool
  tr_secret_args :: jobj
  tr_bound_batch_id :: string
  tr_run_id :: string
  tr_batch_id :: string
  tr_parent_conversation_id :: int
  tr_parent_turn_id :: int
  tr_parent_tool_call_id :: "int option"
  tr_plan_batch_call_id :: "int option"
  tr_batch_item_index :: int
  tr_username :: string
  tr_agent_id :: string
  tr_agent_instance_id :: int
  tr_project_id :: int
  tr_spec :: task_spec
  tr_execution_policy :: task_execution_policy
  tr_status :: task_status
  tr_attempt :: int
  tr_idempotency_key :: string
  tr_executor :: string
  tr_worker_id :: "string option"
  tr_fencing_token :: string
  tr_sandbox :: "sandbox_lease_ref option"
  tr_sandbox_released :: bool
  tr_lease_outcome :: string
  tr_runtime_stage :: string
  tr_queued_at :: int
  tr_started_at :: "int option"
  tr_heartbeat_at :: "int option"
  tr_ended_at :: "int option"
  tr_latest_progress_message :: string
  tr_latest_progress_at :: int
  tr_last_error_class :: "error_class option"
  tr_last_error :: string

definition secret_arguments :: "task_run \<Rightarrow> jobj" where
  "secret_arguments r = tr_secret_args r"

definition bind_secret_arguments :: "jobj \<Rightarrow> task_run \<Rightarrow> task_run" where
  "bind_secret_arguments vals r = r\<lparr>tr_secret_args := vals\<rparr>"

definition scheduled_batch_id :: "task_run \<Rightarrow> string" where
  "scheduled_batch_id r = str_or (tr_bound_batch_id r) (tr_batch_id r)"

definition bind_scheduled_batch :: "string \<Rightarrow> task_run \<Rightarrow> task_run" where
  "bind_scheduled_batch batch_id r = r\<lparr>tr_bound_batch_id := batch_id\<rparr>"

datatype artifact_type = ART_LOG | ART_REPORT | ART_SCREENSHOT | ART_VIDEO | ART_FILE | ART_PATCH | ART_JSON | ART_TRAJECTORY

datatype artifact_role = ROLE_PRIMARY | ROLE_EVIDENCE | ROLE_DEBUG | ROLE_RAW

record artifact_ref =
  ar_name :: string
  ar_type :: artifact_type
  ar_role :: artifact_role
  ar_uri :: string
  ar_filepath :: string
  ar_size_bytes :: "int option"
  ar_metadata :: jobj

record task_output_ref =
  or_path :: string
  or_size :: int

record task_result =
  res_run_id :: string
  res_task_id :: string
  res_status :: task_status
  res_title :: string
  res_summary :: string
  res_output :: string
  res_output_ref :: "task_output_ref option"
  res_primary_artifact :: "artifact_ref option"
  res_error_class :: "error_class option"
  res_error_message :: string
  res_trajectory :: "artifact_ref option"
  res_artifacts :: "artifact_ref list"
  res_logs :: "artifact_ref list"
  res_sandbox :: "sandbox_lease_ref option"
  res_started_at :: "int option"
  res_ended_at :: "int option"
  res_duration_ms :: "int option"
  res_metrics :: "(string, int) dict"

record task_result_digest =
  dg_task_id :: string
  dg_run_id :: string
  dg_title :: string
  dg_status :: task_status
  dg_summary :: string
  dg_primary_artifact :: "artifact_ref option"
  dg_trajectory_ref :: "artifact_ref option"
  dg_error_class :: "error_class option"
  dg_error_message :: string
  dg_duration_ms :: "int option"

record batch_result =
  bres_batch_id :: string
  bres_status :: batch_status
  bres_total_count :: int
  bres_completed_count :: int
  bres_failed_count :: int
  bres_cancelled_count :: int
  bres_timed_out_count :: int
  bres_blocked_count :: int
  bres_results :: "task_result list"
  bres_artifacts_root :: string

record batch_result_digest =
  bd_batch_id :: string
  bd_status :: batch_status
  bd_counts :: "(string, int) dict"
  bd_results :: "task_result_digest list"
  bd_artifacts_root :: string

text \<open>\<^verbatim>\<open>_truncate_summary\<close>; the marker is a line feed followed by \<^verbatim>\<open>...TRUNCATED\<close>.\<close>

definition truncate_summary :: "int \<Rightarrow> string \<Rightarrow> string" where
  "truncate_summary max_chars v =
     (if int (length v) \<le> max_chars then v
      else py_rstrip (py_take (max_chars - 14) v) @ char_of (10::nat) # ''...TRUNCATED'')"

definition task_result_digest_from_result :: "task_result \<Rightarrow> task_result_digest" where
  "task_result_digest_from_result r =
     \<lparr>dg_task_id = res_task_id r, dg_run_id = res_run_id r, dg_title = res_title r, dg_status = res_status r,
      dg_summary = truncate_summary 1200 (res_summary r),
      dg_primary_artifact = res_primary_artifact r, dg_trajectory_ref = res_trajectory r,
      dg_error_class = res_error_class r, dg_error_message = res_error_message r,
      dg_duration_ms = res_duration_ms r\<rparr>"

definition digest_selected_indexes :: "task_result list \<Rightarrow> int \<Rightarrow> int option \<Rightarrow> nat list" where
  "digest_selected_indexes results max_success_items max_result_items =
     (let non_success_indexes = filter (\<lambda>i. res_status (results ! i) \<noteq> COMPLETED) [0..<length results];
          success_indexes =
            py_take max_success_items (filter (\<lambda>i. res_status (results ! i) = COMPLETED) [0..<length results])
      in case max_result_items of
           None \<Rightarrow> non_success_indexes @ success_indexes
         | Some m \<Rightarrow>
             let selected = py_take m non_success_indexes;
                 remaining = max 0 (m - int (length selected))
             in selected @ py_take remaining success_indexes)"

definition batch_result_digest_from_result ::
    "batch_result \<Rightarrow> int \<Rightarrow> int option \<Rightarrow> batch_result_digest" where
  "batch_result_digest_from_result result max_success_items max_result_items =
     (let selected_indexes = digest_selected_indexes (bres_results result) max_success_items max_result_items
      in \<lparr>bd_batch_id = bres_batch_id result, bd_status = bres_status result,
          bd_counts = [(''completed'', bres_completed_count result), (''failed'', bres_failed_count result),
                       (''cancelled'', bres_cancelled_count result), (''timed_out'', bres_timed_out_count result),
                       (''blocked'', bres_blocked_count result)],
          bd_results = map (\<lambda>i. task_result_digest_from_result (bres_results result ! i))
                         (filter (\<lambda>i. i \<in> set selected_indexes) [0..<length (bres_results result)]),
          bd_artifacts_root = bres_artifacts_root result\<rparr>)"

text \<open>
  \<^verbatim>\<open>compute_idempotency_key\<close>. The canonical JSON text and its SHA-256 digest are the parameter
  \<open>digest\<close>; the pydantic dump of a task without \<^verbatim>\<open>task_id\<close>, \<^verbatim>\<open>idempotency_key\<close> and \<^verbatim>\<open>metadata\<close> is
  the parameter \<open>dump\<close>.
\<close>

definition idempotency_payload :: "(task_spec \<Rightarrow> json) \<Rightarrow> string \<Rightarrow> int \<Rightarrow> task_spec \<Rightarrow> json" where
  "idempotency_payload dump submission_id batch_item_index task =
     (let explicit = py_strip (ts_idempotency_key task)
      in JObj [(''schema_version'', JInt 2), (''submission_id'', JStr submission_id),
               (''batch_item_index'', JInt batch_item_index),
               (''task'', if explicit \<noteq> [] then JObj [(''explicit_idempotency_key'', JStr explicit)] else dump task)])"

definition compute_idempotency_key ::
    "(json \<Rightarrow> string) \<Rightarrow> (task_spec \<Rightarrow> json) \<Rightarrow> string \<Rightarrow> int \<Rightarrow> task_spec \<Rightarrow> string result" where
  "compute_idempotency_key digest dump submission_id batch_item_index task =
     (let s = py_strip submission_id in
      if s = [] then Inl (Exn ValueError ''submission_id is required'')
      else Inr (digest (idempotency_payload dump s batch_item_index task)))"

definition TERMINAL_STATUSES :: "task_status list" where
  "TERMINAL_STATUSES = [COMPLETED, FAILED, CANCELLED, TIMED_OUT, BLOCKED]"

definition SANDBOX_PRE_EXECUTION_STAGES :: "string list" where
  "SANDBOX_PRE_EXECUTION_STAGES =
     [''workspace'', ''runner'', ''capacity_wait'', ''acquire'', ''reset'', ''sandbox_ready'']"

record task_batch_input =
  tb_tasks :: "task_spec list"
  tb_join_strategy :: join_strategy
  tb_description :: string
  tb_max_concurrency :: "int option"

definition validate_task_batch_input :: "task_batch_input \<Rightarrow> task_batch_input result" where
  "validate_task_batch_input b =
     (if tb_tasks b = [] then Inl (Exn ValueError ''TaskBatchInput.tasks must not be empty'')
      else if (case tb_max_concurrency b of None \<Rightarrow> False | Some n \<Rightarrow> n \<le> 0)
      then Inl (Exn ValueError ''TaskBatchInput.max_concurrency must be positive'')
      else Inr b)"

record prepared_task_batch =
  pb_batch :: task_batch_input
  pb_batch_metadata :: jobj
  pb_adapter_state :: jobj

subsection \<open>Validated specifications\<close>

definition task_spec_ok :: "task_spec \<Rightarrow> bool" where
  "task_spec_ok t \<longleftrightarrow>
     ts_task_id t \<noteq> [] \<and> stripped (ts_task_id t) \<and> ts_title t \<noteq> [] \<and> stripped (ts_title t)
     \<and> 0 \<le> ts_stage t \<and> distinct (ts_required_sandbox t) \<and> set (ts_required_sandbox t) \<subseteq> set SANDBOX_SELECTORS"

lemma not_blank_Inr: "not_blank v = Inr n \<longleftrightarrow> n = py_strip v \<and> n \<noteq> []"
  by (auto simp: not_blank_def Let_def)

lemma rmap_as_str [simp]: "rmap as_str (map JStr xs) = Inr xs"
  by (induction xs) simp_all

fun dedup_stripped :: "string list \<Rightarrow> string list \<Rightarrow> string list" where
  "dedup_stripped seen [] = []"
| "dedup_stripped seen (x # xs) =
     (if py_strip x \<noteq> [] \<and> py_strip x \<notin> set seen then x # dedup_stripped (py_strip x # seen) xs
      else dedup_stripped seen xs)"

lemma coerce_items_JStr: "coerce_items repr seen (map JStr xs) = map JStr (dedup_stripped seen xs)"
  by (induction seen xs rule: dedup_stripped.induct) (auto simp: Let_def)

lemma dedup_stripped_subset: "set (dedup_stripped seen xs) \<subseteq> set xs"
  by (induction seen xs rule: dedup_stripped.induct) auto

lemma dedup_stripped_keys:
  "x \<in> set (dedup_stripped seen xs) \<Longrightarrow> py_strip x \<noteq> [] \<and> py_strip x \<notin> set seen"
  by (induction seen xs rule: dedup_stripped.induct) (auto split: if_splits)

lemma distinct_dedup_stripped: "distinct (map py_strip (dedup_stripped seen xs))"
  by (induction seen xs rule: dedup_stripped.induct) (auto dest: dedup_stripped_keys)

lemma required_sandbox_field_JStr:
  "required_sandbox_field repr (JList (map JStr xs)) = valid_required_sandbox (dedup_stripped [] xs)"
  by (simp add: required_sandbox_field_def coerce_items_JStr)

lemma valid_required_sandbox_Inr:
  "valid_required_sandbox v = Inr w \<longleftrightarrow> w = v \<and> set v \<subseteq> set SANDBOX_SELECTORS"
  by (auto simp: valid_required_sandbox_def filter_empty_conv)

lemma validate_task_spec_Inr:
  "validate_task_spec t = Inr t' \<longleftrightarrow>
     (\<exists>d. validate_dispatch (ts_dispatch t) = Inr d
        \<and> py_strip (ts_task_id t) \<noteq> [] \<and> py_strip (ts_title t) \<noteq> []
        \<and> set (dedup_stripped [] (ts_required_sandbox t)) \<subseteq> set SANDBOX_SELECTORS
        \<and> t' = t\<lparr>ts_task_id := py_strip (ts_task_id t), ts_title := py_strip (ts_title t), ts_dispatch := d,
                 ts_required_sandbox := dedup_stripped [] (ts_required_sandbox t),
                 ts_stage := max 0 (ts_stage t)\<rparr>)"
  by (auto simp: validate_task_spec_def rbind_Inr_iff not_blank_Inr required_sandbox_field_JStr
      valid_required_sandbox_Inr non_negative_stage_def)

text \<open>
  C40. A task specification that passes validation has a non-empty, trimmed identifier and
  title, a stage that is not negative, and a list of known sandbox selectors without
  duplicates.
\<close>

theorem validate_task_spec_ok: "validate_task_spec t = Inr t' \<Longrightarrow> task_spec_ok t'"
  by (auto simp: validate_task_spec_Inr task_spec_ok_def
      intro: distinct_map [THEN iffD1, THEN conjunct1, OF distinct_dedup_stripped])

definition sample_spec :: task_spec where
  "sample_spec =
     \<lparr>ts_task_id = ''t1'', ts_title = ''Title'', ts_instructions = [], ts_dispatch = Capability_Dispatch ''a:b'',
      ts_display = \<lparr>td_plan_title = [], td_batch_step_title = [], td_single_step_title = []\<rparr>,
      ts_args = [], ts_metadata = [], ts_required_sandbox = [''android'', ''linux''], ts_stage = - 1,
      ts_idempotency_key = []\<rparr>"

lemma normalize_a_b: "normalize_capability_id ''a:b'' = Inr ''a:b''"
  by code_simp

lemma sample_spec_simps:
  "py_strip ''t1'' = ''t1''" "py_strip ''Title'' = ''Title''"
  "py_strip ''android'' = ''android''" "py_strip ''linux'' = ''linux''"
  by (rule py_strip_stripped, simp add: stripped_def py_isspace_def)+

theorem validate_task_spec_ok_witness:
  "validate_task_spec sample_spec = Inr (sample_spec\<lparr>ts_stage := 0\<rparr>) \<and> task_spec_ok (sample_spec\<lparr>ts_stage := 0\<rparr>)"
proof -
  have "validate_task_spec sample_spec = Inr (sample_spec\<lparr>ts_stage := 0\<rparr>)"
    by (simp add: validate_task_spec_Inr sample_spec_def sample_spec_simps normalize_a_b sandbox_tables)
  then show ?thesis using validate_task_spec_ok by blast
qed

subsection \<open>Selecting a sandbox\<close>

lemma selected_sandbox_cleared:
  "set_selected_sandbox None t = Inr t' \<Longrightarrow>
     selected_sandbox repr t' = (if length (ts_required_sandbox t) = 1 then Some (hd (ts_required_sandbox t)) else None)
     \<and> sandbox_options t' = sandbox_options t"
  by (auto simp: set_selected_sandbox_def selected_sandbox_def sandbox_options_def Let_def dict_get_set dict_get_pop
      split: option.splits json.splits)

lemma selected_sandbox_set:
  assumes "task_spec_ok t" and "s \<noteq> []" and "set_selected_sandbox (Some s) t = Inr t'"
  shows "selected_sandbox repr t' = Some (py_strip s) \<and> sandbox_options t' = sandbox_options t"
proof -
  let ?m = "case dict_get (ts_metadata t) RUNTIME_METADATA_KEY of Some (JObj m) \<Rightarrow> m | _ \<Rightarrow> []"
  from assms have o: "py_strip s \<in> set (sandbox_options t)"
    and t': "t' = t\<lparr>ts_metadata := dict_set RUNTIME_METADATA_KEY
                    (JObj (dict_set ''selected_sandbox'' (JStr (py_strip s)) ?m)) (ts_metadata t)\<rparr>"
    by (auto simp: set_selected_sandbox_def Let_def split: if_splits)
  from o assms(1) have "py_strip s \<in> set SANDBOX_SELECTORS"
    by (auto simp: task_spec_ok_def sandbox_options_def)
  then have "py_strip s \<noteq> []" using sandbox_selectors_stripped by blast
  with o show ?thesis
    by (simp add: t' selected_sandbox_def sandbox_options_def dict_get_set)
qed

text \<open>
  Selecting a sandbox for a validated task either fails, and then the trimmed name is not
  among the options of the task, or stores it: reading the selection gives back the trimmed
  name, the options are unchanged, and clearing the selection falls back to the only option
  or to none.
\<close>

theorem selected_sandbox_roundtrip:
  assumes "task_spec_ok t"
  shows "case set_selected_sandbox s t of
           Inl e \<Rightarrow> exn_class e = ValueError \<and> s \<noteq> None \<and> py_strip (the s) \<notin> set (sandbox_options t)
         | Inr t' \<Rightarrow> sandbox_options t' = sandbox_options t \<and>
             selected_sandbox repr t' =
               (if s \<noteq> None \<and> s \<noteq> Some [] then Some (py_strip (the s))
                else if length (ts_required_sandbox t) = 1 then Some (hd (ts_required_sandbox t)) else None)"
proof (cases "set_selected_sandbox s t")
  case (Inl e)
  then show ?thesis by (auto simp: set_selected_sandbox_def Let_def split: if_splits)
next
  case (Inr t')
  show ?thesis
  proof (cases "s = None \<or> s = Some []")
    case True
    then have "set_selected_sandbox s t = set_selected_sandbox None t"
      by (auto simp: set_selected_sandbox_def)
    with Inr selected_sandbox_cleared [of t t' repr] True show ?thesis by auto
  next
    case False
    with Inr assms selected_sandbox_set [of t "the s" t' repr] show ?thesis by auto
  qed
qed

theorem selected_sandbox_roundtrip_witness:
  "task_spec_ok (sample_spec\<lparr>ts_stage := 0\<rparr>)
   \<and> (\<exists>t'. set_selected_sandbox (Some '' linux'') (sample_spec\<lparr>ts_stage := 0\<rparr>) = Inr t'
        \<and> selected_sandbox (\<lambda>_. []) t' = Some ''linux'')"
proof -
  let ?t = "sample_spec\<lparr>ts_stage := 0\<rparr>"
  have ok: "task_spec_ok ?t"
    by (simp add: task_spec_ok_def sample_spec_def sandbox_tables stripped_def py_isspace_def)
  have st: "py_strip '' linux'' = ''linux''" by code_simp
  obtain t' where t': "set_selected_sandbox (Some '' linux'') ?t = Inr t'"
    by (simp add: set_selected_sandbox_def st sandbox_options_def sample_spec_def Let_def)
  with selected_sandbox_roundtrip [OF ok, of "Some '' linux''" "\<lambda>_. []"] st ok show ?thesis by auto
qed

subsection \<open>Digests\<close>

lemma length_truncate_summary: "14 \<le> m \<Longrightarrow> int (length (truncate_summary m v)) \<le> m"
proof -
  assume m: "14 \<le> m"
  have "length (py_rstrip w) \<le> length w" for w
    using py_rstrip_prefix [of w] by (metis length_append le_add1)
  moreover have "int (length (py_take (m - 14) v)) \<le> m - 14"
    using m by (intro length_py_take) simp
  ultimately have "int (length (py_rstrip (py_take (m - 14) v))) \<le> m - 14"
    by (meson of_nat_mono order_trans)
  then show ?thesis by (simp add: truncate_summary_def)
qed

lemma digest_selected_length:
  "0 \<le> m \<Longrightarrow> int (length (digest_selected_indexes rs k (Some m))) \<le> m"
proof -
  assume m: "0 \<le> m"
  let ?a = "py_take m (filter (\<lambda>i. res_status (rs ! i) \<noteq> COMPLETED) [0..<length rs])"
  let ?b = "py_take (max 0 (m - int (length ?a))) (py_take k (filter (\<lambda>i. res_status (rs ! i) = COMPLETED) [0..<length rs]))"
  have "int (length ?a) \<le> m" using m by (rule length_py_take)
  moreover have "int (length ?b) \<le> max 0 (m - int (length ?a))" by (rule length_py_take) simp
  ultimately show ?thesis by (simp add: digest_selected_indexes_def Let_def)
qed

lemma card_filter_selected: "length (filter (\<lambda>i. i \<in> set xs) [0..<n]) \<le> length xs"
proof -
  have "length (filter (\<lambda>i. i \<in> set xs) [0..<n]) = card (set (filter (\<lambda>i. i \<in> set xs) [0..<n]))"
    by (metis distinct_card distinct_filter distinct_upt)
  also have "\<dots> \<le> card (set xs)" by (rule card_mono) auto
  also have "\<dots> \<le> length xs" by (rule card_length)
  finally show ?thesis .
qed

lemma digest_keeps_failures:
  "\<forall>x \<in> set (bres_results r). res_status x \<noteq> COMPLETED \<longrightarrow>
     task_result_digest_from_result x \<in> set (bd_results (batch_result_digest_from_result r k None))"
proof (intro ballI impI)
  fix x assume "x \<in> set (bres_results r)" and x: "res_status x \<noteq> COMPLETED"
  then obtain i where "i < length (bres_results r)" "x = bres_results r ! i" by (metis in_set_conv_nth)
  with x show "task_result_digest_from_result x \<in> set (bd_results (batch_result_digest_from_result r k None))"
    by (simp add: batch_result_digest_from_result_def digest_selected_indexes_def Let_def)
qed

text \<open>
  The digest given to the parent agent never holds more results than the limit asked
  for, every summary in it has at most 1200 characters, and with no limit every result that
  is not a success is in it.
\<close>

theorem batch_digest_bounded:
  assumes "0 \<le> m"
  shows "int (length (bd_results (batch_result_digest_from_result r k (Some m)))) \<le> m
    \<and> (\<forall>d \<in> set (bd_results (batch_result_digest_from_result r k items)). length (dg_summary d) \<le> 1200)
    \<and> (\<forall>x \<in> set (bres_results r). res_status x \<noteq> COMPLETED \<longrightarrow>
           task_result_digest_from_result x \<in> set (bd_results (batch_result_digest_from_result r k None)))"
proof (intro conjI)
  let ?sel = "digest_selected_indexes (bres_results r) k (Some m)"
  have "int (length (bd_results (batch_result_digest_from_result r k (Some m)))) \<le> int (length ?sel)"
    using card_filter_selected [of ?sel] by (simp add: batch_result_digest_from_result_def Let_def)
  also have "\<dots> \<le> m" using assms by (rule digest_selected_length)
  finally show "int (length (bd_results (batch_result_digest_from_result r k (Some m)))) \<le> m" .
  show "\<forall>d \<in> set (bd_results (batch_result_digest_from_result r k items)). length (dg_summary d) \<le> 1200"
    using length_truncate_summary [of 1200]
    by (auto simp: batch_result_digest_from_result_def task_result_digest_from_result_def Let_def)
  show "\<forall>x \<in> set (bres_results r). res_status x \<noteq> COMPLETED \<longrightarrow>
           task_result_digest_from_result x \<in> set (bd_results (batch_result_digest_from_result r k None))"
    by (rule digest_keeps_failures)
qed

definition sample_result :: "string \<Rightarrow> task_status \<Rightarrow> task_result" where
  "sample_result rid st =
     \<lparr>res_run_id = rid, res_task_id = ''t1'', res_status = st, res_title = ''Title'', res_summary = ''done'',
      res_output = [], res_output_ref = None, res_primary_artifact = None, res_error_class = None,
      res_error_message = [], res_trajectory = None, res_artifacts = [], res_logs = [], res_sandbox = None,
      res_started_at = None, res_ended_at = None, res_duration_ms = None, res_metrics = []\<rparr>"

definition sample_batch_result :: batch_result where
  "sample_batch_result =
     \<lparr>bres_batch_id = ''b'', bres_status = B_PARTIAL, bres_total_count = 3, bres_completed_count = 2,
      bres_failed_count = 1, bres_cancelled_count = 0, bres_timed_out_count = 0, bres_blocked_count = 0,
      bres_results = [sample_result ''r1'' COMPLETED, sample_result ''r2'' COMPLETED, sample_result ''r3'' FAILED],
      bres_artifacts_root = []\<rparr>"

theorem batch_digest_bounded_witness:
  "map dg_run_id (bd_results (batch_result_digest_from_result sample_batch_result 3 (Some 2))) = [''r1'', ''r3'']
   \<and> int (length (bd_results (batch_result_digest_from_result sample_batch_result 3 (Some 2)))) \<le> 2"
proof
  show "map dg_run_id (bd_results (batch_result_digest_from_result sample_batch_result 3 (Some 2))) = [''r1'', ''r3'']"
    by code_simp
  show "int (length (bd_results (batch_result_digest_from_result sample_batch_result 3 (Some 2)))) \<le> 2"
    using batch_digest_bounded [of 2 sample_batch_result 3 None] by simp
qed

subsection \<open>Idempotency keys\<close>

text \<open>
  With a digest that does not collide on the two payloads, and a dump that is an object
  with the title of the task, two keys are equal exactly when the trimmed submissions and the
  positions in the batch are equal and the tasks have the same explicit key, or no explicit
  key and the same dump: a redelivered submission reuses its keys, a new one never does.
\<close>

theorem idempotency_key_exact:
  assumes "inj_on digest {idempotency_payload dump (py_strip s) i t, idempotency_payload dump (py_strip s') i' t'}"
    and dump: "\<And>x. \<exists>kvs. dump x = JObj kvs \<and> ''title'' \<in> set (dict_keys kvs)"
    and "compute_idempotency_key digest dump s i t = Inr k"
    and "compute_idempotency_key digest dump s' i' t' = Inr k'"
  shows "k = k' \<longleftrightarrow> py_strip s = py_strip s' \<and> i = i' \<and>
           py_strip (ts_idempotency_key t) = py_strip (ts_idempotency_key t') \<and>
           (py_strip (ts_idempotency_key t) = [] \<longrightarrow> dump t = dump t')"
proof -
  let ?p = "idempotency_payload dump (py_strip s) i t"
  let ?p' = "idempotency_payload dump (py_strip s') i' t'"
  have "k = k' \<longleftrightarrow> ?p = ?p'"
    using assms(1,3,4) by (auto simp: compute_idempotency_key_def Let_def inj_on_def split: if_splits)
  moreover have "dump x \<noteq> JObj [(''explicit_idempotency_key'', v)]" for x v
    using dump [of x] by auto
  ultimately show ?thesis
    by (auto simp: idempotency_payload_def Let_def split: if_splits) metis+
qed

theorem idempotency_key_exact_witness:
  "let dump = (\<lambda>x::task_spec. JObj [(''title'', JStr (ts_title x))]);
       digest = (\<lambda>j. if j = idempotency_payload dump ''s1'' 0 sample_spec then ''aa'' else ''bb'')
   in compute_idempotency_key digest dump ''s1'' 0 sample_spec = Inr ''aa''
    \<and> compute_idempotency_key digest dump ''s1'' 1 sample_spec = Inr ''bb''
    \<and> ((''aa'' = ''bb'') \<longleftrightarrow> (0::int) = 1)"
proof -
  define dump where "dump = (\<lambda>x::task_spec. JObj [(''title'', JStr (ts_title x))])"
  define digest where "digest = (\<lambda>j. if j = idempotency_payload dump ''s1'' 0 sample_spec then ''aa'' else ''bb'')"
  have st: "py_strip ''s1'' = ''s1''"
    by (rule py_strip_stripped) (simp add: stripped_def py_isspace_def)
  have ne: "idempotency_payload dump ''s1'' 0 sample_spec \<noteq> idempotency_payload dump ''s1'' 1 sample_spec"
    by (simp add: idempotency_payload_def Let_def)
  have k: "compute_idempotency_key digest dump ''s1'' 0 sample_spec = Inr ''aa''"
    "compute_idempotency_key digest dump ''s1'' 1 sample_spec = Inr ''bb''"
    using ne by (simp_all add: compute_idempotency_key_def st digest_def)
  have "(''aa'' = ''bb'') \<longleftrightarrow> (0::int) = 1"
    using idempotency_key_exact [OF _ _ k] ne st by (simp add: dump_def digest_def inj_on_def)
  with k show ?thesis by (simp add: dump_def digest_def)
qed

end
