(* ===== verification/Event_Bus.thy ===== *)
theory Event_Bus
  imports Domain_Models
begin

section \<open>The event bus, its metrics subscriber and the runtime world\<close>

text \<open>
  \<^verbatim>\<open>events/bus.py\<close> and \<^verbatim>\<open>events/subscribers/metrics.py\<close>. A handler is a state transformer over
  the state its subscribers own, paired with a key that stands for its identity (Python
  compares callables by identity when it removes one). \<^verbatim>\<open>publish\<close> runs a snapshot of the
  handlers in registration order and swallows what they raise.

  The second half fixes the world the runtime code runs in: the wall clock of
  \<^verbatim>\<open>domain/time.py\<close>, the supply of fresh identifiers, and the sequence of events published on
  the default bus. Components extend this record with the state they own.
\<close>

datatype runtime_event =
    Run_State_Transition (ev_run_id: string) (ev_run_batch_id: string) (ev_from: task_status) (ev_to: task_status)
  | Batch_State_Transition (ev_batch_id: string) (ev_batch_from: batch_status) (ev_batch_to: batch_status)

type_synonym 's event_handler = "runtime_event \<Rightarrow> ('s, unit) io"

record 's runtime_event_bus =
  bus_handlers :: "(nat \<times> 's event_handler) list"

definition new_bus :: "'s runtime_event_bus" where
  "new_bus = \<lparr>bus_handlers = []\<rparr>"

definition bus_subscribe :: "nat \<times> 's event_handler \<Rightarrow> 's runtime_event_bus \<Rightarrow> 's runtime_event_bus" where
  "bus_subscribe handler bus = bus\<lparr>bus_handlers := bus_handlers bus @ [handler]\<rparr>"

text \<open>\<^verbatim>\<open>list.remove\<close>: the first handler with that identity, or nothing.\<close>

fun remove_first :: "nat \<Rightarrow> (nat \<times> 'h) list \<Rightarrow> (nat \<times> 'h) list" where
  "remove_first k [] = []"
| "remove_first k ((j, h) # hs) = (if j = k then hs else (j, h) # remove_first k hs)"

definition bus_unsubscribe :: "nat \<Rightarrow> 's runtime_event_bus \<Rightarrow> 's runtime_event_bus" where
  "bus_unsubscribe k bus = bus\<lparr>bus_handlers := remove_first k (bus_handlers bus)\<rparr>"

definition bus_publish :: "'s runtime_event_bus \<Rightarrow> runtime_event \<Rightarrow> ('s, unit) io" where
  "bus_publish bus event = forE (bus_handlers bus) (\<lambda>(_, handler). suppressE (handler event))"

definition bus_clear :: "'s runtime_event_bus \<Rightarrow> 's runtime_event_bus" where
  "bus_clear bus = bus\<lparr>bus_handlers := []\<rparr>"

definition handler_count :: "'s runtime_event_bus \<Rightarrow> nat" where
  "handler_count bus = length (bus_handlers bus)"

subsection \<open>Transition metrics\<close>

record transition_metrics =
  tm_run_counts :: "(string, nat) dict"
  tm_batch_counts :: "(string, nat) dict"

definition metrics_key :: "string \<Rightarrow> string \<Rightarrow> string" where
  "metrics_key from_value to_value = from_value @ ''->'' @ to_value"

text \<open>A \<^verbatim>\<open>Counter\<close> reads zero for an absent key.\<close>

definition counter_get :: "(string, nat) dict \<Rightarrow> string \<Rightarrow> nat" where
  "counter_get d k = (case dict_get d k of None \<Rightarrow> 0 | Some n \<Rightarrow> n)"

definition counter_inc :: "string \<Rightarrow> (string, nat) dict \<Rightarrow> (string, nat) dict" where
  "counter_inc k d = dict_set k (counter_get d k + 1) d"

fun metrics_record :: "runtime_event \<Rightarrow> transition_metrics \<Rightarrow> transition_metrics" where
  "metrics_record (Run_State_Transition _ _ f t) m =
     m\<lparr>tm_run_counts := counter_inc (metrics_key (task_status_value f) (task_status_value t)) (tm_run_counts m)\<rparr>"
| "metrics_record (Batch_State_Transition _ f t) m =
     m\<lparr>tm_batch_counts := counter_inc (metrics_key (batch_status_value f) (batch_status_value t)) (tm_batch_counts m)\<rparr>"

definition metrics_reset :: "transition_metrics \<Rightarrow> transition_metrics" where
  "metrics_reset m = \<lparr>tm_run_counts = [], tm_batch_counts = []\<rparr>"

definition metrics_snapshot :: "transition_metrics \<Rightarrow> (string, (string, nat) dict) dict" where
  "metrics_snapshot m = [(''run'', tm_run_counts m), (''batch'', tm_batch_counts m)]"

definition metrics_handler :: "(transition_metrics \<Rightarrow> 's \<Rightarrow> 's) \<Rightarrow> ('s \<Rightarrow> transition_metrics) \<Rightarrow> 's event_handler" where
  "metrics_handler put get event = modifyE (\<lambda>s. put (metrics_record event (get s)) s)"

definition metrics_register :: "nat \<Rightarrow> transition_metrics runtime_event_bus \<Rightarrow> transition_metrics runtime_event_bus" where
  "metrics_register k bus = bus_subscribe (k, metrics_handler (\<lambda>m _. m) (\<lambda>m. m)) bus"

subsection \<open>The runtime world\<close>

record rt_world =
  w_clock :: "nat \<Rightarrow> int"
  w_tick :: nat
  w_uuids :: "nat \<Rightarrow> string"
  w_uuid_next :: nat
  w_events :: "runtime_event list"

definition now_ms :: "('z rt_world_scheme, int) io" where
  "now_ms = (\<lambda>w. (Inr (w_clock w (w_tick w)), w\<lparr>w_tick := w_tick w + 1\<rparr>))"

definition uuid4_hex :: "('z rt_world_scheme, string) io" where
  "uuid4_hex = (\<lambda>w. (Inr (w_uuids w (w_uuid_next w)), w\<lparr>w_uuid_next := w_uuid_next w + 1\<rparr>))"

definition publish :: "runtime_event \<Rightarrow> ('z rt_world_scheme, unit) io" where
  "publish e = modifyE (\<lambda>w. w\<lparr>w_events := w_events w @ [e]\<rparr>)"

lemma world_ops [simp]:
  "now_ms w = (Inr (w_clock w (w_tick w)), w\<lparr>w_tick := w_tick w + 1\<rparr>)"
  "uuid4_hex w = (Inr (w_uuids w (w_uuid_next w)), w\<lparr>w_uuid_next := w_uuid_next w + 1\<rparr>)"
  "publish e w = (Inr (), w\<lparr>w_events := w_events w @ [e]\<rparr>)"
  by (simp_all add: now_ms_def uuid4_hex_def publish_def)

subsection \<open>Delivery\<close>

text \<open>A handler is well behaved for cancellation when it never raises \<^verbatim>\<open>CancelledError\<close>.\<close>

definition never_cancelled :: "'s event_handler \<Rightarrow> bool" where
  "never_cancelled h \<longleftrightarrow> (\<forall>e s x s'. h e s = (Inl x, s') \<longrightarrow> is_Exception x)"

lemma suppressE_fst: "(\<And>x s'. m s = (Inl x, s') \<Longrightarrow> is_Exception x) \<Longrightarrow> suppressE m s = (Inr (), snd (m s))"
  by (cases "m s"; cases "fst (m s)")
    (auto simp: suppressE_def catch_Exception_def catchE_def split: sum.splits)

lemma forE_total:
  assumes "\<And>x s. x \<in> set xs \<Longrightarrow> f x s = (Inr (), g x s)"
  shows "forE xs f s = (Inr (), fold g xs s)"
  using assms by (induction xs arbitrary: s) simp_all

text \<open>
  Publishing an event reaches every subscribed handler once, in registration order,
  whether or not the handlers before it raised, and never raises into the publisher (as long
  as no handler raises a cancellation).
\<close>

theorem bus_publish_delivers_all:
  assumes "\<forall>(_, h) \<in> set (bus_handlers bus). never_cancelled h"
  shows "bus_publish bus e s = (Inr (), fold (\<lambda>(_, h) s. snd (h e s)) (bus_handlers bus) s)"
proof -
  have "(case x of (_, h) \<Rightarrow> suppressE (h e)) t = (Inr (), (case x of (_, h) \<Rightarrow> \<lambda>s. snd (h e s)) t)"
    if "x \<in> set (bus_handlers bus)" for x t
    using bspec [OF assms that] by (cases x) (auto simp: never_cancelled_def intro!: suppressE_fst)
  then show ?thesis
    unfolding bus_publish_def by (rule forE_total)
qed

theorem bus_publish_delivers_all_witness:
  "let log = (\<lambda>k e s. (Inr (), s @ [k])); crash = (\<lambda>e s. (Inl (Exn RuntimeError []), s @ [99::nat]));
       bus = bus_subscribe (3, log 3) (bus_subscribe (2, crash) (bus_subscribe (1, log 1) new_bus))
   in bus_publish bus (Batch_State_Transition ''b'' B_QUEUED B_RUNNING) [] = (Inr (), [1, 99, 3])"
  unfolding Let_def
  by (subst bus_publish_delivers_all)
    (simp_all add: bus_subscribe_def new_bus_def never_cancelled_def is_Exception_def)

subsection \<open>Counting\<close>

lemma metrics_key_inj:
  assumes "CHR ''>'' \<notin> set a" and "CHR ''>'' \<notin> set c"
  shows "metrics_key a b = metrics_key c d \<longleftrightarrow> a = c \<and> b = d"
proof
  assume "metrics_key a b = metrics_key c d"
  then have eq: "(a @ ''-'') @ CHR ''>'' # b = (c @ ''-'') @ CHR ''>'' # d"
    by (simp add: metrics_key_def)
  from assms have "CHR ''>'' \<notin> set (a @ ''-'')" "CHR ''>'' \<notin> set (c @ ''-'')" by simp_all
  with arg_cong [OF eq, of "partition_on (CHR ''>'')"] have "a @ ''-'' = c @ ''-'' \<and> b = d"
    by (simp only: partition_on_found prod.inject simp_thms)
  then show "a = c \<and> b = d" by simp
qed simp

lemma status_value_no_gt: "CHR ''>'' \<notin> set (task_status_value s)" "CHR ''>'' \<notin> set (batch_status_value b)"
  by (cases s; simp) (cases b; simp)

lemma counter_get_inc: "counter_get (counter_inc k d) j = counter_get d j + (if j = k then 1 else 0)"
  by (simp add: counter_get_def counter_inc_def dict_get_set)

text \<open>
  After recording a sequence of events, the counter of a pair of run statuses has grown by
  exactly the number of run events with that pair, and the counter of a pair of batch statuses
  by the number of batch events with it: neither kind is mistaken for the other.
\<close>

theorem metrics_count_exact:
  "counter_get (tm_run_counts (fold metrics_record es m)) (metrics_key (task_status_value f) (task_status_value t)) =
     counter_get (tm_run_counts m) (metrics_key (task_status_value f) (task_status_value t))
       + length (filter (\<lambda>e. \<exists>r b. e = Run_State_Transition r b f t) es)
   \<and> counter_get (tm_batch_counts (fold metrics_record es m)) (metrics_key (batch_status_value bf) (batch_status_value bt)) =
     counter_get (tm_batch_counts m) (metrics_key (batch_status_value bf) (batch_status_value bt))
       + length (filter (\<lambda>e. \<exists>b. e = Batch_State_Transition b bf bt) es)"
proof (induction es arbitrary: m)
  case (Cons e es)
  show ?case
    by (cases e) (auto simp: Cons.IH counter_get_inc metrics_key_inj status_value_no_gt)
qed simp

end
