(* ===== verification/State_Machine.thy ===== *)
theory State_Machine
  imports Event_Bus
begin

section \<open>The status machines of runs and batches\<close>

text \<open>
  \<^verbatim>\<open>domain/state_machine.py\<close>: the transition tables, the checks and the in-place transitions
  that publish an event. The locale \<open>status_machine\<close> states what the documentation of the
  module promises of a table, its extension \<open>settling_machine\<close> what it promises of the batch
  table; both tables are interpretations, and the history theorems come from the locale.
\<close>

definition TERMINAL_RUN_STATUSES :: "task_status list" where
  "TERMINAL_RUN_STATUSES = [COMPLETED, FAILED, CANCELLED, TIMED_OUT, BLOCKED]"

definition TERMINAL_BATCH_STATUSES :: "batch_status list" where
  "TERMINAL_BATCH_STATUSES = [B_COMPLETED, B_PARTIAL, B_FAILED, B_CANCELLED, B_TIMED_OUT, B_BLOCKED]"

definition RUN_NONTERMINAL_TARGETS :: "task_status list" where
  "RUN_NONTERMINAL_TARGETS = [COMPLETED, FAILED, CANCELLED, TIMED_OUT, BLOCKED]"

definition RUN_TRANSITIONS :: "(task_status, task_status list) dict" where
  "RUN_TRANSITIONS =
     [(QUEUED, RUNNING # RUN_NONTERMINAL_TARGETS),
      (RUNNING, RUN_NONTERMINAL_TARGETS),
      (COMPLETED, [COMPLETED]),
      (CANCELLED, [CANCELLED]),
      (FAILED, [FAILED, QUEUED]),
      (TIMED_OUT, [TIMED_OUT, QUEUED]),
      (BLOCKED, [BLOCKED, QUEUED])]"

definition BATCH_NONTERMINAL_TARGETS :: "batch_status list" where
  "BATCH_NONTERMINAL_TARGETS = [B_COMPLETED, B_PARTIAL, B_FAILED, B_CANCELLED, B_TIMED_OUT, B_BLOCKED]"

definition BATCH_TRANSITIONS :: "(batch_status, batch_status list) dict" where
  "BATCH_TRANSITIONS =
     [(B_QUEUED, B_RUNNING # BATCH_NONTERMINAL_TARGETS),
      (B_RUNNING, BATCH_NONTERMINAL_TARGETS),
      (B_COMPLETED, [B_COMPLETED]),
      (B_PARTIAL, [B_PARTIAL]),
      (B_FAILED, [B_FAILED]),
      (B_CANCELLED, [B_CANCELLED]),
      (B_TIMED_OUT, [B_TIMED_OUT]),
      (B_BLOCKED, [B_BLOCKED])]"

definition is_terminal_run_status :: "task_status \<Rightarrow> bool" where
  "is_terminal_run_status status \<longleftrightarrow> status \<in> set TERMINAL_RUN_STATUSES"

definition is_terminal_batch_status :: "batch_status \<Rightarrow> bool" where
  "is_terminal_batch_status status \<longleftrightarrow> status \<in> set TERMINAL_BATCH_STATUSES"

definition is_valid_run_transition :: "task_status \<Rightarrow> task_status \<Rightarrow> bool" where
  "is_valid_run_transition old new =
     (case dict_get RUN_TRANSITIONS old of None \<Rightarrow> False | Some allowed \<Rightarrow> new \<in> set allowed)"

definition is_valid_batch_transition :: "batch_status \<Rightarrow> batch_status \<Rightarrow> bool" where
  "is_valid_batch_transition old new =
     (case dict_get BATCH_TRANSITIONS old of None \<Rightarrow> False | Some allowed \<Rightarrow> new \<in> set allowed)"

definition assert_valid_run_transition :: "task_status \<Rightarrow> task_status \<Rightarrow> unit result" where
  "assert_valid_run_transition old new =
     (if \<not> is_valid_run_transition old new
      then Inl (Exn InvalidTransitionError
                  (''illegal task transition: '' @ task_status_value old @ '' -> '' @ task_status_value new))
      else Inr ())"

definition assert_valid_batch_transition :: "batch_status \<Rightarrow> batch_status \<Rightarrow> unit result" where
  "assert_valid_batch_transition old new =
     (if \<not> is_valid_batch_transition old new
      then Inl (Exn InvalidTransitionError
                  (''illegal batch transition: '' @ batch_status_value old @ '' -> '' @ batch_status_value new))
      else Inr ())"

text \<open>The transitions mutate their argument; here they return the updated record.\<close>

definition transition_run :: "task_status \<Rightarrow> bool \<Rightarrow> task_run \<Rightarrow> ('z rt_world_scheme, task_run) io" where
  "transition_run new_status publish_event run =
     (let old_status = tr_status run in
      thenE (liftE (assert_valid_run_transition old_status new_status))
        (let run' = run\<lparr>tr_status := new_status\<rparr> in
         if publish_event
         then thenE (publish (Run_State_Transition (tr_run_id run') (tr_batch_id run') old_status new_status)) (retE run')
         else retE run'))"

definition publish_run_transition :: "task_run \<Rightarrow> task_status \<Rightarrow> ('z rt_world_scheme, unit) io" where
  "publish_run_transition run from_status =
     publish (Run_State_Transition (tr_run_id run) (tr_batch_id run) from_status (tr_status run))"

definition transition_batch :: "batch_status \<Rightarrow> batch_record \<Rightarrow> ('z rt_world_scheme, batch_record) io" where
  "transition_batch new_status batch =
     (let old_status = br_status batch in
      thenE (liftE (assert_valid_batch_transition old_status new_status))
        (let batch' = batch\<lparr>br_status := new_status\<rparr> in
         thenE (publish (Batch_State_Transition (br_batch_id batch') old_status new_status)) (retE batch')))"

subsection \<open>The interface\<close>

fun legal_path :: "('s \<Rightarrow> 's \<Rightarrow> bool) \<Rightarrow> 's \<Rightarrow> 's list \<Rightarrow> bool" where
  "legal_path step s [] = True"
| "legal_path step s (t # ts) = (step s t \<and> legal_path step t ts)"

locale status_machine =
  fixes step :: "'s \<Rightarrow> 's \<Rightarrow> bool"
    and terminal absorbing :: "'s \<Rightarrow> bool"
    and queued running :: 's
  assumes live: "\<not> terminal s \<longleftrightarrow> s = queued \<or> s = running"
    and queued_step: "step queued t \<longleftrightarrow> t = running \<or> terminal t"
    and running_step: "step running t \<longleftrightarrow> terminal t"
    and terminal_step: "terminal s \<Longrightarrow> step s t \<longleftrightarrow> t = s \<or> (\<not> absorbing s \<and> t = queued)"
    and absorbing_terminal: "absorbing s \<Longrightarrow> terminal s"
begin

lemma absorbing_path: "absorbing s \<Longrightarrow> legal_path step s ts \<Longrightarrow> set ts \<subseteq> {s}"
proof (induction ts)
  case (Cons t ts)
  then have "t = s" by (auto simp: terminal_step absorbing_terminal)
  with Cons show ?case by simp
qed simp

text \<open>A path that rewinds from running to queued passes through a retryable terminal status.\<close>

lemma rewind_through_terminal:
  "legal_path step running ts \<Longrightarrow> queued \<in> set ts \<Longrightarrow> queued \<noteq> running \<Longrightarrow>
     \<exists>t us vs. ts = us @ t # queued # vs \<and> terminal t \<and> \<not> absorbing t \<and> queued \<notin> set us"
proof -
  assume p: "legal_path step running ts" and q: "queued \<in> set ts" and ne: "queued \<noteq> running"
  have gen: "legal_path step s ts \<Longrightarrow> queued \<in> set ts \<Longrightarrow> terminal s \<Longrightarrow>
      \<exists>t us vs. s # ts = us @ t # queued # vs \<and> terminal t \<and> \<not> absorbing t \<and> queued \<notin> set us" for s ts
  proof (induction ts arbitrary: s)
    case (Cons t ts)
    show ?case
    proof (cases "t = queued")
      case True
      with Cons.prems have "\<not> absorbing s" using terminal_step [of s queued] live [of s] by auto
      with True Cons.prems show ?thesis by (intro exI [of _ s] exI [of _ "[]"] exI [of _ ts]) simp
    next
      case False
      with Cons.prems have "t = s" by (auto simp: terminal_step)
      moreover from this Cons.prems False have "legal_path step s ts" "queued \<in> set ts" by auto
      ultimately obtain t' us vs where "t # ts = us @ t' # queued # vs"
        and "terminal t'" "\<not> absorbing t'" "queued \<notin> set us"
        using Cons.IH [of s] Cons.prems(3) by metis
      moreover have "s \<noteq> queued" using Cons.prems(3) live by blast
      ultimately show ?thesis
        by (intro exI [of _ t'] exI [of _ "s # us"] exI [of _ vs]) simp
    qed
  qed simp
  from q obtain t ts' where ts: "ts = t # ts'" by (cases ts) auto
  with p have t: "terminal t" by (simp add: running_step)
  with live have "t \<noteq> queued" by blast
  with ts q gen [of t ts'] p t show ?thesis by simp
qed

lemma live_settles: "\<not> terminal s \<Longrightarrow> terminal t \<Longrightarrow> step s t"
  using live [of s] queued_step [of t] running_step [of t] by auto

end

locale settling_machine = status_machine +
  assumes all_absorbing: "terminal s \<Longrightarrow> absorbing s"
begin

lemma terminal_path: "terminal s \<Longrightarrow> legal_path step s ts \<Longrightarrow> set ts \<subseteq> {s}"
  using all_absorbing absorbing_path by blast

lemma never_requeued: "queued \<noteq> running \<Longrightarrow> s \<noteq> queued \<Longrightarrow> legal_path step s ts \<Longrightarrow> queued \<notin> set ts"
proof (cases "terminal s")
  case True
  assume "s \<noteq> queued" "legal_path step s ts"
  with True show ?thesis using terminal_path by blast
next
  case False
  assume a: "queued \<noteq> running" "s \<noteq> queued" "legal_path step s ts"
  with False have "s = running" using live by blast
  with a all_absorbing rewind_through_terminal [of ts] show ?thesis by blast
qed

end

definition absorbing_run_status :: "task_status \<Rightarrow> bool" where
  "absorbing_run_status s \<longleftrightarrow> s \<in> {COMPLETED, CANCELLED}"

lemmas run_tables = is_terminal_run_status_def is_valid_run_transition_def RUN_TRANSITIONS_def
  TERMINAL_RUN_STATUSES_def RUN_NONTERMINAL_TARGETS_def absorbing_run_status_def

lemmas batch_tables = is_terminal_batch_status_def is_valid_batch_transition_def BATCH_TRANSITIONS_def
  TERMINAL_BATCH_STATUSES_def BATCH_NONTERMINAL_TARGETS_def

interpretation run_sm: status_machine is_valid_run_transition is_terminal_run_status absorbing_run_status QUEUED RUNNING
proof unfold_locales
  fix s t :: task_status
  show "\<not> is_terminal_run_status s \<longleftrightarrow> s = QUEUED \<or> s = RUNNING"
    by (cases s) (simp_all add: run_tables)
  show "is_valid_run_transition QUEUED t \<longleftrightarrow> t = RUNNING \<or> is_terminal_run_status t"
    by (cases t) (simp_all add: run_tables)
  show "is_valid_run_transition RUNNING t \<longleftrightarrow> is_terminal_run_status t"
    by (cases t) (simp_all add: run_tables)
  show "is_terminal_run_status s \<Longrightarrow>
      is_valid_run_transition s t \<longleftrightarrow> t = s \<or> (\<not> absorbing_run_status s \<and> t = QUEUED)"
    by (cases s) (auto simp: run_tables)
  show "absorbing_run_status s \<Longrightarrow> is_terminal_run_status s"
    by (auto simp: run_tables)
qed

interpretation batch_sm: settling_machine is_valid_batch_transition is_terminal_batch_status is_terminal_batch_status
  B_QUEUED B_RUNNING
proof unfold_locales
  fix s t :: batch_status
  show "\<not> is_terminal_batch_status s \<longleftrightarrow> s = B_QUEUED \<or> s = B_RUNNING"
    by (cases s) (simp_all add: batch_tables)
  show "is_valid_batch_transition B_QUEUED t \<longleftrightarrow> t = B_RUNNING \<or> is_terminal_batch_status t"
    by (cases t) (simp_all add: batch_tables)
  show "is_valid_batch_transition B_RUNNING t \<longleftrightarrow> is_terminal_batch_status t"
    by (cases t) (simp_all add: batch_tables)
  show "is_terminal_batch_status s \<Longrightarrow>
      is_valid_batch_transition s t \<longleftrightarrow> t = s \<or> (\<not> is_terminal_batch_status s \<and> t = B_QUEUED)"
    by (cases s) (auto simp: batch_tables)
qed

subsection \<open>Transitions on records\<close>

lemma transition_run_eq:
  "transition_run new p run w =
     (if is_valid_run_transition (tr_status run) new
      then (Inr (run\<lparr>tr_status := new\<rparr>),
            if p then w\<lparr>w_events := w_events w @ [Run_State_Transition (tr_run_id run) (tr_batch_id run) (tr_status run) new]\<rparr>
            else w)
      else (Inl (Exn InvalidTransitionError
                  (''illegal task transition: '' @ task_status_value (tr_status run) @ '' -> '' @ task_status_value new)), w))"
  by (simp add: transition_run_def assert_valid_run_transition_def Let_def)

lemma transition_batch_eq:
  "transition_batch new b w =
     (if is_valid_batch_transition (br_status b) new
      then (Inr (b\<lparr>br_status := new\<rparr>),
            w\<lparr>w_events := w_events w @ [Batch_State_Transition (br_batch_id b) (br_status b) new]\<rparr>)
      else (Inl (Exn InvalidTransitionError
                  (''illegal batch transition: '' @ batch_status_value (br_status b) @ '' -> '' @ batch_status_value new)), w))"
  by (simp add: transition_batch_def assert_valid_batch_transition_def Let_def)

text \<open>
  A caller that attempts transitions one after another and ignores the refused ones; the run
  object and the world are threaded through.
\<close>

fun attempt_run_transitions :: "task_status list \<Rightarrow> task_run \<Rightarrow> 'z rt_world_scheme \<Rightarrow> task_run \<times> 'z rt_world_scheme" where
  "attempt_run_transitions [] run w = (run, w)"
| "attempt_run_transitions (s # ss) run w =
     (case transition_run s True run w of
        (Inl _, w') \<Rightarrow> attempt_run_transitions ss run w'
      | (Inr run', w') \<Rightarrow> attempt_run_transitions ss run' w')"

fun attempt_batch_transitions :: "batch_status list \<Rightarrow> batch_record \<Rightarrow> 'z rt_world_scheme \<Rightarrow> batch_record \<times> 'z rt_world_scheme" where
  "attempt_batch_transitions [] b w = (b, w)"
| "attempt_batch_transitions (s # ss) b w =
     (case transition_batch s b w of
        (Inl _, w') \<Rightarrow> attempt_batch_transitions ss b w'
      | (Inr b', w') \<Rightarrow> attempt_batch_transitions ss b' w')"

fun run_event_chain :: "task_run \<Rightarrow> task_status \<Rightarrow> task_status list \<Rightarrow> runtime_event list" where
  "run_event_chain run s [] = []"
| "run_event_chain run s (t # ts) =
     Run_State_Transition (tr_run_id run) (tr_batch_id run) s t # run_event_chain run t ts"

lemma run_event_chain_status [simp]: "run_event_chain (run\<lparr>tr_status := x\<rparr>) s ts = run_event_chain run s ts"
  by (induction ts arbitrary: s) simp_all

lemma attempt_run_transitions_path:
  "attempt_run_transitions ss run w = (run', w') \<Longrightarrow>
     \<exists>ts. legal_path is_valid_run_transition (tr_status run) ts
        \<and> w_events w' = w_events w @ run_event_chain run (tr_status run) ts
        \<and> run' = run\<lparr>tr_status := last (tr_status run # ts)\<rparr>"
proof (induction ss arbitrary: run w)
  case (Cons s ss)
  show ?case
  proof (cases "is_valid_run_transition (tr_status run) s")
    case True
    let ?w = "w\<lparr>w_events := w_events w @ [Run_State_Transition (tr_run_id run) (tr_batch_id run) (tr_status run) s]\<rparr>"
    from Cons.prems True have "attempt_run_transitions ss (run\<lparr>tr_status := s\<rparr>) ?w = (run', w')"
      by (simp add: transition_run_eq)
    from Cons.IH [OF this] obtain ts where "legal_path is_valid_run_transition s ts"
      and "w_events w' = w_events ?w @ run_event_chain run s ts" and "run' = run\<lparr>tr_status := last (s # ts)\<rparr>"
      by auto
    with True show ?thesis by (intro exI [of _ "s # ts"]) simp
  next
    case False
    with Cons show ?thesis by (simp add: transition_run_eq)
  qed
qed (auto intro: exI [of _ "[]"])

lemma attempt_batch_transitions_path:
  "attempt_batch_transitions ss b w = (b', w') \<Longrightarrow>
     \<exists>ts. legal_path is_valid_batch_transition (br_status b) ts \<and> b' = b\<lparr>br_status := last (br_status b # ts)\<rparr>"
proof (induction ss arbitrary: b w)
  case (Cons s ss)
  show ?case
  proof (cases "is_valid_batch_transition (br_status b) s")
    case True
    with Cons.prems obtain w2 where "attempt_batch_transitions ss (b\<lparr>br_status := s\<rparr>) w2 = (b', w')"
      by (simp add: transition_batch_eq)
    from Cons.IH [OF this] obtain ts where "legal_path is_valid_batch_transition s ts"
      and "b' = b\<lparr>br_status := last (s # ts)\<rparr>" by auto
    with True show ?thesis by (intro exI [of _ "s # ts"]) simp
  next
    case False
    with Cons show ?thesis by (simp add: transition_batch_eq)
  qed
qed (auto intro: exI [of _ "[]"])

text \<open>Concrete records, for the instances at the end of the theories.\<close>

definition sample_run :: "string \<Rightarrow> task_status \<Rightarrow> task_run" where
  "sample_run rid st =
     \<lparr>tr_runtime_reuse = False, tr_secret_args = [], tr_bound_batch_id = [],
      tr_run_id = rid, tr_batch_id = ''b'', tr_parent_conversation_id = 1, tr_parent_turn_id = 1,
      tr_parent_tool_call_id = None, tr_plan_batch_call_id = None, tr_batch_item_index = 0,
      tr_username = ''u'', tr_agent_id = ''a'', tr_agent_instance_id = 1, tr_project_id = 1,
      tr_spec = sample_spec, tr_execution_policy = default_execution_policy, tr_status = st, tr_attempt = 1,
      tr_idempotency_key = ''k'', tr_executor = ''command_backend'', tr_worker_id = None, tr_fencing_token = [],
      tr_sandbox = None, tr_sandbox_released = False, tr_lease_outcome = [], tr_runtime_stage = [],
      tr_queued_at = 0, tr_started_at = None, tr_heartbeat_at = None, tr_ended_at = None,
      tr_latest_progress_message = [], tr_latest_progress_at = 0, tr_last_error_class = None, tr_last_error = []\<rparr>"

definition sample_batch :: "batch_status \<Rightarrow> batch_record" where
  "sample_batch st =
     \<lparr>br_batch_id = ''b'', br_parent_conversation_id = 1, br_parent_turn_id = 1, br_parent_tool_call_id = None,
      br_status = st, br_reason = [], br_join_strategy = PARTIAL_OK, br_max_concurrency = None,
      br_sandbox_type = None, br_sandbox_task_count = 0, br_sandbox_concurrency = None,
      br_available_sandbox_count = None, br_planned_batch_sizes = [], br_total_count = 1, br_counts = [],
      br_created_at = 0, br_updated_at = 0, br_ended_at = None, br_cancellation_reason = [], br_metadata = []\<rparr>"

definition sample_world :: rt_world where
  "sample_world = \<lparr>w_clock = int, w_tick = 0, w_uuids = str_of_nat, w_uuid_next = 0, w_events = []\<rparr>"

text \<open>
  C37. Whatever transitions are attempted on a run, in whatever order, the accepted ones form a
  legal path from its status, the events published are exactly the links of that path in order,
  and only the status of the run changes. A run that has completed or was cancelled keeps its
  status, and a running run returns to the queue only after a retryable terminal status was
  published.
\<close>

theorem run_history_legal:
  assumes "attempt_run_transitions ss run w = (run', w')"
  shows "\<exists>ts. legal_path is_valid_run_transition (tr_status run) ts
          \<and> w_events w' = w_events w @ run_event_chain run (tr_status run) ts
          \<and> run' = run\<lparr>tr_status := last (tr_status run # ts)\<rparr>
          \<and> (tr_status run \<in> {COMPLETED, CANCELLED} \<longrightarrow> tr_status run' = tr_status run)
          \<and> (tr_status run = RUNNING \<and> QUEUED \<in> set ts \<longrightarrow>
               (\<exists>t us vs. ts = us @ t # QUEUED # vs \<and> t \<in> {FAILED, TIMED_OUT, BLOCKED} \<and> QUEUED \<notin> set us))"
proof -
  from attempt_run_transitions_path [OF assms] obtain ts where
    p: "legal_path is_valid_run_transition (tr_status run) ts"
    and e: "w_events w' = w_events w @ run_event_chain run (tr_status run) ts"
    and r: "run' = run\<lparr>tr_status := last (tr_status run # ts)\<rparr>" by blast
  have a: "tr_status run' = tr_status run" if "tr_status run \<in> {COMPLETED, CANCELLED}"
  proof -
    have "set ts \<subseteq> {tr_status run}"
      using run_sm.absorbing_path [OF _ p] that by (simp add: absorbing_run_status_def)
    then have "last (tr_status run # ts) = tr_status run"
      by (cases ts rule: rev_cases) auto
    with r show ?thesis by simp
  qed
  have b: "\<exists>t us vs. ts = us @ t # QUEUED # vs \<and> t \<in> {FAILED, TIMED_OUT, BLOCKED} \<and> QUEUED \<notin> set us"
    if run: "tr_status run = RUNNING" and q: "QUEUED \<in> set ts"
  proof -
    from p run have "legal_path is_valid_run_transition RUNNING ts" by simp
    from run_sm.rewind_through_terminal [OF this q] obtain t us vs where
      "ts = us @ t # QUEUED # vs" "is_terminal_run_status t" "\<not> absorbing_run_status t" "QUEUED \<notin> set us" by auto
    moreover from this have "t \<in> {FAILED, TIMED_OUT, BLOCKED}" by (cases t) (simp_all add: run_tables)
    ultimately show ?thesis by blast
  qed
  from p e r a b show ?thesis by blast
qed

theorem run_history_legal_witness:
  "\<exists>run' w'. attempt_run_transitions [QUEUED, FAILED, COMPLETED, QUEUED] (sample_run ''r'' RUNNING) sample_world = (run', w')
     \<and> tr_status run' = QUEUED
     \<and> (\<exists>ts. legal_path is_valid_run_transition RUNNING ts \<and> length (w_events w') = 2)"
proof -
  obtain run' w' where a:
    "attempt_run_transitions [QUEUED, FAILED, COMPLETED, QUEUED] (sample_run ''r'' RUNNING) sample_world = (run', w')"
    by (metis surj_pair)
  then have "tr_status run' = QUEUED \<and> length (w_events w') = 2"
    by (auto simp: transition_run_eq run_tables sample_run_def sample_world_def)
  with a run_history_legal [OF a] show ?thesis by (auto simp: sample_run_def)
qed

text \<open>
  A batch that has settled keeps its status whatever transitions are attempted, and a batch
  that has left the queue never returns to it.
\<close>

theorem batch_settles_once:
  assumes "attempt_batch_transitions ss b w = (b', w')"
  shows "(is_terminal_batch_status (br_status b) \<longrightarrow> b' = b)
       \<and> (br_status b \<noteq> B_QUEUED \<longrightarrow> br_status b' \<noteq> B_QUEUED)"
proof -
  from attempt_batch_transitions_path [OF assms] obtain ts where
    p: "legal_path is_valid_batch_transition (br_status b) ts"
    and b': "b' = b\<lparr>br_status := last (br_status b # ts)\<rparr>" by blast
  have "last (br_status b # ts) = br_status b" if "is_terminal_batch_status (br_status b)"
    using batch_sm.terminal_path [OF that p] by (cases ts rule: rev_cases) auto
  moreover have "last (br_status b # ts) \<noteq> B_QUEUED" if "br_status b \<noteq> B_QUEUED"
    using batch_sm.never_requeued [OF _ that p] that by (cases ts rule: rev_cases) auto
  ultimately show ?thesis using b' by simp
qed

theorem batch_settles_once_witness:
  "\<exists>b' w'. attempt_batch_transitions [B_RUNNING, B_FAILED] (sample_batch B_PARTIAL) sample_world = (b', w')
     \<and> b' = sample_batch B_PARTIAL"
proof -
  obtain b' w' where a:
    "attempt_batch_transitions [B_RUNNING, B_FAILED] (sample_batch B_PARTIAL) sample_world = (b', w')"
    by (metis surj_pair)
  with batch_settles_once [OF a] show ?thesis by (auto simp: sample_batch_def batch_tables)
qed

end
