(* ===== verification/Results.thy ===== *)
theory Results
  imports State_Machine
begin

section \<open>Terminal results and batch aggregation\<close>

text \<open>
  The constructors and the aggregation of \<^verbatim>\<open>domain/results.py\<close>. The constructors read the clock,
  so they are state transformers over the runtime world. The persistence half of that file is in
  \<open>Result_Persistence\<close>.
\<close>

text \<open>The fields a constructor leaves at their defaults.\<close>

definition bare_result ::
    "task_run \<Rightarrow> task_status \<Rightarrow> string \<Rightarrow> error_class option \<Rightarrow> string \<Rightarrow> int \<Rightarrow> int \<Rightarrow> int \<Rightarrow> task_result" where
  "bare_result run status summary ec message started ended duration =
     \<lparr>res_run_id = tr_run_id run, res_task_id = ts_task_id (tr_spec run), res_status = status,
      res_title = ts_title (tr_spec run), res_summary = summary, res_output = [], res_output_ref = None,
      res_primary_artifact = None, res_error_class = ec, res_error_message = message, res_trajectory = None,
      res_artifacts = [], res_logs = [], res_sandbox = None, res_started_at = Some started,
      res_ended_at = Some ended, res_duration_ms = Some duration, res_metrics = []\<rparr>"

definition blocked_result :: "task_run \<Rightarrow> string \<Rightarrow> error_class \<Rightarrow> ('z rt_world_scheme, task_result) io" where
  "blocked_result run message ec =
     bindE now_ms (\<lambda>now. retE (bare_result run BLOCKED message (Some ec) message now now 0))"

text \<open>\<^verbatim>\<open>run.started_at or run.queued_at or now_ms\<close>.\<close>

definition started_or :: "task_run \<Rightarrow> int \<Rightarrow> int" where
  "started_or run now = int_or (tr_started_at run) (int_or (Some (tr_queued_at run)) now)"

definition failed_result :: "task_run \<Rightarrow> string \<Rightarrow> error_class \<Rightarrow> ('z rt_world_scheme, task_result) io" where
  "failed_result run message ec =
     bindE now_ms (\<lambda>now. let started = started_or run now in
       retE (bare_result run FAILED message (Some ec) message started now (max 0 (now - started))))"

definition timed_out_result :: "task_run \<Rightarrow> string \<Rightarrow> ('z rt_world_scheme, task_result) io" where
  "timed_out_result run message =
     bindE now_ms (\<lambda>now. let started = started_or run now in
       retE (bare_result run TIMED_OUT message (Some TIMEOUT) message started now (max 0 (now - started))))"

definition cancelled_result :: "task_run \<Rightarrow> string \<Rightarrow> ('z rt_world_scheme, task_result) io" where
  "cancelled_result run message =
     bindE now_ms (\<lambda>now. retE (bare_result run CANCELLED message (Some ERR_CANCELLED) message now now 0))"

definition build_policy_denied_result :: "task_run \<Rightarrow> string \<Rightarrow> ('z rt_world_scheme, task_result) io" where
  "build_policy_denied_result run message =
     bindE now_ms (\<lambda>now. retE (bare_result run FAILED message (Some POLICY_DENY) message now now 0))"

definition build_user_input_result :: "task_run \<Rightarrow> string \<Rightarrow> ('z rt_world_scheme, task_result) io" where
  "build_user_input_result run message =
     bindE now_ms (\<lambda>now. retE (bare_result run FAILED message (Some USER_INPUT) message now now 0))"

subsection \<open>Aggregation\<close>

definition count_status :: "task_status \<Rightarrow> task_result list \<Rightarrow> int" where
  "count_status status results = int (length (filter (\<lambda>r. res_status r = status) results))"

definition count_results :: "task_result list \<Rightarrow> (task_status, int) dict" where
  "count_results results = map (\<lambda>status. (status, count_status status results)) TERMINAL_STATUSES"

definition batch_status :: "task_result list \<Rightarrow> join_strategy \<Rightarrow> batch_status" where
  "batch_status results join_strategy =
     (let statuses = map res_status results in
      if join_strategy = FIRST_SUCCESS \<and> list_ex (\<lambda>r. res_status r = COMPLETED) results then B_COMPLETED
      else if list_all (\<lambda>s. s = COMPLETED) statuses then B_COMPLETED
      else if list_ex (\<lambda>s. s = COMPLETED) statuses then B_PARTIAL
      else if list_ex (\<lambda>s. s = BLOCKED) statuses then B_BLOCKED
      else if list_ex (\<lambda>s. s = TIMED_OUT) statuses then B_TIMED_OUT
      else if list_all (\<lambda>s. s = CANCELLED) statuses then B_CANCELLED
      else B_FAILED)"

definition aggregate :: "batch_record \<Rightarrow> task_result list \<Rightarrow> string \<Rightarrow> batch_result" where
  "aggregate batch results artifacts_root =
     (let counts = count_results results; count = (\<lambda>s. the (dict_get counts s))
      in \<lparr>bres_batch_id = br_batch_id batch, bres_status = batch_status results (br_join_strategy batch),
          bres_total_count = int (length results), bres_completed_count = count COMPLETED,
          bres_failed_count = count FAILED, bres_cancelled_count = count CANCELLED,
          bres_timed_out_count = count TIMED_OUT, bres_blocked_count = count BLOCKED,
          bres_results = results, bres_artifacts_root = artifacts_root\<rparr>)"

subsection \<open>Settled results\<close>

definition default_terminal_result_summary :: "task_status \<Rightarrow> string" where
  "default_terminal_result_summary status =
     (if status = COMPLETED then ''Task completed.''
      else if status = CANCELLED then ''Task cancelled by user.''
      else ''Task ended with status '' @ task_status_value status @ ''.'')"

text \<open>
  \<open>fb sel d\<close> reads a field of the fallback when its status is that of the run, as the source
  does in each of its conditional expressions.
\<close>

definition terminal_result_from_run :: "task_run \<Rightarrow> task_result option \<Rightarrow> ('z rt_world_scheme, task_result) io" where
  "terminal_result_from_run run fallback =
     bindE now_ms (\<lambda>now.
       let matching = (case fallback of None \<Rightarrow> None | Some f \<Rightarrow> if res_status f = tr_status run then Some f else None);
           fb_started = (case fallback of None \<Rightarrow> None | Some f \<Rightarrow> res_started_at f);
           fb_ended = (case fallback of None \<Rightarrow> None | Some f \<Rightarrow> res_ended_at f);
           started = int_or (opt_int_or (tr_started_at run) fb_started) (int_or (Some (tr_queued_at run)) now);
           ended = int_or (opt_int_or (tr_ended_at run) fb_ended) now;
           summary0 = (case matching of None \<Rightarrow> [] | Some f \<Rightarrow> res_summary f);
           summary = str_or summary0 (str_or (tr_last_error run) (default_terminal_result_summary (tr_status run)));
           ec0 = opt_or (tr_last_error_class run) (case matching of None \<Rightarrow> None | Some f \<Rightarrow> res_error_class f);
           ec1 = (if tr_status run = CANCELLED then Some ERR_CANCELLED else ec0);
           ec = (if tr_status run \<noteq> COMPLETED then opt_or ec1 (Some INTERNAL) else None);
           message = (if tr_status run \<noteq> COMPLETED
                      then str_or (tr_last_error run)
                             (str_or (case matching of None \<Rightarrow> [] | Some f \<Rightarrow> res_error_message f) summary)
                      else [])
       in retE ((bare_result run (tr_status run) summary ec message started ended (max 0 (ended - started)))
            \<lparr>res_output := (case matching of None \<Rightarrow> [] | Some f \<Rightarrow> res_output f),
             res_primary_artifact := (case matching of None \<Rightarrow> None | Some f \<Rightarrow> res_primary_artifact f),
             res_trajectory := (case matching of None \<Rightarrow> None | Some f \<Rightarrow> res_trajectory f),
             res_artifacts := (case matching of None \<Rightarrow> [] | Some f \<Rightarrow> res_artifacts f),
             res_logs := (case matching of None \<Rightarrow> [] | Some f \<Rightarrow> res_logs f),
             res_sandbox := opt_or (tr_sandbox run) (case matching of None \<Rightarrow> None | Some f \<Rightarrow> res_sandbox f)\<rparr>))"

definition ensure_terminal_result :: "task_run \<Rightarrow> task_result \<Rightarrow> ('z rt_world_scheme, task_result) io" where
  "ensure_terminal_result run result =
     (if res_status result \<in> set TERMINAL_STATUSES then retE result
      else bindE now_ms (\<lambda>now.
        let started = int_or (res_started_at result) (started_or run now) in
        retE (result\<lparr>res_status := BLOCKED,
                res_summary := str_or (res_summary result) ''Task runtime did not receive a terminal result for this run.'',
                res_error_class := opt_or (res_error_class result) (Some INTERNAL),
                res_error_message := str_or (res_error_message result)
                   ''Task runtime result was non-terminal at batch finalization.'',
                res_started_at := Some started,
                res_ended_at := Some (int_or (res_ended_at result) now),
                res_duration_ms := Some (case res_duration_ms result of Some d \<Rightarrow> d | None \<Rightarrow> max 0 (now - started))\<rparr>)))"

definition stranded_result :: "task_run \<Rightarrow> ('z rt_world_scheme, task_result) io" where
  "stranded_result run =
     bindE now_ms (\<lambda>now. let started = started_or run now in
       retE (bare_result run BLOCKED ''Task runtime stopped tracking this run before it reached a terminal result.''
          (Some INTERNAL) ''Task runtime scheduler returned while the run was still queued or running.''
          started now (max 0 (now - started))))"

subsection \<open>Properties\<close>

lemma terminal_statuses_iff: "s \<in> set TERMINAL_STATUSES \<longleftrightarrow> is_terminal_run_status s"
  by (simp add: TERMINAL_STATUSES_def is_terminal_run_status_def TERMINAL_RUN_STATUSES_def)

lemma count_results_get [simp]:
  "dict_get (count_results rs) s = (if is_terminal_run_status s then Some (count_status s rs) else None)"
  by (cases s) (simp_all add: count_results_def TERMINAL_STATUSES_def is_terminal_run_status_def TERMINAL_RUN_STATUSES_def)

lemma count_status_simps [simp]:
  "count_status s [] = 0"
  "count_status s (r # rs) = (if res_status r = s then 1 else 0) + count_status s rs"
  by (simp_all add: count_status_def)

lemma count_status_partition:
  "list_all (\<lambda>r. is_terminal_run_status (res_status r)) rs \<Longrightarrow>
     count_status COMPLETED rs + count_status FAILED rs + count_status CANCELLED rs
       + count_status TIMED_OUT rs + count_status BLOCKED rs = int (length rs)"
proof (induction rs)
  case (Cons r rs)
  then show ?case by (cases "res_status r") (auto simp: is_terminal_run_status_def TERMINAL_RUN_STATUSES_def)
qed simp

lemma aggregate_fields [simp]:
  "bres_total_count (aggregate b rs adir) = int (length rs)"
  "bres_completed_count (aggregate b rs adir) = count_status COMPLETED rs"
  "bres_failed_count (aggregate b rs adir) = count_status FAILED rs"
  "bres_cancelled_count (aggregate b rs adir) = count_status CANCELLED rs"
  "bres_timed_out_count (aggregate b rs adir) = count_status TIMED_OUT rs"
  "bres_blocked_count (aggregate b rs adir) = count_status BLOCKED rs"
  "bres_status (aggregate b rs adir) = batch_status rs (br_join_strategy b)"
  "bres_results (aggregate b rs adir) = rs"
  by (simp_all add: aggregate_def Let_def is_terminal_run_status_def TERMINAL_RUN_STATUSES_def)

text \<open>
  The counts of an aggregated batch partition its results: when every result is terminal
  they add up to the total, so no result is dropped or counted twice.
\<close>

theorem aggregate_counts_partition:
  assumes "list_all (\<lambda>r. is_terminal_run_status (res_status r)) rs"
  shows "bres_completed_count (aggregate b rs adir) + bres_failed_count (aggregate b rs adir)
           + bres_cancelled_count (aggregate b rs adir) + bres_timed_out_count (aggregate b rs adir)
           + bres_blocked_count (aggregate b rs adir) = bres_total_count (aggregate b rs adir)"
  using count_status_partition [OF assms] by simp

theorem aggregate_counts_partition_witness:
  "bres_completed_count (aggregate (sample_batch B_RUNNING) [sample_result ''r'' COMPLETED, sample_result ''q'' FAILED] [])
     + bres_failed_count (aggregate (sample_batch B_RUNNING) [sample_result ''r'' COMPLETED, sample_result ''q'' FAILED] [])
     + bres_cancelled_count (aggregate (sample_batch B_RUNNING) [sample_result ''r'' COMPLETED, sample_result ''q'' FAILED] [])
     + bres_timed_out_count (aggregate (sample_batch B_RUNNING) [sample_result ''r'' COMPLETED, sample_result ''q'' FAILED] [])
     + bres_blocked_count (aggregate (sample_batch B_RUNNING) [sample_result ''r'' COMPLETED, sample_result ''q'' FAILED] []) = 2"
  using aggregate_counts_partition [of "[sample_result ''r'' COMPLETED, sample_result ''q'' FAILED]" "sample_batch B_RUNNING" "[]"]
  by (simp add: sample_result_def is_terminal_run_status_def TERMINAL_RUN_STATUSES_def)

lemma batch_status_cases:
  assumes "v = (if F \<and> C then B_COMPLETED else if \<not> N then B_COMPLETED else if C then B_PARTIAL
       else if B then B_BLOCKED else if T then B_TIMED_OUT else if X then B_CANCELLED else B_FAILED)"
    and "E \<and> X \<Longrightarrow> N \<and> \<not> C \<and> \<not> B \<and> \<not> T" and "B \<Longrightarrow> N" and "T \<Longrightarrow> N" and "N \<Longrightarrow> E"
  shows "is_terminal_batch_status v \<and> (v = B_COMPLETED \<longleftrightarrow> \<not> N \<or> F \<and> C) \<and> (v = B_PARTIAL \<longleftrightarrow> \<not> F \<and> C \<and> N)
    \<and> (v = B_BLOCKED \<longleftrightarrow> \<not> C \<and> B) \<and> (v = B_TIMED_OUT \<longleftrightarrow> (\<not> C \<and> \<not> B) \<and> T) \<and> (v = B_CANCELLED \<longleftrightarrow> E \<and> X)"
  using assms by (cases F; cases C; cases N; cases B; cases T; cases X; cases E) (simp_all add: batch_tables)

text \<open>
  The status of a batch, read off its results: it is terminal, it is complete exactly when
  every run completed (or one did, when the first success ends the batch), partial exactly when
  some but not all runs completed and another strategy is used, blocked or timed out when no run
  completed and one was blocked or timed out, cancelled when every run was, and failed otherwise.
  In particular the strategies \<^verbatim>\<open>all_success\<close> and \<^verbatim>\<open>fail_fast\<close> report a mixed batch as partial, not
  as failed.
\<close>

theorem batch_status_exact:
  "is_terminal_batch_status (batch_status rs j)
   \<and> (batch_status rs j = B_COMPLETED \<longleftrightarrow>
        (\<forall>r \<in> set rs. res_status r = COMPLETED) \<or> (j = FIRST_SUCCESS \<and> (\<exists>r \<in> set rs. res_status r = COMPLETED)))
   \<and> (batch_status rs j = B_PARTIAL \<longleftrightarrow>
        j \<noteq> FIRST_SUCCESS \<and> (\<exists>r \<in> set rs. res_status r = COMPLETED) \<and> (\<exists>r \<in> set rs. res_status r \<noteq> COMPLETED))
   \<and> (batch_status rs j = B_BLOCKED \<longleftrightarrow>
        (\<forall>r \<in> set rs. res_status r \<noteq> COMPLETED) \<and> (\<exists>r \<in> set rs. res_status r = BLOCKED))
   \<and> (batch_status rs j = B_TIMED_OUT \<longleftrightarrow>
        (\<forall>r \<in> set rs. res_status r \<noteq> COMPLETED \<and> res_status r \<noteq> BLOCKED) \<and> (\<exists>r \<in> set rs. res_status r = TIMED_OUT))
   \<and> (batch_status rs j = B_CANCELLED \<longleftrightarrow> rs \<noteq> [] \<and> (\<forall>r \<in> set rs. res_status r = CANCELLED))"
proof -
  define C where "C \<longleftrightarrow> (\<exists>r \<in> set rs. res_status r = COMPLETED)"
  define N where "N \<longleftrightarrow> (\<exists>r \<in> set rs. res_status r \<noteq> COMPLETED)"
  define B where "B \<longleftrightarrow> (\<exists>r \<in> set rs. res_status r = BLOCKED)"
  define T where "T \<longleftrightarrow> (\<exists>r \<in> set rs. res_status r = TIMED_OUT)"
  define X where "X \<longleftrightarrow> (\<forall>r \<in> set rs. res_status r = CANCELLED)"
  have conds: "list_ex (\<lambda>r. res_status r = COMPLETED) rs = C"
    "list_all (\<lambda>s. s = COMPLETED) (map res_status rs) = (\<not> N)"
    "list_ex (\<lambda>s. s = COMPLETED) (map res_status rs) = C"
    "list_ex (\<lambda>s. s = BLOCKED) (map res_status rs) = B"
    "list_ex (\<lambda>s. s = TIMED_OUT) (map res_status rs) = T"
    "list_all (\<lambda>s. s = CANCELLED) (map res_status rs) = X"
    by (force simp: C_def N_def B_def T_def X_def list_all_iff list_ex_iff image_iff)+
  have def: "batch_status rs j =
      (if j = FIRST_SUCCESS \<and> C then B_COMPLETED else if \<not> N then B_COMPLETED else if C then B_PARTIAL
       else if B then B_BLOCKED else if T then B_TIMED_OUT else if X then B_CANCELLED else B_FAILED)"
    by (simp only: batch_status_def Let_def conds)
  have "rs \<noteq> [] \<and> X \<Longrightarrow> N \<and> \<not> C \<and> \<not> B \<and> \<not> T"
    by (cases rs) (auto simp: C_def N_def B_def T_def X_def)
  moreover have "(B \<longrightarrow> N) \<and> (T \<longrightarrow> N) \<and> (N \<longrightarrow> rs \<noteq> [])"
    by (force simp: N_def B_def T_def)
  ultimately have rel: "rs \<noteq> [] \<and> X \<Longrightarrow> N \<and> \<not> C \<and> \<not> B \<and> \<not> T" "B \<Longrightarrow> N" "T \<Longrightarrow> N" "N \<Longrightarrow> rs \<noteq> []"
    by blast+
  have quant: "(\<forall>r \<in> set rs. res_status r = COMPLETED) \<longleftrightarrow> \<not> N"
    "(\<forall>r \<in> set rs. res_status r \<noteq> COMPLETED) \<longleftrightarrow> \<not> C"
    "(\<forall>r \<in> set rs. res_status r \<noteq> COMPLETED \<and> res_status r \<noteq> BLOCKED) \<longleftrightarrow> \<not> C \<and> \<not> B"
    by (auto simp: C_def N_def B_def)
  show ?thesis
    unfolding def quant C_def [symmetric] N_def [symmetric] B_def [symmetric] T_def [symmetric] X_def [symmetric]
    by (rule batch_status_cases [where F = "j = FIRST_SUCCESS", OF refl]) (use rel in blast)+
qed

theorem batch_status_exact_witness:
  "batch_status [sample_result ''r'' COMPLETED, sample_result ''q'' FAILED] ALL_SUCCESS = B_PARTIAL
   \<and> batch_status [sample_result ''r'' COMPLETED, sample_result ''q'' FAILED] FAIL_FAST = B_PARTIAL"
  using batch_status_exact [of "[sample_result ''r'' COMPLETED, sample_result ''q'' FAILED]" ALL_SUCCESS]
    batch_status_exact [of "[sample_result ''r'' COMPLETED, sample_result ''q'' FAILED]" FAIL_FAST]
  by (simp add: sample_result_def)

lemma terminal_result_from_run_total:
  "\<exists>r. terminal_result_from_run run f w = (Inr r, w\<lparr>w_tick := w_tick w + 1\<rparr>) \<and> res_run_id r = tr_run_id run
     \<and> res_status r = tr_status run"
  by (simp add: terminal_result_from_run_def Let_def bare_result_def)

text \<open>
  A result made terminal at finalisation is terminal and keeps a terminal one unchanged, and
  it always carries an explanation, an error class and both time stamps when it had to be repaired.
\<close>

theorem ensure_terminal_result_repairs:
  "\<exists>r w'. ensure_terminal_result run result w = (Inr r, w') \<and> is_terminal_run_status (res_status r)
     \<and> (is_terminal_run_status (res_status result) \<and> r = result \<and> w' = w
        \<or> res_status r = BLOCKED \<and> res_summary r \<noteq> [] \<and> res_error_class r \<noteq> None \<and> res_error_message r \<noteq> []
          \<and> res_started_at r \<noteq> None \<and> res_ended_at r \<noteq> None \<and> res_duration_ms r \<noteq> None)"
proof (cases "is_terminal_run_status (res_status result)")
  case True
  then show ?thesis by (simp add: ensure_terminal_result_def terminal_statuses_iff)
next
  case False
  have "opt_or x (Some y) \<noteq> None" for x :: "error_class option" and y
    by (cases x) simp_all
  with False show ?thesis
    by (simp add: ensure_terminal_result_def terminal_statuses_iff Let_def is_terminal_run_status_def
        TERMINAL_RUN_STATUSES_def)
qed

end
