(* ===== verification/Run_Store.thy ===== *)
theory Run_Store
  imports Results
begin

section \<open>The run store: protocol, reopen guard and output sidecars\<close>

text \<open>
  \<^verbatim>\<open>storage/run_store.py\<close>. The \<^verbatim>\<open>RunStore\<close> protocol is a record of state transformers, so that the
  code written against the protocol takes the store as an argument. The output of a result is
  kept beside the result in a file whose name is the digest of its content; the functions below
  compute that location, write it, and read it back with the checks of the source. Paths are
  lists of parts, as \<^verbatim>\<open>PurePosixPath.parts\<close> gives them; the directory tree has no symbolic links,
  so \<^verbatim>\<open>resolve\<close> only removes \<^verbatim>\<open>..\<close> parts. SHA-256 is the parameter \<open>sha\<close>.
\<close>

definition RETRYABLE_TERMINAL_STATUSES :: "task_status list" where
  "RETRYABLE_TERMINAL_STATUSES = [FAILED, TIMED_OUT, BLOCKED]"

datatype task_detail_view = VIEW_SUMMARY | VIEW_ARTIFACTS

record task_detail =
  det_run :: task_run
  det_result :: "task_result option"
  det_view :: task_detail_view
  det_content :: string
  det_artifacts :: "artifact_ref list"

record batch_create_result =
  bc_batch :: batch_record
  bc_created :: bool

record batch_update_result =
  bu_batch :: batch_record
  bu_applied :: bool

definition validate_reopen_payload :: "task_run \<Rightarrow> task_run \<Rightarrow> int \<Rightarrow> unit result" where
  "validate_reopen_payload existing incoming expected_attempt =
     (if tr_status existing \<notin> set RETRYABLE_TERMINAL_STATUSES \<or> tr_attempt existing \<noteq> expected_attempt
      then Inl (Exn StaleWorkerError (''run '' @ tr_run_id existing @ '' cannot be reopened for retry ''))
      else if tr_status incoming \<noteq> QUEUED \<or> tr_attempt incoming \<noteq> expected_attempt + 1
      then Inl (Exn StaleWorkerError (''reopen payload for run '' @ tr_run_id existing @ '' must be queued at attempt ''))
      else if tr_worker_id incoming \<notin> {None, Some []} \<or> tr_fencing_token incoming \<noteq> []
              \<or> tr_started_at incoming \<noteq> None \<or> tr_ended_at incoming \<noteq> None
      then Inl (Exn StaleWorkerError (''reopen payload for run '' @ tr_run_id existing @ '' must clear worker/fencing/timestamps''))
      else if tr_run_id incoming \<noteq> tr_run_id existing
              \<or> tr_batch_id incoming \<noteq> tr_batch_id existing
              \<or> tr_idempotency_key incoming \<noteq> tr_idempotency_key existing
              \<or> tr_batch_item_index incoming \<noteq> tr_batch_item_index existing
              \<or> ts_task_id (tr_spec incoming) \<noteq> ts_task_id (tr_spec existing)
              \<or> tr_parent_conversation_id incoming \<noteq> tr_parent_conversation_id existing
              \<or> tr_parent_turn_id incoming \<noteq> tr_parent_turn_id existing
      then Inl (Exn StaleWorkerError (''reopen payload for run '' @ tr_run_id existing @ '' must not change identity fields''))
      else Inr ())"

record 's run_store =
  rs_create_batch :: "batch_record \<Rightarrow> ('s, batch_create_result) io"
  rs_create_run :: "task_run \<Rightarrow> ('s, unit) io"
  rs_update_batch :: "batch_record \<Rightarrow> ('s, batch_update_result) io"
  rs_get_batch :: "string \<Rightarrow> ('s, batch_record) io"
  rs_update_run :: "task_run \<Rightarrow> ('s, unit) io"
  rs_reopen_run_for_retry :: "task_run \<Rightarrow> int \<Rightarrow> ('s, unit) io"
  rs_lookup_idempotent :: "string \<Rightarrow> ('s, task_run option) io"
  rs_claim_run :: "string \<Rightarrow> string \<Rightarrow> ('s, fencing_token) io"
  rs_heartbeat_batch :: "string \<Rightarrow> ('s, unit) io"
  rs_set_progress :: "string \<Rightarrow> string \<Rightarrow> int option \<Rightarrow> ('s, unit) io"
  rs_write_result :: "string \<Rightarrow> task_result \<Rightarrow> fencing_token \<Rightarrow> ('s, unit) io"
  rs_fail_stale_run :: "(string \<Rightarrow> task_result \<Rightarrow> string \<Rightarrow> ('s, unit) io) option"
  rs_cancel_batch :: "string \<Rightarrow> string \<Rightarrow> ('s, unit) io"
  rs_cancel_run :: "string \<Rightarrow> string \<Rightarrow> ('s, unit) io"
  rs_get_run :: "string \<Rightarrow> ('s, task_run) io"
  rs_get_task_detail :: "string \<Rightarrow> task_detail_view \<Rightarrow> ('s, task_detail) io"
  rs_list_batch_runs :: "string \<Rightarrow> ('s, task_run list) io"
  rs_list_batches_by_turn :: "int \<Rightarrow> int \<Rightarrow> bool \<Rightarrow> ('s, batch_record list) io"
  rs_sweep_stale :: "int \<Rightarrow> ('s, stale_run list) io"

subsection \<open>The interface its clients rely on\<close>

text \<open>
  A predicate on the state that every operation of a store and of the runtime world keeps,
  whether or not the operation raises. Code written against the protocol keeps it too: the
  lemmas of the clients are proved once in this locale.
\<close>

locale run_store_invariant =
  fixes st :: "'z rt_world_scheme run_store" and P :: "'z rt_world_scheme \<Rightarrow> bool"
  assumes world_inv: "preserves P now_ms" "preserves P uuid4_hex" "preserves P (publish e)"
    and read_inv: "preserves P (rs_get_batch st b)" "preserves P (rs_lookup_idempotent st key)"
      "preserves P (rs_get_run st rid)" "preserves P (rs_get_task_detail st rid view)"
      "preserves P (rs_list_batch_runs st b)" "preserves P (rs_list_batches_by_turn st c t act)"
      "preserves P (rs_sweep_stale st ts)"
    and batch_inv: "preserves P (rs_create_batch st batch)" "preserves P (rs_update_batch st batch)"
      "preserves P (rs_cancel_batch st b reason)" "preserves P (rs_heartbeat_batch st b)"
    and run_inv: "preserves P (rs_create_run st run)" "preserves P (rs_update_run st run)"
      "preserves P (rs_reopen_run_for_retry st run n)" "preserves P (rs_claim_run st rid worker)"
      "preserves P (rs_set_progress st rid msg opt_ts)" "preserves P (rs_write_result st rid res tok)"
      "preserves P (rs_cancel_run st rid reason)"
    and fail_inv: "rs_fail_stale_run st = Some fail \<Longrightarrow> preserves P (fail rid res worker)"
begin

lemmas store_inv = world_inv read_inv batch_inv run_inv

lemma transition_inv: "preserves P (transition_run s p run)" "preserves P (transition_batch bs batch)"
  unfolding transition_run_def transition_batch_def Let_def by (intro preserves_intros world_inv)+

end

subsection \<open>Bytes and paths\<close>

text \<open>UTF-8 on code points below 256; a byte is a character too.\<close>

fun utf8_encode :: "string \<Rightarrow> string" where
  "utf8_encode [] = []"
| "utf8_encode (c # cs) =
     (let n = (of_char c :: nat)
      in if n < 128 then c # utf8_encode cs
         else char_of (192 + n div 64) # char_of (128 + n mod 64) # utf8_encode cs)"

fun utf8_decode :: "string \<Rightarrow> string option" where
  "utf8_decode [] = Some []"
| "utf8_decode (b # bs) =
     (let n = (of_char b :: nat)
      in if n < 128 then map_option (Cons b) (utf8_decode bs)
         else case bs of
                [] \<Rightarrow> None
              | b' # bs' \<Rightarrow>
                  let m = (of_char b' :: nat)
                  in if n \<in> {194, 195} \<and> 128 \<le> m \<and> m < 192
                     then map_option (Cons (char_of ((n - 192) * 64 + (m - 128)))) (utf8_decode bs')
                     else None)"

type_synonym path = "string list"

definition posix_parts :: "string \<Rightarrow> path" where
  "posix_parts s =
     (if s \<noteq> [] \<and> hd s = CHR ''/'' then [''/''] else [])
       @ filter (\<lambda>p. p \<noteq> [] \<and> p \<noteq> ''.'') (split_on (CHR ''/'') s)"

definition path_join :: "path \<Rightarrow> string \<Rightarrow> path" where
  "path_join base s = (if s \<noteq> [] \<and> hd s = CHR ''/'' then posix_parts s else base @ posix_parts s)"

fun resolve_from :: "path \<Rightarrow> path \<Rightarrow> path" where
  "resolve_from acc [] = rev acc"
| "resolve_from acc (p # ps) =
     (if p = ''..'' then resolve_from (if length acc \<le> 1 then acc else tl acc) ps
      else resolve_from (p # acc) ps)"

definition path_resolve :: "path \<Rightarrow> path" where
  "path_resolve ps = resolve_from [] ps"

definition is_relative_to :: "path \<Rightarrow> path \<Rightarrow> bool" where
  "is_relative_to p base \<longleftrightarrow> take (length base) p = base"

definition path_name :: "path \<Rightarrow> string" where
  "path_name p = (if p = [] then [] else last p)"

definition as_posix :: "path \<Rightarrow> string" where
  "as_posix p = join_with (CHR ''/'') p"

subsection \<open>Output sidecars\<close>

definition attempt_dir_name :: "int \<Rightarrow> string" where
  "attempt_dir_name attempt = ''attempt-'' @ str_of_int attempt"

definition output_file_name :: "string \<Rightarrow> string" where
  "output_file_name digest = ''output-'' @ digest @ ''.txt''"

text \<open>\<^verbatim>\<open>_ATTEMPT_DIR_PATTERN\<close> and \<^verbatim>\<open>_OUTPUT_FILE_PATTERN\<close>; the latter returns its group.\<close>

definition ascii_digit :: "char \<Rightarrow> bool" where
  "ascii_digit c \<longleftrightarrow> (let n = (of_char c :: nat) in 48 \<le> n \<and> n \<le> 57)"

definition match_attempt_dir :: "string \<Rightarrow> bool" where
  "match_attempt_dir s \<longleftrightarrow>
     take 8 s = ''attempt-'' \<and>
     (let d = drop 8 s in d = ''0'' \<or> (d \<noteq> [] \<and> hd d \<noteq> CHR ''0'' \<and> list_all ascii_digit d))"

definition match_output_file :: "string \<Rightarrow> string option" where
  "match_output_file s =
     (let digest = take 64 (drop 7 s)
      in if take 7 s = ''output-'' \<and> length digest = 64 \<and> list_all lower_hex digest \<and> drop 71 s = ''.txt''
         then Some digest else None)"

definition attempt_output_dir :: "path \<Rightarrow> task_run \<Rightarrow> int \<Rightarrow> path result" where
  "attempt_output_dir results_root run attempt =
     (let resolved_root = path_resolve results_root;
          output_dir = path_resolve
            (path_join (path_join (path_join resolved_root (tr_batch_id run)) (tr_run_id run)) (attempt_dir_name attempt))
      in if \<not> is_relative_to output_dir resolved_root
         then Inl (Exn ValueError (''invalid task output path for run '' @ tr_run_id run))
         else Inr output_dir)"

definition output_location :: "(string \<Rightarrow> string) \<Rightarrow> path \<Rightarrow> task_run \<Rightarrow> string \<Rightarrow> (path \<times> string) result" where
  "output_location sha results_root run payload =
     (let content_digest = sha payload in
      rbind (attempt_output_dir results_root run (tr_attempt run)) (\<lambda>output_dir.
        let filename = output_file_name content_digest;
            relative_path = path_join (path_join (path_join (posix_parts (tr_batch_id run)) (tr_run_id run))
                              (attempt_dir_name (tr_attempt run))) filename;
            reference = (if relative_path \<noteq> [] \<and> hd relative_path = ''/'' then relative_path
                         else ''results'' # relative_path)
        in Inr (path_join output_dir filename, as_posix reference)))"

definition output_path_from_ref :: "path \<Rightarrow> task_run \<Rightarrow> task_output_ref \<Rightarrow> (path \<times> string) result" where
  "output_path_from_ref results_root run output_ref =
     (let reference_path = posix_parts (or_path output_ref);
          expected_run_parent = path_join (path_join [''results''] (tr_batch_id run)) (tr_run_id run);
          invalid = Inl (Exn ValueError (''invalid output_ref path for run '' @ tr_run_id run @ '': '' @ or_path output_ref))
      in if butlast (butlast reference_path) \<noteq> expected_run_parent
            \<or> \<not> match_attempt_dir (path_name (butlast reference_path))
         then invalid
         else case match_output_file (path_name reference_path) of
                None \<Rightarrow> invalid
              | Some digest \<Rightarrow>
                  let resolved_root = path_resolve results_root;
                      output_path = path_resolve (resolved_root @ tl reference_path)
                  in if \<not> is_relative_to output_path resolved_root then invalid
                     else Inr (output_path, digest))"

text \<open>The files below the results root, by resolved path, with their bytes.\<close>

type_synonym files = "(path, string) dict"

definition persisted_result_payload ::
    "(string \<Rightarrow> string) \<Rightarrow> path \<Rightarrow> task_run \<Rightarrow> task_result \<Rightarrow> files \<Rightarrow> (task_result \<times> files) result" where
  "persisted_result_payload sha results_root run result fs =
     (if res_output result \<noteq> []
      then let output_bytes = utf8_encode (res_output result) in
           rbind (output_location sha results_root run output_bytes) (\<lambda>(output_path, reference_path).
             Inr (result\<lparr>res_output_ref := Some \<lparr>or_path = reference_path, or_size = int (length output_bytes)\<rparr>,
                         res_output := []\<rparr>,
                  dict_set output_path output_bytes fs))
      else Inr (result\<lparr>res_output := []\<rparr>, fs))"

definition hydrate_result_output ::
    "(string \<Rightarrow> string) \<Rightarrow> path \<Rightarrow> task_run \<Rightarrow> task_result \<Rightarrow> files \<Rightarrow> task_result result" where
  "hydrate_result_output sha results_root run result fs =
     (case res_output_ref result of
        None \<Rightarrow> Inr result
      | Some ref \<Rightarrow>
          if res_output result \<noteq> [] then Inr result
          else rbind (output_path_from_ref results_root run ref) (\<lambda>(output_path, expected_digest).
            case dict_get fs output_path of
              None \<Rightarrow> Inl (Exn FileNotFoundError ''No such file or directory'')
            | Some output_bytes \<Rightarrow>
                if int (length output_bytes) \<noteq> or_size ref
                then Inl (Exn ValueError (''output_ref size mismatch for run '' @ tr_run_id run))
                else if sha output_bytes \<noteq> expected_digest
                then Inl (Exn ValueError (''output_ref checksum mismatch for run '' @ tr_run_id run))
                else (case utf8_decode output_bytes of
                        None \<Rightarrow> Inl (Exn ValueError ''invalid utf-8'')
                      | Some text \<Rightarrow> Inr (result\<lparr>res_output := text\<rparr>))))"

subsection \<open>The round trip of an output\<close>

lemma utf8_roundtrip: "utf8_decode (utf8_encode s) = Some s"
proof (induction s)
  case (Cons c s)
  define n where "n = (of_char c :: nat)"
  have n: "n < 256" by (simp add: n_def)
  have c: "c = char_of n" by (simp add: n_def)
  show ?case
  proof (cases "n < 128")
    case True
    with Cons n_def show ?thesis by (simp add: Let_def)
  next
    case False
    with n have "n div 64 = 2 \<or> n div 64 = 3" by auto
    moreover have "n div 64 * 64 + n mod 64 = n" by simp
    ultimately show ?thesis
      using Cons False n c by (auto simp: Let_def n_def [symmetric])
  qed
qed simp

definition simple_id :: "string \<Rightarrow> bool" where
  "simple_id s \<longleftrightarrow> s \<noteq> [] \<and> CHR ''/'' \<notin> set s \<and> s \<noteq> ''.'' \<and> s \<noteq> ''..''"

lemma posix_parts_simple: "simple_id s \<Longrightarrow> posix_parts s = [s]"
  by (cases s) (auto simp: simple_id_def posix_parts_def split_on_no_sep)

lemma path_join_simple: "simple_id s \<Longrightarrow> path_join base s = base @ [s]"
  by (cases s) (auto simp: path_join_def posix_parts_simple, auto simp: simple_id_def)

lemma resolve_from_clean: "''..'' \<notin> set ps \<Longrightarrow> resolve_from acc ps = rev acc @ ps"
  by (induction ps arbitrary: acc) auto

lemma path_resolve_clean: "''..'' \<notin> set ps \<Longrightarrow> path_resolve ps = ps"
  by (simp add: path_resolve_def resolve_from_clean)

lemma str_of_nat_ascii: "list_all ascii_digit (str_of_nat n)"
  by (auto simp: list_all_iff ascii_digit_def dest!: str_of_nat_digits)

lemma hd_str_of_nat: "0 < n \<Longrightarrow> hd (str_of_nat n) \<noteq> CHR ''0''"
proof (induction n rule: str_of_nat.induct)
  case (1 n)
  show ?case
  proof (cases "n < 10")
    case True
    have "(of_char (char_of (48 + n) :: char) :: nat) \<noteq> of_char CHR ''0''"
      using True 1 by simp
    then have "char_of (48 + n) \<noteq> CHR ''0''" by metis
    with True show ?thesis by (subst str_of_nat.simps) simp
  next
    case False
    then have "0 < n div 10" by simp
    with 1 False have "hd (str_of_nat (n div 10)) \<noteq> CHR ''0''" by simp
    with False show ?thesis by (subst str_of_nat.simps) simp
  qed
qed

lemma str_of_nat_zero: "str_of_nat 0 = ''0''"
  by code_simp

lemma match_attempt_dir_name: "0 \<le> a \<Longrightarrow> match_attempt_dir (attempt_dir_name a)"
  using hd_str_of_nat [of "nat a"] str_of_nat_ascii [of "nat a"]
  by (cases "a = 0") (auto simp: match_attempt_dir_def attempt_dir_name_def str_of_int_def str_of_nat_zero Let_def)

lemma match_output_file_name:
  assumes "length d = 64" and "list_all lower_hex d"
  shows "match_output_file (output_file_name d) = Some d"
proof -
  have "drop 7 (output_file_name d) = d @ ''.txt''" by (simp add: output_file_name_def)
  moreover have "drop 71 (output_file_name d) = drop 64 (drop 7 (output_file_name d))" by simp
  ultimately show ?thesis
    using assms by (simp add: match_output_file_def output_file_name_def)
qed

lemma simple_id_names:
  "0 \<le> a \<Longrightarrow> simple_id (attempt_dir_name a)"
  "list_all lower_hex d \<Longrightarrow> simple_id (output_file_name d)"
proof -
  assume a: "0 \<le> a"
  have "CHR ''/'' \<notin> set (str_of_nat n)" for n
  proof
    assume "CHR ''/'' \<in> set (str_of_nat n)"
    with str_of_nat_ascii [of n] have "ascii_digit (CHR ''/'')" by (auto simp: list_all_iff)
    then show False by (simp add: ascii_digit_def)
  qed
  with a show "simple_id (attempt_dir_name a)"
    by (simp add: simple_id_def attempt_dir_name_def str_of_int_def)
next
  assume d: "list_all lower_hex d"
  have "CHR ''/'' \<notin> set d"
  proof
    assume "CHR ''/'' \<in> set d"
    with d have "lower_hex (CHR ''/'')" by (auto simp: list_all_iff)
    then show False by (simp add: lower_hex_def)
  qed
  then show "simple_id (output_file_name d)"
    by (simp add: simple_id_def output_file_name_def)
qed

lemma parts_of_joined:
  assumes "ps \<noteq> []" and "\<forall>p \<in> set ps. simple_id p"
  shows "posix_parts (as_posix ps) = ps"
proof -
  have sp: "split_on (CHR ''/'') (as_posix ps) = ps"
    unfolding as_posix_def using assms by (intro split_on_join_with) (auto simp: simple_id_def)
  have "hd (as_posix ps) \<noteq> CHR ''/''"
  proof -
    obtain p qs where ps: "ps = p # qs" using assms(1) by (cases ps) auto
    with assms(2) have "p \<noteq> []" "CHR ''/'' \<notin> set p" by (auto simp: simple_id_def)
    moreover from ps \<open>p \<noteq> []\<close> have "hd (as_posix ps) = hd p" by (cases qs) (auto simp: as_posix_def)
    ultimately show ?thesis by (metis hd_in_set)
  qed
  moreover have "filter (\<lambda>p. p \<noteq> [] \<and> p \<noteq> ''.'') ps = ps"
    using assms(2) by (auto simp: filter_id_conv simple_id_def)
  ultimately show ?thesis using sp by (simp add: posix_parts_def)
qed

lemma output_location_simple:
  assumes "''..'' \<notin> set rt" and "simple_id (tr_batch_id run)" "simple_id (tr_run_id run)"
    and "0 \<le> tr_attempt run" and "list_all lower_hex (sha payload)"
  shows "output_location sha rt run payload =
     Inr (rt @ [tr_batch_id run, tr_run_id run, attempt_dir_name (tr_attempt run), output_file_name (sha payload)],
          as_posix [''results'', tr_batch_id run, tr_run_id run, attempt_dir_name (tr_attempt run), output_file_name (sha payload)])"
proof -
  have d: "simple_id (attempt_dir_name (tr_attempt run))" "simple_id (output_file_name (sha payload))"
    using assms(4,5) by (simp_all add: simple_id_names)
  have nd: "s \<noteq> ''..''" if "simple_id s" for s using that by (simp add: simple_id_def)
  have "path_resolve (rt @ [tr_batch_id run, tr_run_id run, attempt_dir_name (tr_attempt run)]) =
      rt @ [tr_batch_id run, tr_run_id run, attempt_dir_name (tr_attempt run)]"
    using assms(1) nd [OF assms(2)] nd [OF assms(3)] nd [OF d(1)] by (intro path_resolve_clean) auto
  moreover have "tr_batch_id run \<noteq> ''/''" using assms(2) by (auto simp: simple_id_def)
  ultimately show ?thesis
    using assms(1,2,3) d
    by (simp add: output_location_def attempt_output_dir_def path_join_simple posix_parts_simple path_resolve_clean
        is_relative_to_def Let_def)
qed

lemma output_path_from_ref_simple:
  assumes "''..'' \<notin> set rt" and "simple_id b" "simple_id r" and "0 \<le> a"
    and "length d = 64" "list_all lower_hex d" and run: "tr_batch_id run = b" "tr_run_id run = r"
    and ref: "or_path ref = as_posix [''results'', b, r, attempt_dir_name a, output_file_name d]"
  shows "output_path_from_ref rt run ref = Inr (rt @ [b, r, attempt_dir_name a, output_file_name d], d)"
proof -
  let ?ps = "[''results'', b, r, attempt_dir_name a, output_file_name d]"
  have simp: "simple_id (attempt_dir_name a)" "simple_id (output_file_name d)" "simple_id ''results''"
    using assms(4,6) by (simp_all add: simple_id_names) (simp add: simple_id_def)
  have parts: "posix_parts (or_path ref) = ?ps"
    unfolding ref using assms(2,3) simp by (intro parts_of_joined) auto
  have nd: "s \<noteq> ''..''" if "simple_id s" for s using that by (simp add: simple_id_def)
  have res: "path_resolve (rt @ [b, r, attempt_dir_name a, output_file_name d]) =
      rt @ [b, r, attempt_dir_name a, output_file_name d]"
    using assms(1) nd [OF assms(2)] nd [OF assms(3)] nd [OF simp(1)] nd [OF simp(2)]
    by (intro path_resolve_clean) auto
  show ?thesis
    using assms(1-3) simp res match_attempt_dir_name [OF assms(4)] match_output_file_name [OF assms(5,6)]
    by (simp add: output_path_from_ref_def parts run path_join_simple path_resolve_clean path_name_def is_relative_to_def)
qed

text \<open>
  Persisting a result moves its output to a file below the results root, and loading the
  persisted result gives back the result that was written, output included, with a reference
  to that file: for identifiers that are single path parts, an attempt number that is not
  negative and a digest function that yields 64 hexadecimal characters.
\<close>

theorem output_roundtrip:
  assumes "''..'' \<notin> set rt" and "simple_id (tr_batch_id run)" "simple_id (tr_run_id run)"
    and "0 \<le> tr_attempt run" and sha: "\<And>x. length (sha x) = 64 \<and> list_all lower_hex (sha x)"
    and "res_output result \<noteq> []"
  shows "\<exists>p fs' ref. persisted_result_payload sha rt run result fs = Inr (p, fs') \<and> res_output p = []
     \<and> hydrate_result_output sha rt run p fs' = Inr (result\<lparr>res_output_ref := Some ref\<rparr>)
     \<and> (\<forall>q. dict_get fs' q \<noteq> dict_get fs q \<longrightarrow> is_relative_to q rt)"
proof -
  let ?bytes = "utf8_encode (res_output result)"
  let ?path = "rt @ [tr_batch_id run, tr_run_id run, attempt_dir_name (tr_attempt run), output_file_name (sha ?bytes)]"
  let ?ref = "\<lparr>or_path = as_posix [''results'', tr_batch_id run, tr_run_id run, attempt_dir_name (tr_attempt run),
                  output_file_name (sha ?bytes)], or_size = int (length ?bytes)\<rparr>"
  have loc: "output_location sha rt run ?bytes = Inr (?path, or_path ?ref)"
    using assms output_location_simple [of rt run sha ?bytes] by simp
  have frm: "output_path_from_ref rt run ?ref = Inr (?path, sha ?bytes)"
    using assms output_path_from_ref_simple [of rt "tr_batch_id run" "tr_run_id run" "tr_attempt run" "sha ?bytes" run ?ref]
    by simp
  have "persisted_result_payload sha rt run result fs =
      Inr (result\<lparr>res_output_ref := Some ?ref, res_output := []\<rparr>, dict_set ?path ?bytes fs)"
    using assms(6) loc by (simp add: persisted_result_payload_def Let_def)
  moreover have "hydrate_result_output sha rt run (result\<lparr>res_output_ref := Some ?ref, res_output := []\<rparr>)
      (dict_set ?path ?bytes fs) = Inr (result\<lparr>res_output_ref := Some ?ref\<rparr>)"
    using frm by (simp add: hydrate_result_output_def dict_get_set utf8_roundtrip)
  moreover have "\<forall>q. dict_get (dict_set ?path ?bytes fs) q \<noteq> dict_get fs q \<longrightarrow> is_relative_to q rt"
    by (auto simp: dict_get_set is_relative_to_def)
  ultimately show ?thesis by fastforce
qed

theorem output_roundtrip_witness:
  "\<exists>p fs' ref. persisted_result_payload (\<lambda>_. replicate 64 (CHR ''a'')) [''/'', ''data''] (sample_run ''r'' RUNNING)
       ((sample_result ''r'' COMPLETED)\<lparr>res_output := ''hi''\<rparr>) [] = Inr (p, fs')
     \<and> hydrate_result_output (\<lambda>_. replicate 64 (CHR ''a'')) [''/'', ''data''] (sample_run ''r'' RUNNING) p fs' =
         Inr ((sample_result ''r'' COMPLETED)\<lparr>res_output := ''hi'', res_output_ref := Some ref\<rparr>)"
proof -
  have "list_all lower_hex (replicate 64 (CHR ''a''))"
    by (simp add: list_all_iff lower_hex_def)
  then show ?thesis
    using output_roundtrip [of "[''/'', ''data'']" "sample_run ''r'' RUNNING" "\<lambda>_. replicate 64 (CHR ''a'')"
        "(sample_result ''r'' COMPLETED)\<lparr>res_output := ''hi''\<rparr>" "[]"]
    by (auto simp: simple_id_def sample_run_def)
qed

end
