(* ===== verification/File_Store.thy ===== *)
theory File_Store
  imports Run_Store
begin

section \<open>The filesystem run store\<close>

text \<open>
  \<^verbatim>\<open>storage/file_store.py\<close>. The directory tree is the extension \<open>fs_world\<close> of the runtime world: the
  \<^verbatim>\<open>metadata.json\<close> and \<^verbatim>\<open>result.json\<close> files by batch and run directory, the \<^verbatim>\<open>batch.json\<close> files, and
  the output sidecars. Globbing enumerates a dictionary in its order and a run identifier holds
  no glob metacharacter. Writing a run as JSON and reading it back keeps the fields of the model
  and resets its private attributes (\<open>persisted_run\<close>). Each file is replaced atomically. Reading and writing
  files does not itself fail: errors of the operating system and damaged files are not modelled.
\<close>

type_synonym run_key = "string \<times> string"

record fs_world = rt_world +
  fs_runs :: "(run_key, task_run) dict"
  fs_results :: "(run_key, task_result) dict"
  fs_batches :: "(string, batch_record) dict"
  fs_files :: files

definition persisted_run :: "task_run \<Rightarrow> task_run" where
  "persisted_run r = r\<lparr>tr_runtime_reuse := False, tr_secret_args := [], tr_bound_batch_id := []\<rparr>"

definition put_run :: "run_key \<Rightarrow> task_run \<Rightarrow> ('z fs_world_scheme, unit) io" where
  "put_run key run = modifyE (\<lambda>w. w\<lparr>fs_runs := dict_set key (persisted_run run) (fs_runs w)\<rparr>)"

definition find_run :: "string \<Rightarrow> 'z fs_world_scheme \<Rightarrow> (run_key \<times> task_run) option" where
  "find_run run_id w = find (\<lambda>((_, r), _). r = run_id) (fs_runs w)"

definition read_run_by_id :: "string \<Rightarrow> ('z fs_world_scheme, task_run \<times> run_key) io" where
  "read_run_by_id run_id = (\<lambda>w.
     case find_run run_id w of
       None \<Rightarrow> (Inl (Exn FileNotFoundError (''run not found: '' @ run_id)), w)
     | Some (key, run) \<Rightarrow> (Inr (run, key), w))"

definition same_run_creation_identity :: "task_run \<Rightarrow> task_run \<Rightarrow> bool" where
  "same_run_creation_identity existing incoming \<longleftrightarrow>
     tr_run_id existing = tr_run_id incoming
     \<and> tr_batch_id existing = tr_batch_id incoming
     \<and> py_strip (tr_idempotency_key existing) \<noteq> []
     \<and> py_strip (tr_idempotency_key existing) = py_strip (tr_idempotency_key incoming)"

definition run_status_counts :: "task_run list \<Rightarrow> (string, int) dict" where
  "run_status_counts runs =
     map (\<lambda>status. (task_status_value status, int (length (filter (\<lambda>r. tr_status r = status) runs)))) TERMINAL_STATUSES"

text \<open>\<^verbatim>\<open>value or _now_ms()\<close>: the clock is read only when it is needed.\<close>

definition or_now :: "int option \<Rightarrow> ('z rt_world_scheme, int) io" where
  "or_now v = (case v of None \<Rightarrow> now_ms | Some i \<Rightarrow> if i = 0 then now_ms else retE i)"

definition get_batch :: "string \<Rightarrow> ('z fs_world_scheme, batch_record) io" where
  "get_batch batch_id = (\<lambda>w.
     case dict_get (fs_batches w) batch_id of
       None \<Rightarrow> (Inl (Exn FileNotFoundError ''No such file or directory''), w)
     | Some b \<Rightarrow> (Inr b, w))"

definition create_batch :: "batch_record \<Rightarrow> ('z fs_world_scheme, batch_create_result) io" where
  "create_batch batch =
     bindE (getE (\<lambda>w. br_batch_id batch \<in> set (dict_keys (fs_batches w)))) (\<lambda>exists.
       if exists
       then bindE (get_batch (br_batch_id batch)) (\<lambda>b. retE \<lparr>bc_batch = b, bc_created = False\<rparr>)
       else thenE (modifyE (\<lambda>w. w\<lparr>fs_batches := dict_set (br_batch_id batch) batch (fs_batches w)\<rparr>))
              (retE \<lparr>bc_batch = batch, bc_created = True\<rparr>))"

definition lookup_idempotent :: "string \<Rightarrow> ('z fs_world_scheme, task_run option) io" where
  "lookup_idempotent idempotency_key =
     getE (\<lambda>w. find (\<lambda>run. tr_idempotency_key run = idempotency_key) (dict_values (fs_runs w)))"

definition create_run :: "task_run \<Rightarrow> ('z fs_world_scheme, unit) io" where
  "create_run run =
     (let key = (tr_batch_id run, tr_run_id run) in
      bindE (getE (\<lambda>w. dict_get (fs_runs w) key)) (\<lambda>found.
        case found of
          Some existing \<Rightarrow>
            if same_run_creation_identity existing run then retE ()
            else raiseE (Exn IdempotencyCollisionError
                          (''run '' @ tr_run_id run @ '' already exists with different identity''))
        | None \<Rightarrow>
            if tr_idempotency_key run \<noteq> []
            then bindE (lookup_idempotent (tr_idempotency_key run)) (\<lambda>found.
                   case found of
                     Some existing \<Rightarrow>
                       raiseE (Exn IdempotencyCollisionError
                         (''run '' @ tr_run_id existing @ '' already exists with idempotency_key='' @ tr_idempotency_key run))
                   | None \<Rightarrow> put_run key run)
            else put_run key run))"

definition update_run :: "task_run \<Rightarrow> ('z fs_world_scheme, unit) io" where
  "update_run run =
     bindE (read_run_by_id (tr_run_id run)) (\<lambda>(existing, key).
       if tr_status existing \<in> set TERMINAL_STATUSES \<and> tr_status existing \<noteq> tr_status run then retE ()
       else put_run key run)"

definition reopen_run_for_retry :: "task_run \<Rightarrow> int \<Rightarrow> ('z fs_world_scheme, unit) io" where
  "reopen_run_for_retry run expected_attempt =
     bindE (read_run_by_id (tr_run_id run)) (\<lambda>(existing, key).
       thenE (liftE (validate_reopen_payload existing run expected_attempt))
      (thenE (put_run key run)
         (modifyE (\<lambda>w. w\<lparr>fs_results := dict_pop (tr_batch_id run, tr_run_id run) (fs_results w)\<rparr>))))"

definition claim_run :: "string \<Rightarrow> string \<Rightarrow> ('z fs_world_scheme, fencing_token) io" where
  "claim_run run_id worker_id =
     bindE (read_run_by_id run_id) (\<lambda>(run, key).
       if tr_status run \<noteq> QUEUED
       then raiseE (Exn StaleWorkerError
              (''run '' @ tr_run_id run @ '' is '' @ task_status_value (tr_status run) @ '' and cannot be claimed''))
       else
         bindE now_ms (\<lambda>current_ms.
         bindE uuid4_hex (\<lambda>hex.
         let token = \<lparr>ft_run_id = run_id, ft_token = hex, ft_issued_at = current_ms, ft_expires_at = None\<rparr> in
         bindE (transition_run RUNNING True (run\<lparr>tr_worker_id := Some worker_id, tr_fencing_token := hex\<rparr>)) (\<lambda>run.
         thenE (put_run key (run\<lparr>tr_started_at := Some (int_or (tr_started_at run) current_ms),
                                  tr_heartbeat_at := Some current_ms\<rparr>))
           (retE token)))))"

definition list_batch_runs :: "string \<Rightarrow> ('z fs_world_scheme, task_run list) io" where
  "list_batch_runs batch_id =
     getE (\<lambda>w. sort_key tr_batch_item_index (map snd (filter (\<lambda>((b, _), _). b = batch_id) (fs_runs w))))"

definition heartbeat_batch :: "string \<Rightarrow> ('z fs_world_scheme, unit) io" where
  "heartbeat_batch batch_id =
     bindE now_ms (\<lambda>current_ms.
     bindE (list_batch_runs batch_id) (\<lambda>runs.
       forE runs (\<lambda>run.
         if tr_status run \<notin> {QUEUED, RUNNING} then retE ()
         else update_run (run\<lparr>tr_heartbeat_at := Some current_ms\<rparr>))))"

definition set_progress :: "string \<Rightarrow> string \<Rightarrow> int option \<Rightarrow> ('z fs_world_scheme, unit) io" where
  "set_progress run_id message ts =
     bindE (read_run_by_id run_id) (\<lambda>(run, key).
     bindE (case ts of Some t \<Rightarrow> retE t | None \<Rightarrow> now_ms) (\<lambda>current_ms.
       if current_ms < tr_latest_progress_at run then retE ()
       else put_run key (run\<lparr>tr_latest_progress_message := take 1000 message, tr_latest_progress_at := current_ms\<rparr>)))"

definition ensure_current_token :: "task_run \<Rightarrow> fencing_token \<Rightarrow> unit result" where
  "ensure_current_token run token =
     (if tr_status run \<noteq> RUNNING \<or> tr_fencing_token run \<noteq> ft_token token
      then Inl (Exn StaleWorkerError (''stale worker token for run '' @ tr_run_id run)) else Inr ())"

text \<open>\<^verbatim>\<open>_write_json_atomic(result_path, _persisted_result_payload(...))\<close>.\<close>

definition put_result :: "(string \<Rightarrow> string) \<Rightarrow> path \<Rightarrow> task_run \<Rightarrow> task_result \<Rightarrow> ('z fs_world_scheme, unit) io" where
  "put_result sha rt run result = (\<lambda>w.
     case persisted_result_payload sha rt run result (fs_files w) of
       Inl e \<Rightarrow> (Inl e, w)
     | Inr (payload, fs) \<Rightarrow>
         (Inr (), w\<lparr>fs_files := fs, fs_results := dict_set (tr_batch_id run, tr_run_id run) payload (fs_results w)\<rparr>))"

definition write_result ::
    "(string \<Rightarrow> string) \<Rightarrow> path \<Rightarrow> string \<Rightarrow> task_result \<Rightarrow> fencing_token \<Rightarrow> ('z fs_world_scheme, unit) io" where
  "write_result sha rt run_id result token =
     bindE (read_run_by_id run_id) (\<lambda>(run, key).
       thenE (liftE (ensure_current_token run token))
      (bindE (transition_run (res_status result) True run) (\<lambda>run.
       bindE (or_now (res_ended_at result)) (\<lambda>ended.
         let run = run\<lparr>tr_ended_at := Some ended, tr_last_error_class := res_error_class result,
                       tr_last_error := res_error_message result, tr_fencing_token := []\<rparr>
         in thenE (put_result sha rt run result) (put_run key run)))))"

definition fail_stale_run ::
    "(string \<Rightarrow> string) \<Rightarrow> path \<Rightarrow> string \<Rightarrow> task_result \<Rightarrow> string \<Rightarrow> ('z fs_world_scheme, unit) io" where
  "fail_stale_run sha rt run_id result worker_id =
     bindE (read_run_by_id run_id) (\<lambda>(run, key).
       if tr_status run \<noteq> RUNNING then retE ()
       else
         bindE (transition_run (res_status result) True (run\<lparr>tr_worker_id := Some worker_id\<rparr>)) (\<lambda>run.
         bindE (or_now (res_ended_at result)) (\<lambda>ended.
           let run = run\<lparr>tr_ended_at := Some ended, tr_last_error_class := res_error_class result,
                         tr_last_error := res_error_message result\<rparr>
           in thenE (put_result sha rt run result) (put_run key run))))"

definition update_batch :: "batch_record \<Rightarrow> ('z fs_world_scheme, batch_update_result) io" where
  "update_batch batch =
     bindE (get_batch (br_batch_id batch)) (\<lambda>existing.
       if br_status existing \<in> set TERMINAL_BATCH_STATUSES
       then retE \<lparr>bu_batch = existing, bu_applied = False\<rparr>
       else
         bindE now_ms (\<lambda>now.
           let stored = batch\<lparr>br_updated_at := now\<rparr>;
               stored = (if br_status stored \<in> set TERMINAL_BATCH_STATUSES
                         then stored\<lparr>br_ended_at := Some (int_or (br_ended_at stored) (br_updated_at stored))\<rparr>
                         else stored)
           in thenE (modifyE (\<lambda>w. w\<lparr>fs_batches := dict_set (br_batch_id batch) stored (fs_batches w)\<rparr>))
                (retE \<lparr>bu_batch = stored, bu_applied = True\<rparr>)))"

definition cancel_run :: "string \<Rightarrow> string \<Rightarrow> ('z fs_world_scheme, unit) io" where
  "cancel_run run_id reason =
     bindE (read_run_by_id run_id) (\<lambda>(run, key).
       if tr_status run \<notin> {QUEUED, RUNNING} then retE ()
       else
         bindE now_ms (\<lambda>current_ms.
         bindE (transition_run CANCELLED True run) (\<lambda>run.
           put_run key (run\<lparr>tr_fencing_token := [], tr_last_error_class := None, tr_last_error := reason,
                             tr_ended_at := Some (int_or (tr_ended_at run) current_ms)\<rparr>))))"

definition cancel_batch :: "string \<Rightarrow> string \<Rightarrow> ('z fs_world_scheme, unit) io" where
  "cancel_batch batch_id reason =
     bindE (get_batch batch_id) (\<lambda>batch.
       if br_status batch \<notin> {B_QUEUED, B_RUNNING} then retE ()
       else
         bindE (list_batch_runs batch_id) (\<lambda>runs.
         thenE (forE runs (\<lambda>run.
                  if tr_status run \<in> {QUEUED, RUNNING} then cancel_run (tr_run_id run) reason else retE ()))
        (bindE (list_batch_runs batch_id) (\<lambda>runs.
         bindE (transition_batch B_CANCELLED batch) (\<lambda>batch.
         thenE (update_batch (batch\<lparr>br_cancellation_reason := reason, br_counts := run_status_counts runs\<rparr>))
           (retE ()))))))"

definition get_run :: "string \<Rightarrow> ('z fs_world_scheme, task_run) io" where
  "get_run run_id = bindE (read_run_by_id run_id) (\<lambda>(run, _). retE run)"

definition read_result :: "(string \<Rightarrow> string) \<Rightarrow> path \<Rightarrow> task_run \<Rightarrow> ('z fs_world_scheme, task_result option) io" where
  "read_result sha rt run = (\<lambda>w.
     case dict_get (fs_results w) (tr_batch_id run, tr_run_id run) of
       None \<Rightarrow> (Inr None, w)
     | Some result \<Rightarrow>
         (case hydrate_result_output sha rt run result (fs_files w) of
            Inl e \<Rightarrow> (Inl e, w)
          | Inr r \<Rightarrow> (Inr (Some r), w)))"

definition get_task_detail ::
    "(string \<Rightarrow> string) \<Rightarrow> path \<Rightarrow> string \<Rightarrow> task_detail_view \<Rightarrow> ('z fs_world_scheme, task_detail) io" where
  "get_task_detail sha rt run_id view =
     bindE (read_run_by_id run_id) (\<lambda>(run, _).
     bindE (if tr_status run \<in> {COMPLETED, FAILED, CANCELLED, TIMED_OUT, BLOCKED} then read_result sha rt run else retE None)
       (\<lambda>result.
         retE \<lparr>det_run = run, det_result = result, det_view = view,
               det_content = (case result of Some r \<Rightarrow> if view = VIEW_SUMMARY then res_summary r else [] | None \<Rightarrow> []),
               det_artifacts = (case result of None \<Rightarrow> [] | Some r \<Rightarrow> res_artifacts r)\<rparr>))"

definition list_batches_by_turn :: "int \<Rightarrow> int \<Rightarrow> bool \<Rightarrow> ('z fs_world_scheme, batch_record list) io" where
  "list_batches_by_turn conversation turn active_only =
     getE (\<lambda>w. sort_key br_created_at (filter (\<lambda>b.
       br_parent_conversation_id b = conversation \<and> br_parent_turn_id b = turn
       \<and> (active_only \<longrightarrow> br_status b \<in> {B_QUEUED, B_RUNNING})) (dict_values (fs_batches w))))"

definition run_heartbeat_at :: "task_run \<Rightarrow> int" where
  "run_heartbeat_at run = int_or (tr_heartbeat_at run) (int_or (tr_started_at run) (tr_queued_at run))"

definition sweep_stale :: "int \<Rightarrow> ('z fs_world_scheme, stale_run list) io" where
  "sweep_stale before_ts =
     getE (\<lambda>w. map (\<lambda>run. \<lparr>st_run_id = tr_run_id run, st_batch_id = tr_batch_id run, st_status = tr_status run,
                            st_worker_id = tr_worker_id run, st_heartbeat_at = Some (run_heartbeat_at run)\<rparr>)
            (filter (\<lambda>run. tr_status run = RUNNING \<and> run_heartbeat_at run < before_ts) (dict_values (fs_runs w))))"

definition file_run_store :: "(string \<Rightarrow> string) \<Rightarrow> path \<Rightarrow> 'z fs_world_scheme run_store" where
  "file_run_store sha rt =
     \<lparr>rs_create_batch = create_batch, rs_create_run = create_run, rs_update_batch = update_batch,
      rs_get_batch = get_batch, rs_update_run = update_run, rs_reopen_run_for_retry = reopen_run_for_retry,
      rs_lookup_idempotent = lookup_idempotent, rs_claim_run = claim_run, rs_heartbeat_batch = heartbeat_batch,
      rs_set_progress = set_progress, rs_write_result = write_result sha rt,
      rs_fail_stale_run = Some (fail_stale_run sha rt), rs_cancel_batch = cancel_batch, rs_cancel_run = cancel_run,
      rs_get_run = get_run, rs_get_task_detail = get_task_detail sha rt, rs_list_batch_runs = list_batch_runs,
      rs_list_batches_by_turn = list_batches_by_turn, rs_sweep_stale = sweep_stale\<rparr>"

subsection \<open>The abstract run table\<close>

text \<open>
  What the operations may do to the table of runs and the table of results, one rule per kind of
  write. With \<open>strict\<close>, a rewritten run keeps the identity and the fencing token of the stored one
  and a created run has a fresh identifier, which is how the runtime uses the store.
\<close>

type_synonym tables = "(run_key, task_run) dict \<times> (run_key, task_result) dict"

definition tables :: "'z fs_world_scheme \<Rightarrow> tables" where
  "tables w = (fs_runs w, fs_results w)"

definition same_identity :: "task_run \<Rightarrow> task_run \<Rightarrow> bool" where
  "same_identity old new \<longleftrightarrow> tr_run_id new = tr_run_id old \<and> tr_batch_id new = tr_batch_id old
     \<and> tr_idempotency_key new = tr_idempotency_key old"

definition run_key_of :: "task_run \<Rightarrow> run_key" where
  "run_key_of r = (tr_batch_id r, tr_run_id r)"

inductive table_step :: "bool \<Rightarrow> tables \<Rightarrow> tables \<Rightarrow> bool" for strict where
  create: "table_step strict (R, S) (dict_set (run_key_of r) (persisted_run r) R, S)"
  if "dict_get R (run_key_of r) = None"
    and "tr_idempotency_key r = [] \<or> (\<forall>x \<in> set (dict_values R). tr_idempotency_key x \<noteq> tr_idempotency_key r)"
    and "strict \<Longrightarrow> \<forall>(b, i) \<in> set (dict_keys R). i \<noteq> tr_run_id r"
    and "strict \<Longrightarrow> dict_get S (run_key_of r) = None"
| touch: "table_step strict (R, S) (dict_set k (persisted_run new) R, S)"
  if "dict_get R k = Some old" and "is_terminal_run_status (tr_status old) \<Longrightarrow> tr_status new = tr_status old"
    and "strict \<Longrightarrow> same_identity old new \<and> tr_fencing_token new = tr_fencing_token old"
| claim: "table_step strict (R, S) (dict_set k (persisted_run new) R, S)"
  if "dict_get R k = Some old" and "tr_status old = QUEUED" and "tr_status new = RUNNING" and "same_identity old new"
| cancel: "table_step strict (R, S) (dict_set k (persisted_run new) R, S)"
  if "dict_get R k = Some old" and "\<not> is_terminal_run_status (tr_status old)" and "tr_status new = CANCELLED"
    and "same_identity old new"
| settle: "table_step strict (R, S) (dict_set k (persisted_run new) R, dict_set (run_key_of old) p S)"
  if "dict_get R k = Some old" and "tr_status old = RUNNING" and "is_terminal_run_status (tr_status new)"
    and "same_identity old new" and "res_status p = tr_status new"
| reopen: "table_step strict (R, S) (dict_set k (persisted_run new) R, dict_pop (run_key_of old) S)"
  if "dict_get R k = Some old" and "tr_status old \<in> {FAILED, TIMED_OUT, BLOCKED}" and "tr_status new = QUEUED"
    and "tr_attempt new = tr_attempt old + 1" and "same_identity old new"

lemma persisted_run_simps [simp]:
  "tr_status (persisted_run r) = tr_status r"
  "tr_run_id (persisted_run r) = tr_run_id r"
  "tr_batch_id (persisted_run r) = tr_batch_id r"
  "tr_idempotency_key (persisted_run r) = tr_idempotency_key r"
  "tr_fencing_token (persisted_run r) = tr_fencing_token r"
  "tr_attempt (persisted_run r) = tr_attempt r"
  "tr_secret_args (persisted_run r) = []"
  "tr_runtime_reuse (persisted_run r) = False"
  "tr_bound_batch_id (persisted_run r) = []"
  by (simp_all add: persisted_run_def)

lemma tables_simps [simp]:
  "tables (w\<lparr>w_tick := t\<rparr>) = tables w"
  "tables (w\<lparr>w_events := e\<rparr>) = tables w"
  "tables (w\<lparr>w_uuid_next := n\<rparr>) = tables w"
  "tables (w\<lparr>fs_files := fs\<rparr>) = tables w"
  "tables (w\<lparr>fs_batches := bs\<rparr>) = tables w"
  "tables (w\<lparr>fs_runs := R\<rparr>) = (R, fs_results w)"
  "tables (w\<lparr>fs_results := S\<rparr>) = (fs_runs w, S)"
  by (simp_all add: tables_def)

lemma find_run_Some:
  assumes "find_run rid w = Some (k, r)" and "dict_ok (fs_runs w)"
  shows "dict_get (fs_runs w) k = Some r" and "snd k = rid"
proof -
  from assms(1) obtain i where "i < length (fs_runs w)" "(k, r) = fs_runs w ! i"
    and i: "case (k, r) of ((_, i), _) \<Rightarrow> i = rid"
    unfolding find_run_def find_Some_iff by auto
  then have "(k, r) \<in> set (fs_runs w)" by simp
  with i assms(2) show "dict_get (fs_runs w) k = Some r" and "snd k = rid"
    by (auto simp: dict_ok_get_iff split: prod.splits)
qed

lemma bindE_read_run:
  "bindE (read_run_by_id rid) f w =
     (case find_run rid w of
        None \<Rightarrow> (Inl (Exn FileNotFoundError (''run not found: '' @ rid)), w)
      | Some (k, r) \<Rightarrow> f (r, k) w)"
  by (simp add: read_run_by_id_def bindE_def split: option.splits prod.splits)

lemma bindE_transition_run:
  "bindE (transition_run new p run) f w =
     (if is_valid_run_transition (tr_status run) new
      then f (run\<lparr>tr_status := new\<rparr>)
            (if p then w\<lparr>w_events := w_events w @ [Run_State_Transition (tr_run_id run) (tr_batch_id run) (tr_status run) new]\<rparr>
             else w)
      else (Inl (Exn InvalidTransitionError
                  (''illegal task transition: '' @ task_status_value (tr_status run) @ '' -> '' @ task_status_value new)), w))"
  by (simp add: bindE_def transition_run_eq)

text \<open>\<open>tables_reach\<close> is the relation every operation is shown to stay in.\<close>

definition tables_reach :: "bool \<Rightarrow> tables \<Rightarrow> 'z fs_world_scheme \<Rightarrow> bool" where
  "tables_reach strict T w \<longleftrightarrow> dict_ok (fs_runs w) \<and> (table_step strict)\<^sup>*\<^sup>* T (tables w)"

lemma table_step_dict_ok: "table_step strict T T' \<Longrightarrow> dict_ok (fst T) \<Longrightarrow> dict_ok (fst T')"
  by (cases rule: table_step.cases, assumption) simp_all

lemma tables_reach_step:
  "tables_reach strict T w \<Longrightarrow> table_step strict (tables w) (tables w') \<Longrightarrow> tables_reach strict T w'"
  using table_step_dict_ok [of strict "tables w" "tables w'"]
  by (auto simp: tables_reach_def tables_def intro: rtranclp.rtrancl_into_rtrancl)

lemma tables_reach_same [simp]:
  "tables_reach strict T (w\<lparr>w_tick := t\<rparr>) = tables_reach strict T w"
  "tables_reach strict T (w\<lparr>w_events := e\<rparr>) = tables_reach strict T w"
  "tables_reach strict T (w\<lparr>w_uuid_next := n\<rparr>) = tables_reach strict T w"
  "tables_reach strict T (w\<lparr>fs_files := fs\<rparr>) = tables_reach strict T w"
  "tables_reach strict T (w\<lparr>fs_batches := bs\<rparr>) = tables_reach strict T w"
  by (simp_all add: tables_reach_def)

lemma tables_reach_ok: "tables_reach strict T w \<Longrightarrow> dict_ok (fs_runs w)"
  by (simp add: tables_reach_def)

subsection \<open>Every operation refines the run table\<close>

lemma reach_world_ops [preserves_intros, simp]:
  "preserves (tables_reach strict T) now_ms"
  "preserves (tables_reach strict T) uuid4_hex"
  "preserves (tables_reach strict T) (publish e)"
  "preserves (tables_reach strict T) (or_now v)"
  by (auto simp: preserves_def or_now_def split: option.splits)

lemma reach_read_ops [preserves_intros, simp]:
  "preserves (tables_reach strict T) (get_batch b)"
  "preserves (tables_reach strict T) (lookup_idempotent key)"
  "preserves (tables_reach strict T) (list_batch_runs b)"
  "preserves (tables_reach strict T) (read_result sha rt run)"
  "preserves (tables_reach strict T) (list_batches_by_turn c t a)"
  "preserves (tables_reach strict T) (sweep_stale ts)"
  "preserves (tables_reach strict T) (read_run_by_id rid)"
  by (auto simp: preserves_def get_batch_def lookup_idempotent_def list_batch_runs_def
      read_result_def list_batches_by_turn_def sweep_stale_def read_run_by_id_def split: option.splits sum.splits)

lemma reach_get_ops [preserves_intros, simp]:
  "preserves (tables_reach strict T) (get_run rid)"
  "preserves (tables_reach strict T) (get_task_detail sha rt rid v)"
  unfolding get_task_detail_def get_run_def by (intro preserves_intros)+

lemma reach_batch_ops [preserves_intros, simp]:
  "preserves (tables_reach strict T) (create_batch b)"
  "preserves (tables_reach strict T) (update_batch b)"
  "preserves (tables_reach strict T) (transition_batch s b)"
  unfolding create_batch_def update_batch_def Let_def
  by (intro preserves_intros; simp)+ (auto simp: preserves_def transition_batch_eq)

lemma reach_create_run:
  assumes reach: "tables_reach strict T w"
    and ok: "strict \<Longrightarrow> (\<forall>(b, i) \<in> set (dict_keys (fs_runs w)). i \<noteq> tr_run_id run) \<and> dict_get (fs_results w) (run_key_of run) = None"
  shows "tables_reach strict T (snd (create_run run w))"
proof -
  have "table_step strict (tables w) (dict_set (run_key_of run) (persisted_run run) (fs_runs w), fs_results w)"
    if "dict_get (fs_runs w) (run_key_of run) = None"
      and "tr_idempotency_key run = [] \<or> find (\<lambda>x. tr_idempotency_key x = tr_idempotency_key run) (dict_values (fs_runs w)) = None"
    unfolding tables_def using that ok by (intro table_step.create) (auto simp: find_None_iff)
  then show ?thesis
    using reach
    by (auto simp: create_run_def put_run_def run_key_of_def [symmetric] lookup_idempotent_def Let_def
        split: option.splits intro: tables_reach_step)
qed

lemma reach_update_run:
  assumes reach: "tables_reach strict T w"
    and ok: "\<And>k old. strict \<Longrightarrow> find_run (tr_run_id run) w = Some (k, old) \<Longrightarrow>
       same_identity old run \<and> tr_fencing_token run = tr_fencing_token old"
  shows "tables_reach strict T (snd (update_run run w))"
proof (cases "find_run (tr_run_id run) w")
  case (Some p)
  obtain k old where p: "p = (k, old)" by (cases p)
  with Some reach have g: "dict_get (fs_runs w) k = Some old"
    by (auto dest: find_run_Some tables_reach_ok)
  show ?thesis
  proof (cases "is_terminal_run_status (tr_status old) \<and> tr_status old \<noteq> tr_status run")
    case False
    then have "table_step strict (tables w) (dict_set k (persisted_run run) (fs_runs w), fs_results w)"
      unfolding tables_def using g ok Some p by (intro table_step.touch [of _ _ old]) auto
    with False Some p reach show ?thesis
      by (auto simp: update_run_def bindE_read_run put_run_def terminal_statuses_iff intro: tables_reach_step)
  qed (use Some p reach in \<open>simp add: update_run_def bindE_read_run terminal_statuses_iff\<close>)
qed (use reach in \<open>simp add: update_run_def bindE_read_run\<close>)

lemma reach_set_progress [preserves_intros, simp]: "preserves (tables_reach strict T) (set_progress rid msg ts)"
proof (rule preservesI)
  fix w :: "'z fs_world_scheme" assume reach: "tables_reach strict T w"
  show "tables_reach strict T (snd (set_progress rid msg ts w))"
  proof (cases "find_run rid w")
    case (Some p)
    obtain k old where p: "p = (k, old)" by (cases p)
    with Some reach have g: "dict_get (fs_runs w) k = Some old"
      by (auto dest: find_run_Some tables_reach_ok)
    have "table_step strict (tables w)
        (dict_set k (persisted_run (old\<lparr>tr_latest_progress_message := m, tr_latest_progress_at := t\<rparr>)) (fs_runs w), fs_results w)"
      for m t
      unfolding tables_def using g by (intro table_step.touch [of _ _ old]) (auto simp: same_identity_def)
    with Some p reach show ?thesis
      by (auto simp: set_progress_def bindE_read_run put_run_def split: option.splits intro: tables_reach_step)
  qed (use reach in \<open>simp add: set_progress_def bindE_read_run\<close>)
qed

lemma reach_claim_run [preserves_intros, simp]: "preserves (tables_reach strict T) (claim_run rid wk)"
proof (rule preservesI)
  fix w :: "'z fs_world_scheme" assume reach: "tables_reach strict T w"
  show "tables_reach strict T (snd (claim_run rid wk w))"
  proof (cases "find_run rid w")
    case (Some p)
    obtain k old where p: "p = (k, old)" by (cases p)
    with Some reach have g: "dict_get (fs_runs w) k = Some old"
      by (auto dest: find_run_Some tables_reach_ok)
    have "table_step strict (tables w) (dict_set k (persisted_run new) (fs_runs w), fs_results w)"
      if "tr_status old = QUEUED" "tr_status new = RUNNING" "same_identity old new" for new
      unfolding tables_def using g that by (intro table_step.claim [of _ _ old])
    with Some p reach show ?thesis
      by (auto simp: claim_run_def bindE_read_run bindE_transition_run put_run_def Let_def same_identity_def
          intro!: tables_reach_step [OF reach])
  qed (use reach in \<open>simp add: claim_run_def bindE_read_run\<close>)
qed

lemma reach_cancel_run [preserves_intros, simp]: "preserves (tables_reach strict T) (cancel_run rid reason)"
proof (rule preservesI)
  fix w :: "'z fs_world_scheme" assume reach: "tables_reach strict T w"
  show "tables_reach strict T (snd (cancel_run rid reason w))"
  proof (cases "find_run rid w")
    case (Some p)
    obtain k old where p: "p = (k, old)" by (cases p)
    with Some reach have g: "dict_get (fs_runs w) k = Some old"
      by (auto dest: find_run_Some tables_reach_ok)
    have "table_step strict (tables w) (dict_set k (persisted_run new) (fs_runs w), fs_results w)"
      if "tr_status old \<in> {QUEUED, RUNNING}" "tr_status new = CANCELLED" "same_identity old new" for new
      unfolding tables_def using g that by (intro table_step.cancel [of _ _ old]) (auto simp: run_sm.live)
    with Some p reach show ?thesis
      by (auto simp: cancel_run_def bindE_read_run bindE_transition_run put_run_def Let_def same_identity_def
          intro!: tables_reach_step [OF reach])
  qed (use reach in \<open>simp add: cancel_run_def bindE_read_run\<close>)
qed

text \<open>Writing the result file and then the run file, as \<^verbatim>\<open>write_result\<close> and \<^verbatim>\<open>fail_stale_run\<close> do.\<close>

lemma persisted_payload_status:
  "persisted_result_payload sha rt run res fs = Inr (p, fs') \<Longrightarrow> res_status p = res_status res"
  by (auto simp: persisted_result_payload_def rbind_Inr_iff Let_def split: if_splits prod.splits)

lemma reach_settle:
  assumes reach: "tables_reach strict T w" and g: "dict_get (fs_runs w) k = Some old" and "tr_status old = RUNNING"
    and "is_valid_run_transition RUNNING (tr_status new)" and "same_identity old new" and "res_status res = tr_status new"
    and w': "tables w' = tables w"
  shows "tables_reach strict T (snd (thenE (put_result sha rt new res) (put_run k new) w'))"
proof (cases "persisted_result_payload sha rt new res (fs_files w')")
  case (Inl e)
  with reach w' show ?thesis by (simp add: put_result_def tables_reach_def tables_def)
next
  case (Inr x)
  then obtain p fs' where x: "persisted_result_payload sha rt new res (fs_files w') = Inr (p, fs')" by (cases x) auto
  have key: "(tr_batch_id new, tr_run_id new) = run_key_of old"
    using assms(5) by (simp add: same_identity_def run_key_of_def)
  have "table_step strict (tables w)
      (dict_set k (persisted_run new) (fs_runs w), dict_set (run_key_of old) p (fs_results w))"
    unfolding tables_def using assms persisted_payload_status [OF x]
    by (intro table_step.settle) (auto simp: run_sm.running_step)
  with reach x key w' show ?thesis
    by (auto simp: put_result_def put_run_def tables_def intro!: tables_reach_step [OF reach])
qed

lemma reach_write_result [preserves_intros, simp]:
  "preserves (tables_reach strict T) (write_result sha rt rid res tok)"
proof (rule preservesI)
  fix w :: "'z fs_world_scheme" assume reach: "tables_reach strict T w"
  show "tables_reach strict T (snd (write_result sha rt rid res tok w))"
  proof (cases "find_run rid w")
    case (Some p)
    obtain k old where p: "p = (k, old)" by (cases p)
    with Some reach have g: "dict_get (fs_runs w) k = Some old"
      by (auto dest: find_run_Some tables_reach_ok)
    show ?thesis
    proof (cases "tr_status old = RUNNING \<and> tr_fencing_token old = ft_token tok \<and> is_valid_run_transition RUNNING (res_status res)")
      case True
      with Some p g reach show ?thesis
        by (auto simp: write_result_def bindE_read_run bindE_transition_run ensure_current_token_def Let_def or_now_def
            same_identity_def split: option.splits intro!: reach_settle [OF reach g])
    qed (use Some p reach in \<open>auto simp: write_result_def bindE_read_run bindE_transition_run ensure_current_token_def\<close>)
  qed (use reach in \<open>simp add: write_result_def bindE_read_run\<close>)
qed

lemma reach_fail_stale_run [preserves_intros, simp]:
  "preserves (tables_reach strict T) (fail_stale_run sha rt rid res wk)"
proof (rule preservesI)
  fix w :: "'z fs_world_scheme" assume reach: "tables_reach strict T w"
  show "tables_reach strict T (snd (fail_stale_run sha rt rid res wk w))"
  proof (cases "find_run rid w")
    case (Some p)
    obtain k old where p: "p = (k, old)" by (cases p)
    with Some reach have g: "dict_get (fs_runs w) k = Some old"
      by (auto dest: find_run_Some tables_reach_ok)
    show ?thesis
    proof (cases "tr_status old = RUNNING \<and> is_valid_run_transition RUNNING (res_status res)")
      case True
      with Some p g reach show ?thesis
        by (auto simp: fail_stale_run_def bindE_read_run bindE_transition_run Let_def or_now_def
            same_identity_def split: option.splits intro!: reach_settle [OF reach g])
    qed (use Some p reach in \<open>auto simp: fail_stale_run_def bindE_read_run bindE_transition_run\<close>)
  qed (use reach in \<open>simp add: fail_stale_run_def bindE_read_run\<close>)
qed

lemma validate_reopen_Inr:
  "validate_reopen_payload old new n = Inr u \<Longrightarrow>
     tr_status old \<in> {FAILED, TIMED_OUT, BLOCKED} \<and> tr_attempt old = n \<and> tr_status new = QUEUED
     \<and> tr_attempt new = n + 1 \<and> tr_fencing_token new = [] \<and> same_identity old new"
  by (auto simp: validate_reopen_payload_def RETRYABLE_TERMINAL_STATUSES_def same_identity_def split: if_splits)

lemma reach_reopen [preserves_intros, simp]: "preserves (tables_reach strict T) (reopen_run_for_retry run n)"
proof (rule preservesI)
  fix w :: "'z fs_world_scheme" assume reach: "tables_reach strict T w"
  show "tables_reach strict T (snd (reopen_run_for_retry run n w))"
  proof (cases "find_run (tr_run_id run) w")
    case (Some p)
    obtain k old where p: "p = (k, old)" by (cases p)
    with Some reach have g: "dict_get (fs_runs w) k = Some old"
      by (auto dest: find_run_Some tables_reach_ok)
    show ?thesis
    proof (cases "validate_reopen_payload old run n")
      case (Inr u)
      note v = validate_reopen_Inr [OF Inr]
      have "table_step strict (tables w)
          (dict_set k (persisted_run run) (fs_runs w), dict_pop (run_key_of old) (fs_results w))"
        unfolding tables_def using g v by (intro table_step.reopen) auto
      moreover have "run_key_of old = (tr_batch_id run, tr_run_id run)"
        using v by (simp add: same_identity_def run_key_of_def)
      ultimately show ?thesis
        using Some p Inr reach
        by (auto simp: reopen_run_for_retry_def bindE_read_run put_run_def intro!: tables_reach_step [OF reach])
    qed (use Some p reach in \<open>simp add: reopen_run_for_retry_def bindE_read_run\<close>)
  qed (use reach in \<open>simp add: reopen_run_for_retry_def bindE_read_run\<close>)
qed

lemma reach_cancel_batch [preserves_intros, simp]: "preserves (tables_reach strict T) (cancel_batch b reason)"
  unfolding cancel_batch_def by (intro preserves_intros)

lemma reach_lax_writes [preserves_intros, simp]:
  "preserves (tables_reach False T) (create_run run)"
  "preserves (tables_reach False T) (update_run run)"
  by (auto intro: preservesI reach_create_run reach_update_run)

lemma reach_heartbeat [preserves_intros, simp]: "preserves (tables_reach False T) (heartbeat_batch b)"
  unfolding heartbeat_batch_def by (intro preserves_intros)

interpretation file_inv: run_store_invariant "file_run_store sha rt" "tables_reach False T" for sha rt T
  by unfold_locales (auto simp: file_run_store_def)

subsection \<open>Consequences for the tables\<close>

lemma absorbed_step:
  "table_step strict T T' \<Longrightarrow> dict_get (fst T) k = Some r \<Longrightarrow>
     \<exists>r'. dict_get (fst T') k = Some r' \<and> (absorbing_run_status (tr_status r) \<longrightarrow> tr_status r' = tr_status r)"
  by (cases rule: table_step.cases, assumption)
    (auto simp: dict_get_set absorbing_run_status_def is_terminal_run_status_def TERMINAL_RUN_STATUSES_def)

lemma absorbed_reach:
  assumes "(table_step strict)\<^sup>*\<^sup>* T T'" and "dict_get (fst T) k = Some r" and "absorbing_run_status (tr_status r)"
  shows "\<exists>r'. dict_get (fst T') k = Some r' \<and> tr_status r' = tr_status r"
  using assms
proof (induction rule: rtranclp_induct)
  case (step T1 T2)
  then show ?case using absorbed_step by metis
qed blast

definition store_ok :: "tables \<Rightarrow> bool" where
  "store_ok T \<longleftrightarrow>
     (case T of (R, S) \<Rightarrow>
        dict_ok R \<and>
        (\<forall>k r. dict_get R k = Some r \<longrightarrow> k = run_key_of r \<and> tr_secret_args r = [] \<and> \<not> tr_runtime_reuse r) \<and>
        (\<forall>k k' r r'. dict_get R k = Some r \<longrightarrow> dict_get R k' = Some r' \<longrightarrow>
           tr_run_id r = tr_run_id r' \<or> (tr_idempotency_key r \<noteq> [] \<and> tr_idempotency_key r = tr_idempotency_key r') \<longrightarrow> k = k') \<and>
        (\<forall>k p. dict_get S k = Some p \<longrightarrow>
           (\<exists>r. dict_get R k = Some r \<and> is_terminal_run_status (tr_status r) \<and> res_status p = tr_status r)))"

lemma store_okD:
  assumes "store_ok (R, S)"
  shows "dict_ok R"
    and "dict_get R k = Some r \<Longrightarrow> k = run_key_of r \<and> tr_secret_args r = [] \<and> \<not> tr_runtime_reuse r"
    and "dict_get R k = Some r \<Longrightarrow> dict_get R k' = Some r' \<Longrightarrow> tr_run_id r = tr_run_id r' \<Longrightarrow> k = k'"
    and "dict_get R k = Some r \<Longrightarrow> dict_get R k' = Some r' \<Longrightarrow> tr_idempotency_key r = tr_idempotency_key r' \<Longrightarrow>
       tr_idempotency_key r \<noteq> [] \<Longrightarrow> k = k'"
    and "dict_get S k = Some p \<Longrightarrow>
       \<exists>r. dict_get R k = Some r \<and> is_terminal_run_status (tr_status r) \<and> res_status p = tr_status r"
  using assms unfolding store_ok_def by blast+

text \<open>Rewriting one run under its identity, with the results that go with it.\<close>

lemma store_ok_rewrite:
  assumes ok: "store_ok (R, S)" and g: "dict_get R k = Some old" and id: "same_identity old new"
    and res: "\<And>k' p. dict_get S' k' = Some p \<Longrightarrow>
       if k' = k then is_terminal_run_status (tr_status new) \<and> res_status p = tr_status new else dict_get S k' = Some p"
  shows "store_ok (dict_set k (persisted_run new) R, S')"
proof -
  let ?R = "dict_set k (persisted_run new) R"
  have k: "k = run_key_of (persisted_run new)"
    using store_okD(2) [OF ok g] id by (simp add: run_key_of_def same_identity_def)
  have a: "k' = run_key_of r \<and> tr_secret_args r = [] \<and> \<not> tr_runtime_reuse r" if "dict_get ?R k' = Some r" for k' r
    using that k store_okD(2) [OF ok] by (auto simp: dict_get_set split: if_splits)
  have old: "\<exists>r0. dict_get R k' = Some r0 \<and> tr_run_id r0 = tr_run_id r \<and> tr_idempotency_key r0 = tr_idempotency_key r"
    if "dict_get ?R k' = Some r" for k' r
    using that g id by (auto simp: dict_get_set same_identity_def split: if_splits)
  have b: "k1 = k2"
    if "dict_get ?R k1 = Some r1" "dict_get ?R k2 = Some r2"
      "tr_run_id r1 = tr_run_id r2 \<or> (tr_idempotency_key r1 \<noteq> [] \<and> tr_idempotency_key r1 = tr_idempotency_key r2)"
    for k1 k2 r1 r2
    using old [OF that(1)] old [OF that(2)] that(3) store_okD(3,4) [OF ok] by metis
  have c: "\<exists>r. dict_get ?R k' = Some r \<and> is_terminal_run_status (tr_status r) \<and> res_status p = tr_status r"
    if "dict_get S' k' = Some p" for k' p
    using res [OF that] store_okD(5) [OF ok, of k' p] by (auto simp: dict_get_set split: if_splits)
  have d: "dict_ok ?R" using store_okD(1) [OF ok] by simp
  show ?thesis
    unfolding store_ok_def prod.case using a b c d by blast
qed

lemma store_ok_create:
  assumes ok: "store_ok (R, S)" and "dict_get R (run_key_of r) = None"
    and key: "tr_idempotency_key r = [] \<or> (\<forall>x \<in> set (dict_values R). tr_idempotency_key x \<noteq> tr_idempotency_key r)"
    and fresh: "\<forall>(b, i) \<in> set (dict_keys R). i \<noteq> tr_run_id r" and S: "dict_get S (run_key_of r) = None"
  shows "store_ok (dict_set (run_key_of r) (persisted_run r) R, S)"
proof -
  let ?k = "run_key_of r"
  let ?R = "dict_set ?k (persisted_run r) R"
  have a: "k' = run_key_of x \<and> tr_secret_args x = [] \<and> \<not> tr_runtime_reuse x" if "dict_get ?R k' = Some x" for k' x
    using that store_okD(2) [OF ok] by (auto simp: dict_get_set run_key_of_def split: if_splits)
  have new: "tr_run_id x \<noteq> tr_run_id r \<and> (tr_idempotency_key r \<noteq> [] \<longrightarrow> tr_idempotency_key x \<noteq> tr_idempotency_key r)"
    if x: "dict_get R k' = Some x" for k' x
  proof -
    have "x \<in> set (dict_values R)" and "k' \<in> set (dict_keys R)" using dict_get_in [OF x] by force+
    with key fresh store_okD(2) [OF ok x] show ?thesis by (auto simp: run_key_of_def)
  qed
  have b: "k1 = k2"
    if "dict_get ?R k1 = Some r1" "dict_get ?R k2 = Some r2"
      "tr_run_id r1 = tr_run_id r2 \<or> (tr_idempotency_key r1 \<noteq> [] \<and> tr_idempotency_key r1 = tr_idempotency_key r2)"
    for k1 k2 r1 r2
  proof (rule ccontr)
    assume ne: "k1 \<noteq> k2"
    show False
    proof (cases "k1 = ?k \<or> k2 = ?k")
      case True
      with ne that new [of k1 r1] new [of k2 r2] show False by (auto simp: dict_get_set)
    next
      case False
      with that have "dict_get R k1 = Some r1" "dict_get R k2 = Some r2" by (simp_all add: dict_get_set)
      with ne that(3) store_okD(3,4) [OF ok] show False by blast
    qed
  qed
  have c: "\<exists>x. dict_get ?R k' = Some x \<and> is_terminal_run_status (tr_status x) \<and> res_status p = tr_status x"
    if "dict_get S k' = Some p" for k' p
    using that S store_okD(5) [OF ok that] by (auto simp: dict_get_set)
  have d: "dict_ok ?R" using store_okD(1) [OF ok] by simp
  show ?thesis
    unfolding store_ok_def prod.case using a b c d by blast
qed

lemma store_ok_step:
  assumes "table_step True T T'" and "store_ok T"
  shows "store_ok T'"
  using assms
proof (cases rule: table_step.cases)
  case (create R r S)
  with assms(2) have ok: "store_ok (R, S)" by simp
  show ?thesis unfolding create(2) using create by (intro store_ok_create [OF ok]) auto
next
  case (touch R k old new S)
  with assms(2) have ok: "store_ok (R, S)" by simp
  show ?thesis unfolding touch(2)
    using touch store_okD(5) [OF ok, of k] by (intro store_ok_rewrite [OF ok touch(3)]) auto
next
  case (claim R k old new S)
  with assms(2) have ok: "store_ok (R, S)" by simp
  show ?thesis unfolding claim(2)
    using claim store_okD(5) [OF ok, of k] run_sm.live [of QUEUED] by (intro store_ok_rewrite [OF ok claim(3)]) auto
next
  case (cancel R k old new S)
  with assms(2) have ok: "store_ok (R, S)" by simp
  show ?thesis unfolding cancel(2)
    using cancel store_okD(5) [OF ok, of k] by (intro store_ok_rewrite [OF ok cancel(3)]) auto
next
  case (settle R k old new p S)
  with assms(2) have ok: "store_ok (R, S)" by simp
  have "run_key_of old = k" using store_okD(2) [OF ok settle(3)] by simp
  then show ?thesis unfolding settle(2)
    using settle by (intro store_ok_rewrite [OF ok settle(3)]) (auto simp: dict_get_set split: if_splits)
next
  case (reopen R k old new S)
  with assms(2) have ok: "store_ok (R, S)" by simp
  have "run_key_of old = k" using store_okD(2) [OF ok reopen(3)] by simp
  then show ?thesis unfolding reopen(2)
    using reopen by (intro store_ok_rewrite [OF ok reopen(3)]) (auto simp: dict_get_pop split: if_splits)
qed

lemma store_ok_reach: "(table_step True)\<^sup>*\<^sup>* T T' \<Longrightarrow> store_ok T \<Longrightarrow> store_ok T'"
  by (induction rule: rtranclp_induct) (auto intro: store_ok_step)

subsection \<open>Sequences of operations\<close>

datatype store_op =
    Create_Batch batch_record | Create_Run task_run | Update_Batch batch_record | Update_Run task_run
  | Reopen_Run task_run int | Claim_Run string string | Heartbeat_Batch string
  | Set_Progress string string "int option" | Write_Result string task_result fencing_token
  | Fail_Stale_Run string task_result string | Cancel_Batch string string | Cancel_Run string string

definition ignore :: "('s, 'a) io \<Rightarrow> ('s, unit) io" where
  "ignore m = thenE m (retE ())"

fun exec_op :: "(string \<Rightarrow> string) \<Rightarrow> path \<Rightarrow> store_op \<Rightarrow> ('z fs_world_scheme, unit) io" where
  "exec_op sha rt (Create_Batch b) = ignore (create_batch b)"
| "exec_op sha rt (Create_Run r) = create_run r"
| "exec_op sha rt (Update_Batch b) = ignore (update_batch b)"
| "exec_op sha rt (Update_Run r) = update_run r"
| "exec_op sha rt (Reopen_Run r n) = reopen_run_for_retry r n"
| "exec_op sha rt (Claim_Run rid wk) = ignore (claim_run rid wk)"
| "exec_op sha rt (Heartbeat_Batch b) = heartbeat_batch b"
| "exec_op sha rt (Set_Progress rid m ts) = set_progress rid m ts"
| "exec_op sha rt (Write_Result rid res tok) = write_result sha rt rid res tok"
| "exec_op sha rt (Fail_Stale_Run rid res wk) = fail_stale_run sha rt rid res wk"
| "exec_op sha rt (Cancel_Batch b reason) = cancel_batch b reason"
| "exec_op sha rt (Cancel_Run rid reason) = cancel_run rid reason"

text \<open>The effect of a sequence of calls, each of which may have raised.\<close>

definition exec_ops :: "(string \<Rightarrow> string) \<Rightarrow> path \<Rightarrow> store_op list \<Rightarrow> 'z fs_world_scheme \<Rightarrow> 'z fs_world_scheme" where
  "exec_ops sha rt ops w = fold (\<lambda>op w. snd (exec_op sha rt op w)) ops w"

lemma reach_exec_op: "preserves (tables_reach False T) (exec_op sha rt op)"
  by (cases op) (auto simp: ignore_def intro!: preserves_intros)

lemma reach_exec_ops: "tables_reach False T w \<Longrightarrow> tables_reach False T (exec_ops sha rt ops w)"
  unfolding exec_ops_def
proof (induction ops arbitrary: w)
  case (Cons op ops)
  have "tables_reach False T (snd (exec_op sha rt op w))"
    by (rule preserves_apply [OF reach_exec_op Cons.prems])
  then show ?case using Cons.IH by simp
qed simp

text \<open>
  C1. No sequence of store operations, in whatever order, with whatever arguments and whichever
  of them raise, changes the status of a run that has completed or was cancelled, or removes it.
\<close>

theorem file_store_absorbing:
  assumes "dict_ok (fs_runs w)" and "dict_get (fs_runs w) k = Some r" and "tr_status r \<in> {COMPLETED, CANCELLED}"
  shows "\<exists>r'. dict_get (fs_runs (exec_ops sha rt ops w)) k = Some r' \<and> tr_status r' = tr_status r"
proof -
  have "tables_reach False (tables w) w" using assms(1) by (simp add: tables_reach_def)
  then have "tables_reach False (tables w) (exec_ops sha rt ops w)" by (rule reach_exec_ops)
  then have "(table_step False)\<^sup>*\<^sup>* (tables w) (tables (exec_ops sha rt ops w))" by (simp add: tables_reach_def)
  from absorbed_reach [OF this, of k r] assms(2,3) show ?thesis
    by (simp add: tables_def absorbing_run_status_def)
qed

definition sample_store :: "task_run list \<Rightarrow> fs_world" where
  "sample_store runs =
     \<lparr>w_clock = int, w_tick = 5, w_uuids = str_of_nat, w_uuid_next = 0, w_events = [],
      fs_runs = map (\<lambda>r. (run_key_of r, r)) runs, fs_results = [],
      fs_batches = [(''b'', sample_batch B_RUNNING)], fs_files = []\<rparr>"

theorem file_store_absorbing_witness:
  "\<exists>r'. dict_get (fs_runs (exec_ops (\<lambda>_. []) [] [Cancel_Run ''r'' ''stop'', Claim_Run ''r'' ''w'']
       (sample_store [sample_run ''r'' COMPLETED]))) (''b'', ''r'') = Some r' \<and> tr_status r' = COMPLETED"
  using file_store_absorbing [of "sample_store [sample_run ''r'' COMPLETED]" "(''b'', ''r'')" "sample_run ''r'' COMPLETED"]
  by (simp add: sample_store_def sample_run_def run_key_of_def dict_ok_def)

subsection \<open>The store invariant\<close>

definition op_ok :: "store_op \<Rightarrow> 'z fs_world_scheme \<Rightarrow> bool" where
  "op_ok op w =
     (case op of
        Create_Run r \<Rightarrow> (\<forall>(b, i) \<in> set (dict_keys (fs_runs w)). i = tr_run_id r \<longrightarrow> b = tr_batch_id r)
      | Update_Run r \<Rightarrow>
          (case find_run (tr_run_id r) w of
             None \<Rightarrow> True
           | Some (_, old) \<Rightarrow> same_identity old r \<and> tr_fencing_token r = tr_fencing_token old)
      | _ \<Rightarrow> True)"

lemma find_run_unique:
  assumes ok: "store_ok (tables w)" and g: "dict_get (fs_runs w) (run_key_of x) = Some x"
  shows "find_run (tr_run_id x) w = Some (run_key_of x, x)"
proof -
  have ok': "store_ok (fs_runs w, fs_results w)" using ok by (simp add: tables_def)
  have "find_run (tr_run_id x) w \<noteq> None"
  proof
    assume "find_run (tr_run_id x) w = None"
    then have "\<forall>y \<in> set (fs_runs w). \<not> (case y of ((_, r), _) \<Rightarrow> r = tr_run_id x)"
      by (auto simp: find_run_def find_None_iff)
    from bspec [OF this dict_get_in [OF g]] show False by (simp add: run_key_of_def)
  qed
  then obtain k r where f: "find_run (tr_run_id x) w = Some (k, r)" by auto
  note fr = find_run_Some [OF f store_okD(1) [OF ok']]
  from store_okD(2) [OF ok' fr(1)] fr(2) have "tr_run_id r = tr_run_id x" by (auto simp: run_key_of_def)
  from store_okD(3) [OF ok' fr(1) g this] have "k = run_key_of x" .
  with f fr(1) g show ?thesis by simp
qed

lemma reach_store_ok: "tables_reach True T w \<Longrightarrow> store_ok T \<Longrightarrow> store_ok (tables w)"
  using store_ok_reach [of T "tables w"] by (simp add: tables_reach_def)

lemma heartbeat_loop:
  assumes "store_ok T" and "tables_reach True T w" and "distinct (map run_key_of xs)"
    and "\<forall>x \<in> set xs. dict_get (fs_runs w) (run_key_of x) = Some x"
  shows "tables_reach True T (snd (forE xs (\<lambda>run.
           if tr_status run \<notin> {QUEUED, RUNNING} then retE ()
           else update_run (run\<lparr>tr_heartbeat_at := Some now\<rparr>)) w))"
  using assms(2-)
proof (induction xs arbitrary: w)
  case (Cons x xs)
  show ?case
  proof (cases "tr_status x \<in> {QUEUED, RUNNING}")
    case True
    let ?y = "x\<lparr>tr_heartbeat_at := Some now\<rparr>"
    let ?w = "w\<lparr>fs_runs := dict_set (run_key_of x) (persisted_run ?y) (fs_runs w)\<rparr>"
    have f: "find_run (tr_run_id x) w = Some (run_key_of x, x)"
      using Cons.prems reach_store_ok [OF Cons.prems(1) assms(1)] by (intro find_run_unique) auto
    with True have u: "update_run ?y w = (Inr (), ?w)"
      by (auto simp: update_run_def bindE_read_run put_run_def TERMINAL_STATUSES_def)
    have "tables_reach True T (snd (update_run ?y w))"
      using f by (intro reach_update_run [OF Cons.prems(1)]) (auto simp: same_identity_def)
    with u have "tables_reach True T ?w" by simp
    moreover have "\<forall>z \<in> set xs. dict_get (fs_runs ?w) (run_key_of z) = Some z"
    proof
      fix z assume z: "z \<in> set xs"
      with Cons.prems(2) have "run_key_of z \<noteq> run_key_of x" by (simp add: image_iff) metis
      moreover have "dict_get (fs_runs w) (run_key_of z) = Some z" using z Cons.prems(3) by simp
      ultimately show "dict_get (fs_runs ?w) (run_key_of z) = Some z" by (simp add: dict_get_set)
    qed
    moreover have "distinct (map run_key_of xs)" using Cons.prems(2) by simp
    ultimately have "tables_reach True T (snd (forE xs (\<lambda>run.
           if tr_status run \<notin> {QUEUED, RUNNING} then retE ()
           else update_run (run\<lparr>tr_heartbeat_at := Some now\<rparr>)) ?w))"
      by (intro Cons.IH)
    with u True show ?thesis by auto
  next
    case False
    with Cons.prems Cons.IH [of w] show ?thesis by simp
  qed
qed simp

lemma reach_strict_heartbeat:
  assumes T: "store_ok T" and r: "tables_reach True T w"
  shows "tables_reach True T (snd (heartbeat_batch b w))"
proof -
  let ?w = "w\<lparr>w_tick := w_tick w + 1\<rparr>"
  let ?l = "filter (\<lambda>((b', _), _). b' = b) (fs_runs w)"
  have ok: "store_ok (fs_runs w, fs_results w)" using reach_store_ok [OF r T] by (simp add: tables_def)
  have entry: "run_key_of x = k \<and> dict_get (fs_runs w) k = Some x" if "(k, x) \<in> set (fs_runs w)" for k x
    using that store_okD(2) [OF ok, of k x] store_okD(1) [OF ok] by (auto simp: dict_ok_get_iff)
  have "map run_key_of (map snd ?l) = map fst ?l" using entry by auto
  moreover have "distinct (map fst ?l)"
    using store_okD(1) [OF ok] unfolding dict_ok_def by (rule distinct_map_filter)
  ultimately have "distinct (map run_key_of (map snd ?l))" by (simp only:)
  then have "distinct (map run_key_of (sort_key tr_batch_item_index (map snd ?l)))"
    unfolding distinct_map [of run_key_of] distinct_sort set_sort .
  moreover have "\<forall>x \<in> set (sort_key tr_batch_item_index (map snd ?l)). dict_get (fs_runs ?w) (run_key_of x) = Some x"
    using entry by auto
  moreover have "tables_reach True T ?w" using r by simp
  ultimately show ?thesis
    using heartbeat_loop [OF T, of ?w "sort_key tr_batch_item_index (map snd ?l)"]
    by (simp add: heartbeat_batch_def list_batch_runs_def)
qed

lemma reach_other_op:
  "(case op of Create_Run _ \<Rightarrow> False | Update_Run _ \<Rightarrow> False | Heartbeat_Batch _ \<Rightarrow> False | _ \<Rightarrow> True) \<Longrightarrow>
     preserves (tables_reach strict T) (exec_op sha rt op)"
  by (cases op) (auto simp: ignore_def intro!: preserves_intros)

lemma reach_lax_op: "preserves (tables_reach False T) (exec_op sha rt op)"
  by (cases op) (auto simp: ignore_def intro!: preserves_intros)

lemma reach_strict_op:
  assumes T: "store_ok T" and r: "tables_reach True T w" and ok: "op_ok op w"
  shows "tables_reach True T (snd (exec_op sha rt op w))"
proof (cases op)
  case (Create_Run x)
  have sok: "store_ok (fs_runs w, fs_results w)" using reach_store_ok [OF r T] by (simp add: tables_def)
  show ?thesis
  proof (cases "dict_get (fs_runs w) (run_key_of x)")
    case None
    then have k: "run_key_of x \<notin> set (dict_keys (fs_runs w))" by (metis dict_get_None_iff)
    with ok Create_Run have "\<forall>(b, i) \<in> set (dict_keys (fs_runs w)). i \<noteq> tr_run_id x"
      by (fastforce simp: op_ok_def run_key_of_def image_iff)
    moreover have "dict_get (fs_results w) (run_key_of x) = None"
      using store_okD(5) [OF sok, of "run_key_of x"] None by (cases "dict_get (fs_results w) (run_key_of x)") auto
    ultimately show ?thesis using Create_Run r by (simp add: reach_create_run)
  next
    case (Some y)
    then have "snd (create_run x w) = w" by (simp add: create_run_def run_key_of_def Let_def)
    with Create_Run r show ?thesis by simp
  qed
next
  case (Update_Run x)
  with ok r show ?thesis by (auto simp: op_ok_def intro!: reach_update_run)
next
  case (Heartbeat_Batch b)
  with reach_strict_heartbeat [OF T r] show ?thesis by simp
qed (rule preserves_apply [OF reach_other_op r]; simp)+

text \<open>
  The states that clients reach from an empty directory. The store does not look for the identifier of
  a new run in other batches, and \<^verbatim>\<open>update_run\<close> compares nothing but the status; \<open>op_ok\<close> is the conduct it
  relies on, and each step is taken under it.
\<close>

inductive store_reachable :: "(string \<Rightarrow> string) \<Rightarrow> path \<Rightarrow> fs_world \<Rightarrow> bool" for sha rt where
  empty: "store_reachable sha rt w" if "fs_runs w = []" and "fs_results w = []"
| step: "store_reachable sha rt (snd (exec_op sha rt op w))" if "store_reachable sha rt w" and "op_ok op w"

text \<open>
  C2. As long as its clients do not create a run whose identifier is that of a stored run of another batch and call \<^verbatim>\<open>update_run\<close>
  only with the identifiers, the idempotency key and the fencing token of the stored run (which the store does
  not check), the files of a store that began empty stay consistent: a run file lies in the
  directory of its own identifiers, run identifiers and idempotency keys are not shared, and a stored
  result belongs to a run that is terminal with the status of the result. The other operations may be called with
  any arguments, and operations that raise count as well. The private attributes of a run
  are not part of its file.
\<close>

theorem store_reachable_ok:
  assumes "store_reachable sha rt w"
  shows "store_ok (tables w)"
  using assms
proof (induction rule: store_reachable.induct)
  case (empty w)
  then show ?case by (simp add: store_ok_def tables_def)
next
  case (step w op)
  have "tables_reach True (tables w) w"
    using store_okD(1) [of "fs_runs w" "fs_results w"] step by (simp add: tables_reach_def tables_def)
  from reach_strict_op [OF step(3) this step(2), of sha rt] step(3) show ?case
    by (rule reach_store_ok)
qed

theorem store_reachable_ok_witness:
  "store_ok (tables (snd (exec_op (\<lambda>_. []) [] (Create_Run (sample_run ''r'' QUEUED)) (sample_store []))))
   \<and> dict_keys (fs_runs (snd (exec_op (\<lambda>_. []) [] (Create_Run (sample_run ''r'' QUEUED)) (sample_store [])))) = [(''b'', ''r'')]"
proof
  have "store_reachable (\<lambda>_. []) [] (sample_store [])"
    by (rule store_reachable.empty) (simp_all add: sample_store_def)
  then have "store_reachable (\<lambda>_. []) [] (snd (exec_op (\<lambda>_. []) [] (Create_Run (sample_run ''r'' QUEUED)) (sample_store [])))"
    by (rule store_reachable.step) (simp add: op_ok_def sample_store_def)
  then show "store_ok (tables (snd (exec_op (\<lambda>_. []) [] (Create_Run (sample_run ''r'' QUEUED)) (sample_store []))))"
    by (rule store_reachable_ok)
  show "dict_keys (fs_runs (snd (exec_op (\<lambda>_. []) [] (Create_Run (sample_run ''r'' QUEUED)) (sample_store [])))) = [(''b'', ''r'')]"
    by (simp add: create_run_def put_run_def lookup_idempotent_def sample_store_def sample_run_def Let_def)
qed

text \<open>
  C3. The filesystem store refines the abstract run table. Whatever an operation does to the files,
  with any arguments and whether it returns or raises, is a sequence of steps of the table: a run is created
  where none was and under an unused idempotency key, rewritten without leaving a terminal status, claimed from the queue,
  settled with its result from running, cancelled while unfinished, or reopened at the next attempt. From a
  consistent store, and when the client creates no run under the identifier of a run of another batch and updates runs under their own identity and
  token, the steps are those of the strict table, in which no step but the creation changes an identity.
\<close>

theorem store_refines_table:
  assumes "dict_ok (fs_runs w)"
  shows "(table_step False)\<^sup>*\<^sup>* (tables w) (tables (snd (exec_op sha rt op w)))
    \<and> (store_ok (tables w) \<and> op_ok op w \<longrightarrow> (table_step True)\<^sup>*\<^sup>* (tables w) (tables (snd (exec_op sha rt op w))))"
proof
  have lax: "tables_reach False (tables w) w" using assms by (simp add: tables_reach_def)
  show "(table_step False)\<^sup>*\<^sup>* (tables w) (tables (snd (exec_op sha rt op w)))"
    using preserves_apply [OF reach_lax_op lax, of sha rt op] by (simp add: tables_reach_def)
  have strict: "tables_reach True (tables w) w" using assms by (simp add: tables_reach_def)
  show "store_ok (tables w) \<and> op_ok op w \<longrightarrow> (table_step True)\<^sup>*\<^sup>* (tables w) (tables (snd (exec_op sha rt op w)))"
    using reach_strict_op [OF _ strict, of op sha rt] by (auto simp: tables_reach_def)
qed

theorem store_refines_table_witness:
  "(table_step False)\<^sup>*\<^sup>* (tables (sample_store [])) (tables (snd (exec_op (\<lambda>_. []) [] (Create_Run (sample_run ''r'' QUEUED)) (sample_store []))))
   \<and> (table_step True)\<^sup>*\<^sup>* (tables (sample_store [])) (tables (snd (exec_op (\<lambda>_. []) [] (Create_Run (sample_run ''r'' QUEUED)) (sample_store []))))"
proof -
  let ?w = "sample_store []" and ?op = "Create_Run (sample_run ''r'' QUEUED)"
  have ok: "dict_ok (fs_runs ?w)" by (simp add: sample_store_def dict_ok_def)
  have strict: "store_ok (tables ?w) \<and> op_ok ?op ?w" by (simp add: store_ok_def tables_def op_ok_def sample_store_def)
  from store_refines_table [OF ok, of "\<lambda>_. []" "[]" ?op] strict show ?thesis by blast
qed

subsection \<open>Claims and fencing\<close>

lemma find_run_update:
  assumes "find_run rid w = Some (k, r)" and "dict_ok (fs_runs w)" and "fs_runs w' = dict_set k new (fs_runs w)"
  shows "find_run rid w' = Some (k, new)"
proof -
  have snd: "snd k = rid" and get: "dict_get (fs_runs w) k = Some r" using find_run_Some [OF assms(1,2)] by auto
  have gen: "find (\<lambda>((_, i), _). i = rid) (dict_set k new R) = Some (k, new)"
    if "find (\<lambda>((_, i), _). i = rid) R = Some (k, r)" for R :: "(run_key, task_run) dict"
    using that snd by (induction R) (auto split: if_splits prod.splits)
  show ?thesis using gen [of "fs_runs w"] assms by (simp add: find_run_def)
qed

text \<open>
  C5. A claim succeeds exactly on a queued run; it makes the run running under the claimer's
  fencing token, and until the run changes again no other claim succeeds.
\<close>

theorem claim_run_exclusive:
  assumes ok: "dict_ok (fs_runs w)" and f: "find_run rid w = Some (k, r)" and c: "claim_run rid worker w = (res, w')"
  shows "(\<exists>tok. res = Inr tok) = (tr_status r = QUEUED)
    \<and> (\<forall>tok. res = Inr tok \<longrightarrow>
         (\<exists>r'. find_run rid w' = Some (k, r') \<and> tr_status r' = RUNNING \<and> tr_fencing_token r' = ft_token tok
            \<and> tr_worker_id r' = Some worker)
         \<and> (\<exists>e. claim_run rid worker' w' = (Inl e, w') \<and> exn_class e = StaleWorkerError))"
proof (cases "tr_status r = QUEUED")
  case True
  let ?new = "r\<lparr>tr_worker_id := Some worker, tr_fencing_token := w_uuids w (w_uuid_next w), tr_status := RUNNING,
     tr_started_at := Some (int_or (tr_started_at r) (w_clock w (w_tick w))), tr_heartbeat_at := Some (w_clock w (w_tick w))\<rparr>"
  from True f c have res: "\<exists>tok. res = Inr tok \<and> ft_token tok = w_uuids w (w_uuid_next w)"
    and w': "fs_runs w' = dict_set k (persisted_run ?new) (fs_runs w)"
    by (auto simp: claim_run_def bindE_read_run bindE_transition_run put_run_def Let_def run_sm.queued_step)
  have "find_run rid w' = Some (k, persisted_run ?new)"
    using find_run_update [OF f ok w'] .
  with True res show ?thesis
    by (auto simp: claim_run_def bindE_read_run) (auto simp: persisted_run_def)
next
  case False
  with f c show ?thesis by (auto simp: claim_run_def bindE_read_run)
qed

theorem claim_run_exclusive_witness:
  "\<exists>tok w'. claim_run ''r'' ''w1'' (sample_store [sample_run ''r'' QUEUED]) = (Inr tok, w')
     \<and> (\<exists>e. claim_run ''r'' ''w2'' w' = (Inl e, w') \<and> exn_class e = StaleWorkerError)"
proof -
  let ?w = "sample_store [sample_run ''r'' QUEUED]"
  have ok: "dict_ok (fs_runs ?w)" by (simp add: sample_store_def dict_ok_def)
  have f: "find_run ''r'' ?w = Some ((''b'', ''r''), sample_run ''r'' QUEUED)"
    by (simp add: find_run_def sample_store_def run_key_of_def sample_run_def)
  obtain res w' where c: "claim_run ''r'' ''w1'' ?w = (res, w')" by (metis surj_pair)
  from claim_run_exclusive [OF ok f c, of "''w2''"] c show ?thesis by (auto simp: sample_run_def)
qed

lemma write_result_effect:
  assumes ok: "dict_ok (fs_runs w)" and f: "find_run rid w = Some (k, r)"
    and wr: "write_result sha rt rid result tok w = (Inr (), w')"
  shows "tr_status r = RUNNING \<and> tr_fencing_token r = ft_token tok \<and> is_terminal_run_status (res_status result)
    \<and> (\<exists>r' p. find_run rid w' = Some (k, r') \<and> tr_status r' = res_status result \<and> tr_fencing_token r' = []
         \<and> fs_runs w' = dict_set k r' (fs_runs w) \<and> fs_results w' = dict_set (run_key_of r) p (fs_results w)
         \<and> res_status p = res_status result)"
proof -
  from wr f have cur: "tr_status r = RUNNING" "tr_fencing_token r = ft_token tok"
    and val: "is_valid_run_transition RUNNING (res_status result)"
    by (auto simp: write_result_def bindE_read_run bindE_transition_run ensure_current_token_def split: if_splits)
  from wr f cur val obtain new p where
    R: "fs_runs w' = dict_set k (persisted_run new) (fs_runs w)"
    and S: "fs_results w' = dict_set (run_key_of r) p (fs_results w)"
    and new: "tr_status new = res_status result" "tr_fencing_token new = []"
    and p: "res_status p = res_status result"
    by (auto simp: write_result_def bindE_read_run bindE_transition_run ensure_current_token_def Let_def or_now_def
        put_result_def put_run_def thenE_Inr_iff run_key_of_def dest!: persisted_payload_status
        split: option.splits if_splits sum.splits prod.splits)
  have f': "find_run rid w' = Some (k, persisted_run new)" using find_run_update [OF f ok R] .
  have tmn: "is_terminal_run_status (res_status result)" using val by (simp add: run_sm.running_step)
  have "find_run rid w' = Some (k, persisted_run new) \<and> tr_status (persisted_run new) = res_status result
      \<and> tr_fencing_token (persisted_run new) = [] \<and> fs_runs w' = dict_set k (persisted_run new) (fs_runs w)
      \<and> fs_results w' = dict_set (run_key_of r) p (fs_results w) \<and> res_status p = res_status result"
    using f' new R S p by simp
  with cur tmn show ?thesis by blast
qed

text \<open>
  C4. A worker's result is accepted only while the run is running under the worker's token: a
  write that succeeds settles the run with the status of the result and stores the result, and
  from then on a write with the same token is refused as stale.
\<close>

theorem write_result_fenced:
  assumes ok: "dict_ok (fs_runs w)" and f: "find_run rid w = Some (k, r)"
    and wr: "write_result sha rt rid result tok w = (Inr (), w')"
  shows "tr_status r = RUNNING \<and> tr_fencing_token r = ft_token tok
    \<and> (\<exists>r' p. find_run rid w' = Some (k, r') \<and> tr_status r' = res_status result \<and> is_terminal_run_status (tr_status r')
         \<and> tr_fencing_token r' = [] \<and> dict_get (fs_results w') (run_key_of r) = Some p \<and> res_status p = res_status result)
    \<and> (\<exists>e. write_result sha rt rid result' tok w' = (Inl e, w') \<and> exn_class e = StaleWorkerError)"
proof -
  from write_result_effect [OF ok f wr] obtain r' p where
    cur: "tr_status r = RUNNING" "tr_fencing_token r = ft_token tok" and tmn: "is_terminal_run_status (res_status result)"
    and f': "find_run rid w' = Some (k, r')" and r': "tr_status r' = res_status result" "tr_fencing_token r' = []"
    and S: "fs_results w' = dict_set (run_key_of r) p (fs_results w)" and p: "res_status p = res_status result"
    by (elim conjE exE)
  have "tr_status r' \<noteq> RUNNING" using r' tmn run_sm.live [of RUNNING] by auto
  then have "\<exists>e. write_result sha rt rid result' tok w' = (Inl e, w') \<and> exn_class e = StaleWorkerError"
    using f' by (auto simp: write_result_def bindE_read_run ensure_current_token_def)
  with cur f' r' tmn S p show ?thesis by (auto simp: dict_get_set)
qed

theorem write_result_fenced_witness:
  "\<exists>w'. write_result (\<lambda>_. []) [] ''r'' (sample_result ''r'' COMPLETED) \<lparr>ft_run_id = ''r'', ft_token = ''tk'', ft_issued_at = 0, ft_expires_at = None\<rparr>
       (sample_store [(sample_run ''r'' RUNNING)\<lparr>tr_fencing_token := ''tk''\<rparr>]) = (Inr (), w')
     \<and> (\<exists>e. write_result (\<lambda>_. []) [] ''r'' (sample_result ''r'' FAILED) \<lparr>ft_run_id = ''r'', ft_token = ''tk'', ft_issued_at = 0, ft_expires_at = None\<rparr> w'
            = (Inl e, w') \<and> exn_class e = StaleWorkerError)"
proof -
  let ?r = "(sample_run ''r'' RUNNING)\<lparr>tr_fencing_token := ''tk''\<rparr>"
  let ?w = "sample_store [?r]"
  let ?tok = "\<lparr>ft_run_id = ''r'', ft_token = ''tk'', ft_issued_at = 0, ft_expires_at = None\<rparr>"
  have ok: "dict_ok (fs_runs ?w)" by (simp add: sample_store_def dict_ok_def)
  have f: "find_run ''r'' ?w = Some ((''b'', ''r''), ?r)"
    by (simp add: find_run_def sample_store_def run_key_of_def sample_run_def)
  have "\<exists>w'. write_result (\<lambda>_. []) [] ''r'' (sample_result ''r'' COMPLETED) ?tok ?w = (Inr (), w')"
    using f by (simp add: write_result_def bindE_read_run bindE_transition_run ensure_current_token_def or_now_def
        put_result_def persisted_result_payload_def put_run_def sample_result_def sample_run_def run_tables Let_def)
  then obtain w' where wr: "write_result (\<lambda>_. []) [] ''r'' (sample_result ''r'' COMPLETED) ?tok ?w = (Inr (), w')" ..
  with write_result_fenced [OF ok f wr, of "sample_result ''r'' FAILED"] show ?thesis by blast
qed

end
