(* ===== verification/Sandbox_Leases.thy ===== *)
theory Sandbox_Leases
  imports File_Store
begin

section \<open>Sandbox lease managers\<close>

text \<open>
  \<^verbatim>\<open>sandbox/lease_manager.py\<close>: the protocol as a record of operations, the in-memory manager as an
  extension of the runtime world, and the manager that talks to the sandbox service of the backend,
  whose calls are the parameters of \<open>sandbox_service\<close>. Times are in milliseconds. A caller that has
  to wait for a permit is modelled in the state in which its wait ends: either a permit is free
  there, or the wait timed out. The contract that the run coordinator relies on is the locale
  \<open>lease_contract\<close>, interpreted on the in-memory manager.
\<close>

subsection \<open>The protocol\<close>

record 'w lease_manager =
  lm_agent_instance_id :: string
  lm_reserve :: "sandbox_requirement \<Rightarrow> string \<Rightarrow> ('w, reservation_token) io"
  lm_acquire :: "reservation_token \<Rightarrow> ('w, sandbox_lease_ref) io"
  lm_reset :: "sandbox_lease_ref \<Rightarrow> ('w, unit) io"
  lm_heartbeat :: "sandbox_lease_ref \<Rightarrow> ('w, unit) io"
  lm_release :: "sandbox_lease_ref \<Rightarrow> string \<Rightarrow> ('w, unit) io"
  lm_available_count :: "(string \<Rightarrow> ('w, int) io) option"

subsection \<open>The in-memory manager\<close>

record memory_leases =
  ml_capacities :: "(string, int) dict"
  ml_semaphores :: "(string, int) dict"
  ml_leases :: "(string, string) dict"
  ml_reset_count :: int

record lease_world = fs_world +
  lw_leases :: memory_leases

definition mem_init :: "(string, int) dict \<Rightarrow> memory_leases" where
  "mem_init capacities =
     \<lparr>ml_capacities = fold (\<lambda>(t, c). dict_set (normalize_sandbox_type t) c) capacities [],
      ml_semaphores = [], ml_leases = [], ml_reset_count = 0\<rparr>"

definition mem_capacity :: "string \<Rightarrow> memory_leases \<Rightarrow> int" where
  "mem_capacity t m = (case dict_get (ml_capacities m) t of None \<Rightarrow> 0 | Some c \<Rightarrow> c)"

text \<open>\<^verbatim>\<open>_semaphore\<close>: the permits left of a type; \<^verbatim>\<open>asyncio.Semaphore\<close> refuses a negative start value.\<close>

definition mem_semaphore :: "string \<Rightarrow> ('z lease_world_scheme, int) io" where
  "mem_semaphore t = (\<lambda>w. let m = lw_leases w in
     case dict_get (ml_semaphores m) t of
       Some free \<Rightarrow> (Inr free, w)
     | None \<Rightarrow>
         (case dict_get (ml_capacities m) t of
            None \<Rightarrow> (Inl (Exn KeyError t), w)
          | Some c \<Rightarrow>
              if c < 0 then (Inl (Exn ValueError ''Semaphore initial value must be >= 0''), w)
              else (Inr c, w\<lparr>lw_leases := m\<lparr>ml_semaphores := dict_set t c (ml_semaphores m)\<rparr>\<rparr>)))"

definition set_permits :: "string \<Rightarrow> int \<Rightarrow> ('z lease_world_scheme, unit) io" where
  "set_permits t n = modifyE (\<lambda>w. w\<lparr>lw_leases := (lw_leases w)\<lparr>ml_semaphores := dict_set t n (ml_semaphores (lw_leases w))\<rparr>\<rparr>)"

definition mem_reserve :: "sandbox_requirement \<Rightarrow> string \<Rightarrow> ('z lease_world_scheme, reservation_token) io" where
  "mem_reserve req run_id =
     bindE (getE lw_leases) (\<lambda>m.
       if sr_count req \<noteq> 1
       then raiseE (Exn SandboxNoCapacityError ''in-memory lease manager supports one sandbox per run'')
       else if mem_capacity (sr_type req) m \<le> 0
       then raiseE (Exn SandboxNoCapacityError (''No '' @ sr_type req @ '' sandbox capacity configured for run '' @ run_id))
       else
         thenE (mem_semaphore (sr_type req))
        (bindE uuid4_hex (\<lambda>hex.
         bindE now_ms (\<lambda>now.
           retE (validate_reservation_token
             \<lparr>rt_reservation_id = ''reservation-'' @ take 12 hex, rt_run_id = run_id, rt_type = sr_type req,
              rt_expires_at = now + 30000\<rparr>)))))"

definition mem_lease_type :: "string \<Rightarrow> string" where
  "mem_lease_type t =
     (if t \<in> set SANDBOX_TYPES then t
      else case eligible_types_for_os t of [] \<Rightarrow> t | best # _ \<Rightarrow> best)"

definition mem_acquire :: "reservation_token \<Rightarrow> ('z lease_world_scheme, sandbox_lease_ref) io" where
  "mem_acquire token =
     (let t = rt_type token in
      bindE (mem_semaphore t) (\<lambda>free.
        if free \<le> 0
        then raiseE (Exn SandboxNoCapacityError (''Timed out waiting for '' @ t @ '' sandbox capacity''))
        else
          thenE (set_permits t (free - 1))
         (bindE now_ms (\<lambda>now.
          bindE uuid4_hex (\<lambda>hex.
            let lease_type = mem_lease_type t;
                lease = validate_sandbox_lease_ref
                  \<lparr>sl_sandbox_id = lease_type @ '':'' @ take 8 hex, sl_type = lease_type,
                   sl_os = (case dict_get TYPE_OS lease_type of Some os \<Rightarrow> os | None \<Rightarrow> t),
                   sl_endpoint = ''memory://'' @ lease_type @ ''/'' @ rt_run_id token,
                   sl_provider_base_url = ''memory://'' @ lease_type, sl_device_id = lease_type @ ''-'' @ rt_run_id token,
                   sl_vnc_url = [], sl_acquired_at = now, sl_expires_at = Some (now + 30 * 60 * 1000)\<rparr>
            in thenE (modifyE (\<lambda>w. w\<lparr>lw_leases := (lw_leases w)
                        \<lparr>ml_leases := dict_set (sl_sandbox_id lease) t (ml_leases (lw_leases w))\<rparr>\<rparr>))
                 (retE lease))))))"

definition mem_reset :: "sandbox_lease_ref \<Rightarrow> ('z lease_world_scheme, unit) io" where
  "mem_reset lease = modifyE (\<lambda>w. w\<lparr>lw_leases := (lw_leases w)\<lparr>ml_reset_count := ml_reset_count (lw_leases w) + 1\<rparr>\<rparr>)"

definition mem_heartbeat :: "sandbox_lease_ref \<Rightarrow> ('z lease_world_scheme, unit) io" where
  "mem_heartbeat lease = retE ()"

definition mem_release :: "sandbox_lease_ref \<Rightarrow> string \<Rightarrow> ('z lease_world_scheme, unit) io" where
  "mem_release lease outcome =
     bindE (getE (\<lambda>w. dict_get (ml_leases (lw_leases w)) (sl_sandbox_id lease))) (\<lambda>sandbox_type.
       case sandbox_type of
         None \<Rightarrow> retE ()
       | Some t \<Rightarrow>
           thenE (modifyE (\<lambda>w. w\<lparr>lw_leases := (lw_leases w)
                    \<lparr>ml_leases := dict_pop (sl_sandbox_id lease) (ml_leases (lw_leases w))\<rparr>\<rparr>))
             (if outcome \<noteq> ''crashed'' then bindE (mem_semaphore t) (\<lambda>free. set_permits t (free + 1)) else retE ()))"

definition mem_available_count :: "string \<Rightarrow> ('z lease_world_scheme, int) io" where
  "mem_available_count t =
     bindE (getE lw_leases) (\<lambda>m. if mem_capacity t m \<le> 0 then retE 0 else mem_semaphore t)"

definition memory_lease_manager :: "'z lease_world_scheme lease_manager" where
  "memory_lease_manager =
     \<lparr>lm_agent_instance_id = [], lm_reserve = mem_reserve, lm_acquire = mem_acquire, lm_reset = mem_reset,
      lm_heartbeat = mem_heartbeat, lm_release = mem_release, lm_available_count = Some mem_available_count\<rparr>"

subsection \<open>The manager of the sandbox service\<close>

record instance_sandbox =
  is_sandbox_id :: string
  is_status :: string

record apply_result =
  ar_applied :: bool
  ar_message :: string
  ar_applied_sandbox_id :: string
  ar_provider_type :: string
  ar_os :: string
  ar_endpoint :: string
  ar_provider_base_url :: string
  ar_device_id :: string
  ar_vnc_url :: string

record 'w sandbox_service =
  sv_get_instance_sandboxes :: "string \<Rightarrow> string \<Rightarrow> ('w, instance_sandbox list) io"
  sv_apply_sandbox :: "string \<Rightarrow> string \<Rightarrow> ('w, apply_result) io"
  sv_release_sandbox :: "string \<Rightarrow> string \<Rightarrow> ('w, unit) io"
  sv_reset_sandbox :: "string \<Rightarrow> string \<Rightarrow> ('w, unit) io"
  sv_monotonic :: "('w, int) io"
  sv_sleep :: "('w, unit) io"

record 'w reverse_manager =
  rm_agent_instance_id :: string
  rm_service :: "'w sandbox_service"
  rm_acquire_timeout :: int

definition READY_STATUSES :: "string list" where
  "READY_STATUSES = [''assigned'']"

definition FLEET_STATUSES :: "string list" where
  "FLEET_STATUSES = [''assigned'', ''in_use'']"

definition sandbox_status :: "instance_sandbox \<Rightarrow> string" where
  "sandbox_status s = py_lower (py_strip (is_status s))"

definition instance_sandboxes :: "'w reverse_manager \<Rightarrow> string \<Rightarrow> ('w, instance_sandbox list) io" where
  "instance_sandboxes rm t = sv_get_instance_sandboxes (rm_service rm) (rm_agent_instance_id rm) t"

definition reserve_round :: "'w reverse_manager \<Rightarrow> sandbox_requirement \<Rightarrow> string \<Rightarrow> int \<Rightarrow> ('w, bool) io" where
  "reserve_round rm req run_id deadline =
     bindE (instance_sandboxes rm (sr_type req)) (\<lambda>snapshot.
       let ready = filter (\<lambda>s. sandbox_status s \<in> set READY_STATUSES) snapshot;
           fleet = filter (\<lambda>s. sandbox_status s \<in> set FLEET_STATUSES) snapshot
       in if int (length ready) \<ge> sr_count req then retE False
          else if fleet = [] \<and> ready = []
          then raiseE (Exn SandboxNoCapacityError
                 (''No '' @ sr_type req @ '' sandbox is assigned to this agent instance for run '' @ run_id))
          else
            bindE (sv_monotonic (rm_service rm)) (\<lambda>now.
              if now \<ge> deadline
              then raiseE (Exn SandboxNoCapacityError (''No available '' @ sr_type req @ '' sandbox capacity for run '' @ run_id))
              else thenE (sv_sleep (rm_service rm)) (retE True)))"

definition reverse_reserve ::
    "'z rt_world_scheme reverse_manager \<Rightarrow> sandbox_requirement \<Rightarrow> string \<Rightarrow> 'z rt_world_scheme
       \<Rightarrow> (reservation_token result \<times> 'z rt_world_scheme) option" where
  "reverse_reserve rm req run_id w =
     (case sv_monotonic (rm_service rm) w of
        (Inl e, w1) \<Rightarrow> Some (Inl e, w1)
      | (Inr start, w1) \<Rightarrow>
          (case whileE (reserve_round rm req run_id (start + rm_acquire_timeout rm)) w1 of
             None \<Rightarrow> None
           | Some (Inl e, w2) \<Rightarrow> Some (Inl e, w2)
           | Some (Inr _, w2) \<Rightarrow>
               Some (bindE uuid4_hex (\<lambda>hex. bindE now_ms (\<lambda>now.
                 retE (validate_reservation_token
                   \<lparr>rt_reservation_id = ''reservation-'' @ take 12 hex, rt_run_id = run_id, rt_type = sr_type req,
                    rt_expires_at = now + rm_acquire_timeout rm\<rparr>))) w2)))"

text \<open>The loop of \<^verbatim>\<open>acquire\<close> keeps the last answer of the service beside the world.\<close>

definition apply_round ::
    "'z rt_world_scheme reverse_manager \<Rightarrow> reservation_token \<Rightarrow> (apply_result option \<times> 'z rt_world_scheme, bool) io" where
  "apply_round rm token = (\<lambda>(_, w).
     case sv_apply_sandbox (rm_service rm) (rm_agent_instance_id rm) (rt_type token) w of
       (Inl e, w1) \<Rightarrow> (Inl e, (None, w1))
     | (Inr result, w1) \<Rightarrow>
         if ar_applied result then (Inr False, (Some result, w1))
         else
           let last_message = str_or (ar_message result) (''No '' @ rt_type token @ '' sandbox could be acquired'') in
           (case now_ms w1 of
              (Inl e, w2) \<Rightarrow> (Inl e, (None, w2))
            | (Inr now, w2) \<Rightarrow>
                if now \<ge> rt_expires_at token then (Inl (Exn SandboxNoCapacityError last_message), (None, w2))
                else (case sv_sleep (rm_service rm) w2 of
                        (Inl e, w3) \<Rightarrow> (Inl e, (None, w3))
                      | (Inr _, w3) \<Rightarrow> (Inr True, (None, w3)))))"

definition applied_lease_type :: "apply_result \<Rightarrow> string option" where
  "applied_lease_type result =
     (let provider = py_strip (ar_provider_type result)
      in if provider \<noteq> [] then Some provider else lease_type_from_sandbox_id (ar_applied_sandbox_id result))"

definition supplied_os :: "apply_result \<Rightarrow> string" where
  "supplied_os result =
     (let os = py_strip (ar_os result);
          t = (case applied_lease_type result of None \<Rightarrow> [] | Some t \<Rightarrow> t)
      in if os \<noteq> [] then os else case dict_get TYPE_OS t of None \<Rightarrow> [] | Some v \<Rightarrow> v)"

text \<open>\<^verbatim>\<open>reason\<close>: why an applied sandbox cannot be used, or the empty string.\<close>

definition reject_reason :: "(string \<Rightarrow> string) \<Rightarrow> reservation_token \<Rightarrow> apply_result \<Rightarrow> string" where
  "reject_reason repr token result =
     (case applied_lease_type result of
        None \<Rightarrow> ''backend applied an unidentifiable sandbox id '' @ repr (ar_applied_sandbox_id result) @ '' for a ''
                 @ rt_type token @ '' reservation''
      | Some t \<Rightarrow>
          if rt_type token \<notin> set SANDBOX_TYPES \<and> supplied_os result \<noteq> [] \<and> supplied_os result \<noteq> rt_type token
          then ''reserved a '' @ rt_type token @ '' sandbox but the backend applied '' @ repr (ar_applied_sandbox_id result)
               @ '', which is '' @ t @ '' ('' @ supplied_os result @ '')''
          else [])"

definition accept_applied ::
    "(string \<Rightarrow> string) \<Rightarrow> 'z rt_world_scheme reverse_manager \<Rightarrow> reservation_token \<Rightarrow> apply_result
       \<Rightarrow> ('z rt_world_scheme, sandbox_lease_ref) io" where
  "accept_applied repr rm token result =
     bindE now_ms (\<lambda>now.
       let reason = reject_reason repr token result in
       if reason \<noteq> []
       then thenE (suppressE (sv_release_sandbox (rm_service rm) (rm_agent_instance_id rm) (ar_applied_sandbox_id result)))
              (raiseE (Exn SandboxUnhealthyError reason))
       else retE (validate_sandbox_lease_ref
              \<lparr>sl_sandbox_id = ar_applied_sandbox_id result, sl_type = the (applied_lease_type result),
               sl_os = str_or (supplied_os result) (rt_type token), sl_endpoint = ar_endpoint result,
               sl_provider_base_url = ar_provider_base_url result, sl_device_id = ar_device_id result,
               sl_vnc_url = ar_vnc_url result, sl_acquired_at = now, sl_expires_at = Some (now + 30 * 60 * 1000)\<rparr>))"

definition reverse_acquire ::
    "(string \<Rightarrow> string) \<Rightarrow> 'z rt_world_scheme reverse_manager \<Rightarrow> reservation_token \<Rightarrow> 'z rt_world_scheme
       \<Rightarrow> (sandbox_lease_ref result \<times> 'z rt_world_scheme) option" where
  "reverse_acquire repr rm token w =
     (case whileE (apply_round rm token) (None, w) of
        None \<Rightarrow> None
      | Some (Inl e, (_, w1)) \<Rightarrow> Some (Inl e, w1)
      | Some (Inr _, (result, w1)) \<Rightarrow> Some (accept_applied repr rm token (the result) w1))"

definition reverse_reset :: "'w reverse_manager \<Rightarrow> sandbox_lease_ref \<Rightarrow> ('w, unit) io" where
  "reverse_reset rm lease =
     catch_Exception (sv_reset_sandbox (rm_service rm) (rm_agent_instance_id rm) (sl_sandbox_id lease))
       (\<lambda>e. raiseE (Exn SandboxUnhealthyError (''Failed to reset sandbox '' @ sl_sandbox_id lease @ '': '' @ exn_message e)))"

definition reverse_release :: "'w reverse_manager \<Rightarrow> sandbox_lease_ref \<Rightarrow> string \<Rightarrow> ('w, unit) io" where
  "reverse_release rm lease outcome =
     (if outcome \<noteq> ''crashed'' then sv_release_sandbox (rm_service rm) (rm_agent_instance_id rm) (sl_sandbox_id lease) else retE ())"

definition count_status_in :: "string list \<Rightarrow> instance_sandbox list \<Rightarrow> int" where
  "count_status_in statuses snapshot = int (length (filter (\<lambda>s. sandbox_status s \<in> set statuses) snapshot))"

definition reverse_available_count :: "'w reverse_manager \<Rightarrow> string \<Rightarrow> ('w, int) io" where
  "reverse_available_count rm t = bindE (instance_sandboxes rm t) (\<lambda>snapshot. retE (count_status_in [''assigned''] snapshot))"

definition reverse_fleet_count :: "'w reverse_manager \<Rightarrow> string \<Rightarrow> ('w, int) io" where
  "reverse_fleet_count rm t = bindE (instance_sandboxes rm t) (\<lambda>snapshot. retE (count_status_in FLEET_STATUSES snapshot))"

subsection \<open>Permits and leases in memory\<close>

definition outstanding :: "string \<Rightarrow> memory_leases \<Rightarrow> int" where
  "outstanding t m = int (count_list (dict_values (ml_leases m)) t)"

definition mem_lane :: "memory_leases \<Rightarrow> string \<Rightarrow> bool" where
  "mem_lane m t = (case dict_get (ml_semaphores m) t of
      None \<Rightarrow> outstanding t m = 0
    | Some free \<Rightarrow> 0 \<le> free \<and> free + outstanding t m \<le> mem_capacity t m)"

definition mem_ok :: "memory_leases \<Rightarrow> bool" where
  "mem_ok m \<longleftrightarrow> dict_ok (ml_leases m) \<and> (\<forall>t. mem_lane m t)"

lemma count_values_update:
  "count_list (dict_values (dict_set k v d)) x \<le> count_list (dict_values d) x + (if v = x then 1 else 0)"
  by (induction d) auto

lemma count_values_pop:
  "dict_ok d \<Longrightarrow> dict_get d k = Some v \<Longrightarrow>
     count_list (dict_values (dict_pop k d)) x + (if v = x then 1 else 0) = count_list (dict_values d) x"
proof (induction d)
  case (Cons p d)
  obtain k' v' where p: "p = (k', v')" by (cases p)
  show ?case
  proof (cases "k' = k")
    case True
    then have "dict_pop k d = d" using Cons.prems(1) p by (simp add: dict_ok_def delete_id)
    with True Cons.prems p show ?thesis by simp
  next
    case False
    with Cons p have "count_list (dict_values (dict_pop k d)) x + (if v = x then 1 else 0) = count_list (dict_values d) x"
      by (simp add: dict_ok_def)
    with False p show ?thesis by auto
  qed
qed simp

lemma mem_ok_lane: "mem_ok m \<Longrightarrow> mem_lane m t"
  by (simp add: mem_ok_def)

lemma mem_fields [simp]:
  "outstanding t (m\<lparr>ml_semaphores := sem\<rparr>) = outstanding t m"
  "outstanding t (m\<lparr>ml_reset_count := n\<rparr>) = outstanding t m"
  "mem_capacity t (m\<lparr>ml_semaphores := sem\<rparr>) = mem_capacity t m"
  "mem_capacity t (m\<lparr>ml_leases := ls\<rparr>) = mem_capacity t m"
  "mem_capacity t (m\<lparr>ml_reset_count := n\<rparr>) = mem_capacity t m"
  by (simp_all add: outstanding_def mem_capacity_def)

lemma mem_ok_set_semaphore:
  assumes "mem_ok m" and "0 \<le> n" and "n + outstanding t m \<le> mem_capacity t m"
  shows "mem_ok (m\<lparr>ml_semaphores := dict_set t n (ml_semaphores m)\<rparr>)"
proof -
  have "mem_lane (m\<lparr>ml_semaphores := dict_set t n (ml_semaphores m)\<rparr>) t'" for t'
    using mem_ok_lane [OF assms(1), of t'] assms(2,3)
    by (simp add: mem_lane_def dict_get_set split: option.splits)
  then show ?thesis using assms(1) by (simp add: mem_ok_def)
qed

abbreviation lease_inv :: "'z lease_world_scheme \<Rightarrow> bool" where
  "lease_inv w \<equiv> mem_ok (lw_leases w)"

lemma mem_semaphore_ok:
  assumes "lease_inv w" and "mem_semaphore t w = (r, w')"
  shows "lease_inv w' \<and> ml_leases (lw_leases w') = ml_leases (lw_leases w)
    \<and> ml_capacities (lw_leases w') = ml_capacities (lw_leases w)
    \<and> (\<forall>free. r = Inr free \<longrightarrow> dict_get (ml_semaphores (lw_leases w')) t = Some free)"
proof (cases "dict_get (ml_semaphores (lw_leases w)) t")
  case None
  let ?m = "lw_leases w"
  show ?thesis
  proof (cases "\<exists>c. dict_get (ml_capacities ?m) t = Some c \<and> 0 \<le> c")
    case True
    then obtain c where c: "dict_get (ml_capacities ?m) t = Some c" "0 \<le> c" by blast
    from assms(2) None c have e: "r = Inr c" "w' = w\<lparr>lw_leases := ?m\<lparr>ml_semaphores := dict_set t c (ml_semaphores ?m)\<rparr>\<rparr>"
      by (auto simp: mem_semaphore_def Let_def)
    have "c + outstanding t ?m \<le> mem_capacity t ?m"
      using mem_ok_lane [OF assms(1), of t] None c by (simp add: mem_lane_def mem_capacity_def)
    from mem_ok_set_semaphore [OF assms(1) c(2) this] e show ?thesis by (simp add: dict_get_set)
  next
    case False
    with assms None show ?thesis by (auto simp: mem_semaphore_def Let_def split: option.splits if_splits)
  qed
next
  case (Some free)
  with assms show ?thesis by (auto simp: mem_semaphore_def Let_def)
qed

lemma mem_semaphore_preserves: "preserves lease_inv (mem_semaphore t)"
proof (rule preservesI)
  fix w :: "'z lease_world_scheme"
  assume "lease_inv w"
  from mem_semaphore_ok [OF this surjective_pairing] show "lease_inv (snd (mem_semaphore t w))" by blast
qed

lemma lease_world_ops: "preserves lease_inv now_ms" "preserves lease_inv uuid4_hex" "preserves lease_inv (publish e)"
  by (simp_all add: preserves_def)

lemma mem_reserve_preserves: "preserves lease_inv (mem_reserve req rid)"
  by (auto simp: mem_reserve_def intro!: preserves_intros mem_semaphore_preserves lease_world_ops)

lemma mem_other_preserves:
  "preserves lease_inv (mem_reset l)" "preserves lease_inv (mem_heartbeat l)" "preserves lease_inv (mem_available_count t)"
proof -
  have "mem_ok (m\<lparr>ml_reset_count := n\<rparr>) = mem_ok m" for m n
    by (simp add: mem_ok_def mem_lane_def cong: option.case_cong)
  then show "preserves lease_inv (mem_reset l)" "preserves lease_inv (mem_heartbeat l)" "preserves lease_inv (mem_available_count t)"
    by (auto simp: mem_reset_def mem_heartbeat_def mem_available_count_def intro!: preserves_intros mem_semaphore_preserves)
qed

lemma mem_ok_take:
  assumes ok: "mem_ok m" and s: "dict_get (ml_semaphores m) t = Some free" and f: "0 < free"
  shows "mem_ok (m\<lparr>ml_semaphores := dict_set t (free - 1) (ml_semaphores m), ml_leases := dict_set i t (ml_leases m)\<rparr>)"
    (is "mem_ok ?m")
proof -
  have out: "outstanding t' ?m \<le> outstanding t' m + (if t = t' then 1 else 0)" for t'
    using count_values_update [of i t "ml_leases m" t'] by (cases "t = t'") (simp_all add: outstanding_def)
  have pos: "0 \<le> outstanding t' ?m" for t' by (simp add: outstanding_def)
  have "mem_lane ?m t'" for t'
    using mem_ok_lane [OF ok, of t'] out [of t'] pos [of t'] s f
    by (simp add: mem_lane_def dict_get_set mem_capacity_def split: option.splits if_splits)
  moreover have "dict_ok (ml_leases ?m)" using ok by (simp add: mem_ok_def)
  ultimately show ?thesis by (simp add: mem_ok_def)
qed

lemma mem_acquire_effect:
  assumes inv: "lease_inv w" and a: "mem_acquire tok w = (r, w')"
  shows "lease_inv w' \<and>
    (case r of
       Inl e \<Rightarrow> ml_leases (lw_leases w') = ml_leases (lw_leases w)
     | Inr l \<Rightarrow> ml_leases (lw_leases w') = dict_set (sl_sandbox_id l) (rt_type tok) (ml_leases (lw_leases w)))"
proof -
  obtain p w1 where p: "mem_semaphore (rt_type tok) w = (p, w1)" by (cases "mem_semaphore (rt_type tok) w")
  note sem = mem_semaphore_ok [OF inv p]
  show ?thesis
  proof (cases p)
    case (Inl e)
    with a p sem show ?thesis by (auto simp: mem_acquire_def Let_def)
  next
    case (Inr free)
    with sem have g: "dict_get (ml_semaphores (lw_leases w1)) (rt_type tok) = Some free" by blast
    show ?thesis
    proof (cases "0 < free")
      case False
      with a p Inr sem show ?thesis by (auto simp: mem_acquire_def Let_def)
    next
      case True
      note took = mem_ok_take [OF sem [THEN conjunct1] g True, unfolded sem [THEN conjunct2, THEN conjunct1]]
      from a p Inr True sem show ?thesis
        by (auto simp: mem_acquire_def Let_def set_permits_def validate_sandbox_lease_ref_def took)
    qed
  qed
qed

lemma mem_release_effect:
  assumes inv: "lease_inv w" and a: "mem_release l outcome w = (r, w')"
  shows "r = Inr () \<and> lease_inv w' \<and> ml_leases (lw_leases w') = dict_pop (sl_sandbox_id l) (ml_leases (lw_leases w))"
proof (cases "dict_get (ml_leases (lw_leases w)) (sl_sandbox_id l)")
  case None
  then have "dict_pop (sl_sandbox_id l) (ml_leases (lw_leases w)) = ml_leases (lw_leases w)"
    by (simp add: delete_id dict_get_None_iff)
  with None a inv show ?thesis by (simp add: mem_release_def)
next
  case (Some t)
  let ?m = "lw_leases w" and ?i = "sl_sandbox_id l"
  let ?m' = "?m\<lparr>ml_leases := dict_pop ?i (ml_leases ?m)\<rparr>"
  have dk: "dict_ok (ml_leases ?m)" using inv by (simp add: mem_ok_def)
  have out: "outstanding t' ?m' + (if t = t' then 1 else 0) = outstanding t' ?m" for t'
    using count_values_pop [OF dk Some, of t'] by (auto simp: outstanding_def split: if_splits)
  have pos: "0 \<le> outstanding t' ?m'" for t' by (simp add: outstanding_def)
  have "mem_lane ?m' t'" for t'
    using mem_ok_lane [OF inv, of t'] out [of t'] pos [of t'] by (simp add: mem_lane_def split: option.splits if_splits)
  then have ok': "mem_ok ?m'" using dk by (simp add: mem_ok_def dict_ok_def distinct_delete)
  obtain free where s: "dict_get (ml_semaphores ?m) t = Some free"
    using mem_ok_lane [OF inv, of t] out [of t] pos [of t] by (cases "dict_get (ml_semaphores ?m) t") (auto simp: mem_lane_def)
  have le: "0 \<le> free + 1 \<and> free + 1 + outstanding t ?m' \<le> mem_capacity t ?m'"
    using mem_ok_lane [OF inv, of t] out [of t] s by (simp add: mem_lane_def)
  note given = mem_ok_set_semaphore [OF ok' le [THEN conjunct1] le [THEN conjunct2]]
  from a Some s ok' given show ?thesis
    by (auto simp: mem_release_def mem_semaphore_def set_permits_def Let_def split: if_splits)
qed

lemma mem_lease_preserves: "preserves lease_inv (mem_acquire tok)" "preserves lease_inv (mem_release l outcome)"
proof -
  show "preserves lease_inv (mem_acquire tok)"
    by (rule preservesI, drule mem_acquire_effect [OF _ surjective_pairing]) blast
  show "preserves lease_inv (mem_release l outcome)"
    by (rule preservesI, drule mem_release_effect [OF _ surjective_pairing]) blast
qed

text \<open>Everything the manager can be asked to do, in any order.\<close>

inductive leases_reachable :: "lease_world \<Rightarrow> lease_world \<Rightarrow> bool" for w0 where
  leases_start: "leases_reachable w0 w0"
| leases_reserve: "leases_reachable w0 w \<Longrightarrow> leases_reachable w0 (snd (mem_reserve req rid w))"
| leases_acquire: "leases_reachable w0 w \<Longrightarrow> leases_reachable w0 (snd (mem_acquire tok w))"
| leases_reset: "leases_reachable w0 w \<Longrightarrow> leases_reachable w0 (snd (mem_reset l w))"
| leases_release: "leases_reachable w0 w \<Longrightarrow> leases_reachable w0 (snd (mem_release l outcome w))"
| leases_count: "leases_reachable w0 w \<Longrightarrow> leases_reachable w0 (snd (mem_available_count t w))"

lemma mem_init_ok: "mem_ok (mem_init caps)"
  by (simp add: mem_ok_def mem_lane_def mem_init_def outstanding_def dict_ok_def)

lemma leases_reachable_inv: "leases_reachable w0 w \<Longrightarrow> lease_inv w0 \<Longrightarrow> lease_inv w"
  by (induction rule: leases_reachable.induct)
    (auto intro: preserves_apply mem_reserve_preserves mem_other_preserves mem_lease_preserves)

text \<open>
  The in-memory manager never hands out more sandboxes of a type than it has: from a fresh
  manager, after any sequence of reservations, acquisitions, resets, releases and queries, the
  outstanding leases of a type and its free permits together stay within the type's capacity, an
  acquisition without a free permit is refused, and releasing a lease never fails.
\<close>

theorem leases_within_capacity:
  assumes "leases_reachable w0 w" and "lw_leases w0 = mem_init caps"
  shows "(\<forall>free. dict_get (ml_semaphores (lw_leases w)) t = Some free \<longrightarrow>
            0 \<le> free \<and> free + outstanding t (lw_leases w) \<le> mem_capacity t (lw_leases w)
            \<and> (free = 0 \<longrightarrow> (\<exists>e w'. mem_acquire \<lparr>rt_reservation_id = i, rt_run_id = rid, rt_type = t, rt_expires_at = x\<rparr> w
                 = (Inl e, w') \<and> exn_class e = SandboxNoCapacityError)))
    \<and> (\<exists>w'. mem_release l outcome w = (Inr (), w') \<and> sl_sandbox_id l \<notin> set (dict_keys (ml_leases (lw_leases w'))))"
proof -
  have inv: "lease_inv w" using leases_reachable_inv [OF assms(1)] assms(2) mem_init_ok by simp
  obtain r w' where rel: "mem_release l outcome w = (r, w')" by (cases "mem_release l outcome w")
  have "sl_sandbox_id l \<notin> set (dict_keys (dict_pop (sl_sandbox_id l) d))" for d :: "(string, string) dict"
    by (simp only: delete_keys) simp
  with mem_release_effect [OF inv rel] rel have
    "\<exists>w'. mem_release l outcome w = (Inr (), w') \<and> sl_sandbox_id l \<notin> set (dict_keys (ml_leases (lw_leases w')))"
    by metis
  moreover have "0 \<le> free \<and> free + outstanding t (lw_leases w) \<le> mem_capacity t (lw_leases w)"
    if "dict_get (ml_semaphores (lw_leases w)) t = Some free" for free
    using mem_ok_lane [OF inv, of t] that by (simp add: mem_lane_def)
  moreover have "\<exists>e w'. mem_acquire \<lparr>rt_reservation_id = i, rt_run_id = rid, rt_type = t, rt_expires_at = x\<rparr> w
                 = (Inl e, w') \<and> exn_class e = SandboxNoCapacityError"
    if "dict_get (ml_semaphores (lw_leases w)) t = Some 0"
    using that by (simp add: mem_acquire_def mem_semaphore_def Let_def)
  ultimately show ?thesis by blast
qed

definition sample_lease_world :: "task_run list \<Rightarrow> (string, int) dict \<Rightarrow> lease_world" where
  "sample_lease_world runs caps = fs_world.extend (sample_store runs) (lease_world.fields (mem_init caps))"

lemma sample_lease_world_simps [simp]:
  "lw_leases (sample_lease_world runs caps) = mem_init caps"
  "fs_runs (sample_lease_world runs caps) = fs_runs (sample_store runs)"
  "w_tick (sample_lease_world runs caps) = w_tick (sample_store runs)"
  by (simp_all add: sample_lease_world_def fs_world.defs lease_world.defs sample_store_def)

theorem leases_within_capacity_witness:
  "\<exists>e w'. mem_acquire \<lparr>rt_reservation_id = [], rt_run_id = ''r'', rt_type = ''linux'', rt_expires_at = 0\<rparr>
      (snd (mem_available_count ''linux'' (snd (mem_acquire \<lparr>rt_reservation_id = [], rt_run_id = ''r'', rt_type = ''linux'', rt_expires_at = 0\<rparr>
        (sample_lease_world [] [(''linux'', 1)]))))) = (Inl e, w') \<and> exn_class e = SandboxNoCapacityError"
proof -
  let ?w0 = "sample_lease_world [] [(''linux'', 1)]"
  let ?tok = "\<lparr>rt_reservation_id = [], rt_run_id = ''r'', rt_type = ''linux'', rt_expires_at = 0\<rparr>"
  let ?w1 = "snd (mem_acquire ?tok ?w0)" and ?w2 = "snd (mem_available_count ''linux'' (snd (mem_acquire ?tok ?w0)))"
  have st: "py_strip ''linux'' = ''linux''" by (rule py_strip_stripped) (simp add: stripped_def py_isspace_def)
  have re: "leases_reachable ?w0 ?w2" by (intro leases_count leases_acquire leases_start)
  have s1: "ml_semaphores (lw_leases ?w1) = [(''linux'', 0)]" "ml_capacities (lw_leases ?w1) = [(''linux'', 1)]"
    by (simp_all add: mem_acquire_def mem_semaphore_def set_permits_def mem_init_def normalize_sandbox_type_def st Let_def)
  then have "dict_get (ml_semaphores (lw_leases ?w2)) ''linux'' = Some 0"
    by (simp add: mem_available_count_def mem_semaphore_def mem_capacity_def Let_def)
  with leases_within_capacity [OF re, of "[(''linux'', 1)]" "''linux''" "[]" "''r''" 0] show ?thesis by simp
qed

subsection \<open>The contract of a lease manager\<close>

text \<open>What the run coordinator relies on: which sandboxes are held after each call.\<close>

locale lease_contract =
  fixes lm :: "'w lease_manager" and I :: "'w \<Rightarrow> bool" and held :: "'w \<Rightarrow> string set"
  assumes reserve_keeps: "I w \<Longrightarrow> lm_reserve lm req rid w = (r, w') \<Longrightarrow> I w' \<and> held w' = held w"
    and acquire_takes: "I w \<Longrightarrow> lm_acquire lm tok w = (Inr l, w') \<Longrightarrow> I w' \<and> held w' = insert (sl_sandbox_id l) (held w)"
    and acquire_refused: "I w \<Longrightarrow> lm_acquire lm tok w = (Inl e, w') \<Longrightarrow> I w' \<and> held w' = held w"
    and reset_keeps: "I w \<Longrightarrow> lm_reset lm l w = (u, w') \<Longrightarrow> I w' \<and> held w' = held w"
    and release_returns: "I w \<Longrightarrow> lm_release lm l outcome w = (u, w') \<Longrightarrow>
       u = Inr () \<and> I w' \<and> held w' = held w - {sl_sandbox_id l}"
begin

lemma acquire_then_release:
  assumes "I w" and a: "lm_acquire lm tok w = (Inr l, w1)" and r: "lm_release lm l outcome w1 = (u, w2)"
  shows "u = Inr () \<and> I w2 \<and> held w2 = held w - {sl_sandbox_id l}"
  using acquire_takes [OF assms(1) a] release_returns [of w1 l outcome u w2] r by auto

lemma acquire_grows: "I w \<Longrightarrow> lm_acquire lm tok w = (r, w') \<Longrightarrow> I w' \<and> held w \<subseteq> held w'"
  using acquire_takes acquire_refused by (cases r) blast+

end

lemma mem_keys: "mem_semaphore t w = (r, w') \<Longrightarrow> ml_leases (lw_leases w') = ml_leases (lw_leases w)"
  by (auto simp: mem_semaphore_def Let_def split: option.splits if_splits)

lemma mem_reserve_keeps: "mem_reserve req rid w = (r, w') \<Longrightarrow> ml_leases (lw_leases w') = ml_leases (lw_leases w)"
  by (cases "mem_semaphore (sr_type req) w")
    (auto simp: mem_reserve_def thenE_def bindE_def mem_keys split: if_splits sum.splits)

interpretation mem: lease_contract memory_lease_manager lease_inv "\<lambda>w. set (dict_keys (ml_leases (lw_leases w)))"
proof unfold_locales
  fix w w' :: "'z lease_world_scheme" and req rid r tok l e u outcome
  assume inv: "lease_inv w"
  show "lease_inv w' \<and> set (dict_keys (ml_leases (lw_leases w'))) = set (dict_keys (ml_leases (lw_leases w)))"
    if "lm_reserve memory_lease_manager req rid w = (r, w')"
    using that preservesD [OF mem_reserve_preserves inv, of req rid r w'] mem_reserve_keeps [of req rid w r w']
    by (simp add: memory_lease_manager_def)
  show "lease_inv w' \<and> set (dict_keys (ml_leases (lw_leases w'))) = insert (sl_sandbox_id l) (set (dict_keys (ml_leases (lw_leases w))))"
    if "lm_acquire memory_lease_manager tok w = (Inr l, w')"
    using mem_acquire_effect [OF inv, of tok "Inr l" w'] that by (auto simp: memory_lease_manager_def update_keys)
  show "lease_inv w' \<and> set (dict_keys (ml_leases (lw_leases w'))) = set (dict_keys (ml_leases (lw_leases w)))"
    if "lm_acquire memory_lease_manager tok w = (Inl e, w')"
    using mem_acquire_effect [OF inv, of tok "Inl e" w'] that by (simp add: memory_lease_manager_def)
  show "lease_inv w' \<and> set (dict_keys (ml_leases (lw_leases w'))) = set (dict_keys (ml_leases (lw_leases w)))"
    if "lm_reset memory_lease_manager l w = (u, w')"
    using that preservesD [OF mem_other_preserves(1) inv] by (auto simp: memory_lease_manager_def mem_reset_def)
  show "u = Inr () \<and> lease_inv w' \<and> set (dict_keys (ml_leases (lw_leases w'))) = set (dict_keys (ml_leases (lw_leases w))) - {sl_sandbox_id l}"
    if "lm_release memory_lease_manager l outcome w = (u, w')"
    using mem_release_effect [OF inv, of l outcome u w'] that by (auto simp: memory_lease_manager_def delete_keys)
qed

subsection \<open>Leases of the sandbox service\<close>

definition service_keeps_clock :: "'z rt_world_scheme sandbox_service \<Rightarrow> bool" where
  "service_keeps_clock sv \<longleftrightarrow>
     (\<forall>a t w. w_clock (snd (sv_apply_sandbox sv a t w)) = w_clock w \<and> w_tick w \<le> w_tick (snd (sv_apply_sandbox sv a t w)))
     \<and> (\<forall>w. w_clock (snd (sv_sleep sv w)) = w_clock w \<and> w_tick w \<le> w_tick (snd (sv_sleep sv w)))"

lemma apply_round_clock:
  assumes k: "service_keeps_clock (rm_service rm)" and a: "apply_round rm tok (x, w) = (r, (y, w'))"
  shows "w_clock w' = w_clock w \<and> (r = Inr True \<longrightarrow> w_tick w < w_tick w' \<and> (\<exists>i \<ge> w_tick w. w_clock w i < rt_expires_at tok \<and> i < w_tick w'))
    \<and> (r = Inr False \<longrightarrow> (\<exists>res. y = Some res \<and> ar_applied res))"
proof -
  let ?sv = "rm_service rm"
  obtain ra w1 where ap: "sv_apply_sandbox ?sv (rm_agent_instance_id rm) (rt_type tok) w = (ra, w1)"
    by (cases "sv_apply_sandbox ?sv (rm_agent_instance_id rm) (rt_type tok) w")
  have k1: "w_clock w1 = w_clock w" "w_tick w \<le> w_tick w1"
    using k ap unfolding service_keeps_clock_def by (metis snd_conv)+
  obtain rs w3 where sl: "sv_sleep ?sv (w1\<lparr>w_tick := w_tick w1 + 1\<rparr>) = (rs, w3)"
    by (cases "sv_sleep ?sv (w1\<lparr>w_tick := w_tick w1 + 1\<rparr>)")
  have k3: "w_clock w3 = w_clock w1" "w_tick w1 + 1 \<le> w_tick w3"
    using k [unfolded service_keeps_clock_def, THEN conjunct2, rule_format, of "w1\<lparr>w_tick := w_tick w1 + 1\<rparr>"] sl by simp_all
  show ?thesis
    using a ap sl k1 k3 by (auto simp: apply_round_def Let_def not_le split: sum.splits if_splits intro!: exI [of _ "w_tick w1"])
qed

lemma apply_loop_ends:
  assumes k: "service_keeps_clock (rm_service rm)" and c: "\<And>i. N \<le> i \<Longrightarrow> rt_expires_at tok \<le> w_clock w i"
  shows "\<exists>r y w'. whileE (apply_round rm tok) (None, w) = Some (r, (y, w')) \<and> (r = Inr () \<longrightarrow> (\<exists>res. y = Some res \<and> ar_applied res))"
proof -
  have "\<exists>r s'. whileE (apply_round rm tok) (None, w) = Some (r, s') \<and> w_clock (snd s') = w_clock w
       \<and> (r = Inr () \<longrightarrow> (\<exists>s0. w_clock (snd s0) = w_clock w \<and> apply_round rm tok s0 = (Inr False, s')))
       \<and> (\<forall>e. r = Inl e \<longrightarrow> (\<exists>s0. w_clock (snd s0) = w_clock w \<and> apply_round rm tok s0 = (Inl e, s')))"
  proof (rule whileE_rule [where P = "\<lambda>s. w_clock (snd s) = w_clock w" and m = "\<lambda>s. N - w_tick (snd s)"])
    show "w_clock (snd s') = w_clock w" if "w_clock (snd s) = w_clock w" "apply_round rm tok s = (r, s')" for s r s'
      using that apply_round_clock [OF k, of tok "fst s" "snd s" r "fst s'" "snd s'"] by simp
    show "N - w_tick (snd s') < N - w_tick (snd s)" if P: "w_clock (snd s) = w_clock w" and "apply_round rm tok s = (Inr True, s')" for s s'
    proof -
      from that(2) apply_round_clock [OF k, of tok "fst s" "snd s" "Inr True" "fst s'" "snd s'"] obtain i where
        i: "w_tick (snd s) \<le> i" "w_clock (snd s) i < rt_expires_at tok" "w_tick (snd s) < w_tick (snd s')" by auto
      have "i < N" using c [of i] i(2) P by (metis leD leI)
      with i show ?thesis by linarith
    qed
  qed simp
  then obtain r s' where w: "whileE (apply_round rm tok) (None, w) = Some (r, s')"
    "r = Inr () \<Longrightarrow> \<exists>s0. apply_round rm tok s0 = (Inr False, s')" by blast
  have "\<exists>res. fst s' = Some res \<and> ar_applied res" if r: "r = Inr ()"
  proof -
    from w(2) [OF r] obtain s0 where "apply_round rm tok (fst s0, snd s0) = (Inr False, (fst s', snd s'))" by auto
    from apply_round_clock [OF k this] show ?thesis by simp
  qed
  with w(1) show ?thesis by (metis prod.collapse)
qed

lemma accept_applied_checked:
  assumes "accept_applied repr rm tok res w = (Inr lease, w')"
  shows "sl_sandbox_id lease = ar_applied_sandbox_id res \<and> sl_type lease \<noteq> []
    \<and> (rt_type tok \<notin> set SANDBOX_TYPES \<longrightarrow> sl_os lease = rt_type tok)"
proof -
  have st: "t \<in> set SANDBOX_TYPES \<Longrightarrow> py_strip t = t \<and> t \<noteq> []" for t
    using sandbox_selectors_stripped py_strip_stripped [of t] by (auto simp: SANDBOX_SELECTORS_def)
  from assms have n: "reject_reason repr tok res = []"
    and l: "sl_sandbox_id lease = ar_applied_sandbox_id res" "sl_type lease = normalize_sandbox_type (the (applied_lease_type res))"
      "sl_os lease = str_or (supplied_os res) (rt_type tok)"
    by (auto simp: accept_applied_def Let_def validate_sandbox_lease_ref_def thenE_Inr_iff split: if_splits)
  from n obtain t where t: "applied_lease_type res = Some t" by (auto simp: reject_reason_def split: option.splits)
  have "py_strip t \<noteq> []"
    using t st py_strip_idem by (auto simp: applied_lease_type_def lease_type_from_sandbox_id_def Let_def split: if_splits)
  moreover have "sl_os lease = rt_type tok" if "rt_type tok \<notin> set SANDBOX_TYPES"
    using n t l(3) that by (auto simp: reject_reason_def str_or_def split: if_splits)
  ultimately show ?thesis using l t by (simp add: normalize_sandbox_type_def)
qed

text \<open>
  Acquiring a sandbox from the service always ends, once the clock passes the expiry of the
  reservation, and a lease it returns is identified and, when the reservation names an operating
  system, is one of that operating system: a sandbox of another kind is never handed to a run.
\<close>

theorem reverse_acquire_checked:
  assumes "service_keeps_clock (rm_service rm)" and "\<And>i. N \<le> i \<Longrightarrow> rt_expires_at tok \<le> w_clock w i"
  shows "\<exists>r w'. reverse_acquire repr rm tok w = Some (r, w')
    \<and> (\<forall>lease. r = Inr lease \<longrightarrow> sl_type lease \<noteq> [] \<and> (rt_type tok \<notin> set SANDBOX_TYPES \<longrightarrow> sl_os lease = rt_type tok))"
proof -
  from apply_loop_ends [OF assms] obtain r y w1 where
    l: "whileE (apply_round rm tok) (None, w) = Some (r, (y, w1))" "r = Inr () \<longrightarrow> (\<exists>res. y = Some res \<and> ar_applied res)" by blast
  show ?thesis
  proof (cases r)
    case (Inl e)
    with l show ?thesis by (simp add: reverse_acquire_def)
  next
    case (Inr u)
    with l obtain res where "y = Some res" by auto
    moreover obtain r2 w2 where "accept_applied repr rm tok res w1 = (r2, w2)" by (cases "accept_applied repr rm tok res w1")
    ultimately show ?thesis
      using l(1) Inr accept_applied_checked [of repr rm tok res w1 _ w2] by (auto simp: reverse_acquire_def)
  qed
qed

definition sample_service :: "apply_result \<Rightarrow> 'z rt_world_scheme sandbox_service" where
  "sample_service res =
     \<lparr>sv_get_instance_sandboxes = (\<lambda>_ _. retE []), sv_apply_sandbox = (\<lambda>_ _. retE res),
      sv_release_sandbox = (\<lambda>_ _. retE ()), sv_reset_sandbox = (\<lambda>_ _. retE ()), sv_monotonic = now_ms, sv_sleep = retE ()\<rparr>"

definition sample_apply :: "string \<Rightarrow> apply_result" where
  "sample_apply sid = \<lparr>ar_applied = True, ar_message = [], ar_applied_sandbox_id = sid, ar_provider_type = [], ar_os = [],
     ar_endpoint = [], ar_provider_base_url = [], ar_device_id = [], ar_vnc_url = []\<rparr>"

theorem reverse_acquire_checked_witness:
  "\<exists>r w'. reverse_acquire (\<lambda>s. s) \<lparr>rm_agent_instance_id = ''1'', rm_service = sample_service (sample_apply ''emulator:7''), rm_acquire_timeout = 5\<rparr>
      \<lparr>rt_reservation_id = [], rt_run_id = ''r'', rt_type = ''android'', rt_expires_at = 0\<rparr> (sample_store []) = Some (r, w')"
  using reverse_acquire_checked [of "\<lparr>rm_agent_instance_id = ''1'', rm_service = sample_service (sample_apply ''emulator:7''), rm_acquire_timeout = 5\<rparr>"
      0 "\<lparr>rt_reservation_id = [], rt_run_id = ''r'', rt_type = ''android'', rt_expires_at = 0\<rparr>" "sample_store []" "\<lambda>s. s"]
  by (auto simp: service_keeps_clock_def sample_service_def sample_store_def)

text \<open>
  A sandbox that the service applied but that cannot be used, because it cannot be identified or
  runs another operating system than the one reserved, is handed back by one release call for that
  very sandbox before the acquisition fails as unhealthy; a failing release does not change that.
\<close>

theorem rejected_sandbox_handed_back:
  assumes "applied_lease_type res = None
      \<or> (rt_type tok \<notin> set SANDBOX_TYPES \<and> supplied_os res \<noteq> [] \<and> supplied_os res \<noteq> rt_type tok)"
    and "sv_release_sandbox (rm_service rm) (rm_agent_instance_id rm) (ar_applied_sandbox_id res) (w\<lparr>w_tick := w_tick w + 1\<rparr>) = (r, w')"
    and "\<And>e. r = Inl e \<Longrightarrow> is_Exception e"
  shows "\<exists>e. accept_applied repr rm tok res w = (Inl e, w') \<and> exn_class e = SandboxUnhealthyError"
proof -
  have "reject_reason repr tok res \<noteq> []" using assms(1) by (auto simp: reject_reason_def split: option.splits)
  then show ?thesis
    using assms(2,3) by (cases r) (simp_all add: accept_applied_def Let_def suppressE_def catch_Exception_def)
qed

theorem rejected_sandbox_handed_back_witness:
  "\<exists>e w'. accept_applied (\<lambda>s. s) \<lparr>rm_agent_instance_id = ''1'', rm_service = sample_service (sample_apply ''what''), rm_acquire_timeout = 5\<rparr>
      \<lparr>rt_reservation_id = [], rt_run_id = ''r'', rt_type = ''android'', rt_expires_at = 0\<rparr> (sample_apply ''what'') (sample_store [])
      = (Inl e, w') \<and> exn_class e = SandboxUnhealthyError"
proof -
  let ?rm = "\<lparr>rm_agent_instance_id = ''1'', rm_service = sample_service (sample_apply ''what''), rm_acquire_timeout = 5\<rparr>"
  have "py_strip ''what'' = ''what''" by (rule py_strip_stripped) (simp add: stripped_def py_isspace_def)
  then have "applied_lease_type (sample_apply ''what'') = None"
    by (simp add: applied_lease_type_def sample_apply_def lease_type_from_sandbox_id_def normalize_sandbox_type_def sandbox_tables Let_def)
  then show ?thesis
    using rejected_sandbox_handed_back [of "sample_apply ''what''"
        "\<lparr>rt_reservation_id = [], rt_run_id = ''r'', rt_type = ''android'', rt_expires_at = 0\<rparr>" ?rm "sample_store []" "Inr ()"
        "(sample_store [])\<lparr>w_tick := w_tick (sample_store []) + 1\<rparr>" "\<lambda>s. s"]
    by (auto simp: sample_service_def)
qed

end
