(* ===== verification/Result_Persistence.thy ===== *)
theory Result_Persistence
  imports File_Store
begin

section \<open>Persisting results and finalising runs\<close>

text \<open>
  The second half of \<^verbatim>\<open>domain/results.py\<close>: how a terminal result reaches the store when the worker
  that should have written it did not. The functions are clients of the run store protocol, so they
  are written against an arbitrary \<open>run_store\<close>; that they keep every invariant a store keeps is
  proved in \<open>run_store_invariant\<close>, and what they leave behind is proved for the filesystem store.
  The progress call of the finaliser is the parameter \<open>mark\<close>.
\<close>

type_synonym 'w mark_terminal = "task_run \<Rightarrow> task_result \<Rightarrow> bool \<Rightarrow> string \<Rightarrow> ('w, unit) io"

definition settled_result_from_detail :: "task_detail \<Rightarrow> task_result \<Rightarrow> ('z rt_world_scheme, task_result option) io" where
  "settled_result_from_detail detail fallback =
     (case det_result detail of
        Some result \<Rightarrow> retE (Some result)
      | None \<Rightarrow>
          if tr_status (det_run detail) \<in> set TERMINAL_STATUSES
          then bindE (terminal_result_from_run (det_run detail) (Some fallback)) (\<lambda>r. retE (Some r))
          else retE None)"

definition force_update_stranded_run ::
    "'z rt_world_scheme run_store \<Rightarrow> task_run \<Rightarrow> task_result \<Rightarrow> ('z rt_world_scheme, unit) io" where
  "force_update_stranded_run st run result =
     rs_update_run st (run\<lparr>tr_status := res_status result, tr_ended_at := res_ended_at result,
       tr_last_error_class := res_error_class result, tr_last_error := res_error_message result\<rparr>)"

text \<open>\<^verbatim>\<open>run.model_copy(update={"status": result.status, "ended_at": result.ended_at})\<close>.\<close>

definition stranded_copy :: "task_run \<Rightarrow> task_result \<Rightarrow> task_run" where
  "stranded_copy run result = run\<lparr>tr_status := res_status result, tr_ended_at := res_ended_at result\<rparr>"

definition reread_run ::
    "'z rt_world_scheme run_store \<Rightarrow> task_run \<Rightarrow> task_result \<Rightarrow> ('z rt_world_scheme, task_run) io" where
  "reread_run st run result = catch_Exception (rs_get_run st (tr_run_id run)) (\<lambda>_. retE (stranded_copy run result))"

definition claim_and_write ::
    "'z rt_world_scheme run_store \<Rightarrow> string \<Rightarrow> string \<Rightarrow> task_result \<Rightarrow> ('z rt_world_scheme, unit) io" where
  "claim_and_write st run_id worker result =
     bindE (rs_claim_run st run_id worker) (\<lambda>token. rs_write_result st run_id result token)"

definition persist_stranded_result ::
    "'z rt_world_scheme run_store \<Rightarrow> task_run \<Rightarrow> task_result \<Rightarrow> ('z rt_world_scheme, task_run) io" where
  "persist_stranded_result st run result =
     (let rid = tr_run_id run; finalizer = ''task-manager-finalizer'' in
      if tr_status run = QUEUED
      then bindE (catch_Exception (thenE (claim_and_write st rid finalizer result) (retE True)) (\<lambda>_. retE False))
             (\<lambda>written. if written then reread_run st run result else retE (stranded_copy run result))
      else if tr_status run = RUNNING \<and> tr_fencing_token run \<noteq> []
      then let token = \<lparr>ft_run_id = rid, ft_token = tr_fencing_token run,
                        ft_issued_at = int_or (tr_started_at run) (tr_queued_at run), ft_expires_at = None\<rparr>
           in thenE (catch_class StaleWorkerError (rs_write_result st rid result token)
                       (\<lambda>_. force_update_stranded_run st run result))
                (reread_run st run result)
      else if tr_status run = RUNNING
      then thenE (case rs_fail_stale_run st of
                    Some fail \<Rightarrow> fail rid result finalizer
                  | None \<Rightarrow> force_update_stranded_run st run result)
             (reread_run st run result)
      else reread_run st run result)"

definition ensure_result_persisted ::
    "'z rt_world_scheme run_store \<Rightarrow> task_run \<Rightarrow> task_result \<Rightarrow> ('z rt_world_scheme, task_result) io" where
  "ensure_result_persisted st run result =
     (let rid = tr_run_id run in
      bindE (rs_get_task_detail st rid VIEW_SUMMARY) (\<lambda>detail.
      bindE (settled_result_from_detail detail result) (\<lambda>settled_result.
        case settled_result of
          Some r \<Rightarrow> retE r
        | None \<Rightarrow>
            catch_class StaleWorkerError
              (thenE (claim_and_write st rid ''task-manager'' result) (retE result))
              (\<lambda>e. bindE (rs_get_task_detail st rid VIEW_SUMMARY) (\<lambda>detail.
                   bindE (settled_result_from_detail detail result) (\<lambda>settled_result.
                     case settled_result of Some r \<Rightarrow> retE r | None \<Rightarrow> raiseE e))))))"

definition ensure_cancelled_state ::
    "'z rt_world_scheme run_store \<Rightarrow> task_run \<Rightarrow> task_result \<Rightarrow> ('z rt_world_scheme, unit) io" where
  "ensure_cancelled_state st run result =
     bindE (catch_Exception (bindE (rs_get_task_detail st (tr_run_id run) VIEW_SUMMARY) (\<lambda>d. retE (Some d))) (\<lambda>_. retE None))
       (\<lambda>detail.
         if (case detail of None \<Rightarrow> False | Some d \<Rightarrow> det_result d \<noteq> None) then retE ()
         else suppressE (rs_cancel_run st (tr_run_id run) (str_or (res_summary result) ''Task cancelled by user.'')))"

definition ensure_timed_out_state ::
    "'z rt_world_scheme run_store \<Rightarrow> task_run \<Rightarrow> task_result \<Rightarrow> ('z rt_world_scheme, task_result) io" where
  "ensure_timed_out_state st run result =
     (let read = catch_Exception (bindE (rs_get_task_detail st (tr_run_id run) VIEW_SUMMARY) (\<lambda>d. retE (Some d))) (\<lambda>_. retE None)
      in bindE read (\<lambda>detail.
         bindE (case detail of None \<Rightarrow> retE None | Some d \<Rightarrow> settled_result_from_detail d result) (\<lambda>settled_result.
           case settled_result of
             Some r \<Rightarrow> retE r
           | None \<Rightarrow>
               thenE (persist_stranded_result st (case detail of Some d \<Rightarrow> det_run d | None \<Rightarrow> run) result)
              (bindE read (\<lambda>detail'.
                 case detail' of
                   None \<Rightarrow> retE result
                 | Some d \<Rightarrow> bindE (settled_result_from_detail d result) (\<lambda>s. retE (case s of Some r \<Rightarrow> r | None \<Rightarrow> result)))))))"

definition batch_result_of ::
    "'z rt_world_scheme run_store \<Rightarrow> task_run \<Rightarrow> ('z rt_world_scheme, task_result option) io" where
  "batch_result_of st run =
     bindE (catch_Exception (bindE (rs_get_task_detail st (tr_run_id run) VIEW_SUMMARY) (\<lambda>d. retE (Some d))) (\<lambda>_. retE None))
       (\<lambda>detail.
         case detail of
           None \<Rightarrow> retE None
         | Some d \<Rightarrow>
             (case det_result d of
                Some r \<Rightarrow> retE (Some r)
              | None \<Rightarrow>
                  if tr_status (det_run d) \<in> set TERMINAL_STATUSES
                  then bindE (terminal_result_from_run (det_run d) None) (\<lambda>r. retE (Some r))
                  else retE None))"

definition batch_results ::
    "'z rt_world_scheme run_store \<Rightarrow> task_run list \<Rightarrow> ('z rt_world_scheme, task_result list) io" where
  "batch_results st runs =
     bindE (mapE (batch_result_of st) runs) (\<lambda>rs. retE (List.map_filter id rs))"

definition safe_list_batch_runs :: "'z rt_world_scheme run_store \<Rightarrow> string \<Rightarrow> ('z rt_world_scheme, task_run list) io" where
  "safe_list_batch_runs st batch_id = catch_Exception (rs_list_batch_runs st batch_id) (\<lambda>_. retE [])"

text \<open>One turn of the loop of \<^verbatim>\<open>finalize_nonterminal_runs\<close> over \<^verbatim>\<open>result_by_run_id\<close>.\<close>

definition finalize_run ::
    "'z rt_world_scheme run_store \<Rightarrow> 'z rt_world_scheme mark_terminal \<Rightarrow> task_run \<Rightarrow> (string, task_result) dict
       \<Rightarrow> ('z rt_world_scheme, (string, task_result) dict) io" where
  "finalize_run st mark run known =
     (let rid = tr_run_id run in
      bindE (if rid \<in> set (dict_keys known) then retE known
             else catch_Exception
                    (bindE (rs_get_task_detail st rid VIEW_SUMMARY) (\<lambda>detail.
                       retE (case det_result detail of Some r \<Rightarrow> dict_set rid r known | None \<Rightarrow> known)))
                    (\<lambda>_. retE known))
        (\<lambda>known.
          if tr_status run \<in> set TERMINAL_STATUSES then retE known
          else
            bindE (case dict_get known rid of Some r \<Rightarrow> retE r | None \<Rightarrow> stranded_result run) (\<lambda>r.
            bindE (ensure_terminal_result run r) (\<lambda>result.
            bindE (persist_stranded_result st run result) (\<lambda>persisted.
            thenE (mark persisted result (tr_sandbox_released persisted) (tr_lease_outcome persisted))
              (retE (dict_set rid result known)))))))"

definition finalize_nonterminal_runs ::
    "'z rt_world_scheme run_store \<Rightarrow> 'z rt_world_scheme mark_terminal \<Rightarrow> batch_record \<Rightarrow> task_result list
       \<Rightarrow> ('z rt_world_scheme, task_result list) io" where
  "finalize_nonterminal_runs st mark batch results =
     bindE (catch_Exception (bindE (rs_list_batch_runs st (br_batch_id batch)) (\<lambda>runs. retE (Some runs))) (\<lambda>_. retE None))
       (\<lambda>listed.
         case listed of
           None \<Rightarrow> retE results
         | Some runs \<Rightarrow>
             bindE (foldE (finalize_run st mark) runs (fold (\<lambda>r. dict_set (res_run_id r) r) results [])) (\<lambda>known.
               retE (List.map_filter (\<lambda>run. dict_get known (tr_run_id run)) (sort_key tr_batch_item_index runs)
                     @ filter (\<lambda>r. res_run_id r \<notin> set (map tr_run_id runs)) results)))"

subsection \<open>The helpers keep every store invariant\<close>

context run_store_invariant
begin

lemma result_ops_inv:
  "preserves P (terminal_result_from_run run fb)"
  "preserves P (stranded_result run)"
  "preserves P (ensure_terminal_result run r)"
  by (auto simp: terminal_result_from_run_def stranded_result_def ensure_terminal_result_def Let_def
      intro!: preserves_intros world_inv)

lemma settled_inv: "preserves P (settled_result_from_detail d fb)"
  by (auto simp: settled_result_from_detail_def intro!: preserves_intros result_ops_inv split: option.splits)

lemma claim_and_write_inv: "preserves P (claim_and_write st rid wk r)"
  by (auto simp: claim_and_write_def intro!: preserves_intros store_inv)

lemma read_detail_inv:
  "preserves P (catch_Exception (bindE (rs_get_task_detail st rid v) (\<lambda>d. retE (Some d))) (\<lambda>_. retE None))"
  by (auto intro!: preserves_intros store_inv)

lemma reread_inv: "preserves P (reread_run st run r)"
  by (auto simp: reread_run_def intro!: preserves_intros store_inv)

lemma persist_stranded_inv: "preserves P (persist_stranded_result st run r)"
  by (auto simp: persist_stranded_result_def force_update_stranded_run_def Let_def
      intro!: preserves_intros store_inv claim_and_write_inv reread_inv intro: fail_inv)

lemma ensure_persisted_inv: "preserves P (ensure_result_persisted st run r)"
  by (auto simp: ensure_result_persisted_def Let_def
      intro!: preserves_intros store_inv settled_inv claim_and_write_inv split: option.splits)

lemma ensure_state_inv:
  "preserves P (ensure_cancelled_state st run r)"
  "preserves P (ensure_timed_out_state st run r)"
  by (auto simp: ensure_cancelled_state_def ensure_timed_out_state_def Let_def
      intro!: preserves_intros store_inv settled_inv persist_stranded_inv read_detail_inv split: option.splits)

lemma batch_results_inv: "preserves P (batch_results st runs)"
  by (auto simp: batch_results_def batch_result_of_def
      intro!: preserves_intros result_ops_inv read_detail_inv split: option.splits)

lemma finalize_inv:
  assumes "\<And>run r b l. preserves P (mark run r b l)"
  shows "preserves P (finalize_nonterminal_runs st mark batch results)"
proof -
  have "preserves P (finalize_run st mark run known)" for run known
    by (auto simp: finalize_run_def Let_def
        intro!: preserves_intros store_inv result_ops_inv persist_stranded_inv assms split: option.splits)
  then show ?thesis
    by (auto simp: finalize_nonterminal_runs_def intro!: preserves_intros store_inv split: option.splits)
qed

lemmas persistence_inv = result_ops_inv settled_inv claim_and_write_inv reread_inv persist_stranded_inv
  ensure_persisted_inv ensure_state_inv batch_results_inv

end

subsection \<open>On the filesystem store\<close>

lemma claim_run_effect:
  assumes ok: "dict_ok (fs_runs w)" and f: "find_run rid w = Some (k, r)" and q: "tr_status r = QUEUED"
  shows "\<exists>tok w' r'. claim_run rid worker w = (Inr tok, w') \<and> find_run rid w' = Some (k, r') \<and> tr_status r' = RUNNING
     \<and> tr_fencing_token r' = ft_token tok \<and> run_key_of r' = run_key_of r \<and> dict_ok (fs_runs w') \<and> fs_results w' = fs_results w"
proof -
  let ?new = "r\<lparr>tr_worker_id := Some worker, tr_fencing_token := w_uuids w (w_uuid_next w), tr_status := RUNNING,
     tr_started_at := Some (int_or (tr_started_at r) (w_clock w (w_tick w))), tr_heartbeat_at := Some (w_clock w (w_tick w))\<rparr>"
  from q f obtain tok w' where c: "claim_run rid worker w = (Inr tok, w')" "ft_token tok = w_uuids w (w_uuid_next w)"
    and w': "fs_runs w' = dict_set k (persisted_run ?new) (fs_runs w)" "fs_results w' = fs_results w"
    by (auto simp: claim_run_def bindE_read_run bindE_transition_run put_run_def Let_def run_sm.queued_step)
  have "find_run rid w' = Some (k, persisted_run ?new)"
    using find_run_update [OF f ok w'(1)] .
  moreover have "dict_ok (fs_runs w')" using ok w'(1) by simp
  ultimately show ?thesis using c w'(2) by (auto simp: run_key_of_def)
qed

lemma put_result_ok:
  assumes "res_output result = []"
  shows "put_result sha rt run result w =
    (Inr (), w\<lparr>fs_files := fs_files w, fs_results := dict_set (run_key_of run) (result\<lparr>res_output := []\<rparr>) (fs_results w)\<rparr>)"
  using assms by (simp add: put_result_def persisted_result_payload_def run_key_of_def)

lemma or_now_world: "\<exists>e t. or_now v w = (Inr e, w\<lparr>w_tick := t\<rparr>)"
  for w :: "'z fs_world_scheme"
proof (cases v)
  case (Some a)
  then show ?thesis by (cases "a = 0") (auto simp: or_now_def intro: exI [of _ "w_tick w"])
qed (auto simp: or_now_def)

definition settled :: "string \<Rightarrow> run_key \<Rightarrow> task_status \<Rightarrow> 'z fs_world_scheme \<Rightarrow> bool" where
  "settled rid k status w \<longleftrightarrow> is_terminal_run_status status \<and> (\<exists>r'. find_run rid w = Some (k, r') \<and> tr_status r' = status)"

lemma write_result_settles:
  assumes ok: "dict_ok (fs_runs w)" and f: "find_run rid w = Some (k, r)" and cur: "tr_status r = RUNNING"
    and tok: "tr_fencing_token r = ft_token tok" and tmn: "is_terminal_run_status (res_status result)" and out: "res_output result = []"
  shows "\<exists>w' p. write_result sha rt rid result tok w = (Inr (), w') \<and> settled rid k (res_status result) w'
     \<and> dict_get (fs_results w') (run_key_of r) = Some p \<and> res_status p = res_status result"
proof -
  have val: "is_valid_run_transition RUNNING (res_status result)" using tmn by (simp add: run_sm.running_step)
  have "\<exists>w'. write_result sha rt rid result tok w = (Inr (), w')"
    using f cur tok val out
    by (simp add: write_result_def bindE_read_run bindE_transition_run ensure_current_token_def or_now_def
        put_run_def put_result_ok Let_def split: option.splits)
  then obtain w' where wr: "write_result sha rt rid result tok w = (Inr (), w')" ..
  from write_result_effect [OF ok f wr] tmn have "settled rid k (res_status result) w'" by (auto simp: settled_def)
  with write_result_effect [OF ok f wr] wr show ?thesis by (auto simp: dict_get_set)
qed

lemma fail_stale_run_settles:
  assumes ok: "dict_ok (fs_runs w)" and f: "find_run rid w = Some (k, r)" and cur: "tr_status r = RUNNING"
    and tmn: "is_terminal_run_status (res_status result)" and out: "res_output result = []"
  shows "\<exists>w' p. fail_stale_run sha rt rid result worker w = (Inr (), w') \<and> settled rid k (res_status result) w'
     \<and> dict_get (fs_results w') (run_key_of r) = Some p \<and> res_status p = res_status result"
proof -
  have val: "is_valid_run_transition RUNNING (res_status result)" using tmn by (simp add: run_sm.running_step)
  let ?w0 = "w\<lparr>w_events := w_events w @ [Run_State_Transition (tr_run_id r) (tr_batch_id r) RUNNING (res_status result)]\<rparr>"
  obtain ended w1 where e: "or_now (res_ended_at result) ?w0 = (Inr ended, w1)" "fs_runs w1 = fs_runs w" "fs_results w1 = fs_results w"
    using or_now_world [of "res_ended_at result" ?w0] by auto
  obtain w' new where w': "fail_stale_run sha rt rid result worker w = (Inr (), w')"
    "fs_runs w' = dict_set k (persisted_run new) (fs_runs w)" "tr_status new = res_status result"
    "fs_results w' = dict_set (run_key_of r) (result\<lparr>res_output := []\<rparr>) (fs_results w)"
    using f cur val out e
    by (auto simp: fail_stale_run_def bindE_read_run bindE_transition_run put_run_def put_result_ok Let_def run_key_of_def)
  have "find_run rid w' = Some (k, persisted_run new)" using find_run_update [OF f ok w'(2)] .
  with w' tmn show ?thesis by (auto simp: settled_def dict_get_set)
qed

lemma get_run_settled: "settled rid k s w \<Longrightarrow> \<exists>r'. get_run rid w = (Inr r', w) \<and> tr_status r' = s"
  by (auto simp: settled_def get_run_def bindE_read_run)

text \<open>The run object may be older than the stored run, as long as status and token agree.\<close>

lemma persist_stranded_live:
  assumes ok: "dict_ok (fs_runs w)" and f: "find_run (tr_run_id run) w = Some (k, r)"
    and same: "tr_status r = tr_status run" "tr_fencing_token r = tr_fencing_token run" and live: "tr_status run \<in> {QUEUED, RUNNING}"
    and tmn: "is_terminal_run_status (res_status result)" and out: "res_output result = []"
  shows "\<exists>r' w' p. persist_stranded_result (file_run_store sha rt) run result w = (Inr r', w') \<and> tr_status r' = res_status result
    \<and> settled (tr_run_id run) k (res_status result) w'
    \<and> dict_get (fs_results w') (run_key_of r) = Some p \<and> res_status p = res_status result"
proof (cases "tr_status run = QUEUED")
  case True
  with same have q: "tr_status r = QUEUED" by simp
  from claim_run_effect [OF ok f q, of "''task-manager-finalizer''"] obtain tok w1 r1 where
    c: "claim_run (tr_run_id run) ''task-manager-finalizer'' w = (Inr tok, w1)" and f1: "find_run (tr_run_id run) w1 = Some (k, r1)"
      "tr_status r1 = RUNNING" "tr_fencing_token r1 = ft_token tok" "run_key_of r1 = run_key_of r" "dict_ok (fs_runs w1)" by blast
  from write_result_settles [OF f1(5,1,2,3) tmn out, of sha rt] obtain w2 p where
    w2: "write_result sha rt (tr_run_id run) result tok w1 = (Inr (), w2)" "settled (tr_run_id run) k (res_status result) w2"
      "dict_get (fs_results w2) (run_key_of r) = Some p" "res_status p = res_status result" using f1(4) by auto
  with c True get_run_settled [OF w2(2)] show ?thesis
    by (auto simp: persist_stranded_result_def claim_and_write_def reread_run_def file_run_store_def catch_Exception_def Let_def)
next
  case False
  then have r: "tr_status run = RUNNING" "tr_status r = RUNNING" using live same by auto
  let ?tok = "\<lparr>ft_run_id = tr_run_id run, ft_token = tr_fencing_token run,
     ft_issued_at = int_or (tr_started_at run) (tr_queued_at run), ft_expires_at = None\<rparr>"
  have "tr_fencing_token r = ft_token ?tok" using same by simp
  from write_result_settles [OF ok f r(2) this tmn out, of sha rt] fail_stale_run_settles [OF ok f r(2) tmn out, of sha rt "''task-manager-finalizer''"]
  obtain w1 p1 w2 p2 where
    w1: "write_result sha rt (tr_run_id run) result ?tok w = (Inr (), w1)" "settled (tr_run_id run) k (res_status result) w1"
      "dict_get (fs_results w1) (run_key_of r) = Some p1" "res_status p1 = res_status result"
    and w2: "fail_stale_run sha rt (tr_run_id run) result ''task-manager-finalizer'' w = (Inr (), w2)"
      "settled (tr_run_id run) k (res_status result) w2"
      "dict_get (fs_results w2) (run_key_of r) = Some p2" "res_status p2 = res_status result" by blast
  from get_run_settled [OF w1(2)] get_run_settled [OF w2(2)] w1 w2 r show ?thesis
    by (cases "tr_fencing_token run = []")
      (auto simp: persist_stranded_result_def reread_run_def file_run_store_def catch_Exception_def catch_class_def Let_def)
qed

lemma persist_stranded_file:
  assumes "dict_ok (fs_runs w)" and "find_run (tr_run_id run) w = Some (k, run)" and "tr_status run \<in> {QUEUED, RUNNING}"
    and "is_terminal_run_status (res_status result)" and "res_output result = []"
  shows "\<exists>r' w' p. persist_stranded_result (file_run_store sha rt) run result w = (Inr r', w') \<and> tr_status r' = res_status result
    \<and> settled (tr_run_id run) k (res_status result) w'
    \<and> dict_get (fs_results w') (run_key_of run) = Some p \<and> res_status p = res_status result"
  using persist_stranded_live [OF assms(1,2) refl refl assms(3-5)] .

text \<open>
  Finalising an unfinished run of the filesystem store always succeeds: whether the run was
  still queued, running under a token or running without one, afterwards the store holds the run in
  the terminal status of the given result, its result file has that status, and the returned
  snapshot shows it.
\<close>

theorem persist_stranded_settles:
  assumes ok: "dict_ok (fs_runs w)" and f: "find_run (tr_run_id run) w = Some (k, run)" and live: "tr_status run \<in> {QUEUED, RUNNING}"
    and tmn: "is_terminal_run_status (res_status result)" and out: "res_output result = []"
  shows "\<exists>r' w' p. persist_stranded_result (file_run_store sha rt) run result w = (Inr r', w') \<and> tr_status r' = res_status result
    \<and> settled (tr_run_id run) k (res_status result) w'
    \<and> dict_get (fs_results w') (run_key_of run) = Some p \<and> res_status p = res_status result"
  using assms by (rule persist_stranded_file)

theorem persist_stranded_settles_witness:
  "\<exists>r' w'. persist_stranded_result (file_run_store (\<lambda>_. []) []) (sample_run ''r'' QUEUED) (sample_result ''r'' BLOCKED)
       (sample_store [sample_run ''r'' QUEUED]) = (Inr r', w') \<and> tr_status r' = BLOCKED"
proof -
  let ?w = "sample_store [sample_run ''r'' QUEUED]"
  have ok: "dict_ok (fs_runs ?w)" by (simp add: sample_store_def dict_ok_def)
  have f: "find_run (tr_run_id (sample_run ''r'' QUEUED)) ?w = Some ((''b'', ''r''), sample_run ''r'' QUEUED)"
    by (simp add: find_run_def sample_store_def run_key_of_def sample_run_def)
  from persist_stranded_settles [OF ok f, of "sample_result ''r'' BLOCKED" "\<lambda>_. []" "[]"] show ?thesis
    by (auto simp: sample_run_def sample_result_def run_tables)
qed

lemma hydrate_status:
  assumes "hydrate_result_output sha rt run p fs = Inr h"
  shows "res_status h = res_status p"
proof (cases "res_output_ref p = None \<or> res_output p \<noteq> []")
  case True
  with assms show ?thesis by (auto simp: hydrate_result_output_def split: option.splits)
next
  case False
  then obtain ref where ref: "res_output_ref p = Some ref" "res_output p = []" by auto
  with assms obtain path digest where "output_path_from_ref rt run ref = Inr (path, digest)"
    by (auto simp: hydrate_result_output_def rbind_Inr_iff)
  with assms ref obtain body where "h = p\<lparr>res_output := body\<rparr>"
    by (cases "dict_get fs path") (auto simp: hydrate_result_output_def split: if_splits option.splits)
  then show ?thesis by simp
qed

lemma settled_tick [simp]: "settled rid k s (w\<lparr>w_tick := t\<rparr>) = settled rid k s w"
  by (simp add: settled_def find_run_def)

lemma detail_of_terminal:
  assumes ok: "store_ok (tables w)" and f: "find_run rid w = Some (k, r)" and tmn: "is_terminal_run_status (tr_status r)"
    and d: "get_task_detail sha rt rid v w = (Inr d, w')"
  shows "w' = w \<and> det_run d = r \<and> (\<forall>h. det_result d = Some h \<longrightarrow> res_status h = tr_status r)"
proof -
  have k: "dict_get (fs_runs w) k = Some r" "k = run_key_of r"
    using find_run_Some [OF f] store_okD(1,2) [of "fs_runs w" "fs_results w"] ok by (auto simp: tables_def)
  have p: "res_status p = tr_status r" if "dict_get (fs_results w) (run_key_of r) = Some p" for p
    using store_okD(5) [of "fs_runs w" "fs_results w", OF _ that] ok k by (auto simp: tables_def)
  have st: "tr_status r \<in> {COMPLETED, FAILED, CANCELLED, TIMED_OUT, BLOCKED}"
    using tmn by (auto simp: is_terminal_run_status_def TERMINAL_RUN_STATUSES_def)
  show ?thesis
    using d f st p hydrate_status
    by (auto simp: get_task_detail_def bindE_read_run bindE_Inr_iff read_result_def run_key_of_def split: option.splits sum.splits)
qed

lemma detail_of_live:
  assumes "find_run rid w = Some (k, r)" and "\<not> is_terminal_run_status (tr_status r)"
  shows "\<exists>d. get_task_detail sha rt rid v w = (Inr d, w) \<and> det_run d = r \<and> det_result d = None"
  using assms by (cases "tr_status r")
    (auto simp: get_task_detail_def bindE_read_run is_terminal_run_status_def TERMINAL_RUN_STATUSES_def)

text \<open>
  What the runtime reports for a run is what the store holds: when a result has been ensured,
  the store has the run in the reported status, which is terminal; a queued run takes the given
  result; a run that somebody else is still running is never overwritten, the caller gets a stale
  worker error and the tables are as they were.
\<close>

theorem ensure_result_persisted_agrees:
  assumes ok: "store_ok (tables w)" and f: "find_run (tr_run_id run) w = Some (k, r)"
    and tmn: "is_terminal_run_status (res_status result)" and out: "res_output result = []"
  shows "(ensure_result_persisted (file_run_store sha rt) run result w = (Inr final, w') \<longrightarrow>
            settled (tr_run_id run) k (res_status final) w')
    \<and> (tr_status r = QUEUED \<longrightarrow> (\<exists>w'. ensure_result_persisted (file_run_store sha rt) run result w = (Inr result, w')))
    \<and> (tr_status r = RUNNING \<longrightarrow>
         (\<exists>e. ensure_result_persisted (file_run_store sha rt) run result w = (Inl e, w) \<and> exn_class e = StaleWorkerError))"
proof (cases "is_terminal_run_status (tr_status r)")
  case True
  have nq: "tr_status r \<noteq> QUEUED" "tr_status r \<noteq> RUNNING" using True run_sm.live by auto
  have "settled (tr_run_id run) k (res_status final) w'"
    if e: "ensure_result_persisted (file_run_store sha rt) run result w = (Inr final, w')"
  proof -
    from e obtain d w1 where d: "get_task_detail sha rt (tr_run_id run) VIEW_SUMMARY w = (Inr d, w1)"
      by (auto simp: ensure_result_persisted_def file_run_store_def Let_def bindE_Inr_iff)
    from detail_of_terminal [OF ok f True d] have w1: "w1 = w" "det_run d = r"
      and h: "\<And>h. det_result d = Some h \<Longrightarrow> res_status h = tr_status r" by auto
    have s: "settled (tr_run_id run) k (tr_status r) w" using f True by (auto simp: settled_def)
    show ?thesis
      using e d w1 h s True
      by (cases "det_result d") (auto simp: ensure_result_persisted_def file_run_store_def Let_def settled_result_from_detail_def
          terminal_statuses_iff terminal_result_from_run_def bare_result_def)
  qed
  with nq show ?thesis by blast
next
  case False
  from detail_of_live [OF f False, of sha rt VIEW_SUMMARY] obtain d where
    d: "get_task_detail sha rt (tr_run_id run) VIEW_SUMMARY w = (Inr d, w)" "det_run d = r" "det_result d = None" by blast
  have dk: "dict_ok (fs_runs w)" using ok store_okD(1) [of "fs_runs w" "fs_results w"] by (simp add: tables_def)
  show ?thesis
  proof (cases "tr_status r = QUEUED")
    case True
    from claim_run_effect [OF dk f True, of "''task-manager''"] obtain tok w1 r1 where
      c: "claim_run (tr_run_id run) ''task-manager'' w = (Inr tok, w1)" and f1: "find_run (tr_run_id run) w1 = Some (k, r1)"
        "tr_status r1 = RUNNING" "tr_fencing_token r1 = ft_token tok" "dict_ok (fs_runs w1)" by blast
    from write_result_settles [OF f1(4,1,2,3) tmn out, of sha rt] obtain w2 where
      "write_result sha rt (tr_run_id run) result tok w1 = (Inr (), w2)" "settled (tr_run_id run) k (res_status result) w2" by blast
    with d False c True show ?thesis
      by (auto simp: ensure_result_persisted_def file_run_store_def Let_def settled_result_from_detail_def
          terminal_statuses_iff claim_and_write_def catch_class_def)
  next
    case nq: False
    then have "\<exists>e. claim_run (tr_run_id run) ''task-manager'' w = (Inl e, w) \<and> exn_class e = StaleWorkerError"
      using f by (simp add: claim_run_def bindE_read_run)
    with d False nq show ?thesis
      by (auto simp: ensure_result_persisted_def file_run_store_def Let_def settled_result_from_detail_def
          terminal_statuses_iff claim_and_write_def catch_class_def)
  qed
qed

theorem ensure_result_persisted_agrees_witness:
  "\<exists>w'. ensure_result_persisted (file_run_store (\<lambda>_. []) []) (sample_run ''r'' QUEUED) (sample_result ''r'' FAILED)
       (sample_store [sample_run ''r'' QUEUED]) = (Inr (sample_result ''r'' FAILED), w')
     \<and> settled ''r'' (''b'', ''r'') FAILED w'"
proof -
  let ?w = "sample_store [sample_run ''r'' QUEUED]"
  have ok: "store_ok (tables ?w)"
    by (auto simp: store_ok_def tables_def sample_store_def dict_ok_def run_key_of_def sample_run_def split: if_splits)
  have f: "find_run (tr_run_id (sample_run ''r'' QUEUED)) ?w = Some ((''b'', ''r''), sample_run ''r'' QUEUED)"
    by (simp add: find_run_def sample_store_def run_key_of_def sample_run_def)
  have "is_terminal_run_status (res_status (sample_result ''r'' FAILED))" "res_output (sample_result ''r'' FAILED) = []"
    by (simp_all add: sample_result_def run_tables)
  from ensure_result_persisted_agrees [OF ok f this] show ?thesis
    by (metis (no_types, lifting) sample_run_def sample_result_def task_run.select_convs(4,17) task_result.select_convs(3))
qed

subsection \<open>Finalising a batch\<close>

definition keyed_results :: "(string, task_result) dict \<Rightarrow> bool" where
  "keyed_results known \<longleftrightarrow> (\<forall>k r. dict_get known k = Some r \<longrightarrow> res_run_id r = k)"

definition details_match :: "'z rt_world_scheme run_store \<Rightarrow> bool" where
  "details_match st \<longleftrightarrow> (\<forall>rid view w d w' r. rs_get_task_detail st rid view w = (Inr d, w') \<longrightarrow> det_result d = Some r \<longrightarrow> res_run_id r = rid)"

lemma find_append: "find P (xs @ ys) = (case find P xs of None \<Rightarrow> find P ys | Some x \<Rightarrow> Some x)"
  by (induction xs) auto

lemma ensure_terminal_result_total:
  "\<exists>r' t. ensure_terminal_result run r w = (Inr r', w\<lparr>w_tick := t\<rparr>) \<and> res_run_id r' = res_run_id r \<and> is_terminal_run_status (res_status r')"
proof (cases "is_terminal_run_status (res_status r)")
  case True
  then have "ensure_terminal_result run r w = (Inr r, w\<lparr>w_tick := w_tick w\<rparr>)"
    by (simp add: ensure_terminal_result_def terminal_statuses_iff)
  with True show ?thesis by blast
next
  case False
  obtain r' where "ensure_terminal_result run r w = (Inr r', w\<lparr>w_tick := Suc (w_tick w)\<rparr>)" "res_run_id r' = res_run_id r"
    "res_status r' = BLOCKED"
    using False by (simp add: ensure_terminal_result_def terminal_statuses_iff Let_def)
  moreover have "is_terminal_run_status BLOCKED" by (simp add: run_tables)
  ultimately show ?thesis by (intro exI [of _ r'] exI [of _ "Suc (w_tick w)"]) simp
qed

lemma stranded_result_total: "\<exists>r. stranded_result run w = (Inr r, w\<lparr>w_tick := w_tick w + 1\<rparr>) \<and> res_run_id r = tr_run_id run"
  by (simp add: stranded_result_def bare_result_def Let_def)

lemma finalize_lookup:
  assumes "details_match st" and "keyed_results known"
    and "(if rid \<in> set (dict_keys known) then retE known
          else catch_Exception
                 (bindE (rs_get_task_detail st rid VIEW_SUMMARY) (\<lambda>detail.
                    retE (case det_result detail of Some r \<Rightarrow> dict_set rid r known | None \<Rightarrow> known)))
                 (\<lambda>_. retE known)) w = (Inr known', w')"
  shows "keyed_results known' \<and> (\<forall>k. k \<noteq> rid \<longrightarrow> dict_get known' k = dict_get known k)
    \<and> (dict_get known rid \<noteq> None \<longrightarrow> dict_get known' rid = dict_get known rid)"
proof (cases "rid \<in> set (dict_keys known)")
  case True
  with assms show ?thesis by auto
next
  case False
  then have n: "dict_get known rid = None" by (simp only: dict_get_None_iff not_False_eq_True)
  obtain d w1 where d: "rs_get_task_detail st rid VIEW_SUMMARY w = (d, w1)" by (cases "rs_get_task_detail st rid VIEW_SUMMARY w")
  show ?thesis
  proof (cases d)
    case (Inl e)
    with d False assms(2,3) n show ?thesis by (auto simp: catch_Exception_def split: if_splits)
  next
    case (Inr det)
    have m: "res_run_id r = rid" if "det_result det = Some r" for r
      using assms(1) d Inr that unfolding details_match_def by blast
    from d Inr False assms(3) have "known' = (case det_result det of Some r \<Rightarrow> dict_set rid r known | None \<Rightarrow> known)"
      by (auto simp: catch_Exception_def)
    with m n assms(2) show ?thesis by (cases "det_result det") (auto simp: keyed_results_def dict_get_set)
  qed
qed

lemma finalize_run_step:
  assumes dm: "details_match st" and kr: "keyed_results known" and f: "finalize_run st mark run known w = (Inr known', w')"
  shows "keyed_results known' \<and> (\<forall>k. k \<noteq> tr_run_id run \<longrightarrow> dict_get known' k = dict_get known k)
    \<and> (dict_get known (tr_run_id run) \<noteq> None \<longrightarrow> dict_get known' (tr_run_id run) \<noteq> None)
    \<and> (\<not> is_terminal_run_status (tr_status run) \<longrightarrow>
         (\<exists>r. dict_get known' (tr_run_id run) = Some r \<and> is_terminal_run_status (res_status r)))"
proof -
  let ?rid = "tr_run_id run"
  obtain known1 w1 where l: "(if ?rid \<in> set (dict_keys known) then retE known
          else catch_Exception
                 (bindE (rs_get_task_detail st ?rid VIEW_SUMMARY) (\<lambda>detail.
                    retE (case det_result detail of Some r \<Rightarrow> dict_set ?rid r known | None \<Rightarrow> known)))
                 (\<lambda>_. retE known)) w = (Inr known1, w1)"
    and rest: "(if tr_status run \<in> set TERMINAL_STATUSES then retE known1
          else
            bindE (case dict_get known1 ?rid of Some r \<Rightarrow> retE r | None \<Rightarrow> stranded_result run) (\<lambda>r.
            bindE (ensure_terminal_result run r) (\<lambda>result.
            bindE (persist_stranded_result st run result) (\<lambda>persisted.
            thenE (mark persisted result (tr_sandbox_released persisted) (tr_lease_outcome persisted))
              (retE (dict_set ?rid result known1)))))) w1 = (Inr known', w')"
    using f unfolding finalize_run_def Let_def bindE_Inr_iff [of "if _ then _ else _"] by blast
  note k1 = finalize_lookup [OF dm kr l]
  show ?thesis
  proof (cases "is_terminal_run_status (tr_status run)")
    case True
    with rest k1 show ?thesis by (auto simp: terminal_statuses_iff)
  next
    case False
    obtain r w2 where r: "(case dict_get known1 ?rid of Some r \<Rightarrow> retE r | None \<Rightarrow> stranded_result run) w1 = (Inr r, w2)"
      "res_run_id r = ?rid"
      using k1 stranded_result_total [of run w1] by (cases "dict_get known1 ?rid") (auto simp: keyed_results_def)
    obtain r' t where r': "ensure_terminal_result run r w2 = (Inr r', w2\<lparr>w_tick := t\<rparr>)" "res_run_id r' = res_run_id r"
      "is_terminal_run_status (res_status r')" using ensure_terminal_result_total by blast
    from rest False r r' have "known' = dict_set ?rid r' known1"
      by (auto simp: terminal_statuses_iff bindE_Inr_iff thenE_Inr_iff)
    with k1 r r' show ?thesis by (auto simp: keyed_results_def dict_get_set)
  qed
qed

lemma finalize_runs_cover:
  assumes dm: "details_match st"
  shows "keyed_results known \<Longrightarrow> distinct (map tr_run_id runs) \<Longrightarrow> foldE (finalize_run st mark) runs known w = (Inr known', w') \<Longrightarrow>
    keyed_results known' \<and> (\<forall>k. dict_get known k \<noteq> None \<longrightarrow> dict_get known' k \<noteq> None)
    \<and> (\<forall>k. k \<notin> set (map tr_run_id runs) \<longrightarrow> dict_get known' k = dict_get known k)
    \<and> (\<forall>run \<in> set runs. \<not> is_terminal_run_status (tr_status run) \<longrightarrow>
         (\<exists>r. dict_get known' (tr_run_id run) = Some r \<and> is_terminal_run_status (res_status r)))"
proof (induction runs arbitrary: known w)
  case (Cons run runs)
  from Cons.prems(3) obtain known1 w1 where
    s: "finalize_run st mark run known w = (Inr known1, w1)" and rest: "foldE (finalize_run st mark) runs known1 w1 = (Inr known', w')"
    by (auto simp: bindE_Inr_iff)
  note one = finalize_run_step [OF dm Cons.prems(1) s]
  have "distinct (map tr_run_id runs)" "tr_run_id run \<notin> set (map tr_run_id runs)" using Cons.prems(2) by auto
  note many = Cons.IH [OF one [THEN conjunct1] this(1) rest] this(2)
  have "dict_get known' k \<noteq> None" if "dict_get known k \<noteq> None" for k
    using that one many by (cases "k = tr_run_id run") auto
  moreover have "dict_get known' (tr_run_id run) = dict_get known1 (tr_run_id run)" using many by blast
  ultimately show ?case using one many by auto
qed simp

text \<open>
  Finalising a batch leaves no run without an answer: every listed run that was not terminal
  has a terminal result in the answer, no run that had a result loses it, no run appears twice, and
  when the runs cannot be listed the given results are returned as they are.
\<close>

theorem finalize_covers_batch:
  assumes dm: "details_match st" and list: "rs_list_batch_runs st (br_batch_id batch) w = (Inr runs, w1)"
    and d: "distinct (map tr_run_id runs)" "distinct (map res_run_id results)"
    and fin: "finalize_nonterminal_runs st mark batch results w = (Inr out, w')"
  shows "(\<forall>run \<in> set runs. \<not> is_terminal_run_status (tr_status run) \<longrightarrow>
            (\<exists>r \<in> set out. res_run_id r = tr_run_id run \<and> is_terminal_run_status (res_status r)))
    \<and> set (map res_run_id results) \<subseteq> set (map res_run_id out) \<and> distinct (map res_run_id out)"
proof -
  let ?init = "fold (\<lambda>r. dict_set (res_run_id r) r) results []"
  have get: "dict_get (fold (\<lambda>r. dict_set (res_run_id r) r) rs g) k =
      (case find (\<lambda>r. res_run_id r = k) (rev rs) of None \<Rightarrow> dict_get g k | Some r \<Rightarrow> Some r)" for rs g k
    by (induction rs arbitrary: g) (auto simp: dict_get_set find_append split: option.splits)
  have kr: "keyed_results ?init"
    by (auto simp: keyed_results_def get find_Some_iff split: option.splits)
  have dom: "dict_get ?init k \<noteq> None" if "k \<in> set (map res_run_id results)" for k
    using that by (auto simp: get find_None_iff split: option.splits)
  from fin list obtain known where fo: "foldE (finalize_run st mark) runs ?init w1 = (Inr known, w')"
    and out: "out = List.map_filter (\<lambda>run. dict_get known (tr_run_id run)) (sort_key tr_batch_item_index runs)
       @ filter (\<lambda>r. res_run_id r \<notin> set (map tr_run_id runs)) results"
    by (auto simp: finalize_nonterminal_runs_def catch_Exception_def bindE_Inr_iff)
  note c = finalize_runs_cover [OF dm kr d(1) fo]
  have kk: "res_run_id r = k" if "dict_get known k = Some r" for k r using that c by (auto simp: keyed_results_def)
  have listed: "r \<in> set out" if "run \<in> set runs" "dict_get known (tr_run_id run) = Some r" for run r
    using that by (force simp: out List.map_filter_def)
  have "\<exists>r \<in> set out. res_run_id r = tr_run_id run \<and> is_terminal_run_status (res_status r)"
    if "run \<in> set runs" "\<not> is_terminal_run_status (tr_status run)" for run
    using c that listed kk by metis
  moreover have "k \<in> set (map res_run_id out)" if k: "k \<in> set (map res_run_id results)" for k
  proof (cases "k \<in> set (map tr_run_id runs)")
    case True
    then obtain run r where "run \<in> set runs" "tr_run_id run = k" "dict_get known k = Some r" using dom [OF k] c by auto
    with listed kk show ?thesis by force
  next
    case False
    with k show ?thesis by (auto simp: out)
  qed
  moreover have "distinct (map res_run_id out)"
  proof -
    have m: "map res_run_id (List.map_filter (\<lambda>run. dict_get known (tr_run_id run)) rs) =
        map tr_run_id (filter (\<lambda>run. dict_get known (tr_run_id run) \<noteq> None) rs)" for rs
      using kk by (induction rs) (auto simp: List.map_filter_def)
    have "distinct (map tr_run_id (sort_key tr_batch_item_index runs))"
      using d(1) by (metis distinct_map distinct_sort set_sort)
    moreover have "set (map tr_run_id (filter P (sort_key tr_batch_item_index runs)))
        \<inter> set (map res_run_id (filter (\<lambda>r. res_run_id r \<notin> set (map tr_run_id runs)) results)) = {}" for P
      by (simp add: disjoint_iff image_iff) metis
    ultimately show ?thesis using d(2) unfolding out map_append m distinct_append by (simp only: distinct_map_filter simp_thms)
  qed
  ultimately show ?thesis by blast
qed

theorem finalize_covers_batch_witness:
  "\<exists>out w'. finalize_nonterminal_runs (file_run_store (\<lambda>_. []) []\<lparr>rs_get_task_detail := \<lambda>_ _. raiseE (Exn FileNotFoundError [])\<rparr>)
        (\<lambda>_ _ _ _. retE ()) (sample_batch B_RUNNING) [] (sample_store [sample_run ''r'' QUEUED]) = (Inr out, w')
     \<and> (\<exists>r \<in> set out. res_run_id r = ''r'' \<and> is_terminal_run_status (res_status r))"
proof -
  let ?st = "file_run_store (\<lambda>_. []) []\<lparr>rs_get_task_detail := \<lambda>_ _. raiseE (Exn FileNotFoundError [])\<rparr>"
  let ?w = "sample_store [sample_run ''r'' QUEUED]" and ?r = "sample_run ''r'' QUEUED"
  let ?m = "\<lambda>_ _ _ _. retE ()"
  have dm: "details_match ?st" by (simp add: details_match_def)
  have l: "rs_list_batch_runs ?st (br_batch_id (sample_batch B_RUNNING)) ?w = (Inr [?r], ?w)"
    by (simp add: file_run_store_def list_batch_runs_def sample_store_def sample_batch_def sample_run_def run_key_of_def)
  obtain s w1 where s: "stranded_result ?r ?w = (Inr s, w1)" "w1 = ?w\<lparr>w_tick := w_tick ?w + 1\<rparr>" "res_output s = []" "res_status s = BLOCKED"
    by (simp add: stranded_result_def bare_result_def Let_def)
  have ok: "dict_ok (fs_runs w1)" by (simp add: s(2) sample_store_def dict_ok_def)
  have f: "find_run (tr_run_id ?r) w1 = Some ((''b'', ''r''), ?r)"
    by (simp add: s(2) find_run_def sample_store_def run_key_of_def sample_run_def)
  have tmn: "is_terminal_run_status (res_status s)" by (simp add: s(4) run_tables)
  have "\<exists>out w'. finalize_nonterminal_runs ?st ?m (sample_batch B_RUNNING) [] ?w = (Inr out, w')"
  proof -
    have "tr_status ?r = QUEUED" by (simp add: sample_run_def)
    then have "persist_stranded_result ?st ?r s w1 = persist_stranded_result (file_run_store (\<lambda>_. []) []) ?r s w1"
      by (simp add: persist_stranded_result_def claim_and_write_def reread_run_def Let_def cong: if_cong)
    moreover obtain r' w2 where "persist_stranded_result (file_run_store (\<lambda>_. []) []) ?r s w1 = (Inr r', w2)"
      using persist_stranded_file [OF ok f _ tmn s(3), of "\<lambda>_. []" "[]"] by (auto simp: sample_run_def)
    moreover have "ensure_terminal_result ?r s w1 = (Inr s, w1)" by (simp add: ensure_terminal_result_def terminal_statuses_iff tmn)
    moreover have "tr_status ?r \<notin> set TERMINAL_STATUSES" by (simp add: sample_run_def TERMINAL_STATUSES_def)
    ultimately have "finalize_run ?st ?m ?r [] ?w = (Inr [(tr_run_id ?r, s)], w2)"
      using s(1) by (simp add: finalize_run_def catch_Exception_def catchE_def is_Exception_def Let_def bindE_apply thenE_def)
    then show ?thesis
      using l by (simp add: finalize_nonterminal_runs_def catch_Exception_def)
  qed
  then obtain out w' where fin: "finalize_nonterminal_runs ?st ?m (sample_batch B_RUNNING) [] ?w = (Inr out, w')" by blast
  from finalize_covers_batch [OF dm l _ _ fin] show ?thesis using fin by (auto simp: sample_run_def run_tables)
qed

subsection \<open>What the filesystem store raises\<close>

text \<open>Nothing but exceptions that \<^verbatim>\<open>except Exception\<close> catches.\<close>

lemma file_run_store_ops [simp]:
  "rs_get_run (file_run_store sha rt) = get_run" "rs_update_run (file_run_store sha rt) = update_run"
  "rs_get_batch (file_run_store sha rt) = get_batch" "rs_list_batch_runs (file_run_store sha rt) = list_batch_runs"
  "rs_sweep_stale (file_run_store sha rt) = sweep_stale" "rs_update_batch (file_run_store sha rt) = update_batch"
  "rs_get_task_detail (file_run_store sha rt) = get_task_detail sha rt" "rs_claim_run (file_run_store sha rt) = claim_run"
  "rs_write_result (file_run_store sha rt) = write_result sha rt"
  "rs_fail_stale_run (file_run_store sha rt) = Some (fail_stale_run sha rt)"
  "rs_create_batch (file_run_store sha rt) = create_batch" "rs_create_run (file_run_store sha rt) = create_run"
  "rs_cancel_batch (file_run_store sha rt) = cancel_batch" "rs_cancel_run (file_run_store sha rt) = cancel_run"
  "rs_lookup_idempotent (file_run_store sha rt) = lookup_idempotent"
  "rs_list_batches_by_turn (file_run_store sha rt) = list_batches_by_turn"
  "rs_heartbeat_batch (file_run_store sha rt) = heartbeat_batch"
  by (simp_all add: file_run_store_def)

lemma mild_basic:
  "mild (retE a)" "mild (raiseE (Exn StaleWorkerError msg))" "mild now_ms" "mild uuid4_hex" "mild (put_run key run)"
  "mild (read_run_by_id rid)" "mild (transition_run st p run)" "mild (or_now v)" "mild (liftE (ensure_current_token run tok))"
  "res_output result = [] \<Longrightarrow> mild (put_result sha rt run result)"
  by (auto simp: mild_def is_Exception_def put_run_def read_run_by_id_def transition_run_eq or_now_def ensure_current_token_def
      put_result_ok split: option.splits if_splits)

lemmas mild_rules = mild_basic mild_bindE mild_thenE mild_catch mild_split

lemma mild_store:
  "mild (get_run rid)" "mild (update_run run)" "mild (claim_run rid wk)"
  "res_output result = [] \<Longrightarrow> mild (write_result sha rt rid result tok)"
  "res_output result = [] \<Longrightarrow> mild (fail_stale_run sha rt rid result wk)"
  unfolding get_run_def update_run_def claim_run_def write_result_def fail_stale_run_def Let_def
  by (auto intro!: mild_rules split: prod.splits)

lemma mild_persist: "res_output result = [] \<Longrightarrow> mild (persist_stranded_result (file_run_store sha rt) run result)"
  by (auto simp: persist_stranded_result_def claim_and_write_def reread_run_def force_update_stranded_run_def Let_def
      intro!: mild_rules mild_store)

lemma mild_read_result: "mild (read_result sha rt run)"
proof -
  have "is_Exception e" if "hydrate_result_output sha rt run result fs = Inl e" for result fs e
    using that
    by (auto simp: hydrate_result_output_def output_path_from_ref_def rbind_def is_Exception_def Let_def
        split: option.splits if_splits sum.splits)
  then show ?thesis by (auto simp: mild_def read_result_def split: option.splits sum.splits)
qed

lemma mild_details: "mild (get_task_detail sha rt rid v)" "mild (get_batch b)"
proof -
  show "mild (get_batch b)" by (auto simp: mild_def get_batch_def is_Exception_def split: option.splits)
  show "mild (get_task_detail sha rt rid v)"
    unfolding get_task_detail_def by (auto intro!: mild_rules mild_read_result split: prod.splits)
qed

end
