(* ===== verification/Scheduler.thy ===== *)
theory Scheduler
  imports Results "HOL-Library.Multiset"
begin

section \<open>The batch scheduler\<close>

text \<open>
  \<^verbatim>\<open>BatchScheduler\<close> of \<^verbatim>\<open>orchestration/scheduler.py\<close>: the loop that keeps up to \<^verbatim>\<open>concurrency\<close> runs of
  a batch in flight within the limits of each resource, retries, stops early under the
  \<^verbatim>\<open>fail_fast\<close> and \<^verbatim>\<open>first_success\<close> strategies and returns the results in batch order.

  The loop runs in the state \<open>'e sched\<close>: its own variables and the environment \<open>'e\<close> the hooks act
  on. Tasks are identified by a number. \<^verbatim>\<open>asyncio.wait\<close> is the hook \<open>sh_wait\<close>: given the tasks in
  flight it returns those that have finished, with their results, in some order; which ones finish
  first is its choice, so the theorems hold for every interleaving. The outcome of a task is its
  result, or the cancellation it ended with. \<open>wait_ok\<close> states its documented
  behaviour (\<^verbatim>\<open>FIRST_COMPLETED\<close>: at least one task, each of them in flight and listed once).
\<close>

definition DEFAULT_MAX_CONCURRENCY :: int where
  "DEFAULT_MAX_CONCURRENCY = 20"

record sched_params =
  sp_max_concurrency :: int
  sp_join_strategy :: join_strategy
  sp_override_concurrency :: "int option"
  sp_resource_key :: "(task_run \<Rightarrow> string option) option"
  sp_resource_limits :: "(string, int) dict"
  sp_should_retry :: "(task_run \<Rightarrow> task_result \<Rightarrow> bool) option"

type_synonym running = "(nat, task_run \<times> string option) dict"

record 'e sched_hooks =
  sh_wait :: "running \<Rightarrow> ('e, (nat \<times> task_result result) list) io"
  sh_prepare_retry :: "(task_run \<Rightarrow> task_result \<Rightarrow> ('e, task_run option) io) option"
  sh_cancel_queued :: "(task_run \<Rightarrow> string \<Rightarrow> ('e, task_result) io) option"
  sh_cancel_and_wait :: "nat list \<Rightarrow> ('e, unit) io"

record 'e sched =
  ss_pending :: "task_run list"
  ss_results :: "(string, task_result) dict"
  ss_running :: running
  ss_in_use :: "(string, int) dict"
  ss_stop :: "string option"
  ss_next_task :: nat
  ss_env :: 'e

definition envE :: "('e, 'a) io \<Rightarrow> ('e sched, 'a) io" where
  "envE m = (\<lambda>s. case m (ss_env s) of (r, e) \<Rightarrow> (r, s\<lparr>ss_env := e\<rparr>))"

definition scheduler_max_concurrency :: "sched_params \<Rightarrow> int" where
  "scheduler_max_concurrency p = max 1 (sp_max_concurrency p)"

definition concurrency :: "sched_params \<Rightarrow> int" where
  "concurrency p = max 1 (int_or (sp_override_concurrency p) (scheduler_max_concurrency p))"

definition resource_limits :: "sched_params \<Rightarrow> (string, int) dict" where
  "resource_limits p = filter (\<lambda>(key, limit). key \<noteq> [] \<and> 0 < limit) (sp_resource_limits p)"

definition run_resource :: "sched_params \<Rightarrow> task_run \<Rightarrow> string option" where
  "run_resource p run =
     (case sp_resource_key p of
        None \<Rightarrow> None
      | Some resolve \<Rightarrow>
          (case resolve run of
             None \<Rightarrow> None
           | Some key \<Rightarrow> if key \<in> set (dict_keys (resource_limits p)) then Some key else None))"

definition in_use :: "(string, int) dict \<Rightarrow> string \<Rightarrow> int" where
  "in_use d key = the (dict_get d key)"

definition can_start :: "sched_params \<Rightarrow> (string, int) dict \<Rightarrow> task_run \<Rightarrow> bool" where
  "can_start p used run =
     (case run_resource p run of
        None \<Rightarrow> True
      | Some key \<Rightarrow> in_use used key < the (dict_get (resource_limits p) key))"

definition eligible_for_retry :: "sched_params \<Rightarrow> 'e sched_hooks \<Rightarrow> task_run \<Rightarrow> task_result \<Rightarrow> bool" where
  "eligible_for_retry p h run result =
     (case sp_should_retry p of
        None \<Rightarrow> False
      | Some should_retry \<Rightarrow> sh_prepare_retry h \<noteq> None \<and> should_retry run result)"

definition stop_reason :: "join_strategy \<Rightarrow> task_result \<Rightarrow> string option" where
  "stop_reason join_strategy result =
     (if join_strategy = FAIL_FAST \<and> res_status result \<noteq> COMPLETED
      then Some (''Batch stopped after task '' @ res_task_id result @ '' ended with '' @ task_status_value (res_status result) @ ''.'')
      else if join_strategy = FIRST_SUCCESS \<and> res_status result = COMPLETED
      then Some (''Batch stopped after task '' @ res_task_id result @ '' succeeded.'')
      else None)"

definition should_retry :: "task_run \<Rightarrow> task_result \<Rightarrow> bool" where
  "should_retry run result =
     (let policy = ep_retry (tr_execution_policy run) in
      case res_error_class result of
        None \<Rightarrow> False
      | Some ec \<Rightarrow>
          if res_status result = COMPLETED then False
          else tr_attempt run < max 1 (rp_max_attempts policy) \<and> ec \<in> set (rp_retry_on policy))"

text \<open>\<^verbatim>\<open>pending.pop(next_index)\<close> for the first run that can start.\<close>

fun pick_first :: "('a \<Rightarrow> bool) \<Rightarrow> 'a list \<Rightarrow> ('a \<times> 'a list) option" where
  "pick_first P [] = None"
| "pick_first P (x # xs) =
     (if P x then Some (x, xs) else map_option (\<lambda>(y, ys). (y, x # ys)) (pick_first P xs))"

definition start_run :: "sched_params \<Rightarrow> task_run \<Rightarrow> task_run list \<Rightarrow> 'e sched \<Rightarrow> 'e sched" where
  "start_run p run rest s =
     (let key = run_resource p run in
      s\<lparr>ss_pending := rest,
        ss_in_use := (case key of None \<Rightarrow> ss_in_use s | Some k \<Rightarrow> dict_set k (in_use (ss_in_use s) k + 1) (ss_in_use s)),
        ss_running := dict_set (ss_next_task s) (run, key) (ss_running s),
        ss_next_task := ss_next_task s + 1\<rparr>)"

lemma pick_first_Some:
  "pick_first P xs = Some (y, ys) \<Longrightarrow> P y \<and> (\<exists>us vs. xs = us @ y # vs \<and> ys = us @ vs \<and> list_all (\<lambda>x. \<not> P x) us)"
proof (induction xs arbitrary: y ys)
  case (Cons x xs)
  show ?case
  proof (cases "P x")
    case True
    with Cons.prems show ?thesis by (auto intro: exI [of _ "[]"])
  next
    case False
    with Cons.prems obtain zs where z: "pick_first P xs = Some (y, zs)" "ys = x # zs" by auto
    from Cons.IH [OF z(1)] obtain us vs where "P y" "xs = us @ y # vs" "zs = us @ vs" "list_all (\<lambda>x. \<not> P x) us" by blast
    with False z(2) show ?thesis by (intro conjI exI [of _ "x # us"] exI [of _ vs]) auto
  qed
qed simp

lemma pick_first_length: "pick_first P xs = Some (y, ys) \<Longrightarrow> length ys < length xs"
  by (auto dest!: pick_first_Some)

lemma pick_first_None: "pick_first P xs = None \<longleftrightarrow> list_all (\<lambda>x. \<not> P x) xs"
  by (induction xs) auto

function fill_slots :: "sched_params \<Rightarrow> 'e sched \<Rightarrow> 'e sched" where
  "fill_slots p s =
     (if ss_stop s = None \<and> ss_pending s \<noteq> [] \<and> int (length (ss_running s)) < concurrency p
      then case pick_first (can_start p (ss_in_use s)) (ss_pending s) of
             None \<Rightarrow> s
           | Some (run, rest) \<Rightarrow> fill_slots p (start_run p run rest s)
      else s)"
  by auto
termination
  by (relation "measure (\<lambda>(p, s). length (ss_pending s))")
    (auto simp: start_run_def Let_def dest: pick_first_length)

declare fill_slots.simps [simp del]

text \<open>Taking the finished tasks out of \<^verbatim>\<open>running\<close> and giving their resources back.\<close>

definition collect_one :: "nat \<times> task_result result \<Rightarrow> ('e sched, task_run \<times> task_result) io" where
  "collect_one d = (\<lambda>s.
     case d of (task, outcome) \<Rightarrow>
       (case the (dict_get (ss_running s) task) of (run, key) \<Rightarrow>
         (rbind outcome (\<lambda>result. Inr (run, result)),
          s\<lparr>ss_running := dict_pop task (ss_running s),
            ss_in_use := (case key of None \<Rightarrow> ss_in_use s
                          | Some k \<Rightarrow> dict_set k (max 0 (in_use (ss_in_use s) k - 1)) (ss_in_use s))\<rparr>)))"

definition record_result :: "sched_params \<Rightarrow> task_run \<Rightarrow> task_result \<Rightarrow> 'e sched \<Rightarrow> 'e sched" where
  "record_result p run result s =
     s\<lparr>ss_results := dict_set (tr_run_id run) result (ss_results s),
       ss_stop := opt_or (ss_stop s) (stop_reason (sp_join_strategy p) result)\<rparr>"

definition settle_one :: "sched_params \<Rightarrow> 'e sched_hooks \<Rightarrow> bool \<Rightarrow> task_run \<times> task_result \<Rightarrow> ('e sched, unit) io" where
  "settle_one p h round_stops c =
     (case c of (run, result) \<Rightarrow>
       if \<not> round_stops \<and> eligible_for_retry p h run result
       then bindE (envE (the (sh_prepare_retry h) run result)) (\<lambda>retry_run.
              case retry_run of
                Some r \<Rightarrow> modifyE (\<lambda>s. s\<lparr>ss_pending := ss_pending s @ [r]\<rparr>)
              | None \<Rightarrow> modifyE (record_result p run result))
       else modifyE (record_result p run result))"

text \<open>One turn of the outer loop; the value says whether to go round again.\<close>

definition sched_round :: "sched_params \<Rightarrow> 'e sched_hooks \<Rightarrow> ('e sched, bool) io" where
  "sched_round p h = (\<lambda>s0.
     if ss_pending s0 = [] \<and> ss_running s0 = [] then (Inr False, s0)
     else
       let s = fill_slots p s0 in
       if ss_running s = [] then (Inr False, s)
       else bindE (envE (sh_wait h (ss_running s))) (\<lambda>done.
            bindE (mapE collect_one done) (\<lambda>completed.
            bindE (getE ss_stop) (\<lambda>stop.
              let round_stops = stop \<noteq> None
                    \<or> list_ex (\<lambda>(_, result). stop_reason (sp_join_strategy p) result \<noteq> None) completed
              in thenE (forE completed (settle_one p h round_stops)) (retE True)))) s)"

definition cancel_remaining ::
    "task_run list \<Rightarrow> (task_run \<Rightarrow> string \<Rightarrow> ('e, task_result) io) option \<Rightarrow> string \<Rightarrow> ('e sched, unit) io" where
  "cancel_remaining remaining cancel_queued reason =
     forE remaining (\<lambda>run.
       case cancel_queued of
         None \<Rightarrow> retE ()
       | Some cancel \<Rightarrow>
           bindE (envE (cancel run reason)) (\<lambda>result.
             modifyE (\<lambda>s. s\<lparr>ss_results := dict_set (tr_run_id run) result (ss_results s)\<rparr>)))"

text \<open>\<^verbatim>\<open>_batch_item_index\<close>; the generator raises \<^verbatim>\<open>StopIteration\<close> when no run has the identifier.\<close>

definition batch_item_index :: "task_run list \<Rightarrow> string \<Rightarrow> int option" where
  "batch_item_index runs run_id = map_option tr_batch_item_index (find (\<lambda>run. tr_run_id run = run_id) runs)"

definition sort_results :: "task_run list \<Rightarrow> task_result list \<Rightarrow> task_result list result" where
  "sort_results runs results =
     (if list_ex (\<lambda>r. batch_item_index runs (res_run_id r) = None) results
      then Inl (Exn (OtherError ''StopIteration'') [])
      else Inr (sort_key (\<lambda>r. the (batch_item_index runs (res_run_id r))) results))"

definition sched_init :: "sched_params \<Rightarrow> task_run list \<Rightarrow> 'e \<Rightarrow> 'e sched" where
  "sched_init p runs e =
     \<lparr>ss_pending = runs, ss_results = [], ss_running = [],
      ss_in_use = map (\<lambda>(key, _). (key, 0)) (resource_limits p), ss_stop = None, ss_next_task = 0, ss_env = e\<rparr>"

text \<open>
  \<^verbatim>\<open>BatchScheduler.run\<close>. The \<^verbatim>\<open>finally\<close> block cancels what is still in flight and waits for it; after a
  normal exit of the loop nothing is.
\<close>

definition sched_tail :: "sched_params \<Rightarrow> 'e sched_hooks \<Rightarrow> task_run list \<Rightarrow> ('e sched, task_result list) io" where
  "sched_tail p h runs =
     thenE (\<lambda>s. case ss_stop s of
                  None \<Rightarrow> (Inr (), s)
                | Some reason \<Rightarrow> cancel_remaining (ss_pending s) (sh_cancel_queued h) reason s)
       (\<lambda>s. (sort_results runs (dict_values (ss_results s)), s))"

definition finally_cancel :: "'e sched_hooks \<Rightarrow> 'a result \<Rightarrow> ('e sched, 'a) io" where
  "finally_cancel h r =
     bindE (getE (\<lambda>s. dict_keys (ss_running s))) (\<lambda>in_flight.
       if in_flight = [] then liftE r
       else thenE (envE (sh_cancel_and_wait h in_flight)) (liftE r))"

definition scheduler_run ::
    "sched_params \<Rightarrow> 'e sched_hooks \<Rightarrow> task_run list \<Rightarrow> 'e \<Rightarrow> (task_result list result \<times> 'e) option" where
  "scheduler_run p h runs e =
     (if runs = [] then Some (Inr [], e)
      else
        case whileE (sched_round p h) (sched_init p runs e) of
          None \<Rightarrow> None
        | Some (Inl x, s) \<Rightarrow> (case finally_cancel h (Inl x) s of (r, s') \<Rightarrow> Some (r, ss_env s'))
        | Some (Inr _, s) \<Rightarrow>
            (case sched_tail p h runs s of
               (r, s') \<Rightarrow> (case finally_cancel h r s' of (r', s'') \<Rightarrow> Some (r', ss_env s''))))"

subsection \<open>What the hooks promise\<close>

definition wait_ok :: "'e sched_hooks \<Rightarrow> bool" where
  "wait_ok h \<longleftrightarrow>
     (\<forall>rn e. rn \<noteq> [] \<longrightarrow>
        (\<exists>finished e'. sh_wait h rn e = (Inr finished, e') \<and> finished \<noteq> [] \<and> distinct (map fst finished)
           \<and> (\<forall>(t, outcome) \<in> set finished. \<exists>run key result. dict_get rn t = Some (run, key)
                \<and> outcome = Inr result \<and> res_run_id result = tr_run_id run)))"

definition attempts_left :: "task_run \<Rightarrow> nat" where
  "attempts_left r = nat (max 1 (rp_max_attempts (ep_retry (tr_execution_policy r))) - tr_attempt r)"

definition retry_ok :: "'e sched_hooks \<Rightarrow> bool" where
  "retry_ok h \<longleftrightarrow>
     (\<forall>prep. sh_prepare_retry h = Some prep \<longrightarrow>
        (\<forall>run result e. \<exists>r e'. prep run result e = (Inr r, e') \<and>
           (\<forall>run'. r = Some run' \<longrightarrow> tr_run_id run' = tr_run_id run \<and> tr_attempt run' = tr_attempt run + 1
              \<and> tr_execution_policy run' = tr_execution_policy run)))"

definition cancel_ok :: "'e sched_hooks \<Rightarrow> bool" where
  "cancel_ok h \<longleftrightarrow>
     (\<exists>cancel. sh_cancel_queued h = Some cancel \<and>
        (\<forall>run reason e. \<exists>result e'. cancel run reason e = (Inr result, e') \<and> res_run_id result = tr_run_id run))"

subsection \<open>The loop invariant\<close>

definition key_count :: "string \<Rightarrow> running \<Rightarrow> int" where
  "key_count k rn = int (length (filter (\<lambda>(_, _, key). key = Some k) rn))"

definition within_limits :: "sched_params \<Rightarrow> running \<Rightarrow> bool" where
  "within_limits p rn \<longleftrightarrow>
     int (length rn) \<le> concurrency p
     \<and> (\<forall>(k, limit) \<in> set (resource_limits p). key_count k rn \<le> limit)"

definition id_bag :: "(task_run \<times> task_result) list \<Rightarrow> 'e sched \<Rightarrow> string multiset" where
  "id_bag cs s = mset (map tr_run_id (ss_pending s)) + mset (map (\<lambda>(_, r, _). tr_run_id r) (ss_running s))
     + mset (map (\<lambda>(r, _). tr_run_id r) cs) + mset (dict_keys (ss_results s))"

definition sched_inv :: "sched_params \<Rightarrow> task_run list \<Rightarrow> (task_run \<times> task_result) list \<Rightarrow> 'e sched \<Rightarrow> bool" where
  "sched_inv p runs cs s \<longleftrightarrow>
     dict_ok (ss_running s)
     \<and> (\<forall>t \<in> set (dict_keys (ss_running s)). t < ss_next_task s)
     \<and> (\<forall>k \<in> set (dict_keys (resource_limits p)). dict_get (ss_in_use s) k = Some (key_count k (ss_running s)))
     \<and> within_limits p (ss_running s)
     \<and> (\<forall>(_, r, key) \<in> set (ss_running s). key = run_resource p r)
     \<and> id_bag cs s = mset (map tr_run_id runs)
     \<and> (\<forall>(i, res) \<in> set (ss_results s). res_run_id res = i)
     \<and> (\<forall>(r, res) \<in> set cs. res_run_id res = tr_run_id r)"

lemma run_resource_key: "run_resource p r = Some k \<Longrightarrow> k \<in> set (dict_keys (resource_limits p))"
  by (auto simp: run_resource_def split: option.splits if_splits)

lemma update_fresh: "k \<notin> set (dict_keys d) \<Longrightarrow> dict_set k v d = d @ [(k, v)]"
  by (induction d) auto

lemma key_count_append [simp]:
  "key_count k (rn @ [(t, r, key)]) = key_count k rn + (if key = Some k then 1 else 0)"
  by (simp add: key_count_def)

lemma concurrency_pos: "1 \<le> concurrency p"
  by (simp add: concurrency_def)

lemma limit_of: "dict_ok (sp_resource_limits p) \<Longrightarrow> (k, l) \<in> set (resource_limits p) \<Longrightarrow> dict_get (resource_limits p) k = Some l"
proof -
  assume "dict_ok (sp_resource_limits p)" and kl: "(k, l) \<in> set (resource_limits p)"
  then have "dict_ok (resource_limits p)" by (simp add: resource_limits_def dict_ok_def distinct_map_filter)
  with kl show ?thesis by (simp add: dict_ok_get_iff)
qed

lemma start_run_inv:
  assumes lims: "dict_ok (sp_resource_limits p)" and inv: "sched_inv p runs cs s"
    and room: "int (length (ss_running s)) < concurrency p"
    and pk: "pick_first (can_start p (ss_in_use s)) (ss_pending s) = Some (run, rest)"
  shows "sched_inv p runs cs (start_run p run rest s)"
proof -
  let ?key = "run_resource p run"
  let ?rn = "ss_running s @ [(ss_next_task s, run, ?key)]"
  from pick_first_Some [OF pk] obtain us vs where can: "can_start p (ss_in_use s) run"
    and pend: "ss_pending s = us @ run # vs" and rest: "rest = us @ vs" by blast
  have fresh: "ss_next_task s \<notin> set (dict_keys (ss_running s))" using inv by (auto simp: sched_inv_def)
  then have rn: "ss_running (start_run p run rest s) = ?rn"
    by (simp add: start_run_def Let_def update_fresh)
  have counts: "\<forall>k \<in> set (dict_keys (resource_limits p)). dict_get (ss_in_use s) k = Some (key_count k (ss_running s))"
    using inv by (simp add: sched_inv_def)
  have use: "\<forall>k \<in> set (dict_keys (resource_limits p)). dict_get (ss_in_use (start_run p run rest s)) k = Some (key_count k ?rn)"
    using counts run_resource_key [of p run]
    by (auto simp: start_run_def Let_def dict_get_set in_use_def split: option.splits)
  have "key_count k ?rn \<le> l" if kl: "(k, l) \<in> set (resource_limits p)" for k l
  proof (cases "?key = Some k")
    case True
    with can bspec [OF counts run_resource_key [OF True]] limit_of [OF lims kl] show ?thesis
      by (simp add: can_start_def in_use_def)
  next
    case False
    with inv kl show ?thesis by (auto simp: sched_inv_def within_limits_def)
  qed
  with room have lim: "within_limits p ?rn" by (auto simp: within_limits_def)
  have bag: "id_bag cs (start_run p run rest s) = id_bag cs s"
    using rn by (simp add: id_bag_def pend rest) (simp add: start_run_def Let_def pend rest)
  have rest_eq: "ss_results (start_run p run rest s) = ss_results s"
    "ss_next_task (start_run p run rest s) = ss_next_task s + 1"
    by (simp_all add: start_run_def Let_def)
  show ?thesis
    unfolding sched_inv_def rn rest_eq bag
    using inv use lim fresh by (auto simp: sched_inv_def dict_ok_def)
qed

lemma fill_slots_full:
  "\<not> (ss_stop s = None \<and> ss_pending s \<noteq> [] \<and> int (length (ss_running s)) < concurrency p) \<Longrightarrow> fill_slots p s = s"
  by (subst fill_slots.simps) auto

lemma fill_slots_inv:
  assumes "dict_ok (sp_resource_limits p)" and "sched_inv p runs cs s"
  shows "sched_inv p runs cs (fill_slots p s)"
  using assms
proof (induction p s rule: fill_slots.induct)
  case (1 p s)
  show ?case
  proof (cases "ss_stop s = None \<and> ss_pending s \<noteq> [] \<and> int (length (ss_running s)) < concurrency p")
    case True
    show ?thesis
    proof (cases "pick_first (can_start p (ss_in_use s)) (ss_pending s)")
      case None
      with 1 show ?thesis by (subst fill_slots.simps) simp
    next
      case (Some q)
      obtain run rest where q: "q = (run, rest)" by (cases q)
      have "sched_inv p runs cs (fill_slots p (start_run p run rest s))"
        using 1 True Some q start_run_inv [of p runs cs s run rest] by auto
      with True Some q show ?thesis by (subst fill_slots.simps) simp
    qed
  next
    case False
    with 1 show ?thesis by (simp add: fill_slots_full)
  qed
qed

text \<open>The variables the filling loop leaves alone, and what it moves.\<close>

lemma start_run_frame [simp]:
  "ss_results (start_run p run rest s) = ss_results s"
  "ss_stop (start_run p run rest s) = ss_stop s"
  "ss_env (start_run p run rest s) = ss_env s"
  "ss_pending (start_run p run rest s) = rest"
  by (simp_all add: start_run_def Let_def)

lemma fill_slots_frame [simp]:
  "ss_results (fill_slots p s) = ss_results s"
  "ss_stop (fill_slots p s) = ss_stop s"
  "ss_env (fill_slots p s) = ss_env s"
  by (induction p s rule: fill_slots.induct; subst fill_slots.simps; auto split: option.splits)+

lemma start_run_running: "ss_running (start_run p run rest s) \<noteq> []"
  by (simp add: start_run_def Let_def)

lemma fill_slots_running: "ss_running s \<noteq> [] \<Longrightarrow> ss_running (fill_slots p s) \<noteq> []"
proof (induction p s rule: fill_slots.induct)
  case (1 p s)
  then show ?case by (subst fill_slots.simps) (auto simp: start_run_running split: option.splits)
qed

text \<open>With nothing in flight every pending run can start, so a batch that has not stopped never waits for nothing.\<close>

lemma fill_slots_progress:
  assumes lims: "dict_ok (sp_resource_limits p)" and inv: "sched_inv p runs cs s"
    and "ss_stop s = None" and "ss_pending s \<noteq> [] \<or> ss_running s \<noteq> []"
  shows "ss_running (fill_slots p s) \<noteq> []"
proof (cases "ss_running s = []")
  case True
  with assms obtain r rs where r: "ss_pending s = r # rs" by (cases "ss_pending s") auto
  have "can_start p (ss_in_use s) r"
  proof (cases "run_resource p r")
    case (Some k)
    note k = run_resource_key [OF Some]
    then obtain l where l: "(k, l) \<in> set (resource_limits p)" by auto
    then have "0 < l" by (auto simp: resource_limits_def)
    moreover have "dict_get (ss_in_use s) k = Some 0"
      using inv k True by (auto simp: sched_inv_def key_count_def)
    ultimately show ?thesis using Some limit_of [OF lims l] by (simp add: can_start_def in_use_def)
  qed (simp add: can_start_def)
  then have "fill_slots p s = fill_slots p (start_run p r rs s)"
    using True r assms(3) concurrency_pos [of p] by (subst fill_slots.simps) simp
  then show ?thesis using fill_slots_running start_run_running by metis
qed (rule fill_slots_running)

subsection \<open>Collecting finished tasks\<close>

lemma running_split:
  assumes "dict_ok rn" and "dict_get rn t = Some x"
  obtains us vs where "rn = us @ (t, x) # vs" and "dict_pop t rn = us @ vs"
proof -
  from dict_get_in [OF assms(2)] obtain us vs where rn: "rn = us @ (t, x) # vs" by (meson split_list)
  with assms(1) have "t \<notin> fst ` set us" "t \<notin> fst ` set vs" by (auto simp: dict_ok_def)
  then have "dict_pop t us = us" "dict_pop t vs = vs" by simp_all
  with rn have "dict_pop t rn = us @ vs" by (simp add: AList.delete_eq)
  with rn that show thesis by blast
qed

lemma collect_one_inv:
  assumes inv: "sched_inv p runs cs s" and g: "dict_get (ss_running s) t = Some (run, key)"
    and id: "res_run_id result = tr_run_id run"
  shows "\<exists>s'. collect_one (t, Inr result) s = (Inr (run, result), s') \<and> sched_inv p runs (cs @ [(run, result)]) s'
     \<and> ss_running s' = dict_pop t (ss_running s) \<and> ss_pending s' = ss_pending s \<and> ss_stop s' = ss_stop s
     \<and> ss_results s' = ss_results s"
proof -
  have ok: "dict_ok (ss_running s)" using inv by (simp add: sched_inv_def)
  from running_split [OF ok g] obtain us vs where rn: "ss_running s = us @ (t, run, key) # vs"
    and pop: "dict_pop t (ss_running s) = us @ vs" .
  let ?use = "case key of None \<Rightarrow> ss_in_use s | Some k \<Rightarrow> dict_set k (max 0 (in_use (ss_in_use s) k - 1)) (ss_in_use s)"
  let ?s = "s\<lparr>ss_running := us @ vs, ss_in_use := ?use\<rparr>"
  have c: "collect_one (t, Inr result) s = (Inr (run, result), ?s)"
    using g pop by (simp add: collect_one_def)
  have cnt: "key_count k (ss_running s) = key_count k (us @ vs) + (if key = Some k then 1 else 0)" for k
    by (simp add: rn key_count_def)
  have counts: "\<forall>k \<in> set (dict_keys (resource_limits p)). dict_get (ss_in_use s) k = Some (key_count k (ss_running s))"
    using inv by (simp add: sched_inv_def)
  have use: "\<forall>k \<in> set (dict_keys (resource_limits p)). dict_get ?use k = Some (key_count k (us @ vs))"
  proof
    fix k assume k: "k \<in> set (dict_keys (resource_limits p))"
    have "0 \<le> key_count k (us @ vs)" by (simp add: key_count_def)
    with bspec [OF counts k] cnt [of k] show "dict_get ?use k = Some (key_count k (us @ vs))"
      by (auto simp: dict_get_set in_use_def split: option.splits)
  qed
  have lim: "within_limits p (us @ vs)"
    unfolding within_limits_def
  proof (intro conjI ballI, goal_cases)
    case 1
    have "int (length (ss_running s)) \<le> concurrency p" using inv by (simp add: sched_inv_def within_limits_def)
    with rn show ?case by simp
  next
    case (2 x)
    obtain k l where x: "x = (k, l)" by (cases x)
    have "key_count k (ss_running s) \<le> l" using inv 2 x by (auto simp: sched_inv_def within_limits_def)
    with cnt [of k] x show ?case by (simp split: if_splits)
  qed
  have bag: "id_bag (cs @ [(run, result)]) ?s = id_bag cs s" by (simp add: id_bag_def rn)
  have "sched_inv p runs (cs @ [(run, result)]) ?s"
    unfolding sched_inv_def bag using inv use lim id by (auto simp: sched_inv_def dict_ok_def rn)
  with c pop show ?thesis by auto
qed

definition outcomes_ok :: "running \<Rightarrow> (nat \<times> task_result result) list \<Rightarrow> bool" where
  "outcomes_ok rn ds \<longleftrightarrow> distinct (map fst ds) \<and>
     (\<forall>(t, outcome) \<in> set ds. \<exists>run key result. dict_get rn t = Some (run, key)
        \<and> outcome = Inr result \<and> res_run_id result = tr_run_id run)"

lemma collect_inv:
  assumes "sched_inv p runs cs s" and "outcomes_ok (ss_running s) ds"
  shows "\<exists>new s'. mapE collect_one ds s = (Inr new, s') \<and> sched_inv p runs (cs @ new) s' \<and> length new = length ds
     \<and> ss_pending s' = ss_pending s \<and> ss_stop s' = ss_stop s \<and> ss_results s' = ss_results s
     \<and> mset (map (\<lambda>(_, r, _). r) (ss_running s')) + mset (map fst new) = mset (map (\<lambda>(_, r, _). r) (ss_running s))"
  using assms
proof (induction ds arbitrary: cs s)
  case (Cons d ds)
  obtain t outcome where d: "d = (t, outcome)" by (cases d)
  with Cons.prems(2) obtain run key result where g: "dict_get (ss_running s) t = Some (run, key)"
    and o: "outcome = Inr result" and id: "res_run_id result = tr_run_id run"
    by (auto simp: outcomes_ok_def)
  from collect_one_inv [OF Cons.prems(1) g id] obtain s1 where
    c: "collect_one d s = (Inr (run, result), s1)" and inv1: "sched_inv p runs (cs @ [(run, result)]) s1"
    and rn1: "ss_running s1 = dict_pop t (ss_running s)"
    and fr: "ss_pending s1 = ss_pending s" "ss_stop s1 = ss_stop s" "ss_results s1 = ss_results s"
    using d o by auto
  have "outcomes_ok (ss_running s1) ds"
    using Cons.prems(2) d by (force simp: outcomes_ok_def rn1 dict_get_pop)
  from Cons.IH [OF inv1 this] obtain new s' where
    m: "mapE collect_one ds s1 = (Inr new, s')" and inv': "sched_inv p runs ((cs @ [(run, result)]) @ new) s'"
    and len: "length new = length ds"
    and fr': "ss_pending s' = ss_pending s1" "ss_stop s' = ss_stop s1" "ss_results s' = ss_results s1"
    and ms: "mset (map (\<lambda>(_, r, _). r) (ss_running s')) + mset (map fst new) = mset (map (\<lambda>(_, r, _). r) (ss_running s1))"
    by blast
  have ok: "dict_ok (ss_running s)" using Cons.prems(1) by (simp add: sched_inv_def)
  from running_split [OF ok g] obtain us vs where "ss_running s = us @ (t, run, key) # vs"
    and "dict_pop t (ss_running s) = us @ vs" .
  with rn1 have "mset (map (\<lambda>(_, r, _). r) (ss_running s)) = add_mset run (mset (map (\<lambda>(_, r, _). r) (ss_running s1)))"
    by simp
  with c m inv' len fr fr' ms show ?case
    by (intro exI [of _ "(run, result) # new"] exI [of _ s']) simp
qed simp

subsection \<open>Settling them\<close>

definition work :: "(task_run \<times> task_result) list \<Rightarrow> 'e sched \<Rightarrow> nat" where
  "work cs s = (\<Sum>r \<leftarrow> ss_pending s. attempts_left r + 1) + (\<Sum>r \<leftarrow> map (\<lambda>(_, r, _). r) (ss_running s). attempts_left r + 1)
     + (\<Sum>r \<leftarrow> map fst cs. attempts_left r + 1)"

lemma retry_decreases:
  assumes "should_retry run result" and "tr_attempt run' = tr_attempt run + 1"
    and "tr_execution_policy run' = tr_execution_policy run"
  shows "attempts_left run' < attempts_left run"
  using assms by (auto simp: should_retry_def attempts_left_def Let_def split: option.splits if_splits)

definition hooks_ok :: "sched_params \<Rightarrow> 'e sched_hooks \<Rightarrow> bool" where
  "hooks_ok p h \<longleftrightarrow> dict_ok (sp_resource_limits p) \<and> sp_should_retry p \<in> {None, Some should_retry} \<and> wait_ok h \<and> retry_ok h"

lemma hooks_ok_limits: "hooks_ok p h \<Longrightarrow> dict_ok (sp_resource_limits p)"
  by (simp add: hooks_ok_def)

lemma record_result_inv:
  assumes inv: "sched_inv p runs ((run, result) # cs) s" and d: "distinct (map tr_run_id runs)"
  shows "sched_inv p runs cs (record_result p run result s)"
proof -
  have "id_bag ((run, result) # cs) s = mset (map tr_run_id runs)" using inv by (simp add: sched_inv_def)
  then have "count (id_bag ((run, result) # cs) s) (tr_run_id run) \<le> 1"
    using d by (metis distinct_count_atmost_1 le_refl count_mset_0_iff zero_le_one)
  then have "count (mset (dict_keys (ss_results s))) (tr_run_id run) = 0"
    by (simp add: id_bag_def del: mset_map)
  then have fresh: "dict_set (tr_run_id run) result (ss_results s) = ss_results s @ [(tr_run_id run, result)]"
    unfolding count_mset_0_iff by (rule update_fresh)
  have bag: "id_bag cs (record_result p run result s) = id_bag ((run, result) # cs) s"
    by (simp add: id_bag_def record_result_def fresh)
  show ?thesis
    unfolding sched_inv_def bag
    using inv by (auto simp: sched_inv_def record_result_def fresh)
qed

lemma requeue_inv:
  assumes inv: "sched_inv p runs ((run, result) # cs) s" and "tr_run_id run' = tr_run_id run"
  shows "sched_inv p runs cs (s\<lparr>ss_env := e, ss_pending := ss_pending s @ [run']\<rparr>)"
proof -
  have "id_bag cs (s\<lparr>ss_env := e, ss_pending := ss_pending s @ [run']\<rparr>) = id_bag ((run, result) # cs) s"
    using assms(2) by (simp add: id_bag_def)
  with inv show ?thesis by (auto simp: sched_inv_def)
qed

lemma sched_inv_env [simp]: "sched_inv p runs cs (s\<lparr>ss_env := e\<rparr>) = sched_inv p runs cs s"
  by (simp add: sched_inv_def id_bag_def)

lemma work_simps [simp]:
  "work cs (s\<lparr>ss_env := e\<rparr>) = work cs s"
  "work cs (record_result p run result s) = work cs s"
  "work (c # cs) s = work cs s + attempts_left (fst c) + 1"
  "work cs (s\<lparr>ss_pending := ss_pending s @ [r]\<rparr>) = work cs s + attempts_left r + 1"
  by (simp_all add: work_def record_result_def)

lemma settle_one_inv:
  assumes ok: "hooks_ok p h" and inv: "sched_inv p runs (c # cs) s" and d: "distinct (map tr_run_id runs)"
  shows "\<exists>s'. settle_one p h b c s = (Inr (), s') \<and> sched_inv p runs cs s' \<and> work cs s' < work (c # cs) s
     \<and> ss_running s' = ss_running s \<and> (b \<longrightarrow> ss_pending s' = ss_pending s) \<and> (ss_stop s \<noteq> None \<longrightarrow> ss_stop s' = ss_stop s)"
proof -
  obtain run result where c: "c = (run, result)" by (cases c)
  have rec: "sched_inv p runs cs (record_result p run result (s\<lparr>ss_env := e\<rparr>))" for e
    using record_result_inv [of p runs run result cs "s\<lparr>ss_env := e\<rparr>"] inv d c by simp
  have rec0: "sched_inv p runs cs (record_result p run result s)"
    using record_result_inv inv d c by blast
  have stop: "ss_stop s \<noteq> None \<Longrightarrow> ss_stop (record_result p run result (s\<lparr>ss_env := e\<rparr>)) = ss_stop s"
    "ss_stop s \<noteq> None \<Longrightarrow> ss_stop (record_result p run result s) = ss_stop s"
    "ss_running (record_result p run result (s\<lparr>ss_env := e\<rparr>)) = ss_running s"
    "ss_running (record_result p run result s) = ss_running s"
    "ss_pending (record_result p run result s) = ss_pending s" for e
    by (auto simp: record_result_def)
  show ?thesis
  proof (cases "\<not> b \<and> eligible_for_retry p h run result")
    case True
    then obtain prep where prep: "sh_prepare_retry h = Some prep" and sr: "should_retry run result"
      using ok by (auto simp: eligible_for_retry_def hooks_ok_def split: option.splits)
    obtain r e' where pr: "prep run result (ss_env s) = (Inr r, e')"
      and r: "\<And>run'. r = Some run' \<Longrightarrow> tr_run_id run' = tr_run_id run \<and> tr_attempt run' = tr_attempt run + 1
                \<and> tr_execution_policy run' = tr_execution_policy run"
      using ok prep unfolding hooks_ok_def retry_ok_def by metis
    show ?thesis
    proof (cases r)
      case None
      with True prep pr c rec [of e'] stop show ?thesis by (simp add: settle_one_def envE_def)
    next
      case (Some run')
      note r' = r [OF Some]
      have "sched_inv p runs cs (s\<lparr>ss_env := e', ss_pending := ss_pending s @ [run']\<rparr>)"
        using requeue_inv [of p runs run result cs s run' e'] inv c r' by simp
      moreover have "work cs (s\<lparr>ss_env := e', ss_pending := ss_pending s @ [run']\<rparr>) < work (c # cs) s"
        using retry_decreases [OF sr, of run'] r' c work_simps(4) [of cs "s\<lparr>ss_env := e'\<rparr>" run'] by simp
      ultimately show ?thesis using True prep pr c Some by (simp add: settle_one_def envE_def)
    qed
  next
    case False
    with rec0 stop c show ?thesis by (auto simp: settle_one_def)
  qed
qed

lemma settle_all_inv:
  assumes ok: "hooks_ok p h" and d: "distinct (map tr_run_id runs)" and "sched_inv p runs cs s"
  shows "\<exists>s'. forE cs (settle_one p h b) s = (Inr (), s') \<and> sched_inv p runs [] s' \<and> work [] s' + length cs \<le> work cs s
     \<and> ss_running s' = ss_running s \<and> (b \<longrightarrow> ss_pending s' = ss_pending s) \<and> (ss_stop s \<noteq> None \<longrightarrow> ss_stop s' = ss_stop s)"
  using assms(3)
proof (induction cs arbitrary: s)
  case (Cons c cs)
  from settle_one_inv [OF ok Cons.prems d, of b] obtain s1 where
    s1: "settle_one p h b c s = (Inr (), s1)" "sched_inv p runs cs s1" "work cs s1 < work (c # cs) s"
      "ss_running s1 = ss_running s" "b \<longrightarrow> ss_pending s1 = ss_pending s" "ss_stop s \<noteq> None \<longrightarrow> ss_stop s1 = ss_stop s"
    by blast
  from Cons.IH [OF s1(2)] obtain s' where
    s': "forE cs (settle_one p h b) s1 = (Inr (), s')" "sched_inv p runs [] s'" "work [] s' + length cs \<le> work cs s1"
      "ss_running s' = ss_running s1" "b \<longrightarrow> ss_pending s' = ss_pending s1" "ss_stop s1 \<noteq> None \<longrightarrow> ss_stop s' = ss_stop s1"
    by blast
  from s1 s' show ?case by (intro exI [of _ s']) auto
qed (simp add: work_def)

subsection \<open>One round\<close>

lemma start_run_work:
  assumes inv: "sched_inv p runs cs s" and pk: "pick_first (can_start p (ss_in_use s)) (ss_pending s) = Some (run, rest)"
  shows "work cs (start_run p run rest s) = work cs s"
proof -
  from pick_first_Some [OF pk] obtain us vs where "ss_pending s = us @ run # vs" and "rest = us @ vs" by blast
  moreover have "ss_next_task s \<notin> set (dict_keys (ss_running s))" using inv by (auto simp: sched_inv_def)
  then have "ss_running (start_run p run rest s) = ss_running s @ [(ss_next_task s, run, run_resource p run)]"
    by (simp add: start_run_def Let_def update_fresh)
  ultimately show ?thesis by (simp add: work_def)
qed

lemma fill_slots_work:
  assumes "dict_ok (sp_resource_limits p)" and "sched_inv p runs cs s"
  shows "work cs (fill_slots p s) = work cs s"
  using assms
proof (induction p s rule: fill_slots.induct)
  case (1 p s)
  show ?case
  proof (cases "ss_stop s = None \<and> ss_pending s \<noteq> [] \<and> int (length (ss_running s)) < concurrency p")
    case True
    show ?thesis
    proof (cases "pick_first (can_start p (ss_in_use s)) (ss_pending s)")
      case None
      then show ?thesis by (subst fill_slots.simps) simp
    next
      case (Some q)
      obtain run rest where q: "q = (run, rest)" by (cases q)
      have "work cs (fill_slots p (start_run p run rest s)) = work cs (start_run p run rest s)"
        using 1 True Some q start_run_inv [of p runs cs s run rest] by auto
      also have "\<dots> = work cs s" using start_run_work [OF 1(3)] Some q by simp
      finally show ?thesis using True Some q by (subst fill_slots.simps) simp
    qed
  next
    case False
    then show ?thesis by (simp add: fill_slots_full)
  qed
qed

lemma work_running_list:
  "work cs s = (\<Sum>r \<leftarrow> ss_pending s. attempts_left r + 1) + (\<Sum>r \<in># mset (map (\<lambda>(_, r, _). r) (ss_running s)) + mset (map fst cs). attempts_left r + 1)"
  by (simp add: work_def sum_mset_sum_list [symmetric] image_mset.compositionality comp_def)

lemma wait_ok_outcomes:
  assumes "wait_ok h" and "rn \<noteq> []"
  obtains finished e' where "sh_wait h rn e = (Inr finished, e')" and "finished \<noteq> []" and "outcomes_ok rn finished"
  using assms(1) [unfolded wait_ok_def, rule_format, OF assms(2), of e] unfolding outcomes_ok_def by blast

lemma sched_round_inv:
  assumes ok: "hooks_ok p h" and d: "distinct (map tr_run_id runs)" and inv: "sched_inv p runs [] s"
  shows "\<exists>again s'. sched_round p h s = (Inr again, s') \<and> sched_inv p runs [] s'
     \<and> (again \<longrightarrow> work [] s' < work [] s)
     \<and> (\<not> again \<longrightarrow> ss_running s' = [] \<and> (ss_stop s' = None \<longrightarrow> ss_pending s' = []))
     \<and> (ss_stop s \<noteq> None \<longrightarrow> ss_stop s' = ss_stop s \<and> ss_pending s' = ss_pending s)"
proof (cases "ss_pending s = [] \<and> ss_running s = []")
  case True
  with inv show ?thesis by (intro exI [of _ False] exI [of _ s]) (simp add: sched_round_def)
next
  case False
  note lims = hooks_ok_limits [OF ok]
  let ?f = "fill_slots p s"
  have inv1: "sched_inv p runs [] ?f" using fill_slots_inv [OF lims inv] .
  have stopped: "ss_stop s \<noteq> None \<Longrightarrow> ?f = s" by (rule fill_slots_full) simp
  show ?thesis
  proof (cases "ss_running ?f = []")
    case True
    with fill_slots_progress [OF lims inv] False have "ss_stop s \<noteq> None" by auto
    with stopped True inv1 False show ?thesis
      by (intro exI [of _ False] exI [of _ s]) (simp add: sched_round_def)
  next
    case running: False
    have "wait_ok h" using ok by (simp add: hooks_ok_def)
    from wait_ok_outcomes [OF this running, of "ss_env ?f"]
    obtain finished e where w: "sh_wait h (ss_running ?f) (ss_env ?f) = (Inr finished, e)"
      and ne: "finished \<noteq> []" and oo: "outcomes_ok (ss_running ?f) finished" .
    let ?s1 = "?f\<lparr>ss_env := e\<rparr>"
    from collect_inv [of p runs "[]" ?s1 finished] inv1 oo obtain new s2 where
      c: "mapE collect_one finished ?s1 = (Inr new, s2)" and inv2: "sched_inv p runs new s2"
      and len: "length new = length finished"
      and fr: "ss_pending s2 = ss_pending ?f" "ss_stop s2 = ss_stop ?f"
      and ms: "mset (map (\<lambda>(_, r, _). r) (ss_running s2)) + mset (map fst new) = mset (map (\<lambda>(_, r, _). r) (ss_running ?f))"
      by auto
    have wk: "work new s2 = work [] ?f"
      unfolding work_running_list ms fr by simp
    let ?b = "ss_stop s2 \<noteq> None \<or> list_ex (\<lambda>(_, result). stop_reason (sp_join_strategy p) result \<noteq> None) new"
    from settle_all_inv [OF ok d inv2, of ?b] obtain s3 where
      s3: "forE new (settle_one p h ?b) s2 = (Inr (), s3)" "sched_inv p runs [] s3" "work [] s3 + length new \<le> work new s2"
        "?b \<longrightarrow> ss_pending s3 = ss_pending s2" "ss_stop s2 \<noteq> None \<longrightarrow> ss_stop s3 = ss_stop s2" by blast
    have "sched_round p h s = (Inr True, s3)"
      using False running w c s3(1) by (simp add: sched_round_def envE_def Let_def)
    moreover have "work [] s3 < work [] s"
      using s3(3) wk fill_slots_work [OF lims inv] len ne by (cases finished) auto
    ultimately show ?thesis using s3 fr stopped by auto
  qed
qed

lemma sched_init_inv:
  assumes "dict_ok (sp_resource_limits p)"
  shows "sched_inv p runs [] (sched_init p runs e)"
proof -
  have get: "dict_get (map (\<lambda>(key, _). (key, 0)) xs) k = Some (0::int)" if "k \<in> set (dict_keys xs)"
    for xs :: "(string, int) dict" and k
    using that by (induction xs) auto
  have "0 \<le> l" if "(k, l) \<in> set (resource_limits p)" for k l using that by (auto simp: resource_limits_def)
  then show ?thesis
    using get [of _ "resource_limits p"] concurrency_pos [of p]
    by (auto simp: sched_inv_def sched_init_def within_limits_def key_count_def id_bag_def)
qed

subsection \<open>Reachable states and the outcome of a batch\<close>

inductive sched_reachable :: "sched_params \<Rightarrow> 'e sched_hooks \<Rightarrow> task_run list \<Rightarrow> 'e \<Rightarrow> 'e sched \<Rightarrow> bool"
  for p h runs e where
  init: "sched_reachable p h runs e (sched_init p runs e)"
| round: "sched_reachable p h runs e s'" if "sched_reachable p h runs e s" and "sched_round p h s = (Inr True, s')"

lemma reachable_inv:
  assumes "hooks_ok p h" and "distinct (map tr_run_id runs)" and "sched_reachable p h runs e s"
  shows "sched_inv p runs [] s"
  using assms(3)
proof (induction rule: sched_reachable.induct)
  case init
  show ?case by (rule sched_init_inv [OF hooks_ok_limits [OF assms(1)]])
next
  case (round s s')
  with sched_round_inv [OF assms(1,2) round(3)] show ?case by auto
qed

text \<open>
  C7. At every point where the scheduler waits, the number of tasks in flight is at most the
  concurrency of the batch and the number of tasks that hold a limited resource is at most the
  limit of that resource; every run of the batch is in exactly one place: still pending, in flight,
  or finished.
\<close>

theorem scheduler_within_limits:
  assumes "hooks_ok p h" and "distinct (map tr_run_id runs)" and "sched_reachable p h runs e s"
  shows "within_limits p (ss_running (fill_slots p s))
    \<and> mset (map tr_run_id (ss_pending (fill_slots p s))) + mset (map (\<lambda>(_, r, _). tr_run_id r) (ss_running (fill_slots p s)))
        + mset (dict_keys (ss_results (fill_slots p s))) = mset (map tr_run_id runs)"
proof -
  have "sched_inv p runs [] (fill_slots p s)"
    by (rule fill_slots_inv [OF hooks_ok_limits [OF assms(1)] reachable_inv [OF assms]])
  then show ?thesis by (simp add: sched_inv_def id_bag_def)
qed


lemma cancel_remaining_inv:
  assumes c: "sh_cancel_queued h = Some cancel"
    and ok: "\<And>run reason e. \<exists>result e'. cancel run reason e = (Inr result, e') \<and> res_run_id result = tr_run_id run"
    and "distinct (map tr_run_id rs @ dict_keys (ss_results s))" and "\<forall>(i, res) \<in> set (ss_results s). res_run_id res = i"
  shows "\<exists>s'. cancel_remaining rs (Some cancel) reason s = (Inr (), s')
     \<and> dict_keys (ss_results s') = dict_keys (ss_results s) @ map tr_run_id rs
     \<and> (\<forall>(i, res) \<in> set (ss_results s'). res_run_id res = i) \<and> ss_running s' = ss_running s"
  using assms(3-)
proof (induction rs arbitrary: s)
  case (Cons run rs)
  obtain result e where r: "cancel run reason (ss_env s) = (Inr result, e)" "res_run_id result = tr_run_id run"
    using ok by blast
  have fresh: "dict_set (tr_run_id run) result (ss_results s) = ss_results s @ [(tr_run_id run, result)]"
    using Cons.prems(1) by (intro update_fresh) simp
  let ?s = "s\<lparr>ss_env := e, ss_results := ss_results s @ [(tr_run_id run, result)]\<rparr>"
  have "\<exists>s'. cancel_remaining rs (Some cancel) reason ?s = (Inr (), s')
     \<and> dict_keys (ss_results s') = dict_keys (ss_results ?s) @ map tr_run_id rs
     \<and> (\<forall>(i, res) \<in> set (ss_results s'). res_run_id res = i) \<and> ss_running s' = ss_running ?s"
    using Cons.prems r(2) by (intro Cons.IH) auto
  with r fresh show ?case by (simp add: cancel_remaining_def envE_def)
qed (simp add: cancel_remaining_def)

lemma scheduler_loop:
  assumes ok: "hooks_ok p h" and d: "distinct (map tr_run_id runs)"
  shows "\<exists>s. whileE (sched_round p h) (sched_init p runs e) = Some (Inr (), s) \<and> sched_inv p runs [] s
     \<and> ss_running s = [] \<and> (ss_stop s = None \<longrightarrow> ss_pending s = [])"
proof -
  let ?P = "sched_inv p runs [] :: 'a sched \<Rightarrow> bool"
  have init: "?P (sched_init p runs e)" by (rule sched_init_inv [OF hooks_ok_limits [OF ok]])
  have step: "?P s'" if "?P s" "sched_round p h s = (r, s')" for s r s'
    using sched_round_inv [OF ok d that(1)] that(2) by auto
  have dec: "work [] s' < work [] s" if "?P s" "sched_round p h s = (Inr True, s')" for s s'
    using sched_round_inv [OF ok d that(1)] that(2) by auto
  have "\<exists>r s'. whileE (sched_round p h) (sched_init p runs e) = Some (r, s') \<and> ?P s'
     \<and> (r = Inr () \<longrightarrow> (\<exists>s0. ?P s0 \<and> sched_round p h s0 = (Inr False, s')))
     \<and> (\<forall>x. r = Inl x \<longrightarrow> (\<exists>s0. ?P s0 \<and> sched_round p h s0 = (Inl x, s')))"
    by (rule whileE_rule [where m = "work []"], rule init, erule (1) step, erule (1) dec)
  then obtain r s' where
    w: "whileE (sched_round p h) (sched_init p runs e) = Some (r, s')" and P: "?P s'"
    and fin: "r = Inr () \<longrightarrow> (\<exists>s0. ?P s0 \<and> sched_round p h s0 = (Inr False, s'))"
    and exn: "\<forall>x. r = Inl x \<longrightarrow> (\<exists>s0. ?P s0 \<and> sched_round p h s0 = (Inl x, s'))" by blast
  have r: "r = Inr ()"
  proof (cases r)
    case (Inl x)
    with exn obtain s0 where s0: "?P s0" "sched_round p h s0 = (Inl x, s')" by blast
    from sched_round_inv [OF ok d s0(1)] obtain again s1 where "sched_round p h s0 = (Inr again, s1)" by blast
    with s0(2) show ?thesis by simp
  qed simp
  with fin obtain s0 where "?P s0" "sched_round p h s0 = (Inr False, s')" by blast
  with sched_round_inv [OF ok d, of s0] have "ss_running s' = []" "ss_stop s' = None \<longrightarrow> ss_pending s' = []" by auto
  with w P r show ?thesis by (intro exI [of _ s']) simp
qed

lemma batch_item_index_in: "i \<in> set (map tr_run_id runs) \<Longrightarrow> batch_item_index runs i \<noteq> None"
  by (auto simp: batch_item_index_def find_None_iff)

lemma sort_results_ok:
  assumes "\<forall>r \<in> set rs. res_run_id r \<in> set (map tr_run_id runs)"
  shows "\<exists>out. sort_results runs rs = Inr out \<and> mset out = mset rs
     \<and> sorted (map (\<lambda>r. the (batch_item_index runs (res_run_id r))) out)"
proof -
  have "\<not> list_ex (\<lambda>r. batch_item_index runs (res_run_id r) = None) rs"
    using assms batch_item_index_in by (auto simp: list_ex_iff)
  then show ?thesis by (simp add: sort_results_def)
qed

lemma sched_settled:
  assumes co: "cancel_ok h" and d: "distinct (map tr_run_id runs)" and inv: "sched_inv p runs [] s"
    and rn: "ss_running s = []" and pend: "ss_stop s = None \<longrightarrow> ss_pending s = []"
  shows "\<exists>s'. (case ss_stop s of None \<Rightarrow> (Inr (), s)
                | Some reason \<Rightarrow> cancel_remaining (ss_pending s) (sh_cancel_queued h) reason s) = (Inr (), s')
        \<and> mset (dict_keys (ss_results s')) = mset (map tr_run_id runs)
        \<and> (\<forall>(i, res) \<in> set (ss_results s'). res_run_id res = i) \<and> ss_running s' = []"
proof -
  have bag: "mset (map tr_run_id (ss_pending s)) + mset (dict_keys (ss_results s)) = mset (map tr_run_id runs)"
    using inv rn by (simp add: sched_inv_def id_bag_def)
  have ids: "\<forall>(i, res) \<in> set (ss_results s). res_run_id res = i" using inv by (simp add: sched_inv_def)
  have dist: "distinct (map tr_run_id (ss_pending s) @ dict_keys (ss_results s))"
    using mset_eq_imp_distinct_iff [of "map tr_run_id (ss_pending s) @ dict_keys (ss_results s)" "map tr_run_id runs"] bag d
    by (simp only: mset_append simp_thms)
  show ?thesis
  proof (cases "ss_stop s")
    case None
    with pend bag ids rn show ?thesis by simp
  next
    case (Some reason)
    obtain cancel where c: "sh_cancel_queued h = Some cancel"
      and cok: "\<And>run reason e. \<exists>result e'. cancel run reason e = (Inr result, e') \<and> res_run_id result = tr_run_id run"
      using co by (auto simp: cancel_ok_def)
    from cancel_remaining_inv [OF c cok dist ids, of reason] obtain s' where
      "cancel_remaining (ss_pending s) (Some cancel) reason s = (Inr (), s')"
      "dict_keys (ss_results s') = dict_keys (ss_results s) @ map tr_run_id (ss_pending s)"
      "\<forall>(i, res) \<in> set (ss_results s'). res_run_id res = i" "ss_running s' = ss_running s" by blast
    with Some c bag rn show ?thesis
      by (intro exI [of _ s']) (simp add: add.commute del: mset_map)
  qed
qed

lemma scheduler_run_results:
  assumes ok: "hooks_ok p h" and co: "cancel_ok h" and d: "distinct (map tr_run_id runs)"
  shows "\<exists>out e'. scheduler_run p h runs e = Some (Inr out, e')
     \<and> mset (map res_run_id out) = mset (map tr_run_id runs)
     \<and> sorted (map (\<lambda>r. the (batch_item_index runs (res_run_id r))) out)"
proof (cases "runs = []")
  case False
  obtain s where w: "whileE (sched_round p h) (sched_init p runs e) = Some (Inr (), s)" and inv: "sched_inv p runs [] s"
    and rn: "ss_running s = []" and pend: "ss_stop s = None \<longrightarrow> ss_pending s = []"
    using scheduler_loop [OF ok d, of e] by (elim exE conjE)
  from sched_settled [OF co d inv rn pend] obtain s' where s': "(case ss_stop s of None \<Rightarrow> (Inr (), s)
                | Some reason \<Rightarrow> cancel_remaining (ss_pending s) (sh_cancel_queued h) reason s) = (Inr (), s')"
    and keys: "mset (dict_keys (ss_results s')) = mset (map tr_run_id runs)"
    and ids': "\<forall>(i, res) \<in> set (ss_results s'). res_run_id res = i" and rn': "ss_running s' = []" by blast
  have rid: "map res_run_id (dict_values (ss_results s')) = dict_keys (ss_results s')"
    using ids' by (auto simp: case_prod_beta)
  have "set (dict_keys (ss_results s')) = set (map tr_run_id runs)" using keys by (metis set_mset_mset)
  then have "\<forall>r \<in> set (dict_values (ss_results s')). res_run_id r \<in> set (map tr_run_id runs)"
    using rid by (metis image_eqI list.set_map)
  from sort_results_ok [OF this] obtain out where
    out: "sort_results runs (dict_values (ss_results s')) = Inr out" "mset out = mset (dict_values (ss_results s'))"
      "sorted (map (\<lambda>r. the (batch_item_index runs (res_run_id r))) out)" by blast
  have "mset (map res_run_id out) = mset (map tr_run_id runs)"
    using out(2) rid keys by (metis mset_map)
  moreover have "scheduler_run p h runs e = Some (Inr out, ss_env s')"
    using False w s' out(1) rn' by (simp add: scheduler_run_def sched_tail_def finally_cancel_def)
  ultimately show ?thesis using out(3) by blast
qed (simp add: scheduler_run_def)


text \<open>A batch of two runs of which the first fails once and is retried, with room for one task at a time.\<close>

definition sample_hooks :: "unit sched_hooks" where
  "sample_hooks =
     \<lparr>sh_wait = (\<lambda>rn e. (Inr (map (\<lambda>(t, r, _). (t, Inr ((sample_result (tr_run_id r) (if tr_attempt r = 1 then FAILED else COMPLETED))
                        \<lparr>res_error_class := Some TRANSIENT\<rparr>))) (take 1 rn)), e)),
      sh_prepare_retry = Some (\<lambda>run _ e. (Inr (Some (run\<lparr>tr_attempt := tr_attempt run + 1\<rparr>)), e)),
      sh_cancel_queued = Some (\<lambda>run _ e. (Inr (sample_result (tr_run_id run) CANCELLED), e)),
      sh_cancel_and_wait = (\<lambda>_ e. (Inr (), e))\<rparr>"

definition sample_params :: "join_strategy \<Rightarrow> sched_params" where
  "sample_params j =
     \<lparr>sp_max_concurrency = 20, sp_join_strategy = j, sp_override_concurrency = Some 1, sp_resource_key = None,
      sp_resource_limits = [], sp_should_retry = Some should_retry\<rparr>"

lemma sample_run_id: "tr_run_id (sample_run rid st) = rid"
  by (simp add: sample_run_def)

lemma sample_hooks_ok: "hooks_ok (sample_params j) sample_hooks" "cancel_ok sample_hooks"
proof -
  have "wait_ok sample_hooks"
    unfolding wait_ok_def
  proof (intro allI impI)
    fix rn :: running and e :: unit assume "rn \<noteq> []"
    then obtain t r k rest where rn: "rn = (t, r, k) # rest" by (cases rn) auto
    then show "\<exists>finished e'. sh_wait sample_hooks rn e = (Inr finished, e') \<and> finished \<noteq> [] \<and> distinct (map fst finished)
         \<and> (\<forall>(t, outcome) \<in> set finished. \<exists>run key result. dict_get rn t = Some (run, key)
              \<and> outcome = Inr result \<and> res_run_id result = tr_run_id run)"
      by (simp add: sample_hooks_def sample_result_def)
  qed
  moreover have "retry_ok sample_hooks" by (simp add: retry_ok_def sample_hooks_def)
  ultimately show "hooks_ok (sample_params j) sample_hooks" by (simp add: hooks_ok_def sample_params_def)
  show "cancel_ok sample_hooks" by (simp add: cancel_ok_def sample_hooks_def sample_result_def)
qed

theorem scheduler_within_limits_witness:
  "within_limits (sample_params PARTIAL_OK)
     (ss_running (fill_slots (sample_params PARTIAL_OK)
        (sched_init (sample_params PARTIAL_OK) [sample_run ''r'' QUEUED, sample_run ''q'' QUEUED] ())))"
  using scheduler_within_limits [OF sample_hooks_ok(1) _ sched_reachable.init]
  by (simp add: sample_run_def)



end
