(* ===== verification/Execution_Plan.thy ===== *)
theory Execution_Plan
  imports Results "HOL-Library.List_Lexorder" "HOL-Library.Char_ord"
begin

section \<open>Configuration, execution policy, resource gate and execution plan\<close>

text \<open>
  \<^verbatim>\<open>config.py\<close> (the \<^verbatim>\<open>TASK_RUNTIME_*\<close> environment readers, over an environment \<open>env\<close>),
  \<^verbatim>\<open>domain/policy.py\<close>, \<^verbatim>\<open>execution/resources.py\<close>, \<^verbatim>\<open>execution/command/selection.py\<close> (the choice of a
  backend by name) and \<^verbatim>\<open>orchestration/execution_plan.py\<close> (how many runs of a batch may be in flight,
  overall and per sandbox fleet). The card of a skill and the count of free sandboxes come from
  other services; they are the parameters \<open>resolve\<close> and \<open>available_count\<close>.
\<close>

subsection \<open>Environment readers\<close>

type_synonym environ = "string \<Rightarrow> string option"

definition getenv :: "environ \<Rightarrow> string \<Rightarrow> string \<Rightarrow> string" where
  "getenv env name dflt = (case env name of None \<Rightarrow> dflt | Some v \<Rightarrow> v)"

definition reuse_wait_timeout_seconds :: "environ \<Rightarrow> task_run \<Rightarrow> int" where
  "reuse_wait_timeout_seconds env run =
     (let configured = py_strip (getenv env ''TASK_RUNTIME_REUSE_WAIT_TIMEOUT_SECONDS'' []);
          fallback = max 30 (ep_timeout_seconds (tr_execution_policy run) + 30)
      in if configured \<noteq> []
         then (case py_int_of_str configured of Some v \<Rightarrow> max 1 v | None \<Rightarrow> fallback)
         else fallback)"

definition resolve_clamped_env :: "environ \<Rightarrow> string \<Rightarrow> int \<Rightarrow> int \<Rightarrow> int" where
  "resolve_clamped_env env var_name dflt least =
     (let configured = py_strip (getenv env var_name (str_of_int dflt))
      in case py_int_of_str configured of Some v \<Rightarrow> max least v | None \<Rightarrow> dflt)"

definition sandbox_release_attempts :: "environ \<Rightarrow> int" where
  "sandbox_release_attempts env = resolve_clamped_env env ''TASK_RUNTIME_SANDBOX_RELEASE_ATTEMPTS'' 3 1"

definition stale_run_after_ms :: "environ \<Rightarrow> int" where
  "stale_run_after_ms env = resolve_clamped_env env ''TASK_RUNTIME_STALE_RUN_AFTER_MS'' 180000 0"

definition duplicate_submission_materialization_timeout_seconds :: "environ \<Rightarrow> int" where
  "duplicate_submission_materialization_timeout_seconds env =
     (let current_name = ''TASK_RUNTIME_DUPLICATE_SUBMISSION_MATERIALIZATION_TIMEOUT_SECONDS'';
          legacy_name = ''TASK_RUNTIME_REPLAY_MATERIALIZATION_TIMEOUT_SECONDS'';
          var_name = (if py_strip (getenv env current_name []) \<noteq> [] then current_name else legacy_name)
      in resolve_clamped_env env var_name 30 1)"

definition task_runtime_heartbeat_interval_seconds :: "environ \<Rightarrow> int" where
  "task_runtime_heartbeat_interval_seconds env =
     resolve_clamped_env env ''TASK_RUNTIME_HEARTBEAT_INTERVAL_SECONDS'' 30 1"

definition task_runtime_reverse_rpc_timeout_seconds :: "environ \<Rightarrow> int" where
  "task_runtime_reverse_rpc_timeout_seconds env =
     resolve_clamped_env env ''TASK_RUNTIME_REVERSE_RPC_TIMEOUT_SECONDS'' 20 1"

definition resolve_positive_env :: "environ \<Rightarrow> string \<Rightarrow> int \<Rightarrow> int" where
  "resolve_positive_env env var_name dflt =
     (let raw = py_strip (getenv env var_name [])
      in if raw = [] then dflt
         else case py_int_of_str raw of
                None \<Rightarrow> dflt
              | Some v \<Rightarrow> if v < 1 then dflt else v)"

definition resolve_max_concurrency :: "environ \<Rightarrow> int" where
  "resolve_max_concurrency env = resolve_positive_env env ''TASK_RUNTIME_MAX_CONCURRENCY'' 20"

definition DEFAULT_BACKEND_POD_CONCURRENCY :: int where
  "DEFAULT_BACKEND_POD_CONCURRENCY = 10"

definition resolve_k8s_pod_concurrency :: "environ \<Rightarrow> int" where
  "resolve_k8s_pod_concurrency env =
     resolve_positive_env env ''TASK_RUNTIME_K8S_POD_CONCURRENCY'' DEFAULT_BACKEND_POD_CONCURRENCY"

definition resolve_docker_concurrency :: "environ \<Rightarrow> int" where
  "resolve_docker_concurrency env =
     resolve_positive_env env ''TASK_RUNTIME_DOCKER_CONCURRENCY'' DEFAULT_BACKEND_POD_CONCURRENCY"

subsection \<open>Backend selection\<close>

datatype command_backend = Local_Backend | Docker_Backend | K8s_Pod_Backend | Environment_Runner_Backend string

text \<open>\<open>in_cluster\<close> is the probe of the storage package; it may raise, which counts as no.\<close>

definition auto_detect_backend :: "bool result \<Rightarrow> string" where
  "auto_detect_backend in_cluster = (if in_cluster = Inr True then ''k8s'' else ''local'')"

definition select_backend :: "environ \<Rightarrow> bool result \<Rightarrow> string \<Rightarrow> command_backend result" where
  "select_backend env in_cluster kind =
     (let choice0 = str_or (py_lower (py_strip kind)) (py_lower (py_strip (getenv env ''TASK_RUNTIME_BACKEND'' [])));
          choice = (if choice0 = [] then auto_detect_backend in_cluster else choice0)
      in if choice = ''local'' then Inr Local_Backend
         else if choice = ''docker'' then Inr Docker_Backend
         else if choice = ''k8s'' then Inr K8s_Pod_Backend
         else if choice = ''runner''
         then let endpoint = py_strip (getenv env ''TASK_RUNTIME_COMMAND_RUNNER_ENDPOINT'' [])
              in if endpoint = []
                 then Inl (Exn ValueError ''TASK_RUNTIME_COMMAND_RUNNER_ENDPOINT is required for TASK_RUNTIME_BACKEND='runner' '')
                 else Inr (Environment_Runner_Backend endpoint)
         else Inl (Exn ValueError ''unknown TASK_RUNTIME_BACKEND''))"

definition active_backend_kind :: "environ \<Rightarrow> bool result \<Rightarrow> string" where
  "active_backend_kind env in_cluster =
     str_or (py_lower (py_strip (getenv env ''TASK_RUNTIME_BACKEND'' []))) (auto_detect_backend in_cluster)"

definition backend_resource_key :: "environ \<Rightarrow> bool result \<Rightarrow> string option \<Rightarrow> string option" where
  "backend_resource_key env in_cluster kind =
     (let k = (case kind of Some k \<Rightarrow> k | None \<Rightarrow> active_backend_kind env in_cluster)
      in if k \<in> {''docker'', ''runner''} then Some ''docker''
         else if k = ''k8s'' then Some ''k8s_pod'' else None)"

subsection \<open>Execution policy\<close>

definition RUN_COMMAND_TOOL_NAME :: string where
  "RUN_COMMAND_TOOL_NAME = ''run_command''"

definition spec_uses_command_backend :: "task_spec \<Rightarrow> bool result" where
  "spec_uses_command_backend spec =
     (let cid = task_capability_id spec
      in if provider_of cid = skill_provider_id then Inr True
         else rbind (builtin_tool_of cid) (\<lambda>tool. Inr (tool = RUN_COMMAND_TOOL_NAME)))"

definition run_resource_key :: "(json \<Rightarrow> string) \<Rightarrow> task_run \<Rightarrow> string option" where
  "run_resource_key repr run = selected_sandbox repr (tr_spec run)"

definition backend_resource_limit :: "environ \<Rightarrow> string option \<Rightarrow> int" where
  "backend_resource_limit env key =
     (if key = Some ''k8s_pod'' then resolve_k8s_pod_concurrency env
      else if key = Some ''docker'' then resolve_docker_concurrency env
      else 0)"

definition resolve_policy :: "task_spec \<Rightarrow> task_execution_policy result" where
  "resolve_policy task =
     rbind (case dict_get (ts_args task) ''timeout_seconds'' of
              None \<Rightarrow> Inr 900
            | Some v \<Rightarrow> if json_truthy v then json_int v else Inr 900) (\<lambda>timeout_seconds.
     rbind (if ts_required_sandbox task \<noteq> [] then Inr True else spec_uses_command_backend task) (\<lambda>needs_command_backend.
       let retry = (if needs_command_backend
                    then default_retry_policy\<lparr>rp_max_attempts := 2, rp_retry_on := [TRANSIENT, SANDBOX_UNHEALTHY, TIMEOUT]\<rparr>
                    else default_retry_policy)
       in Inr (default_execution_policy\<lparr>ep_timeout_seconds := timeout_seconds,
                 ep_executor := (if needs_command_backend then COMMAND_BACKEND else IN_PROCESS),
                 ep_retry := retry, ep_trust_level := PLATFORM_SIGNED\<rparr>)))"

definition validate_execution_mode :: "task_spec \<Rightarrow> task_execution_policy \<Rightarrow> error_class option" where
  "validate_execution_mode task policy =
     (if ts_required_sandbox task \<noteq> [] \<and> ep_executor policy = IN_PROCESS then Some POLICY_DENY else None)"

subsection \<open>The resource gate\<close>

text \<open>
  A semaphore is its number of free permits. \<open>None\<close> says that the caller waits: the state is the
  one it finds when it is woken. A lease remembers the bucket it has to give a permit back to.
\<close>

record resource_gate =
  rg_buckets :: "(string, int \<times> int) dict"

type_synonym resource_lease = "string option"

definition gate_semaphore :: "string \<Rightarrow> int \<Rightarrow> resource_gate \<Rightarrow> resource_gate" where
  "gate_semaphore key limit g =
     (case dict_get (rg_buckets g) key of
        None \<Rightarrow> g\<lparr>rg_buckets := dict_set key (limit, limit) (rg_buckets g)\<rparr>
      | Some _ \<Rightarrow> g)"

definition gate_acquire :: "string option \<Rightarrow> int \<Rightarrow> resource_gate \<Rightarrow> (resource_lease \<times> resource_gate) option" where
  "gate_acquire key limit g =
     (if key \<in> {None, Some []} \<or> limit \<le> 0 then Some (None, g)
      else let k = the key; g' = gate_semaphore k limit g in
        case dict_get (rg_buckets g') k of
          None \<Rightarrow> None
        | Some (free, pinned) \<Rightarrow>
            if free \<le> 0 then None
            else Some (Some k, g'\<lparr>rg_buckets := dict_set k (free - 1, pinned) (rg_buckets g')\<rparr>))"

definition lease_release :: "resource_lease \<Rightarrow> resource_gate \<Rightarrow> resource_lease \<times> resource_gate" where
  "lease_release lease g =
     (case lease of
        None \<Rightarrow> (None, g)
      | Some k \<Rightarrow>
          (None, case dict_get (rg_buckets g) k of
                   None \<Rightarrow> g
                 | Some (free, pinned) \<Rightarrow> g\<lparr>rg_buckets := dict_set k (free + 1, pinned) (rg_buckets g)\<rparr>))"

subsection \<open>The execution plan\<close>

record sandbox_type_plan =
  stp_sandbox_type :: string
  stp_task_count :: int
  stp_concurrency :: int
  stp_available_count :: "int option"

record batch_execution_plan =
  bep_total_count :: int
  bep_concurrency :: int
  bep_planned_batch_sizes :: "int list"
  bep_sandbox_type :: "string option"
  bep_sandbox_task_count :: int
  bep_sandbox_concurrency :: "int option"
  bep_available_sandbox_count :: "int option"
  bep_sandbox_plans :: "sandbox_type_plan list"

definition batch_concurrency_limit :: "int \<Rightarrow> int option \<Rightarrow> int" where
  "batch_concurrency_limit configured requested =
     (let configured = max 1 configured
      in case requested of None \<Rightarrow> configured | Some r \<Rightarrow> min configured r)"

text \<open>\<^verbatim>\<open>range(0, total, step)\<close>, with the size of the slice that starts at each index.\<close>

function slice_sizes :: "int \<Rightarrow> int \<Rightarrow> int list" where
  "slice_sizes n step = (if n \<le> 0 \<or> step \<le> 0 then [] else min step n # slice_sizes (n - step) step)"
  by auto
termination by (relation "measure (\<lambda>(n, _). nat n)") auto

declare slice_sizes.simps [simp del]

definition planned_batch_sizes :: "int \<Rightarrow> int \<Rightarrow> int list" where
  "planned_batch_sizes total_count concurrency =
     (if total_count \<le> 0 then [] else slice_sizes total_count (max 1 concurrency))"

definition ordered_sandbox_types :: "string list \<Rightarrow> string list" where
  "ordered_sandbox_types types =
     filter (\<lambda>os. os \<in> set types) SANDBOX_OSES @ sort (filter (\<lambda>b. b \<notin> set SANDBOX_OSES) types)"

definition aggregate_available_sandboxes :: "sandbox_type_plan list \<Rightarrow> int option" where
  "aggregate_available_sandboxes plans =
     (let knowns = List.map_filter stp_available_count plans
      in if knowns \<noteq> [] then Some (sum_list knowns) else None)"

definition sandbox_concurrency_limit :: "int \<Rightarrow> int option \<Rightarrow> int option" where
  "sandbox_concurrency_limit sandbox_task_count available_sandbox_count =
     (if sandbox_task_count \<le> 0 then None
      else case available_sandbox_count of
             None \<Rightarrow> Some 1
           | Some available \<Rightarrow>
               if available \<le> 0 then Some 1 else Some (max 1 (min sandbox_task_count available)))"

text \<open>\<^verbatim>\<open>max(options, key=score)\<close>: the first option with the greatest score, compared as a pair.\<close>

definition pair_less :: "int \<times> int \<Rightarrow> int \<times> int \<Rightarrow> bool" where
  "pair_less a b \<longleftrightarrow> fst a < fst b \<or> (fst a = fst b \<and> snd a < snd b)"

fun first_max :: "('a \<Rightarrow> int \<times> int) \<Rightarrow> 'a \<Rightarrow> 'a list \<Rightarrow> 'a" where
  "first_max score best [] = best"
| "first_max score best (x # xs) = first_max score (if pair_less (score best) (score x) then x else best) xs"

definition sandbox_score :: "(string, int) dict \<Rightarrow> (string, int option) dict \<Rightarrow> string \<Rightarrow> int \<times> int" where
  "sandbox_score counts available_by_type sandbox_type =
     (let used = (case dict_get counts sandbox_type of None \<Rightarrow> 0 | Some n \<Rightarrow> n);
          available = (case dict_get available_by_type sandbox_type of Some (Some n) \<Rightarrow> n | _ \<Rightarrow> 0)
      in (available - used, - used))"

definition choose_sandbox_option ::
    "string list \<Rightarrow> (string, int) dict \<Rightarrow> (string, int option) dict \<Rightarrow> string" where
  "choose_sandbox_option options counts available_by_type =
     (let free = filter (\<lambda>o'. case dict_get available_by_type o' of Some (Some n) \<Rightarrow> 0 < n | _ \<Rightarrow> False) options;
          selectable = (if free = [] then options else free)
      in first_max (sandbox_score counts available_by_type) (hd selectable) (tl selectable))"

definition execution_resource_limits :: "batch_execution_plan \<Rightarrow> (string, int) dict" where
  "execution_resource_limits plan =
     fold (\<lambda>s d. if 0 < stp_concurrency s then dict_set (stp_sandbox_type s) (stp_concurrency s) d else d)
       (bep_sandbox_plans plan) []"

definition effective_batch_concurrency :: "int \<Rightarrow> int \<Rightarrow> int \<Rightarrow> int \<Rightarrow> int" where
  "effective_batch_concurrency total_count configured sandbox_lane_total non_sandbox_count =
     (if total_count \<le> 0 then 1
      else let useful = sandbox_lane_total + non_sandbox_count;
               useful = (if useful \<le> 0 then total_count else useful)
           in max 1 (min (min (max 1 configured) total_count) useful))"

text \<open>\<^verbatim>\<open>ExecutionPlanner.normalize\<close>: a skill's own sandbox options replace the requested ones.\<close>

definition normalize_task ::
    "(json \<Rightarrow> string) \<Rightarrow> (string \<Rightarrow> string list option) \<Rightarrow> task_spec \<Rightarrow> task_spec result" where
  "normalize_task repr resolve task =
     rbind (skill_action_of (task_capability_id task)) (\<lambda>(skill_name, action_name).
       if skill_name = [] \<or> action_name = [] then Inr task
       else case resolve (skill_name @ CHR ''.'' # action_name) of
              None \<Rightarrow> Inr task
            | Some authoritative \<Rightarrow>
                let preferred0 = selected_sandbox repr task;
                    preferred = (case preferred0 of Some s \<Rightarrow> if s \<in> set authoritative then Some s else None | None \<Rightarrow> None);
                    task' = (if sandbox_options task \<noteq> authoritative then task\<lparr>ts_required_sandbox := authoritative\<rparr> else task)
                in set_selected_sandbox preferred task')"

definition normalize_batch ::
    "(json \<Rightarrow> string) \<Rightarrow> (string \<Rightarrow> string list option) option \<Rightarrow> task_spec list \<Rightarrow> task_spec list result" where
  "normalize_batch repr skill_loader tasks =
     (case skill_loader of None \<Rightarrow> Inr tasks | Some resolve \<Rightarrow> rmap (normalize_task repr resolve) tasks)"

text \<open>\<^verbatim>\<open>_plan_sandbox_buckets\<close>: pick a fleet for every task, then size each fleet's lane.\<close>

definition assign_one ::
    "(json \<Rightarrow> string) \<Rightarrow> (string, int option) dict \<Rightarrow> task_spec \<Rightarrow> (string, int) dict \<Rightarrow> (task_spec \<times> (string, int) dict) result" where
  "assign_one repr available_by_type task counts =
     (let options = sandbox_options task in
      if options = [] then Inr (task, counts)
      else
        let selected = selected_sandbox repr task;
            keep = (case selected of
                      None \<Rightarrow> False
                    | Some s \<Rightarrow> s \<in> set options \<and>
                        \<not> (1 < length options \<and>
                           (case dict_get available_by_type s of Some (Some n) \<Rightarrow> n = 0 | _ \<Rightarrow> True)))
        in if keep
           then Inr (task, dict_set (the selected) ((case dict_get counts (the selected) of None \<Rightarrow> 0 | Some n \<Rightarrow> n) + 1) counts)
           else
             let s = choose_sandbox_option options counts available_by_type in
             rbind (set_selected_sandbox (Some s) task) (\<lambda>task'.
               Inr (task', dict_set s ((case dict_get counts s of None \<Rightarrow> 0 | Some n \<Rightarrow> n) + 1) counts)))"

fun assign_fleets ::
    "(json \<Rightarrow> string) \<Rightarrow> (string, int option) dict \<Rightarrow> task_spec list \<Rightarrow> (string, int) dict \<Rightarrow> (task_spec list \<times> (string, int) dict) result" where
  "assign_fleets repr avail [] counts = Inr ([], counts)"
| "assign_fleets repr avail (task # tasks) counts =
     rbind (assign_one repr avail task counts) (\<lambda>(task', counts').
     rbind (assign_fleets repr avail tasks counts') (\<lambda>(tasks', counts'').
       Inr (task' # tasks', counts'')))"

definition size_lane :: "(string, int option) dict \<Rightarrow> (string, int) dict \<Rightarrow> string \<Rightarrow> sandbox_type_plan" where
  "size_lane available_by_type counts sandbox_type =
     (let task_count = the (dict_get counts sandbox_type);
          available = (case dict_get available_by_type sandbox_type of None \<Rightarrow> None | Some a \<Rightarrow> a)
      in \<lparr>stp_sandbox_type = sandbox_type, stp_task_count = task_count,
          stp_concurrency = int_or (sandbox_concurrency_limit task_count available) 1,
          stp_available_count = available\<rparr>)"

definition plan_sandbox_buckets ::
    "(json \<Rightarrow> string) \<Rightarrow> (string \<Rightarrow> ('s, int option) io) \<Rightarrow> task_spec list \<Rightarrow> ('s, task_spec list \<times> sandbox_type_plan list) io" where
  "plan_sandbox_buckets repr available_count tasks =
     (let all_options = dict_fromkeys (concat (map sandbox_options tasks)) in
      bindE (mapE (\<lambda>t. bindE (available_count t) (\<lambda>a. retE (t, a))) (ordered_sandbox_types all_options)) (\<lambda>available_by_type.
      bindE (liftE (assign_fleets repr available_by_type tasks [])) (\<lambda>(tasks', counts).
        retE (tasks', map (size_lane available_by_type counts) (ordered_sandbox_types (dict_keys counts))))))"

definition plan_batch ::
    "(json \<Rightarrow> string) \<Rightarrow> (string \<Rightarrow> ('s, int option) io) \<Rightarrow> int \<Rightarrow> task_batch_input \<Rightarrow> ('s, task_spec list \<times> batch_execution_plan) io" where
  "plan_batch repr available_count max_concurrency batch =
     (let total_count = int (length (tb_tasks batch)) in
      bindE (plan_sandbox_buckets repr available_count (tb_tasks batch)) (\<lambda>(tasks', sandbox_plans).
        let sandbox_task_count = sum_list (map stp_task_count sandbox_plans);
            sandbox_lane_total = sum_list (map stp_concurrency sandbox_plans);
            concurrency = effective_batch_concurrency total_count
               (batch_concurrency_limit (max 1 max_concurrency) (tb_max_concurrency batch))
               sandbox_lane_total (total_count - sandbox_task_count)
        in retE (tasks',
             \<lparr>bep_total_count = total_count, bep_concurrency = concurrency,
              bep_planned_batch_sizes = planned_batch_sizes total_count concurrency,
              bep_sandbox_type = (case sandbox_plans of [] \<Rightarrow> None | primary # _ \<Rightarrow> Some (stp_sandbox_type primary)),
              bep_sandbox_task_count = sandbox_task_count,
              bep_sandbox_concurrency = (if sandbox_lane_total = 0 then None else Some sandbox_lane_total),
              bep_available_sandbox_count = aggregate_available_sandboxes sandbox_plans,
              bep_sandbox_plans = sandbox_plans\<rparr>)))"

definition sample_plan_input :: task_batch_input where
  "sample_plan_input = \<lparr>tb_tasks = [sample_spec\<lparr>ts_stage := 0\<rparr>], tb_join_strategy = ALL_SUCCESS, tb_description = [], tb_max_concurrency = None\<rparr>"

subsection \<open>Configured values\<close>

lemma py_strip_str_of_int [py_strings]: "py_strip (str_of_int n) = str_of_int n"
proof (rule py_strip_stripped)
  show "stripped (str_of_int n)"
    using stripped_str_of_nat [of "nat n"] stripped_str_of_nat [of "nat (- n)"]
    by (auto simp: str_of_int_def stripped_def py_isspace_def)
qed

lemma resolve_clamped_default: "env v = None \<Longrightarrow> least \<le> dflt \<Longrightarrow> resolve_clamped_env env v dflt least = dflt"
  by (simp add: resolve_clamped_env_def getenv_def py_strip_str_of_int py_int_of_str_of_int)

text \<open>
  A clamped setting is never below its least value, is its default when the variable is unset or
  unreadable, and is the configured number when that is readable and not too small; a positive
  setting is always at least one when its default is.
\<close>

theorem config_bounds:
  assumes "least \<le> dflt" and "1 \<le> pos"
  shows "least \<le> resolve_clamped_env env v dflt least
    \<and> (env v = None \<longrightarrow> resolve_clamped_env env v dflt least = dflt)
    \<and> (least \<le> i \<longrightarrow> resolve_clamped_env (env(v := Some (str_of_int i))) v dflt least = i)
    \<and> 1 \<le> resolve_positive_env env v pos
    \<and> (1 \<le> i \<longrightarrow> resolve_positive_env (env(v := Some (str_of_int i))) v pos = i)"
proof -
  have ne: "str_of_int n \<noteq> []" for n by (simp add: str_of_int_def)
  show ?thesis
    using assms by (auto simp: resolve_clamped_env_def resolve_positive_env_def getenv_def py_strip_str_of_int ne
        py_int_of_str_of_int Let_def split: option.splits)
qed

theorem config_bounds_witness:
  "resolve_clamped_env ((\<lambda>_. None)(''X'' := Some (str_of_int 7))) ''X'' 3 1 = 7
   \<and> resolve_positive_env ((\<lambda>_. None)(''X'' := Some (str_of_int 7))) ''X'' 10 = 7"
  using config_bounds [of 1 3 10 "\<lambda>_. None" "''X''" 7] by simp

subsection \<open>Planning\<close>

lemma slice_sizes_spec:
  "0 < step \<Longrightarrow> sum_list (slice_sizes n step) = max 0 n \<and> (\<forall>x \<in> set (slice_sizes n step). 1 \<le> x \<and> x \<le> step)"
proof (induction n step rule: slice_sizes.induct)
  case (1 n step)
  show ?case
  proof (cases "n \<le> 0")
    case False
    with 1 have ih: "sum_list (slice_sizes (n - step) step) = max 0 (n - step)"
      "\<forall>x \<in> set (slice_sizes (n - step) step). 1 \<le> x \<and> x \<le> step" by auto
    from False 1(2) have s: "slice_sizes n step = min step n # slice_sizes (n - step) step"
      by (subst slice_sizes.simps) simp
    from ih False 1(2) show ?thesis unfolding s by auto
  qed (simp add: slice_sizes.simps)
qed

lemma effective_bounds:
  "1 \<le> effective_batch_concurrency n c lanes free \<and> effective_batch_concurrency n c lanes free \<le> max 1 c
   \<and> effective_batch_concurrency n c lanes free \<le> max 1 n"
  by (simp add: effective_batch_concurrency_def Let_def min_def max_def)

text \<open>
  The waves planned for a batch cover it exactly: their sizes add up to the number of runs, and
  none is empty or larger than the concurrency; the concurrency itself is at least one and never
  above the deployment limit, the caller's cap or the number of runs.
\<close>

theorem planned_waves_cover:
  assumes "0 \<le> n"
  shows "sum_list (planned_batch_sizes n c) = n \<and> (\<forall>x \<in> set (planned_batch_sizes n c). 1 \<le> x \<and> x \<le> max 1 c)
    \<and> 1 \<le> effective_batch_concurrency n (batch_concurrency_limit limit req) lanes free
    \<and> effective_batch_concurrency n (batch_concurrency_limit limit req) lanes free \<le> max 1 limit
    \<and> effective_batch_concurrency n (batch_concurrency_limit limit (Some r)) lanes free \<le> max 1 r
    \<and> effective_batch_concurrency n (batch_concurrency_limit limit req) lanes free \<le> max 1 n"
proof -
  have waves: "sum_list (planned_batch_sizes n c) = n \<and> (\<forall>x \<in> set (planned_batch_sizes n c). 1 \<le> x \<and> x \<le> max 1 c)"
  proof (cases "n = 0")
    case False
    define step where "step = max 1 c"
    then have "0 < step" by simp
    from slice_sizes_spec [OF this, of n] False assms show ?thesis
      unfolding planned_batch_sizes_def step_def [symmetric] by simp
  qed (simp add: planned_batch_sizes_def)
  have "max 1 (batch_concurrency_limit limit req) \<le> max 1 limit"
    "max 1 (batch_concurrency_limit limit (Some r)) \<le> max 1 r"
    by (cases req; simp add: batch_concurrency_limit_def min_def max_def)+
  then have upper: "effective_batch_concurrency n (batch_concurrency_limit limit req) lanes free \<le> max 1 limit"
    "effective_batch_concurrency n (batch_concurrency_limit limit (Some r)) lanes free \<le> max 1 r"
    using effective_bounds [THEN conjunct2, THEN conjunct1, THEN order_trans] by metis+
  note eff = effective_bounds [of n "batch_concurrency_limit limit req" lanes free]
  from waves upper eff [THEN conjunct1] eff [THEN conjunct2, THEN conjunct2] show ?thesis by fast
qed

theorem planned_waves_cover_witness:
  "sum_list (planned_batch_sizes 7 3) = 7 \<and> list_all (\<lambda>x. 1 \<le> x \<and> x \<le> 3) (planned_batch_sizes 7 3)"
  using planned_waves_cover [of 7 3] by (simp add: list_all_iff)

lemma first_max_in: "first_max score b xs \<in> insert b (set xs)"
  by (induction score b xs rule: first_max.induct) auto

lemma choose_in_options: "options \<noteq> [] \<Longrightarrow> choose_sandbox_option options counts avail \<in> set options"
proof -
  assume ne: "options \<noteq> []"
  let ?free = "filter (\<lambda>o'. case dict_get avail o' of Some (Some n) \<Rightarrow> 0 < n | _ \<Rightarrow> False) options"
  let ?sel = "if ?free = [] then options else ?free"
  have "?sel \<noteq> []" "set ?sel \<subseteq> set options" using ne by auto
  then have "insert (hd ?sel) (set (tl ?sel)) \<subseteq> set options" by (cases ?sel) auto
  with first_max_in [of "sandbox_score counts avail" "hd ?sel" "tl ?sel"] show ?thesis
    unfolding choose_sandbox_option_def Let_def by blast
qed

lemma set_selected_sandbox_ok:
  assumes "task_spec_ok t" and "s \<in> set (sandbox_options t)"
  shows "\<exists>t'. set_selected_sandbox (Some s) t = Inr t' \<and> selected_sandbox repr t' = Some s
     \<and> sandbox_options t' = sandbox_options t \<and> task_spec_ok t'"
proof -
  have "s \<in> set SANDBOX_SELECTORS" using assms by (auto simp: task_spec_ok_def sandbox_options_def)
  then have st: "py_strip s = s" "s \<noteq> []" using sandbox_selectors_stripped py_strip_stripped by blast+
  then obtain t' where t': "set_selected_sandbox (Some s) t = Inr t'"
    using assms(2) by (auto simp: set_selected_sandbox_def Let_def)
  with selected_sandbox_set [OF assms(1) st(2) t', of repr] st assms(1) show ?thesis
    by (auto simp: set_selected_sandbox_def task_spec_ok_def Let_def split: if_splits)
qed

definition placed :: "(json \<Rightarrow> string) \<Rightarrow> task_spec \<Rightarrow> bool" where
  "placed repr t \<longleftrightarrow> sandbox_options t = [] \<or> (\<exists>s \<in> set (sandbox_options t). selected_sandbox repr t = Some s)"

definition total_of :: "(string, int) dict \<Rightarrow> int" where
  "total_of d = sum_list (dict_values d)"

lemma total_of_inc:
  "total_of (dict_set k ((case dict_get d k of None \<Rightarrow> 0 | Some n \<Rightarrow> n) + 1) d) = total_of d + 1"
proof (induction d)
  case (Cons p d)
  then show ?case by (cases p) (auto simp: total_of_def)
qed (simp add: total_of_def)

lemma assign_one_ok:
  assumes "task_spec_ok t"
  shows "\<exists>t' counts'. assign_one repr avail t counts = Inr (t', counts') \<and> task_spec_ok t'
     \<and> sandbox_options t' = sandbox_options t \<and> placed repr t'
     \<and> total_of counts' = total_of counts + (if sandbox_options t = [] then 0 else 1)
     \<and> (dict_ok counts \<longrightarrow> dict_ok counts')
     \<and> ((\<forall>n \<in> set (dict_values counts). 1 \<le> n) \<longrightarrow> (\<forall>n \<in> set (dict_values counts'). 1 \<le> n))"
proof (cases "sandbox_options t = []")
  case True
  with assms show ?thesis by (simp add: assign_one_def placed_def)
next
  case False
  let ?sel = "selected_sandbox repr t"
  let ?keep = "case ?sel of None \<Rightarrow> False | Some s \<Rightarrow> s \<in> set (sandbox_options t) \<and>
      \<not> (1 < length (sandbox_options t) \<and> (case dict_get avail s of Some (Some n) \<Rightarrow> n = 0 | _ \<Rightarrow> True))"
  have pos: "\<forall>n \<in> set (dict_values (dict_set k ((case dict_get counts k of None \<Rightarrow> 0 | Some n \<Rightarrow> n) + 1) counts)). 1 \<le> n"
    if "\<forall>n \<in> set (dict_values counts). 1 \<le> n" for k
    using that
  proof (induction counts)
    case (Cons p d)
    then show ?case by (cases p) (auto split: option.splits)
  qed simp
  show ?thesis
  proof (cases ?keep)
    case True
    then obtain s where s: "?sel = Some s" "s \<in> set (sandbox_options t)" by (auto split: option.splits)
    have "placed repr t" using s by (auto simp: placed_def)
    then show ?thesis
      using False True s assms total_of_inc [of s counts] pos [of s] by (simp add: assign_one_def Let_def)
  next
    case nokeep: False
    let ?s = "choose_sandbox_option (sandbox_options t) counts avail"
    from set_selected_sandbox_ok [OF assms choose_in_options [OF False, of counts avail], of repr] obtain t' where
      t': "set_selected_sandbox (Some ?s) t = Inr t'" "selected_sandbox repr t' = Some ?s"
        "sandbox_options t' = sandbox_options t" "task_spec_ok t'" by blast
    have "placed repr t'" using t' choose_in_options [OF False, of counts avail] by (auto simp: placed_def)
    then show ?thesis
      using False nokeep t' total_of_inc [of ?s counts] pos [of ?s] by (simp add: assign_one_def Let_def)
  qed
qed

lemma assign_fleets_ok:
  assumes "list_all task_spec_ok tasks"
  shows "\<exists>tasks' counts'. assign_fleets repr avail tasks counts = Inr (tasks', counts')
     \<and> list_all (\<lambda>t. task_spec_ok t \<and> placed repr t) tasks' \<and> map sandbox_options tasks' = map sandbox_options tasks
     \<and> total_of counts' = total_of counts + int (length (filter (\<lambda>t. sandbox_options t \<noteq> []) tasks))
     \<and> (dict_ok counts \<longrightarrow> dict_ok counts')
     \<and> ((\<forall>n \<in> set (dict_values counts). 1 \<le> n) \<longrightarrow> (\<forall>n \<in> set (dict_values counts'). 1 \<le> n))"
  using assms
proof (induction tasks arbitrary: counts)
  case (Cons t tasks)
  from Cons.prems have "task_spec_ok t" by simp
  from assign_one_ok [OF this, of repr avail counts] obtain t' c1 where
    t': "assign_one repr avail t counts = Inr (t', c1)" "task_spec_ok t'" "sandbox_options t' = sandbox_options t" "placed repr t'"
      "total_of c1 = total_of counts + (if sandbox_options t = [] then 0 else 1)" "dict_ok counts \<longrightarrow> dict_ok c1"
      "(\<forall>n \<in> set (dict_values counts). 1 \<le> n) \<longrightarrow> (\<forall>n \<in> set (dict_values c1). 1 \<le> n)" by blast
  from Cons.prems have "list_all task_spec_ok tasks" by simp
  from Cons.IH [OF this, of c1] obtain ts' c2 where
    ts': "assign_fleets repr avail tasks c1 = Inr (ts', c2)" "list_all (\<lambda>t. task_spec_ok t \<and> placed repr t) ts'"
      "map sandbox_options ts' = map sandbox_options tasks"
      "total_of c2 = total_of c1 + int (length (filter (\<lambda>t. sandbox_options t \<noteq> []) tasks))" "dict_ok c1 \<longrightarrow> dict_ok c2"
      "(\<forall>n \<in> set (dict_values c1). 1 \<le> n) \<longrightarrow> (\<forall>n \<in> set (dict_values c2). 1 \<le> n)" by blast
  have "assign_fleets repr avail (t # tasks) counts = Inr (t' # ts', c2)" using t'(1) ts'(1) by simp
  moreover have "list_all (\<lambda>t. task_spec_ok t \<and> placed repr t) (t' # ts')" using t'(2,4) ts'(2) by simp
  moreover have "map sandbox_options (t' # ts') = map sandbox_options (t # tasks)" using t'(3) ts'(3) by simp
  moreover have "total_of c2 = total_of counts + int (length (filter (\<lambda>t. sandbox_options t \<noteq> []) (t # tasks)))"
    using t'(5) ts'(4) by simp
  moreover have "dict_ok counts \<longrightarrow> dict_ok c2" using t'(6) ts'(5) by blast
  moreover have "(\<forall>n \<in> set (dict_values counts). 1 \<le> n) \<longrightarrow> (\<forall>n \<in> set (dict_values c2). 1 \<le> n)" using t'(7) ts'(6) by blast
  ultimately show ?case by blast
qed simp

lemma ordered_types_mset:
  "distinct types \<Longrightarrow> set (ordered_sandbox_types types) = set types \<and> distinct (ordered_sandbox_types types)"
proof -
  assume "distinct types"
  moreover have "distinct SANDBOX_OSES" by (simp add: SANDBOX_OSES_def)
  ultimately show ?thesis by (auto simp: ordered_sandbox_types_def)
qed

lemma dict_values_lookup:
  assumes "dict_ok d"
  shows "map (\<lambda>k. the (dict_get d k)) (dict_keys d) = dict_values d"
proof -
  have "the (dict_get d k) = v" if "(k, v) \<in> set d" for k v
    using dict_ok_get_iff [OF assms, of k v] that by simp
  then show ?thesis by simp
qed

lemma sum_lanes:
  assumes "dict_ok counts"
  shows "sum_list (map stp_task_count (map (size_lane avail counts) (ordered_sandbox_types (dict_keys counts)))) = total_of counts"
proof -
  note o = ordered_types_mset [of "dict_keys counts"]
  have d: "distinct (dict_keys counts)" using assms by (simp add: dict_ok_def)
  have "sum_list (map stp_task_count (map (size_lane avail counts) (ordered_sandbox_types (dict_keys counts)))) =
      sum (\<lambda>k. the (dict_get counts k)) (set (dict_keys counts))"
    using o d by (simp add: sum_list_distinct_conv_sum_set size_lane_def Let_def comp_def)
  also have "\<dots> = sum_list (map (\<lambda>k. the (dict_get counts k)) (dict_keys counts))"
    using d by (simp only: sum_list_distinct_conv_sum_set)
  also have "map (\<lambda>k. the (dict_get counts k)) (dict_keys counts) = dict_values counts"
    by (rule dict_values_lookup [OF assms])
  finally show ?thesis by (simp add: total_of_def)
qed

lemma lane_size:
  assumes "1 \<le> the (dict_get counts k)"
  shows "stp_concurrency (size_lane avail counts k) =
     (case stp_available_count (size_lane avail counts k) of
        None \<Rightarrow> 1
      | Some a \<Rightarrow> if a \<le> 0 then 1 else min (stp_task_count (size_lane avail counts k)) a)"
  using assms by (auto simp: size_lane_def sandbox_concurrency_limit_def int_or_def Let_def max_def min_def split: option.splits)

text \<open>The tasks of a fleet, and how the assignment counts them.\<close>

definition assigned :: "(json \<Rightarrow> string) \<Rightarrow> string \<Rightarrow> task_spec \<Rightarrow> bool" where
  "assigned repr k t \<longleftrightarrow> sandbox_options t \<noteq> [] \<and> selected_sandbox repr t = Some k"

definition count_of :: "(string, int) dict \<Rightarrow> string \<Rightarrow> int" where
  "count_of d k = (case dict_get d k of None \<Rightarrow> 0 | Some n \<Rightarrow> n)"

lemma count_of_inc: "count_of (dict_set s (count_of d s + 1) d) k = count_of d k + (if k = s then 1 else 0)"
  by (simp add: count_of_def dict_get_set)

lemma assign_one_counts:
  assumes "task_spec_ok t" and "assign_one repr avail t counts = Inr (t', counts')"
  shows "count_of counts' k = count_of counts k + (if assigned repr k t' then 1 else 0)"
proof (cases "sandbox_options t = []")
  case True
  with assms(2) show ?thesis by (auto simp: assign_one_def assigned_def)
next
  case False
  let ?s = "choose_sandbox_option (sandbox_options t) counts avail"
  obtain u where u: "set_selected_sandbox (Some ?s) t = Inr u" "selected_sandbox repr u = Some ?s" "sandbox_options u = sandbox_options t"
    using set_selected_sandbox_ok [OF assms(1) choose_in_options [OF False, of counts avail], of repr] by blast
  show ?thesis
    using assms(2) False u unfolding assign_one_def count_of_def [symmetric]
    by (auto simp: Let_def assigned_def count_of_inc split: if_splits option.splits)
qed

lemma assign_fleets_counts:
  "list_all task_spec_ok tasks \<Longrightarrow> assign_fleets repr avail tasks counts = Inr (tasks', counts') \<Longrightarrow>
     count_of counts' k = count_of counts k + int (length (filter (assigned repr k) tasks'))"
proof (induction tasks arbitrary: counts tasks')
  case (Cons t tasks)
  from Cons.prems(2) obtain t' c1 ts' where
    s: "assign_one repr avail t counts = Inr (t', c1)" "assign_fleets repr avail tasks c1 = Inr (ts', counts')" "tasks' = t' # ts'"
    by (auto simp: rbind_Inr_iff)
  with Cons.IH [OF _ s(2)] assign_one_counts [OF _ s(1), of k] Cons.prems(1) show ?case by simp
qed simp

text \<open>A query of the capacity of one fleet, with its answer.\<close>

definition answered :: "(string \<Rightarrow> ('s, int option) io) \<Rightarrow> string \<Rightarrow> int option \<Rightarrow> bool" where
  "answered available_count t a \<longleftrightarrow> (\<exists>s s'. available_count t s = (Inr a, s'))"

lemma mapE_Cons_Inr:
  "mapE f (x # xs) s = (Inr ys, s') \<Longrightarrow> \<exists>y s1 ys'. f x s = (Inr y, s1) \<and> mapE f xs s1 = (Inr ys', s') \<and> ys = y # ys'"
  by (auto simp: bindE_Inr_iff)

lemma queries_answered:
  assumes "mapE (\<lambda>t. bindE (available_count t) (\<lambda>a. retE (t, a))) ts s = (Inr av, s')"
  shows "dict_keys av = ts \<and> (\<forall>(t, a) \<in> set av. answered available_count t a)"
  using assms
proof (induction ts arbitrary: s av)
  case (Cons t ts)
  from mapE_Cons_Inr [OF Cons.prems] obtain y s1 av' where
    y: "bindE (available_count t) (\<lambda>a. retE (t, a)) s = (Inr y, s1)" "av = y # av'"
    and q: "mapE (\<lambda>t. bindE (available_count t) (\<lambda>a. retE (t, a))) ts s1 = (Inr av', s')" by blast
  from y obtain a where a: "available_count t s = (Inr a, s1)" "av = (t, a) # av'" by (auto simp: bindE_Inr_iff)
  from Cons.IH [OF q] a show ?case by (auto simp: answered_def)
qed simp

lemma queries_return:
  assumes "\<And>t s. \<exists>a s'. available_count t s = (Inr a, s')"
  shows "\<exists>av s'. mapE (\<lambda>t. bindE (available_count t) (\<lambda>a. retE (t, a))) ts s = (Inr av, s')"
proof (induction ts arbitrary: s)
  case (Cons t ts)
  obtain a s1 where a: "available_count t s = (Inr a, s1)" using assms by blast
  obtain av s2 where "mapE (\<lambda>t. bindE (available_count t) (\<lambda>a. retE (t, a))) ts s1 = (Inr av, s2)" using Cons.IH by blast
  then show ?case by (simp add: bindE_def retE_def a split: sum.splits)
qed simp

text \<open>What a lane says of its fleet: the tasks assigned to it, the answer of its query, and the size that follows.\<close>

definition lane_fits :: "(json \<Rightarrow> string) \<Rightarrow> (string \<Rightarrow> ('s, int option) io) \<Rightarrow> task_spec list \<Rightarrow> sandbox_type_plan \<Rightarrow> bool" where
  "lane_fits repr available_count tasks lane \<longleftrightarrow>
     stp_task_count lane = int (length (filter (assigned repr (stp_sandbox_type lane)) tasks)) \<and> 1 \<le> stp_task_count lane
     \<and> answered available_count (stp_sandbox_type lane) (stp_available_count lane)
     \<and> stp_concurrency lane = (case stp_available_count lane of
          None \<Rightarrow> 1 | Some a \<Rightarrow> if a \<le> 0 then 1 else min (stp_task_count lane) a)"

lemma lanes_fit:
  assumes tasks: "list_all task_spec_ok tasks" and fl: "assign_fleets repr av tasks [] = Inr (tasks', counts)"
    and av: "mapE (\<lambda>t. bindE (available_count t) (\<lambda>a. retE (t, a)))
       (ordered_sandbox_types (dict_fromkeys (concat (map sandbox_options tasks)))) s = (Inr av, s')"
  shows "list_all (lane_fits repr available_count tasks') (map (size_lane av counts) (ordered_sandbox_types (dict_keys counts)))
    \<and> (\<forall>k. k \<in> set (dict_keys counts) \<longleftrightarrow> (\<exists>t \<in> set tasks'. assigned repr k t))"
proof -
  from assign_fleets_ok [OF tasks, of repr av "[]"] fl have ok: "dict_ok counts" "\<forall>n \<in> set (dict_values counts). 1 \<le> n"
    "list_all (\<lambda>t. task_spec_ok t \<and> placed repr t) tasks'" "map sandbox_options tasks' = map sandbox_options tasks" by auto
  have n: "count_of counts k = int (length (filter (assigned repr k) tasks'))" for k
    using assign_fleets_counts [OF tasks fl, of k] by (simp add: count_of_def)
  have pos: "k \<in> set (dict_keys counts) \<longleftrightarrow> 1 \<le> count_of counts k" for k
  proof (cases "dict_get counts k")
    case (Some m)
    then have "(k, m) \<in> set counts" using dict_ok_get_iff [OF ok(1)] by blast
    with ok(2) Some show ?thesis by (force simp: count_of_def)
  next
    case None
    moreover from this have "k \<notin> set (dict_keys counts)" by (metis dict_get_None_iff)
    ultimately show ?thesis by (simp add: count_of_def)
  qed
  have ex: "k \<in> set (dict_keys counts) \<longleftrightarrow> (\<exists>t \<in> set tasks'. assigned repr k t)" for k
    unfolding pos n by (induction tasks') auto
  have fit: "lane_fits repr available_count tasks' (size_lane av counts k)" if k: "k \<in> set (dict_keys counts)" for k
  proof -
    from k ex obtain t where t: "t \<in> set tasks'" "assigned repr k t" by blast
    with ok(3) have "k \<in> set (sandbox_options t)" by (auto simp: list_all_iff placed_def assigned_def)
    moreover from t(1) have "sandbox_options t \<in> set (map sandbox_options tasks)" unfolding ok(4) [symmetric] by simp
    ultimately have "k \<in> set (concat (map sandbox_options tasks))" by (auto simp: image_iff)
    then have "k \<in> set (ordered_sandbox_types (dict_fromkeys (concat (map sandbox_options tasks))))"
      using ordered_types_mset [of "dict_fromkeys (concat (map sandbox_options tasks))"] by simp
    with queries_answered [OF av] obtain a where a: "dict_get av k = Some a" "answered available_count k a"
      by (metis dict_get_None_iff dict_get_in case_prodD not_Some_eq)
    from k pos have "1 \<le> the (dict_get counts k)" "dict_get counts k \<noteq> None" by (auto simp: count_of_def split: option.splits)
    moreover from this n [of k] have "the (dict_get counts k) = int (length (filter (assigned repr k) tasks'))"
      by (auto simp: count_of_def)
    moreover have "stp_sandbox_type (size_lane av counts k) = k" "stp_available_count (size_lane av counts k) = a"
      "stp_task_count (size_lane av counts k) = the (dict_get counts k)"
      using a by (simp_all add: size_lane_def Let_def)
    ultimately show ?thesis using lane_size [of counts k av] a(2) unfolding lane_fits_def by auto
  qed
  have "set (ordered_sandbox_types (dict_keys counts)) = set (dict_keys counts)"
    using ordered_types_mset [of "dict_keys counts"] ok(1) by (simp add: dict_ok_def)
  with fit ex show ?thesis by (simp add: list_all_iff)
qed

text \<open>
  C38. Planning a batch of validated tasks succeeds whenever the capacity queries do. Every task that
  needs a sandbox is assigned one of its own options, and exactly the fleets that got a task have a lane, one each. The
  task count of a lane is the number of tasks assigned to its fleet, and these counts add up to the tasks that need a
  sandbox; its capacity is an answer of the query for that fleet; and it admits as many runs at once as both
  allow, or one when the capacity is unknown or used up.
\<close>

theorem plan_batch_sound:
  assumes tasks: "list_all task_spec_ok (tb_tasks batch)"
    and avail: "\<And>t s. \<exists>a s'. available_count t s = (Inr a, s')"
  shows "\<exists>tasks' plan s'. plan_batch repr available_count mc batch s = (Inr (tasks', plan), s')
    \<and> list_all (placed repr) tasks' \<and> map sandbox_options tasks' = map sandbox_options (tb_tasks batch)
    \<and> bep_sandbox_task_count plan = int (length (filter (\<lambda>t. sandbox_options t \<noteq> []) (tb_tasks batch)))
    \<and> distinct (map stp_sandbox_type (bep_sandbox_plans plan))
    \<and> (\<forall>k. k \<in> set (map stp_sandbox_type (bep_sandbox_plans plan)) \<longleftrightarrow> (\<exists>t \<in> set tasks'. assigned repr k t))
    \<and> list_all (lane_fits repr available_count tasks') (bep_sandbox_plans plan)"
proof -
  let ?types = "ordered_sandbox_types (dict_fromkeys (concat (map sandbox_options (tb_tasks batch))))"
  obtain av s' where av: "mapE (\<lambda>t. bindE (available_count t) (\<lambda>a. retE (t, a))) ?types s = (Inr av, s')"
    using queries_return [of available_count, OF avail] by blast
  from assign_fleets_ok [OF tasks, of repr av "[]"] obtain tasks' counts where
    f: "assign_fleets repr av (tb_tasks batch) [] = Inr (tasks', counts)" "list_all (\<lambda>t. task_spec_ok t \<and> placed repr t) tasks'"
      "map sandbox_options tasks' = map sandbox_options (tb_tasks batch)"
      "total_of counts = int (length (filter (\<lambda>t. sandbox_options t \<noteq> []) (tb_tasks batch)))"
      "dict_ok counts" by (auto simp: total_of_def)
  let ?keys = "ordered_sandbox_types (dict_keys counts)"
  let ?lanes = "map (size_lane av counts) ?keys"
  have buckets: "plan_sandbox_buckets repr available_count (tb_tasks batch) s = (Inr (tasks', ?lanes), s')"
    using av f(1) by (simp add: plan_sandbox_buckets_def Let_def)
  obtain plan where p: "plan_batch repr available_count mc batch s = (Inr (tasks', plan), s')" and
    pl: "bep_sandbox_plans plan = ?lanes" "bep_sandbox_task_count plan = sum_list (map stp_task_count ?lanes)"
    using buckets by (simp add: plan_batch_def Let_def)
  have types: "map stp_sandbox_type ?lanes = ?keys" by (simp add: size_lane_def Let_def comp_def)
  have keys: "distinct ?keys" "set ?keys = set (dict_keys counts)"
    using ordered_types_mset [of "dict_keys counts"] f(5) by (simp_all add: dict_ok_def)
  note fit = lanes_fit [OF tasks f(1) av]
  have "list_all (placed repr) tasks'" using f(2) by (simp add: list_all_iff)
  then show ?thesis
    using p pl fit f(3,4) sum_lanes [OF f(5), of av] keys types
    by (intro exI [of _ tasks'] exI [of _ plan] exI [of _ s'] conjI) (simp_all add: size_lane_def Let_def comp_def)
qed

theorem plan_batch_sound_witness:
  "\<exists>tasks' plan s'. plan_batch (\<lambda>_. []) (\<lambda>_. retE (Some 2)) 4 sample_plan_input () = (Inr (tasks', plan), s')
     \<and> list_all (placed (\<lambda>_. [])) tasks' \<and> bep_sandbox_task_count plan = 1
     \<and> list_all (lane_fits (\<lambda>_. []) (\<lambda>_. retE (Some 2) :: (unit, int option) io) tasks') (bep_sandbox_plans plan)"
proof -
  have ok: "list_all task_spec_ok (tb_tasks sample_plan_input)"
    by (simp add: task_spec_ok_def sample_plan_input_def sample_spec_def sandbox_tables stripped_def py_isspace_def)
  have one: "int (length (filter (\<lambda>t. sandbox_options t \<noteq> []) (tb_tasks sample_plan_input))) = 1"
    by (simp add: sample_plan_input_def sandbox_options_def sample_spec_def)
  show ?thesis
    using plan_batch_sound [OF ok, of "\<lambda>_. retE (Some 2)" "\<lambda>_. []" 4 "()"] unfolding one by force
qed

subsection \<open>The resource gate\<close>

text \<open>
  The leases a gate has handed out, each at the place it was taken; a released lease stays in the
  list, with no bucket. Any holder may release any number of times, in any order.
\<close>

inductive gate_reach :: "resource_gate \<Rightarrow> resource_lease list \<Rightarrow> bool" where
  gate_init: "gate_reach \<lparr>rg_buckets = []\<rparr> []"
| gate_acquired: "gate_reach g ls \<Longrightarrow> gate_acquire key limit g = Some (l, g') \<Longrightarrow> gate_reach g' (l # ls)"
| gate_released: "gate_reach g ls \<Longrightarrow> i < length ls \<Longrightarrow> lease_release (ls ! i) g = (l, g') \<Longrightarrow> gate_reach g' (ls[i := l])"

definition bucket_ok :: "resource_lease list \<Rightarrow> string \<Rightarrow> (int \<times> int) option \<Rightarrow> bool" where
  "bucket_ok ls k b = (case b of
      None \<Rightarrow> count_list ls (Some k) = 0
    | Some (free, pinned) \<Rightarrow> 0 \<le> free \<and> 1 \<le> pinned \<and> free + int (count_list ls (Some k)) = pinned)"

lemma count_list_update:
  "i < length xs \<Longrightarrow> count_list (xs[i := y]) x = count_list xs x - (if xs ! i = x then 1 else 0) + (if y = x then 1 else 0)"
proof (induction xs arbitrary: i)
  case (Cons z xs)
  have "count_list xs x \<noteq> 0" if "j < length xs" "xs ! j = x" for j
    using that nth_mem [of j xs] by (auto simp: count_list_0_iff)
  with Cons show ?case by (cases i) (auto simp: Suc_diff_le Suc_le_eq)
qed simp

lemma count_list_nth_pos: "i < length xs \<Longrightarrow> xs ! i = x \<Longrightarrow> 1 \<le> count_list xs x"
  using nth_mem [of i xs] by (auto simp: Suc_le_eq count_list_0_iff intro: gr0I)

lemma gate_acquire_ok:
  assumes "\<forall>k. bucket_ok ls k (dict_get (rg_buckets g) k)" and "gate_acquire key limit g = Some (l, g')"
  shows "bucket_ok (l # ls) k (dict_get (rg_buckets g') k)"
proof -
  have b: "bucket_ok ls k (dict_get (rg_buckets g) k)" for k using assms(1) by blast
  show ?thesis
    using assms(2) b [of k] b [of "the key"]
    by (auto simp: gate_acquire_def gate_semaphore_def Let_def bucket_ok_def dict_get_set split: if_splits option.splits)
qed

lemma lease_release_ok:
  assumes "\<forall>k. bucket_ok ls k (dict_get (rg_buckets g) k)" and i: "i < length ls" and "lease_release (ls ! i) g = (l, g')"
  shows "bucket_ok (ls[i := l]) k (dict_get (rg_buckets g') k)"
proof -
  have b: "bucket_ok ls k (dict_get (rg_buckets g) k)" for k using assms(1) by blast
  show ?thesis
    using assms(3) b [of k] b [of "the (ls ! i)"] count_list_update [OF i, of l "Some k"] count_list_nth_pos [OF i, of "Some k"]
    by (auto simp: lease_release_def bucket_ok_def dict_get_set split: if_splits option.splits)
qed

lemma gate_reach_ok: "gate_reach g ls \<Longrightarrow> \<forall>k. bucket_ok ls k (dict_get (rg_buckets g) k)"
proof (induction rule: gate_reach.induct)
  case gate_init
  show ?case by (simp add: bucket_ok_def)
next
  case (gate_acquired g ls key limit l g')
  then show ?case using gate_acquire_ok by blast
next
  case (gate_released g ls i l g')
  then show ?case using lease_release_ok by blast
qed

text \<open>
  C39. However acquisitions and releases interleave, the leases held on a resource and its free
  permits together always make up the limit that was pinned first, so no more than that many are
  ever held; releasing a lease twice is releasing it once, and a key without a limit is never gated.
\<close>

theorem gate_never_oversubscribed:
  assumes "gate_reach g ls" and "dict_get (rg_buckets g) k = Some (free, pinned)"
  shows "0 \<le> free \<and> int (count_list ls (Some k)) + free = pinned
    \<and> (let (l, g') = lease_release lease g in lease_release l g' = (None, g'))
    \<and> (\<forall>l g'. gate_acquire (Some k) limit g = Some (l, g') \<longrightarrow>
         (\<exists>free'. dict_get (rg_buckets g') k = Some (free', pinned)))
    \<and> (limit \<le> 0 \<longrightarrow> gate_acquire key limit g = Some (None, g))"
proof -
  from gate_reach_ok [OF assms(1)] have "bucket_ok ls k (dict_get (rg_buckets g) k)" by blast
  with assms(2) have "0 \<le> free \<and> int (count_list ls (Some k)) + free = pinned" by (simp add: bucket_ok_def)
  moreover have "let (l, g') = lease_release lease g in lease_release l g' = (None, g')"
    by (simp add: lease_release_def split: option.splits)
  moreover have "\<exists>free'. dict_get (rg_buckets g') k = Some (free', pinned)" if "gate_acquire (Some k) limit g = Some (l, g')" for l g'
    using that assms(2) by (auto simp: gate_acquire_def gate_semaphore_def Let_def dict_get_set split: if_splits)
  ultimately show ?thesis by (auto simp: gate_acquire_def)
qed

theorem gate_never_oversubscribed_witness:
  "gate_reach \<lparr>rg_buckets = [(''docker'', (1, 2))]\<rparr> [Some ''docker'']
   \<and> dict_get (rg_buckets \<lparr>rg_buckets = [(''docker'', (1, 2))]\<rparr>) ''docker'' = Some (1, 2)
   \<and> int (count_list [Some ''docker''] (Some ''docker'')) + 1 = 2"
proof -
  have r: "gate_reach \<lparr>rg_buckets = [(''docker'', (1, 2))]\<rparr> [Some ''docker'']"
    by (rule gate_acquired [OF gate_init, of "Some ''docker''" 2]) code_simp
  from gate_never_oversubscribed [OF r, of "''docker''" 1 2] r show ?thesis by simp
qed

end
