(* ===== verification/Staged_Executor.thy ===== *)
theory Staged_Executor
  imports Scheduler Execution_Plan
begin

section \<open>Staged execution of a batch\<close>

text \<open>
  \<^verbatim>\<open>StagedBatchExecutor\<close> of \<^verbatim>\<open>orchestration/scheduler.py\<close> with the snapshot helpers it uses
  (\<^verbatim>\<open>_merge_run_snapshots\<close> of \<^verbatim>\<open>manager.py\<close>, \<^verbatim>\<open>_with_result_snapshots\<close> of
  \<^verbatim>\<open>rendering/batch_view.py\<close>) and the wrapper that turns an exception of a run into a result.
  The stages of a batch are scheduled one after the other; a stage that does not satisfy the join
  strategy closes the gate, and the runs behind it are cancelled without being started. The calls
  into the run coordinator, the store and the progress port are the hooks of \<open>staged_hooks\<close>;
  \<open>sg_run_objects\<close> reads the run objects, which their execution has changed.
\<close>

subsection \<open>Containing the failure of one run\<close>

primrec exn_name :: "exn_class \<Rightarrow> string" where
  "exn_name StaleWorkerError = ''StaleWorkerError''"
| "exn_name IdempotencyCollisionError = ''IdempotencyCollisionError''"
| "exn_name FileNotFoundError = ''FileNotFoundError''"
| "exn_name ValueError = ''ValueError''"
| "exn_name InvalidTransitionError = ''InvalidTransitionError''"
| "exn_name TypeError = ''TypeError''"
| "exn_name KeyError = ''KeyError''"
| "exn_name RuntimeError = ''RuntimeError''"
| "exn_name SandboxNoCapacityError = ''SandboxNoCapacityError''"
| "exn_name SandboxUnhealthyError = ''SandboxUnhealthyError''"
| "exn_name PlanCancellationRequested = ''PlanCancellationRequested''"
| "exn_name ProjectionIntegrityError = ''ProjectionIntegrityError''"
| "exn_name CancelledError = ''CancelledError''"
| "exn_name (OtherError n) = n"

definition internal_failure_result :: "task_run \<Rightarrow> exn \<Rightarrow> ('z rt_world_scheme, task_result) io" where
  "internal_failure_result run exc =
     bindE now_ms (\<lambda>now.
       let message = ''Internal task runtime error: '' @ exn_name (exn_class exc) @ '': '' @ exn_message exc
       in retE (bare_result run FAILED message (Some INTERNAL) message (int_or (tr_started_at run) now) now 0))"

definition execute_safely ::
    "(task_run \<Rightarrow> ('z rt_world_scheme, task_result) io) \<Rightarrow> task_run \<Rightarrow> ('z rt_world_scheme, task_result) io" where
  "execute_safely execute run = catch_Exception (execute run) (internal_failure_result run)"

subsection \<open>Snapshots of the runs of a batch\<close>

definition merge_snapshot :: "task_run \<Rightarrow> (string, task_run) dict \<Rightarrow> (string, task_run) dict" where
  "merge_snapshot run merged =
     (case dict_get merged (tr_run_id run) of
        None \<Rightarrow> dict_set (tr_run_id run) run merged
      | Some existing \<Rightarrow>
          let run1 = (if tr_sandbox run = None \<and> tr_sandbox existing \<noteq> None then run\<lparr>tr_sandbox := tr_sandbox existing\<rparr> else run);
              run2 = (if \<not> tr_sandbox_released run \<and> tr_sandbox_released existing
                      then run1\<lparr>tr_sandbox_released := tr_sandbox_released existing\<rparr> else run1);
              run3 = (if tr_lease_outcome run = [] \<and> tr_lease_outcome existing \<noteq> []
                      then run2\<lparr>tr_lease_outcome := tr_lease_outcome existing\<rparr> else run2)
          in dict_set (tr_run_id run) run3 merged)"

definition merge_run_snapshots :: "task_run list list \<Rightarrow> task_run list" where
  "merge_run_snapshots snapshots = dict_values (fold merge_snapshot (concat snapshots) [])"

definition result_snapshot :: "task_result \<Rightarrow> task_run \<Rightarrow> task_run" where
  "result_snapshot result run =
     (let run1 = run\<lparr>tr_status := res_status result, tr_last_error_class := res_error_class result,
                   tr_last_error := res_error_message result\<rparr>;
          run2 = (if res_started_at result \<noteq> None \<and> tr_started_at run = None
                  then run1\<lparr>tr_started_at := res_started_at result\<rparr> else run1);
          run3 = (if res_ended_at result \<noteq> None then run2\<lparr>tr_ended_at := res_ended_at result\<rparr> else run2)
      in if res_sandbox result \<noteq> None then run3\<lparr>tr_sandbox := res_sandbox result\<rparr> else run3)"

definition with_result_snapshots :: "task_run list \<Rightarrow> task_result list \<Rightarrow> task_run list" where
  "with_result_snapshots runs results =
     (let results_by_run_id = fold (\<lambda>r. dict_set (res_run_id r) r) results [] in
      if results_by_run_id = [] then runs
      else map (\<lambda>run. case dict_get results_by_run_id (tr_run_id run) of
                        None \<Rightarrow> run
                      | Some result \<Rightarrow> result_snapshot result run) runs)"

subsection \<open>Stages\<close>

definition add_to_stage :: "task_run \<Rightarrow> (int, task_run list) dict \<Rightarrow> (int, task_run list) dict" where
  "add_to_stage run grouped =
     (let stage = ts_stage (tr_spec run)
      in dict_set stage ((case dict_get grouped stage of None \<Rightarrow> [] | Some rs \<Rightarrow> rs) @ [run]) grouped)"

definition group_runs_by_stage :: "task_run list \<Rightarrow> (int \<times> task_run list) list" where
  "group_runs_by_stage runs =
     (let grouped = fold add_to_stage runs []
      in map (\<lambda>stage. (stage, the (dict_get grouped stage))) (sort (dict_keys grouped)))"

definition stage_gate_blocks :: "task_result list \<Rightarrow> join_strategy \<Rightarrow> bool" where
  "stage_gate_blocks results join_strategy =
     (if join_strategy \<notin> {ALL_SUCCESS, FAIL_FAST} then False
      else list_ex (\<lambda>result. res_status result \<noteq> COMPLETED) results)"

record 'e staged_hooks =
  sg_sched :: "'e sched_hooks"
  sg_cancel_queued :: "task_run \<Rightarrow> string \<Rightarrow> ('e, task_result) io"
  sg_list_batch_runs :: "string \<Rightarrow> ('e, task_run list) io"
  sg_publish_parent_batch_progress :: "batch_record \<Rightarrow> task_run list \<Rightarrow> ('e, unit) io"
  sg_run_objects :: "'e \<Rightarrow> task_run list \<Rightarrow> task_run list"

record staged_batch =
  sb_batch :: batch_record
  sb_runs :: "task_run list"
  sb_join_strategy :: join_strategy
  sb_plan :: batch_execution_plan

definition publish_stage_progress ::
    "'e staged_hooks \<Rightarrow> staged_batch \<Rightarrow> task_result list \<Rightarrow> ('e, unit) io" where
  "publish_stage_progress h b results =
     suppressE (bindE (sg_list_batch_runs h (br_batch_id (sb_batch b))) (\<lambda>stored.
       bindE (getE (\<lambda>e. sg_run_objects h e (sb_runs b))) (\<lambda>runs.
         sg_publish_parent_batch_progress h (sb_batch b)
           (with_result_snapshots (merge_run_snapshots [runs, stored]) results))))"

text \<open>The scheduler takes its cancellation hook from the run coordinator, as the staged executor does.\<close>

definition stage_params :: "(json \<Rightarrow> string) \<Rightarrow> int \<Rightarrow> staged_batch \<Rightarrow> sched_params" where
  "stage_params repr max_concurrency b =
     \<lparr>sp_max_concurrency = max_concurrency, sp_join_strategy = sb_join_strategy b,
      sp_override_concurrency = Some (bep_concurrency (sb_plan b)), sp_resource_key = Some (run_resource_key repr),
      sp_resource_limits = execution_resource_limits (sb_plan b), sp_should_retry = Some should_retry\<rparr>"

definition schedule_runs ::
    "(json \<Rightarrow> string) \<Rightarrow> int \<Rightarrow> 'e staged_hooks \<Rightarrow> staged_batch \<Rightarrow> task_run list \<Rightarrow> 'e
       \<Rightarrow> (task_result list result \<times> 'e) option" where
  "schedule_runs repr max_concurrency h b runs =
     scheduler_run (stage_params repr max_concurrency b)
       ((sg_sched h)\<lparr>sh_cancel_queued := Some (sg_cancel_queued h)\<rparr>) runs"

definition skipped_reason :: "int \<Rightarrow> string" where
  "skipped_reason upstream_stage =
     ''Skipped: upstream stage '' @ str_of_int upstream_stage @ '' did not satisfy the batch join strategy.''"

definition cancel_stage :: "'e staged_hooks \<Rightarrow> task_run list \<Rightarrow> int \<Rightarrow> ('e, task_result list) io" where
  "cancel_stage h runs upstream_stage =
     mapE (\<lambda>run. sg_cancel_queued h run (skipped_reason upstream_stage)) runs"

fun run_stages ::
    "(json \<Rightarrow> string) \<Rightarrow> int \<Rightarrow> 'e staged_hooks \<Rightarrow> staged_batch \<Rightarrow> int \<Rightarrow> (int \<times> task_run list) list
       \<Rightarrow> int option \<Rightarrow> task_result list \<Rightarrow> 'e \<Rightarrow> (task_result list result \<times> 'e) option" where
  "run_stages repr mc h b last_stage [] blocked_by results e = Some (Inr results, e)"
| "run_stages repr mc h b last_stage ((stage_no, stage_runs) # stages) (Some blocked) results e =
     (case cancel_stage h stage_runs blocked e of
        (Inl x, e') \<Rightarrow> Some (Inl x, e')
      | (Inr cancelled, e') \<Rightarrow> run_stages repr mc h b last_stage stages (Some blocked) (results @ cancelled) e')"
| "run_stages repr mc h b last_stage ((stage_no, stage_runs) # stages) None results e =
     (case schedule_runs repr mc h b stage_runs e of
        None \<Rightarrow> None
      | Some (Inl x, e') \<Rightarrow> Some (Inl x, e')
      | Some (Inr stage_results, e') \<Rightarrow>
          (let results' = results @ stage_results;
               blocked' = (if stage_gate_blocks stage_results (sb_join_strategy b) then Some stage_no else None)
           in case (if stage_no \<noteq> last_stage then publish_stage_progress h b results' else retE ()) e' of
                (Inl x, e'') \<Rightarrow> Some (Inl x, e'')
              | (Inr _, e'') \<Rightarrow> run_stages repr mc h b last_stage stages blocked' results' e''))"

definition item_order :: "task_run list \<Rightarrow> task_result \<Rightarrow> int" where
  "item_order runs result =
     (case dict_get (fold (\<lambda>run. dict_set (tr_run_id run) (tr_batch_item_index run)) runs []) (res_run_id result) of
        None \<Rightarrow> 0 | Some i \<Rightarrow> i)"

text \<open>\<^verbatim>\<open>stages[-1]\<close> of a batch without runs raises \<^verbatim>\<open>IndexError\<close>.\<close>

definition staged_run ::
    "(json \<Rightarrow> string) \<Rightarrow> int \<Rightarrow> 'e staged_hooks \<Rightarrow> staged_batch \<Rightarrow> 'e \<Rightarrow> (task_result list result \<times> 'e) option" where
  "staged_run repr mc h b e =
     (case group_runs_by_stage (sb_runs b) of
        [] \<Rightarrow> Some (Inl (Exn (OtherError ''IndexError'') ''list index out of range''), e)
      | [(stage_no, runs)] \<Rightarrow> schedule_runs repr mc h b runs e
      | stages \<Rightarrow>
          (case run_stages repr mc h b (fst (last stages)) stages None [] e of
             None \<Rightarrow> None
           | Some (Inl x, e') \<Rightarrow> Some (Inl x, e')
           | Some (Inr results, e') \<Rightarrow> Some (Inr (sort_key (item_order (sb_runs b)) results), e')))"

subsection \<open>Grouping\<close>

lemma grouped_get:
  "dict_get (fold add_to_stage runs g) st =
     (if filter (\<lambda>r. ts_stage (tr_spec r) = st) runs = [] then dict_get g st
      else Some ((case dict_get g st of None \<Rightarrow> [] | Some rs \<Rightarrow> rs) @ filter (\<lambda>r. ts_stage (tr_spec r) = st) runs))"
  by (induction runs arbitrary: g) (auto simp: add_to_stage_def Let_def dict_get_set split: option.splits)

lemma grouped_ok: "dict_ok g \<Longrightarrow> dict_ok (fold add_to_stage runs g)"
  by (induction runs arbitrary: g) (auto simp: add_to_stage_def Let_def)

lemma grouped_keys: "set (dict_keys (fold add_to_stage runs [])) = (\<lambda>r. ts_stage (tr_spec r)) ` set runs"
proof -
  have "st \<in> set (dict_keys (fold add_to_stage runs [])) \<longleftrightarrow> dict_get (fold add_to_stage runs []) st \<noteq> None" for st
    using dict_get_None_iff by metis
  moreover have "dict_get (fold add_to_stage runs []) st \<noteq> None \<longleftrightarrow> st \<in> (\<lambda>r. ts_stage (tr_spec r)) ` set runs" for st
    by (auto simp: grouped_get filter_empty_conv)
  ultimately show ?thesis by blast
qed

lemma group_runs_by_stage_exact:
  "group_runs_by_stage runs = map (\<lambda>st. (st, filter (\<lambda>r. ts_stage (tr_spec r) = st) runs))
     (sorted_list_of_set ((\<lambda>r. ts_stage (tr_spec r)) ` set runs))"
proof -
  let ?k = "dict_keys (fold add_to_stage runs [])"
  have "distinct ?k" using grouped_ok [of "[]" runs] by (simp add: dict_ok_def)
  then have "sort ?k = sorted_list_of_set ((\<lambda>r. ts_stage (tr_spec r)) ` set runs)"
    by (metis sorted_list_of_set_sort_remdups distinct_remdups_id grouped_keys)
  moreover have "dict_get (fold add_to_stage runs []) st = Some (filter (\<lambda>r. ts_stage (tr_spec r) = st) runs)"
    if "st \<in> (\<lambda>r. ts_stage (tr_spec r)) ` set runs" for st
    using that by (auto simp: grouped_get filter_empty_conv)
  ultimately show ?thesis by (simp add: group_runs_by_stage_def Let_def)
qed

text \<open>
  Grouping by stage equals its reference definition: the stages that occur, in increasing
  order and once each, with the runs of each stage in the order of the batch.
\<close>

theorem stages_equal_reference:
  "group_runs_by_stage runs = map (\<lambda>st. (st, filter (\<lambda>r. ts_stage (tr_spec r) = st) runs))
     (sorted_list_of_set ((\<lambda>r. ts_stage (tr_spec r)) ` set runs))"
  by (rule group_runs_by_stage_exact)

lemma mset_concat_filter:
  "distinct ks \<Longrightarrow> mset (concat (map (\<lambda>k. filter (\<lambda>x. f x = k) xs) ks)) = mset (filter (\<lambda>x. f x \<in> set ks) xs)"
proof (induction ks)
  case (Cons k ks)
  then have "filter_mset (\<lambda>x. f x = k) (mset xs) + filter_mset (\<lambda>x. f x \<in> set ks) (mset xs)
      = filter_mset (\<lambda>x. f x = k \<or> f x \<in> set ks) (mset xs)"
    by (intro multiset_eqI) auto
  with Cons show ?case by simp
qed simp

lemma group_runs_partition: "mset (concat (map snd (group_runs_by_stage runs))) = mset runs"
proof -
  let ?S = "(\<lambda>r. ts_stage (tr_spec r)) ` set runs"
  have "filter (\<lambda>r. ts_stage (tr_spec r) \<in> set (sorted_list_of_set ?S)) runs = runs" by (simp add: filter_id_conv)
  with mset_concat_filter [of "sorted_list_of_set ?S" "\<lambda>r. ts_stage (tr_spec r)" runs] show ?thesis
    by (simp add: group_runs_by_stage_exact comp_def)
qed

subsection \<open>Completeness of a staged batch\<close>

definition staged_hooks_ok :: "'e staged_hooks \<Rightarrow> bool" where
  "staged_hooks_ok h \<longleftrightarrow> wait_ok (sg_sched h) \<and> retry_ok (sg_sched h)
     \<and> (\<forall>run reason e. \<exists>result e'. sg_cancel_queued h run reason e = (Inr result, e') \<and> res_run_id result = tr_run_id run)
     \<and> (\<forall>b results e. \<exists>e'. publish_stage_progress h b results e = (Inr (), e'))"

lemma execution_resource_limits_ok: "dict_ok (execution_resource_limits plan)"
proof -
  have "dict_ok d \<Longrightarrow> dict_ok (fold (\<lambda>s d. if 0 < stp_concurrency s then dict_set (stp_sandbox_type s) (stp_concurrency s) d else d) ps d)"
    for ps d by (induction ps arbitrary: d) auto
  moreover have "dict_ok []" by (simp add: dict_ok_def)
  ultimately show ?thesis by (simp only: execution_resource_limits_def)
qed

lemma schedule_runs_results:
  assumes "staged_hooks_ok h" and "distinct (map tr_run_id runs)"
  shows "\<exists>out e'. schedule_runs repr mc h b runs e = Some (Inr out, e')
     \<and> mset (map res_run_id out) = mset (map tr_run_id runs)
     \<and> sorted (map (\<lambda>r. the (batch_item_index runs (res_run_id r))) out)"
proof -
  let ?h = "(sg_sched h)\<lparr>sh_cancel_queued := Some (sg_cancel_queued h)\<rparr>"
  have "hooks_ok (stage_params repr mc b) ?h"
    using assms(1) by (simp add: hooks_ok_def stage_params_def staged_hooks_ok_def execution_resource_limits_ok wait_ok_def retry_ok_def)
  moreover have "cancel_ok ?h" using assms(1) by (simp add: cancel_ok_def staged_hooks_ok_def)
  ultimately show ?thesis unfolding schedule_runs_def using assms(2) by (rule scheduler_run_results)
qed

lemma cancel_stage_results:
  assumes "staged_hooks_ok h"
  shows "\<exists>out e'. cancel_stage h runs n e = (Inr out, e') \<and> map res_run_id out = map tr_run_id runs"
proof (induction runs arbitrary: e)
  case (Cons run runs)
  obtain r e1 where r: "sg_cancel_queued h run (skipped_reason n) e = (Inr r, e1)" "res_run_id r = tr_run_id run"
    using assms unfolding staged_hooks_ok_def by metis
  obtain out e2 where "cancel_stage h runs n e1 = (Inr out, e2)" "map res_run_id out = map tr_run_id runs"
    using Cons.IH by blast
  with r show ?case by (simp add: cancel_stage_def)
qed (simp add: cancel_stage_def)

lemma run_stages_results:
  assumes ok: "staged_hooks_ok h"
  shows "\<forall>(_, rs) \<in> set stages. distinct (map tr_run_id rs) \<Longrightarrow>
    \<exists>out e'. run_stages repr mc h b l stages blocked results e = Some (Inr out, e')
      \<and> mset (map res_run_id out) = mset (map res_run_id results) + mset (map tr_run_id (concat (map snd stages)))"
proof (induction stages arbitrary: blocked results e)
  case (Cons st stages)
  obtain n rs where st: "st = (n, rs)" by (cases st)
  have d: "distinct (map tr_run_id rs)" and ds: "\<forall>(_, rs) \<in> set stages. distinct (map tr_run_id rs)" using Cons.prems st by auto
  note IH = Cons.IH [OF ds]
  show ?case
  proof (cases blocked)
    case (Some k)
    from cancel_stage_results [OF ok, of rs k e] obtain cs e1 where
      c: "cancel_stage h rs k e = (Inr cs, e1)" "map res_run_id cs = map tr_run_id rs" by blast
    from IH [of "Some k" "results @ cs" e1] obtain out e' where
      "run_stages repr mc h b l stages (Some k) (results @ cs) e1 = Some (Inr out, e')"
      "mset (map res_run_id out) = mset (map res_run_id (results @ cs)) + mset (map tr_run_id (concat (map snd stages)))" by blast
    with st Some c show ?thesis by (simp del: mset_map)
  next
    case None
    from schedule_runs_results [OF ok d, of repr mc b e] obtain sr e1 where
      sr: "schedule_runs repr mc h b rs e = Some (Inr sr, e1)" "mset (map res_run_id sr) = mset (map tr_run_id rs)" by blast
    obtain e2 where e2: "(if n \<noteq> l then publish_stage_progress h b (results @ sr) else retE ()) e1 = (Inr (), e2)"
      using ok [unfolded staged_hooks_ok_def, THEN conjunct2, THEN conjunct2, THEN conjunct2, rule_format, of b "results @ sr" e1]
      by (cases "n \<noteq> l") auto
    let ?bl = "if stage_gate_blocks sr (sb_join_strategy b) then Some n else None"
    from IH [of ?bl "results @ sr" e2] obtain out e' where
      "run_stages repr mc h b l stages ?bl (results @ sr) e2 = Some (Inr out, e')"
      "mset (map res_run_id out) = mset (map res_run_id (results @ sr)) + mset (map tr_run_id (concat (map snd stages)))" by blast
    with st None sr e2 show ?thesis by (simp add: Let_def del: mset_map)
  qed
qed simp

lemma item_order_index:
  assumes "distinct (map tr_run_id runs)" and "run \<in> set runs" and "res_run_id r = tr_run_id run"
  shows "item_order runs r = tr_batch_item_index run"
proof -
  have g: "dict_get (fold (\<lambda>run. dict_set (tr_run_id run) (tr_batch_item_index run)) rs d) k =
      (case find (\<lambda>run. tr_run_id run = k) rs of None \<Rightarrow> dict_get d k | Some run \<Rightarrow> Some (tr_batch_item_index run))"
    if "distinct (map tr_run_id rs)" for rs d k
    using that
  proof (induction rs arbitrary: d)
    case (Cons x rs)
    moreover have "find (\<lambda>run. tr_run_id run = tr_run_id x) rs = None"
      using Cons.prems by (auto simp: find_None_iff image_iff)
    ultimately show ?case by (auto simp: dict_get_set split: option.splits)
  qed simp
  have "find (\<lambda>run'. tr_run_id run' = tr_run_id run) runs = Some run"
    using assms(1,2) by (induction runs) auto
  then show ?thesis by (simp add: item_order_def g [OF assms(1)] assms(3))
qed

lemma group_stage_distinct:
  assumes "distinct (map tr_run_id runs)"
  shows "\<forall>(_, rs) \<in> set (group_runs_by_stage runs). distinct (map tr_run_id rs)"
proof -
  have "distinct (map tr_run_id (filter P runs))" for P
    using assms by (simp add: distinct_map_filter)
  then show ?thesis by (auto simp: group_runs_by_stage_exact)
qed

lemma single_stage:
  assumes "group_runs_by_stage runs = [(n, rs)]"
  shows "rs = runs"
proof -
  let ?S = "(\<lambda>r. ts_stage (tr_spec r)) ` set runs"
  from assms have "sorted_list_of_set ?S = [n] \<and> rs = filter (\<lambda>r. ts_stage (tr_spec r) = n) runs"
    by (auto simp: group_runs_by_stage_exact map_eq_Cons_conv)
  moreover from this have "?S = {n}" using set_sorted_list_of_set [of ?S] by simp
  ultimately show ?thesis by (auto simp: filter_id_conv)
qed

lemma item_order_batch_index:
  assumes "distinct (map tr_run_id runs)" and "res_run_id r \<in> set (map tr_run_id runs)"
  shows "the (batch_item_index runs (res_run_id r)) = item_order runs r"
proof -
  from assms(2) obtain run where run: "run \<in> set runs" "res_run_id r = tr_run_id run" by auto
  have "find (\<lambda>run'. tr_run_id run' = tr_run_id run) runs = Some run"
    using assms(1) run(1) by (induction runs) auto
  with item_order_index [OF assms(1) run] run(2) show ?thesis by (simp add: batch_item_index_def)
qed

text \<open>
  A staged batch whose hooks answer, the preparation of a retry and the cancellation of a queued run among
  them, always comes back, without an exception, with
  exactly one result for each of its runs, in batch order, however many stages it has, whichever
  runs fail and wherever the gate closes.
\<close>

theorem staged_run_complete:
  assumes ok: "staged_hooks_ok h" and d: "distinct (map tr_run_id (sb_runs b))" and ne: "sb_runs b \<noteq> []"
  shows "\<exists>out e'. staged_run repr mc h b e = Some (Inr out, e')
     \<and> mset (map res_run_id out) = mset (map tr_run_id (sb_runs b))
     \<and> sorted (map (item_order (sb_runs b)) out)"
proof -
  let ?g = "group_runs_by_stage (sb_runs b)"
  have "?g \<noteq> []" using group_runs_partition [of "sb_runs b"] ne by auto
  then consider (one) n rs where "?g = [(n, rs)]" | (many) st st' sts where "?g = st # st' # sts"
    by (metis list.exhaust surj_pair)
  then show ?thesis
  proof cases
    case one
    from schedule_runs_results [OF ok d, of repr mc b e] obtain out e' where
      o: "schedule_runs repr mc h b (sb_runs b) e = Some (Inr out, e')" "mset (map res_run_id out) = mset (map tr_run_id (sb_runs b))"
        "sorted (map (\<lambda>r. the (batch_item_index (sb_runs b) (res_run_id r))) out)" by blast
    have "set (map res_run_id out) = set (map tr_run_id (sb_runs b))" using o(2) by (rule mset_eq_setD)
    then have "map (\<lambda>r. the (batch_item_index (sb_runs b) (res_run_id r))) out = map (item_order (sb_runs b)) out"
      using item_order_batch_index [OF d] by (auto intro!: map_cong)
    with o one single_stage [OF one] show ?thesis by (simp add: staged_run_def)
  next
    case many
    from run_stages_results [OF ok group_stage_distinct [OF d], of repr mc b "fst (last ?g)" None "[]" e] obtain out e' where
      o: "run_stages repr mc h b (fst (last ?g)) ?g None [] e = Some (Inr out, e')"
        "mset (map res_run_id out) = mset (map tr_run_id (concat (map snd ?g)))" by (auto simp del: mset_map)
    have "mset (map tr_run_id (concat (map snd ?g))) = mset (map tr_run_id (sb_runs b))"
      using group_runs_partition [of "sb_runs b"] by (metis mset_map)
    moreover have "staged_run repr mc h b e = Some (Inr (sort_key (item_order (sb_runs b)) out), e')"
      using o(1) many by (cases st) (simp add: staged_run_def)
    ultimately show ?thesis using o(2) by simp
  qed
qed

subsection \<open>The stage gate\<close>

lemma mapE_append: "mapE f (xs @ ys) s = bindE (mapE f xs) (\<lambda>a. bindE (mapE f ys) (\<lambda>b. retE (a @ b))) s"
proof (induction xs arbitrary: s)
  case Nil
  show ?case by (simp add: bindE_def split: prod.splits sum.splits)
next
  case (Cons x xs)
  then show ?case by (simp add: bindE_def split: prod.splits sum.splits)
qed

lemma run_stages_blocked:
  "run_stages repr mc h b l stages (Some k) results e =
     (case cancel_stage h (concat (map snd stages)) k e of
        (Inl x, e') \<Rightarrow> Some (Inl x, e')
      | (Inr cancelled, e') \<Rightarrow> Some (Inr (results @ cancelled), e'))"
proof (induction stages arbitrary: results e)
  case (Cons st stages)
  then show ?case
    by (cases st) (auto simp: cancel_stage_def mapE_append bindE_def split: prod.splits sum.splits)
qed (simp add: cancel_stage_def)

text \<open>
  Once a stage has closed the gate, which it does exactly under \<^verbatim>\<open>all_success\<close> and \<^verbatim>\<open>fail_fast\<close>
  when one of its runs did not complete, none of the runs of the later stages is scheduled: the
  only calls left are one cancellation for each of them, in stage order, naming the stage that
  closed the gate.
\<close>

theorem stage_gate_closes:
  assumes "schedule_runs repr mc h b rs e = Some (Inr sr, e1)" and "n \<noteq> l"
    and "sb_join_strategy b \<in> {ALL_SUCCESS, FAIL_FAST}" and "\<exists>r \<in> set sr. res_status r \<noteq> COMPLETED"
  shows "run_stages repr mc h b l ((n, rs) # stages) None results e =
    (case publish_stage_progress h b (results @ sr) e1 of
       (Inl x, e2) \<Rightarrow> Some (Inl x, e2)
     | (Inr _, e2) \<Rightarrow>
        (case mapE (\<lambda>run. sg_cancel_queued h run (skipped_reason n)) (concat (map snd stages)) e2 of
           (Inl x, e3) \<Rightarrow> Some (Inl x, e3)
         | (Inr cancelled, e3) \<Rightarrow> Some (Inr (results @ sr @ cancelled), e3)))"
proof -
  have "stage_gate_blocks sr (sb_join_strategy b)"
    using assms(3,4) by (auto simp: stage_gate_blocks_def list_ex_iff)
  with assms(1,2) show ?thesis
    by (simp add: Let_def run_stages_blocked cancel_stage_def split: prod.splits sum.splits)
qed

subsection \<open>A batch of two stages\<close>

definition sample_staged_hooks :: "unit staged_hooks" where
  "sample_staged_hooks =
     \<lparr>sg_sched = sample_hooks,
      sg_cancel_queued = (\<lambda>run _ e. (Inr (sample_result (tr_run_id run) CANCELLED), e)),
      sg_list_batch_runs = (\<lambda>_ e. (Inl (Exn FileNotFoundError []), e)),
      sg_publish_parent_batch_progress = (\<lambda>_ _ e. (Inr (), e)), sg_run_objects = (\<lambda>_ runs. runs)\<rparr>"

definition staged_sample_run :: "string \<Rightarrow> int \<Rightarrow> task_run" where
  "staged_sample_run rid stage =
     (sample_run rid QUEUED)\<lparr>tr_spec := (tr_spec (sample_run rid QUEUED))\<lparr>ts_stage := stage\<rparr>\<rparr>"

definition sample_staged_batch :: staged_batch where
  "sample_staged_batch =
     \<lparr>sb_batch = sample_batch B_RUNNING, sb_runs = [staged_sample_run ''r'' 1, staged_sample_run ''q'' 0],
      sb_join_strategy = ALL_SUCCESS,
      sb_plan = \<lparr>bep_total_count = 2, bep_concurrency = 1, bep_planned_batch_sizes = [1, 1], bep_sandbox_type = None,
        bep_sandbox_task_count = 0, bep_sandbox_concurrency = None, bep_available_sandbox_count = None, bep_sandbox_plans = []\<rparr>\<rparr>"

lemma sample_staged_hooks_ok: "staged_hooks_ok sample_staged_hooks"
  using sample_hooks_ok(1) by (simp add: staged_hooks_ok_def hooks_ok_def sample_staged_hooks_def sample_result_def
      publish_stage_progress_def suppressE_def catch_Exception_def is_Exception_def)

theorem staged_run_complete_witness:
  "\<exists>out e'. staged_run (\<lambda>_. []) 20 sample_staged_hooks sample_staged_batch () = Some (Inr out, e')
     \<and> mset (map res_run_id out) = {#''r'', ''q''#}"
  using staged_run_complete [OF sample_staged_hooks_ok, of sample_staged_batch "\<lambda>_. []" 20 "()"]
  by (auto simp: sample_staged_batch_def staged_sample_run_def sample_run_def)

theorem stage_gate_closes_witness:
  "run_stages (\<lambda>_. []) 20 (sample_staged_hooks\<lparr>sg_sched := sample_hooks\<lparr>sh_prepare_retry := None\<rparr>\<rparr>) sample_staged_batch 1
      [(0, [staged_sample_run ''q'' 0]), (1, [staged_sample_run ''r'' 1])] None [] ()
    = Some (Inr [(sample_result ''q'' FAILED)\<lparr>res_error_class := Some TRANSIENT\<rparr>, sample_result ''r'' CANCELLED], ())"
proof -
  let ?hs = "sample_hooks\<lparr>sh_prepare_retry := None\<rparr>"
  let ?h = "sample_staged_hooks\<lparr>sg_sched := ?hs\<rparr>"
  let ?run = "staged_sample_run ''q'' 0" and ?res = "(sample_result ''q'' FAILED)\<lparr>res_error_class := Some TRANSIENT\<rparr>"
  let ?p = "stage_params (\<lambda>_. []) 20 sample_staged_batch"
  let ?h' = "sample_hooks\<lparr>sh_prepare_retry := None, sh_cancel_queued := Some (sg_cancel_queued sample_staged_hooks)\<rparr>"
  let ?s0 = "sched_init ?p [?run] ()"
  have lims: "resource_limits ?p = []" "concurrency ?p = 1" "run_resource ?p x = None" "can_start ?p u x"
    "sp_join_strategy ?p = ALL_SUCCESS" for x u
    by (simp_all add: resource_limits_def stage_params_def concurrency_def run_resource_def can_start_def
        execution_resource_limits_def sample_staged_batch_def scheduler_max_concurrency_def int_or_def split: option.splits)
  have run: "tr_run_id ?run = ''q''" "tr_attempt ?run = 1" by (simp_all add: staged_sample_run_def sample_run_def)
  have f: "fill_slots ?p ?s0 = start_run ?p ?run [] ?s0"
    by (subst fill_slots.simps, simp add: lims sched_init_def, subst fill_slots.simps)
      (simp add: start_run_def lims Let_def)
  have el: "\<not> eligible_for_retry ?p ?h' x y" for x y by (simp add: eligible_for_retry_def split: option.splits)
  have wt: "sh_wait sample_hooks [(t, ?run, k)] () = (Inr [(t, Inr ?res)], ())" for t k by (simp add: sample_hooks_def run)
  define s where "s = snd (sched_round ?p ?h' ?s0)"
  have r: "sched_round ?p ?h' ?s0 = (Inr True, s)"
    and st: "ss_pending s = []" "ss_running s = []" "ss_stop s = None" "ss_results s = [(''q'', ?res)]" "ss_env s = ()"
    by (simp_all add: s_def sched_round_def f, simp_all add: sched_init_def start_run_def lims Let_def envE_def wt
        collect_one_def settle_one_def stop_reason_def record_result_def el run)
  have "sched_round ?p ?h' s = (Inr False, s)" using st by (simp add: sched_round_def)
  with r have w: "whileE (sched_round ?p ?h') ?s0 = Some (Inr (), s)"
    by (subst whileE.simps, simp, subst whileE.simps, simp)
  have "schedule_runs (\<lambda>_. []) 20 ?h sample_staged_batch [?run] () = Some (Inr [?res], ())"
    using st run by (simp add: schedule_runs_def scheduler_run_def w sched_tail_def finally_cancel_def sort_results_def
        batch_item_index_def sample_result_def)
  from stage_gate_closes [OF this, of 0 1 "[(1, [staged_sample_run ''r'' 1])]" "[]"] show ?thesis
    by (simp add: sample_staged_batch_def publish_stage_progress_def suppressE_def catch_Exception_def is_Exception_def
        sample_staged_hooks_def sample_result_def staged_sample_run_def sample_run_def)
qed

subsection \<open>What a staged batch keeps\<close>

text \<open>A predicate on the environment that every hook keeps is kept by the scheduler and by the stages.\<close>

definition sched_hooks_keep :: "'e sched_hooks \<Rightarrow> ('e \<Rightarrow> bool) \<Rightarrow> bool" where
  "sched_hooks_keep h P \<longleftrightarrow>
     (\<forall>rn. preserves P (sh_wait h rn)) \<and> (\<forall>ts. preserves P (sh_cancel_and_wait h ts))
     \<and> (\<forall>f run r. sh_prepare_retry h = Some f \<longrightarrow> preserves P (f run r))
     \<and> (\<forall>f run reason. sh_cancel_queued h = Some f \<longrightarrow> preserves P (f run reason))"

definition staged_hooks_keep :: "'e staged_hooks \<Rightarrow> ('e \<Rightarrow> bool) \<Rightarrow> bool" where
  "staged_hooks_keep h P \<longleftrightarrow>
     sched_hooks_keep (sg_sched h) P \<and> (\<forall>run reason. preserves P (sg_cancel_queued h run reason))
     \<and> (\<forall>b. preserves P (sg_list_batch_runs h b)) \<and> (\<forall>b runs. preserves P (sg_publish_parent_batch_progress h b runs))"

abbreviation on_env :: "('e \<Rightarrow> bool) \<Rightarrow> 'e sched \<Rightarrow> bool" where
  "on_env P s \<equiv> P (ss_env s)"

lemma keep_envE: "preserves P m \<Longrightarrow> preserves (on_env P) (envE m)"
  by (auto simp: preserves_def envE_def split_beta)

lemma keep_local: "(\<And>s. ss_env (f s) = ss_env s) \<Longrightarrow> preserves (on_env P) (modifyE f)"
  by (simp add: preserves_def)

lemma fill_slots_env: "ss_env (fill_slots p s) = ss_env s"
proof (induction p s rule: fill_slots.induct)
  case (1 p s)
  then show ?case
    by (subst fill_slots.simps) (auto simp: start_run_def Let_def split: option.splits)
qed

lemma keep_collect: "preserves (on_env P) (collect_one d)"
  by (auto simp: preserves_def collect_one_def split: prod.splits)

lemma keep_settle:
  assumes "sched_hooks_keep h P"
  shows "preserves (on_env P) (settle_one p h stops c)"
proof -
  have "preserves (on_env P) (envE (the (sh_prepare_retry h) run result))" if "sh_prepare_retry h \<noteq> None" for run result
    using that assms by (auto simp: sched_hooks_keep_def intro!: keep_envE)
  then show ?thesis
    unfolding settle_one_def
    by (intro preserves_intros keep_local; fastforce simp: eligible_for_retry_def record_result_def split: option.splits)
qed

lemma keep_round:
  assumes "sched_hooks_keep h P"
  shows "preserves (on_env P) (sched_round p h)"
proof (rule preservesI)
  fix s assume s: "on_env P s"
  let ?tail = "\<lambda>s. bindE (envE (sh_wait h (ss_running s))) (\<lambda>done. bindE (mapE collect_one done) (\<lambda>completed.
      bindE (getE ss_stop) (\<lambda>stop.
        let round_stops = stop \<noteq> None \<or> list_ex (\<lambda>(_, result). stop_reason (sp_join_strategy p) result \<noteq> None) completed
        in thenE (forE completed (settle_one p h round_stops)) (retE True))))"
  have "preserves (on_env P) (?tail t)" for t
    using assms by (intro preserves_intros keep_envE keep_collect keep_settle) (auto simp: sched_hooks_keep_def)
  from preserves_apply [OF this, of "fill_slots p s"] s show "on_env P (snd (sched_round p h s))"
    by (auto simp: sched_round_def Let_def fill_slots_env)
qed

lemma keep_tail:
  assumes "sched_hooks_keep h P"
  shows "preserves (on_env P) (sched_tail p h runs)" and "preserves (on_env P) (finally_cancel h r)"
proof -
  have c: "preserves (on_env P) (cancel_remaining rem (sh_cancel_queued h) reason)" for rem reason
    unfolding cancel_remaining_def
    using assms by (intro preserves_intros keep_envE keep_local) (auto simp: sched_hooks_keep_def)
  have "preserves (on_env P) (\<lambda>s. case ss_stop s of None \<Rightarrow> (Inr (), s)
      | Some reason \<Rightarrow> cancel_remaining (ss_pending s) (sh_cancel_queued h) reason s)"
    using c by (auto simp: preserves_def split: option.splits)
  then show "preserves (on_env P) (sched_tail p h runs)"
    unfolding sched_tail_def by (intro preserves_intros) (auto simp: preserves_def)
  show "preserves (on_env P) (finally_cancel h r)"
    unfolding finally_cancel_def using assms by (intro preserves_intros keep_envE) (auto simp: sched_hooks_keep_def)
qed

lemma scheduler_run_keeps:
  assumes "sched_hooks_keep h P"
  shows "preservesP P (scheduler_run p h runs)"
  unfolding preservesP_def
proof (intro allI impI)
  fix e r e' assume e: "P e" and run: "scheduler_run p h runs e = Some (r, e')"
  show "P e'"
  proof (cases "runs = []")
    case False
    with run obtain u s where w: "whileE (sched_round p h) (sched_init p runs e) = Some (u, s)"
      by (auto simp: scheduler_run_def split: option.splits)
    have s: "on_env P s"
      by (rule whileE_preserves [OF keep_round [OF assms] _ w]) (use e in \<open>simp add: sched_init_def\<close>)
    have fin: "on_env P (snd (finally_cancel h q t))" if "on_env P t" for q :: "task_result list result" and t
      using preserves_apply [OF keep_tail(2) [OF assms]] that .
    have "on_env P (snd (sched_tail p h runs s))" using preserves_apply [OF keep_tail(1) [OF assms]] s .
    with run w False fin [of s] fin [of "snd (sched_tail p h runs s)"] s show ?thesis
      by (cases u) (auto simp: scheduler_run_def split_beta)
  qed (use e run in \<open>simp add: scheduler_run_def\<close>)
qed

lemma schedule_runs_keeps: "staged_hooks_keep h P \<Longrightarrow> preservesP P (schedule_runs repr mc h b runs)"
  unfolding schedule_runs_def
  by (rule scheduler_run_keeps) (auto simp: staged_hooks_keep_def sched_hooks_keep_def)

lemma run_stages_keeps:
  assumes h: "staged_hooks_keep h P"
  shows "P e \<Longrightarrow> run_stages repr mc h b last_stage stages blocked results e = Some (r, e') \<Longrightarrow> P e'"
proof (induction stages arbitrary: blocked results e)
  case (Cons stage stages)
  obtain sn sr where st: "stage = (sn, sr)" by (cases stage)
  have pub: "preserves P (publish_stage_progress h b res)" for res
    unfolding publish_stage_progress_def using h by (intro preserves_intros) (auto simp: staged_hooks_keep_def)
  have can: "preserves P (cancel_stage h sr n)" for n
    unfolding cancel_stage_def using h by (intro preserves_intros) (simp add: staged_hooks_keep_def)
  show ?case
  proof (cases blocked)
    case (Some n)
    obtain u e1 where u: "cancel_stage h sr n e = (u, e1)" by (cases "cancel_stage h sr n e")
    with preservesD [OF can Cons.prems(1)] Cons.prems Cons.IH [of e1] st Some show ?thesis by (cases u) auto
  next
    case None
    with Cons.prems st obtain u e1 where u: "schedule_runs repr mc h b sr e = Some (u, e1)"
      by (auto split: option.splits)
    have e1: "P e1" by (rule preservesPD [OF schedule_runs_keeps [OF h] Cons.prems(1) u])
    show ?thesis
    proof (cases u)
      case (Inr res)
      let ?pub = "if sn \<noteq> last_stage then publish_stage_progress h b (results @ res) else retE ()"
      have "preserves P ?pub" using pub by simp
      moreover obtain v e2 where v: "?pub e1 = (v, e2)" by (cases "?pub e1")
      ultimately have "P e2" using e1 preservesD by metis
      with Cons.prems Cons.IH [of e2] st None u Inr v show ?thesis by (cases v) (auto simp: Let_def)
    qed (use Cons.prems st None u e1 in auto)
  qed
qed simp

lemma staged_run_keeps:
  assumes h: "staged_hooks_keep h P"
  shows "preservesP P (staged_run repr mc h b)"
  unfolding preservesP_def
proof (intro allI impI)
  fix e r e' assume e: "P e" and run: "staged_run repr mc h b e = Some (r, e')"
  show "P e'"
  proof (cases "group_runs_by_stage (sb_runs b)" rule: remdups_adj.cases)
    case 1
    with e run show ?thesis by (simp add: staged_run_def)
  next
    case (2 st)
    with e run preservesPD [OF schedule_runs_keeps [OF h] e] show ?thesis by (cases st) (auto simp: staged_run_def)
  next
    case (3 st1 st2 stages)
    let ?all = "st1 # st2 # stages"
    obtain n rs where "st1 = (n, rs)" by (cases st1)
    with 3 run have c: "(case run_stages repr mc h b (fst (last ?all)) ?all None [] e of
         None \<Rightarrow> None
       | Some (Inl x, e') \<Rightarrow> Some (Inl x, e')
       | Some (Inr results, e') \<Rightarrow> Some (Inr (sort_key (item_order (sb_runs b)) results), e')) = Some (r, e')"
      by (simp only: staged_run_def list.case prod.case)
    then obtain u where "run_stages repr mc h b (fst (last ?all)) ?all None [] e = Some (u, e')"
      by (cases "run_stages repr mc h b (fst (last ?all)) ?all None [] e") (auto split: sum.splits)
    with run_stages_keeps [OF h e] show ?thesis by blast
  qed
qed

end
