(* ===== verification/Sandbox_Coordinator.thy ===== *)
theory Sandbox_Coordinator
  imports Sandbox_Leases Result_Persistence Staged_Executor
begin

section \<open>The sandbox coordinator\<close>

text \<open>
  \<^verbatim>\<open>orchestration/run_support.py\<close> (stage clock and plan cancellation), the run calls of
  \<^verbatim>\<open>presentation/progress_sink.py\<close> (\<^verbatim>\<open>run_stage\<close>, \<^verbatim>\<open>mark_run_terminal\<close> and what they persist) and
  \<^verbatim>\<open>sandbox/coordinator.py\<close>.

  A run object is mutated while it is executed, and the clean-up sees the mutated object, so the
  coordinators work on the state \<open>rc_state\<close>: the run object, the local variables of the attempt, the
  fields of the coordinator, and the world that the store and the services act on. The calls of the
  plan editor and the outcomes of the \<^verbatim>\<open>asyncio\<close> races are the parameters of \<open>run_env\<close>:
  \<open>en_cancel_wins\<close> says whether the cancellation poll finished before the operation it is raced
  with, \<open>en_abandon\<close> is what the cancelled operation still did. A background clean-up is a task of
  its own: it is put into \<open>rc_background\<close> and performed by \<open>run_background\<close> at any later time.
\<close>

datatype race_outcome =
    Executor_Finished "task_result result"
  | Cancel_Finished "bool result"
  | Timeout_Finished

record 'w run_env =
  en_store :: "'w run_store"
  en_environ :: environ
  en_repr :: "json \<Rightarrow> string"
  en_agent_instance_id :: int
  en_default_manager :: "int \<Rightarrow> 'w lease_manager"
  en_is_plan_cancelled :: "('w, bool) io option"
  en_update_tool_call :: "int \<Rightarrow> task_run \<Rightarrow> string option \<Rightarrow> task_result option \<Rightarrow> bool \<Rightarrow> string \<Rightarrow> ('w, unit) io"
  en_publish_deliverable :: "int \<Rightarrow> sandbox_lease_ref \<Rightarrow> ('w, unit) io"
  en_mark_retry_pending :: "task_run \<Rightarrow> ('w, unit) io"
  en_cancel_wins :: "('w, bool) io"
  en_abandon :: "('w, unit) io"
  en_race :: "task_run \<Rightarrow> ('w, race_outcome) io"
  en_cancel_executor :: "task_run \<Rightarrow> ('w, task_result) io"
  en_stop_tasks :: "task_run \<Rightarrow> ('w, unit) io"
  en_monotonic_ms :: "('w, int) io"
  en_sleep :: "('w, unit) io"

record 'w rc_state =
  rc_run :: task_run
  rc_manager :: "'w lease_manager option"
  rc_background :: "reservation_token list"
  rc_timings :: "(string, int) dict"
  rc_outcome :: string
  rc_terminal :: "task_result option"
  rc_world :: 'w

definition worldE :: "('w, 'a) io \<Rightarrow> ('w rc_state, 'a) io" where
  "worldE m = (\<lambda>s. case m (rc_world s) of (r, w) \<Rightarrow> (r, s\<lparr>rc_world := w\<rparr>))"

definition runE :: "(task_run \<Rightarrow> ('w, 'a) io) \<Rightarrow> ('w rc_state, 'a) io" where
  "runE f = (\<lambda>s. worldE (f (rc_run s)) s)"

definition setrunE :: "(task_run \<Rightarrow> task_run) \<Rightarrow> ('w rc_state, unit) io" where
  "setrunE f = modifyE (\<lambda>s. s\<lparr>rc_run := f (rc_run s)\<rparr>)"

subsection \<open>Stage clock and cancellation\<close>

definition clock_record :: "string \<Rightarrow> int \<Rightarrow> (string, int) dict \<Rightarrow> (string, int) dict" where
  "clock_record stage duration_ms timings =
     (if stage = [] \<or> duration_ms < 0 then timings
      else dict_set stage ((case dict_get timings stage of None \<Rightarrow> 0 | Some n \<Rightarrow> n) + duration_ms) timings)"

definition clock_measure :: "'w run_env \<Rightarrow> string \<Rightarrow> ('w rc_state, 'a) io \<Rightarrow> ('w rc_state, 'a) io" where
  "clock_measure env stage body =
     bindE (worldE (en_monotonic_ms env)) (\<lambda>started.
       finallyE body
         (bindE (worldE (en_monotonic_ms env)) (\<lambda>now.
            modifyE (\<lambda>s. s\<lparr>rc_timings := clock_record stage (now - started) (rc_timings s)\<rparr>))))"

definition as_metrics :: "(string, int) dict \<Rightarrow> (string, int) dict" where
  "as_metrics timings = map (\<lambda>(stage, v). (stage @ ''_ms'', v)) timings"

definition is_plan_cancelled :: "'w run_env \<Rightarrow> ('w, bool) io" where
  "is_plan_cancelled env = (case en_is_plan_cancelled env of None \<Rightarrow> retE False | Some checker \<Rightarrow> checker)"

text \<open>
  The race of an operation with the cancellation poll. When the poll fails first, its exception is
  what the caller sees, and the operation goes on as a task that nobody awaits.
\<close>

definition detachE :: "('s, 'a) io \<Rightarrow> ('s, unit) io" where
  "detachE m = catchE (thenE m (retE ())) (\<lambda>_. retE ())"

definition poll_first :: "'w run_env \<Rightarrow> ('w, 'a) io \<Rightarrow> ('w, bool) io" where
  "poll_first env operation = catchE (en_cancel_wins env) (\<lambda>e. thenE (detachE operation) (raiseE e))"

definition await_unless_plan_cancelled :: "'w run_env \<Rightarrow> ('w, 'a) io \<Rightarrow> ('w, 'a) io" where
  "await_unless_plan_cancelled env operation =
     bindE (poll_first env operation) (\<lambda>cancelled.
       if cancelled then thenE (en_abandon env) (raiseE (Exn PlanCancellationRequested [])) else operation)"

text \<open>\<^verbatim>\<open>if await is_plan_cancelled(ctx): raise PlanCancellationRequested\<close>.\<close>

definition check_cancelled :: "'w run_env \<Rightarrow> ('w rc_state, unit) io" where
  "check_cancelled env =
     bindE (worldE (is_plan_cancelled env)) (\<lambda>c. if c then raiseE (Exn PlanCancellationRequested []) else retE ())"

subsection \<open>Progress of a run\<close>

definition persist_stage ::
    "'z rt_world_scheme run_store \<Rightarrow> string \<Rightarrow> task_run \<Rightarrow> ('z rt_world_scheme, unit) io" where
  "persist_stage st active_stage run =
     bindE (rs_get_run st (tr_run_id run)) (\<lambda>current.
     bindE now_ms (\<lambda>now.
       let current = current\<lparr>tr_runtime_stage := active_stage, tr_heartbeat_at := Some now\<rparr>;
           current = (if tr_sandbox run \<noteq> None
                      then current\<lparr>tr_sandbox := tr_sandbox run, tr_sandbox_released := tr_sandbox_released run,
                                  tr_lease_outcome := tr_lease_outcome run\<rparr>
                      else current)
       in rs_update_run st current))"

definition persist_run_runtime_stage ::
    "'z rt_world_scheme run_env \<Rightarrow> string \<Rightarrow> ('z rt_world_scheme rc_state, unit) io" where
  "persist_run_runtime_stage env active_stage =
     bindE (getE rc_run) (\<lambda>run.
       if tr_runtime_stage run = active_stage then retE ()
       else thenE (setrunE (\<lambda>run. run\<lparr>tr_runtime_stage := active_stage\<rparr>))
              (runE (\<lambda>run. suppressE (persist_stage (en_store env) active_stage run))))"

definition no_call :: "int option \<Rightarrow> bool" where
  "no_call call_id \<longleftrightarrow> int_or call_id 0 = 0"

definition run_stage :: "'z rt_world_scheme run_env \<Rightarrow> string \<Rightarrow> ('z rt_world_scheme rc_state, unit) io" where
  "run_stage env stage =
     bindE (getE rc_run) (\<lambda>run.
       if no_call (tr_plan_batch_call_id run) then retE ()
       else thenE (persist_run_runtime_stage env stage)
              (runE (\<lambda>run. en_update_tool_call env (the (tr_plan_batch_call_id run)) run (Some stage) None False [])))"

definition mark_run_terminal ::
    "'z rt_world_scheme run_env \<Rightarrow> task_run \<Rightarrow> task_result \<Rightarrow> bool \<Rightarrow> string \<Rightarrow> ('z rt_world_scheme, unit) io" where
  "mark_run_terminal env run result sandbox_released lease_outcome =
     (if no_call (tr_plan_batch_call_id run) then retE ()
      else en_update_tool_call env (the (tr_plan_batch_call_id run)) run None (Some result) sandbox_released lease_outcome)"

subsection \<open>Acquisition\<close>

definition ensure_manager :: "'w run_env \<Rightarrow> ('w rc_state, 'w lease_manager) io" where
  "ensure_manager env = (\<lambda>s.
     case rc_manager s of
       Some lm \<Rightarrow> (Inr lm, s)
     | None \<Rightarrow> let lm = en_default_manager env (en_agent_instance_id env) in (Inr lm, s\<lparr>rc_manager := Some lm\<rparr>))"

definition acquire_reserved_sandbox ::
    "'w run_env \<Rightarrow> 'w lease_manager \<Rightarrow> reservation_token \<Rightarrow> ('w rc_state, sandbox_lease_ref) io" where
  "acquire_reserved_sandbox env lm reservation =
     bindE (worldE (poll_first env (lm_acquire lm reservation))) (\<lambda>cancelled.
       if cancelled
       then thenE (modifyE (\<lambda>s. s\<lparr>rc_background := rc_background s @ [reservation]\<rparr>))
              (raiseE (Exn PlanCancellationRequested []))
       else worldE (lm_acquire lm reservation))"

text \<open>\<^verbatim>\<open>cleanup()\<close> of \<^verbatim>\<open>_release_acquired_sandbox_later\<close>, for the oldest task that is waiting.\<close>

definition late_release :: "'w lease_manager \<Rightarrow> reservation_token \<Rightarrow> ('w, unit) io" where
  "late_release lm reservation =
     bindE (catchE (bindE (lm_acquire lm reservation) (\<lambda>lease. retE (Some lease))) (\<lambda>_. retE None)) (\<lambda>lease.
       case lease of None \<Rightarrow> retE () | Some l \<Rightarrow> suppressE (lm_release lm l ''dirty''))"

definition run_background :: "('w rc_state, unit) io" where
  "run_background = (\<lambda>s.
     case (rc_background s, rc_manager s) of
       (reservation # rest, Some lm) \<Rightarrow> worldE (late_release lm reservation) (s\<lparr>rc_background := rest\<rparr>)
     | _ \<Rightarrow> (Inr (), s))"

definition publish_acquired_sandbox :: "'w run_env \<Rightarrow> task_run \<Rightarrow> ('w, unit) io" where
  "publish_acquired_sandbox env run =
     (case tr_sandbox run of
        None \<Rightarrow> retE ()
      | Some lease \<Rightarrow>
          let tool_call_id = int_or (tr_parent_tool_call_id run) (int_or (tr_plan_batch_call_id run) 0)
          in if tool_call_id = 0 then retE () else en_publish_deliverable env tool_call_id lease)"

definition reset_or_continue :: "'w run_env \<Rightarrow> 'w lease_manager \<Rightarrow> ('w rc_state, unit) io" where
  "reset_or_continue env lm =
     catch_Exception (runE (\<lambda>run. lm_reset lm (the (tr_sandbox run)))) (\<lambda>_. check_cancelled env)"

text \<open>The part of \<^verbatim>\<open>acquire\<close> after the guard on the required sandbox.\<close>

definition acquire_required ::
    "'z rt_world_scheme run_env \<Rightarrow> 'z rt_world_scheme lease_manager \<Rightarrow> string \<Rightarrow> ('z rt_world_scheme rc_state, unit) io" where
  "acquire_required env lm requirement =
     thenE (check_cancelled env)
    (thenE (run_stage env ''capacity_wait'')
    (bindE (liftE (validate_sandbox_requirement
        \<lparr>sr_type = requirement, sr_count = 1, sr_reset_before_run = True, sr_release_after_run = True, sr_affinity_key = None\<rparr>)) (\<lambda>req.
     bindE (runE (\<lambda>run. await_unless_plan_cancelled env (lm_reserve lm req (tr_run_id run)))) (\<lambda>reservation.
     thenE (check_cancelled env)
    (thenE (run_stage env ''acquire'')
    (bindE (acquire_reserved_sandbox env lm reservation) (\<lambda>lease.
     thenE (setrunE (\<lambda>run. run\<lparr>tr_sandbox := Some lease, tr_sandbox_released := False, tr_lease_outcome := []\<rparr>))
    (thenE (runE (rs_update_run (en_store env)))
    (thenE (check_cancelled env)
    (thenE (runE (publish_acquired_sandbox env))
    (thenE (run_stage env ''reset'')
    (thenE (reset_or_continue env lm)
    (thenE (check_cancelled env)
    (thenE (runE (rs_update_run (en_store env)))
       (run_stage env ''sandbox_ready'')))))))))))))))"

definition sandbox_acquire :: "'z rt_world_scheme run_env \<Rightarrow> ('z rt_world_scheme rc_state, unit) io" where
  "sandbox_acquire env =
     bindE (ensure_manager env) (\<lambda>lm.
     bindE (getE rc_run) (\<lambda>run.
       case selected_sandbox (en_repr env) (tr_spec run) of
         None \<Rightarrow> retE ()
       | Some requirement \<Rightarrow> acquire_required env lm requirement))"

subsection \<open>Release\<close>

definition set_run_sandbox_release_state ::
    "'z rt_world_scheme run_env \<Rightarrow> bool \<Rightarrow> string \<Rightarrow> ('z rt_world_scheme rc_state, unit) io" where
  "set_run_sandbox_release_state env released lease_outcome =
     thenE (setrunE (\<lambda>run. run\<lparr>tr_sandbox_released := released, tr_lease_outcome := lease_outcome\<rparr>))
       (runE (\<lambda>run. suppressE (bindE (rs_get_run (en_store env) (tr_run_id run)) (\<lambda>current.
          rs_update_run (en_store env) (current\<lparr>tr_sandbox_released := released, tr_lease_outcome := lease_outcome\<rparr>)))))"

primrec release_loop ::
    "'z rt_world_scheme run_env \<Rightarrow> 'z rt_world_scheme lease_manager \<Rightarrow> sandbox_lease_ref \<Rightarrow> string \<Rightarrow> nat
       \<Rightarrow> ('z rt_world_scheme rc_state, bool) io" where
  "release_loop env lm lease lease_outcome 0 = retE False"
| "release_loop env lm lease lease_outcome (Suc left_over) =
     bindE (catch_Exception
              (thenE (run_stage env ''release'')
              (thenE (worldE (lm_release lm lease lease_outcome))
              (thenE (set_run_sandbox_release_state env True lease_outcome) (retE True))))
              (\<lambda>_. thenE (if 0 < left_over then worldE (en_sleep env) else retE ()) (retE False)))
       (\<lambda>released. if released then retE True else release_loop env lm lease lease_outcome left_over)"

definition sandbox_release :: "'z rt_world_scheme run_env \<Rightarrow> string \<Rightarrow> ('z rt_world_scheme rc_state, bool) io" where
  "sandbox_release env lease_outcome = (\<lambda>s.
     case (tr_sandbox (rc_run s), rc_manager s) of
       (Some lease, Some lm) \<Rightarrow>
         bindE (release_loop env lm lease lease_outcome (nat (sandbox_release_attempts (en_environ env)))) (\<lambda>released.
           if released then retE True
           else thenE (set_run_sandbox_release_state env False lease_outcome) (retE False)) s
     | _ \<Rightarrow> (Inr False, s))"

definition stale_run_sandbox_manager ::
    "'w run_env \<Rightarrow> 'w lease_manager option \<Rightarrow> task_run \<Rightarrow> 'w lease_manager" where
  "stale_run_sandbox_manager env manager run =
     (case manager of
        Some lm \<Rightarrow> if lm_agent_instance_id lm = [] \<or> lm_agent_instance_id lm = str_of_int (tr_agent_instance_id run)
                   then lm else en_default_manager env (tr_agent_instance_id run)
      | None \<Rightarrow> en_default_manager env (tr_agent_instance_id run))"

definition release_stale ::
    "'z rt_world_scheme run_env \<Rightarrow> 'z rt_world_scheme lease_manager option \<Rightarrow> task_run \<Rightarrow> ('z rt_world_scheme, bool) io" where
  "release_stale env manager run =
     (case tr_sandbox run of
        None \<Rightarrow> retE False
      | Some lease \<Rightarrow>
          let lease_outcome = str_or (tr_lease_outcome run) ''dirty'' in
          bindE (catch_Exception
                   (thenE (lm_release (stale_run_sandbox_manager env manager run) lease lease_outcome) (retE True))
                   (\<lambda>_. retE False)) (\<lambda>released.
          thenE (suppressE (bindE (rs_get_run (en_store env) (tr_run_id run)) (\<lambda>current.
                   rs_update_run (en_store env) (current\<lparr>tr_sandbox_released := released, tr_lease_outcome := lease_outcome\<rparr>))))
            (retE released)))"

definition release_many ::
    "'z rt_world_scheme run_env \<Rightarrow> 'z rt_world_scheme lease_manager option \<Rightarrow> task_run list \<Rightarrow> ('z rt_world_scheme, unit) io" where
  "release_many env manager runs =
     forE runs (\<lambda>run.
       if tr_status run \<in> set TERMINAL_STATUSES \<and> tr_status run \<noteq> CANCELLED then retE ()
       else if tr_sandbox run = None \<or> tr_sandbox_released run then retE ()
       else thenE (release_stale env manager (run\<lparr>tr_lease_outcome := str_or (tr_lease_outcome run) ''dirty''\<rparr>)) (retE ()))"

definition available_count :: "'w run_env \<Rightarrow> string \<Rightarrow> ('w rc_state, int option) io" where
  "available_count env sandbox_type =
     bindE (ensure_manager env) (\<lambda>lm.
       case lm_available_count lm of
         None \<Rightarrow> retE None
       | Some counter \<Rightarrow>
           catch_Exception (bindE (worldE (counter sandbox_type)) (\<lambda>n. retE (Some (max 0 n)))) (\<lambda>_. retE None))"

text \<open>\<^verbatim>\<open>cleanup_batch\<close> works on the run objects it has listed, one after the other.\<close>

definition cleanup_run :: "'z rt_world_scheme run_env \<Rightarrow> task_run \<Rightarrow> ('z rt_world_scheme rc_state, unit) io" where
  "cleanup_run env run =
     (if tr_sandbox run = None \<or> (tr_sandbox_released run \<and> tr_status run \<in> set TERMINAL_STATUSES) then retE ()
      else
        let lease_outcome = str_or (tr_lease_outcome run) (if tr_status run = COMPLETED then ''clean'' else ''dirty'') in
        thenE (setrunE (\<lambda>_. run))
       (bindE (sandbox_release env lease_outcome) (\<lambda>released.
        bindE (worldE (catch_Exception
                 (bindE (rs_get_task_detail (en_store env) (tr_run_id run) VIEW_SUMMARY) (\<lambda>d. retE (Some d))) (\<lambda>_. retE None)))
          (\<lambda>detail.
            case detail of
              None \<Rightarrow> retE ()
            | Some d \<Rightarrow>
                (case det_result d of
                   None \<Rightarrow> retE ()
                 | Some result \<Rightarrow> runE (\<lambda>run. mark_run_terminal env run result released lease_outcome))))))"

definition cleanup_batch :: "'z rt_world_scheme run_env \<Rightarrow> batch_record \<Rightarrow> ('z rt_world_scheme rc_state, unit) io" where
  "cleanup_batch env batch = (\<lambda>s.
     if br_sandbox_type batch \<in> {None, Some []} \<or> (case rc_manager s of None \<Rightarrow> True | Some _ \<Rightarrow> False) then (Inr (), s)
     else
       bindE (worldE (catch_Exception
                (bindE (rs_list_batch_runs (en_store env) (br_batch_id batch)) (\<lambda>runs. retE (Some runs))) (\<lambda>_. retE None)))
         (\<lambda>listed. case listed of None \<Rightarrow> retE () | Some runs \<Rightarrow> forE runs (cleanup_run env)) s)"

end
