(* ===== verification/Run_Coordinator.thy ===== *)
theory Run_Coordinator
  imports Sandbox_Coordinator
begin

section \<open>The run coordinator\<close>

text \<open>
  \<^verbatim>\<open>orchestration/run_coordinator.py\<close>: one run from its claim to its terminal result, with the
  scheduler callbacks \<^verbatim>\<open>cancel_queued\<close> and \<^verbatim>\<open>prepare_retry\<close>. The state and the environment are those
  of \<open>Sandbox_Coordinator\<close>; the race between executor, cancellation poll and timeout is \<open>en_race\<close>,
  the executor's answer to a cancellation \<open>en_cancel_executor\<close>, and the \<^verbatim>\<open>finally\<close> block that stops the
  helper tasks \<open>en_stop_tasks\<close>. A wait that never ends has no value.
\<close>

definition mark_run_cancelled ::
    "'z rt_world_scheme run_env \<Rightarrow> task_run \<Rightarrow> string \<Rightarrow> ('z rt_world_scheme, task_result) io" where
  "mark_run_cancelled env run reason =
     (let st = en_store env; rid = tr_run_id run in
      bindE (cancelled_result run reason) (\<lambda>result.
      thenE (catch_class StaleWorkerError (claim_and_write st rid ''task-manager'' result)
               (\<lambda>_. suppressE (rs_cancel_run st rid reason)))
     (bindE (catch_Exception (rs_get_run st rid) (\<lambda>_. retE run)) (\<lambda>run.
      thenE (mark_run_terminal env run result False []) (retE result)))))"

definition cancel_queued ::
    "'z rt_world_scheme run_env \<Rightarrow> task_run \<Rightarrow> string \<Rightarrow> ('z rt_world_scheme, task_result) io" where
  "cancel_queued env run reason = mark_run_cancelled env run reason"

subsection \<open>Retries\<close>

text \<open>The fields a fresh attempt of the stored run starts with.\<close>

definition next_attempt :: "task_run \<Rightarrow> task_result \<Rightarrow> int \<Rightarrow> int \<Rightarrow> task_run" where
  "next_attempt stored result expected_attempt now =
     stored\<lparr>tr_attempt := expected_attempt + 1, tr_worker_id := None, tr_fencing_token := [], tr_sandbox := None,
            tr_sandbox_released := False, tr_lease_outcome := [], tr_queued_at := now, tr_started_at := None,
            tr_heartbeat_at := None, tr_ended_at := None, tr_latest_progress_message := [], tr_latest_progress_at := 0,
            tr_last_error_class := res_error_class result, tr_last_error := res_error_message result\<rparr>"

definition prepare_retry ::
    "'z rt_world_scheme run_env \<Rightarrow> task_run \<Rightarrow> task_result \<Rightarrow> ('z rt_world_scheme, task_run option) io" where
  "prepare_retry env run result =
     (let st = en_store env; backoff_seconds = max 0 (rp_backoff_seconds (ep_retry (tr_execution_policy run))) in
      thenE (if backoff_seconds \<noteq> 0 then en_sleep env else retE ())
     (bindE (rs_get_run st (tr_run_id run)) (\<lambda>stored.
        if tr_status stored \<notin> set RETRYABLE_TERMINAL_STATUSES \<or> tr_attempt stored \<noteq> tr_attempt run then retE None
        else
          bindE now_ms (\<lambda>now.
          bindE (catch_Exception
                   (bindE (transition_run QUEUED False (next_attempt stored result (tr_attempt run) now)) (\<lambda>next_run.
                    thenE (rs_reopen_run_for_retry st next_run (tr_attempt run)) (retE (Some next_run))))
                   (\<lambda>_. retE None)) (\<lambda>reopened.
            case reopened of
              None \<Rightarrow> retE None
            | Some next_run \<Rightarrow>
                thenE (publish_run_transition next_run (tr_status stored))
               (thenE (en_mark_retry_pending env next_run) (retE (Some next_run))))))))"

subsection \<open>Waiting for a run of another owner\<close>

definition existing_round ::
    "'z rt_world_scheme run_env \<Rightarrow> task_run \<Rightarrow> int \<Rightarrow> ('z rt_world_scheme, bool \<times> task_result option) io" where
  "existing_round env run deadline =
     bindE (en_monotonic_ms env) (\<lambda>now.
       if deadline \<le> now then retE (False, None)
       else
         bindE (rs_get_task_detail (en_store env) (tr_run_id run) VIEW_SUMMARY) (\<lambda>detail.
           case det_result detail of
             Some result \<Rightarrow> thenE (mark_run_terminal env (det_run detail) result False []) (retE (False, Some result))
           | None \<Rightarrow>
               if tr_status (det_run detail) \<in> set TERMINAL_STATUSES then retE (False, None)
               else thenE (en_sleep env) (retE (True, None))))"

definition existing_step ::
    "'z rt_world_scheme run_env \<Rightarrow> task_run \<Rightarrow> int \<Rightarrow> (task_result option \<times> 'z rt_world_scheme, bool) io" where
  "existing_step env run deadline = (\<lambda>(_, w).
     case existing_round env run deadline w of
       (Inl e, w') \<Rightarrow> (Inl e, (None, w'))
     | (Inr (again, found), w') \<Rightarrow> (Inr again, (found, w')))"

definition existing_timed_out ::
    "'z rt_world_scheme run_env \<Rightarrow> task_run \<Rightarrow> int \<Rightarrow> int \<Rightarrow> ('z rt_world_scheme, task_result) io" where
  "existing_timed_out env run started_at wait_timeout =
     bindE now_ms (\<lambda>now.
       let result = bare_result run BLOCKED (''Timed out waiting for prior run '' @ tr_run_id run @ '' to finish.'') (Some TRANSIENT)
                      (''Timed out waiting for prior run after '' @ str_of_int wait_timeout @ ''s.'') started_at now (now - started_at)
       in thenE (mark_run_terminal env run result False []) (retE result))"

definition wait_for_existing_run ::
    "'z rt_world_scheme run_env \<Rightarrow> task_run \<Rightarrow> 'z rt_world_scheme \<Rightarrow> (task_result result \<times> 'z rt_world_scheme) option" where
  "wait_for_existing_run env run w =
     (case bindE now_ms (\<lambda>started. bindE (en_monotonic_ms env) (\<lambda>m. retE (started, m))) w of
        (Inl e, w1) \<Rightarrow> Some (Inl e, w1)
      | (Inr (started_at, m), w1) \<Rightarrow>
          (let wait_timeout = reuse_wait_timeout_seconds (en_environ env) run in
           case whileE (existing_step env run (m + 1000 * wait_timeout)) (None, w1) of
             None \<Rightarrow> None
           | Some (Inl e, (_, w2)) \<Rightarrow> Some (Inl e, w2)
           | Some (Inr _, (Some result, w2)) \<Rightarrow> Some (Inr result, w2)
           | Some (Inr _, (None, w2)) \<Rightarrow> Some (existing_timed_out env run started_at wait_timeout w2)))"

subsection \<open>Execution\<close>

definition attach_metrics :: "task_result \<Rightarrow> (string, int) dict \<Rightarrow> task_result" where
  "attach_metrics result timings =
     (let metrics = as_metrics timings in
      if metrics = [] then result
      else result\<lparr>res_metrics := fold (\<lambda>(k, v). dict_set k v) metrics (res_metrics result)\<rparr>)"

definition wait_for_execution :: "'z rt_world_scheme run_env \<Rightarrow> ('z rt_world_scheme rc_state, task_result) io" where
  "wait_for_execution env =
     (let timed_out =
            thenE (runE (\<lambda>run. catchE (thenE (en_cancel_executor env run) (retE ())) (\<lambda>_. retE ())))
              (runE (\<lambda>run. timed_out_result run
                 (''Task exceeded its execution timeout of '' @ str_of_int (ep_timeout_seconds (tr_execution_policy run)) @ ''s.'')))
      in bindE (runE (en_race env)) (\<lambda>done.
           case done of
             Executor_Finished outcome \<Rightarrow> liftE outcome
           | Timeout_Finished \<Rightarrow> timed_out
           | Cancel_Finished c \<Rightarrow>
               bindE (liftE c) (\<lambda>cancelled.
                 if \<not> cancelled then timed_out
                 else
                   thenE (run_stage env ''execute'')
                  (bindE (runE (\<lambda>run. catchE (en_cancel_executor env run)
                            (\<lambda>e. if exn_class e \<in> {CancelledError, StaleWorkerError}
                                 then cancelled_result run ''Task cancelled by user.'' else raiseE e))) (\<lambda>result.
                   thenE (if res_status result = CANCELLED
                          then runE (\<lambda>run. suppressE (rs_cancel_run (en_store env) (tr_run_id run) ''Task cancelled by user.''))
                          else retE ())
                     (retE result))))))"

definition persist_outcome :: "'z rt_world_scheme run_env \<Rightarrow> task_result \<Rightarrow> task_run \<Rightarrow> ('z rt_world_scheme, task_result) io" where
  "persist_outcome env result run =
     (if res_status result = CANCELLED then thenE (ensure_cancelled_state (en_store env) run result) (retE result)
      else if res_status result = TIMED_OUT then ensure_timed_out_state (en_store env) run result
      else ensure_result_persisted (en_store env) run result)"

definition execute_with_progress :: "'z rt_world_scheme run_env \<Rightarrow> ('z rt_world_scheme rc_state, task_result) io" where
  "execute_with_progress env =
     bindE (getE rc_run) (\<lambda>run.
       thenE (if ts_required_sandbox (tr_spec run) \<noteq> [] then run_stage env ''execute''
              else thenE (run_stage env ''runner'') (run_stage env ''execute''))
      (bindE (worldE (en_monotonic_ms env)) (\<lambda>execute_started.
       bindE (finallyE (wait_for_execution env)
                (thenE (bindE (worldE (en_monotonic_ms env)) (\<lambda>now.
                          modifyE (\<lambda>s. s\<lparr>rc_timings := clock_record ''execute'' (now - execute_started) (rc_timings s)\<rparr>)))
                   (runE (en_stop_tasks env)))) (\<lambda>result.
       bindE (getE (\<lambda>s. attach_metrics result (rc_timings s))) (\<lambda>result.
       bindE (runE (persist_outcome env result)) (\<lambda>result.
         thenE (if res_primary_artifact result \<noteq> None then run_stage env ''upload'' else retE ()) (retE result)))))))"

definition set_outcome :: "string \<Rightarrow> ('w rc_state, unit) io" where
  "set_outcome outcome = modifyE (\<lambda>s. s\<lparr>rc_outcome := outcome\<rparr>)"

definition set_terminal :: "task_result \<Rightarrow> ('w rc_state, unit) io" where
  "set_terminal result = modifyE (\<lambda>s. s\<lparr>rc_terminal := Some result\<rparr>)"

text \<open>The claim, the write and the projection of a result the coordinator decides itself.\<close>

definition settle_result ::
    "'z rt_world_scheme run_env \<Rightarrow> task_result \<Rightarrow> ('z rt_world_scheme rc_state, task_result) io" where
  "settle_result env result =
     thenE (runE (\<lambda>run. claim_and_write (en_store env) (tr_run_id run) ''task-manager'' result))
    (thenE (set_terminal result)
    (thenE (runE (\<lambda>run. mark_run_terminal env run result False [])) (retE result)))"

definition attempt_body :: "'z rt_world_scheme run_env \<Rightarrow> ('z rt_world_scheme rc_state, task_result) io" where
  "attempt_body env =
     bindE (getE rc_run) (\<lambda>run.
       thenE (if ts_required_sandbox (tr_spec run) \<noteq> []
              then thenE (run_stage env ''runner'') (clock_measure env ''sandbox_acquire'' (sandbox_acquire env))
              else retE ())
      (bindE (worldE (is_plan_cancelled env)) (\<lambda>cancelled.
         if cancelled
         then bindE (runE (\<lambda>run. mark_run_cancelled env run ''Task cancelled after resource acquisition.'')) (\<lambda>result.
              thenE (set_terminal result) (thenE (set_outcome ''dirty'') (retE result)))
         else
           bindE (execute_with_progress env) (\<lambda>result.
           thenE (set_terminal result)
          (thenE (if res_status result \<noteq> COMPLETED then set_outcome ''dirty'' else retE ())
          (thenE (runE (\<lambda>run. mark_run_terminal env run result False [])) (retE result)))))))"

definition attempt_handler :: "'z rt_world_scheme run_env \<Rightarrow> exn \<Rightarrow> ('z rt_world_scheme rc_state, task_result) io" where
  "attempt_handler env exc =
     (if exn_class exc = SandboxNoCapacityError
      then bindE (runE (\<lambda>run. blocked_result run (exn_message exc) SANDBOX_NO_CAPACITY)) (settle_result env)
      else if exn_class exc = SandboxUnhealthyError
      then thenE (set_outcome ''dirty'')
             (bindE (runE (\<lambda>run. failed_result run (exn_message exc) SANDBOX_UNHEALTHY)) (settle_result env))
      else if exn_class exc = PlanCancellationRequested
      then thenE (set_outcome ''dirty'')
             (bindE (runE (\<lambda>run. mark_run_cancelled env run ''Task cancelled by user.'')) (\<lambda>result.
              thenE (set_terminal result) (retE result)))
      else if exn_class exc = CancelledError
      then thenE (set_outcome ''dirty'') (raiseE exc)
      else thenE (set_outcome ''dirty'')
             (bindE (runE (\<lambda>run. internal_failure_result run exc)) (\<lambda>failure.
              bindE (runE (\<lambda>run. catch_Exception (ensure_result_persisted (en_store env) run failure) (\<lambda>_. retE failure))) (\<lambda>result.
              thenE (set_terminal result)
             (thenE (runE (\<lambda>run. suppressE (mark_run_terminal env run result False []))) (retE result))))))"

definition attempt_cleanup :: "'z rt_world_scheme run_env \<Rightarrow> ('z rt_world_scheme rc_state, unit) io" where
  "attempt_cleanup env =
     bindE (getE rc_outcome) (\<lambda>lease_outcome.
     bindE (clock_measure env ''sandbox_release'' (sandbox_release env lease_outcome)) (\<lambda>sandbox_released.
     bindE (getE rc_terminal) (\<lambda>terminal_result.
       case terminal_result of
         None \<Rightarrow> retE ()
       | Some result \<Rightarrow>
           bindE (getE (\<lambda>s. attach_metrics result (rc_timings s))) (\<lambda>result.
           thenE (set_terminal result)
             (runE (\<lambda>run. mark_run_terminal env run result sandbox_released lease_outcome))))))"

definition execute_run_once :: "'z rt_world_scheme run_env \<Rightarrow> ('z rt_world_scheme rc_state, task_result) io" where
  "execute_run_once env =
     thenE (modifyE (\<lambda>s. s\<lparr>rc_timings := [], rc_terminal := None\<rparr>))
    (bindE (worldE (is_plan_cancelled env)) (\<lambda>cancelled.
       if cancelled then runE (\<lambda>run. mark_run_cancelled env run ''Task cancelled before execution.'')
       else
         bindE (getE rc_run) (\<lambda>run.
           case validate_execution_mode (tr_spec run) (tr_execution_policy run) of
             Some policy_error \<Rightarrow>
               bindE (runE (\<lambda>run. build_policy_denied_result run (''Task denied by policy: '' @ error_class_value policy_error))) (\<lambda>result.
               thenE (runE (\<lambda>run. claim_and_write (en_store env) (tr_run_id run) ''task-manager'' result))
              (thenE (runE (\<lambda>run. mark_run_terminal env run result False [])) (retE result)))
           | None \<Rightarrow>
               thenE (run_stage env ''workspace'')
              (thenE (set_outcome ''clean'')
                (finallyE (catchE (attempt_body env) (attempt_handler env)) (attempt_cleanup env))))))"

definition execute :: "'z rt_world_scheme run_env \<Rightarrow> 'z rt_world_scheme rc_state
    \<Rightarrow> (task_result result \<times> 'z rt_world_scheme rc_state) option" where
  "execute env s =
     (let run = rc_run s;
          settled = (if tr_status run \<in> set TERMINAL_STATUSES
                     then bindE (worldE (rs_get_task_detail (en_store env) (tr_run_id run) VIEW_SUMMARY)) (\<lambda>detail.
                            case det_result detail of
                              Some result \<Rightarrow> thenE (runE (\<lambda>run. mark_run_terminal env run result False [])) (retE (Some result))
                            | None \<Rightarrow> retE None)
                     else retE None) s
      in case settled of
           (Inl e, s') \<Rightarrow> Some (Inl e, s')
         | (Inr (Some result), s') \<Rightarrow> Some (Inr result, s')
         | (Inr None, s') \<Rightarrow>
             if tr_runtime_reuse run
             then map_option (\<lambda>(r, w). (r, s'\<lparr>rc_world := w\<rparr>)) (wait_for_existing_run env run (rc_world s'))
             else Some (execute_run_once env s'))"

subsection \<open>What an execution keeps\<close>

text \<open>
  \<open>frame env P\<close>: the predicate \<open>P\<close> on the world, the sandbox of the run object and the manager
  survives every call the coordinator makes to the store, the plan editor and the executor. Then
  every part of an execution but the two that take and give back a sandbox keeps \<open>P\<close>.
\<close>

type_synonym 'w rc_pred = "'w \<Rightarrow> sandbox_lease_ref option \<Rightarrow> 'w lease_manager option \<Rightarrow> bool"

abbreviation rc_holds :: "'w rc_pred \<Rightarrow> 'w rc_state \<Rightarrow> bool" where
  "rc_holds P s \<equiv> P (rc_world s) (tr_sandbox (rc_run s)) (rc_manager s)"

definition hooks_preserve :: "'z rt_world_scheme run_env \<Rightarrow> ('z rt_world_scheme \<Rightarrow> bool) \<Rightarrow> bool" where
  "hooks_preserve env P \<longleftrightarrow>
     (\<forall>c. en_is_plan_cancelled env = Some c \<longrightarrow> preserves P c)
     \<and> (\<forall>i run st res rel out. preserves P (en_update_tool_call env i run st res rel out))
     \<and> (\<forall>i l. preserves P (en_publish_deliverable env i l))
     \<and> (\<forall>run. preserves P (en_mark_retry_pending env run))
     \<and> preserves P (en_cancel_wins env) \<and> preserves P (en_abandon env)
     \<and> (\<forall>run. preserves P (en_race env run)) \<and> (\<forall>run. preserves P (en_cancel_executor env run))
     \<and> (\<forall>run. preserves P (en_stop_tasks env run))
     \<and> preserves P (en_monotonic_ms env) \<and> preserves P (en_sleep env)"

lemma hooks_preserveD:
  assumes "hooks_preserve env P"
  shows "preserves P (is_plan_cancelled env)"
    and "preserves P (en_update_tool_call env i run stg res rel out)"
    and "preserves P (en_publish_deliverable env i l)"
    and "preserves P (en_mark_retry_pending env run)"
    and "preserves P (en_cancel_wins env)" and "preserves P (en_abandon env)"
    and "preserves P (en_race env run)" and "preserves P (en_cancel_executor env run)"
    and "preserves P (en_stop_tasks env run)"
    and "preserves P (en_monotonic_ms env)" and "preserves P (en_sleep env)"
  using assms unfolding hooks_preserve_def is_plan_cancelled_def by (auto split: option.splits)

definition frame :: "'z rt_world_scheme run_env \<Rightarrow> 'z rt_world_scheme rc_pred \<Rightarrow> bool" where
  "frame env P \<longleftrightarrow>
     (\<forall>sb mgr. run_store_invariant (en_store env) (\<lambda>w. P w sb mgr) \<and> hooks_preserve env (\<lambda>w. P w sb mgr))"

lemma frameD:
  assumes "frame env P"
  shows "run_store_invariant (en_store env) (\<lambda>w. P w sb mgr)" and "hooks_preserve env (\<lambda>w. P w sb mgr)"
  using assms unfolding frame_def by blast+

lemma frame_world: "(\<And>sb mgr. preserves (\<lambda>w. P w sb mgr) m) \<Longrightarrow> preserves (rc_holds P) (worldE m)"
  by (auto simp: preserves_def worldE_def split_beta)

lemma frame_run: "(\<And>r sb mgr. preserves (\<lambda>w. P w sb mgr) (f r)) \<Longrightarrow> preserves (rc_holds P) (runE f)"
  by (auto simp: preserves_def runE_def worldE_def split_beta)

lemma frame_local [simp]:
  "preserves (rc_holds P) (set_outcome x)"
  "preserves (rc_holds P) (set_terminal r)"
  "preserves (rc_holds P) (modifyE (\<lambda>s. s\<lparr>rc_timings := f s\<rparr>))"
  "preserves (rc_holds P) (modifyE (\<lambda>s. s\<lparr>rc_timings := f s, rc_terminal := g s\<rparr>))"
  "preserves (rc_holds P) (modifyE (\<lambda>s. s\<lparr>rc_background := b s\<rparr>))"
  "preserves (rc_holds P) (setrunE (\<lambda>run. run\<lparr>tr_runtime_stage := y\<rparr>))"
  "preserves (rc_holds P) (setrunE (\<lambda>run. run\<lparr>tr_sandbox_released := rel, tr_lease_outcome := z\<rparr>))"
  by (simp_all add: preserves_def set_outcome_def set_terminal_def setrunE_def)

context run_store_invariant
begin

lemma decided_result_inv:
  "preserves P (cancelled_result run m)"
  "preserves P (timed_out_result run m)"
  "preserves P (blocked_result run m c)"
  "preserves P (failed_result run m c)"
  "preserves P (build_policy_denied_result run m)"
  "preserves P (internal_failure_result run e)"
  by (auto simp: cancelled_result_def timed_out_result_def blocked_result_def failed_result_def
      build_policy_denied_result_def internal_failure_result_def Let_def intro!: preserves_intros world_inv)

lemma stage_inv: "preserves P (persist_stage st stage run)"
  by (auto simp: persist_stage_def Let_def intro!: preserves_intros store_inv)

end

lemma frame_progress:
  assumes "frame env P"
  shows "preserves (rc_holds P) (run_stage env stage)"
    and "preserves (rc_holds P) (check_cancelled env)"
    and "preserves (rc_holds P) body \<Longrightarrow> preserves (rc_holds P) (clock_measure env stage body)"
proof -
  note st = frameD(1) [OF assms] and hk = hooks_preserveD [OF frameD(2) [OF assms]]
  show "preserves (rc_holds P) (run_stage env stage)"
    by (auto simp: run_stage_def persist_run_runtime_stage_def
        intro!: preserves_intros frame_local frame_run hk run_store_invariant.stage_inv [OF st])
  show "preserves (rc_holds P) (check_cancelled env)"
    by (auto simp: check_cancelled_def intro!: preserves_intros frame_world hk)
  show "preserves (rc_holds P) (clock_measure env stage body)" if "preserves (rc_holds P) body"
    by (auto simp: clock_measure_def intro!: preserves_intros frame_local frame_world hk that)
qed

lemma frame_terminal:
  assumes "frame env P"
  shows "preserves (\<lambda>w. P w sb mgr) (mark_run_terminal env run result rel out)"
    and "preserves (\<lambda>w. P w sb mgr) (mark_run_cancelled env run reason)"
    and "preserves (\<lambda>w. P w sb mgr) (persist_outcome env result run)"
proof -
  note st = frameD(1) [OF assms, of sb mgr] and hk = hooks_preserveD [OF frameD(2) [OF assms]]
  note rs = run_store_invariant.decided_result_inv [OF st] run_store_invariant.store_inv [OF st]
    run_store_invariant.persistence_inv [OF st]
  show mark: "preserves (\<lambda>w. P w sb mgr) (mark_run_terminal env run result rel out)" for run result rel out
    by (auto simp: mark_run_terminal_def intro!: preserves_intros hk)
  show "preserves (\<lambda>w. P w sb mgr) (mark_run_cancelled env run reason)"
    by (auto simp: mark_run_cancelled_def Let_def intro!: preserves_intros rs mark)
  show "preserves (\<lambda>w. P w sb mgr) (persist_outcome env result run)"
    by (auto simp: persist_outcome_def intro!: preserves_intros rs)
qed

lemma frame_race:
  assumes "\<And>x. preserves P (f x)" and "\<And>c. preserves P (g c)" and "preserves P t"
  shows "preserves P (case d of Executor_Finished x \<Rightarrow> f x | Cancel_Finished c \<Rightarrow> g c | Timeout_Finished \<Rightarrow> t)"
  using assms by (cases d) auto

lemma frame_wait:
  assumes "frame env P"
  shows "preserves (rc_holds P) (wait_for_execution env)"
proof -
  note st = frameD(1) [OF assms] and hk = hooks_preserveD [OF frameD(2) [OF assms]]
  note rs = run_store_invariant.decided_result_inv [OF st] run_store_invariant.store_inv [OF st]
  show ?thesis
    unfolding wait_for_execution_def Let_def
    by (intro preserves_intros frame_race frame_run frame_progress [OF assms] hk rs)
qed

lemma frame_execution:
  assumes "frame env P"
  shows "preserves (rc_holds P) (execute_with_progress env)"
    and "preserves (rc_holds P) (settle_result env result)"
    and "preserves (rc_holds P) (attempt_handler env exc)"
proof -
  note st = frameD(1) [OF assms] and hk = hooks_preserveD [OF frameD(2) [OF assms]]
  note rs = run_store_invariant.decided_result_inv [OF st] run_store_invariant.persistence_inv [OF st]
  note parts = preserves_intros frame_local frame_run frame_world frame_progress [OF assms] frame_terminal [OF assms] hk rs
  show "preserves (rc_holds P) (execute_with_progress env)"
    unfolding execute_with_progress_def by (intro parts frame_wait [OF assms])
  show settle: "preserves (rc_holds P) (settle_result env result)" for result
    unfolding settle_result_def by (intro parts)
  show "preserves (rc_holds P) (attempt_handler env exc)"
    unfolding attempt_handler_def by (intro parts settle)
qed

text \<open>
  An execution that takes \<open>Q\<close> to \<open>N\<close> when it acquires its sandbox and \<open>N\<close> to \<open>R\<close> when it
  cleans up takes \<open>Q\<close> to \<open>R\<close>, on every path: the early returns, the handlers and the clean-up.
\<close>

lemma execute_run_once_takes:
  assumes Q: "frame env Q" and N: "frame env N"
    and QN: "\<And>w sb mgr. Q w sb mgr \<Longrightarrow> N w sb mgr" and QR: "\<And>w sb mgr. Q w sb mgr \<Longrightarrow> R w sb mgr"
    and acquire: "takes (rc_holds Q) (sandbox_acquire env) (rc_holds N)"
    and cleanup: "takes (rc_holds N) (attempt_cleanup env) (rc_holds R)"
  shows "takes (rc_holds Q) (execute_run_once env) (rc_holds R)"
proof -
  note stQ = frameD(1) [OF Q] and hkQ = hooks_preserveD [OF frameD(2) [OF Q]]
    and hkN = hooks_preserveD [OF frameD(2) [OF N]]
  note rsQ = run_store_invariant.decided_result_inv [OF stQ] run_store_invariant.persistence_inv [OF stQ]
  note early = preserves_intros frame_local frame_run frame_world frame_progress [OF Q] frame_terminal [OF Q] hkQ rsQ
  note late = preserves_intros frame_local frame_run frame_world frame_progress [OF N] frame_terminal [OF N]
    frame_execution [OF N] hkN
  have measured: "takes (rc_holds Q) (clock_measure env ''sandbox_acquire'' (sandbox_acquire env)) (rc_holds N)"
    unfolding clock_measure_def
    by (rule takes_bind_before [OF frame_world [OF hkQ(10)] QN takes_finally_after [OF acquire]]) (assumption, intro late)
  have prepared: "takes (rc_holds Q) (if c then thenE (run_stage env ''runner'')
      (clock_measure env ''sandbox_acquire'' (sandbox_acquire env)) else retE ()) (rc_holds N)" for c
    using takes_then_before [OF frame_progress(1) [OF Q] _ measured] by (simp add: takes_weaken QN)
  have body: "takes (rc_holds Q) (attempt_body env) (rc_holds N)"
    unfolding attempt_body_def
    by (rule takes_bind_before [OF preserves_pure(4) QN takes_then_after [OF prepared]]) (assumption, intro late)
  have attempt: "takes (rc_holds Q)
      (finallyE (catchE (attempt_body env) (attempt_handler env)) (attempt_cleanup env)) (rc_holds R)"
    by (rule takes_finally [OF takes_catch_after [OF body frame_execution(3) [OF N]] cleanup])
  have stop: "preserves (rc_holds Q) m \<Longrightarrow> takes (rc_holds Q) m (rc_holds R)" for m :: "(_, task_result) io"
    using QR by (simp add: takes_def preserves_def)
  have checked: "takes (rc_holds Q)
      (case v of
         Some policy_error \<Rightarrow>
           bindE (runE (\<lambda>run. build_policy_denied_result run (''Task denied by policy: '' @ error_class_value policy_error))) (\<lambda>result.
           thenE (runE (\<lambda>run. claim_and_write (en_store env) (tr_run_id run) ''task-manager'' result))
          (thenE (runE (\<lambda>run. mark_run_terminal env run result False [])) (retE result)))
       | None \<Rightarrow>
           thenE (run_stage env ''workspace'')
          (thenE (set_outcome ''clean'')
            (finallyE (catchE (attempt_body env) (attempt_handler env)) (attempt_cleanup env)))) (rc_holds R)" for v
  proof (cases v)
    case None
    from takes_then_before [OF frame_progress(1) [OF Q] QR takes_then_before [OF frame_local(1) QR attempt]]
    show ?thesis by (simp add: None)
  next
    case (Some a)
    then show ?thesis by (simp only: option.case) (intro stop early)
  qed
  show ?thesis
    unfolding execute_run_once_def
    by (rule takes_then_before [OF frame_local(4) QR takes_bind_before [OF frame_world [OF hkQ(1)] QR
          takes_if [OF stop takes_bind_before [OF preserves_pure(4) QR checked]]]]) (assumption | intro early)+
qed

subsection \<open>Settled runs stay settled\<close>

definition manager_keeps :: "'w lease_manager \<Rightarrow> ('w \<Rightarrow> bool) \<Rightarrow> bool" where
  "manager_keeps lm W \<longleftrightarrow>
     (\<forall>req rid. preserves W (lm_reserve lm req rid)) \<and> (\<forall>tok. preserves W (lm_acquire lm tok))
     \<and> (\<forall>l. preserves W (lm_reset lm l)) \<and> (\<forall>l out. preserves W (lm_release lm l out))"

lemma manager_keepsD:
  assumes "manager_keeps lm W"
  shows "preserves W (lm_reserve lm req rid)" and "preserves W (lm_acquire lm tok)"
    and "preserves W (lm_reset lm l)" and "preserves W (lm_release lm l out)"
  using assms by (simp_all add: manager_keeps_def)

definition guarded :: "('w \<Rightarrow> bool) \<Rightarrow> 'w rc_pred" where
  "guarded W = (\<lambda>w sb mgr. W w \<and> (\<forall>lm. mgr = Some lm \<longrightarrow> manager_keeps lm W))"

lemma preserves_const: "preserves P m \<Longrightarrow> preserves (\<lambda>w. P w \<and> c) m"
  by (simp add: preserves_def)

lemma frame_guarded:
  assumes "run_store_invariant (en_store env) W" and "hooks_preserve env W"
  shows "frame env (guarded W)"
proof -
  have "run_store_invariant (en_store env) (\<lambda>w. W w \<and> c)" for c
    using assms(1) unfolding run_store_invariant_def by (auto intro: preserves_const)
  moreover have "hooks_preserve env (\<lambda>w. W w \<and> c)" for c
    using assms(2) unfolding hooks_preserve_def by (auto intro: preserves_const)
  ultimately show ?thesis by (simp add: frame_def guarded_def)
qed

lemma worldE_guarded: "preserves W m \<Longrightarrow> preserves (rc_holds (guarded W)) (worldE m)"
  by (auto simp: preserves_def worldE_def guarded_def split_beta)

lemma runE_guarded: "(\<And>run. preserves W (f run)) \<Longrightarrow> preserves (rc_holds (guarded W)) (runE f)"
  by (auto simp: preserves_def runE_def worldE_def guarded_def split_beta)

lemma setrunE_guarded: "preserves (rc_holds (guarded W)) (setrunE f)"
  by (simp add: preserves_def setrunE_def guarded_def)

lemma preserves_bind_manager:
  assumes "\<And>s. P s \<Longrightarrow> \<exists>lm s'. ensure_manager env s = (Inr lm, s') \<and> P s' \<and> V lm"
    and "\<And>lm. V lm \<Longrightarrow> preserves P (f lm)"
  shows "preserves P (bindE (ensure_manager env) f)"
proof (rule preservesI)
  fix s assume "P s"
  then obtain lm s' where "ensure_manager env s = (Inr lm, s')" "P s'" "V lm" using assms(1) by blast
  with assms(2) [of lm] show "P (snd (bindE (ensure_manager env) f s))" by (simp add: preserves_def)
qed

lemma acquire_guarded:
  assumes st: "run_store_invariant (en_store env) W" and hk: "hooks_preserve env W"
    and mk: "\<And>i. manager_keeps (en_default_manager env i) W"
  shows "preserves (rc_holds (guarded W)) (sandbox_acquire env)"
proof -
  note fr = frame_guarded [OF st hk] and hk = hooks_preserveD [OF hk]
  have got: "\<exists>lm s'. ensure_manager env s = (Inr lm, s') \<and> rc_holds (guarded W) s' \<and> manager_keeps lm W"
    if "rc_holds (guarded W) s" for s
    using that mk by (cases "rc_manager s") (auto simp: ensure_manager_def guarded_def Let_def)
  note parts = preserves_intros frame_local worldE_guarded runE_guarded setrunE_guarded frame_progress [OF fr] hk
    run_store_invariant.store_inv [OF st]
  show ?thesis
    unfolding sandbox_acquire_def acquire_required_def acquire_reserved_sandbox_def await_unless_plan_cancelled_def poll_first_def detachE_def
      publish_acquired_sandbox_def reset_or_continue_def Let_def
    by (rule preserves_bind_manager [OF got], assumption) (intro parts manager_keepsD; assumption)
qed

lemma release_guarded:
  assumes st: "run_store_invariant (en_store env) W" and hk: "hooks_preserve env W"
  shows "preserves (rc_holds (guarded W)) (sandbox_release env out)"
proof -
  note fr = frame_guarded [OF st hk] and hk = hooks_preserveD [OF hk]
  note parts = preserves_intros frame_local worldE_guarded runE_guarded setrunE_guarded frame_progress [OF fr] hk
    run_store_invariant.store_inv [OF st]
  have state: "preserves (rc_holds (guarded W)) (set_run_sandbox_release_state env rel out)" for rel
    unfolding set_run_sandbox_release_state_def by (intro parts)
  have rl: "preserves (rc_holds (guarded W)) (release_loop env lm l out n)" if "manager_keeps lm W" for lm l n
    using that by (induction n) (auto intro!: parts state dest: manager_keepsD)
  have "preserves (rc_holds (guarded W)) (bindE (release_loop env lm l out n) (\<lambda>released.
      if released then retE True else thenE (set_run_sandbox_release_state env False out) (retE False)))"
    if "manager_keeps lm W" for lm l n
    by (intro parts state rl that)
  note loop = preserves_apply [OF this]
  show ?thesis
  proof (rule preservesI)
    fix s assume s: "rc_holds (guarded W) s"
    then have "manager_keeps lm W" if "rc_manager s = Some lm" for lm using that by (simp add: guarded_def)
    with s loop [OF _ s] show "rc_holds (guarded W) (snd (sandbox_release env out s))"
      by (cases "tr_sandbox (rc_run s)"; cases "rc_manager s") (simp_all add: sandbox_release_def)
  qed
qed

lemma execute_once_guarded:
  assumes st: "run_store_invariant (en_store env) W" and hk: "hooks_preserve env W"
    and mk: "\<And>i. manager_keeps (en_default_manager env i) W"
  shows "preserves (rc_holds (guarded W)) (execute_run_once env)"
proof -
  note fr = frame_guarded [OF st hk]
  have "preserves (rc_holds (guarded W)) (attempt_cleanup env)"
    unfolding attempt_cleanup_def
    by (intro preserves_intros frame_local frame_run frame_progress [OF fr] frame_terminal [OF fr] release_guarded [OF st hk])
  then show ?thesis
    using execute_run_once_takes [OF fr fr, of "guarded W"] acquire_guarded [OF assms] by (simp add: preserves_takes)
qed

lemma wait_for_existing_keeps:
  assumes st: "run_store_invariant (en_store env) W" and hk: "hooks_preserve env W"
    and "wait_for_existing_run env run w = Some (r, w')" and "W w"
  shows "W w'"
proof -
  note rs = run_store_invariant.store_inv [OF st] and hks = hooks_preserveD [OF hk]
  have mark: "preserves W (mark_run_terminal env run result rel out)" for run result rel out
    by (auto simp: mark_run_terminal_def intro!: preserves_intros hks)
  have "preserves W (existing_round env run d)" for d
    unfolding existing_round_def by (intro preserves_intros rs hks mark)
  then have body: "preserves (\<lambda>(_, w). W w) (existing_step env run d)" for d
    by (auto simp: preserves_def existing_step_def split: prod.splits sum.splits) (metis snd_conv)+
  have out: "preserves W (existing_timed_out env run a b)" for a b
    unfolding existing_timed_out_def by (intro preserves_intros rs mark)
  have "preserves W (bindE now_ms (\<lambda>started. bindE (en_monotonic_ms env) (\<lambda>m. retE (started, m))))"
    by (intro preserves_intros rs hks)
  then obtain x w1 where start: "bindE now_ms (\<lambda>started. bindE (en_monotonic_ms env) (\<lambda>m. retE (started, m))) w = (x, w1)" and "W w1"
    using assms(4) by (metis preservesD surj_pair)
  show ?thesis
  proof (cases x)
    case (Inl e)
    with assms(3) start \<open>W w1\<close> show ?thesis by (simp add: wait_for_existing_run_def)
  next
    case (Inr sm)
    obtain a m where sm: "sm = (a, m)" by (cases sm)
    from assms(3) start Inr sm obtain u found w2 where
      loop: "whileE (existing_step env run (m + 1000 * reuse_wait_timeout_seconds (en_environ env) run)) (None, w1) = Some (u, (found, w2))"
      by (auto simp: wait_for_existing_run_def Let_def split: option.splits)
    with whileE_preserves [OF body _ loop] \<open>W w1\<close> have "W w2" by simp
    with assms(3) start Inr sm loop preservesD [OF out \<open>W w2\<close>] show ?thesis
      by (auto simp: wait_for_existing_run_def Let_def split: option.splits sum.splits)
  qed
qed

lemma execute_keeps:
  assumes st: "run_store_invariant (en_store env) W" and hk: "hooks_preserve env W"
    and mk: "\<And>i. manager_keeps (en_default_manager env i) W"
    and run: "execute env s = Some (r, s')" and s: "rc_holds (guarded W) s"
  shows "W (rc_world s')"
proof -
  note fr = frame_guarded [OF st hk]
  let ?settle = "if tr_status (rc_run s) \<in> set TERMINAL_STATUSES
       then bindE (worldE (rs_get_task_detail (en_store env) (tr_run_id (rc_run s)) VIEW_SUMMARY)) (\<lambda>detail.
              case det_result detail of
                Some result \<Rightarrow> thenE (runE (\<lambda>run. mark_run_terminal env run result False [])) (retE (Some result))
              | None \<Rightarrow> retE None)
       else retE None"
  have keep: "preserves (rc_holds (guarded W)) ?settle"
    by (intro preserves_intros frame_world frame_run frame_terminal [OF fr] run_store_invariant.store_inv [OF frameD(1) [OF fr]])
  obtain q s1 where q: "?settle s = (q, s1)" by (cases "?settle s")
  from preservesD [OF keep s q] have s1: "rc_holds (guarded W) s1" .
  then have w1: "W (rc_world s1)" by (simp add: guarded_def)
  have "W (rc_world s2)" if "execute_run_once env s1 = (r, s2)" for s2
    using preservesD [OF execute_once_guarded [OF st hk mk] s1 that] by (simp add: guarded_def)
  with run q w1 wait_for_existing_keeps [OF st hk _ w1] show ?thesis
    by (auto simp: execute_def Let_def split: sum.splits option.splits if_splits)
qed

text \<open>A plan editor and an executor that leave the world alone, for the instances below.\<close>

definition sample_env :: "'w run_store \<Rightarrow> 'w lease_manager \<Rightarrow> 'w run_env" where
  "sample_env st lm =
     \<lparr>en_store = st, en_environ = (\<lambda>_. None), en_repr = (\<lambda>_. []), en_agent_instance_id = 1,
      en_default_manager = (\<lambda>_. lm), en_is_plan_cancelled = None,
      en_update_tool_call = (\<lambda>_ _ _ _ _ _. retE ()), en_publish_deliverable = (\<lambda>_ _. retE ()),
      en_mark_retry_pending = (\<lambda>_. retE ()), en_cancel_wins = retE False, en_abandon = retE (),
      en_race = (\<lambda>_. retE Timeout_Finished), en_cancel_executor = (\<lambda>_. raiseE (Exn CancelledError [])),
      en_stop_tasks = (\<lambda>_. retE ()), en_monotonic_ms = retE 0, en_sleep = retE ()\<rparr>"

lemma sample_env_hooks: "hooks_preserve (sample_env st lm) W"
  by (simp add: hooks_preserve_def sample_env_def)

lemma sample_env_simps [simp]:
  "en_store (sample_env st lm) = st" "en_default_manager (sample_env st lm) = (\<lambda>_. lm)"
  by (simp_all add: sample_env_def)

lemma tables_leases [simp]: "tables_reach strict T (w\<lparr>lw_leases := m\<rparr>) = tables_reach strict T w"
  by (simp add: tables_reach_def tables_def)

lemma memory_manager_keeps:
  assumes leases: "\<And>w m. P (w\<lparr>lw_leases := m\<rparr>) = P w" and tick: "\<And>w t. P (w\<lparr>w_tick := t\<rparr>) = P w"
    and uuid: "\<And>w n. P (w\<lparr>w_uuid_next := n\<rparr>) = P w"
  shows "manager_keeps memory_lease_manager P"
proof -
  have sem: "preserves P (mem_semaphore t)" for t :: string
    by (auto simp: preserves_def mem_semaphore_def leases Let_def split: option.splits)
  have clock: "preserves P now_ms" "preserves P uuid4_hex" by (simp_all add: preserves_def now_ms_def uuid4_hex_def tick uuid)
  show ?thesis
    unfolding manager_keeps_def memory_lease_manager_def lease_manager.simps
      mem_reserve_def mem_acquire_def mem_reset_def mem_release_def set_permits_def Let_def
    by (intro conjI allI preserves_intros sem clock; simp add: leases)
qed

text \<open>
  Executing a run never disturbs a run that is settled: whatever the executor, the plan editor
  and the lease manager do through the operations of the store, whichever of them raise, and
  whichever of the executor, the cancellation poll and the timeout comes first, every stored run that had completed or
  was cancelled is still stored with that status when \<^verbatim>\<open>execute\<close> is done.
\<close>

theorem execution_keeps_settled:
  assumes "en_store env = file_run_store sha rt"
    and "hooks_preserve env (tables_reach False (tables (rc_world s)))"
    and "\<And>i. manager_keeps (en_default_manager env i) (tables_reach False (tables (rc_world s)))"
    and "\<And>lm. rc_manager s = Some lm \<Longrightarrow> manager_keeps lm (tables_reach False (tables (rc_world s)))"
    and "dict_ok (fs_runs (rc_world s))" and "dict_get (fs_runs (rc_world s)) k = Some r"
    and "tr_status r \<in> {COMPLETED, CANCELLED}" and "execute env s = Some (out, s')"
  shows "\<exists>r'. dict_get (fs_runs (rc_world s')) k = Some r' \<and> tr_status r' = tr_status r"
proof -
  let ?W = "tables_reach False (tables (rc_world s))"
  have "rc_holds (guarded ?W) s" using assms(4,5) by (simp add: guarded_def tables_reach_def)
  from execute_keeps [OF _ assms(2,3,8) this] have "?W (rc_world s')"
    by (simp add: assms(1) file_inv.run_store_invariant_axioms)
  then have "(table_step False)\<^sup>*\<^sup>* (tables (rc_world s)) (tables (rc_world s'))" by (simp add: tables_reach_def)
  from absorbed_reach [OF this, of k r] assms(6,7) show ?thesis
    by (simp add: tables_def absorbing_run_status_def)
qed

definition sample_attempt :: "task_run \<Rightarrow> 'w \<Rightarrow> 'w rc_state" where
  "sample_attempt run w =
     \<lparr>rc_run = run, rc_manager = None, rc_background = [], rc_timings = [], rc_outcome = [], rc_terminal = None, rc_world = w\<rparr>"

lemma sample_attempt_simps [simp]:
  "rc_run (sample_attempt run w) = run" "rc_manager (sample_attempt run w) = None" "rc_world (sample_attempt run w) = w"
  by (simp_all add: sample_attempt_def)

theorem execution_keeps_settled_witness:
  "\<exists>out s' r'. execute (sample_env (file_run_store (\<lambda>_. []) []) memory_lease_manager)
        (sample_attempt (sample_run ''q'' QUEUED) (sample_lease_world [sample_run ''r'' COMPLETED, sample_run ''q'' QUEUED] []))
      = Some (out, s') \<and> dict_get (fs_runs (rc_world s')) (''b'', ''r'') = Some r' \<and> tr_status r' = COMPLETED"
proof -
  let ?env = "sample_env (file_run_store (\<lambda>_. []) []) memory_lease_manager :: lease_world run_env"
  let ?s = "sample_attempt (sample_run ''q'' QUEUED) (sample_lease_world [sample_run ''r'' COMPLETED, sample_run ''q'' QUEUED] [])"
  obtain out s' where "execute ?env ?s = Some (out, s')"
    by (cases "execute_run_once ?env ?s") (simp add: execute_def sample_run_def TERMINAL_STATUSES_def)
  moreover from execution_keeps_settled [of ?env "\<lambda>_. []" "[]" ?s "(''b'', ''r'')" "sample_run ''r'' COMPLETED", OF _ _ _ _ _ _ _ this]
  have "\<exists>r'. dict_get (fs_runs (rc_world s')) (''b'', ''r'') = Some r' \<and> tr_status r' = COMPLETED"
    by (simp add: sample_env_hooks memory_manager_keeps sample_store_def sample_run_def run_key_of_def dict_ok_def)
  ultimately show ?thesis by blast
qed

subsection \<open>A retry reopens the run once\<close>

lemma find_run_id:
  assumes "dict_ok (fs_runs w)" and "find_run rid w = Some (k, r)" and "k = run_key_of r"
  shows "tr_run_id r = rid"
  using find_run_Some [OF assms(2,1)] assms(3) by (simp add: run_key_of_def)

lemma prepare_retry_closed:
  assumes "en_store env = file_run_store sha rt" and "find_run (tr_run_id run) w = Some (k, r)"
    and "en_sleep env w = (Inr (), w)"
    and "\<not> (tr_status r \<in> {FAILED, TIMED_OUT, BLOCKED} \<and> tr_attempt r = tr_attempt run)"
  shows "prepare_retry env run result w = (Inr None, w)"
  using assms by (auto simp: prepare_retry_def file_run_store_def get_run_def bindE_read_run RETRYABLE_TERMINAL_STATUSES_def
      Let_def thenE_def [of "if _ then _ else _"] bindE_def [of "if _ then _ else _"])

lemma prepare_retry_open:
  assumes st: "en_store env = file_run_store sha rt" and ok: "dict_ok (fs_runs w)"
    and f: "find_run (tr_run_id run) w = Some (k, r)" and k: "k = run_key_of r"
    and sl: "en_sleep env w = (Inr (), w)" and mk: "\<And>n v. en_mark_retry_pending env n v = (Inr (), v)"
    and re: "tr_status r \<in> {FAILED, TIMED_OUT, BLOCKED}" and at: "tr_attempt r = tr_attempt run"
  shows "\<exists>n w'. prepare_retry env run result w = (Inr (Some n), w')
      \<and> n = (next_attempt r result (tr_attempt run) (w_clock w (w_tick w)))\<lparr>tr_status := QUEUED\<rparr>
      \<and> fs_runs w' = dict_set k (persisted_run n) (fs_runs w) \<and> fs_results w' = dict_pop k (fs_results w)"
proof -
  let ?n = "(next_attempt r result (tr_attempt run) (w_clock w (w_tick w)))\<lparr>tr_status := QUEUED\<rparr>"
  have rid: "tr_run_id r = tr_run_id run" by (rule find_run_id [OF ok f k])
  have val: "validate_reopen_payload r ?n (tr_attempt run) = Inr ()"
    using re at by (auto simp: validate_reopen_payload_def RETRYABLE_TERMINAL_STATUSES_def next_attempt_def)
  have tr: "is_valid_run_transition (tr_status r) QUEUED"
    using re by (auto simp: is_valid_run_transition_def RUN_TRANSITIONS_def)
  let ?w1 = "w\<lparr>w_tick := w_tick w + 1\<rparr>"
  let ?w2 = "?w1\<lparr>fs_runs := dict_set k (persisted_run ?n) (fs_runs w), fs_results := dict_pop k (fs_results w)\<rparr>"
  have f': "find_run (tr_run_id ?n) ?w1 = Some (k, r)" using f rid by (simp add: find_run_def next_attempt_def)
  have key: "(tr_batch_id ?n, tr_run_id ?n) = k" using k by (simp add: run_key_of_def next_attempt_def)
  have reopen: "reopen_run_for_retry ?n (tr_attempt run) ?w1 = (Inr (), ?w2)"
    unfolding reopen_run_for_retry_def bindE_read_run f' key by (simp add: val put_run_def)
  have reopened: "catch_Exception (bindE (transition_run QUEUED False (next_attempt r result (tr_attempt run) (w_clock w (w_tick w)))) (\<lambda>next_run.
      thenE (reopen_run_for_retry next_run (tr_attempt run)) (retE (Some next_run)))) (\<lambda>_. retE None) ?w1 = (Inr (Some ?n), ?w2)"
    using tr reopen by (simp add: catch_Exception_def bindE_transition_run next_attempt_def)
  have "prepare_retry env run result w = (Inr (Some ?n), snd (publish_run_transition ?n (tr_status r) ?w2))"
    unfolding prepare_retry_def Let_def st
    using f sl re at reopened mk
    by (auto simp: file_run_store_def get_run_def bindE_read_run now_ms_def RETRYABLE_TERMINAL_STATUSES_def
        publish_run_transition_def publish_def)
  then show ?thesis by (intro exI conjI, assumption) (simp_all add: publish_run_transition_def publish_def)
qed

text \<open>
  A retry is prepared exactly once per attempt: when the stored run is in a retryable terminal
  status at the attempt that failed, \<^verbatim>\<open>prepare_retry\<close> returns it queued at the next attempt, with its
  identity and policy and without worker, token, sandbox and times, the store holds that run and no
  result of the old attempt, and asking again for the old attempt gives nothing. In every other case
  it gives nothing and changes nothing.
\<close>

theorem prepare_retry_once:
  assumes "en_store env = file_run_store sha rt" and "dict_ok (fs_runs w)"
    and "find_run (tr_run_id run) w = Some (k, r)" and "k = run_key_of r"
    and "\<And>v. en_sleep env v = (Inr (), v)" and "\<And>n v. en_mark_retry_pending env n v = (Inr (), v)"
  shows "if tr_status r \<in> {FAILED, TIMED_OUT, BLOCKED} \<and> tr_attempt r = tr_attempt run
    then \<exists>n w'. prepare_retry env run result w = (Inr (Some n), w')
      \<and> tr_run_id n = tr_run_id run \<and> tr_status n = QUEUED \<and> tr_attempt n = tr_attempt run + 1
      \<and> tr_execution_policy n = tr_execution_policy r \<and> tr_spec n = tr_spec r \<and> tr_idempotency_key n = tr_idempotency_key r
      \<and> tr_worker_id n = None \<and> tr_fencing_token n = [] \<and> tr_sandbox n = None \<and> tr_started_at n = None \<and> tr_ended_at n = None
      \<and> find_run (tr_run_id run) w' = Some (k, persisted_run n) \<and> dict_get (fs_results w') k = None
      \<and> prepare_retry env run result w' = (Inr None, w')
    else prepare_retry env run result w = (Inr None, w)"
proof (cases "tr_status r \<in> {FAILED, TIMED_OUT, BLOCKED} \<and> tr_attempt r = tr_attempt run")
  case True
  then obtain n w' where p: "prepare_retry env run result w = (Inr (Some n), w')"
    and n: "n = (next_attempt r result (tr_attempt run) (w_clock w (w_tick w)))\<lparr>tr_status := QUEUED\<rparr>"
    and w': "fs_runs w' = dict_set k (persisted_run n) (fs_runs w)" "fs_results w' = dict_pop k (fs_results w)"
    using prepare_retry_open [OF assms(1-4) assms(5) assms(6)] by blast
  have f': "find_run (tr_run_id run) w' = Some (k, persisted_run n)"
    by (rule find_run_update [OF assms(3,2) w'(1)])
  have "prepare_retry env run result w' = (Inr None, w')"
    by (rule prepare_retry_closed [OF assms(1) f' assms(5)]) (simp add: n next_attempt_def)
  with True p n w' f' find_run_id [OF assms(2,3,4)] show ?thesis
    by (simp add: next_attempt_def dict_get_pop)
next
  case False
  then show ?thesis using prepare_retry_closed [OF assms(1,3) assms(5)] by simp
qed

theorem prepare_retry_once_witness:
  "\<exists>n w'. prepare_retry (sample_env (file_run_store (\<lambda>_. []) []) memory_lease_manager) (sample_run ''r'' FAILED)
       (sample_result ''r'' FAILED) (sample_lease_world [sample_run ''r'' FAILED] []) = (Inr (Some n), w')
     \<and> tr_attempt n = 2 \<and> dict_get (fs_results w') (''b'', ''r'') = None"
proof -
  let ?env = "sample_env (file_run_store (\<lambda>_. []) []) memory_lease_manager :: lease_world run_env"
  let ?w = "sample_lease_world [sample_run ''r'' FAILED] []" and ?r = "sample_run ''r'' FAILED"
  have w: "dict_ok (fs_runs ?w)" "find_run (tr_run_id ?r) ?w = Some ((''b'', ''r''), ?r)" "(''b'', ''r'') = run_key_of ?r"
    by (simp_all add: sample_store_def sample_run_def run_key_of_def find_run_def dict_ok_def)
  have h: "en_sleep ?env v = (Inr (), v)" "en_mark_retry_pending ?env n v = (Inr (), v)" for n v
    by (simp_all add: sample_env_def)
  have "tr_status ?r \<in> {FAILED, TIMED_OUT, BLOCKED} \<and> tr_attempt ?r = tr_attempt ?r" "tr_attempt ?r = 1"
    by (simp_all add: sample_run_def)
  with prepare_retry_once [OF sample_env_simps(1) w h, of "sample_result ''r'' FAILED"] show ?thesis
    by (simp only: if_True sample_env_simps simp_thms) (elim exE conjE, intro exI conjI, assumption, simp, assumption)
qed

end
