(* ===== verification/Attempt_Leases.thy ===== *)
theory Attempt_Leases
  imports Run_Coordinator
begin

section \<open>No sandbox is left behind\<close>

text \<open>
  The run coordinator on the filesystem store with the in-memory lease manager: an attempt gives
  back every sandbox it took. The attempt is followed through three predicates on the lease table:
  before the acquisition, while the run object may hold a lease, and after the clean-up.
\<close>

subsection \<open>The store leaves the leases alone\<close>

lemma lease_keeps_store [simp]:
  "preserves (\<lambda>w. lw_leases w = L) now_ms" "preserves (\<lambda>w. lw_leases w = L) uuid4_hex" "preserves (\<lambda>w. lw_leases w = L) (publish e)"
  "preserves (\<lambda>w. lw_leases w = L) (put_run key run)" "preserves (\<lambda>w. lw_leases w = L) (read_run_by_id rid)"
  "preserves (\<lambda>w. lw_leases w = L) (get_batch b)" "preserves (\<lambda>w. lw_leases w = L) (put_result sha rt run res)"
  "preserves (\<lambda>w. lw_leases w = L) (read_result sha rt run)" "preserves (\<lambda>w. lw_leases w = L) (list_batch_runs b)"
  "preserves (\<lambda>w. lw_leases w = L) (lookup_idempotent key')" "preserves (\<lambda>w. lw_leases w = L) (or_now v)"
  "preserves (\<lambda>w. lw_leases w = L) (transition_run st p run)" "preserves (\<lambda>w. lw_leases w = L) (transition_batch bs batch)"
  by (auto simp: preserves_def put_run_def read_run_by_id_def get_batch_def put_result_def read_result_def list_batch_runs_def
      lookup_idempotent_def or_now_def transition_run_eq transition_batch_eq split: option.splits sum.splits prod.splits)

lemma lease_keeps_writes [simp]:
  "preserves (\<lambda>w. lw_leases w = L) (update_run run)" "preserves (\<lambda>w. lw_leases w = L) (cancel_run rid reason)"
  "preserves (\<lambda>w. lw_leases w = L) (update_batch batch)" "preserves (\<lambda>w. lw_leases w = L) (fail_stale_run sha rt rid res wk)"
  unfolding update_run_def cancel_run_def update_batch_def fail_stale_run_def Let_def by (intro preserves_intros lease_keeps_store; simp)+

interpretation lease_file: run_store_invariant "file_run_store sha rt" "\<lambda>w. lw_leases w = L" for sha rt L
  unfolding run_store_invariant_def file_run_store_def run_store.simps
    create_batch_def create_run_def reopen_run_for_retry_def claim_run_def
    heartbeat_batch_def set_progress_def write_result_def cancel_batch_def get_run_def
    get_task_detail_def list_batches_by_turn_def sweep_stale_def Let_def
  by (intro conjI allI impI; (intro preserves_intros lease_keeps_store lease_keeps_writes; simp)?) auto

lemma preserves_via: "(\<And>L. preserves (\<lambda>w. f w = L) m) \<Longrightarrow> preserves (\<lambda>w. G (f w)) m"
  by (simp add: preserves_def)

lemma run_store_invariant_via:
  assumes "\<And>L. run_store_invariant st (\<lambda>w. f w = L)"
  shows "run_store_invariant st (\<lambda>w. G (f w))"
  by unfold_locales
    (rule preserves_via [where f = f and G = G], rule run_store_invariant.store_inv [OF assms] run_store_invariant.fail_inv [OF assms], assumption?)+

lemma hooks_preserve_via:
  assumes "\<And>L. hooks_preserve env (\<lambda>w. f w = L)"
  shows "hooks_preserve env (\<lambda>w. G (f w))"
  unfolding hooks_preserve_def
  by (intro conjI allI impI; rule preserves_via [where f = f and G = G]; insert assms; simp add: hooks_preserve_def)

lemma frame_leases:
  assumes "en_store env = file_run_store sha rt" and "\<And>L. hooks_preserve env (\<lambda>w. lw_leases w = L)"
  shows "frame env (\<lambda>w sb mgr. G (lw_leases w) sb mgr)"
  unfolding frame_def assms(1)
proof (intro allI conjI)
  fix sb mgr
  show "run_store_invariant (file_run_store sha rt) (\<lambda>w. G (lw_leases w) sb mgr)"
    by (rule run_store_invariant_via [where f = lw_leases and G = "\<lambda>m. G m sb mgr", OF lease_file.run_store_invariant_axioms])
  show "hooks_preserve env (\<lambda>w. G (lw_leases w) sb mgr)"
    by (rule hooks_preserve_via [where f = lw_leases and G = "\<lambda>m. G m sb mgr", OF assms(2)])
qed

subsection \<open>Before, while and after\<close>

abbreviation held_leases :: "memory_leases \<Rightarrow> string set" where
  "held_leases m \<equiv> set (dict_keys (ml_leases m))"

definition memory_only :: "'z lease_world_scheme lease_manager option \<Rightarrow> bool" where
  "memory_only mgr \<longleftrightarrow> mgr = None \<or> mgr = Some memory_lease_manager"

definition leases_before :: "string set \<Rightarrow> memory_leases \<Rightarrow> sandbox_lease_ref option
    \<Rightarrow> 'z lease_world_scheme lease_manager option \<Rightarrow> bool" where
  "leases_before H m sb mgr \<longleftrightarrow> mem_ok m \<and> held_leases m \<subseteq> H \<and> memory_only mgr \<and> sb = None"

definition leases_during :: "string set \<Rightarrow> memory_leases \<Rightarrow> sandbox_lease_ref option
    \<Rightarrow> 'z lease_world_scheme lease_manager option \<Rightarrow> bool" where
  "leases_during H m sb mgr \<longleftrightarrow> mem_ok m \<and> memory_only mgr \<and>
     (case sb of None \<Rightarrow> held_leases m \<subseteq> H
      | Some l \<Rightarrow> held_leases m \<subseteq> insert (sl_sandbox_id l) H \<and> mgr = Some memory_lease_manager)"

definition leases_after :: "string set \<Rightarrow> memory_leases \<Rightarrow> sandbox_lease_ref option
    \<Rightarrow> 'z lease_world_scheme lease_manager option \<Rightarrow> bool" where
  "leases_after H m sb mgr \<longleftrightarrow> mem_ok m \<and> held_leases m \<subseteq> H \<and> memory_only mgr"

abbreviation before :: "string set \<Rightarrow> 'z lease_world_scheme rc_state \<Rightarrow> bool" where
  "before H \<equiv> rc_holds (\<lambda>w. leases_before H (lw_leases w))"

abbreviation during :: "string set \<Rightarrow> 'z lease_world_scheme rc_state \<Rightarrow> bool" where
  "during H \<equiv> rc_holds (\<lambda>w. leases_during H (lw_leases w))"

abbreviation after :: "string set \<Rightarrow> 'z lease_world_scheme rc_state \<Rightarrow> bool" where
  "after H \<equiv> rc_holds (\<lambda>w. leases_after H (lw_leases w))"

lemma before_during: "leases_before H m sb mgr \<Longrightarrow> leases_during H m sb mgr"
  and before_after: "leases_before H m sb mgr \<Longrightarrow> leases_after H m sb mgr"
  by (auto simp: leases_before_def leases_during_def leases_after_def)

subsection \<open>The acquisition\<close>

text \<open>A plan editor, a cancellation poll and a clock that answer.\<close>

definition editor_answers :: "'w run_env \<Rightarrow> bool" where
  "editor_answers env \<longleftrightarrow>
     (\<forall>i run stg res rel out w. fst (en_update_tool_call env i run stg res rel out w) = Inr ())
     \<and> (\<forall>w. \<exists>c. fst (en_cancel_wins env w) = Inr c)
     \<and> (\<forall>w. \<exists>t. fst (en_monotonic_ms env w) = Inr t)"

lemma poll_answers:
  assumes "editor_answers env"
  shows "poll_first env m = en_cancel_wins env"
proof
  fix w
  obtain c w' where "en_cancel_wins env w = (Inr c, w')" using assms unfolding editor_answers_def by (metis prod.collapse)
  then show "poll_first env m w = en_cancel_wins env w" by (simp add: poll_first_def)
qed

abbreviation managed :: "string set \<Rightarrow> 'z lease_world_scheme rc_state \<Rightarrow> bool" where
  "managed H \<equiv> rc_holds (\<lambda>w sb mgr. leases_before H (lw_leases w) sb mgr \<and> mgr = Some memory_lease_manager)"

lemma reserve_before: "preserves (\<lambda>w. leases_before H (lw_leases w) sb mgr) (lm_reserve memory_lease_manager req rid)"
proof (rule preservesI)
  fix w :: "'a lease_world_scheme" assume "leases_before H (lw_leases w) sb mgr"
  then show "leases_before H (lw_leases (snd (lm_reserve memory_lease_manager req rid w))) sb mgr"
    using mem.reserve_keeps [of w req rid, OF _ surjective_pairing] unfolding leases_before_def by blast
qed

lemma reset_during: "preserves (\<lambda>w. leases_during H (lw_leases w) sb mgr) (lm_reset memory_lease_manager l)"
proof (rule preservesI)
  fix w :: "'a lease_world_scheme" assume a: "leases_during H (lw_leases w) sb mgr"
  then have "mem_ok (lw_leases w)" by (simp add: leases_during_def)
  from a mem.reset_keeps [OF this surjective_pairing, of l]
  show "leases_during H (lw_leases (snd (lm_reset memory_lease_manager l w))) sb mgr"
    unfolding leases_during_def by (auto split: option.splits)
qed

lemma lease_taken:
  assumes "frame env (\<lambda>w sb mgr. leases_before H (lw_leases w) sb mgr \<and> mgr = Some memory_lease_manager)"
    and ed: "editor_answers env" and rest: "\<And>lease. preserves (during H) (k lease)"
  shows "takes (managed H) (bindE (acquire_reserved_sandbox env memory_lease_manager tok) (\<lambda>lease.
      thenE (setrunE (\<lambda>run. run\<lparr>tr_sandbox := Some lease, tr_sandbox_released := False, tr_lease_outcome := []\<rparr>)) (k lease)))
    (during H)"
proof -
  let ?own = "bindE (worldE (lm_acquire memory_lease_manager tok)) (\<lambda>lease.
      thenE (setrunE (\<lambda>run. run\<lparr>tr_sandbox := Some lease, tr_sandbox_released := False, tr_lease_outcome := []\<rparr>)) (k lease))"
  let ?late = "thenE (modifyE (\<lambda>s. s\<lparr>rc_background := rc_background s @ [tok]\<rparr>)) (raiseE (Exn PlanCancellationRequested []))
      :: (_, sandbox_lease_ref) io"
  have own: "takes (managed H) ?own (during H)"
  proof (rule takesI)
    fix s r s' assume m: "managed H s" and t: "?own s = (r, s')"
    obtain a w' where a: "lm_acquire memory_lease_manager tok (rc_world s) = (a, w')"
      by (cases "lm_acquire memory_lease_manager tok (rc_world s)")
    have ok: "lease_inv (rc_world s)" using m by (simp add: leases_before_def)
    show "during H s'"
    proof (cases a)
      case (Inl e)
      with t a m mem.acquire_refused [OF ok, of tok e w'] show ?thesis
        by (auto simp: worldE_def leases_before_def leases_during_def)
    next
      case (Inr l)
      let ?s = "s\<lparr>rc_world := w', rc_run := (rc_run s)\<lparr>tr_sandbox := Some l, tr_sandbox_released := False, tr_lease_outcome := []\<rparr>\<rparr>"
      have "during H ?s"
        using m mem.acquire_takes [OF ok, of tok l w'] a Inr by (auto simp: leases_before_def leases_during_def)
      moreover have "k l ?s = (r, s')" using t a Inr by (simp add: worldE_def setrunE_def)
      ultimately show ?thesis by (rule preservesD [OF rest])
    qed
  qed
  have late: "takes (managed H) (bindE ?late (\<lambda>lease.
      thenE (setrunE (\<lambda>run. run\<lparr>tr_sandbox := Some lease, tr_sandbox_released := False, tr_lease_outcome := []\<rparr>)) (k lease))) (during H)"
    by (rule takesI) (auto dest: before_during)
  show ?thesis
    unfolding acquire_reserved_sandbox_def poll_answers [OF ed] bindE_assoc if_distrib [of "\<lambda>m. bindE m _"] 
    by (rule takes_bind_before [OF frame_world [OF hooks_preserveD(5) [OF frameD(2) [OF assms(1)]]] _ takes_if [OF late own]])
      (auto dest: before_during)
qed

lemma acquire_during:
  assumes st: "en_store env = file_run_store sha rt" and hk: "\<And>L. hooks_preserve env (\<lambda>w. lw_leases w = L)"
    and dm: "\<And>i. en_default_manager env i = memory_lease_manager" and ed: "editor_answers env"
  shows "takes (before H) (sandbox_acquire env) (during H)"
proof -
  note frB = frame_leases [OF st hk, of "\<lambda>m sb mgr. leases_before H m sb mgr \<and> mgr = Some memory_lease_manager"]
    and frD = frame_leases [OF st hk, of "leases_during H"]
  note hkB = hooks_preserveD [OF frameD(2) [OF frB]] and hkD = hooks_preserveD [OF frameD(2) [OF frD]]
    and stD = run_store_invariant.store_inv [OF frameD(1) [OF frD]]
  have reserve: "preserves (\<lambda>w. leases_before H (lw_leases w) sb mgr \<and> mgr = Some memory_lease_manager)
      (lm_reserve memory_lease_manager req rid)" for sb req rid and mgr :: "'a lease_world_scheme lease_manager option"
    by (rule preserves_const [OF reserve_before])
  have weak: "during H s" if "managed H s" for s :: "'a lease_world_scheme rc_state"
    using that before_during by blast
  note early = preserves_intros frame_run frame_progress [OF frB] hkB reserve
  note late = preserves_intros frame_run frame_progress [OF frD] hkD stD reset_during
  have chain: "takes (managed H) (acquire_required env memory_lease_manager requirement) (during H)" for requirement
    unfolding acquire_required_def await_unless_plan_cancelled_def poll_answers [OF ed] publish_acquired_sandbox_def reset_or_continue_def Let_def
    by (intro lease_taken [OF frB ed] takes_then_before [where Q = "managed H" and R = "during H", OF _ weak]
          takes_bind_before [where Q = "managed H" and R = "during H", OF _ weak];
        (assumption | (intro early; fail) | (intro late; fail)))
  have required: "takes (managed H) (case q of None \<Rightarrow> retE () | Some r \<Rightarrow> acquire_required env memory_lease_manager r) (during H)" for q
  proof (cases q)
    case None
    show ?thesis unfolding None option.case by (rule takes_weaken [OF preserves_pure(1)]) (rule weak)
  qed (simp add: chain)
  have body: "takes (managed H) (bindE (getE rc_run) (\<lambda>run.
       case selected_sandbox (en_repr env) (tr_spec run) of
         None \<Rightarrow> retE ()
       | Some requirement \<Rightarrow> acquire_required env memory_lease_manager requirement)) (during H)"
    by (rule takes_bind_before [OF preserves_pure(4) weak required])
  show ?thesis
  proof (rule takesI)
    fix s r s' assume b: "before H s" and a: "sandbox_acquire env s = (r, s')"
    obtain s1 where s1: "ensure_manager env s = (Inr memory_lease_manager, s1)" and m: "managed H s1"
      using b dm by (cases "rc_manager s") (auto simp: ensure_manager_def Let_def leases_before_def memory_only_def)
    from a s1 have "bindE (getE rc_run) (\<lambda>run.
       case selected_sandbox (en_repr env) (tr_spec run) of
         None \<Rightarrow> retE ()
       | Some requirement \<Rightarrow> acquire_required env memory_lease_manager requirement) s1 = (r, s')"
      by (simp add: sandbox_acquire_def)
    with body m show "during H s'" by (rule takesD)
  qed
qed

subsection \<open>The release\<close>

lemma persist_stage_suppressed: "\<exists>w'. suppressE (persist_stage (file_run_store sha rt) stg run) w = (Inr (), w')"
proof -
  obtain r w' where p: "persist_stage (file_run_store sha rt) stg run w = (r, w')"
    by (cases "persist_stage (file_run_store sha rt) stg run w")
  then have "r = Inr () \<or> (\<exists>e. r = Inl e \<and> exn_class e = FileNotFoundError)"
    by (auto simp: persist_stage_def file_run_store_def get_run_def update_run_def read_run_by_id_def put_run_def Let_def
        bindE_def thenE_def now_ms_def split: option.splits prod.splits if_splits)
  with p show ?thesis by (auto simp: suppressE_def catch_Exception_def is_Exception_def)
qed

lemma run_stage_answers:
  assumes "en_store env = file_run_store sha rt" and "editor_answers env"
  shows "fst (run_stage env stg s) = Inr ()"
proof -
  have call: "fst (runE (\<lambda>run. en_update_tool_call env (the (tr_plan_batch_call_id run)) run (Some stg) None False []) s) = Inr ()" for s
    using assms(2) by (simp add: editor_answers_def runE_def worldE_def split_beta)
  obtain w' where "suppressE (persist_stage (file_run_store sha rt) stg (rc_run s\<lparr>tr_runtime_stage := stg\<rparr>)) (rc_world s) = (Inr (), w')"
    using persist_stage_suppressed by blast
  then have "\<exists>s'. persist_run_runtime_stage env stg s = (Inr (), s')"
    unfolding persist_run_runtime_stage_def assms(1) by (auto simp: runE_def worldE_def setrunE_def)
  with call show ?thesis by (auto simp: run_stage_def)
qed

lemma takes_bind_answer:
  assumes "preserves Q m" and "\<And>s. \<exists>a. fst (m s) = Inr a" and "\<And>a. takes Q (f a) R"
  shows "takes Q (bindE m f) R"
proof (rule takesI)
  fix s r s' assume "Q s" and b: "bindE m f s = (r, s')"
  obtain a s1 where m: "m s = (Inr a, s1)" using assms(2) [of s] by (metis prod.collapse)
  with assms(1) \<open>Q s\<close> have "Q s1" by (rule_tac preservesD)
  with b m assms(3) [of a] show "R s'" by (auto dest: takesD)
qed

lemma release_after: "preserves (\<lambda>w. leases_after H (lw_leases w) sb mgr) (lm_release memory_lease_manager l out)"
proof (rule preservesI)
  fix w :: "'a lease_world_scheme" assume a: "leases_after H (lw_leases w) sb mgr"
  then have "mem_ok (lw_leases w)" by (simp add: leases_after_def)
  from a mem.release_returns [OF this surjective_pairing, of l out]
  show "leases_after H (lw_leases (snd (lm_release memory_lease_manager l out w))) sb mgr"
    unfolding leases_after_def by blast
qed

lemma release_given:
  assumes st: "en_store env = file_run_store sha rt" and hk: "\<And>L. hooks_preserve env (\<lambda>w. lw_leases w = L)"
    and ed: "editor_answers env"
  shows "takes (\<lambda>s. during H s \<and> tr_sandbox (rc_run s) = Some l) (release_loop env memory_lease_manager l out (Suc n)) (after H)"
proof -
  note frA = frame_leases [OF st hk, of "leases_after H"]
    and frD = frame_leases [OF st hk, of "\<lambda>m sb mgr. leases_during H m sb mgr \<and> sb = Some l"]
  note hkA = hooks_preserveD [OF frameD(2) [OF frA]] and stA = run_store_invariant.store_inv [OF frameD(1) [OF frA]]
  note late = preserves_intros frame_local frame_run frame_world frame_progress [OF frA] hkA stA release_after
  have state: "preserves (after H) (set_run_sandbox_release_state env rel out)" for rel
    unfolding set_run_sandbox_release_state_def by (intro late)
  have loop: "preserves (after H) (release_loop env memory_lease_manager l out k)" for k
    by (induction k) (simp_all only: release_loop.simps, intro late, intro late state)
  have give: "takes (\<lambda>s. during H s \<and> tr_sandbox (rc_run s) = Some l) (worldE (lm_release memory_lease_manager l out)) (after H)"
  proof (rule takesI)
    fix s r s' assume s: "during H s \<and> tr_sandbox (rc_run s) = Some l" and r: "worldE (lm_release memory_lease_manager l out) s = (r, s')"
    then have ok: "lease_inv (rc_world s)" by (simp add: leases_during_def)
    from s r mem.release_returns [OF ok surjective_pairing, of l out] show "after H s'"
      unfolding leases_during_def leases_after_def worldE_def by (clarsimp simp: split_beta simp del: set_map) blast
  qed
  have "takes (\<lambda>s. during H s \<and> tr_sandbox (rc_run s) = Some l)
      (thenE (run_stage env ''release'') (thenE (worldE (lm_release memory_lease_manager l out))
        (thenE (set_run_sandbox_release_state env True out) (retE True)))) (after H)"
    unfolding thenE_def [of "run_stage env _"]
    by (rule takes_bind_answer [OF frame_progress(1) [OF frD] _ takes_then_after [OF give]])
      (simp add: run_stage_answers [OF st ed], intro late state)
  then show ?thesis
    unfolding release_loop.simps catch_Exception_def
    by (intro takes_bind_after takes_catch_after) (assumption, (intro late loop)+)
qed

lemma release_attempts_pos: "\<exists>n. nat (sandbox_release_attempts e) = Suc n"
proof -
  have "1 \<le> sandbox_release_attempts e"
    by (auto simp: sandbox_release_attempts_def resolve_clamped_env_def Let_def split: option.splits)
  then show ?thesis by (metis Suc_pred' nat_le_0 not_le not_gr_zero nat_eq_iff2 zero_less_one less_le_trans zero_less_nat_eq)
qed

lemma sandbox_release_after:
  assumes st: "en_store env = file_run_store sha rt" and hk: "\<And>L. hooks_preserve env (\<lambda>w. lw_leases w = L)"
    and ed: "editor_answers env"
  shows "takes (during H) (sandbox_release env out) (after H)"
proof (rule takesI)
  fix s r s' assume d: "during H s" and r: "sandbox_release env out s = (r, s')"
  note frA = frame_leases [OF st hk, of "leases_after H"]
  note stA = run_store_invariant.store_inv [OF frameD(1) [OF frA]]
  show "after H s'"
  proof (cases "tr_sandbox (rc_run s)")
    case None
    with d r show ?thesis by (auto simp: sandbox_release_def leases_during_def leases_after_def)
  next
    case (Some l)
    with d have m: "rc_manager s = Some memory_lease_manager" by (simp add: leases_during_def)
    have state: "preserves (after H) (set_run_sandbox_release_state env False out)"
      unfolding set_run_sandbox_release_state_def by (intro preserves_intros frame_local frame_run stA)
    obtain n where n: "nat (sandbox_release_attempts (en_environ env)) = Suc n" using release_attempts_pos by blast
    have "takes (\<lambda>s. during H s \<and> tr_sandbox (rc_run s) = Some l)
        (bindE (release_loop env memory_lease_manager l out (Suc n)) (\<lambda>released.
           if released then retE True else thenE (set_run_sandbox_release_state env False out) (retE False))) (after H)"
      by (rule takes_bind_after [OF release_given [OF st hk ed]]) (intro preserves_intros state)
    from takesD [OF this, of s r s'] d r Some m n show ?thesis by (simp add: sandbox_release_def del: release_loop.simps)
  qed
qed

lemma cleanup_after:
  assumes st: "en_store env = file_run_store sha rt" and hk: "\<And>L. hooks_preserve env (\<lambda>w. lw_leases w = L)"
    and ed: "editor_answers env"
  shows "takes (during H) (attempt_cleanup env) (after H)"
proof -
  note frA = frame_leases [OF st hk, of "leases_after H"] and frD = frame_leases [OF st hk, of "leases_during H"]
  note hkA = hooks_preserveD [OF frameD(2) [OF frA]] and hkD = hooks_preserveD [OF frameD(2) [OF frD]]
  note late = preserves_intros frame_local frame_run frame_world frame_terminal [OF frA] hkA
  have clock: "\<exists>a. fst (worldE (en_monotonic_ms env) s) = Inr a" for s
    using ed by (simp add: editor_answers_def worldE_def split_beta)
  have measured: "takes (during H) (clock_measure env stg (sandbox_release env out)) (after H)" for stg out
    unfolding clock_measure_def
    by (rule takes_bind_answer [OF frame_world [OF hkD(10)] clock takes_finally_after [OF sandbox_release_after [OF st hk ed]]])
      (intro late)
  show ?thesis
    unfolding attempt_cleanup_def
    by (rule takes_bind_answer [OF preserves_pure(4) _ takes_bind_after [OF measured]]) (simp, intro late)
qed

lemma late_release_after: "preserves (\<lambda>w. leases_after H (lw_leases w) sb mgr) (late_release memory_lease_manager tok)"
proof (rule preservesI)
  fix w :: "'a lease_world_scheme" assume a: "leases_after H (lw_leases w) sb mgr"
  then have ok: "lease_inv w" by (simp add: leases_after_def)
  obtain r w1 where r: "lm_acquire memory_lease_manager tok w = (r, w1)" by (cases "lm_acquire memory_lease_manager tok w")
  show "leases_after H (lw_leases (snd (late_release memory_lease_manager tok w))) sb mgr"
  proof (cases r)
    case (Inl e)
    with r a mem.acquire_refused [OF ok, of tok e w1] show ?thesis
      by (simp add: late_release_def leases_after_def del: set_map)
  next
    case (Inr l)
    obtain u w2 where u: "lm_release memory_lease_manager l ''dirty'' w1 = (u, w2)"
      by (cases "lm_release memory_lease_manager l ''dirty'' w1")
    from mem.acquire_then_release [OF ok r [unfolded Inr] u]
    have "u = Inr ()" "lease_inv w2" "held_leases (lw_leases w2) \<subseteq> held_leases (lw_leases w)" by auto
    with r Inr u a show ?thesis
      by (auto simp: late_release_def leases_after_def suppressE_def catch_Exception_def simp del: set_map)
  qed
qed

lemma run_background_after: "preserves (after H) run_background"
proof (rule preservesI)
  fix s :: "'a lease_world_scheme rc_state" assume a: "after H s"
  show "after H (snd (run_background s))"
  proof (cases "rc_background s = [] \<or> rc_manager s = None")
    case True
    with a show ?thesis by (auto simp: run_background_def split: list.splits option.splits)
  next
    case False
    then obtain tok rest where b: "rc_background s = tok # rest" by (cases "rc_background s") auto
    from False a have m: "rc_manager s = Some memory_lease_manager" by (auto simp: leases_after_def memory_only_def)
    with a preserves_apply [OF late_release_after, of H "rc_world s" "tr_sandbox (rc_run s)" "rc_manager s" tok] b
    show ?thesis by (simp add: run_background_def worldE_def split_beta)
  qed
qed

text \<open>
  C9. An attempt leaves no sandbox behind, provided that the plan editor answers: the progress calls, which the release
  loop makes before it gives a sandbox back, and the cancellation poll, whose failure would leave an acquisition running that nobody
  awaits, do not raise. Then, with the in-memory lease manager and an attempt that starts without a sandbox, whatever the executor
  does and whichever exception it or the store raises, a cancellation among them, the sandboxes that are leased when
  \<^verbatim>\<open>_execute_run_once\<close> is done were already leased when it began, and so it stays while the background clean-ups
  of abandoned acquisitions are performed; no permit is lost or invented. A cancellation of the attempt's own task during the wait
  for an acquisition is not part of the model.
\<close>

theorem no_sandbox_left_behind:
  assumes "en_store env = file_run_store sha rt" and "\<And>L. hooks_preserve env (\<lambda>w. lw_leases w = L)"
    and "\<And>i. en_default_manager env i = memory_lease_manager" and "editor_answers env"
    and "mem_ok (lw_leases (rc_world s))" and "memory_only (rc_manager s)" and "tr_sandbox (rc_run s) = None"
    and "execute_run_once env s = (out, s')"
  shows "mem_ok (lw_leases (rc_world (((snd \<circ> run_background) ^^ n) s')))
    \<and> held_leases (lw_leases (rc_world (((snd \<circ> run_background) ^^ n) s'))) \<subseteq> held_leases (lw_leases (rc_world s))"
proof -
  let ?H = "held_leases (lw_leases (rc_world s))"
  note fr = frame_leases [OF assms(1,2)]
  have b: "before ?H s" using assms(5,6,7) by (simp add: leases_before_def)
  have t: "takes (before ?H) (execute_run_once env) (after ?H)"
    by (rule execute_run_once_takes [OF fr [of "leases_before ?H"] fr [of "leases_during ?H"] _ _
          acquire_during [OF assms(1,2,3,4)] cleanup_after [OF assms(1,2,4)]])
      (auto dest: before_during before_after)
  have "after ?H s'" by (rule takesD [OF t b assms(8)])
  then have "after ?H (((snd \<circ> run_background) ^^ n) s')"
    by (induction n) (simp_all add: preserves_apply [OF run_background_after])
  then show ?thesis by (simp add: leases_after_def)
qed

theorem no_sandbox_left_behind_witness:
  "\<exists>out s'. execute_run_once (sample_env (file_run_store (\<lambda>_. []) []) memory_lease_manager)
        (sample_attempt (sample_run ''q'' QUEUED\<lparr>tr_spec := sample_spec\<lparr>ts_required_sandbox := [''linux'']\<rparr>\<rparr>) (sample_lease_world [sample_run ''q'' QUEUED] [(''linux'', 1)])) = (out, s')
      \<and> ml_leases (lw_leases (rc_world s')) = []"
proof -
  let ?env = "sample_env (file_run_store (\<lambda>_. []) []) memory_lease_manager :: lease_world run_env"
  let ?s = "sample_attempt (sample_run ''q'' QUEUED\<lparr>tr_spec := sample_spec\<lparr>ts_required_sandbox := [''linux'']\<rparr>\<rparr>) (sample_lease_world [sample_run ''q'' QUEUED] [(''linux'', 1)])"
  obtain out s' where run: "execute_run_once ?env ?s = (out, s')" by (cases "execute_run_once ?env ?s")
  have empty: "ml_leases (mem_init caps) = []" for caps by (simp add: mem_init_def)
  have ed: "editor_answers ?env" by (auto simp: editor_answers_def sample_env_def)
  have "held_leases (lw_leases (rc_world (((snd \<circ> run_background) ^^ 0) s'))) \<subseteq> {}"
    using no_sandbox_left_behind [of ?env "\<lambda>_. []" "[]" ?s out s' 0, OF _ sample_env_hooks _ ed _ _ _ run]
    by (simp add: mem_init_ok memory_only_def sample_run_def empty)
  with run show ?thesis by simp
qed

end
