(* ===== verification/Progress_Port.thy ===== *)
theory Progress_Port
  imports Domain_Models
begin

section \<open>Turn contexts and the progress port\<close>

text \<open>
  \<^verbatim>\<open>context.py\<close>: the envelope of a turn, with the identity of the plan editor it carries.
  \<^verbatim>\<open>presentation/port.py\<close>: the options of a projection with their validation, and the
  \<^verbatim>\<open>RuntimeProgressPort\<close> protocol, a record of operations, as far as the submission pipeline and the
  cancellation of a turn call it.
\<close>

record plan_editor =
  pe_agent_instance_id :: int
  pe_username :: string
  pe_turn_id :: int
  pe_conversation_id :: int

record turn_context =
  tc_username :: string
  tc_agent_id :: string
  tc_agent_instance_id :: int
  tc_project_id :: int
  tc_conversation_id :: int
  tc_turn_id :: int
  tc_plan_editor :: plan_editor
  tc_submission_id :: string
  tc_submission_source :: string
  tc_batch_ids :: "string list"

subsection \<open>Options of a projection\<close>

record batch_projection_options =
  po_publish_only :: bool
  po_repair :: bool
  po_settle_batch :: bool
  po_allow_unmarked :: bool
  po_finish_unstarted_tail :: bool
  po_recovering :: bool

definition no_options :: batch_projection_options where
  "no_options =
     \<lparr>po_publish_only = False, po_repair = False, po_settle_batch = False, po_allow_unmarked = False,
      po_finish_unstarted_tail = False, po_recovering = False\<rparr>"

text \<open>\<^verbatim>\<open>__post_init__\<close>.\<close>

definition validate_projection_options :: "batch_projection_options \<Rightarrow> batch_projection_options result" where
  "validate_projection_options opts =
     (if po_publish_only opts
         \<and> (po_repair opts \<or> po_settle_batch opts \<or> po_allow_unmarked opts \<or> po_finish_unstarted_tail opts \<or> po_recovering opts)
      then Inl (Exn ValueError ''publish-only projection sync cannot mutate or settle the projection'')
      else if \<not> po_settle_batch opts \<and> (po_finish_unstarted_tail opts \<or> po_recovering opts)
      then Inl (Exn ValueError ''recovery projection options require settle_batch=True'')
      else Inr opts)"

definition publish_current :: batch_projection_options where
  "publish_current = no_options\<lparr>po_publish_only := True\<rparr>"

definition owner_finalization :: batch_projection_options where
  "owner_finalization = no_options\<lparr>po_repair := True, po_settle_batch := True\<rparr>"

definition observer_options :: "bool \<Rightarrow> bool \<Rightarrow> batch_projection_options" where
  "observer_options repair settle_batch =
     no_options\<lparr>po_repair := repair, po_settle_batch := settle_batch, po_allow_unmarked := True\<rparr>"

definition cancellation_options :: batch_projection_options where
  "cancellation_options = no_options\<lparr>po_settle_batch := True, po_allow_unmarked := True\<rparr>"

definition recovery_options :: batch_projection_options where
  "recovery_options =
     no_options\<lparr>po_settle_batch := True, po_allow_unmarked := True, po_finish_unstarted_tail := True, po_recovering := True\<rparr>"

text \<open>The class methods construct valid options, so that the constructor never raises in them.\<close>

lemma projection_options_valid:
  "opts \<in> {publish_current, owner_finalization, observer_options r s, cancellation_options, recovery_options} \<Longrightarrow>
     validate_projection_options opts = Inr opts"
  by (auto simp: validate_projection_options_def no_options_def publish_current_def owner_finalization_def
      observer_options_def cancellation_options_def recovery_options_def)

subsection \<open>The port\<close>

record 'w progress_port =
  pp_ensure_delegate_tasks_plan :: "turn_context \<Rightarrow> prepared_task_batch \<Rightarrow> ('w, unit) io"
  pp_create_delegate_tasks_call :: "turn_context \<Rightarrow> prepared_task_batch \<Rightarrow> string \<Rightarrow> ('w, int) io"
  pp_remove_delegate_tasks_call :: "turn_context \<Rightarrow> int \<Rightarrow> string \<Rightarrow> ('w, bool) io"
  pp_sync_batch_projection ::
    "turn_context \<Rightarrow> batch_record \<Rightarrow> task_run list \<Rightarrow> task_result list \<Rightarrow> batch_projection_options \<Rightarrow> ('w, bool) io"
  pp_add_task_sub_call :: "turn_context \<Rightarrow> int \<Rightarrow> task_spec \<Rightarrow> int \<Rightarrow> ('w, int) io"
  pp_mark_delegate_tasks_failed :: "turn_context \<Rightarrow> int \<Rightarrow> string \<Rightarrow> ('w, unit) io"
  pp_mark_delegate_tasks_terminal :: "turn_context \<Rightarrow> int \<Rightarrow> batch_status \<Rightarrow> string \<Rightarrow> ('w, unit) io"
  pp_mark_run_queued :: "turn_context \<Rightarrow> task_run \<Rightarrow> ('w, unit) io"
  pp_mark_run_terminal :: "turn_context \<Rightarrow> task_run \<Rightarrow> task_result \<Rightarrow> bool \<Rightarrow> string \<Rightarrow> ('w, unit) io"
  pp_publish_parent_batch_progress :: "turn_context \<Rightarrow> batch_record \<Rightarrow> task_run list \<Rightarrow> ('w, unit) io"
  pp_mark_cancelled_runs :: "turn_context \<Rightarrow> task_run list \<Rightarrow> string \<Rightarrow> ('w, unit) io"
  pp_mark_parent_step_terminal_if_settled :: "turn_context \<Rightarrow> int \<Rightarrow> batch_status \<Rightarrow> string \<Rightarrow> ('w, unit) io"

text \<open>The port keeps a predicate on the state: no call of it, whether or not it raises, breaks the predicate.\<close>

definition port_keeps :: "'w progress_port \<Rightarrow> ('w \<Rightarrow> bool) \<Rightarrow> bool" where
  "port_keeps pp P \<longleftrightarrow>
     (\<forall>ctx prepared. preserves P (pp_ensure_delegate_tasks_plan pp ctx prepared))
     \<and> (\<forall>ctx prepared bid. preserves P (pp_create_delegate_tasks_call pp ctx prepared bid))
     \<and> (\<forall>ctx call bid. preserves P (pp_remove_delegate_tasks_call pp ctx call bid))
     \<and> (\<forall>ctx b runs res opts. preserves P (pp_sync_batch_projection pp ctx b runs res opts))
     \<and> (\<forall>ctx call task i. preserves P (pp_add_task_sub_call pp ctx call task i))
     \<and> (\<forall>ctx call bid. preserves P (pp_mark_delegate_tasks_failed pp ctx call bid))
     \<and> (\<forall>ctx call bs bid. preserves P (pp_mark_delegate_tasks_terminal pp ctx call bs bid))
     \<and> (\<forall>ctx run. preserves P (pp_mark_run_queued pp ctx run))
     \<and> (\<forall>ctx run res rel out. preserves P (pp_mark_run_terminal pp ctx run res rel out))
     \<and> (\<forall>ctx b runs. preserves P (pp_publish_parent_batch_progress pp ctx b runs))
     \<and> (\<forall>ctx runs reason. preserves P (pp_mark_cancelled_runs pp ctx runs reason))
     \<and> (\<forall>ctx call bs bid. preserves P (pp_mark_parent_step_terminal_if_settled pp ctx call bs bid))"

lemma port_keepsD:
  assumes "port_keeps pp P"
  shows "preserves P (pp_ensure_delegate_tasks_plan pp ctx prepared)"
    and "preserves P (pp_create_delegate_tasks_call pp ctx prepared bid)"
    and "preserves P (pp_remove_delegate_tasks_call pp ctx call bid)"
    and "preserves P (pp_sync_batch_projection pp ctx b runs res opts)"
    and "preserves P (pp_add_task_sub_call pp ctx call task i)"
    and "preserves P (pp_mark_delegate_tasks_failed pp ctx call bid)"
    and "preserves P (pp_mark_delegate_tasks_terminal pp ctx call bs bid)"
    and "preserves P (pp_mark_run_queued pp ctx run)"
    and "preserves P (pp_mark_run_terminal pp ctx run result rel out)"
    and "preserves P (pp_publish_parent_batch_progress pp ctx b runs)"
    and "preserves P (pp_mark_cancelled_runs pp ctx runs reason)"
    and "preserves P (pp_mark_parent_step_terminal_if_settled pp ctx call bs bid)"
  using assms by (simp_all add: port_keeps_def)

text \<open>A port without a user interface.\<close>

definition quiet_port :: "'w progress_port" where
  "quiet_port =
     \<lparr>pp_ensure_delegate_tasks_plan = (\<lambda>_ _. retE ()), pp_create_delegate_tasks_call = (\<lambda>_ _ _. retE 1),
      pp_remove_delegate_tasks_call = (\<lambda>_ _ _. retE True), pp_sync_batch_projection = (\<lambda>_ _ _ _ _. retE True),
      pp_add_task_sub_call = (\<lambda>_ _ _ _. retE 2), pp_mark_delegate_tasks_failed = (\<lambda>_ _ _. retE ()),
      pp_mark_delegate_tasks_terminal = (\<lambda>_ _ _ _. retE ()), pp_mark_run_queued = (\<lambda>_ _. retE ()),
      pp_mark_run_terminal = (\<lambda>_ _ _ _ _. retE ()), pp_publish_parent_batch_progress = (\<lambda>_ _ _. retE ()),
      pp_mark_cancelled_runs = (\<lambda>_ _ _. retE ()), pp_mark_parent_step_terminal_if_settled = (\<lambda>_ _ _ _. retE ())\<rparr>"

lemma quiet_port_keeps: "port_keeps quiet_port P"
  by (simp add: port_keeps_def quiet_port_def)

end
