(* ===== verification/Recovery.thy ===== *)
theory Recovery
  imports Run_Coordinator Progress_Port
begin

section \<open>Recovery of stale runs\<close>

text \<open>
  \<^verbatim>\<open>orchestration/recovery.py\<close>: the reconciler that settles runs whose owner died, and the passes made
  at start-up. The progress port, the batch directory, the
  workspace layout and the message service are the parameters of \<open>reconciler\<close>; the store, the
  environment and the lease managers are those of \<open>run_env\<close>. The delay between the passes is in milliseconds.
\<close>

subsection \<open>Contexts of recovered batches\<close>

record 'w reconciler =
  rv_env :: "'w run_env"
  rv_manager :: "'w lease_manager option"
  rv_store_is_db :: bool
  rv_batch_dir :: "string \<Rightarrow> string result"
  rv_workspace_path :: "int \<Rightarrow> string \<Rightarrow> int \<Rightarrow> string"
  rv_mark_run_terminal :: "turn_context \<Rightarrow> task_run \<Rightarrow> task_result \<Rightarrow> bool \<Rightarrow> string \<Rightarrow> ('w, unit) io"
  rv_publish_parent_batch_progress :: "turn_context \<Rightarrow> batch_record \<Rightarrow> task_run list \<Rightarrow> ('w, unit) io"
  rv_sync_batch_projection :: "turn_context \<Rightarrow> batch_record \<Rightarrow> task_run list \<Rightarrow> task_result list \<Rightarrow> ('w, unit) io"
  rv_create_message :: "task_run \<Rightarrow> batch_record \<Rightarrow> batch_result \<Rightarrow> int \<Rightarrow> ('w, unit) io"

abbreviation rv_store :: "'w reconciler \<Rightarrow> 'w run_store" where
  "rv_store rv \<equiv> en_store (rv_env rv)"

definition RECONCILER_RECOVERY_MESSAGE_ENABLED :: bool where
  "RECONCILER_RECOVERY_MESSAGE_ENABLED = False"

definition is_stale_nonterminal_run :: "task_run \<Rightarrow> int \<Rightarrow> bool" where
  "is_stale_nonterminal_run run stale_before_ms =
     (if tr_status run = QUEUED then tr_queued_at run < stale_before_ms else False)"

text \<open>\<^verbatim>\<open>next((run for run in runs if run.username and run.agent_instance_id), None)\<close>.\<close>

definition owned_run :: "task_run list \<Rightarrow> task_run option" where
  "owned_run runs = find (\<lambda>run. tr_username run \<noteq> [] \<and> tr_agent_instance_id run \<noteq> 0) runs"

definition plan_conversation_id_for_batch :: "task_run \<Rightarrow> batch_record \<Rightarrow> int" where
  "plan_conversation_id_for_batch run batch = br_parent_conversation_id batch"

text \<open>\<^verbatim>\<open>str(runtime_metadata.get(key, ""))\<close> of the batch's runtime metadata, when that is a dictionary.\<close>

definition runtime_metadata_str :: "(json \<Rightarrow> string) \<Rightarrow> batch_record \<Rightarrow> string \<Rightarrow> string" where
  "runtime_metadata_str repr batch key =
     (case dict_get (br_metadata batch) RUNTIME_METADATA_KEY of
        Some (JObj m) \<Rightarrow> (case dict_get m key of None \<Rightarrow> [] | Some v \<Rightarrow> json_str repr v)
      | _ \<Rightarrow> [])"

definition plan_context_for_batch ::
    "(json \<Rightarrow> string) \<Rightarrow> turn_context option \<Rightarrow> batch_record \<Rightarrow> task_run list \<Rightarrow> turn_context option" where
  "plan_context_for_batch repr ctx batch runs =
     (if no_call (br_parent_tool_call_id batch) then None
      else
        case owned_run runs of
          None \<Rightarrow> None
        | Some run \<Rightarrow>
            let conversation_id = plan_conversation_id_for_batch run batch;
                same = (case ctx of
                          None \<Rightarrow> False
                        | Some c \<Rightarrow> tc_username c = tr_username run \<and> tc_agent_instance_id c = tr_agent_instance_id run
                                     \<and> tc_conversation_id c = conversation_id \<and> tc_turn_id c = br_parent_turn_id batch)
            in if same then ctx
               else
                 let batch_ids = (case ctx of Some c \<Rightarrow> tc_batch_ids c | None \<Rightarrow> [br_batch_id batch]);
                     submission_id = runtime_metadata_str repr batch ''submission_id'';
                     submission_id = (if submission_id = []
                        then ''legacy:'' @ str_of_int (br_parent_conversation_id batch) @ '':''
                               @ str_of_int (br_parent_turn_id batch) @ '':'' @ br_batch_id batch
                        else submission_id)
                 in Some \<lparr>tc_username = tr_username run, tc_agent_id = tr_agent_id run,
                          tc_agent_instance_id = tr_agent_instance_id run, tc_project_id = tr_project_id run,
                          tc_conversation_id = conversation_id, tc_turn_id = br_parent_turn_id batch,
                          tc_plan_editor = \<lparr>pe_agent_instance_id = tr_agent_instance_id run, pe_username = tr_username run,
                                            pe_turn_id = br_parent_turn_id batch, pe_conversation_id = conversation_id\<rparr>,
                          tc_submission_id = submission_id,
                          tc_submission_source = runtime_metadata_str repr batch ''submission_source'',
                          tc_batch_ids = batch_ids\<rparr>)"

subsection \<open>The reconciler\<close>

definition should_reconcile :: "'w reconciler \<Rightarrow> bool" where
  "should_reconcile rv =
     (let configured = py_lower (py_strip (getenv (en_environ (rv_env rv)) ''TASK_RUNTIME_RECONCILE_STALE_RUNS'' []))
      in if configured \<noteq> [] then configured \<notin> {''0'', ''false'', ''no'', ''off''} else rv_store_is_db rv)"

definition artifacts_root :: "'w reconciler \<Rightarrow> batch_record \<Rightarrow> task_run list \<Rightarrow> string result" where
  "artifacts_root rv batch runs =
     (case rv_batch_dir rv (br_batch_id batch) of
        Inr dir \<Rightarrow> Inr dir
      | Inl e \<Rightarrow>
          if exn_class e \<noteq> ValueError then Inl e
          else
            case owned_run runs of
              None \<Rightarrow> Inr (br_batch_id batch)
            | Some owner \<Rightarrow>
                Inr (rv_workspace_path rv (tr_agent_instance_id owner) (tr_username owner) (br_parent_conversation_id batch)
                       @ ''/results/'' @ br_batch_id batch))"

definition rv_aggregate :: "'w reconciler \<Rightarrow> batch_record \<Rightarrow> task_result list \<Rightarrow> task_run list \<Rightarrow> batch_result result" where
  "rv_aggregate rv batch results runs = rbind (artifacts_root rv batch runs) (\<lambda>dir. Inr (aggregate batch results dir))"

definition persist_recovered_parent_message ::
    "'z rt_world_scheme reconciler \<Rightarrow> batch_record \<Rightarrow> batch_result \<Rightarrow> task_run list \<Rightarrow> ('z rt_world_scheme, unit) io" where
  "persist_recovered_parent_message rv batch result runs =
     (if \<not> RECONCILER_RECOVERY_MESSAGE_ENABLED then retE ()
      else
        case owned_run runs of
          None \<Rightarrow> retE ()
        | Some owner \<Rightarrow>
            if br_parent_conversation_id batch = 0 \<or> br_parent_turn_id batch = 0 then retE ()
            else bindE (if int_or (br_ended_at batch) 0 \<noteq> 0 then retE (int_or (br_ended_at batch) 0) else now_ms) (\<lambda>timestamp.
                   suppressE (rv_create_message rv owner batch result timestamp)))"

definition reconcile_recovered_projection ::
    "'w reconciler \<Rightarrow> turn_context option \<Rightarrow> batch_record \<Rightarrow> task_run list \<Rightarrow> task_result list \<Rightarrow> ('w, unit) io" where
  "reconcile_recovered_projection rv plan_ctx batch runs results =
     (case plan_ctx of
        Some c \<Rightarrow> if no_call (br_parent_tool_call_id batch) then retE () else rv_sync_batch_projection rv c batch runs results
      | None \<Rightarrow> retE ())"

definition publish_recovered_terminal_batch ::
    "'z rt_world_scheme reconciler \<Rightarrow> turn_context option \<Rightarrow> batch_record \<Rightarrow> ('z rt_world_scheme, unit) io" where
  "publish_recovered_terminal_batch rv ctx batch =
     bindE (rs_list_batch_runs (rv_store rv) (br_batch_id batch)) (\<lambda>runs.
       if runs = [] \<or> list_ex (\<lambda>run. tr_status run \<notin> set TERMINAL_STATUSES) runs then retE ()
       else
         bindE (batch_results (rv_store rv) runs) (\<lambda>results.
           if length results < length runs then retE ()
           else
             bindE (liftE (rv_aggregate rv batch results runs)) (\<lambda>batch_result.
             thenE (reconcile_recovered_projection rv (plan_context_for_batch (en_repr (rv_env rv)) ctx batch runs) batch runs results)
               (persist_recovered_parent_message rv batch batch_result runs))))"

text \<open>What \<^verbatim>\<open>release_stale\<close> does to the run object it is given.\<close>

definition released_copy :: "bool \<Rightarrow> task_run \<Rightarrow> task_run" where
  "released_copy released run =
     (if tr_sandbox run = None then run
      else run\<lparr>tr_sandbox_released := released, tr_lease_outcome := str_or (tr_lease_outcome run) ''dirty''\<rparr>)"

definition finalize_stale_run ::
    "'z rt_world_scheme reconciler \<Rightarrow> turn_context option \<Rightarrow> int \<Rightarrow> task_run \<Rightarrow> ('z rt_world_scheme, unit) io" where
  "finalize_stale_run rv plan_ctx stale_before_ms run =
     (let st = rv_store rv in
      if tr_status run \<in> set TERMINAL_STATUSES \<or> \<not> is_stale_nonterminal_run run stale_before_ms then retE ()
      else
        bindE (if tr_sandbox run \<noteq> None
               then bindE (release_stale (rv_env rv) (rv_manager rv) run) (\<lambda>released.
                      catch_Exception (rs_get_run st (tr_run_id run)) (\<lambda>_. retE (released_copy released run)))
               else retE run) (\<lambda>run.
        bindE (stranded_result run) (\<lambda>result.
        bindE (persist_stranded_result st run result) (\<lambda>persisted.
          case plan_ctx of
            None \<Rightarrow> retE ()
          | Some c \<Rightarrow> rv_mark_run_terminal rv c persisted result (tr_sandbox_released persisted) (tr_lease_outcome persisted)))))"

definition finalize_stale_batch ::
    "'z rt_world_scheme reconciler \<Rightarrow> turn_context option \<Rightarrow> string \<Rightarrow> int \<Rightarrow> ('z rt_world_scheme, unit) io" where
  "finalize_stale_batch rv ctx batch_id stale_before_ms =
     (let st = rv_store rv in
      bindE (rs_get_batch st batch_id) (\<lambda>batch.
        if br_status batch \<in> set TERMINAL_BATCH_STATUSES then publish_recovered_terminal_batch rv ctx batch
        else
          bindE (rs_list_batch_runs st batch_id) (\<lambda>runs.
            if runs = [] then retE ()
            else
              let plan_ctx = plan_context_for_batch (en_repr (rv_env rv)) ctx batch runs in
              thenE (forE runs (finalize_stale_run rv plan_ctx stale_before_ms))
             (bindE (rs_list_batch_runs st batch_id) (\<lambda>final_runs.
                if final_runs = [] \<or> list_ex (\<lambda>run. tr_status run \<notin> set TERMINAL_STATUSES) final_runs
                then (case plan_ctx of
                        Some c \<Rightarrow> if no_call (br_parent_tool_call_id batch) then retE ()
                                   else rv_publish_parent_batch_progress rv c batch final_runs
                      | None \<Rightarrow> retE ())
                else
                  bindE (batch_results st final_runs) (\<lambda>results.
                    if length results < length final_runs then retE ()
                    else
                      bindE (liftE (rv_aggregate rv batch results final_runs)) (\<lambda>batch_result.
                      bindE (transition_batch (bres_status batch_result) batch) (\<lambda>batch.
                      bindE (if int_or (br_ended_at batch) 0 \<noteq> 0 then retE (int_or (br_ended_at batch) 0) else now_ms) (\<lambda>ended.
                      bindE (rs_update_batch st (batch\<lparr>br_counts := bd_counts (batch_result_digest_from_result batch_result 3 None),
                                                      br_ended_at := Some ended\<rparr>)) (\<lambda>updated.
                        let batch = bu_batch updated;
                            batch_result = (if br_status batch \<noteq> bres_status batch_result
                                            then batch_result\<lparr>bres_status := br_status batch\<rparr> else batch_result)
                        in thenE (reconcile_recovered_projection rv plan_ctx batch final_runs results)
                             (persist_recovered_parent_message rv batch batch_result final_runs)))))))))))"

text \<open>One turn of the loop over the swept runs, which collects the batches they belong to.\<close>

definition reconcile_run ::
    "'z rt_world_scheme reconciler \<Rightarrow> stale_run \<Rightarrow> string list \<Rightarrow> ('z rt_world_scheme, string list) io" where
  "reconcile_run rv stale affected =
     (let st = rv_store rv;
          affected = (if st_batch_id stale \<noteq> [] \<and> st_batch_id stale \<notin> set affected then affected @ [st_batch_id stale] else affected)
      in if st_run_id stale = [] then retE affected
         else
           bindE (catch_Exception (bindE (rs_get_run st (st_run_id stale)) (\<lambda>run. retE (Some run))) (\<lambda>_. retE None)) (\<lambda>found.
             case found of
               None \<Rightarrow> retE affected
             | Some run \<Rightarrow>
                 bindE (release_stale (rv_env rv) (rv_manager rv) run) (\<lambda>released.
                 thenE (if tr_status run = RUNNING
                        then bindE (stranded_result (released_copy released run)) (\<lambda>result.
                               suppressE (thenE (persist_stranded_result st (released_copy released run) result) (retE ())))
                        else retE ())
                   (retE affected))))"

definition reconcile_batches ::
    "'z rt_world_scheme reconciler \<Rightarrow> turn_context option \<Rightarrow> int \<Rightarrow> string list \<Rightarrow> ('z rt_world_scheme, unit) io" where
  "reconcile_batches rv ctx stale_before_ms affected =
     forE affected (\<lambda>batch_id. catch_Exception (finalize_stale_batch rv ctx batch_id stale_before_ms) (\<lambda>_. retE ()))"

definition reconcile :: "'z rt_world_scheme reconciler \<Rightarrow> turn_context option \<Rightarrow> ('z rt_world_scheme, unit) io" where
  "reconcile rv ctx =
     (if \<not> should_reconcile rv then retE ()
      else
        let stale_after_ms = stale_run_after_ms (en_environ (rv_env rv)) in
        if stale_after_ms \<le> 0 then retE ()
        else
          bindE now_ms (\<lambda>now.
            let stale_before_ms = now - stale_after_ms in
            bindE (catch_Exception (bindE (rs_sweep_stale (rv_store rv) stale_before_ms) (\<lambda>runs. retE (Some runs))) (\<lambda>_. retE None))
              (\<lambda>swept.
                case swept of
                  None \<Rightarrow> retE ()
                | Some stale_runs \<Rightarrow>
                    bindE (foldE (reconcile_run rv) stale_runs []) (reconcile_batches rv ctx stale_before_ms))))"

subsection \<open>Start-up passes\<close>

definition reconcile_stale_task_runtime_once ::
    "'z rt_world_scheme reconciler \<Rightarrow> bool \<Rightarrow> ('z rt_world_scheme, unit) io" where
  "reconcile_stale_task_runtime_once rv store_given =
     (if \<not> store_given
         \<and> py_lower (py_strip (getenv (en_environ (rv_env rv)) ''TASK_RUNTIME_RUN_STORE'' ''backend''))
             \<notin> {''backend'', ''db'', ''mysql''}
      then retE () else reconcile rv None)"

definition startup_reconcile_delay_ms :: "environ \<Rightarrow> int" where
  "startup_reconcile_delay_ms environ =
     (let stale_after_ms = stale_run_after_ms environ in
      if stale_after_ms \<le> 0 then 0
      else stale_after_ms + 1000 * task_runtime_heartbeat_interval_seconds environ)"

definition run_startup_reconcile_pass :: "'z rt_world_scheme reconciler \<Rightarrow> ('z rt_world_scheme, unit) io" where
  "run_startup_reconcile_pass rv = suppressE (reconcile_stale_task_runtime_once rv False)"

text \<open>\<open>is_set\<close> reads the stop event; \<open>stopped_within\<close> waits for it and says whether it was set in time.\<close>

definition run_task_runtime_startup_reconciler ::
    "'z rt_world_scheme reconciler \<Rightarrow> ('z rt_world_scheme, bool) io \<Rightarrow> (int \<Rightarrow> ('z rt_world_scheme, bool) io)
       \<Rightarrow> ('z rt_world_scheme, unit) io" where
  "run_task_runtime_startup_reconciler rv is_set stopped_within =
     thenE (run_startup_reconcile_pass rv)
       (let delay = startup_reconcile_delay_ms (en_environ (rv_env rv)) in
        bindE (if delay \<le> 0 then retE True else is_set) (\<lambda>stop.
          if stop then retE ()
          else bindE (stopped_within delay) (\<lambda>stopped.
                 if stopped then retE ()
                 else bindE is_set (\<lambda>stop. if stop then retE () else run_startup_reconcile_pass rv))))"

subsection \<open>Statuses the recovery may leave behind\<close>

text \<open>
  \<open>kept K S k\<close>: the store holds the runs of the keys \<open>K\<close>, in this order, and the status of the
  run at \<open>k\<close> is in \<open>S\<close>. Every store operation the recovery uses keeps this for a set \<open>S\<close> that has every
  terminal status and not the status queued.
\<close>

definition kept :: "run_key list \<Rightarrow> task_status set \<Rightarrow> run_key \<Rightarrow> 'z fs_world_scheme \<Rightarrow> bool" where
  "kept K S k w \<longleftrightarrow> dict_ok (fs_runs w) \<and> dict_keys (fs_runs w) = K
     \<and> (\<forall>k r. dict_get (fs_runs w) k = Some r \<longrightarrow> tr_run_id r = snd k)
     \<and> (\<exists>r. dict_get (fs_runs w) k = Some r \<and> tr_status r \<in> S)"

definition closing :: "task_status set \<Rightarrow> bool" where
  "closing S \<longleftrightarrow> QUEUED \<notin> S \<and> (\<forall>s. is_terminal_run_status s \<longrightarrow> s \<in> S)"

lemma closing_sets: "closing {s. is_terminal_run_status s}" "closing (- {QUEUED})"
  by (auto simp: closing_def run_tables)

lemma kept_other [simp]:
  "kept K S k (w\<lparr>w_tick := t\<rparr>) = kept K S k w"
  "kept K S k (w\<lparr>w_events := e\<rparr>) = kept K S k w"
  "kept K S k (w\<lparr>w_uuid_next := n\<rparr>) = kept K S k w"
  "kept K S k (w\<lparr>fs_files := fs\<rparr>) = kept K S k w"
  "kept K S k (w\<lparr>fs_batches := bs\<rparr>) = kept K S k w"
  "kept K S k (w\<lparr>fs_results := rs\<rparr>) = kept K S k w"
  by (simp_all add: kept_def)

lemma kept_put_run:
  assumes "k' \<in> set K" and "k' = k \<Longrightarrow> tr_status new \<in> S" and "tr_run_id new = snd k'"
  shows "preserves (kept K S k) (put_run k' new)"
proof (rule preservesI)
  fix w :: "'a fs_world_scheme" assume w: "kept K S k w"
  then have "k' \<in> set (dict_keys (fs_runs w))" using assms(1) by (simp add: kept_def)
  then have keys: "dict_keys (dict_set k' (persisted_run new) (fs_runs w)) = dict_keys (fs_runs w)"
    by (simp only: dict_keys_set if_True)
  have get: "dict_get (dict_set k' (persisted_run new) (fs_runs w)) j
      = (if j = k' then Some (persisted_run new) else dict_get (fs_runs w) j)" for j by (rule dict_get_set)
  have new: "fs_runs (snd (put_run k' new w)) = dict_set k' (persisted_run new) (fs_runs w)" by (simp add: put_run_def)
  from w assms(2,3) show "kept K S k (snd (put_run k' new w))"
    unfolding kept_def new keys get by (auto simp del: split_paired_All)
qed

lemma kept_key: "kept K S k w \<Longrightarrow> dict_get (fs_runs w) k' = Some r \<Longrightarrow> k' \<in> set K"
  unfolding kept_def by (metis dict_get_None_iff option.distinct(1))

lemma kept_find:
  assumes "kept K S k w" and "find_run rid w = Some (k', r)"
  shows "dict_get (fs_runs w) k' = Some r" and "snd k' = rid" and "tr_run_id r = rid" and "k' = k \<Longrightarrow> tr_status r \<in> S"
proof -
  have ok: "dict_ok (fs_runs w)" using assms(1) by (simp add: kept_def)
  show g: "dict_get (fs_runs w) k' = Some r" and s: "snd k' = rid" by (rule find_run_Some [OF assms(2) ok])+
  show "tr_run_id r = rid" and "k' = k \<Longrightarrow> tr_status r \<in> S"
    using assms(1) g s unfolding kept_def by (metis, metis option.inject)
qed

lemma kept_simple [preserves_intros]:
  "preserves (kept K S k) now_ms" "preserves (kept K S k) uuid4_hex" "preserves (kept K S k) (publish e)"
  "preserves (kept K S k) (read_run_by_id rid)" "preserves (kept K S k) (get_batch b)"
  "preserves (kept K S k) (put_result sha rt run res)" "preserves (kept K S k) (read_result sha rt run)"
  "preserves (kept K S k) (list_batch_runs b)" "preserves (kept K S k) (or_now v)"
  "preserves (kept K S k) (transition_run st p run)" "preserves (kept K S k) (transition_batch bs batch)"
  "preserves (kept K S k) (sweep_stale ts)"
  by (auto simp: preserves_def read_run_by_id_def get_batch_def put_result_def read_result_def list_batch_runs_def
      or_now_def transition_run_eq transition_batch_eq sweep_stale_def split: option.splits sum.splits prod.splits)

lemma kept_reads [preserves_intros]:
  "preserves (kept K S k) (get_run rid)" "preserves (kept K S k) (get_task_detail sha rt rid view)"
  "preserves (kept K S k) (update_batch batch)"
  unfolding get_run_def get_task_detail_def update_batch_def Let_def by (intro preserves_intros; simp)+

text \<open>An operation that replaces the run it finds.\<close>

lemma kept_rewrite:
  assumes "\<And>r k'. k' \<in> set K \<Longrightarrow> snd k' = rid \<Longrightarrow> tr_run_id r = rid \<Longrightarrow> (k' = k \<Longrightarrow> tr_status r \<in> S)
      \<Longrightarrow> preserves (kept K S k) (f (r, k'))"
  shows "preserves (kept K S k) (bindE (read_run_by_id rid) f)"
proof (rule preservesI)
  fix w :: "'a fs_world_scheme" assume w: "kept K S k w"
  show "kept K S k (snd (bindE (read_run_by_id rid) f w))"
  proof (cases "find_run rid w")
    case (Some p)
    obtain k' r where p: "p = (k', r)" by (cases p)
    have f: "find_run rid w = Some (k', r)" using Some p by simp
    note kf = kept_find [OF w f]
    have "k' \<in> set K" by (rule kept_key [OF w kf(1)])
    from preserves_apply [OF assms [OF this kf(2,3,4)] w] f show ?thesis by (simp add: bindE_read_run)
  qed (use w in \<open>simp add: bindE_read_run\<close>)
qed

lemma kept_transition:
  assumes "preserves (kept K S k) (f (run\<lparr>tr_status := s\<rparr>))"
  shows "preserves (kept K S k) (bindE (transition_run s p run) f)"
  using assms by (auto simp: preserves_def bindE_transition_run)

lemma kept_updates:
  assumes "closing S"
  shows "preserves (kept K S k) (claim_run rid wk)"
    and "is_terminal_run_status (tr_status run) \<Longrightarrow> preserves (kept K S k) (update_run run)"
    and "is_terminal_run_status (res_status result) \<Longrightarrow> preserves (kept K S k) (write_result sha rt rid result tok)"
    and "is_terminal_run_status (res_status result) \<Longrightarrow> preserves (kept K S k) (fail_stale_run sha rt rid result wk)"
  using assms unfolding claim_run_def update_run_def write_result_def fail_stale_run_def Let_def closing_def
  by (auto intro!: kept_rewrite kept_transition kept_put_run preserves_intros)

lemma kept_touch:
  assumes "\<And>c. tr_status (f c) = tr_status c" and "\<And>c. tr_run_id (f c) = tr_run_id c"
  shows "preserves (kept K S k) (bindE (get_run rid) (\<lambda>current. update_run (f current)))"
proof (rule preservesI)
  fix w :: "'a fs_world_scheme" assume w: "kept K S k w"
  show "kept K S k (snd (bindE (get_run rid) (\<lambda>current. update_run (f current)) w))"
  proof (cases "find_run rid w")
    case (Some p)
    obtain k' r where p: "p = (k', r)" by (cases p)
    have f: "find_run rid w = Some (k', r)" using Some p by simp
    note kf = kept_find [OF w f]
    have "k' \<in> set K" by (rule kept_key [OF w kf(1)])
    have "kept K S k (snd (put_run k' (f r) w))"
      by (rule preserves_apply [OF kept_put_run w]) (use \<open>k' \<in> set K\<close> kf(2,3,4) assms in simp_all)
    with w f kf(3) assms show ?thesis
      by (simp add: get_run_def bindE_read_run update_run_def)
  qed (use w in \<open>simp add: get_run_def bindE_read_run\<close>)
qed

lemma kept_stranded:
  assumes "\<And>r. res_status r = BLOCKED \<Longrightarrow> res_output r = [] \<Longrightarrow> preserves (kept K S k) (f r)"
  shows "preserves (kept K S k) (bindE (stranded_result run) f)"
  using assms by (auto simp: preserves_def stranded_result_def bindE_def now_ms_def bare_result_def Let_def)

lemma blocked_terminal [simp]: "is_terminal_run_status BLOCKED"
  by (simp add: run_tables)

lemma kept_persist:
  assumes "closing S" and "is_terminal_run_status (res_status result)"
  shows "preserves (kept K S k) (persist_stranded_result (file_run_store sha rt) run result)"
  using assms
  by (auto simp: persist_stranded_result_def claim_and_write_def reread_run_def force_update_stranded_run_def Let_def
      intro!: preserves_intros kept_updates)

lemma kept_results: "preserves (kept K S k) (batch_results (file_run_store sha rt) runs)"
  by (auto simp: batch_results_def batch_result_of_def terminal_result_from_run_def Let_def
      intro!: preserves_intros split: option.splits)

lemma kept_release:
  assumes "en_store env = file_run_store sha rt" and "manager_keeps (stale_run_sandbox_manager env mgr run) (kept K S k)"
  shows "preserves (kept K S k) (release_stale env mgr run)"
proof -
  have touch: "preserves (kept K S k) (suppressE (bindE (get_run rid) (\<lambda>current.
      update_run (current\<lparr>tr_sandbox_released := b, tr_lease_outcome := out\<rparr>))))" for rid b out
    by (intro preserves_suppressE kept_touch) simp_all
  show ?thesis
    unfolding release_stale_def assms(1) file_run_store_ops Let_def
    by (rule touch preserves_intros manager_keepsD(4) [OF assms(2)])+
qed

text \<open>The services of the reconciler keep a property of the world.\<close>

definition services_keep :: "'w reconciler \<Rightarrow> ('w \<Rightarrow> bool) \<Rightarrow> bool" where
  "services_keep rv W \<longleftrightarrow>
     (\<forall>c run res b out. preserves W (rv_mark_run_terminal rv c run res b out))
     \<and> (\<forall>c batch runs. preserves W (rv_publish_parent_batch_progress rv c batch runs))
     \<and> (\<forall>c batch runs results. preserves W (rv_sync_batch_projection rv c batch runs results))
     \<and> (\<forall>owner batch res t. preserves W (rv_create_message rv owner batch res t))
     \<and> (\<forall>lm. rv_manager rv = Some lm \<longrightarrow> manager_keeps lm W) \<and> (\<forall>i. manager_keeps (en_default_manager (rv_env rv) i) W)"

lemma services_keepD:
  assumes "services_keep rv W"
  shows "preserves W (rv_mark_run_terminal rv c run res b out)"
    and "preserves W (rv_publish_parent_batch_progress rv c batch runs)"
    and "preserves W (rv_sync_batch_projection rv c batch runs results)"
    and "preserves W (rv_create_message rv owner batch bres t)"
    and "manager_keeps (stale_run_sandbox_manager (rv_env rv) (rv_manager rv) run) W"
  using assms by (auto simp: services_keep_def stale_run_sandbox_manager_def split: option.splits)

lemma reconcile_parts_keep:
  assumes st: "rv_store rv = file_run_store sha rt" and sv: "services_keep rv (kept K S k)" and cl: "closing S"
  shows "preserves (kept K S k) (reconcile_run rv stale affected)"
    and "preserves (kept K S k) (finalize_stale_batch rv ctx b t)"
proof -
  note sk = services_keepD [OF sv] and rel = kept_release [OF st services_keepD(5) [OF sv]]
  have per: "preserves (kept K S k) (persist_stranded_result (file_run_store sha rt) run result)" if "res_status result = BLOCKED" for run result
    using that by (intro kept_persist [OF cl]) simp
  show "preserves (kept K S k) (reconcile_run rv stale affected)"
    unfolding reconcile_run_def st file_run_store_ops Let_def
    by (intro preserves_intros rel kept_stranded per) (assumption | simp)+
  have run: "preserves (kept K S k) (finalize_stale_run rv c t run)" for c run
    unfolding finalize_stale_run_def st file_run_store_ops Let_def
    by (intro preserves_intros rel kept_stranded per sk) (assumption | simp)+
  have msg: "preserves (kept K S k) (persist_recovered_parent_message rv batch res runs)" for batch res runs
    by (simp add: persist_recovered_parent_message_def RECONCILER_RECOVERY_MESSAGE_ENABLED_def)
  have proj: "preserves (kept K S k) (reconcile_recovered_projection rv c batch runs results)" for c batch runs results
    unfolding reconcile_recovered_projection_def by (intro preserves_intros sk)
  show "preserves (kept K S k) (finalize_stale_batch rv ctx b t)"
    unfolding finalize_stale_batch_def publish_recovered_terminal_batch_def st file_run_store_ops Let_def
    by (intro preserves_intros run msg proj sk kept_results)
qed

subsection \<open>Every swept run is settled\<close>

lemma release_answers:
  assumes "en_store env = file_run_store sha rt" and "\<And>l out. mild (lm_release (stale_run_sandbox_manager env mgr run) l out)"
  shows "\<exists>b w'. release_stale env mgr run w = (Inr b, w')"
proof (cases "tr_sandbox run")
  case (Some l)
  let ?out = "str_or (tr_lease_outcome run) ''dirty''"
  let ?given = "catch_Exception (thenE (lm_release (stale_run_sandbox_manager env mgr run) l ?out) (retE True)) (\<lambda>_. retE False)"
  have "mild (thenE (lm_release (stale_run_sandbox_manager env mgr run) l ?out) (retE True))" by (intro mild_rules assms(2))
  from catch_answers [OF this, of "\<lambda>_. retE False" w] obtain b w1 where b: "?given w = (Inr b, w1)" by auto
  have "mild (bindE (get_run rid) (\<lambda>current. update_run (f current)))" for rid f by (intro mild_bindE mild_store)
  from suppress_answers [OF this, of "tr_run_id run" "\<lambda>c. c\<lparr>tr_sandbox_released := b, tr_lease_outcome := ?out\<rparr>" w1]
  obtain w2 where "suppressE (bindE (get_run (tr_run_id run)) (\<lambda>c. update_run (c\<lparr>tr_sandbox_released := b, tr_lease_outcome := ?out\<rparr>))) w1
    = (Inr (), w2)" by blast
  with b assms(1) Some show ?thesis by (simp add: release_stale_def Let_def)
qed (auto simp: release_stale_def)

lemma reconcile_run_answers:
  assumes "rv_store rv = file_run_store sha rt"
    and "\<And>run l out. mild (lm_release (stale_run_sandbox_manager (rv_env rv) (rv_manager rv) run) l out)"
  shows "\<exists>a w'. reconcile_run rv stale affected w = (Inr a, w')"
proof -
  have str: "\<exists>r v. stranded_result run w = (Inr r, v) \<and> res_output r = []" for run and w :: "'a fs_world_scheme"
    by (simp add: stranded_result_def Let_def bare_result_def)
  have ended: "\<exists>v. bindE (stranded_result run) (\<lambda>result.
      suppressE (thenE (persist_stranded_result (file_run_store sha rt) run result) (retE ()))) w = (Inr (), v)"
    for run and w :: "'a fs_world_scheme"
  proof -
    obtain r v where r: "stranded_result run w = (Inr r, v)" "res_output r = []" using str by blast
    have "mild (thenE (persist_stranded_result (file_run_store sha rt) run r) (retE ()))" by (intro mild_rules mild_persist r)
    from suppress_answers [OF this, of v] r(1) show ?thesis by simp
  qed
  have found: "\<exists>q. catch_Exception (bindE (get_run (st_run_id stale)) (\<lambda>run. retE (Some run))) (\<lambda>_. retE None) w = (Inr q, w)"
    by (cases "find_run (st_run_id stale) w")
      (auto simp: get_run_def bindE_def read_run_by_id_def catch_Exception_def catchE_def is_Exception_def split: prod.splits)
  then obtain q where q: "catch_Exception (bindE (get_run (st_run_id stale)) (\<lambda>run. retE (Some run))) (\<lambda>_. retE None) w = (Inr q, w)" ..
  show ?thesis
  proof (cases q)
    case None
    with q assms(1) show ?thesis by (simp add: reconcile_run_def Let_def)
  next
    case (Some run)
    obtain b w1 where b: "release_stale (rv_env rv) (rv_manager rv) run w = (Inr b, w1)"
      using release_answers [OF assms(1) assms(2)] by blast
    from ended [of "released_copy b run" w1] b q Some assms(1) show ?thesis
      by (auto simp: reconcile_run_def Let_def)
  qed
qed

subsection \<open>A swept run is settled\<close>

lemma find_same_keys:
  "map fst d = map fst d' \<Longrightarrow> find (\<lambda>((_, i), _). i = rid) d = Some (k, x) \<Longrightarrow> \<exists>x'. find (\<lambda>((_, i), _). i = rid) d' = Some (k, x')"
  by (induction d d' rule: list_induct2') (auto split: prod.splits if_splits)

lemma kept_find_run:
  assumes "kept K S k w" and "find_run rid w0 = Some (k, r0)" and "dict_keys (fs_runs w0) = K"
  shows "\<exists>r. find_run rid w = Some (k, r) \<and> tr_status r \<in> S"
proof -
  have "map fst (fs_runs w0) = map fst (fs_runs w)" using assms(1,3) by (simp add: kept_def)
  from find_same_keys [OF this] assms(2) obtain r where "find_run rid w = Some (k, r)" unfolding find_run_def by blast
  with kept_find(4) [OF assms(1) this] show ?thesis by blast
qed

lemma reread_keeps: "snd (reread_run (file_run_store sha rt) run result w) = w"
  by (auto simp: reread_run_def get_run_def bindE_def read_run_by_id_def catch_Exception_def catchE_def is_Exception_def
      split: option.splits prod.splits sum.splits)

lemma persist_running:
  assumes ok: "dict_ok (fs_runs w)" and f: "find_run (tr_run_id run) w = Some (k, r)" and run: "tr_status run = RUNNING"
    and r: "tr_status r \<noteq> QUEUED" and res: "res_status result = BLOCKED" "res_output result = []"
  shows "\<exists>r'. find_run (tr_run_id run) (snd (persist_stranded_result (file_run_store sha rt) run result w)) = Some (k, r')
    \<and> is_terminal_run_status (tr_status r')"
proof -
  have t: "is_terminal_run_status (res_status result)" using res by simp
  let ?tok = "\<lparr>ft_run_id = tr_run_id run, ft_token = tr_fencing_token run,
     ft_issued_at = int_or (tr_started_at run) (tr_queued_at run), ft_expires_at = None\<rparr>"
  have final: "tr_status r = RUNNING \<or> is_terminal_run_status (tr_status r)"
    using r by (cases "tr_status r") (simp_all add: run_tables)
  have snd_then: "snd (thenE m (reread_run (file_run_store sha rt) run result) w) = w1" if "m w = (Inr (), w1)" for m w1
    using that reread_keeps by simp
  show ?thesis
  proof (cases "tr_fencing_token run = []")
    case True
    have "\<exists>w1 r'. fail_stale_run sha rt (tr_run_id run) result ''task-manager-finalizer'' w = (Inr (), w1)
        \<and> find_run (tr_run_id run) w1 = Some (k, r') \<and> is_terminal_run_status (tr_status r')"
      using final
    proof
      assume "tr_status r = RUNNING"
      from fail_stale_run_settles [OF ok f this t res(2)] show ?thesis by (fastforce simp: settled_def)
    next
      assume "is_terminal_run_status (tr_status r)"
      with f show ?thesis by (auto simp: fail_stale_run_def bindE_read_run run_tables)
    qed
    with True run snd_then show ?thesis by (force simp: persist_stranded_result_def Let_def)
  next
    case False
    let ?wrote = "catch_class StaleWorkerError (write_result sha rt (tr_run_id run) result ?tok)
        (\<lambda>_. force_update_stranded_run (file_run_store sha rt) run result)"
    have "\<exists>w1 r'. ?wrote w = (Inr (), w1) \<and> find_run (tr_run_id run) w1 = Some (k, r') \<and> is_terminal_run_status (tr_status r')"
    proof (cases "tr_status r = RUNNING \<and> tr_fencing_token r = tr_fencing_token run")
      case True
      then have "tr_status r = RUNNING" "tr_fencing_token r = ft_token ?tok" by simp_all
      from write_result_settles [OF ok f this t res(2), of sha rt] obtain w1 where
        "write_result sha rt (tr_run_id run) result ?tok w = (Inr (), w1)" "settled (tr_run_id run) k (res_status result) w1" by blast
      then show ?thesis by (auto simp: settled_def catch_class_def)
    next
      case False
      then have stale: "write_result sha rt (tr_run_id run) result ?tok w
          = (Inl (Exn StaleWorkerError (''stale worker token for run '' @ tr_run_id r)), w)"
        using f by (auto simp: write_result_def bindE_read_run ensure_current_token_def)
      let ?new = "run\<lparr>tr_status := BLOCKED, tr_ended_at := res_ended_at result,
        tr_last_error_class := res_error_class result, tr_last_error := res_error_message result\<rparr>"
      show ?thesis
      proof (cases "tr_status r \<in> set TERMINAL_STATUSES \<and> tr_status r \<noteq> BLOCKED")
        case True
        with stale f res final show ?thesis
          by (auto simp: catch_class_def force_update_stranded_run_def update_run_def bindE_read_run run_tables TERMINAL_STATUSES_def)
      next
        case False
        then have "?wrote w = (Inr (), w\<lparr>fs_runs := dict_set k (persisted_run ?new) (fs_runs w)\<rparr>)"
          using stale f res
          by (auto simp: catch_class_def force_update_stranded_run_def update_run_def bindE_read_run put_run_def)
        moreover have "find_run (tr_run_id run) (w\<lparr>fs_runs := dict_set k (persisted_run ?new) (fs_runs w)\<rparr>) = Some (k, persisted_run ?new)"
          by (rule find_run_update [OF f ok]) simp
        ultimately show ?thesis by auto
      qed
    qed
    with False run snd_then show ?thesis by (force simp: persist_stranded_result_def Let_def)
  qed
qed

lemma persist_ends:
  assumes w: "kept K (- {QUEUED}) k w" and f: "find_run (tr_run_id run) w = Some (k, r)" and run: "tr_status run = RUNNING"
    and res: "res_status result = BLOCKED" "res_output result = []"
  shows "kept K {s. is_terminal_run_status s} k (snd (persist_stranded_result (file_run_store sha rt) run result w))" (is "kept K _ k ?w'")
proof -
  have ok: "dict_ok (fs_runs w)" using w by (simp add: kept_def)
  have keep: "kept K (- {QUEUED}) k ?w'"
    using preserves_apply [OF kept_persist [OF closing_sets(2)] w] res by simp
  obtain r' where r': "find_run (tr_run_id run) ?w' = Some (k, r')" "is_terminal_run_status (tr_status r')"
    using persist_running [OF ok f run _ res] kept_find(4) [OF w f] by auto
  with keep kept_find(1) [OF keep r'(1)] show ?thesis unfolding kept_def by blast
qed

lemma reconcile_run_ends:
  assumes st: "rv_store rv = file_run_store sha rt" and sv: "\<And>S. services_keep rv (kept K S k)"
    and mi: "\<And>run l out. mild (lm_release (stale_run_sandbox_manager (rv_env rv) (rv_manager rv) run) l out)"
    and w: "kept K (- {QUEUED}) k w" and f: "find_run (st_run_id stale) w = Some (k, r)" and ne: "st_run_id stale \<noteq> []"
  shows "kept K {s. is_terminal_run_status s} k (snd (reconcile_run rv stale affected w))"
proof (cases "tr_status r = RUNNING")
  case False
  have "is_terminal_run_status (tr_status r)"
    using False kept_find(4) [OF w f] by (cases "tr_status r") (simp_all add: run_tables)
  with w kept_find(1) [OF w f] have "kept K {s. is_terminal_run_status s} k w" unfolding kept_def by blast
  from preserves_apply [OF reconcile_parts_keep(1) [OF st sv closing_sets(1)] this] show ?thesis .
next
  case True
  have rid: "tr_run_id r = st_run_id stale" by (rule kept_find(3) [OF w f])
  obtain b w1 where b: "release_stale (rv_env rv) (rv_manager rv) r w = (Inr b, w1)"
    using release_answers [OF st mi] by blast
  have w1: "kept K (- {QUEUED}) k w1"
    by (rule preservesD [OF kept_release [OF st services_keepD(5) [OF sv]] w b])
  let ?run = "released_copy b r"
  have run: "tr_status ?run = RUNNING" "tr_run_id ?run = st_run_id stale" using True rid by (simp_all add: released_copy_def)
  obtain res w2 where res: "stranded_result ?run w1 = (Inr res, w2)" "res_status res = BLOCKED" "res_output res = []" "kept K (- {QUEUED}) k w2"
    using w1 by (simp add: stranded_result_def Let_def bare_result_def)
  obtain r2 where f2: "find_run (tr_run_id ?run) w2 = Some (k, r2)"
    using kept_find_run [OF res(4) f] w run(2) by (auto simp: kept_def)
  note ends = persist_ends [OF res(4) f2 run(1) res(2,3), of sha rt]
  obtain u w3 where u: "persist_stranded_result (file_run_store sha rt) ?run res w2 = (u, w3)"
    by (cases "persist_stranded_result (file_run_store sha rt) ?run res w2")
  have "mild (thenE (persist_stranded_result (file_run_store sha rt) ?run res) (retE ()))" by (intro mild_rules mild_persist res)
  moreover have "snd (suppressE (thenE (persist_stranded_result (file_run_store sha rt) ?run res) (retE ())) w2) = w3"
    using u by (cases u) (auto simp: suppressE_def catch_Exception_def)
  ultimately have "suppressE (thenE (persist_stranded_result (file_run_store sha rt) ?run res) (retE ())) w2 = (Inr (), w3)"
    using suppress_answers by (metis snd_conv)
  with b res(1) f ne True st have "snd (reconcile_run rv stale affected w) = w3"
    by (simp add: reconcile_run_def Let_def get_run_def bindE_read_run catch_Exception_def)
  with ends u show ?thesis by simp
qed

lemma reconcile_fold_ends:
  assumes st: "rv_store rv = file_run_store sha rt" and sv: "\<And>S. services_keep rv (kept K S k)"
    and mi: "\<And>run l out. mild (lm_release (stale_run_sandbox_manager (rv_env rv) (rv_manager rv) run) l out)"
    and f0: "find_run (st_run_id stale) w0 = Some (k, r0)" "dict_keys (fs_runs w0) = K" and ne: "st_run_id stale \<noteq> []"
    and w: "kept K (- {QUEUED}) k w" and mem: "stale \<in> set stales"
  shows "\<exists>a w'. foldE (reconcile_run rv) stales affected w = (Inr a, w') \<and> kept K {s. is_terminal_run_status s} k w'"
  using w mem
proof (induction stales arbitrary: affected w)
  case (Cons x xs)
  obtain a w1 where a: "reconcile_run rv x affected w = (Inr a, w1)" using reconcile_run_answers [OF st mi] by blast
  have rest: "\<exists>a w'. foldE (reconcile_run rv) ys b w = (Inr a, w') \<and> kept K {s. is_terminal_run_status s} k w'"
    if "kept K {s. is_terminal_run_status s} k w" for ys b w
    using that
  proof (induction ys arbitrary: b w)
    case (Cons y ys)
    obtain c v where c: "reconcile_run rv y b w = (Inr c, v)" using reconcile_run_answers [OF st mi] by blast
    with preservesD [OF reconcile_parts_keep(1) [OF st sv closing_sets(1)] Cons.prems c] Cons.IH [of v c] show ?case by simp
  qed simp
  show ?case
  proof (cases "x = stale")
    case True
    obtain r where "find_run (st_run_id stale) w = Some (k, r)" using kept_find_run [OF Cons.prems(1) f0] by blast
    from reconcile_run_ends [OF st sv mi Cons.prems(1) this ne, of affected] a True
    have "kept K {s. is_terminal_run_status s} k w1" by simp
    from rest [OF this] a show ?thesis by simp
  next
    case False
    have "kept K (- {QUEUED}) k w1" by (rule preservesD [OF reconcile_parts_keep(1) [OF st sv closing_sets(2)] Cons.prems(1) a])
    from Cons.IH [OF this] False Cons.prems(2) a show ?thesis by simp
  qed
qed simp

text \<open>
  C10. Crash recovery settles what it sweeps. With the filesystem store, reconciliation enabled and a
  positive staleness threshold, every run that is running with a heartbeat older than the threshold
  has a terminal status when \<^verbatim>\<open>reconcile\<close> is done, whatever sandbox releases fail, however many other runs and
  batches are recovered before and after it, and whether or not finalising its batch raises.
\<close>

theorem reconcile_settles_stale:
  assumes "rv_store rv = file_run_store sha rt" and "should_reconcile rv" and "0 < stale_run_after_ms (en_environ (rv_env rv))"
    and "\<And>S. services_keep rv (kept (dict_keys (fs_runs w)) S k)"
    and "\<And>run l out. mild (lm_release (stale_run_sandbox_manager (rv_env rv) (rv_manager rv) run) l out)"
    and "dict_ok (fs_runs w)" and "\<And>k r. dict_get (fs_runs w) k = Some r \<Longrightarrow> tr_run_id r = snd k"
    and "find_run (tr_run_id r) w = Some (k, r)" and "tr_run_id r \<noteq> []" and "tr_status r = RUNNING"
    and "run_heartbeat_at r < w_clock w (w_tick w) - stale_run_after_ms (en_environ (rv_env rv))"
  shows "\<exists>r'. dict_get (fs_runs (snd (reconcile rv ctx w))) k = Some r' \<and> is_terminal_run_status (tr_status r')"
proof -
  let ?K = "dict_keys (fs_runs w)" and ?w1 = "w\<lparr>w_tick := Suc (w_tick w)\<rparr>"
  let ?before = "w_clock w (w_tick w) - stale_run_after_ms (en_environ (rv_env rv))"
  let ?stale = "\<lparr>st_run_id = tr_run_id r, st_batch_id = tr_batch_id r, st_status = tr_status r,
     st_worker_id = tr_worker_id r, st_heartbeat_at = Some (run_heartbeat_at r)\<rparr>"
  have g: "dict_get (fs_runs w) k = Some r" by (rule find_run_Some [OF assms(8,6)])
  have kept1: "kept ?K (- {QUEUED}) k ?w1" using assms(6,7,10) g by (simp add: kept_def)
  obtain stales where sweep: "sweep_stale ?before ?w1 = (Inr stales, ?w1)" and mem: "?stale \<in> set stales"
  proof -
    have "r \<in> set (dict_values (fs_runs w))" using map_of_SomeD [OF g] by force
    then show ?thesis using that assms(10,11) by (simp add: sweep_stale_def)
  qed
  have f0: "find_run (st_run_id ?stale) w = Some (k, r)" "st_run_id ?stale \<noteq> []" using assms(8,9) by simp_all
  from reconcile_fold_ends [where affected = "[]", OF assms(1,4,5) f0(1) refl f0(2) kept1 mem]
  obtain aff w2 where fold: "foldE (reconcile_run rv) stales [] ?w1 = (Inr aff, w2)" "kept ?K {s. is_terminal_run_status s} k w2"
    by auto
  have "preserves (kept ?K {s. is_terminal_run_status s} k) (reconcile_batches rv ctx ?before aff)"
    unfolding reconcile_batches_def by (intro preserves_intros reconcile_parts_keep(2) [OF assms(1,4) closing_sets(1)])
  from preserves_apply [OF this fold(2)]
  have "kept ?K {s. is_terminal_run_status s} k (snd (reconcile_batches rv ctx ?before aff w2))" .
  moreover have "reconcile rv ctx w = reconcile_batches rv ctx ?before aff w2"
    using assms(1,2,3) sweep fold(1) by (simp add: reconcile_def Let_def catch_Exception_def now_ms_def)
  ultimately show ?thesis by (auto simp: kept_def)
qed

definition sample_reconciler :: "'w run_store \<Rightarrow> 'w lease_manager \<Rightarrow> 'w reconciler" where
  "sample_reconciler st lm =
     \<lparr>rv_env = sample_env st lm, rv_manager = None, rv_store_is_db = True, rv_batch_dir = Inr, rv_workspace_path = (\<lambda>_ _ _. []),
      rv_mark_run_terminal = (\<lambda>_ _ _ _ _. retE ()), rv_publish_parent_batch_progress = (\<lambda>_ _ _. retE ()),
      rv_sync_batch_projection = (\<lambda>_ _ _ _. retE ()), rv_create_message = (\<lambda>_ _ _ _. retE ())\<rparr>"

lemma kept_leases [simp]: "kept K S k (w\<lparr>lw_leases := m\<rparr>) = kept K S k w"
  by (simp add: kept_def)

lemma memory_release_mild: "mild (lm_release memory_lease_manager l out)"
  by (auto simp: mild_def memory_lease_manager_def mem_release_def mem_semaphore_def set_permits_def bindE_def thenE_def
      is_Exception_def Let_def split: option.splits if_splits prod.splits sum.splits)

theorem reconcile_settles_stale_witness:
  "\<exists>r'. dict_get (fs_runs (snd (reconcile (sample_reconciler (file_run_store (\<lambda>_. []) []) memory_lease_manager) None
       (sample_lease_world [sample_run ''r'' RUNNING\<lparr>tr_heartbeat_at := Some (- 200000)\<rparr>] [])))) (''b'', ''r'') = Some r'
     \<and> is_terminal_run_status (tr_status r')"
proof -
  let ?r = "sample_run ''r'' RUNNING\<lparr>tr_heartbeat_at := Some (- 200000)\<rparr>"
  let ?w = "sample_lease_world [?r] []"
  let ?rv = "sample_reconciler (file_run_store (\<lambda>_. []) []) memory_lease_manager :: lease_world reconciler"
  have w: "dict_ok (fs_runs ?w)" "find_run (tr_run_id ?r) ?w = Some ((''b'', ''r''), ?r)" "tr_run_id ?r \<noteq> []" "tr_status ?r = RUNNING"
    by (simp_all add: sample_store_def sample_run_def run_key_of_def find_run_def dict_ok_def)
  have ids: "tr_run_id r = snd k" if "dict_get (fs_runs ?w) k = Some r" for k r
    using that by (auto simp: sample_store_def sample_run_def run_key_of_def split: if_splits)
  have "stale_run_after_ms (\<lambda>_. None) = 180000" by (simp add: stale_run_after_ms_def resolve_clamped_default)
  moreover have "py_lower (py_strip []) = []" by code_simp
  ultimately have cfg: "should_reconcile ?rv" "stale_run_after_ms (en_environ (rv_env ?rv)) = 180000"
    by (simp_all add: should_reconcile_def sample_reconciler_def sample_env_def getenv_def)
  have sv: "services_keep ?rv (kept K S k)" for K S k
    by (simp add: services_keep_def sample_reconciler_def memory_manager_keeps)
  have mi: "mild (lm_release (stale_run_sandbox_manager (rv_env ?rv) (rv_manager ?rv) run) l out)" for run l out
    by (simp add: sample_reconciler_def stale_run_sandbox_manager_def memory_release_mild)
  have hb: "run_heartbeat_at ?r < w_clock ?w (w_tick ?w) - stale_run_after_ms (en_environ (rv_env ?rv))"
    unfolding cfg(2) by (simp add: run_heartbeat_at_def int_or_def sample_lease_world_def fs_world.defs lease_world.defs sample_store_def)
  have st: "rv_store ?rv = file_run_store (\<lambda>_. []) []" by (simp add: sample_reconciler_def)
  from reconcile_settles_stale [OF st cfg(1) _ sv mi w(1) ids w(2-4) hb] show ?thesis unfolding cfg(2) by simp
qed

end
