(* ===== verification/Batch_Files.thy ===== *)
theory Batch_Files
  imports Result_Persistence
begin

section \<open>Batch files and the cancellation of a batch\<close>

text \<open>
  What the operations of the filesystem store (\<open>File_Store\<close>) do to the batch files: a stored batch stays
  stored, a settled one keeps its status, and \<^verbatim>\<open>cancel_batch\<close> settles the batch and every run of it.
\<close>

subsection \<open>The batch file under the operations of the store\<close>

text \<open>
  \<open>batch_at T bid\<close>: the batch is stored under its identifier, and unless \<open>T\<close> is the universe it has
  settled in a status of \<open>T\<close>. Every operation of the filesystem store keeps it.
\<close>

definition batch_at :: "batch_status set \<Rightarrow> string \<Rightarrow> 'z fs_world_scheme \<Rightarrow> bool" where
  "batch_at T bid w \<longleftrightarrow>
     (\<exists>b. dict_get (fs_batches w) bid = Some b \<and> br_batch_id b = bid
        \<and> (T = UNIV \<or> br_status b \<in> T \<and> is_terminal_batch_status (br_status b)))"

abbreviation on_batches :: "((string, batch_record) dict \<Rightarrow> bool) \<Rightarrow> 'z fs_world_scheme \<Rightarrow> bool" where
  "on_batches Q w \<equiv> Q (fs_batches w)"

lemma batches_world_ops:
  "preserves (on_batches Q) now_ms" "preserves (on_batches Q) uuid4_hex" "preserves (on_batches Q) (publish e)"
  "preserves (on_batches Q) (or_now v)" "preserves (on_batches Q) (transition_run s p run)"
  "preserves (on_batches Q) (transition_batch bs batch)"
  by (auto simp: preserves_def or_now_def transition_run_eq transition_batch_eq split: option.splits)

lemma batches_read_ops:
  "preserves (on_batches Q) (get_batch b)" "preserves (on_batches Q) (lookup_idempotent key)"
  "preserves (on_batches Q) (list_batch_runs b)" "preserves (on_batches Q) (list_batches_by_turn c t a)"
  "preserves (on_batches Q) (sweep_stale ts)" "preserves (on_batches Q) (read_run_by_id rid)"
  "preserves (on_batches Q) (read_result sha rt run)"
  by (auto simp: preserves_def get_batch_def lookup_idempotent_def list_batch_runs_def list_batches_by_turn_def
      sweep_stale_def read_run_by_id_def read_result_def split: option.splits sum.splits)

lemma batches_put_ops: "preserves (on_batches Q) (put_run k run)" "preserves (on_batches Q) (put_result sha rt run r)"
  by (auto simp: preserves_def put_run_def put_result_def split: sum.splits)

lemmas batches_ops = preserves_intros batches_world_ops batches_read_ops batches_put_ops

lemma batches_run_ops:
  "preserves (on_batches Q) (create_run run)" "preserves (on_batches Q) (update_run run)"
  "preserves (on_batches Q) (reopen_run_for_retry run n)" "preserves (on_batches Q) (claim_run rid wk)"
  "preserves (on_batches Q) (set_progress rid msg ts)" "preserves (on_batches Q) (write_result sha rt rid r tok)"
  "preserves (on_batches Q) (fail_stale_run sha rt rid r wk)" "preserves (on_batches Q) (cancel_run rid reason)"
  "preserves (on_batches Q) (get_run rid)" "preserves (on_batches Q) (get_task_detail sha rt rid v)"
  unfolding create_run_def update_run_def reopen_run_for_retry_def claim_run_def set_progress_def write_result_def
    fail_stale_run_def cancel_run_def get_run_def get_task_detail_def Let_def
  by (intro batches_ops; simp)+

lemma batches_heartbeat: "preserves (on_batches Q) (heartbeat_batch b)"
  unfolding heartbeat_batch_def by (intro batches_ops batches_run_ops)

lemma batch_at_alt: "batch_at T bid = on_batches (\<lambda>B. \<exists>b. dict_get B bid = Some b \<and> br_batch_id b = bid
     \<and> (T = UNIV \<or> br_status b \<in> T \<and> is_terminal_batch_status (br_status b)))"
  by (simp add: batch_at_def fun_eq_iff)

lemma terminal_batch_iff: "s \<in> set TERMINAL_BATCH_STATUSES \<longleftrightarrow> is_terminal_batch_status s"
  by (simp add: is_terminal_batch_status_def)

lemma batch_at_create: "preserves (batch_at T bid) (create_batch b)"
proof (rule preservesI)
  fix w :: "'z fs_world_scheme" assume w: "batch_at T bid w"
  show "on_snd (batch_at T bid) (create_batch b w)"
  proof (cases "dict_get (fs_batches w) (br_batch_id b)")
    case None
    with w have "bid \<noteq> br_batch_id b" by (auto simp: batch_at_def)
    with None w show ?thesis
      by (simp add: create_batch_def dict_get_None_iff batch_at_def dict_get_set)
  next
    case (Some b0)
    then have "br_batch_id b \<in> set (dict_keys (fs_batches w))" by (metis dict_get_None_iff option.distinct(1))
    with Some w show ?thesis by (simp add: create_batch_def get_batch_def)
  qed
qed

lemma batch_at_update: "preserves (batch_at T bid) (update_batch b)"
  by (rule preservesI) (auto simp: batch_at_def update_batch_def get_batch_def terminal_batch_iff dict_get_set bindE_def Let_def
      now_ms_def split: option.splits)

lemma batch_at_cancel: "preserves (batch_at T bid) (cancel_batch b reason)"
  unfolding cancel_batch_def
  by (intro preserves_intros batch_at_update; unfold batch_at_alt; intro batches_ops batches_run_ops)

lemma batch_at_ops:
  "preserves (batch_at T bid) now_ms" "preserves (batch_at T bid) uuid4_hex" "preserves (batch_at T bid) (publish e)"
  "preserves (batch_at T bid) (get_batch b)" "preserves (batch_at T bid) (lookup_idempotent key)"
  "preserves (batch_at T bid) (list_batch_runs b)" "preserves (batch_at T bid) (list_batches_by_turn c t a)"
  "preserves (batch_at T bid) (sweep_stale ts)" "preserves (batch_at T bid) (create_run run)"
  "preserves (batch_at T bid) (update_run run)" "preserves (batch_at T bid) (reopen_run_for_retry run n)"
  "preserves (batch_at T bid) (claim_run rid wk)" "preserves (batch_at T bid) (set_progress rid msg opt_ts)"
  "preserves (batch_at T bid) (write_result sha rt rid r tok)" "preserves (batch_at T bid) (fail_stale_run sha rt rid r wk)"
  "preserves (batch_at T bid) (cancel_run rid reason)" "preserves (batch_at T bid) (get_run rid)"
  "preserves (batch_at T bid) (get_task_detail sha rt rid v)" "preserves (batch_at T bid) (heartbeat_batch b)"
  unfolding batch_at_alt by (rule batches_world_ops batches_read_ops batches_run_ops batches_heartbeat)+

interpretation batch_file: run_store_invariant "file_run_store sha rt" "batch_at T bid" for sha rt T bid
  by unfold_locales (auto simp: batch_at_ops batch_at_create batch_at_update batch_at_cancel file_run_store_def)

subsection \<open>Cancellation settles a batch\<close>

text \<open>\<open>idle k\<close>: the run stored at \<open>k\<close> is neither queued nor running.\<close>

definition idle :: "run_key \<Rightarrow> 'z fs_world_scheme \<Rightarrow> bool" where
  "idle k w \<longleftrightarrow> (\<exists>r. dict_get (fs_runs w) k = Some r \<and> tr_status r \<notin> {QUEUED, RUNNING})"

lemma cancel_run_Some:
  assumes "find_run rid w = Some (k, r)"
  shows "\<exists>w'. cancel_run rid reason w = (Inr (), w')
     \<and> (tr_status r \<notin> {QUEUED, RUNNING} \<longrightarrow> w' = w)
     \<and> (tr_status r \<in> {QUEUED, RUNNING} \<longrightarrow>
          (\<exists>new. fs_runs w' = dict_set k new (fs_runs w) \<and> tr_status new = CANCELLED))"
proof (cases "tr_status r \<in> {QUEUED, RUNNING}")
  case True
  then have "is_valid_run_transition (tr_status r) CANCELLED"
    by (auto simp: run_sm.queued_step run_sm.running_step run_tables)
  with True assms show ?thesis
    by (auto simp: cancel_run_def bindE_read_run bindE_transition_run put_run_def)
qed (use assms in \<open>simp add: cancel_run_def bindE_read_run\<close>)

text \<open>\<open>named w\<close>: a run file is found under the identifier of its run, and no two files have the same one.\<close>

definition named :: "'z fs_world_scheme \<Rightarrow> bool" where
  "named w \<longleftrightarrow> dict_ok (fs_runs w) \<and> (\<forall>k r. dict_get (fs_runs w) k = Some r \<longrightarrow> tr_run_id r = snd k)
     \<and> inj_on snd (set (dict_keys (fs_runs w)))"

lemma namedD:
  assumes "named w"
  shows "dict_ok (fs_runs w)" and "dict_get (fs_runs w) k = Some r \<Longrightarrow> tr_run_id r = snd k"
    and "dict_get (fs_runs w) k = Some r \<Longrightarrow> dict_get (fs_runs w) k' = Some r' \<Longrightarrow> snd k = snd k' \<Longrightarrow> k = k'"
proof -
  show "dict_ok (fs_runs w)" and "dict_get (fs_runs w) k = Some r \<Longrightarrow> tr_run_id r = snd k"
    using assms unfolding named_def by blast+
  assume "dict_get (fs_runs w) k = Some r" "dict_get (fs_runs w) k' = Some r'" "snd k = snd k'"
  then have "k \<in> set (dict_keys (fs_runs w))" "k' \<in> set (dict_keys (fs_runs w))"
    by (metis dict_get_None_iff option.distinct(1))+
  with assms \<open>snd k = snd k'\<close> show "k = k'" unfolding named_def by (metis inj_onD)
qed

lemma named_other [simp]:
  "named (w\<lparr>w_tick := t\<rparr>) = named w" "named (w\<lparr>w_events := ev\<rparr>) = named w" "named (w\<lparr>fs_batches := bs\<rparr>) = named w"
  by (simp_all add: named_def)

lemma store_ok_named:
  assumes "store_ok (tables w)"
  shows "named w"
proof -
  have ok: "store_ok (fs_runs w, fs_results w)" using assms by (simp add: tables_def)
  have id: "tr_run_id r = snd k" if "dict_get (fs_runs w) k = Some r" for k r
    using store_okD(2) [OF ok that] by (simp add: run_key_of_def)
  have "inj_on snd (set (dict_keys (fs_runs w)))"
  proof (rule inj_onI)
    fix k k' assume "k \<in> set (dict_keys (fs_runs w))" "k' \<in> set (dict_keys (fs_runs w))" "snd k = snd k'"
    then obtain r r' where g: "dict_get (fs_runs w) k = Some r" "dict_get (fs_runs w) k' = Some r'"
      by (metis dict_get_None_iff not_None_eq)
    with id \<open>snd k = snd k'\<close> have "tr_run_id r = tr_run_id r'" by metis
    then show "k = k'" by (rule store_okD(3) [OF ok g])
  qed
  with id store_okD(1) [OF ok] show ?thesis unfolding named_def by blast
qed

lemma find_own:
  assumes "named w" and "dict_get (fs_runs w) k = Some r"
  shows "find_run (tr_run_id r) w = Some (k, r)"
proof -
  have k: "snd k = tr_run_id r" using namedD(2) [OF assms] by simp
  have "find_run (tr_run_id r) w \<noteq> None"
  proof
    assume n: "find_run (tr_run_id r) w = None"
    have "(k, r) \<in> set (fs_runs w)" by (rule dict_get_in [OF assms(2)])
    then show False using n k by (cases k) (auto simp: find_run_def find_None_iff)
  qed
  then obtain k' r' where f: "find_run (tr_run_id r) w = Some (k', r')" by (cases "find_run (tr_run_id r) w") auto
  with find_run_Some [OF f namedD(1) [OF assms(1)]] have g: "dict_get (fs_runs w) k' = Some r'" "snd k' = tr_run_id r" by auto
  then have "k' = k" using namedD(3) [OF assms(1) g(1) assms(2)] k by simp
  with f g(1) assms(2) show ?thesis by simp
qed

lemma named_put:
  assumes "named w" and "k \<in> set (dict_keys (fs_runs w))" and n: "tr_run_id new = snd k"
  shows "named (v\<lparr>fs_runs := dict_set k (persisted_run new) (fs_runs w)\<rparr>)"
    and "dict_keys (dict_set k (persisted_run new) (fs_runs w)) = dict_keys (fs_runs w)"
proof -
  let ?R = "dict_set k (persisted_run new) (fs_runs w)"
  have a: "tr_run_id r' = snd k'" if "dict_get ?R k' = Some r'" for k' r'
    using that n namedD(2) [OF assms(1), of k' r'] by (auto simp: dict_get_set split: if_splits)
  have b: "dict_ok ?R" using namedD(1) [OF assms(1)] by simp
  show c: "dict_keys ?R = dict_keys (fs_runs w)" unfolding dict_keys_set using assms(2) by (rule if_P)
  have d: "inj_on snd (set (dict_keys ?R))" unfolding c using assms(1) unfolding named_def by blast
  have R: "fs_runs (v\<lparr>fs_runs := ?R\<rparr>) = ?R" by simp
  show "named (v\<lparr>fs_runs := ?R\<rparr>)" unfolding named_def R by (intro conjI allI impI a b d)
qed

lemma named_find:
  assumes "named w" and "find_run rid w = Some (k, r)"
  shows "dict_get (fs_runs w) k = Some r" and "k \<in> set (dict_keys (fs_runs w))" and "snd k = rid" and "tr_run_id r = snd k"
proof -
  show g: "dict_get (fs_runs w) k = Some r" and "snd k = rid" by (rule find_run_Some [OF assms(2) namedD(1) [OF assms(1)]])+
  show "k \<in> set (dict_keys (fs_runs w))" using g by (metis dict_get_None_iff option.distinct(1))
  show "tr_run_id r = snd k" by (rule namedD(2) [OF assms(1) g])
qed

lemma named_cancel:
  assumes "named w"
  shows "named (snd (cancel_run rid reason w))"
proof (cases "find_run rid w")
  case (Some p)
  obtain k r where p: "p = (k, r)" by (cases p)
  have f: "find_run rid w = Some (k, r)" using Some p by simp
  note kr = named_find [OF assms f]
  show ?thesis
    unfolding cancel_run_def bindE_read_run f option.case prod.case bindE_transition_run
    using kr(4) assms by (auto simp: bindE_transition_run put_run_def intro!: named_put(1) [OF assms kr(2)])
qed (use assms in \<open>simp add: cancel_run_def bindE_read_run\<close>)

lemma cancel_run_idle:
  "idle k w \<Longrightarrow> idle k (snd (cancel_run rid reason w))"
proof (cases "find_run rid w")
  case (Some p)
  assume k: "idle k w"
  obtain k' r' where p: "p = (k', r')" by (cases p)
  obtain w' where c: "cancel_run rid reason w = (Inr (), w')" "tr_status r' \<notin> {QUEUED, RUNNING} \<Longrightarrow> w' = w"
    "tr_status r' \<in> {QUEUED, RUNNING} \<Longrightarrow> \<exists>new. fs_runs w' = dict_set k' new (fs_runs w) \<and> tr_status new = CANCELLED"
    using cancel_run_Some [of rid w k' r' reason] Some p by auto
  show ?thesis
  proof (cases "tr_status r' \<in> {QUEUED, RUNNING}")
    case True
    with c(3) obtain new where "fs_runs w' = dict_set k' new (fs_runs w)" "tr_status new = CANCELLED" by blast
    with c(1) k show ?thesis by (auto simp: idle_def dict_get_set)
  qed (use c k in simp)
qed (simp add: cancel_run_def bindE_read_run)

text \<open>The loop over the listed runs; a run that is listed as finished is still finished.\<close>

lemma cancel_loop:
  assumes "named w"
    and "\<And>r. r \<in> set rs \<Longrightarrow> \<exists>r0. dict_get (fs_runs w) (bid, tr_run_id r) = Some r0 \<and> (tr_status r \<notin> {QUEUED, RUNNING} \<longrightarrow> idle (bid, tr_run_id r) w)"
    and "\<And>k. k \<in> D \<Longrightarrow> idle k w"
  shows "\<exists>w'. forE rs (\<lambda>r. if tr_status r \<in> {QUEUED, RUNNING} then cancel_run (tr_run_id r) reason else retE ()) w = (Inr (), w')
     \<and> named w' \<and> dict_keys (fs_runs w') = dict_keys (fs_runs w) \<and> fs_batches w' = fs_batches w
     \<and> (\<forall>k \<in> D \<union> (\<lambda>r. (bid, tr_run_id r)) ` set rs. idle k w')"
  using assms
proof (induction rs arbitrary: w D)
  case (Cons r rs)
  let ?m = "if tr_status r \<in> {QUEUED, RUNNING} then cancel_run (tr_run_id r) reason else retE ()"
  obtain r0 where r0: "dict_get (fs_runs w) ((bid, tr_run_id r)) = Some r0" using Cons.prems(2) [of r] by auto
  have id0: "tr_run_id r0 = tr_run_id r"
    using namedD(2) [OF Cons.prems(1) r0] by simp
  have f: "find_run (tr_run_id r) w = Some ((bid, tr_run_id r), r0)" using find_own [OF Cons.prems(1) r0] id0 by simp
  obtain w1 where w1: "?m w = (Inr (), w1)" "idle ((bid, tr_run_id r)) w1" "dict_keys (fs_runs w1) = dict_keys (fs_runs w)"
  proof (cases "tr_status r \<in> {QUEUED, RUNNING}")
    case True
    obtain w1 where c: "cancel_run (tr_run_id r) reason w = (Inr (), w1)"
      "tr_status r0 \<notin> {QUEUED, RUNNING} \<Longrightarrow> w1 = w"
      "tr_status r0 \<in> {QUEUED, RUNNING} \<Longrightarrow> \<exists>new. fs_runs w1 = dict_set ((bid, tr_run_id r)) new (fs_runs w) \<and> tr_status new = CANCELLED"
      using cancel_run_Some [OF f, of reason] by auto
    have in_keys: "(bid, tr_run_id r) \<in> set (dict_keys (fs_runs w))" using r0 by (metis dict_get_None_iff option.distinct(1))
    show ?thesis
    proof (cases "tr_status r0 \<in> {QUEUED, RUNNING}")
      case True
      with c(3) obtain new where "fs_runs w1 = dict_set ((bid, tr_run_id r)) new (fs_runs w)" "tr_status new = CANCELLED" by blast
      with \<open>tr_status r \<in> _\<close> c(1) in_keys that show ?thesis by (simp add: idle_def dict_get_set)
    next
      case False
      with c r0 \<open>tr_status r \<in> _\<close> that show ?thesis by (auto simp: idle_def)
    qed
  next
    case False
    with Cons.prems(2) [of r] that show ?thesis by simp
  qed
  have sn: "w1 = snd (?m w)" using w1(1) by simp
  have b1: "fs_batches w1 = fs_batches w"
    unfolding sn using preserves_apply [OF batches_run_ops(8) [where Q = "\<lambda>B. B = fs_batches w"], of w] by simp
  have s1: "named w1" unfolding sn using named_cancel [OF Cons.prems(1)] Cons.prems(1) by simp
  have i1: "idle k w1" if "idle k w" for k unfolding sn using that cancel_run_idle [OF that] by simp
  have st: "\<exists>r1. dict_get (fs_runs w1) ((bid, tr_run_id x)) = Some r1 \<and> (tr_status x \<notin> {QUEUED, RUNNING} \<longrightarrow> idle ((bid, tr_run_id x)) w1)"
    if "x \<in> set rs" for x
    using Cons.prems(2) [of x] that i1 w1(3) by (metis dict_get_None_iff list.set_intros(2) not_None_eq)
  have "\<And>k. k \<in> insert ((bid, tr_run_id r)) D \<Longrightarrow> idle k w1" using w1(2) i1 Cons.prems(3) by blast
  from Cons.IH [OF s1 st this] obtain w' where
    "forE rs (\<lambda>r. if tr_status r \<in> {QUEUED, RUNNING} then cancel_run (tr_run_id r) reason else retE ()) w1 = (Inr (), w')"
    "named w'" "dict_keys (fs_runs w') = dict_keys (fs_runs w1)" "fs_batches w' = fs_batches w1"
    "\<forall>k \<in> insert ((bid, tr_run_id r)) D \<union> (\<lambda>r. (bid, tr_run_id r)) ` set rs. idle k w'"
    by blast
  with w1 b1 show ?case by simp
qed simp

lemma listed_runs:
  assumes "named w" and "list_batch_runs bid w = (Inr rs, w')"
  shows "set rs = {r. dict_get (fs_runs w) (bid, tr_run_id r) = Some r}" and "w' = w"
proof -
  have "r \<in> set rs \<longleftrightarrow> (\<exists>i. dict_get (fs_runs w) (bid, i) = Some r)" for r
    using assms(2) dict_ok_get_iff [OF namedD(1) [OF assms(1)]] by (auto simp: list_batch_runs_def image_iff)
  moreover have "(\<exists>i. dict_get (fs_runs w) (bid, i) = Some r) \<longleftrightarrow> dict_get (fs_runs w) (bid, tr_run_id r) = Some r" for r
    using namedD(2) [OF assms(1), of "(bid, _)" r] by auto
  ultimately show "set rs = {r. dict_get (fs_runs w) (bid, tr_run_id r) = Some r}" by blast
  show "w' = w" using assms(2) by (simp add: list_batch_runs_def)
qed

lemma cancel_batch_settles:
  assumes ok: "named w" and b: "batch_at UNIV bid w"
  shows "\<exists>w'. cancel_batch bid reason w = (Inr (), w') \<and> named w' \<and> batch_at {s. is_terminal_batch_status s} bid w'
     \<and> dict_keys (fs_runs w') = dict_keys (fs_runs w)
     \<and> (\<forall>k r. dict_get (fs_batches w) bid = Some r \<longrightarrow> br_status r \<in> {B_QUEUED, B_RUNNING} \<longrightarrow>
          k \<in> set (dict_keys (fs_runs w)) \<longrightarrow> fst k = bid \<longrightarrow> idle k w')"
proof -
  obtain br where br: "dict_get (fs_batches w) bid = Some br" "br_batch_id br = bid" using b by (auto simp: batch_at_def)
  have nterm: "is_terminal_batch_status s \<longleftrightarrow> s \<notin> {B_QUEUED, B_RUNNING}" for s
    by (cases s) (simp_all add: batch_tables)
  show ?thesis
  proof (cases "br_status br \<in> {B_QUEUED, B_RUNNING}")
    case False
    with br ok show ?thesis
      by (auto simp: cancel_batch_def get_batch_def batch_at_def nterm intro!: bindE_eq(1) [THEN ssubst])
  next
    case True
    obtain rs where rs: "list_batch_runs bid w = (Inr rs, w)" by (simp add: list_batch_runs_def)
    note set_rs = listed_runs(1) [OF ok rs]
    have "\<exists>r0. dict_get (fs_runs w) (bid, tr_run_id r) = Some r0 \<and> (tr_status r \<notin> {QUEUED, RUNNING} \<longrightarrow> idle (bid, tr_run_id r) w)"
      if "r \<in> set rs" for r
      using that unfolding set_rs by (auto simp: idle_def)
    from cancel_loop [OF ok this, where D = "{}" and reason = reason] obtain w1 where
      w1: "forE rs (\<lambda>r. if tr_status r \<in> {QUEUED, RUNNING} then cancel_run (tr_run_id r) reason else retE ()) w = (Inr (), w1)"
        "named w1" "dict_keys (fs_runs w1) = dict_keys (fs_runs w)" "fs_batches w1 = fs_batches w"
        "\<forall>k \<in> (\<lambda>r. (bid, tr_run_id r)) ` set rs. idle k w1" by auto
    obtain rs' where rs': "list_batch_runs bid w1 = (Inr rs', w1)" by (simp add: list_batch_runs_def)
    have tr: "is_valid_batch_transition (br_status br) B_CANCELLED" using True by (auto simp: batch_tables)
    obtain w' where w': "cancel_batch bid reason w = (Inr (), w')" "tables w' = tables w1"
      "\<exists>b'. dict_get (fs_batches w') bid = Some b' \<and> br_status b' = B_CANCELLED \<and> br_batch_id b' = bid"
      using True br rs w1(1,4) rs' tr
      by (auto simp: cancel_batch_def get_batch_def transition_batch_eq update_batch_def terminal_batch_iff nterm dict_get_set Let_def
          tables_def bindE_apply)
    have keys: "idle k w'" if "k \<in> set (dict_keys (fs_runs w))" "fst k = bid" for k
    proof -
      from that(1) obtain r where g: "dict_get (fs_runs w) k = Some r" by (metis dict_get_None_iff not_None_eq)
      with that(2) namedD(2) [OF ok g] have "r \<in> set rs" "k = (bid, tr_run_id r)"
        unfolding set_rs by (auto simp: prod_eq_iff)
      with w1(5) w'(2) show ?thesis by (auto simp: idle_def tables_def)
    qed
    have "batch_at {s. is_terminal_batch_status s} bid w'" using w'(3) by (auto simp: batch_at_def nterm)
    moreover have "named w'" "dict_keys (fs_runs w') = dict_keys (fs_runs w)" using w1(2,3) w'(2) by (simp_all add: tables_def named_def)
    ultimately show ?thesis using w'(1) keys by blast
  qed
qed

lemma batches_transition:
  "preserves (on_batches Q) (f (b\<lparr>br_status := bs\<rparr>)) \<Longrightarrow> preserves (on_batches Q) (bindE (transition_batch bs b) f)"
  by (auto simp: preserves_def bindE_def transition_batch_eq)

lemma cancel_batch_others:
  assumes "batch_at UNIV bid w" and "bid' \<noteq> bid" and "cancel_batch bid reason w = (r, w')"
  shows "dict_get (fs_batches w') bid' = dict_get (fs_batches w) bid'"
proof -
  obtain b where b: "dict_get (fs_batches w) bid = Some b" "br_batch_id b = bid" using assms(1) by (auto simp: batch_at_def)
  let ?Q = "on_batches (\<lambda>B. dict_get B bid' = dict_get (fs_batches w) bid')"
  have up: "preserves ?Q (update_batch b')" if "br_batch_id b' = bid" for b'
    using that assms(2) by (auto simp: preserves_def update_batch_def get_batch_def bindE_def Let_def now_ms_def dict_get_set
        split: option.splits)
  have tr: "preserves ?Q (bindE (transition_batch B_CANCELLED b) (\<lambda>b'.
      thenE (update_batch (b'\<lparr>br_cancellation_reason := reason, br_counts := cs\<rparr>)) (retE ())))" for cs
    by (intro batches_transition preserves_intros up) (simp add: b(2))
  have "preserves ?Q (if br_status b \<notin> {B_QUEUED, B_RUNNING} then retE ()
       else bindE (list_batch_runs bid) (\<lambda>runs.
         thenE (forE runs (\<lambda>run. if tr_status run \<in> {QUEUED, RUNNING} then cancel_run (tr_run_id run) reason else retE ()))
        (bindE (list_batch_runs bid) (\<lambda>runs. bindE (transition_batch B_CANCELLED b) (\<lambda>b'.
         thenE (update_batch (b'\<lparr>br_cancellation_reason := reason, br_counts := run_status_counts runs\<rparr>)) (retE ()))))))"
    by (intro preserves_intros tr batches_read_ops batches_run_ops)
  from preserves_apply [OF this, of w] assms(3) b(1) show ?thesis by (simp add: cancel_batch_def get_batch_def)
qed

end
