(* ===== verification/Run_Keys.thy ===== *)
theory Run_Keys
  imports Batch_Files
begin

section \<open>Run files and their names\<close>

text \<open>
  A run file of the filesystem store (\<open>File_Store\<close>) is found by the identifier in its name. Every
  operation keeps the identifier in the file equal to the one in the name, so a run that is listed
  can be read again, and the cancellation of a stored batch always succeeds.
\<close>

definition keyed :: "'z fs_world_scheme \<Rightarrow> bool" where
  "keyed w \<longleftrightarrow> (\<forall>k r. (k, r) \<in> set (fs_runs w) \<longrightarrow> tr_run_id r = snd k)"

lemma keyedD: "keyed w \<Longrightarrow> (k, r) \<in> set (fs_runs w) \<Longrightarrow> tr_run_id r = snd k"
  unfolding keyed_def by blast

lemma dict_set_in: "p \<in> set (dict_set k v d) \<Longrightarrow> p = (k, v) \<or> p \<in> set d"
  by (induction d) (auto split: if_splits)

lemma keyed_simps [simp]:
  "keyed (w\<lparr>w_tick := t\<rparr>) = keyed w" "keyed (w\<lparr>w_events := ev\<rparr>) = keyed w" "keyed (w\<lparr>w_uuid_next := n\<rparr>) = keyed w"
  "keyed (w\<lparr>fs_files := fs\<rparr>) = keyed w" "keyed (w\<lparr>fs_batches := bs\<rparr>) = keyed w" "keyed (w\<lparr>fs_results := S\<rparr>) = keyed w"
  by (simp_all add: keyed_def)

lemma keyed_world_ops:
  "preserves keyed now_ms" "preserves keyed uuid4_hex" "preserves keyed (publish e)" "preserves keyed (or_now v)"
  "preserves keyed (transition_batch bs batch)" "preserves keyed (put_result sha rt run r)"
  by (auto simp: preserves_def or_now_def transition_batch_eq put_result_def split: option.splits sum.splits)

lemma keyed_read_ops:
  "preserves keyed (get_batch b)" "preserves keyed (lookup_idempotent key)" "preserves keyed (list_batch_runs b)"
  "preserves keyed (list_batches_by_turn c t a)" "preserves keyed (sweep_stale ts)" "preserves keyed (read_result sha rt run)"
  by (auto simp: preserves_def get_batch_def lookup_idempotent_def list_batch_runs_def list_batches_by_turn_def
      sweep_stale_def read_result_def split: option.splits sum.splits)

lemma keyed_put_run: "tr_run_id run = snd key \<Longrightarrow> preserves keyed (put_run key run)"
  unfolding preserves_def keyed_def put_run_def by (fastforce dest: dict_set_in)

lemma find_in: "find Q xs = Some x \<Longrightarrow> x \<in> set xs \<and> Q x"
  by (induction xs) (auto split: if_splits)

lemma keyed_read_run:
  assumes "\<And>run key. tr_run_id run = rid \<Longrightarrow> snd key = rid \<Longrightarrow> preserves keyed (f (run, key))"
  shows "preserves keyed (bindE (read_run_by_id rid) f)"
proof (rule preservesI)
  fix w :: "'a fs_world_scheme" assume w: "keyed w"
  show "on_snd keyed (bindE (read_run_by_id rid) f w)"
  proof (cases "find_run rid w")
    case (Some p)
    obtain k r where p: "p = (k, r)" by (cases p)
    have "(k, r) \<in> set (fs_runs w)" "snd k = rid"
      using find_in [OF Some [unfolded find_run_def p]] by (auto split: prod.splits)
    with keyedD [OF w] have "tr_run_id r = rid" by blast
    from preserves_apply [OF assms [OF this \<open>snd k = rid\<close>] w] Some p show ?thesis by (simp add: bindE_read_run)
  qed (use w in \<open>simp add: bindE_read_run\<close>)
qed

lemma keyed_transition:
  assumes "\<And>run'. tr_run_id run' = tr_run_id run \<Longrightarrow> preserves keyed (f run')"
  shows "preserves keyed (bindE (transition_run s p run) f)"
  by (rule preservesI) (use assms [of "run\<lparr>tr_status := s\<rparr>"] in \<open>auto simp: bindE_transition_run preserves_def\<close>)

lemmas keyed_rules = preserves_intros keyed_world_ops keyed_read_ops keyed_read_run keyed_transition keyed_put_run

lemma keyed_run_ops:
  "preserves keyed (create_run run)" "preserves keyed (update_run run)" "preserves keyed (reopen_run_for_retry run n)"
  "preserves keyed (claim_run rid wk)" "preserves keyed (set_progress rid msg ts)" "preserves keyed (write_result sha rt rid r tok)"
  "preserves keyed (fail_stale_run sha rt rid r wk)" "preserves keyed (cancel_run rid reason)" "preserves keyed (get_run rid)"
  "preserves keyed (get_task_detail sha rt rid v)"
  unfolding create_run_def update_run_def reopen_run_for_retry_def claim_run_def set_progress_def write_result_def
    fail_stale_run_def cancel_run_def get_run_def get_task_detail_def Let_def
  by (intro keyed_read_run keyed_transition keyed_rules; simp)+

lemma keyed_batch_ops:
  "preserves keyed (create_batch b)" "preserves keyed (update_batch b)" "preserves keyed (heartbeat_batch bid)"
  "preserves keyed (cancel_batch bid reason)"
  unfolding create_batch_def update_batch_def heartbeat_batch_def cancel_batch_def Let_def
  by (intro keyed_rules keyed_run_ops; simp)+

interpretation keyed_file: run_store_invariant "file_run_store sha rt" keyed for sha rt
  by unfold_locales (auto simp: keyed_world_ops keyed_read_ops keyed_run_ops keyed_batch_ops file_run_store_def)

lemma keyed_find: "keyed w \<Longrightarrow> (k, r) \<in> set (fs_runs w) \<Longrightarrow> find_run (tr_run_id r) w \<noteq> None"
  using keyedD [of w k r] by (cases k) (auto simp: find_run_def find_None_iff)

text \<open>A run that is listed is cancelled without an exception; the run files keep their names.\<close>

lemma cancel_listed:
  assumes "keyed w" and "\<And>r. r \<in> set rs \<Longrightarrow> tr_run_id r \<in> snd ` fst ` set (fs_runs w)"
  shows "\<exists>w'. forE rs (\<lambda>r. if tr_status r \<in> {QUEUED, RUNNING} then cancel_run (tr_run_id r) reason else retE ()) w = (Inr (), w')"
  using assms
proof (induction rs arbitrary: w)
  case (Cons r rs)
  have "\<exists>w1. (if tr_status r \<in> {QUEUED, RUNNING} then cancel_run (tr_run_id r) reason else retE ()) w = (Inr (), w1)
      \<and> snd ` fst ` set (fs_runs w) \<subseteq> snd ` fst ` set (fs_runs w1)"
  proof (cases "tr_status r \<in> {QUEUED, RUNNING}")
    case True
    obtain k r0 where k: "(k, r0) \<in> set (fs_runs w)" "tr_run_id r = snd k" using Cons.prems(2) [of r] by force
    with keyedD [OF Cons.prems(1)] have "tr_run_id r0 = tr_run_id r" by metis
    with keyed_find [OF Cons.prems(1) k(1)] obtain k' r' where f: "find_run (tr_run_id r) w = Some (k', r')" by auto
    obtain w1 where w1: "cancel_run (tr_run_id r) reason w = (Inr (), w1)" "tr_status r' \<notin> {QUEUED, RUNNING} \<Longrightarrow> w1 = w"
      "tr_status r' \<in> {QUEUED, RUNNING} \<Longrightarrow> \<exists>new. fs_runs w1 = dict_set k' new (fs_runs w)"
      using cancel_run_Some [OF f, of reason] by auto
    have "set (dict_keys (fs_runs w)) \<subseteq> set (dict_keys (fs_runs w1))"
      using w1(2,3) by (cases "tr_status r' \<in> {QUEUED, RUNNING}") (auto simp del: set_map)
    then have "snd ` fst ` set (fs_runs w) \<subseteq> snd ` fst ` set (fs_runs w1)" unfolding set_map by (rule image_mono)
    with True w1(1) show ?thesis by simp
  qed simp
  then obtain w1 where w1: "(if tr_status r \<in> {QUEUED, RUNNING} then cancel_run (tr_run_id r) reason else retE ()) w = (Inr (), w1)"
    "snd ` fst ` set (fs_runs w) \<subseteq> snd ` fst ` set (fs_runs w1)" by blast
  have "preserves keyed (if tr_status r \<in> {QUEUED, RUNNING} then cancel_run (tr_run_id r) reason else retE ())"
    by (intro preserves_intros keyed_run_ops)
  from Cons.IH [OF preservesD [OF this Cons.prems(1) w1(1)]] Cons.prems(2) w1(2) have
    "\<exists>w'. forE rs (\<lambda>r. if tr_status r \<in> {QUEUED, RUNNING} then cancel_run (tr_run_id r) reason else retE ()) w1 = (Inr (), w')"
    by (meson list.set_intros(2) subsetD)
  with w1(1) show ?case by simp
qed simp

lemma cancel_batch_answers:
  assumes "keyed w" and "batch_at UNIV bid w"
  shows "\<exists>w'. cancel_batch bid reason w = (Inr (), w') \<and> batch_at {s. is_terminal_batch_status s} bid w'"
proof -
  obtain b where b: "dict_get (fs_batches w) bid = Some b" "br_batch_id b = bid" using assms(2) by (auto simp: batch_at_def)
  have gb: "get_batch bid w = (Inr b, w)" using b by (simp add: get_batch_def)
  show ?thesis
  proof (cases "br_status b \<in> {B_QUEUED, B_RUNNING}")
    case False
    then have "is_terminal_batch_status (br_status b)" by (cases "br_status b") (simp_all add: batch_tables)
    with False gb b show ?thesis by (auto simp: cancel_batch_def batch_at_def)
  next
    case True
    let ?f = "\<lambda>r. if tr_status r \<in> {QUEUED, RUNNING} then cancel_run (tr_run_id r) reason else retE ()"
    obtain rs where rs: "list_batch_runs bid w = (Inr rs, w)" "set rs \<subseteq> snd ` set (fs_runs w)"
      by (auto simp: list_batch_runs_def)
    have "tr_run_id r \<in> snd ` fst ` set (fs_runs w)" if r: "r \<in> set rs" for r
    proof -
      obtain p where p: "p \<in> set (fs_runs w)" "r = snd p" using r rs(2) by blast
      with keyedD [OF assms(1), of "fst p" r] show ?thesis by simp
    qed
    from cancel_listed [OF assms(1) this] obtain w1 where w1: "forE rs ?f w = (Inr (), w1)" by blast
    have "preserves (on_batches ((=) (fs_batches w))) (forE rs ?f)" by (intro batches_ops batches_run_ops)
    from preservesD [OF this _ w1] have b1: "fs_batches w1 = fs_batches w" by simp
    obtain rs1 where rs1: "list_batch_runs bid w1 = (Inr rs1, w1)" by (simp add: list_batch_runs_def)
    let ?w2 = "w1\<lparr>w_events := w_events w1 @ [Batch_State_Transition (br_batch_id b) (br_status b) B_CANCELLED]\<rparr>"
    let ?b2 = "b\<lparr>br_status := B_CANCELLED, br_cancellation_reason := reason, br_counts := run_status_counts rs1\<rparr>"
    have tb: "transition_batch B_CANCELLED b w1 = (Inr (b\<lparr>br_status := B_CANCELLED\<rparr>), ?w2)"
      using True by (auto simp: transition_batch_eq batch_tables)
    have "\<exists>u w3. update_batch ?b2 ?w2 = (Inr u, w3) \<and> batch_at {s. is_terminal_batch_status s} bid w3"
      using b b1 True by (auto simp: update_batch_def get_batch_def now_ms_def Let_def batch_at_def dict_get_set batch_tables)
    with gb rs(1) w1 rs1 tb True show ?thesis by (auto simp: cancel_batch_def)
  qed
qed

end
