(* ===== verification/Materialization.thy ===== *)
theory Materialization
  imports Run_Keys Staged_Executor Progress_Port
begin

section \<open>Materialisation of a submission\<close>

text \<open>
  \<^verbatim>\<open>orchestration/materialization.py\<close>: the batch and the runs of a submission, the identity of a
  duplicate submission, and the convergence of a materialisation that failed. The record
  \<open>submission_env\<close> holds what the submission pipeline is constructed with: the store, the progress
  port, the environment and the services behind the playbook, the trace files and the clocks. The
  canonical JSON text with its SHA-256 digest is \<open>sv_digest\<close>, the digest of a text \<open>sv_sha\<close>, and the
  two pydantic dumps of a task are \<open>sv_dump\<close> and \<open>sv_execution_dump\<close>. \<open>sv_expired\<close> says, at a point
  where the code awaits, whether the \<^verbatim>\<open>asyncio.timeout\<close> around it has run out.
\<close>

record 'w submission_env =
  sv_store :: "'w run_store"
  sv_port :: "'w progress_port"
  sv_environ :: environ
  sv_repr :: "json \<Rightarrow> string"
  sv_digest :: "json \<Rightarrow> string"
  sv_sha :: "string \<Rightarrow> string"
  sv_dump :: "task_spec \<Rightarrow> json"
  sv_execution_dump :: "task_spec \<Rightarrow> json"
  sv_attach_playbook_hints :: "turn_context \<Rightarrow> task_spec \<Rightarrow> ('w, task_spec) io"
  sv_write_prepared_input :: "string \<Rightarrow> prepared_task_batch \<Rightarrow> ('w, unit) io"
  sv_write_rerun_source :: "turn_context \<Rightarrow> prepared_task_batch \<Rightarrow> batch_record \<Rightarrow> ('w, unit) io"
  sv_monotonic_ms :: "('w, int) io"
  sv_sleep :: "('w, unit) io"
  sv_expired :: "('w, bool) io"

subsection \<open>Identity of a submission\<close>

definition batch_id_for_submission :: "(string \<Rightarrow> string) \<Rightarrow> string \<Rightarrow> string" where
  "batch_id_for_submission sha submission_id = ''batch-'' @ take 24 (sha (utf8_encode submission_id))"

primrec join_strategy_value :: "join_strategy \<Rightarrow> string" where
  "join_strategy_value ALL_SUCCESS = ''all_success''"
| "join_strategy_value PARTIAL_OK = ''partial_ok''"
| "join_strategy_value FIRST_SUCCESS = ''first_success''"
| "join_strategy_value FAIL_FAST = ''fail_fast''"

definition fingerprint_payload :: "(task_spec \<Rightarrow> json) \<Rightarrow> prepared_task_batch \<Rightarrow> string \<Rightarrow> json" where
  "fingerprint_payload dump prepared submission_source =
     (let batch = pb_batch prepared in
      JObj ([(''submission_source'', JStr submission_source), (''tasks'', JList (map dump (tb_tasks batch))),
             (''join_strategy'', JStr (join_strategy_value (tb_join_strategy batch)))]
            @ (case tb_max_concurrency batch of None \<Rightarrow> [] | Some n \<Rightarrow> [(''max_concurrency'', JInt n)])))"

definition prepared_submission_fingerprint :: "'w submission_env \<Rightarrow> prepared_task_batch \<Rightarrow> string \<Rightarrow> string" where
  "prepared_submission_fingerprint env prepared submission_source =
     sv_digest env (fingerprint_payload (sv_execution_dump env) prepared submission_source)"

definition batch_submission_fingerprint :: "(json \<Rightarrow> string) \<Rightarrow> batch_record \<Rightarrow> string" where
  "batch_submission_fingerprint repr batch =
     (case dict_get (br_metadata batch) RUNTIME_METADATA_KEY of
        Some (JObj m) \<Rightarrow> (case dict_get m ''submission_fingerprint'' of None \<Rightarrow> [] | Some v \<Rightarrow> json_str repr v)
      | _ \<Rightarrow> [])"

definition validate_submission_fingerprint_value :: "(json \<Rightarrow> string) \<Rightarrow> batch_record \<Rightarrow> string \<Rightarrow> unit result" where
  "validate_submission_fingerprint_value repr existing incoming_fingerprint =
     (let existing_fingerprint = batch_submission_fingerprint repr existing in
      if existing_fingerprint \<noteq> [] \<and> existing_fingerprint = incoming_fingerprint then Inr ()
      else Inl (Exn RuntimeError (''duplicate task submission diverged for batch '' @ br_batch_id existing
                  @ ''; refusing to reuse results for regenerated tasks'')))"

subsection \<open>Batches\<close>

text \<open>\<^verbatim>\<open>dict(value)\<close> of a JSON value: a mapping, or a sequence of pairs with string keys.\<close>

fun json_pair :: "json \<Rightarrow> (string \<times> json) result" where
  "json_pair (JList [JStr k, v]) = Inr (k, v)"
| "json_pair (JStr [c, d]) = Inr ([c], JStr [d])"
| "json_pair v = Inl (Exn ValueError ''dictionary update sequence element has the wrong length'')"

fun py_dict :: "json \<Rightarrow> jobj result" where
  "py_dict (JObj m) = Inr m"
| "py_dict (JList vs) = rbind (rmap json_pair vs) (\<lambda>ps. Inr (fold (\<lambda>(k, v). dict_set k v) ps []))"
| "py_dict (JStr s) = rbind (rmap (\<lambda>c. json_pair (JStr [c])) s) (\<lambda>ps. Inr ps)"
| "py_dict v = Inl (Exn TypeError ''object is not iterable'')"

definition sandbox_plan_json :: "sandbox_type_plan \<Rightarrow> json" where
  "sandbox_plan_json plan =
     JObj [(''sandbox_type'', JStr (stp_sandbox_type plan)), (''task_count'', JInt (stp_task_count plan)),
           (''concurrency'', JInt (stp_concurrency plan)),
           (''available_count'', case stp_available_count plan of None \<Rightarrow> JNull | Some n \<Rightarrow> JInt n)]"

definition batch_runtime_meta ::
    "turn_context \<Rightarrow> string \<Rightarrow> string \<Rightarrow> batch_execution_plan \<Rightarrow> jobj \<Rightarrow> jobj" where
  "batch_runtime_meta ctx submission_fingerprint token execution_plan m =
     (let m = dict_set ''submission_id'' (JStr (tc_submission_id ctx)) m;
          m = dict_set ''submission_source'' (JStr (tc_submission_source ctx)) m;
          m = dict_set ''submission_fingerprint'' (JStr submission_fingerprint) m;
          m = dict_set ''materialization_token'' (JStr token) m
      in if bep_sandbox_plans execution_plan = [] then m
         else dict_set ''sandbox_plans'' (JList (map sandbox_plan_json (bep_sandbox_plans execution_plan))) m)"

definition build_batch ::
    "'z rt_world_scheme submission_env \<Rightarrow> turn_context \<Rightarrow> prepared_task_batch \<Rightarrow> int \<Rightarrow> batch_execution_plan \<Rightarrow> string \<Rightarrow> jobj
       \<Rightarrow> ('z rt_world_scheme, batch_record) io" where
  "build_batch env ctx prepared parent_tool_call_id execution_plan submission_fingerprint metadata =
     bindE now_ms (\<lambda>current_ms.
     bindE (liftE (case dict_get metadata RUNTIME_METADATA_KEY of None \<Rightarrow> Inr [] | Some v \<Rightarrow> py_dict v)) (\<lambda>runtime_meta.
     bindE uuid4_hex (\<lambda>token.
       liftE (validate_batch_record
         \<lparr>br_batch_id = batch_id_for_submission (sv_sha env) (tc_submission_id ctx),
          br_parent_conversation_id = tc_conversation_id ctx, br_parent_turn_id = tc_turn_id ctx,
          br_parent_tool_call_id = Some parent_tool_call_id, br_status = B_RUNNING,
          br_reason = tb_description (pb_batch prepared), br_join_strategy = tb_join_strategy (pb_batch prepared),
          br_max_concurrency = Some (bep_concurrency execution_plan), br_sandbox_type = bep_sandbox_type execution_plan,
          br_sandbox_task_count = bep_sandbox_task_count execution_plan,
          br_sandbox_concurrency = bep_sandbox_concurrency execution_plan,
          br_available_sandbox_count = bep_available_sandbox_count execution_plan,
          br_planned_batch_sizes = bep_planned_batch_sizes execution_plan,
          br_total_count = int (length (tb_tasks (pb_batch prepared))), br_counts = [],
          br_created_at = current_ms, br_updated_at = current_ms, br_ended_at = None, br_cancellation_reason = [],
          br_metadata = dict_set RUNTIME_METADATA_KEY
            (JObj (batch_runtime_meta ctx submission_fingerprint token execution_plan runtime_meta)) metadata\<rparr>))))"

text \<open>The trace files: a failure to write one is logged.\<close>

definition save_prepared_input :: "'w submission_env \<Rightarrow> string \<Rightarrow> prepared_task_batch \<Rightarrow> ('w, unit) io" where
  "save_prepared_input env batch_id prepared = suppressE (sv_write_prepared_input env batch_id prepared)"

definition save_rerun_source ::
    "'w submission_env \<Rightarrow> turn_context \<Rightarrow> prepared_task_batch \<Rightarrow> batch_record \<Rightarrow> ('w, unit) io" where
  "save_rerun_source env ctx prepared batch = suppressE (sv_write_rerun_source env ctx prepared batch)"

text \<open>The authoritative batch, and whether this caller owns its execution.\<close>

definition materialize_batch ::
    "'w submission_env \<Rightarrow> turn_context \<Rightarrow> prepared_task_batch \<Rightarrow> batch_record \<Rightarrow> ('w, batch_record \<times> bool) io" where
  "materialize_batch env ctx prepared batch =
     bindE (rs_create_batch (sv_store env) batch) (\<lambda>create_result.
       let persisted_batch = bc_batch create_result in
       if \<not> bc_created create_result
       then thenE (liftE (validate_submission_fingerprint_value (sv_repr env) persisted_batch
                            (batch_submission_fingerprint (sv_repr env) batch)))
           (thenE (save_rerun_source env ctx prepared persisted_batch) (retE (persisted_batch, False)))
       else thenE (save_prepared_input env (br_batch_id persisted_batch) prepared)
           (thenE (save_rerun_source env ctx prepared persisted_batch) (retE (persisted_batch, True))))"

definition get_existing_batch :: "'w submission_env \<Rightarrow> string \<Rightarrow> ('w, batch_record option) io" where
  "get_existing_batch env batch_id =
     catch_class FileNotFoundError
       (bindE (rs_get_batch (sv_store env) batch_id) (\<lambda>batch. retE (Some batch))) (\<lambda>_. retE None)"

subsection \<open>Runs\<close>

definition build_run ::
    "'z rt_world_scheme submission_env \<Rightarrow> turn_context \<Rightarrow> batch_record \<Rightarrow> task_spec \<Rightarrow> int \<Rightarrow> int \<Rightarrow> int
       \<Rightarrow> ('z rt_world_scheme, task_run) io" where
  "build_run env ctx batch task parent_tool_call_id child_tool_call_id item_index =
     bindE uuid4_hex (\<lambda>hex.
     bindE (liftE (resolve_policy task)) (\<lambda>policy.
     bindE (liftE (compute_idempotency_key (sv_digest env) (sv_dump env) (tc_submission_id ctx) item_index task)) (\<lambda>key.
     bindE now_ms (\<lambda>now.
       retE \<lparr>tr_runtime_reuse = False, tr_secret_args = [], tr_bound_batch_id = [],
             tr_run_id = ''run-'' @ take 12 hex, tr_batch_id = br_batch_id batch,
             tr_parent_conversation_id = tc_conversation_id ctx, tr_parent_turn_id = tc_turn_id ctx,
             tr_parent_tool_call_id = Some parent_tool_call_id, tr_plan_batch_call_id = Some child_tool_call_id,
             tr_batch_item_index = item_index, tr_username = tc_username ctx, tr_agent_id = tc_agent_id ctx,
             tr_agent_instance_id = tc_agent_instance_id ctx, tr_project_id = tc_project_id ctx,
             tr_spec = task, tr_execution_policy = policy, tr_status = QUEUED, tr_attempt = 1,
             tr_idempotency_key = key, tr_executor = executor_value (ep_executor policy), tr_worker_id = None,
             tr_fencing_token = [], tr_sandbox = None, tr_sandbox_released = False, tr_lease_outcome = [],
             tr_runtime_stage = [], tr_queued_at = now, tr_started_at = None, tr_heartbeat_at = None, tr_ended_at = None,
             tr_latest_progress_message = [], tr_latest_progress_at = 0, tr_last_error_class = None, tr_last_error = []\<rparr>))))"

definition bind_reused_run_to_current_plan :: "task_run \<Rightarrow> task_run \<Rightarrow> task_run" where
  "bind_reused_run_to_current_plan existing current =
     existing\<lparr>tr_parent_tool_call_id := tr_parent_tool_call_id current,
              tr_plan_batch_call_id := tr_plan_batch_call_id current,
              tr_batch_item_index := tr_batch_item_index current\<rparr>"

text \<open>One turn of the loop of \<^verbatim>\<open>create_runs\<close>; the run that is returned is the new one or the one of the key.\<close>

definition create_or_reuse :: "'w submission_env \<Rightarrow> task_run \<Rightarrow> ('w, task_run) io" where
  "create_or_reuse env run =
     catch_class IdempotencyCollisionError (thenE (rs_create_run (sv_store env) run) (retE run)) (\<lambda>collision.
       bindE (rs_lookup_idempotent (sv_store env) (tr_idempotency_key run)) (\<lambda>winner.
         case winner of
           None \<Rightarrow> raiseE collision
         | Some w \<Rightarrow> retE ((bind_reused_run_to_current_plan w run)\<lparr>tr_runtime_reuse := True\<rparr>)))"

definition create_one_run ::
    "'z rt_world_scheme submission_env \<Rightarrow> turn_context \<Rightarrow> batch_record \<Rightarrow> int \<Rightarrow> nat \<times> task_spec
       \<Rightarrow> ('z rt_world_scheme, task_run) io" where
  "create_one_run env ctx batch parent_tool_call_id item =
     (case item of (item_index, task) \<Rightarrow>
        bindE (sv_attach_playbook_hints env ctx task) (\<lambda>task.
        bindE (pp_add_task_sub_call (sv_port env) ctx parent_tool_call_id task (int item_index)) (\<lambda>child_tool_call_id.
        bindE (build_run env ctx batch task parent_tool_call_id child_tool_call_id (int item_index)) (\<lambda>run.
        thenE (pp_mark_run_queued (sv_port env) ctx run) (create_or_reuse env run)))))"

definition create_runs ::
    "'z rt_world_scheme submission_env \<Rightarrow> turn_context \<Rightarrow> prepared_task_batch \<Rightarrow> batch_record \<Rightarrow> int
       \<Rightarrow> ('z rt_world_scheme, task_run list) io" where
  "create_runs env ctx prepared batch parent_tool_call_id =
     mapE (create_one_run env ctx batch parent_tool_call_id) (enumerate 0 (tb_tasks (pb_batch prepared)))"

subsection \<open>The runs of an existing batch\<close>

text \<open>The loop waits until the owner has created every run; its variables are the batch and the runs.\<close>

definition load_round ::
    "'w submission_env \<Rightarrow> int \<Rightarrow> ((batch_record \<times> task_run list) \<times> 'w, bool) io" where
  "load_round env deadline =
     bindE (getE (\<lambda>s. fst (fst s))) (\<lambda>batch.
     bindE (onworld (rs_list_batch_runs (sv_store env) (br_batch_id batch))) (\<lambda>stored_runs.
     thenE (assign (\<lambda>_. (batch, stored_runs)))
       (if br_total_count batch \<le> int (length stored_runs) \<or> br_status batch \<in> set TERMINAL_BATCH_STATUSES then retE False
        else
          bindE (onworld (sv_monotonic_ms env)) (\<lambda>now.
            if deadline \<le> now then retE False
            else
              thenE (onworld (sv_sleep env))
             (bindE (onworld (rs_get_batch (sv_store env) (br_batch_id batch))) (\<lambda>batch.
              thenE (assign (\<lambda>(_, runs). (batch, runs))) (retE True)))))))"

definition check_existing_runs :: "batch_record \<Rightarrow> task_run list \<Rightarrow> task_run list result" where
  "check_existing_runs batch stored_runs =
     (if int (length stored_runs) \<noteq> br_total_count batch
         \<or> set (map tr_batch_item_index stored_runs) \<noteq> {0..<br_total_count batch}
      then Inl (Exn RuntimeError (''duplicate task submission '' @ br_batch_id batch @ '' expected ''
                  @ str_of_int (br_total_count batch) @ '' materialized runs, found '' @ str_of_int (int (length stored_runs))))
      else Inr (sort_key tr_batch_item_index stored_runs))"

definition load_existing_batch_runs ::
    "'w submission_env \<Rightarrow> batch_record \<Rightarrow> ('w, task_run list) pio" where
  "load_existing_batch_runs env batch =
     bindP (totalP (sv_monotonic_ms env)) (\<lambda>now.
       let deadline = now + 1000 * duplicate_submission_materialization_timeout_seconds (sv_environ env) in
       withlocalsP (batch, [])
         (bindP (whileE (load_round env deadline)) (\<lambda>_.
            totalP (bindE (getE fst) (\<lambda>(batch, stored_runs). liftE (check_existing_runs batch stored_runs))))))"

subsection \<open>Convergence of a failed materialisation\<close>

text \<open>
  The task that \<^verbatim>\<open>converge_failed_materialization\<close> starts: it waits until the batch is visible and
  cancels it when the candidate is its owner. An \<^verbatim>\<open>await\<close> is where the timeout strikes.
\<close>

definition awaitE :: "'w submission_env \<Rightarrow> ('w, 'a) io \<Rightarrow> ('w, 'a) io" where
  "awaitE env m = bindE (sv_expired env) (\<lambda>expired. if expired then raiseE (Exn CancelledError []) else m)"

definition converge_round :: "'w submission_env \<Rightarrow> batch_record \<Rightarrow> ('w, unit) io \<Rightarrow> ('w, bool) io" where
  "converge_round env candidate remove_foreign_owner_projection =
     (let again = thenE (awaitE env (sv_sleep env)) (retE True) in
      bindE (catch_Exception
               (bindE (awaitE env (rs_get_batch (sv_store env) (br_batch_id candidate))) (\<lambda>persisted. retE (Some persisted)))
               (\<lambda>_. retE None)) (\<lambda>found.
        case found of
          None \<Rightarrow> again
        | Some persisted \<Rightarrow>
            if materialization_token (sv_repr env) persisted \<noteq> materialization_token (sv_repr env) candidate
            then thenE (if br_parent_tool_call_id persisted \<noteq> br_parent_tool_call_id candidate
                        then suppressE (awaitE env remove_foreign_owner_projection) else retE ())
                   (retE False)
            else bindE (catch_Exception
                    (thenE (awaitE env (rs_cancel_batch (sv_store env) (br_batch_id candidate)
                              ''Task runtime interrupted during batch materialization.'')) (retE False))
                    (\<lambda>_. retE True)) (\<lambda>retry. if retry then again else retE False)))"

definition cancel_owned_batch_when_visible ::
    "'w submission_env \<Rightarrow> batch_record \<Rightarrow> ('w, unit) io \<Rightarrow> ('w, unit) pio" where
  "cancel_owned_batch_when_visible env candidate remove_foreign_owner_projection =
     catchP (whileE (converge_round env candidate remove_foreign_owner_projection))
       (\<lambda>e. if exn_class e = CancelledError then retE () else raiseE e)"

subsection \<open>What the materialiser keeps\<close>

text \<open>\<open>env_keeps env P\<close>: no service the materialiser calls, the store apart, breaks \<open>P\<close>.\<close>

definition env_keeps :: "'w submission_env \<Rightarrow> ('w \<Rightarrow> bool) \<Rightarrow> bool" where
  "env_keeps env P \<longleftrightarrow>
     port_keeps (sv_port env) P
     \<and> (\<forall>ctx task. preserves P (sv_attach_playbook_hints env ctx task))
     \<and> (\<forall>bid prepared. preserves P (sv_write_prepared_input env bid prepared))
     \<and> (\<forall>ctx prepared b. preserves P (sv_write_rerun_source env ctx prepared b))
     \<and> preserves P (sv_monotonic_ms env) \<and> preserves P (sv_sleep env) \<and> preserves P (sv_expired env)"

lemma env_keepsD:
  assumes "env_keeps env P"
  shows "port_keeps (sv_port env) P" and "preserves P (sv_attach_playbook_hints env ctx task)"
    and "preserves P (sv_write_prepared_input env bid prepared)" and "preserves P (sv_write_rerun_source env ctx prepared b)"
    and "preserves P (sv_monotonic_ms env)" and "preserves P (sv_sleep env)" and "preserves P (sv_expired env)"
  using assms by (simp_all add: env_keeps_def)

lemma traces_keep:
  assumes "env_keeps env P"
  shows "preserves P (save_prepared_input env bid prepared)" and "preserves P (save_rerun_source env ctx prepared b)"
  unfolding save_prepared_input_def save_rerun_source_def by (intro preserves_intros env_keepsD [OF assms])+

context run_store_invariant
begin

lemma build_run_inv: "preserves P (build_run env ctx batch task call child i)"
  unfolding build_run_def by (intro preserves_intros world_inv)

lemma build_batch_inv: "preserves P (build_batch env ctx prepared call plan fp meta)"
  unfolding build_batch_def by (intro preserves_intros world_inv)

lemma materialize_inv:
  assumes "env_keeps env P" and "sv_store env = st"
  shows "preserves P (materialize_batch env ctx prepared batch)"
  unfolding materialize_batch_def Let_def assms(2)
  by (intro preserves_intros batch_inv traces_keep [OF assms(1)])

lemma create_runs_inv:
  assumes "env_keeps env P" and "sv_store env = st"
  shows "preserves P (create_runs env ctx prepared batch call)"
  unfolding create_runs_def create_one_run_def create_or_reuse_def assms(2)
  by (intro preserves_intros build_run_inv read_inv run_inv env_keepsD(2) [OF assms(1)]
      port_keepsD [OF env_keepsD(1) [OF assms(1)]])

lemma load_existing_inv:
  assumes "env_keeps env P" and "sv_store env = st"
  shows "preservesP P (load_existing_batch_runs env batch)"
  unfolding load_existing_batch_runs_def load_round_def Let_def assms(2)
  by (intro preserves_intros read_inv env_keepsD(5,6) [OF assms(1)])

end

subsection \<open>One owner\<close>

lemma saved_traces:
  assumes "\<And>B. env_keeps env (on_batches ((=) B))" and "\<And>ctx prepared b. mild (sv_write_rerun_source env ctx prepared b)"
    and "\<And>bid prepared. mild (sv_write_prepared_input env bid prepared)"
  shows "\<exists>w'. save_rerun_source env ctx prepared b w = (Inr (), w') \<and> fs_batches w' = fs_batches w"
    and "\<exists>w'. save_prepared_input env bid prepared w = (Inr (), w') \<and> fs_batches w' = fs_batches w"
proof -
  have keep: "fs_batches (snd (m w)) = fs_batches w" if "preserves (on_batches ((=) (fs_batches w))) m" for m :: "('a fs_world_scheme, unit) io"
    using preserves_apply [OF that, of w] by simp
  show "\<exists>w'. save_rerun_source env ctx prepared b w = (Inr (), w') \<and> fs_batches w' = fs_batches w"
    using suppress_answers [OF assms(2), of ctx prepared b w] keep [OF traces_keep(2) [OF assms(1)], of ctx prepared b]
    by (force simp: save_rerun_source_def)
  show "\<exists>w'. save_prepared_input env bid prepared w = (Inr (), w') \<and> fs_batches w' = fs_batches w"
    using suppress_answers [OF assms(3), of bid prepared w] keep [OF traces_keep(1) [OF assms(1)], of bid prepared]
    by (force simp: save_prepared_input_def)
qed

lemma materialize_batch_cases:
  assumes st: "sv_store env = file_run_store sha rt"
    and tr: "\<And>B. env_keeps env (on_batches ((=) B))" "\<And>ctx prepared b. mild (sv_write_rerun_source env ctx prepared b)"
      "\<And>bid prepared. mild (sv_write_prepared_input env bid prepared)"
  shows "dict_get (fs_batches w) (br_batch_id b) = None \<Longrightarrow>
      \<exists>w'. materialize_batch env ctx prepared b w = (Inr (b, True), w') \<and> fs_batches w' = dict_set (br_batch_id b) b (fs_batches w)"
    and "dict_get (fs_batches w) (br_batch_id b) = Some old \<Longrightarrow>
      \<exists>r w'. materialize_batch env ctx prepared b w = (r, w') \<and> fs_batches w' = fs_batches w
        \<and> r = (if batch_submission_fingerprint (sv_repr env) old \<noteq> []
                  \<and> batch_submission_fingerprint (sv_repr env) old = batch_submission_fingerprint (sv_repr env) b
               then Inr (old, False)
               else Inl (Exn RuntimeError (''duplicate task submission diverged for batch '' @ br_batch_id old
                          @ ''; refusing to reuse results for regenerated tasks'')))"
proof -
  assume none: "dict_get (fs_batches w) (br_batch_id b) = None"
  let ?w1 = "w\<lparr>fs_batches := dict_set (br_batch_id b) b (fs_batches w)\<rparr>"
  obtain w2 where w2: "save_prepared_input env (br_batch_id b) prepared ?w1 = (Inr (), w2)" "fs_batches w2 = fs_batches ?w1"
    using saved_traces(2) [OF tr] by blast
  obtain w3 where w3: "save_rerun_source env ctx prepared b w2 = (Inr (), w3)" "fs_batches w3 = fs_batches w2"
    using saved_traces(1) [OF tr] by blast
  have "create_batch b w = (Inr \<lparr>bc_batch = b, bc_created = True\<rparr>, ?w1)"
    using none by (simp add: create_batch_def dict_get_None_iff)
  with w2 w3 show "\<exists>w'. materialize_batch env ctx prepared b w = (Inr (b, True), w') \<and> fs_batches w' = dict_set (br_batch_id b) b (fs_batches w)"
    by (simp add: materialize_batch_def st)
next
  assume some: "dict_get (fs_batches w) (br_batch_id b) = Some old"
  obtain w3 where w3: "save_rerun_source env ctx prepared old w = (Inr (), w3)" "fs_batches w3 = fs_batches w"
    using saved_traces(1) [OF tr] by blast
  have "br_batch_id b \<in> set (dict_keys (fs_batches w))" using some by (metis dict_get_None_iff option.distinct(1))
  then have "create_batch b w = (Inr \<lparr>bc_batch = old, bc_created = False\<rparr>, w)"
    using some by (simp add: create_batch_def get_batch_def)
  with w3 show "\<exists>r w'. materialize_batch env ctx prepared b w = (r, w') \<and> fs_batches w' = fs_batches w
      \<and> r = (if batch_submission_fingerprint (sv_repr env) old \<noteq> []
                \<and> batch_submission_fingerprint (sv_repr env) old = batch_submission_fingerprint (sv_repr env) b
             then Inr (old, False)
             else Inl (Exn RuntimeError (''duplicate task submission diverged for batch '' @ br_batch_id old
                        @ ''; refusing to reuse results for regenerated tasks'')))"
    by (simp add: materialize_batch_def st validate_submission_fingerprint_value_def Let_def)
qed

text \<open>
  C11. A submission has one owner. The first caller that materialises a batch owns it; from then on, in
  whatever state the stored batch is found, a caller with the same batch identifier never becomes its owner,
  leaves the batch files as they are, gets the stored batch when its fingerprint is the stored one, and is
  refused when it is not.
\<close>

theorem one_owner_per_submission:
  assumes "sv_store env = file_run_store sha rt"
    and "\<And>B. env_keeps env (on_batches ((=) B))" and "\<And>ctx prepared b. mild (sv_write_rerun_source env ctx prepared b)"
    and "\<And>bid prepared. mild (sv_write_prepared_input env bid prepared)"
    and "dict_get (fs_batches w) (br_batch_id b) = None" and "br_batch_id b' = br_batch_id b"
  shows "\<exists>w1. materialize_batch env ctx prepared b w = (Inr (b, True), w1) \<and> batch_at UNIV (br_batch_id b) w1
    \<and> (\<forall>w2. batch_at UNIV (br_batch_id b) w2 \<longrightarrow>
         (\<exists>old r w3. dict_get (fs_batches w2) (br_batch_id b) = Some old
            \<and> materialize_batch env ctx' prepared' b' w2 = (r, w3) \<and> fs_batches w3 = fs_batches w2
            \<and> (if batch_submission_fingerprint (sv_repr env) old \<noteq> []
                  \<and> batch_submission_fingerprint (sv_repr env) old = batch_submission_fingerprint (sv_repr env) b'
               then r = Inr (old, False) else (\<exists>e. r = Inl e \<and> exn_class e = RuntimeError))))"
proof -
  obtain w1 where w1: "materialize_batch env ctx prepared b w = (Inr (b, True), w1)"
    "fs_batches w1 = dict_set (br_batch_id b) b (fs_batches w)"
    using materialize_batch_cases(1) [OF assms(1-4) assms(5)] by blast
  then have "batch_at UNIV (br_batch_id b) w1" by (simp add: batch_at_def dict_get_set)
  moreover have "\<exists>old r w3. dict_get (fs_batches w2) (br_batch_id b) = Some old
      \<and> materialize_batch env ctx' prepared' b' w2 = (r, w3) \<and> fs_batches w3 = fs_batches w2
      \<and> (if batch_submission_fingerprint (sv_repr env) old \<noteq> []
            \<and> batch_submission_fingerprint (sv_repr env) old = batch_submission_fingerprint (sv_repr env) b'
         then r = Inr (old, False) else (\<exists>e. r = Inl e \<and> exn_class e = RuntimeError))"
    if b2: "batch_at UNIV (br_batch_id b) w2" for w2
  proof -
    obtain old where old: "dict_get (fs_batches w2) (br_batch_id b') = Some old" using b2 assms(6) by (auto simp: batch_at_def)
    from materialize_batch_cases(2) [OF assms(1-4) old, of ctx' prepared'] old assms(6) show ?thesis
      by (auto split: if_splits)
  qed
  ultimately show ?thesis using w1(1) by blast
qed

definition sample_submission_env :: "'w run_store \<Rightarrow> 'w submission_env" where
  "sample_submission_env st =
     \<lparr>sv_store = st, sv_port = quiet_port, sv_environ = (\<lambda>_. None), sv_repr = (\<lambda>_. []), sv_digest = (\<lambda>_. ''d''), sv_sha = (\<lambda>s. s),
      sv_dump = (\<lambda>_. JNull), sv_execution_dump = (\<lambda>_. JNull), sv_attach_playbook_hints = (\<lambda>_ t. retE t),
      sv_write_prepared_input = (\<lambda>_ _. retE ()), sv_write_rerun_source = (\<lambda>_ _ _. retE ()),
      sv_monotonic_ms = retE 0, sv_sleep = retE (), sv_expired = retE False\<rparr>"

lemma sample_submission_env_keeps: "env_keeps (sample_submission_env st) P"
  by (simp add: env_keeps_def sample_submission_env_def quiet_port_keeps)

lemma sample_submission_env_simps [simp]:
  "sv_store (sample_submission_env st) = st"
  "mild (sv_write_rerun_source (sample_submission_env st) ctx prepared b)"
  "mild (sv_write_prepared_input (sample_submission_env st) bid prepared)"
  by (simp_all add: sample_submission_env_def mild_pure)

definition sample_ctx :: turn_context where
  "sample_ctx =
     \<lparr>tc_username = ''u'', tc_agent_id = ''a'', tc_agent_instance_id = 1, tc_project_id = 1, tc_conversation_id = 1, tc_turn_id = 1,
      tc_plan_editor = \<lparr>pe_agent_instance_id = 1, pe_username = ''u'', pe_turn_id = 1, pe_conversation_id = 1\<rparr>,
      tc_submission_id = ''s'', tc_submission_source = [], tc_batch_ids = []\<rparr>"

definition sample_prepared :: prepared_task_batch where
  "sample_prepared = \<lparr>pb_batch = sample_plan_input, pb_batch_metadata = [], pb_adapter_state = []\<rparr>"

theorem one_owner_per_submission_witness:
  "\<exists>w1. materialize_batch (sample_submission_env (file_run_store (\<lambda>_. []) [])) sample_ctx sample_prepared
       ((sample_batch B_RUNNING)\<lparr>br_batch_id := ''n''\<rparr>) (sample_store []) = (Inr ((sample_batch B_RUNNING)\<lparr>br_batch_id := ''n''\<rparr>, True), w1)
     \<and> batch_at UNIV ''n'' w1"
proof -
  have n: "dict_get (fs_batches (sample_store [])) (br_batch_id ((sample_batch B_RUNNING)\<lparr>br_batch_id := ''n''\<rparr>)) = None"
    by (simp add: sample_store_def)
  from one_owner_per_submission [OF sample_submission_env_simps(1) sample_submission_env_keeps
      sample_submission_env_simps(2,3) n refl, of "\<lambda>_. []" "[]" sample_ctx sample_prepared sample_ctx sample_prepared]
  show ?thesis by auto
qed

subsection \<open>The runs of a submission\<close>

abbreviation on_runs :: "((run_key, task_run) dict \<Rightarrow> bool) \<Rightarrow> 'z fs_world_scheme \<Rightarrow> bool" where
  "on_runs Q w \<equiv> Q (fs_runs w)"

text \<open>The run a caller holds is stored: under its own identifiers, or as the run that has its key.\<close>

definition held :: "batch_record \<Rightarrow> (run_key, task_run) dict \<Rightarrow> task_run \<Rightarrow> bool" where
  "held batch R run \<longleftrightarrow>
     (if tr_runtime_reuse run
      then \<exists>k r. dict_get R k = Some r \<and> tr_run_id r = tr_run_id run \<and> tr_idempotency_key r = tr_idempotency_key run
      else tr_status run = QUEUED \<and> tr_batch_id run = br_batch_id batch
           \<and> (\<exists>r. dict_get R (run_key_of run) = Some r \<and> tr_run_id r = tr_run_id run
                \<and> py_strip (tr_idempotency_key r) = py_strip (tr_idempotency_key run)))"

text \<open>\<open>grown R\<close>: the run files of \<open>R\<close> are still there, unchanged, and no key is doubled.\<close>

definition grown :: "(run_key, task_run) dict \<Rightarrow> (run_key, task_run) dict \<Rightarrow> bool" where
  "grown R R' \<longleftrightarrow> dict_ok R' \<and> (\<forall>k r. dict_get R k = Some r \<longrightarrow> dict_get R' k = Some r)"

lemma grown_refl: "dict_ok R \<Longrightarrow> grown R R"
  by (simp add: grown_def)

lemma grown_trans: "grown R R' \<Longrightarrow> grown R' R'' \<Longrightarrow> grown R R''"
  unfolding grown_def by blast

lemma grown_ok: "grown R R' \<Longrightarrow> dict_ok R'"
  by (simp add: grown_def)

lemma held_grown: "held batch R run \<Longrightarrow> grown R R' \<Longrightarrow> held batch R' run"
  unfolding held_def grown_def by (cases "tr_runtime_reuse run") (simp_all only: if_True if_False simp_thms, blast+)

lemma create_run_grows:
  "preserves (on_runs (grown R)) (create_run run)"
  by (rule preservesI)
    (auto simp: create_run_def Let_def put_run_def lookup_idempotent_def grown_def dict_get_set split: option.splits)

lemma create_or_reuse_held:
  assumes st: "sv_store env = file_run_store sha rt" and fresh: "tr_status run = QUEUED" "\<not> tr_runtime_reuse run" "tr_batch_id run = br_batch_id batch"
    and ok: "dict_ok (fs_runs w)" and c: "create_or_reuse env run w = (Inr run', w')"
  shows "held batch (fs_runs w') run' \<and> tr_batch_item_index run' = tr_batch_item_index run
    \<and> tr_parent_tool_call_id run' = tr_parent_tool_call_id run"
proof -
  obtain q w1 where q: "create_run run w = (q, w1)" by (cases "create_run run w")
  show ?thesis
  proof (cases q)
    case (Inr u)
    with c q st have r: "run' = run" "w' = w1" by (simp_all add: create_or_reuse_def catch_class_def)
    have "\<exists>r. dict_get (fs_runs w1) (run_key_of run) = Some r \<and> tr_run_id r = tr_run_id run
        \<and> py_strip (tr_idempotency_key r) = py_strip (tr_idempotency_key run)"
      using q Inr
      by (auto simp: create_run_def Let_def put_run_def lookup_idempotent_def run_key_of_def dict_get_set
          same_run_creation_identity_def split: option.splits if_splits)
    with r fresh show ?thesis by (simp add: held_def)
  next
    case (Inl e)
    with q c st have "exn_class e = IdempotencyCollisionError" by (auto simp: create_or_reuse_def catch_class_def split: if_splits)
    with q c st Inl obtain win where win: "find (\<lambda>x. tr_idempotency_key x = tr_idempotency_key run) (dict_values (fs_runs w1)) = Some win"
      "run' = (bind_reused_run_to_current_plan win run)\<lparr>tr_runtime_reuse := True\<rparr>" "w' = w1"
      by (auto simp: create_or_reuse_def catch_class_def lookup_idempotent_def split: option.splits)
    have ok1: "dict_ok (fs_runs w1)"
      using grown_ok [OF preservesD [OF create_run_grows [of "fs_runs w"] _ q]] grown_refl [OF ok] by simp
    from win(1) have "win \<in> set (dict_values (fs_runs w1))" and key: "tr_idempotency_key win = tr_idempotency_key run"
      by (auto simp: find_Some_iff)
    then obtain k where "(k, win) \<in> set (fs_runs w1)" by (metis imageE prod.collapse set_map)
    with ok1 have "dict_get (fs_runs w1) k = Some win" by (simp add: dict_ok_get_iff)
    moreover have "tr_runtime_reuse run'" "tr_run_id run' = tr_run_id win" "tr_idempotency_key run' = tr_idempotency_key win"
      "tr_batch_item_index run' = tr_batch_item_index run" "tr_parent_tool_call_id run' = tr_parent_tool_call_id run"
      unfolding win(2) bind_reused_run_to_current_plan_def by simp_all
    ultimately show ?thesis unfolding held_def win(3) by (simp only: if_True) metis
  qed
qed

lemma create_or_reuse_grows:
  assumes "sv_store env = file_run_store sha rt"
  shows "preserves (on_runs (grown R)) (create_or_reuse env run)"
  unfolding create_or_reuse_def assms file_run_store_ops
  by (intro preserves_intros create_run_grows) (simp add: lookup_idempotent_def)

lemma build_run_fields:
  assumes "build_run env ctx batch task call child i w = (Inr run, w')"
  shows "tr_status run = QUEUED \<and> \<not> tr_runtime_reuse run \<and> tr_batch_id run = br_batch_id batch
    \<and> tr_batch_item_index run = i \<and> tr_parent_tool_call_id run = Some call \<and> fs_runs w' = fs_runs w"
  using assms by (auto simp: build_run_def bindE_Inr_iff now_ms_def uuid4_hex_def)

lemma create_one_run_held:
  assumes st: "sv_store env = file_run_store sha rt" and keep: "\<And>R. env_keeps env (on_runs ((=) R))"
    and ok: "dict_ok (fs_runs w)" and c: "create_one_run env ctx batch call (i, task) w = (Inr run, w')"
  shows "held batch (fs_runs w') run \<and> tr_batch_item_index run = int i \<and> tr_parent_tool_call_id run = Some call
    \<and> grown (fs_runs w) (fs_runs w')"
proof -
  have same: "fs_runs v' = fs_runs v" if "preserves (on_runs ((=) (fs_runs v))) m" "m v = (r, v')"
    for v v' :: "'a fs_world_scheme" and m :: "('a fs_world_scheme, 'c) io" and r
    using preservesD [OF that(1) _ that(2)] by simp
  obtain t w1 child w2 run0 w3 u w4 where
    t: "sv_attach_playbook_hints env ctx task w = (Inr t, w1)"
    and child: "pp_add_task_sub_call (sv_port env) ctx call t (int i) w1 = (Inr child, w2)"
    and b: "build_run env ctx batch t call child (int i) w2 = (Inr run0, w3)"
    and u: "pp_mark_run_queued (sv_port env) ctx run0 w3 = (Inr u, w4)"
    and cr: "create_or_reuse env run0 w4 = (Inr run, w')"
    using c by (auto simp: create_one_run_def bindE_Inr_iff thenE_Inr_iff)
  note bf = build_run_fields [OF b]
  have "fs_runs w4 = fs_runs w"
    using same [OF env_keepsD(2) [OF keep] t] same [OF port_keepsD(5) [OF env_keepsD(1) [OF keep]] child] bf
      same [OF port_keepsD(8) [OF env_keepsD(1) [OF keep]] u] by simp
  moreover have "grown (fs_runs w4) (fs_runs w')"
    by (rule preservesD [OF create_or_reuse_grows [OF st] _ cr])
      (use grown_refl [OF ok] \<open>fs_runs w4 = fs_runs w\<close> in simp)
  ultimately show ?thesis
    using create_or_reuse_held [OF st _ _ _ _ cr, of batch] bf ok by simp
qed

lemma create_items_held:
  assumes st: "sv_store env = file_run_store sha rt" and keep: "\<And>R. env_keeps env (on_runs ((=) R))"
  shows "dict_ok (fs_runs w) \<Longrightarrow> mapE (create_one_run env ctx batch call) (enumerate n tasks) w = (Inr runs, w') \<Longrightarrow>
     map tr_batch_item_index runs = map int [n..<n + length tasks]
     \<and> (\<forall>run \<in> set runs. held batch (fs_runs w') run \<and> tr_parent_tool_call_id run = Some call) \<and> grown (fs_runs w) (fs_runs w')"
proof (induction tasks arbitrary: n w runs)
  case (Cons task tasks)
  from Cons.prems(2) obtain run w1 rest where run: "create_one_run env ctx batch call (n, task) w = (Inr run, w1)"
    and rest: "mapE (create_one_run env ctx batch call) (enumerate (Suc n) tasks) w1 = (Inr rest, w')" and runs: "runs = run # rest"
    by (auto simp: bindE_Inr_iff)
  note one = create_one_run_held [OF st keep Cons.prems(1) run]
  have "dict_ok (fs_runs w1)" using one grown_ok by blast
  note ih = Cons.IH [OF this rest]
  have "[n..<n + length (task # tasks)] = n # [Suc n..<Suc n + length tasks]"
    using upt_conv_Cons [of n "n + length (task # tasks)"] by simp
  with one ih held_grown [of batch "fs_runs w1" run "fs_runs w'"] grown_trans [of "fs_runs w" "fs_runs w1" "fs_runs w'"] runs
  show ?case by (simp del: upt_Suc)
qed (simp add: grown_refl)

text \<open>
  Every task of a submission gets its run: when \<^verbatim>\<open>create_runs\<close> returns, it returns one run per task, at the
  task's position and bound to the batch's tool call; a new run is queued and stored under the batch, a reused
  one is the stored run with the same idempotency key; and no run file that was there before has changed.
\<close>

theorem create_runs_cover:
  assumes "sv_store env = file_run_store sha rt" and "\<And>R. env_keeps env (on_runs ((=) R))" and "dict_ok (fs_runs w)"
    and "create_runs env ctx prepared batch call w = (Inr runs, w')"
  shows "map tr_batch_item_index runs = map int [0..<length (tb_tasks (pb_batch prepared))]
    \<and> (\<forall>run \<in> set runs. held batch (fs_runs w') run \<and> tr_parent_tool_call_id run = Some call)
    \<and> (\<forall>k r. dict_get (fs_runs w) k = Some r \<longrightarrow> dict_get (fs_runs w') k = Some r)"
  using create_items_held [OF assms(1-3) assms(4) [unfolded create_runs_def]] unfolding grown_def add_0 by blast

lemma sample_create_runs:
  "\<exists>run w'. create_runs (sample_submission_env (file_run_store (\<lambda>_. []) [])) sample_ctx sample_prepared (sample_batch B_RUNNING) 7 (sample_store [])
     = (Inr [run], w')"
proof -
  have "\<exists>p. resolve_policy (sample_spec\<lparr>ts_stage := 0\<rparr>) = Inr p" by (simp add: resolve_policy_def sample_spec_def)
  moreover have "py_strip ''s'' = ''s''" by code_simp
  ultimately show ?thesis
    by (auto simp: create_runs_def create_one_run_def sample_submission_env_def quiet_port_def sample_prepared_def sample_plan_input_def
        build_run_def compute_idempotency_key_def sample_ctx_def create_or_reuse_def catch_class_def create_run_def put_run_def
        lookup_idempotent_def sample_store_def Let_def)
qed

theorem create_runs_cover_witness:
  "\<exists>run w'. create_runs (sample_submission_env (file_run_store (\<lambda>_. []) [])) sample_ctx sample_prepared (sample_batch B_RUNNING) 7 (sample_store [])
     = (Inr [run], w') \<and> tr_batch_item_index run = 0 \<and> held (sample_batch B_RUNNING) (fs_runs w') run"
proof -
  obtain run w' where c: "create_runs (sample_submission_env (file_run_store (\<lambda>_. []) [])) sample_ctx sample_prepared (sample_batch B_RUNNING) 7
      (sample_store []) = (Inr [run], w')" using sample_create_runs by blast
  have "dict_ok (fs_runs (sample_store []))" by (simp add: sample_store_def)
  from create_runs_cover [OF sample_submission_env_simps(1) sample_submission_env_keeps this c] c show ?thesis
    by (auto simp: sample_prepared_def sample_plan_input_def)
qed

subsection \<open>Convergence\<close>

lemma awaitE_unexpired: "sv_expired env = retE False \<Longrightarrow> awaitE env m = m"
  by (rule ext) (simp add: awaitE_def)

lemma converge_round_visible:
  assumes "sv_expired env = retE False" and "rs_get_batch (sv_store env) (br_batch_id cand) w = (Inr b, w)"
  shows "converge_round env cand remove w =
     (if materialization_token (sv_repr env) b \<noteq> materialization_token (sv_repr env) cand
      then thenE (if br_parent_tool_call_id b \<noteq> br_parent_tool_call_id cand then suppressE remove else retE ()) (retE False)
      else bindE (catch_Exception
              (thenE (rs_cancel_batch (sv_store env) (br_batch_id cand) ''Task runtime interrupted during batch materialization.'') (retE False))
              (\<lambda>_. retE True)) (\<lambda>retry. if retry then thenE (sv_sleep env) (retE True) else retE False)) w"
  using assms(2) by (simp add: converge_round_def awaitE_unexpired [OF assms(1)] catch_Exception_def Let_def)

text \<open>
  C12. A materialisation that was interrupted leaves no batch of its own running and touches nobody else's. Once the
  batch is visible and the time has not run out, the convergence task ends at once: when the stored batch carries
  the candidate's token it is settled with every run of it, and when it carries another token the batch and run files are
  unchanged.
\<close>

theorem failed_materialization_converges:
  assumes "sv_store env = file_run_store sha rt" and "sv_expired env = retE False"
    and "\<And>T. preserves (\<lambda>w. (fs_batches w, fs_runs w) = T) remove" and "mild remove"
    and "named w" and "dict_get (fs_batches w) (br_batch_id cand) = Some b" and "br_batch_id b = br_batch_id cand"
  shows "\<exists>w'. cancel_owned_batch_when_visible env cand remove w = Some (Inr (), w')
    \<and> (if materialization_token (sv_repr env) b = materialization_token (sv_repr env) cand
       then batch_at {s. is_terminal_batch_status s} (br_batch_id cand) w'
         \<and> (br_status b \<in> {B_QUEUED, B_RUNNING} \<longrightarrow>
              (\<forall>k \<in> set (dict_keys (fs_runs w)). fst k = br_batch_id cand \<longrightarrow> idle k w'))
       else fs_batches w' = fs_batches w \<and> fs_runs w' = fs_runs w)"
proof -
  have gb: "rs_get_batch (sv_store env) (br_batch_id cand) w = (Inr b, w)" using assms(1,6) by (simp add: get_batch_def)
  show ?thesis
proof (cases "materialization_token (sv_repr env) b = materialization_token (sv_repr env) cand")
  case True
  have "batch_at UNIV (br_batch_id cand) w" using assms(6,7) by (auto simp: batch_at_def)
  from cancel_batch_settles [OF assms(5) this, of "''Task runtime interrupted during batch materialization.''"] obtain w' where
    w': "cancel_batch (br_batch_id cand) ''Task runtime interrupted during batch materialization.'' w = (Inr (), w')"
      "batch_at {s. is_terminal_batch_status s} (br_batch_id cand) w'"
      "\<forall>k r. dict_get (fs_batches w) (br_batch_id cand) = Some r \<longrightarrow> br_status r \<in> {B_QUEUED, B_RUNNING} \<longrightarrow>
         k \<in> set (dict_keys (fs_runs w)) \<longrightarrow> fst k = br_batch_id cand \<longrightarrow> idle k w'" by blast
  have "catch_Exception
      (thenE (rs_cancel_batch (sv_store env) (br_batch_id cand) ''Task runtime interrupted during batch materialization.'') (retE False))
      (\<lambda>_. retE True) w = (Inr False, w')"
    using w'(1) assms(1) by (simp add: catch_Exception_def)
  then have "converge_round env cand remove w = (Inr False, w')"
    using True by (simp add: converge_round_visible [OF assms(2) gb])
  then have "cancel_owned_batch_when_visible env cand remove w = Some (Inr (), w')"
    unfolding cancel_owned_batch_when_visible_def catchP_def by (subst whileE.simps) simp
  moreover have "br_status b \<in> {B_QUEUED, B_RUNNING} \<longrightarrow>
      (\<forall>k \<in> set (dict_keys (fs_runs w)). fst k = br_batch_id cand \<longrightarrow> idle k w')" using w'(3) assms(6) by blast
  ultimately show ?thesis unfolding if_P [OF True] using w'(2) by blast
next
  case False
  obtain w' where w': "suppressE remove w = (Inr (), w')" "fs_batches w' = fs_batches w" "fs_runs w' = fs_runs w"
  proof -
    obtain w' where s: "suppressE remove w = (Inr (), w')" using suppress_answers [OF assms(4)] by blast
    with preservesD [OF preserves_suppressE [OF assms(3) [of "(fs_batches w, fs_runs w)"]] refl s] that show ?thesis by simp
  qed
  have "\<exists>v. converge_round env cand remove w = (Inr False, v) \<and> fs_batches v = fs_batches w \<and> fs_runs v = fs_runs w"
    using False w' by (simp add: converge_round_visible [OF assms(2) gb])
  then obtain v where "converge_round env cand remove w = (Inr False, v)" "fs_batches v = fs_batches w" "fs_runs v = fs_runs w" by blast
  moreover from this have "cancel_owned_batch_when_visible env cand remove w = Some (Inr (), v)"
    unfolding cancel_owned_batch_when_visible_def catchP_def by (subst whileE.simps) simp
  ultimately show ?thesis using False by simp
qed
qed

theorem failed_materialization_converges_witness:
  "\<exists>w'. cancel_owned_batch_when_visible (sample_submission_env (file_run_store (\<lambda>_. []) [])) (sample_batch B_RUNNING) (retE ())
       (sample_store [sample_run ''r'' RUNNING]) = Some (Inr (), w')
     \<and> batch_at {s. is_terminal_batch_status s} ''b'' w' \<and> idle (''b'', ''r'') w'"
proof -
  let ?w = "sample_store [sample_run ''r'' RUNNING]"
  have ok: "named ?w" by (simp add: named_def sample_store_def dict_ok_def run_key_of_def sample_run_def)
  have g: "dict_get (fs_batches ?w) (br_batch_id (sample_batch B_RUNNING)) = Some (sample_batch B_RUNNING)"
    by (simp add: sample_store_def sample_batch_def)
  have e: "sv_expired (sample_submission_env st) = retE False" for st :: "fs_world run_store"
    by (simp add: sample_submission_env_def)
  have k: "(''b'', ''r'') \<in> set (dict_keys (fs_runs ?w))" by (simp add: sample_store_def run_key_of_def sample_run_def)
  from failed_materialization_converges [OF sample_submission_env_simps(1) e _ _ ok g refl, where remove = "retE ()"] k
  show ?thesis by (simp add: mild_pure sample_batch_def) force
qed

end
