(* ===== verification/Submitter.thy ===== *)
theory Submitter
  imports Materialization
begin

section \<open>The submission pipeline\<close>

text \<open>
  \<^verbatim>\<open>orchestration/submitter.py\<close>. A submission is planned and materialised; the caller that created
  the batch executes it, every other caller observes it. The record \<open>submitter\<close> adds to the environment of
  the materialiser what the constructor of \<^verbatim>\<open>Submitter\<close> is given: the planner's view of the sandboxes, the
  hooks of the staged executor, the sandbox clean-up and the batch directory. The heartbeat task runs beside
  the owner; \<open>su_beater_done\<close> says whether it had ended when a cancellation arrived. Delays are in
  milliseconds. The variables that a handler reads (the batch object, the candidate, the provisional tool
  call) are local variables of the model.
\<close>

record 'w submitter =
  su_env :: "'w submission_env"
  su_staged :: "'w staged_hooks"
  su_max_concurrency :: int
  su_skill_loader :: "(string \<Rightarrow> string list option) option"
  su_available_count :: "turn_context \<Rightarrow> string \<Rightarrow> ('w, int option) io"
  su_cleanup_batch :: "turn_context \<Rightarrow> batch_record \<Rightarrow> ('w, unit) io"
  su_batch_dir :: "string \<Rightarrow> string result"
  su_write_batch_result :: "string \<Rightarrow> batch_result \<Rightarrow> ('w, unit) io"
  su_beater_done :: "('w, bool) io"

abbreviation su_store :: "'w submitter \<Rightarrow> 'w run_store" where
  "su_store su \<equiv> sv_store (su_env su)"

abbreviation su_port :: "'w submitter \<Rightarrow> 'w progress_port" where
  "su_port su \<equiv> sv_port (su_env su)"

definition PROJECTION_RECONCILE_ATTEMPTS :: nat where
  "PROJECTION_RECONCILE_ATTEMPTS = 3"

definition PROVISIONAL_PROJECTION_REMOVE_ATTEMPTS :: nat where
  "PROVISIONAL_PROJECTION_REMOVE_ATTEMPTS = 3"

definition FAILED_BATCH_RUN_CLEANUP_ATTEMPTS :: nat where
  "FAILED_BATCH_RUN_CLEANUP_ATTEMPTS = 3"

definition heartbeat_death :: "string \<Rightarrow> exn" where
  "heartbeat_death batch_id =
     Exn (OtherError ''_HeartbeatDeathError'') (''Batch '' @ batch_id @ '' aborted: heartbeat to backend lost'')"

subsection \<open>Projections\<close>

definition settle_batch_projection :: "'w submitter \<Rightarrow> turn_context \<Rightarrow> int \<Rightarrow> string \<Rightarrow> batch_status \<Rightarrow> ('w, unit) io" where
  "settle_batch_projection su ctx parent_tool_call_id batch_id status =
     thenE (suppressE (pp_mark_delegate_tasks_terminal (su_port su) ctx parent_tool_call_id status batch_id))
       (suppressE (pp_mark_parent_step_terminal_if_settled (su_port su) ctx parent_tool_call_id status batch_id))"

primrec sync_attempts ::
    "'w submitter \<Rightarrow> turn_context \<Rightarrow> batch_record \<Rightarrow> task_run list \<Rightarrow> task_result list \<Rightarrow> batch_projection_options \<Rightarrow> bool
       \<Rightarrow> nat \<Rightarrow> ('w, bool) io" where
  "sync_attempts su ctx batch runs results opts required 0 =
     (if \<not> required then retE False
      else raiseE (Exn RuntimeError (''failed to sync plan projection for batch '' @ br_batch_id batch)))"
| "sync_attempts su ctx batch runs results opts required (Suc left_over) =
     bindE (catchE (bindE (pp_sync_batch_projection (su_port su) ctx batch runs results opts) (\<lambda>updated. retE (Some updated)))
              (\<lambda>e. if exn_class e = ProjectionIntegrityError \<or> \<not> is_Exception e then raiseE e else retE None)) (\<lambda>updated.
       if updated = Some True then retE True
       else if updated = Some False \<and> \<not> required then retE False
       else thenE (if 0 < left_over then sv_sleep (su_env su) else retE ())
              (sync_attempts su ctx batch runs results opts required left_over))"

definition sync_projection ::
    "'w submitter \<Rightarrow> turn_context \<Rightarrow> batch_record \<Rightarrow> task_run list \<Rightarrow> task_result list \<Rightarrow> batch_projection_options \<Rightarrow> bool
       \<Rightarrow> ('w, bool) io" where
  "sync_projection su ctx batch runs results opts required =
     sync_attempts su ctx batch runs results opts required PROJECTION_RECONCILE_ATTEMPTS"

primrec remove_attempts :: "'w submitter \<Rightarrow> turn_context \<Rightarrow> int \<Rightarrow> string \<Rightarrow> nat \<Rightarrow> ('w, bool) io" where
  "remove_attempts su ctx parent_tool_call_id batch_id 0 = retE False"
| "remove_attempts su ctx parent_tool_call_id batch_id (Suc left_over) =
     bindE (pp_remove_delegate_tasks_call (su_port su) ctx parent_tool_call_id batch_id) (\<lambda>removed.
       if removed then retE True
       else thenE (if 0 < left_over then sv_sleep (su_env su) else retE ())
              (remove_attempts su ctx parent_tool_call_id batch_id left_over))"

definition remove_provisional_projection :: "'w submitter \<Rightarrow> turn_context \<Rightarrow> int \<Rightarrow> string \<Rightarrow> ('w, bool) io" where
  "remove_provisional_projection su ctx parent_tool_call_id batch_id =
     remove_attempts su ctx parent_tool_call_id batch_id PROVISIONAL_PROJECTION_REMOVE_ATTEMPTS"

definition create_batch_projection :: "'w submitter \<Rightarrow> turn_context \<Rightarrow> prepared_task_batch \<Rightarrow> ('w, int) io" where
  "create_batch_projection su ctx prepared =
     thenE (pp_ensure_delegate_tasks_plan (su_port su) ctx prepared)
       (pp_create_delegate_tasks_call (su_port su) ctx prepared
          (batch_id_for_submission (sv_sha (su_env su)) (tc_submission_id ctx)))"

subsection \<open>Liveness of the batch\<close>

definition abort_after_failures :: "environ \<Rightarrow> int" where
  "abort_after_failures env =
     (let interval = task_runtime_heartbeat_interval_seconds env; stale_after_ms = stale_run_after_ms env
      in if 0 < stale_after_ms then max (stale_after_ms div (interval * 1000)) 1 else 0)"

text \<open>
  \<^verbatim>\<open>_beat\<close>: \<open>ticks\<close> is the number of intervals that pass before the owner sets the stop event. The
  value says whether the beater has aborted the batch; it counts the failures since the last success.
\<close>

primrec beat :: "'w run_store \<Rightarrow> string \<Rightarrow> int \<Rightarrow> int \<Rightarrow> nat \<Rightarrow> ('w, bool) io" where
  "beat st batch_id abort_after consecutive_failures 0 = retE False"
| "beat st batch_id abort_after consecutive_failures (Suc ticks) =
     bindE (catch_Exception (thenE (rs_heartbeat_batch st batch_id) (retE True)) (\<lambda>_. retE False)) (\<lambda>alive.
       if alive then beat st batch_id abort_after 0 ticks
       else if abort_after \<noteq> 0 \<and> abort_after \<le> consecutive_failures + 1 then retE True
       else beat st batch_id abort_after (consecutive_failures + 1) ticks)"

definition heartbeat_batch_liveness :: "'w submitter \<Rightarrow> string \<Rightarrow> ('w, 'a) pio \<Rightarrow> ('w, 'a) pio" where
  "heartbeat_batch_liveness su batch_id body =
     catchP body (\<lambda>e.
       if exn_class e = CancelledError
       then bindE (su_beater_done su) (\<lambda>died. if died then raiseE (heartbeat_death batch_id) else raiseE e)
       else raiseE e)"

definition save_batch_result :: "'w submitter \<Rightarrow> string \<Rightarrow> batch_result \<Rightarrow> ('w, unit) io" where
  "save_batch_result su batch_id result = suppressE (su_write_batch_result su batch_id result)"

subsection \<open>Writers of an aborted batch\<close>

primrec cancel_active_attempts :: "'w run_store \<Rightarrow> string \<Rightarrow> string \<Rightarrow> nat \<Rightarrow> ('w, unit) io" where
  "cancel_active_attempts st batch_id reason 0 = retE ()"
| "cancel_active_attempts st batch_id reason (Suc left_over) =
     bindE (catch_Exception (bindE (rs_list_batch_runs st batch_id) (\<lambda>runs. retE (Some runs))) (\<lambda>_. retE None)) (\<lambda>listed.
       case listed of
         None \<Rightarrow> cancel_active_attempts st batch_id reason left_over
       | Some runs \<Rightarrow>
           let active_runs = filter (\<lambda>run. tr_status run \<in> {QUEUED, RUNNING}) runs in
           if active_runs = [] then retE ()
           else bindE (mapE (\<lambda>run. catch_Exception (thenE (rs_cancel_run st (tr_run_id run) reason) (retE True)) (\<lambda>_. retE False))
                        active_runs) (\<lambda>oks.
                  if list_all id oks then retE () else cancel_active_attempts st batch_id reason left_over))"

definition cancel_active_runs_after_failure :: "'w run_store \<Rightarrow> string \<Rightarrow> string \<Rightarrow> ('w, unit) io" where
  "cancel_active_runs_after_failure st batch_id reason =
     cancel_active_attempts st batch_id reason FAILED_BATCH_RUN_CLEANUP_ATTEMPTS"

definition mark_batch_failed ::
    "'z rt_world_scheme submitter \<Rightarrow> turn_context \<Rightarrow> batch_record \<Rightarrow> int \<Rightarrow> ('z rt_world_scheme, unit) io" where
  "mark_batch_failed su ctx batch parent_tool_call_id =
     thenE (cancel_active_runs_after_failure (su_store su) (br_batch_id batch) ''Batch failed before all runs completed.'')
    (thenE (suppressE (su_cleanup_batch su ctx batch))
    (bindE (transition_batch B_FAILED batch) (\<lambda>batch.
     bindE (or_now (br_ended_at batch)) (\<lambda>ended.
     let batch = batch\<lparr>br_ended_at := Some ended\<rparr> in
     bindE (catch_Exception (bindE (rs_update_batch (su_store su) batch) (\<lambda>u. retE (bu_batch u))) (\<lambda>_. retE batch)) (\<lambda>batch.
       if br_status batch = B_FAILED
       then suppressE (pp_mark_delegate_tasks_failed (su_port su) ctx parent_tool_call_id (br_batch_id batch))
       else settle_batch_projection su ctx parent_tool_call_id (br_batch_id batch) (br_status batch))))))"

definition mark_batch_cancelled ::
    "'z rt_world_scheme submitter \<Rightarrow> turn_context \<Rightarrow> batch_record \<Rightarrow> int \<Rightarrow> string \<Rightarrow> ('z rt_world_scheme, unit) io" where
  "mark_batch_cancelled su ctx batch parent_tool_call_id reason =
     bindE (transition_batch B_CANCELLED batch) (\<lambda>batch.
     bindE (or_now (br_ended_at batch)) (\<lambda>ended.
     let batch = batch\<lparr>br_cancellation_reason := reason, br_ended_at := Some ended\<rparr> in
     thenE (catch_Exception (rs_cancel_batch (su_store su) (br_batch_id batch) reason) (\<lambda>_. retE ()))
    (bindE (catch_Exception (rs_get_batch (su_store su) (br_batch_id batch)) (\<lambda>_. retE batch)) (\<lambda>batch.
     thenE (suppressE (su_cleanup_batch su ctx batch))
    (thenE (suppressE (bindE (safe_list_batch_runs (su_store su) (br_batch_id batch)) (\<lambda>cancelled_runs.
              pp_mark_cancelled_runs (su_port su) ctx cancelled_runs reason)))
       (settle_batch_projection su ctx parent_tool_call_id (br_batch_id batch) (br_status batch)))))))"

subsection \<open>The owner\<close>

text \<open>
  \<^verbatim>\<open>_execute_owned_batch\<close>. The local variable is the batch object: \<^verbatim>\<open>transition_batch\<close> changes it in
  place, and the answer of the store replaces it.
\<close>

abbreviation getbatch :: "(batch_record \<times> 'w, batch_record) io" where
  "getbatch \<equiv> getE fst"

definition settle_owned ::
    "'z rt_world_scheme submitter \<Rightarrow> task_run list \<Rightarrow> task_result list
       \<Rightarrow> (batch_record \<times> 'z rt_world_scheme, batch_result \<times> task_run list) io" where
  "settle_owned su runs results =
     bindE getbatch (\<lambda>batch.
     bindE (liftE (su_batch_dir su (br_batch_id batch))) (\<lambda>dir.
     let batch_result = aggregate batch results dir in
     bindE (onworld (transition_batch (bres_status batch_result) batch)) (\<lambda>batch.
     thenE (assign (\<lambda>_. batch\<lparr>br_counts := bd_counts (batch_result_digest_from_result batch_result 3 None)\<rparr>))
    (thenE (if br_ended_at batch = None
            then bindE (onworld now_ms) (\<lambda>now. assign (\<lambda>batch. batch\<lparr>br_ended_at := Some now\<rparr>)) else retE ())
    (bindE (onworld (rs_list_batch_runs (su_store su) (br_batch_id batch))) (\<lambda>stored.
     bindE (getE (\<lambda>s. sg_run_objects (su_staged su) (snd s) runs)) (\<lambda>objects.
     let final_runs = with_result_snapshots (merge_run_snapshots [objects, stored]) results in
     bindE getbatch (\<lambda>batch.
     bindE (onworld (rs_update_batch (su_store su) batch)) (\<lambda>updated.
     thenE (assign (\<lambda>_. bu_batch updated))
       (retE (if br_status (bu_batch updated) \<noteq> bres_status batch_result
              then batch_result\<lparr>bres_status := br_status (bu_batch updated)\<rparr> else batch_result, final_runs)))))))))))"

definition project_owned ::
    "'w submitter \<Rightarrow> turn_context \<Rightarrow> batch_record \<Rightarrow> task_run list \<Rightarrow> task_result list \<Rightarrow> ('w, unit) io" where
  "project_owned su ctx batch final_runs results =
     catchE (thenE (sync_projection su ctx batch final_runs results owner_finalization True) (retE ()))
       (\<lambda>e. if exn_class e = ProjectionIntegrityError then retE ()
            else if is_Exception e
            then settle_batch_projection su ctx (int_or (br_parent_tool_call_id batch) 0) (br_batch_id batch) (br_status batch)
            else raiseE e)"

definition owned_tail ::
    "'z rt_world_scheme submitter \<Rightarrow> turn_context \<Rightarrow> task_run list \<Rightarrow> task_result list
       \<Rightarrow> (batch_record \<times> 'z rt_world_scheme, batch_result) io" where
  "owned_tail su ctx runs results =
     bindE getbatch (\<lambda>batch.
     thenE (onworld (su_cleanup_batch su ctx batch))
    (bindE (onworld (finalize_nonterminal_runs (su_store su) (pp_mark_run_terminal (su_port su) ctx) batch results)) (\<lambda>results.
     bindE (settle_owned su runs results) (\<lambda>(batch_result, final_runs).
     bindE getbatch (\<lambda>batch.
     thenE (onworld (project_owned su ctx batch final_runs results))
    (thenE (onworld (save_batch_result su (br_batch_id batch) batch_result)) (retE batch_result)))))))"

definition owned_body ::
    "'z rt_world_scheme submitter \<Rightarrow> turn_context \<Rightarrow> prepared_task_batch \<Rightarrow> batch_execution_plan
       \<Rightarrow> (batch_record \<times> 'z rt_world_scheme, batch_result) pio" where
  "owned_body su ctx prepared execution_plan =
     bindP (totalP getbatch) (\<lambda>batch.
     bindP (totalP (onworld (create_runs (su_env su) ctx prepared batch (int_or (br_parent_tool_call_id batch) 0)))) (\<lambda>runs.
     bindP (totalP (onworld (pp_publish_parent_batch_progress (su_port su) ctx batch runs))) (\<lambda>_.
     bindP (onworldP (heartbeat_batch_liveness su (br_batch_id batch)
              (staged_run (sv_repr (su_env su)) (su_max_concurrency su) (su_staged su)
                 \<lparr>sb_batch = batch, sb_runs = runs, sb_join_strategy = br_join_strategy batch, sb_plan = execution_plan\<rparr>))) (\<lambda>results.
       totalP (owned_tail su ctx runs results)))))"

definition owned_handler ::
    "'z rt_world_scheme submitter \<Rightarrow> turn_context \<Rightarrow> int \<Rightarrow> exn \<Rightarrow> (batch_record \<times> 'z rt_world_scheme, batch_result) io" where
  "owned_handler su ctx parent_tool_call_id exc =
     bindE getbatch (\<lambda>batch.
       let settled = br_status batch \<in> set TERMINAL_BATCH_STATUSES in
       thenE (onworld
         (if exn_class exc = OtherError ''_HeartbeatDeathError''
          then if settled then retE ()
               else mark_batch_cancelled su ctx batch parent_tool_call_id
                      ''Batch aborted: heartbeat to backend lost, batch considered stale.''
          else if exn_class exc = CancelledError
          then if settled
               then settle_batch_projection su ctx (int_or (br_parent_tool_call_id batch) 0) (br_batch_id batch) (br_status batch)
               else mark_batch_cancelled su ctx batch parent_tool_call_id ''Task runtime interrupted before completion.''
          else if settled then retE () else mark_batch_failed su ctx batch parent_tool_call_id))
         (raiseE exc))"

definition execute_owned_batch ::
    "'z rt_world_scheme submitter \<Rightarrow> turn_context \<Rightarrow> prepared_task_batch \<Rightarrow> batch_record \<Rightarrow> batch_execution_plan
       \<Rightarrow> ('z rt_world_scheme, batch_result) pio" where
  "execute_owned_batch su ctx prepared batch execution_plan =
     withlocalsP batch
       (catchP (owned_body su ctx prepared execution_plan)
          (owned_handler su ctx (int_or (br_parent_tool_call_id batch) 0)))"

subsection \<open>The observer\<close>

record existing_batch_observation =
  ob_batch :: batch_record
  ob_results :: "task_result list"
  ob_runs :: "task_run list"
  ob_timed_out_run_ids :: "string list"

definition projectable_results :: "existing_batch_observation \<Rightarrow> task_result list" where
  "projectable_results ob = filter (\<lambda>r. res_run_id r \<notin> set (ob_timed_out_run_ids ob)) (ob_results ob)"

text \<open>The variables of the polling loop of \<^verbatim>\<open>_wait_for_existing_batch_results\<close>.\<close>

record observed =
  ov_batch :: batch_record
  ov_runs :: "(string, task_run) dict"
  ov_pending :: "string list"
  ov_results :: "(string, task_result) dict"

definition observe_run ::
    "'z rt_world_scheme run_store \<Rightarrow> (string, task_run) dict \<Rightarrow> task_run \<Rightarrow> (observed \<times> 'z rt_world_scheme, unit) io" where
  "observe_run st templates stored =
     (let rid = tr_run_id stored in
      bindE (getE (\<lambda>s. ov_pending (fst s))) (\<lambda>pending.
        case dict_get templates rid of
          None \<Rightarrow> retE ()
        | Some template \<Rightarrow>
            if rid \<notin> set pending then retE ()
            else
              let current = stored\<lparr>tr_parent_tool_call_id := tr_parent_tool_call_id template,
                                   tr_plan_batch_call_id := tr_plan_batch_call_id template\<rparr> in
              thenE (assign (\<lambda>v. v\<lparr>ov_runs := dict_set rid current (ov_runs v)\<rparr>))
             (if tr_status stored \<notin> set TERMINAL_STATUSES then retE ()
              else
                bindE (onworld (catch_Exception
                         (bindE (rs_get_task_detail st rid VIEW_SUMMARY) (\<lambda>d. retE (Some d))) (\<lambda>_. retE None))) (\<lambda>detail.
                  case detail of
                    None \<Rightarrow> retE ()
                  | Some d \<Rightarrow>
                      bindE (case det_result d of
                               Some r \<Rightarrow> retE r
                             | None \<Rightarrow> onworld (terminal_result_from_run (det_run d) None)) (\<lambda>result.
                        assign (\<lambda>v. v\<lparr>ov_results := dict_set rid result (ov_results v),
                                       ov_pending := remove1 rid (ov_pending v)\<rparr>))))))"

definition observe_round ::
    "'z rt_world_scheme submission_env \<Rightarrow> string \<Rightarrow> (string, task_run) dict \<Rightarrow> int \<Rightarrow> (observed \<times> 'z rt_world_scheme, bool) io" where
  "observe_round env batch_id templates deadline =
     (let st = sv_store env; again = thenE (onworld (sv_sleep env)) (retE True) in
      bindE (onworld (sv_monotonic_ms env)) (\<lambda>now.
        if deadline \<le> now then retE False
        else
          bindE (onworld (catch_Exception
                   (bindE (rs_list_batch_runs st batch_id) (\<lambda>runs. retE (Some runs))) (\<lambda>_. retE None))) (\<lambda>listed.
          thenE (case listed of None \<Rightarrow> retE () | Some stored_runs \<Rightarrow> forE stored_runs (observe_run st templates))
         (bindE (getE (\<lambda>s. ov_pending (fst s))) (\<lambda>pending.
            if pending \<noteq> [] then again
            else
              thenE (catch_Exception
                       (bindE (onworld (rs_get_batch st batch_id)) (\<lambda>b. assign (\<lambda>v. v\<lparr>ov_batch := b\<rparr>))) (\<lambda>_. retE ()))
             (bindE (getE (\<lambda>s. ov_batch (fst s))) (\<lambda>b.
                if br_status b \<in> set TERMINAL_BATCH_STATUSES then retE False else again)))))))"

definition timed_out_observation :: "int \<Rightarrow> int \<Rightarrow> int \<Rightarrow> task_run \<Rightarrow> task_result" where
  "timed_out_observation wait_timeout observed_at ended_at run =
     bare_result run BLOCKED (''Timed out waiting for prior run '' @ tr_run_id run @ '' to finish.'') (Some TRANSIENT)
       (''Timed out waiting for prior run after '' @ str_of_int wait_timeout @ ''s.'') observed_at ended_at (ended_at - observed_at)"

definition finish_observation ::
    "'z rt_world_scheme submission_env \<Rightarrow> string \<Rightarrow> task_run list \<Rightarrow> int \<Rightarrow> int
       \<Rightarrow> (observed \<times> 'z rt_world_scheme, existing_batch_observation) io" where
  "finish_observation env batch_id runs wait_timeout observed_at =
     bindE (getE fst) (\<lambda>v.
     thenE (if ov_pending v = [] \<and> br_status (ov_batch v) \<notin> set TERMINAL_BATCH_STATUSES
            then suppressE (bindE (onworld (rs_get_batch (sv_store env) batch_id)) (\<lambda>b. assign (\<lambda>v. v\<lparr>ov_batch := b\<rparr>)))
            else retE ())
    (bindE (onworld now_ms) (\<lambda>ended_at.
     bindE (getE fst) (\<lambda>v.
       let results = fold (\<lambda>rid. dict_set rid (timed_out_observation wait_timeout observed_at ended_at (the (dict_get (ov_runs v) rid))))
                       (ov_pending v) (ov_results v)
       in retE \<lparr>ob_batch = ov_batch v, ob_results = map (\<lambda>run. the (dict_get results (tr_run_id run))) runs,
                ob_runs = map (\<lambda>run. the (dict_get (ov_runs v) (tr_run_id run))) runs,
                ob_timed_out_run_ids = ov_pending v\<rparr>))))"

definition wait_for_existing_batch_results ::
    "'z rt_world_scheme submission_env \<Rightarrow> batch_record \<Rightarrow> task_run list
       \<Rightarrow> ('z rt_world_scheme, existing_batch_observation) pio" where
  "wait_for_existing_batch_results env batch runs =
     (if runs = [] then totalP (raiseE (Exn RuntimeError (''existing batch '' @ br_batch_id batch @ '' has no materialized runs'')))
      else
        let wait_timeout = Max (set (map (reuse_wait_timeout_seconds (sv_environ env)) runs));
            templates = fold (\<lambda>run. dict_set (tr_run_id run) run) runs [] in
        bindP (totalP now_ms) (\<lambda>observed_at.
        bindP (totalP (sv_monotonic_ms env)) (\<lambda>started.
          withlocalsP \<lparr>ov_batch = batch, ov_runs = templates, ov_pending = dict_keys templates, ov_results = []\<rparr>
            (bindP (whileE (observe_round env (br_batch_id batch) templates (started + 1000 * wait_timeout))) (\<lambda>_.
               totalP (finish_observation env (br_batch_id batch) runs wait_timeout observed_at))))))"

text \<open>
  \<^verbatim>\<open>_observe_existing_batch\<close>, with the provisional tool call and the batch as local variables. First the
  result that is reported, then the projection, then the handler.
\<close>

record observer_vars =
  oc_provisional :: int
  oc_batch :: batch_record

definition observed_result :: "existing_batch_observation \<Rightarrow> string \<Rightarrow> batch_result" where
  "observed_result ob dir =
     (let batch = ob_batch ob; batch_result = aggregate batch (ob_results ob) dir
      in if br_status batch \<in> set TERMINAL_BATCH_STATUSES \<and> ob_timed_out_run_ids ob = []
         then batch_result\<lparr>bres_status := br_status batch\<rparr>
         else batch_result\<lparr>bres_status := B_BLOCKED\<rparr>)"

definition drop_provisional :: "'w submitter \<Rightarrow> turn_context \<Rightarrow> batch_record \<Rightarrow> (observer_vars \<times> 'w, bool) io" where
  "drop_provisional su ctx batch =
     bindE (getE (\<lambda>s. oc_provisional (fst s))) (\<lambda>provisional.
     bindE (onworld (remove_provisional_projection su ctx provisional (br_batch_id batch))) (\<lambda>removed.
     thenE (if removed then assign (\<lambda>v. v\<lparr>oc_provisional := 0\<rparr>) else retE ()) (retE removed)))"

definition project_observed ::
    "'w submitter \<Rightarrow> turn_context \<Rightarrow> prepared_task_batch \<Rightarrow> existing_batch_observation \<Rightarrow> batch_record
       \<Rightarrow> (observer_vars \<times> 'w, unit) io" where
  "project_observed su ctx prepared ob observed_batch =
     (let repair_projection = (ob_timed_out_run_ids ob = []);
          should_settle_projection = (br_status (ob_batch ob) \<in> set TERMINAL_BATCH_STATUSES \<and> ob_timed_out_run_ids ob = []) in
      thenE (if repair_projection then onworld (pp_ensure_delegate_tasks_plan (su_port su) ctx prepared) else retE ())
     (bindE (getE (\<lambda>s. oc_provisional (fst s))) (\<lambda>provisional.
      let needs_step_resettle = (should_settle_projection \<and> provisional \<noteq> 0); projected_results = projectable_results ob in
      thenE (if projected_results \<noteq> []
             then thenE (onworld (sync_projection su ctx observed_batch (ob_runs ob) projected_results
                          (observer_options repair_projection should_settle_projection) repair_projection)) (retE ())
             else retE ())
     (thenE (if provisional \<noteq> 0
             then bindE (drop_provisional su ctx observed_batch) (\<lambda>removed.
                    if removed then retE ()
                    else onworld (suppressE (pp_mark_delegate_tasks_terminal (su_port su) ctx provisional
                           (br_status observed_batch) (br_batch_id observed_batch))))
             else retE ())
        (if needs_step_resettle
         then thenE (onworld (sync_projection su ctx observed_batch (ob_runs ob) []
                       (no_options\<lparr>po_settle_batch := True\<rparr>) True)) (retE ())
         else retE ())))))"

definition observer_body ::
    "'z rt_world_scheme submitter \<Rightarrow> turn_context \<Rightarrow> prepared_task_batch \<Rightarrow> (observer_vars \<times> 'z rt_world_scheme, batch_result) pio" where
  "observer_body su ctx prepared =
     bindP (totalP (getE (\<lambda>s. oc_batch (fst s)))) (\<lambda>batch.
     bindP (onworldP (load_existing_batch_runs (su_env su) batch)) (\<lambda>runs.
     bindP (totalP (onworld (pp_sync_batch_projection (su_port su) ctx batch runs [] publish_current))) (\<lambda>_.
     bindP (totalP (bindE (getE (\<lambda>s. oc_provisional (fst s))) (\<lambda>provisional.
              if provisional \<noteq> 0 then thenE (drop_provisional su ctx batch) (retE ()) else retE ()))) (\<lambda>_.
     bindP (onworldP (wait_for_existing_batch_results (su_env su) batch runs)) (\<lambda>ob.
       totalP (thenE (assign (\<lambda>v. v\<lparr>oc_batch := ob_batch ob\<rparr>))
      (bindE (liftE (su_batch_dir su (br_batch_id (ob_batch ob)))) (\<lambda>dir.
         let batch_result = observed_result ob dir in
         bindE (onworld (or_now (br_ended_at (ob_batch ob)))) (\<lambda>ended.
         thenE (project_observed su ctx prepared ob
                  ((ob_batch ob)\<lparr>br_status := bres_status batch_result,
                     br_counts := bd_counts (batch_result_digest_from_result batch_result 3 None), br_ended_at := Some ended\<rparr>))
           (retE batch_result))))))))))"

definition observer_handler ::
    "'w submitter \<Rightarrow> turn_context \<Rightarrow> exn \<Rightarrow> (observer_vars \<times> 'w, batch_result) io" where
  "observer_handler su ctx exc =
     bindE (getE fst) (\<lambda>v.
       thenE (if oc_provisional v \<noteq> 0
              then bindE (onworld (remove_provisional_projection su ctx (oc_provisional v) (br_batch_id (oc_batch v)))) (\<lambda>removed.
                     if removed then retE ()
                     else onworld (suppressE (pp_mark_delegate_tasks_failed (su_port su) ctx (oc_provisional v) (br_batch_id (oc_batch v)))))
              else retE ())
         (raiseE exc))"

definition observe_existing_batch ::
    "'z rt_world_scheme submitter \<Rightarrow> turn_context \<Rightarrow> batch_record \<Rightarrow> prepared_task_batch \<Rightarrow> int \<Rightarrow> ('z rt_world_scheme, batch_result) pio" where
  "observe_existing_batch su ctx batch prepared created_parent_tool_call_id =
     withlocalsP
       \<lparr>oc_provisional = (if Some created_parent_tool_call_id \<noteq> br_parent_tool_call_id batch then created_parent_tool_call_id else 0),
        oc_batch = batch\<rparr>
       (catchP (observer_body su ctx prepared) (observer_handler su ctx))"

subsection \<open>Submission\<close>

text \<open>
  The turn's list of batch identifiers and the convergence tasks that have been started (the candidate
  and the provisional tool call) outlive the call.
\<close>

record submit_vars =
  sb_batch_ids :: "string list"
  sb_converging :: "(batch_record \<times> int) list"

definition record_context_batch_id :: "string \<Rightarrow> submit_vars \<Rightarrow> submit_vars" where
  "record_context_batch_id batch_id v =
     (if batch_id = [] \<or> batch_id \<in> set (sb_batch_ids v) then v else v\<lparr>sb_batch_ids := sb_batch_ids v @ [batch_id]\<rparr>)"

definition find_existing_submission_batch ::
    "'w submitter \<Rightarrow> turn_context \<Rightarrow> string \<Rightarrow> (submit_vars \<times> 'w, batch_record option) io" where
  "find_existing_submission_batch su ctx submission_fingerprint =
     bindE (onworld (get_existing_batch (su_env su) (batch_id_for_submission (sv_sha (su_env su)) (tc_submission_id ctx)))) (\<lambda>existing.
       case existing of
         None \<Rightarrow> retE None
       | Some batch \<Rightarrow>
           thenE (liftE (validate_submission_fingerprint_value (sv_repr (su_env su)) batch submission_fingerprint))
          (thenE (assign (record_context_batch_id (br_batch_id batch))) (retE (Some batch))))"

definition converge_failed_materialization :: "batch_record option \<Rightarrow> int \<Rightarrow> submit_vars \<Rightarrow> submit_vars" where
  "converge_failed_materialization candidate parent_tool_call_id v =
     (case candidate of
        None \<Rightarrow> v
      | Some batch \<Rightarrow> v\<lparr>sb_converging := sb_converging v @ [(batch, parent_tool_call_id)]\<rparr>)"

text \<open>A step of the oldest convergence task, which runs at any later time.\<close>

definition run_convergence :: "'w submitter \<Rightarrow> turn_context \<Rightarrow> (submit_vars \<times> 'w, unit) pio" where
  "run_convergence su ctx = (\<lambda>(v, w).
     case sb_converging v of
       [] \<Rightarrow> Some (Inr (), (v, w))
     | (candidate, call) # rest \<Rightarrow>
         onworldP (cancel_owned_batch_when_visible (su_env su) candidate
           (thenE (remove_provisional_projection su ctx call (batch_id_for_submission (sv_sha (su_env su)) (tc_submission_id ctx)))
              (retE ()))) (v\<lparr>sb_converging := rest\<rparr>, w))"

record materialized_submission =
  ms_batch :: batch_record
  ms_execution_plan :: batch_execution_plan
  ms_created_parent_tool_call_id :: int
  ms_owns_batch :: bool
  ms_prepared :: prepared_task_batch

text \<open>The planner writes the chosen sandboxes into the tasks of the prepared batch.\<close>

definition plan_prepared ::
    "'w submitter \<Rightarrow> turn_context \<Rightarrow> prepared_task_batch \<Rightarrow> ('w, prepared_task_batch \<times> batch_execution_plan) io" where
  "plan_prepared su ctx prepared =
     bindE (plan_batch (sv_repr (su_env su)) (su_available_count su ctx) (su_max_concurrency su) (pb_batch prepared)) (\<lambda>(tasks, plan).
       retE (prepared\<lparr>pb_batch := (pb_batch prepared)\<lparr>tb_tasks := tasks\<rparr>\<rparr>, plan))"

definition materialize_body ::
    "'z rt_world_scheme submitter \<Rightarrow> turn_context \<Rightarrow> prepared_task_batch \<Rightarrow> string \<Rightarrow> jobj \<Rightarrow> int
       \<Rightarrow> (batch_record option \<times> submit_vars \<times> 'z rt_world_scheme, materialized_submission) io" where
  "materialize_body su ctx prepared submission_fingerprint batch_metadata parent_tool_call_id =
     bindE (onworld (onworld (plan_prepared su ctx prepared))) (\<lambda>(prepared, execution_plan).
     bindE (onworld (onworld (build_batch (su_env su) ctx prepared parent_tool_call_id execution_plan
              submission_fingerprint batch_metadata))) (\<lambda>candidate.
     thenE (assign (\<lambda>_. Some candidate))
    (bindE (onworld (onworld (materialize_batch (su_env su) ctx prepared candidate))) (\<lambda>(batch, owns_batch).
     thenE (onworld (assign (record_context_batch_id (br_batch_id batch))))
       (retE \<lparr>ms_batch = batch, ms_execution_plan = execution_plan, ms_created_parent_tool_call_id = parent_tool_call_id,
              ms_owns_batch = owns_batch, ms_prepared = prepared\<rparr>)))))"

definition materialize_handler ::
    "'w submitter \<Rightarrow> turn_context \<Rightarrow> int \<Rightarrow> exn \<Rightarrow> (batch_record option \<times> submit_vars \<times> 'w, materialized_submission) io" where
  "materialize_handler su ctx parent_tool_call_id exc =
     (let batch_id = batch_id_for_submission (sv_sha (su_env su)) (tc_submission_id ctx) in
      bindE (getE fst) (\<lambda>candidate.
      thenE (onworld (assign (converge_failed_materialization candidate parent_tool_call_id)))
     (thenE (onworld (onworld
         (if exn_class exc = CancelledError \<or> candidate \<noteq> None
          then settle_batch_projection su ctx parent_tool_call_id batch_id B_CANCELLED
          else suppressE (pp_mark_delegate_tasks_failed (su_port su) ctx parent_tool_call_id batch_id))))
        (raiseE exc))))"

definition materialize_submission ::
    "'z rt_world_scheme submitter \<Rightarrow> turn_context \<Rightarrow> prepared_task_batch \<Rightarrow> string \<Rightarrow> jobj
       \<Rightarrow> (submit_vars \<times> 'z rt_world_scheme, materialized_submission) io" where
  "materialize_submission su ctx prepared submission_fingerprint batch_metadata =
     bindE (onworld (create_batch_projection su ctx prepared)) (\<lambda>parent_tool_call_id.
       withlocals None
         (catchE (materialize_body su ctx prepared submission_fingerprint batch_metadata parent_tool_call_id)
            (materialize_handler su ctx parent_tool_call_id)))"

definition submit ::
    "'z rt_world_scheme submitter \<Rightarrow> turn_context \<Rightarrow> prepared_task_batch \<Rightarrow> jobj
       \<Rightarrow> (submit_vars \<times> 'z rt_world_scheme, batch_result) pio" where
  "submit su ctx prepared batch_metadata =
     (if py_strip (tc_submission_id ctx) = []
      then totalP (raiseE (Exn ValueError ''task runtime submission_id is required''))
      else
        bindP (totalP (liftE (normalize_batch (sv_repr (su_env su)) (su_skill_loader su) (tb_tasks (pb_batch prepared))))) (\<lambda>tasks.
        let prepared = prepared\<lparr>pb_batch := (pb_batch prepared)\<lparr>tb_tasks := tasks\<rparr>\<rparr>;
            submission_fingerprint = prepared_submission_fingerprint (su_env su) prepared (tc_submission_source ctx) in
        bindP (totalP (find_existing_submission_batch su ctx submission_fingerprint)) (\<lambda>existing_batch.
          case existing_batch of
            Some batch \<Rightarrow> onworldP (observe_existing_batch su ctx batch prepared 0)
          | None \<Rightarrow>
              bindP (totalP (materialize_submission su ctx prepared submission_fingerprint batch_metadata)) (\<lambda>m.
                onworldP (if ms_owns_batch m
                          then execute_owned_batch su ctx (ms_prepared m) (ms_batch m) (ms_execution_plan m)
                          else observe_existing_batch su ctx (ms_batch m) (ms_prepared m) (ms_created_parent_tool_call_id m))))))"

end
