(* ===== verification/Batch_Ownership.thy ===== *)
theory Batch_Ownership
  imports Submitter
begin

section \<open>The owner of a batch\<close>

text \<open>
  What the submission pipeline (\<open>Submitter\<close>) promises of the caller that created a batch: it settles the
  batch, however the execution ends.
\<close>

subsection \<open>What the pipeline keeps\<close>

text \<open>\<open>submitter_keeps su P\<close>: no collaborator of the submitter, the store apart, breaks \<open>P\<close>.\<close>

definition submitter_keeps :: "'w submitter \<Rightarrow> ('w \<Rightarrow> bool) \<Rightarrow> bool" where
  "submitter_keeps su P \<longleftrightarrow>
     env_keeps (su_env su) P \<and> staged_hooks_keep (su_staged su) P
     \<and> (\<forall>ctx ty. preserves P (su_available_count su ctx ty)) \<and> (\<forall>ctx b. preserves P (su_cleanup_batch su ctx b))
     \<and> (\<forall>bid r. preserves P (su_write_batch_result su bid r)) \<and> preserves P (su_beater_done su)"

lemma submitter_keepsD:
  assumes "submitter_keeps su P"
  shows "env_keeps (su_env su) P" and "staged_hooks_keep (su_staged su) P" and "preserves P (su_available_count su ctx ty)"
    and "preserves P (su_cleanup_batch su ctx b)" and "preserves P (su_write_batch_result su bid r)"
    and "preserves P (su_beater_done su)" and "port_keeps (su_port su) P"
  using assms by (simp_all add: submitter_keeps_def env_keeps_def)

lemma settle_projection_keeps:
  assumes "port_keeps (su_port su) P"
  shows "preserves P (settle_batch_projection su ctx call bid bs)"
  unfolding settle_batch_projection_def by (intro preserves_intros port_keepsD [OF assms])

lemma sync_projection_keeps:
  assumes "port_keeps (su_port su) P" and "preserves P (sv_sleep (su_env su))"
  shows "preserves P (sync_projection su ctx batch runs results opts required)"
proof -
  have "preserves P (sync_attempts su ctx batch runs results opts required n)" for n
    by (induction n) (simp_all only: sync_attempts.simps, (intro preserves_intros port_keepsD [OF assms(1)] assms(2); assumption?)+)
  then show ?thesis by (simp add: sync_projection_def)
qed

lemma remove_projection_keeps:
  assumes "port_keeps (su_port su) P" and "preserves P (sv_sleep (su_env su))"
  shows "preserves P (remove_provisional_projection su ctx call bid)"
proof -
  have "preserves P (remove_attempts su ctx call bid n)" for n
    by (induction n) (simp_all only: remove_attempts.simps, (intro preserves_intros port_keepsD [OF assms(1)] assms(2); assumption?)+)
  then show ?thesis by (simp add: remove_provisional_projection_def)
qed

lemma heartbeat_keeps:
  "preserves P (su_beater_done su) \<Longrightarrow> preservesP P body \<Longrightarrow> preservesP P (heartbeat_batch_liveness su bid body)"
  unfolding heartbeat_batch_liveness_def by (intro preserves_intros)

context run_store_invariant
begin

lemma cancel_active_inv: "preserves P (cancel_active_runs_after_failure st bid reason)"
proof -
  have "preserves P (cancel_active_attempts st bid reason n)" for n
    by (induction n) (simp_all only: cancel_active_attempts.simps Let_def, (intro preserves_intros read_inv run_inv; assumption?)+)
  then show ?thesis by (simp add: cancel_active_runs_after_failure_def)
qed

lemma or_now_inv: "preserves P (or_now v)"
  unfolding or_now_def by (intro preserves_intros world_inv)

lemma safe_list_inv: "preserves P (safe_list_batch_runs st bid)"
  unfolding safe_list_batch_runs_def by (intro preserves_intros read_inv)

lemma mark_batch_failed_inv:
  assumes "submitter_keeps su P" and "su_store su = st"
  shows "preserves P (mark_batch_failed su ctx batch call)"
  unfolding mark_batch_failed_def Let_def assms(2)
  by (intro preserves_intros cancel_active_inv or_now_inv transition_inv batch_inv submitter_keepsD(4) [OF assms(1)]
      settle_projection_keeps port_keepsD [OF submitter_keepsD(7) [OF assms(1)]] submitter_keepsD(7) [OF assms(1)])

lemma mark_batch_cancelled_inv:
  assumes "submitter_keeps su P" and "su_store su = st"
  shows "preserves P (mark_batch_cancelled su ctx batch call reason)"
  unfolding mark_batch_cancelled_def Let_def assms(2)
  by (intro preserves_intros or_now_inv transition_inv batch_inv read_inv safe_list_inv submitter_keepsD(4) [OF assms(1)]
      settle_projection_keeps port_keepsD [OF submitter_keepsD(7) [OF assms(1)]] submitter_keepsD(7) [OF assms(1)])

lemma owner_execution_inv:
  assumes "submitter_keeps su P"
  shows "preservesP P (heartbeat_batch_liveness su bid (staged_run repr mc (su_staged su) sb))"
  by (intro heartbeat_keeps staged_run_keeps submitter_keepsD [OF assms])

lemma project_owned_inv:
  assumes "submitter_keeps su P"
  shows "preserves P (project_owned su ctx batch runs results)"
  unfolding project_owned_def
  by (intro preserves_intros sync_projection_keeps settle_projection_keeps submitter_keepsD(7) [OF assms]
      env_keepsD(6) [OF submitter_keepsD(1) [OF assms]])

lemma save_batch_result_inv: "submitter_keeps su P \<Longrightarrow> preserves P (save_batch_result su bid r)"
  unfolding save_batch_result_def by (intro preserves_intros submitter_keepsD)

end

subsection \<open>The owner settles its batch\<close>

lemma batch_status_terminal: "is_terminal_batch_status (Results.batch_status rs j)"
  by (simp add: Results.batch_status_def Let_def batch_tables)

lemma running_transitions: "is_terminal_batch_status s \<Longrightarrow> is_valid_batch_transition B_RUNNING s"
  by (cases s) (simp_all add: batch_tables)

lemma update_settles:
  assumes "batch_at UNIV (br_batch_id b) w" and "is_terminal_batch_status (br_status b)"
  shows "\<exists>u w'. update_batch b w = (Inr u, w') \<and> br_batch_id (bu_batch u) = br_batch_id b
    \<and> is_terminal_batch_status (br_status (bu_batch u)) \<and> batch_at {br_status (bu_batch u)} (br_batch_id b) w'"
  using assms by (auto simp: batch_at_def update_batch_def get_batch_def terminal_batch_iff dict_get_set Let_def now_ms_def)

lemma batch_at_events [simp]: "batch_at T bid (w\<lparr>w_events := ev\<rparr>) = batch_at T bid w"
  by (simp add: batch_at_def)

lemma batch_at_weaken: "batch_at {s} bid w \<Longrightarrow> batch_at {s. is_terminal_batch_status s} bid w"
proof -
  have "{s} \<noteq> UNIV" using batch_status.distinct(1) by (metis UNIV_I singletonD)
  then show "batch_at {s} bid w \<Longrightarrow> ?thesis" by (auto simp: batch_at_def)
qed

lemma settle_owned_spec:
  assumes st: "su_store su = file_run_store sha rt" and b: "br_status b = B_RUNNING" "batch_at UNIV (br_batch_id b) w"
    and r: "settle_owned su runs results (b, w) = (r, s')"
  shows "(\<forall>e. r = Inl e \<longrightarrow> s' = (b, w))
    \<and> (\<forall>res fin. r = Inr (res, fin) \<longrightarrow> is_terminal_batch_status (br_status (fst s'))
         \<and> br_batch_id (fst s') = br_batch_id b \<and> batch_at {bres_status res} (br_batch_id b) (snd s'))"
proof (cases "su_batch_dir su (br_batch_id b)")
  case (Inl e)
  with r show ?thesis by (auto simp: settle_owned_def)
next
  case (Inr dir)
  let ?res = "aggregate b results dir"
  have tm: "is_terminal_batch_status (bres_status ?res)" by (simp add: batch_status_terminal)
  let ?w1 = "w\<lparr>w_events := w_events w @ [Batch_State_Transition (br_batch_id b) B_RUNNING (bres_status ?res)]\<rparr>"
  let ?b1 = "b\<lparr>br_status := bres_status ?res, br_counts := bd_counts (batch_result_digest_from_result ?res 3 None)\<rparr>"
  have tb: "transition_batch (bres_status ?res) b w = (Inr (b\<lparr>br_status := bres_status ?res\<rparr>), ?w1)"
    using running_transitions [OF tm] b(1) by (simp add: transition_batch_eq)
  obtain b2 w2 where e: "(if br_ended_at (b\<lparr>br_status := bres_status ?res\<rparr>) = None
        then bindE (onworld now_ms) (\<lambda>now. assign (\<lambda>batch. batch\<lparr>br_ended_at := Some now\<rparr>)) else retE ()) (?b1, ?w1) = (Inr (), (b2, w2))"
    and b2: "br_batch_id b2 = br_batch_id b" "br_status b2 = bres_status ?res" "batch_at UNIV (br_batch_id b2) w2"
    using b(2) by (cases "br_ended_at b") (simp_all add: now_ms_def batch_at_def)
  obtain u w3 where u: "update_batch b2 w2 = (Inr u, w3)" "br_batch_id (bu_batch u) = br_batch_id b2"
      "is_terminal_batch_status (br_status (bu_batch u))" "batch_at {br_status (bu_batch u)} (br_batch_id b2) w3"
    using update_settles [OF b2(3)] tm b2(2) by auto
  obtain fin res where "settle_owned su runs results (b, w) = (Inr (res, fin), (bu_batch u, w3))" "bres_status res = br_status (bu_batch u)"
    using tb e u(1) Inr st b2(1) unfolding settle_owned_def by (simp add: list_batch_runs_def Let_def)
  with r u b2(1) show ?thesis by auto
qed

subsubsection \<open>The handlers\<close>

text \<open>\<open>answers m\<close>: \<open>m\<close> never raises.\<close>

definition answers :: "('s, 'a) io \<Rightarrow> bool" where
  "answers m \<longleftrightarrow> (\<forall>s. \<exists>a s'. m s = (Inr a, s'))"

lemma answers_bindE: "answers m \<Longrightarrow> (\<And>a. answers (f a)) \<Longrightarrow> answers (bindE m f)"
  unfolding answers_def by (metis bindE_eq(1))

lemma answers_retE: "answers (retE a)"
  by (simp add: answers_def)

lemma answers_catch: "mild m \<Longrightarrow> (\<And>e. answers (h e)) \<Longrightarrow> answers (catch_Exception m h)"
  unfolding answers_def by (blast intro: catch_answers)

lemma answers_mapE: "(\<And>x. answers (f x)) \<Longrightarrow> answers (mapE f xs)"
  by (induction xs) (simp_all only: mapE.simps answers_retE answers_bindE)

lemma answers_split:
  "(c \<Longrightarrow> answers m) \<Longrightarrow> (\<not> c \<Longrightarrow> answers n) \<Longrightarrow> answers (if c then m else n)"
  "(x = None \<Longrightarrow> answers m) \<Longrightarrow> (\<And>a. x = Some a \<Longrightarrow> answers (f a)) \<Longrightarrow> answers (case x of None \<Rightarrow> m | Some a \<Rightarrow> f a)"
  by (simp, cases x) simp_all

lemmas answers_rules = answers_bindE answers_retE answers_catch answers_mapE answers_split

lemma mild_cancel_run: "mild (cancel_run rid reason)" "mild (list_batch_runs bid)"
  unfolding cancel_run_def list_batch_runs_def Let_def
  by (auto intro!: mild_rules mild_pure split: prod.splits)

lemma cancel_active_answers: "answers (cancel_active_runs_after_failure (file_run_store sha rt) bid reason)"
proof -
  have "answers (cancel_active_attempts (file_run_store sha rt) bid reason n)" for n
    by (induction n)
      (simp_all only: cancel_active_attempts.simps Let_def file_run_store_ops,
        (intro answers_rules mild_rules mild_pure mild_cancel_run; assumption?)+)
  then show ?thesis by (simp add: cancel_active_runs_after_failure_def)
qed

lemma or_now_eq: "\<exists>t w'. or_now v w = (Inr t, w') \<and> (\<forall>T bid. batch_at T bid w' = batch_at T bid w)"
  by (auto simp: or_now_def now_ms_def batch_at_def split: option.splits)

abbreviation settled_batch :: "string \<Rightarrow> 'z fs_world_scheme \<Rightarrow> bool" where
  "settled_batch bid \<equiv> batch_at {s. is_terminal_batch_status s} bid"

lemma mark_failed_settles:
  assumes st: "su_store su = file_run_store sha rt" and keep: "\<And>T. submitter_keeps su (batch_at T (br_batch_id b))"
    and cl: "\<And>ctx b. mild (su_cleanup_batch su ctx b)" and b: "br_status b = B_RUNNING" "batch_at UNIV (br_batch_id b) w"
  shows "settled_batch (br_batch_id b) (snd (mark_batch_failed su ctx b call w))"
proof -
  let ?reason = "''Batch failed before all runs completed.''"
  obtain w1 where w1: "cancel_active_runs_after_failure (file_run_store sha rt) (br_batch_id b) ?reason w = (Inr (), w1)"
    using cancel_active_answers by (force simp: answers_def)
  have a1: "batch_at UNIV (br_batch_id b) w1" by (rule preservesD [OF batch_file.cancel_active_inv b(2) w1])
  obtain w2 where w2: "suppressE (su_cleanup_batch su ctx b) w1 = (Inr (), w2)" using suppress_answers [OF cl] by blast
  have a2: "batch_at UNIV (br_batch_id b) w2"
    by (rule preservesD [OF preserves_suppressE [OF submitter_keepsD(4) [OF keep]] a1 w2])
  let ?w2 = "w2\<lparr>w_events := w_events w2 @ [Batch_State_Transition (br_batch_id b) B_RUNNING B_FAILED]\<rparr>"
  have tb: "transition_batch B_FAILED b w2 = (Inr (b\<lparr>br_status := B_FAILED\<rparr>), ?w2)"
    using b(1) by (simp add: transition_batch_eq batch_tables)
  obtain t w3 where w3: "or_now (br_ended_at b) ?w2 = (Inr t, w3)" "batch_at UNIV (br_batch_id b) w3"
    using or_now_eq [of "br_ended_at b" ?w2] a2 by auto
  let ?b3 = "b\<lparr>br_status := B_FAILED, br_ended_at := Some t\<rparr>"
  obtain u w4 where u: "update_batch ?b3 w3 = (Inr u, w4)" "br_batch_id (bu_batch u) = br_batch_id b" "settled_batch (br_batch_id b) w4"
    using update_settles [of ?b3 w3] w3(2) batch_at_weaken by (fastforce simp: batch_tables)
  have "preserves (settled_batch (br_batch_id b)) (if br_status (bu_batch u) = B_FAILED
       then suppressE (pp_mark_delegate_tasks_failed (su_port su) ctx call (br_batch_id (bu_batch u)))
       else settle_batch_projection su ctx call (br_batch_id (bu_batch u)) (br_status (bu_batch u)))"
    by (intro preserves_intros settle_projection_keeps port_keepsD submitter_keepsD(7) [OF keep])
  from preserves_apply [OF this u(3)] show ?thesis
    using w1 w2 tb w3(1) u(1) by (simp add: mark_batch_failed_def st catch_Exception_def Let_def)
qed

lemma mark_cancelled_settles:
  assumes st: "su_store su = file_run_store sha rt" and keep: "\<And>T. submitter_keeps su (batch_at T (br_batch_id b))"
    and b: "br_status b = B_RUNNING" "batch_at UNIV (br_batch_id b) w" "keyed w"
  shows "settled_batch (br_batch_id b) (snd (mark_batch_cancelled su ctx b call reason w))"
proof -
  let ?w1 = "w\<lparr>w_events := w_events w @ [Batch_State_Transition (br_batch_id b) B_RUNNING B_CANCELLED]\<rparr>"
  have tb: "transition_batch B_CANCELLED b w = (Inr (b\<lparr>br_status := B_CANCELLED\<rparr>), ?w1)"
    using b(1) by (simp add: transition_batch_eq batch_tables)
  obtain t w2 where w2: "or_now (br_ended_at b) ?w1 = (Inr t, w2)" "batch_at UNIV (br_batch_id b) w2"
    using or_now_eq [of "br_ended_at b" ?w1] b(2) by auto
  have "keyed w2" by (rule preservesD [OF keyed_world_ops(4) _ w2(1)]) (use b(3) in simp)
  from cancel_batch_answers [OF this w2(2)] obtain w3 where
    w3: "cancel_batch (br_batch_id b) reason w2 = (Inr (), w3)" "settled_batch (br_batch_id b) w3" by blast
  then obtain c where c: "get_batch (br_batch_id b) w3 = (Inr c, w3)" "br_batch_id c = br_batch_id b"
    by (auto simp: batch_at_def get_batch_def)
  have "preserves (settled_batch (br_batch_id b)) (thenE (suppressE (su_cleanup_batch su ctx c))
      (thenE (suppressE (bindE (safe_list_batch_runs (file_run_store sha rt) (br_batch_id c)) (\<lambda>cancelled_runs.
                pp_mark_cancelled_runs (su_port su) ctx cancelled_runs reason)))
         (settle_batch_projection su ctx call (br_batch_id c) (br_status c))))"
    by (intro preserves_intros batch_file.safe_list_inv settle_projection_keeps port_keepsD submitter_keepsD(4,7) [OF keep])
  from preserves_apply [OF this w3(2)] show ?thesis
    using tb w2(1) w3(1) c(1) by (simp add: mark_batch_cancelled_def st catch_Exception_def Let_def)
qed

subsubsection \<open>The body\<close>

text \<open>\<open>endsP\<close> is \<open>ends\<close> for operations that may not come back.\<close>

definition endsP :: "('s \<Rightarrow> bool) \<Rightarrow> ('s, 'a) pio \<Rightarrow> ('a result \<Rightarrow> 's \<Rightarrow> bool) \<Rightarrow> bool" where
  "endsP Q m R \<longleftrightarrow> (\<forall>s r s'. Q s \<longrightarrow> m s = Some (r, s') \<longrightarrow> R r s')"

lemma endsP_bind:
  assumes "preservesP Q m" and "\<And>a. endsP Q (f a) R" and "\<And>e s. Q s \<Longrightarrow> R (Inl e) s"
  shows "endsP Q (bindP m f) R"
  unfolding endsP_def bindP_Some_iff
  using assms by (auto simp: endsP_def dest: preservesPD)

lemma endsP_totalP: "ends Q m R \<Longrightarrow> endsP Q (totalP m) R"
  by (simp add: ends_def endsP_def totalP_def)

lemma ends_onworld: "preserves P m \<Longrightarrow> ends (\<lambda>s. Q (fst s) \<and> P (snd s)) (onworld m) (\<lambda>_ s. Q (fst s) \<and> P (snd s))"
  by (auto simp: ends_def onworld_apply dest: preserves_apply)

lemma preserves_conj: "preserves P m \<Longrightarrow> preserves Q m \<Longrightarrow> preserves (\<lambda>s. P s \<and> Q s) m"
  by (simp add: preserves_def)

lemma preservesP_conj: "preservesP P m \<Longrightarrow> preservesP Q m \<Longrightarrow> preservesP (\<lambda>s. P s \<and> Q s) m"
  unfolding preservesP_def by blast

lemma preserves_frame: "preserves P m \<Longrightarrow> preserves (\<lambda>s. Q (fst s) \<and> P (snd s)) (onworld m)"
  by (auto simp: preserves_def onworld_apply)

lemma preservesP_frame: "preservesP P m \<Longrightarrow> preservesP (\<lambda>s. Q (fst s) \<and> P (snd s)) (onworldP m)"
  by (auto simp: preservesP_def onworldP_def)

text \<open>Before the batch is settled, and after: the variable and the file agree on what has happened.\<close>

definition open_owner :: "batch_record \<Rightarrow> batch_record \<times> 'z fs_world_scheme \<Rightarrow> bool" where
  "open_owner b s \<longleftrightarrow> fst s = b \<and> batch_at UNIV (br_batch_id b) (snd s) \<and> keyed (snd s)"

definition done_owner :: "string \<Rightarrow> batch_status set \<Rightarrow> batch_record \<times> 'z fs_world_scheme \<Rightarrow> bool" where
  "done_owner bid T s \<longleftrightarrow> is_terminal_batch_status (br_status (fst s)) \<and> batch_at T bid (snd s)"

lemma open_owner_keeps:
  "preserves (batch_at UNIV (br_batch_id b)) m \<Longrightarrow> preserves keyed m \<Longrightarrow> preserves (open_owner b) (onworld m)"
  unfolding open_owner_def by (intro preserves_frame [where Q = "\<lambda>l. l = b"] preserves_conj)

lemma open_owner_keepsP:
  "preservesP (batch_at UNIV (br_batch_id b)) m \<Longrightarrow> preservesP keyed m \<Longrightarrow> preservesP (open_owner b) (onworldP m)"
  unfolding open_owner_def by (intro preservesP_frame [where Q = "\<lambda>l. l = b"] preservesP_conj)

lemma done_owner_keeps: "preserves (batch_at T bid) m \<Longrightarrow> preserves (done_owner bid T) (onworld m)"
  unfolding done_owner_def by (rule preserves_frame)

lemma ends_getbatch: "ends (open_owner b) getbatch (\<lambda>r s. r = Inr b \<and> open_owner b s)"
  by (auto simp: ends_def open_owner_def)

definition owner_outcome :: "batch_record \<Rightarrow> batch_result result \<Rightarrow> batch_record \<times> 'z fs_world_scheme \<Rightarrow> bool" where
  "owner_outcome b r s \<longleftrightarrow>
     (case r of
        Inl e \<Rightarrow> open_owner b s \<or> done_owner (br_batch_id b) {s. is_terminal_batch_status s} s
      | Inr res \<Rightarrow> batch_at {bres_status res} (br_batch_id b) (snd s))"

lemma owner_outcome_open: "open_owner b s \<Longrightarrow> owner_outcome b (Inl e) s"
  by (simp add: owner_outcome_def)

lemma owner_outcome_done: "done_owner (br_batch_id b) {bres_status res} s \<Longrightarrow> owner_outcome b (Inl e) s"
  using batch_at_weaken by (auto simp: owner_outcome_def done_owner_def)

lemma ends_settle:
  assumes "su_store su = file_run_store sha rt" and "br_status b = B_RUNNING"
    and keep: "\<And>T. submitter_keeps su (batch_at T (br_batch_id b))"
  shows "ends (open_owner b) (settle_owned su runs results)
     (\<lambda>r s. case r of Inl e \<Rightarrow> open_owner b s | Inr (res, _) \<Rightarrow> done_owner (br_batch_id b) {bres_status res} s)"
  unfolding ends_def
proof (intro allI impI)
  fix s r s' assume s: "open_owner b s" and r: "settle_owned su runs results s = (r, s')"
  obtain w where w: "s = (b, w)" "batch_at UNIV (br_batch_id b) w" using s by (cases s) (auto simp: open_owner_def)
  from settle_owned_spec [OF assms(1,2) w(2) r [unfolded w(1)]] s w(1)
  show "case r of Inl e \<Rightarrow> open_owner b s' | Inr (res, _) \<Rightarrow> done_owner (br_batch_id b) {bres_status res} s'"
    by (auto simp: done_owner_def split: sum.splits)
qed

lemma ends_projected:
  assumes keep: "\<And>T. submitter_keeps su (batch_at T (br_batch_id b))"
  shows "ends (done_owner (br_batch_id b) {bres_status res})
     (bindE getbatch (\<lambda>batch. thenE (onworld (project_owned su ctx batch fin results))
        (thenE (onworld (save_batch_result su (br_batch_id batch) res)) (retE res)))) (owner_outcome b)"
proof -
  let ?D = "done_owner (br_batch_id b) {bres_status res}"
  have "ends ?D (onworld (project_owned su ctx batch fin results)) (\<lambda>_. ?D)"
    "ends ?D (onworld (save_batch_result su bid res)) (\<lambda>_. ?D)" for batch bid
    by (intro ends_keeps done_owner_keeps batch_file.project_owned_inv batch_file.save_batch_result_inv keep)+
  moreover have "ends ?D getbatch (\<lambda>_. ?D)" by (intro ends_keeps preserves_intros)
  moreover have "ends ?D (retE res) (owner_outcome b)"
    by (auto simp: ends_def owner_outcome_def done_owner_def)
  ultimately show ?thesis
    by (intro ends_bind [where M = "\<lambda>_. ?D"] ends_then [where M = "\<lambda>_. ?D"]) (auto intro: owner_outcome_done)
qed

lemma ends_settled_tail:
  assumes st: "su_store su = file_run_store sha rt" and run: "br_status b = B_RUNNING"
    and keep: "\<And>T. submitter_keeps su (batch_at T (br_batch_id b))"
  shows "ends (open_owner b) (bindE (settle_owned su runs results) (\<lambda>(res, fin).
     bindE getbatch (\<lambda>batch. thenE (onworld (project_owned su ctx batch fin results))
       (thenE (onworld (save_batch_result su (br_batch_id batch) res)) (retE res))))) (owner_outcome b)"
  by (rule ends_bind [OF ends_settle [OF st run keep]])
    (auto simp: ends_projected [OF keep] owner_outcome_open split: prod.splits)

lemma ends_tail:
  assumes st: "su_store su = file_run_store sha rt" and run: "br_status b = B_RUNNING"
    and keep: "\<And>T. submitter_keeps su (batch_at T (br_batch_id b))" and kk: "submitter_keeps su keyed"
  shows "ends (open_owner b) (owned_tail su ctx runs results) (owner_outcome b)"
proof -
  let ?O = "open_owner b"
  have c: "ends ?O (onworld (su_cleanup_batch su ctx batch)) (\<lambda>_. ?O)" for batch
    by (intro ends_keeps open_owner_keeps submitter_keepsD(4) keep kk)
  have f: "ends ?O (onworld (finalize_nonterminal_runs (su_store su) (pp_mark_run_terminal (su_port su) ctx) batch results)) (\<lambda>_. ?O)" for batch
    unfolding st
    by (intro ends_keeps open_owner_keeps batch_file.finalize_inv keyed_file.finalize_inv port_keepsD submitter_keepsD(7) keep kk)
  have g: "ends ?O getbatch (\<lambda>_. ?O)" by (intro ends_keeps preserves_intros)
  show ?thesis
    unfolding owned_tail_def
    by (intro ends_bind [OF g] ends_bind [OF f] ends_then [OF c] ends_settled_tail [OF st run keep] owner_outcome_open)
qed

lemma ends_body:
  assumes st: "su_store su = file_run_store sha rt" and run: "br_status b = B_RUNNING"
    and keep: "\<And>T. submitter_keeps su (batch_at T (br_batch_id b))" and kk: "submitter_keeps su keyed"
  shows "endsP (open_owner b) (owned_body su ctx prepared plan) (owner_outcome b)"
proof -
  have "preserves (open_owner b) (onworld (create_runs (su_env su) ctx prepared batch call))" for batch call
    by (intro open_owner_keeps batch_file.create_runs_inv [OF _ st] keyed_file.create_runs_inv [OF _ st] submitter_keepsD(1) keep kk)
  moreover have "preserves (open_owner b) (onworld (pp_publish_parent_batch_progress (su_port su) ctx batch runs))" for batch runs
    by (intro open_owner_keeps port_keepsD submitter_keepsD(7) keep kk)
  moreover have "preservesP (open_owner b) (onworldP (heartbeat_batch_liveness su bid (staged_run repr mc (su_staged su) sb)))" for bid repr mc sb
    by (intro open_owner_keepsP batch_file.owner_execution_inv keyed_file.owner_execution_inv keep kk)
  moreover have "preserves (open_owner b) getbatch" by (intro preserves_intros)
  ultimately show ?thesis
    unfolding owned_body_def
    by (intro endsP_bind preservesP_totalP endsP_totalP ends_tail [OF st run keep kk] owner_outcome_open)
qed

lemma onworld_raise: "\<exists>e. thenE (onworld m) (raiseE exc) (l, w) = (Inl e, (l, snd (m w)))"
  by (cases "m w"; cases "fst (m w)") auto

lemma handler_settles:
  assumes st: "su_store su = file_run_store sha rt" and run: "br_status b = B_RUNNING"
    and keep: "\<And>T. submitter_keeps su (batch_at T (br_batch_id b))" and cl: "\<And>ctx b. mild (su_cleanup_batch su ctx b)"
    and s: "owner_outcome b (Inl exc) s"
  shows "\<exists>e s'. owned_handler su ctx call exc s = (Inl e, s') \<and> settled_batch (br_batch_id b) (snd s')"
proof -
  obtain l w where lw: "s = (l, w)" by (cases s)
  define m where "m = (let settled = br_status l \<in> set TERMINAL_BATCH_STATUSES in
       if exn_class exc = OtherError ''_HeartbeatDeathError''
       then if settled then retE ()
            else mark_batch_cancelled su ctx l call ''Batch aborted: heartbeat to backend lost, batch considered stale.''
       else if exn_class exc = CancelledError
       then if settled then settle_batch_projection su ctx (int_or (br_parent_tool_call_id l) 0) (br_batch_id l) (br_status l)
            else mark_batch_cancelled su ctx l call ''Task runtime interrupted before completion.''
       else if settled then retE () else mark_batch_failed su ctx l call)"
  have h: "owned_handler su ctx call exc s = thenE (onworld m) (raiseE exc) (l, w)"
    by (simp add: owned_handler_def lw m_def Let_def)
  have "settled_batch (br_batch_id b) (snd (m w))"
  proof (cases "open_owner b s")
    case True
    then have o: "l = b" "batch_at UNIV (br_batch_id b) w" "keyed w" by (simp_all add: open_owner_def lw)
    have "br_status l \<notin> set TERMINAL_BATCH_STATUSES" using o(1) run by (simp add: terminal_batch_iff batch_tables)
    with o show ?thesis
      using mark_cancelled_settles [OF st keep run o(2,3)] mark_failed_settles [OF st keep cl run o(2)]
      by (simp add: m_def Let_def)
  next
    case False
    with s have d: "is_terminal_batch_status (br_status l)" "settled_batch (br_batch_id b) w"
      by (auto simp: owner_outcome_def done_owner_def lw)
    have "preserves (settled_batch (br_batch_id b)) m"
      unfolding m_def Let_def using d(1)
      by (auto simp: terminal_batch_iff intro: settle_projection_keeps submitter_keepsD(7) [OF keep])
    from preserves_apply [OF this d(2)] show ?thesis .
  qed
  with onworld_raise [of m exc l w] h show ?thesis by auto
qed

lemma bindP_None_iff: "bindP m f s = None \<longleftrightarrow> m s = None \<or> (\<exists>a u. m s = Some (Inr a, u) \<and> f a u = None)"
  by (auto simp: bindP_def split: option.splits sum.splits)

lemma catchP_None_iff: "catchP m h s = None \<longleftrightarrow> m s = None"
  by (auto simp: catchP_def split: option.splits sum.splits)

lemma owned_body_returns:
  assumes "\<And>runs v v'. create_runs (su_env su) ctx prepared b (int_or (br_parent_tool_call_id b) 0) w = (Inr runs, v) \<Longrightarrow>
      staged_run (sv_repr (su_env su)) (su_max_concurrency su) (su_staged su)
        \<lparr>sb_batch = b, sb_runs = runs, sb_join_strategy = br_join_strategy b, sb_plan = plan\<rparr> v' \<noteq> None"
  shows "owned_body su ctx prepared plan (b, w) \<noteq> None"
proof
  assume "owned_body su ctx prepared plan (b, w) = None"
  then obtain runs v v' where "create_runs (su_env su) ctx prepared b (int_or (br_parent_tool_call_id b) 0) w = (Inr runs, v)"
    and "staged_run (sv_repr (su_env su)) (su_max_concurrency su) (su_staged su)
        \<lparr>sb_batch = b, sb_runs = runs, sb_join_strategy = br_join_strategy b, sb_plan = plan\<rparr> v' = None"
    by (cases "create_runs (su_env su) ctx prepared b (int_or (br_parent_tool_call_id b) 0) w")
      (auto simp: owned_body_def bindP_None_iff totalP_def onworldP_def onworld_apply heartbeat_batch_liveness_def catchP_None_iff)
  with assms show False by blast
qed

text \<open>
  C13. The owner settles its batch when the services around the store fail. For the filesystem store, whose own reads and writes
  of a stored batch are assumed not to fail, and a clean-up of the sandboxes that raises nothing worse than an ordinary
  exception: when the staged executor comes back, with results or
  with any exception, the execution of an owned batch comes back too and the stored batch has settled; when it
  returns a result, the status in the result is the one that is stored. The failures covered are those of the creation of the
  runs, the publication of progress, the scheduler, the sandbox clean-up, the
  projection and the heartbeat task, and a cancellation of the task at any of these calls but the clean-up.
\<close>

theorem owned_batch_settled:
  assumes "su_store su = file_run_store sha rt" and "\<And>T. submitter_keeps su (batch_at T (br_batch_id b))"
    and "submitter_keeps su keyed" and "\<And>ctx b. mild (su_cleanup_batch su ctx b)"
    and "br_status b = B_RUNNING" and "batch_at UNIV (br_batch_id b) w" and "keyed w"
    and "\<And>runs v v'. create_runs (su_env su) ctx prepared b (int_or (br_parent_tool_call_id b) 0) w = (Inr runs, v) \<Longrightarrow>
      staged_run (sv_repr (su_env su)) (su_max_concurrency su) (su_staged su)
        \<lparr>sb_batch = b, sb_runs = runs, sb_join_strategy = br_join_strategy b, sb_plan = plan\<rparr> v' \<noteq> None"
  shows "\<exists>r w'. execute_owned_batch su ctx prepared b plan w = Some (r, w')
    \<and> batch_at {s. is_terminal_batch_status s} (br_batch_id b) w'
    \<and> (\<forall>res. r = Inr res \<longrightarrow> batch_at {bres_status res} (br_batch_id b) w')"
proof -
  obtain r s where body: "owned_body su ctx prepared plan (b, w) = Some (r, s)"
  proof -
    have "owned_body su ctx prepared plan (b, w) \<noteq> None" by (rule owned_body_returns) (rule assms(8))
    with that show ?thesis by (metis option.exhaust surj_pair)
  qed
  have "open_owner b (b, w)" using assms(6,7) by (simp add: open_owner_def)
  with ends_body [OF assms(1,5,2,3)] body have o: "owner_outcome b r s" unfolding endsP_def by blast
  show ?thesis
  proof (cases r)
    case (Inr res)
    with o have "batch_at {bres_status res} (br_batch_id b) (snd s)" by (simp add: owner_outcome_def)
    with batch_at_weaken [OF this] Inr body show ?thesis
      by (cases s) (simp add: execute_owned_batch_def withlocalsP_def catchP_def)
  next
    case (Inl exc)
    from handler_settles [OF assms(1,5,2,4) o [unfolded Inl]] obtain e s' where
      "owned_handler su ctx (int_or (br_parent_tool_call_id b) 0) exc s = (Inl e, s')" "settled_batch (br_batch_id b) (snd s')" by blast
    with Inl body show ?thesis by (cases s') (simp add: execute_owned_batch_def withlocalsP_def catchP_def)
  qed
qed

text \<open>A scheduler environment in which a started run completes at once.\<close>

definition swift_hooks :: "'w staged_hooks" where
  "swift_hooks =
     \<lparr>sg_sched =
        \<lparr>sh_wait = (\<lambda>rn e. (Inr (map (\<lambda>(t, r, _). (t, Inr (sample_result (tr_run_id r) COMPLETED))) (take 1 rn)), e)),
         sh_prepare_retry = None, sh_cancel_queued = None, sh_cancel_and_wait = (\<lambda>_. retE ())\<rparr>,
      sg_cancel_queued = (\<lambda>run _. retE (sample_result (tr_run_id run) CANCELLED)),
      sg_list_batch_runs = (\<lambda>_. retE []), sg_publish_parent_batch_progress = (\<lambda>_ _. retE ()), sg_run_objects = (\<lambda>_ runs. runs)\<rparr>"

definition sample_submitter :: "'w run_store \<Rightarrow> 'w submitter" where
  "sample_submitter st =
     \<lparr>su_env = sample_submission_env st, su_staged = swift_hooks, su_max_concurrency = 4, su_skill_loader = None,
      su_available_count = (\<lambda>_ _. retE None), su_cleanup_batch = (\<lambda>_ _. retE ()), su_batch_dir = (\<lambda>_. Inr []),
      su_write_batch_result = (\<lambda>_ _. retE ()), su_beater_done = retE False\<rparr>"

definition sample_batch_plan :: batch_execution_plan where
  "sample_batch_plan =
     \<lparr>bep_total_count = 1, bep_concurrency = 1, bep_planned_batch_sizes = [1], bep_sandbox_type = None,
      bep_sandbox_task_count = 0, bep_sandbox_concurrency = None, bep_available_sandbox_count = None, bep_sandbox_plans = []\<rparr>"

lemma swift_hooks_ok: "staged_hooks_ok (swift_hooks :: 'e staged_hooks)"
proof -
  have "wait_ok (sg_sched (swift_hooks :: 'e staged_hooks))"
    unfolding wait_ok_def
  proof (intro allI impI)
    fix rn :: running and e :: 'e assume "rn \<noteq> []"
    then obtain t r k rest where "rn = (t, r, k) # rest" by (cases rn) auto
    then show "\<exists>finished e'. sh_wait (sg_sched swift_hooks) rn e = (Inr finished, e') \<and> finished \<noteq> [] \<and> distinct (map fst finished)
         \<and> (\<forall>(t, outcome) \<in> set finished. \<exists>run key result. dict_get rn t = Some (run, key)
              \<and> outcome = Inr result \<and> res_run_id result = tr_run_id run)"
      by (simp add: swift_hooks_def sample_result_def)
  qed
  then show ?thesis
    by (simp add: staged_hooks_ok_def retry_ok_def swift_hooks_def sample_result_def publish_stage_progress_def suppressE_def
        catch_Exception_def)
qed

lemma sample_submitter_keeps: "submitter_keeps (sample_submitter st) P"
proof -
  have "preserves P (\<lambda>e. (Inr x, e))" for x :: "(nat \<times> task_result result) list" by (simp add: preserves_def)
  then show ?thesis
    by (simp add: submitter_keeps_def sample_submitter_def sample_submission_env_keeps swift_hooks_def staged_hooks_keep_def
        sched_hooks_keep_def preserves_def)
qed

theorem owned_batch_settled_witness:
  "\<exists>r w'. execute_owned_batch (sample_submitter (file_run_store (\<lambda>_. []) [])) sample_ctx sample_prepared (sample_batch B_RUNNING)
       sample_batch_plan (sample_store []) = Some (r, w') \<and> batch_at {s. is_terminal_batch_status s} ''b'' w'"
proof -
  let ?st = "file_run_store (\<lambda>_. []) [] :: fs_world run_store" and ?b = "sample_batch B_RUNNING" and ?w = "sample_store []"
  have st: "su_store (sample_submitter ?st) = file_run_store (\<lambda>_. []) []" by (simp add: sample_submitter_def)
  have w: "batch_at UNIV (br_batch_id ?b) ?w" "keyed ?w" "dict_ok (fs_runs ?w)"
    by (simp_all add: batch_at_def sample_store_def keyed_def sample_batch_def)
  have cl: "mild (su_cleanup_batch (sample_submitter ?st) ctx b)" for ctx b by (simp add: sample_submitter_def mild_pure)
  have b: "br_status ?b = B_RUNNING" "br_batch_id ?b = ''b''" by (simp_all add: sample_batch_def)
  have ret: "staged_run repr mc (su_staged (sample_submitter ?st))
      \<lparr>sb_batch = ?b, sb_runs = runs, sb_join_strategy = br_join_strategy ?b, sb_plan = sample_batch_plan\<rparr> v' \<noteq> None"
    if c: "create_runs (su_env (sample_submitter ?st)) sample_ctx sample_prepared ?b (int_or (br_parent_tool_call_id ?b) 0) ?w = (Inr runs, v)"
    for repr mc runs v v'
  proof -
    have "length runs = 1"
      using create_items_held [OF st submitter_keepsD(1) [OF sample_submitter_keeps] w(3) c [unfolded create_runs_def]]
      by (auto simp: sample_prepared_def sample_plan_input_def dest: map_eq_imp_length_eq)
    then obtain run where r: "runs = [run]" by (auto simp: length_Suc_conv)
    obtain out e' where "schedule_runs repr mc swift_hooks
        \<lparr>sb_batch = ?b, sb_runs = runs, sb_join_strategy = br_join_strategy ?b, sb_plan = sample_batch_plan\<rparr> [run] v' = Some (out, e')"
      using schedule_runs_results [OF swift_hooks_ok, of "[run]"] by fastforce
    with r show ?thesis by (simp add: staged_run_def group_runs_by_stage_def add_to_stage_def Let_def sample_submitter_def)
  qed
  have "\<exists>r w'. execute_owned_batch (sample_submitter ?st) sample_ctx sample_prepared ?b sample_batch_plan ?w = Some (r, w')
      \<and> batch_at {s. is_terminal_batch_status s} (br_batch_id ?b) w'
      \<and> (\<forall>res. r = Inr res \<longrightarrow> batch_at {bres_status res} (br_batch_id ?b) w')"
    by (rule owned_batch_settled [OF st sample_submitter_keeps sample_submitter_keeps cl b(1) w(1,2)]) (rule ret)
  then show ?thesis unfolding b(2) by blast
qed

end
