(* ===== verification/Batch_Observer.thy ===== *)
theory Batch_Observer
  imports Batch_Ownership
begin

section \<open>The observer of a batch\<close>

text \<open>
  What the submission pipeline (\<open>Submitter\<close>) promises of a caller that finds its batch already there: it only
  reads, it comes back, and it reports one result for each run.
\<close>

subsection \<open>The observer only reads\<close>

definition reads_agree :: "'w run_store \<Rightarrow> 'w run_store \<Rightarrow> bool" where
  "reads_agree st st' \<longleftrightarrow>
     rs_get_batch st' = rs_get_batch st \<and> rs_list_batch_runs st' = rs_list_batch_runs st \<and> rs_get_task_detail st' = rs_get_task_detail st"

definition with_store :: "'w run_store \<Rightarrow> 'w submitter \<Rightarrow> 'w submitter" where
  "with_store st' su = su\<lparr>su_env := (su_env su)\<lparr>sv_store := st'\<rparr>\<rparr>"

lemma with_store_simps [simp]:
  "su_env (with_store st' su) = (su_env su)\<lparr>sv_store := st'\<rparr>" "su_batch_dir (with_store st' su) = su_batch_dir su"
  by (simp_all add: with_store_def)

lemma with_store_projection [simp]:
  "sync_projection (with_store st' su) ctx batch runs results opts required = sync_projection su ctx batch runs results opts required"
  "remove_provisional_projection (with_store st' su) ctx call bid = remove_provisional_projection su ctx call bid"
proof -
  have "sync_attempts (with_store st' su) ctx batch runs results opts required n = sync_attempts su ctx batch runs results opts required n"
    "remove_attempts (with_store st' su) ctx call bid n = remove_attempts su ctx call bid n" for n
    by (induction n) (simp_all cong: if_cong)
  then show "sync_projection (with_store st' su) ctx batch runs results opts required = sync_projection su ctx batch runs results opts required"
    "remove_provisional_projection (with_store st' su) ctx call bid = remove_provisional_projection su ctx call bid"
    by (simp_all add: sync_projection_def remove_provisional_projection_def)
qed

lemma loads_agree:
  assumes "reads_agree (sv_store env) st'"
  shows "load_existing_batch_runs (env\<lparr>sv_store := st'\<rparr>) = load_existing_batch_runs env"
    and "wait_for_existing_batch_results (env\<lparr>sv_store := st'\<rparr>) = wait_for_existing_batch_results env"
proof -
  have a: "rs_get_batch st' = rs_get_batch (sv_store env)" "rs_list_batch_runs st' = rs_list_batch_runs (sv_store env)"
    "rs_get_task_detail st' = rs_get_task_detail (sv_store env)" using assms by (simp_all add: reads_agree_def)
  have "load_round (env\<lparr>sv_store := st'\<rparr>) d = load_round env d" for d by (simp add: load_round_def a cong: if_cong)
  then show "load_existing_batch_runs (env\<lparr>sv_store := st'\<rparr>) = load_existing_batch_runs env"
    by (intro ext) (simp add: load_existing_batch_runs_def)
  have "observe_run st' templates = observe_run (sv_store env) templates" for templates
    by (rule ext) (simp add: observe_run_def a Let_def cong: if_cong option.case_cong)
  then have "observe_round (env\<lparr>sv_store := st'\<rparr>) bid templates d = observe_round env bid templates d" for bid templates d
    by (simp add: observe_round_def a Let_def cong: if_cong option.case_cong)
  moreover have "finish_observation (env\<lparr>sv_store := st'\<rparr>) bid runs t t0 = finish_observation env bid runs t t0" for bid runs t t0
    by (simp add: finish_observation_def a cong: if_cong)
  ultimately show "wait_for_existing_batch_results (env\<lparr>sv_store := st'\<rparr>) = wait_for_existing_batch_results env"
    by (intro ext) (simp add: wait_for_existing_batch_results_def Let_def cong: if_cong)
qed

text \<open>
  C35. A duplicate submission only observes. What \<^verbatim>\<open>_observe_existing_batch\<close> does depends on three operations of the
  store, the reading of a batch, of its runs and of a result: with any other store that reads alike, whatever its writing
  operations do, the observation has the same outcome and leaves the same state. So an observer never heartbeats, claims,
  settles or cancels anything of the batch.
\<close>

theorem observer_read_only:
  assumes "reads_agree (su_store su) st'"
  shows "observe_existing_batch (with_store st' su) ctx batch prepared call = observe_existing_batch su ctx batch prepared call"
proof -
  have "project_observed (with_store st' su) ctx prepared ob batch = project_observed su ctx prepared ob batch" for ob batch
    by (simp add: project_observed_def drop_provisional_def Let_def cong: if_cong)
  then have "observer_body (with_store st' su) ctx prepared = observer_body su ctx prepared"
    by (simp add: observer_body_def loads_agree [OF assms] drop_provisional_def Let_def cong: if_cong)
  moreover have "observer_handler (with_store st' su) ctx = observer_handler su ctx"
    by (intro ext) (simp add: observer_handler_def cong: if_cong)
  ultimately show ?thesis by (simp add: observe_existing_batch_def)
qed

theorem observer_read_only_witness:
  "observe_existing_batch (with_store ((file_run_store (\<lambda>_. []) [])\<lparr>rs_heartbeat_batch := \<lambda>_. raiseE (Exn RuntimeError [])\<rparr>)
       (sample_submitter (file_run_store (\<lambda>_. []) []))) sample_ctx (sample_batch B_RUNNING) sample_prepared 0 (sample_store [])
   = observe_existing_batch (sample_submitter (file_run_store (\<lambda>_. []) [])) sample_ctx (sample_batch B_RUNNING) sample_prepared 0
       (sample_store [])"
  by (subst observer_read_only) (simp_all add: reads_agree_def sample_submitter_def)

subsection \<open>An observation ends and is complete\<close>

text \<open>
  \<open>poll_clock env ticks\<close>: the event loop's clock is \<open>ticks\<close>, and sleeping advances it. \<open>clock_kept\<close>: an operation
  does not set it back. \<open>own_files\<close>: the files of a run are about that run, so that what the store says about a run
  is about that run (\<open>det_owned\<close>); a reader leaves them so.
\<close>

definition poll_clock :: "'w submission_env \<Rightarrow> ('w \<Rightarrow> int) \<Rightarrow> bool" where
  "poll_clock env ticks \<longleftrightarrow>
     (\<forall>w. sv_monotonic_ms env w = (Inr (ticks w), w)) \<and> (\<forall>w r w'. sv_sleep env w = (r, w') \<longrightarrow> ticks w < ticks w')"

definition clock_kept :: "('w \<Rightarrow> int) \<Rightarrow> ('w, 'a) io \<Rightarrow> bool" where
  "clock_kept ticks m \<longleftrightarrow> (\<forall>c. preserves (\<lambda>w. c \<le> ticks w) m)"

definition det_owned :: "string \<Rightarrow> task_detail \<Rightarrow> bool" where
  "det_owned rid d \<longleftrightarrow> tr_run_id (det_run d) = rid \<and> (\<forall>r. det_result d = Some r \<longrightarrow> res_run_id r = rid)"

definition own_files :: "'z fs_world_scheme \<Rightarrow> bool" where
  "own_files w \<longleftrightarrow> keyed w \<and> (\<forall>k p. (k, p) \<in> set (fs_results w) \<longrightarrow> res_run_id p = snd k)"

lemma hydrate_run_id:
  assumes "hydrate_result_output sha rt run p fs = Inr h"
  shows "res_run_id h = res_run_id p"
proof (cases "res_output_ref p = None \<or> res_output p \<noteq> []")
  case True
  with assms show ?thesis by (auto simp: hydrate_result_output_def split: option.splits)
next
  case False
  then obtain ref where ref: "res_output_ref p = Some ref" "res_output p = []" by auto
  with assms obtain path digest where "output_path_from_ref rt run ref = Inr (path, digest)"
    by (auto simp: hydrate_result_output_def rbind_Inr_iff)
  with assms ref obtain body where "h = p\<lparr>res_output := body\<rparr>"
    by (cases "dict_get fs path") (auto simp: hydrate_result_output_def split: if_splits option.splits)
  then show ?thesis by simp
qed

lemma file_reads_same:
  "snd (get_task_detail sha rt rid view w) = w" "snd (list_batch_runs bid w) = w" "snd (get_batch bid w) = w"
  by (auto simp: get_task_detail_def read_run_by_id_def read_result_def bindE_def list_batch_runs_def get_batch_def
      split: option.splits sum.splits prod.splits)

lemma file_detail_owned:
  assumes "own_files w" and "get_task_detail sha rt rid view w = (Inr d, w')"
  shows "det_owned rid d"
proof -
  from assms(2) obtain k r where f: "find_run rid w = Some (k, r)"
    by (cases "find_run rid w") (auto simp: get_task_detail_def bindE_read_run)
  then obtain i where i: "i < length (fs_runs w)" "(k, r) = fs_runs w ! i" and c: "case (k, r) of ((_, i), _) \<Rightarrow> i = rid"
    unfolding find_run_def find_Some_iff by auto
  from i have "(k, r) \<in> set (fs_runs w)" by simp
  moreover from c have "snd k = rid" by (cases k) simp
  ultimately have r: "tr_run_id r = rid" using assms(1) keyedD unfolding own_files_def by metis
  have "res_run_id h = rid" if h: "read_result sha rt r w = (Inr (Some h), v)" for h v
  proof -
    from h obtain p where p: "dict_get (fs_results w) (tr_batch_id r, tr_run_id r) = Some p"
      "hydrate_result_output sha rt r p (fs_files w) = Inr h"
      by (auto simp: read_result_def split: option.splits sum.splits)
    from dict_get_in [OF p(1)] assms(1) have "res_run_id p = tr_run_id r" unfolding own_files_def by (metis snd_conv)
    with hydrate_run_id [OF p(2)] r show ?thesis by simp
  qed
  with assms(2) f r show ?thesis
    by (auto simp: get_task_detail_def bindE_read_run bindE_Inr_iff det_owned_def split: if_splits)
qed

text \<open>The invariant of the polling loop: every run is pending or has a result, and both are filed under its identifier.\<close>

definition observing :: "string set \<Rightarrow> observed \<Rightarrow> bool" where
  "observing K v \<longleftrightarrow>
     set (dict_keys (ov_runs v)) = K \<and> set (ov_pending v) \<subseteq> K \<and> distinct (ov_pending v)
     \<and> K \<subseteq> set (ov_pending v) \<union> set (dict_keys (ov_results v)) \<and> keyed_results (ov_results v)
     \<and> (\<forall>k r. dict_get (ov_runs v) k = Some r \<longrightarrow> tr_run_id r = k)"

abbreviation on_observed :: "string set \<Rightarrow> observed \<times> 'z fs_world_scheme \<Rightarrow> bool" where
  "on_observed K s \<equiv> observing K (fst s) \<and> own_files (snd s)"

lemma ends_preserves: "ends Q m (\<lambda>_. Q) \<Longrightarrow> preserves Q m"
  unfolding ends_def preserves_def by (metis prod.collapse)

lemma preserves_observed: "preserves own_files m \<Longrightarrow> preserves (on_observed K) (onworld m)"
  by (auto simp: preserves_def onworld_apply)

lemma reads_preserve_own [preserves_intros]:
  "preserves own_files now_ms" "preserves own_files (get_task_detail sha rt rid view)" "preserves own_files (list_batch_runs bid)"
  "preserves own_files (get_batch bid)" "preserves own_files (terminal_result_from_run run fallback)"
  unfolding preserves_def file_reads_same
  by (auto simp: own_files_def now_ms_def terminal_result_from_run_def bindE_def Let_def split: option.splits)

lemma observing_run: "observing K v \<Longrightarrow> rid \<in> K \<Longrightarrow> tr_run_id r = rid \<Longrightarrow> observing K (v\<lparr>ov_runs := dict_set rid r (ov_runs v)\<rparr>)"
  unfolding observing_def by (auto simp: dict_get_set simp del: set_map)

lemma observing_result:
  "observing K v \<Longrightarrow> res_run_id r = rid \<Longrightarrow>
     observing K (v\<lparr>ov_results := dict_set rid r (ov_results v), ov_pending := remove1 rid (ov_pending v)\<rparr>)"
  unfolding observing_def keyed_results_def by (auto simp: dict_get_set simp del: set_map)

lemma read_detail_ends:
  "ends (on_observed K) (onworld (catch_Exception (bindE (get_task_detail sha rt rid view) (\<lambda>d. retE (Some d))) (\<lambda>_. retE None)))
     (\<lambda>r s. on_observed K s \<and> (\<forall>d. r = Inr (Some d) \<longrightarrow> det_owned rid d))"
proof -
  have "w' = w" if "get_task_detail sha rt rid view w = (r, w')" for r and w w' :: "'a fs_world_scheme"
    using file_reads_same(1) [of sha rt rid view w] that by simp
  then show ?thesis using file_detail_owned
    by (fastforce simp: ends_def onworld_def catch_Exception_def catchE_def bindE_def split: prod.splits sum.splits if_splits)
qed

lemma file_result_ends:
  assumes "det_owned rid d"
  shows "ends (on_observed K) (bindE (case det_result d of Some r \<Rightarrow> retE r | None \<Rightarrow> onworld (terminal_result_from_run (det_run d) None))
     (\<lambda>result. assign (\<lambda>v. v\<lparr>ov_results := dict_set rid result (ov_results v), ov_pending := remove1 rid (ov_pending v)\<rparr>))) (\<lambda>_. on_observed K)"
proof (rule ends_bind [where M = "\<lambda>r s. on_observed K s \<and> (\<forall>x. r = Inr x \<longrightarrow> res_run_id x = rid)"])
  show "ends (on_observed K) (case det_result d of Some r \<Rightarrow> retE r | None \<Rightarrow> onworld (terminal_result_from_run (det_run d) None))
      (\<lambda>r s. on_observed K s \<and> (\<forall>x. r = Inr x \<longrightarrow> res_run_id x = rid))"
  proof (cases "det_result d")
    case None
    have "res_run_id x = rid" if "terminal_result_from_run (det_run d) None w = (Inr x, w')" for x w w'
      using terminal_result_from_run_total [of "det_run d" None w] that assms by (auto simp: det_owned_def)
    with None show ?thesis by (auto simp: ends_def onworld_def dest: preservesD [OF reads_preserve_own(5)] split: prod.splits)
  qed (use assms in \<open>auto simp: ends_def det_owned_def\<close>)
qed (auto simp: ends_def observing_result)

lemma preserves_assign_observed: "(\<And>v. observing K v \<Longrightarrow> observing K (f v)) \<Longrightarrow> preserves (on_observed K) (assign f)"
  by (auto simp: preserves_def assign_def)

lemma collect_result_inv:
  "preserves (on_observed K) (bindE (onworld (catch_Exception (bindE (get_task_detail sha rt rid view) (\<lambda>d. retE (Some d))) (\<lambda>_. retE None)))
     (\<lambda>detail. case detail of None \<Rightarrow> retE ()
        | Some d \<Rightarrow> bindE (case det_result d of Some r \<Rightarrow> retE r | None \<Rightarrow> onworld (terminal_result_from_run (det_run d) None))
            (\<lambda>result. assign (\<lambda>v. v\<lparr>ov_results := dict_set rid result (ov_results v), ov_pending := remove1 rid (ov_pending v)\<rparr>))))"
proof (intro ends_preserves ends_bind [OF read_detail_ends])
  fix a :: "task_detail option"
  let ?f = "\<lambda>d. bindE (case det_result d of Some r \<Rightarrow> retE r | None \<Rightarrow> onworld (terminal_result_from_run (det_run d) None))
      (\<lambda>result. assign (\<lambda>v. v\<lparr>ov_results := dict_set rid result (ov_results v), ov_pending := remove1 rid (ov_pending v)\<rparr>))"
  show "ends (\<lambda>s. on_observed K s \<and> (\<forall>d. Inr a = Inr (Some d) \<longrightarrow> det_owned rid d))
      (case a of None \<Rightarrow> retE () | Some d \<Rightarrow> ?f d) (\<lambda>_. on_observed K)"
  proof (cases a)
    case (Some d)
    show ?thesis
    proof (cases "det_owned rid d")
      case True
      with file_result_ends [OF True] Some show ?thesis by (simp add: ends_def)
    qed (simp add: Some ends_def)
  qed (simp add: ends_def)
qed simp

lemma observe_run_inv:
  assumes "set (dict_keys templates) = K"
  shows "preserves (on_observed K) (observe_run (file_run_store sha rt) templates stored)"
proof -
  have "tr_run_id stored \<in> K" if "dict_get templates (tr_run_id stored) = Some t" for t
    using that assms by (metis dict_get_None_iff option.distinct(1))
  then show ?thesis
    unfolding observe_run_def Let_def file_run_store_ops
    by (intro preserves_intros collect_result_inv preserves_assign_observed observing_run) auto
qed

lemma observe_round_inv:
  assumes "sv_store env = file_run_store sha rt" and "preserves own_files (sv_sleep env)" and "preserves own_files (sv_monotonic_ms env)"
    and "set (dict_keys templates) = K"
  shows "preserves (on_observed K) (observe_round env bid templates deadline)"
  unfolding observe_round_def Let_def assms(1) file_run_store_ops
  by (intro preserves_intros preserves_observed assms(2,3) preserves_assign_observed observe_run_inv [OF assms(4)]) (simp add: observing_def)

lemma answers_thenE: "answers m \<Longrightarrow> answers n \<Longrightarrow> answers (thenE m n)"
  unfolding thenE_def by (intro answers_bindE)

lemma answers_onworld:
  assumes "answers m"
  shows "answers (onworld m)"
  unfolding answers_def
proof
  fix s :: "'c \<times> 'a"
  obtain a w where "m (snd s) = (Inr a, w)" using assms unfolding answers_def by blast
  then show "\<exists>a s'. onworld m s = (Inr a, s')" by (cases s) (simp add: onworld_apply)
qed

lemma answers_world: "answers (assign f)" "answers (getE g)" "answers now_ms"
  by (auto simp: answers_def assign_def now_ms_def split: prod.splits)

lemma answers_terminal_result: "answers (terminal_result_from_run run fallback)"
  unfolding answers_def using terminal_result_from_run_total by blast

lemmas answers_locals = answers_onworld answers_world answers_terminal_result answers_thenE

lemma answers_forE: "(\<And>x. answers (f x)) \<Longrightarrow> answers (forE xs f)"
  by (induction xs) (simp_all only: forE.simps answers_retE answers_locals)

lemmas observer_answers = answers_rules answers_locals answers_forE mild_rules mild_pure mild_details mild_cancel_run mild_locals

lemma observe_run_answers: "answers (observe_run (file_run_store sha rt) templates stored)"
  unfolding observe_run_def Let_def file_run_store_ops by (intro observer_answers)

lemma observe_round_answers:
  assumes "sv_store env = file_run_store sha rt" and "answers (sv_sleep env)" and "answers (sv_monotonic_ms env)"
  shows "answers (observe_round env bid templates deadline)"
  unfolding observe_round_def Let_def assms(1) file_run_store_ops
  by (intro observer_answers observe_run_answers assms)

lemma finish_answers:
  assumes "sv_store env = file_run_store sha rt"
  shows "answers (finish_observation env bid runs wait_timeout observed_at)"
  unfolding finish_observation_def Let_def assms file_run_store_ops suppressE_def
  by (intro observer_answers)

lemma clock_keptD: "clock_kept ticks m \<Longrightarrow> preserves (\<lambda>s. c \<le> ticks (snd s)) (onworld m)"
  by (auto simp: clock_kept_def intro: preserves_onworld)

definition reads_keep_clock :: "'z rt_world_scheme submission_env \<Rightarrow> ('z rt_world_scheme \<Rightarrow> int) \<Rightarrow> bool" where
  "reads_keep_clock env ticks \<longleftrightarrow>
     clock_kept ticks now_ms \<and> (\<forall>b. clock_kept ticks (rs_list_batch_runs (sv_store env) b))
     \<and> (\<forall>b. clock_kept ticks (rs_get_batch (sv_store env) b)) \<and> (\<forall>r v. clock_kept ticks (rs_get_task_detail (sv_store env) r v))"

lemma reads_keep_clockD:
  assumes "reads_keep_clock env ticks"
  shows "preserves (\<lambda>w. c \<le> ticks w) now_ms" and "preserves (\<lambda>w. c \<le> ticks w) (rs_list_batch_runs (sv_store env) b)"
    and "preserves (\<lambda>w. c \<le> ticks w) (rs_get_batch (sv_store env) b)"
    and "preserves (\<lambda>w. c \<le> ticks w) (rs_get_task_detail (sv_store env) rid v)"
  using assms by (simp_all add: reads_keep_clock_def clock_kept_def)

lemma observe_run_clock:
  assumes "reads_keep_clock env ticks"
  shows "preserves (\<lambda>s. c \<le> ticks (snd s)) (observe_run (sv_store env) templates stored)"
  unfolding observe_run_def Let_def terminal_result_from_run_def
  by (intro preserves_intros reads_keep_clockD [OF assms])

lemma ends_if: "(c \<Longrightarrow> ends Q m R) \<Longrightarrow> (\<not> c \<Longrightarrow> ends Q n R) \<Longrightarrow> ends Q (if c then m else n) R"
  by simp

lemma sleep_advances:
  assumes "poll_clock env ticks"
  shows "ends (\<lambda>s. c \<le> ticks (snd s)) (thenE (onworld (sv_sleep env)) (retE True)) (\<lambda>r s. r = Inr True \<longrightarrow> c < ticks (snd s))"
proof (rule ends_then [where M = "\<lambda>_ s. c < ticks (snd s)"])
  have "c < ticks w'" if "c \<le> ticks w" "sv_sleep env w = (r, w')" for w r w'
    using assms that unfolding poll_clock_def by fastforce
  then show "ends (\<lambda>s. c \<le> ticks (snd s)) (onworld (sv_sleep env)) (\<lambda>_ s. c < ticks (snd s))"
    by (auto simp: ends_def onworld_def split: prod.splits)
qed (simp_all add: ends_def)

lemma observe_round_clock:
  assumes rk: "reads_keep_clock env ticks" and pc: "poll_clock env ticks"
    and r: "observe_round env bid templates deadline s = (Inr True, s')"
  shows "ticks (snd s) < deadline \<and> ticks (snd s) < ticks (snd s')"
proof -
  obtain v w where s: "s = (v, w)" by (cases s)
  let ?c = "ticks w"
  let ?C = "\<lambda>s. ?c \<le> ticks (snd s)" and ?R = "\<lambda>r s. r = Inr True \<longrightarrow> ?c < ticks (snd s)"
  let ?st = "sv_store env"
  define rest where "rest = bindE (onworld (catch_Exception (bindE (rs_list_batch_runs ?st bid) (\<lambda>runs. retE (Some runs))) (\<lambda>_. retE None)))
      (\<lambda>listed. thenE (case listed of None \<Rightarrow> retE () | Some stored_runs \<Rightarrow> forE stored_runs (observe_run ?st templates))
         (bindE (getE (\<lambda>s. ov_pending (fst s))) (\<lambda>pending.
            if pending \<noteq> [] then thenE (onworld (sv_sleep env)) (retE True)
            else thenE (catch_Exception (bindE (onworld (rs_get_batch ?st bid)) (\<lambda>b. assign (\<lambda>v. v\<lparr>ov_batch := b\<rparr>))) (\<lambda>_. retE ()))
             (bindE (getE (\<lambda>s. ov_batch (fst s))) (\<lambda>b.
                if br_status b \<in> set TERMINAL_BATCH_STATUSES then retE False else thenE (onworld (sv_sleep env)) (retE True))))))"
  have round: "observe_round env bid templates deadline (v, w) = (if deadline \<le> ?c then (Inr False, (v, w)) else rest (v, w))"
    using pc by (simp add: observe_round_def rest_def poll_clock_def Let_def)
  have "ends ?C rest ?R"
    unfolding rest_def
    by (intro ends_if ends_bind [where M = "\<lambda>_. ?C"] ends_then [where M = "\<lambda>_. ?C"] sleep_advances [OF pc] ends_keeps preserves_intros
        reads_keep_clockD [OF rk] observe_run_clock [OF rk]) (simp_all add: ends_def)
  with r round s show ?thesis by (cases s') (auto simp: ends_def split: if_splits)
qed

lemma dict_get_fold_set: "dict_get (fold (\<lambda>k. dict_set k (f k)) ks d) k = (if k \<in> set ks then Some (f k) else dict_get d k)"
  by (induction ks arbitrary: d) (auto simp: dict_get_set)

text \<open>\<open>complete runs ob\<close>: one result and one snapshot per run, in the order of the runs; a run that timed out is reported as blocked.\<close>

definition complete :: "task_run list \<Rightarrow> existing_batch_observation \<Rightarrow> bool" where
  "complete runs ob \<longleftrightarrow>
     map res_run_id (ob_results ob) = map tr_run_id runs \<and> map tr_run_id (ob_runs ob) = map tr_run_id runs
     \<and> set (ob_timed_out_run_ids ob) \<subseteq> tr_run_id ` set runs
     \<and> (\<forall>r \<in> set (ob_results ob). res_run_id r \<in> set (ob_timed_out_run_ids ob) \<longrightarrow> res_status r = BLOCKED)"

lemma observing_complete:
  assumes o: "observing (tr_run_id ` set runs) v" and f: "\<And>k run. dict_get (ov_runs v) k = Some run \<Longrightarrow> res_run_id (f k) = k \<and> res_status (f k) = BLOCKED"
  shows "complete runs \<lparr>ob_batch = b,
     ob_results = map (\<lambda>run. the (dict_get (fold (\<lambda>k. dict_set k (f k)) (ov_pending v) (ov_results v)) (tr_run_id run))) runs,
     ob_runs = map (\<lambda>run. the (dict_get (ov_runs v) (tr_run_id run))) runs, ob_timed_out_run_ids = ov_pending v\<rparr>"
proof -
  let ?r = "\<lambda>run. the (dict_get (fold (\<lambda>k. dict_set k (f k)) (ov_pending v) (ov_results v)) (tr_run_id run))"
  have known: "\<exists>r. dict_get (ov_runs v) k = Some r \<and> tr_run_id r = k" if "k \<in> tr_run_id ` set runs" for k
    using o that unfolding observing_def by (metis dict_get_None_iff not_None_eq)
  have res: "res_run_id (?r run) = tr_run_id run \<and> (tr_run_id run \<in> set (ov_pending v) \<longrightarrow> res_status (?r run) = BLOCKED)"
    if run: "run \<in> set runs" for run
  proof (cases "tr_run_id run \<in> set (ov_pending v)")
    case True
    with known [of "tr_run_id run"] run f show ?thesis by (auto simp: dict_get_fold_set)
  next
    case False
    with o run have "tr_run_id run \<in> set (dict_keys (ov_results v))" unfolding observing_def by blast
    then obtain r where "dict_get (ov_results v) (tr_run_id run) = Some r" by (metis dict_get_None_iff not_None_eq)
    with False o show ?thesis by (auto simp: dict_get_fold_set observing_def keyed_results_def)
  qed
  have "tr_run_id (the (dict_get (ov_runs v) (tr_run_id run))) = tr_run_id run" if "run \<in> set runs" for run
    using known [of "tr_run_id run"] that by auto
  with res o show ?thesis by (auto simp: complete_def observing_def)
qed

lemma finish_complete:
  assumes "sv_store env = file_run_store sha rt"
  shows "ends (on_observed (tr_run_id ` set runs)) (finish_observation env bid runs wait_timeout observed_at)
     (\<lambda>r s. \<forall>ob. r = Inr ob \<longrightarrow> complete runs ob)"
proof -
  let ?Q = "on_observed (tr_run_id ` set runs)" and ?R = "\<lambda>r (s :: observed \<times> 'a fs_world_scheme). \<forall>ob. r = Inr ob \<longrightarrow> complete runs ob"
  let ?ob = "\<lambda>ended v. \<lparr>ob_batch = ov_batch v,
      ob_results = map (\<lambda>run. the (dict_get (fold (\<lambda>rid. dict_set rid (timed_out_observation wait_timeout observed_at ended
          (the (dict_get (ov_runs v) rid)))) (ov_pending v) (ov_results v)) (tr_run_id run))) runs,
      ob_runs = map (\<lambda>run. the (dict_get (ov_runs v) (tr_run_id run))) runs, ob_timed_out_run_ids = ov_pending v\<rparr>"
  have c: "complete runs (?ob ended v)" if v: "observing (tr_run_id ` set runs) v" for ended v
    by (rule observing_complete [OF v])
      (use v in \<open>auto simp: observing_def timed_out_observation_def bare_result_def\<close>)
  have last: "ends ?Q (bindE (getE fst) (\<lambda>v. retE (?ob ended v))) ?R" for ended
    by (rule ends_bind [where M = "\<lambda>r s. \<forall>v. r = Inr v \<longrightarrow> observing (tr_run_id ` set runs) v"]) (use c in \<open>auto simp: ends_def\<close>)
  have refresh: "preserves ?Q (if ov_pending v = [] \<and> br_status (ov_batch v) \<notin> set TERMINAL_BATCH_STATUSES
        then suppressE (bindE (onworld (get_batch bid)) (\<lambda>b. assign (\<lambda>v. v\<lparr>ov_batch := b\<rparr>))) else retE ())" for v
    by (intro preserves_intros preserves_observed preserves_assign_observed) (simp add: observing_def)
  show ?thesis
    unfolding finish_observation_def Let_def assms file_run_store_ops
    by (intro ends_bind [where M = "\<lambda>_. ?Q"] ends_then [where M = "\<lambda>_. ?Q"] ends_keeps refresh last preserves_observed reads_preserve_own
        preserves_pure) simp_all
qed

lemma template_keys:
  "set (dict_keys (fold (\<lambda>run. dict_set (tr_run_id run) run) rs d)) = tr_run_id ` set rs \<union> set (dict_keys d)"
  by (induction rs arbitrary: d) (auto simp del: set_map)

lemma template_own:
  assumes "\<And>k r. dict_get d k = Some r \<Longrightarrow> tr_run_id r = k"
  shows "dict_get (fold (\<lambda>run. dict_set (tr_run_id run) run) rs d) k = Some r \<Longrightarrow> tr_run_id r = k"
  using assms
proof (induction rs arbitrary: d)
  case (Cons x rs)
  from Cons.prems(1) have "dict_get (fold (\<lambda>run. dict_set (tr_run_id run) run) rs (dict_set (tr_run_id x) x d)) k = Some r" by simp
  then show ?case by (rule Cons.IH) (auto simp: dict_get_set dest: Cons.prems(2) split: if_splits)
qed simp

lemma template_ok: "dict_ok d \<Longrightarrow> dict_ok (fold (\<lambda>run. dict_set (tr_run_id run) run) rs d)"
  by (induction rs arbitrary: d) simp_all

lemma file_reads_keep_clock:
  assumes "sv_store env = file_run_store sha rt" and "clock_kept ticks now_ms"
  shows "reads_keep_clock env ticks"
  using assms(2) unfolding reads_keep_clock_def assms(1) file_run_store_ops
  by (simp add: clock_kept_def preserves_def file_reads_same)

text \<open>
  C36. An observation ends and leaves no run out. For the filesystem store: when the clock of the event loop advances while
  the observer sleeps and is not set back by reading the time, when a sleep is not cancelled, and when the files of every run carry
  the run's own identifier and those who work during a sleep keep it so, then
  \<^verbatim>\<open>_wait_for_existing_batch_results\<close> returns for every batch with runs. The observation has exactly one result
  and one snapshot for each run, in the order of the runs and under the identifier of the run; a run that did not
  settle in time is reported as blocked, which makes the reported batch blocked.
\<close>

theorem observation_complete:
  fixes env :: "'z fs_world_scheme submission_env"
  assumes "runs \<noteq> []" and st: "sv_store env = file_run_store sha rt" and pc: "poll_clock env ticks" and "clock_kept ticks now_ms"
    and sl: "answers (sv_sleep env)" "preserves own_files (sv_sleep env)" and own: "own_files w"
  shows "\<exists>ob w'. wait_for_existing_batch_results env batch runs w = Some (Inr ob, w')
    \<and> complete runs ob \<and> (ob_timed_out_run_ids ob \<noteq> [] \<longrightarrow> bres_status (observed_result ob dir) = B_BLOCKED)"
proof -
  let ?K = "tr_run_id ` set runs" and ?t = "fold (\<lambda>run. dict_set (tr_run_id run) run) runs []"
  let ?v0 = "\<lparr>ov_batch = batch, ov_runs = ?t, ov_pending = dict_keys ?t, ov_results = []\<rparr>"
  have K: "set (dict_keys ?t) = ?K" using template_keys [of runs "[]"] by simp
  have d: "distinct (dict_keys ?t)" using template_ok [of "[]" runs] by (simp add: dict_ok_def)
  have t: "\<forall>k r. dict_get ?t k = Some r \<longrightarrow> tr_run_id r = k"
    by (intro allI impI) (rule template_own [of "[]" runs], simp_all)
  have o: "observing ?K ?v0"
    unfolding observing_def keyed_results_def observed.select_convs K by (intro conjI d t) simp_all
  note rk = file_reads_keep_clock [OF st assms(4)]
  have mo: "sv_monotonic_ms env v = (Inr (ticks v), v)" for v using pc by (simp add: poll_clock_def)
  then have ma: "answers (sv_monotonic_ms env)" "preserves own_files (sv_monotonic_ms env)" by (simp_all add: answers_def preserves_def)
  obtain tm w1 where now: "now_ms w = (Inr tm, w1)" by (simp add: now_ms_def)
  from preservesD [OF reads_preserve_own(1) own now] have own1: "own_files w1" .
  let ?wt = "Max (set (map (reuse_wait_timeout_seconds (sv_environ env)) runs))"
  let ?body = "observe_round env (br_batch_id batch) ?t (ticks w1 + 1000 * ?wt)"
  let ?s0 = "(?v0, w1)"
  have dec: "nat (ticks w1 + 1000 * ?wt - ticks (snd s')) < nat (ticks w1 + 1000 * ?wt - ticks (snd s))"
    if "on_observed ?K s" "?body s = (Inr True, s')" for s s'
    using observe_round_clock [OF rk pc that(2)] by simp
  have keep: "on_observed ?K s'" if "on_observed ?K s" "?body s = (r, s')" for s r s'
    by (rule preservesD [OF observe_round_inv [OF st sl(2) ma(2) K] that])
  have s0: "on_observed ?K ?s0" using o own1 by simp
  obtain s1 where loop: "whileE ?body ?s0 = Some (Inr (), s1)" "on_observed ?K s1"
  proof -
    have "\<exists>q s1. whileE ?body ?s0 = Some (q, s1) \<and> on_observed ?K s1
        \<and> (q = Inr () \<longrightarrow> (\<exists>s0. on_observed ?K s0 \<and> ?body s0 = (Inr False, s1)))
        \<and> (\<forall>e. q = Inl e \<longrightarrow> (\<exists>s0. on_observed ?K s0 \<and> ?body s0 = (Inl e, s1)))"
      by (rule whileE_rule [where m = "\<lambda>s. nat (ticks w1 + 1000 * ?wt - ticks (snd s))"])
        (rule s0, erule (1) keep, erule (1) dec)
    then obtain q s1 where q: "whileE ?body ?s0 = Some (q, s1)" "on_observed ?K s1"
      "\<forall>e. q = Inl e \<longrightarrow> (\<exists>s0. on_observed ?K s0 \<and> ?body s0 = (Inl e, s1))"
      by (elim exE conjE) (rule that, assumption, intro conjI, assumption+)
    have "q \<noteq> Inl e" for e
    proof
      assume "q = Inl e"
      with q(3) obtain s0 where b: "?body s0 = (Inl e, s1)" by (elim allE impE exE conjE)
      obtain x s' where "?body s0 = (Inr x, s')" using observe_round_answers [OF st sl(1) ma(1)] unfolding answers_def by blast
      with b show False by simp
    qed
    with q that show ?thesis by (cases q) auto
  qed
  let ?fin = "finish_observation env (br_batch_id batch) runs ?wt tm"
  obtain ob s2 where fin: "?fin s1 = (Inr ob, s2)" using finish_answers [OF st] unfolding answers_def by blast
  have "wait_for_existing_batch_results env batch runs w = Some (Inr ob, snd s2)"
    using assms(1) now mo loop(1) fin
    by (simp add: wait_for_existing_batch_results_def bindP_def totalP_def withlocalsP_def Let_def split_beta)
  moreover have "complete runs ob"
    using finish_complete [OF st] loop(2) fin unfolding ends_def by blast
  ultimately show ?thesis by (auto simp: observed_result_def Let_def)
qed

definition ticking_env :: "fs_world submission_env" where
  "ticking_env = (sample_submission_env (file_run_store (\<lambda>_. []) []))
     \<lparr>sv_monotonic_ms := getE (\<lambda>w. int (w_tick w)), sv_sleep := modifyE (\<lambda>w. w\<lparr>w_tick := w_tick w + 1\<rparr>)\<rparr>"

theorem observation_complete_witness:
  "\<exists>ob w'. wait_for_existing_batch_results ticking_env (sample_batch B_COMPLETED) [sample_run ''r'' COMPLETED]
       (sample_store [sample_run ''r'' COMPLETED]) = Some (Inr ob, w') \<and> map res_run_id (ob_results ob) = [''r'']"
proof -
  let ?runs = "[sample_run ''r'' COMPLETED]" and ?w = "sample_store [sample_run ''r'' COMPLETED]"
  have st: "sv_store ticking_env = file_run_store (\<lambda>_. []) []" by (simp add: ticking_env_def sample_submission_env_def)
  have pc: "poll_clock ticking_env (\<lambda>w. int (w_tick w))" by (simp add: poll_clock_def ticking_env_def)
  have ck: "clock_kept (\<lambda>w :: fs_world. int (w_tick w)) now_ms" by (auto simp: clock_kept_def preserves_def now_ms_def)
  have sl: "answers (sv_sleep ticking_env)" "preserves own_files (sv_sleep ticking_env)"
    by (simp_all add: ticking_env_def answers_def preserves_def own_files_def)
  have own: "own_files ?w" by (simp add: own_files_def keyed_def sample_store_def run_key_of_def)
  from observation_complete [OF _ st pc ck sl own, of ?runs "sample_batch B_COMPLETED"] obtain ob w' where
    "wait_for_existing_batch_results ticking_env (sample_batch B_COMPLETED) ?runs ?w = Some (Inr ob, w')" "complete ?runs ob" by blast
  then show ?thesis by (auto simp: complete_def sample_run_id)
qed

end
