(* ===== verification/Manager.thy ===== *)
theory Manager
  imports Recovery Batch_Observer
begin

section \<open>The task manager\<close>

text \<open>
  \<^verbatim>\<open>manager.py\<close>: the collaborators put together, the public entry points and the cancellation of a turn;
  \<^verbatim>\<open>execution/router.py\<close>: the choice of an executor for a run; and from \<^verbatim>\<open>factory.py\<close> the choice of the
  store and of the loop engine. The record \<open>task_manager\<close> holds what \<^verbatim>\<open>__init__\<close> builds: the submitter, whose store
  and port are those of the manager, the reconciler with the environment of the sandbox coordinator and
  its lease manager, and the directories.
\<close>

record 'w task_manager =
  tm_submitter :: "'w submitter"
  tm_reconciler :: "'w reconciler"
  tm_store_batch_dir :: "(string \<Rightarrow> path) option"
  tm_sidechain_root :: "path option"

abbreviation tm_store :: "'w task_manager \<Rightarrow> 'w run_store" where
  "tm_store tm \<equiv> su_store (tm_submitter tm)"

abbreviation tm_port :: "'w task_manager \<Rightarrow> 'w progress_port" where
  "tm_port tm \<equiv> su_port (tm_submitter tm)"

subsection \<open>Dispatch\<close>

type_synonym 'w executor = "task_run \<Rightarrow> ('w, task_result) io"

record 'w dispatch_router =
  dr_capability :: "'w executor"
  dr_sub_agent :: "'w executor option"

definition reject :: "'z rt_world_scheme run_store \<Rightarrow> task_run \<Rightarrow> string \<Rightarrow> ('z rt_world_scheme, task_result) io" where
  "reject st run message =
     bindE (rs_claim_run st (tr_run_id run) ''dispatch-router'') (\<lambda>token.
     bindE (build_user_input_result run message) (\<lambda>result.
     thenE (rs_write_result st (tr_run_id run) result token) (retE result)))"

definition router_run ::
    "'z rt_world_scheme dispatch_router \<Rightarrow> 'z rt_world_scheme run_store \<Rightarrow> 'z rt_world_scheme executor" where
  "router_run router st run =
     (if task_kind (tr_spec run) = ''sub_agent''
      then case dr_sub_agent router of
             None \<Rightarrow> reject st run ''No sub-agent executor is configured for this task runtime.''
           | Some sub_agent \<Rightarrow> sub_agent run
      else dr_capability router run)"

subsection \<open>Entry points\<close>

definition submit_prepared ::
    "'z rt_world_scheme task_manager \<Rightarrow> turn_context \<Rightarrow> prepared_task_batch \<Rightarrow> (submit_vars \<times> 'z rt_world_scheme, batch_result) pio" where
  "submit_prepared tm ctx prepared = submit (tm_submitter tm) ctx prepared (pb_batch_metadata prepared)"

definition manager_get_task_detail :: "'w task_manager \<Rightarrow> string \<Rightarrow> task_detail_view \<Rightarrow> ('w, task_detail) io" where
  "manager_get_task_detail tm run_id view = rs_get_task_detail (tm_store tm) run_id view"

definition reconcile_stale_runs :: "'z rt_world_scheme task_manager \<Rightarrow> turn_context option \<Rightarrow> ('z rt_world_scheme, unit) io" where
  "reconcile_stale_runs tm ctx = reconcile (tm_reconciler tm) ctx"

definition manager_batch_dir :: "'w task_manager \<Rightarrow> string \<Rightarrow> path result" where
  "manager_batch_dir tm batch_id =
     (case tm_store_batch_dir tm of
        Some batch_dir \<Rightarrow> Inr (batch_dir batch_id)
      | None \<Rightarrow>
          (case tm_sidechain_root tm of
             None \<Rightarrow> Inl (Exn ValueError ''sidechain_root is required for stores without batch_dir'')
           | Some base \<Rightarrow> Inr (path_join base batch_id)))"

subsection \<open>Cancellation of a turn\<close>

text \<open>
  The block that refreshes the batch and its runs and synchronises the projection; its variables
  are \<^verbatim>\<open>refreshed_batch\<close> and \<^verbatim>\<open>refreshed_runs\<close>, which keep what was assigned before an exception.
\<close>

definition sync_cancellation ::
    "'z rt_world_scheme task_manager \<Rightarrow> turn_context \<Rightarrow> string \<Rightarrow> ((batch_record \<times> task_run list) \<times> 'z rt_world_scheme, bool) io" where
  "sync_cancellation tm ctx batch_id =
     bindE (onworld (rs_get_batch (tm_store tm) batch_id)) (\<lambda>batch.
     thenE (assign (\<lambda>(_, runs). (batch, runs)))
    (bindE (onworld (rs_list_batch_runs (tm_store tm) batch_id)) (\<lambda>runs.
     thenE (assign (\<lambda>(b, _). (b, runs)))
    (bindE (onworld (batch_results (tm_store tm) runs)) (\<lambda>results.
       if set (map res_run_id results) \<noteq> set (map tr_run_id runs)
       then raiseE (Exn RuntimeError (''incomplete cancellation results for batch '' @ batch_id))
       else onworld (pp_sync_batch_projection (tm_port tm) ctx batch runs results cancellation_options))))))"

definition mark_cancellation ::
    "'w task_manager \<Rightarrow> turn_context \<Rightarrow> batch_record \<Rightarrow> task_run list \<Rightarrow> string \<Rightarrow> ('w, unit) io" where
  "mark_cancellation tm ctx refreshed_batch refreshed_runs reason =
     thenE (pp_mark_cancelled_runs (tm_port tm) ctx refreshed_runs reason)
       (let terminal_status = (if br_status refreshed_batch \<in> set TERMINAL_BATCH_STATUSES then br_status refreshed_batch else B_CANCELLED);
            call = int_or (br_parent_tool_call_id refreshed_batch) 0 in
        thenE (suppressE (pp_mark_delegate_tasks_terminal (tm_port tm) ctx call terminal_status (br_batch_id refreshed_batch)))
          (suppressE (pp_mark_parent_step_terminal_if_settled (tm_port tm) ctx call terminal_status (br_batch_id refreshed_batch))))"

text \<open>\<^verbatim>\<open>release_many\<close> of \<open>Sandbox_Coordinator\<close>, with the run objects as it leaves them.\<close>

definition release_snapshots ::
    "'z rt_world_scheme run_env \<Rightarrow> 'z rt_world_scheme lease_manager option \<Rightarrow> task_run list \<Rightarrow> ('z rt_world_scheme, task_run list) io" where
  "release_snapshots env manager runs =
     mapE (\<lambda>run.
       if tr_status run \<in> set TERMINAL_STATUSES \<and> tr_status run \<noteq> CANCELLED then retE run
       else if tr_sandbox run = None \<or> tr_sandbox_released run then retE run
       else let run = run\<lparr>tr_lease_outcome := str_or (tr_lease_outcome run) ''dirty''\<rparr> in
            bindE (release_stale env manager run) (\<lambda>released. retE (released_copy released run))) runs"

lemma release_snapshots_eq: "release_many env manager runs = thenE (release_snapshots env manager runs) (retE ())"
proof (induction runs)
  case (Cons run runs)
  show ?case
  proof (rule ext)
    fix w
    show "release_many env manager (run # runs) w = thenE (release_snapshots env manager (run # runs)) (retE ()) w"
      using fun_cong [OF Cons.IH]
      by (simp add: release_many_def release_snapshots_def thenE_def bindE_def Let_def split: prod.splits sum.splits)
  qed
qed (simp add: release_many_def release_snapshots_def thenE_def)

text \<open>What follows the cancellation of a batch in the store: the sandboxes are released and the projection is updated.\<close>

definition settle_cancellation ::
    "'z rt_world_scheme task_manager \<Rightarrow> turn_context \<Rightarrow> string \<Rightarrow> batch_record \<Rightarrow> task_run list \<Rightarrow> ('z rt_world_scheme, unit) io" where
  "settle_cancellation tm ctx reason batch runs_before_cancel =
     (let rv = tm_reconciler tm in
      bindE (safe_list_batch_runs (tm_store tm) (br_batch_id batch)) (\<lambda>runs_after_cancel.
      bindE (release_snapshots (rv_env rv) (rv_manager rv) (merge_run_snapshots [runs_before_cancel, runs_after_cancel]))
        (\<lambda>cancelled_run_snapshots. withlocals (batch, cancelled_run_snapshots)
           (bindE (catch_Exception (sync_cancellation tm ctx (br_batch_id batch)) (\<lambda>_. retE False)) (\<lambda>projection_synced.
            bindE (getE fst) (\<lambda>(refreshed_batch, refreshed_runs).
              if projection_synced then retE () else onworld (mark_cancellation tm ctx refreshed_batch refreshed_runs reason)))))))"

text \<open>One turn of the loop; the value says whether the batch counts as cancelled.\<close>

definition cancel_turn_batch ::
    "'z rt_world_scheme task_manager \<Rightarrow> turn_context \<Rightarrow> string \<Rightarrow> batch_record \<Rightarrow> ('z rt_world_scheme, bool) io" where
  "cancel_turn_batch tm ctx reason batch =
     (let st = tm_store tm in
      bindE (safe_list_batch_runs st (br_batch_id batch)) (\<lambda>runs_before_cancel.
      bindE (catch_Exception (thenE (rs_cancel_batch st (br_batch_id batch) reason) (retE True)) (\<lambda>_. retE False)) (\<lambda>cancelled.
        if \<not> cancelled then retE False
        else thenE (settle_cancellation tm ctx reason batch runs_before_cancel) (retE True))))"

definition cancel_turn :: "'z rt_world_scheme task_manager \<Rightarrow> turn_context \<Rightarrow> string \<Rightarrow> ('z rt_world_scheme, int) io" where
  "cancel_turn tm ctx reason =
     bindE (rs_list_batches_by_turn (tm_store tm) (tc_conversation_id ctx) (tc_turn_id ctx) True) (\<lambda>batches.
       foldE (\<lambda>batch cancelled_count. bindE (cancel_turn_batch tm ctx reason batch) (\<lambda>cancelled.
                retE (if cancelled then cancelled_count + 1 else cancelled_count))) batches 0)"

subsection \<open>Choices of the factory\<close>

text \<open>\<^verbatim>\<open>repr\<close> of the provider string appears in the message of the error, so it is a parameter.\<close>

datatype loop_engine = Native_Loop | Langgraph_Loop | Maf_Loop

definition run_store_is_backend :: "environ \<Rightarrow> bool" where
  "run_store_is_backend env \<longleftrightarrow> py_lower (py_strip (getenv env ''TASK_RUNTIME_RUN_STORE'' ''backend'')) \<in> {''backend'', ''db'', ''mysql''}"

definition sub_agent_loop_engine :: "(string \<Rightarrow> string) \<Rightarrow> environ \<Rightarrow> loop_engine result" where
  "sub_agent_loop_engine repr env =
     (let provider = py_lower (py_strip (getenv env ''TASK_RUNTIME_AGENT_LOOP'' ''native'')) in
      if provider = ''native'' then Inr Native_Loop
      else if provider = ''langgraph'' then Inr Langgraph_Loop
      else if provider = ''maf'' then Inr Maf_Loop
      else Inl (Exn ValueError (''Unsupported TASK_RUNTIME_AGENT_LOOP provider '' @ repr provider @ ''.'')))"

text \<open>The manager that only cancels: built on the given store, or on the one the environment selects.\<close>

definition cancel_turn_task_runtime_once ::
    "('z rt_world_scheme run_store \<Rightarrow> 'z rt_world_scheme task_manager) \<Rightarrow> environ \<Rightarrow> 'z rt_world_scheme run_store \<Rightarrow>
     'z rt_world_scheme run_store \<Rightarrow> 'z rt_world_scheme run_store option \<Rightarrow> turn_context \<Rightarrow> string \<Rightarrow> ('z rt_world_scheme, int) io" where
  "cancel_turn_task_runtime_once build env db_store file_store store ctx reason =
     (let chosen = (case store of Some st \<Rightarrow> st | None \<Rightarrow> if run_store_is_backend env then db_store else file_store)
      in cancel_turn (build chosen) ctx reason)"

subsection \<open>What the cancellation keeps\<close>

text \<open>\<open>manager_services_keep tm W\<close>: the port and the lease managers keep \<open>W\<close>.\<close>

definition manager_services_keep :: "'w task_manager \<Rightarrow> ('w \<Rightarrow> bool) \<Rightarrow> bool" where
  "manager_services_keep tm W \<longleftrightarrow>
     port_keeps (tm_port tm) W \<and> (\<forall>run. manager_keeps (stale_run_sandbox_manager (rv_env (tm_reconciler tm)) (rv_manager (tm_reconciler tm)) run) W)"

text \<open>
  \<open>files K D\<close>: the run files have the names \<open>K\<close>, each under the identifier of its run, and those in \<open>D\<close> are idle.
\<close>

definition files :: "run_key list \<Rightarrow> run_key set \<Rightarrow> 'z fs_world_scheme \<Rightarrow> bool" where
  "files K D w \<longleftrightarrow> named w \<and> dict_keys (fs_runs w) = K \<and> (\<forall>k \<in> D. idle k w)"

lemma files_same: "fs_runs v = fs_runs w \<Longrightarrow> files K D v = files K D w"
  by (simp add: files_def named_def idle_def)

lemma files_reads:
  "preserves (files K D) (get_batch b)" "preserves (files K D) (list_batch_runs b)" "preserves (files K D) (read_run_by_id rid)"
  "preserves (files K D) (read_result sha rt run)" "preserves (files K D) now_ms" "preserves (files K D) (list_batches_by_turn c t a)"
  by (auto simp: preserves_def get_batch_def list_batch_runs_def read_run_by_id_def read_result_def now_ms_def list_batches_by_turn_def
      files_same [of "w\<lparr>w_tick := x\<rparr>" w for w x] split: option.splits sum.splits)

lemma files_details: "preserves (files K D) (get_run rid)" "preserves (files K D) (get_task_detail sha rt rid v)"
  unfolding get_run_def get_task_detail_def by (intro preserves_intros files_reads)+

lemma files_touch:
  assumes "\<And>r. tr_run_id (f r) = tr_run_id r" and "\<And>r. tr_status (f r) = tr_status r"
  shows "preserves (files K D) (bindE (get_run rid) (\<lambda>c. update_run (f c)))"
proof (rule preservesI)
  fix w :: "'a fs_world_scheme" assume w: "files K D w"
  then have nm: "named w" by (simp add: files_def)
  show "on_snd (files K D) (bindE (get_run rid) (\<lambda>c. update_run (f c)) w)"
  proof (cases "find_run rid w")
    case (Some p)
    obtain k r where p: "p = (k, r)" by (cases p)
    have f: "find_run rid w = Some (k, r)" using Some p by simp
    note kr = named_find [OF nm f]
    have run: "bindE (get_run rid) (\<lambda>c. update_run (f c)) w = put_run k (f r) w"
      using f kr(3,4) assms by (simp add: get_run_def bindE_read_run update_run_def bindE_def read_run_by_id_def)
    have id: "tr_run_id (f r) = snd k" using assms(1) kr(4) by simp
    have idle: "idle k' (w\<lparr>fs_runs := dict_set k (persisted_run (f r)) (fs_runs w)\<rparr>)" if "idle k' w" for k'
      using that kr(1) assms(2) [of r] by (auto simp: idle_def dict_get_set)
    have "files K D (w\<lparr>fs_runs := dict_set k (persisted_run (f r)) (fs_runs w)\<rparr>)"
      using w named_put(1) [OF nm kr(2) id, of w] named_put(2) [OF nm kr(2) id] idle unfolding files_def by simp
    then show ?thesis unfolding run by (simp add: put_run_def)
  qed (use w in \<open>simp add: get_run_def bindE_read_run\<close>)
qed

lemma files_release:
  assumes "en_store env = file_run_store sha rt" and "\<And>run. manager_keeps (stale_run_sandbox_manager env mgr run) (files K D)"
  shows "preserves (files K D) (release_snapshots env mgr runs)"
proof -
  have touch: "preserves (files K D) (suppressE (bindE (get_run rid) (\<lambda>current.
      update_run (current\<lparr>tr_sandbox_released := b, tr_lease_outcome := out\<rparr>))))" for rid b out
    by (intro preserves_suppressE files_touch) simp_all
  have "preserves (files K D) (release_stale env mgr run)" for run
    unfolding release_stale_def assms(1) file_run_store_ops Let_def
    by (rule touch preserves_intros manager_keepsD(4) [OF assms(2)])+
  then show ?thesis unfolding release_snapshots_def Let_def by (intro preserves_intros)
qed

lemma batches_release:
  assumes "en_store env = file_run_store sha rt" and "\<And>run. manager_keeps (stale_run_sandbox_manager env mgr run) (on_batches Q)"
  shows "preserves (on_batches Q) (release_snapshots env mgr runs)"
  unfolding release_snapshots_def release_stale_def assms(1) file_run_store_ops Let_def
  by (intro preserves_intros batches_run_ops manager_keepsD(4) [OF assms(2)])

text \<open>A property that the reads, the release and the services keep is kept by all that follows the cancellation.\<close>

lemma settle_cancellation_keeps:
  assumes st: "tm_store tm = file_run_store sha rt" and sv: "manager_services_keep tm W"
    and rd: "\<And>b. preserves W (get_batch b)" "\<And>b. preserves W (list_batch_runs b)" "\<And>rid v. preserves W (get_task_detail sha rt rid v)"
      "preserves W now_ms"
    and rel: "\<And>runs. preserves W (release_snapshots (rv_env (tm_reconciler tm)) (rv_manager (tm_reconciler tm)) runs)"
  shows "preserves W (settle_cancellation tm ctx reason batch before)"
proof -
  have port: "port_keeps (tm_port tm) W" using sv by (simp add: manager_services_keep_def)
  have res: "preserves W (batch_results (file_run_store sha rt) runs)" for runs
    unfolding batch_results_def batch_result_of_def terminal_result_from_run_def file_run_store_ops Let_def by (intro preserves_intros rd)
  have sync: "preserves (on_snd W) (sync_cancellation tm ctx bid)" for bid
    unfolding sync_cancellation_def st file_run_store_ops by (intro preserves_intros rd res port_keepsD [OF port])
  have mark: "preserves W (mark_cancellation tm ctx b runs reason)" for b runs
    unfolding mark_cancellation_def Let_def by (intro preserves_intros port_keepsD [OF port])
  show ?thesis
    unfolding settle_cancellation_def safe_list_batch_runs_def st file_run_store_ops Let_def by (intro preserves_intros rd rel sync mark)
qed

subsection \<open>The cancellation comes back\<close>

lemma answers_more:
  "answers (getE f)" "answers m \<Longrightarrow> answers (onworld m)" "answers n \<Longrightarrow> answers (withlocals l n)" "mild u \<Longrightarrow> answers (suppressE u)"
  "answers m \<Longrightarrow> answers k \<Longrightarrow> answers (thenE m k)"
proof -
  show "answers (getE f)" by (simp add: answers_def)
  show "answers m \<Longrightarrow> answers (onworld m)" unfolding answers_def onworld_apply by (metis fst_conv prod.collapse onworld_eq)
  show "answers n \<Longrightarrow> answers (withlocals l n)"
    unfolding answers_def withlocals_def by (metis (no_types, lifting) case_prod_conv prod.collapse)
  show "mild u \<Longrightarrow> answers (suppressE u)" unfolding answers_def by (blast intro: suppress_answers)
  show "answers m \<Longrightarrow> answers k \<Longrightarrow> answers (thenE m k)" unfolding thenE_def by (rule answers_bindE)
qed

lemma mild_mapE: "(\<And>x. mild (f x)) \<Longrightarrow> mild (mapE f xs)"
  by (induction xs) (simp_all only: mapE.simps mild_pure mild_bindE)

lemma mild_batch_results: "mild (batch_results (file_run_store sha rt) runs)"
proof -
  have "mild (terminal_result_from_run run None)" for run
    unfolding mild_def using terminal_result_from_run_total [of run None] by (metis prod.inject sum.distinct(1))
  then have "mild (batch_result_of (file_run_store sha rt) run)" for run
    unfolding batch_result_of_def file_run_store_ops by (auto intro!: mild_rules mild_details split: option.splits)
  then show ?thesis unfolding batch_results_def by (intro mild_rules mild_mapE)
qed

text \<open>
  \<open>services_behave tm\<close>: a call of the port or of a lease manager may fail, but only in ways that an
  \<^verbatim>\<open>except Exception\<close> catches, and \<^verbatim>\<open>mark_cancelled_runs\<close>, which the loop does not guard, does not fail.
\<close>

definition services_behave :: "'w task_manager \<Rightarrow> bool" where
  "services_behave tm \<longleftrightarrow>
     (\<forall>ctx b runs res opts. mild (pp_sync_batch_projection (tm_port tm) ctx b runs res opts))
     \<and> (\<forall>ctx call bs bid. mild (pp_mark_delegate_tasks_terminal (tm_port tm) ctx call bs bid))
     \<and> (\<forall>ctx call bs bid. mild (pp_mark_parent_step_terminal_if_settled (tm_port tm) ctx call bs bid))
     \<and> (\<forall>ctx runs reason. answers (pp_mark_cancelled_runs (tm_port tm) ctx runs reason))
     \<and> (\<forall>run l out. mild (lm_release (stale_run_sandbox_manager (rv_env (tm_reconciler tm)) (rv_manager (tm_reconciler tm)) run) l out))"

lemma settle_cancellation_answers:
  assumes st: "tm_store tm = file_run_store sha rt" "en_store (rv_env (tm_reconciler tm)) = file_run_store sha rt" and sv: "services_behave tm"
  shows "answers (settle_cancellation tm ctx reason batch before)"
proof -
  have rel: "answers (release_stale (rv_env (tm_reconciler tm)) (rv_manager (tm_reconciler tm)) run)" for run
    unfolding answers_def by (intro allI release_answers [OF st(2)]) (use sv in \<open>simp add: services_behave_def\<close>)
  have "mild (sync_cancellation tm ctx bid)" for bid
    unfolding sync_cancellation_def st file_run_store_ops
    using sv by (auto simp: services_behave_def is_Exception_def intro!: mild_rules mild_locals mild_details mild_cancel_run mild_batch_results mild_pure)
  moreover have "answers (mark_cancellation tm ctx b runs reason)" for b runs
    unfolding mark_cancellation_def Let_def using sv by (intro answers_more) (simp_all add: services_behave_def)
  ultimately show ?thesis
    unfolding settle_cancellation_def safe_list_batch_runs_def release_snapshots_def st file_run_store_ops Let_def
    by (auto intro!: answers_rules answers_more rel mild_cancel_run split: prod.splits)
qed

subsection \<open>A cancelled turn is settled\<close>

lemma mset_map_cong: "mset xs = mset ys \<Longrightarrow> mset (map f xs) = mset (map f ys)"
  by simp

lemma cancel_batch_idle: "preserves (idle k) (cancel_batch bid reason)"
proof -
  have "preserves (idle k) (get_batch b)" "preserves (idle k) (list_batch_runs b)" "preserves (idle k) (transition_batch s x)"
    "preserves (idle k) (update_batch x)" for b s x
    by (auto simp: preserves_def idle_def get_batch_def list_batch_runs_def transition_batch_eq update_batch_def bindE_def now_ms_def Let_def
        split: option.splits)
  moreover have "preserves (idle k) (cancel_run rid reason)" for rid by (rule preservesI) (rule cancel_run_idle)
  ultimately show ?thesis unfolding cancel_batch_def by (intro preserves_intros)
qed

lemma cancel_turn_batch_effect:
  assumes st: "tm_store tm = file_run_store sha rt" "en_store (rv_env (tm_reconciler tm)) = file_run_store sha rt"
    and sv: "services_behave tm" and keep: "\<And>D. manager_services_keep tm (files K D)" "\<And>Q. manager_services_keep tm (on_batches Q)"
    and w: "files K D w" and b: "dict_get (fs_batches w) (br_batch_id batch) = Some batch" "br_status batch \<in> {B_QUEUED, B_RUNNING}"
  shows "\<exists>w'. cancel_turn_batch tm ctx reason batch w = (Inr True, w') \<and> files K (D \<union> {k \<in> set K. fst k = br_batch_id batch}) w'
    \<and> batch_at {s. is_terminal_batch_status s} (br_batch_id batch) w'
    \<and> (\<forall>bid. bid \<noteq> br_batch_id batch \<longrightarrow> dict_get (fs_batches w') bid = dict_get (fs_batches w) bid)"
proof -
  let ?bid = "br_batch_id batch" and ?D = "D \<union> {k \<in> set K. fst k = br_batch_id batch}"
  have nm: "named w" and K: "dict_keys (fs_runs w) = K" and idle: "\<forall>k \<in> D. idle k w" using w by (simp_all add: files_def)
  have at: "batch_at UNIV ?bid w" using b(1) by (simp add: batch_at_def)
  obtain before where before: "safe_list_batch_runs (file_run_store sha rt) ?bid w = (Inr before, w)"
    by (simp add: safe_list_batch_runs_def list_batch_runs_def catch_Exception_def)
  obtain w1 where w1: "cancel_batch ?bid reason w = (Inr (), w1)" "named w1" "batch_at {s. is_terminal_batch_status s} ?bid w1"
      "dict_keys (fs_runs w1) = K" "\<forall>k \<in> set K. fst k = ?bid \<longrightarrow> idle k w1"
    using cancel_batch_settles [OF nm at, of reason] b K by blast
  have "idle k w1" if "k \<in> D" for k
    by (rule preservesD [OF cancel_batch_idle _ w1(1)]) (use idle that in blast)
  with w1(2,4,5) have f1: "files K ?D w1" unfolding files_def by blast
  obtain w2 where w2: "settle_cancellation tm ctx reason batch before w1 = (Inr (), w2)"
    using settle_cancellation_answers [OF st sv] unfolding answers_def by (metis (full_types) old.unit.exhaust)
  have mk: "manager_keeps (stale_run_sandbox_manager (rv_env (tm_reconciler tm)) (rv_manager (tm_reconciler tm)) run) W"
    if "manager_services_keep tm W" for W run using that by (simp add: manager_services_keep_def)
  have "preserves (files K ?D) (settle_cancellation tm ctx reason batch before)"
    by (intro settle_cancellation_keeps [OF st(1) keep(1)] files_reads files_details files_release [OF st(2) mk [OF keep(1)]])
  from preservesD [OF this f1 w2] have f2: "files K ?D w2" .
  have "preserves (on_batches ((=) (fs_batches w1))) (settle_cancellation tm ctx reason batch before)"
    by (intro settle_cancellation_keeps [OF st(1) keep(2)] batches_read_ops batches_run_ops batches_world_ops
        batches_release [OF st(2) mk [OF keep(2)]])
  from preservesD [OF this _ w2] have b2: "fs_batches w2 = fs_batches w1" by simp
  have "cancel_turn_batch tm ctx reason batch w = (Inr True, w2)"
    using before w1(1) w2 by (simp add: cancel_turn_batch_def st Let_def catch_Exception_def)
  with f2 w1(3) b2 cancel_batch_others [OF at _ w1(1)] show ?thesis by (auto simp: batch_at_def)
qed

lemma cancel_batches_effect:
  assumes st: "tm_store tm = file_run_store sha rt" "en_store (rv_env (tm_reconciler tm)) = file_run_store sha rt"
    and sv: "services_behave tm" and keep: "\<And>D. manager_services_keep tm (files K D)" "\<And>Q. manager_services_keep tm (on_batches Q)"
  shows "files K D w \<Longrightarrow> distinct (map br_batch_id bs) \<Longrightarrow>
    (\<And>b. b \<in> set bs \<Longrightarrow> dict_get (fs_batches w) (br_batch_id b) = Some b \<and> br_status b \<in> {B_QUEUED, B_RUNNING}) \<Longrightarrow>
    \<exists>w'. foldE (\<lambda>batch n. bindE (cancel_turn_batch tm ctx reason batch) (\<lambda>c. retE (if c then n + 1 else n))) bs (n :: int) w
        = (Inr (n + int (length bs)), w')
      \<and> files K (D \<union> {k \<in> set K. fst k \<in> br_batch_id ` set bs}) w'
      \<and> (\<forall>b \<in> set bs. batch_at {s. is_terminal_batch_status s} (br_batch_id b) w')
      \<and> (\<forall>bid. bid \<notin> br_batch_id ` set bs \<longrightarrow> dict_get (fs_batches w') bid = dict_get (fs_batches w) bid)"
proof (induction bs arbitrary: n w D)
  case (Cons b bs)
  let ?D = "D \<union> {k \<in> set K. fst k = br_batch_id b}"
  obtain w1 where w1: "cancel_turn_batch tm ctx reason b w = (Inr True, w1)" "files K ?D w1"
      "batch_at {s. is_terminal_batch_status s} (br_batch_id b) w1"
      "\<forall>bid. bid \<noteq> br_batch_id b \<longrightarrow> dict_get (fs_batches w1) bid = dict_get (fs_batches w) bid"
    using cancel_turn_batch_effect [OF st sv keep Cons.prems(1), of b ctx reason] Cons.prems(3) [of b] by auto
  have rest: "dict_get (fs_batches w1) (br_batch_id c) = Some c \<and> br_status c \<in> {B_QUEUED, B_RUNNING}" if c: "c \<in> set bs" for c
  proof -
    have "br_batch_id c \<noteq> br_batch_id b" using Cons.prems(2) c by (auto simp: image_iff)
    with Cons.prems(3) [of c] c w1(4) show ?thesis by simp
  qed
  have "distinct (map br_batch_id bs)" using Cons.prems(2) by simp
  from Cons.IH [OF w1(2) this rest, of "n + 1"] obtain w2 where
    w2: "foldE (\<lambda>batch n. bindE (cancel_turn_batch tm ctx reason batch) (\<lambda>c. retE (if c then n + 1 else n))) bs (n + 1) w1
        = (Inr (n + 1 + int (length bs)), w2)"
      "files K (?D \<union> {k \<in> set K. fst k \<in> br_batch_id ` set bs}) w2"
      "\<forall>c \<in> set bs. batch_at {s. is_terminal_batch_status s} (br_batch_id c) w2"
      "\<forall>bid. bid \<notin> br_batch_id ` set bs \<longrightarrow> dict_get (fs_batches w2) bid = dict_get (fs_batches w1) bid" by blast
  have eq: "?D \<union> {k \<in> set K. fst k \<in> br_batch_id ` set bs} = D \<union> {k \<in> set K. fst k \<in> br_batch_id ` set (b # bs)}" by auto
  have "batch_at {s. is_terminal_batch_status s} (br_batch_id b) w2"
    using w1(3) w2(4) Cons.prems(2) by (simp add: batch_at_def)
  with w2(3) have settled: "\<forall>c \<in> set (b # bs). batch_at {s. is_terminal_batch_status s} (br_batch_id c) w2" by simp
  have folded: "foldE (\<lambda>batch n. bindE (cancel_turn_batch tm ctx reason batch) (\<lambda>c. retE (if c then n + 1 else n))) (b # bs) n w
      = (Inr (n + int (length (b # bs))), w2)" using w1(1) w2(1) by simp
  have others: "\<forall>bid. bid \<notin> br_batch_id ` set (b # bs) \<longrightarrow> dict_get (fs_batches w2) bid = dict_get (fs_batches w) bid"
    using w1(4) w2(4) by simp
  show ?case by (intro exI [of _ w2] conjI folded settled others w2(2) [unfolded eq])
qed simp

text \<open>The stored batches of a turn that are queued or running.\<close>

definition active_batches :: "turn_context \<Rightarrow> 'z fs_world_scheme \<Rightarrow> batch_record set" where
  "active_batches ctx w = {b. dict_get (fs_batches w) (br_batch_id b) = Some b \<and> br_parent_conversation_id b = tc_conversation_id ctx
    \<and> br_parent_turn_id b = tc_turn_id ctx \<and> br_status b \<in> {B_QUEUED, B_RUNNING}}"

text \<open>
  C14. A cancelled turn is settled. When the port and the lease managers fail only in ways the code guards against, the
  cancellation of a turn comes back with the number of batches of the turn that were active, each of them has settled,
  and none of their runs is queued or running any more; no batch of another turn is touched.
\<close>

theorem cancel_turn_settles:
  assumes "tm_store tm = file_run_store sha rt" and "en_store (rv_env (tm_reconciler tm)) = file_run_store sha rt"
    and "services_behave tm" and "\<And>D. manager_services_keep tm (files (dict_keys (fs_runs w)) D)"
    and "\<And>Q. manager_services_keep tm (on_batches Q)" and "named w" and "dict_ok (fs_batches w)"
    and "\<And>bid b. dict_get (fs_batches w) bid = Some b \<Longrightarrow> br_batch_id b = bid"
  shows "\<exists>w'. cancel_turn tm ctx reason w = (Inr (int (card (active_batches ctx w))), w')
    \<and> (\<forall>b \<in> active_batches ctx w. batch_at {s. is_terminal_batch_status s} (br_batch_id b) w'
         \<and> (\<forall>k \<in> set (dict_keys (fs_runs w)). fst k = br_batch_id b \<longrightarrow> idle k w'))
    \<and> (\<forall>bid. bid \<notin> br_batch_id ` active_batches ctx w \<longrightarrow> dict_get (fs_batches w') bid = dict_get (fs_batches w) bid)"
proof -
  let ?K = "dict_keys (fs_runs w)"
  obtain bs where bs: "list_batches_by_turn (tc_conversation_id ctx) (tc_turn_id ctx) True w = (Inr bs, w)"
    and perm: "mset bs = mset (filter (\<lambda>b. br_parent_conversation_id b = tc_conversation_id ctx \<and> br_parent_turn_id b = tc_turn_id ctx
       \<and> br_status b \<in> {B_QUEUED, B_RUNNING}) (dict_values (fs_batches w)))"
    by (simp add: list_batches_by_turn_def)
  have vals: "b \<in> set (dict_values (fs_batches w)) \<longleftrightarrow> dict_get (fs_batches w) (br_batch_id b) = Some b" for b
  proof -
    have "b \<in> set (dict_values (fs_batches w)) \<longleftrightarrow> (\<exists>bid. dict_get (fs_batches w) bid = Some b)"
      unfolding dict_ok_get_iff [OF assms(7)] by force
    also have "\<dots> \<longleftrightarrow> dict_get (fs_batches w) (br_batch_id b) = Some b" using assms(8) by metis
    finally show ?thesis .
  qed
  have set_bs: "set bs = active_batches ctx w" using mset_eq_setD [OF perm] vals unfolding active_batches_def by auto
  have keys: "map br_batch_id (dict_values (fs_batches w)) = dict_keys (fs_batches w)"
    using assms(8) dict_ok_get_iff [OF assms(7)] by (auto intro!: map_cong simp: comp_def)
  have "distinct (map br_batch_id (dict_values (fs_batches w)))" using assms(7) unfolding keys dict_ok_def .
  then have "distinct (map br_batch_id (filter Q (dict_values (fs_batches w))))" for Q by (rule distinct_map_filter)
  with mset_eq_imp_distinct_iff [OF mset_map_cong [OF perm]] have d: "distinct (map br_batch_id bs)" by blast
  have n: "length bs = card (active_batches ctx w)" using distinct_card [of bs] d set_bs by (simp add: distinct_map)
  have f: "files ?K {} w" using assms(6) by (simp add: files_def)
  have act: "dict_get (fs_batches w) (br_batch_id b) = Some b \<and> br_status b \<in> {B_QUEUED, B_RUNNING}" if "b \<in> set bs" for b
    using that unfolding set_bs active_batches_def by simp
  obtain w' where w': "foldE (\<lambda>batch n. bindE (cancel_turn_batch tm ctx reason batch) (\<lambda>c. retE (if c then n + 1 else n))) bs 0 w
        = (Inr (0 + int (length bs)), w')" "files ?K ({} \<union> {k \<in> set ?K. fst k \<in> br_batch_id ` set bs}) w'"
      "\<forall>b \<in> set bs. batch_at {s. is_terminal_batch_status s} (br_batch_id b) w'"
      "\<forall>bid. bid \<notin> br_batch_id ` set bs \<longrightarrow> dict_get (fs_batches w') bid = dict_get (fs_batches w) bid"
    using cancel_batches_effect [OF assms(1-3) assms(4,5) f d act, of ctx reason 0] by blast
  have "cancel_turn tm ctx reason w = (Inr (int (card (active_batches ctx w))), w')"
    using bs w'(1) n by (simp add: cancel_turn_def assms(1))
  moreover have "idle k w'" if "k \<in> set ?K" "fst k \<in> br_batch_id ` set bs" for k using w'(2) that unfolding files_def by blast
  ultimately show ?thesis using w'(3,4) unfolding set_bs by blast
qed

definition sample_manager :: "lease_world task_manager" where
  "sample_manager =
     \<lparr>tm_submitter = sample_submitter (file_run_store (\<lambda>_. []) []),
      tm_reconciler = sample_reconciler (file_run_store (\<lambda>_. []) []) memory_lease_manager,
      tm_store_batch_dir = None, tm_sidechain_root = None\<rparr>"

lemma sample_manager_keeps:
  assumes "\<And>w m. P (w\<lparr>lw_leases := m\<rparr>) = P w" and "\<And>w t. P (w\<lparr>w_tick := t\<rparr>) = P w"
    and "\<And>w n. P (w\<lparr>w_uuid_next := n\<rparr>) = P w"
  shows "manager_services_keep sample_manager P"
  using memory_manager_keeps [OF assms] quiet_port_keeps [of P]
  by (simp add: manager_services_keep_def sample_manager_def sample_submitter_def sample_submission_env_def sample_reconciler_def
      sample_env_def stale_run_sandbox_manager_def)

lemma sample_manager_behaves: "services_behave sample_manager"
  by (simp add: services_behave_def sample_manager_def sample_submitter_def sample_submission_env_def sample_reconciler_def
      sample_env_def stale_run_sandbox_manager_def quiet_port_def mild_pure memory_release_mild answers_def)

theorem cancel_turn_settles_witness:
  "\<exists>w'. cancel_turn sample_manager (sample_ctx\<lparr>tc_conversation_id := br_parent_conversation_id (sample_batch B_RUNNING),
       tc_turn_id := br_parent_turn_id (sample_batch B_RUNNING)\<rparr>) ''stop'' (sample_lease_world [sample_run ''r'' RUNNING] []) = (Inr 1, w')
     \<and> batch_at {s. is_terminal_batch_status s} ''b'' w' \<and> idle (''b'', ''r'') w'"
proof -
  let ?w = "sample_lease_world [sample_run ''r'' RUNNING] []" and ?b = "sample_batch B_RUNNING"
  let ?ctx = "sample_ctx\<lparr>tc_conversation_id := br_parent_conversation_id ?b, tc_turn_id := br_parent_turn_id ?b\<rparr>"
  have fb: "fs_batches ?w = [(''b'', ?b)]" by (simp add: sample_lease_world_def fs_world.defs lease_world.defs sample_store_def)
  have act: "active_batches ?ctx ?w = {?b}" unfolding active_batches_def fb by (auto simp: sample_batch_def split: if_splits)
  have st: "tm_store sample_manager = file_run_store (\<lambda>_. []) []" "en_store (rv_env (tm_reconciler sample_manager)) = file_run_store (\<lambda>_. []) []"
    by (simp_all add: sample_manager_def sample_submitter_def sample_submission_env_def sample_reconciler_def sample_env_def)
  have keep: "manager_services_keep sample_manager (files K D)" "manager_services_keep sample_manager (on_batches Q)" for K D Q
    by (rule sample_manager_keeps; simp add: files_def named_def idle_def)+
  have w: "named ?w" "dict_ok (fs_batches ?w)" "(''b'', ''r'') \<in> set (dict_keys (fs_runs ?w))"
    unfolding fb by (simp_all add: named_def sample_store_def dict_ok_def run_key_of_def sample_run_def)
  have ids: "br_batch_id b = bid" if "dict_get (fs_batches ?w) bid = Some b" for bid b
    using that unfolding fb by (auto simp: sample_batch_def split: if_splits)
  from cancel_turn_settles [OF st sample_manager_behaves keep w(1,2) ids, of ?ctx "''stop''"] w(3)
  show ?thesis unfolding act by (auto simp: sample_batch_def)
qed

end
