(* ===== verification/Capability_Contract.thy ===== *)
theory Capability_Contract
  imports Run_Store
begin

section \<open>Capability descriptors, bindings and their resolution\<close>

text \<open>
  \<^verbatim>\<open>capabilities/descriptors.py\<close> and \<^verbatim>\<open>capabilities/resolver.py\<close>: what a capability is, the subset request of
  a catalogue with its search, the split of sensitive arguments, and the resolver over all providers. A provider
  is code of an extension, so its two operations are fields of a record, and what it returns is of type
  \<open>'a offered\<close>: an object of the expected class or some other object.
\<close>

definition EFFECT_VALUES :: "string list" where
  "EFFECT_VALUES = [''read'', ''mutate'']"

definition WORKSPACE_ACCESS_VALUES :: "string list" where
  "WORKSPACE_ACCESS_VALUES = [''none'', ''read_only'', ''read_write'']"

definition VISIBILITY_VALUES :: "string list" where
  "VISIBILITY_VALUES = [''public'', ''internal'']"

definition SENSITIVE_SCHEMA_KEY :: string where
  "SENSITIVE_SCHEMA_KEY = ''sensitive''"

definition REDACTED_PLACEHOLDER :: string where
  "REDACTED_PLACEHOLDER = ''<redacted>''"

subsection \<open>Descriptors\<close>

record capability_descriptor =
  cd_capability_id :: string
  cd_parameter_schema :: json
  cd_required_sandbox :: "string list"
  cd_workspace_access :: string
  cd_effect :: string
  cd_description :: string
  cd_when_to_use :: string
  cd_visibility :: string

text \<open>\<^verbatim>\<open>__post_init__\<close>: the descriptor with its canonical identifier, or the reason why it is refused.\<close>

definition validate_descriptor :: "capability_descriptor \<Rightarrow> capability_descriptor result" where
  "validate_descriptor d =
     (if capability_id_separator \<notin> set (cd_capability_id d)
      then Inl (Exn ValueError ''capability_id must be namespaced'')
      else rbind (normalize_capability_id (cd_capability_id d)) (\<lambda>canonical_id.
        let d = d\<lparr>cd_capability_id := canonical_id\<rparr> in
        case split_capability_id canonical_id of (provider, local_name) \<Rightarrow>
          if provider = [] \<or> local_name = []
          then Inl (Exn ValueError ''capability_id must be namespaced as '<provider>:<name>' '')
          else if \<not> (case cd_parameter_schema d of JObj _ \<Rightarrow> True | _ \<Rightarrow> False)
          then Inl (Exn ValueError (canonical_id @ '': parameter_schema must be a mapping''))
          else if cd_workspace_access d \<notin> set WORKSPACE_ACCESS_VALUES
          then Inl (Exn ValueError (canonical_id @ '': unknown workspace_access''))
          else if cd_effect d \<notin> set EFFECT_VALUES
          then Inl (Exn ValueError (canonical_id @ '': unknown effect''))
          else if cd_visibility d \<notin> set VISIBILITY_VALUES
          then Inl (Exn ValueError (canonical_id @ '': unknown visibility''))
          else if \<not> set (cd_required_sandbox d) \<subseteq> set SANDBOX_SELECTORS
          then Inl (Exn ValueError (canonical_id @ '': unknown required_sandbox''))
          else Inr d))"

definition cd_provider_id :: "capability_descriptor \<Rightarrow> string" where
  "cd_provider_id d = provider_of (cd_capability_id d)"

definition workspace_is_writable :: "capability_descriptor \<Rightarrow> bool" where
  "workspace_is_writable d \<longleftrightarrow> cd_workspace_access d = ''read_write''"

record resolve_context =
  rx_username :: string
  rx_agent_instance_id :: int
  rx_project_id :: int
  rx_run_id :: string
  rx_sandbox :: "sandbox_lease_ref option"

definition resolve_context_from_run :: "task_run \<Rightarrow> resolve_context" where
  "resolve_context_from_run run =
     \<lparr>rx_username = tr_username run, rx_agent_instance_id = tr_agent_instance_id run, rx_project_id = tr_project_id run,
      rx_run_id = tr_run_id run, rx_sandbox = tr_sandbox run\<rparr>"

subsection \<open>Search\<close>

text \<open>
  \<^verbatim>\<open>str.casefold\<close> differs from \<^verbatim>\<open>lower\<close> on two code points below 256: the sharp s becomes two letters, and the
  micro sign becomes a letter above that range, which no pattern of the sources matches and which stays as it is here.
\<close>

definition py_casefold :: "string \<Rightarrow> string" where
  "py_casefold s = concat (map (\<lambda>c. if (of_char c :: nat) = 223 then ''ss'' else [py_lower_char c]) s)"

definition search_char :: "char \<Rightarrow> bool" where
  "search_char c \<longleftrightarrow> (let n = (of_char c :: nat) in (97 \<le> n \<and> n \<le> 122) \<or> (48 \<le> n \<and> n \<le> 57))"

text \<open>\<^verbatim>\<open>re.findall\<close> for a pattern \<^verbatim>\<open>[...]+\<close>: the maximal runs of the characters of the class.\<close>

fun find_runs :: "(char \<Rightarrow> bool) \<Rightarrow> string \<Rightarrow> string \<Rightarrow> string list" where
  "find_runs p acc [] = (if acc = [] then [] else [rev acc])"
| "find_runs p acc (c # cs) =
     (if p c then find_runs p (c # acc) cs
      else if acc = [] then find_runs p [] cs else rev acc # find_runs p [] cs)"

definition search_terms :: "string \<Rightarrow> string list" where
  "search_terms v = dict_fromkeys (find_runs search_char [] (py_casefold v))"

definition matches_search_term :: "string \<Rightarrow> string list \<Rightarrow> bool" where
  "matches_search_term query_term candidate_terms \<longleftrightarrow>
     query_term \<in> set candidate_terms
     \<or> (3 \<le> length query_term
        \<and> list_ex (\<lambda>candidate. 3 \<le> length candidate \<and> (prefix query_term candidate \<or> prefix candidate query_term)) candidate_terms)"

record catalogue_query =
  cq_caller :: resolve_context
  cq_providers :: "string list"
  cq_selectors :: "string list"
  cq_search :: string
  cq_limit :: "int option"
  cq_include_internal :: bool

definition search_weight :: "capability_descriptor \<Rightarrow> string \<Rightarrow> int" where
  "search_weight d query_term =
     (let hit = (\<lambda>weight v. if matches_search_term query_term (search_terms v) then weight else 0) in
      max (hit 8 (cd_capability_id d)) (max (hit 4 (cd_when_to_use d))
        (max (hit 2 (cd_description d)) (hit 1 (join_with (CHR '' '') (cd_required_sandbox d))))))"

definition search_score :: "catalogue_query \<Rightarrow> capability_descriptor \<Rightarrow> int" where
  "search_score q d =
     (let weights = map (search_weight d) (search_terms (cq_search q));
          matched = int (length (filter (\<lambda>x. x \<noteq> 0) weights))
      in sum_list weights + matched * matched)"

text \<open>\<^verbatim>\<open>any(parse_capability_selector(s).matches(id) for s in selectors)\<close>: each selector is parsed when its turn comes.\<close>

fun any_selector_allows :: "string list \<Rightarrow> string \<Rightarrow> bool result" where
  "any_selector_allows [] capability = Inr False"
| "any_selector_allows (s # ss) capability =
     rbind (parse_capability_selector s) (\<lambda>p.
     rbind (selector_matches p capability) (\<lambda>b. if b then Inr True else any_selector_allows ss capability))"

definition query_matches :: "catalogue_query \<Rightarrow> capability_descriptor \<Rightarrow> bool result" where
  "query_matches q d =
     (let providers = map normalize_provider_id (cq_providers q) in
      if providers \<noteq> [] \<and> cd_provider_id d \<notin> set providers then Inr False
      else rbind (if cq_selectors q = [] then Inr True else any_selector_allows (cq_selectors q) (cd_capability_id d)) (\<lambda>selected.
        if \<not> selected then Inr False
        else if cd_visibility d = ''internal'' \<and> \<not> cq_include_internal q then Inr False
        else if cq_search q \<noteq> [] \<and> search_score q d = 0 then Inr False
        else Inr True))"

subsection \<open>Bindings and providers\<close>

record capability_context =
  cc_run :: task_run
  cc_descriptor :: capability_descriptor
  cc_arguments :: jobj
  cc_workspace :: path
  cc_run_dir :: path
  cc_result_dir :: path
  cc_started_at :: int
  cc_input_paths :: "path list"

record 'w capability_binding =
  bd_descriptor :: capability_descriptor
  bd_handler :: "capability_context \<Rightarrow> ('w, task_result) io"

datatype 'a offered = Offered 'a | Foreign_Object

record 'w capability_provider =
  pv_provider_id :: string
  pv_resolve :: "string \<Rightarrow> resolve_context \<Rightarrow> ('w, 'w capability_binding offered option) io"
  pv_list_descriptors :: "catalogue_query \<Rightarrow> ('w, capability_descriptor offered list) io"

subsection \<open>Sensitive arguments\<close>

definition sensitive_parameter_names :: "json \<Rightarrow> string list" where
  "sensitive_parameter_names parameter_schema =
     (case parameter_schema of
        JObj schema \<Rightarrow>
          (case dict_get schema ''properties'' of
             Some (JObj properties) \<Rightarrow>
               map fst (filter (\<lambda>(_, node). case node of JObj n \<Rightarrow> dict_get n SENSITIVE_SCHEMA_KEY = Some (JBool True) | _ \<Rightarrow> False) properties)
           | _ \<Rightarrow> [])
      | _ \<Rightarrow> [])"

definition split_sensitive_arguments :: "jobj \<Rightarrow> json \<Rightarrow> jobj \<times> jobj" where
  "split_sensitive_arguments arguments parameter_schema =
     (let secret_names = sensitive_parameter_names parameter_schema in
      if secret_names = [] then (arguments, [])
      else (map (\<lambda>(name, v). (name, if name \<in> set secret_names then JStr REDACTED_PLACEHOLDER else v)) arguments,
            filter (\<lambda>(name, _). name \<in> set secret_names) arguments))"

text \<open>\<^verbatim>\<open>{**a, **b}\<close>.\<close>

definition dict_merge :: "('k, 'v) dict \<Rightarrow> ('k, 'v) dict \<Rightarrow> ('k, 'v) dict" where
  "dict_merge a b = fold (\<lambda>(k, v). dict_set k v) b a"

subsection \<open>The resolver\<close>

type_synonym 'w capability_resolver = "(string, 'w capability_provider) dict"

fun add_providers :: "'w capability_provider list \<Rightarrow> 'w capability_resolver \<Rightarrow> 'w capability_resolver result" where
  "add_providers [] by_id = Inr by_id"
| "add_providers (provider # providers) by_id =
     (let provider_id = pv_provider_id provider in
      if provider_id = [] \<or> capability_id_separator \<in> set provider_id
      then Inl (Exn ValueError ''invalid capability provider id'')
      else if dict_get by_id provider_id \<noteq> None
      then Inl (Exn ValueError ''duplicate capability provider id'')
      else add_providers providers (dict_set provider_id provider by_id))"

definition capability_resolver :: "'w capability_provider list \<Rightarrow> 'w capability_resolver result" where
  "capability_resolver providers = add_providers providers []"

definition resolve_capability ::
    "'w capability_resolver \<Rightarrow> string \<Rightarrow> resolve_context \<Rightarrow> ('w, 'w capability_binding option) io" where
  "resolve_capability providers capability context =
     bindE (liftE (normalize_capability_id capability)) (\<lambda>normalized.
       case dict_get providers (provider_of normalized) of
         None \<Rightarrow> retE None
       | Some provider \<Rightarrow>
           bindE (catch_Exception (pv_resolve provider normalized context) (\<lambda>_. retE None)) (\<lambda>binding.
             case binding of
               None \<Rightarrow> retE None
             | Some Foreign_Object \<Rightarrow> retE None
             | Some (Offered b) \<Rightarrow> if cd_capability_id (bd_descriptor b) \<noteq> normalized then retE None else retE (Some b)))"

fun vetted :: "string \<Rightarrow> catalogue_query \<Rightarrow> capability_descriptor offered list \<Rightarrow> capability_descriptor list result" where
  "vetted provider_id query [] = Inr []"
| "vetted provider_id query (Foreign_Object # offered) = vetted provider_id query offered"
| "vetted provider_id query (Offered d # offered) =
     (if cd_provider_id d \<noteq> provider_id then vetted provider_id query offered
      else rbind (query_matches query d) (\<lambda>m.
           rbind (vetted provider_id query offered) (\<lambda>kept. Inr (if m then d # kept else kept))))"

text \<open>\<^verbatim>\<open>xs[:limit]\<close> for a limit that is given and not negative.\<close>

definition take_limit :: "int option \<Rightarrow> 'a list \<Rightarrow> 'a list" where
  "take_limit n xs = (case n of None \<Rightarrow> xs | Some i \<Rightarrow> if 0 \<le> i then take (nat i) xs else xs)"

definition list_provider ::
    "catalogue_query \<Rightarrow> string \<times> 'w capability_provider \<Rightarrow> capability_descriptor list \<Rightarrow> ('w, capability_descriptor list) io" where
  "list_provider query entry descriptors =
     (case entry of (provider_id, provider) \<Rightarrow>
        if cq_providers query \<noteq> [] \<and> provider_id \<notin> set (cq_providers query) then retE descriptors
        else catch_Exception
          (bindE (pv_list_descriptors provider query) (\<lambda>offered.
           bindE (liftE (vetted provider_id query offered)) (\<lambda>kept. retE (descriptors @ kept))))
          (\<lambda>_. retE descriptors))"

definition list_descriptors :: "'w capability_resolver \<Rightarrow> catalogue_query \<Rightarrow> ('w, capability_descriptor list) io" where
  "list_descriptors providers query =
     bindE (foldE (list_provider query) providers []) (\<lambda>descriptors. retE (take_limit (cq_limit query) descriptors))"

subsection \<open>What a provider cannot do\<close>

lemma resolve_binding:
  assumes "resolve_capability providers capability context w = (Inr (Some b), w')"
  shows "\<exists>n provider. normalize_capability_id capability = Inr n \<and> cd_capability_id (bd_descriptor b) = n
    \<and> dict_get providers (provider_of n) = Some provider \<and> pv_resolve provider n context w = (Inr (Some (Offered b)), w')"
proof -
  from assms obtain n where n: "normalize_capability_id capability = Inr n"
    by (auto simp: resolve_capability_def bindE_Inr_iff)
  with assms obtain provider where p: "dict_get providers (provider_of n) = Some provider"
    by (auto simp: resolve_capability_def split: option.splits)
  obtain r u where r: "pv_resolve provider n context w = (r, u)" by (cases "pv_resolve provider n context w")
  with assms n p have "r = Inr (Some (Offered b)) \<and> u = w' \<and> cd_capability_id (bd_descriptor b) = n"
    by (cases r) (auto simp: resolve_capability_def catch_Exception_def bindE_apply catchE_def split: option.splits offered.splits if_splits)
  with n p r show ?thesis by blast
qed

text \<open>
  A capability resolves to itself or not at all. Whatever the providers return or raise, a binding that the
  resolver hands out describes exactly the canonical form of the capability that was asked for, and it was offered by
  the provider that owns the namespace of that capability.
\<close>

theorem resolve_capability_exact:
  assumes "resolve_capability providers capability context w = (Inr (Some b), w')"
  shows "\<exists>n provider. normalize_capability_id capability = Inr n \<and> cd_capability_id (bd_descriptor b) = n
    \<and> dict_get providers (provider_of n) = Some provider \<and> pv_resolve provider n context w = (Inr (Some (Offered b)), w')"
  using resolve_binding [OF assms] .

lemma vetted_sound: "vetted pid q offered = Inr kept \<Longrightarrow> d \<in> set kept \<Longrightarrow>
    Offered d \<in> set offered \<and> cd_provider_id d = pid \<and> query_matches q d = Inr True"
  by (induction pid q offered arbitrary: kept rule: vetted.induct) (auto simp: rbind_Inr_iff split: if_splits)

definition catalogue_ok :: "'w capability_resolver \<Rightarrow> catalogue_query \<Rightarrow> capability_descriptor list \<Rightarrow> bool" where
  "catalogue_ok providers q ds \<longleftrightarrow> (\<forall>d \<in> set ds. query_matches q d = Inr True \<and> cd_provider_id d \<in> set (dict_keys providers)
    \<and> (cq_providers q \<noteq> [] \<longrightarrow> cd_provider_id d \<in> set (cq_providers q)))"

lemma list_provider_ok:
  assumes "catalogue_ok providers q ds" and "entry \<in> set providers" and "list_provider q entry ds w = (Inr ds', w')"
  shows "catalogue_ok providers q ds'"
proof -
  obtain pid provider where e: "entry = (pid, provider)" by (cases entry)
  from assms(2) e have "pid \<in> set (dict_keys providers)" by force
  moreover have "ds' = ds \<or> (\<exists>offered kept. vetted pid q offered = Inr kept \<and> ds' = ds @ kept
      \<and> (cq_providers q \<noteq> [] \<longrightarrow> pid \<in> set (cq_providers q)))"
    using assms(3) unfolding list_provider_def catch_Exception_def catchE_def e
    by (auto simp: bindE_apply split: if_splits prod.splits sum.splits)
  ultimately show ?thesis using assms(1) unfolding catalogue_ok_def by (metis Un_iff set_append vetted_sound)
qed

lemma fold_provider_ok:
  "catalogue_ok providers q ds \<Longrightarrow> set entries \<subseteq> set providers \<Longrightarrow> foldE (list_provider q) entries ds w = (Inr ds', w')
   \<Longrightarrow> catalogue_ok providers q ds'"
proof (induction entries arbitrary: ds w)
  case (Cons e es)
  from Cons.prems(3) obtain ds1 w1 where s: "list_provider q e ds w = (Inr ds1, w1)" "foldE (list_provider q) es ds1 w1 = (Inr ds', w')"
    by (auto simp: bindE_Inr_iff)
  from list_provider_ok [OF Cons.prems(1) _ s(1)] Cons.prems(2) have "catalogue_ok providers q ds1" by simp
  from Cons.IH [OF this _ s(2)] Cons.prems(2) show ?case by simp
qed simp

text \<open>
  A catalogue holds only what was asked for. Whatever the providers offer, every entry of a catalogue satisfies the
  query and belongs to a registered provider that the query admits, so an internal capability appears only in a
  query that includes internal ones; and the limit is respected.
\<close>

theorem catalogue_vetted:
  assumes "list_descriptors providers q w = (Inr ds, w')"
  shows "(\<forall>d \<in> set ds. query_matches q d = Inr True \<and> cd_provider_id d \<in> set (dict_keys providers)
      \<and> (cq_providers q \<noteq> [] \<longrightarrow> cd_provider_id d \<in> set (cq_providers q))
      \<and> (cd_visibility d = ''internal'' \<longrightarrow> cq_include_internal q))
    \<and> (\<forall>n. cq_limit q = Some n \<longrightarrow> 0 \<le> n \<longrightarrow> int (length ds) \<le> n)"
proof -
  from assms obtain all where all: "foldE (list_provider q) providers [] w = (Inr all, w')" and ds: "ds = take_limit (cq_limit q) all"
    by (auto simp: list_descriptors_def bindE_Inr_iff)
  have "catalogue_ok providers q []" by (simp add: catalogue_ok_def)
  from fold_provider_ok [OF this _ all] have "catalogue_ok providers q all" by simp
  moreover have "set ds \<subseteq> set all" using ds by (auto simp: take_limit_def dest: in_set_takeD split: option.splits if_splits)
  moreover have "cq_include_internal q" if "query_matches q d = Inr True" "cd_visibility d = ''internal''" for d
    using that by (auto simp: query_matches_def rbind_Inr_iff Let_def split: if_splits)
  moreover have "int (length ds) \<le> n" if "cq_limit q = Some n" "0 \<le> n" for n using that ds by (simp add: take_limit_def)
  ultimately show ?thesis unfolding catalogue_ok_def by blast
qed

subsection \<open>Secrets are split off and put back\<close>

lemma dict_merge_restores:
  assumes "distinct (map fst xs)" and "fst ` set pre \<inter> fst ` set xs = {}"
  shows "fold (\<lambda>(k, v). dict_set k v) (filter (\<lambda>(k, _). S k) xs) (pre @ map (\<lambda>(k, v). (k, if S k then c else v)) xs)
       = pre @ xs"
  using assms
proof (induction xs arbitrary: pre)
  case (Cons x xs)
  obtain k v where x: "x = (k, v)" by (cases x)
  have upd: "dict_set k v (pre @ (k, u) # rest) = pre @ (k, v) # rest" if "k \<notin> fst ` set pre" for u rest
    using that by (induction pre) auto
  have pre: "k \<notin> fst ` set pre" using Cons.prems(2) x by auto
  from Cons.IH [of "pre @ [(k, v)]"] Cons.prems x
  have ih: "fold (\<lambda>(k, v). dict_set k v) (filter (\<lambda>(k, _). S k) xs)
      (pre @ (k, v) # map (\<lambda>(k, v). (k, if S k then c else v)) xs) = pre @ (k, v) # xs" by auto
  then show ?case using upd [OF pre] by (cases "S k") (simp_all add: x)
qed simp

text \<open>
  Sensitive arguments are split off and come back. The persistable half of the arguments of a call has the same names and
  carries only the placeholder under every name that the schema marks as sensitive; merging the secret half back in, as the
  executor does for the handler, gives exactly the arguments of the call.
\<close>

theorem sensitive_arguments_roundtrip:
  assumes "dict_ok arguments" and "split_sensitive_arguments arguments schema = (public, secret)"
  shows "dict_merge public secret = arguments \<and> dict_keys public = dict_keys arguments
    \<and> set (dict_keys secret) = set (dict_keys arguments) \<inter> set (sensitive_parameter_names schema)
    \<and> (\<forall>name \<in> set (sensitive_parameter_names schema). dict_get public name \<in> {None, Some (JStr REDACTED_PLACEHOLDER)})"
proof -
  let ?S = "\<lambda>k. k \<in> set (sensitive_parameter_names schema)"
  let ?pub = "map (\<lambda>(k, v). (k, if ?S k then JStr REDACTED_PLACEHOLDER else v)) arguments"
  have pub: "public = ?pub" and sec: "secret = filter (\<lambda>(k, _). ?S k) arguments"
    using assms(2) by (auto simp: split_sensitive_arguments_def Let_def split: if_splits)
  have "dict_merge ?pub (filter (\<lambda>(k, _). ?S k) arguments) = arguments"
    using dict_merge_restores [of arguments "[]" ?S "JStr REDACTED_PLACEHOLDER"] assms(1) unfolding dict_merge_def dict_ok_def by simp
  moreover have "dict_keys ?pub = dict_keys arguments" by (simp add: comp_def case_prod_beta)
  moreover have "set (dict_keys (filter (\<lambda>(k, _). ?S k) arguments)) = set (dict_keys arguments) \<inter> Collect ?S" by force
  moreover have "dict_get ?pub name \<in> {None, Some (JStr REDACTED_PLACEHOLDER)}" if "?S name" for name
    by (cases "dict_get ?pub name") (use that in \<open>auto dest!: map_of_SomeD\<close>)
  ultimately show ?thesis unfolding pub sec by simp
qed

theorem sensitive_arguments_example:
  "dict_merge [(''k'', JStr REDACTED_PLACEHOLDER), (''n'', JInt 1)] [(''k'', JStr ''hunter2'')] = [(''k'', JStr ''hunter2''), (''n'', JInt 1)]"
proof -
  let ?schema = "JObj [(''properties'', JObj [(''k'', JObj [(SENSITIVE_SCHEMA_KEY, JBool True)])])]"
  let ?args = "[(''k'', JStr ''hunter2''), (''n'', JInt 1)]"
  have s: "split_sensitive_arguments ?args ?schema = ([(''k'', JStr REDACTED_PLACEHOLDER), (''n'', JInt 1)], [(''k'', JStr ''hunter2'')])"
    by (simp add: split_sensitive_arguments_def sensitive_parameter_names_def)
  have "dict_ok ?args" by (simp add: dict_ok_def)
  from sensitive_arguments_roundtrip [OF this s] show ?thesis by blast
qed

end
