(* ===== verification/Capability_Executor.thy ===== *)
theory Capability_Executor
  imports Capability_Contract Result_Persistence
begin

section \<open>The executor of capabilities\<close>

text \<open>
  \<^verbatim>\<open>capabilities/executor.py\<close>: one lifecycle for every capability. The executor claims the run, resolves the binding
  unless the caller brings one, checks the environment, calls the handler, vets and scrubs what the handler returned, and
  writes the result. The workspace layout, the directories, the repository of source objects and the learning
  hook are other components, so they are fields of \<open>capability_env\<close>.
\<close>

record 'w capability_env =
  ce_resolver :: "'w capability_resolver"
  ce_worker_id :: string
  ce_repr :: "json \<Rightarrow> string"
  ce_workspace_dir :: "task_run \<Rightarrow> path"
  ce_mkdir :: "path \<Rightarrow> ('w, unit) io"
  ce_resolve_object_ref :: "path \<Rightarrow> string \<Rightarrow> ('w, path option) io"
  ce_on_run_terminal :: "task_run \<Rightarrow> task_result \<Rightarrow> ('w, unit) io"

definition RESULT_DIR_NAME :: string where
  "RESULT_DIR_NAME = ''result''"

definition MIN_TARGETED_SCRUB_LEN :: nat where
  "MIN_TARGETED_SCRUB_LEN = 6"

type_synonym 'w execution_policy = "task_run \<Rightarrow> capability_descriptor \<Rightarrow> ('w, string option) io"

subsection \<open>Source objects\<close>

fun contains_exact_value :: "string \<Rightarrow> json \<Rightarrow> bool" where
  "contains_exact_value expected (JStr s) = (s = expected)"
| "contains_exact_value expected (JObj kvs) = list_ex (\<lambda>(_, item). contains_exact_value expected item) kvs"
| "contains_exact_value expected (JList items) = list_ex (contains_exact_value expected) items"
| "contains_exact_value expected _ = False"

text \<open>\<^verbatim>\<open>str(path)\<close>.\<close>

definition path_str :: "path \<Rightarrow> string" where
  "path_str p =
     (if p = [] then ''.'' else if hd p = ''/'' then ''/'' @ join_with (CHR ''/'') (tl p) else join_with (CHR ''/'') p)"

primrec resolve_authorized_refs :: "(string, path) dict \<Rightarrow> json \<Rightarrow> json" where
  "resolve_authorized_refs source_objects JNull = JNull"
| "resolve_authorized_refs source_objects (JBool b) = JBool b"
| "resolve_authorized_refs source_objects (JInt i) = JInt i"
| "resolve_authorized_refs source_objects (JFloat q) = JFloat q"
| "resolve_authorized_refs source_objects (JStr s) =
     JStr (case dict_get source_objects s of Some p \<Rightarrow> path_str p | None \<Rightarrow> s)"
| "resolve_authorized_refs source_objects (JList items) = JList (map (resolve_authorized_refs source_objects) items)"
| "resolve_authorized_refs source_objects (JObj kvs) = JObj (map (map_prod id (resolve_authorized_refs source_objects)) kvs)"

definition json_or_empty :: "json option \<Rightarrow> json" where
  "json_or_empty v = (case v of Some x \<Rightarrow> if json_truthy x then x else JStr [] | None \<Rightarrow> JStr [])"

definition authorized_source_objects :: "'w capability_env \<Rightarrow> task_run \<Rightarrow> path \<Rightarrow> ('w, (string, path) dict) io" where
  "authorized_source_objects env run workspace =
     (case dict_get (ts_metadata (tr_spec run)) ''tabular'' of
        Some (JObj tabular) \<Rightarrow>
          let source_ref = json_str (ce_repr env) (json_or_empty (dict_get tabular ''source_ref''));
              object_ref = json_str (ce_repr env) (json_or_empty (dict_get tabular ''source_object_ref'')) in
          if source_ref = [] \<or> object_ref = [] \<or> \<not> contains_exact_value object_ref (JObj (ts_args (tr_spec run))) then retE []
          else bindE (ce_resolve_object_ref env workspace object_ref) (\<lambda>found.
            case found of
              None \<Rightarrow> raiseE (Exn ValueError ''task references an unavailable or corrupt source object'')
            | Some p \<Rightarrow> retE [(object_ref, p)])
      | _ \<Rightarrow> retE [])"

subsection \<open>Vetting and scrubbing\<close>

definition environment_denial :: "(json \<Rightarrow> string) \<Rightarrow> task_run \<Rightarrow> capability_descriptor \<Rightarrow> string" where
  "environment_denial repr run descriptor =
     (let allowed = cd_required_sandbox descriptor in
      if allowed = [] then []
      else case selected_sandbox repr (tr_spec run) of
             None \<Rightarrow> cd_capability_id descriptor @ '' needs one of '' @ repr (JList (map JStr allowed)) @ '', but this task selected no sandbox.''
           | Some selected \<Rightarrow>
               if selected \<notin> set allowed
               then cd_capability_id descriptor @ '' allows '' @ repr (JList (map JStr allowed)) @ '', but this task was prepared for '' @ selected @ ''.''
               else [])"

definition vetted_result ::
    "(json \<Rightarrow> string) \<Rightarrow> task_run \<Rightarrow> capability_descriptor \<Rightarrow> task_result \<Rightarrow> ('z rt_world_scheme, task_result) io" where
  "vetted_result repr run descriptor result =
     (if res_run_id result \<noteq> tr_run_id run \<or> res_task_id result \<noteq> ts_task_id (tr_spec run)
      then failed_result run (cd_capability_id descriptor @ '' returned a result for run '' @ repr (JStr (res_run_id result)) @ '' / task '' @
             repr (JStr (res_task_id result)) @ ''.'') INTERNAL
      else if res_status result \<notin> set TERMINAL_RUN_STATUSES
      then failed_result run (cd_capability_id descriptor @ '' returned the non-terminal status '' @
             repr (JStr (task_status_value (res_status result))) @ ''.'') INTERNAL
      else retE result)"

text \<open>\<^verbatim>\<open>s.replace(old, new)\<close> for a text \<open>old\<close> that is not empty: the leftmost occurrences that do not overlap.\<close>

function py_replace :: "string \<Rightarrow> string \<Rightarrow> string \<Rightarrow> string" where
  "py_replace old new [] = []"
| "py_replace old new (c # cs) =
     (if old \<noteq> [] \<and> prefix old (c # cs) then new @ py_replace old new (drop (length old) (c # cs))
      else c # py_replace old new cs)"
  by pat_completeness auto
termination by (relation "measure (\<lambda>(_, _, s). length s)") auto

fun scrub :: "string list \<Rightarrow> string \<Rightarrow> string" where
  "scrub [] scrubbed = scrubbed"
| "scrub (v # vs) scrubbed =
     (if MIN_TARGETED_SCRUB_LEN \<le> length v then scrub vs (py_replace v REDACTED_PLACEHOLDER scrubbed)
      else if str_contains v scrubbed then REDACTED_PLACEHOLDER
      else scrub vs scrubbed)"

definition secret_values :: "(json \<Rightarrow> string) \<Rightarrow> jobj \<Rightarrow> string list" where
  "secret_values repr secrets = filter (\<lambda>v. v \<noteq> []) (map (json_str repr) (dict_values secrets))"

definition scrubbed_result :: "(json \<Rightarrow> string) \<Rightarrow> task_result \<Rightarrow> jobj \<Rightarrow> task_result" where
  "scrubbed_result repr result secrets =
     (let vs = secret_values repr secrets in
      if vs = [] then result
      else result\<lparr>res_title := scrub vs (res_title result), res_summary := scrub vs (res_summary result),
                  res_output := scrub vs (res_output result), res_error_message := scrub vs (res_error_message result)\<rparr>)"

subsection \<open>Execution\<close>

definition capability_context_for ::
    "'w capability_env \<Rightarrow> task_run \<Rightarrow> capability_descriptor \<Rightarrow> int \<Rightarrow> ('w, capability_context) io" where
  "capability_context_for env run descriptor started_at =
     (let workspace = ce_workspace_dir env run;
          run_dir = path_join (path_join (path_join workspace ''results'') (tr_batch_id run)) (tr_run_id run);
          result_dir = path_join run_dir RESULT_DIR_NAME in
      thenE (ce_mkdir env result_dir)
     (bindE (authorized_source_objects env run workspace) (\<lambda>source_objects.
        retE \<lparr>cc_run = run, cc_descriptor = descriptor,
              cc_arguments = map (map_prod id (resolve_authorized_refs source_objects)) (dict_merge (ts_args (tr_spec run)) (secret_arguments run)),
              cc_workspace = workspace, cc_run_dir = run_dir, cc_result_dir = result_dir, cc_started_at = started_at,
              cc_input_paths = dict_values source_objects\<rparr>)))"

definition execute_resolved ::
    "'z rt_world_scheme capability_env \<Rightarrow> task_run \<Rightarrow> 'z rt_world_scheme capability_binding \<Rightarrow> 'z rt_world_scheme execution_policy option
       \<Rightarrow> ('z rt_world_scheme, task_result) io" where
  "execute_resolved env run binding policy =
     bindE now_ms (\<lambda>started_at.
       let descriptor = bd_descriptor binding in
       if cd_capability_id descriptor \<noteq> task_capability_id (tr_spec run)
       then build_user_input_result run (''Resolved capability '' @ ce_repr env (JStr (cd_capability_id descriptor)) @ '' does not match dispatch '' @
              ce_repr env (JStr (task_capability_id (tr_spec run))) @ ''.'')
       else bindE (case policy of None \<Rightarrow> retE None | Some denial_reason \<Rightarrow> denial_reason run descriptor) (\<lambda>reason.
         if (case reason of Some r \<Rightarrow> r \<noteq> [] | None \<Rightarrow> False) then failed_result run (the reason) POLICY_DENY
         else let denial = environment_denial (ce_repr env) run descriptor in
              if denial \<noteq> [] then build_user_input_result run denial
              else bindE (capability_context_for env run descriptor started_at) (\<lambda>context.
                   bindE (bd_handler binding context) (vetted_result (ce_repr env) run descriptor))))"

definition capability_execute :: "'z rt_world_scheme capability_env \<Rightarrow> task_run \<Rightarrow> ('z rt_world_scheme, task_result) io" where
  "capability_execute env run =
     (let cap = task_capability_id (tr_spec run) in
      if cap = [] then build_user_input_result run (''This task'' @ [CHR 39] @ ''s dispatch does not name a capability.'')
      else bindE (resolve_capability (ce_resolver env) cap (resolve_context_from_run run)) (\<lambda>binding.
        case binding of
          None \<Rightarrow> build_user_input_result run (''No capability is registered for: '' @ cap)
        | Some b \<Rightarrow> execute_resolved env run b None))"

definition capability_run_body ::
    "'z rt_world_scheme capability_env \<Rightarrow> 'z rt_world_scheme run_store \<Rightarrow> task_run \<Rightarrow> 'z rt_world_scheme capability_binding option
       \<Rightarrow> 'z rt_world_scheme execution_policy option \<Rightarrow> ('z rt_world_scheme, task_result) io" where
  "capability_run_body env st run binding policy =
     bindE (rs_claim_run st (tr_run_id run) (ce_worker_id env)) (\<lambda>token.
     bindE (catch_Exception
              (case binding of None \<Rightarrow> capability_execute env run | Some b \<Rightarrow> execute_resolved env run b policy)
              (\<lambda>exc. failed_result run (''Capability execution crashed: '' @ exn_message exc) INTERNAL)) (\<lambda>result.
     let result = scrubbed_result (ce_repr env) result (secret_arguments run) in
     thenE (finallyE (rs_write_result st (tr_run_id run) result token) (ce_on_run_terminal env run result)) (retE result)))"

definition capability_run ::
    "'z rt_world_scheme capability_env \<Rightarrow> 'z rt_world_scheme run_store \<Rightarrow> task_run \<Rightarrow> ('z rt_world_scheme, task_result) io" where
  "capability_run env st run = capability_run_body env st run None None"

definition run_resolved ::
    "'z rt_world_scheme capability_env \<Rightarrow> 'z rt_world_scheme run_store \<Rightarrow> task_run \<Rightarrow> 'z rt_world_scheme capability_binding
       \<Rightarrow> 'z rt_world_scheme execution_policy option \<Rightarrow> ('z rt_world_scheme, task_result) io" where
  "run_resolved env st run binding policy = capability_run_body env st run (Some binding) policy"

subsection \<open>Scrubbing removes the secrets\<close>

declare str_contains.simps [simp del]

lemma str_contains_Cons [simp]: "str_contains v (c # cs) \<longleftrightarrow> prefix v (c # cs) \<or> str_contains v cs"
proof -
  have "take (length v) (c # cs) = v \<longleftrightarrow> prefix v (c # cs)" by (metis append_take_drop_id prefix_def append_eq_conv_conj)
  then show ?thesis by (simp add: str_contains.simps)
qed

lemma str_contains_Nil [simp]: "str_contains v [] \<longleftrightarrow> v = []"
  by (simp add: str_contains.simps)

lemma str_contains_drop: "str_contains v (drop n s) \<Longrightarrow> str_contains v s"
  using str_contains_sub [of v "drop n s" "take n s" "[]"] by simp

lemma prefix_before: "c \<notin> set v \<Longrightarrow> prefix v (a @ c # b) \<Longrightarrow> prefix v a"
  by (induction a arbitrary: v) (auto simp: prefix_Cons)

text \<open>A text without the character \<open>c\<close> occurs on one side of it.\<close>

lemma str_contains_split:
  assumes "c \<notin> set v" and "v \<noteq> []" and "str_contains v (a @ c # b)"
  shows "str_contains v a \<or> str_contains v b"
  using assms
proof (induction a)
  case Nil
  then have "\<not> prefix v (c # b)" by (auto simp: prefix_Cons)
  with Nil show ?case by simp
next
  case (Cons x a)
  then show ?case using prefix_before [of c v "x # a" b] by auto
qed

text \<open>\<open>scrubbable v\<close>: the text shares nothing with the placeholder that replaces it.\<close>

definition scrubbable :: "string \<Rightarrow> bool" where
  "scrubbable v \<longleftrightarrow> v \<noteq> [] \<and> CHR ''<'' \<notin> set v \<and> CHR ''>'' \<notin> set v \<and> \<not> str_contains v ''redacted''"

lemma placeholder_split:
  assumes "scrubbable v" and "str_contains v (REDACTED_PLACEHOLDER @ s)"
  shows "str_contains v s"
proof -
  have "REDACTED_PLACEHOLDER @ s = [] @ CHR ''<'' # (''redacted'' @ CHR ''>'' # s)" by (simp add: REDACTED_PLACEHOLDER_def)
  with assms have "str_contains v ([] @ CHR ''<'' # (''redacted'' @ CHR ''>'' # s))" by argo
  with assms(1) have "str_contains v (''redacted'' @ CHR ''>'' # s)"
    using str_contains_split [of "CHR ''<''" v "[]"] unfolding scrubbable_def by fastforce
  with assms(1) show ?thesis using str_contains_split [of "CHR ''>''" v "''redacted''"] unfolding scrubbable_def by blast
qed

lemma placeholder_hides: "scrubbable v \<Longrightarrow> \<not> str_contains v REDACTED_PLACEHOLDER"
  using placeholder_split [of v "[]"] by (auto simp: scrubbable_def)

lemma prefix_replace:
  assumes "CHR ''<'' \<notin> set v"
  shows "prefix v (py_replace u REDACTED_PLACEHOLDER s) \<Longrightarrow> prefix v s"
  using assms
proof (induction s arbitrary: v)
  case (Cons c cs)
  show ?case
  proof (cases "u \<noteq> [] \<and> prefix u (c # cs)")
    case True
    then have "py_replace u REDACTED_PLACEHOLDER (c # cs) = CHR ''<'' # (''redacted>'' @ py_replace u REDACTED_PLACEHOLDER (drop (length u) (c # cs)))"
      by (simp add: REDACTED_PLACEHOLDER_def)
    with Cons.prems show ?thesis by (auto simp: prefix_Cons)
  next
    case False
    then have "py_replace u REDACTED_PLACEHOLDER (c # cs) = c # py_replace u REDACTED_PLACEHOLDER cs" by auto
    with Cons show ?thesis by (auto simp: prefix_Cons)
  qed
qed simp

lemma replace_hides:
  assumes "scrubbable v" and "\<not> str_contains v s \<or> u = v"
  shows "\<not> str_contains v (py_replace u REDACTED_PLACEHOLDER s)"
  using assms(2)
proof (induction u REDACTED_PLACEHOLDER s rule: py_replace.induct)
  case (1 u)
  then show ?case using assms(1) by (auto simp: scrubbable_def)
next
  case (2 u c cs)
  show ?case
  proof (cases "u \<noteq> [] \<and> prefix u (c # cs)")
    case True
    have "\<not> str_contains v (drop (length u) (c # cs)) \<or> u = v" using 2(3) str_contains_drop by blast
    from 2(1) [OF True this] True show ?thesis using placeholder_split [OF assms(1)] by auto
  next
    case False
    have "\<not> str_contains v cs \<or> u = v" using 2(3) by auto
    from 2(2) [OF False this] have tl: "\<not> str_contains v (py_replace u REDACTED_PLACEHOLDER cs)" .
    have "\<not> prefix v (c # cs)" using 2(3) False assms(1) by (auto simp: scrubbable_def)
    then have "\<not> prefix v (py_replace u REDACTED_PLACEHOLDER (c # cs))"
      using prefix_replace [of v u "c # cs"] assms(1) unfolding scrubbable_def by blast
    with tl False show ?thesis by auto
  qed
qed

lemma scrub_hides: "scrubbable v \<Longrightarrow> \<not> str_contains v s \<or> v \<in> set vs \<Longrightarrow> \<not> str_contains v (scrub vs s)"
proof (induction vs s rule: scrub.induct)
  case (2 u vs s)
  consider (long) "MIN_TARGETED_SCRUB_LEN \<le> length u" | (hit) "\<not> MIN_TARGETED_SCRUB_LEN \<le> length u" "str_contains u s"
    | (miss) "\<not> MIN_TARGETED_SCRUB_LEN \<le> length u" "\<not> str_contains u s" by blast
  then show ?case
  proof cases
    case long
    then show ?thesis using 2(1) [OF long 2(3)] 2(4) replace_hides [OF 2(3), of s u] by auto
  next
    case hit
    then show ?thesis using placeholder_hides [OF 2(3)] by simp
  next
    case miss
    then show ?thesis using 2(2) [OF miss 2(3)] 2(4) by auto
  qed
qed simp

text \<open>\<open>hides_secrets repr run result\<close>: no secret of the run that can be scrubbed occurs in a text of the result.\<close>

definition hides_secrets :: "(json \<Rightarrow> string) \<Rightarrow> task_run \<Rightarrow> task_result \<Rightarrow> bool" where
  "hides_secrets repr run result \<longleftrightarrow> (\<forall>v \<in> set (secret_values repr (secret_arguments run)). scrubbable v \<longrightarrow>
     \<not> str_contains v (res_title result) \<and> \<not> str_contains v (res_summary result)
     \<and> \<not> str_contains v (res_output result) \<and> \<not> str_contains v (res_error_message result))"

lemma scrubbed_result_hides: "hides_secrets repr run (scrubbed_result repr result (secret_arguments run))"
  by (auto simp: hides_secrets_def scrubbed_result_def Let_def scrub_hides)

text \<open>A store that refuses every result outside \<open>P\<close>.\<close>

definition guard_writes :: "(task_result \<Rightarrow> bool) \<Rightarrow> 'w run_store \<Rightarrow> 'w run_store" where
  "guard_writes P st = st\<lparr>rs_write_result := \<lambda>rid result token.
     if P result then rs_write_result st rid result token else raiseE (Exn ValueError ''a secret would be written'')\<rparr>"

text \<open>
  C15. No secret that can be scrubbed reaches the store. A secret argument can be scrubbed when its text has no angle bracket
  and is not a piece of the word in the placeholder, which the scrubbing itself would put back. The executor behaves in the
  same way with a store that refuses every result whose title, summary, output or error message contains such a secret of the
  run: whatever a handler reports, the scrubbed result never trips that guard, and the result that is returned hides these secrets as well.
\<close>

theorem secrets_never_written:
  "capability_run_body env (guard_writes (hides_secrets (ce_repr env) run) st) run binding policy
     = capability_run_body env st run binding policy
   \<and> ends (\<lambda>_. True) (capability_run_body env st run binding policy)
       (\<lambda>r _. case r of Inl _ \<Rightarrow> True | Inr result \<Rightarrow> hides_secrets (ce_repr env) run result)"
  unfolding capability_run_body_def ends_def
  by (auto simp: guard_writes_def scrubbed_result_hides bindE_Inr_iff thenE_Inr_iff Let_def split: sum.splits)

subsection \<open>A claimed run is settled\<close>

text \<open>
  What the executors have in common: claim the run, work, write the result under the token of the claim.
  \<open>claimed\<close>: the stored run is running under the token, and its outputs have a place below the results root.
\<close>

definition storable :: "(string \<Rightarrow> string) \<Rightarrow> path \<Rightarrow> task_run \<Rightarrow> bool" where
  "storable sha rt r \<longleftrightarrow> (\<forall>bytes. \<exists>loc. output_location sha rt r bytes = Inr loc)"

lemma storable_copy:
  "tr_batch_id r = tr_batch_id r' \<Longrightarrow> tr_run_id r = tr_run_id r' \<Longrightarrow> tr_attempt r = tr_attempt r' \<Longrightarrow> storable sha rt r = storable sha rt r'"
  by (simp add: storable_def output_location_def attempt_output_dir_def cong: if_cong)

definition claimed :: "(string \<Rightarrow> string) \<Rightarrow> path \<Rightarrow> string \<Rightarrow> run_key \<Rightarrow> string \<Rightarrow> 'z fs_world_scheme \<Rightarrow> bool" where
  "claimed sha rt rid k tok w \<longleftrightarrow> dict_ok (fs_runs w) \<and> (\<exists>r. find_run rid w = Some (k, r) \<and> tr_status r = RUNNING
     \<and> tr_fencing_token r = tok \<and> storable sha rt r)"

text \<open>
  \<open>recorded\<close>: the run has the status of the result, and its result file holds the result, field by field; a text
  output is in its own file, to which the stored result refers by name and size.
\<close>

definition stored_as :: "(string \<Rightarrow> string) \<Rightarrow> path \<Rightarrow> task_run \<Rightarrow> task_result \<Rightarrow> task_result \<Rightarrow> files \<Rightarrow> bool" where
  "stored_as sha rt r result p fs \<longleftrightarrow>
     res_output p = [] \<and> p\<lparr>res_output := res_output result, res_output_ref := res_output_ref result\<rparr> = result
     \<and> (if res_output result = [] then res_output_ref p = res_output_ref result
        else \<exists>file ref. output_location sha rt r (utf8_encode (res_output result)) = Inr (file, ref)
          \<and> dict_get fs file = Some (utf8_encode (res_output result))
          \<and> res_output_ref p = Some \<lparr>or_path = ref, or_size = int (length (utf8_encode (res_output result)))\<rparr>)"

definition recorded :: "(string \<Rightarrow> string) \<Rightarrow> path \<Rightarrow> string \<Rightarrow> run_key \<Rightarrow> task_result \<Rightarrow> 'z fs_world_scheme \<Rightarrow> bool" where
  "recorded sha rt rid k result w \<longleftrightarrow> settled rid k (res_status result) w
     \<and> (\<exists>r p. find_run rid w = Some (k, r) \<and> dict_get (fs_results w) (run_key_of r) = Some p
          \<and> stored_as sha rt r result p (fs_files w))"

lemma put_result_stores:
  assumes "storable sha rt r"
  shows "\<exists>v' p. put_result sha rt r result v = (Inr (), v') \<and> fs_runs v' = fs_runs v
    \<and> fs_results v' = dict_set (run_key_of r) p (fs_results v) \<and> stored_as sha rt r result p (fs_files v')"
proof -
  from assms obtain loc where "output_location sha rt r (utf8_encode (res_output result)) = Inr loc"
    unfolding storable_def by blast
  then show ?thesis
    by (cases loc) (auto simp: put_result_def persisted_result_payload_def stored_as_def run_key_of_def dict_get_set Let_def)
qed

lemma stored_as_copy:
  "tr_batch_id r = tr_batch_id r' \<Longrightarrow> tr_run_id r = tr_run_id r' \<Longrightarrow> tr_attempt r = tr_attempt r' \<Longrightarrow>
     stored_as sha rt r result p fs = stored_as sha rt r' result p fs"
  by (simp add: stored_as_def output_location_def attempt_output_dir_def cong: if_cong)

lemma write_claimed:
  assumes "claimed sha rt rid k (ft_token tok) w" and tmn: "is_terminal_run_status (res_status result)"
  shows "\<exists>w'. write_result sha rt rid result tok w = (Inr (), w') \<and> recorded sha rt rid k result w'"
proof -
  obtain r where ok: "dict_ok (fs_runs w)" and r: "find_run rid w = Some (k, r)" "tr_status r = RUNNING"
    "tr_fencing_token r = ft_token tok" "storable sha rt r" using assms(1) by (auto simp: claimed_def)
  have val: "is_valid_run_transition RUNNING (res_status result)" using tmn by (simp add: run_sm.running_step)
  let ?w0 = "w\<lparr>w_events := w_events w @ [Run_State_Transition (tr_run_id r) (tr_batch_id r) RUNNING (res_status result)]\<rparr>"
  obtain ended w1 where e: "or_now (res_ended_at result) ?w0 = (Inr ended, w1)" "fs_runs w1 = fs_runs w"
    using or_now_world [of "res_ended_at result" ?w0] by auto
  let ?new = "r\<lparr>tr_status := res_status result, tr_ended_at := Some ended, tr_last_error_class := res_error_class result,
      tr_last_error := res_error_message result, tr_fencing_token := []\<rparr>"
  have "storable sha rt ?new" using r(4) storable_copy [of ?new r] by simp
  from put_result_stores [OF this, of result w1] obtain w2 p where p: "put_result sha rt ?new result w1 = (Inr (), w2)"
    "fs_runs w2 = fs_runs w1" "fs_results w2 = dict_set (run_key_of ?new) p (fs_results w1)" "stored_as sha rt ?new result p (fs_files w2)" by blast
  let ?w = "w2\<lparr>fs_runs := dict_set k (persisted_run ?new) (fs_runs w2)\<rparr>"
  have wr: "write_result sha rt rid result tok w = (Inr (), ?w)"
    using r e p(1) val by (simp add: write_result_def bindE_read_run bindE_transition_run ensure_current_token_def put_run_def Let_def)
  have f: "find_run rid ?w = Some (k, persisted_run ?new)"
    by (rule find_run_update [OF r(1) ok]) (simp add: p(2) e(2))
  moreover have "stored_as sha rt (persisted_run ?new) result p (fs_files ?w)"
    using p(4) stored_as_copy [of "persisted_run ?new" ?new] by simp
  ultimately have "recorded sha rt rid k result ?w"
    using tmn p(3) by (auto simp: recorded_def settled_def run_key_of_def dict_get_set)
  with wr show ?thesis by blast
qed

lemma claim_claimed:
  assumes "dict_ok (fs_runs w)" and "find_run rid w = Some (k, r)" and "tr_status r = QUEUED" and "storable sha rt r"
  shows "\<exists>tok w'. claim_run rid worker w = (Inr tok, w') \<and> claimed sha rt rid k (ft_token tok) w'"
proof -
  let ?new = "r\<lparr>tr_worker_id := Some worker, tr_fencing_token := w_uuids w (w_uuid_next w), tr_status := RUNNING,
     tr_started_at := Some (int_or (tr_started_at r) (w_clock w (w_tick w))), tr_heartbeat_at := Some (w_clock w (w_tick w))\<rparr>"
  from assms(2,3) obtain tok w' where c: "claim_run rid worker w = (Inr tok, w')" "ft_token tok = w_uuids w (w_uuid_next w)"
    and w': "fs_runs w' = dict_set k (persisted_run ?new) (fs_runs w)"
    by (auto simp: claim_run_def bindE_read_run bindE_transition_run put_run_def Let_def run_sm.queued_step)
  have "find_run rid w' = Some (k, persisted_run ?new)" using find_run_update [OF assms(2,1) w'] .
  moreover have "storable sha rt (persisted_run ?new)" using assms(4) storable_copy [of "persisted_run ?new" r] by simp
  ultimately have "claimed sha rt rid k (ft_token tok) w'" using assms(1) w' c(2) by (simp add: claimed_def)
  with c(1) show ?thesis by blast
qed

lemma claimed_work_settles:
  assumes "dict_ok (fs_runs w)" and "find_run rid w = Some (k, r)" and "tr_status r = QUEUED" and "storable sha rt r"
    and work: "\<And>tok v. claimed sha rt rid k (ft_token tok) v \<Longrightarrow> \<exists>result v'. work tok v = (Inr result, v')
      \<and> is_terminal_run_status (res_status result) \<and> claimed sha rt rid k (ft_token tok) v'"
    and hook: "\<And>result. preserves (recorded sha rt rid k result) (hook result)"
  shows "\<exists>result c w'. bindE (claim_run rid worker) (\<lambda>tok. bindE (work tok) (\<lambda>result.
      thenE (finallyE (write_result sha rt rid result tok) (hook result)) (retE result))) w = (c, w')
    \<and> recorded sha rt rid k result w' \<and> (\<forall>x. c = Inr x \<longrightarrow> x = result)"
proof -
  obtain tok w1 where c: "claim_run rid worker w = (Inr tok, w1)" "claimed sha rt rid k (ft_token tok) w1"
    using claim_claimed [OF assms(1-4)] by blast
  obtain result w2 where r: "work tok w1 = (Inr result, w2)" "is_terminal_run_status (res_status result)" "claimed sha rt rid k (ft_token tok) w2"
    using work [OF c(2)] by blast
  obtain w3 where w3: "write_result sha rt rid result tok w2 = (Inr (), w3)" "recorded sha rt rid k result w3"
    using write_claimed [OF r(3,2)] by blast
  obtain h w4 where h: "hook result w3 = (h, w4)" by (cases "hook result w3")
  from preservesD [OF hook w3(2) h] have "recorded sha rt rid k result w4" .
  then show ?thesis using c(1) r(1) w3(1) h
    by (intro exI [of _ result] exI [of _ "case h of Inl e \<Rightarrow> Inl e | Inr _ \<Rightarrow> Inr result"] exI [of _ w4])
      (auto simp: finallyE_def thenE_def bindE_apply split: sum.splits)
qed

subsection \<open>Every capability run is settled\<close>

text \<open>\<open>dutiful P m\<close>: the call keeps \<open>P\<close>, and it raises only what an \<^verbatim>\<open>except Exception\<close> catches.\<close>

definition dutiful :: "('w \<Rightarrow> bool) \<Rightarrow> ('w, 'a) io \<Rightarrow> bool" where
  "dutiful P m \<longleftrightarrow> preserves P m \<and> mild m"

lemma dutiful_bind:
  assumes "dutiful P m" and "\<And>s a s'. m s = (Inr a, s') \<Longrightarrow> dutiful P (f a)"
  shows "dutiful P (bindE m f)"
  unfolding dutiful_def
proof
  show "preserves P (bindE m f)"
  proof (rule preservesI)
    fix s assume "P s"
    obtain r u where m: "m s = (r, u)" by (cases "m s")
    with assms(1) \<open>P s\<close> have "P u" by (auto simp: dutiful_def dest: preservesD)
    with m assms(2) show "P (snd (bindE m f s))" by (cases r) (auto simp: dutiful_def preserves_def)
  qed
  have "is_Exception e" if e: "bindE m f s = (Inl e, s')" for s e s'
  proof -
    obtain r u where m: "m s = (r, u)" by (cases "m s")
    show ?thesis
    proof (cases r)
      case (Inl x)
      with e m assms(1) show ?thesis unfolding dutiful_def mild_def by (metis bindE_eq(2) fst_conv sum.inject(1))
    next
      case (Inr a)
      with e m assms(2) [of s a u] show ?thesis unfolding dutiful_def mild_def by (metis bindE_eq(1))
    qed
  qed
  then show "mild (bindE m f)" unfolding mild_def by blast
qed

lemma dutiful_basic:
  "dutiful P (retE a)" "is_Exception e \<Longrightarrow> dutiful P (raiseE e)"
  "dutiful P m \<Longrightarrow> (\<And>e. dutiful P (h e)) \<Longrightarrow> dutiful P (catch_Exception m h)"
  "dutiful P m \<Longrightarrow> dutiful P n \<Longrightarrow> dutiful P (thenE m n)"
  by (auto simp: dutiful_def mild_pure mild_catch mild_thenE intro: preserves_intros)

definition capability_services ::
    "'w capability_env \<Rightarrow> 'w capability_binding option \<Rightarrow> 'w execution_policy option \<Rightarrow> ('w \<Rightarrow> bool) \<Rightarrow> bool" where
  "capability_services env binding policy P \<longleftrightarrow>
     (\<forall>p. dutiful P (ce_mkdir env p)) \<and> (\<forall>ws ref. dutiful P (ce_resolve_object_ref env ws ref))
     \<and> (\<forall>b c. binding = Some b \<longrightarrow> dutiful P (bd_handler b c))
     \<and> (\<forall>pid pv cap ctx. dict_get (ce_resolver env) pid = Some pv \<longrightarrow> dutiful P (pv_resolve pv cap ctx)
          \<and> (\<forall>v b v' c. pv_resolve pv cap ctx v = (Inr (Some (Offered b)), v') \<longrightarrow> dutiful P (bd_handler b c)))
     \<and> (\<forall>pol run d. policy = Some pol \<longrightarrow> dutiful P (pol run d))"

lemma dutiful_results:
  fixes P :: "'z rt_world_scheme \<Rightarrow> bool"
  assumes tick: "\<And>w t. P (w\<lparr>w_tick := t\<rparr>) = P w"
  shows "dutiful P now_ms" "dutiful P (failed_result run msg ec)" "dutiful P (build_user_input_result run msg)"
    "dutiful P (vetted_result repr run d res)"
proof -
  show now: "dutiful P now_ms" by (simp add: dutiful_def preserves_def mild_def now_ms_def tick)
  show f: "dutiful P (failed_result run msg ec)" for msg ec
    unfolding failed_result_def Let_def by (intro dutiful_bind now dutiful_basic)
  show "dutiful P (build_user_input_result run msg)"
    unfolding build_user_input_result_def by (intro dutiful_bind now dutiful_basic)
  show "dutiful P (vetted_result repr run d res)"
    unfolding vetted_result_def by (auto intro: f dutiful_basic)
qed

lemma execute_resolved_dutiful:
  fixes P :: "'z rt_world_scheme \<Rightarrow> bool"
  assumes tick: "\<And>w t. P (w\<lparr>w_tick := t\<rparr>) = P w" and sv: "capability_services env binding policy P"
    and h: "\<And>c. dutiful P (bd_handler b c)"
  shows "dutiful P (execute_resolved env run b policy)"
proof -
  note res = dutiful_results [OF tick]
  have pol: "dutiful P (case policy of None \<Rightarrow> retE None | Some denial_reason \<Rightarrow> denial_reason run d)" for d
    using sv by (auto simp: capability_services_def dutiful_basic split: option.splits)
  have src: "dutiful P (authorized_source_objects env run ws)" for ws
  proof -
    have "dutiful P (ce_resolve_object_ref env ws ref)" for ref using sv by (simp add: capability_services_def)
    then show ?thesis
      by (auto simp: authorized_source_objects_def Let_def is_Exception_def intro!: dutiful_bind dutiful_basic split: option.splits json.splits)
  qed
  have mk: "dutiful P (ce_mkdir env p)" for p using sv by (simp add: capability_services_def)
  have ctx: "dutiful P (capability_context_for env run d st)" for d st
    unfolding capability_context_for_def Let_def by (intro dutiful_basic dutiful_bind mk src)
  show ?thesis
    unfolding execute_resolved_def Let_def by (auto intro!: dutiful_bind res pol ctx h)
qed

lemma capability_execute_dutiful:
  fixes P :: "'z rt_world_scheme \<Rightarrow> bool"
  assumes tick: "\<And>w t. P (w\<lparr>w_tick := t\<rparr>) = P w" and sv: "capability_services env None None P"
  shows "dutiful P (capability_execute env run)"
proof -
  note res = dutiful_results [OF tick]
  let ?ctx = "resolve_context_from_run run" and ?cap = "task_capability_id (tr_spec run)"
  have pv: "dutiful P (pv_resolve pv cap ctx)" if "dict_get (ce_resolver env) pid = Some pv" for pid pv cap ctx
    using sv that by (simp add: capability_services_def)
  have hb: "dutiful P (bd_handler b c)" if "resolve_capability (ce_resolver env) ?cap ?ctx s = (Inr (Some b), s')" for b c s s'
    using resolve_binding [OF that] sv unfolding capability_services_def by blast
  have "dutiful P (liftE (normalize_capability_id ?cap))"
    by (auto simp: dutiful_def mild_def normalize_capability_id_def is_Exception_def Let_def split: if_splits prod.splits)
  then have "dutiful P (resolve_capability (ce_resolver env) ?cap ?ctx)"
    unfolding resolve_capability_def by (auto intro!: dutiful_bind dutiful_basic pv split: option.splits offered.splits)
  then show ?thesis
    unfolding capability_execute_def Let_def
    by (auto intro!: dutiful_bind res execute_resolved_dutiful [OF tick sv] hb split: option.splits)
qed

text \<open>Every result the executor builds or lets pass is terminal.\<close>

lemma built_terminal:
  "failed_result run msg ec w = (Inr result, w') \<Longrightarrow> is_terminal_run_status (res_status result)"
  "build_user_input_result run msg w = (Inr result, w') \<Longrightarrow> is_terminal_run_status (res_status result)"
  "vetted_result repr run d res w = (Inr result, w') \<Longrightarrow> is_terminal_run_status (res_status result)"
  by (auto simp: failed_result_def build_user_input_result_def vetted_result_def bindE_Inr_iff bare_result_def is_terminal_run_status_def
      run_tables Let_def split: if_splits)

lemma executed_terminal:
  "execute_resolved env run b policy w = (Inr result, w') \<Longrightarrow> is_terminal_run_status (res_status result)"
  "capability_execute env run w = (Inr result, w') \<Longrightarrow> is_terminal_run_status (res_status result)"
proof -
  show r: "is_terminal_run_status (res_status result)" if "execute_resolved env run b policy w = (Inr result, w')" for b policy w
    using that by (auto simp: execute_resolved_def bindE_Inr_iff Let_def intro: built_terminal split: if_splits)
  show "capability_execute env run w = (Inr result, w') \<Longrightarrow> is_terminal_run_status (res_status result)"
    by (auto simp: capability_execute_def bindE_Inr_iff Let_def intro: built_terminal r split: if_splits option.splits)
qed

lemma scrubbed_status [simp]: "res_status (scrubbed_result repr result secrets) = res_status result"
  by (simp add: scrubbed_result_def Let_def)

text \<open>
  C16. Whoever claims a run settles it. When a queued run of the filesystem store, whose identifiers give a place for
  outputs, is executed as a capability, it ends in a terminal status, the result file of the run holds a result of that status, its
  output included, and this is the result that is returned when the call returns. This holds whatever the resolver, the policy or the
  handler do, wrong results and crashes included, short of a cancellation: each of these calls only has to leave
  the claim of this run alone, and the learning hook what was recorded for it. The files of the store are assumed
  to be writable.
\<close>

theorem capability_run_settles:
  fixes env :: "'z fs_world_scheme capability_env"
  assumes "dict_ok (fs_runs w)" and "find_run (tr_run_id run) w = Some (k, r)" and "tr_status r = QUEUED" and "storable sha rt r"
    and sv: "\<And>tok. capability_services env binding policy (claimed sha rt (tr_run_id run) k tok)"
    and hook: "\<And>result. preserves (recorded sha rt (tr_run_id run) k result) (ce_on_run_terminal env run result)"
    and pol: "binding = None \<longrightarrow> policy = None"
  shows "\<exists>result c w'. capability_run_body env (file_run_store sha rt) run binding policy w = (c, w')
    \<and> recorded sha rt (tr_run_id run) k result w' \<and> (\<forall>x. c = Inr x \<longrightarrow> x = result)"
proof -
  let ?P = "\<lambda>tok. claimed sha rt (tr_run_id run) k (ft_token tok)"
  let ?m = "case binding of None \<Rightarrow> capability_execute env run | Some b \<Rightarrow> execute_resolved env run b policy"
  let ?h = "\<lambda>exc. failed_result run (''Capability execution crashed: '' @ exn_message exc) INTERNAL :: ('z fs_world_scheme, task_result) io"
  have tick: "?P tok (v\<lparr>w_tick := t\<rparr>) = ?P tok v" for tok t and v :: "'z fs_world_scheme"
    by (simp add: claimed_def find_run_def)
  have m: "dutiful (?P tok) ?m" for tok
  proof (cases binding)
    case None
    then show ?thesis using capability_execute_dutiful [of "?P tok", OF tick] sv [of "ft_token tok"] pol by simp
  next
    case (Some b)
    have "dutiful (?P tok) (bd_handler b c)" for c using sv [of "ft_token tok"] Some by (simp add: capability_services_def)
    from execute_resolved_dutiful [of "?P tok", OF tick sv this] Some show ?thesis by simp
  qed
  have tmn: "is_terminal_run_status (res_status result)" if "?m v = (Inr result, v')" for v result v'
    using that by (auto intro: executed_terminal split: option.splits)
  let ?work = "\<lambda>tok :: fencing_token. bindE (catch_Exception ?m ?h) (\<lambda>result. retE (scrubbed_result (ce_repr env) result (secret_arguments run)))"
  have work: "\<exists>result v'. ?work tok v = (Inr result, v') \<and> is_terminal_run_status (res_status result) \<and> ?P tok v'"
    if c: "?P tok v" for tok v
  proof -
    have hd: "dutiful (?P tok) (?h e)" for e by (rule dutiful_results(2) [of "?P tok", OF tick])
    from m [of tok] have mild: "mild ?m" by (simp add: dutiful_def)
    obtain result v' where r: "catch_Exception ?m ?h v = (Inr result, v')"
      using catch_answers [OF mild, of ?h v] by (auto simp: failed_result_def Let_def now_ms_def bindE_def)
    have "preserves (?P tok) (catch_Exception ?m ?h)" using dutiful_basic(3) [of "?P tok" ?m ?h, OF m hd] unfolding dutiful_def ..
    from preservesD [OF this c r] have "?P tok v'" .
    moreover have "is_terminal_run_status (res_status result)"
      using r by (auto simp: catch_Exception_def catchE_def intro: tmn built_terminal(1) split: prod.splits sum.splits if_splits)
    ultimately show ?thesis using r by simp
  qed
  have eq: "capability_run_body env (file_run_store sha rt) run binding policy = bindE (claim_run (tr_run_id run) (ce_worker_id env)) (\<lambda>tok.
      bindE (?work tok) (\<lambda>result. thenE (finallyE (write_result sha rt (tr_run_id run) result tok) (ce_on_run_terminal env run result)) (retE result)))"
    by (simp add: capability_run_body_def Let_def bindE_assoc)
  show ?thesis
    unfolding eq by (rule claimed_work_settles [where work = ?work and hook = "ce_on_run_terminal env run", OF assms(1-4) _ hook]) (rule work)
qed

text \<open>A handler that crashes.\<close>

definition sample_capability_env :: "'w capability_env" where
  "sample_capability_env =
     \<lparr>ce_resolver = [], ce_worker_id = ''capability-executor'', ce_repr = (\<lambda>_. []), ce_workspace_dir = (\<lambda>_. []), ce_mkdir = (\<lambda>_. retE ()),
      ce_resolve_object_ref = (\<lambda>_ _. retE None), ce_on_run_terminal = (\<lambda>_ _. retE ())\<rparr>"

definition crashing_binding :: "'w capability_binding" where
  "crashing_binding =
     \<lparr>bd_descriptor = \<lparr>cd_capability_id = ''a:b'', cd_parameter_schema = JObj [], cd_required_sandbox = [], cd_workspace_access = ''none'',
        cd_effect = ''read'', cd_description = [], cd_when_to_use = [], cd_visibility = ''public''\<rparr>,
      bd_handler = (\<lambda>_. raiseE (Exn RuntimeError ''boom''))\<rparr>"

lemma storable_simple:
  assumes "''..'' \<notin> set rt" and "simple_id (tr_batch_id r)" "simple_id (tr_run_id r)" and "0 \<le> tr_attempt r" and "\<And>b. list_all lower_hex (sha b)"
  shows "storable sha rt r"
  unfolding storable_def using output_location_simple [OF assms(1-4), of sha] assms(5) by blast

lemma sample_storable: "storable (\<lambda>_. ''d'') [''/'', ''results''] (sample_run ''r'' QUEUED)"
  by (rule storable_simple) (simp_all add: sample_run_def simple_id_def lower_hex_def)

theorem capability_run_settles_witness:
  "\<exists>(result :: task_result) c w'. capability_run_body sample_capability_env (file_run_store (\<lambda>_. ''d'') [''/'', ''results'']) (sample_run ''r'' QUEUED)
       (Some crashing_binding) None (sample_store [sample_run ''r'' QUEUED]) = (c, w')
     \<and> recorded (\<lambda>_. ''d'') [''/'', ''results''] ''r'' (''b'', ''r'') result w' \<and> (\<forall>x. c = Inr x \<longrightarrow> x = result)"
proof -
  let ?r = "sample_run ''r'' QUEUED" and ?w = "sample_store [sample_run ''r'' QUEUED]"
  have rid: "tr_run_id ?r = ''r''" by (simp add: sample_run_def)
  have w: "dict_ok (fs_runs ?w)" "find_run (tr_run_id ?r) ?w = Some ((''b'', ''r''), ?r)" "tr_status ?r = QUEUED"
    by (simp_all add: sample_store_def dict_ok_def find_run_def run_key_of_def sample_run_def)
  have sv: "capability_services sample_capability_env (Some crashing_binding) None P" for P :: "fs_world \<Rightarrow> bool"
    by (auto simp: capability_services_def sample_capability_env_def crashing_binding_def is_Exception_def intro: dutiful_basic)
  have hook: "preserves (recorded (\<lambda>_. ''d'') [''/'', ''results''] ''r'' (''b'', ''r'') result) (ce_on_run_terminal sample_capability_env ?r result)" for result
    by (simp add: sample_capability_env_def)
  show ?thesis using capability_run_settles [OF w sample_storable sv, unfolded rid, OF hook] by auto
qed

end
