(* ===== verification/Agent_Loop.thy ===== *)
theory Agent_Loop
  imports Domain_Models
begin

section \<open>The bounded loop of a sub-agent\<close>

text \<open>
  \<^verbatim>\<open>sub_agent/loop/contracts.py\<close> and \<^verbatim>\<open>events.py\<close> (the inputs, the extension ports and the events of a loop) and
  \<^verbatim>\<open>native.py\<close>, the engine of this repository. The engine is an asynchronous generator; its consumer runs at each
  \<^verbatim>\<open>yield\<close>, so a yield is the call of the parameter \<open>emit\<close>, and an exception of the consumer ends the loop.
  The language model, the context controller, the completion policy and the tools are operations of other
  components: a streamed model turn is a finite list of items, each produced by an operation.
\<close>

subsection \<open>Contracts\<close>

record agent_content =
  ac_type :: string
  ac_text :: string
  ac_uri :: string
  ac_mime_type :: string
  ac_metadata :: jobj

record agent_message =
  am_role :: string
  am_contents :: "agent_content list"
  am_name :: string
  am_call_id :: string

record agent_task =
  at_title :: string
  at_instructions :: string
  at_arguments :: jobj

record agent_context_block =
  cb_source :: string
  cb_content :: string
  cb_title :: string
  cb_contents :: "agent_content list"
  cb_metadata :: jobj

record agent_tool_descriptor =
  td_tool_id :: string
  td_description :: string
  td_parameter_schema :: json

record agent_loop_limits =
  ll_max_model_turns :: int
  ll_max_tool_calls :: "int option"
  ll_allow_parallel_tool_calls :: bool
  ll_stall_limit :: int

record agent_loop_request =
  lq_engine_run_id :: string
  lq_task :: agent_task
  lq_system_prompt :: string
  lq_tools :: "agent_tool_descriptor list"
  lq_limits :: agent_loop_limits
  lq_context :: "agent_context_block list"
  lq_initial_messages :: "agent_message list"
  lq_provider_tools :: "jobj list"

record token_usage =
  tu_input :: int
  tu_output :: int
  tu_total :: int
  tu_cached_input :: int
  tu_reasoning :: int

definition no_usage :: token_usage where
  "no_usage = \<lparr>tu_input = 0, tu_output = 0, tu_total = 0, tu_cached_input = 0, tu_reasoning = 0\<rparr>"

definition usage_add :: "token_usage \<Rightarrow> token_usage \<Rightarrow> token_usage" where
  "usage_add a b = \<lparr>tu_input = tu_input a + tu_input b, tu_output = tu_output a + tu_output b, tu_total = tu_total a + tu_total b,
     tu_cached_input = tu_cached_input a + tu_cached_input b, tu_reasoning = tu_reasoning a + tu_reasoning b\<rparr>"

record capability_call =
  cl_capability :: string
  cl_args :: jobj
  cl_call_id :: string

record final_answer =
  fa_summary :: string
  fa_output :: string

record invalid_action =
  ia_reason :: string
  ia_capability :: string

datatype agent_action = Capability_Call capability_call | Final_Answer final_answer | Invalid_Action invalid_action

record observation =
  obs_capability :: string
  obs_ok :: bool
  obs_content :: string
  obs_call_id :: string
  obs_arguments :: "jobj option"
  obs_run_id :: string
  obs_status :: string
  obs_summary :: string
  obs_error_class :: string
  obs_error_message :: string
  obs_artifacts :: "string list"
  obs_contents :: "agent_content list"
  obs_usage :: token_usage

record prepared_model_context =
  pm_blocks :: "agent_context_block list"
  pm_history :: "observation list option"

record agent_loop_snapshot =
  sn_request :: agent_loop_request
  sn_turn :: int
  sn_history :: "observation list"
  sn_usage :: token_usage
  sn_tool_call_count :: int
  sn_toolset_revision :: int

record agent_model_state =
  mo_task :: agent_task
  mo_tools :: "agent_tool_descriptor list"
  mo_turn :: int
  mo_max_model_turns :: int
  mo_system_prompt :: string
  mo_context :: "agent_context_block list"
  mo_history :: "observation list"
  mo_initial_messages :: "agent_message list"
  mo_toolset_revision :: int
  mo_provider_tools :: "jobj list"

record agent_model_turn =
  mt_action :: agent_action
  mt_usage :: token_usage
  mt_model :: string
  mt_latency_ms :: int

datatype agent_model_item = Output_Delta agent_content | Model_Turn agent_model_turn

record 'w bound_agent_tool =
  bt_descriptor :: agent_tool_descriptor
  bt_invoke :: "capability_call \<Rightarrow> agent_loop_snapshot \<Rightarrow> ('w, observation) io"

record 'w agent_toolset =
  tz_revision :: int
  tz_tools :: "'w bound_agent_tool list"

record completion_directive =
  dv_outcome :: string
  dv_reason :: string

record 'w agent_loop_runtime =
  lr_before_model :: "agent_loop_snapshot \<Rightarrow> ('w, prepared_model_context) io"
  lr_evaluate_completion :: "final_answer \<Rightarrow> agent_loop_snapshot \<Rightarrow> ('w, completion_directive) io"
  lr_tool_controller :: "('w, 'w agent_toolset) io option"

definition current_toolset :: "'w agent_loop_runtime \<Rightarrow> 'w bound_agent_tool list \<Rightarrow> ('w, 'w agent_toolset) io" where
  "current_toolset runtime fallback =
     (case lr_tool_controller runtime of
        None \<Rightarrow> retE \<lparr>tz_revision = 0, tz_tools = fallback\<rparr>
      | Some controller \<Rightarrow> controller)"

subsection \<open>Events\<close>

record loop_finished =
  lf_outcome :: string
  lf_summary :: string
  lf_usage :: token_usage
  lf_output :: string
  lf_error_kind :: string
  lf_model_turns :: int
  lf_tool_calls :: int

datatype agent_loop_event =
    Model_Turn_Started int
  | Model_Turn_Completed int token_usage string int
  | Model_Output_Delta int agent_content
  | Tool_Call_Requested int capability_call
  | Tool_Call_Completed int capability_call observation int
  | Completion_Proposed int final_answer completion_directive
  | Context_Prepared int nat
  | Loop_Finished loop_finished

subsection \<open>The engine\<close>

text \<open>
  The stream of the model, the performance counter in seconds, the digest of a call identifier, the rendering of
  arguments as JSON and the \<^verbatim>\<open>repr\<close> of a string are parameters.
\<close>

record 'w native_engine =
  ne_stream :: "agent_model_state \<Rightarrow> ('w, agent_model_item) io list"
  ne_perf_counter :: "('w, rat) io"
  ne_digest :: "string \<Rightarrow> string"
  ne_render :: "jobj \<Rightarrow> string"
  ne_repr :: "string \<Rightarrow> string"

definition elapsed_ms :: "rat \<Rightarrow> rat \<Rightarrow> int" where
  "elapsed_ms started now = (let q = (now - started) * 1000 in if q < 0 then - \<lfloor>- q\<rfloor> else \<lfloor>q\<rfloor>)"

record stall_detector =
  sd_limit :: int
  sd_signature :: string
  sd_count :: int

definition stall_record :: "string \<Rightarrow> stall_detector \<Rightarrow> bool \<times> stall_detector" where
  "stall_record signature sd =
     (let sd = (if signature \<noteq> sd_signature sd then sd\<lparr>sd_signature := signature, sd_count := 1\<rparr> else sd\<lparr>sd_count := sd_count sd + 1\<rparr>)
      in (sd_limit sd \<le> sd_count sd, sd))"

definition call_id_of :: "int \<Rightarrow> int \<Rightarrow> string" where
  "call_id_of turn call_index = ''turn-'' @ str_of_int turn @ ''-call-'' @ str_of_int call_index"

definition safe_call_id :: "string \<Rightarrow> bool" where
  "safe_call_id s \<longleftrightarrow> s \<noteq> [] \<and> ascii_alnum (hd s) \<and> list_all (\<lambda>c. ascii_alnum c \<or> c \<in> set ''._-'') (tl s) \<and> length (tl s) \<le> 63"

definition normalized_call_id :: "(string \<Rightarrow> string) \<Rightarrow> string \<Rightarrow> int \<Rightarrow> int \<Rightarrow> string" where
  "normalized_call_id digest v turn call_index =
     (let raw = py_strip v in
      if raw = [] then call_id_of turn call_index
      else if safe_call_id raw then raw
      else ''provider-call-'' @ take 20 (digest raw))"

definition normalized_capability_id :: "string \<Rightarrow> string option" where
  "normalized_capability_id v =
     (case normalize_capability_id v of Inr c \<Rightarrow> Some c | Inl _ \<Rightarrow> None)"

definition call_signature :: "(jobj \<Rightarrow> string) \<Rightarrow> string \<Rightarrow> jobj \<Rightarrow> string \<Rightarrow> string" where
  "call_signature render capability args reason = capability @ ''|'' @ render args @ ''|'' @ reason"

definition loop_failed_observation :: "string \<Rightarrow> string \<Rightarrow> string \<Rightarrow> string \<Rightarrow> observation" where
  "loop_failed_observation capability call_id message ec =
     \<lparr>obs_capability = capability, obs_ok = False, obs_content = message, obs_call_id = call_id, obs_arguments = None, obs_run_id = [],
      obs_status = ''failed'', obs_summary = message, obs_error_class = ec, obs_error_message = message, obs_artifacts = [],
      obs_contents = [], obs_usage = no_usage\<rparr>"

text \<open>The variables of \<^verbatim>\<open>run\<close>.\<close>

record loop_vars =
  lv_history :: "observation list"
  lv_usage :: token_usage
  lv_tool_calls :: int
  lv_used_call_ids :: "string list"
  lv_stall :: stall_detector

definition failed_event :: "string \<Rightarrow> string \<Rightarrow> int \<Rightarrow> loop_vars \<Rightarrow> agent_loop_event" where
  "failed_event summary error_kind turns v =
     Loop_Finished \<lparr>lf_outcome = ''failed'', lf_summary = summary, lf_usage = lv_usage v, lf_output = [], lf_error_kind = error_kind,
       lf_model_turns = turns, lf_tool_calls = lv_tool_calls v\<rparr>"

definition stalled :: "int \<Rightarrow> loop_vars \<Rightarrow> agent_loop_event" where
  "stalled turn v =
     failed_event (''Agent repeated the same failing action '' @ str_of_int (sd_limit (lv_stall v)) @ '' times without progress; stopping early.'')
       ''transient'' turn v"

text \<open>A turn that does not end the loop yields the variables for the next one, a turn that ends it yields \<open>None\<close>.\<close>

definition stop_loop :: "(agent_loop_event \<Rightarrow> ('w, unit) io) \<Rightarrow> agent_loop_event \<Rightarrow> ('w, loop_vars option) io" where
  "stop_loop emit event = thenE (emit event) (retE None)"

definition check_stall ::
    "(agent_loop_event \<Rightarrow> ('w, unit) io) \<Rightarrow> int \<Rightarrow> string \<Rightarrow> loop_vars \<Rightarrow> ('w, loop_vars option) io" where
  "check_stall emit turn signature v =
     (case stall_record signature (lv_stall v) of (hit, sd) \<Rightarrow>
        let v = v\<lparr>lv_stall := sd\<rparr> in if hit then stop_loop emit (stalled turn v) else retE (Some v))"

fun stream_items ::
    "(agent_loop_event \<Rightarrow> ('w, unit) io) \<Rightarrow> int \<Rightarrow> ('w, agent_model_item) io list \<Rightarrow> agent_model_turn option \<Rightarrow> ('w, agent_model_turn) io" where
  "stream_items emit turn [] model_turn =
     (case model_turn of
        None \<Rightarrow> raiseE (Exn RuntimeError ''agent model stream ended without a terminal turn'')
      | Some m \<Rightarrow> retE m)"
| "stream_items emit turn (next_item # items) model_turn =
     bindE next_item (\<lambda>item.
       case item of
         Output_Delta content \<Rightarrow> thenE (emit (Model_Output_Delta turn content)) (stream_items emit turn items model_turn)
       | Model_Turn m \<Rightarrow>
           (case model_turn of
              None \<Rightarrow> stream_items emit turn items (Some m)
            | Some _ \<Rightarrow> raiseE (Exn RuntimeError ''agent model stream emitted more than one terminal turn'')))"

definition loop_snapshot :: "agent_loop_request \<Rightarrow> int \<Rightarrow> loop_vars \<Rightarrow> int \<Rightarrow> agent_loop_snapshot" where
  "loop_snapshot request turn v revision =
     \<lparr>sn_request = request, sn_turn = turn, sn_history = lv_history v, sn_usage = lv_usage v, sn_tool_call_count = lv_tool_calls v,
      sn_toolset_revision = revision\<rparr>"

definition model_state_for ::
    "agent_loop_request \<Rightarrow> int \<Rightarrow> loop_vars \<Rightarrow> 'w agent_toolset \<Rightarrow> prepared_model_context \<Rightarrow> agent_model_state" where
  "model_state_for request turn v toolset prepared =
     \<lparr>mo_task = lq_task request, mo_tools = map bt_descriptor (tz_tools toolset), mo_turn = turn,
      mo_max_model_turns = ll_max_model_turns (lq_limits request), mo_system_prompt = lq_system_prompt request,
      mo_context = pm_blocks prepared, mo_history = (case pm_history prepared of Some h \<Rightarrow> h | None \<Rightarrow> lv_history v),
      mo_initial_messages = lq_initial_messages request, mo_toolset_revision = tz_revision toolset,
      mo_provider_tools = lq_provider_tools request\<rparr>"

definition finish_answer ::
    "'w native_engine \<Rightarrow> agent_loop_request \<Rightarrow> 'w agent_loop_runtime \<Rightarrow> (agent_loop_event \<Rightarrow> ('w, unit) io) \<Rightarrow> int \<Rightarrow> int \<Rightarrow>
     final_answer \<Rightarrow> loop_vars \<Rightarrow> ('w, loop_vars option) io" where
  "finish_answer engine request runtime emit turn revision action v =
     bindE (lr_evaluate_completion runtime action (loop_snapshot request turn v revision)) (\<lambda>directive.
     thenE (emit (Completion_Proposed turn action directive))
       (if dv_outcome directive = ''accept''
        then stop_loop emit (Loop_Finished \<lparr>lf_outcome = ''completed'', lf_summary = fa_summary action, lf_usage = lv_usage v,
               lf_output = fa_output action, lf_error_kind = [], lf_model_turns = turn, lf_tool_calls = lv_tool_calls v\<rparr>)
        else let reason = str_or (dv_reason directive) ''The completion policy did not accept the proposed final answer.'' in
             if dv_outcome directive = ''reject'' then stop_loop emit (failed_event reason ''policy_denied'' turn v)
             else check_stall emit turn (call_signature (ne_render engine) ''final_answer'' [] reason)
                    (v\<lparr>lv_history := lv_history v @ [loop_failed_observation [] (call_id_of turn 1) reason ''policy_deny'']\<rparr>)))"

definition undecodable ::
    "'w native_engine \<Rightarrow> (agent_loop_event \<Rightarrow> ('w, unit) io) \<Rightarrow> int \<Rightarrow> invalid_action \<Rightarrow> loop_vars \<Rightarrow> ('w, loop_vars option) io" where
  "undecodable engine emit turn action v =
     (let message = ''Could not decode the requested action: '' @ ia_reason action in
      check_stall emit turn (call_signature (ne_render engine) (ia_capability action) [] (ia_reason action))
        (v\<lparr>lv_history := lv_history v @ [loop_failed_observation (ia_capability action) (call_id_of turn 1) message ''internal'']\<rparr>))"

text \<open>\<^verbatim>\<open>{tool.descriptor.tool_id: tool ...}.get(capability)\<close>: of two tools with one identifier the last is bound.\<close>

definition bound_tool :: "'w agent_toolset \<Rightarrow> string \<Rightarrow> 'w bound_agent_tool option" where
  "bound_tool toolset capability = find (\<lambda>tool. td_tool_id (bt_descriptor tool) = capability) (rev (tz_tools toolset))"

definition invoke_tool ::
    "'w native_engine \<Rightarrow> agent_loop_request \<Rightarrow> (agent_loop_event \<Rightarrow> ('w, unit) io) \<Rightarrow> int \<Rightarrow> int \<Rightarrow> 'w bound_agent_tool \<Rightarrow>
     capability_call \<Rightarrow> loop_vars \<Rightarrow> ('w, loop_vars option) io" where
  "invoke_tool engine request emit turn revision tool call v =
     thenE (emit (Tool_Call_Requested turn call))
    (bindE (ne_perf_counter engine) (\<lambda>tool_started.
     bindE (bt_invoke tool call (loop_snapshot request turn v revision)) (\<lambda>observed.
     let observation = observed\<lparr>obs_arguments := Some (cl_args call)\<rparr> in
     bindE (ne_perf_counter engine) (\<lambda>now.
     let v = v\<lparr>lv_tool_calls := lv_tool_calls v + 1, lv_usage := usage_add (lv_usage v) (obs_usage observation),
               lv_history := lv_history v @ [observation]\<rparr> in
     thenE (emit (Tool_Call_Completed turn call observation (elapsed_ms tool_started now)))
       (check_stall emit turn (call_signature (ne_render engine) (cl_capability call) (cl_args call) []) v)))))"

definition call_tool ::
    "'w native_engine \<Rightarrow> agent_loop_request \<Rightarrow> 'w bound_agent_tool list \<Rightarrow> 'w agent_loop_runtime \<Rightarrow>
     (agent_loop_event \<Rightarrow> ('w, unit) io) \<Rightarrow> int \<Rightarrow> capability_call \<Rightarrow> loop_vars \<Rightarrow> ('w, loop_vars option) io" where
  "call_tool engine request tools runtime emit turn action v =
     (case normalized_capability_id (cl_capability action) of
        None \<Rightarrow> stop_loop emit (failed_event (''Agent requested disallowed capability '' @ ne_repr engine (cl_capability action) @ ''.'')
                 ''policy_denied'' turn v)
      | Some capability \<Rightarrow>
          let call = action\<lparr>cl_capability := capability, cl_call_id := normalized_call_id (ne_digest engine) (cl_call_id action) turn 1\<rparr> in
          if cl_call_id call \<in> set (lv_used_call_ids v)
          then stop_loop emit (failed_event (''Agent emitted duplicate capability call id '' @ ne_repr engine (cl_call_id call) @ ''.'')
                 ''internal'' turn v)
          else let v = v\<lparr>lv_used_call_ids := cl_call_id call # lv_used_call_ids v\<rparr> in
            bindE (current_toolset runtime tools) (\<lambda>invocation_toolset.
              case bound_tool invocation_toolset (cl_capability call) of
                None \<Rightarrow> stop_loop emit (failed_event (''Agent requested disallowed capability '' @ ne_repr engine (cl_capability call) @ ''.'')
                         ''policy_denied'' turn v)
              | Some tool \<Rightarrow>
                  if (case ll_max_tool_calls (lq_limits request) of Some n \<Rightarrow> n \<le> lv_tool_calls v | None \<Rightarrow> False)
                  then stop_loop emit (failed_event (''Agent reached its capability-call budget ('' @
                         str_of_int (the (ll_max_tool_calls (lq_limits request))) @ '').'') ''transient'' turn v)
                  else invoke_tool engine request emit turn (tz_revision invocation_toolset) tool call v))"

definition native_turn ::
    "'w native_engine \<Rightarrow> agent_loop_request \<Rightarrow> 'w bound_agent_tool list \<Rightarrow> 'w agent_loop_runtime \<Rightarrow>
     (agent_loop_event \<Rightarrow> ('w, unit) io) \<Rightarrow> int \<Rightarrow> loop_vars \<Rightarrow> ('w, loop_vars option) io" where
  "native_turn engine request tools runtime emit turn v =
     bindE (current_toolset runtime tools) (\<lambda>toolset.
     bindE (lr_before_model runtime (loop_snapshot request turn v (tz_revision toolset))) (\<lambda>prepared.
     thenE (emit (Context_Prepared turn (length (pm_blocks prepared))))
    (thenE (emit (Model_Turn_Started turn))
    (bindE (ne_perf_counter engine) (\<lambda>started.
     bindE (stream_items emit turn (ne_stream engine (model_state_for request turn v toolset prepared)) None) (\<lambda>model_turn.
     bindE (if mt_latency_ms model_turn \<noteq> 0 then retE (mt_latency_ms model_turn)
            else bindE (ne_perf_counter engine) (\<lambda>now. retE (elapsed_ms started now))) (\<lambda>latency_ms.
     let v = v\<lparr>lv_usage := usage_add (lv_usage v) (mt_usage model_turn)\<rparr> in
     thenE (emit (Model_Turn_Completed turn (mt_usage model_turn) (mt_model model_turn) latency_ms))
       (case mt_action model_turn of
          Final_Answer action \<Rightarrow> finish_answer engine request runtime emit turn (tz_revision toolset) action v
        | Invalid_Action action \<Rightarrow> undecodable engine emit turn action v
        | Capability_Call action \<Rightarrow> call_tool engine request tools runtime emit turn action v))))))))"

fun native_turns ::
    "'w native_engine \<Rightarrow> agent_loop_request \<Rightarrow> 'w bound_agent_tool list \<Rightarrow> 'w agent_loop_runtime \<Rightarrow>
     (agent_loop_event \<Rightarrow> ('w, unit) io) \<Rightarrow> int list \<Rightarrow> loop_vars \<Rightarrow> ('w, unit) io" where
  "native_turns engine request tools runtime emit [] v =
     emit (failed_event (''Agent reached its model-turn budget ('' @ str_of_int (ll_max_model_turns (lq_limits request)) @
       '') without a final answer.'') ''transient'' (ll_max_model_turns (lq_limits request)) v)"
| "native_turns engine request tools runtime emit (turn # turns) v =
     bindE (native_turn engine request tools runtime emit turn v) (\<lambda>outcome.
       case outcome of None \<Rightarrow> retE () | Some v \<Rightarrow> native_turns engine request tools runtime emit turns v)"

definition initial_vars :: "agent_loop_request \<Rightarrow> loop_vars" where
  "initial_vars request =
     \<lparr>lv_history = [], lv_usage = no_usage, lv_tool_calls = 0, lv_used_call_ids = [],
      lv_stall = \<lparr>sd_limit = max 1 (ll_stall_limit (lq_limits request)), sd_signature = [], sd_count = 0\<rparr>\<rparr>"

definition native_run ::
    "'w native_engine \<Rightarrow> agent_loop_request \<Rightarrow> 'w bound_agent_tool list \<Rightarrow> 'w agent_loop_runtime \<Rightarrow>
     (agent_loop_event \<Rightarrow> ('w, unit) io) \<Rightarrow> ('w, unit) io" where
  "native_run engine request tools runtime emit =
     native_turns engine request tools runtime emit [1..ll_max_model_turns (lq_limits request)] (initial_vars request)"

subsection \<open>What the events tell\<close>

fun starts :: "agent_loop_event list \<Rightarrow> int list" where
  "starts [] = []"
| "starts (Model_Turn_Started t # es) = t # starts es"
| "starts (_ # es) = starts es"

fun requests :: "agent_loop_event list \<Rightarrow> capability_call list" where
  "requests [] = []"
| "requests (Tool_Call_Requested _ c # es) = c # requests es"
| "requests (_ # es) = requests es"

fun completions :: "agent_loop_event list \<Rightarrow> capability_call list" where
  "completions [] = []"
| "completions (Tool_Call_Completed _ c _ _ # es) = c # completions es"
| "completions (_ # es) = completions es"

fun finishes :: "agent_loop_event list \<Rightarrow> loop_finished list" where
  "finishes [] = []"
| "finishes (Loop_Finished f # es) = f # finishes es"
| "finishes (_ # es) = finishes es"

primrec event_usage :: "agent_loop_event \<Rightarrow> token_usage option" where
  "event_usage (Model_Turn_Started t) = None"
| "event_usage (Model_Turn_Completed t u m l) = Some u"
| "event_usage (Model_Output_Delta t c) = None"
| "event_usage (Tool_Call_Requested t c) = None"
| "event_usage (Tool_Call_Completed t c ob d) = Some (obs_usage ob)"
| "event_usage (Completion_Proposed t a d) = None"
| "event_usage (Context_Prepared t n) = None"
| "event_usage (Loop_Finished f) = None"

definition spent :: "agent_loop_event list \<Rightarrow> token_usage" where
  "spent es = foldl usage_add no_usage (List.map_filter event_usage es)"

lemma trace_append [simp]:
  "starts (es @ fs) = starts es @ starts fs" "requests (es @ fs) = requests es @ requests fs"
  "completions (es @ fs) = completions es @ completions fs" "finishes (es @ fs) = finishes es @ finishes fs"
proof -
  show "starts (es @ fs) = starts es @ starts fs" by (induction es rule: starts.induct) simp_all
  show "requests (es @ fs) = requests es @ requests fs" by (induction es rule: requests.induct) simp_all
  show "completions (es @ fs) = completions es @ completions fs" by (induction es rule: completions.induct) simp_all
  show "finishes (es @ fs) = finishes es @ finishes fs" by (induction es rule: finishes.induct) simp_all
qed

lemma spent_append [simp]: "spent (es @ [e]) = (case event_usage e of None \<Rightarrow> spent es | Some u \<Rightarrow> usage_add (spent es) u)"
  by (simp add: spent_def List.map_filter_def split: option.splits)

lemma spent_Nil [simp]: "spent [] = no_usage"
  by (simp add: spent_def List.map_filter_def)

text \<open>The consumer that records: the world is extended by the events so far.\<close>

definition log_event :: "agent_loop_event \<Rightarrow> (agent_loop_event list \<times> 'w, unit) io" where
  "log_event e = assign (\<lambda>es. es @ [e])"

text \<open>
  \<open>quiet I m\<close>: the operation emits nothing and keeps the invariant \<open>I\<close> of the rest of the world.
  \<open>traces I Q m R\<close>: from events with \<open>Q\<close> the outcome of \<open>m\<close> and the events it leaves are related by \<open>R\<close>, and \<open>I\<close> is kept.
\<close>

definition quiet :: "('w \<Rightarrow> bool) \<Rightarrow> (agent_loop_event list \<times> 'w, 'a) io \<Rightarrow> bool" where
  "quiet I m \<longleftrightarrow> (\<forall>s. I (snd s) \<longrightarrow> fst (snd (m s)) = fst s \<and> I (snd (snd (m s))))"

definition traces :: "('w \<Rightarrow> bool) \<Rightarrow> (agent_loop_event list \<Rightarrow> bool) \<Rightarrow> (agent_loop_event list \<times> 'w, 'a) io \<Rightarrow>
    ('a result \<Rightarrow> agent_loop_event list \<Rightarrow> bool) \<Rightarrow> bool" where
  "traces I Q m R \<longleftrightarrow> ends (\<lambda>s. Q (fst s) \<and> I (snd s)) m (\<lambda>r s. R r (fst s) \<and> I (snd s))"

definition loop_quiet ::
    "('w \<Rightarrow> bool) \<Rightarrow> (agent_loop_event list \<times> 'w) native_engine \<Rightarrow> (agent_loop_event list \<times> 'w) bound_agent_tool list \<Rightarrow>
     (agent_loop_event list \<times> 'w) agent_loop_runtime \<Rightarrow> string set \<Rightarrow> bool" where
  "loop_quiet I engine tools runtime A \<longleftrightarrow>
     (\<forall>st. \<forall>m \<in> set (ne_stream engine st). quiet I m) \<and> quiet I (ne_perf_counter engine)
     \<and> (\<forall>sn. quiet I (lr_before_model runtime sn)) \<and> (\<forall>a sn. quiet I (lr_evaluate_completion runtime a sn))
     \<and> quiet I (current_toolset runtime tools)
     \<and> (\<forall>s ts s'. I (snd s) \<longrightarrow> current_toolset runtime tools s = (Inr ts, s') \<longrightarrow>
          (\<forall>t \<in> set (tz_tools ts). td_tool_id (bt_descriptor t) \<in> A \<and> (\<forall>c sn. quiet I (bt_invoke t c sn))))"

lemma quietD: "quiet I m \<Longrightarrow> I (snd s) \<Longrightarrow> m s = (r, s') \<Longrightarrow> fst s' = fst s \<and> I (snd s')"
  unfolding quiet_def by (metis snd_conv)

lemma quiet_bind:
  assumes "quiet I m" and "\<And>a. quiet I (f a)"
  shows "quiet I (bindE m f)"
  unfolding quiet_def
proof (intro allI impI)
  fix s :: "agent_loop_event list \<times> 'a" assume s: "I (snd s)"
  obtain r u where m: "m s = (r, u)" by (cases "m s")
  note u = quietD [OF assms(1) s m]
  show "fst (snd (bindE m f s)) = fst s \<and> I (snd (snd (bindE m f s)))"
  proof (cases r)
    case (Inr a)
    with m u assms(2) [unfolded quiet_def, rule_format, of u a] show ?thesis by simp
  qed (use m u in simp)
qed

lemma quiet_retE: "quiet I (retE a)"
  by (simp add: quiet_def)

lemma traces_quiet:
  assumes "quiet I m" and "\<And>s a s'. I (snd s) \<Longrightarrow> m s = (Inr a, s') \<Longrightarrow> traces I Q (f a) R" and "\<And>e es. Q es \<Longrightarrow> R (Inl e) es"
  shows "traces I Q (bindE m f) R"
  unfolding traces_def ends_def
proof (intro allI impI)
  fix s r s' assume s: "Q (fst s) \<and> I (snd s)" and b: "bindE m f s = (r, s')"
  obtain x u where m: "m s = (x, u)" by (cases "m s")
  have u: "fst u = fst s" "I (snd u)" using quietD [OF assms(1) _ m] s by blast+
  show "R r (fst s') \<and> I (snd s')"
  proof (cases x)
    case (Inl e)
    with m b have "r = Inl e" "s' = u" by simp_all
    with u s assms(3) show ?thesis by simp
  next
    case (Inr a)
    with m b have "f a u = (r, s')" by simp
    moreover have "traces I Q (f a) R" using assms(2) [of s a u] m Inr s by blast
    ultimately show ?thesis using u s unfolding traces_def ends_def by metis
  qed
qed

lemma log_event_apply: "log_event e s = (Inr (), (fst s @ [e], snd s))"
  by (simp add: log_event_def assign_def case_prod_beta)

lemma traces_log:
  assumes "\<And>es. Q es \<Longrightarrow> Q' (es @ [e])" and "traces I Q' k R"
  shows "traces I Q (thenE (log_event e) k) R"
  unfolding traces_def ends_def
proof (intro allI impI)
  fix s r s' assume s: "Q (fst s) \<and> I (snd s)" and k: "thenE (log_event e) k s = (r, s')"
  have "thenE (log_event e) k s = k (fst s @ [e], snd s)" by (rule thenE_eq(1)) (rule log_event_apply)
  with k have "k (fst s @ [e], snd s) = (r, s')" by simp
  moreover have "Q' (fst (fst s @ [e], snd s)) \<and> I (snd (fst s @ [e], snd s))" using s assms(1) by simp
  ultimately show "R r (fst s') \<and> I (snd s')" using assms(2) unfolding traces_def ends_def by blast
qed

lemma traces_log_only:
  assumes "\<And>es. Q es \<Longrightarrow> R (Inr ()) (es @ [e])"
  shows "traces I Q (log_event e) R"
  using assms unfolding traces_def ends_def log_event_apply by auto

lemma traces_retE: "(\<And>es. Q es \<Longrightarrow> R (Inr a) es) \<Longrightarrow> traces I Q (retE a) R"
  unfolding traces_def by (rule ends_retE) simp

lemma traces_raiseE: "(\<And>es. Q es \<Longrightarrow> R (Inl e) es) \<Longrightarrow> traces I Q (raiseE e) R"
  unfolding traces_def by (rule ends_raiseE) simp

lemma traces_bind:
  assumes "traces I Q m M" and "\<And>a. traces I (M (Inr a)) (f a) R" and "\<And>e es. M (Inl e) es \<Longrightarrow> R (Inl e) es"
  shows "traces I Q (bindE m f) R"
  unfolding traces_def by (rule ends_bind [OF assms(1) [unfolded traces_def]]) (use assms(2,3) in \<open>auto simp: traces_def\<close>)

lemma traces_split:
  "(c \<Longrightarrow> traces I Q m R) \<Longrightarrow> (\<not> c \<Longrightarrow> traces I Q n R) \<Longrightarrow> traces I Q (if c then m else n) R"
  "(x = None \<Longrightarrow> traces I Q m R) \<Longrightarrow> (\<And>a. x = Some a \<Longrightarrow> traces I Q (f a) R) \<Longrightarrow> traces I Q (case x of None \<Rightarrow> m | Some a \<Rightarrow> f a) R"
  by (simp, cases x) simp_all

lemma traces_conseq: "traces I Q m R \<Longrightarrow> (\<And>es. Q' es \<Longrightarrow> Q es) \<Longrightarrow> (\<And>r es. R r es \<Longrightarrow> R' r es) \<Longrightarrow> traces I Q' m R'"
  unfolding traces_def by (erule ends_conseq) auto

subsection \<open>The accounts of a loop\<close>

text \<open>
  \<open>core\<close> holds of the events at any time: turns are numbered from one, within the budget; the calls that were
  requested have different identifiers, are within the budget of calls and name offered tools.
  \<open>accounts\<close> ties the variables of the loop to the events between two calls.
\<close>

definition core :: "agent_loop_limits \<Rightarrow> string set \<Rightarrow> int \<Rightarrow> agent_loop_event list \<Rightarrow> bool" where
  "core limits A m es \<longleftrightarrow> finishes es = [] \<and> starts es = [1..m] \<and> m \<le> max 0 (ll_max_model_turns limits)
     \<and> distinct (map cl_call_id (requests es)) \<and> (\<forall>n. ll_max_tool_calls limits = Some n \<longrightarrow> int (length (requests es)) \<le> max 0 n)
     \<and> cl_capability ` set (requests es) \<subseteq> A"

definition accounts :: "agent_loop_limits \<Rightarrow> string set \<Rightarrow> int \<Rightarrow> loop_vars \<Rightarrow> agent_loop_event list \<Rightarrow> bool" where
  "accounts limits A m v es \<longleftrightarrow> core limits A m es \<and> completions es = requests es \<and> lv_tool_calls v = int (length (requests es))
     \<and> lv_usage v = spent es \<and> cl_call_id ` set (requests es) \<subseteq> set (lv_used_call_ids v)"

definition reported :: "agent_loop_limits \<Rightarrow> string set \<Rightarrow> agent_loop_event list \<Rightarrow> bool" where
  "reported limits A es \<longleftrightarrow> (\<exists>es0 f m. es = es0 @ [Loop_Finished f] \<and> core limits A m es0 \<and> completions es0 = requests es0
     \<and> [1..lf_model_turns f] = [1..m] \<and> lf_tool_calls f = int (length (requests es0)) \<and> lf_usage f = spent es0)"

definition turn_outcome :: "agent_loop_limits \<Rightarrow> string set \<Rightarrow> int \<Rightarrow> loop_vars option result \<Rightarrow> agent_loop_event list \<Rightarrow> bool" where
  "turn_outcome limits A m r es \<longleftrightarrow>
     (case r of
        Inl _ \<Rightarrow> (\<exists>k. core limits A k es)
      | Inr None \<Rightarrow> reported limits A es
      | Inr (Some v) \<Rightarrow> accounts limits A m v es)"

lemma turn_outcome_simps [simp]:
  "turn_outcome limits A m (Inl e) es = (\<exists>k. core limits A k es)"
  "turn_outcome limits A m (Inr None) es = reported limits A es"
  "turn_outcome limits A m (Inr (Some v)) es = accounts limits A m v es"
  by (simp_all add: turn_outcome_def)

lemma accounts_core: "accounts limits A m v es \<Longrightarrow> core limits A m es"
  by (simp add: accounts_def)

lemma traces_failed:
  "traces I (accounts limits A m v) (stop_loop log_event (failed_event summary kind m v)) (turn_outcome limits A m)"
  unfolding stop_loop_def
proof (rule traces_log [where Q' = "reported limits A"])
  show "reported limits A (es @ [failed_event summary kind m v])" if "accounts limits A m v es" for es
    using that unfolding reported_def accounts_def failed_event_def by auto
  show "traces I (reported limits A) (retE None) (turn_outcome limits A m)" by (rule traces_retE) simp
qed

lemma traces_stall:
  "traces I (accounts limits A m v) (check_stall log_event m signature v) (turn_outcome limits A m)"
proof -
  have same: "accounts limits A m (v\<lparr>lv_stall := sd\<rparr>) es = accounts limits A m v es" for sd es by (simp add: accounts_def)
  have stop: "traces I (accounts limits A m v) (stop_loop log_event (stalled m (v\<lparr>lv_stall := sd\<rparr>))) (turn_outcome limits A m)" for sd
    unfolding stalled_def by (rule traces_failed [of I limits A m "v\<lparr>lv_stall := sd\<rparr>", unfolded same])
  have go: "traces I (accounts limits A m v) (retE (Some (v\<lparr>lv_stall := sd\<rparr>))) (turn_outcome limits A m)" for sd
    by (rule traces_retE) (simp add: same)
  show ?thesis
    unfolding check_stall_def Let_def by (cases "stall_record signature (lv_stall v)") (simp only: prod.case, intro traces_split stop go)
qed

lemma traces_noted:
  "traces I (accounts limits A m v) (check_stall log_event m signature (v\<lparr>lv_history := h\<rparr>)) (turn_outcome limits A m)"
  by (rule traces_conseq [OF traces_stall]) (simp_all add: accounts_def)

lemma traces_answer:
  assumes "\<And>a sn. quiet I (lr_evaluate_completion runtime a sn)"
  shows "traces I (accounts limits A m v) (finish_answer engine request runtime log_event m revision action v) (turn_outcome limits A m)"
proof -
  have acc: "traces I (accounts limits A m v) (stop_loop log_event (Loop_Finished \<lparr>lf_outcome = ''completed'', lf_summary = fa_summary action,
      lf_usage = lv_usage v, lf_output = fa_output action, lf_error_kind = [], lf_model_turns = m, lf_tool_calls = lv_tool_calls v\<rparr>))
      (turn_outcome limits A m)"
    unfolding stop_loop_def
  proof (rule traces_log [where Q' = "reported limits A"])
    show "traces I (reported limits A) (retE None) (turn_outcome limits A m)" by (rule traces_retE) simp
  qed (auto simp: reported_def accounts_def)
  have same: "accounts limits A m v (es @ [Completion_Proposed m action d]) = accounts limits A m v es" for es d
    by (simp add: accounts_def core_def)
  show ?thesis
    unfolding finish_answer_def Let_def
    by (rule traces_quiet [OF assms], rule traces_log [where Q' = "accounts limits A m v"], simp only: same,
        intro traces_split acc traces_failed traces_noted, auto dest: accounts_core)
qed

lemma traces_invoke:
  assumes "quiet I (ne_perf_counter engine)" and "\<And>c sn. quiet I (bt_invoke tool c sn)" and "cl_capability call \<in> A"
    and "\<And>n. ll_max_tool_calls limits = Some n \<Longrightarrow> lv_tool_calls v < n"
    and "cl_call_id call \<in> set (lv_used_call_ids v)"
  shows "traces I (\<lambda>es. accounts limits A m v es \<and> cl_call_id call \<notin> cl_call_id ` set (requests es))
    (invoke_tool engine request log_event m revision tool call v) (turn_outcome limits A m)"
proof -
  let ?Q = "\<lambda>es. \<exists>es0. es = es0 @ [Tool_Call_Requested m call] \<and> accounts limits A m v es0 \<and> cl_call_id call \<notin> cl_call_id ` set (requests es0)"
  have core: "core limits A m es" if "?Q es" for es
  proof -
    from that obtain es0 where es: "es = es0 @ [Tool_Call_Requested m call]" and a: "accounts limits A m v es0"
      and new: "cl_call_id call \<notin> cl_call_id ` set (requests es0)" by blast
    have "int (length (requests es)) \<le> max 0 n" if "ll_max_tool_calls limits = Some n" for n
      using a assms(4) [OF that] unfolding es accounts_def by simp
    then show ?thesis using a new assms(3) unfolding es accounts_def core_def by auto
  qed
  have accd: "accounts limits A m (v\<lparr>lv_tool_calls := lv_tool_calls v + 1, lv_usage := usage_add (lv_usage v) (obs_usage ob),
      lv_history := h\<rparr>) (es @ [Tool_Call_Completed m call ob d])" if "?Q es" for es ob h d
    using core [OF that] that assms(5) unfolding accounts_def core_def by (auto simp: image_subset_iff)
  have comp: "traces I ?Q (thenE (log_event (Tool_Call_Completed m call ob d)) (check_stall log_event m sig
      (v\<lparr>lv_tool_calls := lv_tool_calls v + 1, lv_usage := usage_add (lv_usage v) (obs_usage ob), lv_history := h\<rparr>))) (turn_outcome limits A m)"
    for ob d sig h by (rule traces_log [where Q = ?Q, OF _ traces_stall]) (rule accd)
  show ?thesis
    unfolding invoke_tool_def Let_def
  proof (rule traces_log [where Q = "\<lambda>es. accounts limits A m v es \<and> cl_call_id call \<notin> cl_call_id ` set (requests es)"])
    show "?Q (es @ [Tool_Call_Requested m call])" if "accounts limits A m v es \<and> cl_call_id call \<notin> cl_call_id ` set (requests es)" for es
      using that by blast
  qed (intro traces_quiet [where Q = ?Q] assms(1,2) comp, use core in \<open>unfold turn_outcome_simps, blast+\<close>)
qed

lemma bound_tool_in: "bound_tool ts cap = Some tool \<Longrightarrow> tool \<in> set (tz_tools ts) \<and> td_tool_id (bt_descriptor tool) = cap"
  unfolding bound_tool_def find_Some_iff by (metis length_rev nth_mem set_rev)

lemma traces_call:
  assumes lq: "loop_quiet I engine tools runtime A"
  shows "traces I (accounts (lq_limits request) A m v) (call_tool engine request tools runtime log_event m action v)
    (turn_outcome (lq_limits request) A m)"
proof (cases "normalized_capability_id (cl_capability action)")
  case None
  then show ?thesis by (simp add: call_tool_def traces_failed)
next
  case (Some cap)
  let ?call = "action\<lparr>cl_capability := cap, cl_call_id := normalized_call_id (ne_digest engine) (cl_call_id action) m 1\<rparr>"
  let ?v = "v\<lparr>lv_used_call_ids := cl_call_id ?call # lv_used_call_ids v\<rparr>" and ?L = "lq_limits request"
  let ?Q = "\<lambda>es. accounts ?L A m ?v es \<and> cl_call_id ?call \<notin> cl_call_id ` set (requests es)"
  have perf: "quiet I (ne_perf_counter engine)" and cur: "quiet I (current_toolset runtime tools)" using lq by (simp_all add: loop_quiet_def)
  show ?thesis
  proof (cases "cl_call_id ?call \<in> set (lv_used_call_ids v)")
    case True
    with Some show ?thesis by (simp add: call_tool_def traces_failed)
  next
    case False
    have Q: "?Q es" if "accounts ?L A m v es" for es using that False unfolding accounts_def by auto
    have fail: "traces I ?Q (stop_loop log_event (failed_event sm kd m ?v)) (turn_outcome ?L A m)" for sm kd
      by (rule traces_conseq [OF traces_failed]) simp_all
    have inv: "traces I ?Q (invoke_tool engine request log_event m (tz_revision ts) tool ?call ?v) (turn_outcome ?L A m)"
      if inv: "I (snd s)" and cs: "current_toolset runtime tools s = (Inr ts, s')" and b: "bound_tool ts (cl_capability ?call) = Some tool"
        and bud: "\<not> (case ll_max_tool_calls ?L of Some n \<Rightarrow> n \<le> lv_tool_calls ?v | None \<Rightarrow> False)" for s ts s' tool
    proof -
      have t: "tool \<in> set (tz_tools ts)" "td_tool_id (bt_descriptor tool) = cl_capability ?call" using bound_tool_in [OF b] by auto
      have "\<forall>t \<in> set (tz_tools ts). td_tool_id (bt_descriptor t) \<in> A \<and> (\<forall>c sn. quiet I (bt_invoke t c sn))"
        using lq inv cs unfolding loop_quiet_def by blast
      with t have "cl_capability ?call \<in> A" "\<And>c sn. quiet I (bt_invoke tool c sn)" by metis+
      then show ?thesis using traces_invoke [OF perf, of tool ?call A ?L ?v m request "tz_revision ts"] bud by (auto split: option.splits)
    qed
    let ?body = "bindE (current_toolset runtime tools) (\<lambda>ts. case bound_tool ts (cl_capability ?call) of
         None \<Rightarrow> stop_loop log_event (failed_event (''Agent requested disallowed capability '' @ ne_repr engine (cl_capability ?call) @ ''.'')
                  ''policy_denied'' m ?v)
       | Some tool \<Rightarrow> if (case ll_max_tool_calls ?L of Some n \<Rightarrow> n \<le> lv_tool_calls ?v | None \<Rightarrow> False)
           then stop_loop log_event (failed_event (''Agent reached its capability-call budget ('' @
                  str_of_int (the (ll_max_tool_calls ?L)) @ '').'') ''transient'' m ?v)
           else invoke_tool engine request log_event m (tz_revision ts) tool ?call ?v)"
    have body: "call_tool engine request tools runtime log_event m action v = ?body"
      unfolding call_tool_def Some option.case Let_def if_not_P [OF False] ..
    have "traces I ?Q ?body (turn_outcome ?L A m)"
      by (rule traces_quiet [where Q = ?Q, OF cur]) (intro traces_split fail inv, assumption+, auto dest: accounts_core)
    then show ?thesis unfolding body by (rule traces_conseq) (rule Q)
  qed
qed

lemma traces_stream:
  assumes "\<And>es c. Q es \<Longrightarrow> Q (es @ [Model_Output_Delta turn c])" and "\<forall>m \<in> set items. quiet I m"
  shows "traces I Q (stream_items log_event turn items mt) (\<lambda>_. Q)"
  using assms(2)
proof (induction items arbitrary: mt)
  case Nil
  show ?case unfolding stream_items.simps by (intro traces_split traces_retE traces_raiseE)
next
  case (Cons i items)
  have ih: "traces I Q (stream_items log_event turn items mt) (\<lambda>_. Q)" for mt using Cons by simp
  have log: "traces I Q (thenE (log_event (Model_Output_Delta turn c)) (stream_items log_event turn items mt)) (\<lambda>_. Q)" for c
    by (rule traces_log [OF assms(1) ih])
  have err: "traces I Q (raiseE e) (\<lambda>_. Q)" for e by (rule traces_raiseE)
  have item: "traces I Q (case item of
      Output_Delta c \<Rightarrow> thenE (log_event (Model_Output_Delta turn c)) (stream_items log_event turn items mt)
    | Model_Turn x \<Rightarrow> (case mt of None \<Rightarrow> stream_items log_event turn items (Some x) | Some _ \<Rightarrow> raiseE e)) (\<lambda>_. Q)" for item e
    by (cases item) (simp_all only: agent_model_item.case log, intro traces_split ih err)
  have "quiet I i" using Cons.prems by simp
  then show ?case unfolding stream_items.simps by (rule traces_quiet) (rule item)
qed

lemma traces_turn:
  assumes lq: "loop_quiet I engine tools runtime A" and m: "0 \<le> m" "m < ll_max_model_turns (lq_limits request)"
  shows "traces I (accounts (lq_limits request) A m v) (native_turn engine request tools runtime log_event (m + 1) v)
    (turn_outcome (lq_limits request) A (m + 1))"
proof -
  let ?L = "lq_limits request" and ?R = "turn_outcome (lq_limits request) A (m + 1)"
  have quiets: "quiet I (ne_perf_counter engine)" "quiet I (current_toolset runtime tools)" "\<And>sn. quiet I (lr_before_model runtime sn)"
      "\<And>a sn. quiet I (lr_evaluate_completion runtime a sn)" "\<And>st. \<forall>m \<in> set (ne_stream engine st). quiet I m"
    using lq unfolding loop_quiet_def by blast+
  have prep: "accounts ?L A m v (es @ [Context_Prepared t n])" if "accounts ?L A m v es" for es t n
    using that unfolding accounts_def core_def by simp
  have start: "accounts ?L A (m + 1) v (es @ [Model_Turn_Started (m + 1)])" if "accounts ?L A m v es" for es
    using that m unfolding accounts_def core_def by (auto simp: upto_rec2)
  have delta: "accounts ?L A k v (es @ [Model_Output_Delta t c])" if "accounts ?L A k v es" for es k t c
    using that unfolding accounts_def core_def by simp
  have closed: "accounts ?L A k (v\<lparr>lv_usage := usage_add (lv_usage v) u\<rparr>) (es @ [Model_Turn_Completed t u mo l])"
    if "accounts ?L A k v es" for es k t u mo l using that unfolding accounts_def core_def by simp
  have raised: "?R (Inl e) es" if "accounts ?L A k v es" for e es k using that by (auto dest: accounts_core)
  have act: "traces I (accounts ?L A (m + 1) v') (case a of
        Final_Answer x \<Rightarrow> finish_answer engine request runtime log_event (m + 1) rev x v'
      | Invalid_Action x \<Rightarrow> undecodable engine log_event (m + 1) x v'
      | Capability_Call x \<Rightarrow> call_tool engine request tools runtime log_event (m + 1) x v') ?R" for a rev v'
  proof (cases a)
    case (Capability_Call x)
    then show ?thesis using traces_call [OF lq] by simp
  next
    case (Final_Answer x)
    then show ?thesis using traces_answer [OF quiets(4)] by simp
  next
    case (Invalid_Action x)
    then show ?thesis unfolding undecodable_def Let_def agent_action.case by (simp only: traces_noted agent_action.case)
  qed
  have tail: "traces I (accounts ?L A (m + 1) v) (thenE (log_event (Model_Turn_Completed (m + 1) (mt_usage mt) (mt_model mt) l))
      (case mt_action mt of
        Final_Answer x \<Rightarrow> finish_answer engine request runtime log_event (m + 1) rev x (v\<lparr>lv_usage := usage_add (lv_usage v) (mt_usage mt)\<rparr>)
      | Invalid_Action x \<Rightarrow> undecodable engine log_event (m + 1) x (v\<lparr>lv_usage := usage_add (lv_usage v) (mt_usage mt)\<rparr>)
      | Capability_Call x \<Rightarrow> call_tool engine request tools runtime log_event (m + 1) x (v\<lparr>lv_usage := usage_add (lv_usage v) (mt_usage mt)\<rparr>))) ?R"
    for mt l rev by (rule traces_log [OF _ act]) (rule closed)
  have lat: "quiet I (if mt_latency_ms mt \<noteq> 0 then retE (mt_latency_ms mt) else bindE (ne_perf_counter engine) (\<lambda>now. retE (elapsed_ms started now)))"
    for mt started
  proof -
    have "quiet I (retE x)" for x :: int by (simp add: quiet_def)
    then show ?thesis by (auto intro: quiet_bind quiets(1))
  qed
  note stream = traces_stream [where Q = "accounts ?L A (m + 1) v", OF delta quiets(5)]
  show ?thesis
    unfolding native_turn_def Let_def
    by (rule traces_quiet [OF quiets(2)] traces_quiet [OF quiets(3)] traces_quiet [OF quiets(1)] traces_quiet [OF lat]
        traces_log [where Q = "accounts ?L A m v" and Q' = "accounts ?L A m v", OF prep]
        traces_log [where Q = "accounts ?L A m v" and Q' = "accounts ?L A (m + 1) v", OF start]
        traces_bind [OF stream] tail raised | assumption)+
qed

lemma traces_turns:
  assumes lq: "loop_quiet I engine tools runtime A" and m: "0 \<le> m" "m \<le> max 0 (ll_max_model_turns (lq_limits request))"
  shows "traces I (accounts (lq_limits request) A m v)
    (native_turns engine request tools runtime log_event [m + 1..ll_max_model_turns (lq_limits request)] v)
    (\<lambda>r es. case r of Inl _ \<Rightarrow> (\<exists>k. core (lq_limits request) A k es) | Inr _ \<Rightarrow> reported (lq_limits request) A es)"
  using m
proof (induction "nat (ll_max_model_turns (lq_limits request) - m)" arbitrary: m v)
  case 0
  let ?L = "lq_limits request" and ?M = "ll_max_model_turns (lq_limits request)"
  from 0 have e: "[m + 1..?M] = []" "[1..?M] = [1..m]" by (auto simp: max_def split: if_splits)
  have rep: "reported ?L A (es @ [failed_event sm kd ?M v])" if "accounts ?L A m v es" for es sm kd
    using that e(2) unfolding reported_def accounts_def failed_event_def by auto
  show ?case
    unfolding e(1) native_turns.simps by (rule traces_log_only) (simp add: rep)
next
  case (Suc x)
  let ?L = "lq_limits request" and ?M = "ll_max_model_turns (lq_limits request)"
  from Suc.hyps(2) Suc.prems have m: "0 \<le> m" "m < ?M" by linarith+
  then have c: "[m + 1..?M] = (m + 1) # [m + 1 + 1..?M]" by (simp add: upto_rec1)
  have ih: "traces I (accounts ?L A (m + 1) v) (native_turns engine request tools runtime log_event [m + 1 + 1..?M] v)
    (\<lambda>r es. case r of Inl _ \<Rightarrow> (\<exists>k. core ?L A k es) | Inr _ \<Rightarrow> reported ?L A es)" for v
    by (rule Suc.hyps(1)) (use Suc.hyps(2) m in auto)
  show ?case
    unfolding c native_turns.simps
  proof (rule traces_bind [OF traces_turn [OF lq m]])
    fix a
    show "traces I (turn_outcome ?L A (m + 1) (Inr a))
        (case a of None \<Rightarrow> retE () | Some v \<Rightarrow> native_turns engine request tools runtime log_event [m + 1 + 1..?M] v)
        (\<lambda>r es. case r of Inl _ \<Rightarrow> (\<exists>k. core ?L A k es) | Inr _ \<Rightarrow> reported ?L A es)"
    proof (cases a)
      case None
      show ?thesis unfolding None option.case by (rule traces_retE) simp
    next
      case (Some v)
      show ?thesis unfolding Some option.case by (rule traces_conseq [OF ih]) simp_all
    qed
  qed simp
qed

lemma native_run_accounts:
  assumes "loop_quiet I engine tools runtime A" and "I w" and "native_run engine request tools runtime log_event ([], w) = (r, (es, w'))"
  shows "I w' \<and> int (length (starts es)) \<le> max 0 (ll_max_model_turns (lq_limits request))
    \<and> (\<forall>n. ll_max_tool_calls (lq_limits request) = Some n \<longrightarrow> int (length (requests es)) \<le> max 0 n)
    \<and> cl_capability ` set (requests es) \<subseteq> A \<and> distinct (map cl_call_id (requests es))
    \<and> (case r of
         Inl _ \<Rightarrow> finishes es = []
       | Inr _ \<Rightarrow> \<exists>es0 f. es = es0 @ [Loop_Finished f] \<and> finishes es0 = [] \<and> completions es0 = requests es0
           \<and> starts es0 = [1..lf_model_turns f] \<and> lf_tool_calls f = int (length (requests es0)) \<and> lf_usage f = spent es0)"
proof -
  let ?L = "lq_limits request"
  have z: "accounts ?L A 0 (initial_vars request) []" by (simp add: accounts_def core_def initial_vars_def)
  have len: "int (length [1..m]) \<le> max 0 (ll_max_model_turns ?L)" if "m \<le> max 0 (ll_max_model_turns ?L)" for m :: int using that by simp
  have "traces I (accounts ?L A 0 (initial_vars request)) (native_run engine request tools runtime log_event)
      (\<lambda>r es. case r of Inl _ \<Rightarrow> (\<exists>k. core ?L A k es) | Inr _ \<Rightarrow> reported ?L A es)"
    using traces_turns [OF assms(1), of 0 request "initial_vars request"] unfolding native_run_def by simp
  from this [unfolded traces_def ends_def, rule_format, OF _ assms(3)] z assms(2)
  have I: "I w'" and "case r of Inl _ \<Rightarrow> (\<exists>k. core ?L A k es) | Inr _ \<Rightarrow> reported ?L A es" by (cases r; simp)+
  then show ?thesis
  proof (cases r)
    case (Inl e)
    with \<open>case r of Inl _ \<Rightarrow> _ | Inr _ \<Rightarrow> _\<close> obtain k where "core ?L A k es" by auto
    with Inl len I show ?thesis unfolding core_def by auto
  next
    case (Inr u)
    with \<open>case r of Inl _ \<Rightarrow> _ | Inr _ \<Rightarrow> _\<close> obtain es0 f k where es: "es = es0 @ [Loop_Finished f]" "core ?L A k es0"
      "completions es0 = requests es0" "[1..lf_model_turns f] = [1..k]" "lf_tool_calls f = int (length (requests es0))" "lf_usage f = spent es0"
      by (auto simp: reported_def)
    with Inr len [of k] I show ?thesis unfolding core_def by auto
  qed
qed

text \<open>
  C20. The loop of a sub-agent ends within its budget and gives a true account of itself. Whatever the model, the policies and
  the tools do, the model is asked at most as often as the budget of turns allows, tools are called at most as often as the
  budget of calls allows, only tools of a current toolset are called and no call identifier is used twice. When the loop ends
  normally, the last event, and no other, is the final one; every call that was requested has completed, and the turns,
  calls and tokens it reports are those of the events before it. When it raises, there is no final event.
\<close>

theorem native_loop_accounts:
  assumes "loop_quiet I engine tools runtime A" and "I w" and "native_run engine request tools runtime log_event ([], w) = (r, (es, w'))"
  shows "I w' \<and> int (length (starts es)) \<le> max 0 (ll_max_model_turns (lq_limits request))
    \<and> (\<forall>n. ll_max_tool_calls (lq_limits request) = Some n \<longrightarrow> int (length (requests es)) \<le> max 0 n)
    \<and> cl_capability ` set (requests es) \<subseteq> A \<and> distinct (map cl_call_id (requests es))
    \<and> (case r of
         Inl _ \<Rightarrow> finishes es = []
       | Inr _ \<Rightarrow> \<exists>es0 f. es = es0 @ [Loop_Finished f] \<and> finishes es0 = [] \<and> completions es0 = requests es0
           \<and> starts es0 = [1..lf_model_turns f] \<and> lf_tool_calls f = int (length (requests es0)) \<and> lf_usage f = spent es0)"
  by (rule native_run_accounts [OF assms])

text \<open>A model that answers at once.\<close>

definition sample_engine :: "'w native_engine" where
  "sample_engine =
     \<lparr>ne_stream = (\<lambda>_. [retE (Model_Turn \<lparr>mt_action = Final_Answer \<lparr>fa_summary = ''ok'', fa_output = ''42''\<rparr>, mt_usage = no_usage\<lparr>tu_total := 7\<rparr>,
        mt_model = ''m'', mt_latency_ms = 1\<rparr>)]),
      ne_perf_counter = retE 0, ne_digest = (\<lambda>s. s), ne_render = (\<lambda>_. []), ne_repr = (\<lambda>s. s)\<rparr>"

definition sample_runtime :: "'w agent_loop_runtime" where
  "sample_runtime =
     \<lparr>lr_before_model = (\<lambda>_. retE \<lparr>pm_blocks = [], pm_history = None\<rparr>),
      lr_evaluate_completion = (\<lambda>_ _. retE \<lparr>dv_outcome = ''accept'', dv_reason = []\<rparr>), lr_tool_controller = None\<rparr>"

definition sample_request :: agent_loop_request where
  "sample_request =
     \<lparr>lq_engine_run_id = ''r'', lq_task = \<lparr>at_title = ''t'', at_instructions = [], at_arguments = []\<rparr>, lq_system_prompt = [], lq_tools = [],
      lq_limits = \<lparr>ll_max_model_turns = 2, ll_max_tool_calls = None, ll_allow_parallel_tool_calls = False, ll_stall_limit = 3\<rparr>,
      lq_context = [], lq_initial_messages = [], lq_provider_tools = []\<rparr>"

theorem native_loop_accounts_witness:
  "\<exists>es0 f. native_run sample_engine sample_request [] sample_runtime log_event ([], ()) = (Inr (), (es0 @ [Loop_Finished f], ()))
     \<and> finishes es0 = [] \<and> starts es0 = [1..lf_model_turns f] \<and> lf_usage f = spent es0"
proof -
  have q: "loop_quiet (\<lambda>_. True) sample_engine [] sample_runtime {}"
    by (auto simp: loop_quiet_def sample_engine_def sample_runtime_def quiet_def current_toolset_def)
  have turns: "[1..ll_max_model_turns (lq_limits sample_request)] = [1, 2]" by (simp add: sample_request_def upto_rec1)
  obtain r es w' where n: "native_run sample_engine sample_request [] sample_runtime log_event ([], ()) = (r, (es, w'))" by (metis prod.exhaust)
  have "r = Inr ()"
    using n unfolding native_run_def turns
    by (auto simp: native_turn_def sample_engine_def sample_runtime_def current_toolset_def finish_answer_def stop_loop_def log_event_apply
        thenE_def bindE_apply Let_def)
  with native_loop_accounts [OF q _ n] n show ?thesis by auto
qed

end
