(* ===== verification/Agent_Profile.thy ===== *)
theory Agent_Profile
  imports Agent_Loop Capability_Contract
begin

section \<open>Profiles of sub-agents\<close>

text \<open>
  \<^verbatim>\<open>sub_agent/profile.py\<close>: the capability ceiling of a profile, the decisions of its policies, and the static resolver with its
  registration checks. A policy is an operation; the check that a policy object is a frozen data class is not modelled.
\<close>

subsection \<open>Ceilings\<close>

datatype capability_ceiling = All_Capabilities | Selectors "string list"

definition ceiling_allows :: "capability_ceiling \<Rightarrow> string \<Rightarrow> bool result" where
  "ceiling_allows bound capability =
     (case bound of All_Capabilities \<Rightarrow> Inr True | Selectors selectors \<Rightarrow> any_selector_allows selectors capability)"

definition normalize_capability_ceiling :: "capability_ceiling \<Rightarrow> capability_ceiling result" where
  "normalize_capability_ceiling bound =
     (case bound of
        All_Capabilities \<Rightarrow> Inr All_Capabilities
      | Selectors selectors \<Rightarrow> rbind (rmap normalize_capability_selector selectors) (\<lambda>ss. Inr (Selectors (dict_fromkeys ss))))"

text \<open>A ceiling is a set: two ceilings are equal when they have the same selectors.\<close>

definition same_ceiling :: "capability_ceiling \<Rightarrow> capability_ceiling \<Rightarrow> bool" where
  "same_ceiling a b \<longleftrightarrow>
     (case (a, b) of
        (All_Capabilities, All_Capabilities) \<Rightarrow> True
      | (Selectors xs, Selectors ys) \<Rightarrow> set xs = set ys
      | _ \<Rightarrow> False)"

subsection \<open>Policies\<close>

record invocation_policy_context =
  ic_run :: task_run
  ic_profile_id :: string
  ic_step :: int
  ic_descriptor :: capability_descriptor
  ic_history :: "observation list"

record invocation_policy_decision =
  iy_allowed :: bool
  iy_reason :: string

record completion_policy_context =
  cp_run :: task_run
  cp_profile_id :: string
  cp_step :: int
  cp_history :: "observation list"

record completion_policy_decision =
  cy_outcome :: string
  cy_reason :: string

definition validate_completion_decision :: "completion_policy_decision \<Rightarrow> completion_policy_decision result" where
  "validate_completion_decision d =
     (if cy_outcome d \<notin> {''accept'', ''continue'', ''reject''} then Inl (Exn ValueError ''unknown completion policy outcome'') else Inr d)"

type_synonym 'w invocation_policy = "invocation_policy_context \<Rightarrow> capability_call \<Rightarrow> ('w, invocation_policy_decision) io"

type_synonym 'w completion_policy = "completion_policy_context \<Rightarrow> final_answer \<Rightarrow> ('w, completion_policy_decision) io"

definition accept_model_completion :: "'w completion_policy" where
  "accept_model_completion context proposal = retE \<lparr>cy_outcome = ''accept'', cy_reason = []\<rparr>"

subsection \<open>Profiles and their resolver\<close>

record profile_descriptor =
  pd_profile_id :: string
  pd_when_to_use :: string
  pd_capability_ceiling :: capability_ceiling

definition validate_profile_descriptor :: "profile_descriptor \<Rightarrow> profile_descriptor result" where
  "validate_profile_descriptor d =
     rbind (normalize_capability_ceiling (pd_capability_ceiling d)) (\<lambda>c. Inr (d\<lparr>pd_capability_ceiling := c\<rparr>))"

record 'w agent_profile =
  ap_profile_id :: string
  ap_system_prompt :: string
  ap_capability_ceiling :: capability_ceiling
  ap_invocation_policies :: "'w invocation_policy list"
  ap_completion_policy :: "'w completion_policy"

definition validate_agent_profile :: "'w agent_profile \<Rightarrow> 'w agent_profile result" where
  "validate_agent_profile p =
     (if py_strip (ap_profile_id p) = [] then Inl (Exn ValueError ''profile_id must not be empty'')
      else rbind (normalize_capability_ceiling (ap_capability_ceiling p)) (\<lambda>c. Inr (p\<lparr>ap_capability_ceiling := c\<rparr>)))"

record profile_query =
  pq_caller :: resolve_context
  pq_search :: string
  pq_limit :: "int option"

record 'w static_profile_resolver =
  sp_profiles :: "(string, 'w agent_profile) dict"
  sp_descriptors :: "(string, profile_descriptor) dict"
  sp_is_visible :: "profile_descriptor \<Rightarrow> resolve_context \<Rightarrow> bool"

definition registration_error :: "(string, profile_descriptor) dict \<Rightarrow> string \<times> 'w agent_profile \<Rightarrow> exn option" where
  "registration_error descriptors entry =
     (case entry of (profile_id, profile) \<Rightarrow>
        (case dict_get descriptors profile_id of
           None \<Rightarrow> Some (Exn KeyError profile_id)
         | Some descriptor \<Rightarrow>
             if profile_id \<noteq> ap_profile_id profile \<or> profile_id \<noteq> pd_profile_id descriptor
             then Some (Exn ValueError ''profile registration key must match its profile and descriptor ids'')
             else if \<not> same_ceiling (ap_capability_ceiling profile) (pd_capability_ceiling descriptor)
             then Some (Exn ValueError ''profile must use the same capability ceiling for planning and execution'')
             else None))"

definition static_profile_resolver ::
    "(string, 'w agent_profile) dict \<Rightarrow> (string, profile_descriptor) dict \<Rightarrow> (profile_descriptor \<Rightarrow> resolve_context \<Rightarrow> bool) option
       \<Rightarrow> 'w static_profile_resolver result" where
  "static_profile_resolver profiles descriptors visibility =
     (if set (dict_keys profiles) \<noteq> set (dict_keys descriptors)
      then Inl (Exn ValueError ''profile and descriptor ids must match'')
      else case List.map_filter (registration_error descriptors) profiles of
             e # _ \<Rightarrow> Inl e
           | [] \<Rightarrow> Inr \<lparr>sp_profiles = profiles, sp_descriptors = descriptors,
                       sp_is_visible = (case visibility of Some v \<Rightarrow> v | None \<Rightarrow> \<lambda>_ _. True)\<rparr>)"

definition list_profiles :: "'w static_profile_resolver \<Rightarrow> profile_query \<Rightarrow> profile_descriptor list" where
  "list_profiles sp query =
     take_limit (pq_limit query)
       (filter (\<lambda>desc. sp_is_visible sp desc (pq_caller query)
          \<and> (pq_search query = [] \<or> str_contains (py_lower (pq_search query))
               (py_lower (pd_profile_id desc @ CHR 10 # pd_when_to_use desc)))) (dict_values (sp_descriptors sp)))"

definition resolve_profile :: "'w static_profile_resolver \<Rightarrow> string \<Rightarrow> 'w agent_profile option" where
  "resolve_profile sp profile_id = dict_get (sp_profiles sp) profile_id"

subsection \<open>What is planned with is what runs\<close>

lemma map_filter_Nil: "List.map_filter f xs = [] \<longleftrightarrow> (\<forall>x \<in> set xs. f x = None)"
  by (auto simp: List.map_filter_def filter_empty_conv)

text \<open>
  A profile runs under the ceiling it is offered with. When a resolver can be built, every profile that planning is shown
  resolves for execution, under its own identifier and with the same set of selectors as its ceiling.
\<close>

theorem profiles_agree:
  assumes "static_profile_resolver profiles descriptors visibility = Inr sp" and "dict_ok descriptors"
    and "d \<in> set (list_profiles sp query)"
  shows "\<exists>p. resolve_profile sp (pd_profile_id d) = Some p \<and> ap_profile_id p = pd_profile_id d
    \<and> same_ceiling (ap_capability_ceiling p) (pd_capability_ceiling d)"
proof -
  have keys: "set (dict_keys profiles) = set (dict_keys descriptors)"
    and none: "List.map_filter (registration_error descriptors) profiles = []" and sp: "sp_profiles sp = profiles" "sp_descriptors sp = descriptors"
    using assms(1) by (auto simp: static_profile_resolver_def split: if_splits list.splits)
  have "set (list_profiles sp query) \<subseteq> set (dict_values descriptors)"
    unfolding list_profiles_def sp take_limit_def by (auto dest: in_set_takeD split: option.splits if_splits)
  with assms(3) obtain k where k: "(k, d) \<in> set descriptors" by auto
  then have dk: "dict_get descriptors k = Some d" by (simp add: dict_ok_get_iff [OF assms(2)])
  from k keys have "k \<in> set (dict_keys profiles)" by force
  then obtain p where p: "dict_get profiles k = Some p" by (metis dict_get_None_iff not_None_eq)
  from none have "registration_error descriptors (k, p) = None" using dict_get_in [OF p] unfolding map_filter_Nil by blast
  with dk have "k = ap_profile_id p" "k = pd_profile_id d" "same_ceiling (ap_capability_ceiling p) (pd_capability_ceiling d)"
    by (auto simp: registration_error_def split: if_splits)
  with p sp show ?thesis by (auto simp: resolve_profile_def)
qed

end
