(* ===== verification/Cursors.thy ===== *)
theory Cursors
  imports Py_Strings
begin

section \<open>Cursors of a catalogue\<close>

text \<open>
  \<^verbatim>\<open>_encode_cursor\<close> and \<^verbatim>\<open>_decode_cursor\<close> of \<^verbatim>\<open>sub_agent/tool_controller.py\<close>: the offset in decimal, in the URL-safe
  base-64 alphabet without its padding. The decoder is the one of Python's \<^verbatim>\<open>binascii\<close> outside its strict mode, which
  skips what is not in the alphabet and stops at a complete padding. Bytes are natural numbers below 256.
\<close>

definition b64_char :: "nat \<Rightarrow> char" where
  "b64_char n =
     (if n < 26 then char_of (n + 65) else if n < 52 then char_of (n + 71) else if n < 62 then char_of (n - 4)
      else if n = 62 then CHR ''-'' else CHR ''_'')"

definition b64_value :: "char \<Rightarrow> nat option" where
  "b64_value c =
     (let n = of_char c :: nat in
      if 65 \<le> n \<and> n \<le> 90 then Some (n - 65) else if 97 \<le> n \<and> n \<le> 122 then Some (n - 71)
      else if 48 \<le> n \<and> n \<le> 57 then Some (n + 4)
      else if c \<in> {CHR ''-'', CHR ''+''} then Some 62 else if c \<in> {CHR ''_'', CHR ''/''} then Some 63 else None)"

fun b64_encode :: "nat list \<Rightarrow> string" where
  "b64_encode [] = []"
| "b64_encode [a] = [b64_char (a div 4), b64_char (a mod 4 * 16), CHR ''='', CHR ''='']"
| "b64_encode [a, b] = [b64_char (a div 4), b64_char (a mod 4 * 16 + b div 16), b64_char (b mod 16 * 4), CHR ''='']"
| "b64_encode (a # b # c # rest) =
     b64_char (a div 4) # b64_char (a mod 4 * 16 + b div 16) # b64_char (b mod 16 * 4 + c div 64) # b64_char (c mod 64) # b64_encode rest"

text \<open>The state is the position in the quadruple, the bits left over and the number of pads seen.\<close>

fun a2b_base64 :: "nat \<Rightarrow> nat \<Rightarrow> nat \<Rightarrow> string \<Rightarrow> nat list result" where
  "a2b_base64 quad left pads [] = (if quad \<noteq> 0 then Inl (Exn ValueError ''Incorrect padding'') else Inr [])"
| "a2b_base64 quad left pads (ch # cs) =
     (if ch = CHR ''=''
      then if 2 \<le> quad then if 4 \<le> quad + pads + 1 then Inr [] else a2b_base64 quad left (pads + 1) cs
           else a2b_base64 quad left pads cs
      else case b64_value ch of
             None \<Rightarrow> a2b_base64 quad left pads cs
           | Some v \<Rightarrow>
               if quad = 0 then a2b_base64 1 v 0 cs
               else if quad = 1 then rbind (a2b_base64 2 (v mod 16) 0 cs) (\<lambda>bs. Inr ((left * 4 + v div 16) # bs))
               else if quad = 2 then rbind (a2b_base64 3 (v mod 4) 0 cs) (\<lambda>bs. Inr ((left * 16 + v div 4) # bs))
               else rbind (a2b_base64 0 0 0 cs) (\<lambda>bs. Inr ((left * 64 + v) # bs)))"

definition encode_cursor :: "int \<Rightarrow> string" where
  "encode_cursor offset = rev (dropWhile (\<lambda>c. c = CHR ''='') (rev (b64_encode (map of_char (str_of_int offset)))))"

definition decode_cursor :: "string \<Rightarrow> int result" where
  "decode_cursor cursor =
     (if cursor = [] then Inr 0
      else let padded = cursor @ replicate (nat ((- int (length cursor)) mod 4)) (CHR ''='') in
        if list_ex (\<lambda>c. 128 \<le> (of_char c :: nat)) padded then Inl (Exn ValueError ''string argument should contain only ASCII characters'')
        else rbind (a2b_base64 0 0 0 padded) (\<lambda>bytes.
          if list_ex (\<lambda>b. 128 \<le> b) bytes then Inl (Exn ValueError ''ordinal not in range(128)'')
          else case py_int_of_str (map char_of bytes) of
                 None \<Rightarrow> Inl (Exn ValueError ''invalid literal for int() with base 10'')
               | Some n \<Rightarrow> Inr n))"

subsection \<open>Decoding undoes encoding\<close>

lemma b64_value_char: "n < 64 \<Longrightarrow> b64_value (b64_char n) = Some n"
  by (auto simp: b64_value_def b64_char_def Let_def of_char_of take_bit_eq_mod)

lemma b64_char_not_pad: "n < 64 \<Longrightarrow> b64_char n \<noteq> CHR ''=''"
  using b64_value_char [of n] by (auto simp: b64_value_def Let_def)

lemma a2b_char: "n < 64 \<Longrightarrow> a2b_base64 q l p (b64_char n # cs) =
    (if q = 0 then a2b_base64 1 n 0 cs
     else if q = 1 then rbind (a2b_base64 2 (n mod 16) 0 cs) (\<lambda>bs. Inr ((l * 4 + n div 16) # bs))
     else if q = 2 then rbind (a2b_base64 3 (n mod 4) 0 cs) (\<lambda>bs. Inr ((l * 16 + n div 4) # bs))
     else rbind (a2b_base64 0 0 0 cs) (\<lambda>bs. Inr ((l * 64 + n) # bs)))"
  by (simp add: b64_value_char b64_char_not_pad)

lemma a2b_encode: "\<forall>b \<in> set bs. b < 256 \<Longrightarrow> a2b_base64 0 0 0 (b64_encode bs) = Inr bs"
proof (induction bs rule: b64_encode.induct)
  case (2 a)
  then have "a div 4 < 64" "a mod 4 * 16 < 64" by auto
  then show ?case by (simp add: a2b_char del: a2b_base64.simps) (simp)
next
  case (3 a b)
  then have "a div 4 < 64" "a mod 4 * 16 + b div 16 < 64" "b mod 16 * 4 < 64" "b div 16 < 16" by auto
  then show ?case by (simp add: a2b_char del: a2b_base64.simps) (simp)
next
  case (4 a b c rest)
  then have "a div 4 < 64" "a mod 4 * 16 + b div 16 < 64" "b mod 16 * 4 + c div 64 < 64" "c mod 64 < 64"
    "b div 16 < 16" "c div 64 < 4" by auto
  with 4 show ?case by (simp add: a2b_char del: a2b_base64.simps)
qed simp

lemma encode_shape:
  "\<forall>b \<in> set bs. b < 256 \<Longrightarrow> \<exists>body k. b64_encode bs = body @ replicate k (CHR ''='') \<and> CHR ''='' \<notin> set body \<and> k \<le> 2
     \<and> (length body + k) mod 4 = 0 \<and> (bs \<noteq> [] \<longrightarrow> body \<noteq> [])"
proof (induction bs rule: b64_encode.induct)
  case 1
  show ?case by (rule exI [of _ "[]"], rule exI [of _ 0]) simp
next
  case (2 a)
  then have "a div 4 < 64" "a mod 4 * 16 < 64" by auto
  then show ?case
    by (intro exI [of _ "[b64_char (a div 4), b64_char (a mod 4 * 16)]"] exI [of _ 2])
      (simp add: b64_char_not_pad [symmetric] numeral_2_eq_2)
next
  case (3 a b)
  then have "a div 4 < 64" "a mod 4 * 16 + b div 16 < 64" "b mod 16 * 4 < 64" by auto
  then show ?case
    by (intro exI [of _ "[b64_char (a div 4), b64_char (a mod 4 * 16 + b div 16), b64_char (b mod 16 * 4)]"] exI [of _ 1])
      (simp add: b64_char_not_pad [symmetric])
next
  case (4 a b c rest)
  then obtain body k where ih: "b64_encode rest = body @ replicate k (CHR ''='')" "CHR ''='' \<notin> set body" "k \<le> 2" "(length body + k) mod 4 = 0"
    by auto
  from 4 have "a div 4 < 64" "a mod 4 * 16 + b div 16 < 64" "b mod 16 * 4 + c div 64 < 64" "c mod 64 < 64" by auto
  with ih show ?case
    by (intro exI [of _ "b64_char (a div 4) # b64_char (a mod 4 * 16 + b div 16) # b64_char (b mod 16 * 4 + c div 64) # b64_char (c mod 64) # body"]
        exI [of _ k]) (auto simp: b64_char_not_pad [symmetric] mod_Suc)
qed

lemma b64_char_ascii: "n < 64 \<Longrightarrow> (of_char (b64_char n) :: nat) < 128"
  by (auto simp: b64_char_def)

lemma encode_ascii: "\<forall>b \<in> set bs. b < 256 \<Longrightarrow> \<forall>c \<in> set (b64_encode bs). (of_char c :: nat) < 128"
proof (induction bs rule: b64_encode.induct)
  case (2 a)
  then have "a div 4 < 64" "a mod 4 * 16 < 64" by auto
  then show ?case by (simp add: b64_char_ascii)
next
  case (3 a b)
  then have "a div 4 < 64" "a mod 4 * 16 + b div 16 < 64" "b mod 16 * 4 < 64" by auto
  then show ?case by (simp add: b64_char_ascii)
next
  case (4 a b c rest)
  then have "a div 4 < 64" "a mod 4 * 16 + b div 16 < 64" "b mod 16 * 4 + c div 64 < 64" "c mod 64 < 64" by auto
  with 4 show ?case by (simp add: b64_char_ascii)
qed simp

lemma decode_encode:
  assumes "0 \<le> offset"
  shows "decode_cursor (encode_cursor offset) = Inr offset"
proof -
  let ?bs = "map of_char (str_of_int offset) :: nat list"
  have dig: "48 \<le> b \<and> b < 58" if "b \<in> set ?bs" for b
  proof -
    from that assms obtain c where "c \<in> set (str_of_nat (nat offset))" "b = of_char c" by (auto simp: str_of_int_def)
    with str_of_nat_digits [of c "nat offset"] obtain d :: nat where "d < 10" "b = of_char (char_of (48 + d) :: char)" by blast
    then show ?thesis by simp
  qed
  then have b: "\<forall>b \<in> set ?bs. b < 256" by fastforce
  obtain body k where sh: "b64_encode ?bs = body @ replicate k (CHR ''='')" "CHR ''='' \<notin> set body" "k \<le> 2"
      "(length body + k) mod 4 = 0" "?bs \<noteq> [] \<longrightarrow> body \<noteq> []" using encode_shape [OF b] by (elim exE conjE)
  have "str_of_int offset \<noteq> []" using assms by (simp add: str_of_int_def)
  with sh(5) have ne: "body \<noteq> []" by simp
  have enc: "encode_cursor offset = body"
  proof -
    have "dropWhile (\<lambda>c. c = CHR ''='') (rev (body @ replicate k (CHR ''=''))) = rev body"
      using sh(2) ne by (cases body rule: rev_cases) (auto simp: dropWhile_append)
    then show ?thesis unfolding encode_cursor_def sh(1) by simp
  qed
  have "(int (length body) + int k) mod 4 = 0" using sh(4) by (metis of_nat_0 of_nat_add of_nat_numeral zmod_int)
  then have "(- int (length body)) mod 4 = int k" using sh(3) by presburger
  then have pad: "nat ((- int (length body)) mod 4) = k" by simp
  have full: "body @ replicate (nat ((- int (length body)) mod 4)) (CHR ''='') = b64_encode ?bs" using pad sh(1) by simp
  have asc: "\<not> list_ex (\<lambda>c. 128 \<le> (of_char c :: nat)) (b64_encode ?bs)" using encode_ascii [OF b] by (fastforce simp: list_ex_iff)
  have digits: "map char_of ?bs = str_of_int offset" by (simp add: comp_def)
  have "\<not> list_ex (\<lambda>b. 128 \<le> b) ?bs" using dig by (fastforce simp: list_ex_iff)
  then show ?thesis
    unfolding enc decode_cursor_def Let_def full using ne asc a2b_encode [OF b] by (simp add: digits py_int_of_str_of_int del: map_map)
qed

end
