(* ===== verification/Tool_Controller.thy ===== *)
theory Tool_Controller
  imports Agent_Profile Cursors "HOL-Library.List_Lexorder" "HOL-Library.Char_ord" "HOL-Library.Product_Lexorder"
begin

section \<open>Discovery and promotion of tools\<close>

text \<open>
  \<^verbatim>\<open>sub_agent/tool_controller.py\<close>: a sub-agent starts with one tool, which searches or browses the capabilities its profile
  admits, and a search promotes matches to tools of their own. The tools of the controller are bound from the descriptors it
  has promoted, so its state keeps the descriptors; the state is paired with the world of the invoker. The lock of the
  controller makes each operation one step. Parameters are the invoker, the text of JSON values, and the score of the
  ranking, which is computed with logarithms in floating point.
\<close>

definition CAPABILITY_DISCOVER_TOOL_ID :: string where
  "CAPABILITY_DISCOVER_TOOL_ID = ''runtime:capability:discover''"

definition MAX_SEARCH_PROMOTIONS :: int where
  "MAX_SEARCH_PROMOTIONS = 5"

definition MAX_PROMOTED_SCHEMA_BYTES :: int where
  "MAX_PROMOTED_SCHEMA_BYTES = 30000"

definition MAX_BROWSE_PAGE_SIZE :: int where
  "MAX_BROWSE_PAGE_SIZE = 50"

record 'w agent_invocation_context =
  aic_profile_id :: string
  aic_step :: int
  aic_policies :: "'w invocation_policy list"
  aic_history :: "observation list"

record 'w tool_controller =
  tv_run :: task_run
  tv_profile :: "'w agent_profile"
  tv_list_descriptors :: "task_run \<Rightarrow> catalogue_query \<Rightarrow> ('w, capability_descriptor list) io"
  tv_invoke :: "task_run \<Rightarrow> capability_call \<Rightarrow> 'w agent_invocation_context \<Rightarrow> ('w, observation) io"
  tv_repr :: "json \<Rightarrow> string"
  tv_dumps :: "json \<Rightarrow> string"
  tv_score :: "string list \<Rightarrow> string list list \<Rightarrow> nat \<Rightarrow> bool \<Rightarrow> rat"

record controller_state =
  ct_promoted :: "(string, capability_descriptor) dict"
  ct_revision :: int
  ct_schema_bytes :: int

definition initial_controller :: controller_state where
  "initial_controller = \<lparr>ct_promoted = [], ct_revision = 1, ct_schema_bytes = 0\<rparr>"

subsection \<open>Observations\<close>

definition discover_failed :: "capability_call \<Rightarrow> string \<Rightarrow> observation" where
  "discover_failed call message =
     \<lparr>obs_capability = cl_capability call, obs_ok = False, obs_content = message, obs_call_id = cl_call_id call, obs_arguments = None,
      obs_run_id = [], obs_status = ''failed'', obs_summary = message, obs_error_class = error_class_value POLICY_DENY,
      obs_error_message = message, obs_artifacts = [], obs_contents = [], obs_usage = no_usage\<rparr>"

definition discover_succeeded :: "(json \<Rightarrow> string) \<Rightarrow> capability_call \<Rightarrow> jobj \<Rightarrow> string \<Rightarrow> observation" where
  "discover_succeeded dumps call payload summary =
     \<lparr>obs_capability = cl_capability call, obs_ok = True, obs_content = dumps (JObj payload), obs_call_id = cl_call_id call,
      obs_arguments = None, obs_run_id = [], obs_status = ''completed'', obs_summary = summary, obs_error_class = [],
      obs_error_message = [], obs_artifacts = [], obs_contents = [], obs_usage = no_usage\<rparr>"

definition compact_payload :: "capability_descriptor \<Rightarrow> json" where
  "compact_payload d =
     JObj [(''capability_id'', JStr (cd_capability_id d)), (''description'', JStr (cd_description d)),
           (''when_to_use'', JStr (cd_when_to_use d)), (''effect'', JStr (cd_effect d)),
           (''workspace_access'', JStr (cd_workspace_access d)), (''required_sandbox'', JList (map JStr (cd_required_sandbox d)))]"

subsection \<open>Filters and ranking\<close>

text \<open>\<^verbatim>\<open>call.args.get(key) or default\<close>.\<close>

definition arg_or :: "capability_call \<Rightarrow> string \<Rightarrow> json \<Rightarrow> json" where
  "arg_or call key dflt = (case dict_get (cl_args call) key of Some v \<Rightarrow> if json_truthy v then v else dflt | None \<Rightarrow> dflt)"

definition discover_filters :: "(json \<Rightarrow> string) \<Rightarrow> capability_call \<Rightarrow> string + string list \<times> string list" where
  "discover_filters repr call =
     (case (arg_or call ''providers'' (JList []), arg_or call ''selectors'' (JList [])) of
        (JList raw_providers, JList raw_selectors) \<Rightarrow>
          (case rmap (\<lambda>v. normalize_capability_selector (json_str repr v)) raw_selectors of
             Inl e \<Rightarrow> Inl (exn_message e)
           | Inr selectors \<Rightarrow>
               Inr (dict_fromkeys (filter (\<lambda>p. p \<noteq> []) (map (\<lambda>v. py_strip (json_str repr v)) raw_providers)), dict_fromkeys selectors))
      | _ \<Rightarrow> Inl ''providers and selectors must be arrays.'')"

definition search_tokens :: "string \<Rightarrow> string list" where
  "search_tokens v = find_runs search_char [] (py_casefold v)"

definition weighted_terms :: "capability_descriptor \<Rightarrow> string list" where
  "weighted_terms d =
     (let identifier = search_tokens (cd_capability_id d); usage = search_tokens (cd_when_to_use d);
          description = search_tokens (cd_description d); sandbox = search_tokens (join_with (CHR '' '') (cd_required_sandbox d))
      in identifier @ identifier @ identifier @ identifier @ usage @ usage @ description @ sandbox)"

definition rank_descriptors ::
    "(string list \<Rightarrow> string list list \<Rightarrow> nat \<Rightarrow> bool \<Rightarrow> rat) \<Rightarrow> string \<Rightarrow> capability_descriptor list \<Rightarrow> capability_descriptor list" where
  "rank_descriptors score query descriptors =
     (let query_terms = search_tokens query in
      if query_terms = [] then sort_key cd_capability_id descriptors
      else let documents = map weighted_terms descriptors;
               normalized_query = map (\<lambda>c. if c = CHR ''.'' then CHR '':'' else c) (py_strip (py_casefold query))
           in map ((!) descriptors)
                (sort_key (\<lambda>index. (- score query_terms documents index (normalized_query = cd_capability_id (descriptors ! index)),
                                   cd_capability_id (descriptors ! index))) [0..<length descriptors]))"

fun rfilter :: "('a \<Rightarrow> bool result) \<Rightarrow> 'a list \<Rightarrow> 'a list result" where
  "rfilter p [] = Inr []"
| "rfilter p (x # xs) = rbind (p x) (\<lambda>b. rbind (rfilter p xs) (\<lambda>ys. Inr (if b then x # ys else ys)))"

definition no_caller :: resolve_context where
  "no_caller = \<lparr>rx_username = [], rx_agent_instance_id = 0, rx_project_id = 0, rx_run_id = [], rx_sandbox = None\<rparr>"

definition authorized_descriptors ::
    "'w tool_controller \<Rightarrow> string list \<Rightarrow> string list \<Rightarrow> string \<Rightarrow> ('w, capability_descriptor list) io" where
  "authorized_descriptors tc providers selectors search =
     bindE (tv_list_descriptors tc (tv_run tc)
       \<lparr>cq_caller = no_caller, cq_providers = providers, cq_selectors = selectors, cq_search = search, cq_limit = None,
        cq_include_internal = True\<rparr>) (\<lambda>descriptors.
     liftE (rfilter (\<lambda>d. if cd_capability_id d = CAPABILITY_DISCOVER_TOOL_ID then Inr False
                        else ceiling_allows (ap_capability_ceiling (tv_profile tc)) (cd_capability_id d)) descriptors))"

subsection \<open>Promotion\<close>

definition schema_size :: "(json \<Rightarrow> string) \<Rightarrow> capability_descriptor \<Rightarrow> int" where
  "schema_size dumps d = int (length (utf8_encode (dumps (cd_parameter_schema d))))"

text \<open>The loop of \<^verbatim>\<open>_promote\<close>: identifiers promoted, identifiers skipped, whether anything changed, and the state.\<close>

fun promote_loop ::
    "(json \<Rightarrow> string) \<Rightarrow> capability_descriptor list \<Rightarrow> bool \<Rightarrow> controller_state \<Rightarrow> (string list \<times> string list) \<times> bool \<times> controller_state" where
  "promote_loop dumps [] changed ct = (([], []), changed, ct)"
| "promote_loop dumps (d # ds) changed ct =
     (let capability = cd_capability_id d; size = schema_size dumps d in
      if capability = CAPABILITY_DISCOVER_TOOL_ID \<or> dict_get (ct_promoted ct) capability \<noteq> None
      then case promote_loop dumps ds changed ct of ((promoted, skipped), rest) \<Rightarrow> ((capability # promoted, skipped), rest)
      else if MAX_PROMOTED_SCHEMA_BYTES < ct_schema_bytes ct + size
      then case promote_loop dumps ds changed ct of ((promoted, skipped), rest) \<Rightarrow> ((promoted, capability # skipped), rest)
      else case promote_loop dumps ds True
                  (ct\<lparr>ct_schema_bytes := ct_schema_bytes ct + size, ct_promoted := dict_set capability d (ct_promoted ct)\<rparr>)
           of ((promoted, skipped), rest) \<Rightarrow> ((capability # promoted, skipped), rest))"

definition promote :: "(json \<Rightarrow> string) \<Rightarrow> capability_descriptor list \<Rightarrow> controller_state \<Rightarrow> (string list \<times> string list) \<times> controller_state" where
  "promote dumps ds ct =
     (case promote_loop dumps ds False ct of (out, changed, ct) \<Rightarrow> (out, if changed then ct\<lparr>ct_revision := ct_revision ct + 1\<rparr> else ct))"

subsection \<open>Search and browse\<close>

definition discover_search :: "'w tool_controller \<Rightarrow> capability_call \<Rightarrow> (controller_state \<times> 'w, observation) io" where
  "discover_search tc call =
     (let query = py_strip (json_str (tv_repr tc) (arg_or call ''query'' (JStr []))) in
      case discover_filters (tv_repr tc) call of
        Inl message \<Rightarrow> retE (discover_failed call message)
      | Inr (providers, selectors) \<Rightarrow>
          if query = [] \<and> selectors = []
          then retE (discover_failed call ''search requires query or selectors; use browse to list capabilities.'')
          else case json_int (arg_or call ''limit'' (JInt MAX_SEARCH_PROMOTIONS)) of
                 Inl _ \<Rightarrow> retE (discover_failed call ''limit must be an integer.'')
               | Inr requested \<Rightarrow>
                   let n = nat (min MAX_SEARCH_PROMOTIONS (max 1 requested)) in
                   bindE (onworld (authorized_descriptors tc providers selectors query)) (\<lambda>descriptors.
                   let ranked = (if query \<noteq> [] then rank_descriptors (tv_score tc) query descriptors
                                 else sort_key cd_capability_id descriptors) in
                   bindE (getE (\<lambda>s. promote (tv_dumps tc) (take n ranked) (fst s))) (\<lambda>((promoted, skipped), ct).
                   thenE (assign (\<lambda>_. ct))
                     (retE (discover_succeeded (tv_dumps tc) call
                       [(''action'', JStr ''search''), (''matches'', JList (map compact_payload (take n ranked))),
                        (''promoted_capability_ids'', JList (map JStr promoted)), (''skipped_schema_budget'', JList (map JStr skipped)),
                        (''toolset_revision'', JInt (ct_revision ct))]
                       (''Promoted '' @ str_of_int (int (length promoted)) @ '' capability tools.''))))))"

text \<open>The page of a listing that a cursor denotes, and the cursor of the next page.\<close>

definition browse_page :: "capability_descriptor list \<Rightarrow> nat \<Rightarrow> int \<Rightarrow> capability_descriptor list \<times> string" where
  "browse_page descriptors page_size offset =
     (let page = take page_size (drop (nat offset) descriptors);
          next_offset = offset + int (length page)
      in (page, if next_offset < int (length descriptors) then encode_cursor next_offset else []))"

definition discover_browse :: "'w tool_controller \<Rightarrow> capability_call \<Rightarrow> (controller_state \<times> 'w, observation) io" where
  "discover_browse tc call =
     (case discover_filters (tv_repr tc) call of
        Inl message \<Rightarrow> retE (discover_failed call message)
      | Inr (providers, selectors) \<Rightarrow>
          (case rbind (json_int (arg_or call ''page_size'' (JInt 20))) (\<lambda>requested.
                rbind (decode_cursor (json_str (tv_repr tc) (arg_or call ''cursor'' (JStr [])))) (\<lambda>offset.
                  Inr (nat (min MAX_BROWSE_PAGE_SIZE (max 1 requested)), offset))) of
             Inl _ \<Rightarrow> retE (discover_failed call ''page_size or cursor is invalid.'')
           | Inr (page_size, offset) \<Rightarrow>
               if offset < 0 then retE (discover_failed call ''cursor must not be negative.'')
               else
                 bindE (onworld (authorized_descriptors tc providers selectors [])) (\<lambda>authorized.
                 let descriptors = sort_key cd_capability_id authorized in
                 case browse_page descriptors page_size offset of (page, next_cursor) \<Rightarrow>
                 bindE (getE (\<lambda>s. ct_revision (fst s))) (\<lambda>revision.
                 retE (discover_succeeded (tv_dumps tc) call
                   [(''action'', JStr ''browse''), (''capabilities'', JList (map compact_payload page)),
                    (''total'', JInt (int (length descriptors))), (''next_cursor'', JStr next_cursor), (''toolset_revision'', JInt revision)]
                   (''Listed '' @ str_of_int (int (length page)) @ '' of '' @ str_of_int (int (length descriptors)) @ '' capabilities.''))))))"

definition discover :: "'w tool_controller \<Rightarrow> capability_call \<Rightarrow> agent_loop_snapshot \<Rightarrow> (controller_state \<times> 'w, observation) io" where
  "discover tc call snapshot =
     (let action = py_lower (py_strip (json_str (tv_repr tc) (arg_or call ''action'' (JStr [])))) in
      if action = ''search'' then discover_search tc call
      else if action = ''browse'' then discover_browse tc call
      else retE (discover_failed call (''action must be '' @ [CHR 39] @ ''search'' @ [CHR 39] @ '' or '' @ [CHR 39] @ ''browse'' @ [CHR 39] @ ''.'')))"

subsection \<open>The toolset\<close>

definition discover_descriptor :: agent_tool_descriptor where
  "discover_descriptor =
     \<lparr>td_tool_id = CAPABILITY_DISCOVER_TOOL_ID, td_description =
        ''Discover capabilities authorized by your profile. action='' @ [CHR 39] @ ''search'' @ [CHR 39] @ '' ranks matches and automatically '' @
        ''promotes up to 5 full-schema native tools within a 30 KB schema budget; call a promoted capability '' @
        ''directly on the next turn. action='' @ [CHR 39] @ ''browse'' @ [CHR 39] @ '' returns compact metadata, total, and pagination cursor but '' @
        ''never promotes tools. Use browse for inventory/listing questions, and search for execution.'',
      td_parameter_schema = JObj [(''type'', JStr ''object''),
        (''properties'', JObj [(''action'', JObj [(''type'', JStr ''string''), (''enum'', JList [JStr ''search'', JStr ''browse''])]),
           (''query'', JObj [(''type'', JStr ''string'')]),
           (''selectors'', JObj [(''type'', JStr ''array''), (''items'', JObj [(''type'', JStr ''string'')])]),
           (''providers'', JObj [(''type'', JStr ''array''), (''items'', JObj [(''type'', JStr ''string'')])]),
           (''limit'', JObj [(''type'', JStr ''integer''), (''minimum'', JInt 1), (''maximum'', JInt MAX_SEARCH_PROMOTIONS)]),
           (''page_size'', JObj [(''type'', JStr ''integer''), (''minimum'', JInt 1), (''maximum'', JInt MAX_BROWSE_PAGE_SIZE)]),
           (''cursor'', JObj [(''type'', JStr ''string'')])]),
        (''required'', JList [JStr ''action'']), (''additionalProperties'', JBool False)]\<rparr>"

definition bind_capability :: "'w tool_controller \<Rightarrow> capability_descriptor \<Rightarrow> (controller_state \<times> 'w) bound_agent_tool" where
  "bind_capability tc d =
     \<lparr>bt_descriptor = \<lparr>td_tool_id = cd_capability_id d, td_description = cd_description d, td_parameter_schema = cd_parameter_schema d\<rparr>,
      bt_invoke = (\<lambda>call snapshot.
        bindE (liftE (ceiling_allows (ap_capability_ceiling (tv_profile tc)) (cl_capability call))) (\<lambda>allowed.
          if \<not> allowed then retE (discover_failed call (''Profile '' @ tv_repr tc (JStr (ap_profile_id (tv_profile tc))) @ '' does not authorize '' @
                 tv_repr tc (JStr (cl_capability call)) @ ''.''))
          else onworld (tv_invoke tc (tv_run tc) call
                 \<lparr>aic_profile_id = ap_profile_id (tv_profile tc), aic_step = sn_turn snapshot,
                  aic_policies = ap_invocation_policies (tv_profile tc), aic_history = sn_history snapshot\<rparr>)))\<rparr>"

definition controller_snapshot :: "'w tool_controller \<Rightarrow> (controller_state \<times> 'w, (controller_state \<times> 'w) agent_toolset) io" where
  "controller_snapshot tc =
     getE (\<lambda>s. \<lparr>tz_revision = ct_revision (fst s),
                tz_tools = \<lparr>bt_descriptor = discover_descriptor, bt_invoke = discover tc\<rparr> # map (bind_capability tc) (dict_values (ct_promoted (fst s)))\<rparr>)"

subsection \<open>What discovery keeps\<close>

text \<open>
  \<open>promotable\<close>: a capability other than the discovery tool that the ceiling of the profile admits.
  \<open>controller_ok\<close>: the promoted tools are promotable and each has its own identifier, and the schema bytes are theirs and within the budget.
\<close>

definition promotable :: "'w tool_controller \<Rightarrow> capability_descriptor \<Rightarrow> bool" where
  "promotable tc d \<longleftrightarrow> cd_capability_id d \<noteq> CAPABILITY_DISCOVER_TOOL_ID
     \<and> ceiling_allows (ap_capability_ceiling (tv_profile tc)) (cd_capability_id d) = Inr True"

definition controller_ok :: "'w tool_controller \<Rightarrow> controller_state \<Rightarrow> bool" where
  "controller_ok tc ct \<longleftrightarrow> dict_ok (ct_promoted ct) \<and> (\<forall>(k, d) \<in> set (ct_promoted ct). k = cd_capability_id d \<and> promotable tc d)
     \<and> ct_schema_bytes ct = sum_list (map (schema_size (tv_dumps tc)) (dict_values (ct_promoted ct)))
     \<and> ct_schema_bytes ct \<le> MAX_PROMOTED_SCHEMA_BYTES"

lemma controller_ok_initial: "controller_ok tc initial_controller"
  by (simp add: controller_ok_def initial_controller_def MAX_PROMOTED_SCHEMA_BYTES_def)

lemma controller_ok_revision [simp]: "controller_ok tc (ct\<lparr>ct_revision := n\<rparr>) = controller_ok tc ct"
  by (simp add: controller_ok_def)

lemma rfilter_sound: "rfilter p xs = Inr ys \<Longrightarrow> \<forall>y \<in> set ys. y \<in> set xs \<and> p y = Inr True"
  by (induction xs arbitrary: ys) (auto simp: rbind_Inr_iff split: if_splits)

lemma authorized_promotable:
  "authorized_descriptors tc providers selectors search w = (Inr ds, w') \<Longrightarrow> d \<in> set ds \<Longrightarrow> promotable tc d"
  unfolding authorized_descriptors_def
  by (auto simp: bindE_Inr_iff liftE_def promotable_def dest!: rfilter_sound split: if_splits)

lemma rank_descriptors_set: "set (rank_descriptors score query ds) = set ds"
proof -
  have "(!) ds ` {0..<length ds} = set ds" by (auto simp: set_conv_nth)
  then show ?thesis by (simp add: rank_descriptors_def Let_def)
qed

lemma dict_set_new: "dict_get d k = None \<Longrightarrow> dict_set k v d = d @ [(k, v)]"
  by (induction d) (auto split: if_splits)

lemma promote_loop_keeps:
  assumes "promote_loop (tv_dumps tc) ds changed ct = ((promoted, skipped), changed', ct')" and "controller_ok tc ct"
    and "\<forall>d \<in> set ds. promotable tc d"
  shows "controller_ok tc ct' \<and> prefix (ct_promoted ct) (ct_promoted ct') \<and> ct_revision ct' = ct_revision ct
    \<and> length (ct_promoted ct') \<le> length (ct_promoted ct) + length ds \<and> changed' = (changed \<or> ct_promoted ct' \<noteq> ct_promoted ct)
    \<and> set promoted \<subseteq> set (dict_keys (ct_promoted ct')) \<and> set promoted \<union> set skipped = cd_capability_id ` set ds
    \<and> (ct_promoted ct' = ct_promoted ct \<longrightarrow> ct' = ct)"
  using assms
proof (induction ds arbitrary: changed ct promoted skipped)
  case Nil
  then show ?case by simp
next
  case (Cons d ds)
  let ?c = "cd_capability_id d" and ?z = "schema_size (tv_dumps tc) d"
  have pd: "promotable tc d" "\<forall>d \<in> set ds. promotable tc d" using Cons.prems(3) by simp_all
  consider (known) "dict_get (ct_promoted ct) ?c \<noteq> None"
    | (large) "dict_get (ct_promoted ct) ?c = None" "MAX_PROMOTED_SCHEMA_BYTES < ct_schema_bytes ct + ?z"
    | (fresh) "dict_get (ct_promoted ct) ?c = None" "\<not> MAX_PROMOTED_SCHEMA_BYTES < ct_schema_bytes ct + ?z" by blast
  then show ?case
  proof cases
    case known
    with Cons.prems(1) obtain p where p: "promoted = ?c # p" "promote_loop (tv_dumps tc) ds changed ct = ((p, skipped), changed', ct')"
      by (auto simp: Let_def split: prod.splits)
    from known have "?c \<in> set (dict_keys (ct_promoted ct))" by (metis dict_get_None_iff)
    then show ?thesis using Cons.IH [OF p(2) Cons.prems(2) pd(2)] p(1) by (auto dest: set_mono_prefix)
  next
    case large
    with Cons.prems(1) pd(1) obtain k where k: "skipped = ?c # k" "promote_loop (tv_dumps tc) ds changed ct = ((promoted, k), changed', ct')"
      by (auto simp: Let_def promotable_def split: prod.splits)
    show ?thesis using Cons.IH [OF k(2) Cons.prems(2) pd(2)] k(1) by auto
  next
    case fresh
    let ?ct = "ct\<lparr>ct_schema_bytes := ct_schema_bytes ct + ?z, ct_promoted := ct_promoted ct @ [(?c, d)]\<rparr>"
    from fresh Cons.prems(1) pd(1) obtain p where p: "promoted = ?c # p" "promote_loop (tv_dumps tc) ds True ?ct = ((p, skipped), changed', ct')"
      by (auto simp: Let_def promotable_def dict_set_new split: prod.splits)
    have "dict_ok (ct_promoted ct @ [(?c, d)])" using Cons.prems(2) fresh(1) unfolding dict_set_new [OF fresh(1), symmetric] controller_ok_def by simp
    then have "controller_ok tc ?ct" using Cons.prems(2) fresh pd(1) by (auto simp: controller_ok_def)
    note ih = Cons.IH [OF p(2) this pd(2)]
    then have "prefix (ct_promoted ct) (ct_promoted ct')" "?c \<in> set (dict_keys (ct_promoted ct'))" "ct_promoted ct' \<noteq> ct_promoted ct"
      by (auto simp: prefix_def)
    with ih show ?thesis using p(1) by auto
  qed
qed

text \<open>What one discovery call does to the state of the controller.\<close>

definition toolset_grown :: "controller_state \<Rightarrow> controller_state \<Rightarrow> bool" where
  "toolset_grown ct ct' \<longleftrightarrow> prefix (ct_promoted ct) (ct_promoted ct') \<and> int (length (ct_promoted ct')) \<le> int (length (ct_promoted ct)) + MAX_SEARCH_PROMOTIONS
     \<and> (if ct_promoted ct' = ct_promoted ct then ct' = ct else ct_revision ct' = ct_revision ct + 1)"

lemma toolset_grown_refl [simp]: "toolset_grown ct ct"
  by (simp add: toolset_grown_def MAX_SEARCH_PROMOTIONS_def)

lemma promote_keeps:
  assumes "promote (tv_dumps tc) ds ct = (out, ct')" and "controller_ok tc ct" and "\<forall>d \<in> set ds. promotable tc d"
    and "int (length ds) \<le> MAX_SEARCH_PROMOTIONS"
  shows "controller_ok tc ct' \<and> toolset_grown ct ct'"
proof -
  obtain p s changed ct1 where l: "promote_loop (tv_dumps tc) ds False ct = ((p, s), changed, ct1)"
    by (cases "promote_loop (tv_dumps tc) ds False ct") (metis prod.exhaust)
  from promote_loop_keeps [OF l assms(2,3)] assms(1,4) l show ?thesis
    by (auto simp: promote_def toolset_grown_def split: if_splits)
qed

lemma search_keeps:
  assumes "controller_ok tc ct" and "discover_search tc call (ct, w) = (r, (ct', w'))"
  shows "controller_ok tc ct' \<and> toolset_grown ct ct'"
proof -
  have found: "controller_ok tc ct1 \<and> toolset_grown ct ct1"
    if "authorized_descriptors tc providers selectors query w = (Inr ds, w1)" and "set ranked = set ds" and "0 \<le> n" "n \<le> MAX_SEARCH_PROMOTIONS"
      and "promote (tv_dumps tc) (take (nat n) ranked) ct = (out, ct1)" for providers selectors query ds w1 ranked n out ct1
  proof (rule promote_keeps [OF that(5) assms(1)])
    show "\<forall>d \<in> set (take (nat n) ranked). promotable tc d" using authorized_promotable [OF that(1)] that(2) by (blast dest: in_set_takeD)
    show "int (length (take (nat n) ranked)) \<le> MAX_SEARCH_PROMOTIONS" using that(3,4) by simp
  qed
  show ?thesis
  proof (cases "discover_filters (tv_repr tc) call")
    case (Inl m)
    then show ?thesis using assms by (simp add: discover_search_def)
  next
    case (Inr f)
    obtain providers selectors where f: "discover_filters (tv_repr tc) call = Inr (providers, selectors)" using Inr by (cases f) simp
    let ?query = "py_strip (json_str (tv_repr tc) (arg_or call ''query'' (JStr [])))"
    obtain x w1 where a: "authorized_descriptors tc providers selectors ?query w = (x, w1)" by (cases "authorized_descriptors tc providers selectors ?query w")
    show ?thesis
    proof (cases "\<exists>ds n. x = Inr ds \<and> json_int (arg_or call ''limit'' (JInt MAX_SEARCH_PROMOTIONS)) = Inr n \<and> \<not> (?query = [] \<and> selectors = [])")
      case False
      then show ?thesis using assms a f by (cases x) (auto simp: discover_search_def Let_def split: if_splits sum.splits)
    next
      case True
      then obtain ds n where t: "x = Inr ds" "json_int (arg_or call ''limit'' (JInt MAX_SEARCH_PROMOTIONS)) = Inr n" "\<not> (?query = [] \<and> selectors = [])"
        by blast
      let ?ranked = "if ?query \<noteq> [] then rank_descriptors (tv_score tc) ?query ds else sort_key cd_capability_id ds"
      let ?n = "min MAX_SEARCH_PROMOTIONS (max 1 n)"
      obtain out ct1 where p: "promote (tv_dumps tc) (take (nat ?n) ?ranked) ct = (out, ct1)" by (cases "promote (tv_dumps tc) (take (nat ?n) ?ranked) ct")
      have "ct' = ct1" using assms(2) f t a p by (cases out) (auto simp: discover_search_def Let_def)
      moreover have "set ?ranked = set ds" by (simp add: rank_descriptors_set)
      ultimately show ?thesis using found [OF a [unfolded t(1)] _ _ _ p] by (simp add: MAX_SEARCH_PROMOTIONS_def)
    qed
  qed
qed

lemma browse_keeps: "discover_browse tc call (ct, w) = (r, (ct', w')) \<Longrightarrow> ct' = ct"
  by (auto simp: discover_browse_def onworld_apply bindE_apply split: if_splits sum.splits prod.splits)

lemma discover_keeps:
  assumes "controller_ok tc ct" and "discover tc call snapshot (ct, w) = (r, (ct', w'))"
  shows "controller_ok tc ct' \<and> toolset_grown ct ct'"
proof -
  let ?action = "py_lower (py_strip (json_str (tv_repr tc) (arg_or call ''action'' (JStr []))))"
  consider "?action = ''search''" | "?action = ''browse''" | "?action \<noteq> ''search''" "?action \<noteq> ''browse''" by blast
  then show ?thesis
  proof cases
    case 1
    then show ?thesis using search_keeps [OF assms(1)] assms(2) by (simp add: discover_def)
  next
    case 2
    then have "ct' = ct" using browse_keeps [of tc call ct w r ct' w'] assms(2) by (simp add: discover_def)
    then show ?thesis using assms(1) by simp
  next
    case 3
    then show ?thesis using assms by (simp add: discover_def)
  qed
qed

text \<open>A session: discovery calls one after the other, whatever they return or raise.\<close>

fun discover_session :: "'w tool_controller \<Rightarrow> (capability_call \<times> agent_loop_snapshot) list \<Rightarrow> controller_state \<times> 'w \<Rightarrow> controller_state list" where
  "discover_session tc [] s = [fst s]"
| "discover_session tc ((call, snapshot) # calls) s = fst s # discover_session tc calls (snd (discover tc call snapshot s))"

lemma session_keeps:
  assumes "controller_ok tc ct"
  shows "list_all (controller_ok tc) (discover_session tc calls (ct, w)) \<and> successively toolset_grown (discover_session tc calls (ct, w))"
  using assms
proof (induction calls arbitrary: ct w)
  case (Cons x calls)
  obtain call sn where x: "x = (call, sn)" by force
  obtain r ct' w' where d: "discover tc call sn (ct, w) = (r, (ct', w'))" by (metis prod.exhaust)
  note k = discover_keeps [OF Cons.prems d]
  obtain cs where "discover_session tc calls (ct', w') = ct' # cs" by (cases calls) auto
  with k Cons.IH [of ct' w'] Cons.prems show ?case by (simp add: x d)
qed simp

text \<open>
  C21. Discovery never widens what a sub-agent may do. In whatever order a model searches and browses, at every moment of a session the
  promoted tools are capabilities that the ceiling of the profile admits, other than the discovery tool and each with its own identifier,
  and their schemas together stay within the budget of 30000 bytes. From one call to the next tools are only added, at most five, and
  the revision of the toolset grows by one exactly when tools were added.
\<close>

theorem discovery_within_ceiling:
  "list_all (controller_ok tc) (discover_session tc calls (initial_controller, w))
   \<and> successively toolset_grown (discover_session tc calls (initial_controller, w))"
  by (rule session_keeps [OF controller_ok_initial])

subsection \<open>Following the cursors\<close>

text \<open>A client that asks for page after page, from no cursor on, until there is no next one.\<close>

fun follow_pages :: "capability_descriptor list \<Rightarrow> nat \<Rightarrow> nat \<Rightarrow> string \<Rightarrow> capability_descriptor list list result" where
  "follow_pages ds page_size 0 cursor = Inl (Exn RuntimeError ''too many pages'')"
| "follow_pages ds page_size (Suc fuel) cursor =
     rbind (decode_cursor cursor) (\<lambda>offset.
       case browse_page ds page_size offset of (page, next_cursor) \<Rightarrow>
         if next_cursor = [] then Inr [page] else rbind (follow_pages ds page_size fuel next_cursor) (\<lambda>pages. Inr (page # pages)))"

lemma encode_cursor_nonempty: "0 < k \<Longrightarrow> encode_cursor k \<noteq> []"
  using decode_encode [of k] by (auto simp: decode_cursor_def)

lemma follow_pages_from:
  assumes "0 < n" and "decode_cursor cursor = Inr (int k)" and "length ds - k < fuel"
  shows "\<exists>pages. follow_pages ds n fuel cursor = Inr pages \<and> concat pages = drop k ds \<and> (\<forall>p \<in> set pages. length p \<le> n)"
  using assms(2,3)
proof (induction fuel arbitrary: k cursor)
  case (Suc fuel)
  let ?page = "take n (drop k ds)"
  have page: "browse_page ds n (int k) = (?page, if k + length ?page < length ds then encode_cursor (int (k + length ?page)) else [])"
    unfolding browse_page_def Let_def nat_int of_nat_add [symmetric] of_nat_less_iff ..
  show ?case
  proof (cases "k + length ?page < length ds")
    case False
    then have "?page = drop k ds" by auto
    with Suc.prems False page show ?thesis by (auto simp: min_def split: if_splits)
  next
    case True
    then have full: "length ?page = n" by auto
    have cur: "decode_cursor (encode_cursor (int (k + n))) = Inr (int (k + n))" by (rule decode_encode) simp
    have "length ds - (k + n) < fuel" using Suc.prems(2) True full assms(1) by arith
    then obtain pages where ih: "follow_pages ds n fuel (encode_cursor (int (k + n))) = Inr pages" "concat pages = drop (k + n) ds" "\<forall>p \<in> set pages. length p \<le> n"
      using Suc.IH [OF cur] by blast
    have "encode_cursor (int (k + n)) \<noteq> []" using encode_cursor_nonempty [of "int (k + n)"] assms(1) by simp
    moreover have "concat (?page # pages) = drop k ds" using append_take_drop_id [of n "drop k ds"] ih(2) by (simp add: add.commute)
    moreover have "browse_page ds n (int k) = (?page, encode_cursor (int (k + n)))" using page True full by simp
    ultimately show ?thesis using Suc.prems(1) ih full by (intro exI [of _ "?page # pages"]) simp
  qed
qed simp

text \<open>
  C22. Browsing shows the whole catalogue. A client that starts without a cursor and follows each next cursor that a page carries
  comes to an end, and the pages one after the other are the sorted listing, each entry once, with at most the requested number on
  a page. This rests on \<^verbatim>\<open>_decode_cursor\<close> being the inverse of \<^verbatim>\<open>_encode_cursor\<close>.
\<close>

theorem browsing_visits_all:
  assumes "0 < page_size"
  shows "\<exists>pages. follow_pages ds page_size (Suc (length ds)) [] = Inr pages \<and> concat pages = ds \<and> (\<forall>p \<in> set pages. length p \<le> page_size)"
  using follow_pages_from [OF assms, of "[]" 0 ds "Suc (length ds)"] by (simp add: decode_cursor_def)

text \<open>Three entries, two on a page.\<close>

definition sample_descriptor :: "string \<Rightarrow> capability_descriptor" where
  "sample_descriptor c = \<lparr>cd_capability_id = c, cd_parameter_schema = JObj [], cd_required_sandbox = [], cd_workspace_access = ''none'',
     cd_effect = ''read'', cd_description = [], cd_when_to_use = [], cd_visibility = ''public''\<rparr>"

theorem browsing_visits_all_witness:
  "\<exists>pages. follow_pages (map sample_descriptor [''b:a'', ''b:c'', ''b:d'']) 2 4 [] = Inr pages
     \<and> concat pages = map sample_descriptor [''b:a'', ''b:c'', ''b:d''] \<and> (\<forall>p \<in> set pages. length p \<le> 2)"
  using browsing_visits_all [of 2 "map sample_descriptor [''b:a'', ''b:c'', ''b:d'']"] by (simp add: eval_nat_numeral del: follow_pages.simps)

end
