(* ===== verification/Capability_Invoker.thy ===== *)
theory Capability_Invoker
  imports Capability_Executor Tool_Controller
begin

section \<open>Calls of a sub-agent as child runs\<close>

text \<open>
  \<^verbatim>\<open>sub_agent/invoker.py\<close>: each capability call of a sub-agent is a child run of its own, with an identifier that is derived from
  the parent and the call. The executor, the layout of the workspace, the transcript file, the MIME table and the check that a file exists
  are other components and fields of \<open>capability_invoker\<close>. \<open>iv_interrupted\<close> tells whether a cancellation arrives while the shielded
  write of a new child is awaited.
\<close>

record 'w capability_invoker =
  iv_run_resolved :: "task_run \<Rightarrow> 'w capability_binding \<Rightarrow> 'w execution_policy option \<Rightarrow> ('w, task_result) io"
  iv_resolver :: "'w capability_resolver"
  iv_store :: "'w run_store"
  iv_repr :: "json \<Rightarrow> string"
  iv_workspace :: "task_run \<Rightarrow> path"
  iv_interrupted :: "('w, bool) io"
  iv_reset_transcript :: "path \<Rightarrow> ('w, unit) io"
  iv_append_transcript :: "path \<Rightarrow> agent_loop_event \<Rightarrow> ('w, unit) io"
  iv_flush_transcript :: "path \<Rightarrow> ('w, unit) io"
  iv_perf_counter :: "('w, rat) io"
  iv_guess_type :: "string \<Rightarrow> string option"
  iv_is_file :: "path \<Rightarrow> ('w, bool) io"

text \<open>\<^verbatim>\<open>with contextlib.suppress(Exception, asyncio.CancelledError)\<close>.\<close>

definition suppress_all :: "('w, unit) io \<Rightarrow> ('w, unit) io" where
  "suppress_all m = catchE m (\<lambda>_. retE ())"

subsection \<open>The policies of a profile\<close>

fun first_denial ::
    "(json \<Rightarrow> string) \<Rightarrow> capability_call \<Rightarrow> invocation_policy_context \<Rightarrow> 'w invocation_policy list \<Rightarrow> ('w, string option) io" where
  "first_denial repr call policy_context [] = retE None"
| "first_denial repr call policy_context (policy # policies) =
     bindE (policy policy_context call) (\<lambda>decision.
       if \<not> iy_allowed decision
       then retE (Some (str_or (iy_reason decision) (''Invocation policy denied '' @ repr (JStr (cl_capability call)) @ ''.'')))
       else first_denial repr call policy_context policies)"

definition profile_capability_policy ::
    "(json \<Rightarrow> string) \<Rightarrow> 'w agent_invocation_context \<Rightarrow> capability_call \<Rightarrow> 'w execution_policy" where
  "profile_capability_policy repr context call run descriptor =
     first_denial repr call
       \<lparr>ic_run = run, ic_profile_id = aic_profile_id context, ic_step = aic_step context, ic_descriptor = descriptor,
        ic_history = aic_history context\<rparr> (aic_policies context)"

subsection \<open>The child run\<close>

definition child_run_id :: "task_run \<Rightarrow> capability_call \<Rightarrow> string" where
  "child_run_id parent call = tr_run_id parent @ ''-'' @ str_or (cl_call_id call) (cl_capability call)"

definition child_batch_id :: "task_run \<Rightarrow> string" where
  "child_batch_id parent = tr_run_id parent @ ''-calls''"

definition guide_ref_json :: "skill_guide_ref \<Rightarrow> json" where
  "guide_ref_json ref =
     JObj [(''skill_id'', JInt (sg_skill_id ref)), (''version'', JStr (sg_version ref)), (''content_hash'', JStr (sg_content_hash ref))]"

definition child_metadata :: "task_spec \<Rightarrow> jobj" where
  "child_metadata spec =
     (let metadata = ts_metadata spec;
          instruction_refs = (case ts_dispatch spec of Sub_Agent_Dispatch d \<Rightarrow> sd_instruction_refs d | Capability_Dispatch _ \<Rightarrow> []) in
      if instruction_refs = [] then metadata
      else let metadata = dict_setdefault ''_task_runtime'' (JObj []) metadata in
           case dict_get metadata ''_task_runtime'' of
             Some (JObj m) \<Rightarrow>
               dict_set ''_task_runtime'' (JObj (dict_set ''instruction_refs'' (JList (map guide_ref_json instruction_refs)) m)) metadata
           | _ \<Rightarrow> metadata)"

definition capability_spec :: "(json \<Rightarrow> string) \<Rightarrow> task_run \<Rightarrow> string \<Rightarrow> jobj \<Rightarrow> task_spec result" where
  "capability_spec repr parent capability args =
     rbind (validate_task_spec
       \<lparr>ts_task_id = ts_task_id (tr_spec parent) @ '':'' @ capability,
        ts_title = ts_title (tr_spec parent) @ '' '' @ [char_of (183 :: nat)] @ '' '' @ capability, ts_instructions = [],
        ts_dispatch = Capability_Dispatch capability,
        ts_display = \<lparr>td_plan_title = [], td_batch_step_title = [], td_single_step_title = []\<rparr>, ts_args = args,
        ts_metadata = child_metadata (tr_spec parent), ts_required_sandbox = ts_required_sandbox (tr_spec parent), ts_stage = 0,
        ts_idempotency_key = []\<rparr>)
       (set_selected_sandbox (selected_sandbox repr (tr_spec parent)))"

definition child_run ::
    "(json \<Rightarrow> string) \<Rightarrow> task_run \<Rightarrow> capability_call \<Rightarrow> string \<Rightarrow> jobj \<Rightarrow> jobj \<Rightarrow> ('z rt_world_scheme, task_run) io" where
  "child_run repr parent call capability args secret_args =
     bindE (liftE (capability_spec repr parent capability args)) (\<lambda>spec.
     bindE now_ms (\<lambda>queued_at.
     let run_id = child_run_id parent call;
         child = parent\<lparr>tr_run_id := run_id, tr_batch_id := child_batch_id parent, tr_batch_item_index := 0, tr_spec := spec,
           tr_idempotency_key := run_id, tr_status := QUEUED, tr_attempt := 1, tr_worker_id := None, tr_fencing_token := [],
           tr_runtime_stage := [], tr_queued_at := queued_at, tr_started_at := None, tr_heartbeat_at := None, tr_ended_at := None,
           tr_latest_progress_message := [], tr_latest_progress_at := 0, tr_last_error_class := None, tr_last_error := []\<rparr>
     in retE (bind_scheduled_batch (scheduled_batch_id parent) (bind_secret_arguments secret_args child))))"

text \<open>\<^verbatim>\<open>==\<close> on JSON values: numbers and truth values compare as numbers, dictionaries whatever their order.\<close>

fun json_number :: "json \<Rightarrow> rat option" where
  "json_number (JBool b) = Some (if b then 1 else 0)"
| "json_number (JInt i) = Some (of_int i)"
| "json_number (JFloat q) = Some q"
| "json_number _ = None"

lemma zip_left_size [termination_simp]: "(x, y) \<in> set (zip xs ys) \<Longrightarrow> size x < Suc (size_list size xs)"
  using size_list_estimation' [of x xs "size x" size] set_zip_leftD by (fastforce simp: less_Suc_eq_le)

fun json_equal :: "json \<Rightarrow> json \<Rightarrow> bool" where
  "json_equal (JObj a) b =
     (case b of
        JObj b \<Rightarrow> length a = length b \<and> list_all (\<lambda>(k, v). case dict_get b k of None \<Rightarrow> False | Some u \<Rightarrow> json_equal v u) a
      | _ \<Rightarrow> False)"
| "json_equal (JList xs) b = (case b of JList ys \<Rightarrow> length xs = length ys \<and> list_all (\<lambda>(x, y). json_equal x y) (zip xs ys) | _ \<Rightarrow> False)"
| "json_equal (JStr s) b = (b = JStr s)"
| "json_equal JNull b = (b = JNull)"
| "json_equal x b = (json_number b = json_number x)"

definition same_call :: "task_spec \<Rightarrow> task_spec \<Rightarrow> bool" where
  "same_call existing current \<longleftrightarrow>
     task_capability_id existing = task_capability_id current \<and> json_equal (JObj (ts_args existing)) (JObj (ts_args current))"

definition existing_child :: "'w run_store \<Rightarrow> string \<Rightarrow> ('w, task_detail option) io" where
  "existing_child st run_id =
     catch_class FileNotFoundError (bindE (rs_get_task_detail st run_id VIEW_SUMMARY) (\<lambda>d. retE (Some d))) (\<lambda>_. retE None)"

definition create_child :: "'w capability_invoker \<Rightarrow> task_run \<Rightarrow> ('w, unit) io" where
  "create_child iv child =
     (let never_started = (\<lambda>e. thenE (suppress_all (rs_cancel_run (iv_store iv) (tr_run_id child) ''Nested capability call was never started.''))
                                 (raiseE e)) in
      bindE (iv_interrupted iv) (\<lambda>interrupted.
        if interrupted
        then thenE (suppress_all (rs_create_run (iv_store iv) child)) (never_started (Exn CancelledError []))
        else catchE (rs_create_run (iv_store iv) child)
               (\<lambda>e. if exn_class e = IdempotencyCollisionError then raiseE e else never_started e)))"

definition reuse_or_create_child :: "'w capability_invoker \<Rightarrow> task_run \<Rightarrow> ('w, task_result option) io" where
  "reuse_or_create_child iv child =
     bindE (existing_child (iv_store iv) (tr_run_id child)) (\<lambda>found.
       case found of
         None \<Rightarrow> thenE (create_child iv child) (retE None)
       | Some existing \<Rightarrow>
           if \<not> same_call (tr_spec (det_run existing)) (tr_spec child)
           then raiseE (Exn RuntimeError (''child run '' @ tr_run_id child @ '' already records a different call ('' @
                  iv_repr iv (JStr (task_capability_id (tr_spec (det_run existing)))) @ '')''))
           else if secret_arguments child \<noteq> []
           then raiseE (Exn RuntimeError (''child run '' @ tr_run_id child @ '' already exists and carries sensitive arguments; not reusable''))
           else case det_result existing of
                  Some result \<Rightarrow> retE (Some result)
                | None \<Rightarrow>
                    if tr_status (det_run existing) \<in> set TERMINAL_RUN_STATUSES
                    then raiseE (Exn RuntimeError (''child run '' @ tr_run_id child @ '' settled as '' @
                           task_status_value (tr_status (det_run existing)) @ '' without a recorded result''))
                    else raiseE (Exn RuntimeError (''child run '' @ tr_run_id child @ '' already exists and is still in flight'')))"

subsection \<open>Observations\<close>

definition image_content :: "'w capability_invoker \<Rightarrow> path option \<Rightarrow> artifact_ref \<Rightarrow> ('w, agent_content option) io" where
  "image_content iv workspace artifact =
     (let declared = json_or_empty (dict_get (ar_metadata artifact) ''mime_type'');
          mime_type = (if declared = JStr [] then (case iv_guess_type iv (ar_name artifact) of Some t \<Rightarrow> t | None \<Rightarrow> [])
                       else json_str (iv_repr iv) declared);
          metadata = [(''artifact_name'', JStr (ar_name artifact)), (''artifact_uri'', JStr (ar_uri artifact))];
          content = (\<lambda>metadata. Some \<lparr>ac_type = ''image'', ac_text = [], ac_uri = ar_uri artifact, ac_mime_type = str_or mime_type ''image/png'',
                       ac_metadata = metadata\<rparr>) in
      if ar_type artifact \<noteq> ART_SCREENSHOT \<and> \<not> prefix ''image/'' mime_type then retE None
      else case workspace of
             None \<Rightarrow> retE (content metadata)
           | Some ws \<Rightarrow>
               if ar_filepath artifact = [] then retE (content metadata)
               else let candidate = path_resolve (path_join ws (ar_filepath artifact)) in
                    if \<not> is_relative_to candidate (path_resolve ws) then retE (content metadata)
                    else bindE (iv_is_file iv candidate) (\<lambda>is_file.
                           retE (content (if is_file then metadata @ [(''local_path'', JStr (path_str candidate))] else metadata))))"

definition observation_from_result ::
    "'w capability_invoker \<Rightarrow> capability_call \<Rightarrow> task_result \<Rightarrow> path option \<Rightarrow> ('w, observation) io" where
  "observation_from_result iv call result workspace =
     bindE (mapE (image_content iv workspace) (res_artifacts result)) (\<lambda>contents.
       retE \<lparr>obs_capability = cl_capability call, obs_ok = (res_status result = COMPLETED),
             obs_content = str_or (res_output result) (str_or (res_summary result) (res_error_message result)), obs_call_id = cl_call_id call,
             obs_arguments = None, obs_run_id = res_run_id result, obs_status = task_status_value (res_status result),
             obs_summary = res_summary result,
             obs_error_class = (case res_error_class result of Some ec \<Rightarrow> error_class_value ec | None \<Rightarrow> []),
             obs_error_message = res_error_message result,
             obs_artifacts = map (\<lambda>a. str_or (ar_filepath a) (ar_uri a)) (res_artifacts result),
             obs_contents = List.map_filter id contents, obs_usage = no_usage\<rparr>)"

definition call_failed :: "capability_call \<Rightarrow> string \<Rightarrow> observation" where
  "call_failed call message =
     \<lparr>obs_capability = cl_capability call, obs_ok = False, obs_content = message, obs_call_id = cl_call_id call, obs_arguments = None,
      obs_run_id = [], obs_status = task_status_value FAILED, obs_summary = message, obs_error_class = error_class_value INTERNAL,
      obs_error_message = message, obs_artifacts = [], obs_contents = [], obs_usage = no_usage\<rparr>"

definition reconciled_failure :: "'w capability_invoker \<Rightarrow> capability_call \<Rightarrow> task_run \<Rightarrow> exn \<Rightarrow> ('w, observation) io" where
  "reconciled_failure iv call child exc =
     bindE (catch_Exception (existing_child (iv_store iv) (tr_run_id child)) (\<lambda>_. retE None)) (\<lambda>detail.
       case (case detail of None \<Rightarrow> None | Some d \<Rightarrow> det_result d) of
         Some result \<Rightarrow> observation_from_result iv call result (Some (iv_workspace iv child))
       | None \<Rightarrow>
           thenE (suppress_all (rs_cancel_run (iv_store iv) (tr_run_id child) (''Nested capability call did not complete: '' @ exn_message exc)))
             (retE (call_failed call (''Capability '' @ iv_repr iv (JStr (cl_capability call)) @ '' crashed: '' @ exn_message exc))))"

subsection \<open>One call\<close>

definition child_event_transcript_path :: "'w capability_invoker \<Rightarrow> task_run \<Rightarrow> path" where
  "child_event_transcript_path iv run =
     path_join (path_join (path_join (path_join (path_join (iv_workspace iv run) ''results'') (tr_batch_id run)) (tr_run_id run))
       (''attempt-'' @ str_of_int (tr_attempt run))) ''events.jsonl''"

definition invoker_list_descriptors ::
    "'w capability_invoker \<Rightarrow> task_run \<Rightarrow> catalogue_query \<Rightarrow> ('w, capability_descriptor list) io" where
  "invoker_list_descriptors iv run query = list_descriptors (iv_resolver iv) (query\<lparr>cq_caller := resolve_context_from_run run\<rparr>)"

text \<open>What \<^verbatim>\<open>invoke\<close> does once the child has been created, around the call \<open>work\<close> of the executor.\<close>

definition child_call ::
    "'w capability_invoker \<Rightarrow> task_run \<Rightarrow> capability_call \<Rightarrow> int \<Rightarrow> task_run \<Rightarrow> ('w, task_result) io \<Rightarrow> ('w, observation) io" where
  "child_call iv run call turn child work =
     (let transcript = child_event_transcript_path iv child in
      thenE (suppressE (iv_reset_transcript iv transcript))
     (thenE (suppressE (iv_append_transcript iv transcript (Tool_Call_Requested turn call)))
     (bindE (iv_perf_counter iv) (\<lambda>started.
      bindE (catchE
               (bindE work (\<lambda>result. retE (Inr result)))
               (\<lambda>e. if is_Exception e then retE (Inl e)
                    else thenE (suppress_all (rs_cancel_run (iv_store iv) (tr_run_id child) ''Parent sub-agent run was cancelled.''))
                        (thenE (suppressE (iv_flush_transcript iv transcript)) (raiseE e)))) (\<lambda>outcome.
      bindE (case outcome of
               Inl exc \<Rightarrow> reconciled_failure iv call child exc
             | Inr result \<Rightarrow> observation_from_result iv call result (Some (iv_workspace iv run))) (\<lambda>observation.
      bindE (iv_perf_counter iv) (\<lambda>now.
      thenE (suppressE (iv_append_transcript iv transcript (Tool_Call_Completed turn call observation (elapsed_ms started now))))
     (thenE (suppressE (iv_flush_transcript iv transcript)) (retE observation)))))))))"

definition execute_child ::
    "'w capability_invoker \<Rightarrow> task_run \<Rightarrow> capability_call \<Rightarrow> 'w agent_invocation_context \<Rightarrow> 'w capability_binding \<Rightarrow> task_run \<Rightarrow> ('w, observation) io" where
  "execute_child iv run call context binding child =
     child_call iv run call (max 1 (aic_step context)) child
       (iv_run_resolved iv child binding
          (if aic_policies context = [] then None else Some (profile_capability_policy (iv_repr iv) context call)))"

definition invoke_resolved ::
    "'z rt_world_scheme capability_invoker \<Rightarrow> task_run \<Rightarrow> capability_call \<Rightarrow> 'z rt_world_scheme agent_invocation_context \<Rightarrow> string
       \<Rightarrow> 'z rt_world_scheme capability_binding \<Rightarrow> ('z rt_world_scheme, observation) io" where
  "invoke_resolved iv run call context capability binding =
     (let (public_args, secret_args) = split_sensitive_arguments (cl_args call) (cd_parameter_schema (bd_descriptor binding)) in
      bindE (child_run (iv_repr iv) run call capability public_args secret_args) (\<lambda>child.
      bindE (catch_Exception (bindE (reuse_or_create_child iv child) (\<lambda>prior. retE (Inr prior))) (\<lambda>e. retE (Inl e))) (\<lambda>prior.
        case prior of
          Inl exc \<Rightarrow>
            retE (call_failed call (''Capability '' @ iv_repr iv (JStr (cl_capability call)) @ '' could not be dispatched: '' @ exn_message exc))
        | Inr (Some result) \<Rightarrow> observation_from_result iv call result (Some (iv_workspace iv run))
        | Inr None \<Rightarrow> execute_child iv run call context binding child)))"

definition invoke_capability ::
    "'z rt_world_scheme capability_invoker \<Rightarrow> task_run \<Rightarrow> capability_call \<Rightarrow> 'z rt_world_scheme agent_invocation_context
       \<Rightarrow> ('z rt_world_scheme, observation) io" where
  "invoke_capability iv run call context =
     bindE (liftE (normalize_capability_id (cl_capability call))) (\<lambda>capability.
     bindE (resolve_capability (iv_resolver iv) capability (resolve_context_from_run run)) (\<lambda>found.
       case found of
         None \<Rightarrow> retE (call_failed call (''Capability '' @ iv_repr iv (JStr (cl_capability call)) @ '' could not be resolved.''))
       | Some binding \<Rightarrow> invoke_resolved iv run call context capability binding))"

subsection \<open>A call is executed at most once\<close>

lemma bindE_cong_run: "(\<And>a s'. m s = (Inr a, s') \<Longrightarrow> f a s' = g a s') \<Longrightarrow> bindE m f s = bindE m g s"
  by (cases "m s"; cases "fst (m s)") (auto simp: bindE_apply)

lemma catchE_cong_run: "m s = n s \<Longrightarrow> catchE m h s = catchE n h s"
  by (simp add: catchE_def)

text \<open>An executor that claims the run and then does nothing.\<close>

definition claim_only :: "'w run_store \<Rightarrow> string \<Rightarrow> task_run \<Rightarrow> 'w capability_binding \<Rightarrow> 'w execution_policy option \<Rightarrow> ('w, task_result) io" where
  "claim_only st worker child binding policy =
     bindE (rs_claim_run st (tr_run_id child) worker) (\<lambda>_. raiseE (Exn RuntimeError ''nothing was executed''))"

lemma invoker_simps [simp]:
  "image_content (iv\<lparr>iv_run_resolved := x\<rparr>) = image_content iv"
  "observation_from_result (iv\<lparr>iv_run_resolved := x\<rparr>) = observation_from_result iv"
  "reconciled_failure (iv\<lparr>iv_run_resolved := x\<rparr>) = reconciled_failure iv"
  "create_child (iv\<lparr>iv_run_resolved := x\<rparr>) = create_child iv"
  "reuse_or_create_child (iv\<lparr>iv_run_resolved := x\<rparr>) = reuse_or_create_child iv"
  "child_event_transcript_path (iv\<lparr>iv_run_resolved := x\<rparr>) = child_event_transcript_path iv"
  "child_call (iv\<lparr>iv_run_resolved := x\<rparr>) = child_call iv"
proof -
  show img: "image_content (iv\<lparr>iv_run_resolved := x\<rparr>) = image_content iv" by (intro ext) (simp add: image_content_def Let_def cong: if_cong option.case_cong)
  show obs: "observation_from_result (iv\<lparr>iv_run_resolved := x\<rparr>) = observation_from_result iv"
    by (intro ext) (simp add: observation_from_result_def img)
  show rec: "reconciled_failure (iv\<lparr>iv_run_resolved := x\<rparr>) = reconciled_failure iv" by (intro ext) (simp add: reconciled_failure_def obs cong: option.case_cong)
  show cr: "create_child (iv\<lparr>iv_run_resolved := x\<rparr>) = create_child iv" by (intro ext) (simp add: create_child_def Let_def cong: if_cong)
  show "reuse_or_create_child (iv\<lparr>iv_run_resolved := x\<rparr>) = reuse_or_create_child iv" by (intro ext) (simp add: reuse_or_create_child_def cr cong: if_cong option.case_cong)
  show path: "child_event_transcript_path (iv\<lparr>iv_run_resolved := x\<rparr>) = child_event_transcript_path iv"
    by (intro ext) (simp add: child_event_transcript_path_def)
  show "child_call (iv\<lparr>iv_run_resolved := x\<rparr>) = child_call iv"
    by (intro ext) (simp add: child_call_def path rec obs Let_def cong: if_cong sum.case_cong)
qed

text \<open>The calls of the invoker to other components leave \<open>P\<close> as it is.\<close>

definition invoker_keeps :: "'w capability_invoker \<Rightarrow> ('w \<Rightarrow> bool) \<Rightarrow> bool" where
  "invoker_keeps iv P \<longleftrightarrow>
     (\<forall>pid pv cap ctx. dict_get (iv_resolver iv) pid = Some pv \<longrightarrow> preserves P (pv_resolve pv cap ctx))
     \<and> preserves P (iv_interrupted iv) \<and> (\<forall>p. preserves P (iv_reset_transcript iv p)) \<and> (\<forall>p e. preserves P (iv_append_transcript iv p e))
     \<and> (\<forall>p. preserves P (iv_flush_transcript iv p)) \<and> preserves P (iv_perf_counter iv) \<and> (\<forall>p. preserves P (iv_is_file iv p))"

lemma resolve_keeps: "invoker_keeps iv P \<Longrightarrow> preserves P (resolve_capability (iv_resolver iv) cap ctx)"
  unfolding resolve_capability_def invoker_keeps_def
  by (auto intro!: preserves_intros split: option.splits offered.splits)

lemma child_run_id_of: "child_run repr parent call cap args sec w = (Inr child, w') \<Longrightarrow> tr_run_id child = child_run_id parent call \<and> fs_runs w' = fs_runs w"
  for w :: "'z fs_world_scheme"
  by (auto simp: child_run_def bindE_Inr_iff liftE_def now_ms_def bind_scheduled_batch_def bind_secret_arguments_def Let_def)

lemma catchE_Inr_iff: "catchE m h s = (Inr a, s') \<longleftrightarrow> m s = (Inr a, s') \<or> (\<exists>e u. m s = (Inl e, u) \<and> h e u = (Inr a, s'))"
  by (auto simp: catchE_def split: prod.splits sum.splits)

lemma get_task_detail_found:
  assumes "find_run rid w = Some (k, r)" and "tr_status r = QUEUED"
  shows "\<exists>d. get_task_detail sha rt rid view w = (Inr d, w)"
  using assms by (simp add: get_task_detail_def bindE_read_run)

lemma get_task_detail_same: "get_task_detail sha rt rid view w = (x, w') \<Longrightarrow> w' = w"
  by (auto simp: get_task_detail_def read_run_by_id_def read_result_def bindE_apply split: option.splits sum.splits if_splits)

lemma existing_child_apply:
  "existing_child st rid w =
     (case rs_get_task_detail st rid VIEW_SUMMARY w of
        (Inl e, u) \<Rightarrow> (if exn_class e = FileNotFoundError then Inr None else Inl e, u)
      | (Inr d, u) \<Rightarrow> (Inr (Some d), u))"
  by (simp add: existing_child_def catch_class_def catchE_def bindE_apply split: prod.split sum.split)

lemma existing_child_None:
  assumes "existing_child st rid w = (Inr None, w')" and st: "rs_get_task_detail st = get_task_detail sha rt" and "find_run rid w = Some (k, r)"
  shows "w' = w \<and> tr_status r \<noteq> QUEUED"
proof -
  obtain x u where x: "get_task_detail sha rt rid VIEW_SUMMARY w = (x, u)" by (cases "get_task_detail sha rt rid VIEW_SUMMARY w")
  from assms(1) obtain e where e: "get_task_detail sha rt rid VIEW_SUMMARY w = (Inl e, w')"
    unfolding existing_child_apply st x by (cases x) (simp_all split: if_splits)
  have "\<not> tr_status r = QUEUED" using get_task_detail_found [OF assms(3), of sha rt VIEW_SUMMARY] e by auto
  then show ?thesis using get_task_detail_same [OF e] by simp
qed

lemma create_child_found:
  assumes "create_child iv child w = (Inr u, w')" and st: "rs_create_run (iv_store iv) = create_run" and "find_run rid w = Some (k, r)"
    and keep: "preserves (\<lambda>v. find_run rid v = Some (k, r)) (iv_interrupted iv)"
  shows "find_run rid w' = Some (k, r)"
proof -
  obtain b w1 where i: "iv_interrupted iv w = (Inr b, w1)" and c: "create_run child w1 = (Inr (), w')"
    using assms(1) by (auto simp: create_child_def st bindE_Inr_iff thenE_Inr_iff catchE_Inr_iff Let_def split: if_splits)
  have "find_run rid w1 = Some (k, r)" using preservesD [OF keep assms(3) i] .
  moreover have "fs_runs w' = fs_runs w1 \<or> (\<exists>x. fs_runs w' = fs_runs w1 @ [x])"
    using c by (auto simp: create_run_def put_run_def lookup_idempotent_def bindE_Inr_iff Let_def dict_set_new split: option.splits if_splits)
  ultimately show ?thesis unfolding find_run_def by (auto simp: find_append)
qed

text \<open>A call depends on the executor only in the states where the executor is called.\<close>

lemma child_call_cong:
  assumes keep: "invoker_keeps iv P" and "P w" and same: "\<And>v. P v \<Longrightarrow> work v = work' v"
  shows "child_call iv run call turn child work w = child_call iv run call turn child work' w"
proof -
  have pre: "preserves P (suppressE (iv_reset_transcript iv p))" "preserves P (suppressE (iv_append_transcript iv p e))"
    "preserves P (iv_perf_counter iv)" for p e
    using keep by (auto simp: invoker_keeps_def intro: preserves_intros)
  have catch: "catchE (bindE work f) h v = catchE (bindE work' f) h v" if "P v" for f h v
    by (rule catchE_cong_run) (simp add: bindE_apply same [OF that])
  show ?thesis
    unfolding child_call_def Let_def thenE_def
  proof (rule bindE_cong_run, rule bindE_cong_run, rule bindE_cong_run, goal_cases)
    case (1 u1 w1 u2 w2 t w3)
    then have "P w3" using pre assms(2) preservesD by metis
    then show ?case by (simp add: bindE_apply catch)
  qed
qed

lemma refused_claim:
  assumes "find_run (tr_run_id child) v = Some (k, r)" and "tr_status r \<noteq> QUEUED" and "rs_claim_run st = claim_run"
  shows "run_resolved env st child binding policy v = claim_only st (ce_worker_id env) child binding policy v"
  using assms by (simp add: run_resolved_def capability_run_body_def claim_only_def claim_run_def bindE_read_run)

text \<open>
  C17. A sub-agent call is executed at most once. Once a run with the identifier of the child is in the filesystem store, invoking the
  call again, for instance after a lost response, is the same as invoking it with an executor that does nothing after its claim:
  the recorded result is reused, or the call is reported as failed, but no handler runs. This holds although a missing
  output file makes the store report the child as absent, because the second claim of the child is refused.
\<close>

theorem nested_call_at_most_once:
  fixes iv :: "'z fs_world_scheme capability_invoker"
  assumes st: "iv_store iv = file_run_store sha rt" and found: "find_run (child_run_id run call) w = Some (k, r)"
    and keep: "invoker_keeps iv (\<lambda>v. find_run (child_run_id run call) v = Some (k, r))"
  shows "invoke_capability (iv\<lparr>iv_run_resolved := run_resolved env (iv_store iv)\<rparr>) run call context w
    = invoke_capability (iv\<lparr>iv_run_resolved := claim_only (iv_store iv) (ce_worker_id env)\<rparr>) run call context w"
proof -
  let ?rid = "child_run_id run call" and ?P = "\<lambda>v. find_run (child_run_id run call) v = Some (k, r)"
  have ops: "rs_claim_run (iv_store iv) = claim_run" "rs_create_run (iv_store iv) = create_run" "rs_get_task_detail (iv_store iv) = get_task_detail sha rt"
    by (simp_all add: st file_run_store_def)
  have reach: "tr_status r \<noteq> QUEUED \<and> ?P v'"
    if "reuse_or_create_child iv child v = (Inr None, v')" and "tr_run_id child = ?rid" and "?P v" for child v v'
  proof -
    from that obtain d v1 where e: "existing_child (iv_store iv) ?rid v = (Inr d, v1)"
      by (auto simp: reuse_or_create_child_def bindE_Inr_iff)
    with that(1,2) have "d = None" by (auto simp: reuse_or_create_child_def split: if_splits option.splits)
    note n = existing_child_None [OF e [unfolded this] ops(3) that(3)]
    with e that(1,2) \<open>d = None\<close> obtain u where "create_child iv child v = (Inr u, v')"
      by (auto simp: reuse_or_create_child_def thenE_Inr_iff)
    from create_child_found [OF this ops(2) that(3)] keep n show ?thesis by (simp add: invoker_keeps_def)
  qed
  let ?iv = "\<lambda>x. iv\<lparr>iv_run_resolved := x\<rparr>" and ?exec = "run_resolved env (iv_store iv)" and ?idle = "claim_only (iv_store iv) (ce_worker_id env)"
  have exec: "execute_child (?iv ?exec) run call context binding child v = execute_child (?iv ?idle) run call context binding child v"
    if "tr_run_id child = ?rid" "?P v" "tr_status r \<noteq> QUEUED" for child v binding
    unfolding execute_child_def invoker_simps
    by (rule child_call_cong [OF keep that(2)]) (simp add: that(1) refused_claim [OF _ that(3) ops(1)] cong: if_cong)
  have res: "invoke_resolved (?iv ?exec) run call context cap binding v = invoke_resolved (?iv ?idle) run call context cap binding v"
    if "?P v" for cap binding v
  proof -
    obtain pub sec where sp: "split_sensitive_arguments (cl_args call) (cd_parameter_schema (bd_descriptor binding)) = (pub, sec)" by force
    have tail: "execute_child (?iv ?exec) run call context binding child v2 = execute_child (?iv ?idle) run call context binding child v2"
      if c: "child_run (iv_repr iv) run call cap pub sec v = (Inr child, v1)"
        and r: "catch_Exception (bindE (reuse_or_create_child iv child) (\<lambda>prior. retE (Inr prior))) (\<lambda>e. retE (Inl e)) v1 = (Inr (Inr None), v2)" for child v1 v2
    proof -
      have id: "tr_run_id child = ?rid" and "?P v1" using child_run_id_of [OF c] \<open>?P v\<close> by (simp_all add: find_run_def)
      from r have "reuse_or_create_child iv child v1 = (Inr None, v2)"
        by (auto simp: catch_Exception_def catchE_Inr_iff bindE_Inr_iff split: if_splits)
      with reach [OF _ id \<open>?P v1\<close>] exec [OF id] show ?thesis by blast
    qed
    show ?thesis
      unfolding invoke_resolved_def Let_def sp prod.case invoker_simps
      by (simp, intro bindE_cong_run) (auto intro!: tail split: sum.split option.split)
  qed
  have run: "preserves ?P (resolve_capability (iv_resolver iv) cap ctx)" for cap ctx using resolve_keeps [OF keep] .
  show ?thesis
    unfolding invoke_capability_def
    by (intro bindE_cong_run) (auto intro!: bindE_cong_run res dest: preservesD [OF run found] split: option.split)
qed

text \<open>A call whose child has completed before.\<close>

definition sample_invoker :: "fs_world capability_invoker" where
  "sample_invoker =
     \<lparr>iv_run_resolved = run_resolved sample_capability_env (file_run_store (\<lambda>_. ''d'') [''/'', ''results'']),
      iv_resolver = [(''a'', \<lparr>pv_provider_id = ''a'', pv_resolve = (\<lambda>_ _. retE (Some (Offered crashing_binding))), pv_list_descriptors = (\<lambda>_. retE [])\<rparr>)],
      iv_store = file_run_store (\<lambda>_. ''d'') [''/'', ''results''], iv_repr = (\<lambda>_. []), iv_workspace = (\<lambda>_. [''/'']), iv_interrupted = retE False,
      iv_reset_transcript = (\<lambda>_. retE ()), iv_append_transcript = (\<lambda>_ _. retE ()), iv_flush_transcript = (\<lambda>_. retE ()),
      iv_perf_counter = retE 0, iv_guess_type = (\<lambda>_. None), iv_is_file = (\<lambda>_. retE False)\<rparr>"

definition sample_call :: capability_call where
  "sample_call = \<lparr>cl_capability = ''a:b'', cl_args = [], cl_call_id = ''c''\<rparr>"

definition sample_invocation :: "'w agent_invocation_context" where
  "sample_invocation = \<lparr>aic_profile_id = ''p'', aic_step = 1, aic_policies = [], aic_history = []\<rparr>"

lemma sample_invoker_keeps: "invoker_keeps sample_invoker P"
  by (auto simp: invoker_keeps_def sample_invoker_def split: if_splits)

theorem nested_call_at_most_once_witness:
  "invoke_capability sample_invoker (sample_run ''r'' RUNNING) sample_call sample_invocation (sample_store [sample_run ''r-c'' COMPLETED])
   = invoke_capability (sample_invoker\<lparr>iv_run_resolved := claim_only (iv_store sample_invoker) (ce_worker_id (sample_capability_env :: fs_world capability_env))\<rparr>)
       (sample_run ''r'' RUNNING) sample_call sample_invocation (sample_store [sample_run ''r-c'' COMPLETED])"
proof -
  have st: "iv_store sample_invoker = file_run_store (\<lambda>_. ''d'') [''/'', ''results'']" by (simp add: sample_invoker_def)
  have f: "find_run (child_run_id (sample_run ''r'' RUNNING) sample_call) (sample_store [sample_run ''r-c'' COMPLETED])
      = Some ((''b'', ''r-c''), sample_run ''r-c'' COMPLETED)"
    by (simp add: find_run_def child_run_id_def sample_call_def sample_store_def run_key_of_def sample_run_def str_or_def)
  have "sample_invoker\<lparr>iv_run_resolved := run_resolved sample_capability_env (iv_store sample_invoker)\<rparr> = sample_invoker"
    by (simp add: sample_invoker_def)
  with nested_call_at_most_once [OF st f sample_invoker_keeps, of sample_capability_env sample_invocation] show ?thesis by argo
qed

end
