(* ===== verification/Sub_Agent_Executor.thy ===== *)
theory Sub_Agent_Executor
  imports Capability_Invoker
begin

section \<open>The executor of sub-agents\<close>

text \<open>
  \<^verbatim>\<open>sub_agent/executor.py\<close>: one loop engine inside the lifecycle of a run. The executor claims the run, resolves the profile and the
  skill guides, builds the tool controller and the request, consumes the events of the engine, turns the final event into a
  result, adds the artifacts of the child runs and writes the result. The engine runs in the world of the executor, extended by the
  state of the tool controller and by the variables of the consumer. The guides, the transcript file and the traceback
  of an exception are other components or the interpreter, and fields of \<open>sub_agent_executor\<close>.
\<close>

definition DEFAULT_MAX_MODEL_TURNS :: int where
  "DEFAULT_MAX_MODEL_TURNS = 32"

definition DEFAULT_STALL_LIMIT :: int where
  "DEFAULT_STALL_LIMIT = 3"

record agent_executor_options =
  xo_default_max_model_turns :: int
  xo_default_max_tool_calls :: "int option"
  xo_stall_limit :: int
  xo_worker_id :: string

definition default_executor_options :: agent_executor_options where
  "default_executor_options =
     \<lparr>xo_default_max_model_turns = DEFAULT_MAX_MODEL_TURNS, xo_default_max_tool_calls = None, xo_stall_limit = DEFAULT_STALL_LIMIT,
      xo_worker_id = ''sub-agent-executor''\<rparr>"

text \<open>The variables of \<^verbatim>\<open>_consume_engine\<close>.\<close>

record consumer =
  cs_finished :: "loop_finished option"
  cs_child_run_ids :: "string list"

type_synonym 'w engine_world = "consumer \<times> (controller_state \<times> 'w)"

record ('g, 'w) sub_agent_executor =
  sx_engine :: "agent_loop_request \<Rightarrow> 'w engine_world bound_agent_tool list \<Rightarrow> 'w engine_world agent_loop_runtime \<Rightarrow>
                (agent_loop_event \<Rightarrow> ('w engine_world, unit) io) \<Rightarrow> ('w engine_world, unit) io"
  sx_list_descriptors :: "task_run \<Rightarrow> catalogue_query \<Rightarrow> ('w, capability_descriptor list) io"
  sx_invoke :: "task_run \<Rightarrow> capability_call \<Rightarrow> 'w agent_invocation_context \<Rightarrow> ('w, observation) io"
  sx_resolve_profile :: "string \<Rightarrow> 'w agent_profile option"
  sx_resolve_guide :: "(skill_guide_ref \<Rightarrow> 'g result) option"
  sx_project_guides :: "'g list \<Rightarrow> task_run \<Rightarrow> ('w, 'g list) io"
  sx_render_guides :: "'g list \<Rightarrow> string"
  sx_before_model :: "agent_loop_snapshot \<Rightarrow> ('w, prepared_model_context) io"
  sx_options :: agent_executor_options
  sx_workspace :: "task_run \<Rightarrow> path"
  sx_reset_transcript :: "path \<Rightarrow> ('w, unit) io"
  sx_append_transcript :: "path \<Rightarrow> agent_loop_event \<Rightarrow> ('w, unit) io"
  sx_flush_transcript :: "path \<Rightarrow> ('w, unit) io"
  sx_repr :: "json \<Rightarrow> string"
  sx_dumps :: "json \<Rightarrow> string"
  sx_score :: "string list \<Rightarrow> string list list \<Rightarrow> nat \<Rightarrow> bool \<Rightarrow> rat"
  sx_traceback :: "exn \<Rightarrow> string"
  sx_stream_of :: "exn \<Rightarrow> string \<Rightarrow> string option"

definition static_before_model :: "agent_loop_snapshot \<Rightarrow> ('w, prepared_model_context) io" where
  "static_before_model snapshot = retE \<lparr>pm_blocks = lq_context (sn_request snapshot), pm_history = None\<rparr>"

subsection \<open>Results\<close>

definition sub_agent_completed ::
    "task_run \<Rightarrow> int \<Rightarrow> string \<Rightarrow> string \<Rightarrow> (string, int) dict \<Rightarrow> ('z rt_world_scheme, task_result) io" where
  "sub_agent_completed run started_at summary output metrics =
     bindE now_ms (\<lambda>ended_at.
       retE ((bare_result run COMPLETED (str_or summary ''Sub-agent completed.'') None [] started_at ended_at (max 0 (ended_at - started_at)))
         \<lparr>res_output := str_or output summary, res_sandbox := tr_sandbox run, res_metrics := metrics\<rparr>))"

definition sub_agent_failed ::
    "task_run \<Rightarrow> int \<Rightarrow> error_class \<Rightarrow> string \<Rightarrow> (string, int) dict \<Rightarrow> ('z rt_world_scheme, task_result) io" where
  "sub_agent_failed run started_at ec message metrics =
     bindE now_ms (\<lambda>ended_at.
       retE ((bare_result run FAILED message (Some ec) message started_at ended_at (max 0 (ended_at - started_at)))
         \<lparr>res_sandbox := tr_sandbox run, res_metrics := metrics\<rparr>))"

fun py_join :: "string \<Rightarrow> string list \<Rightarrow> string" where
  "py_join sep [] = []"
| "py_join sep [x] = x"
| "py_join sep (x # y # zs) = x @ sep @ py_join sep (y # zs)"

definition failed_from_exception ::
    "('g, 'z rt_world_scheme) sub_agent_executor \<Rightarrow> task_run \<Rightarrow> int \<Rightarrow> string \<Rightarrow> exn \<Rightarrow> ('z rt_world_scheme, task_result) io" where
  "failed_from_exception sx run started_at label exc =
     (let summary = label @ '': '' @ exn_message exc;
          streams = List.map_filter (\<lambda>name. case sx_stream_of sx exc name of
                      Some stream \<Rightarrow> if py_strip stream \<noteq> [] then Some (name @ CHR '':'' # CHR 10 # py_strip stream) else None
                    | None \<Rightarrow> None) [''stdout'', ''stderr''];
          detail = py_join [CHR 10, CHR 10] (summary # py_strip (sx_traceback sx exc) # streams) in
      bindE (sub_agent_failed run started_at INTERNAL detail []) (\<lambda>result. retE (result\<lparr>res_summary := summary, res_output := detail\<rparr>)))"

definition result_from_loop :: "task_run \<Rightarrow> int \<Rightarrow> loop_finished \<Rightarrow> ('z rt_world_scheme, task_result) io" where
  "result_from_loop run started_at finished =
     (let metrics = [(''model_turns'', lf_model_turns finished), (''tool_calls'', lf_tool_calls finished),
            (''input_tokens'', tu_input (lf_usage finished)), (''output_tokens'', tu_output (lf_usage finished)),
            (''total_tokens'', tu_total (lf_usage finished)), (''cached_input_tokens'', tu_cached_input (lf_usage finished)),
            (''reasoning_tokens'', tu_reasoning (lf_usage finished))] in
      if lf_outcome finished = ''completed'' then sub_agent_completed run started_at (lf_summary finished) (lf_output finished) metrics
      else sub_agent_failed run started_at
             (if lf_error_kind finished = ''policy_denied'' then POLICY_DENY
              else if lf_error_kind finished = ''transient'' then TRANSIENT else INTERNAL) (lf_summary finished) metrics)"

text \<open>One child of \<^verbatim>\<open>_promote_child_artifacts\<close>: the artifacts it adds, each URI once.\<close>

fun add_artifacts :: "artifact_ref list \<Rightarrow> artifact_ref list \<Rightarrow> artifact_ref list" where
  "add_artifacts [] artifacts = artifacts"
| "add_artifacts (a # others) artifacts =
     (if ar_uri a \<in> set (map ar_uri artifacts) then add_artifacts others artifacts else add_artifacts others (artifacts @ [a]))"

definition promote_one_child :: "'w run_store \<Rightarrow> string \<Rightarrow> artifact_ref list \<Rightarrow> ('w, artifact_ref list) io" where
  "promote_one_child st child artifacts =
     bindE (catchE (bindE (rs_get_task_detail st child VIEW_ARTIFACTS) (\<lambda>d. retE (Some d)))
              (\<lambda>e. if exn_class e \<in> {FileNotFoundError, ValueError} then retE None else raiseE e)) (\<lambda>detail.
       case detail of
         None \<Rightarrow> retE artifacts
       | Some d \<Rightarrow> retE (case det_result d of None \<Rightarrow> artifacts | Some result \<Rightarrow> add_artifacts (res_artifacts result) artifacts))"

definition promote_child_artifacts :: "'w run_store \<Rightarrow> task_result \<Rightarrow> string list \<Rightarrow> ('w, task_result) io" where
  "promote_child_artifacts st result child_run_ids =
     bindE (foldE (promote_one_child st) (dict_fromkeys child_run_ids) []) (\<lambda>artifacts.
       retE (case artifacts of [] \<Rightarrow> result | a # _ \<Rightarrow> result\<lparr>res_primary_artifact := Some a, res_artifacts := artifacts\<rparr>))"

subsection \<open>The events of the engine\<close>

definition event_transcript_path :: "('g, 'w) sub_agent_executor \<Rightarrow> task_run \<Rightarrow> path" where
  "event_transcript_path sx run =
     path_join (path_join (path_join (path_join (path_join (sx_workspace sx run) ''results'') (tr_batch_id run)) (tr_run_id run))
       (''attempt-'' @ str_of_int (tr_attempt run))) ''events.jsonl''"

definition consume_event ::
    "('g, 'z rt_world_scheme) sub_agent_executor \<Rightarrow> 'z rt_world_scheme run_store \<Rightarrow> task_run \<Rightarrow> agent_loop_event \<Rightarrow>
     ('z rt_world_scheme engine_world, unit) io" where
  "consume_event sx st run event =
     thenE (onworld (onworld (suppressE (sx_append_transcript sx (event_transcript_path sx run) event))))
       (case event of
          Tool_Call_Requested turn call \<Rightarrow>
            onworld (onworld (bindE now_ms (\<lambda>ts.
              rs_set_progress st (tr_run_id run) (''step '' @ str_of_int turn @ '': '' @ cl_capability call) (Some ts))))
        | Tool_Call_Completed turn call observation duration \<Rightarrow>
            if obs_run_id observation \<noteq> [] then assign (\<lambda>c. c\<lparr>cs_child_run_ids := cs_child_run_ids c @ [obs_run_id observation]\<rparr>) else retE ()
        | Loop_Finished finished \<Rightarrow> assign (\<lambda>c. c\<lparr>cs_finished := Some finished\<rparr>)
        | _ \<Rightarrow> retE ())"

text \<open>Tools and operations of the controller in the world of the engine.\<close>

definition lift_tool :: "'w bound_agent_tool \<Rightarrow> ('l \<times> 'w) bound_agent_tool" where
  "lift_tool t = \<lparr>bt_descriptor = bt_descriptor t, bt_invoke = (\<lambda>call snapshot. onworld (bt_invoke t call snapshot))\<rparr>"

definition lift_toolset :: "'w agent_toolset \<Rightarrow> ('l \<times> 'w) agent_toolset" where
  "lift_toolset ts = \<lparr>tz_revision = tz_revision ts, tz_tools = map lift_tool (tz_tools ts)\<rparr>"

text \<open>The native engine with the model, the clock and the digests of another world.\<close>

definition lift_engine :: "'w native_engine \<Rightarrow> ('l \<times> (controller_state \<times> 'w)) native_engine" where
  "lift_engine e =
     \<lparr>ne_stream = (\<lambda>st. map (\<lambda>m. onworld (onworld m)) (ne_stream e st)), ne_perf_counter = onworld (onworld (ne_perf_counter e)),
      ne_digest = ne_digest e, ne_render = ne_render e, ne_repr = ne_repr e\<rparr>"

definition sub_agent_runtime ::
    "('g, 'w) sub_agent_executor \<Rightarrow> task_run \<Rightarrow> 'w agent_profile \<Rightarrow> 'w tool_controller \<Rightarrow> ('l \<times> (controller_state \<times> 'w)) agent_loop_runtime" where
  "sub_agent_runtime sx run profile tc =
     \<lparr>lr_before_model = (\<lambda>snapshot. onworld (onworld (sx_before_model sx snapshot))),
      lr_evaluate_completion = (\<lambda>proposal snapshot. onworld (onworld (bindE
        (ap_completion_policy profile \<lparr>cp_run = run, cp_profile_id = ap_profile_id profile, cp_step = sn_turn snapshot, cp_history = sn_history snapshot\<rparr>
           proposal) (\<lambda>decision. retE \<lparr>dv_outcome = cy_outcome decision, dv_reason = cy_reason decision\<rparr>)))),
      lr_tool_controller = Some (onworld (bindE (controller_snapshot tc) (\<lambda>ts. retE (lift_toolset ts)))) \<rparr>"

definition consume_engine ::
    "('g, 'z rt_world_scheme) sub_agent_executor \<Rightarrow> 'z rt_world_scheme run_store \<Rightarrow> task_run \<Rightarrow> agent_loop_request \<Rightarrow>
     (controller_state \<times> 'z rt_world_scheme) bound_agent_tool list \<Rightarrow> 'z rt_world_scheme tool_controller \<Rightarrow> 'z rt_world_scheme agent_profile \<Rightarrow>
     int \<Rightarrow> ('z rt_world_scheme, task_result) io" where
  "consume_engine sx st run request tools tc profile started_at =
     (let transcript = event_transcript_path sx run in
      thenE (suppressE (sx_reset_transcript sx transcript))
     (bindE (withlocals initial_controller (withlocals \<lparr>cs_finished = None, cs_child_run_ids = []\<rparr>
        (thenE (finallyE (sx_engine sx request (map lift_tool tools) (sub_agent_runtime sx run profile tc) (consume_event sx st run))
                 (onworld (onworld (suppressE (sx_flush_transcript sx transcript)))))
           (getE fst)))) (\<lambda>consumed.
      case cs_finished consumed of
        None \<Rightarrow> sub_agent_failed run started_at INTERNAL ''Agent loop ended without a terminal event.'' []
      | Some finished \<Rightarrow>
          bindE (result_from_loop run started_at finished) (\<lambda>result. promote_child_artifacts st result (cs_child_run_ids consumed)))))"

subsection \<open>One run\<close>

definition executor_tool_controller :: "('g, 'w) sub_agent_executor \<Rightarrow> task_run \<Rightarrow> 'w agent_profile \<Rightarrow> 'w tool_controller" where
  "executor_tool_controller sx run profile =
     \<lparr>tv_run = run, tv_profile = profile, tv_list_descriptors = sx_list_descriptors sx, tv_invoke = sx_invoke sx,
      tv_repr = sx_repr sx, tv_dumps = sx_dumps sx, tv_score = sx_score sx\<rparr>"

definition loop_request ::
    "('g, 'w) sub_agent_executor \<Rightarrow> task_run \<Rightarrow> 'w agent_profile \<Rightarrow> 'g list \<Rightarrow> agent_tool_descriptor list \<Rightarrow> agent_loop_request" where
  "loop_request sx run profile guides tools =
     \<lparr>lq_engine_run_id = tr_run_id run,
      lq_task = \<lparr>at_title = ts_title (tr_spec run), at_instructions = ts_instructions (tr_spec run), at_arguments = ts_args (tr_spec run)\<rparr>,
      lq_system_prompt = py_join [CHR 10, CHR 10]
        (filter (\<lambda>part. part \<noteq> []) [py_strip (ap_system_prompt profile), sx_render_guides sx guides]),
      lq_tools = tools,
      lq_limits = \<lparr>ll_max_model_turns =
          int_or (case ts_dispatch (tr_spec run) of Sub_Agent_Dispatch d \<Rightarrow> sd_max_model_turns d | Capability_Dispatch _ \<Rightarrow> None)
            (xo_default_max_model_turns (sx_options sx)),
        ll_max_tool_calls = xo_default_max_tool_calls (sx_options sx), ll_allow_parallel_tool_calls = False,
        ll_stall_limit = max 1 (xo_stall_limit (sx_options sx))\<rparr>,
      lq_context = [], lq_initial_messages = [], lq_provider_tools = []\<rparr>"

definition activate_guides :: "('g, 'w) sub_agent_executor \<Rightarrow> task_run \<Rightarrow> skill_guide_ref list \<Rightarrow> ('w, 'g list) io" where
  "activate_guides sx run instruction_refs =
     bindE (liftE (case sx_resolve_guide sx of None \<Rightarrow> Inr [] | Some resolve \<Rightarrow> rmap resolve instruction_refs)) (\<lambda>guides.
       if guides \<noteq> [] then sx_project_guides sx guides run else retE [])"

text \<open>The result of the run; the four places where \<^verbatim>\<open>run\<close> writes it are its four ends.\<close>

definition sub_agent_result ::
    "('g, 'z rt_world_scheme) sub_agent_executor \<Rightarrow> 'z rt_world_scheme run_store \<Rightarrow> task_run \<Rightarrow> ('z rt_world_scheme, task_result) io" where
  "sub_agent_result sx st run =
     bindE now_ms (\<lambda>started_at.
       let profile_id = (case ts_dispatch (tr_spec run) of Sub_Agent_Dispatch d \<Rightarrow> sd_profile_id d | Capability_Dispatch _ \<Rightarrow> []);
           instruction_refs = (case ts_dispatch (tr_spec run) of Sub_Agent_Dispatch d \<Rightarrow> sd_instruction_refs d | Capability_Dispatch _ \<Rightarrow> []) in
       case sx_resolve_profile sx profile_id of
         None \<Rightarrow> sub_agent_failed run started_at POLICY_DENY (''Unknown agent profile '' @ sx_repr sx (JStr profile_id) @ ''.'') []
       | Some profile \<Rightarrow>
           if instruction_refs \<noteq> [] \<and> sx_resolve_guide sx = None
           then sub_agent_failed run started_at USER_INPUT ''No skill guide registry is configured for this run.'' []
           else
             bindE (catch_class ValueError (bindE (activate_guides sx run instruction_refs) (\<lambda>guides. retE (Inr guides))) (\<lambda>e. retE (Inl e)))
               (\<lambda>activated.
                case activated of
                  Inl exc \<Rightarrow> sub_agent_failed run started_at USER_INPUT (''Skill guide activation failed: '' @ exn_message exc) []
                | Inr guides \<Rightarrow>
                    let tc = executor_tool_controller sx run profile in
                    bindE (withlocals initial_controller (controller_snapshot tc)) (\<lambda>toolset.
                      catch_Exception
                        (consume_engine sx st run (loop_request sx run profile guides (map bt_descriptor (tz_tools toolset)))
                           (tz_tools toolset) tc profile started_at)
                        (failed_from_exception sx run started_at ''Sub-agent loop crashed''))))"

definition sub_agent_run ::
    "('g, 'z rt_world_scheme) sub_agent_executor \<Rightarrow> 'z rt_world_scheme run_store \<Rightarrow> task_run \<Rightarrow> ('z rt_world_scheme, task_result) io" where
  "sub_agent_run sx st run =
     bindE (rs_claim_run st (tr_run_id run) (xo_worker_id (sx_options sx))) (\<lambda>token.
     bindE (sub_agent_result sx st run) (\<lambda>result.
     thenE (rs_write_result st (tr_run_id run) result token) (retE result)))"

subsection \<open>Engines that behave\<close>

text \<open>
  \<open>dutiful\<close> for operations with local variables, and for the parts of a loop: \<open>runtime_dutiful\<close> says that the hooks and the tools of a
  loop keep \<open>P\<close> and raise nothing but what an \<^verbatim>\<open>except Exception\<close> catches.
\<close>

lemma dutiful_locals:
  "dutiful P m \<Longrightarrow> dutiful (on_snd P) (onworld m)" "dutiful (on_snd P) (assign f)"
  "dutiful (on_snd P) n \<Longrightarrow> dutiful P (withlocals l n)"
proof -
  show "dutiful P m \<Longrightarrow> dutiful (on_snd P) (onworld m)" by (simp add: dutiful_def preserves_onworld mild_locals)
  show "dutiful (on_snd P) (assign f)" by (simp add: dutiful_def preserves_assign mild_locals)
  show "dutiful P (withlocals l n)" if "dutiful (on_snd P) n"
  proof -
    have "mild (withlocals l n)" unfolding mild_def
    proof (intro allI impI)
      fix s e s' assume "withlocals l n s = (Inl e, s')"
      then obtain l' where "n (l, s) = (Inl e, (l', s'))" by (auto simp: withlocals_def split: prod.splits)
      then show "is_Exception e" using that unfolding dutiful_def mild_def by blast
    qed
    with that show ?thesis by (simp add: dutiful_def preserves_withlocals)
  qed
qed

lemma dutiful_guarded:
  "dutiful P m \<Longrightarrow> dutiful P n \<Longrightarrow> dutiful P (finallyE m n)" "dutiful P u \<Longrightarrow> dutiful P (suppressE u)"
  "dutiful P (getE f)" "(\<And>e. x = Inl e \<Longrightarrow> is_Exception e) \<Longrightarrow> dutiful P (liftE x)"
proof -
  show "dutiful P (finallyE m n)" if "dutiful P m" "dutiful P n"
  proof -
    have "is_Exception e" if f: "finallyE m n s = (Inl e, s')" for s e s'
    proof -
      obtain r u c v where "m s = (r, u)" "n u = (c, v)" by (metis prod.exhaust)
      moreover have "is_Exception e" if "m s = (Inl e, s')" for s e s' using that \<open>dutiful P m\<close> unfolding dutiful_def mild_def by blast
      moreover have "is_Exception e" if "n s = (Inl e, s')" for s e s' using that \<open>dutiful P n\<close> unfolding dutiful_def mild_def by blast
      ultimately show ?thesis using f by (cases c) (auto simp: finallyE_def)
    qed
    then have "mild (finallyE m n)" unfolding mild_def by blast
    with that preserves_finallyE [of P m n] show ?thesis by (simp add: dutiful_def)
  qed
  show "dutiful P u \<Longrightarrow> dutiful P (suppressE u)" unfolding suppressE_def by (intro dutiful_basic)
  show "dutiful P (getE f)" by (simp add: dutiful_def mild_pure)
  show "(\<And>e. x = Inl e \<Longrightarrow> is_Exception e) \<Longrightarrow> dutiful P (liftE x)" by (simp add: dutiful_def mild_def)
qed

definition runtime_dutiful :: "('w \<Rightarrow> bool) \<Rightarrow> 'w bound_agent_tool list \<Rightarrow> 'w agent_loop_runtime \<Rightarrow> bool" where
  "runtime_dutiful P tools runtime \<longleftrightarrow>
     (\<forall>sn. dutiful P (lr_before_model runtime sn)) \<and> (\<forall>a sn. dutiful P (lr_evaluate_completion runtime a sn))
     \<and> dutiful P (current_toolset runtime tools)
     \<and> (\<forall>s ts s'. current_toolset runtime tools s = (Inr ts, s') \<longrightarrow> (\<forall>t \<in> set (tz_tools ts). \<forall>c sn. dutiful P (bt_invoke t c sn)))"

definition engine_dutiful ::
    "('w \<Rightarrow> bool) \<Rightarrow> (agent_loop_request \<Rightarrow> 'w bound_agent_tool list \<Rightarrow> 'w agent_loop_runtime \<Rightarrow> (agent_loop_event \<Rightarrow> ('w, unit) io) \<Rightarrow> ('w, unit) io) \<Rightarrow> bool" where
  "engine_dutiful P engine \<longleftrightarrow> (\<forall>request tools runtime emit. runtime_dutiful P tools runtime \<longrightarrow> (\<forall>e. dutiful P (emit e)) \<longrightarrow>
     dutiful P (engine request tools runtime emit))"

lemma loop_parts_dutiful:
  assumes emit: "\<And>e. dutiful P (emit e)"
  shows "dutiful P (stop_loop emit event)" "dutiful P (check_stall emit turn signature v)"
    "\<forall>m \<in> set items. dutiful P m \<Longrightarrow> dutiful P (stream_items emit turn items mt)"
proof -
  show stop: "dutiful P (stop_loop emit event)" for event unfolding stop_loop_def by (intro dutiful_basic emit)
  show "dutiful P (check_stall emit turn signature v)"
    unfolding check_stall_def Let_def by (auto intro: stop dutiful_basic split: prod.split)
  show "\<forall>m \<in> set items. dutiful P m \<Longrightarrow> dutiful P (stream_items emit turn items mt)"
  proof (induction items arbitrary: mt)
    case Nil
    then show ?case by (auto intro: dutiful_basic simp: is_Exception_def split: option.split)
  next
    case (Cons i items)
    then show ?case
      by (auto intro!: dutiful_bind dutiful_basic emit simp: is_Exception_def split: agent_model_item.split option.split)
  qed
qed

lemma native_turn_dutiful:
  assumes emit: "\<And>e. dutiful P (emit e)" and rt: "runtime_dutiful P tools runtime"
    and model: "\<And>st. \<forall>m \<in> set (ne_stream engine st). dutiful P m" "dutiful P (ne_perf_counter engine)"
  shows "dutiful P (native_turn engine request tools runtime emit turn v)"
proof -
  note parts = loop_parts_dutiful [of P emit, OF emit]
  have hooks: "dutiful P (lr_before_model runtime sn)" "dutiful P (lr_evaluate_completion runtime a sn)" "dutiful P (current_toolset runtime tools)" for sn a
    using rt by (auto simp: runtime_dutiful_def)
  have tool: "dutiful P (bt_invoke t c sn)" if "current_toolset runtime tools s = (Inr ts, s')" "bound_tool ts cap = Some t" for s ts s' t c sn cap
    using rt that bound_tool_in unfolding runtime_dutiful_def by blast
  have finish: "dutiful P (finish_answer engine request runtime emit turn rev a v)" for rev a v
    unfolding finish_answer_def Let_def by (auto intro!: dutiful_bind dutiful_basic hooks emit parts)
  have bad: "dutiful P (undecodable engine emit turn a v)" for a v unfolding undecodable_def Let_def by (intro parts)
  have call: "dutiful P (call_tool engine request tools runtime emit turn a v)" for a v
  proof -
    have inv: "dutiful P (invoke_tool engine request emit turn rev t c v)" if "\<And>c sn. dutiful P (bt_invoke t c sn)" for rev t c v
      unfolding invoke_tool_def Let_def by (intro dutiful_basic dutiful_bind emit model that parts)
    show ?thesis
      unfolding call_tool_def Let_def
      by (auto intro!: dutiful_bind hooks parts inv tool split: option.split)
  qed
  have lat: "dutiful P (if mt_latency_ms mt \<noteq> 0 then retE (mt_latency_ms mt) else bindE (ne_perf_counter engine) (\<lambda>now. retE (elapsed_ms t now)))" for mt t
    by (auto intro!: dutiful_bind dutiful_basic model)
  show ?thesis
    unfolding native_turn_def Let_def
    by (intro dutiful_bind dutiful_basic hooks emit parts model lat) (auto intro: finish bad call split: agent_action.split)
qed

lemma native_run_dutiful:
  assumes model: "\<And>st. \<forall>m \<in> set (ne_stream engine st). dutiful P m" "dutiful P (ne_perf_counter engine)"
  shows "engine_dutiful P (native_run engine)"
  unfolding engine_dutiful_def
proof (intro allI impI)
  fix request tools runtime and emit :: "agent_loop_event \<Rightarrow> ('a, unit) io"
  assume rt: "runtime_dutiful P tools runtime" and "\<forall>e. dutiful P (emit e)"
  then have emit: "dutiful P (emit e)" for e by blast
  have "dutiful P (native_turns engine request tools runtime emit turns v)" for turns v
  proof (induction turns arbitrary: v)
    case Nil
    show ?case by (simp add: emit)
  next
    case (Cons t turns)
    then show ?case
      by (auto intro!: dutiful_bind native_turn_dutiful emit rt model dutiful_basic split: option.split)
  qed
  then show "dutiful P (native_run engine request tools runtime emit)" by (simp add: native_run_def)
qed

subsection \<open>The tools of the controller\<close>

lemma selector_errors:
  "normalize_capability_id c = Inl e \<Longrightarrow> is_Exception e" "parse_capability_selector s = Inl e \<Longrightarrow> is_Exception e"
  "any_selector_allows ss c = Inl e \<Longrightarrow> is_Exception e" "ceiling_allows bound c = Inl e \<Longrightarrow> is_Exception e"
proof -
  show n: "is_Exception e" if "normalize_capability_id c = Inl e" for c e
    using that by (auto simp: normalize_capability_id_def is_Exception_def Let_def split: if_splits prod.splits)
  show p: "is_Exception e" if "parse_capability_selector s = Inl e" for s e
    using that n by (auto simp: parse_capability_selector_def is_Exception_def rbind_def Let_def split: if_splits prod.splits sum.splits)
  show a: "is_Exception e" if "any_selector_allows ss c = Inl e" for ss c e
    using that
  proof (induction ss)
    case (Cons s ss)
    then show ?case using n p
      by (auto simp: rbind_def selector_matches_def Let_def split: sum.splits if_splits)
  qed simp
  show "ceiling_allows bound c = Inl e \<Longrightarrow> is_Exception e" using a by (auto simp: ceiling_allows_def split: capability_ceiling.splits)
qed

lemma rfilter_errors: "rfilter p xs = Inl e \<Longrightarrow> (\<And>x e. p x = Inl e \<Longrightarrow> is_Exception e) \<Longrightarrow> is_Exception e"
  by (induction xs) (auto simp: rbind_def split: sum.splits)

lemma controller_dutiful:
  assumes "\<And>r q. dutiful P (tv_list_descriptors tc r q)" and "\<And>r c x. dutiful P (tv_invoke tc r c x)"
  shows "dutiful (on_snd P) (discover tc call sn)" "dutiful (on_snd P) (bt_invoke (bind_capability tc d) call sn)"
    "dutiful (on_snd P) (controller_snapshot tc)"
proof -
  have auth: "dutiful P (authorized_descriptors tc ps ss q)" for ps ss q
    unfolding authorized_descriptors_def
    by (intro dutiful_bind assms(1) dutiful_guarded(4)) (erule rfilter_errors, auto split: if_splits dest: selector_errors(4))
  have search: "dutiful (on_snd P) (discover_search tc call)"
    unfolding discover_search_def Let_def
    by (auto intro!: dutiful_bind dutiful_basic dutiful_locals dutiful_guarded auth split: sum.split prod.split)
  have browse: "dutiful (on_snd P) (discover_browse tc call)"
    unfolding discover_browse_def Let_def
    by (auto intro!: dutiful_bind dutiful_basic dutiful_locals dutiful_guarded auth split: sum.split prod.split)
  show "dutiful (on_snd P) (discover tc call sn)"
    unfolding discover_def Let_def by (auto intro: search browse dutiful_basic)
  show "dutiful (on_snd P) (bt_invoke (bind_capability tc d) call sn)"
    unfolding bind_capability_def
    by (auto intro!: dutiful_bind dutiful_basic dutiful_locals dutiful_guarded(4) assms(2) selector_errors(4))
  show "dutiful (on_snd P) (controller_snapshot tc)" unfolding controller_snapshot_def by (rule dutiful_guarded)
qed

lemma snapshot_tools_dutiful:
  assumes "\<And>r q. dutiful P (tv_list_descriptors tc r q)" and "\<And>r c x. dutiful P (tv_invoke tc r c x)"
    and "controller_snapshot tc s = (Inr ts, s')" and "t \<in> set (tz_tools ts)"
  shows "dutiful (on_snd P) (bt_invoke t call sn)"
  using assms(3,4) controller_dutiful [of P tc, OF assms(1,2)] by (auto simp: controller_snapshot_def)

subsection \<open>Every sub-agent run is settled\<close>

definition sub_agent_services :: "('g, 'w) sub_agent_executor \<Rightarrow> task_run \<Rightarrow> ('w \<Rightarrow> bool) \<Rightarrow> bool" where
  "sub_agent_services sx run P \<longleftrightarrow>
     (\<forall>r q. dutiful P (sx_list_descriptors sx r q)) \<and> (\<forall>r c x. dutiful P (sx_invoke sx r c x)) \<and> (\<forall>sn. dutiful P (sx_before_model sx sn))
     \<and> (\<forall>p. dutiful P (sx_reset_transcript sx p)) \<and> (\<forall>p e. dutiful P (sx_append_transcript sx p e)) \<and> (\<forall>p. dutiful P (sx_flush_transcript sx p))
     \<and> (\<forall>pid profile c a. sx_resolve_profile sx pid = Some profile \<longrightarrow> dutiful P (ap_completion_policy profile c a))
     \<and> (\<forall>gs. preserves P (sx_project_guides sx gs run)) \<and> (\<forall>gs v e v'. sx_project_guides sx gs run v = (Inl e, v') \<longrightarrow> exn_class e = ValueError)
     \<and> (\<forall>f ref e. sx_resolve_guide sx = Some f \<longrightarrow> f ref = Inl e \<longrightarrow> exn_class e = ValueError)"

lemma runtime_of_executor_dutiful:
  assumes sv: "sub_agent_services sx run P" and pf: "sx_resolve_profile sx pid = Some profile"
  shows "runtime_dutiful (on_snd (on_snd P)) tools (sub_agent_runtime sx run profile (executor_tool_controller sx run profile))"
proof -
  let ?tc = "executor_tool_controller sx run profile" and ?rt = "sub_agent_runtime sx run profile (executor_tool_controller sx run profile)"
  have tc: "\<And>r q. dutiful P (tv_list_descriptors ?tc r q)" "\<And>r c x. dutiful P (tv_invoke ?tc r c x)"
    using sv by (simp_all add: sub_agent_services_def executor_tool_controller_def)
  have pol: "dutiful P (ap_completion_policy profile c a)" "dutiful P (sx_before_model sx sn)" for c a sn
    using sv pf by (auto simp: sub_agent_services_def)
  have cur: "current_toolset ?rt tools = onworld (bindE (controller_snapshot ?tc) (\<lambda>ts. retE (lift_toolset ts)))"
    by (simp add: current_toolset_def sub_agent_runtime_def)
  have "dutiful (on_snd (on_snd P)) (bt_invoke t c sn)"
    if "current_toolset ?rt tools s = (Inr ts, s')" "t \<in> set (tz_tools ts)" for s ts s' t c sn
  proof -
    obtain l u where s: "s = (l, u)" by (cases s)
    from that(1) obtain ts0 u' where t0: "controller_snapshot ?tc u = (Inr ts0, u')" "ts = lift_toolset ts0"
      unfolding cur s by (cases "controller_snapshot ?tc u"; cases "fst (controller_snapshot ?tc u)") (auto simp: onworld_def)
    with that(2) obtain t0 where "t0 \<in> set (tz_tools ts0)" "t = lift_tool t0" by (auto simp: lift_toolset_def)
    with snapshot_tools_dutiful [OF tc t0(1)] show ?thesis by (auto simp: lift_tool_def intro: dutiful_locals)
  qed
  moreover have "dutiful (on_snd (on_snd P)) (current_toolset ?rt tools)"
    unfolding cur by (intro dutiful_locals(1) dutiful_bind controller_dutiful [OF tc] dutiful_basic)
  moreover have "dutiful (on_snd (on_snd P)) (lr_before_model ?rt sn)" for sn
    unfolding sub_agent_runtime_def by (simp, intro dutiful_locals(1) pol)
  moreover have "dutiful (on_snd (on_snd P)) (lr_evaluate_completion ?rt a sn)" for a sn
    unfolding sub_agent_runtime_def by (simp, intro dutiful_locals(1) dutiful_bind pol dutiful_basic)
  ultimately show ?thesis unfolding runtime_dutiful_def by blast
qed

text \<open>What the executor itself calls of the filesystem store while it holds the claim.\<close>

lemma progress_dutiful: "dutiful (claimed sha rt rid k tok) (set_progress rid msg (Some ts))"
  unfolding dutiful_def
proof
  show "mild (set_progress rid msg (Some ts) :: ('z fs_world_scheme, unit) io)"
    unfolding set_progress_def by (auto intro!: mild_rules split: prod.splits)
  show "preserves (claimed sha rt rid k tok) (set_progress rid msg (Some ts) :: ('z fs_world_scheme, unit) io)"
  proof (rule preservesI)
    fix w :: "'z fs_world_scheme" assume "claimed sha rt rid k tok w"
    then obtain r where ok: "dict_ok (fs_runs w)" and r: "find_run rid w = Some (k, r)" "tr_status r = RUNNING" "tr_fencing_token r = tok" "storable sha rt r"
      by (auto simp: claimed_def)
    let ?new = "r\<lparr>tr_latest_progress_message := take 1000 msg, tr_latest_progress_at := ts\<rparr>"
    show "claimed sha rt rid k tok (snd (set_progress rid msg (Some ts) w))"
    proof (cases "ts < tr_latest_progress_at r")
      case True
      with r ok show ?thesis by (simp add: set_progress_def bindE_read_run claimed_def)
    next
      case False
      obtain w' where w': "set_progress rid msg (Some ts) w = (Inr (), w')" "fs_runs w' = dict_set k (persisted_run ?new) (fs_runs w)"
        using False r by (simp add: set_progress_def bindE_read_run put_run_def)
      have "storable sha rt (persisted_run ?new)" using r(4) storable_copy [of "persisted_run ?new" r] by simp
      with find_run_update [OF r(1) ok w'(2)] w' ok r show ?thesis by (simp add: claimed_def)
    qed
  qed
qed

lemma claimed_tick [simp]: "claimed sha rt rid k tok (w\<lparr>w_tick := t\<rparr>) = claimed sha rt rid k tok w"
  by (simp add: claimed_def find_run_def)

lemma details_dutiful: "dutiful P (get_task_detail sha rt rid view)"
proof -
  have "preserves P (get_task_detail sha rt rid view)"
    by (rule preservesI) (metis get_task_detail_same prod.collapse)
  then show ?thesis by (simp add: dutiful_def mild_details)
qed

lemma dutiful_catchE:
  assumes "dutiful P m" and "\<And>e. is_Exception e \<Longrightarrow> dutiful P (h e)"
  shows "dutiful P (catchE m h)"
proof -
  have "catchE m h = catch_Exception m (\<lambda>e. if is_Exception e then h e else retE undefined)"
  proof
    fix s
    obtain r u where m: "m s = (r, u)" by (cases "m s")
    show "catchE m h s = catch_Exception m (\<lambda>e. if is_Exception e then h e else retE undefined) s"
      using assms(1) m unfolding dutiful_def mild_def by (cases r) (auto simp: catchE_def catch_Exception_def)
  qed
  then show ?thesis using assms(2) by (auto intro!: dutiful_basic(3) assms(1) dutiful_basic(1))
qed

lemma promote_dutiful: "dutiful P (promote_child_artifacts (file_run_store sha rt) result ids)"
proof -
  have one: "dutiful P (promote_one_child (file_run_store sha rt) rid as)" for rid as
    unfolding promote_one_child_def file_run_store_ops
    by (auto intro!: dutiful_bind dutiful_catchE dutiful_basic details_dutiful split: option.split)
  have "dutiful P (foldE (promote_one_child (file_run_store sha rt)) ids as)" for ids as
    by (induction ids arbitrary: as) (auto intro!: dutiful_bind dutiful_basic one)
  then show ?thesis unfolding promote_child_artifacts_def by (auto intro!: dutiful_bind dutiful_basic split: list.split)
qed

lemma results_of_loop:
  fixes P :: "'z rt_world_scheme \<Rightarrow> bool"
  assumes tick: "\<And>w t. P (w\<lparr>w_tick := t\<rparr>) = P w"
  shows "dutiful P (sub_agent_failed run started ec msg metrics)" "dutiful P (result_from_loop run started f)"
    "\<exists>r w'. sub_agent_failed run started ec msg metrics w = (Inr r, w') \<and> is_terminal_run_status (res_status r)"
    "\<exists>r w'. failed_from_exception sx run started label e w = (Inr r, w') \<and> is_terminal_run_status (res_status r)"
    "result_from_loop run started f w = (Inr r, w') \<Longrightarrow> is_terminal_run_status (res_status r)"
proof -
  note now = dutiful_results(1) [of P, OF tick]
  show f: "dutiful P (sub_agent_failed run started ec msg metrics)" for ec msg metrics
    unfolding sub_agent_failed_def by (intro dutiful_bind now dutiful_basic)
  show "dutiful P (result_from_loop run started f)"
    unfolding result_from_loop_def Let_def sub_agent_completed_def by (auto intro!: f dutiful_bind now dutiful_basic)
  show "\<exists>r w'. sub_agent_failed run started ec msg metrics w = (Inr r, w') \<and> is_terminal_run_status (res_status r)" for ec msg w
    by (simp add: sub_agent_failed_def now_ms_def bindE_apply bare_result_def is_terminal_run_status_def run_tables)
  show "\<exists>r w'. failed_from_exception sx run started label e w = (Inr r, w') \<and> is_terminal_run_status (res_status r)"
    by (simp add: failed_from_exception_def sub_agent_failed_def now_ms_def bindE_apply bare_result_def is_terminal_run_status_def run_tables Let_def)
  show "result_from_loop run started f w = (Inr r, w') \<Longrightarrow> is_terminal_run_status (res_status r)"
    by (auto simp: result_from_loop_def sub_agent_completed_def sub_agent_failed_def now_ms_def bindE_apply bare_result_def is_terminal_run_status_def
        run_tables Let_def split: if_splits)
qed

lemma consume_engine_dutiful:
  fixes sx :: "('g, 'z fs_world_scheme) sub_agent_executor"
  assumes sv: "sub_agent_services sx run (claimed sha rt (tr_run_id run) k tok)" and pf: "sx_resolve_profile sx pid = Some profile"
    and eng: "engine_dutiful (on_snd (on_snd (claimed sha rt (tr_run_id run) k tok))) (sx_engine sx)"
  shows "dutiful (claimed sha rt (tr_run_id run) k tok)
    (consume_engine sx (file_run_store sha rt) run request tools (executor_tool_controller sx run profile) profile started)"
proof -
  let ?P = "claimed sha rt (tr_run_id run) k tok :: 'z fs_world_scheme \<Rightarrow> bool"
  have tick: "?P (w\<lparr>w_tick := t\<rparr>) = ?P w" for w t by simp
  have io: "dutiful ?P (sx_reset_transcript sx p)" "dutiful ?P (sx_append_transcript sx p e)" "dutiful ?P (sx_flush_transcript sx p)" for p e
    using sv by (simp_all add: sub_agent_services_def)
  have prog: "rs_set_progress (file_run_store sha rt) = (set_progress :: _ \<Rightarrow> _ \<Rightarrow> _ \<Rightarrow> ('z fs_world_scheme, unit) io)" by (simp add: file_run_store_def)
  have ev: "dutiful (on_snd (on_snd ?P)) (consume_event sx (file_run_store sha rt) run e)" for e
  proof -
    have step: "dutiful (on_snd (on_snd ?P)) (onworld (onworld (bindE now_ms (\<lambda>ts. set_progress (tr_run_id run) msg (Some ts)))) :: ('z fs_world_scheme engine_world, unit) io)" for msg
      by (intro dutiful_locals(1) dutiful_bind dutiful_results(1) [of ?P, OF tick] progress_dutiful)
    have app: "dutiful (on_snd (on_snd ?P)) (onworld (onworld (suppressE (sx_append_transcript sx p e))) :: ('z fs_world_scheme engine_world, unit) io)" for p e
      by (intro dutiful_locals(1) dutiful_guarded io)
    have var: "dutiful (on_snd (on_snd ?P)) (assign f :: ('z fs_world_scheme engine_world, unit) io)" for f by (rule dutiful_locals)
    show ?thesis
      unfolding consume_event_def prog
      by (cases e) (auto intro!: dutiful_basic(4) app step var dutiful_basic(1))
  qed
  have run: "dutiful (on_snd (on_snd ?P)) (sx_engine sx request (map lift_tool tools)
      (sub_agent_runtime sx run profile (executor_tool_controller sx run profile)) (consume_event sx (file_run_store sha rt) run))"
    using eng runtime_of_executor_dutiful [OF sv pf] ev unfolding engine_dutiful_def by blast
  have flush: "dutiful (on_snd (on_snd ?P)) (onworld (onworld (suppressE (sx_flush_transcript sx p))) :: ('z fs_world_scheme engine_world, unit) io)" for p
    by (intro dutiful_locals(1) dutiful_guarded io)
  note res = results_of_loop(1,2) [of ?P, OF tick]
  have tail: "dutiful ?P (case cs_finished c of
      None \<Rightarrow> sub_agent_failed run started INTERNAL ''Agent loop ended without a terminal event.'' []
    | Some f \<Rightarrow> bindE (result_from_loop run started f) (\<lambda>result. promote_child_artifacts (file_run_store sha rt) result (cs_child_run_ids c)))" for c
    by (auto intro!: dutiful_bind res promote_dutiful split: option.split)
  show ?thesis
    unfolding consume_engine_def Let_def
    by (intro dutiful_basic(4) dutiful_bind dutiful_locals(3) dutiful_guarded io run flush tail)
qed

lemma promote_status:
  assumes "promote_child_artifacts st result ids w = (Inr r, w')"
  shows "res_status r = res_status result"
proof -
  from assms obtain as where "r = (case as of [] \<Rightarrow> result | a # _ \<Rightarrow> result\<lparr>res_primary_artifact := Some a, res_artifacts := as\<rparr>)"
    unfolding promote_child_artifacts_def by (auto simp: bindE_Inr_iff)
  then show ?thesis by (cases as) auto
qed

lemma consume_engine_terminal:
  assumes "consume_engine sx st run request tools tc profile started w = (Inr result, w')"
  shows "is_terminal_run_status (res_status result)"
proof -
  have tick: "(\<lambda>_. True) (v\<lparr>w_tick := t\<rparr>) = (\<lambda>_. True) v" for v :: "'a rt_world_scheme" and t by simp
  have failed: "is_terminal_run_status (res_status r)" if "sub_agent_failed run started ec msg ms v = (Inr r, v')" for ec msg ms r v and v' :: "'a rt_world_scheme"
    using that results_of_loop(3) [of "\<lambda>_. True", OF tick, of run started ec msg ms v] by auto
  from assms obtain c :: consumer and v where "(case cs_finished c of
      None \<Rightarrow> sub_agent_failed run started INTERNAL ''Agent loop ended without a terminal event.'' []
    | Some f \<Rightarrow> bindE (result_from_loop run started f) (\<lambda>result. promote_child_artifacts st result (cs_child_run_ids c))) v = (Inr result, w')"
    unfolding consume_engine_def Let_def by (auto simp: thenE_Inr_iff bindE_Inr_iff)
  note fin = this
  show ?thesis
  proof (cases "cs_finished c")
    case None
    with fin show ?thesis by (auto intro: failed)
  next
    case (Some f)
    with fin obtain a u where "result_from_loop run started f v = (Inr a, u)" and p: "promote_child_artifacts st a (cs_child_run_ids c) u = (Inr result, w')"
      by (auto simp: bindE_Inr_iff)
    from results_of_loop(5) [of "\<lambda>_. True", OF tick this(1)] promote_status [OF p] show ?thesis by simp
  qed
qed

lemma activation_answers:
  fixes sx :: "('g, 'w) sub_agent_executor"
  assumes "sub_agent_services sx run P" and "P w"
  shows "\<exists>x w'. catch_class ValueError (bindE (activate_guides sx run refs) (\<lambda>guides. retE (Inr guides))) (\<lambda>e. retE (Inl e)) w = (Inr x, w') \<and> P w'"
proof -
  have rm: "exn_class e = ValueError" if "rmap f xs = Inl e" "\<And>x e. f x = Inl e \<Longrightarrow> exn_class e = ValueError" for f :: "skill_guide_ref \<Rightarrow> 'g result" and xs e
    using that by (induction xs) (auto simp: rbind_def split: sum.splits)
  obtain r w' where a: "activate_guides sx run refs w = (r, w')" by (cases "activate_guides sx run refs w")
  have "preserves P (activate_guides sx run refs)"
    using assms(1) unfolding activate_guides_def sub_agent_services_def by (auto intro!: preserves_intros)
  from preservesD [OF this assms(2) a] have "P w'" .
  moreover have "exn_class e = ValueError" if "r = Inl e" for e
  proof -
    have proj: "exn_class e = ValueError" if "sx_project_guides sx gs run v = (Inl e, v')" for gs v e v'
      using assms(1) that unfolding sub_agent_services_def by blast
    have "exn_class e = ValueError" if "sx_resolve_guide sx = Some f" "f ref = Inl e" for f ref e
      using assms(1) that unfolding sub_agent_services_def by blast
    with a that rm proj show ?thesis
      unfolding activate_guides_def by (auto simp: bindE_apply split: option.splits sum.splits if_splits)
  qed
  ultimately show ?thesis using a by (cases r) (auto simp: catch_class_def catchE_def bindE_apply)
qed

lemma sub_agent_result_answers:
  fixes sx :: "('g, 'z fs_world_scheme) sub_agent_executor"
  assumes sv: "sub_agent_services sx run (claimed sha rt (tr_run_id run) k tok)"
    and eng: "engine_dutiful (on_snd (on_snd (claimed sha rt (tr_run_id run) k tok))) (sx_engine sx)"
    and w: "claimed sha rt (tr_run_id run) k tok w"
  shows "\<exists>result w'. sub_agent_result sx (file_run_store sha rt) run w = (Inr result, w') \<and> is_terminal_run_status (res_status result)
    \<and> claimed sha rt (tr_run_id run) k tok w'"
proof -
  let ?P = "claimed sha rt (tr_run_id run) k tok :: 'z fs_world_scheme \<Rightarrow> bool" and ?ok = "\<lambda>m v. \<exists>r v'. m v = (Inr r, v') \<and> is_terminal_run_status (res_status r) \<and> claimed sha rt (tr_run_id run) k tok v'"
  have tick: "?P (v\<lparr>w_tick := t\<rparr>) = ?P v" for v t by simp
  have failed: "?ok (sub_agent_failed run started ec msg []) v" if "?P v" for started ec msg and v :: "'z fs_world_scheme"
    using that results_of_loop(3) [of ?P, OF tick, of run started ec msg "[]" v] results_of_loop(1) [of ?P, OF tick, of run started ec msg "[]"]
    unfolding dutiful_def by (metis preservesD)
  have loop: "?ok (catch_Exception (consume_engine sx (file_run_store sha rt) run request tools (executor_tool_controller sx run profile) profile started)
      (failed_from_exception sx run started ''Sub-agent loop crashed'')) v"
    if "sx_resolve_profile sx pid = Some profile" "?P v" for pid profile request tools started v
  proof -
    let ?m = "consume_engine sx (file_run_store sha rt) run request tools (executor_tool_controller sx run profile) profile started"
    note d = consume_engine_dutiful [OF sv that(1) eng, of request tools started]
    have h: "preserves ?P (failed_from_exception sx run started l e)" for l e
      unfolding failed_from_exception_def Let_def using results_of_loop(1) [of ?P, OF tick] unfolding dutiful_def by (auto intro!: preserves_intros)
    obtain r v1 where m: "?m v = (r, v1)" by (cases "?m v")
    have v1: "?P v1" using d m that(2) unfolding dutiful_def by (blast dest: preservesD)
    show ?thesis
    proof (cases r)
      case (Inl e)
      with d m have "is_Exception e" unfolding dutiful_def mild_def by blast
      obtain r2 v2 where f: "failed_from_exception sx run started ''Sub-agent loop crashed'' e v1 = (Inr r2, v2)" "is_terminal_run_status (res_status r2)"
        using results_of_loop(4) [of ?P, OF tick] by blast
      with preservesD [OF h v1 f(1)] \<open>is_Exception e\<close> m Inl show ?thesis by (simp add: catch_Exception_def)
    next
      case (Inr a)
      with m v1 consume_engine_terminal [of sx "file_run_store sha rt" run] show ?thesis by (auto simp: catch_Exception_def)
    qed
  qed
  obtain started w1 where n: "now_ms w = (Inr started, w1)" and w1: "?P w1" using w by (simp add: now_ms_def)
  let ?pid = "case ts_dispatch (tr_spec run) of Sub_Agent_Dispatch d \<Rightarrow> sd_profile_id d | Capability_Dispatch _ \<Rightarrow> []"
  let ?refs = "case ts_dispatch (tr_spec run) of Sub_Agent_Dispatch d \<Rightarrow> sd_instruction_refs d | Capability_Dispatch _ \<Rightarrow> []"
  show ?thesis
  proof (cases "sx_resolve_profile sx ?pid")
    case None
    with n failed [OF w1] show ?thesis by (simp add: sub_agent_result_def Let_def)
  next
    case (Some profile)
    show ?thesis
    proof (cases "?refs \<noteq> [] \<and> sx_resolve_guide sx = None")
      case True
      with Some n failed [OF w1] show ?thesis by (simp add: sub_agent_result_def Let_def)
    next
      case False
      obtain x w2 where a: "catch_class ValueError (bindE (activate_guides sx run ?refs) (\<lambda>guides. retE (Inr guides))) (\<lambda>e. retE (Inl e)) w1 = (Inr x, w2)"
        and w2: "?P w2" using activation_answers [OF sv w1] by blast
      obtain ts where snap: "withlocals initial_controller (controller_snapshot (executor_tool_controller sx run profile)) w2 = (Inr ts, w2)"
        by (simp add: withlocals_def controller_snapshot_def)
      have steps: "bindE now_ms f w = f started w1"
        "bindE (catch_class ValueError (bindE (activate_guides sx run ?refs) (\<lambda>guides. retE (Inr guides))) (\<lambda>e. retE (Inl e))) g w1 = g x w2"
        "bindE (withlocals initial_controller (controller_snapshot (executor_tool_controller sx run profile))) h w2 = h ts w2"
        for f g and h :: "_ \<Rightarrow> ('z fs_world_scheme, task_result) io" using n a snap by simp_all
      note start = sub_agent_result_def Let_def steps(1) Some option.case if_not_P [OF False] steps(2)
      show ?thesis
      proof (cases x)
        case (Inl e)
        show ?thesis unfolding start Inl sum.case by (rule failed [OF w2])
      next
        case (Inr guides)
        show ?thesis unfolding start Inr sum.case steps(3) by (rule loop [OF Some w2])
      qed
    qed
  qed
qed

text \<open>
  C18. Whoever claims a run as a sub-agent settles it. When a queued run of the filesystem store, whose identifiers give a place
  for outputs, is executed by the sub-agent executor with the
  native engine, the executor comes back with a result of a terminal status, the stored run has that status and its result file
  holds exactly the returned result, its output included. This holds whatever
  the model answers, whatever the tools, the policies and the context controller do, and however they fail short of a
  cancellation: an unknown profile, a missing guide, a crashing loop and a spent budget are all results. Each of these calls
  only has to leave the claim of this run alone. Two assumptions are about files: those of the store can be written, and the
  activation of guides raises at most a \<^verbatim>\<open>ValueError\<close>, since any other exception there, such as an \<^verbatim>\<open>OSError\<close> of its own file
  operations, is not caught by the executor.
\<close>

theorem sub_agent_run_settles:
  fixes sx :: "('g, 'z fs_world_scheme) sub_agent_executor"
  assumes "dict_ok (fs_runs w)" and "find_run (tr_run_id run) w = Some (k, r)" and "tr_status r = QUEUED" and "storable sha rt r"
    and sv: "\<And>tok. sub_agent_services sx run (claimed sha rt (tr_run_id run) k tok)"
    and eng: "sx_engine sx = native_run (lift_engine e)"
    and model: "\<And>tok st. \<forall>m \<in> set (ne_stream e st). dutiful (claimed sha rt (tr_run_id run) k tok) m"
      "\<And>tok. dutiful (claimed sha rt (tr_run_id run) k tok) (ne_perf_counter e)"
  shows "\<exists>result w'. sub_agent_run sx (file_run_store sha rt) run w = (Inr result, w')
    \<and> recorded sha rt (tr_run_id run) k result w'"
proof -
  obtain tok w1 where c: "claim_run (tr_run_id run) (xo_worker_id (sx_options sx)) w = (Inr tok, w1)" "claimed sha rt (tr_run_id run) k (ft_token tok) w1"
    using claim_claimed [OF assms(1-4)] by blast
  have ed: "engine_dutiful (on_snd (on_snd (claimed sha rt (tr_run_id run) k (ft_token tok)))) (sx_engine sx)"
    unfolding eng by (rule native_run_dutiful) (use model in \<open>auto simp: lift_engine_def intro!: dutiful_locals(1)\<close>)
  obtain result w2 where r: "sub_agent_result sx (file_run_store sha rt) run w1 = (Inr result, w2)" "is_terminal_run_status (res_status result)"
      "claimed sha rt (tr_run_id run) k (ft_token tok) w2"
    using sub_agent_result_answers [OF sv ed c(2)] by blast
  obtain w3 where "write_result sha rt (tr_run_id run) result tok w2 = (Inr (), w3)" "recorded sha rt (tr_run_id run) k result w3"
    using write_claimed [OF r(3,2)] by blast
  with c(1) r(1) show ?thesis by (auto simp: sub_agent_run_def)
qed

text \<open>A run of an agent whose model answers at once.\<close>

definition sample_profile :: "'w agent_profile" where
  "sample_profile =
     \<lparr>ap_profile_id = ''p'', ap_system_prompt = [], ap_capability_ceiling = All_Capabilities, ap_invocation_policies = [],
      ap_completion_policy = accept_model_completion\<rparr>"

definition sample_executor :: "(unit, fs_world) sub_agent_executor" where
  "sample_executor =
     \<lparr>sx_engine = native_run (lift_engine sample_engine), sx_list_descriptors = (\<lambda>_ _. retE []), sx_invoke = (\<lambda>_ call _. retE (call_failed call [])),
      sx_resolve_profile = (\<lambda>_. Some sample_profile), sx_resolve_guide = None, sx_project_guides = (\<lambda>gs _. retE gs), sx_render_guides = (\<lambda>_. []),
      sx_before_model = static_before_model, sx_options = default_executor_options, sx_workspace = (\<lambda>_. [''/'']), sx_reset_transcript = (\<lambda>_. retE ()),
      sx_append_transcript = (\<lambda>_ _. retE ()), sx_flush_transcript = (\<lambda>_. retE ()), sx_repr = (\<lambda>_. []), sx_dumps = (\<lambda>_. []),
      sx_score = (\<lambda>_ _ _ _. 0), sx_traceback = (\<lambda>_. []), sx_stream_of = (\<lambda>_ _. None)\<rparr>"

theorem sub_agent_run_settles_witness:
  "\<exists>result w'. sub_agent_run sample_executor (file_run_store (\<lambda>_. ''d'') [''/'', ''results'']) (sample_run ''r'' QUEUED)
       (sample_store [sample_run ''r'' QUEUED]) = (Inr result, w')
     \<and> recorded (\<lambda>_. ''d'') [''/'', ''results''] ''r'' (''b'', ''r'') result w'"
proof -
  let ?r = "sample_run ''r'' QUEUED" and ?w = "sample_store [sample_run ''r'' QUEUED]"
  have rid: "tr_run_id ?r = ''r''" by (simp add: sample_run_def)
  have w: "dict_ok (fs_runs ?w)" "find_run (tr_run_id ?r) ?w = Some ((''b'', ''r''), ?r)" "tr_status ?r = QUEUED"
    by (simp_all add: sample_store_def dict_ok_def find_run_def run_key_of_def sample_run_def)
  have sv: "sub_agent_services sample_executor ?r P" for P
    by (auto simp: sub_agent_services_def sample_executor_def sample_profile_def static_before_model_def accept_model_completion_def intro: dutiful_basic)
  have eng: "sx_engine sample_executor = native_run (lift_engine sample_engine)" by (simp add: sample_executor_def)
  have model: "\<forall>m \<in> set (ne_stream sample_engine st). dutiful P m" "dutiful P (ne_perf_counter sample_engine)" for P :: "fs_world \<Rightarrow> bool" and st
    by (simp_all add: sample_engine_def dutiful_basic)
  show ?thesis using sub_agent_run_settles [OF w sample_storable sv eng model] unfolding rid .
qed

subsection \<open>A sub-agent stays below its ceiling\<close>

lemma quiet_onworld: "preserves I m \<Longrightarrow> quiet I (onworld m)"
  by (auto simp: quiet_def preserves_def onworld_apply)

lemma controller_preserves:
  fixes tc :: "'w tool_controller"
  shows "preserves (\<lambda>s. controller_ok tc (fst s)) (onworld m :: (controller_state \<times> 'w, 'x) io)"
    "preserves (\<lambda>s. controller_ok tc (fst s)) (discover tc call sn)"
    "preserves (\<lambda>s. controller_ok tc (fst s)) (bt_invoke (bind_capability tc d) call sn)"
proof -
  show "preserves (\<lambda>s. controller_ok tc (fst s)) (onworld m :: (controller_state \<times> 'w, 'x) io)" by (auto simp: preserves_def onworld_apply)
  show "preserves (\<lambda>s. controller_ok tc (fst s)) (discover tc call sn)"
  proof (rule preservesI)
    fix s :: "controller_state \<times> 'w" assume "controller_ok tc (fst s)"
    then show "controller_ok tc (fst (snd (discover tc call sn s)))"
      using discover_keeps [of tc "fst s" call sn "snd s"] by (metis prod.collapse)
  qed
  have "preserves (\<lambda>s. controller_ok tc (fst s)) (onworld n :: (controller_state \<times> 'w, observation) io)" for n
    by (auto simp: preserves_def onworld_apply)
  then show "preserves (\<lambda>s. controller_ok tc (fst s)) (bt_invoke (bind_capability tc d) call sn)"
    unfolding bind_capability_def by (auto intro!: preserves_intros)
qed

text \<open>The capabilities a sub-agent of the profile may request: the discovery tool, and what the ceiling admits.\<close>

definition below_ceiling :: "'w agent_profile \<Rightarrow> string set" where
  "below_ceiling profile = {c. c = CAPABILITY_DISCOVER_TOOL_ID \<or> ceiling_allows (ap_capability_ceiling profile) c = Inr True}"

lemma snapshot_below:
  assumes "controller_snapshot tc (ct, w) = (Inr ts, s')" and "controller_ok tc ct" and "t \<in> set (tz_tools ts)"
  shows "td_tool_id (bt_descriptor t) \<in> below_ceiling (tv_profile tc) \<and> preserves (\<lambda>s. controller_ok tc (fst s)) (bt_invoke t call sn)"
proof -
  from assms(1,3) consider (dsc) "t = \<lparr>bt_descriptor = discover_descriptor, bt_invoke = discover tc\<rparr>"
    | (cap) k d where "(k, d) \<in> set (ct_promoted ct)" "t = bind_capability tc d"
    by (auto simp: controller_snapshot_def)
  then show ?thesis
  proof cases
    case dsc
    then show ?thesis by (simp add: discover_descriptor_def below_ceiling_def controller_preserves)
  next
    case cap
    with assms(2) have "promotable tc d" by (auto simp: controller_ok_def)
    with cap show ?thesis using controller_preserves(3) by (auto simp: promotable_def below_ceiling_def bind_capability_def)
  qed
qed

lemma sub_agent_loop_quiet:
  fixes sx :: "('g, 'w) sub_agent_executor" and e :: "'w native_engine" and run :: task_run and profile :: "'w agent_profile"
  defines "tc \<equiv> executor_tool_controller sx run profile"
  shows "loop_quiet (\<lambda>s. controller_ok tc (fst s)) (lift_engine e) tools (sub_agent_runtime sx run profile tc) (below_ceiling profile)"
proof -
  let ?I = "\<lambda>s. controller_ok tc (fst s)" and ?rt = "sub_agent_runtime sx run profile tc"
  have prof: "tv_profile tc = profile" by (simp add: tc_def executor_tool_controller_def)
  have q: "quiet ?I (onworld (onworld m))" for m :: "('w, 'x) io" by (rule quiet_onworld) (rule controller_preserves)
  have cur: "current_toolset ?rt tools = onworld (bindE (controller_snapshot tc) (\<lambda>ts. retE (lift_toolset ts)))"
    by (simp add: current_toolset_def sub_agent_runtime_def)
  have "td_tool_id (bt_descriptor t) \<in> below_ceiling profile \<and> (\<forall>c sn. quiet ?I (bt_invoke t c sn))"
    if I: "?I (snd s)" and c: "current_toolset ?rt tools s = (Inr ts, s')" and t: "t \<in> set (tz_tools ts)" for s ts s' t
  proof -
    obtain l ct w where s: "s = (l, (ct, w))" by (metis prod.exhaust)
    from c obtain ts0 u where t0: "controller_snapshot tc (ct, w) = (Inr ts0, u)" "ts = lift_toolset ts0"
      unfolding cur s by (cases "controller_snapshot tc (ct, w)"; cases "fst (controller_snapshot tc (ct, w))") (auto simp: onworld_def)
    with t obtain t0 where t1: "t0 \<in> set (tz_tools ts0)" "t = lift_tool t0" by (auto simp: lift_toolset_def)
    show ?thesis using snapshot_below [OF t0(1) _ t1(1)] I s t1(2) prof by (auto simp: lift_tool_def intro: quiet_onworld)
  qed
  moreover have "quiet ?I (current_toolset ?rt tools)"
    unfolding cur by (rule quiet_onworld) (auto simp: controller_snapshot_def intro!: preserves_intros)
  ultimately show ?thesis
    unfolding loop_quiet_def by (auto simp: lift_engine_def sub_agent_runtime_def q)
qed

text \<open>
  C19. A sub-agent stays below the ceiling of its profile. When the native engine runs with the tools and hooks that the executor gives it, then
  whatever the model asks for, every capability that is requested is the discovery tool or one that the ceiling of the profile admits, and
  the number of model turns is within the budget of the run; afterwards the promoted tools are still below the ceiling and within
  their schema budget.
\<close>

theorem sub_agent_within_ceiling:
  fixes sx :: "('g, 'w) sub_agent_executor"
  assumes "native_run (lift_engine e) (loop_request sx run profile guides ds) (map lift_tool tools)
      (sub_agent_runtime sx run profile (executor_tool_controller sx run profile)) log_event ([], (initial_controller, w)) = (r, (es, (ct, w')))"
  shows "cl_capability ` set (requests es) \<subseteq> below_ceiling profile
    \<and> int (length (starts es)) \<le> max 0 (ll_max_model_turns (lq_limits (loop_request sx run profile guides ds)))
    \<and> controller_ok (executor_tool_controller sx run profile) ct"
  using native_run_accounts [OF sub_agent_loop_quiet _ assms] controller_ok_initial by auto

theorem sub_agent_within_ceiling_witness:
  "\<exists>r es ct w'. native_run (lift_engine sample_engine) (loop_request sample_executor (sample_run ''r'' RUNNING) sample_profile [] []) (map lift_tool [])
      (sub_agent_runtime sample_executor (sample_run ''r'' RUNNING) sample_profile
        (executor_tool_controller sample_executor (sample_run ''r'' RUNNING) sample_profile))
      log_event ([], (initial_controller, sample_store [])) = (r, (es, (ct, w')))
    \<and> cl_capability ` set (requests es) \<subseteq> below_ceiling (sample_profile :: fs_world agent_profile)
    \<and> controller_ok (executor_tool_controller sample_executor (sample_run ''r'' RUNNING) sample_profile) ct"
proof -
  let ?run = "native_run (lift_engine sample_engine) (loop_request sample_executor (sample_run ''r'' RUNNING) sample_profile [] []) (map lift_tool [])
      (sub_agent_runtime sample_executor (sample_run ''r'' RUNNING) sample_profile
        (executor_tool_controller sample_executor (sample_run ''r'' RUNNING) sample_profile))
      log_event ([], (initial_controller, sample_store []))"
  obtain r es ct w' where "?run = (r, (es, (ct, w')))" by (metis prod.exhaust)
  with sub_agent_within_ceiling [OF this] show ?thesis by blast
qed

end
