(* ===== verification/Playbook.thy ===== *)
theory Playbook
  imports Capability_Ids "HOL-Library.FSet" "HOL-Library.List_Lexorder" "HOL-Library.Char_ord" "HOL-Library.Product_Lexorder"
begin

section \<open>The playbook of experience learning\<close>

text \<open>
  \<^verbatim>\<open>src/core/app/experiences/playbook/model.py\<close> and \<^verbatim>\<open>delta.py\<close>: the strategies that a worker has learned, called bullets, with the
  operations that a curator applies to them, the retention policy and the dictionary form. \<^verbatim>\<open>apply_metadata\<close> sets any attribute of a
  bullet that it finds by name to an integer, so every attribute that is declared as something else is an \<open>attr\<close>: either of
  its declared type, or overwritten; the content, which a consolidation sets to any JSON datum, is one. Names with leading underscores, which every Python object has, are not modelled. The clock is part of
  the state: each reading of \<^verbatim>\<open>datetime.now(UTC).isoformat()\<close> takes its next text.
\<close>

datatype 'a attr = Declared 'a | Overwritten int

record consolidation_verdict =
  cv_verdict :: json
  cv_rationale :: json
  cv_cosine_score :: json
  cv_judged_at :: json
  cv_judge_model :: json

record bullet =
  bu_id :: "string attr"
  bu_section :: "string attr"
  bu_content :: json
  bu_helpful :: int
  bu_harmful :: int
  bu_neutral :: int
  bu_created_at :: "string attr"
  bu_updated_at :: "string attr"
  bu_embedding :: "rat list option attr"
  bu_status :: "string attr"
  bu_shadowed :: "string list"

record playbook =
  pb_bullets :: "(string, bullet) dict"
  pb_sections :: "(string, string list) dict"
  pb_next_id :: int
  pb_decisions :: "(json fset, consolidation_verdict) dict"

record playbook_world = playbook +
  pw_clock :: "nat \<Rightarrow> string"
  pw_reads :: nat

definition utc_now :: "(playbook_world, string) io" where
  "utc_now w = (Inr (pw_clock w (pw_reads w)), w\<lparr>pw_reads := Suc (pw_reads w)\<rparr>)"

definition empty_playbook :: playbook where
  "empty_playbook = \<lparr>pb_bullets = [], pb_sections = [], pb_next_id = 0, pb_decisions = []\<rparr>"

subsection \<open>Bullets\<close>

definition BULLET_METHODS :: "string list" where
  "BULLET_METHODS = [''apply_metadata'', ''tag'', ''to_llm_dict'']"

definition BULLET_TAGS :: "string list" where
  "BULLET_TAGS = [''helpful'', ''harmful'', ''neutral'']"

text \<open>\<^verbatim>\<open>if hasattr(self, key): setattr(self, key, value)\<close>; an integer that is stored under the name of a method shadows the method.\<close>

definition set_attr :: "string \<Rightarrow> int \<Rightarrow> bullet \<Rightarrow> bullet" where
  "set_attr key v b =
     (if key = ''helpful'' then b\<lparr>bu_helpful := v\<rparr>
      else if key = ''harmful'' then b\<lparr>bu_harmful := v\<rparr>
      else if key = ''neutral'' then b\<lparr>bu_neutral := v\<rparr>
      else if key = ''id'' then b\<lparr>bu_id := Overwritten v\<rparr>
      else if key = ''section'' then b\<lparr>bu_section := Overwritten v\<rparr>
      else if key = ''content'' then b\<lparr>bu_content := JInt v\<rparr>
      else if key = ''created_at'' then b\<lparr>bu_created_at := Overwritten v\<rparr>
      else if key = ''updated_at'' then b\<lparr>bu_updated_at := Overwritten v\<rparr>
      else if key = ''embedding'' then b\<lparr>bu_embedding := Overwritten v\<rparr>
      else if key = ''status'' then b\<lparr>bu_status := Overwritten v\<rparr>
      else if key \<in> set BULLET_METHODS then b\<lparr>bu_shadowed := key # bu_shadowed b\<rparr>
      else b)"

definition method_call :: "string \<Rightarrow> bullet \<Rightarrow> 'a result \<Rightarrow> 'a result" where
  "method_call name b r = (if name \<in> set (bu_shadowed b) then Inl (Exn TypeError ''int object is not callable'') else r)"

definition apply_metadata :: "(string, int) dict \<Rightarrow> bullet \<Rightarrow> bullet result" where
  "apply_metadata metadata b = method_call ''apply_metadata'' b (Inr (fold (\<lambda>(key, v). set_attr key v) metadata b))"

text \<open>The counters of \<^verbatim>\<open>tag\<close>; the time of the update is set by \<open>tag_bullet\<close>.\<close>

definition bullet_tag :: "string \<Rightarrow> int \<Rightarrow> bullet \<Rightarrow> bullet result" where
  "bullet_tag tag increment b =
     method_call ''tag'' b
       (if tag = ''helpful'' then Inr (b\<lparr>bu_helpful := bu_helpful b + increment\<rparr>)
        else if tag = ''harmful'' then Inr (b\<lparr>bu_harmful := bu_harmful b + increment\<rparr>)
        else if tag = ''neutral'' then Inr (b\<lparr>bu_neutral := bu_neutral b + increment\<rparr>)
        else Inl (Exn ValueError (''Unsupported tag: '' @ tag)))"

fun attr_json :: "string attr \<Rightarrow> json" where
  "attr_json (Declared s) = JStr s"
| "attr_json (Overwritten i) = JInt i"

definition to_llm_dict :: "bullet \<Rightarrow> jobj result" where
  "to_llm_dict b =
     method_call ''to_llm_dict'' b
       (Inr [(''id'', attr_json (bu_id b)), (''section'', attr_json (bu_section b)), (''content'', bu_content b),
             (''helpful'', JInt (bu_helpful b)), (''harmful'', JInt (bu_harmful b)), (''neutral'', JInt (bu_neutral b))])"

definition bullet_active :: "bullet \<Rightarrow> bool" where
  "bullet_active b \<longleftrightarrow> bu_status b = Declared ''active''"

subsection \<open>The operations on bullets\<close>

text \<open>\<^verbatim>\<open>f"{n:05d}"\<close>, and the prefix of an identifier: the first word of the section without other characters than letters and digits.\<close>

definition zero_pad :: "nat \<Rightarrow> string \<Rightarrow> string" where
  "zero_pad n s = replicate (n - length s) (CHR ''0'') @ s"

definition format_05d :: "int \<Rightarrow> string" where
  "format_05d i = (if i < 0 then CHR ''-'' # zero_pad 4 (str_of_nat (nat (- i))) else zero_pad 5 (str_of_nat (nat i)))"

definition alnum_lower :: "char \<Rightarrow> bool" where
  "alnum_lower c \<longleftrightarrow> (let n = (of_char c :: nat) in 97 \<le> n \<and> n \<le> 122 \<or> 48 \<le> n \<and> n \<le> 57)"

definition section_prefix :: "string \<Rightarrow> string" where
  "section_prefix section_name =
     str_or (filter alnum_lower (py_lower (takeWhile (\<lambda>c. \<not> py_isspace c) (py_lstrip section_name)))) ''general''"

definition generate_id :: "string \<Rightarrow> (playbook_world, string) io" where
  "generate_id section_name =
     thenE (modifyE (\<lambda>w. w\<lparr>pb_next_id := pb_next_id w + 1\<rparr>))
       (getE (\<lambda>w. section_prefix section_name @ ''-'' @ format_05d (pb_next_id w)))"

definition new_bullet :: "string \<Rightarrow> string \<Rightarrow> string \<Rightarrow> (playbook_world, bullet) io" where
  "new_bullet bullet_id section_name content =
     bindE utc_now (\<lambda>created. bindE utc_now (\<lambda>updated.
       retE \<lparr>bu_id = Declared bullet_id, bu_section = Declared section_name, bu_content = JStr content, bu_helpful = 0, bu_harmful = 0,
             bu_neutral = 0, bu_created_at = Declared created, bu_updated_at = Declared updated, bu_embedding = Declared None,
             bu_status = Declared ''active'', bu_shadowed = []\<rparr>))"

definition put_bullet :: "string \<Rightarrow> bullet \<Rightarrow> playbook_world \<Rightarrow> playbook_world" where
  "put_bullet bullet_id b w = w\<lparr>pb_bullets := dict_set bullet_id b (pb_bullets w)\<rparr>"

definition section_ids :: "string \<Rightarrow> playbook_world \<Rightarrow> string list" where
  "section_ids section_name w = (case dict_get (pb_sections w) section_name of Some ids \<Rightarrow> ids | None \<Rightarrow> [])"

definition add_bullet :: "string \<Rightarrow> string \<Rightarrow> string option \<Rightarrow> (string, int) dict \<Rightarrow> (playbook_world, bullet) io" where
  "add_bullet section_name content bullet_id metadata =
     bindE (case bullet_id of
              Some i \<Rightarrow> if i = [] then generate_id section_name else retE i
            | None \<Rightarrow> generate_id section_name) (\<lambda>bid.
     bindE (new_bullet bid section_name content) (\<lambda>b.
     bindE (liftE (apply_metadata metadata b)) (\<lambda>b.
     thenE (modifyE (put_bullet bid b))
    (thenE (modifyE (\<lambda>w. w\<lparr>pb_sections := dict_set section_name (section_ids section_name w @ [bid]) (pb_sections w)\<rparr>))
       (retE b)))))"

definition update_bullet :: "string \<Rightarrow> string option \<Rightarrow> (string, int) dict \<Rightarrow> (playbook_world, bullet option) io" where
  "update_bullet bullet_id content metadata =
     bindE (getE (\<lambda>w. dict_get (pb_bullets w) bullet_id)) (\<lambda>found.
       case found of
         None \<Rightarrow> retE None
       | Some b \<Rightarrow>
           let b = (case content of Some c \<Rightarrow> b\<lparr>bu_content := JStr c\<rparr> | None \<Rightarrow> b) in
           thenE (modifyE (put_bullet bullet_id b))
          (bindE (if metadata \<noteq> [] then liftE (apply_metadata metadata b) else retE b) (\<lambda>b.
           bindE utc_now (\<lambda>now.
           let b = b\<lparr>bu_updated_at := Declared now\<rparr> in
           thenE (modifyE (put_bullet bullet_id b)) (retE (Some b))))))"

definition tag_bullet :: "string \<Rightarrow> string \<Rightarrow> int \<Rightarrow> (playbook_world, bullet option) io" where
  "tag_bullet bullet_id tag increment =
     bindE (getE (\<lambda>w. dict_get (pb_bullets w) bullet_id)) (\<lambda>found.
       case found of
         None \<Rightarrow> retE None
       | Some b \<Rightarrow>
           bindE (liftE (bullet_tag tag increment b)) (\<lambda>b.
           bindE utc_now (\<lambda>now.
           let b = b\<lparr>bu_updated_at := Declared now\<rparr> in
           thenE (modifyE (put_bullet bullet_id b)) (retE (Some b)))))"

definition drop_from_section :: "string \<Rightarrow> string \<Rightarrow> playbook_world \<Rightarrow> playbook_world" where
  "drop_from_section section_name bullet_id w =
     (case dict_get (pb_sections w) section_name of
        None \<Rightarrow> w
      | Some ids \<Rightarrow>
          if ids = [] then w
          else let rest = filter (\<lambda>i. i \<noteq> bullet_id) ids in
               w\<lparr>pb_sections := (if rest = [] then dict_pop section_name (pb_sections w) else dict_set section_name rest (pb_sections w))\<rparr>)"

definition remove_bullet :: "string \<Rightarrow> bool \<Rightarrow> (playbook_world, unit) io" where
  "remove_bullet bullet_id soft =
     bindE (getE (\<lambda>w. dict_get (pb_bullets w) bullet_id)) (\<lambda>found.
       case found of
         None \<Rightarrow> retE ()
       | Some b \<Rightarrow>
           if soft
           then bindE utc_now (\<lambda>now. modifyE (put_bullet bullet_id (b\<lparr>bu_status := Declared ''invalid'', bu_updated_at := Declared now\<rparr>)))
           else thenE (modifyE (\<lambda>w. w\<lparr>pb_bullets := dict_pop bullet_id (pb_bullets w)\<rparr>))
                  (case bu_section b of
                     Declared section_name \<Rightarrow> modifyE (drop_from_section section_name bullet_id)
                   | Overwritten _ \<Rightarrow> retE ()))"

definition playbook_bullets :: "bool \<Rightarrow> playbook_world \<Rightarrow> bullet list" where
  "playbook_bullets include_invalid w =
     (if include_invalid then dict_values (pb_bullets w) else filter bullet_active (dict_values (pb_bullets w)))"

subsection \<open>Retention\<close>

text \<open>
  Floats are rationals. The age of a time stamp in days (\<open>None\<close> when it cannot be parsed or subtracted) and the power \<^verbatim>\<open>0.5 ** x\<close>, which raises
  \<^verbatim>\<open>OverflowError\<close> for large negative exponents, are parameters.
\<close>

record retention_policy =
  rp_max_bullets :: int
  rp_cold_after_days :: rat
  rp_half_life_days :: rat

definition default_retention :: retention_policy where
  "default_retention = \<lparr>rp_max_bullets = 500, rp_cold_after_days = 3, rp_half_life_days = 20\<rparr>"

record retention_env =
  re_age :: "string \<Rightarrow> string \<Rightarrow> rat option"
  re_half_power :: "rat \<Rightarrow> rat result"

definition days_since :: "retention_env \<Rightarrow> string attr \<Rightarrow> string \<Rightarrow> rat" where
  "days_since env stamp now =
     (case stamp of Declared s \<Rightarrow> (case re_age env s now of Some d \<Rightarrow> d | None \<Rightarrow> 0) | Overwritten _ \<Rightarrow> 0)"

definition is_disposable :: "retention_env \<Rightarrow> retention_policy \<Rightarrow> string \<Rightarrow> bullet \<Rightarrow> bool" where
  "is_disposable env policy now b \<longleftrightarrow>
     bu_helpful b < bu_harmful b
     \<or> bu_helpful b = bu_harmful b \<and> bu_harmful b = bu_neutral b \<and> bu_neutral b = 0
       \<and> rp_cold_after_days policy < days_since env (bu_updated_at b) now"

definition keep_score :: "retention_env \<Rightarrow> retention_policy \<Rightarrow> string \<Rightarrow> bullet \<Rightarrow> rat result" where
  "keep_score env policy now b =
     (let seen = bu_helpful b + bu_harmful b + bu_neutral b + 2 in
      if seen = 0 then Inl (Exn (OtherError ''ZeroDivisionError'') ''division by zero'')
      else let hit_rate = of_int (bu_helpful b + 1) / of_int seen;
               half_life = max (rp_half_life_days policy) (1 / 1000000) in
           rbind (re_half_power env (days_since env (bu_updated_at b) now / half_life)) (\<lambda>decay.
             Inr (hit_rate * max (1 / 2) decay)))"

text \<open>
  \<^verbatim>\<open>survivors.sort(key=...)\<close>: the key is the score and, on equal scores, the time of the last update. Comparing a text with an integer
  raises, and two neighbours of the sorted list are always compared.
\<close>

definition stamp_key :: "string attr \<Rightarrow> nat \<times> string \<times> int" where
  "stamp_key a = (case a of Declared s \<Rightarrow> (0, s, 0) | Overwritten i \<Rightarrow> (1, [], i))"

definition sort_survivors :: "retention_env \<Rightarrow> retention_policy \<Rightarrow> string \<Rightarrow> bullet list \<Rightarrow> bullet list result" where
  "sort_survivors env policy now survivors =
     rbind (rmap (keep_score env policy now) survivors) (\<lambda>scores.
       let keyed = zip scores survivors in
       if list_ex (\<lambda>(x, b). list_ex (\<lambda>(y, c). x = y \<and> fst (stamp_key (bu_updated_at b)) < fst (stamp_key (bu_updated_at c))) keyed) keyed
       then Inl (Exn TypeError ''not supported between instances of int and str'')
       else Inr (map snd (sort_key (\<lambda>(x, b). (x, stamp_key (bu_updated_at b))) keyed)))"

definition evicted_ids :: "retention_env \<Rightarrow> retention_policy \<Rightarrow> string \<Rightarrow> bullet list \<Rightarrow> string attr list result" where
  "evicted_ids env policy now active =
     (let evict = map bu_id (filter (is_disposable env policy now) active);
          survivors = filter (\<lambda>b. bu_id b \<notin> set evict) active;
          overflow = int (length survivors) - rp_max_bullets policy in
      if 0 < overflow
      then rbind (sort_survivors env policy now survivors) (\<lambda>ranked. Inr (dict_fromkeys (evict @ map bu_id (take (nat overflow) ranked))))
      else Inr (dict_fromkeys evict))"

definition prune :: "retention_env \<Rightarrow> retention_policy \<Rightarrow> string option \<Rightarrow> (playbook_world, int) io" where
  "prune env policy now =
     bindE (getE (playbook_bullets False)) (\<lambda>active.
       if int (length active) \<le> rp_max_bullets policy then retE 0
       else bindE (case now of Some t \<Rightarrow> retE t | None \<Rightarrow> utc_now) (\<lambda>now.
            bindE (liftE (evicted_ids env policy now active)) (\<lambda>evict.
            thenE (forE evict (\<lambda>i. case i of Declared bullet_id \<Rightarrow> remove_bullet bullet_id False | Overwritten _ \<Rightarrow> retE ()))
              (retE (int (length evict))))))"

subsection \<open>Verdicts\<close>

definition get_similarity_decision :: "json \<Rightarrow> json \<Rightarrow> playbook_world \<Rightarrow> consolidation_verdict option" where
  "get_similarity_decision a b w = dict_get (pb_decisions w) {|a, b|}"

definition set_similarity_decision :: "json \<Rightarrow> json \<Rightarrow> consolidation_verdict \<Rightarrow> playbook_world \<Rightarrow> playbook_world" where
  "set_similarity_decision a b decision w = w\<lparr>pb_decisions := dict_set {|a, b|} decision (pb_decisions w)\<rparr>"

definition has_keep_decision :: "json \<Rightarrow> json \<Rightarrow> playbook_world \<Rightarrow> bool" where
  "has_keep_decision a b w =
     (case get_similarity_decision a b w of Some v \<Rightarrow> cv_verdict v = JStr ''keep_both'' | None \<Rightarrow> False)"

subsection \<open>The dictionary form\<close>

text \<open>
  What \<^verbatim>\<open>to_dict\<close> builds and \<^verbatim>\<open>from_dict\<close> reads: the entries of a bullet that have a default may be missing, the bullets of an
  older file lack the embedding and the status, and its verdicts have other names. Payloads whose entries are not of
  the declared types are not modelled.
\<close>

record bullet_payload =
  bp_id :: "string attr"
  bp_section :: "string attr"
  bp_content :: json
  bp_helpful :: "int option"
  bp_harmful :: "int option"
  bp_neutral :: "int option"
  bp_created_at :: "string attr option"
  bp_updated_at :: "string attr option"
  bp_embedding :: "rat list option attr option"
  bp_status :: "string attr option"

record playbook_payload =
  pp_bullets :: "(string, bullet_payload) dict"
  pp_sections :: "(string, string list) dict"
  pp_next_id :: "int option"
  pp_decisions :: "(string, jobj) dict"

definition bullet_asdict :: "bullet \<Rightarrow> bullet_payload" where
  "bullet_asdict b =
     \<lparr>bp_id = bu_id b, bp_section = bu_section b, bp_content = bu_content b, bp_helpful = Some (bu_helpful b), bp_harmful = Some (bu_harmful b),
      bp_neutral = Some (bu_neutral b), bp_created_at = Some (bu_created_at b), bp_updated_at = Some (bu_updated_at b),
      bp_embedding = Some (bu_embedding b), bp_status = Some (bu_status b)\<rparr>"

definition verdict_asdict :: "consolidation_verdict \<Rightarrow> jobj" where
  "verdict_asdict v =
     [(''verdict'', cv_verdict v), (''rationale'', cv_rationale v), (''cosine_score'', cv_cosine_score v), (''judged_at'', cv_judged_at v),
      (''judge_model'', cv_judge_model v)]"

fun text_of :: "json \<Rightarrow> string option" where
  "text_of (JStr s) = Some s"
| "text_of _ = None"

definition pair_text :: "json fset \<Rightarrow> string result" where
  "pair_text k =
     (if fBall k (\<lambda>v. text_of v \<noteq> None)
      then Inr (join_with (CHR '','') (sorted_list_of_fset ((\<lambda>v. the (text_of v)) |`| k)))
      else Inl (Exn TypeError ''sequence item: expected str instance''))"

definition to_dict :: "'z playbook_scheme \<Rightarrow> playbook_payload result" where
  "to_dict pb =
     rbind (rmap (\<lambda>(k, v). rbind (pair_text k) (\<lambda>t. Inr (t, verdict_asdict v))) (pb_decisions pb)) (\<lambda>decisions.
       Inr \<lparr>pp_bullets = map (\<lambda>(i, b). (i, bullet_asdict b)) (pb_bullets pb), pp_sections = pb_sections pb, pp_next_id = Some (pb_next_id pb),
            pp_decisions = fold (\<lambda>(t, v). dict_set t v) decisions []\<rparr>)"

definition or_now :: "string attr option \<Rightarrow> (playbook_world, string attr) io" where
  "or_now a = (case a of Some x \<Rightarrow> retE x | None \<Rightarrow> bindE utc_now (\<lambda>t. retE (Declared t)))"

definition bullet_from_payload :: "bullet_payload \<Rightarrow> (playbook_world, bullet) io" where
  "bullet_from_payload p =
     bindE (or_now (bp_created_at p)) (\<lambda>created. bindE (or_now (bp_updated_at p)) (\<lambda>updated.
       retE \<lparr>bu_id = bp_id p, bu_section = bp_section p, bu_content = bp_content p, bu_helpful = int_or (bp_helpful p) 0,
             bu_harmful = int_or (bp_harmful p) 0, bu_neutral = int_or (bp_neutral p) 0, bu_created_at = created, bu_updated_at = updated,
             bu_embedding = (case bp_embedding p of Some e \<Rightarrow> e | None \<Rightarrow> Declared None),
             bu_status = (case bp_status p of Some st \<Rightarrow> st | None \<Rightarrow> Declared ''active''), bu_shadowed = []\<rparr>))"

definition VERDICT_FIELD_MAP :: "(string, string) dict" where
  "VERDICT_FIELD_MAP =
     [(''decision'', ''verdict''), (''reasoning'', ''rationale''), (''decided_at'', ''judged_at''), (''similarity_at_decision'', ''cosine_score'')]"

fun migrate_value :: "json \<Rightarrow> json result" where
  "migrate_value (JList _) = Inl (Exn TypeError ''unhashable type: list'')"
| "migrate_value (JObj _) = Inl (Exn TypeError ''unhashable type: dict'')"
| "migrate_value v = Inr (if v = JStr ''KEEP'' then JStr ''keep_both'' else v)"

definition migrate_entry :: "string \<times> json \<Rightarrow> (string \<times> json) result" where
  "migrate_entry = (\<lambda>(k, v).
     let new_k = (case dict_get VERDICT_FIELD_MAP k of Some k' \<Rightarrow> k' | None \<Rightarrow> k) in
     if new_k = ''verdict'' then rbind (migrate_value v) (\<lambda>v. Inr (new_k, v)) else Inr (new_k, v))"

definition migrate_verdict_dict :: "jobj \<Rightarrow> jobj result" where
  "migrate_verdict_dict d =
     rbind (rmap migrate_entry d) (\<lambda>entries.
       let migrated = fold (\<lambda>(k, v). dict_set k v) entries [] in
       Inr (case dict_get migrated ''judge_model'' of None \<Rightarrow> dict_set ''judge_model'' (JStr []) migrated | Some _ \<Rightarrow> migrated))"

definition verdict_from_dict :: "jobj \<Rightarrow> consolidation_verdict result" where
  "verdict_from_dict d =
     (if \<not> set (dict_keys d) \<subseteq> {''verdict'', ''rationale'', ''cosine_score'', ''judged_at'', ''judge_model''}
      then Inl (Exn TypeError ''got an unexpected keyword argument'')
      else case (dict_get d ''verdict'', dict_get d ''rationale'', dict_get d ''cosine_score'', dict_get d ''judged_at'') of
             (Some v, Some r, Some c, Some t) \<Rightarrow>
               Inr \<lparr>cv_verdict = v, cv_rationale = r, cv_cosine_score = c, cv_judged_at = t,
                    cv_judge_model = (case dict_get d ''judge_model'' of Some m \<Rightarrow> m | None \<Rightarrow> JStr [])\<rparr>
           | _ \<Rightarrow> Inl (Exn TypeError ''missing required positional arguments''))"

definition decision_from_dict :: "string \<times> jobj \<Rightarrow> (json fset \<times> consolidation_verdict) result" where
  "decision_from_dict = (\<lambda>(t, d).
     rbind (migrate_verdict_dict d) (\<lambda>d. rbind (verdict_from_dict d) (\<lambda>v. Inr (fset_of_list (map JStr (split_on (CHR '','') t)), v))))"

definition from_dict :: "playbook_payload \<Rightarrow> (playbook_world, playbook) io" where
  "from_dict payload =
     bindE (mapE (\<lambda>(i, p). bindE (bullet_from_payload p) (\<lambda>b. retE (i, b))) (pp_bullets payload)) (\<lambda>bullets.
     bindE (liftE (rmap decision_from_dict (pp_decisions payload))) (\<lambda>decisions.
       retE \<lparr>pb_bullets = bullets, pb_sections = pp_sections payload, pb_next_id = int_or (pp_next_id payload) 0,
             pb_decisions = fold (\<lambda>(k, v). dict_set k v) decisions []\<rparr>))"

subsection \<open>Deltas\<close>

text \<open>\<^verbatim>\<open>s.upper()\<close>; the two characters whose upper case lies outside of the eight-bit range keep theirs.\<close>

definition py_upper_char :: "char \<Rightarrow> string" where
  "py_upper_char c =
     (let n = (of_char c :: nat) in
      if n = 223 then ''SS''
      else if 97 \<le> n \<and> n \<le> 122 \<or> 224 \<le> n \<and> n \<le> 254 \<and> n \<noteq> 247 then [char_of (n - 32)] else [c])"

definition py_upper :: "string \<Rightarrow> string" where
  "py_upper s = concat (map py_upper_char s)"

record delta_operation =
  do_type :: string
  do_section :: string
  do_content :: "string option"
  do_bullet_id :: "string option"
  do_metadata :: "(string, int) dict"

record delta_batch =
  db_reasoning :: string
  db_operations :: "delta_operation list"

definition json_or_none :: "(json \<Rightarrow> string) \<Rightarrow> json option \<Rightarrow> string option" where
  "json_or_none repr v = (case v of None \<Rightarrow> None | Some JNull \<Rightarrow> None | Some v \<Rightarrow> Some (json_str repr v))"

definition delta_operation_from_json :: "(json \<Rightarrow> string) \<Rightarrow> jobj \<Rightarrow> delta_operation result" where
  "delta_operation_from_json repr payload =
     (let metadata = (case dict_get payload ''metadata'' of Some (JObj m) \<Rightarrow> m | _ \<Rightarrow> []) in
      case dict_get payload ''type'' of
        None \<Rightarrow> Inl (Exn KeyError ''type'')
      | Some kind \<Rightarrow>
          let op_type = py_upper (json_str repr kind);
              metadata = (if op_type = ''TAG'' then filter (\<lambda>(k, _). k \<in> set BULLET_TAGS) metadata else metadata) in
          if op_type \<notin> {''ADD'', ''UPDATE'', ''TAG'', ''REMOVE''} then Inl (Exn ValueError (''Invalid operation type: '' @ op_type))
          else rbind (rmap (\<lambda>(k, v). rbind (json_int v) (\<lambda>i. Inr (k, i))) metadata) (\<lambda>metadata.
            Inr \<lparr>do_type = op_type, do_section = (case dict_get payload ''section'' of Some v \<Rightarrow> json_str repr v | None \<Rightarrow> []),
                 do_content = json_or_none repr (dict_get payload ''content''), do_bullet_id = json_or_none repr (dict_get payload ''bullet_id''),
                 do_metadata = metadata\<rparr>))"

definition delta_operation_to_json :: "delta_operation \<Rightarrow> jobj" where
  "delta_operation_to_json op =
     [(''type'', JStr (do_type op)), (''section'', JStr (do_section op))]
     @ (case do_content op of Some c \<Rightarrow> [(''content'', JStr c)] | None \<Rightarrow> [])
     @ (case do_bullet_id op of Some i \<Rightarrow> [(''bullet_id'', JStr i)] | None \<Rightarrow> [])
     @ (if do_metadata op \<noteq> [] then [(''metadata'', JObj (map (\<lambda>(k, i). (k, JInt i)) (do_metadata op)))] else [])"

definition delta_batch_from_json :: "(json \<Rightarrow> string) \<Rightarrow> jobj \<Rightarrow> delta_batch result" where
  "delta_batch_from_json repr payload =
     (let items = (case dict_get payload ''operations'' of Some (JList xs) \<Rightarrow> xs | _ \<Rightarrow> []) in
      rbind (rmap (delta_operation_from_json repr) (List.map_filter (\<lambda>v. case v of JObj o' \<Rightarrow> Some o' | _ \<Rightarrow> None) items)) (\<lambda>operations.
        Inr \<lparr>db_reasoning = (case dict_get payload ''reasoning'' of Some v \<Rightarrow> json_str repr v | None \<Rightarrow> []), db_operations = operations\<rparr>))"

definition delta_batch_to_json :: "delta_batch \<Rightarrow> jobj" where
  "delta_batch_to_json d =
     [(''reasoning'', JStr (db_reasoning d)), (''operations'', JList (map (\<lambda>op. JObj (delta_operation_to_json op)) (db_operations d)))]"

definition apply_operation :: "delta_operation \<Rightarrow> (playbook_world, unit) io" where
  "apply_operation op =
     (let op_type = py_upper (do_type op) in
      if op_type = ''ADD'' then
        (case do_content op of
           Some content \<Rightarrow>
             if content = [] then retE ()
             else thenE (add_bullet (do_section op) content (do_bullet_id op) (do_metadata op)) (retE ())
         | None \<Rightarrow> retE ())
      else if op_type = ''UPDATE'' then
        (case do_bullet_id op of
           Some bullet_id \<Rightarrow> thenE (update_bullet bullet_id (do_content op) (do_metadata op)) (retE ())
         | None \<Rightarrow> retE ())
      else if op_type = ''TAG'' then
        (case do_bullet_id op of
           Some bullet_id \<Rightarrow>
             forE (do_metadata op) (\<lambda>(tag, increment).
               if tag \<in> set BULLET_TAGS then thenE (tag_bullet bullet_id tag increment) (retE ()) else retE ())
         | None \<Rightarrow> retE ())
      else if op_type = ''REMOVE'' then
        (case do_bullet_id op of Some bullet_id \<Rightarrow> remove_bullet bullet_id False | None \<Rightarrow> retE ())
      else retE ())"

definition apply_delta :: "delta_batch \<Rightarrow> (playbook_world, unit) io" where
  "apply_delta delta = forE (db_operations delta) apply_operation"

subsection \<open>Presentation\<close>

definition short_id :: "string attr \<Rightarrow> string result" where
  "short_id i =
     (case i of
        Declared s \<Rightarrow> Inr (case partition_on (CHR ''-'') s of (_, found, rest) \<Rightarrow> if found then rest else s)
      | Overwritten _ \<Rightarrow> Inl (Exn TypeError ''argument of type int is not iterable''))"

definition markdown_row :: "(json \<Rightarrow> string) \<Rightarrow> string \<Rightarrow> bullet \<Rightarrow> string result" where
  "markdown_row repr section_name b =
     rbind (short_id (bu_id b)) (\<lambda>i.
       Inr (''| '' @ section_name @ '' | '' @ i @ '' | '' @ json_str repr (bu_content b) @ '' | helpful='' @ str_of_int (bu_helpful b) @ '', harmful='' @
            str_of_int (bu_harmful b) @ '', neutral='' @ str_of_int (bu_neutral b) @ '' |''))"

definition section_rows :: "playbook_world \<Rightarrow> string \<Rightarrow> bullet list" where
  "section_rows w section_name =
     filter bullet_active (List.map_filter (\<lambda>i. dict_get (pb_bullets w) i) (section_ids section_name w))"

definition as_markdown :: "(json \<Rightarrow> string) \<Rightarrow> string option \<Rightarrow> playbook_world \<Rightarrow> string result" where
  "as_markdown repr section_name w =
     (let sections_to_render = (case section_name of None \<Rightarrow> sort (dict_keys (pb_sections w)) | Some s \<Rightarrow> [s]) in
      rbind (rmap (\<lambda>s. rmap (markdown_row repr s) (section_rows w s)) sections_to_render) (\<lambda>rows.
        Inr (join_with (CHR 10) ([''| Category | Id | Strategy | Application Result |'', ''| :--- | :--- | :--- | :--- |''] @ concat rows))))"

definition playbook_str :: "(json \<Rightarrow> string) \<Rightarrow> playbook_world \<Rightarrow> string result" where
  "playbook_str repr w = (if pb_bullets w = [] then Inr ''Playbook(empty)'' else as_markdown repr None w)"

definition playbook_stats :: "playbook_world \<Rightarrow> int \<times> int \<times> int \<times> int \<times> int" where
  "playbook_stats w =
     (int (length (pb_sections w)), int (length (pb_bullets w)), sum_list (map bu_helpful (dict_values (pb_bullets w))),
      sum_list (map bu_harmful (dict_values (pb_bullets w))), sum_list (map bu_neutral (dict_values (pb_bullets w))))"

subsection \<open>Every bullet is listed under its section\<close>

text \<open>
  The identifiers of the bullets and of the sections are unique, and a bullet whose section is a text is listed under it. The converse does not
  hold: adding a bullet under an identifier that is taken lists it a second time, or under two sections.
\<close>

definition playbook_ok :: "playbook_world \<Rightarrow> bool" where
  "playbook_ok w \<longleftrightarrow> dict_ok (pb_bullets w) \<and> dict_ok (pb_sections w)
     \<and> (\<forall>i b s. dict_get (pb_bullets w) i = Some b \<longrightarrow> bu_section b = Declared s \<longrightarrow> i \<in> set (section_ids s w))"

lemma playbook_ok_clock: "playbook_ok (w\<lparr>pw_reads := n\<rparr>) = playbook_ok w"
  "playbook_ok (w\<lparr>pb_next_id := k\<rparr>) = playbook_ok w" "playbook_ok (w\<lparr>pb_decisions := ds\<rparr>) = playbook_ok w"
  by (simp_all add: playbook_ok_def section_ids_def)

lemma preserves_utc_now [preserves_intros]: "preserves playbook_ok utc_now"
  by (rule preservesI) (simp add: utc_now_def playbook_ok_clock)

lemma playbook_ok_put:
  assumes "playbook_ok w" and "\<And>s. bu_section b = Declared s \<Longrightarrow> i \<in> set (section_ids s w)"
  shows "playbook_ok (put_bullet i b w)"
  using assms by (auto simp: playbook_ok_def put_bullet_def section_ids_def dict_get_set)

lemma set_attr_section: "bu_section (set_attr key v b) = Declared s \<Longrightarrow> bu_section b = Declared s"
  by (auto simp: set_attr_def split: if_splits)

lemma apply_metadata_section:
  assumes "apply_metadata metadata b = Inr b'" and "bu_section b' = Declared s"
  shows "bu_section b = Declared s"
proof -
  have "bu_section (fold (\<lambda>(k, v). set_attr k v) metadata b) = Declared s \<Longrightarrow> bu_section b = Declared s"
    by (induction metadata arbitrary: b) (auto dest: set_attr_section)
  with assms show ?thesis by (auto simp: apply_metadata_def method_call_def split: if_splits)
qed

lemma bullet_tag_section: "bullet_tag tag n b = Inr b' \<Longrightarrow> bu_section b' = bu_section b"
  by (auto simp: bullet_tag_def method_call_def split: if_splits)

text \<open>While an operation works on the bullet \<open>b\<close> that it found under \<open>i\<close>, the sections still list it.\<close>

definition found_ok :: "string \<Rightarrow> bullet \<Rightarrow> playbook_world \<Rightarrow> bool" where
  "found_ok i b w \<longleftrightarrow> playbook_ok w \<and> (\<forall>s. bu_section b = Declared s \<longrightarrow> i \<in> set (section_ids s w))"

lemma preserves_found:
  assumes "\<And>b. preserves (found_ok i b) (f b)"
  shows "preserves playbook_ok (bindE (getE (\<lambda>w. dict_get (pb_bullets w) i)) (\<lambda>found. case found of None \<Rightarrow> retE n | Some b \<Rightarrow> f b))"
proof (rule preservesI)
  fix w assume ok: "playbook_ok w"
  have "playbook_ok (snd (f b w))" if "dict_get (pb_bullets w) i = Some b" for b
    using preserves_apply [OF assms, of b w] ok that by (auto simp: found_ok_def playbook_ok_def)
  with ok show "playbook_ok (snd (bindE (getE (\<lambda>w. dict_get (pb_bullets w) i)) (\<lambda>found. case found of None \<Rightarrow> retE n | Some b \<Rightarrow> f b) w))"
    by (cases "dict_get (pb_bullets w) i") simp_all
qed

lemma found_ok_steps:
  "preserves (found_ok i b) utc_now"
  "(\<And>s. bu_section b' = Declared s \<Longrightarrow> bu_section b = Declared s) \<Longrightarrow> preserves (found_ok i b) (modifyE (put_bullet i b'))"
proof -
  show "preserves (found_ok i b) utc_now"
    by (rule preservesI) (simp add: found_ok_def utc_now_def playbook_ok_clock section_ids_def)
  show "preserves (found_ok i b) (modifyE (put_bullet i b'))" if "\<And>s. bu_section b' = Declared s \<Longrightarrow> bu_section b = Declared s"
    using that by (intro preservesI) (auto simp: found_ok_def playbook_ok_put, simp add: put_bullet_def section_ids_def)
qed

lemma preserves_bind_run:
  assumes "preserves P m" and "\<And>w a w'. m w = (Inr a, w') \<Longrightarrow> preserves P (f a)"
  shows "preserves P (bindE m f)"
proof (rule preservesI)
  fix s assume "P s"
  obtain r s' where m: "m s = (r, s')" by (metis prod.exhaust)
  with \<open>P s\<close> assms(1) have "P s'" by (metis preservesD)
  with m assms(2) show "P (snd (bindE m f s))" by (cases r) (auto simp: preserves_def)
qed

lemma preserves_liftE_bind: "(\<And>a. x = Inr a \<Longrightarrow> preserves P (f a)) \<Longrightarrow> preserves P (bindE (liftE x) f)"
  by (cases x) (auto simp: preserves_def liftE_def)

lemma update_bullet_ok [preserves_intros]: "preserves playbook_ok (update_bullet i content metadata)"
proof -
  have "preserves (found_ok i b) (bindE (if metadata \<noteq> [] then liftE (apply_metadata metadata c) else retE c) (\<lambda>b'.
      bindE utc_now (\<lambda>now. let b' = b'\<lparr>bu_updated_at := Declared now\<rparr> in thenE (modifyE (put_bullet i b')) (retE (Some b')))))"
    if c: "bu_section c = bu_section b" for b c
  proof -
    have stamped: "preserves (found_ok i b) (bindE utc_now (\<lambda>now. let b' = b'\<lparr>bu_updated_at := Declared now\<rparr> in
        thenE (modifyE (put_bullet i b')) (retE (Some b'))))"
      if "\<And>s. bu_section b' = Declared s \<Longrightarrow> bu_section b = Declared s" for b'
      using that unfolding Let_def by (intro preserves_bindE preserves_thenE found_ok_steps preserves_pure) simp_all
    have "preserves (found_ok i b) (bindE (liftE (apply_metadata metadata c)) (\<lambda>b'.
        bindE utc_now (\<lambda>now. let b' = b'\<lparr>bu_updated_at := Declared now\<rparr> in thenE (modifyE (put_bullet i b')) (retE (Some b')))))"
      by (intro preserves_liftE_bind stamped) (simp add: apply_metadata_section flip: c)
    with stamped [of c] c show ?thesis by simp
  qed
  then show ?thesis
    unfolding update_bullet_def Let_def
    by (intro preserves_found preserves_thenE found_ok_steps) (simp_all add: Let_def split: option.splits)
qed

lemma tag_bullet_ok [preserves_intros]: "preserves playbook_ok (tag_bullet i tag n)"
  unfolding tag_bullet_def Let_def
  by (intro preserves_found preserves_liftE_bind preserves_bindE preserves_thenE found_ok_steps preserves_pure) (simp add: bullet_tag_section)

lemma drop_from_section_ok:
  assumes "playbook_ok w" and "dict_get (pb_bullets w) i = None"
  shows "playbook_ok (drop_from_section s i w)"
proof (cases "dict_get (pb_sections w) s")
  case None
  then show ?thesis using assms by (simp add: drop_from_section_def)
next
  case (Some ids)
  let ?rest = "filter (\<lambda>j. j \<noteq> i) ids" and ?w = "drop_from_section s i w"
  have w: "?w = w \<or> ?w = w\<lparr>pb_sections := (if ?rest = [] then dict_pop s (pb_sections w) else dict_set s ?rest (pb_sections w))\<rparr>"
    using Some by (simp add: drop_from_section_def Let_def)
  then have "pb_bullets ?w = pb_bullets w" "dict_ok (pb_sections ?w)" using assms(1) by (auto simp: playbook_ok_def)
  moreover have "set (section_ids t w) - {i} \<subseteq> set (section_ids t ?w)" for t
    using w Some by (cases "?rest = []"; cases "t = s") (auto simp: section_ids_def dict_get_set dict_get_pop filter_empty_conv)
  moreover have "j \<noteq> i" if "dict_get (pb_bullets w) j = Some b" for j b using that assms(2) by auto
  ultimately show ?thesis using assms(1) unfolding playbook_ok_def by (simp add: subset_iff)
qed

lemma remove_bullet_ok [preserves_intros]: "preserves playbook_ok (remove_bullet i soft)"
proof -
  have pop: "playbook_ok (w\<lparr>pb_bullets := dict_pop i (pb_bullets w)\<rparr>)" if "playbook_ok w" for w
    using that by (auto simp: playbook_ok_def dict_get_pop section_ids_def)
  have "playbook_ok (snd (remove_bullet i False w))" if ok: "playbook_ok w" for w
  proof (cases "dict_get (pb_bullets w) i")
    case (Some b)
    have "playbook_ok (drop_from_section s i (w\<lparr>pb_bullets := dict_pop i (pb_bullets w)\<rparr>))" for s
      by (rule drop_from_section_ok) (use pop [OF ok] in \<open>simp_all add: dict_get_pop\<close>)
    with Some pop [OF ok] show ?thesis by (cases "bu_section b") (simp_all add: remove_bullet_def)
  qed (use ok in \<open>simp add: remove_bullet_def\<close>)
  then have "preserves playbook_ok (remove_bullet i False)" by (rule preservesI)
  moreover have "preserves playbook_ok (remove_bullet i True)"
    unfolding remove_bullet_def by (intro preserves_found) (auto intro!: preserves_bindE found_ok_steps)
  ultimately show ?thesis by (cases soft) simp_all
qed

lemma add_bullet_ok [preserves_intros]: "preserves playbook_ok (add_bullet s content bid metadata)"
proof -
  have gen: "preserves playbook_ok (generate_id s)"
    unfolding generate_id_def by (intro preserves_intros) (simp_all add: playbook_ok_clock)
  have new: "preserves playbook_ok (new_bullet i s content)" for i unfolding new_bullet_def by (intro preserves_intros)
  have listed: "preserves playbook_ok (thenE (modifyE (put_bullet i b))
      (thenE (modifyE (\<lambda>w. w\<lparr>pb_sections := dict_set s (section_ids s w @ [i]) (pb_sections w)\<rparr>)) (retE b)))"
    if "\<And>t. bu_section b = Declared t \<Longrightarrow> t = s" for i b
    using that by (intro preservesI) (auto simp: playbook_ok_def put_bullet_def section_ids_def dict_get_set split: if_splits)
  have "bu_section b = Declared s" if "new_bullet i s content w = (Inr b, w')" for i b w w'
    using that by (auto simp: new_bullet_def bindE_Inr_iff)
  then have "preserves playbook_ok (bindE (liftE (apply_metadata metadata b)) (\<lambda>b.
      thenE (modifyE (put_bullet i b)) (thenE (modifyE (\<lambda>w. w\<lparr>pb_sections := dict_set s (section_ids s w @ [i]) (pb_sections w)\<rparr>)) (retE b))))"
    if "new_bullet i s content w = (Inr b, w')" for i b w w'
    using that by (intro preserves_liftE_bind listed) (auto dest: apply_metadata_section)
  then have rest: "preserves playbook_ok (bindE (new_bullet i s content) (\<lambda>b. bindE (liftE (apply_metadata metadata b)) (\<lambda>b.
      thenE (modifyE (put_bullet i b)) (thenE (modifyE (\<lambda>w. w\<lparr>pb_sections := dict_set s (section_ids s w @ [i]) (pb_sections w)\<rparr>)) (retE b)))))" for i
    using new [of i] by (rule preserves_bind_run [rotated])
  have "preserves playbook_ok (case bid of Some i \<Rightarrow> if i = [] then generate_id s else retE i | None \<Rightarrow> generate_id s)"
    using gen by (cases bid) simp_all
  from preserves_bindE [OF this rest] show ?thesis unfolding add_bullet_def .
qed

lemma preserves_forE_split: "(\<And>x. x \<in> set xs \<Longrightarrow> preserves P (f x)) \<Longrightarrow> preserves P (forE xs f)"
  by (induction xs) (auto intro!: preserves_thenE)

lemma apply_delta_ok [preserves_intros]: "preserves playbook_ok (apply_delta delta)"
proof -
  have "preserves playbook_ok (apply_operation op)" for op
    unfolding apply_operation_def Let_def
    by (auto intro!: preserves_forE_split preserves_thenE add_bullet_ok update_bullet_ok tag_bullet_ok remove_bullet_ok split: option.splits)
  then show ?thesis unfolding apply_delta_def by (intro preserves_forE_split)
qed

lemma evict_one_ok [preserves_intros]:
  "preserves playbook_ok (case i of Declared j \<Rightarrow> remove_bullet j False | Overwritten _ \<Rightarrow> retE ())"
  by (simp add: remove_bullet_ok split: attr.split)

lemma prune_ok [preserves_intros]: "preserves playbook_ok (prune env policy now)"
  unfolding prune_def by (intro preserves_intros)

text \<open>Under \<open>playbook_ok\<close> the table that \<^verbatim>\<open>as_markdown\<close> prints has a row for every active bullet.\<close>

lemma listed_in_rows:
  assumes "playbook_ok w" and "dict_get (pb_bullets w) i = Some b" and "bullet_active b" and "bu_section b = Declared s"
  shows "b \<in> set (section_rows w s) \<and> s \<in> set (dict_keys (pb_sections w))"
proof -
  from assms have i: "i \<in> set (section_ids s w)" by (auto simp: playbook_ok_def)
  then have "b \<in> set (section_rows w s)"
    using assms(2,3) by (auto simp: section_rows_def List.map_filter_def image_iff intro!: bexI [of _ i])
  moreover from i have "dict_get (pb_sections w) s \<noteq> None" by (cases "dict_get (pb_sections w) s") (simp_all add: section_ids_def)
  ultimately show ?thesis by (metis dict_get_None_iff)
qed

subsection \<open>Retention keeps the playbook within its cap\<close>

lemma remove_hard: "\<exists>w'. remove_bullet i False w = (Inr (), w') \<and> pb_bullets w' = dict_pop i (pb_bullets w)"
proof (cases "dict_get (pb_bullets w) i")
  case None
  then have "dict_pop i (pb_bullets w) = pb_bullets w" by (auto simp: AList.delete_eq dict_get_None_iff filter_id_conv split_beta)
  with None show ?thesis by (simp add: remove_bullet_def)
next
  case (Some b)
  have "pb_bullets (drop_from_section s i v) = pb_bullets v" for s v by (simp add: drop_from_section_def Let_def split: option.split)
  with Some show ?thesis by (cases "bu_section b") (simp_all add: remove_bullet_def)
qed

lemma evict_all:
  "\<exists>w'. forE evict (\<lambda>i. case i of Declared j \<Rightarrow> remove_bullet j False | Overwritten _ \<Rightarrow> retE ()) w = (Inr (), w')
     \<and> pb_bullets w' = filter (\<lambda>(i, _). Declared i \<notin> set evict) (pb_bullets w)"
proof (induction evict arbitrary: w)
  case (Cons i evict)
  have "\<exists>v. (case i of Declared j \<Rightarrow> remove_bullet j False | Overwritten _ \<Rightarrow> retE ()) w = (Inr (), v)
      \<and> pb_bullets v = filter (\<lambda>(j, _). Declared j \<noteq> i) (pb_bullets w)"
  proof (cases i)
    case (Declared j)
    with remove_hard [of j w] show ?thesis by (auto simp: AList.delete_eq split_beta eq_commute [of j])
  qed (simp add: split_beta)
  then obtain v where v: "(case i of Declared j \<Rightarrow> remove_bullet j False | Overwritten _ \<Rightarrow> retE ()) w = (Inr (), v)"
      "pb_bullets v = filter (\<lambda>(j, _). Declared j \<noteq> i) (pb_bullets w)" by blast
  from Cons.IH [of v] v show ?case by (auto simp: filter_filter split_beta intro: filter_cong)
qed simp

lemma insort_key_map: "insort_key f (g x) (map g xs) = map g (insort_key (f \<circ> g) x xs)"
  by (induction xs) auto

lemma sort_key_map: "sort_key f (map g xs) = map g (sort_key (f \<circ> g) xs)"
  by (induction xs) (simp_all add: insort_key_map comp_def)

definition rank :: "retention_env \<Rightarrow> retention_policy \<Rightarrow> string \<Rightarrow> bullet \<Rightarrow> rat \<times> nat \<times> string \<times> int" where
  "rank env policy now b = (projr (keep_score env policy now b), stamp_key (bu_updated_at b))"

lemma rmap_projr: "rmap f xs = Inr ys \<Longrightarrow> ys = map (\<lambda>x. projr (f x)) xs"
  by (induction xs arbitrary: ys) (auto simp: rbind_Inr_iff)

lemma sort_survivors_Inr:
  assumes "sort_survivors env policy now survivors = Inr ranked"
  shows "ranked = sort_key (rank env policy now) survivors"
proof -
  let ?f = "\<lambda>b. (projr (keep_score env policy now b), b)"
  from assms obtain scores where sc: "rmap (keep_score env policy now) survivors = Inr scores"
    and r: "ranked = map snd (sort_key (\<lambda>(x, b). (x, stamp_key (bu_updated_at b))) (zip scores survivors))"
    by (auto simp: sort_survivors_def rbind_Inr_iff Let_def split: if_splits)
  have "zip scores survivors = map ?f survivors" unfolding rmap_projr [OF sc] by (induction survivors) auto
  moreover have "(\<lambda>(x, b). (x, stamp_key (bu_updated_at b))) \<circ> ?f = rank env policy now" by (auto simp: rank_def)
  ultimately show ?thesis unfolding r by (simp add: sort_key_map comp_def)
qed

lemma sort_key_take_drop: "x \<in> set (take n (sort_key f xs)) \<Longrightarrow> y \<in> set (drop n (sort_key f xs)) \<Longrightarrow> f x \<le> f y"
  using sorted_append [of "map f (take n (sort_key f xs))" "map f (drop n (sort_key f xs))"]
  by (simp flip: map_append)

lemma kept_by_id: "inj_on f (set xs) \<Longrightarrow> Y \<subseteq> set xs \<Longrightarrow> set (filter (\<lambda>x. f x \<notin> f ` Y) xs) = set xs - Y"
  by (auto dest: inj_onD)

text \<open>The active bullets that are left when the identifiers in \<open>evict\<close> have been removed.\<close>

lemma evicted_ids_Inr:
  assumes "distinct (map bu_id active)" and "evicted_ids env policy now active = Inr evict"
  defines "kept \<equiv> filter (\<lambda>b. bu_id b \<notin> set evict) active" and "cap \<equiv> max 0 (rp_max_bullets policy)"
  shows "distinct evict \<and> set evict \<subseteq> bu_id ` set active \<and> int (length kept) \<le> cap
    \<and> (\<forall>b \<in> set active. is_disposable env policy now b \<longrightarrow> b \<notin> set kept)
    \<and> (\<forall>b \<in> set active. \<not> is_disposable env policy now b \<longrightarrow> b \<notin> set kept \<longrightarrow>
         int (length kept) = cap \<and> (\<forall>c \<in> set kept. rank env policy now b \<le> rank env policy now c))"
proof -
  let ?disp = "is_disposable env policy now" and ?rank = "rank env policy now"
  let ?D = "filter ?disp active" and ?S = "filter (\<lambda>b. \<not> ?disp b) active"
  have same: "b = c" if "b \<in> set active" "c \<in> set active" "bu_id b = bu_id c" for b c
    using that assms(1) by (auto simp: distinct_map inj_on_def)
  then have surv: "filter (\<lambda>b. bu_id b \<notin> set (map bu_id ?D)) active = ?S" by (intro filter_cong) auto
  let ?o = "int (length ?S) - rp_max_bullets policy" and ?R = "sort_key ?rank ?S"
  have ev: "evicted_ids env policy now active =
      (if 0 < ?o then rbind (sort_survivors env policy now ?S) (\<lambda>ranked. Inr (dict_fromkeys (map bu_id ?D @ map bu_id (take (nat ?o) ranked))))
       else Inr (dict_fromkeys (map bu_id ?D)))"
    unfolding evicted_ids_def Let_def surv ..
  show ?thesis
  proof (cases "0 < ?o")
    case False
    with assms(2) have e: "evict = dict_fromkeys (map bu_id ?D)" by (simp add: ev)
    have "kept = ?S" unfolding kept_def e using surv by simp
    with False e show ?thesis by (auto simp: cap_def)
  next
    case True
    with assms(2) have e: "evict = dict_fromkeys (map bu_id ?D @ map bu_id (take (nat ?o) ?R))"
      unfolding ev by (auto simp: rbind_Inr_iff dest!: sort_survivors_Inr)
    have dis: "distinct active" using assms(1) by (simp add: distinct_map)
    then have dR: "distinct (take (nat ?o) ?R @ drop (nat ?o) ?R)" by simp
    have split: "set ?S = set (take (nat ?o) ?R) \<union> set (drop (nat ?o) ?R)" by (metis append_take_drop_id set_append set_sort)
    have kept: "set kept = set (drop (nat ?o) ?R)"
    proof -
      have inj: "inj_on bu_id (set active)" using assms(1) by (simp add: distinct_map)
      have sub: "set ?D \<union> set (take (nat ?o) ?R) \<subseteq> set active" using split by auto
      have ev': "set evict = bu_id ` (set ?D \<union> set (take (nat ?o) ?R))" by (simp add: e image_Un)
      have "set kept = set active - (set ?D \<union> set (take (nat ?o) ?R))" 
        unfolding kept_def ev' by (rule kept_by_id [OF inj sub])
      also have "\<dots> = set ?S - set (take (nat ?o) ?R)" by auto
      also have "\<dots> = set (drop (nat ?o) ?R)" unfolding split using dR by (simp only: distinct_append) blast
      finally show ?thesis .
    qed
    moreover have "length kept = length (drop (nat ?o) ?R)"
      using kept dis dR by (metis distinct_append distinct_card distinct_filter kept_def)
    then have len: "int (length kept) = cap" using True by (auto simp: cap_def)
    moreover have "?rank b \<le> ?rank c" if "b \<in> set active" "\<not> ?disp b" "b \<notin> set kept" "c \<in> set kept" for b c
      using that kept split by (auto intro: sort_key_take_drop)
    moreover have "set evict \<subseteq> bu_id ` set active" using split by (auto simp: e)
    moreover have "b \<notin> set kept" if "?disp b" for b using that unfolding kept_def e by auto
    ultimately show ?thesis by (simp add: e)
  qed
qed

lemma evicted_count:
  assumes "distinct (map f xs)" and "distinct ys" and "set ys \<subseteq> f ` set xs"
  shows "length (filter (\<lambda>x. f x \<in> set ys) xs) = length ys"
proof -
  have "set (map f (filter (\<lambda>x. f x \<in> set ys) xs)) = set ys" using assms(3) by auto
  moreover have "distinct (map f (filter (\<lambda>x. f x \<in> set ys) xs))" using assms(1) by (rule distinct_map_filter)
  ultimately show ?thesis by (metis assms(2) distinct_card length_map)
qed

lemma prune_spec:
  assumes ok: "dict_ok (pb_bullets w)" and ids: "\<forall>(i, b) \<in> set (pb_bullets w). bu_id b = Declared i"
    and run: "prune env policy now w = (r, w')"
  defines "time \<equiv> case now of Some t \<Rightarrow> t | None \<Rightarrow> pw_clock w (pw_reads w)"
    and "active \<equiv> playbook_bullets False w" and "kept \<equiv> playbook_bullets False w'" and "cap \<equiv> rp_max_bullets policy"
  shows "case r of
      Inl _ \<Rightarrow> pb_bullets w' = pb_bullets w
    | Inr n \<Rightarrow> set (pb_bullets w') \<subseteq> set (pb_bullets w) \<and> filter (\<lambda>b. \<not> bullet_active b) (dict_values (pb_bullets w')) =
          filter (\<lambda>b. \<not> bullet_active b) (dict_values (pb_bullets w))
        \<and> n = int (length (pb_bullets w)) - int (length (pb_bullets w')) \<and> int (length kept) \<le> max 0 cap
        \<and> (cap < int (length active) \<longrightarrow> (\<forall>b \<in> set kept. \<not> is_disposable env policy time b))
        \<and> (\<forall>b \<in> set active - set kept. is_disposable env policy time b
             \<or> int (length kept) = max 0 cap \<and> (\<forall>c \<in> set kept. rank env policy time b \<le> rank env policy time c))"
proof (cases "int (length active) \<le> cap")
  case True
  with run have "r = Inr 0" "w' = w" by (auto simp: prune_def active_def cap_def)
  with True show ?thesis by (simp add: kept_def active_def)
next
  case False
  let ?bs = "pb_bullets w"
  obtain v where v: "(case now of Some t \<Rightarrow> retE t | None \<Rightarrow> utc_now) w = (Inr time, v)" "pb_bullets v = ?bs"
    by (cases now) (auto simp: time_def utc_now_def)
  show ?thesis
  proof (cases "evicted_ids env policy time active")
    case (Inl e)
    with run False v show ?thesis by (auto simp: prune_def active_def cap_def)
  next
    case (Inr evict)
    obtain u where u: "forE evict (\<lambda>i. case i of Declared j \<Rightarrow> remove_bullet j False | Overwritten _ \<Rightarrow> retE ()) v = (Inr (), u)"
        "pb_bullets u = filter (\<lambda>(i, _). Declared i \<notin> set evict) ?bs" using evict_all [of evict v] v(2) by auto
    with run False v Inr have rw: "r = Inr (int (length evict))" "w' = u" by (auto simp: prune_def active_def cap_def)
    have keys: "map bu_id (dict_values ?bs) = map Declared (dict_keys ?bs)" using ids by (auto simp: split_beta)
    then have dis: "distinct (map bu_id (dict_values ?bs))" using ok by (simp add: dict_ok_def distinct_map inj_on_def)
    then have "distinct (map bu_id active)" by (simp add: active_def playbook_bullets_def distinct_map_filter)
    note ev = evicted_ids_Inr [OF this Inr]
    have bs': "pb_bullets w' = filter (\<lambda>x. bu_id (snd x) \<notin> set evict) ?bs" unfolding rw u using ids by (auto intro!: filter_cong)
    then have vals: "dict_values (pb_bullets w') = filter (\<lambda>b. bu_id b \<notin> set evict) (dict_values ?bs)"
      by (simp add: filter_map comp_def)
    then have kept: "kept = filter (\<lambda>b. bu_id b \<notin> set evict) active"
      by (simp add: kept_def active_def playbook_bullets_def conj_commute)
    have act: "bullet_active b" if "b \<in> set (dict_values ?bs)" "bu_id b \<in> set evict" for b
    proof -
      from ev that obtain c where c: "c \<in> set active" "bu_id c = bu_id b" by auto
      have "inj_on bu_id (set (dict_values ?bs))" using dis by (simp only: distinct_map)
      moreover have "c \<in> set (dict_values ?bs)" using c(1) unfolding active_def playbook_bullets_def by simp
      ultimately have "c = b" using that(1) c(2) by (metis inj_onD)
      with c show ?thesis by (simp add: active_def playbook_bullets_def)
    qed
    have "length (filter (\<lambda>b. bu_id b \<in> set evict) (dict_values ?bs)) = length evict"
      using evicted_count [OF dis] ev by (force simp: active_def playbook_bullets_def)
    with sum_length_filter_compl [of "\<lambda>b. bu_id b \<in> set evict" "dict_values ?bs"] vals
    have "int (length evict) = int (length ?bs) - int (length (pb_bullets w'))" by (metis (no_types, lifting) add_diff_cancel_right' length_map of_nat_add)
    moreover have "filter (\<lambda>b. \<not> bullet_active b) (dict_values (pb_bullets w')) = filter (\<lambda>b. \<not> bullet_active b) (dict_values ?bs)"
      unfolding vals using act by (auto intro: filter_cong)
    ultimately show ?thesis using ev rw(1) bs' unfolding kept cap_def by auto
  qed
qed

text \<open>
  C23. Pruning keeps the playbook within its cap and takes the right bullets. When every bullet has its own key as its identifier, then
  pruning either raises and removes nothing, or the bullets that it keeps are unchanged, the soft-deleted ones are all kept, the active ones fit
  the cap, and the number it returns is the number of bullets that are gone. If it had to prune at all, no disposable bullet is
  left; another bullet only goes when the cap is then reached exactly, and no kept bullet ranks below it.
\<close>

theorem prune_exact:
  assumes ok: "dict_ok (pb_bullets w)" and ids: "\<forall>(i, b) \<in> set (pb_bullets w). bu_id b = Declared i"
    and run: "prune env policy now w = (r, w')"
  defines "time \<equiv> case now of Some t \<Rightarrow> t | None \<Rightarrow> pw_clock w (pw_reads w)"
    and "active \<equiv> playbook_bullets False w" and "kept \<equiv> playbook_bullets False w'" and "cap \<equiv> rp_max_bullets policy"
  shows "case r of
      Inl _ \<Rightarrow> pb_bullets w' = pb_bullets w
    | Inr n \<Rightarrow> set (pb_bullets w') \<subseteq> set (pb_bullets w) \<and> filter (\<lambda>b. \<not> bullet_active b) (dict_values (pb_bullets w')) =
          filter (\<lambda>b. \<not> bullet_active b) (dict_values (pb_bullets w))
        \<and> n = int (length (pb_bullets w)) - int (length (pb_bullets w')) \<and> int (length kept) \<le> max 0 cap
        \<and> (cap < int (length active) \<longrightarrow> (\<forall>b \<in> set kept. \<not> is_disposable env policy time b))
        \<and> (\<forall>b \<in> set active - set kept. is_disposable env policy time b
             \<or> int (length kept) = max 0 cap \<and> (\<forall>c \<in> set kept. rank env policy time b \<le> rank env policy time c))"
  unfolding time_def active_def kept_def cap_def by (rule prune_spec [OF ok ids run])

subsection \<open>Round trips\<close>

text \<open>A playbook whose bullets have their methods and whose verdicts are between identifiers without a comma.\<close>

definition storable_verdict :: "json fset \<times> consolidation_verdict \<Rightarrow> bool" where
  "storable_verdict = (\<lambda>(k, v). k \<noteq> {||} \<and> (\<forall>x. x |\<in>| k \<longrightarrow> (\<exists>s. x = JStr s \<and> CHR '','' \<notin> set s)) \<and> migrate_value (cv_verdict v) = Inr (cv_verdict v))"

definition storable_playbook :: "'z playbook_scheme \<Rightarrow> bool" where
  "storable_playbook pb \<longleftrightarrow> (\<forall>(i, b) \<in> set (pb_bullets pb). bu_shadowed b = []) \<and> dict_ok (pb_decisions pb) \<and> (\<forall>d \<in> set (pb_decisions pb). storable_verdict d)"

lemma bullet_roundtrip: "bu_shadowed b = [] \<Longrightarrow> bullet_from_payload (bullet_asdict b) w = (Inr b, w)"
  by (simp add: bullet_from_payload_def bullet_asdict_def or_now_def int_or_def)

lemma verdict_roundtrip:
  assumes "migrate_value (cv_verdict v) = Inr (cv_verdict v)"
  shows "rbind (migrate_verdict_dict (verdict_asdict v)) verdict_from_dict = Inr v"
proof -
  have "migrate_verdict_dict (verdict_asdict v) = Inr (verdict_asdict v)"
    using assms by (simp add: migrate_verdict_dict_def verdict_asdict_def migrate_entry_def VERDICT_FIELD_MAP_def Let_def)
  then show ?thesis by (simp add: verdict_from_dict_def verdict_asdict_def)
qed

lemma pair_roundtrip:
  assumes "k \<noteq> {||}" and "\<forall>x. x |\<in>| k \<longrightarrow> (\<exists>s. x = JStr s \<and> CHR '','' \<notin> set s)"
  shows "\<exists>t. pair_text k = Inr t \<and> fset_of_list (map JStr (split_on (CHR '','') t)) = k"
proof -
  let ?ids = "(\<lambda>v. the (text_of v)) |`| k"
  let ?l = "sorted_list_of_fset ?ids"
  have "fBall k (\<lambda>v. text_of v \<noteq> None)" using assms(2) by fastforce
  then have t: "pair_text k = Inr (join_with (CHR '','') ?l)" by (simp add: pair_text_def)
  have "?l \<noteq> []"
  proof
    assume "?l = []"
    then have "?ids = {||}" by (metis sorted_list_of_fset_simps(2) fset_of_list_simps(1))
    with assms(1) show False by simp
  qed
  moreover have "\<forall>s \<in> set ?l. CHR '','' \<notin> set s" using assms(2) by fastforce
  ultimately have sp: "split_on (CHR '','') (join_with (CHR '','') ?l) = ?l" by (rule split_on_join_with)
  have "fset_of_list (map JStr ?l) = JStr |`| ?ids" by (metis fset_of_list_map sorted_list_of_fset_simps(2))
  also have "\<dots> = k"
  proof -
    have "JStr (the (text_of x)) = x" if "x |\<in>| k" for x using that assms(2) by fastforce
    then show ?thesis by (force simp: fset.map_comp comp_def intro!: fset_eqI)
  qed
  finally show ?thesis using t sp by simp
qed

lemma dict_set_fresh: "k \<notin> set (dict_keys d) \<Longrightarrow> dict_set k v d = d @ [(k, v)]"
  by (induction d) auto

lemma fold_dict_set: "distinct (map fst (acc @ xs)) \<Longrightarrow> fold (\<lambda>(k, v). dict_set k v) xs acc = acc @ xs"
  by (induction xs arbitrary: acc) (auto simp: dict_set_fresh image_iff)

lemma mapE_pure: "(\<And>x. x \<in> set xs \<Longrightarrow> f x w = (Inr (g x), w)) \<Longrightarrow> mapE f xs w = (Inr (map g xs), w)"
  by (induction xs) auto

lemma rmap_Inr: "(\<And>x. x \<in> set xs \<Longrightarrow> f x = Inr (g x)) \<Longrightarrow> rmap f xs = Inr (map g xs)"
  by (induction xs) auto

lemma playbook_saved:
  fixes pb :: playbook
  assumes st: "storable_playbook pb"
  shows "\<exists>payload. to_dict pb = Inr payload \<and> from_dict payload w = (Inr pb, w)"
proof -
  let ?text = "\<lambda>k. projr (pair_text k)" and ?ds = "pb_decisions pb"
  have key: "pair_text k = Inr (?text k) \<and> fset_of_list (map JStr (split_on (CHR '','') (?text k))) = k"
    and val: "migrate_value (cv_verdict v) = Inr (cv_verdict v)" if "(k, v) \<in> set ?ds" for k v
  proof -
    from st that have "storable_verdict (k, v)" unfolding storable_playbook_def by blast
    then have s: "k \<noteq> {||}" "\<forall>x. x |\<in>| k \<longrightarrow> (\<exists>s. x = JStr s \<and> CHR '','' \<notin> set s)" "migrate_value (cv_verdict v) = Inr (cv_verdict v)"
      unfolding storable_verdict_def by blast+
    obtain t where "pair_text k = Inr t" "fset_of_list (map JStr (split_on (CHR '','') t)) = k" using pair_roundtrip [OF s(1,2)] by blast
    then show "pair_text k = Inr (?text k) \<and> fset_of_list (map JStr (split_on (CHR '','') (?text k))) = k" by simp
    show "migrate_value (cv_verdict v) = Inr (cv_verdict v)" by (rule s(3))
  qed
  let ?out = "map (\<lambda>(k, v). (?text k, verdict_asdict v)) ?ds"
  have w: "rmap (\<lambda>(k, v). rbind (pair_text k) (\<lambda>t. Inr (t, verdict_asdict v))) ?ds = Inr ?out"
  proof (rule rmap_Inr)
    fix d assume "d \<in> set ?ds"
    moreover obtain k v where d: "d = (k, v)" by (metis prod.exhaust)
    ultimately obtain t where "pair_text k = Inr t" using key by blast
    then show "(case d of (k, v) \<Rightarrow> rbind (pair_text k) (\<lambda>t. Inr (t, verdict_asdict v))) = Inr (case d of (k, v) \<Rightarrow> (?text k, verdict_asdict v))"
      by (simp add: d)
  qed
  have "fset_of_list (map JStr (split_on (CHR '','') (?text k))) = k" if "k \<in> set (dict_keys ?ds)" for k
  proof -
    from that obtain v where "(k, v) \<in> set ?ds" by fastforce
    from key [OF this] show ?thesis ..
  qed
  then have inj: "inj_on ?text (set (dict_keys ?ds))" by (rule inj_on_inverseI)
  have "map fst ?out = map ?text (dict_keys ?ds)" by (simp add: split_beta)
  moreover have "distinct (map ?text (dict_keys ?ds))"
    unfolding distinct_map [of ?text] using inj st by (auto simp: storable_playbook_def dict_ok_def)
  ultimately have "distinct (map fst ([] @ ?out))" by (metis append_Nil)
  note out = fold_dict_set [OF this, simplified]
  have r: "rmap decision_from_dict ?out = Inr ?ds"
  proof -
    have "decision_from_dict (?text k, verdict_asdict v) = Inr (k, v)" if "(k, v) \<in> set ?ds" for k v
      using verdict_roundtrip [OF val [OF that]] key [OF that] by (auto simp: decision_from_dict_def rbind_Inr_iff)
    then have "rmap decision_from_dict (map (\<lambda>(k, v). (?text k, verdict_asdict v)) xs) = Inr xs" if "set xs \<subseteq> set ?ds" for xs
      using that by (induction xs) auto
    then show ?thesis by blast
  qed
  have b: "mapE (\<lambda>(i, p). bindE (bullet_from_payload p) (\<lambda>b. retE (i, b))) (map (\<lambda>(i, b). (i, bullet_asdict b)) (pb_bullets pb)) w = (Inr (pb_bullets pb), w)"
  proof -
    have "bullet_from_payload (bullet_asdict b) w = (Inr b, w)" if "(i, b) \<in> set (pb_bullets pb)" for i b
      using st that by (intro bullet_roundtrip) (auto simp: storable_playbook_def)
    then have "mapE (\<lambda>(i, p). bindE (bullet_from_payload p) (\<lambda>b. retE (i, b))) (map (\<lambda>(i, b). (i, bullet_asdict b)) xs) w = (Inr xs, w)"
      if "set xs \<subseteq> set (pb_bullets pb)" for xs using that by (induction xs) auto
    then show ?thesis by blast
  qed
  have ds: "fold (\<lambda>(k, v). dict_set k v) ?ds [] = ?ds" using fold_dict_set [of "[]" ?ds] st by (simp add: storable_playbook_def dict_ok_def)
  show ?thesis using b r ds by (simp add: to_dict_def w out from_dict_def int_or_def)
qed

text \<open>
  C27. A storable playbook survives being saved. A playbook is storable when no metadata has replaced a method of one of its bullets,
  and each of its verdicts is stored once, for a set of identifiers that is not empty and none of which contains a comma, and has a value that is neither the
  legacy \<^verbatim>\<open>KEEP\<close> nor a list or dictionary. Such a playbook has
  a dictionary form, and reading it gives back the playbook, its verdicts included, without asking the clock.
\<close>

theorem playbook_roundtrip:
  fixes pb :: playbook
  assumes st: "storable_playbook pb"
  shows "\<exists>payload. to_dict pb = Inr payload \<and> from_dict payload w = (Inr pb, w)"
  by (rule playbook_saved [OF st])

text \<open>
  A delta survives its JSON form. An operation of one of the four types, whose tags are valid when it is a tag operation, is read back from
  its JSON form.
\<close>

theorem delta_roundtrip:
  assumes "do_type op \<in> {''ADD'', ''UPDATE'', ''TAG'', ''REMOVE''}"
    and "do_type op = ''TAG'' \<longrightarrow> set (dict_keys (do_metadata op)) \<subseteq> set BULLET_TAGS"
  shows "delta_operation_from_json repr (delta_operation_to_json op) = Inr op"
proof -
  let ?m = "map (\<lambda>(k, i). (k, JInt i)) (do_metadata op)" and ?j = "delta_operation_to_json op"
  have up: "py_upper (do_type op) = do_type op" using assms(1) by (auto simp: py_upper_def py_upper_char_def)
  have get: "dict_get ?j ''type'' = Some (JStr (do_type op))" "dict_get ?j ''section'' = Some (JStr (do_section op))"
    "json_or_none repr (dict_get ?j ''content'') = do_content op" "json_or_none repr (dict_get ?j ''bullet_id'') = do_bullet_id op"
    "(case dict_get ?j ''metadata'' of Some (JObj m) \<Rightarrow> m | _ \<Rightarrow> []) = ?m"
    by (auto simp: delta_operation_to_json_def json_or_none_def split: option.splits)
  have "filter (\<lambda>(k, _). k \<in> set BULLET_TAGS) ?m = ?m" if "do_type op = ''TAG''"
    using assms(2) that by (fastforce simp: filter_id_conv)
  then have m: "(if do_type op = ''TAG'' then filter (\<lambda>(k, _). k \<in> set BULLET_TAGS) ?m else ?m) = ?m" by simp
  have i: "rmap (\<lambda>(k, v). rbind (json_int v) (\<lambda>i. Inr (k, i))) (map (\<lambda>(k, i). (k, JInt i)) xs) = Inr xs" for xs :: "(string, int) dict"
    by (induction xs) auto
  show ?thesis
    unfolding delta_operation_from_json_def Let_def get option.case json_str.simps up m i rbind_simps using assms(1) by auto
qed

subsection \<open>Generated identifiers\<close>

lemma prefix_no_dash: "CHR ''-'' \<notin> set (section_prefix s)"
  by (auto simp: section_prefix_def str_or_def alnum_lower_def Let_def)

lemma digits_acc_zeros: "digits_acc b 0 (replicate n (CHR ''0'') @ t) = digits_acc (b \<or> 0 < n) 0 t"
proof (induction n arbitrary: b)
  case (Suc n)
  have "digit_value (CHR ''0'') = Some 0" by (simp add: digit_value_def)
  with Suc show ?case by simp
qed simp

lemma digits_acc_started: "t \<noteq> [] \<Longrightarrow> hd t \<noteq> CHR ''_'' \<Longrightarrow> digits_acc True n t = digits_acc False n t"
  by (cases t) auto

lemma format_05d_inj:
  assumes "0 \<le> m" and "0 \<le> n" and "format_05d m = format_05d n"
  shows "m = n"
proof -
  have d: "digits_acc False 0 (format_05d k) = Some (nat k)" if "0 \<le> k" for k
  proof -
    obtain d :: nat where "d < 10" "hd (str_of_nat (nat k)) = char_of (48 + d)"
      using str_of_nat_digits [of "hd (str_of_nat (nat k))" "nat k"] by (metis hd_in_set str_of_nat_not_Nil)
    then have "hd (str_of_nat (nat k)) \<noteq> CHR ''_''" by (metis digit_not_special(1))
    then have "digits_acc b 0 (str_of_nat (nat k)) = Some (nat k)" for b
      using digits_acc_started [of "str_of_nat (nat k)" 0] digits_acc_str_of_nat by (cases b) simp_all
    with that show ?thesis by (simp add: format_05d_def zero_pad_def digits_acc_zeros)
  qed
  from d [OF assms(1)] d [OF assms(2)] assms show ?thesis by (metis option.inject nat_0_le)
qed

definition generated_ids :: "playbook_world \<Rightarrow> bool" where
  "generated_ids w \<longleftrightarrow> 0 \<le> pb_next_id w
     \<and> (\<forall>i \<in> set (dict_keys (pb_bullets w)). \<exists>s n. i = section_prefix s @ ''-'' @ format_05d n \<and> 0 \<le> n \<and> n \<le> pb_next_id w)"

text \<open>
  Bullets without an identifier never replace one another. In a playbook whose identifiers have been generated, adding a bullet without
  an identifier appends it and keeps all others, and the identifiers are generated ones again.
\<close>

theorem add_generated_appends:
  assumes gen: "generated_ids w" and run: "add_bullet s content None metadata w = (r, w')"
  shows "\<exists>i b. r = Inr b \<and> pb_bullets w' = pb_bullets w @ [(i, b)] \<and> generated_ids w'"
proof -
  let ?n = "pb_next_id w + 1"
  let ?i = "section_prefix s @ ''-'' @ format_05d ?n"
  have fresh: "?i \<notin> set (dict_keys (pb_bullets w))"
  proof
    assume "?i \<in> set (dict_keys (pb_bullets w))"
    with gen obtain t n where i: "section_prefix s @ CHR ''-'' # format_05d ?n = section_prefix t @ CHR ''-'' # format_05d n"
        and n: "0 \<le> n" "n \<le> pb_next_id w" by (auto simp: generated_ids_def)
    then have "format_05d ?n = format_05d n" using prefix_no_dash [of s] prefix_no_dash [of t]
      by (metis partition_on_found prod.inject)
    with n format_05d_inj [of ?n n] show False by simp
  qed
  from run have "r = apply_metadata metadata \<lparr>bu_id = Declared ?i, bu_section = Declared s, bu_content = JStr content, bu_helpful = 0, bu_harmful = 0,
             bu_neutral = 0, bu_created_at = Declared (pw_clock w (pw_reads w)), bu_updated_at = Declared (pw_clock w (Suc (pw_reads w))),
             bu_embedding = Declared None, bu_status = Declared ''active'', bu_shadowed = []\<rparr>
      \<and> (\<forall>b. r = Inr b \<longrightarrow> pb_bullets w' = dict_set ?i b (pb_bullets w) \<and> pb_next_id w' = ?n)"
    by (auto simp: add_bullet_def generate_id_def new_bullet_def utc_now_def put_bullet_def bindE_apply thenE_def liftE_def split: sum.splits)
  then obtain b where b: "r = Inr b" "pb_bullets w' = pb_bullets w @ [(?i, b)]" "pb_next_id w' = ?n"
    using dict_set_fresh [OF fresh] by (auto simp: apply_metadata_def method_call_def)
  moreover have "generated_ids w'" using gen b(2,3) unfolding generated_ids_def by force
  ultimately show ?thesis by blast
qed

subsection \<open>Concrete instances\<close>

definition sample_bullet :: "string \<Rightarrow> int \<Rightarrow> int \<Rightarrow> bullet" where
  "sample_bullet i good bad =
     \<lparr>bu_id = Declared i, bu_section = Declared ''general'', bu_content = JStr ''Try again.'', bu_helpful = good, bu_harmful = bad, bu_neutral = 0,
      bu_created_at = Declared ''1'', bu_updated_at = Declared ''1'', bu_embedding = Declared None, bu_status = Declared ''active'', bu_shadowed = []\<rparr>"

definition sample_verdict :: consolidation_verdict where
  "sample_verdict = \<lparr>cv_verdict = JStr ''keep_both'', cv_rationale = JStr [], cv_cosine_score = JFloat 0, cv_judged_at = JStr ''1'', cv_judge_model = JStr []\<rparr>"

definition sample_playbook :: playbook where
  "sample_playbook =
     \<lparr>pb_bullets = [(''g-1'', sample_bullet ''g-1'' 2 0), (''g-2'', sample_bullet ''g-2'' 0 1), (''g-3'', sample_bullet ''g-3'' 1 0)],
      pb_sections = [(''general'', [''g-1'', ''g-2'', ''g-3''])], pb_next_id = 3, pb_decisions = [({|JStr ''g-1'', JStr ''g-3''|}, sample_verdict)]\<rparr>"

definition sample_world :: playbook_world where
  "sample_world = playbook.extend sample_playbook \<lparr>pw_clock = (\<lambda>_. ''2''), pw_reads = 0\<rparr>"

definition sample_retention :: retention_env where
  "sample_retention = \<lparr>re_age = (\<lambda>_ _. Some 1), re_half_power = (\<lambda>_. Inr (1 / 2))\<rparr>"

lemma sample_world_simps [simp]:
  "pb_bullets sample_world = pb_bullets sample_playbook" "pb_sections sample_world = pb_sections sample_playbook"
  "pb_decisions sample_world = pb_decisions sample_playbook"
  by (simp_all add: sample_world_def playbook.extend_def)

lemma sample_world_ok: "dict_ok (pb_bullets sample_world)" "\<forall>(i, b) \<in> set (pb_bullets sample_world). bu_id b = Declared i"
  by (simp_all add: sample_playbook_def dict_ok_def sample_bullet_def)

theorem prune_exact_witness:
  "\<exists>w'. prune sample_retention (default_retention\<lparr>rp_max_bullets := 1\<rparr>) (Some ''3'') sample_world = (Inr 2, w') \<and> length (playbook_bullets False w') \<le> 1
     \<and> (\<forall>b \<in> set (playbook_bullets False w'). \<not> is_disposable sample_retention (default_retention\<lparr>rp_max_bullets := 1\<rparr>) ''3'' b)"
proof -
  let ?policy = "default_retention\<lparr>rp_max_bullets := 1\<rparr>"
  have a: "playbook_bullets False sample_world = [sample_bullet ''g-1'' 2 0, sample_bullet ''g-2'' 0 1, sample_bullet ''g-3'' 1 0]"
    by (simp add: playbook_bullets_def sample_playbook_def bullet_active_def sample_bullet_def)
  have e: "evicted_ids sample_retention ?policy ''3'' [sample_bullet ''g-1'' 2 0, sample_bullet ''g-2'' 0 1, sample_bullet ''g-3'' 1 0]
      = Inr [Declared ''g-2'', Declared ''g-3'']" by code_simp
  have c: "rp_max_bullets ?policy = 1" by simp
  obtain v where "forE [Declared ''g-2'', Declared ''g-3''] (\<lambda>i. case i of Declared j \<Rightarrow> remove_bullet j False | Overwritten _ \<Rightarrow> retE ()) sample_world = (Inr (), v)"
    using evict_all by blast
  then obtain w' where w': "prune sample_retention ?policy (Some ''3'') sample_world = (Inr 2, w')"
    by (simp add: prune_def a e c del: forE.simps)
  from prune_exact [OF sample_world_ok w'] a w' show ?thesis by (auto simp: default_retention_def)
qed

lemma sample_playbook_storable: "storable_playbook sample_playbook"
  by (simp add: storable_playbook_def sample_playbook_def sample_bullet_def storable_verdict_def sample_verdict_def dict_ok_def)

theorem playbook_roundtrip_witness: "\<exists>payload. to_dict sample_playbook = Inr payload \<and> from_dict payload sample_world = (Inr sample_playbook, sample_world)"
  by (rule playbook_roundtrip [OF sample_playbook_storable])

end
