(* ===== verification/Consolidation.thy ===== *)
theory Consolidation
  imports Playbook
begin

section \<open>Consolidation of the playbook\<close>

text \<open>
  \<^verbatim>\<open>src/core/app/experiences/playbook/similarity.py\<close> and \<^verbatim>\<open>consolidator.py\<close>: the scan for similar bullets, and the merge, drop, keep and
  patch actions of the curator; and the learning step of \<^verbatim>\<open>src/core/app/experiences/service.py\<close> around them. The embedding client and the
  floating-point cosine are parameters. The actions come from a language model as JSON, so the identifiers in them are JSON data, and what is not
  iterable or not hashable raises.
\<close>

subsection \<open>Similar pairs\<close>

record consolidation_config =
  cc_enabled :: bool
  cc_similarity_threshold :: rat
  cc_min_pairs_to_report :: int
  cc_within_section_only :: bool

definition default_consolidation :: consolidation_config where
  "default_consolidation =
     \<lparr>cc_enabled = True, cc_similarity_threshold = 84 / 100, cc_min_pairs_to_report = 1, cc_within_section_only = True\<rparr>"

record similarity_scanner =
  sc_config :: consolidation_config
  sc_embed_batch :: "json list \<Rightarrow> (playbook_world, rat list option list) io"
  sc_cosine :: "rat list option attr \<Rightarrow> rat list option attr \<Rightarrow> rat result"

definition compute_embeddings_batch :: "similarity_scanner \<Rightarrow> json list \<Rightarrow> (playbook_world, rat list option list) io" where
  "compute_embeddings_batch sc texts =
     (if texts = [] then retE [] else catch_Exception (sc_embed_batch sc texts) (\<lambda>_. retE (replicate (length texts) None)))"

definition set_embedding :: "string \<Rightarrow> rat list \<Rightarrow> playbook_world \<Rightarrow> playbook_world" where
  "set_embedding i embedding w =
     (case dict_get (pb_bullets w) i of Some b \<Rightarrow> put_bullet i (b\<lparr>bu_embedding := Declared (Some embedding)\<rparr>) w | None \<Rightarrow> w)"

definition ensure_embeddings :: "similarity_scanner \<Rightarrow> (playbook_world, int) io" where
  "ensure_embeddings sc =
     bindE (getE (\<lambda>w. filter (\<lambda>(_, b). bullet_active b \<and> bu_embedding b = Declared None) (pb_bullets w))) (\<lambda>needing.
       if needing = [] then retE 0
       else bindE (compute_embeddings_batch sc (map (\<lambda>(_, b). bu_content b) needing)) (\<lambda>embeddings.
         foldE (\<lambda>((i, _), e) count. case e of Some v \<Rightarrow> thenE (modifyE (set_embedding i v)) (retE (count + 1)) | None \<Rightarrow> retE count)
           (zip needing embeddings) 0))"

type_synonym similar_pair = "bullet \<times> bullet \<times> rat"

fun scan_against :: "similarity_scanner \<Rightarrow> playbook_world \<Rightarrow> rat \<Rightarrow> bullet \<Rightarrow> bullet list \<Rightarrow> similar_pair list result" where
  "scan_against sc w threshold a [] = Inr []"
| "scan_against sc w threshold a (b # bs) =
     (if bu_embedding b = Declared None \<or> has_keep_decision (attr_json (bu_id a)) (attr_json (bu_id b)) w then scan_against sc w threshold a bs
      else rbind (sc_cosine sc (bu_embedding a) (bu_embedding b)) (\<lambda>score.
           rbind (scan_against sc w threshold a bs) (\<lambda>pairs. Inr (if threshold \<le> score then (a, b, score) # pairs else pairs))))"

fun scan_list :: "similarity_scanner \<Rightarrow> playbook_world \<Rightarrow> rat \<Rightarrow> bullet list \<Rightarrow> similar_pair list result" where
  "scan_list sc w threshold [] = Inr []"
| "scan_list sc w threshold (a # bs) =
     (if bu_embedding a = Declared None then scan_list sc w threshold bs
      else rbind (scan_against sc w threshold a bs) (\<lambda>pairs.
           rbind (scan_list sc w threshold bs) (\<lambda>others. Inr (pairs @ others))))"

definition group_by_section :: "bullet list \<Rightarrow> (string attr, bullet list) dict" where
  "group_by_section bullets =
     fold (\<lambda>b d. dict_set (bu_section b) ((case dict_get d (bu_section b) of Some bs \<Rightarrow> bs | None \<Rightarrow> []) @ [b]) d) bullets []"

definition detect_similar_pairs :: "similarity_scanner \<Rightarrow> rat option \<Rightarrow> playbook_world \<Rightarrow> similar_pair list result" where
  "detect_similar_pairs sc threshold w =
     (let threshold = (case threshold of Some t \<Rightarrow> if t = 0 then cc_similarity_threshold (sc_config sc) else t
                       | None \<Rightarrow> cc_similarity_threshold (sc_config sc));
          bullets = playbook_bullets False w;
          groups = (if cc_within_section_only (sc_config sc) then dict_values (group_by_section bullets) else [bullets]) in
      rbind (rmap (scan_list sc w threshold) groups) (\<lambda>pairs. Inr (sort_key (\<lambda>(_, _, score). - score) (concat pairs))))"

text \<open>The report is the text that \<open>render\<close> makes of the pairs.\<close>

definition get_similarity_report :: "similarity_scanner \<Rightarrow> (similar_pair list \<Rightarrow> string) \<Rightarrow> (playbook_world, string option) io" where
  "get_similarity_report sc render =
     (if \<not> cc_enabled (sc_config sc) then retE None
      else thenE (ensure_embeddings sc)
          (bindE (getE (detect_similar_pairs sc None)) (\<lambda>found. bindE (liftE found) (\<lambda>similar_pairs.
             if int (length similar_pairs) < cc_min_pairs_to_report (sc_config sc) then retE None
             else retE (Some (if similar_pairs = [] then [] else render similar_pairs))))))"

subsection \<open>Actions\<close>

datatype consolidation_kind = MERGE | DROP | KEEP | PATCH

record consolidation_action =
  ca_kind :: consolidation_kind
  ca_target_ids :: json
  ca_payload :: jobj

text \<open>Iterating over a JSON datum, its length, and a look-up with one as the key.\<close>

fun json_iter :: "json \<Rightarrow> json list result" where
  "json_iter (JList xs) = Inr xs"
| "json_iter (JStr s) = Inr (map (\<lambda>c. JStr [c]) s)"
| "json_iter (JObj kvs) = Inr (map (\<lambda>(k, _). JStr k) kvs)"
| "json_iter _ = Inl (Exn TypeError ''object is not iterable'')"

definition hashable :: "json \<Rightarrow> bool" where
  "hashable v = (case v of JList _ \<Rightarrow> False | JObj _ \<Rightarrow> False | _ \<Rightarrow> True)"

definition get_bullet :: "json \<Rightarrow> (playbook_world, (string \<times> bullet) option) io" where
  "get_bullet v =
     (if \<not> hashable v then raiseE (Exn TypeError ''unhashable type'')
      else getE (\<lambda>w. case text_of v of None \<Rightarrow> None | Some i \<Rightarrow> map_option (\<lambda>b. (i, b)) (dict_get (pb_bullets w) i)))"

definition payload_get :: "jobj \<Rightarrow> string \<Rightarrow> json" where
  "payload_get payload key = (case dict_get payload key of Some v \<Rightarrow> v | None \<Rightarrow> JStr [])"

definition modify_bullet :: "string \<Rightarrow> (bullet \<Rightarrow> bullet) \<Rightarrow> playbook_world \<Rightarrow> playbook_world" where
  "modify_bullet i f w = (case dict_get (pb_bullets w) i of Some b \<Rightarrow> put_bullet i (f b) w | None \<Rightarrow> w)"

definition absorb :: "bullet \<Rightarrow> bullet \<Rightarrow> bullet" where
  "absorb source b =
     b\<lparr>bu_helpful := bu_helpful b + bu_helpful source, bu_harmful := bu_harmful b + bu_harmful source,
       bu_neutral := bu_neutral b + bu_neutral source\<rparr>"

definition merge_source :: "string \<Rightarrow> json \<Rightarrow> (playbook_world, unit) io" where
  "merge_source keep_id source_id =
     (if source_id = JStr keep_id then retE ()
      else bindE (get_bullet source_id) (\<lambda>found.
        case found of
          None \<Rightarrow> retE ()
        | Some (i, source) \<Rightarrow> thenE (modifyE (modify_bullet keep_id (absorb source))) (remove_bullet i True)))"

definition set_content :: "json \<Rightarrow> bullet \<Rightarrow> bullet" where
  "set_content v b = (if json_truthy v then b\<lparr>bu_content := v\<rparr> else b)"

definition refresh :: "string \<Rightarrow> json \<Rightarrow> (playbook_world, unit) io" where
  "refresh i content =
     thenE (modifyE (modify_bullet i (\<lambda>b. (set_content content b)\<lparr>bu_embedding := Declared None\<rparr>)))
    (bindE utc_now (\<lambda>now. modifyE (modify_bullet i (\<lambda>b. b\<lparr>bu_updated_at := Declared now\<rparr>))))"

definition apply_merge :: "consolidation_action \<Rightarrow> (playbook_world, unit) io" where
  "apply_merge action =
     (let payload = ca_payload action in
      bindE (get_bullet (payload_get payload ''keep_id'')) (\<lambda>found.
        case found of
          None \<Rightarrow> retE ()
        | Some (keep_id, _) \<Rightarrow>
            bindE (liftE (json_iter (ca_target_ids action))) (\<lambda>sources.
            thenE (forE sources (merge_source keep_id)) (refresh keep_id (payload_get payload ''merged_content'')))))"

definition apply_drop :: "consolidation_action \<Rightarrow> (playbook_world, unit) io" where
  "apply_drop action =
     bindE (liftE (json_iter (ca_target_ids action))) (\<lambda>ids.
       forE ids (\<lambda>v. bindE (get_bullet v) (\<lambda>found. case found of None \<Rightarrow> retE () | Some (i, _) \<Rightarrow> remove_bullet i True)))"

fun keep_pairs :: "json list \<Rightarrow> (json \<times> json) list" where
  "keep_pairs [] = []"
| "keep_pairs (a # bs) = map (\<lambda>b. (a, b)) bs @ keep_pairs bs"

definition keep_pair :: "json \<Rightarrow> json \<times> json \<Rightarrow> (playbook_world, unit) io" where
  "keep_pair rationale = (\<lambda>(a, b).
     bindE utc_now (\<lambda>now.
       if \<not> hashable a \<or> \<not> hashable b then raiseE (Exn TypeError ''unhashable type'')
       else modifyE (set_similarity_decision a b
              \<lparr>cv_verdict = JStr ''keep_both'', cv_rationale = rationale, cv_cosine_score = JFloat 0, cv_judged_at = JStr now, cv_judge_model = JStr []\<rparr>)))"

definition apply_keep :: "consolidation_action \<Rightarrow> (playbook_world, unit) io" where
  "apply_keep action =
     bindE (liftE (json_iter (ca_target_ids action))) (\<lambda>ids.
       if length ids < 2 then retE ()
       else let reasoning = payload_get (ca_payload action) ''reasoning'';
                rationale = (if json_truthy reasoning then reasoning else payload_get (ca_payload action) ''differentiation'') in
            case ca_target_ids action of
              JObj _ \<Rightarrow> raiseE (Exn KeyError ''slice'')
            | _ \<Rightarrow> forE (keep_pairs ids) (keep_pair rationale))"

definition apply_patch :: "consolidation_action \<Rightarrow> (playbook_world, unit) io" where
  "apply_patch action =
     bindE (liftE (json_iter (ca_target_ids action))) (\<lambda>ids.
       forE ids (\<lambda>v. bindE (get_bullet v) (\<lambda>found.
         case found of None \<Rightarrow> retE () | Some (i, _) \<Rightarrow> refresh i (payload_get (ca_payload action) ''new_content''))))"

definition apply_action :: "consolidation_action \<Rightarrow> (playbook_world, unit) io" where
  "apply_action action =
     (case ca_kind action of MERGE \<Rightarrow> apply_merge action | DROP \<Rightarrow> apply_drop action | KEEP \<Rightarrow> apply_keep action | PATCH \<Rightarrow> apply_patch action)"

definition apply_consolidation_actions :: "consolidation_action list \<Rightarrow> (playbook_world, unit) io" where
  "apply_consolidation_actions actions = forE actions apply_action"

subsection \<open>The answer of the curator\<close>

definition KIND_ALIASES :: "(string, string) dict" where
  "KIND_ALIASES = [(''delete'', ''drop''), (''update'', ''patch'')]"

definition consolidation_kind_of :: "string \<Rightarrow> consolidation_kind option" where
  "consolidation_kind_of s =
     (if s = ''merge'' then Some MERGE else if s = ''drop'' then Some DROP else if s = ''keep'' then Some KEEP
      else if s = ''patch'' then Some PATCH else None)"

definition one_target :: "jobj \<Rightarrow> json" where
  "one_target op = (let bullet_id = payload_get op ''bullet_id'' in JList (if json_truthy bullet_id then [bullet_id] else []))"

definition ids_or_empty :: "jobj \<Rightarrow> string \<Rightarrow> json" where
  "ids_or_empty op key = (case dict_get op key of Some v \<Rightarrow> v | None \<Rightarrow> JList [])"

definition parse_action :: "jobj \<Rightarrow> consolidation_action option result" where
  "parse_action op =
     (case payload_get op ''type'' of
        JStr s \<Rightarrow>
          let kind = py_lower s;
              keys = (\<lambda>ks. map (\<lambda>k. (k, payload_get op k)) ks) in
          Inr (case consolidation_kind_of (case dict_get KIND_ALIASES kind of Some k \<Rightarrow> k | None \<Rightarrow> kind) of
                 None \<Rightarrow> None
               | Some MERGE \<Rightarrow> Some \<lparr>ca_kind = MERGE, ca_target_ids = ids_or_empty op ''source_ids'',
                                    ca_payload = keys [''keep_id'', ''merged_content'', ''reasoning'']\<rparr>
               | Some DROP \<Rightarrow> Some \<lparr>ca_kind = DROP, ca_target_ids = one_target op, ca_payload = keys [''reasoning'']\<rparr>
               | Some KEEP \<Rightarrow> Some \<lparr>ca_kind = KEEP, ca_target_ids = ids_or_empty op ''bullet_ids'', ca_payload = keys [''differentiation'', ''reasoning'']\<rparr>
               | Some PATCH \<Rightarrow> Some \<lparr>ca_kind = PATCH, ca_target_ids = one_target op, ca_payload = keys [''new_content'', ''reasoning'']\<rparr>)
      | _ \<Rightarrow> Inl (Exn (OtherError ''AttributeError'') ''object has no attribute lower''))"

definition parse_consolidation_actions :: "jobj \<Rightarrow> consolidation_action list result" where
  "parse_consolidation_actions response_data =
     (case dict_get response_data ''consolidation_operations'' of
        Some (JList raw_ops) \<Rightarrow>
          rbind (rmap parse_action (List.map_filter (\<lambda>v. case v of JObj op \<Rightarrow> Some op | _ \<Rightarrow> None) raw_ops)) (\<lambda>parsed. Inr (List.map_filter id parsed))
      | _ \<Rightarrow> Inr [])"

definition apply_operations_from_response :: "jobj \<Rightarrow> (playbook_world, consolidation_action list) io" where
  "apply_operations_from_response response_data =
     bindE (liftE (parse_consolidation_actions response_data)) (\<lambda>actions.
       thenE (if actions = [] then retE () else apply_consolidation_actions actions) (retE actions))"

subsection \<open>The invariant of the playbook\<close>

lemma modify_bullet_ok: "(\<And>b. bu_section (f b) = bu_section b) \<Longrightarrow> playbook_ok w \<Longrightarrow> playbook_ok (modify_bullet i f w)"
proof (cases "dict_get (pb_bullets w) i")
  case (Some b)
  assume f: "\<And>b. bu_section (f b) = bu_section b" and ok: "playbook_ok w"
  then have "i \<in> set (section_ids s w)" if "bu_section (f b) = Declared s" for s using Some that by (auto simp: playbook_ok_def)
  with Some ok show ?thesis by (simp add: modify_bullet_def playbook_ok_put)
qed (simp add: modify_bullet_def)

lemma content_keeps_section [simp]: "bu_section (set_content v b) = bu_section b" "bu_section (absorb s b) = bu_section b"
  by (simp_all add: set_content_def absorb_def)

lemma refresh_ok [preserves_intros]: "preserves playbook_ok (refresh i v)"
  unfolding refresh_def by (intro preserves_intros) (auto intro!: modify_bullet_ok)

lemma get_bullet_ok [preserves_intros]: "preserves playbook_ok (get_bullet v)"
  unfolding get_bullet_def by (intro preserves_intros)

lemma apply_action_ok [preserves_intros]: "preserves playbook_ok (apply_action action)"
proof -
  have merge: "preserves playbook_ok (merge_source k v)" for k v
    unfolding merge_source_def by (intro preserves_intros) (auto intro!: modify_bullet_ok)
  have keep: "preserves playbook_ok (keep_pair r p)" for r p
    unfolding keep_pair_def by (intro preserves_intros) (simp add: set_similarity_decision_def playbook_ok_clock)
  have "preserves playbook_ok (apply_merge action)"
    unfolding apply_merge_def Let_def by (intro preserves_intros) (auto intro!: preserves_intros merge)
  moreover have "preserves playbook_ok (apply_drop action)" unfolding apply_drop_def by (intro preserves_intros)
  moreover have "preserves playbook_ok (apply_patch action)" unfolding apply_patch_def by (intro preserves_intros)
  moreover have "preserves playbook_ok (apply_keep action)"
    unfolding apply_keep_def Let_def by (auto intro!: preserves_intros keep split: json.split)
  ultimately show ?thesis by (cases "ca_kind action") (simp_all add: apply_action_def)
qed

text \<open>Verdicts are only ever added or replaced: nothing but a keep action touches them.\<close>

lemma keep_stays_modify: "(\<And>w. pb_decisions (g w) = pb_decisions w) \<Longrightarrow> preserves (has_keep_decision a b) (modifyE g)"
  by (rule preservesI) (simp add: has_keep_decision_def get_similarity_decision_def)

lemma keep_stays_utc_now: "preserves (has_keep_decision a b) utc_now"
  by (rule preservesI) (simp add: utc_now_def has_keep_decision_def get_similarity_decision_def)

lemma decisions_simps [simp]:
  "pb_decisions (put_bullet i b w) = pb_decisions w" "pb_decisions (modify_bullet i f w) = pb_decisions w"
  "pb_decisions (drop_from_section s i w) = pb_decisions w" "pb_decisions (set_embedding i v w) = pb_decisions w"
  by (simp_all add: put_bullet_def modify_bullet_def drop_from_section_def set_embedding_def Let_def split: option.split)

lemmas keep_stays_steps = keep_stays_modify keep_stays_utc_now

lemma keep_stays_bullets:
  "preserves (has_keep_decision a b) (add_bullet s content bid metadata)" "preserves (has_keep_decision a b) (update_bullet i new metadata)"
  "preserves (has_keep_decision a b) (tag_bullet i tag n)" "preserves (has_keep_decision a b) (remove_bullet i soft)"
proof -
  have "preserves (has_keep_decision a b) (generate_id s)" "preserves (has_keep_decision a b) (new_bullet j s content)" for j
    unfolding generate_id_def new_bullet_def by (auto intro!: preserves_intros keep_stays_steps)
  then show "preserves (has_keep_decision a b) (add_bullet s content bid metadata)"
    unfolding add_bullet_def by (auto intro!: preserves_intros keep_stays_steps split: option.split)
  show "preserves (has_keep_decision a b) (update_bullet i new metadata)"
    unfolding update_bullet_def Let_def by (auto intro!: preserves_intros keep_stays_steps split: option.split)
  show "preserves (has_keep_decision a b) (tag_bullet i tag n)"
    unfolding tag_bullet_def Let_def by (auto intro!: preserves_intros keep_stays_steps split: option.split)
  show "preserves (has_keep_decision a b) (remove_bullet i soft)"
    unfolding remove_bullet_def by (auto intro!: preserves_intros keep_stays_steps split: option.split attr.split)
qed

lemma keep_stays_action: "preserves (has_keep_decision a b) (apply_action action)"
proof -
  have get: "preserves (has_keep_decision a b) (get_bullet v)" for v unfolding get_bullet_def by (intro preserves_intros)
  have fresh: "preserves (has_keep_decision a b) (refresh i v)" for i v
    unfolding refresh_def by (auto intro!: preserves_intros keep_stays_steps)
  have merge: "preserves (has_keep_decision a b) (merge_source k v)" for k v
    unfolding merge_source_def by (auto intro!: preserves_intros get keep_stays_steps keep_stays_bullets split: option.split)
  have keep: "preserves (has_keep_decision a b) (keep_pair r p)" for r p
  proof -
    have "has_keep_decision a b (set_similarity_decision c d v w)" if "has_keep_decision a b w" "cv_verdict v = JStr ''keep_both''" for c d v w
      using that by (auto simp: has_keep_decision_def get_similarity_decision_def set_similarity_decision_def dict_get_set split: option.splits if_splits)
    then show ?thesis unfolding keep_pair_def by (auto intro!: preserves_intros keep_stays_utc_now simp: split_beta)
  qed
  have "preserves (has_keep_decision a b) (apply_merge action)"
    unfolding apply_merge_def Let_def by (auto intro!: preserves_intros get merge fresh split: option.split)
  moreover have "preserves (has_keep_decision a b) (apply_drop action)"
    unfolding apply_drop_def by (auto intro!: preserves_intros get keep_stays_bullets split: option.split)
  moreover have "preserves (has_keep_decision a b) (apply_patch action)"
    unfolding apply_patch_def by (auto intro!: preserves_intros get fresh split: option.split)
  moreover have "preserves (has_keep_decision a b) (apply_keep action)"
    unfolding apply_keep_def Let_def by (auto intro!: preserves_intros keep split: json.split)
  ultimately show ?thesis by (cases "ca_kind action") (simp_all add: apply_action_def)
qed

lemma keep_stays_delta: "preserves (has_keep_decision a b) (apply_delta delta)"
proof -
  have "preserves (has_keep_decision a b) (apply_operation op)" for op
    unfolding apply_operation_def Let_def by (auto intro!: preserves_intros keep_stays_bullets split: option.splits)
  then show ?thesis unfolding apply_delta_def by (intro preserves_forE_split)
qed

lemma keep_stays_prune: "preserves (has_keep_decision a b) (prune env policy now)"
proof -
  have "preserves (has_keep_decision a b) (case i of Declared j \<Rightarrow> remove_bullet j False | Overwritten _ \<Rightarrow> retE ())" for i
    by (simp add: keep_stays_bullets split: attr.split)
  then show ?thesis unfolding prune_def by (intro preserves_intros keep_stays_utc_now)
qed

text \<open>What a worker does with its playbook: it applies deltas and the actions of the curator, computes embeddings and prunes.\<close>

datatype playbook_event = Delta delta_batch | Consolidate "consolidation_action list" | Embed similarity_scanner | Prune retention_env retention_policy

primrec playbook_event_run :: "playbook_event \<Rightarrow> (playbook_world, unit) io" where
  "playbook_event_run (Delta d) = apply_delta d"
| "playbook_event_run (Consolidate actions) = apply_consolidation_actions actions"
| "playbook_event_run (Embed sc) = thenE (ensure_embeddings sc) (retE ())"
| "playbook_event_run (Prune env policy) = thenE (prune env policy None) (retE ())"

definition embeds_quietly :: "(playbook_world \<Rightarrow> bool) \<Rightarrow> playbook_event \<Rightarrow> bool" where
  "embeds_quietly P e = (case e of Embed sc \<Rightarrow> \<forall>texts. preserves P (sc_embed_batch sc texts) | _ \<Rightarrow> True)"

lemma playbook_event_preserves:
  assumes "\<And>d. preserves P (apply_delta d)" and "\<And>a. preserves P (apply_action a)" and "\<And>env policy. preserves P (prune env policy None)"
    and "\<And>i v. preserves P (modifyE (set_embedding i v))" and "embeds_quietly P e"
  shows "preserves P (playbook_event_run e)"
proof (cases e)
  case (Embed sc)
  with assms(5) have "preserves P (compute_embeddings_batch sc texts)" for texts
    unfolding compute_embeddings_batch_def by (auto simp: embeds_quietly_def intro!: preserves_intros)
  then have "preserves P (ensure_embeddings sc)"
    unfolding ensure_embeddings_def by (auto intro!: preserves_intros assms(4) split: option.split)
  with Embed show ?thesis by (auto intro!: preserves_intros)
qed (use assms in \<open>auto simp: apply_consolidation_actions_def intro!: preserves_intros\<close>)

text \<open>Whatever each event does, even when it raises, the next one finds the playbook as it was left.\<close>

primrec playbook_history :: "playbook_event list \<Rightarrow> playbook_world \<Rightarrow> playbook_world" where
  "playbook_history [] w = w"
| "playbook_history (e # es) w = playbook_history es (snd (playbook_event_run e w))"

lemma playbook_history_keeps:
  "(\<And>e. e \<in> set es \<Longrightarrow> preserves P (playbook_event_run e)) \<Longrightarrow> P w \<Longrightarrow> P (playbook_history es w)"
  by (induction es arbitrary: w) (auto dest: preserves_apply)

subsection \<open>What the scan reports\<close>

text \<open>The pairs that a scan of \<open>xs\<close> has to report, in the order of \<open>xs\<close>.\<close>

definition similar :: "similarity_scanner \<Rightarrow> playbook_world \<Rightarrow> rat \<Rightarrow> bullet \<Rightarrow> bullet \<Rightarrow> rat \<Rightarrow> bool" where
  "similar sc w threshold x y score \<longleftrightarrow>
     bu_embedding x \<noteq> Declared None \<and> bu_embedding y \<noteq> Declared None \<and> \<not> has_keep_decision (attr_json (bu_id x)) (attr_json (bu_id y)) w
     \<and> sc_cosine sc (bu_embedding x) (bu_embedding y) = Inr score \<and> threshold \<le> score"

fun before :: "'a \<Rightarrow> 'a \<Rightarrow> 'a list \<Rightarrow> bool" where
  "before x y [] = False"
| "before x y (a # bs) = (x = a \<and> y \<in> set bs \<or> before x y bs)"

lemma before_filter: "before x y (filter P xs) \<longleftrightarrow> before x y xs \<and> P x \<and> P y"
  by (induction xs) auto

lemma scan_against_exact:
  assumes "scan_against sc w t a bs = Inr ps" and "bu_embedding a \<noteq> Declared None"
  shows "(x, y, s) \<in> set ps \<longleftrightarrow> x = a \<and> y \<in> set bs \<and> similar sc w t a y s"
  using assms by (induction bs arbitrary: ps) (auto simp: similar_def rbind_Inr_iff split: if_splits)

lemma scan_list_exact:
  assumes "scan_list sc w t xs = Inr ps"
  shows "(x, y, s) \<in> set ps \<longleftrightarrow> before x y xs \<and> similar sc w t x y s"
  using assms
proof (induction xs arbitrary: ps)
  case (Cons a xs)
  show ?case
  proof (cases "bu_embedding a = Declared None")
    case True
    with Cons show ?thesis by (auto simp: similar_def)
  next
    case False
    with Cons.prems obtain p q where "scan_against sc w t a xs = Inr p" "scan_list sc w t xs = Inr q" "ps = p @ q"
      by (auto simp: rbind_Inr_iff)
    with Cons.IH [of q] scan_against_exact [of sc w t a xs p x y s] False show ?thesis by auto
  qed
qed simp

lemma group_by_section_values:
  "dict_get (group_by_section xs) s = (let g = filter (\<lambda>b. bu_section b = s) xs in if g = [] then None else Some g)"
  "dict_ok (group_by_section xs)"
proof (induction xs rule: rev_induct)
  case (snoc x xs)
  case 1
  show ?case using snoc(1) by (auto simp: group_by_section_def dict_get_set Let_def split: option.splits if_splits)
  case 2
  show ?case using snoc(2) by (simp add: group_by_section_def)
qed (simp_all add: group_by_section_def)

lemma group_members: "g \<in> set (dict_values (group_by_section xs)) \<longleftrightarrow> (\<exists>s. g = filter (\<lambda>b. bu_section b = s) xs \<and> g \<noteq> [])"
proof -
  have "g \<in> set (dict_values (group_by_section xs)) \<longleftrightarrow> (\<exists>s. (s, g) \<in> set (group_by_section xs))" by force
  also have "\<dots> \<longleftrightarrow> (\<exists>s. dict_get (group_by_section xs) s = Some g)" by (simp add: dict_ok_get_iff [OF group_by_section_values(2)])
  finally show ?thesis by (simp add: group_by_section_values(1) Let_def) metis
qed

lemma scan_groups:
  "rmap (scan_list sc w t) groups = Inr ps \<Longrightarrow> (\<exists>q \<in> set ps. (x, y, s) \<in> set q) \<longleftrightarrow> (\<exists>g \<in> set groups. before x y g) \<and> similar sc w t x y s"
  by (induction groups arbitrary: ps) (auto simp: rbind_Inr_iff scan_list_exact)

text \<open>
  The scan for similar bullets reports exactly what it should: every pair of active bullets, in the order of the playbook and from one section
  when the configuration says so, that have embeddings, no verdict to keep both, and a similarity of at least the
  threshold; the most similar pairs come first.
\<close>

theorem similar_pairs_exact:
  assumes "detect_similar_pairs sc None w = Inr pairs"
  shows "((x, y, score) \<in> set pairs \<longleftrightarrow> before x y (playbook_bullets False w)
      \<and> (cc_within_section_only (sc_config sc) \<longrightarrow> bu_section x = bu_section y) \<and> similar sc w (cc_similarity_threshold (sc_config sc)) x y score)
    \<and> sorted (map (\<lambda>(_, _, score). - score) pairs)"
proof -
  let ?t = "cc_similarity_threshold (sc_config sc)" and ?bs = "playbook_bullets False w"
  let ?groups = "if cc_within_section_only (sc_config sc) then dict_values (group_by_section ?bs) else [?bs]"
  from assms obtain ps where ps: "rmap (scan_list sc w ?t) ?groups = Inr ps" and p: "pairs = sort_key (\<lambda>(_, _, score). - score) (concat ps)"
    by (auto simp: detect_similar_pairs_def Let_def rbind_Inr_iff)
  have "(x, y, score) \<in> set pairs \<longleftrightarrow> (\<exists>q \<in> set ps. (x, y, score) \<in> set q)" by (simp add: p)
  also have "\<dots> \<longleftrightarrow> (\<exists>g \<in> set ?groups. before x y g) \<and> similar sc w ?t x y score"
    using scan_groups [OF ps] by blast
  also have "(\<exists>g \<in> set ?groups. before x y g) \<longleftrightarrow> before x y ?bs \<and> (cc_within_section_only (sc_config sc) \<longrightarrow> bu_section x = bu_section y)"
  proof (cases "cc_within_section_only (sc_config sc)")
    case True
    have "(\<exists>g \<in> set (dict_values (group_by_section ?bs)). before x y g) \<longleftrightarrow> (\<exists>s. before x y (filter (\<lambda>b. bu_section b = s) ?bs))"
      using group_members [of _ ?bs] by (metis before.simps(1))
    with True show ?thesis by (auto simp: before_filter)
  qed simp
  finally show ?thesis by (simp add: p)
qed

subsection \<open>A verdict is final\<close>

lemma keep_pairs_mem: "a \<in> set ids \<Longrightarrow> b \<in> set ids \<Longrightarrow> a \<noteq> b \<Longrightarrow> (a, b) \<in> set (keep_pairs ids) \<or> (b, a) \<in> set (keep_pairs ids)"
  by (induction ids) auto

lemma has_keep_sym: "has_keep_decision a b = has_keep_decision b a"
  by (simp add: has_keep_decision_def get_similarity_decision_def finsert_commute fun_eq_iff)

lemma keep_loop:
  assumes "forE ps (keep_pair r) w = (Inr (), w')" and "(a, b) \<in> set ps"
  shows "has_keep_decision a b w'"
  using assms
proof (induction ps arbitrary: w)
  case (Cons p ps)
  from Cons.prems(1) obtain v where v: "keep_pair r p w = (Inr (), v)" "forE ps (keep_pair r) v = (Inr (), w')"
    by (auto simp: thenE_Inr_iff)
  have stays: "preserves (has_keep_decision a b) (forE ps (keep_pair r))"
  proof (intro preserves_forE_split preservesI)
    fix q v assume "has_keep_decision a b v"
    then show "has_keep_decision a b (snd (keep_pair r q v))"
      by (auto simp: keep_pair_def split_beta utc_now_def set_similarity_decision_def has_keep_decision_def get_similarity_decision_def dict_get_set
          split: option.splits)
  qed
  show ?case
  proof (cases "p = (a, b)")
    case True
    with v(1) have "has_keep_decision a b v"
      by (auto simp: keep_pair_def utc_now_def set_similarity_decision_def has_keep_decision_def get_similarity_decision_def dict_get_set split: if_splits)
    with stays v(2) show ?thesis by (metis preservesD)
  next
    case False
    with Cons v(2) show ?thesis by auto
  qed
qed simp

lemma apply_keep_decides:
  assumes "apply_keep action w = (Inr (), w')" and "ca_target_ids action = JList ids" and "a \<in> set ids" and "b \<in> set ids" and "a \<noteq> b"
  shows "has_keep_decision a b w'"
proof -
  from assms(3-5) have len: "\<not> length ids < 2" by (cases ids; cases "tl ids") auto
  from assms(1,2) len obtain r where "forE (keep_pairs ids) (keep_pair r) w = (Inr (), w')" by (auto simp: apply_keep_def Let_def)
  with keep_pairs_mem [OF assms(3-5)] show ?thesis using keep_loop has_keep_sym by metis
qed

text \<open>
  C25. A verdict is final. Once the curator has decided to keep two bullets, then whatever deltas, actions, prunings and embeddings follow,
  with or without exceptions, no later scan reports the two as similar.
\<close>

theorem kept_pairs_not_reported:
  assumes "apply_keep action w = (Inr (), w')" and "ca_target_ids action = JList ids" and "a \<in> set ids" and "b \<in> set ids" and "a \<noteq> b"
    and quiet: "\<forall>e \<in> set events. embeds_quietly (has_keep_decision a b) e"
    and "detect_similar_pairs sc threshold (playbook_history events w') = Inr pairs" and "(x, y, score) \<in> set pairs"
  shows "{attr_json (bu_id x), attr_json (bu_id y)} \<noteq> {a, b}"
proof -
  let ?v = "playbook_history events w'"
  have "preserves (has_keep_decision a b) (playbook_event_run e)" if "e \<in> set events" for e
    by (rule playbook_event_preserves)
      (use quiet that in \<open>auto intro!: keep_stays_delta keep_stays_action keep_stays_prune keep_stays_modify\<close>)
  then have keep: "has_keep_decision a b ?v" using playbook_history_keeps apply_keep_decides [OF assms(1-5)] by blast
  from assms(7) obtain t groups ps where ps: "rmap (scan_list sc ?v t) groups = Inr ps" "set pairs = set (concat ps)"
    by (auto simp: detect_similar_pairs_def Let_def rbind_Inr_iff)
  with assms(8) have "\<exists>q \<in> set ps. (x, y, score) \<in> set q" by auto
  with scan_groups [OF ps(1)] have "similar sc ?v t x y score" by blast
  then have "\<not> has_keep_decision (attr_json (bu_id x)) (attr_json (bu_id y)) ?v" by (simp add: similar_def)
  with keep show ?thesis by (auto simp: doubleton_eq_iff has_keep_sym)
qed

subsection \<open>Merging loses nothing\<close>

definition active_total :: "(bullet \<Rightarrow> int) \<Rightarrow> playbook_world \<Rightarrow> int" where
  "active_total c w = sum_list (map c (playbook_bullets False w))"

definition weight :: "(bullet \<Rightarrow> int) \<Rightarrow> bullet \<Rightarrow> int" where
  "weight c b = (if bullet_active b then c b else 0)"

lemma active_total_weight: "active_total c w = sum_list (map (weight c) (dict_values (pb_bullets w)))"
proof -
  have "sum_list (map c (filter bullet_active bs)) = sum_list (map (weight c) bs)" for bs by (induction bs) (auto simp: weight_def)
  then show ?thesis by (simp add: active_total_def playbook_bullets_def)
qed

lemma sum_dict_set:
  fixes f :: "'v \<Rightarrow> int"
  assumes "dict_ok d" and "dict_get d i = Some b"
  shows "sum_list (map f (dict_values (dict_set i b' d))) = sum_list (map f (dict_values d)) - f b + f b'"
  using assms by (induction d) (auto simp: dict_ok_def)

lemma active_total_put:
  assumes "dict_ok (pb_bullets w)" and "dict_get (pb_bullets w) i = Some b"
  shows "active_total c (put_bullet i b' w) = active_total c w - weight c b + weight c b'"
  using sum_dict_set [OF assms, of "weight c"] by (simp add: active_total_weight put_bullet_def)

definition counters :: "(bullet \<Rightarrow> int) set" where
  "counters = {bu_helpful, bu_harmful, bu_neutral}"

lemma counter_simps:
  assumes "c \<in> counters"
  shows "c (absorb s b) = c b + c s" "c (b\<lparr>bu_status := x, bu_updated_at := y\<rparr>) = c b" "c (b\<lparr>bu_updated_at := y\<rparr>) = c b"
    "c ((set_content v b)\<lparr>bu_embedding := z\<rparr>) = c b"
  using assms by (auto simp: counters_def absorb_def set_content_def)

lemma active_simps [simp]:
  "bullet_active (absorb s b) = bullet_active b" "\<not> bullet_active (b\<lparr>bu_status := Declared ''invalid''\<rparr>)"
  "bullet_active (b\<lparr>bu_updated_at := y\<rparr>) = bullet_active b" "bullet_active ((set_content v b)\<lparr>bu_embedding := z\<rparr>) = bullet_active b"
  by (simp_all add: bullet_active_def absorb_def set_content_def)

lemma merge_source_step:
  assumes "dict_ok (pb_bullets w)" and "dict_get (pb_bullets w) k = Some kb" and "i \<noteq> k" and "dict_get (pb_bullets w) i = Some s"
  shows "\<exists>t v. merge_source k (JStr i) w = (Inr (), v)
    \<and> pb_bullets v = dict_set i (s\<lparr>bu_status := Declared ''invalid'', bu_updated_at := Declared t\<rparr>) (dict_set k (absorb s kb) (pb_bullets w))"
  using assms by (auto simp: merge_source_def get_bullet_def hashable_def modify_bullet_def put_bullet_def remove_bullet_def dict_get_set utc_now_def)

text \<open>
  What merging the bullets \<open>ids\<close> into \<open>k\<close> does to the bullets: the counters of the active ones grow by those of the merged bullets that had
  been inactive, the merged ones become inactive, and no other bullet changes.
\<close>

definition merged_found :: "string \<Rightarrow> string list \<Rightarrow> (string, bullet) dict \<Rightarrow> bullet list" where
  "merged_found k ids bs = List.map_filter (dict_get bs) (filter (\<lambda>i. i \<noteq> k) ids)"

definition merge_effect :: "string \<Rightarrow> string list \<Rightarrow> playbook_world \<Rightarrow> playbook_world \<Rightarrow> bool" where
  "merge_effect k ids w w' \<longleftrightarrow> dict_ok (pb_bullets w') \<and> dict_keys (pb_bullets w') = dict_keys (pb_bullets w)
     \<and> (\<exists>kb. dict_get (pb_bullets w') k = Some kb \<and> bullet_active kb)
     \<and> (\<forall>c \<in> counters. active_total c w' = active_total c w + sum_list (map c (filter (\<lambda>b. \<not> bullet_active b) (merged_found k ids (pb_bullets w)))))
     \<and> (\<forall>i. i \<notin> insert k (set ids) \<longrightarrow> dict_get (pb_bullets w') i = dict_get (pb_bullets w) i)
     \<and> (\<forall>i \<in> set ids - {k}. \<forall>b. dict_get (pb_bullets w') i = Some b \<longrightarrow> \<not> bullet_active b)"

lemma merge_loop:
  assumes "dict_ok (pb_bullets w)" and "dict_get (pb_bullets w) k = Some kb" and "bullet_active kb" and "distinct ids"
  shows "\<exists>w'. forE (map JStr ids) (merge_source k) w = (Inr (), w') \<and> merge_effect k ids w w'"
  using assms
proof (induction ids arbitrary: w kb)
  case Nil
  then show ?case by (simp add: merge_effect_def merged_found_def List.map_filter_def)
next
  case (Cons i ids)
  have skip: ?case if "merge_source k (JStr i) w = (Inr (), w)" and "i = k \<or> dict_get (pb_bullets w) i = None"
  proof -
    from Cons.IH [of w kb] Cons.prems obtain w' where "forE (map JStr ids) (merge_source k) w = (Inr (), w')" "merge_effect k ids w w'" by auto
    moreover have "merged_found k (i # ids) (pb_bullets w) = merged_found k ids (pb_bullets w)"
      using that(2) by (auto simp: merged_found_def List.map_filter_simps)
    ultimately show ?thesis using that Cons.prems(4) unfolding merge_effect_def by auto
  qed
  consider (same) "i = k" | (gone) "i \<noteq> k" "dict_get (pb_bullets w) i = None" | (found) s where "i \<noteq> k" "dict_get (pb_bullets w) i = Some s" by blast
  then show ?case
  proof cases
    case same
    then show ?thesis by (intro skip) (simp_all add: merge_source_def)
  next
    case gone
    then show ?thesis by (intro skip) (simp_all add: merge_source_def get_bullet_def hashable_def)
  next
    case found
    let ?bs = "pb_bullets w"
    obtain t v where v: "merge_source k (JStr i) w = (Inr (), v)"
        "pb_bullets v = dict_set i (s\<lparr>bu_status := Declared ''invalid'', bu_updated_at := Declared t\<rparr>) (dict_set k (absorb s kb) ?bs)"
      using merge_source_step [OF Cons.prems(1,2) found] by blast
    let ?s = "s\<lparr>bu_status := Declared ''invalid'', bu_updated_at := Declared t\<rparr>"
    have okv: "dict_ok (pb_bullets v)" using Cons.prems(1) v(2) by simp
    have get: "dict_get (pb_bullets v) j = (if j = i then Some ?s else if j = k then Some (absorb s kb) else dict_get ?bs j)" for j
      using v(2) by (simp add: dict_get_set)
    have keys: "dict_keys (pb_bullets v) = dict_keys ?bs" 
    proof -
      have "k \<in> set (dict_keys ?bs)" "i \<in> set (dict_keys ?bs)" using found(2) Cons.prems(2) dict_get_None_iff by (metis option.distinct(1))+
      then show ?thesis using v(2) by simp
    qed
    have tot: "active_total c v = active_total c w + (if bullet_active s then 0 else c s)" if "c \<in> counters" for c
    proof -
      have "active_total c v = active_total c (put_bullet i ?s (put_bullet k (absorb s kb) w))" by (simp add: active_total_weight v(2) put_bullet_def)
      also have "\<dots> = active_total c (put_bullet k (absorb s kb) w) - weight c s + weight c ?s"
        by (rule active_total_put) (use Cons.prems(1) found in \<open>simp_all add: put_bullet_def dict_get_set\<close>)
      also have "active_total c (put_bullet k (absorb s kb) w) = active_total c w - weight c kb + weight c (absorb s kb)"
        by (rule active_total_put [OF Cons.prems(1,2)])
      finally show ?thesis using Cons.prems(3) that by (simp add: weight_def counter_simps)
    qed
    from Cons.IH [of v "absorb s kb"] okv get found Cons.prems(3,4) obtain w' where w': "forE (map JStr ids) (merge_source k) v = (Inr (), w')" "merge_effect k ids v w'"
      by auto
    have rest: "merged_found k ids (pb_bullets v) = merged_found k ids ?bs"
      using Cons.prems(4) get unfolding merged_found_def List.map_filter_def by (auto intro!: map_cong filter_cong simp: filter_filter)
    have all: "merged_found k (i # ids) ?bs = s # merged_found k ids ?bs" using found by (simp add: merged_found_def List.map_filter_simps)
    have "merge_effect k (i # ids) w w'"
      using w'(2) get keys tot found Cons.prems(4) unfolding merge_effect_def rest all by auto
    with v(1) w'(1) show ?thesis by auto
  qed
qed

lemma refresh_effect:
  assumes "merge_effect k ids w v"
  shows "\<exists>w'. refresh k content v = (Inr (), w') \<and> merge_effect k ids w w'"
proof -
  from assms obtain kb where kb: "dict_ok (pb_bullets v)" "dict_get (pb_bullets v) k = Some kb" "bullet_active kb" by (auto simp: merge_effect_def)
  let ?b = "(set_content content kb)\<lparr>bu_embedding := Declared None, bu_updated_at := Declared (pw_clock v (pw_reads v))\<rparr>"
  have "k \<in> set (dict_keys (pb_bullets v))" using kb(2) dict_get_None_iff by (metis option.distinct(1))
  moreover have "weight c ?b = weight c kb" if "c \<in> counters" for c
    using that by (auto simp: weight_def bullet_active_def set_content_def counters_def)
  moreover have "bullet_active ?b" using kb(3) by (simp add: bullet_active_def set_content_def)
  moreover obtain w' where w': "refresh k content v = (Inr (), w')" "pb_bullets w' = pb_bullets (put_bullet k ?b v)"
    using kb(2) by (simp add: refresh_def modify_bullet_def put_bullet_def utc_now_def dict_get_set)
  moreover have "active_total c w' = active_total c (put_bullet k ?b v)" for c by (simp only: active_total_weight w'(2))
  ultimately show ?thesis
    using assms active_total_put [OF kb(1,2)] unfolding merge_effect_def by (auto simp: put_bullet_def dict_get_set)
qed

text \<open>
  C24. A merge loses no experience. Merging a list of distinct identifiers into an active bullet always comes back; the totals of the helpful, harmful
  and neutral counters over the active bullets are what they were, plus the counters of the merged bullets that had
  been inactive; the merged bullets become inactive but stay stored, and no bullet outside of the merge changes.
\<close>

theorem merge_conserves:
  assumes "dict_ok (pb_bullets w)" and "dict_get (pb_bullets w) k = Some kb" and "bullet_active kb" and "distinct ids"
    and "ca_target_ids action = JList (map JStr ids)" and "payload_get (ca_payload action) ''keep_id'' = JStr k"
  shows "\<exists>w'. apply_merge action w = (Inr (), w') \<and> merge_effect k ids w w'"
proof -
  from merge_loop [OF assms(1-4)] obtain v where v: "forE (map JStr ids) (merge_source k) w = (Inr (), v)" "merge_effect k ids w v" by blast
  from refresh_effect [OF v(2)] obtain w' where "refresh k (payload_get (ca_payload action) ''merged_content'') v = (Inr (), w')" "merge_effect k ids w w'" by blast
  with v(1) assms(2,5,6) show ?thesis by (simp add: apply_merge_def get_bullet_def hashable_def)
qed

text \<open>
  Every active bullet can be found. However a worker's playbook came about, from an empty one by deltas, actions, prunings and embeddings,
  with or without exceptions, each active bullet has a row under its own section in the printed table.
\<close>

theorem active_bullets_listed:
  assumes "pb_bullets w0 = []" and "pb_sections w0 = []" and quiet: "\<forall>e \<in> set events. embeds_quietly playbook_ok e"
    and "dict_get (pb_bullets (playbook_history events w0)) i = Some b" and "bullet_active b" and "bu_section b = Declared s"
  shows "b \<in> set (section_rows (playbook_history events w0) s) \<and> s \<in> set (dict_keys (pb_sections (playbook_history events w0)))"
proof -
  have "playbook_ok w0" using assms(1,2) by (simp add: playbook_ok_def)
  moreover have "playbook_ok (set_embedding j v w)" if "playbook_ok w" for j v w
    using modify_bullet_ok [of "\<lambda>b. b\<lparr>bu_embedding := Declared (Some v)\<rparr>" w j] that by (simp add: modify_bullet_def set_embedding_def)
  then have "preserves playbook_ok (playbook_event_run e)" if "e \<in> set events" for e
    by (intro playbook_event_preserves apply_delta_ok apply_action_ok prune_ok preserves_modifyE) (use quiet that in auto)
  ultimately have "playbook_ok (playbook_history events w0)" using playbook_history_keeps by blast
  from listed_in_rows [OF this assms(4-6)] show ?thesis .
qed

subsection \<open>Concrete instances\<close>

definition sample_keep :: consolidation_action where
  "sample_keep = \<lparr>ca_kind = KEEP, ca_target_ids = JList [JStr ''g-1'', JStr ''g-2''], ca_payload = []\<rparr>"

definition sample_scanner :: similarity_scanner where
  "sample_scanner = \<lparr>sc_config = default_consolidation, sc_embed_batch = (\<lambda>texts. retE (map (\<lambda>_. Some [1]) texts)), sc_cosine = (\<lambda>_ _. Inr 1)\<rparr>"

theorem kept_pairs_not_reported_witness:
  "\<exists>w' pairs. apply_keep sample_keep sample_world = (Inr (), w') \<and> detect_similar_pairs sample_scanner None (playbook_history [Embed sample_scanner] w') = Inr pairs
     \<and> pairs \<noteq> [] \<and> (\<forall>(x, y, score) \<in> set pairs. {attr_json (bu_id x), attr_json (bu_id y)} \<noteq> {JStr ''g-1'', JStr ''g-2''})"
proof -
  obtain w' where w': "apply_keep sample_keep sample_world = (Inr (), w')"
      "pb_bullets w' = pb_bullets sample_playbook" "pb_decisions w' = dict_set {|JStr ''g-1'', JStr ''g-2''|}
        \<lparr>cv_verdict = JStr ''keep_both'', cv_rationale = JStr [], cv_cosine_score = JFloat 0, cv_judged_at = JStr ''2'', cv_judge_model = JStr []\<rparr> (pb_decisions sample_playbook)"
    by (simp add: apply_keep_def Let_def sample_keep_def keep_pair_def payload_get_def hashable_def utc_now_def set_similarity_decision_def sample_world_def playbook.extend_def)
  obtain v where v: "playbook_history [Embed sample_scanner] w' = v" by simp
  have q: "\<forall>e \<in> set [Embed sample_scanner]. embeds_quietly P e" for P by (simp add: embeds_quietly_def sample_scanner_def)
  let ?e = "\<lambda>b. b\<lparr>bu_embedding := Declared (Some [1])\<rparr>"
  have bs: "pb_bullets v = map (\<lambda>(i, b). (i, ?e b)) (pb_bullets sample_playbook)" "pb_decisions v = pb_decisions w'"
    unfolding v [symmetric] using w'(2) by (simp_all add: ensure_embeddings_def compute_embeddings_batch_def sample_scanner_def sample_playbook_def sample_bullet_def bullet_active_def
        catch_Exception_def set_embedding_def put_bullet_def)
  have sc: "sc_cosine sample_scanner x y = Inr 1" "sc_config sample_scanner = default_consolidation" for x y by (simp_all add: sample_scanner_def)
  have "JStr ''g-3'' |\<notin>| {|JStr ''g-1'', JStr ''g-2''|}" "JStr ''g-2'' |\<notin>| {|JStr ''g-1'', JStr ''g-3''|}" by simp_all
  then have ne: "{|JStr ''g-2'', JStr ''g-3''|} \<noteq> {|JStr ''g-1'', JStr ''g-2''|}" "{|JStr ''g-2'', JStr ''g-3''|} \<noteq> {|JStr ''g-1'', JStr ''g-3''|}"
    by (metis finsertI1 finsertI2)+
  have "\<exists>pairs. detect_similar_pairs sample_scanner None v = Inr pairs \<and> pairs \<noteq> []"
    by (simp add: ne detect_similar_pairs_def playbook_bullets_def bs w'(3) sc default_consolidation_def sample_playbook_def sample_bullet_def bullet_active_def
        group_by_section_def has_keep_decision_def get_similarity_decision_def sample_verdict_def)
  then obtain pairs where p: "detect_similar_pairs sample_scanner None v = Inr pairs" "pairs \<noteq> []" by blast
  have t: "ca_target_ids sample_keep = JList [JStr ''g-1'', JStr ''g-2'']" by (simp add: sample_keep_def)
  have "{attr_json (bu_id x), attr_json (bu_id y)} \<noteq> {JStr ''g-1'', JStr ''g-2''}" if "(x, y, score) \<in> set pairs" for x y score
    by (rule kept_pairs_not_reported [OF w'(1) t _ _ _ q p(1) [folded v] that]) simp_all
  with w'(1) p v show ?thesis by blast
qed

definition sample_merge :: consolidation_action where
  "sample_merge = \<lparr>ca_kind = MERGE, ca_target_ids = JList [JStr ''g-1'', JStr ''g-3''], ca_payload = [(''keep_id'', JStr ''g-1'')]\<rparr>"

theorem merge_conserves_witness:
  "\<exists>w'. apply_merge sample_merge sample_world = (Inr (), w') \<and> merge_effect ''g-1'' [''g-1'', ''g-3''] sample_world w'"
proof (rule merge_conserves)
  show "dict_ok (pb_bullets sample_world)" by (rule sample_world_ok)
  show "dict_get (pb_bullets sample_world) ''g-1'' = Some (sample_bullet ''g-1'' 2 0)" by (simp add: sample_playbook_def)
qed (simp_all add: sample_bullet_def bullet_active_def sample_merge_def payload_get_def)

text \<open>A source that is named twice is counted twice: its counters are absorbed although it has been dropped already.\<close>

lemma merge_twice_counts_twice:
  "map_option bu_helpful (dict_get (pb_bullets (snd (apply_merge (sample_merge\<lparr>ca_target_ids := JList [JStr ''g-3'', JStr ''g-3'']\<rparr>) sample_world))) ''g-1'') = Some 4"
  by (simp add: sample_merge_def apply_merge_def payload_get_def get_bullet_def hashable_def merge_source_def refresh_def modify_bullet_def put_bullet_def
      remove_bullet_def utc_now_def set_content_def absorb_def sample_playbook_def sample_bullet_def)

end
