(* ===== verification/Experience.thy ===== *)
theory Experience
  imports Consolidation
begin

section \<open>Learning from experience\<close>

text \<open>
  \<^verbatim>\<open>src/core/app/experiences/roles.py\<close> (the schemas of the curator's answer and the curator), \<^verbatim>\<open>runner.py\<close> (one learning step),
  \<^verbatim>\<open>playbook/store.py\<close> and \<^verbatim>\<open>service.py\<close> (the learned trajectories, pruning and saving). The reflector, the prompts and the answer of the model are
  parameters. The lock of the service makes the steps of one agent a sequence, so the model has one agent with its files;
  the service variables are a first component of the state.
\<close>

subsection \<open>The answer of the curator\<close>

record delta_metadata_schema =
  dm_helpful :: int
  dm_harmful :: int
  dm_neutral :: int

record delta_operation_schema =
  ds_type :: string
  ds_section :: string
  ds_content :: string
  ds_bullet_id :: string
  ds_metadata :: delta_metadata_schema

record consolidation_operation_schema =
  cs_type :: string
  cs_source_ids :: "string list"
  cs_merged_content :: string
  cs_keep_id :: string
  cs_bullet_id :: string
  cs_bullet_ids :: "string list"
  cs_differentiation :: string
  cs_new_content :: string
  cs_reasoning :: string

record curator_response =
  cr_reasoning :: string
  cr_operations :: "delta_operation_schema list"
  cr_consolidation_operations :: "consolidation_operation_schema list"

definition metadata_payload :: "delta_metadata_schema \<Rightarrow> jobj" where
  "metadata_payload m =
     map (\<lambda>(k, n). (k, JInt n)) (filter (\<lambda>(_, n). n \<noteq> 0) [(''helpful'', dm_helpful m), (''harmful'', dm_harmful m), (''neutral'', dm_neutral m)])"

definition or_null :: "string \<Rightarrow> json" where
  "or_null s = (if s = [] then JNull else JStr s)"

definition delta_operation_payload :: "delta_operation_schema \<Rightarrow> jobj" where
  "delta_operation_payload op =
     [(''type'', JStr (ds_type op)), (''section'', JStr (ds_section op)), (''content'', or_null (ds_content op)),
      (''bullet_id'', or_null (ds_bullet_id op)), (''metadata'', JObj (metadata_payload (ds_metadata op)))]"

definition delta_batch_from_schema :: "(json \<Rightarrow> string) \<Rightarrow> curator_response \<Rightarrow> delta_batch result" where
  "delta_batch_from_schema repr r =
     delta_batch_from_json repr
       [(''reasoning'', JStr (cr_reasoning r)),
        (''operations'', JList (map (\<lambda>op. JObj (delta_operation_payload op)) (cr_operations r)))]"

definition consolidation_dump :: "consolidation_operation_schema \<Rightarrow> jobj" where
  "consolidation_dump op =
     [(''type'', JStr (cs_type op)), (''source_ids'', JList (map JStr (cs_source_ids op))), (''merged_content'', JStr (cs_merged_content op)),
      (''keep_id'', JStr (cs_keep_id op)), (''bullet_id'', JStr (cs_bullet_id op)), (''bullet_ids'', JList (map JStr (cs_bullet_ids op))),
      (''differentiation'', JStr (cs_differentiation op)), (''new_content'', JStr (cs_new_content op)), (''reasoning'', JStr (cs_reasoning op))]"

definition consolidation_payload :: "consolidation_operation_schema list \<Rightarrow> jobj" where
  "consolidation_payload ops =
     (if ops = [] then [] else [(''consolidation_operations'', JList (map (\<lambda>op. JObj (consolidation_dump op)) ops))])"

subsection \<open>One learning step\<close>

record experience_runner =
  er_repr :: "json \<Rightarrow> string"
  er_reflect :: "(playbook_world, json) io"
  er_ask_curator :: "json \<Rightarrow> string option \<Rightarrow> (playbook_world, curator_response) io"
  er_consolidator :: "(similarity_scanner \<times> (similar_pair list \<Rightarrow> string)) option"

definition curate :: "experience_runner \<Rightarrow> json \<Rightarrow> (playbook_world, delta_batch) io" where
  "curate er reflection =
     bindE (case er_consolidator er of None \<Rightarrow> retE None | Some (sc, render) \<Rightarrow> get_similarity_report sc render) (\<lambda>report.
     bindE (er_ask_curator er reflection report) (\<lambda>output.
     bindE (liftE (delta_batch_from_schema (er_repr er) output)) (\<lambda>delta.
     let raw = consolidation_payload (cr_consolidation_operations output) in
     thenE (if er_consolidator er \<noteq> None \<and> raw \<noteq> [] then thenE (apply_operations_from_response raw) (retE ()) else retE ())
       (retE delta))))"

definition runner_learn :: "experience_runner \<Rightarrow> (playbook_world, int \<times> int) io" where
  "runner_learn er =
     bindE (er_reflect er) (\<lambda>reflection.
     bindE (curate er reflection) (\<lambda>delta.
     thenE (apply_delta delta)
    (thenE (case er_consolidator er of None \<Rightarrow> retE () | Some (sc, _) \<Rightarrow> thenE (ensure_embeddings sc) (retE ()))
       (retE (int (length (db_operations delta)), int (length (filter (\<lambda>op. py_upper (do_type op) = ''ADD'') (db_operations delta))))))))"

subsection \<open>The service\<close>

record experience_service =
  es_learned_ids :: "string list"
  es_files :: "(int, playbook_payload) dict"

definition LEARNED_IDS_CAP :: nat where
  "LEARNED_IDS_CAP = 1024"

definition env_int :: "(string \<Rightarrow> string) \<Rightarrow> string \<Rightarrow> int \<Rightarrow> int" where
  "env_int environ name dflt =
     (let s = py_strip (environ name) in if s = [] then dflt else case py_int_of_str s of Some i \<Rightarrow> i | None \<Rightarrow> dflt)"

definition env_float :: "(string \<Rightarrow> rat option) \<Rightarrow> (string \<Rightarrow> string) \<Rightarrow> string \<Rightarrow> rat \<Rightarrow> rat" where
  "env_float float_of environ name dflt =
     (let s = py_strip (environ name) in if s = [] then dflt else case float_of s of Some q \<Rightarrow> q | None \<Rightarrow> dflt)"

definition retention_from_env :: "(string \<Rightarrow> rat option) \<Rightarrow> (string \<Rightarrow> string) \<Rightarrow> retention_policy" where
  "retention_from_env float_of environ =
     \<lparr>rp_max_bullets = env_int environ ''EXPERIENCES_PLAYBOOK_CAP'' 300,
      rp_cold_after_days = env_float float_of environ ''EXPERIENCES_PRUNE_COLD_AFTER_DAYS'' 3,
      rp_half_life_days = env_float float_of environ ''EXPERIENCES_PRUNE_HALF_LIFE_DAYS'' 20\<rparr>"

definition prune_playbook :: "retention_env \<Rightarrow> retention_policy \<Rightarrow> (playbook_world, unit) io" where
  "prune_playbook env policy =
     (if rp_max_bullets policy \<le> 0 then retE () else catch_Exception (thenE (prune env policy None) (retE ())) (\<lambda>_. retE ()))"

definition scope_id :: "int option \<Rightarrow> int" where
  "scope_id agent = (case agent of Some i \<Rightarrow> i | None \<Rightarrow> 0)"

definition store_save :: "int option \<Rightarrow> (experience_service \<times> playbook_world, unit) io" where
  "store_save agent =
     bindE (getE (\<lambda>(_, w). to_dict w)) (\<lambda>payload. bindE (liftE payload) (\<lambda>p.
       assign (\<lambda>sv. sv\<lparr>es_files := dict_set (scope_id agent) p (es_files sv)\<rparr>)))"

definition store_load :: "int option \<Rightarrow> (experience_service \<times> playbook_world, playbook option) io" where
  "store_load agent =
     bindE (getE (\<lambda>(sv, _). dict_get (es_files sv) (scope_id agent))) (\<lambda>found.
       case found of None \<Rightarrow> retE None | Some p \<Rightarrow> onworld (bindE (from_dict p) (\<lambda>pb. retE (Some pb))))"

definition load_or_create :: "int option \<Rightarrow> (experience_service \<times> playbook_world, playbook) io" where
  "load_or_create agent = bindE (store_load agent) (\<lambda>found. retE (case found of Some pb \<Rightarrow> pb | None \<Rightarrow> empty_playbook))"

datatype learning = Skipped string | Learned int int "int \<times> int \<times> int \<times> int \<times> int"

definition remember :: "string \<Rightarrow> string list \<Rightarrow> string list" where
  "remember trajectory_id ids = trajectory_id # (if LEARNED_IDS_CAP \<le> length ids then [] else ids)"

definition learn_from_trajectory ::
    "bool \<Rightarrow> retention_env \<Rightarrow> retention_policy \<Rightarrow> int option \<Rightarrow> string \<Rightarrow> (playbook_world, int \<times> int) io
       \<Rightarrow> (experience_service \<times> playbook_world, learning) io" where
  "learn_from_trajectory enabled env policy agent trajectory_id runner =
     (if \<not> enabled then retE (Skipped ''EXPERIENCES_ENABLED is not set'')
      else bindE (getE (\<lambda>(sv, _). es_learned_ids sv)) (\<lambda>ids.
        if trajectory_id \<in> set ids then retE (Skipped ''trajectory already learned'')
        else thenE (assign (\<lambda>sv. sv\<lparr>es_learned_ids := remember trajectory_id ids\<rparr>))
            (bindE (onworld runner) (\<lambda>(operations, adds).
             thenE (onworld (prune_playbook env policy))
            (thenE (store_save agent)
            (bindE (getE (\<lambda>(_, w). playbook_stats w)) (\<lambda>stats. retE (Learned operations adds stats))))))))"

subsection \<open>The operations of a turn\<close>

definition TURN_OP_TOTALS_CAP :: nat where
  "TURN_OP_TOTALS_CAP = 512"

text \<open>The ordered dictionary keeps the key that was used last at its end; the oldest entries go first.\<close>

definition accumulate_turn_operations :: "int \<Rightarrow> int \<Rightarrow> int \<Rightarrow> (int \<times> int, int) dict \<Rightarrow> int \<times> (int \<times> int, int) dict" where
  "accumulate_turn_operations conversation_id turn_id num_operations totals =
     (let key = (conversation_id, turn_id);
          turn_total = (case dict_get totals key of Some n \<Rightarrow> n | None \<Rightarrow> 0) + num_operations;
          totals = dict_pop key totals @ [(key, turn_total)] in
      (turn_total, drop (length totals - TURN_OP_TOTALS_CAP) totals))"

subsection \<open>Bullets that learning produces\<close>

text \<open>
  A bullet of a worker whose curator only ever counts upwards: it carries its own key, its counters are not negative and the time of its last update is
  a text.
\<close>

definition sound_bullet :: "string \<Rightarrow> bullet \<Rightarrow> bool" where
  "sound_bullet i b \<longleftrightarrow> bu_id b = Declared i \<and> 0 \<le> bu_helpful b \<and> 0 \<le> bu_harmful b \<and> 0 \<le> bu_neutral b \<and> (\<exists>t. bu_updated_at b = Declared t)"

definition sound :: "playbook_world \<Rightarrow> bool" where
  "sound w \<longleftrightarrow> dict_ok (pb_bullets w) \<and> (\<forall>i b. dict_get (pb_bullets w) i = Some b \<longrightarrow> sound_bullet i b)"

lemma sound_put: "sound_bullet i b \<Longrightarrow> sound w \<Longrightarrow> sound (put_bullet i b w)"
  by (auto simp: sound_def put_bullet_def dict_get_set)

lemma sound_modify: "(\<And>b. sound_bullet i b \<Longrightarrow> sound_bullet i (f b)) \<Longrightarrow> sound w \<Longrightarrow> sound (modify_bullet i f w)"
proof (cases "dict_get (pb_bullets w) i")
  case (Some b)
  assume "\<And>b. sound_bullet i b \<Longrightarrow> sound_bullet i (f b)" and w: "sound w"
  with Some have "sound_bullet i (f b)" by (auto simp: sound_def)
  with Some w show ?thesis by (simp add: modify_bullet_def sound_put)
qed (simp add: modify_bullet_def)

lemma sound_other: "pb_bullets (g w) = pb_bullets w \<Longrightarrow> sound (g w) = sound w"
  by (simp add: sound_def)

lemma preserves_sound_utc_now: "preserves sound utc_now"
  by (rule preservesI) (simp add: utc_now_def sound_def)

lemma preserves_sound_found:
  assumes "\<And>b. sound_bullet i b \<Longrightarrow> preserves sound (f b)"
  shows "preserves sound (bindE (getE (\<lambda>w. dict_get (pb_bullets w) i)) (\<lambda>found. case found of None \<Rightarrow> retE n | Some b \<Rightarrow> f b))"
proof (rule preservesI)
  fix w assume w: "sound w"
  then have "sound (snd (f b w))" if "dict_get (pb_bullets w) i = Some b" for b using preserves_apply [OF assms] that by (auto simp: sound_def)
  with w show "sound (snd (bindE (getE (\<lambda>w. dict_get (pb_bullets w) i)) (\<lambda>found. case found of None \<Rightarrow> retE n | Some b \<Rightarrow> f b) w))"
    by (cases "dict_get (pb_bullets w) i") simp_all
qed

lemma preserves_sound_put: "sound_bullet i b \<Longrightarrow> preserves sound (modifyE (put_bullet i b))"
  by (rule preservesI) (simp add: sound_put)

definition counting :: "(string, int) dict \<Rightarrow> bool" where
  "counting metadata \<longleftrightarrow> (\<forall>(k, n) \<in> set metadata. k \<in> set BULLET_TAGS \<and> 0 \<le> n)"

lemma sound_set_attr: "sound_bullet i b \<Longrightarrow> k \<in> set BULLET_TAGS \<Longrightarrow> 0 \<le> n \<Longrightarrow> sound_bullet i (set_attr k n b)"
  by (auto simp: BULLET_TAGS_def set_attr_def sound_bullet_def)

lemma sound_metadata:
  assumes "apply_metadata metadata b = Inr b'" and "sound_bullet i b" and "counting metadata"
  shows "sound_bullet i b'"
proof -
  have "sound_bullet i (fold (\<lambda>(k, v). set_attr k v) metadata b)"
    using assms(2,3) by (induction metadata arbitrary: b) (auto simp: counting_def sound_set_attr)
  with assms(1) show ?thesis by (auto simp: apply_metadata_def method_call_def split: if_splits)
qed

lemma sound_touch: "sound_bullet i b \<Longrightarrow> sound_bullet i (b\<lparr>bu_updated_at := Declared t\<rparr>)"
  by (simp add: sound_bullet_def)

lemma sound_update: "counting metadata \<Longrightarrow> preserves sound (update_bullet i content metadata)"
proof -
  assume m: "counting metadata"
  have stamped: "preserves sound (bindE utc_now (\<lambda>now. thenE (modifyE (put_bullet i (b\<lparr>bu_updated_at := Declared now\<rparr>))) (retE (Some (b\<lparr>bu_updated_at := Declared now\<rparr>)))))"
    if "sound_bullet i b" for b using that by (intro preserves_bindE preserves_thenE preserves_sound_utc_now preserves_sound_put sound_touch preserves_pure)
  have "preserves sound (bindE (if metadata \<noteq> [] then liftE (apply_metadata metadata b) else retE b) (\<lambda>b.
      bindE utc_now (\<lambda>now. thenE (modifyE (put_bullet i (b\<lparr>bu_updated_at := Declared now\<rparr>))) (retE (Some (b\<lparr>bu_updated_at := Declared now\<rparr>))))))"
    if "sound_bullet i b" for b
  proof (cases "metadata = []")
    case False
    have "preserves sound (bindE (liftE (apply_metadata metadata b)) (\<lambda>b.
      bindE utc_now (\<lambda>now. thenE (modifyE (put_bullet i (b\<lparr>bu_updated_at := Declared now\<rparr>))) (retE (Some (b\<lparr>bu_updated_at := Declared now\<rparr>))))))"
      by (intro preserves_liftE_bind stamped) (rule sound_metadata [OF _ that m])
    with False show ?thesis by simp
  qed (simp add: stamped that)
  moreover have "sound_bullet i (case content of Some c \<Rightarrow> b\<lparr>bu_content := JStr c\<rparr> | None \<Rightarrow> b)" if "sound_bullet i b" for b
    using that by (cases content) (simp_all add: sound_bullet_def)
  ultimately show ?thesis unfolding update_bullet_def Let_def
    by (intro preserves_sound_found preserves_thenE preserves_sound_put) simp_all
qed

lemma sound_tag: "0 \<le> n \<Longrightarrow> preserves sound (tag_bullet i tag n)"
proof -
  assume "0 \<le> n"
  then have "sound_bullet i b'" if "bullet_tag tag n b = Inr b'" "sound_bullet i b" for b b'
    using that by (auto simp: bullet_tag_def method_call_def sound_bullet_def split: if_splits)
  then show ?thesis unfolding tag_bullet_def Let_def
    by (intro preserves_sound_found preserves_liftE_bind preserves_bindE preserves_thenE preserves_sound_utc_now preserves_sound_put sound_touch preserves_pure) simp_all
qed

lemma sound_remove: "preserves sound (remove_bullet i soft)"
proof (cases soft)
  case True
  have "sound_bullet i (b\<lparr>bu_status := x, bu_updated_at := Declared t\<rparr>)" if "sound_bullet i b" for b x t using that by (simp add: sound_bullet_def)
  then show ?thesis unfolding remove_bullet_def using True
    by (intro preserves_sound_found) (simp, intro preserves_bindE preserves_sound_utc_now preserves_sound_put, simp)
next
  case False
  have "sound (snd (remove_bullet i False w))" if "sound w" for w
    using remove_hard [of i w] that by (auto simp: sound_def dict_get_pop split: if_splits)
  with False show ?thesis by (auto intro: preservesI)
qed

lemma sound_add: "counting metadata \<Longrightarrow> preserves sound (add_bullet s content bid metadata)"
proof -
  assume m: "counting metadata"
  have gen: "preserves sound (generate_id s)" unfolding generate_id_def by (intro preserves_intros) (simp add: sound_def)
  have new: "preserves sound (new_bullet i s content)" for i unfolding new_bullet_def by (intro preserves_intros preserves_sound_utc_now)
  have fresh: "sound_bullet i b" if "new_bullet i s content w = (Inr b, w')" for i b w w'
    using that by (auto simp: new_bullet_def bindE_Inr_iff sound_bullet_def)
  have "preserves sound (bindE (liftE (apply_metadata metadata b)) (\<lambda>b.
      thenE (modifyE (put_bullet i b)) (thenE (modifyE (\<lambda>w. w\<lparr>pb_sections := dict_set s (section_ids s w @ [i]) (pb_sections w)\<rparr>)) (retE b))))"
    if "new_bullet i s content w = (Inr b, w')" for i b w w'
    by (intro preserves_liftE_bind preserves_thenE preserves_sound_put preserves_modifyE preserves_pure)
      (erule sound_metadata [OF _ fresh [OF that] m], simp add: sound_def)
  then have rest: "preserves sound (bindE (new_bullet i s content) (\<lambda>b. bindE (liftE (apply_metadata metadata b)) (\<lambda>b.
      thenE (modifyE (put_bullet i b)) (thenE (modifyE (\<lambda>w. w\<lparr>pb_sections := dict_set s (section_ids s w @ [i]) (pb_sections w)\<rparr>)) (retE b)))))" for i
    using new [of i] by (rule preserves_bind_run [rotated])
  have "preserves sound (case bid of Some i \<Rightarrow> if i = [] then generate_id s else retE i | None \<Rightarrow> generate_id s)" using gen by (cases bid) simp_all
  from preserves_bindE [OF this rest] show ?thesis unfolding add_bullet_def .
qed

lemma sound_delta: "\<forall>op \<in> set (db_operations delta). counting (do_metadata op) \<Longrightarrow> preserves sound (apply_delta delta)"
proof -
  have "preserves sound (apply_operation op)" if "counting (do_metadata op)" for op
    using that unfolding apply_operation_def Let_def
    by (auto intro!: preserves_forE_split preserves_thenE sound_add sound_update sound_tag sound_remove simp: counting_def split: option.splits)
  then show "\<forall>op \<in> set (db_operations delta). counting (do_metadata op) \<Longrightarrow> preserves sound (apply_delta delta)"
    unfolding apply_delta_def by (intro preserves_forE_split) blast
qed

lemma sound_parts:
  "sound_bullet i b \<Longrightarrow> sound_bullet i (set_content v b)" "sound_bullet i b \<Longrightarrow> sound_bullet i (b\<lparr>bu_embedding := e\<rparr>)"
  "sound_bullet j s \<Longrightarrow> sound_bullet i b \<Longrightarrow> sound_bullet i (absorb s b)"
  by (auto simp: sound_bullet_def set_content_def absorb_def)

lemma get_bullet_found: "get_bullet v w = (Inr (Some (i, b)), w') \<Longrightarrow> dict_get (pb_bullets w) i = Some b \<and> w' = w"
  by (auto simp: get_bullet_def split: if_splits option.splits)

lemma preserves_sound_get:
  assumes "preserves sound m" and "\<And>i b. sound_bullet i b \<Longrightarrow> preserves sound (f i b)"
  shows "preserves sound (bindE (get_bullet v) (\<lambda>found. case found of None \<Rightarrow> m | Some (i, b) \<Rightarrow> f i b))"
proof (rule preservesI)
  fix w assume w: "sound w"
  obtain r w' where g: "get_bullet v w = (r, w')" by (metis prod.exhaust)
  then have "w' = w" by (auto simp: get_bullet_def split: if_splits)
  show "sound (snd (bindE (get_bullet v) (\<lambda>found. case found of None \<Rightarrow> m | Some (i, b) \<Rightarrow> f i b) w))"
  proof (cases r)
    case (Inl e)
    with g w \<open>w' = w\<close> show ?thesis by simp
  next
    case (Inr found)
    have "preserves sound (f i b)" if "found = Some (i, b)" for i b
      using get_bullet_found [of v w i b w'] g Inr that w assms(2) unfolding sound_def by blast
    with g w \<open>w' = w\<close> Inr assms(1) show ?thesis by (cases found) (auto dest: preserves_apply)
  qed
qed

lemma sound_refresh: "preserves sound (refresh i v)"
  unfolding refresh_def
  by (intro preserves_intros preserves_sound_utc_now) (auto intro!: sound_modify sound_parts sound_touch)

lemma sound_action: "preserves sound (apply_action action)"
proof -
  have src: "preserves sound (merge_source k v)" for k v
    unfolding merge_source_def
    by (intro preserves_if preserves_pure preserves_sound_get preserves_thenE sound_remove preserves_modifyE) (auto intro!: sound_modify sound_parts)
  have keep: "preserves sound (keep_pair r p)" for r p
    unfolding keep_pair_def by (intro preserves_intros preserves_sound_utc_now) (simp add: set_similarity_decision_def sound_def)
  have "preserves sound (apply_merge action)"
    unfolding apply_merge_def Let_def
    by (intro preserves_sound_get preserves_liftE_bind preserves_thenE preserves_forE_split src sound_refresh preserves_pure)
  moreover have "preserves sound (apply_drop action)"
    unfolding apply_drop_def by (intro preserves_sound_get preserves_liftE_bind preserves_forE_split sound_remove preserves_pure)
  moreover have "preserves sound (apply_patch action)"
    unfolding apply_patch_def by (intro preserves_sound_get preserves_liftE_bind preserves_forE_split sound_refresh preserves_pure)
  moreover have "preserves sound (apply_keep action)"
    unfolding apply_keep_def Let_def by (auto intro!: preserves_intros keep split: json.split)
  ultimately show ?thesis by (cases "ca_kind action") (simp_all add: apply_action_def)
qed

lemma sound_embeddings:
  assumes "\<And>texts. preserves sound (sc_embed_batch sc texts)"
  shows "preserves sound (ensure_embeddings sc)"
proof -
  have "sound (set_embedding i v w)" if "sound w" for i v w
    using sound_modify [of i "\<lambda>b. b\<lparr>bu_embedding := Declared (Some v)\<rparr>" w] that by (simp add: sound_parts modify_bullet_def set_embedding_def)
  then show ?thesis unfolding ensure_embeddings_def compute_embeddings_batch_def
    by (auto intro!: preserves_intros assms split: option.split)
qed

subsection \<open>Learning stays within the cap\<close>

text \<open>
  The services of a learning step keep bullets sound, and the curator only counts upwards: no entry of the metadata in its answers is negative.
\<close>

definition counts_up :: "curator_response \<Rightarrow> bool" where
  "counts_up r \<longleftrightarrow> (\<forall>op \<in> set (cr_operations r). 0 \<le> dm_helpful (ds_metadata op) \<and> 0 \<le> dm_harmful (ds_metadata op) \<and> 0 \<le> dm_neutral (ds_metadata op))"

definition runner_sound :: "experience_runner \<Rightarrow> bool" where
  "runner_sound er \<longleftrightarrow> preserves sound (er_reflect er) \<and> (\<forall>r t. preserves sound (er_ask_curator er r t))
     \<and> (\<forall>r t w out w'. er_ask_curator er r t w = (Inr out, w') \<longrightarrow> counts_up out)
     \<and> (\<forall>sc render texts. er_consolidator er = Some (sc, render) \<longrightarrow> preserves sound (sc_embed_batch sc texts))"

lemma rmap_member: "rmap f (map g xs) = Inr ys \<Longrightarrow> y \<in> set ys \<Longrightarrow> \<exists>x \<in> set xs. f (g x) = Inr y"
  by (induction xs arbitrary: ys) (auto simp: rbind_Inr_iff)

lemma payload_metadata:
  assumes "delta_operation_from_json repr (delta_operation_payload s) = Inr op"
  shows "\<exists>m. set m \<subseteq> set (metadata_payload (ds_metadata s)) \<and> rmap (\<lambda>(k, v). rbind (json_int v) (\<lambda>i. Inr (k, i))) m = Inr (do_metadata op)"
proof -
  let ?m = "metadata_payload (ds_metadata s)" and ?p = "delta_operation_payload s"
  let ?t = "if py_upper (ds_type s) = ''TAG'' then filter (\<lambda>(k, _). k \<in> set BULLET_TAGS) ?m else ?m"
  have g: "dict_get ?p ''type'' = Some (JStr (ds_type s))" "dict_get ?p ''metadata'' = Some (JObj ?m)" by (simp_all add: delta_operation_payload_def)
  from assms obtain m' where "rmap (\<lambda>(k, v). rbind (json_int v) (\<lambda>i. Inr (k, i))) ?t = Inr m'" "do_metadata op = m'"
    unfolding delta_operation_from_json_def Let_def g by (auto simp: rbind_Inr_iff simp del: rmap.simps split: if_split_asm)
  moreover have "set ?t \<subseteq> set ?m" by auto
  ultimately show ?thesis by blast
qed

lemma counting_rmap:
  "rmap (\<lambda>(k, v). rbind (json_int v) (\<lambda>i. Inr (k, i))) m = Inr m' \<Longrightarrow> \<forall>(k, v) \<in> set m. k \<in> set BULLET_TAGS \<and> (\<exists>n \<ge> 0. v = JInt n) \<Longrightarrow> counting m'"
  by (induction m arbitrary: m') (auto simp: rbind_Inr_iff counting_def)

lemma schema_counting:
  assumes "delta_batch_from_schema repr r = Inr delta" and "counts_up r"
  shows "\<forall>op \<in> set (db_operations delta). counting (do_metadata op)"
proof
  fix op assume op: "op \<in> set (db_operations delta)"
  have mf: "List.map_filter (\<lambda>v. case v of JObj o' \<Rightarrow> Some o' | _ \<Rightarrow> None) (map (\<lambda>x. JObj (g x)) xs) = map g xs" for g and xs :: "'x list"
    by (induction xs) (auto simp: List.map_filter_simps)
  from assms(1) have "rmap (delta_operation_from_json repr) (map delta_operation_payload (cr_operations r)) = Inr (db_operations delta)"
    by (auto simp: delta_batch_from_schema_def delta_batch_from_json_def mf rbind_Inr_iff)
  from rmap_member [OF this op] obtain s where s: "s \<in> set (cr_operations r)" "delta_operation_from_json repr (delta_operation_payload s) = Inr op" by blast
  from payload_metadata [OF s(2)] obtain m where m: "set m \<subseteq> set (metadata_payload (ds_metadata s))"
    "rmap (\<lambda>(k, v). rbind (json_int v) (\<lambda>i. Inr (k, i))) m = Inr (do_metadata op)" by blast
  have "\<forall>(k, v) \<in> set (metadata_payload (ds_metadata s)). k \<in> set BULLET_TAGS \<and> (\<exists>n \<ge> 0. v = JInt n)"
    using assms(2) s(1) by (auto simp: metadata_payload_def BULLET_TAGS_def counts_up_def)
  with m(1) have "\<forall>(k, v) \<in> set m. k \<in> set BULLET_TAGS \<and> (\<exists>n \<ge> 0. v = JInt n)" by blast
  from counting_rmap [OF m(2) this] show "counting (do_metadata op)" .
qed

lemma sound_curate:
  assumes "runner_sound er"
  shows "preserves sound (curate er r)"
    and "curate er r w = (Inr delta, w') \<Longrightarrow> \<forall>op \<in> set (db_operations delta). counting (do_metadata op)"
proof -
  have "preserves sound (get_similarity_report sc render)" if "er_consolidator er = Some (sc, render)" for sc render
    using assms that unfolding get_similarity_report_def runner_sound_def by (auto intro!: preserves_intros sound_embeddings)
  then have report: "preserves sound (case er_consolidator er of None \<Rightarrow> retE None | Some (sc, render) \<Rightarrow> get_similarity_report sc render)"
    by (auto split: option.split)
  have "preserves sound (apply_operations_from_response raw)" for raw
    unfolding apply_operations_from_response_def apply_consolidation_actions_def
    by (intro preserves_liftE_bind preserves_thenE preserves_if preserves_forE_split sound_action preserves_pure)
  then show "preserves sound (curate er r)"
    using assms report unfolding curate_def Let_def runner_sound_def by (auto intro!: preserves_intros)
  assume "curate er r w = (Inr delta, w')"
  then obtain t v out v' where "er_ask_curator er r t v = (Inr out, v')" "delta_batch_from_schema (er_repr er) out = Inr delta"
    by (auto simp: curate_def Let_def bindE_Inr_iff thenE_Inr_iff liftE_def)
  with assms schema_counting show "\<forall>op \<in> set (db_operations delta). counting (do_metadata op)" unfolding runner_sound_def by blast
qed

lemma sound_runner: "runner_sound er \<Longrightarrow> preserves sound (runner_learn er)"
proof -
  assume er: "runner_sound er"
  have emb: "preserves sound (case er_consolidator er of None \<Rightarrow> retE () | Some (sc, _) \<Rightarrow> thenE (ensure_embeddings sc) (retE ()))"
    using er by (auto simp: runner_sound_def intro!: preserves_intros sound_embeddings split: option.split)
  have "preserves sound (bindE (curate er r) (\<lambda>delta. thenE (apply_delta delta)
      (thenE (case er_consolidator er of None \<Rightarrow> retE () | Some (sc, _) \<Rightarrow> thenE (ensure_embeddings sc) (retE ())) (retE (f delta)))))" for r and f :: "delta_batch \<Rightarrow> int \<times> int"
    by (rule preserves_bind_run [OF sound_curate(1) [OF er]]) (intro preserves_thenE emb preserves_pure sound_delta sound_curate(2) [OF er], assumption)
  moreover have "preserves sound (er_reflect er)" using er by (simp add: runner_sound_def)
  ultimately show ?thesis unfolding runner_learn_def by (rule preserves_bindE [rotated])
qed

lemma sound_ids: "sound w \<Longrightarrow> \<forall>(i, b) \<in> set (pb_bullets w). bu_id b = Declared i"
  by (auto simp: sound_def sound_bullet_def dict_ok_get_iff)

lemma sound_active: "sound w \<Longrightarrow> b \<in> set (playbook_bullets False w) \<Longrightarrow> \<exists>i. sound_bullet i b"
  unfolding sound_def playbook_bullets_def by (auto simp: dict_ok_get_iff)  blast

lemma prune_returns:
  assumes w: "sound w" and total: "\<forall>q. \<exists>p. re_half_power env q = Inr p"
  shows "\<exists>n w'. prune env policy now w = (Inr n, w')"
proof -
  have ev: "\<exists>E. evicted_ids env policy t (playbook_bullets False w) = Inr E" for t
  proof -
    have "\<exists>ranked. sort_survivors env policy t bs = Inr ranked" if "\<forall>b \<in> set bs. \<exists>i. sound_bullet i b" for bs
    proof -
      have "keep_score env policy t b = Inr (projr (keep_score env policy t b))" if b: "sound_bullet i b" for i b
      proof -
        from b have "bu_helpful b + bu_harmful b + bu_neutral b + 2 \<noteq> 0" by (auto simp: sound_bullet_def)
        moreover obtain p where "re_half_power env (days_since env (bu_updated_at b) t / max (rp_half_life_days policy) (1 / 1000000)) = Inr p" using total by blast
        ultimately show ?thesis by (simp add: keep_score_def Let_def)
      qed
      then have "rmap (keep_score env policy t) bs = Inr (map (\<lambda>b. projr (keep_score env policy t b)) bs)"
        using that by (intro rmap_Inr) blast
      moreover have "fst (stamp_key (bu_updated_at b)) = 0" if "sound_bullet i b" for i b using that by (auto simp: sound_bullet_def stamp_key_def)
      then have z: "fst (stamp_key (bu_updated_at (snd p))) = 0" if "p \<in> set (zip xs bs)" for p xs
        using that \<open>\<forall>b \<in> set bs. \<exists>i. sound_bullet i b\<close> by (metis prod.collapse set_zip_rightD)
      have "\<not> list_ex (\<lambda>(x, b). list_ex (\<lambda>(y, c). x = y \<and> fst (stamp_key (bu_updated_at b)) < fst (stamp_key (bu_updated_at c))) (zip xs bs)) (zip xs bs)" for xs
        unfolding list_ex_iff split_beta using z by (metis less_irrefl)
      ultimately show ?thesis by (simp add: sort_survivors_def Let_def)
    qed
    moreover have "\<exists>E. evicted_ids env policy t bs = Inr E" if "\<forall>b \<in> set bs. \<exists>i. sound_bullet i b"
        "\<And>bs. \<forall>b \<in> set bs. \<exists>i. sound_bullet i b \<Longrightarrow> \<exists>ranked. sort_survivors env policy t bs = Inr ranked" for bs
    proof -
      let ?S = "filter (\<lambda>b. bu_id b \<notin> set (map bu_id (filter (is_disposable env policy t) bs))) bs"
      from that(1) have "\<forall>b \<in> set ?S. \<exists>i. sound_bullet i b" by auto
      from that(2) [OF this] obtain ranked where "sort_survivors env policy t ?S = Inr ranked" by blast
      then show ?thesis unfolding evicted_ids_def Let_def by simp
    qed
    ultimately show ?thesis using sound_active [OF w] by blast
  qed
  obtain t v where v: "(case now of Some t \<Rightarrow> retE t | None \<Rightarrow> utc_now) w = (Inr t, v)" by (cases now) (auto simp: utc_now_def)
  obtain E where E: "evicted_ids env policy t (playbook_bullets False w) = Inr E" using ev by blast
  obtain w' where "forE E (\<lambda>i. case i of Declared j \<Rightarrow> remove_bullet j False | Overwritten _ \<Rightarrow> retE ()) v = (Inr (), w')" using evict_all by blast
  with v E show ?thesis by (simp add: prune_def)
qed

lemma sound_prune: "sound w \<Longrightarrow> prune env policy now w = (r, w') \<Longrightarrow> sound w'"
proof -
  assume w: "sound w" and run: "prune env policy now w = (r, w')"
  have "preserves sound (case i of Declared j \<Rightarrow> remove_bullet j False | Overwritten _ \<Rightarrow> retE ())" for i
    by (simp add: sound_remove split: attr.split)
  then have "preserves sound (prune env policy now)" unfolding prune_def by (intro preserves_intros preserves_sound_utc_now)
  with w run show "sound w'" by (metis preservesD)
qed

lemma learned_steps:
  assumes "learn_from_trajectory enabled env policy agent tid runner (sv, w) = (Inr (Learned n a stats), (sv', w'))"
  shows "enabled \<and> tid \<notin> set (es_learned_ids sv) \<and> (\<exists>v p. runner w = (Inr (n, a), v) \<and> prune_playbook env policy v = (Inr (), w') \<and> to_dict w' = Inr p
    \<and> sv' = sv\<lparr>es_learned_ids := remember tid (es_learned_ids sv), es_files := dict_set (scope_id agent) p (es_files sv)\<rparr> \<and> stats = playbook_stats w')"
proof -
  from assms have en: "enabled" "tid \<notin> set (es_learned_ids sv)" by (auto simp: learn_from_trajectory_def split: if_splits)
  let ?sv = "sv\<lparr>es_learned_ids := remember tid (es_learned_ids sv)\<rparr>"
  obtain r v where r: "runner w = (r, v)" by (metis prod.exhaust)
  with assms en obtain n' a' where na: "r = Inr (n', a')" by (cases r) (auto simp: learn_from_trajectory_def)
  obtain q u where q: "prune_playbook env policy v = (q, u)" by (metis prod.exhaust)
  from assms en r na q have "q = Inr ()" by (cases q) (auto simp: learn_from_trajectory_def)
  with assms en r na q obtain p where "to_dict u = Inr p" by (cases "to_dict u") (auto simp: learn_from_trajectory_def store_save_def)
  with assms en r na q \<open>q = Inr ()\<close> show ?thesis by (auto simp: learn_from_trajectory_def store_save_def)
qed

text \<open>
  C26. Learning keeps a playbook within its cap, under the conditions that the code leaves to its callers: the cap is positive (otherwise
  pruning is off), the time decay can be computed for every age, the bullets are sound to begin with (each lies under its own identifier,
  with counters that are not negative and a time of its last update), the curator answers with counts that are not negative and the other services keep the
  bullets sound. Then after each learned trajectory the active strategies of the worker fit the cap of the retention policy, and its
  bullets are sound again, so that the next one finds them so.
\<close>

theorem learning_within_cap:
  assumes w: "sound w" and er: "runner_sound er" and total: "\<forall>q. \<exists>p. re_half_power env q = Inr p" and cap: "0 < rp_max_bullets policy"
    and run: "learn_from_trajectory enabled env policy agent tid (runner_learn er) (sv, w) = (Inr (Learned n a stats), (sv', w'))"
  shows "int (length (playbook_bullets False w')) \<le> rp_max_bullets policy \<and> sound w'"
proof -
  from learned_steps [OF run] obtain v where v: "runner_learn er w = (Inr (n, a), v)" "prune_playbook env policy v = (Inr (), w')" by blast
  from sound_runner [OF er] w v(1) have sv: "sound v" by (metis preservesD)
  from prune_returns [OF this total] obtain m u where p: "prune env policy None v = (Inr m, u)" by blast
  with v(2) cap have "w' = u" by (auto simp: prune_playbook_def catch_Exception_def)
  moreover from sv have "dict_ok (pb_bullets v)" by (simp add: sound_def)
  ultimately show ?thesis using prune_spec [OF _ sound_ids [OF sv] p] sound_prune [OF sv p] cap by auto
qed

text \<open>
  What was learned is on disk and is not learned twice. After a trajectory has been learned, the file of the agent holds the playbook that is in memory,
  the same trajectory is skipped from then on without any change until the cap on remembered trajectories forgets it, and no more than
  the cap are remembered.
\<close>

theorem learning_recorded:
  fixes w' :: playbook_world
  assumes run: "learn_from_trajectory enabled env policy agent tid runner (sv, w) = (Inr (Learned n a stats), (sv', w'))"
    and st: "storable_playbook w'" and cap: "length (es_learned_ids sv) \<le> LEARNED_IDS_CAP"
  shows "store_load agent (sv', w') = (Inr (Some (playbook.truncate w')), (sv', w'))
    \<and> learn_from_trajectory enabled env' policy' agent tid runner' (sv', w') = (Inr (Skipped ''trajectory already learned''), (sv', w'))
    \<and> length (es_learned_ids sv') \<le> LEARNED_IDS_CAP"
proof -
  from learned_steps [OF run] obtain p where s: "enabled" "to_dict w' = Inr p"
    "sv' = sv\<lparr>es_learned_ids := remember tid (es_learned_ids sv), es_files := dict_set (scope_id agent) p (es_files sv)\<rparr>" by blast
  have tr: "to_dict (playbook.truncate w') = to_dict w'" "storable_playbook (playbook.truncate w')"
    using st by (simp_all add: to_dict_def storable_playbook_def playbook.truncate_def)
  with playbook_saved [OF tr(2), of w'] s(2) have "from_dict p w' = (Inr (playbook.truncate w'), w')" by auto
  moreover have "length (remember tid (es_learned_ids sv)) \<le> LEARNED_IDS_CAP" using cap by (auto simp: remember_def LEARNED_IDS_CAP_def)
  ultimately show ?thesis using s(1) by (simp add: store_load_def s(3) dict_get_set learn_from_trajectory_def remember_def)
qed

text \<open>The trajectory is remembered before it is learned: when learning raises, the same trajectory is skipped ever after.\<close>

lemma failed_learning_not_retried:
  assumes "enabled" and "tid \<notin> set (es_learned_ids sv)" and "runner w = (Inl e, v)"
  shows "\<exists>sv'. learn_from_trajectory enabled env policy agent tid runner (sv, w) = (Inl e, (sv', v))
    \<and> learn_from_trajectory enabled env policy agent tid runner' (sv', v) = (Inr (Skipped ''trajectory already learned''), (sv', v))"
  using assms by (simp add: learn_from_trajectory_def remember_def)

lemma turn_totals_bounded:
  "length (snd (accumulate_turn_operations c t n totals)) \<le> TURN_OP_TOTALS_CAP"
  by (simp add: accumulate_turn_operations_def Let_def)

lemma turn_totals_add:
  assumes "accumulate_turn_operations c t n totals = (turn_total, totals')"
  shows "accumulate_turn_operations c t m totals' = (turn_total + m, snd (accumulate_turn_operations c t m totals'))"
proof -
  let ?d = "dict_pop (c, t) totals @ [((c, t), turn_total)]"
  from assms have t': "totals' = drop (length ?d - TURN_OP_TOTALS_CAP) ?d" by (auto simp: accumulate_turn_operations_def Let_def)
  have "length ?d - TURN_OP_TOTALS_CAP \<le> length (dict_pop (c, t) totals)" by (simp add: TURN_OP_TOTALS_CAP_def)
  then obtain k where "totals' = drop k (dict_pop (c, t) totals) @ [((c, t), turn_total)]" unfolding t' by simp
  moreover have "(c, t) \<notin> set (dict_keys (drop k (dict_pop (c, t) totals)))" for k by (auto simp: AList.delete_eq dest: in_set_dropD)
  then have "dict_get (drop k (dict_pop (c, t) totals)) (c, t) = None" for k by (simp add: dict_get_None_iff)
  ultimately have "dict_get totals' (c, t) = Some turn_total" by (simp add: map_of_append map_add_def)
  then show ?thesis by (simp add: accumulate_turn_operations_def Let_def)
qed

subsection \<open>A concrete instance\<close>

definition sample_answer :: curator_response where
  "sample_answer =
     \<lparr>cr_reasoning = [], cr_operations = [\<lparr>ds_type = ''add'', ds_section = ''general'', ds_content = ''Look twice.'', ds_bullet_id = [],
        ds_metadata = \<lparr>dm_helpful = 1, dm_harmful = 0, dm_neutral = 0\<rparr>\<rparr>], cr_consolidation_operations = []\<rparr>"

definition sample_runner :: experience_runner where
  "sample_runner = \<lparr>er_repr = (\<lambda>_. []), er_reflect = retE JNull, er_ask_curator = (\<lambda>_ _. retE sample_answer), er_consolidator = None\<rparr>"

definition sample_fresh :: playbook_world where
  "sample_fresh = playbook.extend empty_playbook \<lparr>pw_clock = (\<lambda>_. ''2''), pw_reads = 0\<rparr>"

lemma sample_runner_sound: "runner_sound sample_runner"
  by (simp add: runner_sound_def sample_runner_def sample_answer_def counts_up_def)

lemma sample_fresh_simps: "pb_bullets sample_fresh = []" "pb_decisions sample_fresh = []" "pb_sections sample_fresh = []" "pb_next_id sample_fresh = 0"
  by (simp_all add: sample_fresh_def playbook.extend_def empty_playbook_def)

lemma upper_add: "py_upper ''add'' = ''ADD''" "py_upper ''ADD'' = ''ADD''"
  by code_simp+

lemma sample_delta:
  "delta_batch_from_schema r sample_answer = Inr \<lparr>db_reasoning = [], db_operations = [\<lparr>do_type = ''ADD'', do_section = ''general'',
     do_content = Some ''Look twice.'', do_bullet_id = None, do_metadata = [(''helpful'', 1)]\<rparr>]\<rparr>"
  by (simp add: delta_batch_from_schema_def delta_batch_from_json_def sample_answer_def delta_operation_payload_def delta_operation_from_json_def metadata_payload_def
      or_null_def json_or_none_def upper_add List.map_filter_simps Let_def)

lemma sample_learn: "\<exists>v. runner_learn sample_runner sample_fresh = (Inr (1, 1), v) \<and> length (pb_bullets v) = 1 \<and> pb_decisions v = []"
proof -
  have "cr_consolidation_operations sample_answer = []" by (simp add: sample_answer_def)
  then show ?thesis
    by (simp add: runner_learn_def curate_def sample_runner_def sample_delta consolidation_payload_def apply_delta_def apply_operation_def upper_add Let_def
        add_bullet_def generate_id_def new_bullet_def utc_now_def apply_metadata_def method_call_def set_attr_def put_bullet_def sample_fresh_simps)
qed

theorem learning_within_cap_witness:
  "\<exists>stats sv' w'. learn_from_trajectory True sample_retention default_retention None ''t'' (runner_learn sample_runner)
       (\<lparr>es_learned_ids = [], es_files = []\<rparr>, sample_fresh) = (Inr (Learned 1 1 stats), (sv', w'))
     \<and> int (length (playbook_bullets False w')) \<le> 500 \<and> sound w'"
proof -
  let ?sv = "\<lparr>es_learned_ids = [], es_files = []\<rparr>"
  obtain v where v: "runner_learn sample_runner sample_fresh = (Inr (1, 1), v)" "length (pb_bullets v) = 1" "pb_decisions v = []" using sample_learn by blast
  have len: "length (playbook_bullets False v) \<le> 1" using v(2) length_filter_le [of bullet_active "dict_values (pb_bullets v)"] by (simp add: playbook_bullets_def)
  then have p: "prune_playbook sample_retention default_retention v = (Inr (), v)"
    by (simp add: prune_playbook_def default_retention_def catch_Exception_def prune_def)
  obtain d where "to_dict v = Inr d" using v(3) by (simp add: to_dict_def)
  with v(1) p obtain stats sv' where run: "learn_from_trajectory True sample_retention default_retention None ''t'' (runner_learn sample_runner) (?sv, sample_fresh)
      = (Inr (Learned 1 1 stats), (sv', v))" by (simp add: learn_from_trajectory_def store_save_def)
  have w: "sound sample_fresh" by (simp add: sound_def sample_fresh_simps dict_ok_def)
  have "re_half_power sample_retention q = Inr (1 / 2)" for q by (simp add: sample_retention_def)
  then have t: "\<forall>q. \<exists>p. re_half_power sample_retention q = Inr p" by blast
  have m: "rp_max_bullets default_retention = 500" by (simp add: default_retention_def)
  then have c: "0 < rp_max_bullets default_retention" by simp
  from learning_within_cap [OF w sample_runner_sound t c run] have "int (length (playbook_bullets False v)) \<le> 500 \<and> sound v" by (simp add: m)
  with run show ?thesis by blast
qed

end
