(* ===== verification/Plan_Schema.thy ===== *)
theory Plan_Schema
  imports Capability_Ids
begin

section \<open>The plan of a turn\<close>

text \<open>
  \<^verbatim>\<open>core/app/schemas/conversation/plan.py\<close>: the plan shown to the user while a turn executes,
  its steps, and the tree of tool calls of a step. The enumerations keep the source's members
  and their numbers; a pydantic model is a record. \<^verbatim>\<open>ToolCall\<close> is recursive in its
  \<^verbatim>\<open>sub_calls\<close>: it is a datatype with a record for the remaining fields.

  The second part is the conversion from and to the protocol messages of
  \<^verbatim>\<open>core/app/pb/conversation/plan\<close>. A message is a record over the same fields, with the number
  of an enumeration on the wire, which may be one that the schema does not know. The truth
  value of a message in \<^verbatim>\<open>if pb_obj.file\<close> belongs to the protocol library and is a parameter.
\<close>

subsection \<open>Enumerations\<close>

datatype tool_type = TT_UNKNOWN | TT_BUILTIN

datatype tool_deliverable_type = TD_UNKNOWN | TD_MARKDOWN | TD_FILE | TD_WEB_PREVIEW_URL | TD_ACQUIRED_SANDBOX

datatype tool_call_status =
  TS_UNKNOWN | TS_RUNNING | TS_FAILED | TS_SUCCESSFUL | TS_FAILED_ANALYZING | TS_FAILED_ANALYZED
| TS_RETRY_RUNNING | TS_RETRY_SUCCESSFUL | TS_RETRY_FAILED | TS_PENDING

datatype plan_step_status =
  PS_UNKNOWN | PS_PENDING | PS_IN_PROGRESS | PS_COMPLETED | PS_FAILED | PS_REQUIRE_HUMAN_INPUT | PS_CANCELLED

datatype plan_status =
  PL_UNKNOWN | PL_NO_PLAN | PL_RUNNING | PL_COMPLETED | PL_FAILED | PL_REQUIRE_HUMAN_INPUT | PL_CANCELLED

primrec tool_type_value :: "tool_type \<Rightarrow> int" where
  "tool_type_value TT_UNKNOWN = 0"
| "tool_type_value TT_BUILTIN = 1"

primrec tool_deliverable_type_value :: "tool_deliverable_type \<Rightarrow> int" where
  "tool_deliverable_type_value TD_UNKNOWN = 0"
| "tool_deliverable_type_value TD_MARKDOWN = 1"
| "tool_deliverable_type_value TD_FILE = 2"
| "tool_deliverable_type_value TD_WEB_PREVIEW_URL = 3"
| "tool_deliverable_type_value TD_ACQUIRED_SANDBOX = 5"

primrec tool_call_status_value :: "tool_call_status \<Rightarrow> int" where
  "tool_call_status_value TS_UNKNOWN = 0"
| "tool_call_status_value TS_RUNNING = 1"
| "tool_call_status_value TS_FAILED = 2"
| "tool_call_status_value TS_SUCCESSFUL = 3"
| "tool_call_status_value TS_FAILED_ANALYZING = 4"
| "tool_call_status_value TS_FAILED_ANALYZED = 5"
| "tool_call_status_value TS_RETRY_RUNNING = 6"
| "tool_call_status_value TS_RETRY_SUCCESSFUL = 7"
| "tool_call_status_value TS_RETRY_FAILED = 8"
| "tool_call_status_value TS_PENDING = 9"

primrec plan_step_status_value :: "plan_step_status \<Rightarrow> int" where
  "plan_step_status_value PS_UNKNOWN = 0"
| "plan_step_status_value PS_PENDING = 1"
| "plan_step_status_value PS_IN_PROGRESS = 2"
| "plan_step_status_value PS_COMPLETED = 3"
| "plan_step_status_value PS_FAILED = 4"
| "plan_step_status_value PS_REQUIRE_HUMAN_INPUT = 5"
| "plan_step_status_value PS_CANCELLED = 6"

text \<open>
  \<^verbatim>\<open>from_pb\<close> of an enumeration is \<^verbatim>\<open>cls(pb_value.value)\<close>: the member with that number, and a
  \<^verbatim>\<open>ValueError\<close> when there is none.
\<close>

definition enum_of :: "('e \<Rightarrow> int) \<Rightarrow> 'e list \<Rightarrow> int \<Rightarrow> 'e result" where
  "enum_of val members n =
     (case find (\<lambda>e. val e = n) members of
        Some e \<Rightarrow> Inr e
      | None \<Rightarrow> Inl (Exn ValueError (str_of_int n @ '' is not a valid member'')))"

definition tool_type_from_pb :: "int \<Rightarrow> tool_type result" where
  "tool_type_from_pb = enum_of tool_type_value [TT_UNKNOWN, TT_BUILTIN]"

definition tool_deliverable_type_from_pb :: "int \<Rightarrow> tool_deliverable_type result" where
  "tool_deliverable_type_from_pb =
     enum_of tool_deliverable_type_value [TD_UNKNOWN, TD_MARKDOWN, TD_FILE, TD_WEB_PREVIEW_URL, TD_ACQUIRED_SANDBOX]"

definition tool_call_status_from_pb :: "int \<Rightarrow> tool_call_status result" where
  "tool_call_status_from_pb =
     enum_of tool_call_status_value
       [TS_UNKNOWN, TS_RUNNING, TS_FAILED, TS_SUCCESSFUL, TS_FAILED_ANALYZING, TS_FAILED_ANALYZED,
        TS_RETRY_RUNNING, TS_RETRY_SUCCESSFUL, TS_RETRY_FAILED, TS_PENDING]"

definition plan_step_status_from_pb :: "int \<Rightarrow> plan_step_status result" where
  "plan_step_status_from_pb =
     enum_of plan_step_status_value
       [PS_UNKNOWN, PS_PENDING, PS_IN_PROGRESS, PS_COMPLETED, PS_FAILED, PS_REQUIRE_HUMAN_INPUT, PS_CANCELLED]"

definition plan_step_status_from_string :: "string \<Rightarrow> plan_step_status" where
  "plan_step_status_from_string s =
     (case dict_get
        [(''pending'', PS_PENDING), (''in_progress'', PS_IN_PROGRESS), (''completed'', PS_COMPLETED),
         (''failed'', PS_FAILED), (''require_human_input'', PS_REQUIRE_HUMAN_INPUT), (''cancelled'', PS_CANCELLED)]
        (py_lower s) of
        Some st \<Rightarrow> st
      | None \<Rightarrow> PS_UNKNOWN)"

primrec plan_step_status_to_string :: "plan_step_status \<Rightarrow> string" where
  "plan_step_status_to_string PS_UNKNOWN = ''unknown''"
| "plan_step_status_to_string PS_PENDING = ''pending''"
| "plan_step_status_to_string PS_IN_PROGRESS = ''in_progress''"
| "plan_step_status_to_string PS_COMPLETED = ''completed''"
| "plan_step_status_to_string PS_FAILED = ''failed''"
| "plan_step_status_to_string PS_REQUIRE_HUMAN_INPUT = ''require_human_input''"
| "plan_step_status_to_string PS_CANCELLED = ''cancelled''"

subsection \<open>Records\<close>

record tool_deliverable_acquired_sandbox =
  aq_sandbox_id :: string
  aq_sandbox_type :: string
  aq_endpoint :: string
  aq_provider_base_url :: string
  aq_device_id :: string
  aq_display_name :: string
  aq_vnc_url :: string

definition no_acquired_sandbox :: tool_deliverable_acquired_sandbox where
  "no_acquired_sandbox =
     \<lparr>aq_sandbox_id = [], aq_sandbox_type = [], aq_endpoint = [], aq_provider_base_url = [],
      aq_device_id = [], aq_display_name = [], aq_vnc_url = []\<rparr>"

record tool_deliverable_file =
  tf_file_sas_url :: string
  tf_file_name :: string
  tf_file_uri :: string

record tool_deliverable =
  dv_type :: tool_deliverable_type
  dv_markdown_content :: string
  dv_markdown_title :: string
  dv_file_url :: string
  dv_file_name :: string
  dv_file :: "tool_deliverable_file option"
  dv_web_preview_sas_url :: string
  dv_acquired_sandbox :: tool_deliverable_acquired_sandbox

text \<open>\<^verbatim>\<open>_migrate_deprecated_file_fields\<close>, which runs whenever a deliverable is constructed.\<close>

definition migrate_deprecated_file_fields :: "tool_deliverable \<Rightarrow> tool_deliverable" where
  "migrate_deprecated_file_fields d =
     (if dv_file d = None \<and> (dv_file_url d \<noteq> [] \<or> dv_file_name d \<noteq> [])
      then d\<lparr>dv_file := Some \<lparr>tf_file_sas_url = dv_file_url d, tf_file_name = dv_file_name d, tf_file_uri = []\<rparr>\<rparr>
      else d)"

record task_runtime_execution_info =
  ti_current_stage :: string
  ti_sandbox_id :: string
  ti_sandbox_type :: string
  ti_sandbox_endpoint :: string
  ti_attempt :: int
  ti_max_attempts :: int
  ti_latest_progress_message :: string

definition no_task_runtime :: task_runtime_execution_info where
  "no_task_runtime =
     \<lparr>ti_current_stage = [], ti_sandbox_id = [], ti_sandbox_type = [], ti_sandbox_endpoint = [],
      ti_attempt = 0, ti_max_attempts = 0, ti_latest_progress_message = []\<rparr>"

record tool_execution_info =
  ei_tool_type :: tool_type
  ei_builtin_tool_name :: string
  ei_task_runtime :: task_runtime_execution_info

definition no_execution_info :: tool_execution_info where
  "no_execution_info =
     \<lparr>ei_tool_type = TT_UNKNOWN, ei_builtin_tool_name = [], ei_task_runtime = no_task_runtime\<rparr>"

text \<open>The fields of \<^verbatim>\<open>ToolCall\<close> other than \<^verbatim>\<open>sub_calls\<close>.\<close>

record tool_call_fields =
  tl_tool_name :: string
  tl_message :: string
  tl_execution_info :: tool_execution_info
  tl_deliverables :: "tool_deliverable list"
  tl_tool_call_id :: int
  tl_sub_call_index :: int
  tl_display :: "(string, string) dict"
  tl_tool_call_status :: tool_call_status
  tl_updated_at :: int

datatype tool_call = ToolCall (call_fields: tool_call_fields) (sub_calls: "tool_call list")

abbreviation tool_call_id :: "tool_call \<Rightarrow> int" where
  "tool_call_id t \<equiv> tl_tool_call_id (call_fields t)"

abbreviation call_status :: "tool_call \<Rightarrow> tool_call_status" where
  "call_status t \<equiv> tl_tool_call_status (call_fields t)"

definition map_call :: "(tool_call_fields \<Rightarrow> tool_call_fields) \<Rightarrow> tool_call \<Rightarrow> tool_call" where
  "map_call f t = ToolCall (f (call_fields t)) (sub_calls t)"

lemma map_call_sel [simp]: "call_fields (map_call f t) = f (call_fields t)" "sub_calls (map_call f t) = sub_calls t"
  by (simp_all add: map_call_def)

record plan_step =
  ps_title :: string
  ps_tool_calls :: "tool_call list"
  ps_status :: plan_step_status
  ps_updated_at :: int

record plan_extra =
  px_username :: string
  px_agent_instance_id :: int
  px_agent_id :: string
  px_turn_id :: int
  px_project_id :: int
  px_conversation_id :: int
  px_updated_at :: int

definition no_plan_extra :: plan_extra where
  "no_plan_extra =
     \<lparr>px_username = [], px_agent_instance_id = 0, px_agent_id = [], px_turn_id = 0, px_project_id = 0,
      px_conversation_id = 0, px_updated_at = 0\<rparr>"

record plan =
  pn_title :: string
  pn_steps :: "plan_step list"
  pn_extra :: plan_extra

subsection \<open>Operations on a plan\<close>

fun remove_execution_info :: "tool_call \<Rightarrow> tool_call" where
  "remove_execution_info (ToolCall f subs) =
     ToolCall (f\<lparr>tl_execution_info := no_execution_info\<rparr>) (map remove_execution_info subs)"

fun tool_call_to_cancelled :: "tool_call \<Rightarrow> tool_call" where
  "tool_call_to_cancelled (ToolCall f subs) = ToolCall f (map tool_call_to_cancelled subs)"

definition remove_tool_calls :: "plan \<Rightarrow> plan" where
  "remove_tool_calls p = p\<lparr>pn_steps := map (\<lambda>s. s\<lparr>ps_tool_calls := []\<rparr>) (pn_steps p)\<rparr>"

definition remove_tool_execution_info :: "plan \<Rightarrow> plan" where
  "remove_tool_execution_info p =
     p\<lparr>pn_steps := map (\<lambda>s. s\<lparr>ps_tool_calls := map remove_execution_info (ps_tool_calls s)\<rparr>) (pn_steps p)\<rparr>"

text \<open>\<^verbatim>\<open>any_condition\<close>, in the order in which the conditions are tried.\<close>

definition any_condition :: "(plan_step_status \<times> plan_status) list" where
  "any_condition =
     [(PS_UNKNOWN, PL_UNKNOWN), (PS_REQUIRE_HUMAN_INPUT, PL_REQUIRE_HUMAN_INPUT),
      (PS_FAILED, PL_FAILED), (PS_CANCELLED, PL_CANCELLED)]"

definition get_plan_status_from_step_status :: "plan \<Rightarrow> plan_status" where
  "get_plan_status_from_step_status p =
     (if pn_steps p = [] then PL_COMPLETED
      else case find (\<lambda>(st, _). list_ex (\<lambda>s. ps_status s = st) (pn_steps p)) any_condition of
             Some (_, plan_st) \<Rightarrow> plan_st
           | None \<Rightarrow> if list_all (\<lambda>s. ps_status s = PS_COMPLETED) (pn_steps p) then PL_COMPLETED else PL_RUNNING)"

definition is_cancelled :: "plan \<Rightarrow> bool" where
  "is_cancelled p \<longleftrightarrow> get_plan_status_from_step_status p = PL_CANCELLED"

text \<open>The loop of \<^verbatim>\<open>to_cancelled\<close>; the argument is its \<^verbatim>\<open>flag\<close>.\<close>

fun cancel_steps :: "bool \<Rightarrow> plan_step list \<Rightarrow> plan_step list" where
  "cancel_steps flag [] = []"
| "cancel_steps flag (s # ss) =
     (let hit = (\<not> flag \<and> ps_status s \<notin> {PS_COMPLETED, PS_FAILED});
          s' = (if hit then s\<lparr>ps_status := PS_CANCELLED\<rparr> else s)
      in s'\<lparr>ps_tool_calls := map tool_call_to_cancelled (ps_tool_calls s')\<rparr> # cancel_steps (flag \<or> hit) ss)"

definition to_cancelled :: "plan \<Rightarrow> plan" where
  "to_cancelled p = p\<lparr>pn_steps := cancel_steps False (pn_steps p)\<rparr>"

fun finish_steps :: "plan_step list \<Rightarrow> plan_step list" where
  "finish_steps [] = []"
| "finish_steps (s # ss) =
     (if ps_status s = PS_IN_PROGRESS then s\<lparr>ps_status := PS_COMPLETED\<rparr> # finish_steps ss
      else if ps_status s = PS_PENDING then finish_steps ss
      else s # finish_steps ss)"

definition mark_finished :: "plan \<Rightarrow> plan" where
  "mark_finished p =
     (if is_cancelled p then p
      else if list_ex (\<lambda>s. ps_status s = PS_REQUIRE_HUMAN_INPUT) (pn_steps p) then p
      else p\<lparr>pn_steps := finish_steps (pn_steps p)\<rparr>)"

subsection \<open>Places in a plan\<close>

text \<open>
  The code holds a reference to a tool call inside the plan and changes the call through it.
  The reference is a place: the step, the call in the step and, for a call below, the index in
  its \<^verbatim>\<open>sub_calls\<close>. \<open>call_at\<close> reads a place and \<open>update_at\<close> changes the call there.
\<close>

type_synonym place = "nat \<times> nat \<times> nat option"

definition call_at :: "plan \<Rightarrow> place \<Rightarrow> tool_call" where
  "call_at p pl =
     (case pl of (i, j, k) \<Rightarrow>
        let c = ps_tool_calls (pn_steps p ! i) ! j in (case k of None \<Rightarrow> c | Some k \<Rightarrow> sub_calls c ! k))"

definition update_at :: "place \<Rightarrow> (tool_call \<Rightarrow> tool_call) \<Rightarrow> plan \<Rightarrow> plan" where
  "update_at pl f p =
     (case pl of (i, j, k) \<Rightarrow>
        let s = pn_steps p ! i; c = ps_tool_calls s ! j;
            c' = (case k of None \<Rightarrow> f c
                  | Some k \<Rightarrow> ToolCall (call_fields c) ((sub_calls c)[k := f (sub_calls c ! k)]))
        in p\<lparr>pn_steps := (pn_steps p)[i := s\<lparr>ps_tool_calls := (ps_tool_calls s)[j := c']\<rparr>]\<rparr>)"

text \<open>
  \<^verbatim>\<open>get_tool_call\<close>: the first call with the identifier, in the order of the loops, among the
  calls of the steps and their direct \<^verbatim>\<open>sub_calls\<close>.
\<close>

fun find_sub :: "int \<Rightarrow> nat \<Rightarrow> tool_call list \<Rightarrow> nat option" where
  "find_sub tid k [] = None"
| "find_sub tid k (c # cs) = (if tool_call_id c = tid then Some k else find_sub tid (Suc k) cs)"

fun find_in_step :: "int \<Rightarrow> nat \<Rightarrow> tool_call list \<Rightarrow> (nat \<times> nat option) option" where
  "find_in_step tid j [] = None"
| "find_in_step tid j (c # cs) =
     (if tool_call_id c = tid then Some (j, None)
      else case find_sub tid 0 (sub_calls c) of
             Some k \<Rightarrow> Some (j, Some k)
           | None \<Rightarrow> find_in_step tid (Suc j) cs)"

fun find_in_steps :: "int \<Rightarrow> nat \<Rightarrow> plan_step list \<Rightarrow> place option" where
  "find_in_steps tid i [] = None"
| "find_in_steps tid i (s # ss) =
     (case find_in_step tid 0 (ps_tool_calls s) of
        Some (j, k) \<Rightarrow> Some (i, j, k)
      | None \<Rightarrow> find_in_steps tid (Suc i) ss)"

definition get_tool_call :: "plan \<Rightarrow> int \<Rightarrow> place option" where
  "get_tool_call p tid = find_in_steps tid 0 (pn_steps p)"

definition place_ok :: "plan \<Rightarrow> place \<Rightarrow> bool" where
  "place_ok p pl \<longleftrightarrow>
     (case pl of (i, j, k) \<Rightarrow>
        i < length (pn_steps p) \<and> j < length (ps_tool_calls (pn_steps p ! i))
        \<and> (case k of None \<Rightarrow> True | Some k \<Rightarrow> k < length (sub_calls (ps_tool_calls (pn_steps p ! i) ! j))))"

subsection \<open>Protocol messages\<close>

record pb_acquired_sandbox =
  waq_sandbox_id :: string
  waq_sandbox_type :: string
  waq_endpoint :: string
  waq_provider_base_url :: string
  waq_device_id :: string
  waq_display_name :: string
  waq_vnc_url :: string

record pb_deliverable_file =
  wtf_file_sas_url :: string
  wtf_file_name :: string
  wtf_file_uri :: string

record pb_deliverable =
  wdv_type :: int
  wdv_markdown_content :: string
  wdv_file_url :: string
  wdv_file_name :: string
  wdv_markdown_title :: string
  wdv_file :: "pb_deliverable_file option"
  wdv_web_preview_sas_url :: string
  wdv_acquired_sandbox :: "pb_acquired_sandbox option"

record pb_task_runtime =
  wti_current_stage :: string
  wti_sandbox_id :: string
  wti_sandbox_type :: string
  wti_sandbox_endpoint :: string
  wti_attempt :: int
  wti_max_attempts :: int
  wti_latest_progress_message :: string

record pb_execution_info =
  wei_tool_type :: int
  wei_builtin_tool_name :: string
  wei_task_runtime :: "pb_task_runtime option"

record pb_call_fields =
  wtl_tool_name :: string
  wtl_message :: string
  wtl_execution_info :: "pb_execution_info option"
  wtl_deliverables :: "pb_deliverable list"
  wtl_tool_call_id :: int
  wtl_sub_call_index :: int
  wtl_display :: "(string, string) dict"
  wtl_tool_call_status :: int
  wtl_updated_at :: int

datatype pb_tool_call = PbToolCall (pb_call_fields: pb_call_fields) (pb_sub_calls: "pb_tool_call list")

record pb_plan_step =
  wps_title :: string
  wps_tool_calls :: "pb_tool_call list"
  wps_status :: int
  wps_updated_at :: int

record pb_plan_extra =
  wpx_username :: string
  wpx_agent_instance_id :: int
  wpx_agent_id :: string
  wpx_turn_id :: int
  wpx_project_id :: int
  wpx_conversation_id :: int
  wpx_updated_at :: int

record pb_plan =
  wpn_title :: string
  wpn_steps :: "pb_plan_step list"
  wpn_extra :: "pb_plan_extra option"

text \<open>The truth value of a message that is present, one function for each kind of message that is tested.\<close>

record pb_truth =
  pt_file :: "pb_deliverable_file \<Rightarrow> bool"
  pt_acquired_sandbox :: "pb_acquired_sandbox \<Rightarrow> bool"
  pt_task_runtime :: "pb_task_runtime \<Rightarrow> bool"
  pt_execution_info :: "pb_execution_info \<Rightarrow> bool"
  pt_extra :: "pb_plan_extra \<Rightarrow> bool"

abbreviation when_true :: "('m \<Rightarrow> bool) \<Rightarrow> 'm option \<Rightarrow> 'm option" where
  "when_true test m \<equiv> Option.bind m (\<lambda>x. if test x then Some x else None)"

subsection \<open>From the schema to the messages\<close>

definition acquired_sandbox_to_pb :: "tool_deliverable_acquired_sandbox \<Rightarrow> pb_acquired_sandbox" where
  "acquired_sandbox_to_pb a =
     \<lparr>waq_sandbox_id = aq_sandbox_id a, waq_sandbox_type = aq_sandbox_type a, waq_endpoint = aq_endpoint a,
      waq_provider_base_url = aq_provider_base_url a, waq_device_id = aq_device_id a,
      waq_display_name = aq_display_name a, waq_vnc_url = aq_vnc_url a\<rparr>"

definition deliverable_file_to_pb :: "tool_deliverable_file \<Rightarrow> pb_deliverable_file" where
  "deliverable_file_to_pb f =
     \<lparr>wtf_file_sas_url = tf_file_sas_url f, wtf_file_name = tf_file_name f, wtf_file_uri = tf_file_uri f\<rparr>"

definition deliverable_to_pb :: "tool_deliverable \<Rightarrow> pb_deliverable" where
  "deliverable_to_pb d =
     \<lparr>wdv_type = tool_deliverable_type_value (dv_type d), wdv_markdown_content = dv_markdown_content d,
      wdv_file_url = [], wdv_file_name = [], wdv_markdown_title = dv_markdown_title d,
      wdv_file = map_option deliverable_file_to_pb (dv_file d),
      wdv_web_preview_sas_url = dv_web_preview_sas_url d,
      wdv_acquired_sandbox = Some (acquired_sandbox_to_pb (dv_acquired_sandbox d))\<rparr>"

definition task_runtime_to_pb :: "task_runtime_execution_info \<Rightarrow> pb_task_runtime" where
  "task_runtime_to_pb i =
     \<lparr>wti_current_stage = ti_current_stage i, wti_sandbox_id = ti_sandbox_id i,
      wti_sandbox_type = ti_sandbox_type i, wti_sandbox_endpoint = ti_sandbox_endpoint i,
      wti_attempt = ti_attempt i, wti_max_attempts = ti_max_attempts i,
      wti_latest_progress_message = ti_latest_progress_message i\<rparr>"

definition execution_info_to_pb :: "tool_execution_info \<Rightarrow> pb_execution_info" where
  "execution_info_to_pb e =
     \<lparr>wei_tool_type = tool_type_value (ei_tool_type e), wei_builtin_tool_name = ei_builtin_tool_name e,
      wei_task_runtime = Some (task_runtime_to_pb (ei_task_runtime e))\<rparr>"

fun tool_call_to_pb :: "tool_call \<Rightarrow> pb_tool_call" where
  "tool_call_to_pb (ToolCall f subs) =
     PbToolCall
       \<lparr>wtl_tool_name = tl_tool_name f, wtl_message = tl_message f,
        wtl_execution_info = Some (execution_info_to_pb (tl_execution_info f)),
        wtl_deliverables = map deliverable_to_pb (tl_deliverables f),
        wtl_tool_call_id = tl_tool_call_id f, wtl_sub_call_index = tl_sub_call_index f,
        wtl_display = tl_display f,
        wtl_tool_call_status = tool_call_status_value (tl_tool_call_status f),
        wtl_updated_at = tl_updated_at f\<rparr>
       (map tool_call_to_pb subs)"

definition plan_step_to_pb :: "plan_step \<Rightarrow> pb_plan_step" where
  "plan_step_to_pb s =
     \<lparr>wps_title = ps_title s, wps_tool_calls = map tool_call_to_pb (ps_tool_calls s),
      wps_status = plan_step_status_value (ps_status s), wps_updated_at = ps_updated_at s\<rparr>"

definition plan_extra_to_pb :: "plan_extra \<Rightarrow> pb_plan_extra" where
  "plan_extra_to_pb x =
     \<lparr>wpx_username = px_username x, wpx_agent_instance_id = px_agent_instance_id x, wpx_agent_id = px_agent_id x,
      wpx_turn_id = px_turn_id x, wpx_project_id = px_project_id x, wpx_conversation_id = px_conversation_id x,
      wpx_updated_at = px_updated_at x\<rparr>"

definition plan_to_pb :: "plan \<Rightarrow> pb_plan" where
  "plan_to_pb p =
     \<lparr>wpn_title = pn_title p, wpn_steps = map plan_step_to_pb (pn_steps p),
      wpn_extra = Some (plan_extra_to_pb (pn_extra p))\<rparr>"

subsection \<open>From the messages to the schema\<close>

definition acquired_sandbox_from_pb :: "pb_acquired_sandbox \<Rightarrow> tool_deliverable_acquired_sandbox" where
  "acquired_sandbox_from_pb a =
     \<lparr>aq_sandbox_id = waq_sandbox_id a, aq_sandbox_type = waq_sandbox_type a, aq_endpoint = waq_endpoint a,
      aq_provider_base_url = waq_provider_base_url a, aq_device_id = waq_device_id a,
      aq_display_name = waq_display_name a, aq_vnc_url = waq_vnc_url a\<rparr>"

definition deliverable_file_from_pb :: "pb_deliverable_file \<Rightarrow> tool_deliverable_file" where
  "deliverable_file_from_pb f =
     \<lparr>tf_file_sas_url = wtf_file_sas_url f, tf_file_name = wtf_file_name f, tf_file_uri = wtf_file_uri f\<rparr>"

definition deliverable_from_pb :: "pb_truth \<Rightarrow> pb_deliverable \<Rightarrow> tool_deliverable result" where
  "deliverable_from_pb T d =
     (let fl = (case when_true (pt_file T) (wdv_file d) of
                  Some f \<Rightarrow> Some (deliverable_file_from_pb f)
                | None \<Rightarrow>
                    if wdv_file_url d \<noteq> [] \<or> wdv_file_name d \<noteq> []
                    then Some \<lparr>tf_file_sas_url = wdv_file_url d, tf_file_name = wdv_file_name d, tf_file_uri = []\<rparr>
                    else None)
      in rbind (tool_deliverable_type_from_pb (wdv_type d)) (\<lambda>ty.
           Inr (migrate_deprecated_file_fields
             \<lparr>dv_type = ty, dv_markdown_content = wdv_markdown_content d, dv_markdown_title = wdv_markdown_title d,
              dv_file_url = [], dv_file_name = [], dv_file = fl, dv_web_preview_sas_url = wdv_web_preview_sas_url d,
              dv_acquired_sandbox =
                (case when_true (pt_acquired_sandbox T) (wdv_acquired_sandbox d) of
                   Some a \<Rightarrow> acquired_sandbox_from_pb a | None \<Rightarrow> no_acquired_sandbox)\<rparr>)))"

definition task_runtime_from_pb :: "pb_task_runtime \<Rightarrow> task_runtime_execution_info" where
  "task_runtime_from_pb i =
     \<lparr>ti_current_stage = wti_current_stage i, ti_sandbox_id = wti_sandbox_id i,
      ti_sandbox_type = wti_sandbox_type i, ti_sandbox_endpoint = wti_sandbox_endpoint i,
      ti_attempt = wti_attempt i, ti_max_attempts = wti_max_attempts i,
      ti_latest_progress_message = wti_latest_progress_message i\<rparr>"

definition execution_info_from_pb :: "pb_truth \<Rightarrow> pb_execution_info \<Rightarrow> tool_execution_info result" where
  "execution_info_from_pb T e =
     rbind (tool_type_from_pb (wei_tool_type e)) (\<lambda>ty.
       Inr \<lparr>ei_tool_type = ty, ei_builtin_tool_name = wei_builtin_tool_name e,
            ei_task_runtime =
              (case when_true (pt_task_runtime T) (wei_task_runtime e) of
                 Some i \<Rightarrow> task_runtime_from_pb i | None \<Rightarrow> no_task_runtime)\<rparr>)"

lemma rmap_cong [fundef_cong]: "xs = ys \<Longrightarrow> (\<And>x. x \<in> set ys \<Longrightarrow> f x = g x) \<Longrightarrow> rmap f xs = rmap g ys"
  by (induction ys arbitrary: xs) auto

fun tool_call_from_pb :: "pb_truth \<Rightarrow> pb_tool_call \<Rightarrow> tool_call result" where
  "tool_call_from_pb T (PbToolCall f subs) =
     rbind (case when_true (pt_execution_info T) (wtl_execution_info f) of
              Some e \<Rightarrow> execution_info_from_pb T e | None \<Rightarrow> Inr no_execution_info) (\<lambda>info.
     rbind (rmap (deliverable_from_pb T) (wtl_deliverables f)) (\<lambda>deliverables.
     rbind (rmap (tool_call_from_pb T) subs) (\<lambda>calls.
     rbind (tool_call_status_from_pb (wtl_tool_call_status f)) (\<lambda>status.
       Inr (ToolCall
              \<lparr>tl_tool_name = wtl_tool_name f, tl_message = wtl_message f, tl_execution_info = info,
               tl_deliverables = deliverables, tl_tool_call_id = wtl_tool_call_id f,
               tl_sub_call_index = wtl_sub_call_index f, tl_display = wtl_display f,
               tl_tool_call_status = status, tl_updated_at = wtl_updated_at f\<rparr>
              calls)))))"

definition plan_step_from_pb :: "pb_truth \<Rightarrow> pb_plan_step \<Rightarrow> plan_step result" where
  "plan_step_from_pb T s =
     rbind (rmap (tool_call_from_pb T) (wps_tool_calls s)) (\<lambda>calls.
     rbind (plan_step_status_from_pb (wps_status s)) (\<lambda>status.
       Inr \<lparr>ps_title = wps_title s, ps_tool_calls = calls, ps_status = status, ps_updated_at = wps_updated_at s\<rparr>))"

definition plan_extra_from_pb :: "pb_plan_extra \<Rightarrow> plan_extra" where
  "plan_extra_from_pb x =
     \<lparr>px_username = wpx_username x, px_agent_instance_id = wpx_agent_instance_id x, px_agent_id = wpx_agent_id x,
      px_turn_id = wpx_turn_id x, px_project_id = wpx_project_id x, px_conversation_id = wpx_conversation_id x,
      px_updated_at = wpx_updated_at x\<rparr>"

definition plan_from_pb :: "pb_truth \<Rightarrow> pb_plan \<Rightarrow> plan result" where
  "plan_from_pb T p =
     rbind (rmap (plan_step_from_pb T) (wpn_steps p)) (\<lambda>steps.
       Inr \<lparr>pn_title = wpn_title p, pn_steps = steps,
            pn_extra = (case when_true (pt_extra T) (wpn_extra p) of
                          Some x \<Rightarrow> plan_extra_from_pb x | None \<Rightarrow> no_plan_extra)\<rparr>)"


subsection \<open>Conversions\<close>

lemma enum_of_value: "e \<in> set members \<Longrightarrow> inj_on val (set members) \<Longrightarrow> enum_of val members (val e) = Inr e"
proof -
  assume m: "e \<in> set members" and i: "inj_on val (set members)"
  then obtain e' where f: "find (\<lambda>x. val x = val e) members = Some e'"
    by (cases "find (\<lambda>x. val x = val e) members") (auto simp: find_None_iff)
  then have "e' \<in> set members" "val e' = val e"
    by (auto simp: find_Some_iff)
  with i m have "e' = e"
    by (auto dest: inj_onD)
  with f show ?thesis by (simp add: enum_of_def)
qed

lemma tool_type_from_value [simp]: "tool_type_from_pb (tool_type_value e) = Inr e"
  unfolding tool_type_from_pb_def by (rule enum_of_value) (cases e; simp)+

lemma tool_deliverable_type_from_value [simp]: "tool_deliverable_type_from_pb (tool_deliverable_type_value e) = Inr e"
  unfolding tool_deliverable_type_from_pb_def by (rule enum_of_value) (cases e; simp)+

lemma tool_call_status_from_value [simp]: "tool_call_status_from_pb (tool_call_status_value e) = Inr e"
  unfolding tool_call_status_from_pb_def by (rule enum_of_value) (cases e; simp)+

lemma plan_step_status_from_value [simp]: "plan_step_status_from_pb (plan_step_status_value e) = Inr e"
  unfolding plan_step_status_from_pb_def by (rule enum_of_value) (cases e; simp)+

lemma enum_of_error: "n \<notin> val ` set members \<Longrightarrow> \<exists>msg. enum_of val members n = Inl (Exn ValueError msg)"
  by (cases "find (\<lambda>e. val e = n) members") (auto simp: enum_of_def find_Some_iff)

lemma plan_step_status_string_roundtrip: "plan_step_status_from_string (plan_step_status_to_string st) = st"
  by (cases st) (simp_all add: plan_step_status_from_string_def py_lower_def py_lower_char_def)

lemma from_to_pb [simp]:
  "acquired_sandbox_from_pb (acquired_sandbox_to_pb a) = a"
  "deliverable_file_from_pb (deliverable_file_to_pb f) = f"
  "task_runtime_from_pb (task_runtime_to_pb i) = i"
  "plan_extra_from_pb (plan_extra_to_pb x) = x"
  by (simp_all add: acquired_sandbox_from_pb_def acquired_sandbox_to_pb_def deliverable_file_from_pb_def
      deliverable_file_to_pb_def task_runtime_from_pb_def task_runtime_to_pb_def plan_extra_from_pb_def plan_extra_to_pb_def)

text \<open>
  What the conversion relies on of the protocol library: a message with a field that differs from
  its default value is true. Of an empty message nothing is assumed.
\<close>

definition pb_truth_ok :: "pb_truth \<Rightarrow> bool" where
  "pb_truth_ok T \<longleftrightarrow>
     (\<forall>f. deliverable_file_from_pb f \<noteq> \<lparr>tf_file_sas_url = [], tf_file_name = [], tf_file_uri = []\<rparr> \<longrightarrow> pt_file T f)
     \<and> (\<forall>a. acquired_sandbox_from_pb a \<noteq> no_acquired_sandbox \<longrightarrow> pt_acquired_sandbox T a)
     \<and> (\<forall>i. task_runtime_from_pb i \<noteq> no_task_runtime \<longrightarrow> pt_task_runtime T i)
     \<and> (\<forall>e. wei_tool_type e \<noteq> 0 \<or> wei_builtin_tool_name e \<noteq> []
            \<or> (\<exists>i. wei_task_runtime e = Some i \<and> task_runtime_from_pb i \<noteq> no_task_runtime) \<longrightarrow> pt_execution_info T e)
     \<and> (\<forall>x. plan_extra_from_pb x \<noteq> no_plan_extra \<longrightarrow> pt_extra T x)"

text \<open>
  What a plan becomes on its way through a message: the deprecated file fields of a deliverable
  are dropped, and a file without a single field may be lost.
\<close>

definition canonical_deliverable :: "pb_truth \<Rightarrow> tool_deliverable \<Rightarrow> tool_deliverable" where
  "canonical_deliverable T d =
     d\<lparr>dv_file_url := [], dv_file_name := [],
       dv_file := when_true (\<lambda>f. pt_file T (deliverable_file_to_pb f)) (dv_file d)\<rparr>"

fun canonical_call :: "pb_truth \<Rightarrow> tool_call \<Rightarrow> tool_call" where
  "canonical_call T (ToolCall f subs) =
     ToolCall (f\<lparr>tl_deliverables := map (canonical_deliverable T) (tl_deliverables f)\<rparr>) (map (canonical_call T) subs)"

definition canonical_plan :: "pb_truth \<Rightarrow> plan \<Rightarrow> plan" where
  "canonical_plan T p =
     p\<lparr>pn_steps := map (\<lambda>s. s\<lparr>ps_tool_calls := map (canonical_call T) (ps_tool_calls s)\<rparr>) (pn_steps p)\<rparr>"

lemma deliverable_roundtrip:
  assumes T: "pb_truth_ok T"
  shows "deliverable_from_pb T (deliverable_to_pb d) = Inr (canonical_deliverable T d)"
proof -
  have "(case when_true (pt_acquired_sandbox T) (Some (acquired_sandbox_to_pb (dv_acquired_sandbox d))) of
           Some a \<Rightarrow> acquired_sandbox_from_pb a | None \<Rightarrow> no_acquired_sandbox) = dv_acquired_sandbox d"
    using T by (auto simp: pb_truth_ok_def) (metis from_to_pb(1))
  then show ?thesis
    by (cases "dv_file d")
      (simp_all add: deliverable_from_pb_def deliverable_to_pb_def canonical_deliverable_def migrate_deprecated_file_fields_def)
qed

lemma execution_info_roundtrip:
  assumes T: "pb_truth_ok T"
  shows "(case when_true (pt_execution_info T) (Some (execution_info_to_pb e)) of
            Some m \<Rightarrow> execution_info_from_pb T m | None \<Rightarrow> Inr no_execution_info) = Inr e"
proof -
  have tr: "(case when_true (pt_task_runtime T) (Some (task_runtime_to_pb (ei_task_runtime e))) of
           Some i \<Rightarrow> task_runtime_from_pb i | None \<Rightarrow> no_task_runtime) = ei_task_runtime e"
    using T by (auto simp: pb_truth_ok_def) (metis from_to_pb(3))
  have "\<not> pt_execution_info T (execution_info_to_pb e) \<Longrightarrow> e = no_execution_info"
  proof -
    assume "\<not> pt_execution_info T (execution_info_to_pb e)"
    with T have "wei_tool_type (execution_info_to_pb e) = 0" "wei_builtin_tool_name (execution_info_to_pb e) = []"
      "\<forall>i. wei_task_runtime (execution_info_to_pb e) = Some i \<longrightarrow> task_runtime_from_pb i = no_task_runtime"
      by (auto simp: pb_truth_ok_def)
    then show "e = no_execution_info"
      by (cases "ei_tool_type e") (simp_all add: execution_info_to_pb_def no_execution_info_def)
  qed
  with tr show ?thesis
    by (auto simp: execution_info_from_pb_def execution_info_to_pb_def)
qed

lemma rmap_map_Inr: "(\<And>x. x \<in> set xs \<Longrightarrow> f (g x) = Inr (h x)) \<Longrightarrow> rmap f (map g xs) = Inr (map h xs)"
  by (induction xs) auto

lemma tool_call_roundtrip: "pb_truth_ok T \<Longrightarrow> tool_call_from_pb T (tool_call_to_pb t) = Inr (canonical_call T t)"
proof (induction t)
  case (ToolCall f subs)
  have "rmap (deliverable_from_pb T) (map deliverable_to_pb (tl_deliverables f))
          = Inr (map (canonical_deliverable T) (tl_deliverables f))"
    by (rule rmap_map_Inr) (rule deliverable_roundtrip [OF ToolCall.prems])
  moreover have "rmap (tool_call_from_pb T) (map tool_call_to_pb subs) = Inr (map (canonical_call T) subs)"
    by (rule rmap_map_Inr) (rule ToolCall.IH [OF _ ToolCall.prems])
  ultimately show ?case
    by (simp add: execution_info_roundtrip [OF ToolCall.prems, simplified])
qed

lemma plan_step_roundtrip:
  "pb_truth_ok T \<Longrightarrow>
     plan_step_from_pb T (plan_step_to_pb s) = Inr (s\<lparr>ps_tool_calls := map (canonical_call T) (ps_tool_calls s)\<rparr>)"
  by (simp add: plan_step_from_pb_def plan_step_to_pb_def
      rmap_map_Inr [where f = "tool_call_from_pb T" and g = tool_call_to_pb, OF tool_call_roundtrip])

lemma canonical_deliverable_idem: "canonical_deliverable T (canonical_deliverable T d) = canonical_deliverable T d"
  by (cases "dv_file d") (simp_all add: canonical_deliverable_def)

lemma canonical_call_idem: "canonical_call T (canonical_call T t) = canonical_call T t"
  by (induction t) (simp add: canonical_deliverable_idem)


subsection \<open>Status of a plan\<close>

lemma is_cancelled_iff:
  "is_cancelled p \<longleftrightarrow>
     (\<exists>s \<in> set (pn_steps p). ps_status s = PS_CANCELLED)
     \<and> (\<forall>s \<in> set (pn_steps p). ps_status s \<notin> {PS_UNKNOWN, PS_REQUIRE_HUMAN_INPUT, PS_FAILED})"
  by (auto simp: is_cancelled_def get_plan_status_from_step_status_def any_condition_def list_ex_iff split: if_splits)

lemma tool_call_to_cancelled_id [simp]: "tool_call_to_cancelled t = t"
  by (induction t) (simp add: map_idI)

lemma cancel_steps_True [simp]: "cancel_steps True ss = ss"
  by (induction ss) (simp_all add: Let_def map_idI)

lemma cancel_steps_skip: "ps_status s \<in> {PS_COMPLETED, PS_FAILED} \<Longrightarrow> cancel_steps False (s # ss) = s # cancel_steps False ss"
  by (auto simp: map_idI)

lemma cancel_steps_hit: "ps_status s \<notin> {PS_COMPLETED, PS_FAILED} \<Longrightarrow> cancel_steps False (s # ss) = s\<lparr>ps_status := PS_CANCELLED\<rparr> # ss"
  by (auto simp: map_idI)

lemma cancel_steps_closed: "(\<forall>s \<in> set ss. ps_status s \<in> {PS_COMPLETED, PS_FAILED}) \<Longrightarrow> cancel_steps False ss = ss"
  by (induction ss) (auto simp del: cancel_steps.simps(2) simp: cancel_steps_skip)

lemma cancel_steps_split:
  "(\<forall>s \<in> set pre. ps_status s \<in> {PS_COMPLETED, PS_FAILED}) \<Longrightarrow> ps_status s \<notin> {PS_COMPLETED, PS_FAILED} \<Longrightarrow>
     cancel_steps False (pre @ s # post) = pre @ s\<lparr>ps_status := PS_CANCELLED\<rparr> # post"
  by (induction pre) (auto simp del: cancel_steps.simps(2) simp: cancel_steps_skip cancel_steps_hit)

text \<open>A cancelled plan has at most the tool calls and the steps it had: only one status changes.\<close>

lemma cancel_steps_keeps: "map ps_tool_calls (cancel_steps b ss) = map ps_tool_calls ss" "length (cancel_steps b ss) = length ss"
  by (induction b ss rule: cancel_steps.induct) (auto simp: Let_def map_idI)

lemma finish_steps_settled: "s \<in> set (finish_steps ss) \<Longrightarrow> ps_status s \<notin> {PS_PENDING, PS_IN_PROGRESS}"
  by (induction ss) (auto split: if_splits)

lemma finish_steps_calls:
  "map ps_tool_calls (finish_steps ss) = map ps_tool_calls (filter (\<lambda>s. ps_status s \<noteq> PS_PENDING) ss)"
  by (induction ss) auto

text \<open>A finished plan has no open step, unless it is cancelled or waits for the user.\<close>

lemma mark_finished_settles:
  assumes "\<not> is_cancelled p" and "\<forall>s \<in> set (pn_steps p). ps_status s \<noteq> PS_REQUIRE_HUMAN_INPUT"
  shows "\<forall>s \<in> set (pn_steps (mark_finished p)). ps_status s \<notin> {PS_PENDING, PS_IN_PROGRESS}"
    and "map ps_tool_calls (pn_steps (mark_finished p))
           = map ps_tool_calls (filter (\<lambda>s. ps_status s \<noteq> PS_PENDING) (pn_steps p))"
  using assms finish_steps_settled [of _ "pn_steps p"]
  by (auto simp: mark_finished_def list_ex_iff finish_steps_calls)

subsection \<open>Places\<close>

lemma find_sub_Some: "find_sub tid k cs = Some m \<Longrightarrow> k \<le> m \<and> m - k < length cs \<and> tool_call_id (cs ! (m - k)) = tid"
proof (induction tid k cs rule: find_sub.induct)
  case (2 tid k c cs)
  show ?case
  proof (cases "tool_call_id c = tid")
    case False
    with 2 have "Suc k \<le> m \<and> m - Suc k < length cs \<and> tool_call_id (cs ! (m - Suc k)) = tid" by simp
    moreover from this have "m - k = Suc (m - Suc k)" by linarith
    ultimately show ?thesis by auto
  qed (use 2 in simp)
qed simp

lemma find_in_step_Some:
  "find_in_step tid j cs = Some (m, k) \<Longrightarrow>
     j \<le> m \<and> m - j < length cs
     \<and> (case k of None \<Rightarrow> tool_call_id (cs ! (m - j)) = tid
         | Some k \<Rightarrow> k < length (sub_calls (cs ! (m - j))) \<and> tool_call_id (sub_calls (cs ! (m - j)) ! k) = tid)"
proof (induction tid j cs rule: find_in_step.induct)
  case (2 tid j c cs)
  show ?case
  proof (cases "tool_call_id c = tid \<or> find_sub tid 0 (sub_calls c) \<noteq> None")
    case True
    then show ?thesis
      using 2(2) find_sub_Some [of tid 0 "sub_calls c"]
      by (cases "tool_call_id c = tid"; cases "find_sub tid 0 (sub_calls c)") auto
  next
    case False
    with 2 have "Suc j \<le> m \<and> m - Suc j < length cs
      \<and> (case k of None \<Rightarrow> tool_call_id (cs ! (m - Suc j)) = tid
         | Some k \<Rightarrow> k < length (sub_calls (cs ! (m - Suc j))) \<and> tool_call_id (sub_calls (cs ! (m - Suc j)) ! k) = tid)"
      by simp
    moreover from this have "m - j = Suc (m - Suc j)" by linarith
    ultimately show ?thesis by (auto split: option.splits)
  qed
qed simp

lemma find_in_steps_Some:
  "find_in_steps tid i ss = Some (m, j, k) \<Longrightarrow>
     i \<le> m \<and> m - i < length ss \<and> find_in_step tid 0 (ps_tool_calls (ss ! (m - i))) = Some (j, k)"
proof (induction tid i ss rule: find_in_steps.induct)
  case (2 tid i s ss)
  show ?case
  proof (cases "find_in_step tid 0 (ps_tool_calls s)")
    case None
    with 2 have "Suc i \<le> m \<and> m - Suc i < length ss \<and> find_in_step tid 0 (ps_tool_calls (ss ! (m - Suc i))) = Some (j, k)"
      by simp
    moreover from this have "m - i = Suc (m - Suc i)" by linarith
    ultimately show ?thesis by auto
  qed (use 2 in auto)
qed simp

lemma get_tool_call_sound:
  assumes "get_tool_call p tid = Some pl"
  shows "place_ok p pl \<and> tool_call_id (call_at p pl) = tid"
proof -
  obtain i j k where pl: "pl = (i, j, k)" by (cases pl)
  with assms have "i < length (pn_steps p)" "find_in_step tid 0 (ps_tool_calls (pn_steps p ! i)) = Some (j, k)"
    using find_in_steps_Some [of tid 0 "pn_steps p" i j k] by (auto simp: get_tool_call_def)
  with find_in_step_Some [of tid 0 _ j k] show ?thesis
    by (fastforce simp: pl place_ok_def call_at_def split: option.splits)
qed

lemma call_at_update [simp]: "place_ok p pl \<Longrightarrow> call_at (update_at pl f p) pl = f (call_at p pl)"
  by (auto simp: place_ok_def call_at_def update_at_def Let_def split: prod.splits option.splits)

lemma map_list_update_same: "g x = g (xs ! i) \<Longrightarrow> map g (xs[i := x]) = map g xs"
  by (cases "i < length xs") (simp_all add: map_update list_update_same_conv list_update_beyond)

lemma update_at_shape [simp]:
  "length (pn_steps (update_at pl f p)) = length (pn_steps p)"
  "map ps_status (pn_steps (update_at pl f p)) = map ps_status (pn_steps p)"
  "map ps_title (pn_steps (update_at pl f p)) = map ps_title (pn_steps p)"
  "pn_extra (update_at pl f p) = pn_extra p"
  by (auto simp: update_at_def Let_def map_list_update_same split: prod.splits)

text \<open>
  C31. A plan survives its way through the protocol messages: reading back the message of a plan
  gives the plan with the deprecated file fields of its deliverables dropped, and once they are
  dropped the plan comes back unchanged. No status, identifier, nested call or step is lost, and
  the conversion does not raise.
\<close>

theorem plan_pb_roundtrip:
  assumes "pb_truth_ok T"
  shows "plan_from_pb T (plan_to_pb p) = Inr (canonical_plan T p)
    \<and> plan_from_pb T (plan_to_pb (canonical_plan T p)) = Inr (canonical_plan T p)"
proof -
  have x: "(case when_true (pt_extra T) (Some (plan_extra_to_pb e)) of Some x \<Rightarrow> plan_extra_from_pb x | None \<Rightarrow> no_plan_extra) = e"
    for e
    using assms by (auto simp: pb_truth_ok_def) (metis from_to_pb(4))
  have rt: "plan_from_pb T (plan_to_pb q) = Inr (canonical_plan T q)" for q
    using x [of "pn_extra q"]
      rmap_map_Inr [where f = "plan_step_from_pb T" and g = plan_step_to_pb and xs = "pn_steps q", OF plan_step_roundtrip [OF assms]]
    by (simp add: plan_from_pb_def plan_to_pb_def canonical_plan_def)
  have "canonical_plan T (canonical_plan T p) = canonical_plan T p"
    by (simp add: canonical_plan_def canonical_call_idem comp_def)
  with rt [of p] rt [of "canonical_plan T p"] show ?thesis by simp
qed


theorem plan_pb_roundtrip_witness:
  "let T = \<lparr>pt_file = (\<lambda>f. wtf_file_sas_url f \<noteq> [] \<or> wtf_file_name f \<noteq> [] \<or> wtf_file_uri f \<noteq> []), pt_acquired_sandbox = (\<lambda>_. True),
            pt_task_runtime = (\<lambda>_. True), pt_execution_info = (\<lambda>_. True), pt_extra = (\<lambda>_. True)\<rparr>;
       p = \<lparr>pn_title = ''t'', pn_steps = [\<lparr>ps_title = ''s'', ps_tool_calls = [], ps_status = PS_PENDING, ps_updated_at = 1\<rparr>],
            pn_extra = no_plan_extra\<rparr>
   in plan_from_pb T (plan_to_pb p) = Inr p"
proof -
  let ?T = "\<lparr>pt_file = (\<lambda>f. wtf_file_sas_url f \<noteq> [] \<or> wtf_file_name f \<noteq> [] \<or> wtf_file_uri f \<noteq> []), pt_acquired_sandbox = (\<lambda>_. True),
            pt_task_runtime = (\<lambda>_. True), pt_execution_info = (\<lambda>_. True), pt_extra = (\<lambda>_. True)\<rparr>"
  have "pb_truth_ok ?T" by (auto simp: pb_truth_ok_def deliverable_file_from_pb_def)
  from plan_pb_roundtrip [OF this] show ?thesis by (simp add: Let_def canonical_plan_def)
qed


end
