(* ===== verification/Plan_Editor.thy ===== *)
theory Plan_Editor
  imports Plan_Schema Progress_Port "HOL-Library.Multiset"
begin

section \<open>The plan file and its editor\<close>

text \<open>
  \<^verbatim>\<open>core/app/tools/plan.py\<close> and \<^verbatim>\<open>core/app/storage/plan_fs.py\<close>: the plan of a turn is a file,
  with a marker file beside it once the user has cancelled the turn. Every change reads the
  file, edits the plan and writes it back, under one lock; subscribers are told afterwards.

  The files of a turn are found by the four numbers of its editor, the record \<open>plan_editor\<close>. The
  world holds the text of the plan files, the markers, the readings of the clock, the attributes
  of the editor at work and what has been published. The text form of a plan (pydantic), the
  outcome of taking the lock, of writing the file and of the subscriber's callback are
  parameters, in the record \<open>plan_env\<close>.
\<close>

record plan_world =
  pw_files :: "(plan_editor, string) dict"
  pw_cancelled :: "plan_editor list"
  pw_clock :: "nat \<Rightarrow> int"
  pw_reads :: nat
  pw_tool_call_id :: int
  pw_has_plan_updates :: bool
  pw_notified :: "plan list"
  pw_tracked :: "int list option"

record plan_env =
  pv_dump :: "plan \<Rightarrow> string"
  pv_dump_sparse :: "plan \<Rightarrow> string"
  pv_load :: "string \<Rightarrow> plan result"
  pv_lock :: "plan_world \<Rightarrow> exn option"
  pv_write :: "plan_world \<Rightarrow> exn option"
  pv_notify_cb :: "(plan \<Rightarrow> exn option) option"

type_synonym 'a planio = "(plan_world, 'a) io"

subsection \<open>Files, lock and clock\<close>

definition read_clock :: "int planio" where
  "read_clock = (\<lambda>w. (Inr (pw_clock w (pw_reads w)), w\<lparr>pw_reads := Suc (pw_reads w)\<rparr>))"

text \<open>\<^verbatim>\<open>PlanFS.write\<close>: the new file replaces the old one, or the old one stays and the error is raised.\<close>

definition plan_fs_write :: "plan_env \<Rightarrow> plan_editor \<Rightarrow> string \<Rightarrow> unit planio" where
  "plan_fs_write E k content =
     (\<lambda>w. case pv_write E w of
            Some e \<Rightarrow> (Inl e, w)
          | None \<Rightarrow> (Inr (), w\<lparr>pw_files := dict_set k content (pw_files w)\<rparr>))"

definition write_cancelled_marker :: "plan_editor \<Rightarrow> unit planio" where
  "write_cancelled_marker k = modifyE (\<lambda>w. w\<lparr>pw_cancelled := List.insert k (pw_cancelled w)\<rparr>)"

definition is_plan_cancelled_marker :: "plan_editor \<Rightarrow> bool planio" where
  "is_plan_cancelled_marker k = getE (\<lambda>w. k \<in> set (pw_cancelled w))"

definition plan_lock :: "plan_env \<Rightarrow> 'a planio \<Rightarrow> 'a planio" where
  "plan_lock E m = (\<lambda>w. case pv_lock E w of Some e \<Rightarrow> (Inl e, w) | None \<Rightarrow> m w)"

definition cancel_plan :: "plan_env \<Rightarrow> plan_editor \<Rightarrow> unit planio" where
  "cancel_plan E k = plan_lock E (write_cancelled_marker k)"

definition read_plan_unlocked :: "plan_env \<Rightarrow> plan_editor \<Rightarrow> plan option planio" where
  "read_plan_unlocked E k =
     bindE (is_plan_cancelled_marker k) (\<lambda>cancelled.
     bindE (getE (\<lambda>w. dict_get (pw_files w) k)) (\<lambda>content.
       case content of
         None \<Rightarrow> retE None
       | Some raw_content \<Rightarrow>
           if py_strip raw_content = [] then retE None
           else bindE (liftE (pv_load E raw_content)) (\<lambda>p. retE (Some (if cancelled then to_cancelled p else p)))))"

definition extra_key :: "plan_extra \<Rightarrow> plan_editor" where
  "extra_key x =
     \<lparr>pe_agent_instance_id = px_agent_instance_id x, pe_username = px_username x,
      pe_turn_id = px_turn_id x, pe_conversation_id = px_conversation_id x\<rparr>"

text \<open>The plan handed in is stamped in place; the stamped plan is the result.\<close>

definition write_plan_unlocked :: "plan_env \<Rightarrow> plan \<Rightarrow> plan planio" where
  "write_plan_unlocked E p =
     bindE read_clock (\<lambda>now.
       let p' = p\<lparr>pn_extra := (pn_extra p)\<lparr>px_updated_at := now\<rparr>\<rparr> in
       bindE (plan_fs_write E (extra_key (pn_extra p')) (pv_dump E p')) (\<lambda>_. retE p'))"

definition read_plan :: "plan_env \<Rightarrow> plan_editor \<Rightarrow> plan option planio" where
  "read_plan E k = plan_lock E (read_plan_unlocked E k)"

subsection \<open>Tracking of running calls\<close>

definition begin_tool_call_status_tracking :: "int list option planio" where
  "begin_tool_call_status_tracking = (\<lambda>w. (Inr (pw_tracked w), w\<lparr>pw_tracked := Some []\<rparr>))"

definition finish_tool_call_status_tracking :: "int list option \<Rightarrow> int list planio" where
  "finish_tool_call_status_tracking token =
     (\<lambda>w. (Inr (case pw_tracked w of None \<Rightarrow> [] | Some ids \<Rightarrow> ids), w\<lparr>pw_tracked := token\<rparr>))"

definition record_tool_call_for_status_tracking :: "int \<Rightarrow> tool_call_status \<Rightarrow> unit planio" where
  "record_tool_call_for_status_tracking tid status =
     modifyE (\<lambda>w. case pw_tracked w of
                None \<Rightarrow> w
              | Some ids \<Rightarrow> if tid \<noteq> 0 \<and> status = TS_RUNNING then w\<lparr>pw_tracked := Some (ids @ [tid])\<rparr> else w)"

definition discard_tool_calls_from_status_tracking :: "int list \<Rightarrow> unit planio" where
  "discard_tool_calls_from_status_tracking removed =
     modifyE (\<lambda>w. case pw_tracked w of
                None \<Rightarrow> w
              | Some ids \<Rightarrow> if removed = [] then w else w\<lparr>pw_tracked := Some (filter (\<lambda>i. i \<notin> set removed) ids)\<rparr>)"

subsection \<open>The trees of tool calls\<close>

fun iter_tool_call_tree :: "tool_call \<Rightarrow> tool_call list" where
  "iter_tool_call_tree (ToolCall f subs) = ToolCall f subs # concat (map iter_tool_call_tree subs)"

definition iter_tool_calls :: "plan \<Rightarrow> tool_call list" where
  "iter_tool_calls p = concat (map (\<lambda>s. concat (map iter_tool_call_tree (ps_tool_calls s))) (pn_steps p))"

fun tool_call_ids :: "tool_call \<Rightarrow> int list" where
  "tool_call_ids (ToolCall f subs) = tl_tool_call_id f # concat (map tool_call_ids subs)"

text \<open>An assignment in a loop over \<^verbatim>\<open>_iter_tool_call_tree\<close>.\<close>

fun map_tree :: "(tool_call_fields \<Rightarrow> tool_call_fields) \<Rightarrow> tool_call \<Rightarrow> tool_call" where
  "map_tree g (ToolCall f subs) = ToolCall (g f) (map (map_tree g) subs)"

fun remove_call :: "int \<Rightarrow> int \<Rightarrow> tool_call list \<Rightarrow> int list \<times> tool_call list" where
  "remove_call tid updated_at [] = ([], [])"
| "remove_call tid updated_at (ToolCall f subs # cs) =
     (if tl_tool_call_id f = tid then (tool_call_ids (ToolCall f subs), cs)
      else case remove_call tid updated_at subs of (removed_ids, subs') \<Rightarrow>
        if removed_ids \<noteq> [] then (removed_ids, ToolCall (f\<lparr>tl_updated_at := updated_at\<rparr>) subs' # cs)
        else case remove_call tid updated_at cs of (ids, cs') \<Rightarrow> (ids, ToolCall f subs' # cs'))"

definition mark_failed_analyzing_tool_calls_as_analyzed :: "plan \<Rightarrow> plan" where
  "mark_failed_analyzing_tool_calls_as_analyzed p =
     p\<lparr>pn_steps := map (\<lambda>s. s\<lparr>ps_tool_calls :=
         map (map_tree (\<lambda>f. if tl_tool_call_status f = TS_FAILED_ANALYZING
                            then f\<lparr>tl_tool_call_status := TS_FAILED_ANALYZED\<rparr> else f)) (ps_tool_calls s)\<rparr>) (pn_steps p)\<rparr>"

text \<open>\<^verbatim>\<open>_find_and_mark\<close> on a call and on a list of calls: whether the call was found, and the marked calls.\<close>

fun find_and_mark :: "int \<Rightarrow> int \<Rightarrow> tool_call \<Rightarrow> bool \<times> tool_call"
  and find_and_mark_list :: "int \<Rightarrow> int \<Rightarrow> tool_call list \<Rightarrow> bool \<times> tool_call list" where
  "find_and_mark now tid (ToolCall f subs) =
     (if tl_tool_call_id f = tid then (True, ToolCall (f\<lparr>tl_updated_at := now\<rparr>) subs)
      else case find_and_mark_list now tid subs of (found, subs') \<Rightarrow>
        if found then (True, ToolCall (f\<lparr>tl_updated_at := now\<rparr>) subs') else (False, ToolCall f subs'))"
| "find_and_mark_list now tid [] = (False, [])"
| "find_and_mark_list now tid (c # cs) =
     (case find_and_mark now tid c of (found, c') \<Rightarrow>
        if found then (True, c' # cs)
        else case find_and_mark_list now tid cs of (found', cs') \<Rightarrow> (found', c' # cs'))"

fun propagate_steps :: "int \<Rightarrow> int \<Rightarrow> plan_step list \<Rightarrow> plan_step list" where
  "propagate_steps now tid [] = []"
| "propagate_steps now tid (s # ss) =
     (case find_and_mark_list now tid (ps_tool_calls s) of (found, calls) \<Rightarrow>
        if found then s\<lparr>ps_tool_calls := calls, ps_updated_at := now\<rparr> # ss
        else s\<lparr>ps_tool_calls := calls\<rparr> # propagate_steps now tid ss)"

definition propagate_updated_at :: "int \<Rightarrow> int \<Rightarrow> plan \<Rightarrow> plan" where
  "propagate_updated_at tid now p = p\<lparr>pn_steps := propagate_steps now tid (pn_steps p)\<rparr>"

definition append_to_step :: "tool_call \<Rightarrow> int \<Rightarrow> plan_step \<Rightarrow> plan_step" where
  "append_to_step c now s = s\<lparr>ps_tool_calls := ps_tool_calls s @ [c], ps_updated_at := now\<rparr>"

fun append_to_open_step :: "tool_call \<Rightarrow> int \<Rightarrow> plan_step list \<Rightarrow> plan_step list option" where
  "append_to_open_step c now [] = None"
| "append_to_open_step c now (s # ss) =
     (if ps_status s \<notin> {PS_COMPLETED, PS_FAILED} then Some (append_to_step c now s # ss)
      else map_option (Cons s) (append_to_open_step c now ss))"

definition append_top_level_tool_call :: "tool_call \<Rightarrow> int \<Rightarrow> plan \<Rightarrow> plan" where
  "append_top_level_tool_call c now p =
     p\<lparr>pn_steps :=
        (case append_to_open_step c now (pn_steps p) of
           Some steps \<Rightarrow> steps
         | None \<Rightarrow>
             if pn_steps p \<noteq> [] then butlast (pn_steps p) @ [append_to_step c now (last (pn_steps p))]
             else [\<lparr>ps_title = ''Initial Step'', ps_tool_calls = [c], ps_status = PS_PENDING, ps_updated_at = now\<rparr>])\<rparr>"

definition ensure_plan_scope :: "plan_editor \<Rightarrow> plan \<Rightarrow> plan" where
  "ensure_plan_scope k p =
     p\<lparr>pn_extra := (pn_extra p)\<lparr>px_username := pe_username k, px_agent_instance_id := pe_agent_instance_id k,
        px_turn_id := pe_turn_id k, px_conversation_id := pe_conversation_id k\<rparr>\<rparr>"

text \<open>\<^verbatim>\<open>_alloc_tool_call_id\<close>: the editor's counter is first raised to the largest identifier in the plan.\<close>

definition alloc_tool_call_id :: "plan \<Rightarrow> int planio" where
  "alloc_tool_call_id p =
     (\<lambda>w. let n = fold (\<lambda>c m. if tool_call_id c > m then tool_call_id c else m) (iter_tool_calls p) (pw_tool_call_id w) + 1
          in (Inr n, w\<lparr>pw_tool_call_id := n\<rparr>))"

subsection \<open>The plan-writing tool\<close>

record plan_item_write =
  it_title :: string
  it_status :: string

record plan_write_input =
  wi_title :: string
  wi_items :: "plan_item_write list"

definition ITEM_STATUSES :: "string list" where
  "ITEM_STATUSES = [''pending'', ''in_progress'', ''completed'', ''failed'', ''require_human_input'']"

definition validate_plan_item :: "plan_item_write \<Rightarrow> plan_item_write result" where
  "validate_plan_item it =
     (if it_status it \<notin> set ITEM_STATUSES then Inl (Exn ValueError ''Input should be one of the task states'')
      else let normalized = py_strip (it_title it) in
        if normalized = [] then Inl (Exn ValueError ''title must not be empty'')
        else Inr (it\<lparr>it_title := normalized\<rparr>))"

definition validate_plan_write_input :: "plan_write_input \<Rightarrow> plan_write_input result" where
  "validate_plan_write_input i =
     rbind (rmap validate_plan_item (wi_items i)) (\<lambda>items.
       if length (filter (\<lambda>it. it_status it = ''in_progress'') items) > 1
       then Inl (Exn ValueError ''only one plan item can be in_progress'')
       else Inr (i\<lparr>wi_items := items\<rparr>))"

definition FINISHED_STATUSES :: "plan_step_status list" where
  "FINISHED_STATUSES = [PS_COMPLETED, PS_FAILED, PS_REQUIRE_HUMAN_INPUT, PS_CANCELLED]"

definition RUNNING_STATUSES :: "plan_step_status list" where
  "RUNNING_STATUSES = [PS_PENDING, PS_IN_PROGRESS]"

definition quoted :: "string \<Rightarrow> string" where
  "quoted s = CHR 0x27 # s @ [CHR 0x27]"

definition new_step :: "plan_item_write \<Rightarrow> plan_step" where
  "new_step it =
     \<lparr>ps_title = it_title it, ps_tool_calls = [], ps_status = plan_step_status_from_string (it_status it), ps_updated_at = 0\<rparr>"

text \<open>One round of the loop of \<^verbatim>\<open>write_plan\<close> on a step that exists; the number of the step is in the messages.\<close>

definition rewrite_step :: "nat \<Rightarrow> plan_item_write \<Rightarrow> plan_step \<Rightarrow> plan_step result" where
  "rewrite_step i it old =
     (let new_status = plan_step_status_from_string (it_status it) in
      rbind
        (if ps_title old \<noteq> it_title it
         then if ps_status old \<in> set RUNNING_STATUSES then Inr (old\<lparr>ps_title := it_title it\<rparr>)
              else Inl (Exn ValueError
                (''Cannot change title of existing step '' @ str_of_nat i @ '' ('' @ quoted (ps_title old) @ '' -> ''
                 @ quoted (it_title it) @ ''). Only running steps can be renamed.''))
         else Inr old) (\<lambda>s.
        if ps_status old \<in> set FINISHED_STATUSES \<and> new_status \<in> set RUNNING_STATUSES
        then Inl (Exn ValueError
          (''Cannot change status of step '' @ str_of_nat i @ '' ('' @ quoted (ps_title s) @ '') from ''
           @ quoted (plan_step_status_to_string (ps_status old)) @ '' to '' @ quoted (it_status it)
           @ ''. A finished step cannot be reverted to a running status.''))
        else Inr (s\<lparr>ps_status := new_status\<rparr>)))"

fun rewrite_steps :: "nat \<Rightarrow> plan_item_write list \<Rightarrow> plan_step list \<Rightarrow> plan_step list result" where
  "rewrite_steps i [] steps = Inr steps"
| "rewrite_steps i (it # its) [] = rbind (rewrite_steps (Suc i) its []) (\<lambda>ss. Inr (new_step it # ss))"
| "rewrite_steps i (it # its) (s # ss) =
     rbind (rewrite_step i it s) (\<lambda>s'. rbind (rewrite_steps (Suc i) its ss) (\<lambda>ss'. Inr (s' # ss')))"

definition merge_extra :: "plan_extra \<Rightarrow> plan_extra \<Rightarrow> plan_extra" where
  "merge_extra new old =
     old\<lparr>px_username := px_username new, px_agent_instance_id := px_agent_instance_id new, px_agent_id := px_agent_id new,
         px_turn_id := px_turn_id new, px_project_id := px_project_id new, px_conversation_id := px_conversation_id new\<rparr>"

text \<open>The tail of \<^verbatim>\<open>write_plan\<close>: the stamp and the file, without the fields that have their default value.\<close>

definition store_sparse :: "plan_env \<Rightarrow> plan_editor \<Rightarrow> plan \<Rightarrow> plan planio" where
  "store_sparse E k p =
     bindE read_clock (\<lambda>now.
       let p' = p\<lparr>pn_extra := (pn_extra p)\<lparr>px_updated_at := now\<rparr>\<rparr> in
       bindE (plan_fs_write E k (pv_dump_sparse E p')) (\<lambda>_. retE p'))"

definition write_plan :: "plan_env \<Rightarrow> plan_write_input \<Rightarrow> plan_extra \<Rightarrow> plan planio" where
  "write_plan E wplan extra =
     (let k = extra_key extra in
      plan_lock E (bindE (read_plan_unlocked E k) (\<lambda>existing.
        case existing of
          None \<Rightarrow>
            store_sparse E k \<lparr>pn_title = wi_title wplan, pn_steps = map new_step (wi_items wplan), pn_extra = extra\<rparr>
        | Some p \<Rightarrow>
            if is_cancelled p then retE p
            else bindE (liftE (rewrite_steps 0 (wi_items wplan) (pn_steps p))) (\<lambda>steps.
              store_sparse E k
                (p\<lparr>pn_extra := merge_extra extra (pn_extra p), pn_title := wi_title wplan, pn_steps := steps\<rparr>)))))"

subsection \<open>The operations of the editor\<close>

definition notify_plan_updated :: "plan_env \<Rightarrow> plan \<Rightarrow> unit planio" where
  "notify_plan_updated E p =
     (\<lambda>w. let w' = w\<lparr>pw_has_plan_updates := True\<rparr> in
          case pv_notify_cb E of
            None \<Rightarrow> (Inr (), w')
          | Some cb \<Rightarrow>
              (case cb p of
                 Some e \<Rightarrow> (Inl e, w')
               | None \<Rightarrow> (Inr (), w'\<lparr>pw_notified := pw_notified w @ [p]\<rparr>)))"

definition store_scoped :: "plan_env \<Rightarrow> plan_editor \<Rightarrow> plan \<Rightarrow> plan planio" where
  "store_scoped E k p = write_plan_unlocked E (ensure_plan_scope k p)"

definition replace_plan_locked :: "plan_env \<Rightarrow> plan_editor \<Rightarrow> plan \<Rightarrow> unit planio" where
  "replace_plan_locked E k p = plan_lock E (bindE (store_scoped E k p) (\<lambda>_. retE ()))"

definition create_tool_call_locked ::
  "plan_env \<Rightarrow> plan_editor \<Rightarrow> string \<Rightarrow> string \<Rightarrow> tool_execution_info option \<Rightarrow> int option \<Rightarrow> int
     \<Rightarrow> (string, string) dict \<Rightarrow> tool_call_status \<Rightarrow> (plan option \<times> int) planio" where
  "create_tool_call_locked E k name initial_message info parent_id index display status =
     plan_lock E (bindE (read_plan_unlocked E k) (\<lambda>read.
       case read of
         None \<Rightarrow> retE (None, 0)
       | Some p0 \<Rightarrow>
           bindE (alloc_tool_call_id p0) (\<lambda>tid.
           bindE read_clock (\<lambda>now.
             let c = ToolCall \<lparr>tl_tool_name = name, tl_message = initial_message,
                        tl_execution_info = (case info of Some e \<Rightarrow> e | None \<Rightarrow> no_execution_info), tl_deliverables = [],
                        tl_tool_call_id = tid, tl_sub_call_index = index, tl_display = display,
                        tl_tool_call_status = status, tl_updated_at = now\<rparr> [];
                 p = (if status = TS_RETRY_RUNNING then mark_failed_analyzing_tool_calls_as_analyzed p0 else p0)
             in case parent_id of
                  None \<Rightarrow> bindE (store_scoped E k (append_top_level_tool_call c now p)) (\<lambda>q. retE (Some q, tid))
                | Some pid \<Rightarrow>
                    (case get_tool_call p pid of
                       None \<Rightarrow> retE (None, 0)
                     | Some pl \<Rightarrow>
                         bindE (store_scoped E k
                           (propagate_updated_at pid now
                              (update_at pl (\<lambda>t. ToolCall (call_fields t) (sub_calls t @ [c])) p))) (\<lambda>q. retE (Some q, tid)))))))"

definition update_tool_call_locked ::
  "plan_env \<Rightarrow> plan_editor \<Rightarrow> int \<Rightarrow> (tool_call \<Rightarrow> tool_call result) \<Rightarrow> (plan option \<times> tool_call option) planio" where
  "update_tool_call_locked E k tid updater =
     plan_lock E (bindE (read_plan_unlocked E k) (\<lambda>read.
       case read of
         None \<Rightarrow> retE (None, None)
       | Some p \<Rightarrow>
           (case get_tool_call p tid of
              None \<Rightarrow> retE (None, None)
            | Some pl \<Rightarrow>
                bindE (liftE (updater (call_at p pl))) (\<lambda>t.
                bindE read_clock (\<lambda>now.
                  let t' = map_call (\<lambda>f. f\<lparr>tl_updated_at := now\<rparr>) t;
                      q = propagate_updated_at tid now (update_at pl (\<lambda>_. t') p)
                  in bindE (store_scoped E k q) (\<lambda>stored. retE (Some stored, Some (call_at q pl))))))))"

text \<open>
  \<^verbatim>\<open>_repair_tool_call_tree_locked\<close>. The updater gets the plan, the place of the current tree, the
  canonical tree and the time, and keeps the current tree in its place.
\<close>

fun find_top_in_step :: "int \<Rightarrow> nat \<Rightarrow> tool_call list \<Rightarrow> nat option" where
  "find_top_in_step tid j [] = None"
| "find_top_in_step tid j (c # cs) = (if tool_call_id c = tid then Some j else find_top_in_step tid (Suc j) cs)"

fun find_top :: "int \<Rightarrow> nat \<Rightarrow> plan_step list \<Rightarrow> place option" where
  "find_top tid i [] = None"
| "find_top tid i (s # ss) =
     (case find_top_in_step tid 0 (ps_tool_calls s) of
        Some j \<Rightarrow> Some (i, j, None)
      | None \<Rightarrow> find_top tid (Suc i) ss)"

definition outside_ids :: "plan \<Rightarrow> nat \<Rightarrow> nat \<Rightarrow> int list" where
  "outside_ids p i j =
     concat (map (\<lambda>(i', s). concat (map (\<lambda>(j', c). if i' = i \<and> j' = j then [] else map tool_call_id (iter_tool_call_tree c))
                                     (List.enumerate 0 (ps_tool_calls s))))
                (List.enumerate 0 (pn_steps p)))"

definition step_touched :: "nat \<Rightarrow> int \<Rightarrow> plan \<Rightarrow> plan" where
  "step_touched i now p = p\<lparr>pn_steps := (pn_steps p)[i := (pn_steps p ! i)\<lparr>ps_updated_at := now\<rparr>]\<rparr>"

text \<open>
  The plan with the tree in it and the place of the tree, before the updater runs. A tree that
  has just been appended is the only one with its identifier, so that it is found.
\<close>

definition locate_repaired :: "plan \<Rightarrow> tool_call \<Rightarrow> int \<Rightarrow> (plan \<times> place) result" where
  "locate_repaired p repaired now =
     (let conflict = Inl (Exn RuntimeError ''tool-call id conflict while repairing tree'') in
      case find_top (tool_call_id repaired) 0 (pn_steps p) of
        None \<Rightarrow>
          if set (tool_call_ids repaired) \<inter> set (map tool_call_id (iter_tool_calls p)) \<noteq> {} then conflict
          else let q = append_top_level_tool_call repaired now p in
            Inr (q, the (find_top (tool_call_id repaired) 0 (pn_steps q)))
      | Some (i, j, k) \<Rightarrow>
          if set (tool_call_ids repaired) \<inter> set (outside_ids p i j) \<noteq> {} then conflict
          else Inr (step_touched i now (update_at (i, j, k) (map_call (\<lambda>f. f\<lparr>tl_updated_at := now\<rparr>)) p), (i, j, k)))"

definition repair_tool_call_tree_locked ::
  "plan_env \<Rightarrow> plan_editor \<Rightarrow> tool_call \<Rightarrow> (plan \<Rightarrow> place \<Rightarrow> tool_call \<Rightarrow> int \<Rightarrow> plan result) \<Rightarrow> (plan option \<times> bool) planio" where
  "repair_tool_call_tree_locked E k tree updater =
     (let desired_ids = tool_call_ids tree in
      if list_ex (\<lambda>i. i \<le> 0) desired_ids \<or> \<not> distinct desired_ids
      then raiseE (Exn ValueError ''repaired tool-call tree requires unique positive ids'')
      else plan_lock E (bindE (read_plan_unlocked E k) (\<lambda>read.
        case read of
          None \<Rightarrow> retE (None, False)
        | Some p \<Rightarrow>
            bindE read_clock (\<lambda>now.
              let repaired = map_tree (\<lambda>f. f\<lparr>tl_updated_at := now\<rparr>) tree in
              bindE (liftE (locate_repaired p repaired now)) (\<lambda>(q, pl).
              bindE (liftE (updater q pl repaired now)) (\<lambda>q'.
                if list_all (\<lambda>i. count_list (map tool_call_id (iter_tool_calls q')) i = 1) desired_ids
                then bindE (store_scoped E k q') (\<lambda>stored. retE (Some stored, True))
                else raiseE (Exn RuntimeError ''invalid tool-call ids after repairing tree'')))))))"

definition update_tool_call_tree_locked ::
  "plan_env \<Rightarrow> plan_editor \<Rightarrow> int \<Rightarrow> (plan \<Rightarrow> place \<Rightarrow> int \<Rightarrow> plan result) \<Rightarrow> (plan option \<times> bool) planio" where
  "update_tool_call_tree_locked E k tid updater =
     plan_lock E (bindE (read_plan_unlocked E k) (\<lambda>read.
       case read of
         None \<Rightarrow> retE (None, False)
       | Some p \<Rightarrow>
           (case get_tool_call p tid of
              None \<Rightarrow> retE (Some p, False)
            | Some pl \<Rightarrow>
                bindE read_clock (\<lambda>now.
                bindE (liftE (updater p pl now)) (\<lambda>q.
                bindE (store_scoped E k
                  (propagate_updated_at tid now (update_at pl (map_call (\<lambda>f. f\<lparr>tl_updated_at := now\<rparr>)) q))) (\<lambda>stored.
                retE (Some stored, True)))))))"

fun remove_in_steps :: "int \<Rightarrow> int \<Rightarrow> plan_step list \<Rightarrow> int list \<times> plan_step list" where
  "remove_in_steps tid now [] = ([], [])"
| "remove_in_steps tid now (s # ss) =
     (case remove_call tid now (ps_tool_calls s) of (ids, calls) \<Rightarrow>
        if ids \<noteq> [] then (ids, s\<lparr>ps_tool_calls := calls, ps_updated_at := now\<rparr> # ss)
        else case remove_in_steps tid now ss of (ids', ss') \<Rightarrow> (ids', s\<lparr>ps_tool_calls := calls\<rparr> # ss'))"

definition remove_tool_call_locked ::
  "plan_env \<Rightarrow> plan_editor \<Rightarrow> int \<Rightarrow> (plan \<Rightarrow> place \<Rightarrow> bool) option \<Rightarrow> (plan option \<times> int list) planio" where
  "remove_tool_call_locked E k tid predicate =
     plan_lock E (bindE (read_plan_unlocked E k) (\<lambda>read.
       case read of
         None \<Rightarrow> retE (None, [])
       | Some p \<Rightarrow>
           if (case predicate of
                 None \<Rightarrow> False
               | Some test \<Rightarrow> (case get_tool_call p tid of None \<Rightarrow> True | Some pl \<Rightarrow> \<not> test p pl))
           then retE (Some p, [])
           else bindE read_clock (\<lambda>now.
             case remove_in_steps tid now (pn_steps p) of (ids, steps) \<Rightarrow>
               if ids = [] then retE (Some p, [])
               else bindE (store_scoped E k (p\<lparr>pn_steps := steps\<rparr>)) (\<lambda>stored. retE (Some stored, ids)))))"


definition get_plan :: "plan_env \<Rightarrow> plan_editor \<Rightarrow> plan option planio" where
  "get_plan E k = read_plan E k"

definition editor_is_plan_cancelled :: "plan_env \<Rightarrow> plan_editor \<Rightarrow> bool planio" where
  "editor_is_plan_cancelled E k =
     bindE (get_plan E k) (\<lambda>read. retE (case read of None \<Rightarrow> False | Some p \<Rightarrow> is_cancelled p))"

definition update_plan :: "plan_env \<Rightarrow> plan_editor \<Rightarrow> plan \<Rightarrow> unit planio" where
  "update_plan E k p =
     (let scoped = ensure_plan_scope k p in
      thenE (replace_plan_locked E k scoped) (notify_plan_updated E scoped))"

definition create_tool_call ::
  "plan_env \<Rightarrow> plan_editor \<Rightarrow> string \<Rightarrow> string \<Rightarrow> tool_execution_info option \<Rightarrow> int option \<Rightarrow> int
     \<Rightarrow> (string, string) dict \<Rightarrow> tool_call_status \<Rightarrow> int planio" where
  "create_tool_call E k name initial_message info parent_id index display status0 =
     (let status = (if status0 = TS_UNKNOWN then TS_RUNNING else status0) in
      bindE (create_tool_call_locked E k name initial_message info parent_id index display status) (\<lambda>(stored, new_id).
        case stored of
          Some p \<Rightarrow>
            if new_id \<noteq> 0
            then thenE (record_tool_call_for_status_tracking new_id status)
                   (thenE (notify_plan_updated E p) (retE new_id))
            else retE new_id
        | None \<Rightarrow> retE new_id))"

text \<open>\<^verbatim>\<open>try: notify except Exception: log\<close>, as the operations on trees do.\<close>

definition notify_quietly :: "plan_env \<Rightarrow> plan \<Rightarrow> unit planio" where
  "notify_quietly E p = suppressE (notify_plan_updated E p)"

definition repair_tool_call_tree ::
  "plan_env \<Rightarrow> plan_editor \<Rightarrow> tool_call \<Rightarrow> (plan \<Rightarrow> place \<Rightarrow> tool_call \<Rightarrow> int \<Rightarrow> plan result) \<Rightarrow> bool planio" where
  "repair_tool_call_tree E k tree updater =
     bindE (repair_tool_call_tree_locked E k tree updater) (\<lambda>(stored, repaired).
       case stored of
         Some p \<Rightarrow> if repaired then thenE (notify_quietly E p) (retE True) else retE False
       | None \<Rightarrow> retE False)"

definition update_tool_call ::
  "plan_env \<Rightarrow> plan_editor \<Rightarrow> int \<Rightarrow> (tool_call \<Rightarrow> tool_call result) \<Rightarrow> tool_call option planio" where
  "update_tool_call E k tid updater =
     (if tid = 0 then retE None
      else bindE (update_tool_call_locked E k tid updater) (\<lambda>(stored, t).
        case (stored, t) of
          (Some p, Some _) \<Rightarrow> thenE (notify_plan_updated E p) (retE t)
        | _ \<Rightarrow> retE t))"

definition update_tool_call_tree ::
  "plan_env \<Rightarrow> plan_editor \<Rightarrow> int \<Rightarrow> (plan \<Rightarrow> place \<Rightarrow> int \<Rightarrow> plan result) \<Rightarrow> bool planio" where
  "update_tool_call_tree E k tid updater =
     (if tid = 0 then retE False
      else bindE (update_tool_call_tree_locked E k tid updater) (\<lambda>(stored, updated).
        case stored of
          Some p \<Rightarrow> if updated then thenE (notify_quietly E p) (retE True) else retE False
        | None \<Rightarrow> retE False))"

definition remove_tool_call ::
  "plan_env \<Rightarrow> plan_editor \<Rightarrow> int \<Rightarrow> (plan \<Rightarrow> place \<Rightarrow> bool) option \<Rightarrow> bool planio" where
  "remove_tool_call E k tid predicate =
     (if tid = 0 then retE False
      else bindE (remove_tool_call_locked E k tid predicate) (\<lambda>(stored, removed_ids).
        case stored of
          Some p \<Rightarrow>
            if removed_ids = [] then retE False
            else thenE (discard_tool_calls_from_status_tracking removed_ids)
                   (thenE (notify_quietly E p) (retE True))
        | None \<Rightarrow> retE False))"

definition update_tool_call_message :: "plan_env \<Rightarrow> plan_editor \<Rightarrow> int \<Rightarrow> string \<Rightarrow> tool_call option planio" where
  "update_tool_call_message E k tid message =
     update_tool_call E k tid (\<lambda>t. Inr (map_call (\<lambda>f. f\<lparr>tl_message := message\<rparr>) t))"

definition update_tool_call_status :: "plan_env \<Rightarrow> plan_editor \<Rightarrow> int \<Rightarrow> tool_call_status \<Rightarrow> tool_call option planio" where
  "update_tool_call_status E k tid status =
     update_tool_call E k tid (\<lambda>t. Inr (map_call (\<lambda>f. f\<lparr>tl_tool_call_status := status\<rparr>) t))"

definition update_tool_call_status_if_running :: "plan_env \<Rightarrow> plan_editor \<Rightarrow> int \<Rightarrow> tool_call_status \<Rightarrow> tool_call option planio" where
  "update_tool_call_status_if_running E k tid status =
     update_tool_call E k tid (\<lambda>t. Inr (if call_status t = TS_RUNNING
                                          then map_call (\<lambda>f. f\<lparr>tl_tool_call_status := status\<rparr>) t else t))"

definition update_tool_call_deliverable ::
  "plan_env \<Rightarrow> plan_editor \<Rightarrow> int \<Rightarrow> tool_deliverable list \<Rightarrow> bool \<Rightarrow> tool_call option planio" where
  "update_tool_call_deliverable E k tid items appending =
     update_tool_call E k tid (\<lambda>t. Inr (map_call (\<lambda>f.
       f\<lparr>tl_deliverables := (if appending then tl_deliverables f @ items else items)\<rparr>) t))"

subsection \<open>Identifiers\<close>

definition plan_ids :: "plan \<Rightarrow> int list" where
  "plan_ids p = map tool_call_id (iter_tool_calls p)"

lemma map_id_tree: "map tool_call_id (iter_tool_call_tree t) = tool_call_ids t"
  by (induction t) (auto simp: map_concat comp_def intro!: arg_cong [where f = concat])

lemma plan_ids_concat: "plan_ids p = concat (map (\<lambda>s. concat (map tool_call_ids (ps_tool_calls s))) (pn_steps p))"
  by (simp add: plan_ids_def iter_tool_calls_def map_concat comp_def map_id_tree)

lemma tool_call_ids_map_call: "tl_tool_call_id (f (call_fields t)) = tool_call_id t \<Longrightarrow> tool_call_ids (map_call f t) = tool_call_ids t"
  by (cases t) (simp add: map_call_def)

lemma tool_call_ids_map_tree [simp]: "(\<And>f. tl_tool_call_id (g f) = tl_tool_call_id f) \<Longrightarrow> tool_call_ids (map_tree g t) = tool_call_ids t"
  by (induction t) (auto simp: comp_def intro!: arg_cong [where f = concat])

lemma find_and_mark_ids:
  "tool_call_ids (snd (find_and_mark now tid t)) = tool_call_ids t"
  "concat (map tool_call_ids (snd (find_and_mark_list now tid ts))) = concat (map tool_call_ids ts)"
  by (induction now tid t and now tid ts rule: find_and_mark_find_and_mark_list.induct)
    (auto split: prod.splits)

lemma find_and_mark_list_ids:
  "find_and_mark_list now tid ts = (b, ts') \<Longrightarrow> concat (map tool_call_ids ts') = concat (map tool_call_ids ts)"
  using find_and_mark_ids(2) [of now tid ts] by simp

lemma propagate_ids [simp]: "plan_ids (propagate_updated_at tid now p) = plan_ids p"
proof -
  have "concat (map (\<lambda>s. concat (map tool_call_ids (ps_tool_calls s))) (propagate_steps now tid ss))
          = concat (map (\<lambda>s. concat (map tool_call_ids (ps_tool_calls s))) ss)" for ss
    by (induction ss) (auto split: prod.splits dest: find_and_mark_list_ids)
  then show ?thesis by (simp add: plan_ids_concat propagate_updated_at_def)
qed

lemma scope_ids [simp]: "plan_ids (ensure_plan_scope k p) = plan_ids p"
  by (simp add: plan_ids_concat ensure_plan_scope_def)

lemma analyzed_ids [simp]: "plan_ids (mark_failed_analyzing_tool_calls_as_analyzed p) = plan_ids p"
  by (simp add: plan_ids_concat mark_failed_analyzing_tool_calls_as_analyzed_def comp_def)

lemma to_cancelled_ids [simp]: "plan_ids (to_cancelled p) = plan_ids p"
proof -
  have "map (\<lambda>s. concat (map tool_call_ids (ps_tool_calls s))) (cancel_steps b ss)
          = map (\<lambda>cs. concat (map tool_call_ids cs)) (map ps_tool_calls (cancel_steps b ss))" for b ss
    by simp
  then show ?thesis by (simp add: plan_ids_concat to_cancelled_def cancel_steps_keeps comp_def)
qed


lemma mset_concat_update:
  "i < length xs \<Longrightarrow> mset (g x) = mset (g (xs ! i)) + M \<Longrightarrow>
     mset (concat (map g (xs[i := x]))) = mset (concat (map g xs)) + M"
proof (induction xs arbitrary: i)
  case (Cons y ys)
  then show ?case by (cases i) (simp_all add: union_ac)
qed simp

lemma update_at_ids:
  assumes "place_ok p pl" and "mset (tool_call_ids (f (call_at p pl))) = mset (tool_call_ids (call_at p pl)) + M"
  shows "mset (plan_ids (update_at pl f p)) = mset (plan_ids p) + M"
proof -
  obtain i j k where pl: "pl = (i, j, k)" by (cases pl)
  let ?s = "pn_steps p ! i" and ?g = "\<lambda>s. concat (map tool_call_ids (ps_tool_calls s))"
  let ?c = "ps_tool_calls ?s ! j"
  let ?c' = "case k of None \<Rightarrow> f ?c | Some k \<Rightarrow> ToolCall (call_fields ?c) ((sub_calls ?c)[k := f (sub_calls ?c ! k)])"
  have "mset (tool_call_ids ?c') = mset (tool_call_ids ?c) + M"
  proof (cases k)
    case None
    with assms(2) pl show ?thesis by (simp add: call_at_def)
  next
    case (Some m)
    with assms pl have "mset (concat (map tool_call_ids ((sub_calls ?c)[m := f (sub_calls ?c ! m)])))
        = mset (concat (map tool_call_ids (sub_calls ?c))) + M"
      by (intro mset_concat_update) (simp_all add: place_ok_def call_at_def)
    with Some show ?thesis by (cases ?c) simp
  qed
  then have "mset (?g (?s\<lparr>ps_tool_calls := (ps_tool_calls ?s)[j := ?c']\<rparr>)) = mset (?g ?s) + M"
    using assms(1) pl mset_concat_update [of j "ps_tool_calls ?s" tool_call_ids ?c' M] by (simp add: place_ok_def)
  then show ?thesis
    using assms(1) pl mset_concat_update [of i "pn_steps p" ?g] by (simp add: update_at_def Let_def place_ok_def plan_ids_concat)
qed

lemma append_to_open_step_ids:
  "append_to_open_step c now ss = Some ss' \<Longrightarrow>
     mset (concat (map (\<lambda>s. concat (map tool_call_ids (ps_tool_calls s))) ss'))
       = mset (concat (map (\<lambda>s. concat (map tool_call_ids (ps_tool_calls s))) ss)) + mset (tool_call_ids c)"
  by (induction ss arbitrary: ss') (auto simp: append_to_step_def union_ac split: if_splits)

lemma append_top_level_ids: "mset (plan_ids (append_top_level_tool_call c now p)) = mset (plan_ids p) + mset (tool_call_ids c)"
proof (cases "append_to_open_step c now (pn_steps p)")
  case None
  have "pn_steps p \<noteq> [] \<Longrightarrow> mset (concat (map g (pn_steps p))) = mset (concat (map g (butlast (pn_steps p)))) + mset (g (last (pn_steps p)))"
    for g :: "plan_step \<Rightarrow> int list"
    by (subst append_butlast_last_id [symmetric], assumption) (simp only: map_append concat_append mset_append, simp)
  with None show ?thesis
    by (auto simp: append_top_level_tool_call_def plan_ids_concat append_to_step_def)
qed (simp add: append_top_level_tool_call_def plan_ids_concat append_to_open_step_ids)

lemma fold_max_ids:
  "(m :: int) \<le> fold (\<lambda>c m. if tool_call_id c > m then tool_call_id c else m) cs m"
  "c \<in> set cs \<Longrightarrow> tool_call_id c \<le> fold (\<lambda>c m. if tool_call_id c > m then tool_call_id c else m) cs m"
proof (induction cs arbitrary: m)
  case (Cons d ds)
  { case 1
    show ?case using Cons.IH(1) [of "if tool_call_id d > m then tool_call_id d else m"] by (auto split: if_splits) }
  { case 2
    then show ?case
      using Cons.IH(1) [of "if tool_call_id d > m then tool_call_id d else m"]
        Cons.IH(2) [of "if tool_call_id d > m then tool_call_id d else m"] by (auto split: if_splits) }
qed simp_all

lemma alloc_fresh:
  assumes "alloc_tool_call_id p w = (Inr tid, w')"
  shows "pw_tool_call_id w < tid" "\<forall>i \<in> set (plan_ids p). i < tid" "w' = w\<lparr>pw_tool_call_id := tid\<rparr>"
  using assms fold_max_ids(1) [of "pw_tool_call_id w" "iter_tool_calls p"]
    fold_max_ids(2) [of _ "iter_tool_calls p" "pw_tool_call_id w"]
  by (force simp: alloc_tool_call_id_def Let_def plan_ids_def)+


subsection \<open>What an operation leaves on disk\<close>

definition reads_plan :: "plan_env \<Rightarrow> plan_editor \<Rightarrow> plan_world \<Rightarrow> plan \<Rightarrow> bool" where
  "reads_plan E k w p \<longleftrightarrow> read_plan_unlocked E k w = (Inr (Some p), w)"

abbreviation time_now :: "plan_world \<Rightarrow> int" where
  "time_now w \<equiv> pw_clock w (pw_reads w)"

text \<open>
  \<open>wrote E k w w' Q\<close>: between the worlds, the plan files are unchanged, or the file of the turn
  holds a plan with \<open>Q\<close> and all other files are as before.
\<close>

definition wrote :: "plan_env \<Rightarrow> plan_editor \<Rightarrow> plan_world \<Rightarrow> plan_world \<Rightarrow> (plan \<Rightarrow> bool) \<Rightarrow> bool" where
  "wrote E k w w' Q \<longleftrightarrow>
     pw_files w' = pw_files w \<or> (\<exists>q. pw_files w' = dict_set k (pv_dump E q) (pw_files w) \<and> Q q)"

lemma wrote_refl [simp]: "pw_files w' = pw_files w \<Longrightarrow> wrote E k w w' Q"
  by (simp add: wrote_def)

lemma wrote_mono: "wrote E k w w' Q \<Longrightarrow> (\<And>q. Q q \<Longrightarrow> R q) \<Longrightarrow> wrote E k w w' R"
  by (auto simp: wrote_def)

lemma read_plan_unlocked_world: "snd (read_plan_unlocked E k w) = w"
  by (auto simp: read_plan_unlocked_def is_plan_cancelled_marker_def bindE_apply split: option.splits sum.splits)

lemma locked_cases:
  assumes "plan_lock E (bindE (read_plan_unlocked E k) body) w = (r, w')"
  obtains (failed) e where "r = Inl e" "w' = w"
  | (absent) "body None w = (r, w')"
  | (present) p where "reads_plan E k w p" "body (Some p) w = (r, w')"
proof (cases "pv_lock E w")
  case None
  obtain q w1 where q: "read_plan_unlocked E k w = (q, w1)" by (cases "read_plan_unlocked E k w")
  with read_plan_unlocked_world [of E k w] have w1: "w1 = w" by simp
  show thesis
  proof (cases q)
    case (Inl e)
    with None q w1 assms show thesis by (intro failed) (auto simp: plan_lock_def)
  next
    case (Inr x)
    with None q w1 assms show thesis
      by (cases x) (auto simp: plan_lock_def reads_plan_def intro: absent present)
  qed
qed (use assms failed in \<open>auto simp: plan_lock_def\<close>)

lemma extra_key_scope [simp]: "extra_key ((pn_extra (ensure_plan_scope k p))\<lparr>px_updated_at := t\<rparr>) = k"
  by (simp add: extra_key_def ensure_plan_scope_def)

lemma scope_steps [simp]: "pn_steps (ensure_plan_scope k p) = pn_steps p"
  by (simp add: ensure_plan_scope_def)

lemma store_scoped_cases:
  assumes "store_scoped E k p w = (r, w')"
  obtains (error) e where "r = Inl e" "pw_files w' = pw_files w"
  | (written) q where "r = Inr q" "pw_files w' = dict_set k (pv_dump E q) (pw_files w)" "pn_steps q = pn_steps p"
  using assms
  by (auto simp: store_scoped_def write_plan_unlocked_def plan_fs_write_def read_clock_def bindE_apply Let_def
      split: option.splits)

lemma stored_then_cases:
  assumes "bindE (store_scoped E k p) (\<lambda>q. retE (f q)) w = (r, w')"
  obtains (error) e where "r = Inl e" "pw_files w' = pw_files w"
  | (written) q where "r = Inr (f q)" "pw_files w' = dict_set k (pv_dump E q) (pw_files w)" "pn_steps q = pn_steps p"
proof -
  obtain s w1 where s: "store_scoped E k p w = (s, w1)" by (meson surj_pair)
  from store_scoped_cases [OF s] show thesis
    using assms s error written by cases auto
qed

lemma read_clock_bind [simp]: "bindE read_clock f w = f (time_now w) (w\<lparr>pw_reads := Suc (pw_reads w)\<rparr>)"
  by (simp add: read_clock_def bindE_apply)

lemma liftE_bind: "bindE (liftE x) f w = (case x of Inl e \<Rightarrow> (Inl e, w) | Inr a \<Rightarrow> f a w)"
  by (simp add: bindE_apply split: sum.splits)

lemma notify_files [simp]: "pw_files (snd (notify_plan_updated E p w)) = pw_files w"
  by (simp add: notify_plan_updated_def Let_def split: option.splits)

lemma notify_quietly_files [simp]: "pw_files (snd (notify_quietly E p w)) = pw_files w"
proof -
  obtain r w1 where n: "notify_plan_updated E p w = (r, w1)" by (cases "notify_plan_updated E p w")
  with notify_files [of E p w] show ?thesis
    by (cases r) (auto simp: notify_quietly_def suppressE_def catch_Exception_def)
qed

lemma update_tree_locked_cases:
  assumes "update_tool_call_tree_locked E k tid upd w = (r, w')"
  obtains (unchanged) "pw_files w' = pw_files w" "\<forall>q. r \<noteq> Inr (Some q, True)"
  | (updated) p pl u q where "reads_plan E k w p" "get_tool_call p tid = Some pl" "upd p pl (time_now w) = Inr u"
      "pn_steps q = pn_steps (propagate_updated_at tid (time_now w) (update_at pl (map_call (\<lambda>f. f\<lparr>tl_updated_at := time_now w\<rparr>)) u))"
      "r = Inr (Some q, True)" "pw_files w' = dict_set k (pv_dump E q) (pw_files w)"
  using assms [unfolded update_tool_call_tree_locked_def]
proof (cases rule: locked_cases)
  case (present p)
  show thesis
  proof (cases "get_tool_call p tid")
    case None
    with present show thesis by (intro unchanged) auto
  next
    case (Some pl)
    show thesis
    proof (cases "upd p pl (time_now w)")
      case (Inl e)
      with present Some show thesis by (intro unchanged) (auto simp: liftE_bind)
    next
      case (Inr u)
      with present(2) Some have
        "bindE (store_scoped E k (propagate_updated_at tid (time_now w)
           (update_at pl (map_call (\<lambda>f. f\<lparr>tl_updated_at := time_now w\<rparr>)) u))) (\<lambda>stored. retE (Some stored, True))
           (w\<lparr>pw_reads := Suc (pw_reads w)\<rparr>) = (r, w')"
        by (simp add: liftE_bind)
      then show thesis
        by (cases rule: stored_then_cases) (use present(1) Some Inr in \<open>auto intro: unchanged updated\<close>)
    qed
  qed
qed (auto intro: unchanged)

lemma repair_locked_cases:
  assumes "repair_tool_call_tree_locked E k tree upd w = (r, w')"
  obtains (unchanged) "pw_files w' = pw_files w" "\<forall>q. r \<noteq> Inr (Some q, True)"
  | (repaired) p q0 pl u q where "reads_plan E k w p"
      "distinct (tool_call_ids tree)" "\<forall>i \<in> set (tool_call_ids tree). 0 < i"
      "locate_repaired p (map_tree (\<lambda>f. f\<lparr>tl_updated_at := time_now w\<rparr>) tree) (time_now w) = Inr (q0, pl)"
      "upd q0 pl (map_tree (\<lambda>f. f\<lparr>tl_updated_at := time_now w\<rparr>) tree) (time_now w) = Inr u"
      "\<forall>i \<in> set (tool_call_ids tree). count_list (plan_ids u) i = 1"
      "pn_steps q = pn_steps u" "r = Inr (Some q, True)" "pw_files w' = dict_set k (pv_dump E q) (pw_files w)"
proof (cases "list_ex (\<lambda>i. i \<le> 0) (tool_call_ids tree) \<or> \<not> distinct (tool_call_ids tree)")
  case True
  with assms show thesis by (intro unchanged) (auto simp: repair_tool_call_tree_locked_def)
next
  case False
  let ?now = "time_now w" and ?w = "w\<lparr>pw_reads := Suc (pw_reads w)\<rparr>"
  let ?tree = "map_tree (\<lambda>f. f\<lparr>tl_updated_at := ?now\<rparr>) tree"
  show thesis
    using assms [unfolded repair_tool_call_tree_locked_def Let_def if_not_P [OF False]]
  proof (cases rule: locked_cases)
    case (present p)
    show thesis
    proof (cases "locate_repaired p ?tree ?now")
      case (Inl e)
      with present show thesis by (intro unchanged) (auto simp: liftE_bind)
    next
      case (Inr b)
      then obtain q0 pl where l: "locate_repaired p ?tree ?now = Inr (q0, pl)" by (metis surj_pair)
      show thesis
      proof (cases "upd q0 pl ?tree ?now")
        case (Inl e)
        with present l show thesis by (intro unchanged) (auto simp: liftE_bind)
      next
        case (Inr u)
        show thesis
        proof (cases "list_all (\<lambda>i. count_list (map tool_call_id (iter_tool_calls u)) i = 1) (tool_call_ids tree)")
          case True
          with present(2) l Inr have
            "bindE (store_scoped E k u) (\<lambda>stored. retE (Some stored, True)) ?w = (r, w')"
            by (simp add: liftE_bind)
          then show thesis
            by (cases rule: stored_then_cases)
              (use present(1) l Inr True False in \<open>auto intro: unchanged repaired simp: list_all_iff list_ex_iff plan_ids_def not_le\<close>)
        qed (use present(2) l Inr in \<open>auto intro: unchanged simp: liftE_bind\<close>)
      qed
    qed
  qed (auto intro: unchanged)
qed

lemma create_locked_cases:
  assumes "create_tool_call_locked E k name msg info parent_id index display status w = (r, w')" and "0 \<le> pw_tool_call_id w"
  obtains (unchanged) "pw_files w' = pw_files w" "r = Inr (None, 0) \<or> (\<exists>e. r = Inl e)"
  | (created) p tid q where "reads_plan E k w p" "0 < tid" "\<forall>i \<in> set (plan_ids p). i < tid"
      "mset (plan_ids q) = add_mset tid (mset (plan_ids p))" "r = Inr (Some q, tid)"
      "pw_files w' = dict_set k (pv_dump E q) (pw_files w)"
  using assms(1) [unfolded create_tool_call_locked_def]
proof (cases rule: locked_cases)
  case (present p)
  obtain tid w1 where a: "alloc_tool_call_id p w = (Inr tid, w1)"
    by (simp add: alloc_tool_call_id_def Let_def)
  note fresh = alloc_fresh [OF a]
  let ?p = "if status = TS_RETRY_RUNNING then mark_failed_analyzing_tool_calls_as_analyzed p else p"
  let ?c = "ToolCall \<lparr>tl_tool_name = name, tl_message = msg,
              tl_execution_info = (case info of Some e \<Rightarrow> e | None \<Rightarrow> no_execution_info), tl_deliverables = [],
              tl_tool_call_id = tid, tl_sub_call_index = index, tl_display = display,
              tl_tool_call_status = status, tl_updated_at = time_now w1\<rparr> []"
  have finish: thesis
    if b: "bindE (store_scoped E k u) (\<lambda>q. retE (Some q, tid)) (w1\<lparr>pw_reads := Suc (pw_reads w1)\<rparr>) = (r, w')"
      and m: "mset (plan_ids u) = add_mset tid (mset (plan_ids p))" for u
    using b
  proof (cases rule: stored_then_cases)
    case (written q)
    with m have "mset (plan_ids q) = add_mset tid (mset (plan_ids p))" by (simp add: plan_ids_concat)
    with written present(1) fresh assms(2) show thesis by (intro created [of p tid q]) auto
  qed (use fresh(3) in \<open>auto intro: unchanged\<close>)
  show thesis
  proof (cases parent_id)
    case None
    with present(2) a show thesis
      by (intro finish [of "append_top_level_tool_call ?c (time_now w1) ?p"]) (simp_all add: Let_def append_top_level_ids)
  next
    case (Some pid)
    show thesis
    proof (cases "get_tool_call ?p pid")
      case None
      with Some present(2) a fresh(3) show thesis by (intro unchanged) (auto simp: Let_def)
    next
      case (Some pl)
      then have ok: "place_ok ?p pl" using get_tool_call_sound by blast
      have "mset (plan_ids (update_at pl (\<lambda>t. ToolCall (call_fields t) (sub_calls t @ [?c])) ?p)) = mset (plan_ids ?p) + {#tid#}"
        by (rule update_at_ids [OF ok]) (cases "call_at ?p pl", simp)
      with Some \<open>parent_id = _\<close> present(2) a show thesis
        by (intro finish [of "propagate_updated_at pid (time_now w1) (update_at pl (\<lambda>t. ToolCall (call_fields t) (sub_calls t @ [?c])) ?p)"])
          (simp_all add: Let_def split: if_splits)
    qed
  qed
qed (auto intro: unchanged)


lemma update_tree_cases:
  assumes "update_tool_call_tree E k tid upd w = (r, w')"
  obtains (unchanged) "pw_files w' = pw_files w" "r \<noteq> Inr True"
  | (updated) p pl u q where "reads_plan E k w p" "get_tool_call p tid = Some pl" "upd p pl (time_now w) = Inr u"
      "pn_steps q = pn_steps (propagate_updated_at tid (time_now w) (update_at pl (map_call (\<lambda>f. f\<lparr>tl_updated_at := time_now w\<rparr>)) u))"
      "pw_files w' = dict_set k (pv_dump E q) (pw_files w)"
proof (cases "tid = 0")
  case True
  with assms show thesis by (intro unchanged) (auto simp: update_tool_call_tree_def)
next
  case False
  obtain s w1 where s: "update_tool_call_tree_locked E k tid upd w = (s, w1)" by (meson surj_pair)
  from s show thesis
  proof (cases rule: update_tree_locked_cases)
    case unchanged
    with False s assms show thesis
      by (intro that(1)) (auto simp: update_tool_call_tree_def bindE_apply split: sum.splits option.splits if_splits prod.splits)
  next
    case (updated p pl u q)
    obtain n w2 where n: "notify_quietly E q w1 = (n, w2)" by (meson surj_pair)
    with notify_quietly_files [of E q w1] have "pw_files w2 = pw_files w1" by simp
    with False s updated n assms show thesis
      by (intro that(2) [of p pl u q])
        (auto simp: update_tool_call_tree_def thenE_def bindE_apply split: sum.splits)
  qed
qed

lemma repair_tree_cases:
  assumes "repair_tool_call_tree E k tree upd w = (r, w')"
  obtains (unchanged) "pw_files w' = pw_files w" "r \<noteq> Inr True"
  | (repaired) p q0 pl u q where "reads_plan E k w p"
      "distinct (tool_call_ids tree)" "\<forall>i \<in> set (tool_call_ids tree). 0 < i"
      "locate_repaired p (map_tree (\<lambda>f. f\<lparr>tl_updated_at := time_now w\<rparr>) tree) (time_now w) = Inr (q0, pl)"
      "upd q0 pl (map_tree (\<lambda>f. f\<lparr>tl_updated_at := time_now w\<rparr>) tree) (time_now w) = Inr u"
      "\<forall>i \<in> set (tool_call_ids tree). count_list (plan_ids u) i = 1"
      "pn_steps q = pn_steps u" "pw_files w' = dict_set k (pv_dump E q) (pw_files w)"
proof -
  obtain s w1 where s: "repair_tool_call_tree_locked E k tree upd w = (s, w1)" by (meson surj_pair)
  from s show thesis
  proof (cases rule: repair_locked_cases)
    case unchanged
    with s assms show thesis
      by (intro that(1)) (auto simp: repair_tool_call_tree_def bindE_apply split: sum.splits option.splits if_splits prod.splits)
  next
    case (repaired p q0 pl u q)
    obtain n w2 where n: "notify_quietly E q w1 = (n, w2)" by (meson surj_pair)
    with notify_quietly_files [of E q w1] have "pw_files w2 = pw_files w1" by simp
    with s repaired n assms show thesis
      by (intro that(2) [of p q0 pl u q])
        (auto simp: repair_tool_call_tree_def thenE_def bindE_apply split: sum.splits)
  qed
qed

subsection \<open>The marker of cancellation\<close>

lemma reads_plan_cong:
  "pw_files v = pw_files w \<Longrightarrow> pw_cancelled v = pw_cancelled w \<Longrightarrow> reads_plan E k v p = reads_plan E k w p"
  by (auto simp: reads_plan_def read_plan_unlocked_def is_plan_cancelled_marker_def bindE_apply
      split: option.splits if_splits sum.splits)

lemma preserves_plan_lock [preserves_intros]: "preserves P m \<Longrightarrow> preserves P (plan_lock E m)"
  by (auto simp: preserves_def plan_lock_def split: option.splits)

lemma marker_kept [preserves_intros]:
  "preserves (\<lambda>w. pw_cancelled w = C) read_clock"
  "preserves (\<lambda>w. pw_cancelled w = C) (read_plan_unlocked E k)"
  "preserves (\<lambda>w. pw_cancelled w = C) (plan_fs_write E k raw)"
  "preserves (\<lambda>w. pw_cancelled w = C) (notify_plan_updated E p)"
  by (auto simp: preserves_def read_clock_def read_plan_unlocked_world plan_fs_write_def notify_plan_updated_def Let_def
      split: option.splits)

lemma store_scoped_keeps_marker [preserves_intros]: "preserves (\<lambda>w. pw_cancelled w = C) (store_scoped E k p)"
  unfolding store_scoped_def write_plan_unlocked_def Let_def by (intro preserves_intros)

lemma update_tree_keeps_marker: "preserves (\<lambda>w. pw_cancelled w = C) (update_tool_call_tree E k tid upd)"
  unfolding update_tool_call_tree_def update_tool_call_tree_locked_def notify_quietly_def
  by (intro preserves_intros)

text \<open>
  C29. A new tool call gets an identifier that no other call of the plan has, whatever counter the
  editor has cached, so that several editors can append to one turn. When \<^verbatim>\<open>create_tool_call\<close> returns an
  identifier other than zero, the file of the turn holds the identifiers it had and that one, which is
  larger than all of them. When nothing was written, it returns zero or raises; and when it raises after
  the file was written, the file has one new identifier all the same.
\<close>

theorem created_call_fresh:
  assumes "create_tool_call E k name msg info parent_id index display status w = (r, w')" and "0 \<le> pw_tool_call_id w"
  shows "(pw_files w' = pw_files w \<and> (r = Inr 0 \<or> (\<exists>e. r = Inl e))) \<or>
    (\<exists>p q tid. reads_plan E k w p \<and> pw_files w' = dict_set k (pv_dump E q) (pw_files w)
       \<and> 0 < tid \<and> (\<forall>i \<in> set (plan_ids p). i < tid)
       \<and> mset (plan_ids q) = add_mset tid (mset (plan_ids p))
       \<and> (r = Inr tid \<or> (\<exists>e. r = Inl e)))"
proof -
  let ?st = "if status = TS_UNKNOWN then TS_RUNNING else status"
  obtain s w1 where s: "create_tool_call_locked E k name msg info parent_id index display ?st w = (s, w1)" by (meson surj_pair)
  from s assms(2) show ?thesis
  proof (cases rule: create_locked_cases)
    case unchanged
    with s assms(1) show ?thesis by (auto simp: create_tool_call_def bindE_apply Let_def)
  next
    case (created p tid q)
    obtain u w2 where u: "record_tool_call_for_status_tracking tid ?st w1 = (Inr u, w2)" "pw_files w2 = pw_files w1"
      by (auto simp: record_tool_call_for_status_tracking_def split: option.splits)
    obtain n w3 where n: "notify_plan_updated E q w2 = (n, w3)" by (meson surj_pair)
    with notify_files [of E q w2] have "pw_files w3 = pw_files w2" by simp
    with s created u n assms(1) have "pw_files w' = dict_set k (pv_dump E q) (pw_files w) \<and> (r = Inr tid \<or> (\<exists>e. r = Inl e))"
      by (cases n) (auto simp: create_tool_call_def thenE_def bindE_apply Let_def)
    with created show ?thesis by blast
  qed
qed

subsection \<open>Rewriting a plan\<close>

lemma item_status_known:
  assumes "validate_plan_write_input raw = Inr wplan" and "it \<in> set (wi_items wplan)"
  shows "it_status it \<in> set ITEM_STATUSES"
proof -
  have item: "validate_plan_item a = Inr b \<Longrightarrow> it_status b \<in> set ITEM_STATUSES" for a b
    by (auto simp: validate_plan_item_def Let_def split: if_splits)
  from assms(1) have "list_all2 (\<lambda>a b. validate_plan_item a = Inr b) (wi_items raw) (wi_items wplan)"
    by (auto simp: validate_plan_write_input_def rbind_Inr_iff rmap_Inr_iff split: if_splits)
  then have "list_all (\<lambda>b. it_status b \<in> set ITEM_STATUSES) (wi_items wplan)"
    by (induction rule: list_all2_induct) (auto intro: item)
  with assms(2) show ?thesis by (simp add: list_all_iff)
qed

lemma known_status: "s \<in> set ITEM_STATUSES \<Longrightarrow> plan_step_status_from_string s \<notin> {PS_UNKNOWN, PS_CANCELLED}"
  by (auto simp: ITEM_STATUSES_def plan_step_status_from_string_def py_lower_def py_lower_char_def)

text \<open>What a round of the loop keeps of a step.\<close>

definition step_kept :: "plan_step \<Rightarrow> plan_step \<Rightarrow> bool" where
  "step_kept old new \<longleftrightarrow>
     ps_tool_calls new = ps_tool_calls old
     \<and> (ps_status old \<in> set FINISHED_STATUSES \<longrightarrow> ps_title new = ps_title old \<and> ps_status new \<in> set FINISHED_STATUSES)"

lemma rewrite_step_kept:
  assumes "rewrite_step i it s = Inr s'" and "it_status it \<in> set ITEM_STATUSES"
  shows "step_kept s s'"
  using assms(1) known_status [OF assms(2)]
  by (cases "plan_step_status_from_string (it_status it)")
    (auto simp: rewrite_step_def step_kept_def Let_def FINISHED_STATUSES_def RUNNING_STATUSES_def split: if_splits)

lemma rewrite_steps_kept:
  "rewrite_steps i its ss = Inr ss' \<Longrightarrow> \<forall>it \<in> set its. it_status it \<in> set ITEM_STATUSES \<Longrightarrow>
     length ss \<le> length ss' \<and> (\<forall>n < length ss. step_kept (ss ! n) (ss' ! n))"
proof (induction i its ss arbitrary: ss' rule: rewrite_steps.induct)
  case (3 i it its s ss)
  then obtain t ts where "rewrite_step i it s = Inr t" "rewrite_steps (Suc i) its ss = Inr ts" "ss' = t # ts"
    by (auto simp: rbind_Inr_iff)
  with 3 show ?case by (auto simp: nth_Cons rewrite_step_kept split: nat.splits)
qed (auto simp: step_kept_def)

text \<open>A step shows an item: its title and its status.\<close>

definition shows_item :: "plan_item_write \<Rightarrow> plan_step \<Rightarrow> bool" where
  "shows_item it s \<longleftrightarrow> ps_title s = it_title it \<and> ps_status s = plan_step_status_from_string (it_status it)"

lemma rewrite_steps_show:
  "rewrite_steps i its ss = Inr ss' \<Longrightarrow> length its \<le> length ss' \<and> (\<forall>n < length its. shows_item (its ! n) (ss' ! n))"
proof (induction i its ss arbitrary: ss' rule: rewrite_steps.induct)
  case (2 i it its)
  then obtain ts where "rewrite_steps (Suc i) its [] = Inr ts" "ss' = new_step it # ts" by (auto simp: rbind_Inr_iff)
  with 2 show ?case by (auto simp: nth_Cons shows_item_def new_step_def split: nat.splits)
next
  case (3 i it its s ss)
  then obtain t ts where t: "rewrite_step i it s = Inr t" "rewrite_steps (Suc i) its ss = Inr ts" "ss' = t # ts"
    by (auto simp: rbind_Inr_iff)
  have "shows_item it t" using t(1) by (auto simp: rewrite_step_def shows_item_def Let_def split: if_splits)
  with 3 t show ?case by (auto simp: nth_Cons split: nat.splits)
qed simp

lemma store_sparse_cases:
  assumes "store_sparse E k p w = (r, w')"
  obtains (error) e where "r = Inl e" "pw_files w' = pw_files w"
  | (written) q where "r = Inr q" "pw_files w' = dict_set k (pv_dump_sparse E q) (pw_files w)" "pn_steps q = pn_steps p"
  using assms by (auto simp: store_sparse_def plan_fs_write_def read_clock_def bindE_apply Let_def split: option.splits)


subsection \<open>Cancellation\<close>

lemma cancel_steps_cases:
  "(\<forall>s \<in> set ss. ps_status s \<in> {PS_COMPLETED, PS_FAILED}) \<or>
   (\<exists>pre s post. ss = pre @ s # post \<and> (\<forall>x \<in> set pre. ps_status x \<in> {PS_COMPLETED, PS_FAILED})
      \<and> ps_status s \<notin> {PS_COMPLETED, PS_FAILED})"
  using split_list_first_prop [of ss "\<lambda>s. ps_status s \<notin> {PS_COMPLETED, PS_FAILED}"] by blast

lemma is_cancelled_to_cancelled:
  "is_cancelled (to_cancelled p) \<longleftrightarrow>
     (\<exists>pre s post. pn_steps p = pre @ s # post
        \<and> (\<forall>x \<in> set pre. ps_status x = PS_COMPLETED) \<and> ps_status s \<notin> {PS_COMPLETED, PS_FAILED}
        \<and> (\<forall>x \<in> set post. ps_status x \<notin> {PS_UNKNOWN, PS_REQUIRE_HUMAN_INPUT, PS_FAILED}))"
  (is "?L \<longleftrightarrow> ?R")
proof
  assume ?R
  then obtain pre s post where e: "pn_steps p = pre @ s # post" "\<forall>x \<in> set pre. ps_status x = PS_COMPLETED"
    "ps_status s \<notin> {PS_COMPLETED, PS_FAILED}" "\<forall>x \<in> set post. ps_status x \<notin> {PS_UNKNOWN, PS_REQUIRE_HUMAN_INPUT, PS_FAILED}"
    by blast
  then have "pn_steps (to_cancelled p) = pre @ s\<lparr>ps_status := PS_CANCELLED\<rparr> # post"
    by (simp add: to_cancelled_def cancel_steps_split)
  with e show ?L by (auto simp: is_cancelled_iff)
next
  assume L: ?L
  consider "\<forall>s \<in> set (pn_steps p). ps_status s \<in> {PS_COMPLETED, PS_FAILED}"
    | pre s post where "pn_steps p = pre @ s # post" "\<forall>x \<in> set pre. ps_status x \<in> {PS_COMPLETED, PS_FAILED}"
        "ps_status s \<notin> {PS_COMPLETED, PS_FAILED}"
    using cancel_steps_cases [of "pn_steps p"] by blast
  then show ?R
  proof cases
    case 1
    then have "pn_steps (to_cancelled p) = pn_steps p" by (simp add: to_cancelled_def cancel_steps_closed)
    with 1 L show ?thesis by (auto simp: is_cancelled_iff)
  next
    case (2 pre s post)
    then have "pn_steps (to_cancelled p) = pre @ s\<lparr>ps_status := PS_CANCELLED\<rparr> # post"
      by (simp add: to_cancelled_def cancel_steps_split)
    with 2 L show ?thesis by (fastforce simp: is_cancelled_iff)
  qed
qed

text \<open>
  C28. When the running tasks of a turn see that the user has cancelled it: after the marker is
  placed, the editor reports the plan as cancelled exactly when a step is still open, every step
  before the first open one has completed, and no later step has failed or waits for the user. In
  particular a plan with a failed step is never reported as cancelled.
\<close>

theorem cancellation_seen_exactly:
  assumes "\<And>v. pv_lock E v = None"
    and "dict_get (pw_files w) k = Some raw" and "py_strip raw \<noteq> []" and "pv_load E raw = Inr p"
  shows "fst (editor_is_plan_cancelled E k (snd (cancel_plan E k w))) = Inr True \<longleftrightarrow>
    (\<exists>pre s post. pn_steps p = pre @ s # post
       \<and> (\<forall>x \<in> set pre. ps_status x = PS_COMPLETED) \<and> ps_status s \<notin> {PS_COMPLETED, PS_FAILED}
       \<and> (\<forall>x \<in> set post. ps_status x \<notin> {PS_UNKNOWN, PS_REQUIRE_HUMAN_INPUT, PS_FAILED}))"
proof -
  have "fst (editor_is_plan_cancelled E k (snd (cancel_plan E k w))) = Inr (is_cancelled (to_cancelled p))"
    using assms by (simp add: editor_is_plan_cancelled_def get_plan_def read_plan_def plan_lock_def cancel_plan_def
        write_cancelled_marker_def read_plan_unlocked_def is_plan_cancelled_marker_def bindE_apply)
  then show ?thesis by (simp add: is_cancelled_to_cancelled)
qed


subsection \<open>An example\<close>

definition demo_extra :: plan_extra where
  "demo_extra = no_plan_extra\<lparr>px_username := ''u'', px_agent_instance_id := 1, px_turn_id := 2, px_conversation_id := 3\<rparr>"

definition demo_call :: "int \<Rightarrow> tool_call" where
  "demo_call tid =
     ToolCall \<lparr>tl_tool_name = ''read'', tl_message = [], tl_execution_info = no_execution_info, tl_deliverables = [],
        tl_tool_call_id = tid, tl_sub_call_index = 0, tl_display = [], tl_tool_call_status = TS_RUNNING, tl_updated_at = 0\<rparr> []"

definition demo_step :: "string \<Rightarrow> plan_step_status \<Rightarrow> int list \<Rightarrow> plan_step" where
  "demo_step title st ids =
     \<lparr>ps_title = title, ps_tool_calls = map demo_call ids, ps_status = st, ps_updated_at = 0\<rparr>"

definition demo_plan :: plan where
  "demo_plan =
     \<lparr>pn_title = ''plan'', pn_steps = [demo_step ''a'' PS_COMPLETED [1], demo_step ''b'' PS_IN_PROGRESS [4]],
      pn_extra = demo_extra\<rparr>"

definition demo_env :: "plan \<Rightarrow> plan_env" where
  "demo_env p =
     \<lparr>pv_dump = \<lambda>_. ''{}'', pv_dump_sparse = \<lambda>_. ''{ }'', pv_load = \<lambda>_. Inr p, pv_lock = \<lambda>_. None, pv_write = \<lambda>_. None,
      pv_notify_cb = None\<rparr>"

definition demo_world :: plan_world where
  "demo_world =
     \<lparr>pw_files = [(extra_key demo_extra, ''plan'')], pw_cancelled = [], pw_clock = int, pw_reads = 0, pw_tool_call_id = 0,
      pw_has_plan_updates = False, pw_notified = [], pw_tracked = None\<rparr>"

lemma demo_strip [simp]: "py_strip ''plan'' = ''plan''"
  by (rule py_strip_stripped) (simp add: stripped_def py_isspace_def)

lemma demo_reads: "reads_plan (demo_env p) (extra_key demo_extra) demo_world p"
  by (simp add: reads_plan_def read_plan_unlocked_def is_plan_cancelled_marker_def demo_world_def demo_env_def bindE_apply)

lemma demo_create:
  "fst (create_tool_call (demo_env demo_plan) (extra_key demo_extra) ''n'' ''m'' None None 0 [] TS_RUNNING demo_world) = Inr 5"
  by code_simp

theorem created_call_fresh_witness:
  "\<exists>p q w'. create_tool_call (demo_env demo_plan) (extra_key demo_extra) ''n'' ''m'' None None 0 [] TS_RUNNING demo_world = (Inr 5, w')
     \<and> reads_plan (demo_env demo_plan) (extra_key demo_extra) demo_world p
     \<and> pw_files w' = dict_set (extra_key demo_extra) (pv_dump (demo_env demo_plan) q) (pw_files demo_world)
     \<and> (\<forall>i \<in> set (plan_ids p). i < 5) \<and> mset (plan_ids q) = add_mset 5 (mset (plan_ids p))"
proof -
  let ?m = "create_tool_call (demo_env demo_plan) (extra_key demo_extra) ''n'' ''m'' None None 0 [] TS_RUNNING"
  obtain w' where m: "?m demo_world = (Inr 5, w')" using demo_create by (cases "?m demo_world") simp
  have c: "0 \<le> pw_tool_call_id demo_world" by (simp add: demo_world_def)
  from created_call_fresh [OF m c] m show ?thesis by auto
qed



theorem cancellation_seen_exactly_witness:
  "fst (editor_is_plan_cancelled (demo_env demo_plan) (extra_key demo_extra)
      (snd (cancel_plan (demo_env demo_plan) (extra_key demo_extra) demo_world))) = Inr True"
proof -
  have "\<exists>pre s post. pn_steps demo_plan = pre @ s # post
       \<and> (\<forall>x \<in> set pre. ps_status x = PS_COMPLETED) \<and> ps_status s \<notin> {PS_COMPLETED, PS_FAILED}
       \<and> (\<forall>x \<in> set post. ps_status x \<notin> {PS_UNKNOWN, PS_REQUIRE_HUMAN_INPUT, PS_FAILED})"
    by (rule exI [of _ "[demo_step ''a'' PS_COMPLETED [1]]"], rule exI [of _ "demo_step ''b'' PS_IN_PROGRESS [4]"])
      (simp add: demo_plan_def demo_step_def)
  then show ?thesis
    by (subst cancellation_seen_exactly [of _ _ _ "''plan''" demo_plan]) (simp_all add: demo_env_def demo_world_def)
qed

text \<open>A failed step hides the cancellation of the same turn.\<close>

lemma failed_step_hides_cancellation:
  "fst (editor_is_plan_cancelled
      (demo_env (demo_plan\<lparr>pn_steps := [demo_step ''a'' PS_FAILED [1], demo_step ''b'' PS_IN_PROGRESS [4]]\<rparr>))
      (extra_key demo_extra)
      (demo_world\<lparr>pw_cancelled := [extra_key demo_extra]\<rparr>)) = Inr False"
  by (simp add: editor_is_plan_cancelled_def get_plan_def read_plan_def plan_lock_def read_plan_unlocked_def
      is_plan_cancelled_marker_def demo_world_def demo_env_def bindE_apply is_cancelled_iff to_cancelled_def
      demo_step_def demo_plan_def)


end
