(* ===== verification/Plan_View.thy ===== *)
theory Plan_View
  imports Plan_Editor
begin

section \<open>How a batch is shown in a plan\<close>

text \<open>
  \<^verbatim>\<open>presentation/rendering/batch_view.py\<close>: when the step of a plan that hosts a batch ends, and with
  which status. \<^verbatim>\<open>presentation/rendering/run_view.py\<close>: the status and the stage shown for a run.
  \<^verbatim>\<open>presentation/rendering/text_fragments.py\<close>: the labels of a task, as far as the projection of a
  batch uses them. The functions of the source change the plan in place and return whether they
  changed anything; here they return that together with the plan.
\<close>

subsection \<open>Text\<close>

text \<open>\<^verbatim>\<open>s.split()\<close>: the words between white space.\<close>

fun py_words_from :: "string \<Rightarrow> string \<Rightarrow> string list" where
  "py_words_from word [] = (if word = [] then [] else [word])"
| "py_words_from word (c # cs) =
     (if py_isspace c then (if word = [] then py_words_from [] cs else word # py_words_from [] cs)
      else py_words_from (word @ [c]) cs)"

definition py_words :: "string \<Rightarrow> string list" where
  "py_words s = py_words_from [] s"

definition strip_chars :: "string \<Rightarrow> string \<Rightarrow> string" where
  "strip_chars cs s = rev (dropWhile (\<lambda>c. c \<in> set cs) (rev (dropWhile (\<lambda>c. c \<in> set cs) s)))"

text \<open>
  \<^verbatim>\<open>s.casefold()\<close>: the lower case, where a sharp s becomes two letters. (The micro sign becomes a
  Greek letter, which no title below contains.)
\<close>

definition py_casefold :: "string \<Rightarrow> string" where
  "py_casefold s = concat (map (\<lambda>c. if c = CHR 0xDF then ''ss'' else [py_lower_char c]) s)"

subsection \<open>Statuses\<close>

definition ACTIVE_TOOL_CALL_STATUSES :: "tool_call_status list" where
  "ACTIVE_TOOL_CALL_STATUSES = [TS_UNKNOWN, TS_PENDING, TS_RUNNING, TS_RETRY_RUNNING, TS_FAILED_ANALYZING]"

definition RECOVERY_TAIL_PLACEHOLDER_TITLES :: "string list" where
  "RECOVERY_TAIL_PLACEHOLDER_TITLES =
     [''summarize result'', ''summarize results'', ''summarise result'', ''summarise results'',
      ''summarize execution result'', ''summarize execution results'', ''summarize delegated task result'',
      ''summarize delegated task results'', ''report result'', ''report results'', ''final response'']"

definition TERMINAL_PLAN_STEP_STATUSES :: "plan_step_status list" where
  "TERMINAL_PLAN_STEP_STATUSES = [PS_COMPLETED, PS_FAILED, PS_CANCELLED, PS_REQUIRE_HUMAN_INPUT]"

definition tool_call_status_for_batch :: "batch_status \<Rightarrow> tool_call_status" where
  "tool_call_status_for_batch status = (if status = B_COMPLETED then TS_SUCCESSFUL else TS_FAILED)"

definition terminal_plan_step_status :: "batch_status \<Rightarrow> plan_step_status" where
  "terminal_plan_step_status status =
     (if status = B_CANCELLED then PS_CANCELLED
      else if status \<in> {B_FAILED, B_TIMED_OUT, B_BLOCKED} then PS_FAILED
      else PS_COMPLETED)"

definition step_can_terminalize :: "plan_step \<Rightarrow> bool" where
  "step_can_terminalize s \<longleftrightarrow> ps_status s \<in> {PS_IN_PROGRESS, PS_PENDING, PS_UNKNOWN}"

subsection \<open>Trees of calls\<close>

fun tool_call_tree_contains_id :: "tool_call \<Rightarrow> int \<Rightarrow> bool" where
  "tool_call_tree_contains_id (ToolCall f subs) tid \<longleftrightarrow>
     tl_tool_call_id f = tid \<or> list_ex (\<lambda>c. tool_call_tree_contains_id c tid) subs"

fun tool_call_settled :: "tool_call \<Rightarrow> bool" where
  "tool_call_settled (ToolCall f subs) \<longleftrightarrow>
     tl_tool_call_status f \<notin> set ACTIVE_TOOL_CALL_STATUSES \<and> list_all tool_call_settled subs"

definition step_tool_calls_settled :: "plan_step \<Rightarrow> bool" where
  "step_tool_calls_settled s \<longleftrightarrow> ps_tool_calls s \<noteq> [] \<and> list_all tool_call_settled (ps_tool_calls s)"

fun force_settle_tool_call_tree :: "int \<Rightarrow> tool_call \<Rightarrow> bool \<times> tool_call" where
  "force_settle_tool_call_tree keep (ToolCall f subs) =
     (let hit = (tl_tool_call_id f \<noteq> keep \<and> tl_tool_call_status f \<in> set ACTIVE_TOOL_CALL_STATUSES);
          children = map (force_settle_tool_call_tree keep) subs
      in (hit \<or> list_ex fst children,
          ToolCall (if hit then f\<lparr>tl_tool_call_status := TS_FAILED\<rparr> else f) (map snd children)))"

definition force_settle_active_tool_calls :: "int \<Rightarrow> plan_step \<Rightarrow> bool \<times> plan_step" where
  "force_settle_active_tool_calls keep s =
     (let calls = map (force_settle_tool_call_tree keep) (ps_tool_calls s)
      in (list_ex fst calls, s\<lparr>ps_tool_calls := map snd calls\<rparr>))"

subsection \<open>The end of a step\<close>

definition is_recovery_tail_placeholder :: "plan_step \<Rightarrow> bool" where
  "is_recovery_tail_placeholder s \<longleftrightarrow>
     strip_chars '' .:'' (join_with CHR '' '' (py_words (py_strip (py_casefold (ps_title s)))))
       \<in> set RECOVERY_TAIL_PLACEHOLDER_TITLES"

text \<open>The loop of \<^verbatim>\<open>_finish_unstarted_tail_steps_after\<close> on the steps behind the given one.\<close>

definition unstarted_tail :: "plan_step \<Rightarrow> bool" where
  "unstarted_tail s \<longleftrightarrow> ps_tool_calls s = [] \<and> step_can_terminalize s"

fun finish_tail :: "plan_step list \<Rightarrow> plan_step list" where
  "finish_tail [] = []"
| "finish_tail (s # ss) =
     (if \<not> unstarted_tail s then s # finish_tail ss
      else if is_recovery_tail_placeholder s then finish_tail ss
      else s\<lparr>ps_status := PS_CANCELLED\<rparr> # finish_tail ss)"

definition finish_unstarted_tail_steps_after :: "nat \<Rightarrow> plan \<Rightarrow> bool \<times> plan" where
  "finish_unstarted_tail_steps_after i p =
     (if length (pn_steps p) \<le> i + 1 then (False, p)
      else let tail_steps = drop (i + 1) (pn_steps p) in
        if list_ex unstarted_tail tail_steps
        then (True, p\<lparr>pn_steps := take (i + 1) (pn_steps p) @ finish_tail tail_steps\<rparr>)
        else (False, p))"

text \<open>The first step that has the call somewhere in its trees.\<close>

fun owning_step :: "int \<Rightarrow> nat \<Rightarrow> plan_step list \<Rightarrow> nat option" where
  "owning_step tid i [] = None"
| "owning_step tid i (s # ss) =
     (if list_ex (\<lambda>c. tool_call_tree_contains_id c tid) (ps_tool_calls s) then Some i else owning_step tid (Suc i) ss)"

definition set_step :: "nat \<Rightarrow> plan_step \<Rightarrow> plan \<Rightarrow> plan" where
  "set_step i s p = p\<lparr>pn_steps := (pn_steps p)[i := s]\<rparr>"

definition mark_parent_step_terminal_if_settled ::
  "plan \<Rightarrow> int \<Rightarrow> batch_status \<Rightarrow> bool \<Rightarrow> bool \<Rightarrow> bool \<times> plan" where
  "mark_parent_step_terminal_if_settled p parent_id status finish_tail_steps recovering =
     (if parent_id = 0 then (False, p)
      else case owning_step parent_id 0 (pn_steps p) of
        Some i \<Rightarrow>
          (case (if recovering then force_settle_active_tool_calls parent_id (pn_steps p ! i) else (False, pn_steps p ! i)) of
             (changed, s) \<Rightarrow>
               let p1 = set_step i s p in
               if \<not> step_tool_calls_settled s then (changed, p1)
               else if \<not> step_can_terminalize s \<and> ps_status s \<notin> set TERMINAL_PLAN_STEP_STATUSES then (changed, p1)
               else
                 let p2 = (if step_can_terminalize s then set_step i (s\<lparr>ps_status := terminal_plan_step_status status\<rparr>) p1 else p1);
                     changed2 = (changed \<or> step_can_terminalize s)
                 in if finish_tail_steps
                    then (case finish_unstarted_tail_steps_after i p2 of (c, p3) \<Rightarrow> (c \<or> changed2, p3))
                    else (changed2, p2))
      | None \<Rightarrow>
          (case pn_steps p of
             [s] \<Rightarrow>
               if ps_tool_calls s = [] \<and> step_can_terminalize s
               then let p1 = set_step 0 (s\<lparr>ps_status := terminal_plan_step_status status\<rparr>) p in
                 (True, if finish_tail_steps then snd (finish_unstarted_tail_steps_after 0 p1) else p1)
               else (False, p)
           | _ \<Rightarrow> (False, p)))"

subsection \<open>Runs\<close>

definition tool_call_status_for_result :: "task_run \<Rightarrow> task_result \<Rightarrow> tool_call_status" where
  "tool_call_status_for_result run result =
     (let retried = tr_attempt run > 1 in
      if res_status result = COMPLETED then (if retried then TS_RETRY_SUCCESSFUL else TS_SUCCESSFUL)
      else (if retried then TS_RETRY_FAILED else TS_FAILED))"

definition SANDBOX_STAGES :: "string list" where
  "SANDBOX_STAGES = [''capacity_wait'', ''acquire'', ''reset'', ''sandbox_ready'']"

definition stage_alias :: "string option \<Rightarrow> string option" where
  "stage_alias stage =
     (if stage \<in> {Some ''context'', Some ''skill''} then Some ''plan''
      else if stage \<in> {Some ''runner'', Some ''workspace''} then Some ''workspace''
      else if stage \<in> Some ` set SANDBOX_STAGES then Some ''sandbox''
      else stage)"

definition current_stage_for_run :: "task_run \<Rightarrow> string option \<Rightarrow> task_result option \<Rightarrow> bool \<Rightarrow> string" where
  "current_stage_for_run run active_stage terminal_result sandbox_released =
     (case terminal_result of
        Some result \<Rightarrow>
          if ts_required_sandbox (tr_spec run) \<noteq> [] \<and> sandbox_released then ''release''
          else if res_primary_artifact result \<noteq> None then ''upload''
          else ''execute''
      | None \<Rightarrow> (case stage_alias active_stage of Some s \<Rightarrow> str_or s ''plan'' | None \<Rightarrow> ''plan''))"

subsection \<open>Labels\<close>

definition parent_tool_call_name :: string where
  "parent_tool_call_name = ''Run Tasks''"

text \<open>The entries of a display object that are texts and not blank, both sides stripped.\<close>

fun merge_display :: "(string, string) dict \<Rightarrow> (string \<times> json) list \<Rightarrow> (string, string) dict" where
  "merge_display merged [] = merged"
| "merge_display merged ((key, v) # rest) =
     (case v of
        JStr s \<Rightarrow> merge_display (if py_strip s = [] then merged else dict_set (py_strip key) (py_strip s) merged) rest
      | _ \<Rightarrow> merge_display merged rest)"

definition task_display_map :: "task_spec \<Rightarrow> (string, string) dict" where
  "task_display_map t =
     (let merged = (case dict_get (ts_metadata t) ''capability'' of
                      Some (JObj c) \<Rightarrow> (case dict_get c ''display'' of Some (JObj d) \<Rightarrow> merge_display [] d | _ \<Rightarrow> [])
                    | _ \<Rightarrow> [])
      in case dict_get (ts_metadata t) ''display'' of Some (JObj d) \<Rightarrow> merge_display merged d | _ \<Rightarrow> merged)"

text \<open>The keys are taken from a set in the source; here they are in the order of the first task.\<close>

definition common_task_display_map :: "task_spec list \<Rightarrow> (string, string) dict" where
  "common_task_display_map tasks =
     (case map task_display_map tasks of
        [] \<Rightarrow> []
      | m # ms \<Rightarrow> filter (\<lambda>(key, v). list_all (\<lambda>other. dict_get other key = Some v) ms) m)"

subsection \<open>Calls of a plan\<close>

text \<open>The calls of all steps, and a plan seen through a function on the fields of its calls.\<close>

definition top_calls :: "plan_step list \<Rightarrow> tool_call list" where
  "top_calls ss = concat (map ps_tool_calls ss)"

definition steps_view :: "(tool_call_fields \<Rightarrow> tool_call_fields) \<Rightarrow> plan_step list \<Rightarrow> (plan_step_status \<times> tool_call list) list" where
  "steps_view g ss = map (\<lambda>s. (ps_status s, map (map_tree g) (ps_tool_calls s))) ss"

lemma plan_ids_top: "plan_ids p = concat (map tool_call_ids (top_calls (pn_steps p)))"
proof -
  have "concat (map (\<lambda>s. concat (map tool_call_ids (ps_tool_calls s))) ss) = concat (map tool_call_ids (top_calls ss))" for ss
    by (induction ss) (simp_all add: top_calls_def)
  then show ?thesis by (simp add: plan_ids_concat)
qed

lemma find_and_mark_view:
  assumes "\<And>f n. g (f\<lparr>tl_updated_at := n\<rparr>) = g f"
  shows "map_tree g (snd (find_and_mark now tid t)) = map_tree g t"
    and "map (map_tree g) (snd (find_and_mark_list now tid ts)) = map (map_tree g) ts"
  by (induction now tid t and now tid ts rule: find_and_mark_find_and_mark_list.induct)
    (auto split: prod.splits simp: assms)

lemma find_and_mark_list_view:
  "(\<And>f n. g (f\<lparr>tl_updated_at := n\<rparr>) = g f) \<Longrightarrow> find_and_mark_list now tid ts = (b, ts') \<Longrightarrow>
     map (map_tree g) ts' = map (map_tree g) ts"
  using find_and_mark_view(2) [of g now tid ts] by simp

lemma propagate_view:
  assumes "\<And>f n. g (f\<lparr>tl_updated_at := n\<rparr>) = g f"
  shows "steps_view g (pn_steps (propagate_updated_at tid now p)) = steps_view g (pn_steps p)"
proof -
  have "steps_view g (propagate_steps now tid ss) = steps_view g ss" for ss
    by (induction ss) (auto simp: steps_view_def split: prod.splits dest: find_and_mark_list_view [OF assms])
  then show ?thesis by (simp add: propagate_updated_at_def)
qed

lemma map_tree_map_call: "g (h (call_fields t)) = g (call_fields t) \<Longrightarrow> map_tree g (map_call h t) = map_tree g t"
  by (cases t) (simp add: map_call_def)

lemma update_at_view:
  assumes "map_tree g (f (call_at p pl)) = map_tree g (call_at p pl)"
  shows "steps_view g (pn_steps (update_at pl f p)) = steps_view g (pn_steps p)"
proof -
  obtain i j k where pl: "pl = (i, j, k)" by (cases pl)
  let ?s = "pn_steps p ! i"
  let ?c = "ps_tool_calls ?s ! j"
  let ?c' = "case k of None \<Rightarrow> f ?c | Some k \<Rightarrow> ToolCall (call_fields ?c) ((sub_calls ?c)[k := f (sub_calls ?c ! k)])"
  have "map_tree g ?c' = map_tree g ?c"
  proof (cases k)
    case None
    with assms pl show ?thesis by (simp add: call_at_def)
  next
    case (Some m)
    with assms pl have "map (map_tree g) ((sub_calls ?c)[m := f (sub_calls ?c ! m)]) = map (map_tree g) (sub_calls ?c)"
      by (intro map_list_update_same) (simp add: call_at_def)
    with Some show ?thesis by (cases ?c) simp
  qed
  then have "map (map_tree g) ((ps_tool_calls ?s)[j := ?c']) = map (map_tree g) (ps_tool_calls ?s)"
    by (rule map_list_update_same)
  then show ?thesis
    by (auto simp: pl update_at_def Let_def steps_view_def intro: map_list_update_same)
qed

lemma view_top_calls: "steps_view g ss = steps_view g ss' \<Longrightarrow> map (map_tree g) (top_calls ss) = map (map_tree g) (top_calls ss')"
proof -
  have "map (map_tree g) (top_calls xs) = concat (map snd (steps_view g xs))" for xs
    by (induction xs) (simp_all add: top_calls_def steps_view_def)
  then show "steps_view g ss = steps_view g ss' \<Longrightarrow> map (map_tree g) (top_calls ss) = map (map_tree g) (top_calls ss')"
    by simp
qed

lemma tool_call_ids_cong:
  assumes "\<And>f. tl_tool_call_id (g f) = tl_tool_call_id f" and "map (map_tree g) cs = map (map_tree g) ds"
  shows "map tool_call_ids cs = map tool_call_ids ds"
proof -
  have "map tool_call_ids cs = map tool_call_ids (map (map_tree g) cs)" "map tool_call_ids ds = map tool_call_ids (map (map_tree g) ds)"
    using assms(1) by simp_all
  with assms(2) show ?thesis by simp
qed

subsection \<open>Top-level calls by their identifier\<close>

lemma find_top_in_step_Some:
  "find_top_in_step tid j cs = Some m \<Longrightarrow>
     j \<le> m \<and> m - j < length cs \<and> find (\<lambda>c. tool_call_id c = tid) cs = Some (cs ! (m - j))"
proof (induction tid j cs rule: find_top_in_step.induct)
  case (2 tid j c cs)
  show ?case
  proof (cases "tool_call_id c = tid")
    case False
    with 2 have "Suc j \<le> m \<and> m - Suc j < length cs \<and> find (\<lambda>c. tool_call_id c = tid) cs = Some (cs ! (m - Suc j))" by simp
    moreover from this have "m - j = Suc (m - Suc j)" by linarith
    ultimately show ?thesis using False by auto
  qed (use 2 in simp)
qed simp

lemma find_top_in_step_None: "find_top_in_step tid j cs = None \<longleftrightarrow> find (\<lambda>c. tool_call_id c = tid) cs = None"
  by (induction tid j cs rule: find_top_in_step.induct) simp_all

lemma find_in_append: "find P (xs @ ys) = (case find P xs of None \<Rightarrow> find P ys | Some x \<Rightarrow> Some x)"
  by (induction xs) simp_all

lemma find_top_Some:
  "find_top tid i ss = Some pl \<Longrightarrow>
     (\<exists>m j. pl = (m, j, None) \<and> i \<le> m \<and> m - i < length ss \<and> j < length (ps_tool_calls (ss ! (m - i)))
        \<and> find (\<lambda>c. tool_call_id c = tid) (top_calls ss) = Some (ps_tool_calls (ss ! (m - i)) ! j))"
proof (induction tid i ss rule: find_top.induct)
  case (2 tid i s ss)
  show ?case
  proof (cases "find_top_in_step tid 0 (ps_tool_calls s)")
    case None
    with 2 obtain m j where m: "pl = (m, j, None)" "Suc i \<le> m" "m - Suc i < length ss"
      "j < length (ps_tool_calls (ss ! (m - Suc i)))"
      "find (\<lambda>c. tool_call_id c = tid) (top_calls ss) = Some (ps_tool_calls (ss ! (m - Suc i)) ! j)" by auto
    then have "m - i = Suc (m - Suc i)" by linarith
    with m None show ?thesis
      by (auto simp: top_calls_def find_in_append find_top_in_step_None)
  next
    case (Some j)
    with 2(2) find_top_in_step_Some [OF Some] show ?thesis
      by (intro exI [of _ i] exI [of _ j]) (auto simp: top_calls_def find_in_append)
  qed
qed simp

lemma find_top_None: "find_top tid i ss = None \<longleftrightarrow> find (\<lambda>c. tool_call_id c = tid) (top_calls ss) = None"
  by (induction tid i ss rule: find_top.induct)
    (auto simp: top_calls_def find_in_append find_top_in_step_None [of _ 0] split: option.splits dest: find_top_in_step_Some)

lemma find_top_sound:
  assumes "find_top tid 0 (pn_steps p) = Some pl"
  shows "place_ok p pl" "find (\<lambda>c. tool_call_id c = tid) (top_calls (pn_steps p)) = Some (call_at p pl)"
    "tool_call_id (call_at p pl) = tid"
  using find_top_Some [OF assms] by (auto simp: place_ok_def call_at_def find_Some_iff)

lemma find_top_in_step_cong:
  "map tool_call_id cs = map tool_call_id ds \<Longrightarrow> find_top_in_step tid j cs = find_top_in_step tid j ds"
proof (induction tid j cs arbitrary: ds rule: find_top_in_step.induct)
  case (2 tid j c cs)
  then show ?case by (cases ds) auto
qed simp

lemma find_top_cong:
  "map (\<lambda>s. map tool_call_id (ps_tool_calls s)) ss = map (\<lambda>s. map tool_call_id (ps_tool_calls s)) ss' \<Longrightarrow>
     find_top tid i ss = find_top tid i ss'"
proof (induction tid i ss arbitrary: ss' rule: find_top.induct)
  case (2 tid i s ss)
  then obtain t ts where "ss' = t # ts" by (cases ss') auto
  with 2 show ?case by (auto dest: find_top_in_step_cong [of _ _ tid 0] split: option.splits)
qed simp

lemma update_at_top_ids:
  assumes "place_ok p (i, j, None)" and "tool_call_id (f (call_at p (i, j, None))) = tool_call_id (call_at p (i, j, None))"
  shows "map (\<lambda>s. map tool_call_id (ps_tool_calls s)) (pn_steps (update_at (i, j, None) f p))
           = map (\<lambda>s. map tool_call_id (ps_tool_calls s)) (pn_steps p)"
  using assms by (auto simp: update_at_def call_at_def Let_def intro!: map_list_update_same)

lemma find_top_update_at:
  assumes "find_top tid 0 (pn_steps p) = Some pl" and "tool_call_id (f (call_at p pl)) = tid"
  shows "find_top tid 0 (pn_steps (update_at pl f p)) = Some pl"
proof -
  obtain i j where pl: "pl = (i, j, None)" using find_top_Some [OF assms(1)] by auto
  have "find_top tid 0 (pn_steps (update_at pl f p)) = find_top tid 0 (pn_steps p)"
    unfolding pl by (rule find_top_cong, rule update_at_top_ids) (use assms find_top_sound [OF assms(1)] pl in auto)
  with assms(1) show ?thesis by simp
qed


subsection \<open>The end of a step\<close>

lemma contains_id_iff: "tool_call_tree_contains_id t tid \<longleftrightarrow> tid \<in> set (tool_call_ids t)"
  by (induction t) (auto simp: list_ex_iff)

lemma map_tree_force_settle:
  assumes "\<And>f st. g (f\<lparr>tl_tool_call_status := st\<rparr>) = g f"
  shows "map_tree g (snd (force_settle_tool_call_tree keep t)) = map_tree g t"
  by (induction t) (simp add: Let_def assms)

lemma force_settle_settles:
  "(\<forall>c \<in> set (iter_tool_call_tree t). tool_call_id c = keep \<longrightarrow> call_status c \<notin> set ACTIVE_TOOL_CALL_STATUSES) \<Longrightarrow>
     tool_call_settled (snd (force_settle_tool_call_tree keep t))"
proof (induction t)
  case (ToolCall f subs)
  then have "list_all (\<lambda>c. tool_call_settled (snd (force_settle_tool_call_tree keep c))) subs"
    by (auto simp: list_all_iff)
  with ToolCall.prems show ?case
    by (auto simp: Let_def list_all_iff ACTIVE_TOOL_CALL_STATUSES_def)
qed

lemma finish_tail_top: "top_calls (finish_tail ss) = top_calls ss"
  by (induction ss) (auto simp: top_calls_def unstarted_tail_def)

lemma top_calls_append: "top_calls (xs @ ys) = top_calls xs @ top_calls ys"
  by (simp add: top_calls_def)

lemma finish_unstarted_tail_top: "top_calls (pn_steps (snd (finish_unstarted_tail_steps_after i p))) = top_calls (pn_steps p)"
proof -
  have "top_calls (take (i + 1) (pn_steps p)) @ top_calls (drop (i + 1) (pn_steps p)) = top_calls (pn_steps p)"
    by (simp flip: top_calls_append)
  then have "top_calls (take (i + 1) (pn_steps p) @ finish_tail (drop (i + 1) (pn_steps p))) = top_calls (pn_steps p)"
    by (simp only: top_calls_append finish_tail_top)
  then show ?thesis
    by (simp add: finish_unstarted_tail_steps_after_def Let_def)
qed

lemma set_step_top:
  "map (map_tree g) (ps_tool_calls s) = map (map_tree g) (ps_tool_calls (pn_steps p ! i)) \<Longrightarrow>
     map (map_tree g) (top_calls (pn_steps (set_step i s p))) = map (map_tree g) (top_calls (pn_steps p))"
proof -
  assume s: "map (map_tree g) (ps_tool_calls s) = map (map_tree g) (ps_tool_calls (pn_steps p ! i))"
  have top: "map (map_tree g) (top_calls ss) = concat (map (\<lambda>s. map (map_tree g) (ps_tool_calls s)) ss)" for ss
    by (simp add: top_calls_def map_concat comp_def)
  from map_list_update_same [of "\<lambda>s. map (map_tree g) (ps_tool_calls s)", OF s] show ?thesis
    by (simp add: top set_step_def)
qed

lemma set_step_nth: "i < length (pn_steps p) \<Longrightarrow> pn_steps (set_step i s p) ! i = s"
  by (simp add: set_step_def)

lemma owning_step_Some:
  "owning_step tid i ss = Some m \<Longrightarrow>
     i \<le> m \<and> m - i < length ss \<and> list_ex (\<lambda>c. tool_call_tree_contains_id c tid) (ps_tool_calls (ss ! (m - i)))"
proof (induction tid i ss rule: owning_step.induct)
  case (2 tid i s ss)
  show ?case
  proof (cases "list_ex (\<lambda>c. tool_call_tree_contains_id c tid) (ps_tool_calls s)")
    case False
    with 2 have "Suc i \<le> m \<and> m - Suc i < length ss \<and> list_ex (\<lambda>c. tool_call_tree_contains_id c tid) (ps_tool_calls (ss ! (m - Suc i)))"
      by simp
    moreover from this have "m - i = Suc (m - Suc i)" by linarith
    ultimately show ?thesis by auto
  qed (use 2 in simp)
qed simp

lemma owning_step_exists: "s \<in> set ss \<Longrightarrow> c \<in> set (ps_tool_calls s) \<Longrightarrow> tid \<in> set (tool_call_ids c) \<Longrightarrow> owning_step tid i ss \<noteq> None"
  by (induction tid i ss rule: owning_step.induct) (auto simp: list_ex_iff contains_id_iff)

text \<open>Ending a step changes at most statuses, and drops steps without calls.\<close>

lemma mark_parent_step_top:
  assumes g: "\<And>f st. g (f\<lparr>tl_tool_call_status := st\<rparr>) = g f"
  shows "map (map_tree g) (top_calls (pn_steps (snd (mark_parent_step_terminal_if_settled p tid st ft rec))))
           = map (map_tree g) (top_calls (pn_steps p))"
proof (cases "tid = 0 \<or> owning_step tid 0 (pn_steps p) = None")
  case True
  have "map (map_tree g) (top_calls (pn_steps (set_step 0 (s\<lparr>ps_status := x\<rparr>) p))) = map (map_tree g) (top_calls (pn_steps p))"
    if "pn_steps p = [s]" for s x
    by (rule set_step_top) (simp add: that)
  note one = this
  show ?thesis
  proof (cases "tid = 0 \<or> (\<nexists>s. pn_steps p = [s] \<and> ps_tool_calls s = [] \<and> step_can_terminalize s)")
    case a: True
    with True have "snd (mark_parent_step_terminal_if_settled p tid st ft rec) = p"
      by (cases "tid = 0") (auto simp: mark_parent_step_terminal_if_settled_def split: list.splits)
    then show ?thesis by simp
  next
    case False
    then obtain s where s: "pn_steps p = [s]" "ps_tool_calls s = []" "step_can_terminalize s" "tid \<noteq> 0" by auto
    with True one [OF s(1)] show ?thesis
      by (cases ft) (simp_all add: mark_parent_step_terminal_if_settled_def Let_def finish_unstarted_tail_top)
  qed
next
  case False
  then obtain i where i: "owning_step tid 0 (pn_steps p) = Some i" by auto
  let ?x = "if rec then force_settle_active_tool_calls tid (pn_steps p ! i) else (False, pn_steps p ! i)"
  let ?s = "snd ?x"
  have s: "map (map_tree g) (ps_tool_calls ?s) = map (map_tree g) (ps_tool_calls (pn_steps p ! i))"
    by (simp add: force_settle_active_tool_calls_def Let_def map_tree_force_settle [OF g])
  have one: "map (map_tree g) (top_calls (pn_steps (set_step i ?s p))) = map (map_tree g) (top_calls (pn_steps p))"
    by (rule set_step_top [OF s])
  have two: "map (map_tree g) (top_calls (pn_steps (set_step i (?s\<lparr>ps_status := x\<rparr>) (set_step i ?s p)))) = map (map_tree g) (top_calls (pn_steps p))" for x
  proof -
    have "set_step i (?s\<lparr>ps_status := x\<rparr>) (set_step i ?s p) = set_step i (?s\<lparr>ps_status := x\<rparr>) p"
      by (simp add: set_step_def)
    with set_step_top [of g "?s\<lparr>ps_status := x\<rparr>" p i] s show ?thesis by simp
  qed
  from False i one two show ?thesis
    by (cases ?x) (simp add: mark_parent_step_terminal_if_settled_def Let_def finish_unstarted_tail_top case_prod_unfold)
qed


lemma finish_unstarted_tail_nth:
  "j \<le> i \<Longrightarrow> i < length (pn_steps p) \<Longrightarrow>
     pn_steps (snd (finish_unstarted_tail_steps_after i p)) ! j = pn_steps p ! j
     \<and> j < length (pn_steps (snd (finish_unstarted_tail_steps_after i p)))"
  by (auto simp: finish_unstarted_tail_steps_after_def Let_def nth_append)

lemma terminal_or_open: "ps_status s \<in> set TERMINAL_PLAN_STEP_STATUSES \<longleftrightarrow> \<not> step_can_terminalize s"
  by (cases "ps_status s") (auto simp: TERMINAL_PLAN_STEP_STATUSES_def step_can_terminalize_def)

lemma terminal_plan_step_status_terminal [simp]: "terminal_plan_step_status st \<in> set TERMINAL_PLAN_STEP_STATUSES"
  by (simp add: terminal_plan_step_status_def TERMINAL_PLAN_STEP_STATUSES_def)

text \<open>
  On recovery the step that hosts a call ends, with all its calls settled, as soon as the call
  itself has settled; a step that had ended keeps its status.
\<close>

lemma recovering_step_ends:
  fixes st :: batch_status and ft :: bool
  assumes tid: "tid \<noteq> 0" and own: "owning_step tid 0 (pn_steps p) = Some i"
    and kept: "\<forall>c \<in> set (iter_tool_calls p). tool_call_id c = tid \<longrightarrow> call_status c \<notin> set ACTIVE_TOOL_CALL_STATUSES"
  defines "q \<equiv> snd (mark_parent_step_terminal_if_settled p tid st ft True)"
  shows "i < length (pn_steps q)"
    and "step_tool_calls_settled (pn_steps q ! i)"
    and "ps_status (pn_steps q ! i) = (if step_can_terminalize (pn_steps p ! i) then terminal_plan_step_status st else ps_status (pn_steps p ! i))"
    and "list_ex (\<lambda>c. tool_call_tree_contains_id c tid) (ps_tool_calls (pn_steps q ! i))"
proof -
  let ?s = "pn_steps p ! i"
  let ?s' = "snd (force_settle_active_tool_calls tid ?s)"
  let ?t = "if step_can_terminalize ?s then ?s'\<lparr>ps_status := terminal_plan_step_status st\<rparr> else ?s'"
  from owning_step_Some [OF own] have i: "i < length (pn_steps p)"
    and c: "list_ex (\<lambda>c. tool_call_tree_contains_id c tid) (ps_tool_calls ?s)" by simp_all
  have calls: "ps_tool_calls ?s' = map (\<lambda>c. snd (force_settle_tool_call_tree tid c)) (ps_tool_calls ?s)" and st: "ps_status ?s' = ps_status ?s"
    by (simp_all add: force_settle_active_tool_calls_def Let_def)
  have "tool_call_settled (snd (force_settle_tool_call_tree tid t))" if "t \<in> set (ps_tool_calls ?s)" for t
    by (rule force_settle_settles) (use that i kept in \<open>force simp: iter_tool_calls_def\<close>)
  with c have settled: "step_tool_calls_settled ?s'"
    by (auto simp: step_tool_calls_settled_def calls list_all_iff)
  have ids: "map tool_call_ids (ps_tool_calls ?s') = map tool_call_ids (ps_tool_calls ?s)"
    by (rule tool_call_ids_cong [where g = "\<lambda>f. f\<lparr>tl_tool_call_status := TS_UNKNOWN\<rparr>"])
      (simp_all add: calls map_tree_force_settle)
  have can: "step_can_terminalize ?s' = step_can_terminalize ?s" by (simp add: step_can_terminalize_def st)
  have q: "q = (if ft then snd (finish_unstarted_tail_steps_after i (set_step i ?t p)) else set_step i ?t p)"
    using tid own settled can terminal_or_open [of ?s']
    by (simp add: q_def mark_parent_step_terminal_if_settled_def Let_def case_prod_unfold)
      (simp add: set_step_def)
  have len: "i < length (pn_steps (set_step i ?t p))" using i by (simp add: set_step_def)
  have nth: "pn_steps q ! i = ?t" "i < length (pn_steps q)"
    using finish_unstarted_tail_nth [OF order_refl len] set_step_nth [OF i, of ?t] len by (auto simp: q)
  show "i < length (pn_steps q)" by (rule nth)
  show "step_tool_calls_settled (pn_steps q ! i)" using settled by (simp add: nth step_tool_calls_settled_def)
  show "ps_status (pn_steps q ! i) = (if step_can_terminalize ?s then terminal_plan_step_status st else ps_status ?s)"
    by (simp add: nth st)
  have "(\<exists>c \<in> set (ps_tool_calls ?s'). tid \<in> set (tool_call_ids c)) \<longleftrightarrow> (\<exists>x \<in> set (map tool_call_ids (ps_tool_calls ?s')). tid \<in> set x)"
    by simp
  also have "\<dots> \<longleftrightarrow> (\<exists>c \<in> set (ps_tool_calls ?s). tid \<in> set (tool_call_ids c))"
    by (simp add: ids)
  finally show "list_ex (\<lambda>c. tool_call_tree_contains_id c tid) (ps_tool_calls (pn_steps q ! i))"
    using c by (simp add: nth list_ex_iff contains_id_iff)
qed


end
