(* ===== verification/Plan_Projection.thy ===== *)
theory Plan_Projection
  imports Plan_View State_Machine
begin

section \<open>The projection of a batch into a plan\<close>

text \<open>
  \<^verbatim>\<open>presentation/progress_sink.py\<close>: a batch of runs is shown in the plan of its turn as one tool call,
  the parent, with a sub-call for each run. The parent carries the identifier of its batch in its
  display map. The sink publishes, updates, repairs and settles this tree through the plan editor,
  and refuses to touch a tree of another batch.

  The parent inside a plan is a place, so that \<^verbatim>\<open>_top_level_tool_call(plan, id) is parent\<close> compares
  places. Dictionaries are compared as Python does, without their order.
\<close>

definition TASK_RUNTIME_BATCH_ID_DISPLAY_KEY :: string where
  "TASK_RUNTIME_BATCH_ID_DISPLAY_KEY = ''_sico_task_runtime_batch_id''"

definition dict_eq :: "('k, 'v) dict \<Rightarrow> ('k, 'v) dict \<Rightarrow> bool" where
  "dict_eq d e \<longleftrightarrow> list_all (\<lambda>k. dict_get d k = dict_get e k) (dict_keys d @ dict_keys e)"

text \<open>The ellipsis (code point 2026 in hexadecimal) at the end of a message, as its three bytes.\<close>

definition ELLIPSIS :: string where
  "ELLIPSIS = [CHR 0xE2, CHR 0x80, CHR 0xA6]"

subsection \<open>Messages\<close>

definition STAGE_LABELS :: "(string, string) dict" where
  "STAGE_LABELS =
     [(''plan'', ''Preparing task''), (''workspace'', ''Preparing workspace''), (''sandbox'', ''Acquiring sandbox''),
      (''execute'', ''Executing''), (''upload'', ''Uploading results''), (''release'', ''Releasing sandbox'')]"

definition run_terminal_message :: "task_result \<Rightarrow> string" where
  "run_terminal_message result =
     (let summary = py_strip (res_summary result); err = py_strip (res_error_message result) in
      if summary \<noteq> [] then summary
      else if res_status result = COMPLETED then ''Task completed.''
      else if res_status result = CANCELLED then ''Task cancelled.''
      else if res_status result = FAILED then (if err \<noteq> [] then ''Task failed: '' @ err else ''Task failed.'')
      else if res_status result = BLOCKED then (if err \<noteq> [] then ''Task blocked: '' @ err else ''Task blocked.'')
      else ''Task ended with status '' @ task_status_value (res_status result) @ ''.'')"

text \<open>
  \<^verbatim>\<open>stage.replace("_", " ").capitalize()\<close>, the label of a stage that has none. The names of stages
  are made of letters with a capital in the same character table.
\<close>

definition py_upper_char :: "char \<Rightarrow> char" where
  "py_upper_char c =
     (let n = of_char c :: nat in
      if 97 \<le> n \<and> n \<le> 122 \<or> 224 \<le> n \<and> n \<le> 254 \<and> n \<noteq> 247 then char_of (n - 32) else c)"

definition py_capitalize :: "string \<Rightarrow> string" where
  "py_capitalize s = (case s of [] \<Rightarrow> [] | c # cs \<Rightarrow> py_upper_char c # py_lower cs)"

definition fallback_label :: "string \<Rightarrow> string" where
  "fallback_label stage = py_capitalize (map (\<lambda>c. if c = CHR ''_'' then CHR '' '' else c) stage)"

definition run_lifecycle_message ::
  "string \<Rightarrow> task_run \<Rightarrow> int \<Rightarrow> task_result option \<Rightarrow> string" where
  "run_lifecycle_message stage run max_attempts terminal_result =
     (case terminal_result of
        Some result \<Rightarrow> run_terminal_message result
      | None \<Rightarrow>
          (let label = (case dict_get STAGE_LABELS stage of Some l \<Rightarrow> l | None \<Rightarrow> str_or (fallback_label stage) ''Working'') in
           if stage = ''execute'' \<and> max_attempts > 1
           then label @ '' (attempt '' @ str_of_int (tr_attempt run) @ ''/'' @ str_of_int max_attempts @ '')'' @ ELLIPSIS
           else label @ ELLIPSIS))"

definition parent_initial_message :: "nat \<Rightarrow> string" where
  "parent_initial_message n =
     (if n = 0 then ''No tasks to run.''
      else if n = 1 then ''Running 1 task'' @ ELLIPSIS
      else ''Running '' @ str_of_nat n @ '' tasks'' @ ELLIPSIS)"

definition parent_terminal_message :: "batch_status \<Rightarrow> string" where
  "parent_terminal_message status =
     (if status = B_COMPLETED then ''All tasks completed.''
      else if status = B_PARTIAL then ''Tasks completed with failures.''
      else if status = B_FAILED then ''Delegated tasks failed.''
      else if status = B_CANCELLED then ''Delegated tasks cancelled.''
      else ''Tasks ended with status '' @ batch_status_value status @ ''.'')"

definition parent_progress_message :: "batch_record \<Rightarrow> task_run list \<Rightarrow> string" where
  "parent_progress_message batch runs =
     (let n = (if br_total_count batch \<noteq> 0 then br_total_count batch else int (length runs));
          count = (\<lambda>st. length (filter (\<lambda>r. tr_status r = st) runs));
          part = (\<lambda>st label. if count st = 0 then [] else [str_of_nat (count st) @ label]);
          parts = [str_of_nat (count COMPLETED) @ ''/'' @ str_of_int n @ '' completed'']
                  @ part RUNNING '' running'' @ part QUEUED '' queued'' @ part FAILED '' failed''
                  @ part CANCELLED '' cancelled'' @ part BLOCKED '' blocked''
      in if n \<le> 0 then ''No tasks to run.'' else concat (butlast (concat (map (\<lambda>x. [x, '', '']) parts))) @ ''.'')"

subsection \<open>Ownership\<close>

definition batch_parent_display :: "task_spec list \<Rightarrow> string \<Rightarrow> (string, string) dict" where
  "batch_parent_display tasks batch_id =
     dict_set TASK_RUNTIME_BATCH_ID_DISPLAY_KEY batch_id (common_task_display_map tasks)"

definition projection_batch_id :: "tool_call \<Rightarrow> string" where
  "projection_batch_id parent =
     py_strip (case dict_get (tl_display (call_fields parent)) TASK_RUNTIME_BATCH_ID_DISPLAY_KEY of Some s \<Rightarrow> s | None \<Rightarrow> [])"

definition top_level_tool_call :: "plan \<Rightarrow> int \<Rightarrow> place option" where
  "top_level_tool_call p tid = find_top tid 0 (pn_steps p)"

definition runs_tasks :: "tool_call \<Rightarrow> bool" where
  "runs_tasks c \<longleftrightarrow>
     ei_tool_type (tl_execution_info (call_fields c)) = TT_BUILTIN
     \<and> ei_builtin_tool_name (tl_execution_info (call_fields c)) = ''run_tasks''"

definition is_owned_batch_parent :: "plan \<Rightarrow> place \<Rightarrow> int \<Rightarrow> string \<Rightarrow> bool" where
  "is_owned_batch_parent p pl parent_id batch_id \<longleftrightarrow>
     top_level_tool_call p parent_id = Some pl
     \<and> count_list (plan_ids p) parent_id = 1
     \<and> runs_tasks (call_at p pl)
     \<and> projection_batch_id (call_at p pl) = batch_id"

definition not_owned :: "int \<Rightarrow> exn" where
  "not_owned parent_id = Exn ProjectionIntegrityError (''tool-call id '' @ str_of_int parent_id @ '' is not owned by batch'')"

definition require_owned_batch_parent :: "plan \<Rightarrow> place \<Rightarrow> int \<Rightarrow> string \<Rightarrow> unit result" where
  "require_owned_batch_parent p pl parent_id batch_id =
     (if is_owned_batch_parent p pl parent_id batch_id then Inr () else Inl (not_owned parent_id))"

definition ordered_runs :: "task_run list \<Rightarrow> task_run list" where
  "ordered_runs runs = sort_key tr_batch_item_index runs"

definition run_call_id :: "task_run \<Rightarrow> int" where
  "run_call_id run = int_or (tr_plan_batch_call_id run) 0"

definition child_matches :: "tool_call \<Rightarrow> task_run \<Rightarrow> bool" where
  "child_matches c run \<longleftrightarrow>
     tool_call_id c = run_call_id run
     \<and> tl_sub_call_index (call_fields c) = tr_batch_item_index run
     \<and> tl_tool_name (call_fields c) = str_or (ts_title (tr_spec run)) ''TaskRun''
     \<and> dict_eq (tl_display (call_fields c)) (task_display_map (tr_spec run))"

text \<open>The checks of \<^verbatim>\<open>_has_complete_batch_projection\<close> on the parent, given the identifiers of all calls of the plan.\<close>

definition complete_parent :: "tool_call \<Rightarrow> int list \<Rightarrow> int \<Rightarrow> task_run list \<Rightarrow> string \<Rightarrow> bool \<Rightarrow> bool" where
  "complete_parent parent ids parent_id runs batch_id allow_unmarked =
     (let ordered = ordered_runs runs;
          owner = projection_batch_id parent;
          unmarked = (allow_unmarked \<and> owner = []);
          marked = batch_parent_display (map tr_spec ordered) batch_id;
          expected = (if unmarked then dict_pop TASK_RUNTIME_BATCH_ID_DISPLAY_KEY marked else marked);
          child_ids = map run_call_id ordered
      in tl_tool_name (call_fields parent) = parent_tool_call_name
         \<and> runs_tasks parent
         \<and> (owner = batch_id \<or> unmarked)
         \<and> dict_eq (tl_display (call_fields parent)) expected
         \<and> list_all (\<lambda>i. i \<noteq> 0) child_ids
         \<and> parent_id \<notin> set child_ids
         \<and> distinct child_ids
         \<and> list_all (\<lambda>i. count_list ids i = 1) (parent_id # child_ids)
         \<and> length (sub_calls parent) = length runs
         \<and> list_all (\<lambda>run. tr_parent_tool_call_id run = Some parent_id) runs
         \<and> list_all2 child_matches (sub_calls parent) ordered)"

definition has_complete_batch_projection :: "plan \<Rightarrow> int \<Rightarrow> task_run list \<Rightarrow> string \<Rightarrow> bool \<Rightarrow> bool" where
  "has_complete_batch_projection p parent_id runs batch_id allow_unmarked =
     (case top_level_tool_call p parent_id of
        None \<Rightarrow> False
      | Some pl \<Rightarrow> complete_parent (call_at p pl) (plan_ids p) parent_id runs batch_id allow_unmarked)"

subsection \<open>The state of a batch in its tree\<close>

definition apply_run_lifecycle_to_tool_call ::
  "task_run \<Rightarrow> string option \<Rightarrow> task_result option \<Rightarrow> bool \<Rightarrow> string \<Rightarrow> tool_call_fields \<Rightarrow> tool_call_fields" where
  "apply_run_lifecycle_to_tool_call run active_stage terminal_result sandbox_released lease_outcome f =
     (let stage = current_stage_for_run run active_stage terminal_result sandbox_released;
          max_attempts = max 1 (rp_max_attempts (ep_retry (tr_execution_policy run)));
          status = (case terminal_result of
                      Some result \<Rightarrow> tool_call_status_for_result run result
                    | None \<Rightarrow>
                        if active_stage \<noteq> None \<and> tl_tool_call_status f = TS_PENDING
                        then (if tr_attempt run > 1 then TS_RETRY_RUNNING else TS_RUNNING)
                        else tl_tool_call_status f);
          info0 = ei_task_runtime (tl_execution_info f);
          info1 = info0\<lparr>ti_current_stage := stage, ti_attempt := tr_attempt run, ti_max_attempts := max_attempts\<rparr>;
          info2 = (case tr_sandbox run of
                     None \<Rightarrow> info1
                   | Some sb \<Rightarrow> info1\<lparr>ti_sandbox_id := sl_sandbox_id sb,
                                      ti_sandbox_type := str_or (sl_type sb) (ti_sandbox_type info1),
                                      ti_sandbox_endpoint := str_or (sl_endpoint sb) (ti_sandbox_endpoint info1)\<rparr>);
          info3 = (if lease_outcome = ''dirty''
                   then info2\<lparr>ti_latest_progress_message := ''Sandbox released with dirty lease.''\<rparr> else info2)
      in f\<lparr>tl_tool_call_status := status,
           tl_message := run_lifecycle_message stage run max_attempts terminal_result,
           tl_execution_info := (tl_execution_info f)\<lparr>ei_task_runtime := info3\<rparr>\<rparr>)"

text \<open>\<^verbatim>\<open>children\<close>: of several sub-calls with one identifier the last is the entry.\<close>

definition child_index :: "tool_call list \<Rightarrow> int \<Rightarrow> nat option" where
  "child_index cs cid = map_of (rev (zip (map tool_call_id cs) [0..<length cs])) cid"

fun apply_results ::
  "(string, task_result) dict \<Rightarrow> int \<Rightarrow> task_run list \<Rightarrow> tool_call list \<Rightarrow> tool_call list result" where
  "apply_results results now [] cs = Inr cs"
| "apply_results results now (run # runs) cs =
     (case dict_get results (tr_run_id run) of
        None \<Rightarrow> apply_results results now runs cs
      | Some result \<Rightarrow>
          (case child_index cs (run_call_id run) of
             None \<Rightarrow> Inl (Exn ProjectionIntegrityError ''plan projection is missing run'')
           | Some i \<Rightarrow>
               apply_results results now runs
                 (cs[i := map_call (\<lambda>f. (apply_run_lifecycle_to_tool_call run None (Some result)
                             (tr_sandbox_released run) (tr_lease_outcome run) f)\<lparr>tl_updated_at := now\<rparr>) (cs ! i)])))"

definition settled_parent :: "batch_status \<Rightarrow> tool_call \<Rightarrow> tool_call" where
  "settled_parent status =
     map_call (\<lambda>f. f\<lparr>tl_tool_call_status := tool_call_status_for_batch status, tl_message := parent_terminal_message status\<rparr>)"

definition apply_batch_projection_state ::
  "plan \<Rightarrow> place \<Rightarrow> batch_record \<Rightarrow> task_run list \<Rightarrow> (string, task_result) dict
     \<Rightarrow> batch_projection_options \<Rightarrow> int \<Rightarrow> plan result" where
  "apply_batch_projection_state p pl batch runs results opts now =
     rbind (apply_results results now runs (sub_calls (call_at p pl))) (\<lambda>cs.
       let p1 = update_at pl (\<lambda>c. ToolCall (call_fields c) cs) p in
       if \<not> po_settle_batch opts then Inr p1
       else Inr (snd (mark_parent_step_terminal_if_settled (update_at pl (settled_parent (br_status batch)) p1)
              (int_or (br_parent_tool_call_id batch) 0) (br_status batch)
              (po_finish_unstarted_tail opts) (po_recovering opts))))"

fun fail_active_tool_call_tree :: "int \<Rightarrow> tool_call \<Rightarrow> tool_call" where
  "fail_active_tool_call_tree now (ToolCall f subs) =
     ToolCall ((if tl_tool_call_status f \<in> set ACTIVE_TOOL_CALL_STATUSES
                then f\<lparr>tl_tool_call_status := TS_FAILED, tl_message := ''Delegated task failed before completion.''\<rparr>
                else f)\<lparr>tl_updated_at := now\<rparr>)
       (map (fail_active_tool_call_tree now) subs)"

subsection \<open>The canonical tree\<close>

definition run_tasks_info :: tool_execution_info where
  "run_tasks_info = no_execution_info\<lparr>ei_tool_type := TT_BUILTIN, ei_builtin_tool_name := ''run_tasks''\<rparr>"

definition plain_call :: "string \<Rightarrow> string \<Rightarrow> int \<Rightarrow> (string, string) dict \<Rightarrow> tool_call_status \<Rightarrow> tool_call_fields" where
  "plain_call name message tid display status =
     \<lparr>tl_tool_name = name, tl_message = message, tl_execution_info = no_execution_info, tl_deliverables = [],
      tl_tool_call_id = tid, tl_sub_call_index = 0, tl_display = display, tl_tool_call_status = status, tl_updated_at = 0\<rparr>"

definition canonical_child :: "task_run \<Rightarrow> tool_call" where
  "canonical_child run =
     ToolCall ((plain_call (str_or (ts_title (tr_spec run)) ''TaskRun'') ''Queued.'' (run_call_id run)
                  (task_display_map (tr_spec run)) TS_PENDING)\<lparr>tl_sub_call_index := tr_batch_item_index run\<rparr>) []"

definition canonical_tree :: "batch_record \<Rightarrow> task_run list \<Rightarrow> tool_call" where
  "canonical_tree batch runs =
     (let ordered = ordered_runs runs in
      ToolCall ((plain_call parent_tool_call_name (parent_initial_message (length ordered))
                   (int_or (br_parent_tool_call_id batch) 0)
                   (batch_parent_display (map tr_spec ordered) (br_batch_id batch)) TS_RUNNING)
                 \<lparr>tl_execution_info := run_tasks_info\<rparr>)
        (map canonical_child ordered))"

definition results_by_run_id :: "task_result list \<Rightarrow> (string, task_result) dict" where
  "results_by_run_id results = fold (\<lambda>r d. dict_set (res_run_id r) r d) results []"

definition repaired_child :: "tool_call list \<Rightarrow> tool_call \<Rightarrow> tool_call" where
  "repaired_child cs desired =
     (case child_index cs (tool_call_id desired) of
        None \<Rightarrow> desired
      | Some i \<Rightarrow>
          map_call (\<lambda>f. f\<lparr>tl_tool_name := tl_tool_name (call_fields desired),
                          tl_sub_call_index := tl_sub_call_index (call_fields desired),
                          tl_display := tl_display (call_fields desired)\<rparr>) (cs ! i))"

definition repaired_parent :: "tool_call \<Rightarrow> tool_call \<Rightarrow> tool_call" where
  "repaired_parent canonical existing =
     ToolCall ((call_fields existing)
                 \<lparr>tl_tool_name := tl_tool_name (call_fields canonical),
                  tl_execution_info := (tl_execution_info (call_fields existing))
                    \<lparr>ei_tool_type := ei_tool_type (tl_execution_info (call_fields canonical)),
                     ei_builtin_tool_name := ei_builtin_tool_name (tl_execution_info (call_fields canonical))\<rparr>,
                  tl_display := tl_display (call_fields canonical)\<rparr>)
       (map (repaired_child (sub_calls existing)) (sub_calls canonical))"

definition repair_existing ::
  "batch_record \<Rightarrow> task_run list \<Rightarrow> task_result list \<Rightarrow> batch_projection_options
     \<Rightarrow> plan \<Rightarrow> place \<Rightarrow> tool_call \<Rightarrow> int \<Rightarrow> plan result" where
  "repair_existing batch runs results opts p pl canonical now =
     (let existing = call_at p pl in
      if \<not> runs_tasks existing
      then Inl (Exn ProjectionIntegrityError (''tool-call id '' @ str_of_int (tool_call_id existing) @ '' is not owned by task runtime''))
      else if projection_batch_id existing \<noteq> br_batch_id batch
      then Inl (Exn ProjectionIntegrityError (''tool-call id '' @ str_of_int (tool_call_id existing) @ '' belongs to another batch''))
      else if \<not> distinct (map tool_call_id (sub_calls existing))
      then Inl (Exn ProjectionIntegrityError (''duplicate child tool-call ids under parent '' @ str_of_int (tool_call_id existing)))
      else apply_batch_projection_state (update_at pl (repaired_parent canonical) p) pl batch runs
             (results_by_run_id results) opts now)"

subsection \<open>The operations of the sink\<close>

definition shape_mismatch :: exn where
  "shape_mismatch = Exn (OtherError ''_ProjectionShapeMismatch'') ''plan projection changed for batch''"

definition mark_owner :: "string \<Rightarrow> tool_call \<Rightarrow> tool_call" where
  "mark_owner batch_id = map_call (\<lambda>f. f\<lparr>tl_display := dict_set TASK_RUNTIME_BATCH_ID_DISPLAY_KEY batch_id (tl_display f)\<rparr>)"

definition update_existing_updater ::
  "batch_record \<Rightarrow> task_run list \<Rightarrow> task_result list \<Rightarrow> batch_projection_options \<Rightarrow> plan \<Rightarrow> place \<Rightarrow> int \<Rightarrow> plan result" where
  "update_existing_updater batch runs results opts p pl now =
     (let parent_id = int_or (br_parent_tool_call_id batch) 0; owner = projection_batch_id (call_at p pl) in
      rbind (if owner \<noteq> [] then require_owned_batch_parent p pl parent_id (br_batch_id batch)
             else if \<not> po_allow_unmarked opts then Inl (not_owned parent_id)
             else Inr ()) (\<lambda>_.
      if \<not> has_complete_batch_projection p parent_id runs (br_batch_id batch) (po_allow_unmarked opts)
      then Inl shape_mismatch
      else apply_batch_projection_state
             (if po_allow_unmarked opts \<and> owner = [] then update_at pl (mark_owner (br_batch_id batch)) p else p)
             pl batch runs (results_by_run_id results) opts now))"

definition update_existing_batch_projection ::
  "plan_env \<Rightarrow> turn_context \<Rightarrow> batch_record \<Rightarrow> task_run list \<Rightarrow> task_result list \<Rightarrow> batch_projection_options \<Rightarrow> bool planio" where
  "update_existing_batch_projection E ctx batch runs results opts =
     update_tool_call_tree E (tc_plan_editor ctx) (int_or (br_parent_tool_call_id batch) 0)
       (update_existing_updater batch runs results opts)"

text \<open>\<^verbatim>\<open>except (RuntimeError, ValueError)\<close>, after the errors of the projection itself have been re-raised.\<close>

definition as_integrity_error :: "exn \<Rightarrow> exn" where
  "as_integrity_error e =
     (if exn_class e \<in> {RuntimeError, ValueError} then Exn ProjectionIntegrityError (exn_message e) else e)"

definition repair_batch_projection ::
  "plan_env \<Rightarrow> turn_context \<Rightarrow> batch_record \<Rightarrow> task_run list \<Rightarrow> task_result list \<Rightarrow> batch_projection_options \<Rightarrow> bool planio" where
  "repair_batch_projection E ctx batch runs results opts =
     catchE (repair_tool_call_tree E (tc_plan_editor ctx) (canonical_tree batch runs) (repair_existing batch runs results opts))
       (\<lambda>e. raiseE (as_integrity_error e))"

definition publish_existing_batch_projection :: "plan_env \<Rightarrow> turn_context \<Rightarrow> batch_record \<Rightarrow> task_run list \<Rightarrow> bool planio" where
  "publish_existing_batch_projection E ctx batch runs =
     (let parent_id = int_or (br_parent_tool_call_id batch) 0 in
      bindE (catch_Exception (get_plan E (tc_plan_editor ctx)) (\<lambda>_. retE None)) (\<lambda>read.
        case read of
          None \<Rightarrow> retE False
        | Some p \<Rightarrow>
            (case top_level_tool_call p parent_id of
               None \<Rightarrow> retE False
             | Some pl \<Rightarrow>
                 (let owner = projection_batch_id (call_at p pl) in
                  if owner \<noteq> [] \<and> owner \<noteq> br_batch_id batch
                  then raiseE (Exn ProjectionIntegrityError (''plan projection tool-call '' @ str_of_int parent_id @ '' belongs to another batch''))
                  else if \<not> has_complete_batch_projection p parent_id runs (br_batch_id batch) (owner = [])
                  then retE False
                  else thenE (suppressE (notify_plan_updated E p)) (retE True)))))"

definition sync_batch_projection ::
  "plan_env \<Rightarrow> turn_context \<Rightarrow> batch_record \<Rightarrow> task_run list \<Rightarrow> task_result list \<Rightarrow> batch_projection_options \<Rightarrow> bool planio" where
  "sync_batch_projection E ctx batch runs results opts =
     (if br_parent_conversation_id batch \<noteq> tc_conversation_id ctx \<or> br_parent_turn_id batch \<noteq> tc_turn_id ctx then retE False
      else if po_publish_only opts then publish_existing_batch_projection E ctx batch runs
      else bindE (catch_class (OtherError ''_ProjectionShapeMismatch'')
                    (update_existing_batch_projection E ctx batch runs results opts) (\<lambda>_. retE False)) (\<lambda>updated.
        if updated \<or> \<not> po_repair opts then retE updated
        else repair_batch_projection E ctx batch runs results opts))"

definition create_delegate_tasks_call :: "plan_env \<Rightarrow> turn_context \<Rightarrow> prepared_task_batch \<Rightarrow> string \<Rightarrow> int planio" where
  "create_delegate_tasks_call E ctx prepared batch_id =
     create_tool_call E (tc_plan_editor ctx) parent_tool_call_name
       (parent_initial_message (length (tb_tasks (pb_batch prepared)))) (Some run_tasks_info) None 0
       (batch_parent_display (tb_tasks (pb_batch prepared)) batch_id) TS_RUNNING"

definition add_task_sub_call :: "plan_env \<Rightarrow> turn_context \<Rightarrow> int \<Rightarrow> task_spec \<Rightarrow> int \<Rightarrow> int planio" where
  "add_task_sub_call E ctx parent_id task index =
     create_tool_call E (tc_plan_editor ctx) (str_or (ts_title task) ''TaskRun'') ''Queued.'' None
       (if parent_id = 0 then None else Some parent_id) index (task_display_map task) TS_PENDING"

definition remove_delegate_tasks_call :: "plan_env \<Rightarrow> turn_context \<Rightarrow> int \<Rightarrow> string \<Rightarrow> bool planio" where
  "remove_delegate_tasks_call E ctx parent_id batch_id =
     catch_Exception
       (remove_tool_call E (tc_plan_editor ctx) parent_id (Some (\<lambda>p pl. is_owned_batch_parent p pl parent_id batch_id)))
       (\<lambda>_. retE False)"

definition mark_delegate_tasks_failed :: "plan_env \<Rightarrow> turn_context \<Rightarrow> int \<Rightarrow> string \<Rightarrow> unit planio" where
  "mark_delegate_tasks_failed E ctx parent_id batch_id =
     (if parent_id = 0 then retE ()
      else bindE (update_tool_call_tree E (tc_plan_editor ctx) parent_id (\<lambda>p pl now.
        rbind (require_owned_batch_parent p pl parent_id batch_id) (\<lambda>_.
          Inr (snd (mark_parent_step_terminal_if_settled
            (update_at pl (\<lambda>c. map_call (\<lambda>f. f\<lparr>tl_tool_call_status := TS_FAILED, tl_message := ''Delegated tasks failed.''\<rparr>)
                                 (fail_active_tool_call_tree now c)) p)
            parent_id B_FAILED False False))))) (\<lambda>_. retE ()))"

definition mark_delegate_tasks_terminal :: "plan_env \<Rightarrow> turn_context \<Rightarrow> int \<Rightarrow> batch_status \<Rightarrow> string \<Rightarrow> unit planio" where
  "mark_delegate_tasks_terminal E ctx parent_id status batch_id =
     (if parent_id = 0 then retE ()
      else bindE (update_tool_call_tree E (tc_plan_editor ctx) parent_id (\<lambda>p pl now.
        rbind (require_owned_batch_parent p pl parent_id batch_id) (\<lambda>_.
          Inr (update_at pl (settled_parent status) p)))) (\<lambda>_. retE ()))"

definition sink_mark_parent_step_terminal ::
  "plan_env \<Rightarrow> turn_context \<Rightarrow> int \<Rightarrow> batch_status \<Rightarrow> string \<Rightarrow> bool \<Rightarrow> bool \<Rightarrow> unit planio" where
  "sink_mark_parent_step_terminal E ctx parent_id status batch_id finish_tail_steps recovering =
     (if parent_id = 0 then retE ()
      else bindE (update_tool_call_tree E (tc_plan_editor ctx) parent_id (\<lambda>p pl now.
        rbind (require_owned_batch_parent p pl parent_id batch_id) (\<lambda>_.
          Inr (snd (mark_parent_step_terminal_if_settled p parent_id status finish_tail_steps recovering))))) (\<lambda>_. retE ()))"

definition publish_parent_batch_progress :: "plan_env \<Rightarrow> turn_context \<Rightarrow> batch_record \<Rightarrow> task_run list \<Rightarrow> unit planio" where
  "publish_parent_batch_progress E ctx batch runs =
     (let parent_id = int_or (br_parent_tool_call_id batch) 0 in
      if parent_id = 0 then retE ()
      else suppressE (bindE (update_tool_call_tree E (tc_plan_editor ctx) parent_id (\<lambda>p pl now.
        let owner = projection_batch_id (call_at p pl);
            set_message = update_at pl (map_call (\<lambda>f. f\<lparr>tl_message := parent_progress_message batch runs\<rparr>))
        in if owner \<noteq> []
           then rbind (require_owned_batch_parent p pl parent_id (br_batch_id batch)) (\<lambda>_. Inr (set_message p))
           else if \<not> has_complete_batch_projection p parent_id runs (br_batch_id batch) True
           then Inl (Exn ProjectionIntegrityError ''unmarked plan projection does not match batch'')
           else Inr (set_message (update_at pl (mark_owner (br_batch_id batch)) p)))) (\<lambda>_. retE ())))"

definition queued_call :: "string \<Rightarrow> task_run \<Rightarrow> tool_call \<Rightarrow> tool_call" where
  "queued_call message run =
     map_call (\<lambda>f. f\<lparr>tl_tool_call_status := TS_PENDING, tl_message := message,
       tl_execution_info := (tl_execution_info f)\<lparr>ei_task_runtime := (ei_task_runtime (tl_execution_info f))
         \<lparr>ti_current_stage := ''plan'', ti_attempt := tr_attempt run,
          ti_max_attempts := max 1 (rp_max_attempts (ep_retry (tr_execution_policy run)))\<rparr>\<rparr>\<rparr>)"

definition sink_mark_run_queued :: "plan_env \<Rightarrow> turn_context \<Rightarrow> task_run \<Rightarrow> unit planio" where
  "sink_mark_run_queued E ctx run =
     (if run_call_id run = 0 then retE ()
      else bindE (update_tool_call E (tc_plan_editor ctx) (run_call_id run) (\<lambda>c. Inr (queued_call ''Queued.'' run c))) (\<lambda>_. retE ()))"

definition sink_mark_retry_pending :: "plan_env \<Rightarrow> turn_context \<Rightarrow> task_run \<Rightarrow> unit planio" where
  "sink_mark_retry_pending E ctx run =
     (if run_call_id run = 0 then retE ()
      else bindE (update_tool_call E (tc_plan_editor ctx) (run_call_id run)
             (\<lambda>c. Inr (queued_call (''Queued for retry (attempt '' @ str_of_int (tr_attempt run) @ '').'') run c))) (\<lambda>_. retE ()))"

text \<open>The last part of \<^verbatim>\<open>_update_run_lifecycle\<close>, which the run coordinator reaches through its environment.\<close>

definition sink_update_run ::
  "plan_env \<Rightarrow> turn_context \<Rightarrow> task_run \<Rightarrow> string option \<Rightarrow> task_result option \<Rightarrow> bool \<Rightarrow> string \<Rightarrow> unit planio" where
  "sink_update_run E ctx run active_stage terminal_result sandbox_released lease_outcome =
     bindE (update_tool_call E (tc_plan_editor ctx) (run_call_id run)
       (\<lambda>c. Inr (map_call (apply_run_lifecycle_to_tool_call run active_stage terminal_result sandbox_released lease_outcome) c)))
       (\<lambda>_. retE ())"


subsection \<open>What the projection of a state leaves alone\<close>

text \<open>The fields of a call without those that follow the progress of its run.\<close>

definition outline :: "tool_call_fields \<Rightarrow> tool_call_fields" where
  "outline f = f\<lparr>tl_tool_call_status := TS_UNKNOWN, tl_message := [], tl_updated_at := 0,
                 tl_execution_info := (tl_execution_info f)\<lparr>ei_task_runtime := no_task_runtime\<rparr>\<rparr>"

lemma outline_upd [simp]:
  "outline (f\<lparr>tl_tool_call_status := st\<rparr>) = outline f"
  "outline (f\<lparr>tl_message := m\<rparr>) = outline f"
  "outline (f\<lparr>tl_updated_at := n\<rparr>) = outline f"
  "tl_tool_call_id (outline f) = tl_tool_call_id f"
  "tl_tool_name (outline f) = tl_tool_name f"
  "tl_sub_call_index (outline f) = tl_sub_call_index f"
  "tl_display (outline f) = tl_display f"
  "ei_tool_type (tl_execution_info (outline f)) = ei_tool_type (tl_execution_info f)"
  "ei_builtin_tool_name (tl_execution_info (outline f)) = ei_builtin_tool_name (tl_execution_info f)"
  by (simp_all add: outline_def)

lemma outline_apply_run [simp]:
  "outline (apply_run_lifecycle_to_tool_call run stage result released outcome f) = outline f"
  by (simp add: apply_run_lifecycle_to_tool_call_def Let_def outline_def)

lemma child_index_Some: "child_index cs cid = Some i \<Longrightarrow> i < length cs \<and> tool_call_id (cs ! i) = cid"
  by (auto simp: child_index_def set_zip dest!: map_of_SomeD)

lemma apply_results_outline:
  "apply_results results now runs cs = Inr cs' \<Longrightarrow> map (map_tree outline) cs' = map (map_tree outline) cs"
proof (induction results now runs cs arbitrary: cs' rule: apply_results.induct)
  case (2 results now run runs cs)
  show ?case
  proof (cases "dict_get results (tr_run_id run)")
    case None
    with 2 show ?thesis by simp
  next
    case (Some result)
    with 2(3) obtain i where i: "child_index cs (run_call_id run) = Some i" by (auto split: option.splits)
    with Some 2 show ?thesis
      by (simp add: map_list_update_same map_tree_map_call)
  qed
qed simp

lemma update_at_top:
  "map_tree g (f (call_at p pl)) = map_tree g (call_at p pl) \<Longrightarrow>
     map (map_tree g) (top_calls (pn_steps (update_at pl f p))) = map (map_tree g) (top_calls (pn_steps p))"
  by (rule view_top_calls, rule update_at_view)

lemma apply_state_outline:
  assumes "apply_batch_projection_state p pl batch runs results opts now = Inr u"
  shows "map (map_tree outline) (top_calls (pn_steps u)) = map (map_tree outline) (top_calls (pn_steps p))"
proof -
  from assms obtain cs where cs: "apply_results results now runs (sub_calls (call_at p pl)) = Inr cs"
    by (auto simp: apply_batch_projection_state_def rbind_Inr_iff)
  let ?p1 = "update_at pl (\<lambda>c. ToolCall (call_fields c) cs) p"
  let ?p2 = "update_at pl (settled_parent (br_status batch)) ?p1"
  have 1: "map (map_tree outline) (top_calls (pn_steps ?p1)) = map (map_tree outline) (top_calls (pn_steps p))"
    by (rule update_at_top) (use apply_results_outline [OF cs] in \<open>cases "call_at p pl"; simp\<close>)
  have 2: "map (map_tree outline) (top_calls (pn_steps ?p2)) = map (map_tree outline) (top_calls (pn_steps ?p1))"
    by (rule update_at_top) (simp add: settled_parent_def map_tree_map_call)
  from assms cs have "u = ?p1 \<or> (\<exists>tid st ft rec. u = snd (mark_parent_step_terminal_if_settled ?p2 tid st ft rec))"
    by (auto simp: apply_batch_projection_state_def Let_def split: if_splits)
  then show ?thesis
    using 1 2 mark_parent_step_top [of outline ?p2] by auto
qed

lemma same_ids: "map (map_tree outline) (top_calls (pn_steps u)) = map (map_tree outline) (top_calls (pn_steps p)) \<Longrightarrow> plan_ids u = plan_ids p"
  unfolding plan_ids_top by (metis outline_upd(4) tool_call_ids_cong)

lemma find_map_same: "(\<And>x. P (f x) = P x) \<Longrightarrow> find P (map f xs) = map_option f (find P xs)"
  by (induction xs) auto

lemma tree_id [simp]: "tool_call_id (map_tree outline c) = tool_call_id c"
  by (cases c) simp

lemma complete_parent_outline:
  "complete_parent (map_tree outline c) ids pid runs bid a = complete_parent c ids pid runs bid a"
proof -
  have m: "child_matches (map_tree outline x) run = child_matches x run" for x run
    by (cases x) (simp add: child_matches_def)
  have "list_all2 child_matches (map (map_tree outline) xs) ys = list_all2 child_matches xs ys" for xs ys
    by (simp add: list_all2_map1 m)
  then show ?thesis
    by (cases c) (simp add: complete_parent_def runs_tasks_def projection_batch_id_def Let_def)
qed

lemma has_complete_iff:
  "has_complete_batch_projection p pid runs bid a \<longleftrightarrow>
     (case find (\<lambda>c. tool_call_id c = pid) (top_calls (pn_steps p)) of
        None \<Rightarrow> False | Some c \<Rightarrow> complete_parent c (plan_ids p) pid runs bid a)"
proof (cases "find_top pid 0 (pn_steps p)")
  case None
  then have "find (\<lambda>c. tool_call_id c = pid) (top_calls (pn_steps p)) = None"
    using find_top_None by blast
  with None show ?thesis
    by (simp add: has_complete_batch_projection_def top_level_tool_call_def)
next
  case (Some pl)
  from find_top_sound(2) [OF this] Some show ?thesis
    by (simp add: has_complete_batch_projection_def top_level_tool_call_def)
qed

lemma has_complete_cong:
  assumes "map (map_tree outline) (top_calls (pn_steps u)) = map (map_tree outline) (top_calls (pn_steps p))"
  shows "has_complete_batch_projection u pid runs bid a = has_complete_batch_projection p pid runs bid a"
proof -
  have "map_option (map_tree outline) (find (\<lambda>c. tool_call_id c = pid) (top_calls (pn_steps u)))
      = map_option (map_tree outline) (find (\<lambda>c. tool_call_id c = pid) (top_calls (pn_steps p)))"
    unfolding find_map_same [of "\<lambda>c. tool_call_id c = pid" "map_tree outline", OF tree_id [THEN arg_cong], symmetric] assms ..
  then show ?thesis
    unfolding has_complete_iff same_ids [OF assms]
    by (auto split: option.splits simp: map_option_case) (metis complete_parent_outline)+
qed


subsection \<open>Repairing\<close>

lemma append_top_level_in: "c \<in> set (top_calls (pn_steps (append_top_level_tool_call c now p)))"
proof (cases "append_to_open_step c now (pn_steps p)")
  case None
  then show ?thesis by (auto simp: append_top_level_tool_call_def top_calls_def append_to_step_def)
next
  case (Some ss)
  have "append_to_open_step c now xs = Some ys \<Longrightarrow> c \<in> set (top_calls ys)" for xs ys
    by (induction xs arbitrary: ys) (auto simp: top_calls_def append_to_step_def split: if_splits)
  with Some show ?thesis by (simp add: append_top_level_tool_call_def)
qed

lemma locate_repaired_found:
  assumes "locate_repaired p c now = Inr (q, pl)"
  shows "find_top (tool_call_id c) 0 (pn_steps q) = Some pl"
proof (cases "find_top (tool_call_id c) 0 (pn_steps p)")
  case None
  with assms have q: "q = append_top_level_tool_call c now p" "pl = the (find_top (tool_call_id c) 0 (pn_steps q))"
    by (auto simp: locate_repaired_def Let_def split: if_splits)
  have "find_top (tool_call_id c) 0 (pn_steps q) \<noteq> None"
    using append_top_level_in [of c now p] by (auto simp: find_top_None find_None_iff q(1))
  with q(2) show ?thesis by simp
next
  case (Some pl')
  then obtain i j where pl': "pl' = (i, j, None)" using find_top_Some by blast
  let ?p = "update_at pl' (map_call (\<lambda>f. f\<lparr>tl_updated_at := now\<rparr>)) p"
  from assms Some pl' have q: "q = step_touched i now ?p" "pl = pl'"
    by (auto simp: locate_repaired_def Let_def split: if_splits)
  have "find_top (tool_call_id c) 0 (pn_steps ?p) = Some pl'"
    by (rule find_top_update_at [OF Some]) (simp add: find_top_sound(3) [OF Some])
  moreover have "find_top (tool_call_id c) 0 (pn_steps q) = find_top (tool_call_id c) 0 (pn_steps ?p)"
    by (rule find_top_cong) (auto simp: q step_touched_def intro!: map_list_update_same)
  ultimately show ?thesis by (simp add: q)
qed

lemma stamped_id: "tool_call_id (map_tree (\<lambda>f. f\<lparr>tl_updated_at := n\<rparr>) c) = tool_call_id c"
  by (cases c) simp

lemma canonical_tree_sel:
  "tool_call_id (canonical_tree batch runs) = int_or (br_parent_tool_call_id batch) 0"
  "tool_call_ids (canonical_tree batch runs) = int_or (br_parent_tool_call_id batch) 0 # map run_call_id (ordered_runs runs)"
  by (simp_all add: canonical_tree_def canonical_child_def plain_call_def Let_def comp_def)

lemma dict_eq_refl [simp]: "dict_eq d d"
  by (simp add: dict_eq_def list_all_iff)

lemma repaired_child_matches:
  assumes "tl_tool_name f = str_or (ts_title (tr_spec run)) ''TaskRun''" "tl_tool_call_id f = run_call_id run"
    "tl_sub_call_index f = tr_batch_item_index run" "tl_display f = task_display_map (tr_spec run)"
  shows "child_matches (repaired_child cs (ToolCall f [])) run"
  using assms child_index_Some [of cs "run_call_id run"]
  by (auto simp: repaired_child_def child_matches_def split: option.splits)

lemma repaired_parent_complete:
  assumes strip: "py_strip (br_batch_id batch) = br_batch_id batch"
    and dist: "distinct (tool_call_ids (canonical_tree batch runs))" "\<forall>i \<in> set (tool_call_ids (canonical_tree batch runs)). 0 < i"
    and once: "\<forall>i \<in> set (tool_call_ids (canonical_tree batch runs)). count_list ids i = 1"
    and runs: "\<forall>run \<in> set runs. tr_parent_tool_call_id run = br_parent_tool_call_id batch"
    and pid: "br_parent_tool_call_id batch = Some pid"
  shows "complete_parent (repaired_parent (map_tree (\<lambda>f. f\<lparr>tl_updated_at := now\<rparr>) (canonical_tree batch runs)) existing)
           ids pid runs (br_batch_id batch) False"
proof -
  let ?c = "map_tree (\<lambda>f. f\<lparr>tl_updated_at := now\<rparr>) (canonical_tree batch runs)"
  have p0: "int_or (br_parent_tool_call_id batch) 0 = pid" using pid by (simp add: int_or_def)
  have "list_all2 child_matches (sub_calls (repaired_parent ?c existing)) (ordered_runs runs)"
    by (auto simp: repaired_parent_def canonical_tree_def canonical_child_def plain_call_def Let_def list_all2_map1
        intro!: list.rel_refl_strong repaired_child_matches)
  moreover have "projection_batch_id (repaired_parent ?c existing) = br_batch_id batch"
    by (simp add: projection_batch_id_def repaired_parent_def canonical_tree_def plain_call_def Let_def
        batch_parent_display_def dict_get_set strip)
  ultimately show ?thesis
    using dist once runs pid p0
    by (auto simp: complete_parent_def Let_def repaired_parent_def canonical_tree_def plain_call_def run_tasks_info_def
        runs_tasks_def list_all_iff canonical_tree_sel(2) ordered_runs_def canonical_child_def comp_def)
qed

text \<open>
  C33. A repair of the tree of a batch is complete. When it succeeds, for a batch identifier without blanks around it and
  runs that name the parent call of the batch, the plan file of the turn holds
  a plan in which the parent, marked with the batch, and the sub-calls of exactly the runs of the batch stand, in order,
  with their names and displays and each identifier once, so that the next publication finds the projection without a repair.
\<close>

theorem repaired_projection_complete:
  assumes "repair_batch_projection E ctx batch runs results opts w = (Inr True, w')"
    and "br_parent_tool_call_id batch = Some pid"
    and "py_strip (br_batch_id batch) = br_batch_id batch"
    and "\<forall>run \<in> set runs. tr_parent_tool_call_id run = br_parent_tool_call_id batch"
  shows "\<exists>q. pw_files w' = dict_set (tc_plan_editor ctx) (pv_dump E q) (pw_files w)
    \<and> has_complete_batch_projection q pid runs (br_batch_id batch) False"
proof -
  let ?c = "canonical_tree batch runs"
  from assms(1) have "repair_tool_call_tree E (tc_plan_editor ctx) ?c (repair_existing batch runs results opts) w = (Inr True, w')"
    by (auto simp: repair_batch_projection_def catchE_def split: prod.splits sum.splits)
  then show ?thesis
  proof (cases rule: repair_tree_cases)
    case (repaired p q0 pl u q)
    let ?d = "map_tree (\<lambda>f. f\<lparr>tl_updated_at := time_now w\<rparr>) ?c"
    let ?v = "update_at pl (repaired_parent ?d) q0"
    have pid: "tool_call_id ?d = pid"
      using assms(2) by (simp add: stamped_id canonical_tree_sel int_or_def)
    from locate_repaired_found [OF repaired(4)] have top: "find_top pid 0 (pn_steps q0) = Some pl" by (simp add: pid)
    have state: "apply_batch_projection_state ?v pl batch runs (results_by_run_id results) opts (time_now w) = Inr u"
      using repaired(5) by (simp add: repair_existing_def Let_def split: if_splits)
    note same = apply_state_outline [OF state]
    have "find_top pid 0 (pn_steps ?v) = Some pl"
      by (rule find_top_update_at [OF top]) (simp add: repaired_parent_def find_top_sound(3) [OF top])
    moreover have "call_at ?v pl = repaired_parent ?d (call_at q0 pl)"
      by (rule call_at_update) (rule find_top_sound(1) [OF top])
    moreover have "complete_parent (repaired_parent ?d (call_at q0 pl)) (plan_ids ?v) pid runs (br_batch_id batch) False"
      by (rule repaired_parent_complete) (use assms repaired(2,3,6) same_ids [OF same] in auto)
    ultimately have "has_complete_batch_projection ?v pid runs (br_batch_id batch) False"
      by (simp add: has_complete_batch_projection_def top_level_tool_call_def)
    then have "has_complete_batch_projection u pid runs (br_batch_id batch) False"
      using has_complete_cong [OF same] by blast
    moreover have "plan_ids q = plan_ids u" using repaired(7) by (simp add: plan_ids_concat)
    ultimately have "has_complete_batch_projection q pid runs (br_batch_id batch) False"
      using repaired(7) by (auto simp: has_complete_iff split: option.splits)
    with repaired(8) show ?thesis by blast
  qed simp
qed


subsection \<open>Trees of other batches\<close>

lemma reads_plan_unique: "reads_plan E k w p \<Longrightarrow> reads_plan E k w q \<Longrightarrow> q = p"
  by (simp add: reads_plan_def)

lemma foreign_not_updated:
  assumes "find_top pid 0 (pn_steps p) = Some pl" and "projection_batch_id (call_at p pl) \<notin> {[], br_batch_id batch}"
    and "int_or (br_parent_tool_call_id batch) 0 = pid"
  shows "\<exists>e. update_existing_updater batch runs results opts p pl' now = Inl e"
proof -
  have "\<not> is_owned_batch_parent p pl' pid (br_batch_id batch)"
    using assms by (auto simp: is_owned_batch_parent_def top_level_tool_call_def)
  moreover have "\<not> has_complete_batch_projection p pid runs (br_batch_id batch) a" for a
    using assms by (auto simp: has_complete_batch_projection_def top_level_tool_call_def complete_parent_def Let_def)
  ultimately show ?thesis
    using assms(3) by (auto simp: update_existing_updater_def Let_def require_owned_batch_parent_def)
qed

lemma foreign_not_repaired:
  assumes top: "find_top (tool_call_id c) 0 (pn_steps p) = Some pl"
    and foreign: "projection_batch_id (call_at p pl) \<noteq> br_batch_id batch"
    and loc: "locate_repaired p c now = Inr (q, pl')"
  shows "\<exists>e. repair_existing batch runs results opts q pl' d now = Inl e"
proof -
  obtain i j where pl: "pl = (i, j, None)" using find_top_Some [OF top] by blast
  let ?p = "update_at pl (map_call (\<lambda>f. f\<lparr>tl_updated_at := now\<rparr>)) p"
  from loc top pl have q: "q = step_touched i now ?p" "pl' = pl"
    by (auto simp: locate_repaired_def Let_def split: if_splits)
  have "call_at q pl = call_at ?p pl"
    using find_top_sound(1) [OF top] by (simp add: q pl call_at_def step_touched_def place_ok_def)
  also have "\<dots> = map_call (\<lambda>f. f\<lparr>tl_updated_at := now\<rparr>) (call_at p pl)"
    by (rule call_at_update) (rule find_top_sound(1) [OF top])
  finally have "projection_batch_id (call_at q pl') = projection_batch_id (call_at p pl)"
    by (simp add: projection_batch_id_def q(2))
  with foreign show ?thesis by (auto simp: repair_existing_def Let_def)
qed

text \<open>
  C32. The sink never touches the tree of another batch. When the plan of the turn can be read and its top-level call with the
  identifier that a batch names as its parent is marked with a different batch, synchronising the batch, under whatever options,
  reports no success and leaves all plan files as they are.
\<close>

theorem foreign_projection_untouched:
  assumes "reads_plan E (tc_plan_editor ctx) w p"
    and "top_level_tool_call p (int_or (br_parent_tool_call_id batch) 0) = Some pl"
    and "projection_batch_id (call_at p pl) \<notin> {[], br_batch_id batch}"
    and "sync_batch_projection E ctx batch runs results opts w = (r, w')"
  shows "r \<noteq> Inr True \<and> pw_files w' = pw_files w"
proof -
  let ?pid = "int_or (br_parent_tool_call_id batch) 0"
  let ?k = "tc_plan_editor ctx"
  note top = assms(2) [unfolded top_level_tool_call_def]
  have upd: "pw_files w1 = pw_files w \<and> s \<noteq> Inr True"
    if "update_existing_batch_projection E ctx batch runs results opts w = (s, w1)" for s w1
    using that [unfolded update_existing_batch_projection_def]
  proof (cases rule: update_tree_cases)
    case (updated p' pl' u q)
    with reads_plan_unique [OF assms(1)] foreign_not_updated [OF top assms(3) refl, of runs results opts pl' "time_now w"]
    show ?thesis by auto
  qed simp
  have rep: "pw_files w1 = pw_files v \<and> s \<noteq> Inr True"
    if v: "reads_plan E ?k v p" and r: "repair_batch_projection E ctx batch runs results opts v = (s, w1)" for s v w1
  proof -
    obtain s0 where r0: "repair_tool_call_tree E ?k (canonical_tree batch runs) (repair_existing batch runs results opts) v = (s0, w1)"
      and s0: "s = Inr True \<longrightarrow> s0 = Inr True"
      using r by (auto simp: repair_batch_projection_def catchE_def split: prod.splits sum.splits)
    from r0 show ?thesis
    proof (cases rule: repair_tree_cases)
      case (repaired p' q0 pl' u q)
      have "p' = p" by (rule reads_plan_unique [OF v repaired(1)])
      moreover have "find_top (tool_call_id (map_tree (\<lambda>f. f\<lparr>tl_updated_at := time_now v\<rparr>) (canonical_tree batch runs))) 0 (pn_steps p) = Some pl"
        using top by (simp add: stamped_id canonical_tree_sel)
      ultimately obtain e where "repair_existing batch runs results opts q0 pl'
          (map_tree (\<lambda>f. f\<lparr>tl_updated_at := time_now v\<rparr>) (canonical_tree batch runs)) (time_now v) = Inl e"
        using foreign_not_repaired repaired(4) assms(3) by blast
      with repaired(5) show ?thesis by simp
    qed (use s0 in auto)
  qed
  show ?thesis
  proof (cases "br_parent_conversation_id batch \<noteq> tc_conversation_id ctx \<or> br_parent_turn_id batch \<noteq> tc_turn_id ctx")
    case True
    with assms(4) show ?thesis by (auto simp: sync_batch_projection_def)
  next
    case False
    show ?thesis
    proof (cases "po_publish_only opts")
      case True
      with False assms show ?thesis
        by (auto simp: sync_batch_projection_def publish_existing_batch_projection_def Let_def get_plan_def read_plan_def
            plan_lock_def reads_plan_def catch_Exception_def catchE_def bindE_apply
            split: option.splits if_splits)
    next
      case pub: False
      obtain s w1 where s: "update_existing_batch_projection E ctx batch runs results opts w = (s, w1)" by (meson surj_pair)
      have w1: "pw_files w1 = pw_files w" "s \<noteq> Inr True" using upd [OF s] by simp_all
      have "reads_plan E ?k w1 p"
        using reads_plan_cong [OF w1(1)] preservesD [OF update_tree_keeps_marker refl s [unfolded update_existing_batch_projection_def]]
          assms(1) by simp
      note rep = rep [OF this]
      show ?thesis
      proof (cases s)
        case (Inl e)
        show ?thesis
        proof (cases "exn_class e = OtherError ''_ProjectionShapeMismatch'' \<and> po_repair opts")
          case True
          with Inl s False pub assms(4) have "repair_batch_projection E ctx batch runs results opts w1 = (r, w')"
            by (simp add: sync_batch_projection_def catch_class_def)
          from rep [OF this] w1 show ?thesis by simp
        next
          case unrep: False
          with Inl s False pub assms(4) w1 show ?thesis
            by (cases "exn_class e = OtherError ''_ProjectionShapeMismatch''") (auto simp: sync_batch_projection_def catch_class_def)
        qed
      next
        case (Inr b)
        with w1 have b: "b = False" by simp
        show ?thesis
        proof (cases "po_repair opts")
          case True
          with Inr b s False pub assms(4) have "repair_batch_projection E ctx batch runs results opts w1 = (r, w')"
            by (simp add: sync_batch_projection_def catch_class_def)
          from rep [OF this] w1 show ?thesis by simp
        next
          case unrep: False
          with Inr b s False pub assms(4) w1 show ?thesis
            by (auto simp: sync_batch_projection_def catch_class_def)
        qed
      qed
    qed
  qed
qed


subsection \<open>Recovery\<close>

lemma place_ok_update: "place_ok p pl \<Longrightarrow> place_ok (update_at pl f p) pl"
  by (auto simp: place_ok_def update_at_def Let_def split: prod.splits option.splits)

lemma tree_self: "t \<in> set (iter_tool_call_tree t)"
  by (cases t) simp

lemma call_at_in:
  assumes "place_ok p pl"
  shows "call_at p pl \<in> set (iter_tool_calls p)"
proof -
  obtain i j k where pl: "pl = (i, j, k)" by (cases pl)
  let ?c = "ps_tool_calls (pn_steps p ! i) ! j"
  have "call_at p pl \<in> set (iter_tool_call_tree ?c)"
  proof (cases k)
    case None
    then show ?thesis by (simp add: pl call_at_def tree_self)
  next
    case (Some m)
    with assms pl have "sub_calls ?c ! m \<in> set (sub_calls ?c)" by (simp add: place_ok_def)
    then show ?thesis using tree_self [of "sub_calls ?c ! m"] by (cases ?c) (auto simp: pl Some call_at_def)
  qed
  moreover have "?c \<in> set (ps_tool_calls (pn_steps p ! i))" "pn_steps p ! i \<in> set (pn_steps p)"
    using assms pl by (auto simp: place_ok_def)
  ultimately show ?thesis by (auto simp: iter_tool_calls_def)
qed

lemma count_one_unique:
  "count_list (map f xs) v = 1 \<Longrightarrow> x \<in> set xs \<Longrightarrow> y \<in> set xs \<Longrightarrow> f x = v \<Longrightarrow> f y = v \<Longrightarrow> x = y"
proof (induction xs)
  case (Cons a xs)
  have zero: "z \<in> set xs \<Longrightarrow> f z = v \<Longrightarrow> count_list (map f xs) v \<noteq> 0" for z
    by (auto simp: count_list_0_iff)
  from Cons zero show ?case by (auto split: if_splits)
qed simp

lemma map_tree_comp: "map_tree g (map_tree h t) = map_tree (\<lambda>f. g (h f)) t"
  by (induction t) simp

definition only_id :: "tool_call_fields \<Rightarrow> tool_call_fields" where
  "only_id f = plain_call [] [] (tl_tool_call_id f) [] TS_UNKNOWN"

lemma only_id_sel: "tl_tool_call_id (only_id f) = tl_tool_call_id f" "only_id (outline f) = only_id f"
  by (simp_all add: only_id_def plain_call_def)

lemma only_id_outline: "map (map_tree outline) cs = map (map_tree outline) ds \<Longrightarrow> map (map_tree only_id) cs = map (map_tree only_id) ds"
proof -
  have c: "map (map_tree only_id) xs = map (map_tree only_id) (map (map_tree outline) xs)" for xs
    by (simp add: map_tree_comp only_id_sel)
  show "map (map_tree outline) cs = map (map_tree outline) ds \<Longrightarrow> map (map_tree only_id) cs = map (map_tree only_id) ds"
    by (subst (1 2) c) simp
qed

lemma view_nth:
  assumes "steps_view g ss = steps_view g ss'" and "i < length ss"
  shows "i < length ss'" "ps_status (ss ! i) = ps_status (ss' ! i)"
    "map (map_tree g) (ps_tool_calls (ss ! i)) = map (map_tree g) (ps_tool_calls (ss' ! i))"
proof -
  from arg_cong [OF assms(1), of length] assms(2) show l: "i < length ss'" by (simp add: steps_view_def)
  from arg_cong [OF assms(1), of "\<lambda>xs. xs ! i"] assms(2) l
  show "ps_status (ss ! i) = ps_status (ss' ! i)"
    "map (map_tree g) (ps_tool_calls (ss ! i)) = map (map_tree g) (ps_tool_calls (ss' ! i))"
    by (simp_all add: steps_view_def)
qed

lemma contains_cong:
  assumes "\<And>f. tl_tool_call_id (g f) = tl_tool_call_id f" and "map (map_tree g) cs = map (map_tree g) ds"
  shows "list_ex (\<lambda>c. tool_call_tree_contains_id c tid) cs = list_ex (\<lambda>c. tool_call_tree_contains_id c tid) ds"
proof -
  have e: "list_ex (\<lambda>c. tool_call_tree_contains_id c tid) xs \<longleftrightarrow> (\<exists>x \<in> set (map tool_call_ids xs). tid \<in> set x)" for xs
    by (auto simp: list_ex_iff contains_id_iff)
  show ?thesis by (simp only: e tool_call_ids_cong [OF assms])
qed

lemma settled_cong:
  assumes "map (map_tree (\<lambda>f. f\<lparr>tl_updated_at := 0\<rparr>)) cs = map (map_tree (\<lambda>f. f\<lparr>tl_updated_at := 0\<rparr>)) ds"
  shows "list_all tool_call_settled cs = list_all tool_call_settled ds"
proof -
  have "tool_call_settled (map_tree (\<lambda>f. f\<lparr>tl_updated_at := 0\<rparr>) t) = tool_call_settled t" for t
    by (induction t) (auto simp: list_all_iff)
  then have "list_all tool_call_settled xs = list_all tool_call_settled (map (map_tree (\<lambda>f. f\<lparr>tl_updated_at := 0\<rparr>)) xs)" for xs
    by (simp add: list_all_iff)
  with assms show ?thesis by metis
qed

lemma status_for_batch_settled: "tool_call_status_for_batch st \<notin> set ACTIVE_TOOL_CALL_STATUSES"
  by (simp add: tool_call_status_for_batch_def ACTIVE_TOOL_CALL_STATUSES_def)

text \<open>The plan just before the step is ended, in a recovery that found the projection complete.\<close>

lemma recovered_state:
  assumes pl: "get_tool_call p pid = Some pl" and pid: "int_or (br_parent_tool_call_id batch) 0 = pid" "pid \<noteq> 0"
    and upd: "update_existing_updater batch runs results recovery_options p pl now = Inr u"
  obtains v where "u = snd (mark_parent_step_terminal_if_settled v pid (br_status batch) True True)"
    "steps_view only_id (pn_steps v) = steps_view only_id (pn_steps p)"
    "\<forall>c \<in> set (iter_tool_calls v). tool_call_id c = pid \<longrightarrow> call_status c \<notin> set ACTIVE_TOOL_CALL_STATUSES"
    "owning_step pid 0 (pn_steps v) \<noteq> None"
proof -
  let ?p0 = "if projection_batch_id (call_at p pl) = [] then update_at pl (mark_owner (br_batch_id batch)) p else p"
  from upd pid have comp: "has_complete_batch_projection p pid runs (br_batch_id batch) True"
    and st: "apply_batch_projection_state ?p0 pl batch runs (results_by_run_id results) recovery_options now = Inr u"
    by (auto simp: update_existing_updater_def Let_def rbind_Inr_iff recovery_options_def no_options_def split: if_splits)
  from comp have once: "count_list (plan_ids p) pid = 1"
    by (auto simp: has_complete_batch_projection_def complete_parent_def Let_def split: option.splits)
  from get_tool_call_sound [OF pl] have ok: "place_ok p pl" "tool_call_id (call_at p pl) = pid" by simp_all
  from st obtain cs where cs: "apply_results (results_by_run_id results) now runs (sub_calls (call_at ?p0 pl)) = Inr cs"
    by (auto simp: apply_batch_projection_state_def rbind_Inr_iff)
  let ?p1 = "update_at pl (\<lambda>c. ToolCall (call_fields c) cs) ?p0"
  let ?v = "update_at pl (settled_parent (br_status batch)) ?p1"
  have ok0: "place_ok ?p0 pl" and ok1: "place_ok ?p1 pl" using ok(1) by (simp_all add: place_ok_update)
  have "steps_view only_id (pn_steps ?p0) = steps_view only_id (pn_steps p)"
    by (simp add: update_at_view map_tree_map_call mark_owner_def only_id_def)
  moreover have "steps_view only_id (pn_steps ?p1) = steps_view only_id (pn_steps ?p0)"
    by (rule update_at_view) (use only_id_outline [OF apply_results_outline [OF cs]] in \<open>cases "call_at ?p0 pl"; simp\<close>)
  moreover have "steps_view only_id (pn_steps ?v) = steps_view only_id (pn_steps ?p1)"
    by (rule update_at_view) (simp add: settled_parent_def map_tree_map_call only_id_def)
  ultimately have view: "steps_view only_id (pn_steps ?v) = steps_view only_id (pn_steps p)" by simp
  have "plan_ids ?v = plan_ids p"
    unfolding plan_ids_top using tool_call_ids_cong [OF only_id_sel(1) view_top_calls [OF view]] by simp
  with once have once': "count_list (map tool_call_id (iter_tool_calls ?v)) pid = 1" by (simp add: plan_ids_def)
  have at0: "call_at ?p0 pl = (if projection_batch_id (call_at p pl) = [] then mark_owner (br_batch_id batch) (call_at p pl) else call_at p pl)"
    using ok(1) by simp
  then have "tool_call_id (call_at ?p0 pl) = pid" using ok(2) by (simp add: mark_owner_def)
  then have at: "tool_call_id (call_at ?v pl) = pid" "call_status (call_at ?v pl) = tool_call_status_for_batch (br_status batch)"
    using ok0 ok1 by (simp_all add: settled_parent_def)
  have inn: "call_at ?v pl \<in> set (iter_tool_calls ?v)" by (rule call_at_in) (rule place_ok_update [OF ok1])
  have "\<forall>c \<in> set (iter_tool_calls ?v). tool_call_id c = pid \<longrightarrow> call_status c \<notin> set ACTIVE_TOOL_CALL_STATUSES"
    using count_one_unique [OF once' inn] at status_for_batch_settled by metis
  moreover have "owning_step pid 0 (pn_steps ?v) \<noteq> None"
  proof -
    from inn obtain s t where "s \<in> set (pn_steps ?v)" "t \<in> set (ps_tool_calls s)" "call_at ?v pl \<in> set (iter_tool_call_tree t)"
      by (auto simp: iter_tool_calls_def)
    moreover from this(3) at(1) have "pid \<in> set (tool_call_ids t)" by (force simp flip: map_id_tree)
    ultimately show ?thesis by (intro owning_step_exists)
  qed
  moreover have "u = snd (mark_parent_step_terminal_if_settled ?v pid (br_status batch) True True)"
    using st cs pid by (simp add: apply_batch_projection_state_def Let_def recovery_options_def no_options_def)
  ultimately show thesis using that view by blast
qed

text \<open>
  C34. After a crash the step that hosts a batch does not stay open. When the recovery has synchronised
  the batch, that is, with the options of the recovery the call reports success, the plan file of the turn has the step with the
  parent call in a terminal status, the
  one of the batch if the step was open and its own otherwise, and all its calls, siblings included,
  have settled.
\<close>

theorem recovered_step_ends:
  assumes "sync_batch_projection E ctx batch runs results recovery_options w = (Inr True, w')"
  shows "\<exists>p q s0 s. reads_plan E (tc_plan_editor ctx) w p
    \<and> pw_files w' = dict_set (tc_plan_editor ctx) (pv_dump E q) (pw_files w)
    \<and> s0 \<in> set (pn_steps p) \<and> list_ex (\<lambda>c. tool_call_tree_contains_id c (int_or (br_parent_tool_call_id batch) 0)) (ps_tool_calls s0)
    \<and> s \<in> set (pn_steps q) \<and> list_ex (\<lambda>c. tool_call_tree_contains_id c (int_or (br_parent_tool_call_id batch) 0)) (ps_tool_calls s)
    \<and> step_tool_calls_settled s
    \<and> ps_status s = (if step_can_terminalize s0 then terminal_plan_step_status (br_status batch) else ps_status s0)
    \<and> ps_status s \<in> set TERMINAL_PLAN_STEP_STATUSES"
proof -
  let ?pid = "int_or (br_parent_tool_call_id batch) 0"
  from assms have "update_existing_batch_projection E ctx batch runs results recovery_options w = (Inr True, w')"
    by (auto simp: sync_batch_projection_def recovery_options_def no_options_def catch_class_def catchE_def bindE_apply
        split: if_splits prod.splits sum.splits)
  then have up: "update_tool_call_tree E (tc_plan_editor ctx) ?pid (update_existing_updater batch runs results recovery_options) w = (Inr True, w')"
    by (simp add: update_existing_batch_projection_def)
  then have nz: "?pid \<noteq> 0" by (auto simp: update_tool_call_tree_def)
  from up show ?thesis
  proof (cases rule: update_tree_cases)
    case (updated p pl u q)
    from recovered_state [OF updated(2) refl nz updated(3)] obtain v where
      u: "u = snd (mark_parent_step_terminal_if_settled v ?pid (br_status batch) True True)"
      and view: "steps_view only_id (pn_steps v) = steps_view only_id (pn_steps p)"
      and kept: "\<forall>c \<in> set (iter_tool_calls v). tool_call_id c = ?pid \<longrightarrow> call_status c \<notin> set ACTIVE_TOOL_CALL_STATUSES"
      and "owning_step ?pid 0 (pn_steps v) \<noteq> None" .
    then obtain i where own: "owning_step ?pid 0 (pn_steps v) = Some i" by auto
    note ends = recovering_step_ends [OF nz own kept, of "br_status batch" True, folded u]
    from owning_step_Some [OF own] have i: "i < length (pn_steps v)"
      and c: "list_ex (\<lambda>c. tool_call_tree_contains_id c ?pid) (ps_tool_calls (pn_steps v ! i))" by simp_all
    note vp = view_nth [OF view i]
    let ?g = "\<lambda>f :: tool_call_fields. f\<lparr>tl_updated_at := 0\<rparr>"
    have "steps_view ?g (pn_steps u) = steps_view ?g (pn_steps q)"
      unfolding updated(4) by (subst propagate_view, simp, subst update_at_view) (simp_all add: map_tree_map_call)
    note uq = view_nth [OF this ends(1)]
    have s: "list_ex (\<lambda>c. tool_call_tree_contains_id c ?pid) (ps_tool_calls (pn_steps q ! i))"
      using ends(4) contains_cong [OF _ uq(3)] by simp
    moreover have "step_tool_calls_settled (pn_steps q ! i)"
      using ends(2) s settled_cong [OF uq(3)] by (auto simp: step_tool_calls_settled_def)
    moreover have "ps_status (pn_steps q ! i)
        = (if step_can_terminalize (pn_steps p ! i) then terminal_plan_step_status (br_status batch) else ps_status (pn_steps p ! i))"
      using ends(3) uq(2) vp(2) by (simp add: step_can_terminalize_def)
    moreover from this have "ps_status (pn_steps q ! i) \<in> set TERMINAL_PLAN_STEP_STATUSES"
      using terminal_or_open [of "pn_steps p ! i"] by (auto split: if_splits)
    moreover have "list_ex (\<lambda>c. tool_call_tree_contains_id c ?pid) (ps_tool_calls (pn_steps p ! i))"
      using c contains_cong [OF only_id_sel(1) vp(3)] by simp
    ultimately show ?thesis
      using updated(1,5) vp(1) uq(1) by (intro exI [of _ p] exI [of _ q] exI [of _ "pn_steps p ! i"] exI [of _ "pn_steps q ! i"]) simp
  qed simp
qed


subsection \<open>Examples\<close>

definition demo_ctx :: turn_context where
  "demo_ctx =
     \<lparr>tc_username = ''u'', tc_agent_id = ''a'', tc_agent_instance_id = 1, tc_project_id = 1, tc_conversation_id = 1,
      tc_turn_id = 1, tc_plan_editor = extra_key demo_extra, tc_submission_id = ''s'', tc_submission_source = [], tc_batch_ids = []\<rparr>"

definition demo_run :: task_run where
  "demo_run = (sample_run ''r'' RUNNING)\<lparr>tr_parent_tool_call_id := Some 7, tr_plan_batch_call_id := Some 8\<rparr>"

definition demo_batch :: "string \<Rightarrow> batch_record" where
  "demo_batch bid = (sample_batch B_FAILED)\<lparr>br_batch_id := bid, br_parent_tool_call_id := Some 7\<rparr>"

text \<open>The plan with the tree of the batch in its second step, beside a call that is still running.\<close>

definition projected_plan :: plan where
  "projected_plan = append_top_level_tool_call (canonical_tree (demo_batch ''b'') [demo_run]) 0 demo_plan"

lemma demo_repair: "fst (repair_batch_projection (demo_env demo_plan) demo_ctx (demo_batch ''b'') [demo_run] [] no_options demo_world) = Inr True"
  by code_simp

lemma demo_recover:
  "fst (sync_batch_projection (demo_env projected_plan) demo_ctx (demo_batch ''b'') [demo_run] [] recovery_options demo_world) = Inr True"
  by code_simp

theorem repaired_projection_complete_witness:
  "\<exists>q w'. repair_batch_projection (demo_env demo_plan) demo_ctx (demo_batch ''b'') [demo_run] [] no_options demo_world = (Inr True, w')
    \<and> pw_files w' = dict_set (tc_plan_editor demo_ctx) (pv_dump (demo_env demo_plan) q) (pw_files demo_world)
    \<and> has_complete_batch_projection q 7 [demo_run] ''b'' False"
proof -
  let ?m = "repair_batch_projection (demo_env demo_plan) demo_ctx (demo_batch ''b'') [demo_run] [] no_options"
  obtain w' where m: "?m demo_world = (Inr True, w')"
    using demo_repair by (cases "?m demo_world") simp
  from repaired_projection_complete [OF m, of 7]
  have "\<exists>q. pw_files w' = dict_set (tc_plan_editor demo_ctx) (pv_dump (demo_env demo_plan) q) (pw_files demo_world)
      \<and> has_complete_batch_projection q 7 [demo_run] ''b'' False"
    by (simp add: demo_batch_def demo_run_def py_strip_stripped stripped_def py_isspace_def)
  with m show ?thesis by blast
qed

theorem foreign_projection_untouched_witness:
  "top_level_tool_call projected_plan 7 = Some (1, 1, None)
    \<and> projection_batch_id (call_at projected_plan (1, 1, None)) \<notin> {[], ''other''}
    \<and> (\<exists>r w'. sync_batch_projection (demo_env projected_plan) demo_ctx (demo_batch ''other'') [demo_run] [] owner_finalization demo_world
        = (r, w') \<and> r \<noteq> Inr True \<and> pw_files w' = pw_files demo_world)"
proof -
  let ?m = "sync_batch_projection (demo_env projected_plan) demo_ctx (demo_batch ''other'') [demo_run] [] owner_finalization"
  have tl: "top_level_tool_call projected_plan 7 = Some (1, 1, None)"
    by code_simp
  moreover have other: "projection_batch_id (call_at projected_plan (1, 1, None)) \<notin> {[], ''other''}"
    by code_simp
  moreover have reads: "reads_plan (demo_env projected_plan) (tc_plan_editor demo_ctx) demo_world projected_plan"
    using demo_reads by (simp add: demo_ctx_def)
  obtain r w' where m: "?m demo_world = (r, w')" by (cases "?m demo_world")
  have "r \<noteq> Inr True \<and> pw_files w' = pw_files demo_world"
    by (rule foreign_projection_untouched [OF reads _ _ m, of "(1, 1, None)"])
      (use tl other in \<open>simp_all add: demo_batch_def int_or_def\<close>)
  with tl other m show ?thesis by blast
qed

theorem recovered_step_ends_witness:
  "\<exists>q s w'. sync_batch_projection (demo_env projected_plan) demo_ctx (demo_batch ''b'') [demo_run] [] recovery_options demo_world
      = (Inr True, w')
    \<and> pw_files w' = dict_set (tc_plan_editor demo_ctx) (pv_dump (demo_env projected_plan) q) (pw_files demo_world)
    \<and> s \<in> set (pn_steps q) \<and> step_tool_calls_settled s \<and> ps_status s \<in> set TERMINAL_PLAN_STEP_STATUSES"
proof -
  let ?m = "sync_batch_projection (demo_env projected_plan) demo_ctx (demo_batch ''b'') [demo_run] [] recovery_options"
  obtain w' where m: "?m demo_world = (Inr True, w')"
    using demo_recover by (cases "?m demo_world") simp
  from recovered_step_ends [OF m] show ?thesis
    by (elim exE conjE) (intro exI conjI; (rule m | assumption))
qed


end
