(* ===== verification/Spec2Isabelle.thy ===== *)
theory Spec2Isabelle
  imports Attempt_Leases Manager Sub_Agent_Executor Experience Plan_Projection
begin

text \<open>
  \<^bold>\<open>The task runtime of Sico\<close>

  Sico runs digital workers. Its Python core (\<^verbatim>\<open>src/core/app\<close>) hands work to the task runtime
  (\<^verbatim>\<open>src/core/app/biz/task_runtime\<close>), the subject of this development: a planner turns a batch of
  tasks into runs, a scheduler executes them in stages under concurrency and resource limits, a
  run coordinator takes each run from the queue to a terminal result with the help of a sandbox
  coordinator that leases machines, a store keeps runs, batches and results and fences stale
  workers, and a reconciler settles what a crashed process left behind. A run is executed either
  as one capability, or as a sub-agent: a loop in which a language model chooses the capabilities
  to call, each call being a child run. Beside it, experience learning
  (\<^verbatim>\<open>src/core/app/experiences\<close>) keeps a playbook of strategies per worker, and the plan of a turn
  (\<^verbatim>\<open>src/core/app/schemas\<close>, \<^verbatim>\<open>src/core/app/tools/plan.py\<close>) shows the user what is being done and
  carries the request to cancel it. File names below are relative to the directory of the task
  runtime unless they begin with \<^verbatim>\<open>experiences\<close>, \<^verbatim>\<open>schemas\<close>, \<^verbatim>\<open>tools\<close> or \<^verbatim>\<open>storage/plan_fs.py\<close>, which
  are relative to \<^verbatim>\<open>src/core/app\<close>.

  \<^bold>\<open>How Python is rendered\<close> (\<open>Py_Prelude\<close>, \<open>Py_Strings\<close>)

  A fallible, stateful operation is a function from a state to a pair of a result and a state, of
  type \<open>('s, 'a) io\<close>; a result is \<open>Inr\<close> of what is returned or \<open>Inl\<close> of an exception of the type
  \<open>exn\<close>, which carries the class and the message. \<open>bindE\<close>, \<open>catchE\<close>, \<open>finallyE\<close>, \<open>suppressE\<close> and
  \<open>forE\<close> are the sequencing, \<open>except\<close>, \<open>finally\<close>, \<open>contextlib.suppress\<close> and \<open>for\<close> of the sources;
  the distinction between \<open>Exception\<close> and \<open>CancelledError\<close> (a \<open>BaseException\<close>) is kept in every
  handler. Local variables that nested functions change are a first component of the state
  (\<open>withlocals\<close>, \<open>onworld\<close>). Dictionaries are association lists in insertion order, strings are
  character lists, integers are \<open>int\<close>, as Python's are unbounded. Messages of exceptions that no
  code reads are kept, but may leave out the printed form of an offending object.

  Small calculi carry the proofs, each with one rule per construct: \<open>preserves\<close> (a predicate that
  an operation keeps, however it ends), \<open>takes\<close> (triples of state predicates), \<open>ends\<close> (an operation
  that comes back without an exception), \<open>mild\<close> (nothing escapes but what \<open>except Exception\<close>
  catches), \<open>dutiful\<close> (\<open>mild\<close> and \<open>preserves\<close>), \<open>quiet\<close> and \<open>traces\<close> (what an operation adds to a
  trace of events).

  \<^bold>\<open>Components\<close>

  \<^item> \<open>Capability_Ids\<close> (\<^verbatim>\<open>capabilities/ids.py\<close>): identifiers, their normalisation, and selectors.
  \<^item> \<open>Sandbox_Types\<close> (\<^verbatim>\<open>sandbox/types.py\<close>): operating systems, lease types, hints.
  \<^item> \<open>Domain_Models\<close> (\<^verbatim>\<open>domain/models.py\<close>): the pydantic models as records and datatypes, the
    validators, the digest of a batch result and the idempotency key.
  \<^item> \<open>Event_Bus\<close> (\<^verbatim>\<open>events/bus.py\<close>, \<^verbatim>\<open>events/subscribers/metrics.py\<close>, \<^verbatim>\<open>domain/time.py\<close>).
  \<^item> \<open>State_Machine\<close> (\<^verbatim>\<open>domain/state_machine.py\<close>): the transition tables of runs and batches. The
    locales \<open>status_machine\<close> and \<open>settling_machine\<close> state what a transition table promises; they are
    interpreted on both tables and give the histories.
  \<^item> \<open>Results\<close> and \<open>Result_Persistence\<close> (\<^verbatim>\<open>domain/results.py\<close>): result constructors and
    aggregation; then the persistence of results and the finalisation of unfinished runs.
  \<^item> \<open>Run_Store\<close> (\<^verbatim>\<open>storage/run_store.py\<close>): the store protocol as a record of operations, the
    guards every store shares, the output sidecars, and the locale \<open>run_store_invariant\<close> of a store
    whose operations keep a relation between the states before and after.
  \<^item> \<open>File_Store\<close> (\<^verbatim>\<open>storage/file_store.py\<close>): every operation of the filesystem store, an inductive
    step relation over them, the reachable stores, and the abstract run table they refine.
  \<^item> \<open>Scheduler\<close> and \<open>Staged_Executor\<close> (\<^verbatim>\<open>orchestration/scheduler.py\<close>): the batch scheduler and
    the executor of stages.
  \<^item> \<open>Execution_Plan\<close> (\<^verbatim>\<open>config.py\<close>, \<^verbatim>\<open>domain/policy.py\<close>, \<^verbatim>\<open>execution/resources.py\<close>,
    \<^verbatim>\<open>execution/command/selection.py\<close>, \<^verbatim>\<open>orchestration/execution_plan.py\<close>): configuration readers,
    the policy of a task, resource keys and the gate, and the planner.
  \<^item> \<open>Sandbox_Leases\<close> (\<^verbatim>\<open>sandbox/lease_manager.py\<close>): the lease protocol, the in-memory manager and
    the client of the sandbox service; the locale \<open>lease_contract\<close> is interpreted on the former.
  \<^item> \<open>Sandbox_Coordinator\<close> (\<^verbatim>\<open>sandbox/coordinator.py\<close>, \<^verbatim>\<open>orchestration/run_support.py\<close>): acquiring,
    releasing with retries, releasing stale leases, background clean-up.
  \<^item> \<open>Run_Coordinator\<close> (\<^verbatim>\<open>orchestration/run_coordinator.py\<close>): one attempt of a run with all its
    handlers and its clean-up, retries, cancellation of queued runs, waiting for another owner.
  \<^item> \<open>Attempt_Leases\<close>: the composition of run coordinator, sandbox coordinator, filesystem store and
    in-memory leases, with the locale of stores interpreted once more on the joint state.
  \<^item> \<open>Recovery\<close> (\<^verbatim>\<open>orchestration/recovery.py\<close>, \<^verbatim>\<open>context.py\<close>): reconciliation of stale runs.
  \<^item> \<open>Progress_Port\<close> (\<^verbatim>\<open>presentation/port.py\<close>): the projection options and the progress protocol.
  \<^item> \<open>Batch_Files\<close> (\<^verbatim>\<open>storage/file_store.py\<close>): the batch files of the store and what the operations on
    runs leave of them.
  \<^item> \<open>Run_Keys\<close> (the names of run files), \<open>Materialization\<close> (\<^verbatim>\<open>orchestration/materialization.py\<close>), \<open>Submitter\<close>,
    \<open>Batch_Ownership\<close> and \<open>Batch_Observer\<close> (\<^verbatim>\<open>orchestration/submitter.py\<close>): the submission pipeline,
    from the candidate batch, its owner and its heartbeat to the observer
    of a batch that another process owns.
  \<^item> \<open>Manager\<close> (\<^verbatim>\<open>manager.py\<close>, \<^verbatim>\<open>execution/router.py\<close>, \<^verbatim>\<open>factory.py\<close>): the entry points and the
    cancellation of a turn.
  \<^item> \<open>Capability_Contract\<close> (\<^verbatim>\<open>capabilities/descriptors.py\<close>, \<^verbatim>\<open>capabilities/resolver.py\<close>) and
    \<open>Capability_Executor\<close> (\<^verbatim>\<open>capabilities/executor.py\<close>): descriptors, catalogue, resolution, and the
    lifecycle of a capability run with the scrubbing of secrets.
  \<^item> \<open>Agent_Loop\<close> (\<^verbatim>\<open>sub_agent/loop/contracts.py\<close>, \<^verbatim>\<open>sub_agent/loop/events.py\<close>,
    \<^verbatim>\<open>sub_agent/loop/native.py\<close>): the native engine, which emits its events through a callback.
  \<^item> \<open>Cursors\<close>, \<open>Agent_Profile\<close> and \<open>Tool_Controller\<close> (\<^verbatim>\<open>sub_agent/profile.py\<close>,
    \<^verbatim>\<open>sub_agent/tool_controller.py\<close>): profiles with their ceilings, discovery and promotion of tools.
  \<^item> \<open>Capability_Invoker\<close> (\<^verbatim>\<open>sub_agent/invoker.py\<close>): the child run of a call.
  \<^item> \<open>Sub_Agent_Executor\<close> (\<^verbatim>\<open>sub_agent/executor.py\<close>): the run of a sub-agent.
  \<^item> \<open>Playbook\<close> (\<^verbatim>\<open>experiences/playbook/model.py\<close>, \<^verbatim>\<open>experiences/playbook/delta.py\<close>): bullets, deltas,
    retention, the dictionary form.
  \<^item> \<open>Consolidation\<close> (\<^verbatim>\<open>experiences/playbook/similarity.py\<close>, \<^verbatim>\<open>experiences/playbook/consolidator.py\<close>):
    the scan for similar bullets and the actions of the curator on them.
  \<^item> \<open>Experience\<close> (\<^verbatim>\<open>experiences/service.py\<close>, \<^verbatim>\<open>experiences/runner.py\<close>, \<^verbatim>\<open>experiences/roles.py\<close>,
    \<^verbatim>\<open>experiences/playbook/store.py\<close>): one learning step, saving, and what has been learned.
  \<^item> \<open>Plan_Schema\<close> (\<^verbatim>\<open>schemas/conversation/plan.py\<close>): the plan, its steps and trees of tool calls, and
    their protocol messages. A reference to a call inside a plan is a place (step, call, sub-call).
  \<^item> \<open>Plan_Editor\<close> (\<^verbatim>\<open>tools/plan.py\<close>, \<^verbatim>\<open>storage/plan_fs.py\<close>): the plan file with its marker of
    cancellation, the plan-writing tool, and the operations of the editor. Each operation under the
    lock has a case rule that says what it leaves on disk.
  \<^item> \<open>Plan_View\<close> (\<^verbatim>\<open>presentation/rendering/batch_view.py\<close>, \<^verbatim>\<open>presentation/rendering/run_view.py\<close>,
    \<^verbatim>\<open>presentation/rendering/text_fragments.py\<close>): the end of a plan step, the settling of trees of calls,
    stages and labels.
  \<^item> \<open>Plan_Projection\<close> (\<^verbatim>\<open>presentation/progress_sink.py\<close>): the tree of calls that shows a batch in the plan,
    its ownership, publication, update and repair.

  \<^bold>\<open>What is proved\<close>

  The store: terminal runs are absorbing over any sequence of operations with any arguments; results are accepted
  under the current fencing token only; a claim is exclusive; every operation is a sequence of steps of an
  abstract table. The files stay consistent as long as clients do not reuse the identifier of a run in another
  batch and update runs under their own identity and token (\<open>op_ok\<close>), which the store does not check. The scheduler:
  when its hooks answer, it returns, with one result per run in batch order, within the limits, and nothing is
  started after a stop. The coordinators: an attempt leaves no
  sandbox behind when the plan editor answers; stale runs are settled by the reconciliation.
  The submission pipeline: a submission has one owner, whose batch settles whichever service around the store
  fails; the
  observer of a duplicate ends with one result per run and never writes; a failed materialisation converges; cancelling a
  turn settles its batches. Capabilities: a run settles with its result on file, and secrets that can be scrubbed never
  reach the store.
  Sub-agents: the loop keeps its budgets and reports them exactly, only capabilities below the
  ceiling of the profile are requested, discovery stays within its limits and browsing visits each
  capability once, a repeated call is not executed again, and the run settles with its result on file. Planning: every task gets
  one of its fleets, and each lane fits the tasks and the capacity of its fleet. Learning: pruning takes
  the right bullets and keeps the playbook within its cap, merges conserve the counters, verdicts are
  final, a storable playbook survives being saved. Plans: new calls get fresh identifiers, given items are written and finished steps stay
  finished, a plan survives its protocol message, and exactly when a cancellation is seen. Projection: the tree of another batch is
  never touched, a repair leaves a complete tree, and a recovered step ends. The conditions of each theorem are in the text
  before it.

  \<^bold>\<open>Loops and bounds\<close>

  Loops over lists are recursion or \<open>forE\<close>. The scheduler loop runs over a measure that counts the
  attempts left of every run, so it is a total function. Polling loops (waiting for a run of another
  owner, for a lease, for the start-up passes) run over the time left until the deadline that the
  source checks; there is no fuel that could run out before the source's own bound.

  \<^bold>\<open>Parameters\<close>

  The executor of a run, the progress port, the sandbox service, the clock, fresh identifiers and the
  digests are parameters. So is the order in which asyncio completes tasks: the scheduler takes the
  choice of the tasks that finish in a round, and a race between an operation and the cancellation
  poll takes its winner. Tasks that outlive their caller are kept in a list of background operations
  of the state. Hypotheses on parameters are named definitions, each met by a concrete instance in a
  witness.

  \<^bold>\<open>Failures that are left out\<close>

  The filesystem store is a total model of its directory: reading and writing a file of the store does not fail once
  the guards of an operation have passed, so that an \<^verbatim>\<open>OSError\<close> or a damaged JSON file is not among its
  exceptions. This changes nothing for the theorems about what the store holds (a failed write leaves the file as it was, by the
  atomic replacement), but theorems that an operation comes back or a run settles assume it, and say so. The
  services around the store may raise anything, unless a hypothesis of the theorem excludes it.

  \<^bold>\<open>Not modelled\<close>

  The database store (one remote call per operation); of the presentation, the umbrella plan of a
  delegation, deliverables, the mirror of progress messages and the texts for the user; the rerun sources, the playbook hints, the prompts of experience learning and its parsers of
  trajectories, which build texts and payloads for people and models; the
  adapters that drive a language model (\<^verbatim>\<open>sub_agent/llm.py\<close>, \<^verbatim>\<open>sub_agent/streaming_llm.py\<close>, the
  engines over third-party frameworks) and the transcript file; profile files, capability loaders
  and providers, which read directories; the command backends, the execution environment and the
  artifact store (processes, containers, file copies); chat, tools and model hub; generated protocol
  code, sandbox servers, embedded skills, the Go backend, the front end, the laboratories and the
  scripts.
\<close>

end
